(* ===== verification/Dealflow_Prelude.thy ===== *)
theory Dealflow_Prelude
  imports Complex_Main "HOL-Library.Multiset"
begin

text \<open>
  Shared vocabulary of the DealFlow360 development.

  \<^item> JavaScript numbers. Money, percentages and quantities are TypeScript \<open>number\<close>s; they
    are modelled by exact rationals (\<open>rat\<close>). \<open>Math.round\<close>, \<open>Math.min\<close>, \<open>Math.max\<close> and the
    \<open>round(value, digits)\<close> helpers of the engines are defined here with their error bounds.
  \<^item> \<open>Array.prototype.sort\<close>. The comparator returns a number and the sort is stable; the
    locale \<open>comparator\<close> states what a comparator must promise for the result to be ordered.
  \<^item> Table operations: \<open>find\<close>, \<open>findIndex\<close>-then-replace-or-push (\<open>upsert_by\<close>),
    \<open>findIndex\<close>-then-splice (\<open>remove_first\<close>), update of the object \<open>find\<close> returns
    (\<open>update_first\<close>).
\<close>

named_theorems js_num \<open>bounds and monotonicity of the JavaScript rounding helpers\<close>
named_theorems table_simps \<open>lookup after update on the array tables of the store\<close>

section \<open>Numbers\<close>

type_synonym js_number = rat

text \<open>\<open>Math.round\<close> rounds halves towards plus infinity.\<close>

definition math_round :: "rat \<Rightarrow> rat" where
  "math_round x = of_int \<lfloor>x + 1/2\<rfloor>"

text \<open>\<open>round(value, digits)\<close> of discount-engine.ts and pricing-engine.ts, and the inlined
  \<open>Math.round(v * 100) / 100\<close> of the tax and billing engines.\<close>

definition round_digits :: "rat \<Rightarrow> nat \<Rightarrow> rat" where
  "round_digits value digits = math_round (value * 10 ^ digits) / 10 ^ digits"

definition clamp :: "rat \<Rightarrow> rat \<Rightarrow> rat \<Rightarrow> rat" where
  "clamp value lo hi = min hi (max lo value)"

lemma math_round_le: "math_round x \<le> x + 1/2"
  unfolding math_round_def by (rule of_int_floor_le)

lemma math_round_gt: "x - 1/2 < math_round x"
  unfolding math_round_def by linarith

lemma math_round_mono [js_num]: "x \<le> y \<Longrightarrow> math_round x \<le> math_round y"
  unfolding math_round_def by (simp add: floor_mono)

lemma math_round_of_int [simp]: "math_round (of_int n) = of_int n"
proof -
  have "\<lfloor>(of_int n :: rat) + 1/2\<rfloor> = n" by (intro floor_unique) auto
  then show ?thesis by (simp add: math_round_def)
qed

lemma math_round_0 [simp]: "math_round 0 = 0"
  using math_round_of_int [of 0] by simp

lemma math_round_nonneg [js_num]: "0 \<le> x \<Longrightarrow> 0 \<le> math_round x"
  using math_round_mono [of 0 x] by simp

lemma round_digits_0 [simp]: "round_digits 0 d = 0"
  by (simp add: round_digits_def)

lemma round_digits_mono [js_num]: "x \<le> y \<Longrightarrow> round_digits x d \<le> round_digits y d"
  unfolding round_digits_def
  by (intro divide_right_mono math_round_mono mult_right_mono) auto

lemma round_digits_nonneg [js_num]: "0 \<le> x \<Longrightarrow> 0 \<le> round_digits x d"
  using round_digits_mono [of 0 x d] by simp

lemma round_digits_of_nat_scaled:
  "x * 10 ^ d = of_int n \<Longrightarrow> round_digits x d = x"
  unfolding round_digits_def by (simp add: field_simps)

lemma round_digits_of_int [simp]: "round_digits (of_int n) d = of_int n"
  by (rule round_digits_of_nat_scaled [of _ _ "n * 10 ^ d"]) simp

lemma round_digits_error [js_num]:
  "\<bar>round_digits x d - x\<bar> \<le> 1 / (2 * 10 ^ d)"
proof -
  let ?f = "10 ^ d :: rat"
  have f: "0 < ?f" by simp
  have up: "math_round (x * ?f) \<le> x * ?f + 1/2" by (rule math_round_le)
  have lo: "x * ?f - 1/2 < math_round (x * ?f)" by (rule math_round_gt)
  have "\<bar>math_round (x * ?f) - x * ?f\<bar> \<le> 1/2" using up lo by linarith
  then have "\<bar>math_round (x * ?f) - x * ?f\<bar> / ?f \<le> (1/2) / ?f"
    by (rule divide_right_mono) simp
  moreover have "round_digits x d - x = (math_round (x * ?f) - x * ?f) / ?f"
    by (simp add: round_digits_def field_simps)
  ultimately show ?thesis using f by (simp add: abs_divide)
qed

lemma round_digits_upper: "round_digits x d \<le> x + 1 / (2 * 10 ^ d)"
  using abs_le_D1 [OF round_digits_error [of x d]] by (simp add: algebra_simps)

lemma round_digits_lower: "x - 1 / (2 * 10 ^ d) \<le> round_digits x d"
  using abs_le_D2 [OF round_digits_error [of x d]] by (simp add: algebra_simps)

lemma round_digits_le_int [js_num]:
  assumes "x \<le> of_int n" shows "round_digits x d \<le> of_int n"
  using round_digits_mono [OF assms, of d] by simp

lemma clamp_bounds: "lo \<le> hi \<Longrightarrow> lo \<le> clamp v lo hi \<and> clamp v lo hi \<le> hi"
  by (auto simp: clamp_def)

lemma clamp_id: "lo \<le> v \<Longrightarrow> v \<le> hi \<Longrightarrow> clamp v lo hi = v"
  by (simp add: clamp_def)

lemma clamp_mono: "v \<le> v' \<Longrightarrow> clamp v lo hi \<le> clamp v' lo hi"
  by (auto simp: clamp_def)

section \<open>Stable sorting with a comparator\<close>

fun js_insert :: "('a \<Rightarrow> 'a \<Rightarrow> rat) \<Rightarrow> 'a \<Rightarrow> 'a list \<Rightarrow> 'a list" where
  "js_insert cmp x [] = [x]"
| "js_insert cmp x (y # ys) = (if cmp x y \<le> 0 then x # y # ys else y # js_insert cmp x ys)"

fun js_sort :: "('a \<Rightarrow> 'a \<Rightarrow> rat) \<Rightarrow> 'a list \<Rightarrow> 'a list" where
  "js_sort cmp [] = []"
| "js_sort cmp (x # xs) = js_insert cmp x (js_sort cmp xs)"

text \<open>\<open>arr[0]\<close>: \<open>undefined\<close> on an empty array.\<close>

definition first :: "'a list \<Rightarrow> 'a option" where
  "first xs = (case xs of [] \<Rightarrow> None | x # _ \<Rightarrow> Some x)"

lemma first_simps [simp]: "first [] = None" "first (x # xs) = Some x"
  by (simp_all add: first_def)

lemma first_None_iff [simp]: "first xs = None \<longleftrightarrow> xs = []"
  by (cases xs) auto

lemma first_in_set: "first xs = Some x \<Longrightarrow> x \<in> set xs"
  by (cases xs) auto

lemma mset_js_insert [simp]: "mset (js_insert cmp x xs) = add_mset x (mset xs)"
  by (induction xs) auto

lemma mset_js_sort [simp]: "mset (js_sort cmp xs) = mset xs"
  by (induction xs) auto

lemma set_js_sort [simp]: "set (js_sort cmp xs) = set xs"
  using mset_js_sort mset_eq_setD by metis

lemma length_js_sort [simp]: "length (js_sort cmp xs) = length xs"
  using mset_js_sort mset_eq_length by metis

lemma js_sort_Nil_iff [simp]: "js_sort cmp xs = [] \<longleftrightarrow> xs = []"
  using length_js_sort by (metis length_0_conv)

lemma js_insert_map: "js_insert cmp (f x) (map f xs) = map f (js_insert (\<lambda>a b. cmp (f a) (f b)) x xs)"
  by (induction xs) auto

lemma js_sort_map: "js_sort cmp (map f xs) = map f (js_sort (\<lambda>a b. cmp (f a) (f b)) xs)"
  by (induction xs) (auto simp: js_insert_map)

lemma js_sort_distinct_map [simp]: "distinct (map f (js_sort cmp xs)) = distinct (map f xs)"
  by (metis distinct_map mset_eq_imp_distinct_iff mset_js_sort mset_map)

text \<open>
  What \<open>Array.prototype.sort\<close> asks of its comparator: antisymmetric in sign and transitive.
  Under this contract the result is ordered, its head is a minimum, and elements the
  comparator cannot tell apart keep their order.
\<close>

locale comparator =
  fixes cmp :: "'a \<Rightarrow> 'a \<Rightarrow> rat"
  assumes cmp_flip: "cmp x y \<le> 0 \<or> cmp y x \<le> 0"
    and cmp_trans: "cmp x y \<le> 0 \<Longrightarrow> cmp y z \<le> 0 \<Longrightarrow> cmp x z \<le> 0"
begin

lemma cmp_refl: "cmp x x \<le> 0"
  using cmp_flip by blast

lemma sorted_js_insert:
  "sorted_wrt (\<lambda>a b. cmp a b \<le> 0) xs \<Longrightarrow> sorted_wrt (\<lambda>a b. cmp a b \<le> 0) (js_insert cmp x xs)"
proof (induction xs)
  case Nil
  then show ?case by simp
next
  case (Cons y ys)
  have set_ins: "set (js_insert cmp x ys) = insert x (set ys)"
    by (metis mset_js_insert set_mset_mset set_mset_add_mset_insert)
  show ?case
  proof (cases "cmp x y \<le> 0")
    case True
    then show ?thesis using Cons.prems by (auto intro: cmp_trans)
  next
    case False
    then have "cmp y x \<le> 0" using cmp_flip by blast
    then show ?thesis using False Cons by (auto simp: set_ins)
  qed
qed

lemma sorted_js_sort: "sorted_wrt (\<lambda>a b. cmp a b \<le> 0) (js_sort cmp xs)"
  by (induction xs) (auto intro: sorted_js_insert)

lemma first_js_sort_min:
  assumes "first (js_sort cmp xs) = Some m" and "x \<in> set xs"
  shows "cmp m x \<le> 0"
proof -
  obtain ys where s: "js_sort cmp xs = m # ys" using assms(1) by (cases "js_sort cmp xs") auto
  have "x \<in> set (m # ys)" using assms(2) s set_js_sort [of cmp xs] by simp
  moreover have "sorted_wrt (\<lambda>a b. cmp a b \<le> 0) (m # ys)" using sorted_js_sort [of xs] s by simp
  ultimately show ?thesis by (auto intro: cmp_refl)
qed

lemma first_js_sort_mem: "first (js_sort cmp xs) = Some m \<Longrightarrow> m \<in> set xs"
  using first_in_set set_js_sort by metis

end

text \<open>Stability: elements the comparator does not separate keep their relative order.\<close>

lemma js_insert_stable:
  assumes tie: "\<And>a b. P a \<Longrightarrow> P b \<Longrightarrow> cmp a b \<le> 0"
  shows "filter P (js_insert cmp x xs) = filter P (x # xs)"
proof (induction xs)
  case Nil
  then show ?case by simp
next
  case (Cons y ys)
  show ?case
  proof (cases "cmp x y \<le> 0")
    case True
    then show ?thesis by simp
  next
    case False
    then have "\<not> (P x \<and> P y)" using tie by blast
    then show ?thesis using False Cons by auto
  qed
qed

lemma js_sort_stable:
  assumes tie: "\<And>a b. P a \<Longrightarrow> P b \<Longrightarrow> cmp a b \<le> 0"
  shows "filter P (js_sort cmp xs) = filter P xs"
proof (induction xs)
  case Nil
  then show ?case by simp
next
  case (Cons x xs)
  have "filter P (js_insert cmp x (js_sort cmp xs)) = filter P (x # js_sort cmp xs)"
    by (rule js_insert_stable) (rule tie)
  then show ?case using Cons by simp
qed

text \<open>The comparators of the engines are differences of keys, or a difference of one key with
  a difference of another as tie-breaker.\<close>

definition by_key :: "('a \<Rightarrow> rat) \<Rightarrow> 'a \<Rightarrow> 'a \<Rightarrow> rat" where
  "by_key f l r = f l - f r"

definition by_key2 :: "('a \<Rightarrow> rat) \<Rightarrow> ('a \<Rightarrow> rat) \<Rightarrow> 'a \<Rightarrow> 'a \<Rightarrow> rat" where
  "by_key2 f g l r = (if f l - f r \<noteq> 0 then f l - f r else g l - g r)"

lemma comparator_by_key: "comparator (by_key f)"
  by unfold_locales (auto simp: by_key_def)

lemma comparator_by_key2: "comparator (by_key2 f g)"
  by unfold_locales (auto simp: by_key2_def split: if_splits)

lemma by_key2_le: "by_key2 f g l r \<le> 0 \<longleftrightarrow> f l < f r \<or> (f l = f r \<and> g l \<le> g r)"
  by (auto simp: by_key2_def)

section \<open>Tables\<close>

lemma find_SomeD: "find P xs = Some x \<Longrightarrow> P x \<and> x \<in> set xs"
  by (induction xs) (auto split: if_splits)

lemma find_None_all: "find P xs = None \<longleftrightarrow> (\<forall>x\<in>set xs. \<not> P x)"
  by (induction xs) auto

lemma find_some_iff_ex: "(\<exists>x. find P xs = Some x) \<longleftrightarrow> (\<exists>x\<in>set xs. P x)"
  by (metis find_None_all not_None_eq)

lemma find_unique:
  assumes "distinct (map key xs)" and "x \<in> set xs" and "key x = k"
  shows "find (\<lambda>y. key y = k) xs = Some x"
  using assms by (induction xs) auto

text \<open>In-place update of the object that \<open>find\<close> returns.\<close>

fun update_first :: "('a \<Rightarrow> bool) \<Rightarrow> ('a \<Rightarrow> 'a) \<Rightarrow> 'a list \<Rightarrow> 'a list" where
  "update_first P f [] = []"
| "update_first P f (x # xs) = (if P x then f x # xs else x # update_first P f xs)"

text \<open>\<open>findIndex\<close>, then overwrite that slot or push.\<close>

fun upsert_by :: "('a \<Rightarrow> bool) \<Rightarrow> 'a \<Rightarrow> 'a list \<Rightarrow> 'a list" where
  "upsert_by P v [] = [v]"
| "upsert_by P v (x # xs) = (if P x then v # xs else x # upsert_by P v xs)"

text \<open>\<open>findIndex\<close>, then splice one element out.\<close>

fun remove_first :: "('a \<Rightarrow> bool) \<Rightarrow> 'a list \<Rightarrow> 'a list" where
  "remove_first P [] = []"
| "remove_first P (x # xs) = (if P x then xs else x # remove_first P xs)"

lemma length_update_first [simp]: "length (update_first P f xs) = length xs"
  by (induction xs) auto

lemma map_update_first:
  "(\<And>x. P x \<Longrightarrow> g (f x) = g x) \<Longrightarrow> map g (update_first P f xs) = map g xs"
  by (induction xs) auto

lemma update_first_id: "find P xs = None \<Longrightarrow> update_first P f xs = xs"
  by (induction xs) (auto split: if_splits)

lemma set_update_first_subset: "set (update_first P f xs) \<subseteq> set xs \<union> f ` {x \<in> set xs. P x}"
  by (induction xs) auto

lemma find_update_first_same [table_simps]:
  assumes "\<And>x. P x \<Longrightarrow> P (f x)"
  shows "find P (update_first P f xs) = map_option f (find P xs)"
  using assms by (induction xs) auto

lemma find_update_first_other [table_simps]:
  assumes "\<And>x. P x \<Longrightarrow> \<not> Q x" and "\<And>x. P x \<Longrightarrow> \<not> Q (f x)"
  shows "find Q (update_first P f xs) = find Q xs"
  using assms by (induction xs) auto

lemma find_upsert_same [table_simps]: "P v \<Longrightarrow> find P (upsert_by P v xs) = Some v"
  by (induction xs) auto

lemma find_upsert_other [table_simps]:
  "(\<And>x. P x \<Longrightarrow> \<not> Q x) \<Longrightarrow> \<not> Q v \<Longrightarrow> find Q (upsert_by P v xs) = find Q xs"
  by (induction xs) auto

lemma find_remove_first_other [table_simps]:
  "(\<And>x. P x \<Longrightarrow> \<not> Q x) \<Longrightarrow> find Q (remove_first P xs) = find Q xs"
  by (induction xs) auto

lemma set_upsert_by: "set (upsert_by P v xs) \<subseteq> insert v (set xs)"
  by (induction xs) auto

lemma set_remove_first: "set (remove_first P xs) \<subseteq> set xs"
  by (induction xs) auto

lemma distinct_upsert_key:
  assumes "distinct (map key xs)"
  shows "distinct (map key (upsert_by (\<lambda>x. key x = key v) v xs))"
proof -
  have keys: "key ` set (upsert_by (\<lambda>x. key x = key v) v xs) \<subseteq> insert (key v) (key ` set xs)" for xs
    by (induction xs) auto
  show ?thesis using assms
  proof (induction xs)
    case Nil
    then show ?case by simp
  next
    case (Cons x xs)
    then show ?case using keys [of xs] by auto
  qed
qed

lemma distinct_remove_first_key:
  assumes "distinct (map key xs)" shows "distinct (map key (remove_first P xs))"
  using assms
proof (induction xs)
  case (Cons x xs)
  then show ?case using set_remove_first [of P xs] by auto
qed simp

lemma find_remove_first_key [table_simps]:
  assumes "distinct (map key xs)"
  shows "find (\<lambda>x. key x = k) (remove_first (\<lambda>x. key x = k) xs) = None"
  using assms
proof (induction xs)
  case (Cons x xs)
  then show ?case by (cases "key x = k") (auto simp: find_None_all image_iff)
qed simp

section \<open>Sums over tables\<close>

lemma sum_list_filter_split:
  fixes f :: "'a \<Rightarrow> rat"
  shows "sum_list (map f xs) = sum_list (map f (filter P xs)) + sum_list (map f (filter (\<lambda>x. \<not> P x) xs))"
  by (induction xs) auto

lemma sum_list_nonneg_map:
  fixes f :: "'a \<Rightarrow> rat"
  shows "(\<And>x. x \<in> set xs \<Longrightarrow> 0 \<le> f x) \<Longrightarrow> 0 \<le> sum_list (map f xs)"
  by (induction xs) auto

lemma foldl_plus_sum_list:
  fixes f :: "'a \<Rightarrow> rat"
  shows "foldl (\<lambda>acc x. acc + f x) a xs = a + sum_list (map f xs)"
  by (induction xs arbitrary: a) auto

section \<open>Transition systems\<close>

text \<open>A transition system with an invariant and a relation its steps respect; runs respect both.\<close>

locale guarded_system =
  fixes tr :: "'s \<Rightarrow> 's \<Rightarrow> bool" and inv :: "'s \<Rightarrow> bool" and rel :: "'s \<Rightarrow> 's \<Rightarrow> bool"
  assumes tr_inv: "inv s \<Longrightarrow> tr s t \<Longrightarrow> inv t" and tr_rel: "inv s \<Longrightarrow> tr s t \<Longrightarrow> rel s t"
    and rel_refl: "rel s s" and rel_trans: "inv s \<Longrightarrow> rel s t \<Longrightarrow> rel t u \<Longrightarrow> rel s u"
begin

lemma run_inv: "tr\<^sup>*\<^sup>* s t \<Longrightarrow> inv s \<Longrightarrow> inv t"
  by (induction rule: rtranclp_induct) (auto intro: tr_inv)

lemma run_rel: "tr\<^sup>*\<^sup>* s t \<Longrightarrow> inv s \<Longrightarrow> rel s t"
proof (induction rule: rtranclp_induct)
  case base
  show ?case by (rule rel_refl)
next
  case (step t u)
  then show ?case using rel_trans run_inv tr_rel by blast
qed

end

end
