(* ===== verification/Dealflow_Types.thy ===== *)
theory Dealflow_Types
  imports Dealflow_Prelude
begin

text \<open>
  The data model of \<open>modules/problem/src/dealflow/types.ts\<close>: one \<open>datatype\<close> per string-literal
  union and one \<open>record\<close> per interface, with the fields in the source's order. A field of an
  interface carries a two- or three-letter prefix for its interface, because HOL field names
  are global. Optional and nullable fields (\<open>x?: T | null\<close>) are \<open>option\<close>s; \<open>undefined\<close> and
  \<open>null\<close> are both \<open>None\<close>, as every test of the source uses \<open>== null\<close>, \<open>??\<close> or truthiness.
  ISO timestamps are milliseconds since the epoch (\<open>int\<close>).

  The last section is \<open>errors.ts\<close>: the four constructors of \<open>DomainError\<close> and the messages that
  the engines and the service throw, each with the values of its \<open>details\<close> object that the
  source interpolates.
\<close>

section \<open>Enumerations\<close>

datatype customer_tier = T_standard | T_silver | T_gold | T_strategic | T_platinum

datatype loyalty_tier = L_new | L_gold | L_platinum

datatype billing_type = One_time | Recurring

datatype billing_frequency = Monthly | Quarterly | Yearly

datatype quote_status =
    Q_draft
  | Q_approval_required
  | Q_approved
  | Q_customer_negotiation
  | Q_manager_review
  | Q_finalized
  | Q_confirmed
  | Q_fulfillment
  | Q_billing
  | Q_completed
  | Q_rejected

datatype discount_decision = D_allowed | D_warning | D_approval_required | D_rejected

datatype approval_status = A_pending | A_approved | A_rejected | A_skipped | A_invalidated

datatype billing_status = B_scheduled | B_invoiced | B_cancelled

datatype relation_kind = Upsell | Cross_sell

datatype approval_role_key = R_manager | R_finance | R_final

datatype customer_decision = C_none | C_accepted | C_declined

datatype quote_email_event = E_prelim_invoice | E_final_invoice

datatype quote_email_status = M_pending | M_not_configured | M_sent | M_failed

datatype negotiation_status =
    N_open
  | N_in_review
  | N_sent_to_manager
  | N_manager_revised
  | N_returned_to_customer
  | N_accepted
  | N_rejected
  | N_resolved
  | N_agreed
  | N_withdrawn

datatype line_action = LA_add | LA_remove | LA_update

datatype anomaly_severity = S_warning | S_critical

datatype anomaly_status = AN_open | AN_acknowledged | AN_resolved | AN_dismissed

datatype quantity_adjustment_kind = AK_fixed | AK_percent

datatype authority_exceed_action = X_allow | X_approval | X_block

section \<open>Interfaces\<close>

record actor =
  act_id :: string
  act_email :: "string option"
  act_role :: "string option"
  act_roles :: "string list option"
  act_permissions :: "string list option"

record customer =
  cu_id :: string
  cu_name :: string
  cu_email :: string
  cu_tier :: customer_tier
  cu_odooPartnerId :: "int option"

record product =
  pr_id :: string
  pr_sku :: string
  pr_name :: string
  pr_category :: string
  pr_listPrice :: js_number
  pr_cost :: js_number
  pr_billingType :: billing_type
  pr_billingFrequency :: "billing_frequency option"
  pr_description :: "string option"
  pr_taxCategory :: "string option"
  pr_taxRatePercent :: "js_number option"
  pr_active :: "bool option"
  pr_taxable :: "bool option"
  pr_odooProductId :: "int option"
  pr_createdAt :: "int option"
  pr_updatedAt :: "int option"

record product_relation =
  rel_id :: string
  rel_productId :: string
  rel_recommendedProductId :: string
  rel_kind :: relation_kind
  rel_reason :: string
  rel_promotion :: "string option"
  rel_minQuantity :: js_number

record warehouse =
  wh_id :: string
  wh_name :: string
  wh_fulfillmentCostPerUnit :: js_number
  wh_odooWarehouseId :: "int option"

record stock_level =
  st_warehouseId :: string
  st_productId :: string
  st_quantityOnHand :: js_number
  st_reserved :: js_number
  st_incoming :: "js_number option"

record discount_policy =
  po_id :: string
  po_name :: string
  po_customerTier :: "customer_tier option"
  po_productCategory :: "string option"
  po_warningPercent :: js_number
  po_approvalPercent :: js_number
  po_rejectPercent :: js_number
  po_maxMarginImpactPercent :: js_number
  po_priority :: js_number
  po_description :: "string option"
  po_active :: "bool option"

record quantity_break =
  qb_id :: string
  qb_name :: string
  qb_productId :: string
  qb_customerTier :: "customer_tier option"
  qb_minQuantity :: js_number
  qb_maxQuantity :: "js_number option"
  qb_adjustmentKind :: quantity_adjustment_kind
  qb_adjustmentValue :: js_number
  qb_active :: "bool option"

record role_authority =
  ra_roleKey :: string
  ra_maxDiscountPercent :: js_number
  ra_minMarginPercent :: js_number
  ra_maxPriceOverridePercent :: js_number
  ra_canNegotiate :: bool
  ra_exceedAction :: authority_exceed_action

record warehouse_availability =
  wa_warehouseId :: string
  wa_name :: string
  wa_available :: js_number

record approval_chain_step =
  cs_id :: string
  cs_chainId :: string
  cs_stepOrder :: int
  cs_roleKey :: approval_role_key
  cs_label :: string

record approval_chain =
  ch_id :: string
  ch_name :: string
  ch_minRiskScore :: js_number
  ch_minBlendedDiscountPercent :: js_number
  ch_priority :: js_number
  ch_active :: "bool option"
  ch_steps :: "approval_chain_step list"

record quote_line =
  ln_id :: string
  ln_quoteId :: string
  ln_productId :: string
  ln_quantity :: js_number
  ln_listPrice :: js_number
  ln_discountPercent :: js_number
  ln_unitCost :: js_number
  ln_recommendedFromId :: "string option"

record quote =
  qt_id :: string
  qt_number :: string
  qt_customerId :: string
  qt_ownerId :: "string option"
  qt_status :: quote_status
  qt_listTotal :: js_number
  qt_discountTotal :: js_number
  qt_netTotal :: js_number
  qt_costTotal :: js_number
  qt_marginPercent :: js_number
  qt_blendedDiscountPercent :: js_number
  qt_riskScore :: js_number
  qt_assessmentDecision :: discount_decision
  qt_requiredChainId :: "string option"
  qt_portalToken :: string
  qt_version :: int
  qt_odooSaleOrderId :: "int option"
  qt_taxTotal :: js_number
  qt_customerDecision :: customer_decision
  qt_customerDecisionAt :: "int option"
  qt_customerDecisionComment :: "string option"
  qt_customerDecisionVersion :: "int option"
  qt_commerciallyFrozenAt :: "int option"
  qt_commerciallyFrozenBy :: "string option"
  qt_financeLockedAt :: "int option"
  qt_financeLockedBy :: "string option"
  qt_activeNegotiationId :: "string option"
  qt_createdAt :: int
  qt_updatedAt :: int

text \<open>\<open>previousValues\<close> and \<open>newValues\<close> are \<open>unknown\<close> in the source; its only writer stores the
  quote's status and risk score, and the decision taken.\<close>

record quote_approval =
  ap_id :: string
  ap_quoteId :: string
  ap_chainId :: string
  ap_stepOrder :: int
  ap_roleKey :: approval_role_key
  ap_label :: string
  ap_status :: approval_status
  ap_actorId :: "string option"
  ap_decidedAt :: "int option"
  ap_decision :: "string option"
  ap_reason :: "string option"
  ap_previousValues :: "(quote_status \<times> js_number) option"
  ap_newValues :: "approval_status option"

record fulfillment_split =
  fs_id :: string
  fs_quoteId :: string
  fs_quoteLineId :: string
  fs_warehouseId :: string
  fs_quantity :: js_number
  fs_unitFulfillmentCost :: js_number
  fs_isBackorder :: bool
  fs_isManualOverride :: bool

record backorder =
  bo_id :: string
  bo_quoteId :: string
  bo_productId :: string
  bo_quantity :: js_number

record billing_schedule =
  bs_id :: string
  bs_quoteId :: string
  bs_quoteLineId :: string
  bs_billingType :: billing_type
  bs_frequency :: "billing_frequency option"
  bs_amount :: js_number
  bs_status :: billing_status
  bs_nextBillingAt :: "int option"
  bs_cancelledAt :: "int option"
  bs_prorationAmount :: js_number
  bs_refundAmount :: js_number
  bs_odooInvoiceId :: "int option"

text \<open>\<open>snapshot\<close> is \<open>unknown\<close> in the source; \<open>appendRevision\<close> stores these four fields.\<close>

record revision_snapshot =
  rs_status :: quote_status
  rs_lines :: "quote_line list"
  rs_blendedDiscountPercent :: js_number
  rs_netTotal :: js_number

record quote_revision =
  rv_id :: string
  rv_quoteId :: string
  rv_version :: int
  rv_snapshot :: revision_snapshot
  rv_materialChange :: bool
  rv_createdBy :: "string option"
  rv_createdAt :: int

record quote_aggregate =
  ag_quote :: quote
  ag_customer :: customer
  ag_lines :: "quote_line list"
  ag_products :: "product list"
  ag_approvals :: "quote_approval list"
  ag_allocations :: "fulfillment_split list"
  ag_backorders :: "backorder list"
  ag_schedules :: "billing_schedule list"
  ag_revisions :: "quote_revision list"

record negotiation_requested_line =
  nl_productId :: "string option"
  nl_lineId :: "string option"
  nl_quantity :: "js_number option"
  nl_discountPercent :: "js_number option"
  nl_action :: "line_action option"
  nl_requestType :: "string option"
  nl_comment :: "string option"
  nl_originalQuantity :: "js_number option"
  nl_originalDiscountPercent :: "js_number option"

record negotiation_request =
  ng_id :: string
  ng_quoteId :: string
  ng_customerId :: string
  ng_actorId :: "string option"
  ng_actorRole :: "string option"
  ng_requestedDiscountPercent :: "js_number option"
  ng_requestedTargetAmount :: "js_number option"
  ng_requestedLines :: "negotiation_requested_line list"
  ng_note :: string
  ng_quoteVersion :: "int option"
  ng_responseNote :: "string option"
  ng_respondedBy :: "string option"
  ng_respondedAt :: "int option"
  ng_status :: negotiation_status
  ng_createdAt :: int
  ng_updatedAt :: int

record governance_config =
  gc_cumulativeWarningLimit :: js_number
  gc_materialDiscountDeltaPp :: js_number
  gc_materialTotalDeltaRatio :: js_number
  gc_highValueNetTotal :: js_number
  gc_maxApprovalLevels :: js_number
  gc_taxRatePercent :: js_number
  gc_staleQuoteDays :: js_number
  gc_unusualDiscountPercent :: js_number
  gc_largeDealNetTotal :: js_number
  gc_maxCommercialDiscountPercent :: js_number
  gc_allowLoyaltyStacking :: bool

definition DEFAULT_GOVERNANCE :: governance_config where
  "DEFAULT_GOVERNANCE = \<lparr>
     gc_cumulativeWarningLimit = 2,
     gc_materialDiscountDeltaPp = 2,
     gc_materialTotalDeltaRatio = 1/10,
     gc_highValueNetTotal = 25000,
     gc_maxApprovalLevels = 3,
     gc_taxRatePercent = 0,
     gc_staleQuoteDays = 7,
     gc_unusualDiscountPercent = 25,
     gc_largeDealNetTotal = 50000,
     gc_maxCommercialDiscountPercent = 25,
     gc_allowLoyaltyStacking = True\<rparr>"

definition APPROVAL_PERMISSIONS :: "approval_role_key \<Rightarrow> string" where
  "APPROVAL_PERMISSIONS r = (case r of
     R_manager \<Rightarrow> ''dealflow.approvals.manager''
   | R_finance \<Rightarrow> ''dealflow.approvals.finance''
   | R_final \<Rightarrow> ''dealflow.approvals.final'')"

section \<open>Assessments, plans and derived views\<close>

text \<open>
  A reason is the text the engine pushes, kept as its template and the values interpolated
  into it. \<open>R_override\<close> is the only template with the words "Unit price override".
\<close>

datatype reason =
    R_exceeds_reject js_number js_number string
  | R_exceeds_approval js_number js_number string
  | R_exceeds_warning js_number js_number string
  | R_margin_erosion js_number js_number string
  | R_within string
  | R_role_range js_number string js_number
  | R_margin_floor js_number string js_number
  | R_override js_number string js_number
  | R_cumulative nat js_number
  | R_high_value js_number js_number
  | R_merge_risk nat
  | R_chain_selected string js_number js_number

datatype approval_scope = Scope_line | Scope_quote

record line_assessment =
  la_lineId :: string
  la_productId :: string
  la_sku :: string
  la_quantity :: js_number
  la_discountPercent :: js_number
  la_listAmount :: js_number
  la_netAmount :: js_number
  la_costAmount :: js_number
  la_marginPercent :: js_number
  la_marginErosionPercent :: js_number
  la_policyId :: string
  la_policyName :: string
  la_decision :: discount_decision
  la_reasons :: "reason list"
  la_basePrice :: js_number
  la_appliedPrice :: js_number
  la_pricingRuleName :: "string \<times> bool"
  la_roleLimitExceeded :: bool
  la_approvalScope :: approval_scope
  la_warehouses :: "warehouse_availability list"
  la_totalAvailable :: js_number
  la_shortfall :: js_number

record quote_assessment =
  qa_decision :: discount_decision
  qa_blendedDiscountPercent :: js_number
  qa_riskScore :: js_number
  qa_listTotal :: js_number
  qa_discountTotal :: js_number
  qa_netTotal :: js_number
  qa_costTotal :: js_number
  qa_marginPercent :: js_number
  qa_warningCount :: nat
  qa_approvalLineCount :: nat
  qa_rejectedCount :: nat
  qa_cumulativeEscalated :: bool
  qa_requiredChainId :: "string option"
  qa_requiredChainName :: "string option"
  qa_lines :: "line_assessment list"
  qa_reasons :: "reason list"
  qa_highValue :: bool
  qa_mergeRisk :: bool
  qa_mergeRiskReasons :: "reason list"

record fulfillment_plan =
  fp_allocations :: "fulfillment_split list"
  fp_backorders :: "backorder list"
  fp_shipmentCount :: nat
  fp_fulfillmentCost :: js_number
  fp_backorderQuantity :: js_number

record recommendation =
  rc_relationId :: string
  rc_kind :: relation_kind
  rc_product :: product
  rc_reason :: string
  rc_promotion :: "string option"
  rc_priceImpact :: js_number
  rc_marginImpact :: js_number

text \<open>Anomaly types are strings in the source; \<open>detectQuoteAnomalies\<close> writes these seven.\<close>

datatype anomaly_type =
    AT_unusual_discount
  | AT_large_deal
  | AT_price_override
  | AT_repeated_approval
  | AT_negotiation_spike
  | AT_stale_deal
  | AT_inventory_shortfall

text \<open>The description text, as its template and the values interpolated into it.\<close>

datatype anomaly_text =
    AD_unusual_discount string js_number js_number
  | AD_large_deal string js_number js_number
  | AD_price_override string
  | AD_repeated_approval string nat
  | AD_negotiation_spike string
  | AD_stale_deal string js_number
  | AD_inventory_shortfall string

record dealflow_anomaly =
  an_id :: string
  an_type :: anomaly_type
  an_severity :: anomaly_severity
  an_entityType :: string
  an_entityId :: string
  an_quoteId :: "string option"
  an_description :: anomaly_text
  an_status :: anomaly_status
  an_resolution :: "string option"
  an_resolverId :: "string option"
  an_detectedAt :: int
  an_updatedAt :: int

record quote_email_line =
  el_sku :: string
  el_name :: string
  el_quantity :: js_number
  el_unitPrice :: js_number
  el_discountPercent :: js_number
  el_lineNet :: js_number
  el_billingType :: billing_type
  el_billingFrequency :: "billing_frequency option"

record quote_email_document =
  ed_kind :: quote_email_event
  ed_customerName :: string
  ed_quoteNumber :: string
  ed_quoteVersion :: int
  ed_status :: quote_status
  ed_approvalStatus :: string
  ed_lines :: "quote_email_line list"
  ed_listTotal :: js_number
  ed_discountTotal :: js_number
  ed_taxTotal :: js_number
  ed_netTotal :: js_number
  ed_grandTotal :: js_number
  ed_payableAmount :: js_number
  ed_recurringMonthly :: js_number
  ed_recurringAnnual :: js_number
  ed_financeLocked :: bool

text \<open>The idempotency key \<open>dealflow:quote:<id>:<event>:<stamp>\<close> as its three components; the stamp
  is the finance-lock instant, the version, or the word \<open>prelim\<close>.\<close>

datatype email_stamp = Stamp_lockedAt int | Stamp_version int | Stamp_prelim

type_synonym email_key = "string \<times> quote_email_event \<times> email_stamp"

record quote_email_delivery =
  em_id :: string
  em_quoteId :: string
  em_eventType :: quote_email_event
  em_quoteVersion :: int
  em_recipientEmail :: string
  em_status :: quote_email_status
  em_idempotencyKey :: email_key
  em_notificationDeliveryId :: "string option"
  em_provider :: "string option"
  em_providerMessageId :: "string option"
  em_errorMessage :: "string option"
  em_payload :: quote_email_document
  em_sentAt :: "int option"
  em_createdAt :: int
  em_updatedAt :: int

section \<open>Errors\<close>

datatype authority_msg =
    Discount_over_authority js_number js_number js_number js_number
  | Price_override_over_authority js_number js_number
  | Not_allowed string
  | Only_manager
  | Role_cannot_negotiate
  | Own_quotations_only

datatype approval_msg =
    Chain_required_not_configured
  | Approval_step_not_found
  | Approval_step_is approval_status
  | Previous_step_first string
  | Step_requires string approval_role_key

datatype fulfillment_msg =
    Insufficient_stock string string js_number js_number
  | Override_unknown_line string
  | Override_not_positive
  | Override_unknown_warehouse string
  | Override_exceeds_line string js_number
  | Stock_row_missing string "string option"
  | Reservation_exceeds_on_hand string "string option" js_number js_number
  | Stock_row_missing_at_confirmation string "string option"

datatype billing_msg =
    Billing_requires_product string
  | Schedule_already_cancelled
  | Schedule_not_found string

datatype governance_msg =
    Break_name_required nat
  | Break_product_required nat
  | Break_min_quantity nat
  | Break_min_exceeds_max nat
  | Break_fixed_negative nat
  | Break_percent_range nat
  | Break_overlap string string
  | Role_key_required nat
  | Duplicate_role string
  | Role_max_discount_range string
  | Role_min_margin_range string
  | Role_price_override_range string
  | Governance_range string

datatype catalog_msg =
    Product_not_found string
  | Product_inactive string
  | Customer_not_found string
  | Warehouse_not_found string
  | Policy_not_found string
  | Chain_not_found string
  | Relation_not_found string
  | In_use string nat
  | Required_field string
  | Sku_exists string
  | Self_recommendation
  | Invalid_field string

datatype quotation_msg =
    Updated_by_another_user int int
  | Quote_not_found string
  | Unknown_line_product string
  | Customer_missing_on_quote
  | Locked_quotation quote_status
  | Commercials_closed quote_status
  | No_chain_for_material_change
  | Quantity_not_positive
  | Discount_out_of_range
  | Line_not_found string
  | Unit_price_negative
  | Portal_token_invalid
  | Anomaly_not_found string
  | Staff_only_payload

datatype workflow_msg =
    Void_instead quote_status
  | Cannot_delete quote_status
  | Delete_instead quote_status
  | Cannot_void quote_status
  | Locked_order quote_status
  | Not_finalized quote_status
  | Needs_a_line
  | Exceeds_reject_ceilings
  | Not_waiting_for_approval
  | Not_finalizable quote_status
  | Planning_closed quote_status
  | Billing_closed quote_status
  | Cannot_lock_from quote_status
  | Still_requires_approval
  | Outside_reject_ceilings
  | Cannot_complete_from quote_status

datatype negotiation_msg =
    Only_draft_negotiation
  | Quotation_not_open quote_status
  | Negotiation_already_open string
  | Negotiation_not_found string
  | Not_open_for_manager quote_status
  | Not_in_manager_review
  | Not_waiting_for_customer
  | Confirm_after_revision
  | Not_open_for_customer
  | Not_open_for_acceptance
  | Not_own_quotation
  | Decision_must_be_accept_or_decline
  | Recommendation_not_found string
  | Recommendation_not_applicable

datatype err_message =
    Cannot_move quote_status quote_status
  | Authority authority_msg
  | Approval approval_msg
  | Fulfillment fulfillment_msg
  | Billing billing_msg
  | Governance governance_msg
  | Catalog catalog_msg
  | Quotation quotation_msg
  | Workflow workflow_msg
  | Negotiation negotiation_msg

text \<open>\<open>DomainError\<close> with its \<open>code\<close>; \<open>Plain_error\<close> is a bare \<open>Error\<close>.\<close>

datatype domain_error =
    notFound err_message
  | conflict err_message
  | forbidden err_message
  | invalid err_message
  | Plain_error err_message

fun statusCode :: "domain_error \<Rightarrow> nat option" where
  "statusCode (notFound _) = Some 404"
| "statusCode (conflict _) = Some 409"
| "statusCode (forbidden _) = Some 403"
| "statusCode (invalid _) = Some 400"
| "statusCode (Plain_error _) = None"

type_synonym 'a result = "domain_error + 'a"

abbreviation Ok :: "'a \<Rightarrow> 'a result" where "Ok \<equiv> Inr"

abbreviation Throw :: "domain_error \<Rightarrow> 'a result" where "Throw \<equiv> Inl"

text \<open>Sequencing of checks inside a pure engine: the first throw wins.\<close>

definition check :: "bool \<Rightarrow> domain_error \<Rightarrow> unit result" where
  "check ok e = (if ok then Ok () else Throw e)"

fun rbind :: "'a result \<Rightarrow> ('a \<Rightarrow> 'b result) \<Rightarrow> 'b result" where
  "rbind (Inl e) f = Inl e"
| "rbind (Inr a) f = f a"

lemma rbind_Inr_iff [simp]: "rbind m f = Inr b \<longleftrightarrow> (\<exists>a. m = Inr a \<and> f a = Inr b)"
  by (cases m) auto

lemma rbind_Inl_iff [simp]:
  "rbind m f = Inl e \<longleftrightarrow> m = Inl e \<or> (\<exists>a. m = Inr a \<and> f a = Inl e)"
  by (cases m) auto

lemma check_Inr_iff [simp]: "check ok e = Inr u \<longleftrightarrow> ok"
  by (auto simp: check_def)

lemma check_Inl_iff [simp]: "check ok e = Inl e' \<longleftrightarrow> \<not> ok \<and> e' = e"
  by (auto simp: check_def)

text \<open>\<open>items.map(f)\<close> where \<open>f\<close> may throw.\<close>

fun map_result :: "('a \<Rightarrow> 'b result) \<Rightarrow> 'a list \<Rightarrow> 'b list result" where
  "map_result f [] = Ok []"
| "map_result f (x # xs) = rbind (f x) (\<lambda>y. rbind (map_result f xs) (\<lambda>ys. Ok (y # ys)))"

lemma map_result_Inr:
  "map_result f xs = Inr ys \<Longrightarrow> list_all2 (\<lambda>x y. f x = Inr y) xs ys"
  by (induction xs arbitrary: ys) auto

lemma map_result_ok:
  "(\<And>x. x \<in> set xs \<Longrightarrow> f x = Inr (g x)) \<Longrightarrow> map_result f xs = Inr (map g xs)"
  by (induction xs) auto

end
