(* ===== verification/Dealflow_Samples.thy ===== *)
theory Dealflow_Samples
  imports Dealflow_Types
begin

text \<open>
  Small concrete records shared by the witnesses of the component theories: a product, a
  customer, a quotation line, a warehouse and a stock row with chosen key fields. They model no
  code.
\<close>

definition sample_product :: "string \<Rightarrow> js_number \<Rightarrow> billing_type \<Rightarrow> product" where
  "sample_product i price bt = \<lparr>pr_id = i, pr_sku = i, pr_name = i, pr_category = ''hardware'', pr_listPrice = price,
     pr_cost = price / 2, pr_billingType = bt, pr_billingFrequency = None, pr_description = None,
     pr_taxCategory = None, pr_taxRatePercent = None, pr_active = None, pr_taxable = None,
     pr_odooProductId = None, pr_createdAt = None, pr_updatedAt = None\<rparr>"

definition sample_line :: "string \<Rightarrow> string \<Rightarrow> js_number \<Rightarrow> js_number \<Rightarrow> js_number \<Rightarrow> quote_line" where
  "sample_line i p q price disc = \<lparr>ln_id = i, ln_quoteId = ''q1'', ln_productId = p, ln_quantity = q,
     ln_listPrice = price, ln_discountPercent = disc, ln_unitCost = price / 2, ln_recommendedFromId = None\<rparr>"

definition sample_customer :: customer where
  "sample_customer = \<lparr>cu_id = ''c1'', cu_name = ''Acme'', cu_email = ''buyer@acme.test'', cu_tier = T_standard,
     cu_odooPartnerId = None\<rparr>"

definition sample_warehouse :: "string \<Rightarrow> js_number \<Rightarrow> warehouse" where
  "sample_warehouse i cost = \<lparr>wh_id = i, wh_name = i, wh_fulfillmentCostPerUnit = cost, wh_odooWarehouseId = None\<rparr>"

definition sample_stock :: "string \<Rightarrow> string \<Rightarrow> js_number \<Rightarrow> js_number \<Rightarrow> stock_level" where
  "sample_stock w p onhand res = \<lparr>st_warehouseId = w, st_productId = p, st_quantityOnHand = onhand,
     st_reserved = res, st_incoming = None\<rparr>"

definition sample_quote :: "quote_status \<Rightarrow> quote" where
  "sample_quote status = \<lparr>qt_id = ''q1'', qt_number = ''Q-1'', qt_customerId = ''c1'', qt_ownerId = Some ''u1'', qt_status = status,
     qt_listTotal = 0, qt_discountTotal = 0, qt_netTotal = 0, qt_costTotal = 0, qt_marginPercent = 0,
     qt_blendedDiscountPercent = 0, qt_riskScore = 0, qt_assessmentDecision = D_allowed, qt_requiredChainId = None,
     qt_portalToken = ''tok'', qt_version = 1, qt_odooSaleOrderId = None, qt_taxTotal = 0, qt_customerDecision = C_none,
     qt_customerDecisionAt = None, qt_customerDecisionComment = None, qt_customerDecisionVersion = None,
     qt_commerciallyFrozenAt = None, qt_commerciallyFrozenBy = None, qt_financeLockedAt = None,
     qt_financeLockedBy = None, qt_activeNegotiationId = None, qt_createdAt = 0, qt_updatedAt = 0\<rparr>"

definition sample_aggregate :: "quote_status \<Rightarrow> quote_line list \<Rightarrow> quote_aggregate" where
  "sample_aggregate status ls = \<lparr>ag_quote = sample_quote status, ag_customer = sample_customer, ag_lines = ls,
     ag_products = [], ag_approvals = [], ag_allocations = [], ag_backorders = [], ag_schedules = [], ag_revisions = []\<rparr>"

end
