(* ===== verification/Dealflow_Recommendation.thy ===== *)
theory Dealflow_Recommendation
  imports Dealflow_Types Dealflow_Samples
begin

text \<open>
  \<open>recommendation-engine.ts\<close>: the upsell and cross-sell proposals for a set of lines. The
  \<open>quantityByProduct\<close> map is a partial function; \<open>present\<close> is its domain.
\<close>

section \<open>Definitions\<close>

definition add_quantity :: "(string \<Rightarrow> js_number option) \<Rightarrow> quote_line \<Rightarrow> string \<Rightarrow> js_number option" where
  "add_quantity m line = m(ln_productId line \<mapsto>
     (case m (ln_productId line) of None \<Rightarrow> 0 | Some q \<Rightarrow> q) + ln_quantity line)"

definition quantityByProduct :: "quote_line list \<Rightarrow> string \<Rightarrow> js_number option" where
  "quantityByProduct lines = foldl add_quantity Map.empty lines"

definition recommend_one ::
  "(string \<Rightarrow> js_number option) \<Rightarrow> product list \<Rightarrow> product_relation \<Rightarrow> recommendation option" where
  "recommend_one qbp products relation =
     (if (case qbp (rel_productId relation) of None \<Rightarrow> 0 | Some q \<Rightarrow> q) < rel_minQuantity relation then None
      else if qbp (rel_recommendedProductId relation) \<noteq> None then None
      else case find (\<lambda>i. pr_id i = rel_recommendedProductId relation) products of
             None \<Rightarrow> None
           | Some product \<Rightarrow> Some \<lparr>rc_relationId = rel_id relation, rc_kind = rel_kind relation, rc_product = product,
               rc_reason = rel_reason relation, rc_promotion = rel_promotion relation,
               rc_priceImpact = pr_listPrice product, rc_marginImpact = pr_listPrice product - pr_cost product\<rparr>)"

definition recommendProducts :: "quote_line list \<Rightarrow> product list \<Rightarrow> product_relation list \<Rightarrow> recommendation list" where
  "recommendProducts lines products relations =
     List.map_filter (recommend_one (quantityByProduct lines) products) relations"

section \<open>Lemmas\<close>

definition ordered_quantity :: "quote_line list \<Rightarrow> string \<Rightarrow> js_number" where
  "ordered_quantity lines p = sum_list (map ln_quantity (filter (\<lambda>l. ln_productId l = p) lines))"

lemma add_quantity_apply:
  "add_quantity m l p =
     (if p = ln_productId l then Some ((case m p of None \<Rightarrow> 0 | Some q \<Rightarrow> q) + ln_quantity l) else m p)"
  by (simp add: add_quantity_def)

lemma ordered_quantity_simps [simp]:
  "ordered_quantity [] p = 0"
  "ordered_quantity (l # ls) p = (if ln_productId l = p then ln_quantity l else 0) + ordered_quantity ls p"
  by (simp_all add: ordered_quantity_def)

lemma ordered_quantity_absent: "\<forall>l\<in>set ls. ln_productId l \<noteq> p \<Longrightarrow> ordered_quantity ls p = 0"
  by (induction ls) auto

lemma quantity_fold:
  "foldl add_quantity m ls p =
     (if \<exists>l\<in>set ls. ln_productId l = p
      then Some ((case m p of None \<Rightarrow> 0 | Some q \<Rightarrow> q) + ordered_quantity ls p) else m p)"
proof (induction ls arbitrary: m)
  case (Cons l ls)
  show ?case
  proof (cases "\<exists>x\<in>set ls. ln_productId x = p")
    case True
    then show ?thesis using Cons.IH [of "add_quantity m l"] by (auto simp: add_quantity_apply)
  next
    case False
    then have "ordered_quantity ls p = 0" using ordered_quantity_absent by blast
    then show ?thesis using False Cons.IH [of "add_quantity m l"] by (auto simp: add_quantity_apply)
  qed
qed simp

lemma quantityByProduct_eq:
  "quantityByProduct ls p = (if \<exists>l\<in>set ls. ln_productId l = p then Some (ordered_quantity ls p) else None)"
  by (simp add: quantityByProduct_def quantity_fold)

lemma quantityByProduct_default:
  "(case quantityByProduct ls p of None \<Rightarrow> 0 | Some q \<Rightarrow> q) = ordered_quantity ls p"
  using ordered_quantity_absent [of ls p] by (auto simp: quantityByProduct_eq)

lemma set_map_filter: "set (List.map_filter f xs) = {y. \<exists>x\<in>set xs. f x = Some y}"
  by (induction xs) (auto simp: List.map_filter_simps split: option.splits)

section \<open>Properties\<close>

text \<open>A proposal is made exactly for the relations whose source product is ordered in at least
  the relation's minimum quantity (over all lines), whose recommended product exists in the
  catalogue and is not already on the quotation; its price and margin impact are those of the
  recommended product.\<close>

theorem recommendProducts_exact:
  "r \<in> set (recommendProducts lines products relations) \<longleftrightarrow>
   (\<exists>rel\<in>set relations. \<exists>p. rel_minQuantity rel \<le> ordered_quantity lines (rel_productId rel) \<and>
      (\<forall>l\<in>set lines. ln_productId l \<noteq> rel_recommendedProductId rel) \<and>
      find (\<lambda>i. pr_id i = rel_recommendedProductId rel) products = Some p \<and>
      r = \<lparr>rc_relationId = rel_id rel, rc_kind = rel_kind rel, rc_product = p, rc_reason = rel_reason rel,
           rc_promotion = rel_promotion rel, rc_priceImpact = pr_listPrice p,
           rc_marginImpact = pr_listPrice p - pr_cost p\<rparr>)"
proof -
  have one: "recommend_one (quantityByProduct lines) products rel = Some r \<longleftrightarrow>
    (\<exists>p. rel_minQuantity rel \<le> ordered_quantity lines (rel_productId rel) \<and>
      (\<forall>l\<in>set lines. ln_productId l \<noteq> rel_recommendedProductId rel) \<and>
      find (\<lambda>i. pr_id i = rel_recommendedProductId rel) products = Some p \<and>
      r = \<lparr>rc_relationId = rel_id rel, rc_kind = rel_kind rel, rc_product = p, rc_reason = rel_reason rel,
           rc_promotion = rel_promotion rel, rc_priceImpact = pr_listPrice p,
           rc_marginImpact = pr_listPrice p - pr_cost p\<rparr>)" for rel
    unfolding recommend_one_def quantityByProduct_default
    by (cases "find (\<lambda>i. pr_id i = rel_recommendedProductId rel) products") (auto simp: quantityByProduct_eq)
  show ?thesis unfolding recommendProducts_def set_map_filter mem_Collect_eq one by blast
qed

definition sample_relation :: product_relation where
  "sample_relation = \<lparr>rel_id = ''r1'', rel_productId = ''p1'', rel_recommendedProductId = ''p2'', rel_kind = Upsell,
     rel_reason = ''fits'', rel_promotion = None, rel_minQuantity = 5\<rparr>"

theorem recommendProducts_exact_witness:
  "\<exists>r\<in>set (recommendProducts [sample_line ''l1'' ''p1'' 2 10 0, sample_line ''l2'' ''p1'' 3 10 0]
      [sample_product ''p2'' 20 One_time] [sample_relation]). rc_priceImpact r = 20"
proof -
  let ?ls = "[sample_line ''l1'' ''p1'' 2 10 0, sample_line ''l2'' ''p1'' 3 10 0]"
  have "rel_minQuantity sample_relation \<le> ordered_quantity ?ls (rel_productId sample_relation)"
    "\<forall>l\<in>set ?ls. ln_productId l \<noteq> rel_recommendedProductId sample_relation"
    "find (\<lambda>i. pr_id i = rel_recommendedProductId sample_relation) [sample_product ''p2'' 20 One_time] =
       Some (sample_product ''p2'' 20 One_time)"
    by (simp_all add: sample_relation_def ordered_quantity_def sample_line_def sample_product_def)
  then show ?thesis
    using recommendProducts_exact [of _ ?ls "[sample_product ''p2'' 20 One_time]" "[sample_relation]"]
    by (auto simp: sample_product_def)
qed

end
