(* ===== verification/Dealflow_Billing.thy ===== *)
theory Dealflow_Billing
  imports Dealflow_Types Dealflow_Samples
begin

text \<open>
  \<open>tax-engine.ts\<close> and \<open>billing-engine.ts\<close>: the tax of a quotation, the split of its value into
  one-time and recurring amounts, the billing schedules of its lines and the proration of a
  cancelled schedule. Dates are milliseconds since the epoch (\<open>int\<close>); \<open>setUTCDate\<close> moves a UTC
  date by whole days of 86,400,000 ms. Both files export a \<open>lineNetAmount\<close>: the one of the tax
  engine is exact, the one of the billing engine rounds to four digits.
\<close>

section \<open>Definitions\<close>

definition tax_lineNetAmount :: "quote_line \<Rightarrow> js_number" where
  "tax_lineNetAmount line = ln_listPrice line * ln_quantity line * (1 - ln_discountPercent line / 100)"

definition product_of :: "product list \<Rightarrow> quote_line \<Rightarrow> product option" where
  "product_of products line = find (\<lambda>i. pr_id i = ln_productId line) products"

definition untaxed :: "product list \<Rightarrow> quote_line \<Rightarrow> bool" where
  "untaxed products line = (case product_of products line of None \<Rightarrow> False | Some p \<Rightarrow> pr_taxable p = Some False)"

definition computeTaxTotal :: "quote_line list \<Rightarrow> product list \<Rightarrow> governance_config \<Rightarrow> js_number" where
  "computeTaxTotal lines products config =
     (let rate = max 0 (gc_taxRatePercent config) / 100
      in if rate = 0 then 0
         else let taxable = foldl (\<lambda>sum line. if untaxed products line then sum else sum + tax_lineNetAmount line) 0 lines
              in round_digits (taxable * rate) 2)"

definition PERIOD_DAYS :: "billing_frequency \<Rightarrow> int" where
  "PERIOD_DAYS f = (case f of Monthly \<Rightarrow> 30 | Quarterly \<Rightarrow> 90 | Yearly \<Rightarrow> 365)"

definition DAY_MS :: int where
  "DAY_MS = 86400000"

definition addDays :: "int \<Rightarrow> int \<Rightarrow> int" where
  "addDays date days = date + days * DAY_MS"

definition lineNetAmount :: "quote_line \<Rightarrow> js_number" where
  "lineNetAmount line = round_digits (ln_listPrice line * (1 - ln_discountPercent line / 100) * ln_quantity line) 4"

record commercials =
  hc_oneTimeNet :: js_number
  hc_recurringMonthly :: js_number
  hc_recurringYearly :: js_number
  hc_recurringAnnual :: js_number
  hc_dueToday :: js_number
  hc_taxTotal :: js_number

text \<open>The three accumulators of the loop: one-time, monthly and yearly.\<close>

definition hybrid_step ::
  "product list \<Rightarrow> js_number \<times> js_number \<times> js_number \<Rightarrow> quote_line \<Rightarrow> js_number \<times> js_number \<times> js_number" where
  "hybrid_step products acc line =
     (let (oneTime, monthly, yearly) = acc; net = lineNetAmount line
      in case product_of products line of
           None \<Rightarrow> (oneTime + net, monthly, yearly)
         | Some p \<Rightarrow>
             if pr_billingType p \<noteq> Recurring then (oneTime + net, monthly, yearly)
             else if pr_billingFrequency p = Some Yearly then (oneTime, monthly, yearly + net)
             else if pr_billingFrequency p = Some Quarterly then (oneTime, monthly + net / 3, yearly)
             else (oneTime, monthly + net, yearly))"

definition hybridCommercials :: "quote_line list \<Rightarrow> product list \<Rightarrow> js_number option \<Rightarrow> commercials" where
  "hybridCommercials lines products taxTotal =
     (let (oneTime, monthly, yearly) = foldl (hybrid_step products) (0, 0, 0) lines;
          tax = (case taxTotal of None \<Rightarrow> 0 | Some t \<Rightarrow> t)
      in \<lparr>hc_oneTimeNet = oneTime, hc_recurringMonthly = monthly, hc_recurringYearly = yearly,
          hc_recurringAnnual = monthly * 12 + yearly,
          hc_dueToday = oneTime + monthly + yearly + tax, hc_taxTotal = tax\<rparr>)"

definition build_schedule ::
  "(nat \<Rightarrow> string) \<Rightarrow> string \<Rightarrow> product list \<Rightarrow> int \<Rightarrow> nat \<times> quote_line \<Rightarrow> billing_schedule result" where
  "build_schedule fresh quoteId products now il =
     (let (i, line) = il
      in case product_of products line of
           None \<Rightarrow> Throw (invalid (Billing (Billing_requires_product (ln_id line))))
         | Some p \<Rightarrow>
             let amount = lineNetAmount line
             in if pr_billingType p = Recurring
                then let frequency = (case pr_billingFrequency p of None \<Rightarrow> Monthly | Some f \<Rightarrow> f)
                     in Ok \<lparr>bs_id = fresh i, bs_quoteId = quoteId, bs_quoteLineId = ln_id line,
                            bs_billingType = Recurring, bs_frequency = Some frequency, bs_amount = amount,
                            bs_status = B_scheduled, bs_nextBillingAt = Some (addDays now (PERIOD_DAYS frequency)),
                            bs_cancelledAt = None, bs_prorationAmount = 0, bs_refundAmount = 0, bs_odooInvoiceId = None\<rparr>
                else Ok \<lparr>bs_id = fresh i, bs_quoteId = quoteId, bs_quoteLineId = ln_id line,
                         bs_billingType = One_time, bs_frequency = None, bs_amount = amount,
                         bs_status = B_invoiced, bs_nextBillingAt = None,
                         bs_cancelledAt = None, bs_prorationAmount = 0, bs_refundAmount = 0, bs_odooInvoiceId = None\<rparr>)"

definition buildBillingSchedules ::
  "(nat \<Rightarrow> string) \<Rightarrow> string \<Rightarrow> quote_line list \<Rightarrow> product list \<Rightarrow> int \<Rightarrow> billing_schedule list result" where
  "buildBillingSchedules fresh quoteId lines products now =
     map_result (build_schedule fresh quoteId products now) (enumerate 0 lines)"

text \<open>The unused share of the running period, in days.\<close>

definition remaining_days :: "billing_frequency \<Rightarrow> int option \<Rightarrow> int \<Rightarrow> js_number" where
  "remaining_days f nextBillingAt now =
     (let periodDays = PERIOD_DAYS f;
          nxt = (case nextBillingAt of None \<Rightarrow> now | Some t \<Rightarrow> t);
          periodStart = addDays nxt (- periodDays);
          elapsed = max 0 (of_int (now - periodStart) / of_int DAY_MS)
      in min (of_int periodDays) (max 0 (of_int periodDays - elapsed)))"

definition cancelSchedule :: "billing_schedule \<Rightarrow> int \<Rightarrow> billing_schedule result" where
  "cancelSchedule schedule now =
     (if bs_status schedule = B_cancelled then Throw (conflict (Billing Schedule_already_cancelled))
      else if bs_billingType schedule \<noteq> Recurring \<or> bs_frequency schedule = None
      then Ok (schedule\<lparr>bs_status := B_cancelled, bs_cancelledAt := Some now,
                        bs_prorationAmount := 0, bs_refundAmount := 0\<rparr>)
      else let f = the (bs_frequency schedule);
               refund = round_digits (bs_amount schedule * (remaining_days f (bs_nextBillingAt schedule) now / of_int (PERIOD_DAYS f))) 2;
               proration = round_digits (bs_amount schedule - refund) 2
           in Ok (schedule\<lparr>bs_status := B_cancelled, bs_cancelledAt := Some now,
                           bs_refundAmount := refund, bs_prorationAmount := proration,
                           bs_nextBillingAt := None\<rparr>))"

section \<open>Tax\<close>

definition taxable_lines :: "quote_line list \<Rightarrow> product list \<Rightarrow> quote_line list" where
  "taxable_lines lines products = filter (\<lambda>l. \<not> untaxed products l) lines"

lemma taxable_fold:
  "foldl (\<lambda>sum line. if untaxed ps line then sum else sum + tax_lineNetAmount line) a ls =
   a + sum_list (map tax_lineNetAmount (taxable_lines ls ps))"
  by (induction ls arbitrary: a) (auto simp: taxable_lines_def)

lemma computeTaxTotal_eq:
  "computeTaxTotal ls ps c =
   round_digits (sum_list (map tax_lineNetAmount (taxable_lines ls ps)) * (max 0 (gc_taxRatePercent c) / 100)) 2"
  by (simp add: computeTaxTotal_def taxable_fold Let_def)

lemma tax_lineNetAmount_nonneg:
  assumes "0 \<le> ln_listPrice l" and "0 \<le> ln_quantity l" and "ln_discountPercent l \<le> 100"
  shows "0 \<le> tax_lineNetAmount l"
  using assms unfolding tax_lineNetAmount_def by (intro mult_nonneg_nonneg) auto

lemma sum_list_map_filter_le:
  fixes f :: "'a \<Rightarrow> rat"
  shows "\<forall>x\<in>set xs. 0 \<le> f x \<Longrightarrow> sum_list (map f (filter P xs)) \<le> sum_list (map f xs)"
  by (induction xs) (auto intro: add_increasing)

lemma billing_net_vs_tax_net: "\<bar>lineNetAmount l - tax_lineNetAmount l\<bar> \<le> 1 / 20000"
proof -
  have "lineNetAmount l = round_digits (tax_lineNetAmount l) 4"
    by (simp add: lineNetAmount_def tax_lineNetAmount_def mult.assoc mult.commute mult.left_commute)
  then show ?thesis using round_digits_error [of "tax_lineNetAmount l" 4] by simp
qed

lemma lineNetAmount_nonneg:
  assumes "0 \<le> ln_listPrice l" and "0 \<le> ln_quantity l" and "ln_discountPercent l \<le> 100"
  shows "0 \<le> lineNetAmount l"
  unfolding lineNetAmount_def by (rule round_digits_nonneg) (use assms in \<open>auto intro!: mult_nonneg_nonneg\<close>)

section \<open>One-time and recurring value\<close>

definition spread :: "product list \<Rightarrow> quote_line \<Rightarrow> bool" where
  "spread ps l = (case product_of ps l of None \<Rightarrow> False
     | Some p \<Rightarrow> pr_billingType p = Recurring \<and> pr_billingFrequency p = Some Quarterly)"

lemma hybrid_fold_total:
  assumes "foldl (hybrid_step ps) (a, b, c) ls = (o', m, y)"
  shows "o' + m + y = a + b + c + sum_list (map (\<lambda>l. lineNetAmount l / (if spread ps l then 3 else 1)) ls)"
  using assms
proof (induction ls arbitrary: a b c)
  case (Cons l ls)
  obtain a' b' c' where s: "hybrid_step ps (a, b, c) l = (a', b', c')" by (metis prod_cases3)
  have "a' + b' + c' = a + b + c + lineNetAmount l / (if spread ps l then 3 else 1)"
    using s by (auto simp: hybrid_step_def spread_def Let_def split: option.splits if_splits)
  moreover have "foldl (hybrid_step ps) (a', b', c') ls = (o', m, y)" using Cons.prems s by simp
  ultimately show ?case using Cons.IH [of a' b' c'] by simp
qed simp

lemma dueToday_eq:
  "hc_dueToday (hybridCommercials ls ps tax) =
   sum_list (map (\<lambda>l. lineNetAmount l / (if spread ps l then 3 else 1)) ls) + hc_taxTotal (hybridCommercials ls ps tax)"
proof -
  obtain a b c where f: "foldl (hybrid_step ps) (0, 0, 0) ls = (a, b, c)" by (metis prod_cases3)
  from hybrid_fold_total [OF f] show ?thesis by (simp add: hybridCommercials_def f Let_def)
qed

section \<open>Schedules\<close>

lemma build_schedule_fields:
  assumes "build_schedule f q ps t (i, l) = Ok b"
  shows "bs_quoteLineId b = ln_id l" and "bs_amount b = lineNetAmount l" and "bs_quoteId b = q"
    and "bs_status b = (if bs_billingType b = Recurring then B_scheduled else B_invoiced)"
    and "bs_billingType b = Recurring \<longleftrightarrow> (\<exists>p. product_of ps l = Some p \<and> pr_billingType p = Recurring)"
    and "bs_billingType b = Recurring \<Longrightarrow>
         \<exists>fr. bs_frequency b = Some fr \<and> bs_nextBillingAt b = Some (addDays t (PERIOD_DAYS fr))"
  using assms by (auto simp: build_schedule_def Let_def split: option.splits if_splits)

lemma map_result_Ok_list:
  "map_result f xs = Ok ys \<longleftrightarrow> list_all2 (\<lambda>x y. f x = Ok y) xs ys"
proof (induction xs arbitrary: ys)
  case Nil
  then show ?case by auto
next
  case (Cons x xs)
  then show ?case by (cases ys) auto
qed

lemma enumerate_Cons_shift: "enumerate n (x # xs) = (n, x) # enumerate (Suc n) xs"
  by simp

lemma build_schedules_from:
  "map_result (build_schedule f q ps t) (enumerate n ls) = Ok bs \<Longrightarrow>
   list_all2 (\<lambda>l b. \<exists>i. build_schedule f q ps t (i, l) = Ok b) ls bs"
  by (induction ls arbitrary: n bs) (auto simp: list_all2_Cons1)

lemma build_schedules_Ok_iff:
  "(\<exists>bs. map_result (build_schedule f q ps t) (enumerate n ls) = Ok bs) \<longleftrightarrow> (\<forall>l\<in>set ls. product_of ps l \<noteq> None)"
proof (induction ls arbitrary: n)
  case (Cons l ls)
  have "(\<exists>b. build_schedule f q ps t (n, l) = Ok b) \<longleftrightarrow> product_of ps l \<noteq> None"
    by (auto simp: build_schedule_def Let_def split: option.splits)
  then show ?case using Cons.IH [of "Suc n"] by auto
qed simp

section \<open>Proration\<close>

lemma PERIOD_DAYS_pos [simp]: "0 < PERIOD_DAYS f"
  by (simp add: PERIOD_DAYS_def split: billing_frequency.splits)

lemma PERIOD_DAYS_pos_rat [simp]: "0 < (of_int (PERIOD_DAYS f) :: rat)"
  by simp

lemma remaining_days_bounds: "0 \<le> remaining_days f n t" "remaining_days f n t \<le> of_int (PERIOD_DAYS f)"
  by (auto simp: remaining_days_def Let_def min_def order_less_imp_le [OF PERIOD_DAYS_pos])

lemma unused_share_bounds:
  "0 \<le> remaining_days f n t / of_int (PERIOD_DAYS f)" "remaining_days f n t / of_int (PERIOD_DAYS f) \<le> 1"
  using remaining_days_bounds [of f n t] by (auto simp: divide_le_eq_1 order_less_imp_le)

lemma remaining_days_mono: "t \<le> t' \<Longrightarrow> remaining_days f (Some n) t' \<le> remaining_days f (Some n) t"
  unfolding remaining_days_def Let_def option.case
  by (intro min.mono max.mono order_refl diff_left_mono divide_right_mono) (auto simp: DAY_MS_def)

lemma remaining_full: "t \<le> addDays n (- PERIOD_DAYS f) \<Longrightarrow> remaining_days f (Some n) t = of_int (PERIOD_DAYS f)"
proof -
  assume "t \<le> addDays n (- PERIOD_DAYS f)"
  then have "of_int (t - addDays n (- PERIOD_DAYS f)) / of_int DAY_MS \<le> (0 :: rat)"
    by (intro divide_nonpos_pos) (auto simp: DAY_MS_def)
  then have "max 0 (of_int (t - addDays n (- PERIOD_DAYS f)) / of_int DAY_MS) = (0 :: rat)" by (rule max_absorb1)
  then show ?thesis by (simp add: remaining_days_def Let_def order_less_imp_le del: of_int_diff)
qed

lemma remaining_none: "n \<le> t \<Longrightarrow> remaining_days f (Some n) t = 0"
proof -
  assume "n \<le> t"
  then have "PERIOD_DAYS f * DAY_MS \<le> t - addDays n (- PERIOD_DAYS f)" by (simp add: addDays_def)
  then have "of_int (PERIOD_DAYS f * DAY_MS) / of_int DAY_MS \<le> (of_int (t - addDays n (- PERIOD_DAYS f)) / of_int DAY_MS :: rat)"
    by (intro divide_right_mono) (simp_all only: of_int_le_iff, simp add: DAY_MS_def)
  then have "of_int (PERIOD_DAYS f) \<le> (of_int (t - addDays n (- PERIOD_DAYS f)) / of_int DAY_MS :: rat)"
    by (simp add: DAY_MS_def del: of_int_diff)
  moreover have "0 \<le> (of_int (PERIOD_DAYS f) :: rat)" by (rule order_less_imp_le [OF PERIOD_DAYS_pos_rat])
  ultimately show ?thesis unfolding remaining_days_def Let_def option.case by linarith
qed

lemma cancelSchedule_recurring:
  assumes "cancelSchedule s t = Ok s'" and "bs_billingType s = Recurring" and "bs_frequency s = Some f"
  shows "bs_refundAmount s' = round_digits (bs_amount s * (remaining_days f (bs_nextBillingAt s) t / of_int (PERIOD_DAYS f))) 2"
    and "bs_prorationAmount s' = round_digits (bs_amount s - bs_refundAmount s') 2"
    and "bs_nextBillingAt s' = None"
  using assms by (auto simp: cancelSchedule_def Let_def split: if_splits)

lemma cancelSchedule_status:
  assumes "cancelSchedule s t = Ok s'"
  shows "bs_status s' = B_cancelled" and "bs_status s \<noteq> B_cancelled" and "bs_amount s' = bs_amount s"
    and "bs_id s' = bs_id s" and "bs_cancelledAt s' = Some t"
  using assms by (auto simp: cancelSchedule_def Let_def split: if_splits)

lemma refund_bounds:
  assumes "cancelSchedule s t = Ok s'" and "0 \<le> bs_amount s"
  shows "0 \<le> bs_refundAmount s'" and "bs_refundAmount s' \<le> round_digits (bs_amount s) 2"
proof -
  have "0 \<le> bs_refundAmount s' \<and> bs_refundAmount s' \<le> round_digits (bs_amount s) 2"
  proof (cases "bs_billingType s = Recurring \<and> bs_frequency s \<noteq> None")
    case True
    then obtain f where f: "bs_billingType s = Recurring" "bs_frequency s = Some f" by auto
    let ?u = "remaining_days f (bs_nextBillingAt s) t / of_int (PERIOD_DAYS f)"
    have "bs_amount s * ?u \<le> bs_amount s * 1"
      using assms(2) unused_share_bounds by (intro mult_left_mono) auto
    then show ?thesis unfolding cancelSchedule_recurring(1) [OF assms(1) f]
      using assms(2) unused_share_bounds [of f "bs_nextBillingAt s" t]
      by (intro conjI round_digits_nonneg round_digits_mono mult_nonneg_nonneg) auto
  next
    case False
    then show ?thesis using assms round_digits_nonneg [of "bs_amount s" 2]
      by (auto simp: cancelSchedule_def Let_def split: if_splits)
  qed
  then show "0 \<le> bs_refundAmount s'" and "bs_refundAmount s' \<le> round_digits (bs_amount s) 2" by auto
qed

lemma refund_plus_proration:
  assumes "cancelSchedule s t = Ok s'" and "bs_billingType s = Recurring" and "bs_frequency s = Some f"
  shows "\<bar>bs_refundAmount s' + bs_prorationAmount s' - bs_amount s\<bar> \<le> 1 / 200"
proof -
  have "bs_refundAmount s' + bs_prorationAmount s' - bs_amount s =
      round_digits (bs_amount s - bs_refundAmount s') 2 - (bs_amount s - bs_refundAmount s')"
    using cancelSchedule_recurring(2) [OF assms] by simp
  moreover have "(1 :: rat) / (2 * 10 ^ 2) = 1 / 200" by simp
  ultimately show ?thesis using round_digits_error [of "bs_amount s - bs_refundAmount s'" 2] by metis
qed

section \<open>Properties\<close>

text \<open>Cancelling a recurring schedule splits its amount: the refund is never negative and never
  above the amount rounded to cents, and refund plus proration give the amount back up to half a
  cent; the schedule ends cancelled, with no next billing date, and a second cancellation is
  refused.\<close>

theorem cancelSchedule_splits_amount:
  assumes "cancelSchedule s t = Ok s'" and "0 \<le> bs_amount s"
    and "bs_billingType s = Recurring" and "bs_frequency s = Some f"
  shows "0 \<le> bs_refundAmount s' \<and> bs_refundAmount s' \<le> round_digits (bs_amount s) 2 \<and>
    \<bar>bs_refundAmount s' + bs_prorationAmount s' - bs_amount s\<bar> \<le> 1 / 200 \<and>
    bs_status s' = B_cancelled \<and> bs_nextBillingAt s' = None \<and>
    cancelSchedule s' t' = Throw (conflict (Billing Schedule_already_cancelled))"
  using refund_bounds [OF assms(1,2)] refund_plus_proration [OF assms(1,3,4)] cancelSchedule_status(1) [OF assms(1)]
    cancelSchedule_recurring(3) [OF assms(1,3,4)] by (simp add: cancelSchedule_def)

definition sample_schedule :: billing_schedule where
  "sample_schedule = \<lparr>bs_id = ''s1'', bs_quoteId = ''q1'', bs_quoteLineId = ''l1'', bs_billingType = Recurring,
     bs_frequency = Some Monthly, bs_amount = 100, bs_status = B_scheduled, bs_nextBillingAt = Some (addDays 0 30),
     bs_cancelledAt = None, bs_prorationAmount = 0, bs_refundAmount = 0, bs_odooInvoiceId = None\<rparr>"

lemma sample_schedule_cancel:
  "cancelSchedule sample_schedule (addDays 0 10) = Ok (sample_schedule\<lparr>bs_status := B_cancelled,
     bs_cancelledAt := Some (addDays 0 10), bs_refundAmount := 6667/100, bs_prorationAmount := 3333/100, bs_nextBillingAt := None\<rparr>)"
  by code_simp

theorem cancelSchedule_splits_amount_witness:
  "0 \<le> (6667/100 :: rat) \<and> (6667/100 :: rat) \<le> round_digits (bs_amount sample_schedule) 2 \<and>
   cancelSchedule (sample_schedule\<lparr>bs_status := B_cancelled, bs_cancelledAt := Some (addDays 0 10),
     bs_refundAmount := 6667/100, bs_prorationAmount := 3333/100, bs_nextBillingAt := None\<rparr>) 0 =
     Throw (conflict (Billing Schedule_already_cancelled))"
  using cancelSchedule_splits_amount [OF sample_schedule_cancel, of Monthly 0] by (simp add: sample_schedule_def)

text \<open>A later cancellation never refunds more: for a recurring schedule with a next billing
  date the refund is antitone in the time of cancellation, the full amount (in cents) when
  cancelled at or before the start of the period, and nothing once the period is over.\<close>

theorem refund_decreases_with_time:
  assumes "bs_billingType s = Recurring" and "bs_frequency s = Some f" and "bs_nextBillingAt s = Some n"
    and "0 \<le> bs_amount s" and "cancelSchedule s t = Ok s1" and "cancelSchedule s t' = Ok s2" and "t \<le> t'"
  shows "bs_refundAmount s2 \<le> bs_refundAmount s1 \<and>
    (t \<le> addDays n (- PERIOD_DAYS f) \<longrightarrow> bs_refundAmount s1 = round_digits (bs_amount s) 2) \<and>
    (n \<le> t' \<longrightarrow> bs_refundAmount s2 = 0)"
proof (intro conjI impI)
  note r1 = cancelSchedule_recurring(1) [OF assms(5,1,2)] and r2 = cancelSchedule_recurring(1) [OF assms(6,1,2)]
  show "bs_refundAmount s2 \<le> bs_refundAmount s1"
    unfolding r1 r2 assms(3)
    by (intro round_digits_mono mult_left_mono divide_right_mono remaining_days_mono assms(4,7) order_less_imp_le [OF PERIOD_DAYS_pos_rat])
  show "bs_refundAmount s1 = round_digits (bs_amount s) 2" if "t \<le> addDays n (- PERIOD_DAYS f)"
    using remaining_full [OF that] less_imp_neq [OF PERIOD_DAYS_pos [of f]] by (simp add: r1 assms(3))
  show "bs_refundAmount s2 = 0" if "n \<le> t'"
    using remaining_none [OF that] by (simp add: r2 assms(3))
qed

theorem refund_decreases_with_time_witness:
  "\<exists>s1 s2. cancelSchedule sample_schedule 0 = Ok s1 \<and> cancelSchedule sample_schedule (addDays 0 30) = Ok s2 \<and>
     bs_refundAmount s2 \<le> bs_refundAmount s1 \<and> bs_refundAmount s1 = round_digits 100 2 \<and> bs_refundAmount s2 = 0"
proof -
  obtain s1 s2 where s: "cancelSchedule sample_schedule 0 = Ok s1" "cancelSchedule sample_schedule (addDays 0 30) = Ok s2"
    by (simp add: cancelSchedule_def sample_schedule_def Let_def)
  have "bs_refundAmount s2 \<le> bs_refundAmount s1 \<and> bs_refundAmount s1 = round_digits 100 2 \<and> bs_refundAmount s2 = 0"
    using refund_decreases_with_time [of sample_schedule Monthly "addDays 0 30" 0 s1 "addDays 0 30" s2] s
    by (simp add: sample_schedule_def addDays_def DAY_MS_def PERIOD_DAYS_def)
  then show ?thesis using s by blast
qed

text \<open>Billing succeeds exactly when every line has a product, and then gives one schedule per
  line, in line order, for the line's net amount: a recurring line is scheduled one period ahead,
  any other line is invoiced at once.\<close>

theorem buildBillingSchedules_per_line:
  "((\<exists>bs. buildBillingSchedules fresh q ls ps now = Ok bs) \<longleftrightarrow> (\<forall>l\<in>set ls. product_of ps l \<noteq> None)) \<and>
   (\<forall>bs. buildBillingSchedules fresh q ls ps now = Ok bs \<longrightarrow>
     list_all2 (\<lambda>l b. bs_quoteLineId b = ln_id l \<and> bs_amount b = lineNetAmount l \<and>
       (if \<exists>p. product_of ps l = Some p \<and> pr_billingType p = Recurring
        then bs_status b = B_scheduled \<and>
             (\<exists>f. bs_frequency b = Some f \<and> bs_nextBillingAt b = Some (addDays now (PERIOD_DAYS f)))
        else bs_status b = B_invoiced)) ls bs)"
proof (intro conjI allI impI)
  show "(\<exists>bs. buildBillingSchedules fresh q ls ps now = Ok bs) \<longleftrightarrow> (\<forall>l\<in>set ls. product_of ps l \<noteq> None)"
    unfolding buildBillingSchedules_def by (rule build_schedules_Ok_iff)
next
  fix bs assume "buildBillingSchedules fresh q ls ps now = Ok bs"
  then have "list_all2 (\<lambda>l b. \<exists>i. build_schedule fresh q ps now (i, l) = Ok b) ls bs"
    unfolding buildBillingSchedules_def by (rule build_schedules_from)
  then show "list_all2 (\<lambda>l b. bs_quoteLineId b = ln_id l \<and> bs_amount b = lineNetAmount l \<and>
       (if \<exists>p. product_of ps l = Some p \<and> pr_billingType p = Recurring
        then bs_status b = B_scheduled \<and>
             (\<exists>f. bs_frequency b = Some f \<and> bs_nextBillingAt b = Some (addDays now (PERIOD_DAYS f)))
        else bs_status b = B_invoiced)) ls bs"
  proof (rule list_all2_mono)
    fix l b assume "\<exists>i. build_schedule fresh q ps now (i, l) = Ok b"
    then obtain i where i: "build_schedule fresh q ps now (i, l) = Ok b" by blast
    note fields = build_schedule_fields [OF i]
    show "bs_quoteLineId b = ln_id l \<and> bs_amount b = lineNetAmount l \<and>
       (if \<exists>p. product_of ps l = Some p \<and> pr_billingType p = Recurring
        then bs_status b = B_scheduled \<and>
             (\<exists>f. bs_frequency b = Some f \<and> bs_nextBillingAt b = Some (addDays now (PERIOD_DAYS f)))
        else bs_status b = B_invoiced)"
      using fields(1,2,4,6) unfolding fields(5) [symmetric] by auto
  qed
qed

theorem buildBillingSchedules_per_line_witness:
  "\<exists>b. buildBillingSchedules (\<lambda>_. ''b'') ''q1'' [sample_line ''l1'' ''p1'' 3 10 0] [sample_product ''p1'' 10 Recurring] 0 = Ok [b]
     \<and> bs_quoteLineId b = ''l1'' \<and> bs_amount b = 30 \<and> bs_status b = B_scheduled"
proof -
  let ?ls = "[sample_line ''l1'' ''p1'' 3 10 0]" and ?ps = "[sample_product ''p1'' 10 Recurring]"
  have p: "product_of ?ps (hd ?ls) = Some (hd ?ps)" by (simp add: product_of_def sample_line_def sample_product_def)
  have amt: "lineNetAmount (hd ?ls) = 30" by code_simp
  have rec: "pr_billingType (hd ?ps) = Recurring" by (simp add: sample_product_def)
  note facts = buildBillingSchedules_per_line [of "\<lambda>_. ''b''" "''q1''" ?ls ?ps 0]
  then obtain bs where bs: "buildBillingSchedules (\<lambda>_. ''b'') ''q1'' ?ls ?ps 0 = Ok bs" using p by auto
  with facts obtain b where "bs = [b]" "bs_quoteLineId b = ln_id (hd ?ls)" "bs_amount b = lineNetAmount (hd ?ls)" "bs_status b = B_scheduled"
    using p rec by (auto simp: list_all2_Cons1)
  then show ?thesis using bs amt by (auto simp: sample_line_def)
qed

text \<open>What is due today is the tax plus every line's net amount, a quarterly line counting for a
  third; with non-negative amounts it never exceeds the full net value plus tax, and equals it when
  no line is billed quarterly.\<close>

theorem dueToday_accounts_for_lines:
  assumes "\<forall>l\<in>set ls. 0 \<le> ln_listPrice l \<and> 0 \<le> ln_quantity l \<and> ln_discountPercent l \<le> 100"
  shows "hc_dueToday (hybridCommercials ls ps (Some tax)) \<le> sum_list (map lineNetAmount ls) + tax \<and>
    ((\<forall>l\<in>set ls. \<not> spread ps l) \<longrightarrow>
      hc_dueToday (hybridCommercials ls ps (Some tax)) = sum_list (map lineNetAmount ls) + tax)"
proof -
  have t: "hc_taxTotal (hybridCommercials ls ps (Some tax)) = tax"
    by (simp add: hybridCommercials_def Let_def case_prod_unfold)
  have "lineNetAmount l / (if spread ps l then 3 else 1) \<le> lineNetAmount l" if "l \<in> set ls" for l
    using lineNetAmount_nonneg [of l] assms that by auto
  then have "sum_list (map (\<lambda>l. lineNetAmount l / (if spread ps l then 3 else 1)) ls) \<le> sum_list (map lineNetAmount ls)"
    by (intro sum_list_mono) auto
  moreover have "sum_list (map (\<lambda>l. lineNetAmount l / (if spread ps l then 3 else 1)) ls) = sum_list (map lineNetAmount ls)"
    if "\<forall>l\<in>set ls. \<not> spread ps l" using that by (simp cong: map_cong)
  ultimately show ?thesis unfolding dueToday_eq t by simp
qed

theorem dueToday_accounts_for_lines_witness:
  "hc_dueToday (hybridCommercials [sample_line ''l1'' ''p1'' 3 10 0] [] (Some 5)) = 35"
proof -
  have "sum_list (map lineNetAmount [sample_line ''l1'' ''p1'' 3 10 0]) = 30" by code_simp
  then show ?thesis using dueToday_accounts_for_lines [of "[sample_line ''l1'' ''p1'' 3 10 0]" "[]" 5]
    by (simp add: sample_line_def spread_def product_of_def)
qed

text \<open>The tax of a quotation with non-negative lines is never negative and never above the
  configured rate applied to the whole net value, up to half a cent; a zero rate or an entirely
  untaxed quotation pays none.\<close>

theorem computeTaxTotal_bounds:
  assumes "\<forall>l\<in>set ls. 0 \<le> ln_listPrice l \<and> 0 \<le> ln_quantity l \<and> ln_discountPercent l \<le> 100"
  shows "0 \<le> computeTaxTotal ls ps c \<and>
    computeTaxTotal ls ps c \<le> sum_list (map tax_lineNetAmount ls) * (max 0 (gc_taxRatePercent c) / 100) + 1 / 200 \<and>
    (gc_taxRatePercent c \<le> 0 \<or> (\<forall>l\<in>set ls. untaxed ps l) \<longrightarrow> computeTaxTotal ls ps c = 0)"
proof -
  let ?r = "max 0 (gc_taxRatePercent c) / 100"
  let ?s = "sum_list (map tax_lineNetAmount (taxable_lines ls ps))"
  have nn: "\<forall>l\<in>set ls. 0 \<le> tax_lineNetAmount l" using assms tax_lineNetAmount_nonneg by blast
  then have s0: "0 \<le> ?s" by (intro sum_list_nonneg_map) (auto simp: taxable_lines_def)
  have r0: "0 \<le> ?r" by simp
  have "?s * ?r \<le> sum_list (map tax_lineNetAmount ls) * ?r"
    using sum_list_map_filter_le [OF nn] r0 unfolding taxable_lines_def by (rule mult_right_mono)
  moreover have "round_digits (?s * ?r) 2 \<le> ?s * ?r + 1 / 200" using round_digits_upper [of "?s * ?r" 2] by simp
  ultimately have "computeTaxTotal ls ps c \<le> sum_list (map tax_lineNetAmount ls) * ?r + 1 / 200"
    unfolding computeTaxTotal_eq by linarith
  moreover have "0 \<le> computeTaxTotal ls ps c"
    unfolding computeTaxTotal_eq using s0 r0 by (intro round_digits_nonneg mult_nonneg_nonneg)
  moreover have "computeTaxTotal ls ps c = 0" if "gc_taxRatePercent c \<le> 0 \<or> (\<forall>l\<in>set ls. untaxed ps l)"
    using that unfolding computeTaxTotal_eq by (auto simp: taxable_lines_def filter_empty_conv)
  ultimately show ?thesis by blast
qed

theorem computeTaxTotal_bounds_witness:
  "0 \<le> computeTaxTotal [sample_line ''l1'' ''p1'' 3 10 0] [] (DEFAULT_GOVERNANCE\<lparr>gc_taxRatePercent := 18\<rparr>) \<and>
   computeTaxTotal [sample_line ''l1'' ''p1'' 3 10 0] [] (DEFAULT_GOVERNANCE\<lparr>gc_taxRatePercent := 18\<rparr>) \<le> 30 * (18 / 100) + 1 / 200"
proof -
  have "sum_list (map tax_lineNetAmount [sample_line ''l1'' ''p1'' 3 10 0]) = 30" by code_simp
  then show ?thesis
    using computeTaxTotal_bounds [of "[sample_line ''l1'' ''p1'' 3 10 0]" "[]" "DEFAULT_GOVERNANCE\<lparr>gc_taxRatePercent := 18\<rparr>"]
    by (simp add: sample_line_def)
qed

end
