(* ===== verification/Dealflow_Strings.thy ===== *)
theory Dealflow_Strings
  imports Dealflow_Prelude
begin

text \<open>
  The string operations of the source: \<open>trim\<close>, \<open>toLowerCase\<close>, \<open>includes\<close> and the numeral of a number. Strings are lists of
  8-bit characters; \<open>trim\<close> removes the white space of that range, \<open>toLowerCase\<close> maps the ASCII
  letters.
\<close>

definition js_space :: "char \<Rightarrow> bool" where
  "js_space c = (of_char c \<in> {9, 10, 11, 12, 13, 32, 160 :: nat})"

definition js_trim :: "string \<Rightarrow> string" where
  "js_trim s = rev (dropWhile js_space (rev (dropWhile js_space s)))"

definition lower_char :: "char \<Rightarrow> char" where
  "lower_char c = (if 65 \<le> (of_char c :: nat) \<and> (of_char c :: nat) \<le> 90 then char_of (of_char c + 32 :: nat) else c)"

definition toLowerCase :: "string \<Rightarrow> string" where
  "toLowerCase = map lower_char"

fun starts_with :: "string \<Rightarrow> string \<Rightarrow> bool" where
  "starts_with s [] = True"
| "starts_with [] (_ # _) = False"
| "starts_with (c # s) (d # n) = (c = d \<and> starts_with s n)"

fun js_includes :: "string \<Rightarrow> string \<Rightarrow> bool" where
  "js_includes [] n = (n = [])"
| "js_includes (c # s) n = (starts_with (c # s) n \<or> js_includes s n)"

lemma dropWhile_fixed_rev:
  assumes "xs = [] \<or> \<not> P (hd xs)"
  shows "rev (dropWhile P (rev xs)) = [] \<or> \<not> P (hd (rev (dropWhile P (rev xs))))"
proof (cases xs)
  case (Cons x ys)
  then have nx: "\<not> P x" using assms by simp
  have "dropWhile P (rev ys @ [x]) = dropWhile P (rev ys) @ [x]"
    using nx by (induction "rev ys" arbitrary: ys) (auto simp: dropWhile_append)
  then show ?thesis using Cons nx by simp
qed simp

lemma dropWhile_id: "xs = [] \<or> \<not> P (hd xs) \<Longrightarrow> dropWhile P xs = xs"
  by (cases xs) auto

lemma js_trim_idem [simp]: "js_trim (js_trim s) = js_trim s"
proof -
  let ?a = "dropWhile js_space s" and ?t = "js_trim s"
  have "?t = [] \<or> \<not> js_space (hd ?t)"
    unfolding js_trim_def by (rule dropWhile_fixed_rev) (metis hd_dropWhile)
  then have "dropWhile js_space ?t = ?t" by (rule dropWhile_id)
  moreover have "dropWhile js_space (rev ?t) = rev ?t"
    unfolding js_trim_def rev_rev_ident by (rule dropWhile_idem)
  ultimately show ?thesis unfolding js_trim_def [of "js_trim s"] by simp
qed

lemma starts_with_iff: "starts_with s n \<longleftrightarrow> (\<exists>t. s = n @ t)"
  by (induction s n rule: starts_with.induct) auto

lemma js_includes_iff: "js_includes s n \<longleftrightarrow> (\<exists>a b. s = a @ n @ b)"
proof (induction s)
  case (Cons c s)
  have "(\<exists>a b. c # s = a @ n @ b) \<longleftrightarrow> (\<exists>b. c # s = n @ b) \<or> (\<exists>a b. s = a @ n @ b)"
    by (metis append_Cons append_Nil append_eq_Cons_conv)
  then show ?case using Cons by (simp add: starts_with_iff)
qed auto

section \<open>Decimal numerals\<close>

fun digits :: "nat \<Rightarrow> string" where
  "digits n = (if n < 10 then [char_of (48 + n)] else digits (n div 10) @ [char_of (48 + n mod 10)])"

fun value_of :: "string \<Rightarrow> nat" where
  "value_of s = foldl (\<lambda>n c. n * 10 + (of_char c - 48)) 0 s"

declare digits.simps [simp del]

lemma digit_char: "d < 10 \<Longrightarrow> (of_char (char_of (48 + d)) :: nat) - 48 = d"
  by simp

lemma value_of_digits: "value_of (digits n) = n"
proof (induction n rule: digits.induct)
  case (1 n)
  show ?case
  proof (cases "n < 10")
    case True
    then show ?thesis by (subst digits.simps) simp
  next
    case False
    then have "value_of (digits (n div 10)) = n div 10" using 1 by simp
    then show ?thesis using False by (subst digits.simps) simp
  qed
qed

end
