(* ===== verification/Dealflow_Email.thy ===== *)
theory Dealflow_Email
  imports Dealflow_Billing Dealflow_Strings
begin

text \<open>
  \<open>customer-email.ts\<close>: the customer document of a quotation, its idempotency key, the test that a
  payload has no staff-only field, the HTML escaping and the delivery record. The layout of the
  plain-text and HTML bodies is not modelled. The walk of \<open>assertCustomerSafePayload\<close> sees the keys of the
  document, the array indices of its lines and the keys of a line; those keys are listed as the
  object literals of \<open>buildCustomerQuoteDocument\<close> write them.
\<close>

section \<open>Definitions\<close>

definition customerQuoteEmailKey :: "string \<Rightarrow> quote_email_event \<Rightarrow> email_stamp \<Rightarrow> email_key" where
  "customerQuoteEmailKey quoteId eventType stamp = (quoteId, eventType, stamp)"

definition customerQuoteEmailStamp :: "quote_aggregate \<Rightarrow> quote_email_event \<Rightarrow> email_stamp" where
  "customerQuoteEmailStamp a eventType =
     (if eventType = E_final_invoice
      then (case qt_financeLockedAt (ag_quote a) of Some t \<Rightarrow> Stamp_lockedAt t | None \<Rightarrow> Stamp_version (qt_version (ag_quote a)))
      else Stamp_prelim)"

definition customerApprovalStatus :: "quote_aggregate \<Rightarrow> quote_email_event \<Rightarrow> string" where
  "customerApprovalStatus a eventType =
     (if eventType = E_final_invoice \<or> qt_financeLockedAt (ag_quote a) \<noteq> None
      then ''Finance Manager locked. This is the final commercial bill.''
      else if qt_status (ag_quote a) = Q_approved
      then ''Manager approved. Awaiting Finance Manager approval and commercial lock.''
      else ''Manager approved the negotiated quotation. Awaiting Finance Manager approval and commercial lock.'')"

definition email_line :: "product list \<Rightarrow> quote_line \<Rightarrow> quote_email_line" where
  "email_line products line =
     (let product = find (\<lambda>i. pr_id i = ln_productId line) products
      in \<lparr>el_sku = (case product of None \<Rightarrow> [] | Some p \<Rightarrow> pr_sku p),
          el_name = (case product of None \<Rightarrow> ''Product'' | Some p \<Rightarrow> pr_name p),
          el_quantity = ln_quantity line, el_unitPrice = ln_listPrice line,
          el_discountPercent = ln_discountPercent line, el_lineNet = tax_lineNetAmount line,
          el_billingType = (case product of None \<Rightarrow> One_time | Some p \<Rightarrow> pr_billingType p),
          el_billingFrequency = (case product of None \<Rightarrow> None | Some p \<Rightarrow> pr_billingFrequency p)\<rparr>)"

definition buildCustomerQuoteDocument :: "quote_aggregate \<Rightarrow> quote_email_event \<Rightarrow> quote_email_document" where
  "buildCustomerQuoteDocument a eventType =
     (let q = ag_quote a; taxTotal = qt_taxTotal q;
          commercials = hybridCommercials (ag_lines a) (ag_products a) (Some taxTotal)
      in \<lparr>ed_kind = eventType, ed_customerName = cu_name (ag_customer a), ed_quoteNumber = qt_number q,
          ed_quoteVersion = qt_version q, ed_status = qt_status q,
          ed_approvalStatus = customerApprovalStatus a eventType,
          ed_lines = map (email_line (ag_products a)) (ag_lines a),
          ed_listTotal = qt_listTotal q, ed_discountTotal = qt_discountTotal q, ed_taxTotal = taxTotal,
          ed_netTotal = qt_netTotal q, ed_grandTotal = qt_netTotal q + taxTotal,
          ed_payableAmount = hc_dueToday commercials, ed_recurringMonthly = hc_recurringMonthly commercials,
          ed_recurringAnnual = hc_recurringAnnual commercials,
          ed_financeLocked = (qt_financeLockedAt q \<noteq> None \<or> eventType = E_final_invoice)\<rparr>)"

text \<open>The regular expression of \<open>isInternalEmailField\<close>, case-insensitive: one of eight words, or
  \<open>approval\<close>, at most one character other than a line feed, and \<open>chain\<close>.\<close>

definition chain_here :: "string \<Rightarrow> bool" where
  "chain_here s \<longleftrightarrow> starts_with s ''approvalchain'' \<or>
     (starts_with s ''approval'' \<and> starts_with (drop 9 s) ''chain'' \<and> take 1 (drop 8 s) \<noteq> [CHR 0x0A])"

fun chain_somewhere :: "string \<Rightarrow> bool" where
  "chain_somewhere [] = False"
| "chain_somewhere (c # s) = (chain_here (c # s) \<or> chain_somewhere s)"

definition INTERNAL_WORDS :: "string list" where
  "INTERNAL_WORDS = [''margin'', ''risk'', ''actorid'', ''ownerid'', ''audit'', ''fulfillment'', ''warehouse'', ''reserved'']"

definition isInternalEmailField :: "string \<Rightarrow> bool" where
  "isInternalEmailField key =
     (let k = toLowerCase key in list_ex (js_includes k) INTERNAL_WORDS \<or> chain_somewhere k)"

definition DOCUMENT_KEYS :: "string list" where
  "DOCUMENT_KEYS = [''kind'', ''customerName'', ''quoteNumber'', ''quoteVersion'', ''status'', ''approvalStatus'', ''lines'',
     ''listTotal'', ''discountTotal'', ''taxTotal'', ''netTotal'', ''grandTotal'', ''payableAmount'', ''recurringMonthly'',
     ''recurringAnnual'', ''financeLocked'']"

definition LINE_KEYS :: "string list" where
  "LINE_KEYS = [''sku'', ''name'', ''quantity'', ''unitPrice'', ''discountPercent'', ''lineNet'', ''billingType'', ''billingFrequency'']"

definition payload_keys :: "quote_email_document \<Rightarrow> string list" where
  "payload_keys d = DOCUMENT_KEYS @ (if ed_lines d = [] then [] else LINE_KEYS)"

definition assertCustomerSafePayload :: "quote_email_document \<Rightarrow> unit result" where
  "assertCustomerSafePayload d = check (\<not> list_ex isInternalEmailField (payload_keys d)) (Plain_error (Quotation Staff_only_payload))"

definition replaceAll :: "char \<Rightarrow> string \<Rightarrow> string \<Rightarrow> string" where
  "replaceAll c r s = concat (map (\<lambda>x. if x = c then r else [x]) s)"

definition escapeHtml :: "string \<Rightarrow> string" where
  "escapeHtml v = replaceAll (CHR 0x22) ''&quot;'' (replaceAll (CHR ''>'') ''&gt;''
     (replaceAll (CHR ''<'') ''&lt;'' (replaceAll (CHR ''&'') ''&amp;'' v)))"

section \<open>Lemmas\<close>

lemma document_keys_safe: "\<not> list_ex isInternalEmailField (DOCUMENT_KEYS @ LINE_KEYS)"
  by code_simp

lemma payload_always_safe: "assertCustomerSafePayload d = Ok ()"
  using document_keys_safe by (auto simp: assertCustomerSafePayload_def payload_keys_def check_def)

lemma replaceAll_absent: "c \<notin> set r \<Longrightarrow> c \<notin> set (replaceAll c r s)"
  by (auto simp: replaceAll_def)

lemma replaceAll_keeps_absent: "d \<notin> set s \<Longrightarrow> d \<notin> set r \<Longrightarrow> d \<notin> set (replaceAll c r s)"
  by (auto simp: replaceAll_def)

text \<open>The escaping of one character, and that \<open>escapeHtml\<close> escapes character by character.\<close>

definition escape_char :: "char \<Rightarrow> string" where
  "escape_char c = (if c = CHR ''&'' then ''&amp;'' else if c = CHR ''<'' then ''&lt;''
     else if c = CHR ''>'' then ''&gt;'' else if c = CHR 0x22 then ''&quot;'' else [c])"

lemma replaceAll_append: "replaceAll c r (s @ t) = replaceAll c r s @ replaceAll c r t"
  by (simp add: replaceAll_def)

lemma escapeHtml_append: "escapeHtml (s @ t) = escapeHtml s @ escapeHtml t"
  by (simp add: escapeHtml_def replaceAll_append)

lemma escapeHtml_single: "escapeHtml [c] = escape_char c"
  by (simp add: escapeHtml_def replaceAll_def escape_char_def)

lemma escapeHtml_Nil [simp]: "escapeHtml [] = []"
  by (simp add: escapeHtml_def replaceAll_def)

lemma escapeHtml_charwise: "escapeHtml s = concat (map escape_char s)"
proof (induction s)
  case (Cons c s)
  then show ?case using escapeHtml_append [of "[c]" s] by (simp add: escapeHtml_single)
qed simp

fun unescape :: "string \<Rightarrow> string" where
  "unescape [] = []"
| "unescape (c # s) =
     (if c = CHR ''&''
      then if starts_with s ''amp;'' then CHR ''&'' # unescape (drop 4 s)
           else if starts_with s ''lt;'' then CHR ''<'' # unescape (drop 3 s)
           else if starts_with s ''gt;'' then CHR ''>'' # unescape (drop 3 s)
           else if starts_with s ''quot;'' then CHR 0x22 # unescape (drop 5 s)
           else c # unescape s
      else c # unescape s)"

lemma unescape_escape_char: "unescape (escape_char c @ s) = c # unescape s"
  by (simp add: escape_char_def starts_with_iff)

lemma unescape_escapeHtml: "unescape (escapeHtml s) = s"
  unfolding escapeHtml_charwise by (induction s) (simp_all add: unescape_escape_char)

section \<open>Properties\<close>

text \<open>Escaping is sound and loses nothing: the escaped text has no angle bracket and no quote,
  and decoding the four entities gives the original text back.\<close>

theorem escapeHtml_safe_roundtrip:
  "CHR ''<'' \<notin> set (escapeHtml s) \<and> CHR ''>'' \<notin> set (escapeHtml s) \<and> CHR 0x22 \<notin> set (escapeHtml s) \<and>
   unescape (escapeHtml s) = s"
proof -
  have "CHR ''<'' \<notin> set (escape_char c) \<and> CHR ''>'' \<notin> set (escape_char c) \<and> CHR 0x22 \<notin> set (escape_char c)" for c
    by (simp add: escape_char_def)
  then show ?thesis by (simp add: unescape_escapeHtml) (simp add: escapeHtml_charwise)
qed

end
