(* ===== verification/Dealflow_Loyalty.thy ===== *)
theory Dealflow_Loyalty
  imports Dealflow_Types
begin

text \<open>
  \<open>loyalty.ts\<close>: loyalty tiers from won purchases, the authority of the acting role, the stacked
  discount ceiling, and the two guards that every commercial write passes.
\<close>

section \<open>Tiers\<close>

fun customer_tier_name :: "customer_tier \<Rightarrow> string" where
  "customer_tier_name T_standard = ''standard''"
| "customer_tier_name T_silver = ''silver''"
| "customer_tier_name T_gold = ''gold''"
| "customer_tier_name T_strategic = ''strategic''"
| "customer_tier_name T_platinum = ''platinum''"

fun loyalty_tier_name :: "loyalty_tier \<Rightarrow> string" where
  "loyalty_tier_name L_new = ''new''"
| "loyalty_tier_name L_gold = ''gold''"
| "loyalty_tier_name L_platinum = ''platinum''"

definition wonPurchaseCountToTier :: "nat \<Rightarrow> loyalty_tier" where
  "wonPurchaseCountToTier won =
     (if won \<ge> 5 then L_platinum else if won \<ge> 2 then L_gold else L_new)"

definition normalizeCustomerTier :: "string option \<Rightarrow> loyalty_tier" where
  "normalizeCustomerTier tier =
     (if tier = Some ''gold'' then L_gold
      else if tier = Some ''platinum'' \<or> tier = Some ''strategic'' then L_platinum
      else L_new)"

definition loyaltyBonusPercent :: "string option \<Rightarrow> js_number" where
  "loyaltyBonusPercent tier =
     (case normalizeCustomerTier tier of L_platinum \<Rightarrow> 10 | L_gold \<Rightarrow> 5 | L_new \<Rightarrow> 0)"

definition persistCustomerTier :: "string option \<Rightarrow> customer_tier" where
  "persistCustomerTier tier =
     (case normalizeCustomerTier tier of L_platinum \<Rightarrow> T_platinum | L_gold \<Rightarrow> T_gold | L_new \<Rightarrow> T_standard)"

section \<open>Authorities\<close>

definition DISCOUNT_ROLE_KEYS :: "string list" where
  "DISCOUNT_ROLE_KEYS = [''staff'', ''manager'', ''finance'']"

definition actorDiscountRoles :: "actor option \<Rightarrow> string list" where
  "actorDiscountRoles a =
     (case a of
        None \<Rightarrow> []
      | Some act \<Rightarrow>
          filter (\<lambda>r. r \<noteq> [])
            ((case act_role act of None \<Rightarrow> [] | Some r \<Rightarrow> [r]) @
             (case act_roles act of None \<Rightarrow> [] | Some rs \<Rightarrow> rs)))"

definition authority_cmp :: "role_authority \<Rightarrow> role_authority \<Rightarrow> rat" where
  "authority_cmp = by_key (\<lambda>a. - ra_maxDiscountPercent a)"

definition default_finance_authority :: role_authority where
  "default_finance_authority = \<lparr>
     ra_roleKey = ''finance'', ra_maxDiscountPercent = 15, ra_minMarginPercent = 10,
     ra_maxPriceOverridePercent = 15, ra_canNegotiate = True, ra_exceedAction = X_block\<rparr>"

definition matchDiscountAuthority :: "role_authority list \<Rightarrow> actor option \<Rightarrow> role_authority option" where
  "matchDiscountAuthority authorities a =
     (if authorities = [] \<or> a = None then None
      else let keys = set (actorDiscountRoles a);
               matched = first (js_sort authority_cmp
                 (filter (\<lambda>i. ra_roleKey i \<in> keys \<and> ra_roleKey i \<in> set DISCOUNT_ROLE_KEYS) authorities))
           in if matched \<noteq> None then matched
              else if ''admin'' \<in> keys
              then (case find (\<lambda>i. ra_roleKey i = ''finance'') authorities of
                      Some f \<Rightarrow> Some f
                    | None \<Rightarrow> Some default_finance_authority)
              else None)"

record discount_ceiling =
  dc_roleMax :: js_number
  dc_loyaltyBonus :: js_number
  dc_ceiling :: js_number
  dc_roleKey :: "string option"

definition actorDiscountCeiling ::
  "role_authority list \<Rightarrow> actor option \<Rightarrow> string option \<Rightarrow> governance_config \<Rightarrow> discount_ceiling" where
  "actorDiscountCeiling authorities a loyaltyTier config =
     (let authority = matchDiscountAuthority authorities a;
          roleMax = (case authority of None \<Rightarrow> 0 | Some x \<Rightarrow> ra_maxDiscountPercent x);
          loyaltyBonus = (if gc_allowLoyaltyStacking config = False then 0 else loyaltyBonusPercent loyaltyTier);
          stacked = roleMax + loyaltyBonus;
          cap = gc_maxCommercialDiscountPercent config
      in \<lparr>dc_roleMax = roleMax, dc_loyaltyBonus = loyaltyBonus, dc_ceiling = min cap stacked,
          dc_roleKey = map_option ra_roleKey authority\<rparr>)"

definition eps :: rat where "eps = 1 / 10 ^ 9"

definition overridePercent :: "js_number \<Rightarrow> js_number \<Rightarrow> js_number" where
  "overridePercent rulePrice appliedPrice =
     (if rulePrice = 0 then 0 else \<bar>appliedPrice - rulePrice\<bar> / rulePrice * 100)"

definition assertPriceOverrideWithinAuthority ::
  "js_number \<Rightarrow> js_number \<Rightarrow> role_authority list \<Rightarrow> actor option \<Rightarrow> unit result" where
  "assertPriceOverrideWithinAuthority rulePrice appliedPrice authorities a =
     (let authority = matchDiscountAuthority authorities a;
          mx = (case authority of None \<Rightarrow> 0 | Some x \<Rightarrow> ra_maxPriceOverridePercent x);
          op = overridePercent rulePrice appliedPrice
      in if op - mx > eps then Throw (forbidden (Authority (Price_override_over_authority op mx))) else Ok ())"

definition assertDiscountWithinAuthority ::
  "js_number \<Rightarrow> role_authority list \<Rightarrow> actor option \<Rightarrow> string option \<Rightarrow> governance_config \<Rightarrow> unit result" where
  "assertDiscountWithinAuthority discountPercent authorities a loyaltyTier config =
     (let c = actorDiscountCeiling authorities a loyaltyTier config
      in if discountPercent - dc_ceiling c > eps
         then Throw (forbidden (Authority
                (Discount_over_authority discountPercent (dc_ceiling c) (dc_roleMax c) (dc_loyaltyBonus c))))
         else Ok ())"

section \<open>Lemmas\<close>

interpretation authority_order: comparator authority_cmp
  unfolding authority_cmp_def by (rule comparator_by_key)

lemma loyaltyBonusPercent_cases: "loyaltyBonusPercent t \<in> {0, 5, 10}"
  by (auto simp: loyaltyBonusPercent_def split: loyalty_tier.splits)

lemma loyaltyBonusPercent_nonneg [simp]: "0 \<le> loyaltyBonusPercent t"
  using loyaltyBonusPercent_cases [of t] by auto

lemma normalize_persist [simp]:
  "normalizeCustomerTier (Some (customer_tier_name (persistCustomerTier t))) = normalizeCustomerTier t"
  by (auto simp: persistCustomerTier_def normalizeCustomerTier_def split: loyalty_tier.splits)

lemma persist_idem [simp]:
  "persistCustomerTier (Some (customer_tier_name (persistCustomerTier t))) = persistCustomerTier t"
  using normalize_persist [of t] by (simp add: persistCustomerTier_def)

text \<open>The persisted tier is one of three: \<open>silver\<close> and \<open>strategic\<close> never come out.\<close>

lemma persistCustomerTier_range: "persistCustomerTier t \<in> {T_standard, T_gold, T_platinum}"
  by (auto simp: persistCustomerTier_def split: loyalty_tier.splits)

lemma bonus_of_won_mono:
  "m \<le> n \<Longrightarrow> loyaltyBonusPercent (Some (loyalty_tier_name (wonPurchaseCountToTier m)))
         \<le> loyaltyBonusPercent (Some (loyalty_tier_name (wonPurchaseCountToTier n)))"
  by (auto simp: wonPurchaseCountToTier_def loyaltyBonusPercent_def normalizeCustomerTier_def)

lemma matchDiscountAuthority_no_actor [simp]: "matchDiscountAuthority as None = None"
  by (simp add: matchDiscountAuthority_def)

text \<open>The matched authority belongs to one of the actor's discount roles, and no other
  matching authority is more generous.\<close>

lemma matchDiscountAuthority_role:
  assumes "matchDiscountAuthority as (Some a) = Some m"
    and "''admin'' \<notin> set (actorDiscountRoles (Some a))"
  shows "m \<in> set as \<and> ra_roleKey m \<in> set (actorDiscountRoles (Some a)) \<and> ra_roleKey m \<in> set DISCOUNT_ROLE_KEYS"
proof -
  let ?f = "filter (\<lambda>i. ra_roleKey i \<in> set (actorDiscountRoles (Some a)) \<and> ra_roleKey i \<in> set DISCOUNT_ROLE_KEYS) as"
  have "first (js_sort authority_cmp ?f) = Some m"
    using assms by (auto simp: matchDiscountAuthority_def Let_def split: if_splits)
  then show ?thesis using authority_order.first_js_sort_mem by fastforce
qed

lemma matchDiscountAuthority_best:
  assumes m: "matchDiscountAuthority as (Some a) = Some m"
    and x: "x \<in> set as" "ra_roleKey x \<in> set (actorDiscountRoles (Some a))" "ra_roleKey x \<in> set DISCOUNT_ROLE_KEYS"
  shows "ra_maxDiscountPercent x \<le> ra_maxDiscountPercent m"
proof -
  let ?f = "filter (\<lambda>i. ra_roleKey i \<in> set (actorDiscountRoles (Some a)) \<and> ra_roleKey i \<in> set DISCOUNT_ROLE_KEYS) as"
  have xin: "x \<in> set ?f" using x by simp
  then have "?f \<noteq> []" by (metis empty_iff empty_set)
  then have "first (js_sort authority_cmp ?f) = Some m"
    using m x(1) by (auto simp: matchDiscountAuthority_def Let_def split: if_splits)
  then have "authority_cmp m x \<le> 0" using xin by (rule authority_order.first_js_sort_min)
  then show ?thesis by (simp add: authority_cmp_def by_key_def)
qed

lemma ceiling_le_cap: "dc_ceiling (actorDiscountCeiling as a t c) \<le> gc_maxCommercialDiscountPercent c"
  by (simp add: actorDiscountCeiling_def Let_def)

lemma ceiling_eq:
  "dc_ceiling (actorDiscountCeiling as a t c) =
     min (gc_maxCommercialDiscountPercent c)
       ((case matchDiscountAuthority as a of None \<Rightarrow> 0 | Some x \<Rightarrow> ra_maxDiscountPercent x)
        + (if gc_allowLoyaltyStacking c then loyaltyBonusPercent t else 0))"
  by (simp add: actorDiscountCeiling_def Let_def)

lemma assertDiscount_ok_iff:
  "assertDiscountWithinAuthority d as a t c = Ok () \<longleftrightarrow> d \<le> dc_ceiling (actorDiscountCeiling as a t c) + eps"
  by (auto simp: assertDiscountWithinAuthority_def Let_def not_less)

lemma assertDiscount_throws_forbidden:
  "assertDiscountWithinAuthority d as a t c = Throw e \<Longrightarrow> statusCode e = Some 403"
  by (auto simp: assertDiscountWithinAuthority_def Let_def split: if_splits)

lemma assertPriceOverride_ok_iff:
  "assertPriceOverrideWithinAuthority p q as a = Ok () \<longleftrightarrow>
     overridePercent p q \<le> (case matchDiscountAuthority as a of None \<Rightarrow> 0 | Some x \<Rightarrow> ra_maxPriceOverridePercent x) + eps"
  by (auto simp: assertPriceOverrideWithinAuthority_def Let_def not_less)

lemma loyaltyBonusPercent_le_10: "loyaltyBonusPercent t \<le> 10"
  using loyaltyBonusPercent_cases [of t] by auto

lemma roleMax_is_Max:
  assumes "''admin'' \<notin> set (actorDiscountRoles (Some a))"
    and R: "R = {x \<in> set as. ra_roleKey x \<in> set (actorDiscountRoles (Some a)) \<and> ra_roleKey x \<in> set DISCOUNT_ROLE_KEYS}"
  shows "(case matchDiscountAuthority as (Some a) of None \<Rightarrow> 0 | Some x \<Rightarrow> ra_maxDiscountPercent x) =
    (if R = {} then 0 else Max (ra_maxDiscountPercent ` R))"
proof (cases "matchDiscountAuthority as (Some a)")
  case None
  let ?f = "filter (\<lambda>i. ra_roleKey i \<in> set (actorDiscountRoles (Some a)) \<and> ra_roleKey i \<in> set DISCOUNT_ROLE_KEYS) as"
  have "as = [] \<or> first (js_sort authority_cmp ?f) = None"
    using None by (auto simp: matchDiscountAuthority_def Let_def split: if_splits option.splits)
  then have "?f = []" by auto
  then have "R = {}" unfolding R by (auto simp: filter_empty_conv)
  then show ?thesis using None by simp
next
  case (Some m)
  have m: "m \<in> R" using matchDiscountAuthority_role [OF Some assms(1)] by (simp add: R)
  have "Max (ra_maxDiscountPercent ` R) = ra_maxDiscountPercent m"
    using m matchDiscountAuthority_best [OF Some] by (intro Max_eqI) (auto simp: R)
  then show ?thesis using Some m by auto
qed

section \<open>Properties\<close>

text \<open>The discount guard is exact. For an actor who is not an administrator a discount passes
  exactly when it is within the governance cap and within the largest maximum of the authority rows
  of the actor's discount roles (nothing when there is no such row) plus the loyalty bonus, which
  counts only when stacking is on; the tolerance is 1e-9. A discount that fails is refused as
  forbidden (403).\<close>

theorem discount_guard_exact:
  assumes "''admin'' \<notin> set (actorDiscountRoles (Some a))"
    and "R = {x \<in> set as. ra_roleKey x \<in> set (actorDiscountRoles (Some a)) \<and> ra_roleKey x \<in> set DISCOUNT_ROLE_KEYS}"
  shows "(assertDiscountWithinAuthority d as (Some a) t c = Ok () \<longleftrightarrow>
           d \<le> gc_maxCommercialDiscountPercent c + eps \<and>
           d \<le> (if R = {} then 0 else Max (ra_maxDiscountPercent ` R)) +
               (if gc_allowLoyaltyStacking c then loyaltyBonusPercent t else 0) + eps) \<and>
         (\<forall>e. assertDiscountWithinAuthority d as (Some a) t c = Throw e \<longrightarrow> statusCode e = Some 403)"
  unfolding assertDiscount_ok_iff ceiling_eq roleMax_is_Max [OF assms]
  using assertDiscount_throws_forbidden by (auto simp: min_def)

theorem discount_guard_exact_witness:
  "\<exists>a as R c. ''admin'' \<notin> set (actorDiscountRoles (Some a)) \<and>
     R = {x \<in> set as. ra_roleKey x \<in> set (actorDiscountRoles (Some a)) \<and> ra_roleKey x \<in> set DISCOUNT_ROLE_KEYS} \<and>
     R \<noteq> {} \<and> assertDiscountWithinAuthority 20 as (Some a) (Some ''gold'') c = Ok () \<and>
     assertDiscountWithinAuthority 21 as (Some a) (Some ''gold'') c \<noteq> Ok ()"
proof -
  define a where "a = \<lparr>act_id = ''u1'', act_email = None, act_role = Some ''finance'', act_roles = None, act_permissions = None\<rparr>"
  define c where "c = DEFAULT_GOVERNANCE\<lparr>gc_maxCommercialDiscountPercent := 30, gc_allowLoyaltyStacking := True\<rparr>"
  define R where "R = {x \<in> set [default_finance_authority]. ra_roleKey x \<in> set (actorDiscountRoles (Some a)) \<and> ra_roleKey x \<in> set DISCOUNT_ROLE_KEYS}"
  have adm: "''admin'' \<notin> set (actorDiscountRoles (Some a))" by (simp add: a_def actorDiscountRoles_def)
  have R: "R = {default_finance_authority}"
    by (auto simp: R_def a_def actorDiscountRoles_def default_finance_authority_def DISCOUNT_ROLE_KEYS_def)
  have bonus: "loyaltyBonusPercent (Some ''gold'') = 5" by (simp add: loyaltyBonusPercent_def normalizeCustomerTier_def)
  note g = conjunct1 [OF discount_guard_exact [OF adm R_def, where c = c and t = "Some ''gold''"]]
  have "assertDiscountWithinAuthority 20 [default_finance_authority] (Some a) (Some ''gold'') c = Ok ()"
    unfolding g by (simp add: R bonus c_def default_finance_authority_def eps_def)
  moreover have "assertDiscountWithinAuthority 21 [default_finance_authority] (Some a) (Some ''gold'') c \<noteq> Ok ()"
    unfolding g by (simp add: R bonus c_def default_finance_authority_def eps_def)
  ultimately show ?thesis using adm R R_def by blast
qed

end
