(* ===== verification/Dealflow_Store.thy ===== *)
theory Dealflow_Store
  imports Dealflow_Loyalty Dealflow_Strings
begin

text \<open>
  \<open>store.ts\<close>: the tables of \<open>createMemoryStore\<close> as the record \<open>world\<close>, and one definition per
  operation of the \<open>DealflowStore\<close> interface. \<open>structuredClone\<close> is the identity on values, so a read
  returns a value and a later mutation of it does not reach the table. The \<open>Map\<close> of quotes is an
  association list in insertion order.

  Effects: an \<open>action\<close> takes the world and returns a result and the next world; a throw keeps the
  writes made before it. \<open>bnd\<close> is the sequencing of \<open>await\<close>. The injected sinks (audit, notify,
  publish) are recorded in \<open>w_log\<close>; what they receive besides the fields kept in \<open>event\<close> is text.

  The environment \<open>env\<close> has the code outside the module: \<open>crypto.randomUUID\<close> and \<open>randomBytes\<close> (a
  supply indexed by the number of draws so far), the clock of the request, \<open>localeCompare\<close>, the
  \<open>options.config\<close> override, the Odoo client, the PDF renderer and the e-mail adapter; the last three
  return \<open>Inl message\<close> where the call throws.
\<close>

section \<open>World, environment, actions\<close>

datatype event =
    Ev_audit "string option" string string string string   (* actor, action, resource, resourceId, status *)
  | Ev_notify string string                                (* user, title *)
  | Ev_publish string "string option"                      (* type, quote *)

record world =
  w_customers :: "customer list"
  w_products :: "product list"
  w_warehouses :: "warehouse list"
  w_stock :: "stock_level list"
  w_policies :: "discount_policy list"
  w_chains :: "approval_chain list"
  w_relations :: "product_relation list"
  w_quantityBreaks :: "quantity_break list"
  w_roleAuthorities :: "role_authority list"
  w_governance :: governance_config
  w_quotes :: "(string \<times> quote_aggregate) list"
  w_anomalies :: "dealflow_anomaly list"
  w_negotiations :: "negotiation_request list"
  w_emails :: "quote_email_delivery list"
  w_quoteSeq :: nat
  w_uuid :: nat
  w_log :: "event list"

datatype send_status = Send_sent | Send_not_configured | Send_failed | Send_skipped

record send_result =
  sr_status :: send_status
  sr_provider :: "string option"
  sr_providerMessageId :: "string option"
  sr_notificationDeliveryId :: "string option"
  sr_error :: "string option"

record env =
  e_uuid :: "nat \<Rightarrow> string"
  e_token :: "nat \<Rightarrow> string"
  e_now :: int
  e_localeCompare :: "string \<Rightarrow> string \<Rightarrow> rat"
  e_config :: "governance_config option"
  e_hasAudit :: bool
  e_hasNotify :: bool
  e_hasPublish :: bool
  e_sendCustomerEmail :: "(quote_email_delivery \<Rightarrow> string \<Rightarrow> string + send_result) option"
  e_renderPdf :: "quote_aggregate \<Rightarrow> js_number \<Rightarrow> quote_email_event \<Rightarrow> string + string"
  e_odooEnabled :: bool
  e_createSaleOrder :: "(string \<Rightarrow> string \<Rightarrow> js_number \<Rightarrow> string + int) option"

type_synonym 'a action = "world \<Rightarrow> 'a result \<times> world"

definition ret :: "'a \<Rightarrow> 'a action" where "ret x w = (Ok x, w)"

definition throw :: "domain_error \<Rightarrow> 'a action" where "throw e w = (Throw e, w)"

definition bnd :: "'a action \<Rightarrow> ('a \<Rightarrow> 'b action) \<Rightarrow> 'b action" where
  "bnd m f w = (case m w of (Inl e, w') \<Rightarrow> (Inl e, w') | (Inr x, w') \<Rightarrow> f x w')"

definition gets :: "(world \<Rightarrow> 'a) \<Rightarrow> 'a action" where "gets f w = (Ok (f w), w)"

definition modify :: "(world \<Rightarrow> world) \<Rightarrow> unit action" where "modify f w = (Ok (), f w)"

definition lift :: "'a result \<Rightarrow> 'a action" where "lift r w = (r, w)"

definition ensure :: "bool \<Rightarrow> domain_error \<Rightarrow> unit action" where "ensure b e = (if b then ret () else throw e)"

definition unless :: "bool \<Rightarrow> unit action \<Rightarrow> unit action" where "unless b m = (if b then ret () else m)"

fun each :: "('a \<Rightarrow> unit action) \<Rightarrow> 'a list \<Rightarrow> unit action" where
  "each f [] = ret ()"
| "each f (x # xs) = bnd (f x) (\<lambda>_. each f xs)"

definition randomUUID :: "env \<Rightarrow> string action" where
  "randomUUID e w = (Ok (e_uuid e (w_uuid w)), w\<lparr>w_uuid := Suc (w_uuid w)\<rparr>)"

text \<open>An engine that draws identifiers gets the supply from the current position on.\<close>

definition fresh_from :: "env \<Rightarrow> world \<Rightarrow> nat \<Rightarrow> string" where
  "fresh_from e w i = e_uuid e (w_uuid w + i)"

definition drawing :: "env \<Rightarrow> ((nat \<Rightarrow> string) \<Rightarrow> 'a result) \<Rightarrow> ('a \<Rightarrow> nat) \<Rightarrow> 'a action" where
  "drawing e f used w = (case f (fresh_from e w) of
     Inl err \<Rightarrow> (Inl err, w)
   | Inr x \<Rightarrow> (Inr x, w\<lparr>w_uuid := w_uuid w + used x\<rparr>))"

definition truthy :: "string option \<Rightarrow> bool" where
  "truthy s = (case s of None \<Rightarrow> False | Some x \<Rightarrow> x \<noteq> [])"

definition log_event :: "event \<Rightarrow> unit action" where
  "log_event ev = modify (\<lambda>w. w\<lparr>w_log := w_log w @ [ev]\<rparr>)"

section \<open>Customers\<close>

definition store_getCustomer :: "string \<Rightarrow> customer option action" where
  "store_getCustomer i = gets (\<lambda>w. find (\<lambda>c. cu_id c = i) (w_customers w))"

definition email_is :: "string \<Rightarrow> customer \<Rightarrow> bool" where
  "email_is needle c = (toLowerCase (cu_email c) = needle)"

definition store_findCustomersByEmail :: "string \<Rightarrow> customer list action" where
  "store_findCustomersByEmail email = gets (\<lambda>w. filter (email_is (toLowerCase (js_trim email))) (w_customers w))"

record customer_input =
  ci_id :: "string option"
  ci_name :: string
  ci_email :: string
  ci_tier :: "customer_tier option"

definition persist_tier :: "customer_tier \<Rightarrow> customer_tier" where
  "persist_tier t = persistCustomerTier (Some (customer_tier_name t))"

definition patch_customer :: "customer_input \<Rightarrow> customer \<Rightarrow> customer" where
  "patch_customer input c = c\<lparr>cu_name := ci_name input, cu_email := js_trim (ci_email input),
     cu_tier := (case ci_tier input of None \<Rightarrow> cu_tier c | Some t \<Rightarrow> persist_tier t)\<rparr>"

text \<open>The row \<open>upsertCustomer\<close> edits: by identifier when one is given and known, else by e-mail.\<close>

definition customer_match :: "customer list \<Rightarrow> customer_input \<Rightarrow> customer \<Rightarrow> bool" where
  "customer_match cs input =
     (if truthy (ci_id input) \<and> (\<exists>c\<in>set cs. Some (cu_id c) = ci_id input)
      then (\<lambda>c. Some (cu_id c) = ci_id input)
      else email_is (toLowerCase (js_trim (ci_email input))))"

definition store_upsertCustomer :: "env \<Rightarrow> customer_input \<Rightarrow> customer action" where
  "store_upsertCustomer e input w =
     (let hit = customer_match (w_customers w) input
      in case find hit (w_customers w) of
           Some c \<Rightarrow> (Ok (patch_customer input c),
                     w\<lparr>w_customers := update_first hit (patch_customer input) (w_customers w)\<rparr>)
         | None \<Rightarrow>
             let created = \<lparr>cu_id = (case ci_id input of Some i \<Rightarrow> i | None \<Rightarrow> e_uuid e (w_uuid w)),
                            cu_name = ci_name input, cu_email = js_trim (ci_email input),
                            cu_tier = persist_tier (case ci_tier input of None \<Rightarrow> T_standard | Some t \<Rightarrow> t),
                            cu_odooPartnerId = None\<rparr>
             in (Ok created, w\<lparr>w_customers := w_customers w @ [created],
                               w_uuid := w_uuid w + (if ci_id input = None then 1 else 0)\<rparr>))"

definition store_deleteCustomer :: "string \<Rightarrow> unit action" where
  "store_deleteCustomer i = modify (\<lambda>w. w\<lparr>w_customers := remove_first (\<lambda>c. cu_id c = i) (w_customers w)\<rparr>)"

definition store_countCustomerQuotes :: "string \<Rightarrow> nat action" where
  "store_countCustomerQuotes c =
     gets (\<lambda>w. length (filter (\<lambda>a. qt_customerId (ag_quote a) = c) (map snd (w_quotes w))))"

definition won_status :: "quote_status \<Rightarrow> bool" where
  "won_status s \<longleftrightarrow> s = Q_confirmed \<or> s = Q_fulfillment \<or> s = Q_billing \<or> s = Q_completed"

definition won_purchases :: "world \<Rightarrow> string \<Rightarrow> nat" where
  "won_purchases w c = length (filter (\<lambda>a. qt_customerId (ag_quote a) = c \<and> won_status (qt_status (ag_quote a)))
     (map snd (w_quotes w)))"

definition store_countWonPurchases :: "string \<Rightarrow> nat action" where
  "store_countWonPurchases c = gets (\<lambda>w. won_purchases w c)"

section \<open>Products, warehouses, stock\<close>

definition store_getProduct :: "string \<Rightarrow> product option action" where
  "store_getProduct i = gets (\<lambda>w. find (\<lambda>p. pr_id p = i) (w_products w))"

definition store_upsertProduct :: "product \<Rightarrow> product action" where
  "store_upsertProduct p =
     bnd (modify (\<lambda>w. w\<lparr>w_products := upsert_by (\<lambda>i. pr_id i = pr_id p) p (w_products w)\<rparr>)) (\<lambda>_. ret p)"

definition store_deleteProduct :: "string \<Rightarrow> unit action" where
  "store_deleteProduct i = modify (\<lambda>w.
     if find (\<lambda>p. pr_id p = i) (w_products w) = None then w
     else w\<lparr>w_products := remove_first (\<lambda>p. pr_id p = i) (w_products w),
            w_stock := filter (\<lambda>s. st_productId s \<noteq> i) (w_stock w),
            w_quantityBreaks := filter (\<lambda>b. qb_productId b \<noteq> i) (w_quantityBreaks w),
            w_relations := filter (\<lambda>r. rel_productId r \<noteq> i \<and> rel_recommendedProductId r \<noteq> i) (w_relations w)\<rparr>)"

definition store_countProductQuoteLines :: "string \<Rightarrow> nat action" where
  "store_countProductQuoteLines p =
     gets (\<lambda>w. sum_list (map (\<lambda>a. length (filter (\<lambda>l. ln_productId l = p) (ag_lines a))) (map snd (w_quotes w))))"

definition store_upsertWarehouse :: "warehouse \<Rightarrow> warehouse action" where
  "store_upsertWarehouse x =
     bnd (modify (\<lambda>w. w\<lparr>w_warehouses := upsert_by (\<lambda>i. wh_id i = wh_id x) x (w_warehouses w)\<rparr>)) (\<lambda>_. ret x)"

definition store_deleteWarehouse :: "string \<Rightarrow> unit action" where
  "store_deleteWarehouse i = modify (\<lambda>w.
     if find (\<lambda>x. wh_id x = i) (w_warehouses w) = None then w
     else w\<lparr>w_warehouses := remove_first (\<lambda>x. wh_id x = i) (w_warehouses w),
            w_stock := filter (\<lambda>s. st_warehouseId s \<noteq> i) (w_stock w)\<rparr>)"

definition store_countWarehouseAllocations :: "string \<Rightarrow> nat action" where
  "store_countWarehouseAllocations i =
     gets (\<lambda>w. sum_list (map (\<lambda>a. length (filter (\<lambda>x. fs_warehouseId x = i) (ag_allocations a))) (map snd (w_quotes w))))"

definition store_replaceStock :: "stock_level list \<Rightarrow> unit action" where
  "store_replaceStock s = modify (\<lambda>w. w\<lparr>w_stock := s\<rparr>)"

definition store_upsertStock :: "stock_level \<Rightarrow> stock_level list action" where
  "store_upsertStock row =
     bnd (modify (\<lambda>w. w\<lparr>w_stock := upsert_by (\<lambda>i. st_warehouseId i = st_warehouseId row \<and> st_productId i = st_productId row)
                                 row (w_stock w)\<rparr>)) (\<lambda>_. gets w_stock)"

definition store_deleteStock :: "string \<Rightarrow> string \<Rightarrow> stock_level list action" where
  "store_deleteStock wid pid =
     bnd (modify (\<lambda>w. w\<lparr>w_stock := filter (\<lambda>i. \<not> (st_warehouseId i = wid \<and> st_productId i = pid)) (w_stock w)\<rparr>))
       (\<lambda>_. gets w_stock)"

section \<open>Policies, chains, relations, governance\<close>

definition store_upsertPolicy :: "discount_policy \<Rightarrow> discount_policy action" where
  "store_upsertPolicy p =
     bnd (modify (\<lambda>w. w\<lparr>w_policies := upsert_by (\<lambda>i. po_id i = po_id p) p (w_policies w)\<rparr>)) (\<lambda>_. ret p)"

definition store_deletePolicy :: "string \<Rightarrow> unit action" where
  "store_deletePolicy i = modify (\<lambda>w. w\<lparr>w_policies := remove_first (\<lambda>p. po_id p = i) (w_policies w)\<rparr>)"

definition store_getChain :: "string \<Rightarrow> approval_chain option action" where
  "store_getChain i = gets (\<lambda>w. find (\<lambda>c. ch_id c = i) (w_chains w))"

definition store_upsertChain :: "approval_chain \<Rightarrow> approval_chain action" where
  "store_upsertChain c =
     bnd (modify (\<lambda>w. w\<lparr>w_chains := upsert_by (\<lambda>i. ch_id i = ch_id c) c (w_chains w)\<rparr>)) (\<lambda>_. ret c)"

definition store_deleteChain :: "string \<Rightarrow> unit action" where
  "store_deleteChain i = modify (\<lambda>w. w\<lparr>w_chains := remove_first (\<lambda>c. ch_id c = i) (w_chains w)\<rparr>)"

definition store_countChainApprovals :: "string \<Rightarrow> nat action" where
  "store_countChainApprovals i =
     gets (\<lambda>w. sum_list (map (\<lambda>a. (if qt_requiredChainId (ag_quote a) = Some i then 1 else 0) +
                               length (filter (\<lambda>x. ap_chainId x = i) (ag_approvals a))) (map snd (w_quotes w))))"

definition store_upsertRelation :: "product_relation \<Rightarrow> product_relation action" where
  "store_upsertRelation r =
     bnd (modify (\<lambda>w. w\<lparr>w_relations := upsert_by (\<lambda>i. rel_id i = rel_id r) r (w_relations w)\<rparr>)) (\<lambda>_. ret r)"

definition store_deleteRelation :: "string \<Rightarrow> unit action" where
  "store_deleteRelation i = modify (\<lambda>w. w\<lparr>w_relations := remove_first (\<lambda>r. rel_id r = i) (w_relations w)\<rparr>)"

definition store_replaceQuantityBreaks :: "quantity_break list \<Rightarrow> quantity_break list action" where
  "store_replaceQuantityBreaks items = bnd (modify (\<lambda>w. w\<lparr>w_quantityBreaks := items\<rparr>)) (\<lambda>_. ret items)"

definition store_replaceRoleAuthorities :: "role_authority list \<Rightarrow> role_authority list action" where
  "store_replaceRoleAuthorities items = bnd (modify (\<lambda>w. w\<lparr>w_roleAuthorities := items\<rparr>)) (\<lambda>_. ret items)"

definition store_replaceGovernance :: "governance_config \<Rightarrow> governance_config action" where
  "store_replaceGovernance c = bnd (modify (\<lambda>w. w\<lparr>w_governance := c\<rparr>)) (\<lambda>_. ret c)"

section \<open>Quotes\<close>

definition padStart5 :: "string \<Rightarrow> string" where
  "padStart5 s = replicate (5 - length s) (CHR ''0'') @ s"

definition store_nextQuoteNumber :: "string action" where
  "store_nextQuoteNumber w =
     (Ok (''DF-'' @ padStart5 (digits (Suc (w_quoteSeq w)))), w\<lparr>w_quoteSeq := Suc (w_quoteSeq w)\<rparr>)"

definition store_newPortalToken :: "env \<Rightarrow> string action" where
  "store_newPortalToken e w = (Ok (e_token e (w_uuid w)), w\<lparr>w_uuid := Suc (w_uuid w)\<rparr>)"

text \<open>\<open>attach\<close>: the stored aggregate with its current customer and the products of its lines.\<close>

definition attach :: "world \<Rightarrow> quote_aggregate \<Rightarrow> quote_aggregate result" where
  "attach w a = (case find (\<lambda>c. cu_id c = qt_customerId (ag_quote a)) (w_customers w) of
     None \<Rightarrow> Throw (Plain_error (Quotation Customer_missing_on_quote))
   | Some c \<Rightarrow> Ok (a\<lparr>ag_customer := c,
       ag_products := List.map_filter (\<lambda>l. find (\<lambda>p. pr_id p = ln_productId l) (w_products w)) (ag_lines a)\<rparr>))"

definition quote_lookup :: "world \<Rightarrow> string \<Rightarrow> quote_aggregate option" where
  "quote_lookup w i = map_of (w_quotes w) i"

definition attach_opt :: "world \<Rightarrow> quote_aggregate option \<Rightarrow> quote_aggregate option result" where
  "attach_opt w found = (case found of None \<Rightarrow> Ok None | Some a \<Rightarrow> rbind (attach w a) (\<lambda>x. Ok (Some x)))"

definition store_getQuote :: "string \<Rightarrow> quote_aggregate option action" where
  "store_getQuote i w = (attach_opt w (quote_lookup w i), w)"

definition store_getQuoteByToken :: "string \<Rightarrow> quote_aggregate option action" where
  "store_getQuoteByToken token w =
     (attach_opt w (find (\<lambda>a. qt_portalToken (ag_quote a) = token) (map snd (w_quotes w))), w)"

definition store_listQuoteSummaries :: "quote_aggregate list action" where
  "store_listQuoteSummaries w = (map_result (attach w) (map snd (w_quotes w)), w)"

text \<open>\<open>saveQuote\<close> writes first and attaches afterwards.\<close>

definition put_quote :: "quote_aggregate \<Rightarrow> world \<Rightarrow> world" where
  "put_quote a w = w\<lparr>w_quotes := upsert_by (\<lambda>x. fst x = qt_id (ag_quote a)) (qt_id (ag_quote a), a) (w_quotes w)\<rparr>"

definition store_saveQuote :: "quote_aggregate \<Rightarrow> quote_aggregate action" where
  "store_saveQuote a w = (attach (put_quote a w) a, put_quote a w)"

definition store_deleteQuote :: "string \<Rightarrow> unit action" where
  "store_deleteQuote i = modify (\<lambda>w. w\<lparr>w_quotes := filter (\<lambda>x. fst x \<noteq> i) (w_quotes w),
     w_negotiations := filter (\<lambda>n. ng_quoteId n \<noteq> i) (w_negotiations w),
     w_emails := filter (\<lambda>m. em_quoteId m \<noteq> i) (w_emails w),
     w_anomalies := filter (\<lambda>x. an_quoteId x \<noteq> Some i) (w_anomalies w)\<rparr>)"

section \<open>Anomalies, negotiations, e-mails\<close>

definition store_upsertAnomaly :: "dealflow_anomaly \<Rightarrow> dealflow_anomaly action" where
  "store_upsertAnomaly x =
     bnd (modify (\<lambda>w. w\<lparr>w_anomalies := upsert_by (\<lambda>i. an_id i = an_id x) x (w_anomalies w)\<rparr>)) (\<lambda>_. ret x)"

text \<open>\<open>localeCompare\<close> of two ISO stamps of the same format is the order of the instants.\<close>

definition store_listNegotiations :: "string \<Rightarrow> negotiation_request list action" where
  "store_listNegotiations q =
     gets (\<lambda>w. js_sort (by_key (\<lambda>n. of_int (ng_createdAt n))) (filter (\<lambda>n. ng_quoteId n = q) (w_negotiations w)))"

definition store_getNegotiation :: "string \<Rightarrow> negotiation_request option action" where
  "store_getNegotiation i = gets (\<lambda>w. find (\<lambda>n. ng_id n = i) (w_negotiations w))"

definition store_saveNegotiation :: "negotiation_request \<Rightarrow> negotiation_request action" where
  "store_saveNegotiation x =
     bnd (modify (\<lambda>w. w\<lparr>w_negotiations := upsert_by (\<lambda>i. ng_id i = ng_id x) x (w_negotiations w)\<rparr>)) (\<lambda>_. ret x)"

definition store_listQuoteEmails :: "string \<Rightarrow> quote_email_delivery list action" where
  "store_listQuoteEmails q =
     gets (\<lambda>w. js_sort (by_key (\<lambda>m. of_int (em_createdAt m))) (filter (\<lambda>m. em_quoteId m = q) (w_emails w)))"

definition store_findQuoteEmailByKey :: "email_key \<Rightarrow> quote_email_delivery option action" where
  "store_findQuoteEmailByKey k = gets (\<lambda>w. find (\<lambda>m. em_idempotencyKey m = k) (w_emails w))"

definition store_saveQuoteEmail :: "quote_email_delivery \<Rightarrow> quote_email_delivery action" where
  "store_saveQuoteEmail x =
     bnd (modify (\<lambda>w. w\<lparr>w_emails := upsert_by (\<lambda>i. em_id i = em_id x \<or> em_idempotencyKey i = em_idempotencyKey x) x (w_emails w)\<rparr>))
       (\<lambda>_. ret x)"

definition emptyAggregate :: "quote \<Rightarrow> quote_line list \<Rightarrow> quote_aggregate" where
  "emptyAggregate q ls = \<lparr>ag_quote = q,
     ag_customer = \<lparr>cu_id = qt_customerId q, cu_name = [], cu_email = [], cu_tier = T_standard, cu_odooPartnerId = None\<rparr>,
     ag_lines = ls, ag_products = [], ag_approvals = [], ag_allocations = [], ag_backorders = [], ag_schedules = [],
     ag_revisions = []\<rparr>"

section \<open>Interfaces\<close>

text \<open>What a client of a keyed table relies on: a lookup after a write sees the written row under
  its key and the old rows under every other key. \<open>keyed_store\<close> adds deletion.\<close>

locale keyed_table =
  fixes get :: "'s \<Rightarrow> 'k \<Rightarrow> 'v option" and put :: "'k \<Rightarrow> 'v \<Rightarrow> 's \<Rightarrow> 's" and admissible :: "'k \<Rightarrow> 'v \<Rightarrow> bool"
  assumes get_put: "admissible k v \<Longrightarrow> get (put k v s) j = (if j = k then Some v else get s j)"
begin

lemma get_put_same: "admissible k v \<Longrightarrow> get (put k v s) k = Some v"
  by (simp add: get_put)

lemma get_put_other: "admissible k v \<Longrightarrow> j \<noteq> k \<Longrightarrow> get (put k v s) j = get s j"
  by (simp add: get_put)

lemma put_overwrites: "admissible k v \<Longrightarrow> admissible k u \<Longrightarrow> get (put k v (put k u s)) j = get (put k v s) j"
  by (simp add: get_put)

lemma put_commute:
  "admissible k v \<Longrightarrow> admissible j u \<Longrightarrow> k \<noteq> j \<Longrightarrow> get (put k v (put j u s)) i = get (put j u (put k v s)) i"
  by (simp add: get_put)

lemma put_preserves:
  assumes "\<forall>j u. get s j = Some u \<longrightarrow> P j u" and "admissible k v" and "P k v"
  shows "\<forall>j u. get (put k v s) j = Some u \<longrightarrow> P j u"
  using assms by (simp add: get_put)

lemma put_relates:
  assumes "admissible k v" and "\<forall>u. get s k = Some u \<longrightarrow> R u v" and "\<And>u. R u u"
  shows "\<forall>j u u'. get s j = Some u \<longrightarrow> get (put k v s) j = Some u' \<longrightarrow> R u u'"
  using assms by (simp add: get_put)

end

locale keyed_store = keyed_table get put admissible
  for get :: "'s \<Rightarrow> 'k \<Rightarrow> 'v option" and put :: "'k \<Rightarrow> 'v \<Rightarrow> 's \<Rightarrow> 's" and admissible :: "'k \<Rightarrow> 'v \<Rightarrow> bool" +
  fixes del :: "'k \<Rightarrow> 's \<Rightarrow> 's"
  assumes get_del: "get (del k s) j = (if j = k then None else get s j)"
begin

lemma del_put: "admissible k v \<Longrightarrow> get (del k (put k v s)) j = get (del k s) j"
  by (simp add: get_put get_del)

lemma del_preserves:
  assumes "\<forall>j u. get s j = Some u \<longrightarrow> P j u"
  shows "\<forall>j u. get (del k s) j = Some u \<longrightarrow> P j u"
  using assms by (simp add: get_del)

end

lemma map_of_upsert: "map_of (upsert_by (\<lambda>x. fst x = k) (k, v) qs) j = (if j = k then Some v else map_of qs j)"
  by (induction qs) auto

lemma map_of_filter_key: "map_of (filter (\<lambda>x. fst x \<noteq> k) qs) j = (if j = k then None else map_of qs j)"
  by (induction qs) auto

definition put_at :: "string \<Rightarrow> quote_aggregate \<Rightarrow> world \<Rightarrow> world" where
  "put_at k a w = put_quote a w"

definition drop_quote :: "string \<Rightarrow> world \<Rightarrow> world" where
  "drop_quote i w = snd (store_deleteQuote i w)"

interpretation quotes: keyed_store quote_lookup put_at "\<lambda>k a. qt_id (ag_quote a) = k" drop_quote
  by unfold_locales
    (auto simp: quote_lookup_def put_at_def put_quote_def drop_quote_def store_deleteQuote_def modify_def
      map_of_upsert map_of_filter_key)

definition negotiation_at :: "world \<Rightarrow> string \<Rightarrow> negotiation_request option" where
  "negotiation_at w i = find (\<lambda>n. ng_id n = i) (w_negotiations w)"

lemma find_upsert_key:
  "key v = k \<Longrightarrow> find (\<lambda>x. key x = j) (upsert_by (\<lambda>x. key x = k) v xs) = (if j = k then Some v else find (\<lambda>x. key x = j) xs)"
  by (induction xs) auto

interpretation negotiations: keyed_table negotiation_at "\<lambda>_ n w. snd (store_saveNegotiation n w)" "\<lambda>k n. ng_id n = k"
  by unfold_locales (auto simp: negotiation_at_def store_saveNegotiation_def bnd_def modify_def ret_def find_upsert_key)

definition product_at :: "world \<Rightarrow> string \<Rightarrow> product option" where
  "product_at w i = find (\<lambda>p. pr_id p = i) (w_products w)"

interpretation products: keyed_table product_at "\<lambda>_ p w. snd (store_upsertProduct p w)" "\<lambda>k p. pr_id p = k"
  by unfold_locales (auto simp: product_at_def store_upsertProduct_def bnd_def modify_def ret_def find_upsert_key)

definition anomaly_at :: "world \<Rightarrow> string \<Rightarrow> dealflow_anomaly option" where
  "anomaly_at w i = find (\<lambda>x. an_id x = i) (w_anomalies w)"

interpretation anomalies: keyed_table anomaly_at "\<lambda>_ x w. snd (store_upsertAnomaly x w)" "\<lambda>k x. an_id x = k"
  by unfold_locales (auto simp: anomaly_at_def store_upsertAnomaly_def bnd_def modify_def ret_def find_upsert_key)

section \<open>Quote numbers\<close>

lemma value_of_padded: "value_of (replicate m (CHR ''0'') @ s) = value_of s"
  by (induction m) auto

lemma quote_number_inj:
  assumes "''DF-'' @ padStart5 (digits m) = ''DF-'' @ padStart5 (digits n)"
  shows "m = n"
proof -
  have "value_of (padStart5 (digits m)) = value_of (padStart5 (digits n))" using assms by simp
  then show ?thesis by (simp only: padStart5_def value_of_padded value_of_digits)
qed

end
