(* ===== verification/Dealflow_Lifecycle.thy ===== *)
theory Dealflow_Lifecycle
  imports Dealflow_Types
begin

text \<open>
  \<open>lifecycle.ts\<close>: the table of allowed status moves, the guard \<open>assertTransition\<close>, and the
  status predicates the service tests. The theory also has the inductive relation \<open>moves\<close> of
  the table, its reachability facts, and the rank that orders the fulfilment tail of the
  lifecycle.
\<close>

section \<open>Definitions\<close>

fun TRANSITIONS :: "quote_status \<Rightarrow> quote_status list" where
  "TRANSITIONS Q_draft = [Q_customer_negotiation, Q_manager_review, Q_approval_required, Q_approved, Q_rejected]"
| "TRANSITIONS Q_approval_required = [Q_approved, Q_rejected, Q_draft]"
| "TRANSITIONS Q_approved = [Q_confirmed, Q_approval_required, Q_rejected]"
| "TRANSITIONS Q_customer_negotiation = [Q_manager_review, Q_finalized, Q_approval_required, Q_rejected, Q_draft]"
| "TRANSITIONS Q_manager_review = [Q_customer_negotiation, Q_finalized, Q_rejected]"
| "TRANSITIONS Q_finalized = [Q_approval_required, Q_approved, Q_rejected]"
| "TRANSITIONS Q_confirmed = [Q_fulfillment, Q_billing, Q_completed]"
| "TRANSITIONS Q_fulfillment = [Q_billing, Q_completed]"
| "TRANSITIONS Q_billing = [Q_completed]"
| "TRANSITIONS Q_completed = []"
| "TRANSITIONS Q_rejected = [Q_draft]"

definition assertTransition :: "quote_status \<Rightarrow> quote_status \<Rightarrow> unit result" where
  "assertTransition from to =
     (if from = to then Ok ()
      else if to \<notin> set (TRANSITIONS from) then Throw (conflict (Cannot_move from to))
      else Ok ())"

definition canMutateCommercials :: "quote_status \<Rightarrow> bool" where
  "canMutateCommercials s \<longleftrightarrow>
     s = Q_draft \<or> s = Q_rejected \<or> s = Q_customer_negotiation \<or> s = Q_manager_review"

definition isOpenForPlanning :: "quote_status \<Rightarrow> bool" where
  "isOpenForPlanning s \<longleftrightarrow> s = Q_confirmed \<or> s = Q_fulfillment"

definition isOpenForBilling :: "quote_status \<Rightarrow> bool" where
  "isOpenForBilling s \<longleftrightarrow> isOpenForPlanning s \<or> s = Q_billing"

definition requiresValidApproval :: "quote_status \<Rightarrow> bool" where
  "requiresValidApproval s \<longleftrightarrow> s = Q_approved \<or> s = Q_finalized \<or> s = Q_approval_required"

definition isCommerciallyLocked :: "quote_status \<Rightarrow> int option \<Rightarrow> bool" where
  "isCommerciallyLocked s financeLockedAt \<longleftrightarrow>
     financeLockedAt \<noteq> None \<or> s = Q_confirmed \<or> s = Q_fulfillment \<or> s = Q_billing \<or> s = Q_completed"

definition canDeleteQuote :: "quote_status \<Rightarrow> bool" where
  "canDeleteQuote s \<longleftrightarrow> s = Q_draft \<or> s = Q_rejected"

definition canVoidQuote :: "quote_status \<Rightarrow> bool" where
  "canVoidQuote s \<longleftrightarrow>
     s = Q_customer_negotiation \<or> s = Q_manager_review \<or> s = Q_approval_required \<or>
     s = Q_approved \<or> s = Q_finalized"

lemmas lifecycle_defs = canMutateCommercials_def isOpenForPlanning_def isOpenForBilling_def
  requiresValidApproval_def isCommerciallyLocked_def canDeleteQuote_def canVoidQuote_def

section \<open>The move relation\<close>

inductive moves :: "quote_status \<Rightarrow> quote_status \<Rightarrow> bool" where
  move: "t \<in> set (TRANSITIONS s) \<Longrightarrow> moves s t"

inductive_simps moves_simps [simp]: "moves s t"

lemma assertTransition_ok_iff: "assertTransition s t = Ok () \<longleftrightarrow> s = t \<or> moves s t"
  by (auto simp: assertTransition_def)

lemma assertTransition_throw:
  "assertTransition s t = Throw e \<Longrightarrow> e = conflict (Cannot_move s t)"
  by (auto simp: assertTransition_def split: if_splits)

text \<open>The statuses from which the commercial terms are final.\<close>

definition committed :: "quote_status \<Rightarrow> bool" where
  "committed s \<longleftrightarrow> s = Q_confirmed \<or> s = Q_fulfillment \<or> s = Q_billing \<or> s = Q_completed"

lemma committed_closed: "committed s \<Longrightarrow> moves s t \<Longrightarrow> committed t"
  by (cases s) (auto simp: committed_def)

lemma committed_closed_rtrancl: "moves\<^sup>*\<^sup>* s t \<Longrightarrow> committed s \<Longrightarrow> committed t"
  by (induction rule: rtranclp_induct) (auto simp del: moves_simps intro: committed_closed)

text \<open>The tail of the lifecycle is ordered, so it cannot cycle.\<close>

fun tail_rank :: "quote_status \<Rightarrow> nat" where
  "tail_rank Q_confirmed = 3"
| "tail_rank Q_fulfillment = 2"
| "tail_rank Q_billing = 1"
| "tail_rank Q_completed = 0"
| "tail_rank _ = 4"

lemma moves_tail_rank: "committed s \<Longrightarrow> moves s t \<Longrightarrow> tail_rank t < tail_rank s"
  by (cases s) (auto simp: committed_def)

lemma entry_to_committed: "moves s t \<Longrightarrow> committed t \<Longrightarrow> \<not> committed s \<Longrightarrow> s = Q_approved \<and> t = Q_confirmed"
  by (cases s) (auto simp: committed_def)

text \<open>Every path of the table into the committed statuses passes through \<open>approved\<close>.\<close>

lemma path_into_committed_via_approved:
  "moves\<^sup>*\<^sup>* s t \<Longrightarrow> \<not> committed s \<Longrightarrow> committed t \<Longrightarrow> moves\<^sup>*\<^sup>* s Q_approved \<and> moves\<^sup>*\<^sup>* Q_approved t"
proof (induction rule: rtranclp_induct)
  case base
  then show ?case by simp
next
  case (step y z)
  show ?case
  proof (cases "committed y")
    case True
    with step show ?thesis by (meson rtranclp.rtrancl_into_rtrancl)
  next
    case False
    with step.hyps step.prems have "y = Q_approved" using entry_to_committed by blast
    with step.hyps show ?thesis by (meson r_into_rtranclp)
  qed
qed

lemma every_status_partition:
  "(canMutateCommercials s \<or> requiresValidApproval s \<or> committed s)
   \<and> \<not> (canMutateCommercials s \<and> requiresValidApproval s)
   \<and> \<not> (canMutateCommercials s \<and> committed s)
   \<and> \<not> (requiresValidApproval s \<and> committed s)"
  by (cases s) (auto simp: lifecycle_defs committed_def)

interpretation tail: guarded_system moves committed "\<lambda>s t. tail_rank t \<le> tail_rank s"
  by unfold_locales (auto intro: committed_closed less_imp_le [OF moves_tail_rank] simp del: moves_simps)

section \<open>Properties\<close>

text \<open>A quotation becomes a committed order only through \<open>approved\<close>: every path of the status
  table from an uncommitted to a committed status passes through it; and once committed a quotation
  stays committed and only moves forward along confirmed, fulfillment, billing, completed.\<close>

theorem committed_only_through_approved:
  assumes "moves\<^sup>*\<^sup>* s t"
  shows "(\<not> committed s \<and> committed t \<longrightarrow> moves\<^sup>*\<^sup>* s Q_approved \<and> moves\<^sup>*\<^sup>* Q_approved t) \<and>
         (committed s \<longrightarrow> committed t \<and> tail_rank t \<le> tail_rank s)"
  using path_into_committed_via_approved [OF assms] tail.run_inv [OF assms] tail.run_rel [OF assms] by blast

theorem committed_only_through_approved_witness:
  "moves\<^sup>*\<^sup>* Q_finalized Q_billing \<and> \<not> committed Q_finalized \<and> committed Q_billing \<and> moves\<^sup>*\<^sup>* Q_approved Q_billing"
proof -
  have "moves Q_finalized Q_approved" "moves Q_approved Q_confirmed" "moves Q_confirmed Q_billing" by simp_all
  then have path: "moves\<^sup>*\<^sup>* Q_finalized Q_billing" by (meson converse_rtranclp_into_rtranclp r_into_rtranclp)
  then show ?thesis using committed_only_through_approved [OF path] by (simp add: committed_def)
qed

end
