(* ===== verification/Dealflow_Pricing.thy ===== *)
theory Dealflow_Pricing
  imports Dealflow_Samples
begin

text \<open>
  \<open>pricing-engine.ts\<close>: quantity breaks and the unit price they give. A break applies when it is
  active, names the product, is untiered or names the customer's tier, and its range holds the
  quantity; the most specific one with the largest minimum wins.
\<close>

section \<open>Definitions\<close>

definition matchingQuantityBreaks ::
  "quantity_break list \<Rightarrow> string \<Rightarrow> customer_tier option \<Rightarrow> quantity_break list" where
  "matchingQuantityBreaks breaks productId customerTier =
     filter (\<lambda>i. qb_active i \<noteq> Some False \<and> qb_productId i = productId \<and>
                 (qb_customerTier i = None \<or> qb_customerTier i = customerTier)) breaks"

definition in_range :: "quantity_break \<Rightarrow> js_number \<Rightarrow> bool" where
  "in_range i quantity \<longleftrightarrow> quantity \<ge> qb_minQuantity i \<and>
     (case qb_maxQuantity i of None \<Rightarrow> True | Some m \<Rightarrow> quantity \<le> m)"

definition tier_weight :: "quantity_break \<Rightarrow> rat" where
  "tier_weight i = (if qb_customerTier i \<noteq> None then 1 else 0)"

definition break_cmp :: "quantity_break \<Rightarrow> quantity_break \<Rightarrow> rat" where
  "break_cmp = by_key2 (\<lambda>i. - tier_weight i) (\<lambda>i. - qb_minQuantity i)"

definition selectQuantityBreak ::
  "quantity_break list \<Rightarrow> string \<Rightarrow> js_number \<Rightarrow> customer_tier option \<Rightarrow> quantity_break option" where
  "selectQuantityBreak breaks productId quantity customerTier =
     first (js_sort break_cmp
       (filter (\<lambda>i. in_range i quantity) (matchingQuantityBreaks breaks productId customerTier)))"

record resolved_price =
  rp_unitPrice :: js_number
  rp_ruleName :: string
  rp_breakId :: "string option"

definition resolveUnitPrice ::
  "product \<Rightarrow> js_number \<Rightarrow> quantity_break list \<Rightarrow> customer_tier option \<Rightarrow> resolved_price" where
  "resolveUnitPrice product quantity breaks customerTier =
     (case selectQuantityBreak breaks (pr_id product) quantity customerTier of
        None \<Rightarrow> \<lparr>rp_unitPrice = pr_listPrice product, rp_ruleName = ''List price'', rp_breakId = None\<rparr>
      | Some selected \<Rightarrow>
          if qb_adjustmentKind selected = AK_percent
          then \<lparr>rp_unitPrice = round_digits (pr_listPrice product * (1 + qb_adjustmentValue selected / 100)) 2,
                rp_ruleName = qb_name selected, rp_breakId = Some (qb_id selected)\<rparr>
          else \<lparr>rp_unitPrice = qb_adjustmentValue selected,
                rp_ruleName = qb_name selected, rp_breakId = Some (qb_id selected)\<rparr>)"

text \<open>The reference reading of "this break applies to this line".\<close>

definition applies :: "quantity_break \<Rightarrow> string \<Rightarrow> js_number \<Rightarrow> customer_tier option \<Rightarrow> bool" where
  "applies i productId quantity customerTier \<longleftrightarrow>
     qb_active i \<noteq> Some False \<and> qb_productId i = productId \<and>
     (qb_customerTier i = None \<or> qb_customerTier i = customerTier) \<and> in_range i quantity"

section \<open>Lemmas\<close>

interpretation break_order: comparator break_cmp
  unfolding break_cmp_def by (rule comparator_by_key2)

lemma candidates_iff:
  "i \<in> set (filter (\<lambda>i. in_range i q) (matchingQuantityBreaks bs p t)) \<longleftrightarrow> i \<in> set bs \<and> applies i p q t"
  by (auto simp: matchingQuantityBreaks_def applies_def)

lemma selectQuantityBreak_applies:
  "selectQuantityBreak bs p q t = Some b \<Longrightarrow> b \<in> set bs \<and> applies b p q t"
  unfolding selectQuantityBreak_def candidates_iff [symmetric]
  by (rule break_order.first_js_sort_mem)

lemma selectQuantityBreak_None_iff:
  "selectQuantityBreak bs p q t = None \<longleftrightarrow> (\<forall>b\<in>set bs. \<not> applies b p q t)"
  unfolding selectQuantityBreak_def first_None_iff js_sort_Nil_iff
  using candidates_iff [of _ q bs p t] by (metis empty_iff empty_set set_empty subsetI subset_antisym)

lemma selectQuantityBreak_best:
  assumes "selectQuantityBreak bs p q t = Some b" and "x \<in> set bs" and "applies x p q t"
  shows "tier_weight x < tier_weight b \<or>
         (tier_weight x = tier_weight b \<and> qb_minQuantity x \<le> qb_minQuantity b)"
proof -
  have "x \<in> set (filter (\<lambda>i. in_range i q) (matchingQuantityBreaks bs p t))"
    using assms(2,3) candidates_iff by blast
  with assms(1) have "break_cmp b x \<le> 0"
    unfolding selectQuantityBreak_def by (rule break_order.first_js_sort_min)
  then show ?thesis by (auto simp: break_cmp_def by_key2_le)
qed

text \<open>A tiered break beats every untiered one.\<close>

lemma tiered_break_wins:
  assumes "selectQuantityBreak bs p q t = Some b" and "x \<in> set bs" "applies x p q t" "qb_customerTier x \<noteq> None"
  shows "qb_customerTier b = t \<and> qb_customerTier b \<noteq> None"
proof -
  have "tier_weight x = 1" using assms(4) by (simp add: tier_weight_def)
  then have "tier_weight b = 1"
    using selectQuantityBreak_best [OF assms(1-3)] by (auto simp: tier_weight_def split: if_splits)
  then show ?thesis using selectQuantityBreak_applies [OF assms(1)]
    by (auto simp: tier_weight_def applies_def split: if_splits)
qed

text \<open>What \<open>validateQuantityBreaks\<close> guarantees of one break's adjustment.\<close>

definition adjustment_ok :: "quantity_break \<Rightarrow> bool" where
  "adjustment_ok b \<longleftrightarrow>
     (qb_adjustmentKind b = AK_fixed \<longrightarrow> 0 \<le> qb_adjustmentValue b) \<and>
     (qb_adjustmentKind b = AK_percent \<longrightarrow> -100 \<le> qb_adjustmentValue b \<and> qb_adjustmentValue b \<le> 100)"

lemma resolveUnitPrice_nonneg:
  assumes "0 \<le> pr_listPrice p" and "\<forall>b\<in>set bs. adjustment_ok b"
  shows "0 \<le> rp_unitPrice (resolveUnitPrice p q bs t)"
proof (cases "selectQuantityBreak bs (pr_id p) q t")
  case None
  then show ?thesis using assms(1) by (simp add: resolveUnitPrice_def)
next
  case (Some b)
  then have ok: "adjustment_ok b" using assms(2) selectQuantityBreak_applies by blast
  have "0 \<le> pr_listPrice p * (1 + qb_adjustmentValue b / 100)" if "qb_adjustmentKind b = AK_percent"
    using ok that assms(1) by (intro mult_nonneg_nonneg) (auto simp: adjustment_ok_def)
  then show ?thesis using Some ok
    by (cases "qb_adjustmentKind b") (auto simp: resolveUnitPrice_def adjustment_ok_def intro: round_digits_nonneg)
qed

lemma resolveUnitPrice_percent_at_most_double:
  assumes "0 \<le> pr_listPrice p" and "\<forall>b\<in>set bs. adjustment_ok b"
    and "selectQuantityBreak bs (pr_id p) q t = Some b" and "qb_adjustmentKind b = AK_percent"
  shows "rp_unitPrice (resolveUnitPrice p q bs t) \<le> 2 * pr_listPrice p + 1/200"
proof -
  let ?x = "pr_listPrice p * (1 + qb_adjustmentValue b / 100)"
  have "qb_adjustmentValue b \<le> 100"
    using assms selectQuantityBreak_applies [OF assms(3)] by (auto simp: adjustment_ok_def)
  then have "?x \<le> pr_listPrice p * 2" using assms(1) by (intro mult_left_mono) auto
  moreover have "round_digits ?x 2 \<le> ?x + 1 / 200" using round_digits_upper [of ?x 2] by simp
  ultimately have "round_digits ?x 2 \<le> 2 * pr_listPrice p + 1/200" by linarith
  then show ?thesis using assms(3,4) by (simp add: resolveUnitPrice_def)
qed

section \<open>Properties\<close>

text \<open>The unit price is the list price exactly when no quantity break applies to the product,
  quantity and tier; otherwise it is the adjustment of an applicable break that no other applicable
  break beats (a break for the customer's tier beats an untiered one, then the larger minimum
  quantity wins), a percentage being taken from the list price and rounded to cents.\<close>

theorem unit_price_rule:
  "(\<forall>b\<in>set bs. \<not> applies b (pr_id p) q t) \<and>
     rp_unitPrice (resolveUnitPrice p q bs t) = pr_listPrice p \<and> rp_breakId (resolveUnitPrice p q bs t) = None
   \<or> (\<exists>b\<in>set bs. applies b (pr_id p) q t \<and>
       (\<forall>x\<in>set bs. applies x (pr_id p) q t \<longrightarrow>
          tier_weight x < tier_weight b \<or> (tier_weight x = tier_weight b \<and> qb_minQuantity x \<le> qb_minQuantity b)) \<and>
       rp_breakId (resolveUnitPrice p q bs t) = Some (qb_id b) \<and>
       rp_unitPrice (resolveUnitPrice p q bs t) =
         (if qb_adjustmentKind b = AK_percent then round_digits (pr_listPrice p * (1 + qb_adjustmentValue b / 100)) 2
          else qb_adjustmentValue b))"
proof (cases "selectQuantityBreak bs (pr_id p) q t")
  case None
  then show ?thesis using selectQuantityBreak_None_iff [of bs "pr_id p" q t] by (simp add: resolveUnitPrice_def)
next
  case (Some b)
  have b: "b \<in> set bs" "applies b (pr_id p) q t" using selectQuantityBreak_applies [OF Some] by auto
  moreover have "rp_breakId (resolveUnitPrice p q bs t) = Some (qb_id b)" using Some by (simp add: resolveUnitPrice_def)
  moreover have "rp_unitPrice (resolveUnitPrice p q bs t) =
      (if qb_adjustmentKind b = AK_percent then round_digits (pr_listPrice p * (1 + qb_adjustmentValue b / 100)) 2 else qb_adjustmentValue b)"
    using Some by (simp add: resolveUnitPrice_def)
  moreover have "\<forall>x\<in>set bs. applies x (pr_id p) q t \<longrightarrow>
      tier_weight x < tier_weight b \<or> (tier_weight x = tier_weight b \<and> qb_minQuantity x \<le> qb_minQuantity b)"
    using selectQuantityBreak_best [OF Some] by blast
  ultimately show ?thesis by blast
qed

text \<open>Two breaks from 1 and from 10 units and an order of 12: the second one sets the price.\<close>

definition price_break :: "string \<Rightarrow> js_number \<Rightarrow> js_number \<Rightarrow> quantity_break" where
  "price_break i minq price = \<lparr>qb_id = i, qb_name = i, qb_productId = ''p1'', qb_customerTier = None, qb_minQuantity = minq,
     qb_maxQuantity = None, qb_adjustmentKind = AK_fixed, qb_adjustmentValue = price, qb_active = None\<rparr>"

theorem unit_price_rule_witness:
  "rp_unitPrice (resolveUnitPrice (sample_product ''p1'' 100 One_time) 12 [price_break ''b1'' 1 90, price_break ''b2'' 10 80] None) = 80"
  using unit_price_rule [of "[price_break ''b1'' 1 90, price_break ''b2'' 10 80]" "sample_product ''p1'' 100 One_time" 12 None]
  by (simp add: applies_def in_range_def tier_weight_def price_break_def sample_product_def)

end
