(* ===== verification/Dealflow_Discount.thy ===== *)
theory Dealflow_Discount
  imports Dealflow_Loyalty Dealflow_Pricing
begin

text \<open>
  \<open>discount-engine.ts\<close>: policy selection, the decision on one line, approval-chain selection,
  the whole-quote assessment and the material-change test. The loop of \<open>assessQuote\<close> is split
  into \<open>assess_line\<close> (its body) and the totals over the list of results.
\<close>

section \<open>Policies\<close>

definition specificity :: "discount_policy \<Rightarrow> rat" where
  "specificity p = (if po_customerTier p \<noteq> None then 2 else 0) +
     (case po_productCategory p of None \<Rightarrow> 0 | Some c \<Rightarrow> if c \<noteq> [] then 2 else 0)"

definition policy_cmp :: "discount_policy \<Rightarrow> discount_policy \<Rightarrow> rat" where
  "policy_cmp = by_key2 (\<lambda>p. - specificity p) po_priority"

definition policy_matches :: "discount_policy \<Rightarrow> customer_tier \<Rightarrow> string \<Rightarrow> bool" where
  "policy_matches p tier category \<longleftrightarrow>
     po_active p \<noteq> Some False \<and>
     (po_customerTier p = None \<or> po_customerTier p = Some tier) \<and>
     (po_productCategory p = None \<or> po_productCategory p = Some category)"

definition implicit_default :: discount_policy where
  "implicit_default = \<lparr>
     po_id = ''implicit-default'', po_name = ''Implicit default'', po_customerTier = None,
     po_productCategory = None, po_warningPercent = 3, po_approvalPercent = 5, po_rejectPercent = 25,
     po_maxMarginImpactPercent = 40, po_priority = 999, po_description = None, po_active = None\<rparr>"

definition selectPolicy :: "discount_policy list \<Rightarrow> customer_tier \<Rightarrow> string \<Rightarrow> discount_policy" where
  "selectPolicy policies tier category =
     (case first (js_sort policy_cmp (filter (\<lambda>p. policy_matches p tier category) policies)) of
        Some p \<Rightarrow> p
      | None \<Rightarrow> implicit_default)"

section \<open>One line\<close>

definition decideLineDiscount ::
  "js_number \<Rightarrow> js_number \<Rightarrow> discount_policy \<Rightarrow> discount_decision \<times> reason list" where
  "decideLineDiscount discountPercent marginErosionPercent policy =
     (let (d1, r1) =
            (if discountPercent \<ge> po_rejectPercent policy
             then (D_rejected, [R_exceeds_reject discountPercent (po_rejectPercent policy) (po_name policy)])
             else if discountPercent \<ge> po_approvalPercent policy
             then (D_approval_required, [R_exceeds_approval discountPercent (po_approvalPercent policy) (po_name policy)])
             else if discountPercent \<ge> po_warningPercent policy
             then (D_warning, [R_exceeds_warning discountPercent (po_warningPercent policy) (po_name policy)])
             else (D_allowed, []));
          (d2, r2) =
            (if marginErosionPercent \<ge> po_maxMarginImpactPercent policy
             then (if d1 = D_allowed \<or> d1 = D_warning then D_approval_required else d1,
                   r1 @ [R_margin_erosion (round_digits marginErosionPercent 2) (po_maxMarginImpactPercent policy) (po_name policy)])
             else (d1, r1));
          r3 = (if d2 = D_allowed then r2 @ [R_within (po_name policy)] else r2)
      in (d2, r3))"

fun DECISION_RANK :: "discount_decision \<Rightarrow> nat" where
  "DECISION_RANK D_allowed = 0"
| "DECISION_RANK D_warning = 1"
| "DECISION_RANK D_approval_required = 2"
| "DECISION_RANK D_rejected = 3"

definition worse :: "discount_decision \<Rightarrow> discount_decision \<Rightarrow> discount_decision" where
  "worse left right = (if DECISION_RANK left \<ge> DECISION_RANK right then left else right)"

definition selectRoleAuthority :: "role_authority list \<Rightarrow> actor option \<Rightarrow> role_authority option" where
  "selectRoleAuthority authorities a = matchDiscountAuthority authorities a"

definition chain_matches :: "approval_chain \<Rightarrow> js_number \<Rightarrow> js_number \<Rightarrow> bool" where
  "chain_matches c riskScore blended \<longleftrightarrow>
     ch_active c \<noteq> Some False \<and>
     (riskScore \<ge> ch_minRiskScore c \<or> blended \<ge> ch_minBlendedDiscountPercent c)"

definition chain_severity :: "approval_chain \<Rightarrow> rat" where
  "chain_severity c = ch_minRiskScore c + ch_minBlendedDiscountPercent c"

definition chain_cmp :: "approval_chain \<Rightarrow> approval_chain \<Rightarrow> rat" where
  "chain_cmp = by_key2 (\<lambda>c. - chain_severity c) ch_priority"

definition selectApprovalChain ::
  "approval_chain list \<Rightarrow> js_number \<Rightarrow> js_number \<Rightarrow> approval_chain option" where
  "selectApprovalChain cs riskScore blended =
     first (js_sort chain_cmp (filter (\<lambda>c. chain_matches c riskScore blended) cs))"

text \<open>The three authority checks of the loop body, in order. Each takes the decision, the
  reasons and \<open>roleLimitExceeded\<close> so far.\<close>

type_synonym line_state = "discount_decision \<times> reason list \<times> bool"

definition authority_discount :: "role_authority option \<Rightarrow> js_number \<Rightarrow> line_state \<Rightarrow> line_state" where
  "authority_discount authority discountPercent st = (case (authority, st) of
     (Some a, (decision, reasons, exceeded)) \<Rightarrow>
       if discountPercent > ra_maxDiscountPercent a
       then (case ra_exceedAction a of
               X_block \<Rightarrow> D_rejected
             | X_approval \<Rightarrow> worse decision D_approval_required
             | X_allow \<Rightarrow> decision,
             reasons @ [R_role_range discountPercent (ra_roleKey a) (ra_maxDiscountPercent a)], True)
       else (decision, reasons, exceeded)
   | (None, _) \<Rightarrow> st)"

definition authority_margin ::
  "role_authority option \<Rightarrow> js_number \<Rightarrow> js_number \<Rightarrow> line_state \<Rightarrow> line_state" where
  "authority_margin authority marginPercent netAmount st = (case (authority, st) of
     (Some a, (decision, reasons, exceeded)) \<Rightarrow>
       if marginPercent < ra_minMarginPercent a \<and> netAmount > 0
       then (if ra_exceedAction a = X_block then D_rejected else worse decision D_approval_required,
             reasons @ [R_margin_floor marginPercent (ra_roleKey a) (ra_minMarginPercent a)], exceeded)
       else (decision, reasons, exceeded)
   | (None, _) \<Rightarrow> st)"

definition authority_override :: "role_authority option \<Rightarrow> js_number \<Rightarrow> line_state \<Rightarrow> line_state" where
  "authority_override authority override st = (case (authority, st) of
     (Some a, (decision, reasons, exceeded)) \<Rightarrow>
       if override > ra_maxPriceOverridePercent a
       then (case ra_exceedAction a of
               X_block \<Rightarrow> D_rejected
             | X_approval \<Rightarrow> worse decision D_approval_required
             | X_allow \<Rightarrow> decision,
             reasons @ [R_override override (ra_roleKey a) (ra_maxPriceOverridePercent a)], True)
       else (decision, reasons, exceeded)
   | (None, _) \<Rightarrow> st)"

definition line_availability ::
  "warehouse list \<Rightarrow> stock_level list \<Rightarrow> string \<Rightarrow> warehouse_availability list" where
  "line_availability warehouses stock productId =
     map (\<lambda>w. let row = find (\<lambda>i. st_warehouseId i = wh_id w \<and> st_productId i = productId) stock
              in \<lparr>wa_warehouseId = wh_id w, wa_name = wh_name w,
                  wa_available = max 0 ((case row of None \<Rightarrow> 0 | Some r \<Rightarrow> st_quantityOnHand r)
                                       - (case row of None \<Rightarrow> 0 | Some r \<Rightarrow> st_reserved r))\<rparr>)
       warehouses"

record assess_input =
  ai_customerTier :: customer_tier
  ai_lines :: "(quote_line \<times> product) list"
  ai_policies :: "discount_policy list"
  ai_chains :: "approval_chain list"
  ai_config :: governance_config
  ai_actor :: "actor option"
  ai_quantityBreaks :: "quantity_break list"
  ai_roleAuthorities :: "role_authority list"
  ai_stock :: "stock_level list"
  ai_warehouses :: "warehouse list"

text \<open>\<open>normalizeCustomerTier(t) === 'new' ? 'standard' : normalizeCustomerTier(t)\<close>.\<close>

definition assessed_tier :: "customer_tier \<Rightarrow> customer_tier" where
  "assessed_tier t = (case normalizeCustomerTier (Some (customer_tier_name t)) of
     L_new \<Rightarrow> T_standard | L_gold \<Rightarrow> T_gold | L_platinum \<Rightarrow> T_platinum)"

definition line_priced :: "assess_input \<Rightarrow> quote_line \<Rightarrow> product \<Rightarrow> resolved_price" where
  "line_priced input line product =
     resolveUnitPrice product (ln_quantity line) (ai_quantityBreaks input) (Some (assessed_tier (ai_customerTier input)))"

definition line_appliedPrice :: "assess_input \<Rightarrow> quote_line \<Rightarrow> product \<Rightarrow> js_number" where
  "line_appliedPrice input line product =
     (if \<bar>ln_listPrice line - rp_unitPrice (line_priced input line product)\<bar> > 5/1000
      then ln_listPrice line else rp_unitPrice (line_priced input line product))"

definition line_overridePercent :: "assess_input \<Rightarrow> quote_line \<Rightarrow> product \<Rightarrow> js_number" where
  "line_overridePercent input line product =
     (let rulePrice = rp_unitPrice (line_priced input line product)
      in if rulePrice = 0 then 0
         else round_digits (\<bar>line_appliedPrice input line product - rulePrice\<bar> / rulePrice * 100) 2)"

definition line_listAmount :: "assess_input \<Rightarrow> quote_line \<Rightarrow> product \<Rightarrow> js_number" where
  "line_listAmount input line product =
     round_digits (line_appliedPrice input line product * ln_quantity line) 4"

definition line_netAmount :: "assess_input \<Rightarrow> quote_line \<Rightarrow> product \<Rightarrow> js_number" where
  "line_netAmount input line product =
     round_digits (line_appliedPrice input line product * (1 - ln_discountPercent line / 100) * ln_quantity line) 4"

definition line_costAmount :: "quote_line \<Rightarrow> product \<Rightarrow> js_number" where
  "line_costAmount line product = round_digits (pr_cost product * ln_quantity line) 4"

definition line_marginPercent :: "assess_input \<Rightarrow> quote_line \<Rightarrow> product \<Rightarrow> js_number" where
  "line_marginPercent input line product =
     (let net = line_netAmount input line product
      in if net = 0 then 0 else round_digits ((net - line_costAmount line product) / net * 100) 2)"

definition line_marginErosion :: "assess_input \<Rightarrow> quote_line \<Rightarrow> product \<Rightarrow> js_number" where
  "line_marginErosion input line product =
     (let standardMargin = (pr_listPrice product - pr_cost product) * ln_quantity line;
          actualMargin = line_netAmount input line product - line_costAmount line product
      in if standardMargin \<le> 0 then (if ln_discountPercent line > 0 then 100 else 0)
         else round_digits ((standardMargin - actualMargin) / standardMargin * 100) 2)"

definition line_policy :: "assess_input \<Rightarrow> product \<Rightarrow> discount_policy" where
  "line_policy input product =
     selectPolicy (ai_policies input) (assessed_tier (ai_customerTier input)) (pr_category product)"

definition line_verdict :: "assess_input \<Rightarrow> quote_line \<Rightarrow> product \<Rightarrow> line_state" where
  "line_verdict input line product =
     (let authority = selectRoleAuthority (ai_roleAuthorities input) (ai_actor input);
          decided = decideLineDiscount (ln_discountPercent line)
                      (line_marginErosion input line product) (line_policy input product)
      in authority_override authority (line_overridePercent input line product)
           (authority_margin authority (line_marginPercent input line product) (line_netAmount input line product)
             (authority_discount authority (ln_discountPercent line) (fst decided, snd decided, False))))"

definition assess_line :: "assess_input \<Rightarrow> quote_line \<Rightarrow> product \<Rightarrow> line_assessment" where
  "assess_line input line product =
     \<lparr>la_lineId = ln_id line, la_productId = pr_id product, la_sku = pr_sku product,
      la_quantity = ln_quantity line, la_discountPercent = ln_discountPercent line,
      la_listAmount = line_listAmount input line product,
      la_netAmount = line_netAmount input line product,
      la_costAmount = line_costAmount line product,
      la_marginPercent = line_marginPercent input line product,
      la_marginErosionPercent = line_marginErosion input line product,
      la_policyId = po_id (line_policy input product), la_policyName = po_name (line_policy input product),
      la_decision = fst (line_verdict input line product),
      la_reasons = fst (snd (line_verdict input line product)),
      la_basePrice = pr_listPrice product,
      la_appliedPrice = line_appliedPrice input line product,
      la_pricingRuleName = (rp_ruleName (line_priced input line product), line_overridePercent input line product > 0),
      la_roleLimitExceeded = snd (snd (line_verdict input line product)),
      la_approvalScope =
        (if fst (line_verdict input line product) = D_approval_required \<or> fst (line_verdict input line product) = D_rejected
         then Scope_line else Scope_quote),
      la_warehouses = line_availability (ai_warehouses input) (ai_stock input) (pr_id product),
      la_totalAvailable =
        sum_list (map wa_available (line_availability (ai_warehouses input) (ai_stock input) (pr_id product))),
      la_shortfall = max 0 (ln_quantity line -
        sum_list (map wa_available (line_availability (ai_warehouses input) (ai_stock input) (pr_id product))))\<rparr>"

section \<open>The whole quote\<close>

definition count_decision :: "discount_decision \<Rightarrow> line_assessment list \<Rightarrow> nat" where
  "count_decision d ls = length (filter (\<lambda>l. la_decision l = d) ls)"

definition risk_raw :: "js_number \<Rightarrow> line_assessment list \<Rightarrow> rat" where
  "risk_raw blended ls =
     blended * (5/2) +
     sum_list (map la_marginErosionPercent ls) / of_nat (max (length ls) 1) * (4/10) +
     of_nat (count_decision D_warning ls) * 8 +
     of_nat (count_decision D_approval_required ls) * 15 +
     of_nat (count_decision D_rejected ls) * 40"

definition list_total :: "line_assessment list \<Rightarrow> js_number" where
  "list_total ls = sum_list (map la_listAmount ls)"

definition net_total :: "line_assessment list \<Rightarrow> js_number" where
  "net_total ls = sum_list (map la_netAmount ls)"

definition cost_total :: "line_assessment list \<Rightarrow> js_number" where
  "cost_total ls = sum_list (map la_costAmount ls)"

definition discount_total :: "line_assessment list \<Rightarrow> js_number" where
  "discount_total ls = round_digits (list_total ls - net_total ls) 4"

definition blended_discount :: "line_assessment list \<Rightarrow> js_number" where
  "blended_discount ls =
     (if list_total ls = 0 then 0 else round_digits (discount_total ls / list_total ls * 100) 2)"

definition margin_percent :: "line_assessment list \<Rightarrow> js_number" where
  "margin_percent ls =
     (if net_total ls = 0 then 0 else round_digits ((net_total ls - cost_total ls) / net_total ls * 100) 2)"

definition cumulative_escalated :: "governance_config \<Rightarrow> line_assessment list \<Rightarrow> bool" where
  "cumulative_escalated config ls \<longleftrightarrow>
     of_nat (count_decision D_warning ls) \<ge> gc_cumulativeWarningLimit config"

definition risk_score :: "line_assessment list \<Rightarrow> js_number" where
  "risk_score ls = round_digits (clamp (risk_raw (blended_discount ls) ls) 0 100) 2"

definition high_value :: "governance_config \<Rightarrow> line_assessment list \<Rightarrow> bool" where
  "high_value config ls \<longleftrightarrow> net_total ls \<ge> gc_highValueNetTotal config"

text \<open>The running \<open>decision\<close>: worst line, then the cumulative and the high-value escalation.\<close>

definition quote_decision :: "governance_config \<Rightarrow> line_assessment list \<Rightarrow> discount_decision" where
  "quote_decision config ls =
     (let d1 = foldl (\<lambda>d l. worse d (la_decision l)) D_allowed ls;
          d2 = (if d1 \<noteq> D_rejected \<and> cumulative_escalated config ls then worse d1 D_approval_required else d1)
      in if high_value config ls \<and> d2 \<noteq> D_rejected then worse d2 D_approval_required else d2)"

definition line_approvals :: "line_assessment list \<Rightarrow> line_assessment list" where
  "line_approvals ls = filter (\<lambda>l. la_approvalScope l = Scope_line) ls"

definition merge_reasons :: "line_assessment list \<Rightarrow> reason list" where
  "merge_reasons ls = (if length (line_approvals ls) \<ge> 2 then [R_merge_risk (length (line_approvals ls))] else [])"

definition quote_chain :: "assess_input \<Rightarrow> line_assessment list \<Rightarrow> approval_chain option" where
  "quote_chain input ls =
     (if quote_decision (ai_config input) ls = D_approval_required \<or> quote_decision (ai_config input) ls = D_rejected
      then selectApprovalChain (ai_chains input) (risk_score ls) (blended_discount ls) else None)"

definition quote_reasons :: "assess_input \<Rightarrow> line_assessment list \<Rightarrow> reason list" where
  "quote_reasons input ls =
     concat (map la_reasons ls) @
     (if cumulative_escalated (ai_config input) ls
      then [R_cumulative (count_decision D_warning ls) (gc_cumulativeWarningLimit (ai_config input))] else []) @
     (if high_value (ai_config input) ls
      then [R_high_value (round_digits (net_total ls) 4) (gc_highValueNetTotal (ai_config input))] else []) @
     merge_reasons ls @
     (case quote_chain input ls of None \<Rightarrow> []
      | Some c \<Rightarrow> [R_chain_selected (ch_name c) (risk_score ls) (blended_discount ls)])"

definition line_results :: "assess_input \<Rightarrow> line_assessment list" where
  "line_results input = map (\<lambda>(line, product). assess_line input line product) (ai_lines input)"

definition assessQuote :: "assess_input \<Rightarrow> quote_assessment" where
  "assessQuote input =
     (let ls = line_results input
      in \<lparr>qa_decision = quote_decision (ai_config input) ls,
          qa_blendedDiscountPercent = blended_discount ls,
          qa_riskScore = risk_score ls,
          qa_listTotal = round_digits (list_total ls) 4,
          qa_discountTotal = discount_total ls,
          qa_netTotal = round_digits (net_total ls) 4,
          qa_costTotal = round_digits (cost_total ls) 4,
          qa_marginPercent = margin_percent ls,
          qa_warningCount = count_decision D_warning ls,
          qa_approvalLineCount = count_decision D_approval_required ls,
          qa_rejectedCount = count_decision D_rejected ls,
          qa_cumulativeEscalated = cumulative_escalated (ai_config input) ls,
          qa_requiredChainId = map_option ch_id (quote_chain input ls),
          qa_requiredChainName = map_option ch_name (quote_chain input ls),
          qa_lines = ls,
          qa_reasons = quote_reasons input ls,
          qa_highValue = high_value (ai_config input) ls,
          qa_mergeRisk = (length (line_approvals ls) \<ge> 2),
          qa_mergeRiskReasons = merge_reasons ls\<rparr>)"

definition isMaterialChange ::
  "js_number \<times> js_number \<Rightarrow> js_number \<times> js_number \<Rightarrow> governance_config \<Rightarrow> bool" where
  "isMaterialChange before after config = (case (before, after) of
     ((beforeBlended, beforeNet), (afterBlended, afterNet)) \<Rightarrow>
       (let discountDelta = afterBlended - beforeBlended;
            totalDelta = (if beforeNet = 0 then afterNet else \<bar>afterNet - beforeNet\<bar> / beforeNet)
        in discountDelta \<ge> gc_materialDiscountDeltaPp config \<or> totalDelta \<ge> gc_materialTotalDeltaRatio config))"

section \<open>Selection lemmas\<close>

interpretation policy_order: comparator policy_cmp
  unfolding policy_cmp_def by (rule comparator_by_key2)

interpretation chain_order: comparator chain_cmp
  unfolding chain_cmp_def by (rule comparator_by_key2)

lemma selectPolicy_cases:
  "(\<exists>p\<in>set ps. policy_matches p t c) \<and> selectPolicy ps t c \<in> set ps \<and> policy_matches (selectPolicy ps t c) t c
   \<or> (\<forall>p\<in>set ps. \<not> policy_matches p t c) \<and> selectPolicy ps t c = implicit_default"
proof (cases "first (js_sort policy_cmp (filter (\<lambda>p. policy_matches p t c) ps))")
  case None
  then show ?thesis by (auto simp: selectPolicy_def filter_empty_conv)
next
  case (Some p)
  then show ?thesis using policy_order.first_js_sort_mem [OF Some] by (auto simp: selectPolicy_def)
qed

lemma selectPolicy_best:
  assumes "p \<in> set ps" and "policy_matches p t c"
  shows "specificity p < specificity (selectPolicy ps t c) \<or>
         specificity p = specificity (selectPolicy ps t c) \<and> po_priority (selectPolicy ps t c) \<le> po_priority p"
proof -
  have p: "p \<in> set (filter (\<lambda>p. policy_matches p t c) ps)" using assms by simp
  then have "filter (\<lambda>p. policy_matches p t c) ps \<noteq> []" by (metis empty_iff empty_set)
  then obtain m where m: "first (js_sort policy_cmp (filter (\<lambda>p. policy_matches p t c) ps)) = Some m"
    by (metis first_None_iff js_sort_Nil_iff not_None_eq)
  have "policy_cmp m p \<le> 0" using m p by (rule policy_order.first_js_sort_min)
  then show ?thesis using m by (auto simp: selectPolicy_def policy_cmp_def by_key2_le)
qed

lemma selectApprovalChain_Some:
  "selectApprovalChain cs r b = Some m \<Longrightarrow> m \<in> set cs \<and> chain_matches m r b"
  unfolding selectApprovalChain_def using chain_order.first_js_sort_mem by fastforce

lemma selectApprovalChain_None_iff:
  "selectApprovalChain cs r b = None \<longleftrightarrow> (\<forall>c\<in>set cs. \<not> chain_matches c r b)"
  by (auto simp: selectApprovalChain_def filter_empty_conv)

lemma selectApprovalChain_strictest:
  assumes "selectApprovalChain cs r b = Some m" and "c \<in> set cs" and "chain_matches c r b"
  shows "chain_severity c < chain_severity m \<or> chain_severity c = chain_severity m \<and> ch_priority m \<le> ch_priority c"
proof -
  have "c \<in> set (filter (\<lambda>c. chain_matches c r b) cs)" using assms by simp
  with assms(1) have "chain_cmp m c \<le> 0"
    unfolding selectApprovalChain_def by (rule chain_order.first_js_sort_min)
  then show ?thesis by (auto simp: chain_cmp_def by_key2_le)
qed

section \<open>The decision lattice\<close>

lemma rank_inj [simp]: "DECISION_RANK a = DECISION_RANK b \<longleftrightarrow> a = b"
  by (cases a; cases b) auto

lemma rank_le_3 [simp]: "DECISION_RANK d \<le> 3"
  by (cases d) auto

lemma rank_worse: "DECISION_RANK (worse a b) = max (DECISION_RANK a) (DECISION_RANK b)"
  by (auto simp: worse_def)

lemma rank_foldl_worse:
  "DECISION_RANK (foldl (\<lambda>d l. worse d (la_decision l)) d ls) =
     Max (insert (DECISION_RANK d) ((DECISION_RANK \<circ> la_decision) ` set ls))"
proof (induction ls arbitrary: d)
  case Nil
  then show ?case by simp
next
  case (Cons l ls)
  let ?S = "(DECISION_RANK \<circ> la_decision) ` set ls"
  have "Max (insert (max (DECISION_RANK d) (DECISION_RANK (la_decision l))) ?S)
        = Max (insert (DECISION_RANK d) (insert (DECISION_RANK (la_decision l)) ?S))"
    by (cases "?S = {}") (simp_all add: max.assoc)
  then show ?case using Cons by (simp add: rank_worse)
qed

text \<open>How \<open>decideLineDiscount\<close> ranks: the ceiling reached, raised to an approval by erosion.\<close>

lemma decideLineDiscount_rank:
  "DECISION_RANK (fst (decideLineDiscount d m p)) =
     max (if po_rejectPercent p \<le> d then 3 else if po_approvalPercent p \<le> d then 2
          else if po_warningPercent p \<le> d then 1 else 0)
         (if po_maxMarginImpactPercent p \<le> m then 2 else 0)"
  by (simp add: decideLineDiscount_def Let_def)

lemma decideLineDiscount_reasons_nonempty: "snd (decideLineDiscount d m p) \<noteq> []"
  by (simp add: decideLineDiscount_def Let_def)

text \<open>With no actor, the three authority checks do nothing.\<close>

lemma authority_checks_None [simp]:
  "authority_discount None d st = st" "authority_margin None m n st = st" "authority_override None v st = st"
  by (simp_all add: authority_discount_def authority_margin_def authority_override_def)

lemma authority_checks_rank:
  "DECISION_RANK (fst st) \<le> DECISION_RANK (fst (authority_discount a d st))"
  "DECISION_RANK (fst st) \<le> DECISION_RANK (fst (authority_margin a m n st))"
  "DECISION_RANK (fst st) \<le> DECISION_RANK (fst (authority_override a v st))"
  by (auto simp: authority_discount_def authority_margin_def authority_override_def rank_worse
           split: option.splits authority_exceed_action.splits prod.splits)

lemma la_scope: "la_approvalScope (assess_line i l p) = Scope_line \<longleftrightarrow>
   la_decision (assess_line i l p) \<in> {D_approval_required, D_rejected}"
  by (simp add: assess_line_def)

section \<open>Exact decimal amounts\<close>

definition scaled :: "nat \<Rightarrow> rat \<Rightarrow> bool" where
  "scaled d x \<longleftrightarrow> (\<exists>n. x * 10 ^ d = of_int n)"

lemma scaled_round [simp]: "scaled d (round_digits x d)"
  by (auto simp: scaled_def round_digits_def math_round_def)

lemma scaled_0 [simp]: "scaled d 0"
  by (auto simp: scaled_def intro: exI [of _ 0])

lemma scaled_add: "scaled d x \<Longrightarrow> scaled d y \<Longrightarrow> scaled d (x + y)"
  unfolding scaled_def by (metis distrib_right of_int_add)

lemma scaled_diff: "scaled d x \<Longrightarrow> scaled d y \<Longrightarrow> scaled d (x - y)"
  unfolding scaled_def by (metis left_diff_distrib of_int_diff)

lemma scaled_sum_list: "(\<And>x. x \<in> set xs \<Longrightarrow> scaled d (f x)) \<Longrightarrow> scaled d (sum_list (map f xs))"
  by (induction xs) (auto intro: scaled_add)

lemma round_scaled: "scaled d x \<Longrightarrow> round_digits x d = x"
  unfolding scaled_def using round_digits_of_nat_scaled by blast

lemma scaled_line:
  "scaled 4 (la_listAmount (assess_line i l p))" "scaled 4 (la_netAmount (assess_line i l p))"
  "scaled 4 (la_costAmount (assess_line i l p))"
  by (simp_all add: assess_line_def line_listAmount_def line_netAmount_def line_costAmount_def)

section \<open>Assessment lemmas\<close>

lemma assessQuote_sel [simp]:
  "qa_decision (assessQuote i) = quote_decision (ai_config i) (line_results i)"
  "qa_blendedDiscountPercent (assessQuote i) = blended_discount (line_results i)"
  "qa_riskScore (assessQuote i) = risk_score (line_results i)"
  "qa_listTotal (assessQuote i) = round_digits (list_total (line_results i)) 4"
  "qa_discountTotal (assessQuote i) = discount_total (line_results i)"
  "qa_netTotal (assessQuote i) = round_digits (net_total (line_results i)) 4"
  "qa_costTotal (assessQuote i) = round_digits (cost_total (line_results i)) 4"
  "qa_cumulativeEscalated (assessQuote i) = cumulative_escalated (ai_config i) (line_results i)"
  "qa_requiredChainId (assessQuote i) = map_option ch_id (quote_chain i (line_results i))"
  "qa_lines (assessQuote i) = line_results i"
  "qa_reasons (assessQuote i) = quote_reasons i (line_results i)"
  "qa_highValue (assessQuote i) = high_value (ai_config i) (line_results i)"
  by (simp_all add: assessQuote_def Let_def)

lemma quote_decision_rank:
  "DECISION_RANK (quote_decision c ls) =
     Max (insert (if cumulative_escalated c ls \<or> high_value c ls then 2 else 0)
                 ((DECISION_RANK \<circ> la_decision) ` set ls))"
proof -
  let ?S = "(DECISION_RANK \<circ> la_decision) ` set ls"
  let ?M = "Max (insert 0 ?S)"
  let ?d1 = "foldl (\<lambda>d l. worse d (la_decision l)) D_allowed ls"
  have r1: "DECISION_RANK ?d1 = ?M" using rank_foldl_worse [of D_allowed ls] by simp
  have rej: "?d1 = D_rejected \<longleftrightarrow> ?M = 3" using r1 rank_inj [of ?d1 D_rejected] by simp
  have le3: "?M \<le> 3" using r1 rank_le_3 by metis
  have "Max (insert 2 ?S) = max 2 ?M"
    by (cases "?S = {}") (auto simp: max.left_commute)
  moreover have "DECISION_RANK (quote_decision c ls) =
      (if cumulative_escalated c ls \<or> high_value c ls then max 2 ?M else ?M)"
    unfolding quote_decision_def Let_def using r1 rej le3
    by (auto simp: rank_worse worse_def max_def)
  ultimately show ?thesis by simp
qed

lemma quote_decision_rejected_iff:
  "quote_decision c ls = D_rejected \<longleftrightarrow> (\<exists>l\<in>set ls. la_decision l = D_rejected)"
proof -
  have "quote_decision c ls = D_rejected \<longleftrightarrow> DECISION_RANK (quote_decision c ls) = 3"
    using rank_inj [of "quote_decision c ls" D_rejected] by simp
  also have "\<dots> \<longleftrightarrow> 3 \<in> (DECISION_RANK \<circ> la_decision) ` set ls"
  proof -
    let ?S = "insert (if cumulative_escalated c ls \<or> high_value c ls then 2 else 0)
                 ((DECISION_RANK \<circ> la_decision) ` set ls)"
    have "Max ?S = 3 \<longleftrightarrow> 3 \<in> ?S"
    proof
      assume "Max ?S = 3" then show "3 \<in> ?S" by (metis (lifting) List.finite_set Max_in finite_imageI finite_insert insert_not_empty)
    next
      assume "3 \<in> ?S"
      then show "Max ?S = 3" by (intro Max_eqI) auto
    qed
    then show ?thesis by (simp add: quote_decision_rank)
  qed
  also have "\<dots> \<longleftrightarrow> (\<exists>l\<in>set ls. la_decision l = D_rejected)"
    by (auto simp: image_iff) (metis DECISION_RANK.simps(4) rank_inj)+
  finally show ?thesis .
qed

lemma risk_score_bounds: "0 \<le> risk_score ls \<and> risk_score ls \<le> 100"
proof -
  have c: "0 \<le> clamp (risk_raw (blended_discount ls) ls) 0 100 \<and> clamp (risk_raw (blended_discount ls) ls) 0 100 \<le> 100"
    by (rule clamp_bounds) simp
  then show ?thesis
    unfolding risk_score_def
    using round_digits_nonneg round_digits_le_int [of _ 100] by simp
qed

text \<open>The totals are sums of amounts with four decimals, so rounding them changes nothing.\<close>

lemma totals_scaled:
  "scaled 4 (list_total (line_results i))" "scaled 4 (net_total (line_results i))"
  "scaled 4 (cost_total (line_results i))"
  by (auto simp: list_total_def net_total_def cost_total_def line_results_def
           intro!: scaled_sum_list scaled_line)

lemma totals_exact [simp]:
  "round_digits (list_total (line_results i)) 4 = list_total (line_results i)"
  "round_digits (net_total (line_results i)) 4 = net_total (line_results i)"
  "round_digits (cost_total (line_results i)) 4 = cost_total (line_results i)"
  "discount_total (line_results i) = list_total (line_results i) - net_total (line_results i)"
  by (simp_all add: discount_total_def round_scaled totals_scaled scaled_diff)

text \<open>Lines with a discount of at most 100 percent, a positive quantity and a price that is not negative.\<close>

definition line_ok :: "assess_input \<Rightarrow> quote_line \<times> product \<Rightarrow> bool" where
  "line_ok i lp \<longleftrightarrow> (case lp of (l, p) \<Rightarrow>
     0 \<le> ln_discountPercent l \<and> ln_discountPercent l \<le> 100 \<and> 0 < ln_quantity l \<and> 0 \<le> line_appliedPrice i l p)"

lemma line_net_le_list:
  assumes "line_ok i (l, p)"
  shows "0 \<le> line_netAmount i l p \<and> line_netAmount i l p \<le> line_listAmount i l p"
proof -
  let ?a = "line_appliedPrice i l p" and ?q = "ln_quantity l" and ?f = "1 - ln_discountPercent l / 100"
  have f: "0 \<le> ?f" "?f \<le> 1" and a: "0 \<le> ?a" "0 \<le> ?q" using assms by (auto simp: line_ok_def)
  then have "?a * ?f \<le> ?a" by (simp add: mult_left_le)
  then have "?a * ?f * ?q \<le> ?a * ?q" using a by (simp add: mult_right_mono)
  moreover have "0 \<le> ?a * ?f * ?q" using f a by simp
  ultimately show ?thesis
    by (simp add: line_netAmount_def line_listAmount_def round_digits_mono round_digits_nonneg)
qed

lemma net_le_list_total:
  assumes "\<forall>lp\<in>set (ai_lines i). line_ok i lp"
  shows "0 \<le> net_total (line_results i) \<and> net_total (line_results i) \<le> list_total (line_results i)"
proof -
  have "sum_list (map (\<lambda>(l, p). line_netAmount i l p) xs) \<le> sum_list (map (\<lambda>(l, p). line_listAmount i l p) xs)
        \<and> 0 \<le> sum_list (map (\<lambda>(l, p). line_netAmount i l p) xs)"
    if "\<forall>lp\<in>set xs. line_ok i lp" for xs
    using that
  proof (induction xs)
    case (Cons x xs)
    then show ?case using line_net_le_list [of i "fst x" "snd x"] by (cases x) auto
  qed simp
  from this [OF assms] show ?thesis
    by (simp add: net_total_def list_total_def line_results_def comp_def case_prod_unfold assess_line_def)
qed

lemma blended_bounds:
  assumes "\<forall>lp\<in>set (ai_lines i). line_ok i lp"
  shows "0 \<le> blended_discount (line_results i) \<and> blended_discount (line_results i) \<le> 100"
proof -
  let ?ls = "line_results i"
  have nl: "0 \<le> net_total ?ls" "net_total ?ls \<le> list_total ?ls" using net_le_list_total [OF assms] by auto
  show ?thesis
  proof (cases "list_total ?ls = 0")
    case True
    then show ?thesis by (simp add: blended_discount_def)
  next
    case False
    then have pos: "0 < list_total ?ls" using nl by linarith
    have "0 \<le> discount_total ?ls / list_total ?ls * 100" using nl pos by simp
    moreover have "discount_total ?ls / list_total ?ls * 100 \<le> 100" using nl pos by (simp add: field_simps)
    ultimately show ?thesis using False
      unfolding blended_discount_def by (simp only: if_False) (metis of_int_numeral round_digits_le_int round_digits_nonneg)
  qed
qed

text \<open>Without an actor no reason is a price-override reason: the template appears only in the
  authority check.\<close>

fun is_override_reason :: "reason \<Rightarrow> bool" where
  "is_override_reason (R_override _ _ _) = True"
| "is_override_reason _ = False"

lemma decide_no_override: "r \<in> set (snd (decideLineDiscount d m p)) \<Longrightarrow> \<not> is_override_reason r"
  by (auto simp: decideLineDiscount_def Let_def split: if_splits)

lemma no_actor_no_override:
  assumes "ai_actor i = None" and "r \<in> set (qa_reasons (assessQuote i))"
  shows "\<not> is_override_reason r"
proof -
  have line: "\<not> is_override_reason r" if "r \<in> set (la_reasons (assess_line i l p))" for l p r
    using that assms(1) decide_no_override
    by (auto simp: assess_line_def line_verdict_def Let_def selectRoleAuthority_def)
  from assms(2) show ?thesis
    by (auto simp: quote_reasons_def line_results_def merge_reasons_def line split: if_splits option.splits)
qed

text \<open>The tier that reaches policy and break selection is normalised first.\<close>

lemma assessed_tier_range: "assessed_tier t \<in> {T_standard, T_gold, T_platinum}"
  by (cases t) (simp_all add: assessed_tier_def normalizeCustomerTier_def)

section \<open>Properties\<close>

text \<open>The decision on a quotation is the worst decision of its lines, raised to an approval when
  the warnings reach the cumulative limit or the net total reaches the high-value limit; it is
  rejected exactly when a line is.\<close>

theorem quote_decision_is_worst:
  "DECISION_RANK (qa_decision (assessQuote i)) =
     Max (insert (if qa_cumulativeEscalated (assessQuote i) \<or> qa_highValue (assessQuote i) then 2 else 0)
                 ((DECISION_RANK \<circ> la_decision) ` set (qa_lines (assessQuote i)))) \<and>
   (qa_decision (assessQuote i) = D_rejected \<longleftrightarrow> (\<exists>l\<in>set (qa_lines (assessQuote i)). la_decision l = D_rejected))"
  by (simp add: quote_decision_rank quote_decision_rejected_iff)

text \<open>The totals of an assessment in exact arithmetic: when every line has a discount between 0 and 100,
  a positive quantity and a price that is not negative, the net total lies between 0 and the list
  total, the discount total is their difference, and the blended discount and the risk score are
  percentages. In the binary floating point of the code the difference may be off in the last digits
  of a double.\<close>

theorem assessment_totals_sound:
  assumes "\<forall>lp\<in>set (ai_lines i). line_ok i lp"
  shows "0 \<le> qa_netTotal (assessQuote i) \<and> qa_netTotal (assessQuote i) \<le> qa_listTotal (assessQuote i) \<and>
         qa_discountTotal (assessQuote i) = qa_listTotal (assessQuote i) - qa_netTotal (assessQuote i) \<and>
         0 \<le> qa_blendedDiscountPercent (assessQuote i) \<and> qa_blendedDiscountPercent (assessQuote i) \<le> 100 \<and>
         0 \<le> qa_riskScore (assessQuote i) \<and> qa_riskScore (assessQuote i) \<le> 100"
  using net_le_list_total [OF assms] blended_bounds [OF assms] risk_score_bounds [of "line_results i"] by simp

definition sample_assess_input :: "(quote_line \<times> product) list \<Rightarrow> discount_policy list \<Rightarrow> assess_input" where
  "sample_assess_input ls ps = \<lparr>ai_customerTier = T_standard, ai_lines = ls, ai_policies = ps, ai_chains = [],
     ai_config = DEFAULT_GOVERNANCE, ai_actor = None, ai_quantityBreaks = [], ai_roleAuthorities = [], ai_stock = [],
     ai_warehouses = []\<rparr>"

theorem assessment_totals_sound_witness:
  "\<exists>i. (\<forall>lp\<in>set (ai_lines i). line_ok i lp) \<and> ai_lines i \<noteq> [] \<and> qa_netTotal (assessQuote i) \<le> qa_listTotal (assessQuote i)"
proof -
  let ?i = "sample_assess_input [(sample_line ''l1'' ''p1'' 2 100 10, sample_product ''p1'' 100 One_time)] []"
  have ok: "\<forall>lp\<in>set (ai_lines ?i). line_ok ?i lp"
    by (simp add: sample_assess_input_def line_ok_def sample_line_def line_appliedPrice_def line_priced_def
        resolveUnitPrice_def selectQuantityBreak_def matchingQuantityBreaks_def sample_product_def)
  moreover have "ai_lines ?i \<noteq> []" by (simp add: sample_assess_input_def)
  ultimately show ?thesis using assessment_totals_sound [OF ok] by blast
qed

text \<open>A larger discount, or a larger erosion of the margin, under the same policy never gets a
  milder decision.\<close>

theorem line_decision_monotone:
  assumes "d \<le> d'" and "m \<le> m'"
  shows "DECISION_RANK (fst (decideLineDiscount d m p)) \<le> DECISION_RANK (fst (decideLineDiscount d' m' p))"
  unfolding decideLineDiscount_rank using assms by auto

theorem line_decision_monotone_witness:
  "(4::rat) \<le> 6 \<and> DECISION_RANK (fst (decideLineDiscount 4 0 implicit_default)) \<le> DECISION_RANK (fst (decideLineDiscount 6 0 implicit_default))"
  using line_decision_monotone [of 4 6 0 0 implicit_default] by simp

text \<open>Policy selection is exact: the selected policy is active and matches the tier and the
  category, no matching policy is more specific or, equally specific, of a smaller priority number;
  the implicit default is used only when no policy matches.\<close>

theorem policy_selection_exact:
  assumes "p \<in> set ps" and "policy_matches p t c"
  shows "selectPolicy ps t c \<in> set ps \<and> policy_matches (selectPolicy ps t c) t c \<and>
         (specificity p < specificity (selectPolicy ps t c) \<or>
          specificity p = specificity (selectPolicy ps t c) \<and> po_priority (selectPolicy ps t c) \<le> po_priority p)"
  using selectPolicy_cases [of ps t c] selectPolicy_best [OF assms] assms by blast

theorem policy_selection_exact_witness:
  "\<exists>p ps. p \<in> set ps \<and> policy_matches p T_gold ''hardware'' \<and> po_name (selectPolicy ps T_gold ''hardware'') = ''gold''"
proof -
  let ?g = "implicit_default\<lparr>po_name := ''gold'', po_customerTier := Some T_gold\<rparr>"
  let ?ps = "[implicit_default, ?g]"
  have m: "?g \<in> set ?ps" "policy_matches ?g T_gold ''hardware''" by (simp_all add: policy_matches_def implicit_default_def)
  have "selectPolicy ?ps T_gold ''hardware'' \<in> set ?ps \<and>
      (specificity ?g < specificity (selectPolicy ?ps T_gold ''hardware'') \<or>
       specificity ?g = specificity (selectPolicy ?ps T_gold ''hardware''))"
    using policy_selection_exact [OF m] by blast
  then have "po_name (selectPolicy ?ps T_gold ''hardware'') = ''gold''"
    by (auto simp: specificity_def implicit_default_def)
  then show ?thesis using m by blast
qed

text \<open>A quotation that needs an approval (or is rejected) gets an active chain whose risk or
  discount threshold it reaches, and the strictest such chain; it gets none exactly when no chain
  matches, and a quotation that needs no approval gets none.\<close>

theorem chain_selection_exact:
  assumes "qa_decision (assessQuote i) \<in> {D_approval_required, D_rejected}"
  shows "(qa_requiredChainId (assessQuote i) = None \<longleftrightarrow>
            (\<forall>c\<in>set (ai_chains i). \<not> chain_matches c (qa_riskScore (assessQuote i)) (qa_blendedDiscountPercent (assessQuote i)))) \<and>
         (\<forall>k. qa_requiredChainId (assessQuote i) = Some k \<longrightarrow>
            (\<exists>m\<in>set (ai_chains i). ch_id m = k \<and>
               chain_matches m (qa_riskScore (assessQuote i)) (qa_blendedDiscountPercent (assessQuote i)) \<and>
               (\<forall>c\<in>set (ai_chains i). chain_matches c (qa_riskScore (assessQuote i)) (qa_blendedDiscountPercent (assessQuote i)) \<longrightarrow>
                  chain_severity c < chain_severity m \<or> chain_severity c = chain_severity m \<and> ch_priority m \<le> ch_priority c)))"
proof -
  let ?sel = "selectApprovalChain (ai_chains i) (risk_score (line_results i)) (blended_discount (line_results i))"
  have "quote_chain i (line_results i) = ?sel" using assms by (auto simp: quote_chain_def)
  then show ?thesis
    using selectApprovalChain_None_iff selectApprovalChain_Some selectApprovalChain_strictest
    by (cases ?sel) (auto, metis+)
qed

theorem chain_selection_exact_witness:
  "\<exists>i. qa_decision (assessQuote i) \<in> {D_approval_required, D_rejected} \<and> qa_requiredChainId (assessQuote i) = None"
proof -
  let ?i = "(sample_assess_input [] [])\<lparr>ai_config := DEFAULT_GOVERNANCE\<lparr>gc_highValueNetTotal := 0\<rparr>\<rparr>"
  have d: "qa_decision (assessQuote ?i) \<in> {D_approval_required, D_rejected}"
    by (simp add: quote_decision_def Let_def line_results_def sample_assess_input_def high_value_def net_total_def worse_def)
  moreover have "qa_requiredChainId (assessQuote ?i) = None"
    using chain_selection_exact [OF d] by (simp add: sample_assess_input_def)
  ultimately show ?thesis by blast
qed

text \<open>C18: How an assessment decides. The decision is the worst of the decisions of the lines, raised to an
  approval when the lines with a warning reach the cumulative limit or the sum of the net amounts
  reaches the high-value limit; the quotation is rejected exactly when a line is, so neither limit
  rejects one. A decision that asks for no approval selects no chain; otherwise no chain is selected
  exactly when none matches the risk and the discount, and a selected one matches and no matching
  chain is stricter or, as strict, comes before it in priority.\<close>

theorem assessment_decides:
  "let A = assessQuote i;
       warnings = length (filter (\<lambda>l. la_decision l = D_warning) (qa_lines A));
       escalated = (gc_cumulativeWarningLimit (ai_config i) \<le> of_nat warnings \<or>
         gc_highValueNetTotal (ai_config i) \<le> sum_list (map la_netAmount (qa_lines A)));
       matching = filter (\<lambda>c. chain_matches c (qa_riskScore A) (qa_blendedDiscountPercent A)) (ai_chains i)
   in DECISION_RANK (qa_decision A) = Max (insert (if escalated then 2 else 0) ((DECISION_RANK \<circ> la_decision) ` set (qa_lines A))) \<and>
      (qa_decision A = D_rejected \<longleftrightarrow> (\<exists>l\<in>set (qa_lines A). la_decision l = D_rejected)) \<and>
      (qa_requiredChainId A = None \<longleftrightarrow> qa_decision A \<in> {D_allowed, D_warning} \<or> matching = []) \<and>
      (\<forall>k. qa_requiredChainId A = Some k \<longrightarrow> (\<exists>m\<in>set matching. ch_id m = k \<and>
         (\<forall>c\<in>set matching. chain_severity c < chain_severity m \<or> chain_severity c = chain_severity m \<and> ch_priority m \<le> ch_priority c)))"
proof -
  let ?ls = "line_results i"
  let ?match = "\<lambda>c. chain_matches c (risk_score ?ls) (blended_discount ?ls)"
  let ?d = "quote_decision (ai_config i) ?ls"
  have mild: "?d = D_approval_required \<or> ?d = D_rejected \<longleftrightarrow> ?d \<notin> {D_allowed, D_warning}" by (cases ?d) auto
  note chain = quote_chain_def [of i ?ls, unfolded mild]
  note sel = selectApprovalChain_None_iff [of "ai_chains i" "risk_score ?ls" "blended_discount ?ls"]
  have none: "quote_chain i ?ls = None \<longleftrightarrow> ?d \<in> {D_allowed, D_warning} \<or> filter ?match (ai_chains i) = []"
    unfolding chain sel [symmetric] using sel by (auto simp: filter_empty_conv)
  have some: "\<exists>m\<in>set (filter ?match (ai_chains i)). ch_id m = ch_id x \<and> (\<forall>c\<in>set (filter ?match (ai_chains i)).
      chain_severity c < chain_severity m \<or> chain_severity c = chain_severity m \<and> ch_priority m \<le> ch_priority c)"
    if "quote_chain i ?ls = Some x" for x
  proof -
    have x: "selectApprovalChain (ai_chains i) (risk_score ?ls) (blended_discount ?ls) = Some x"
      using that unfolding chain by (auto split: if_splits)
    show ?thesis using selectApprovalChain_Some [OF x] selectApprovalChain_strictest [OF x] by auto
  qed
  show ?thesis
    using none some unfolding Let_def
    by (auto simp: quote_decision_rank quote_decision_rejected_iff cumulative_escalated_def count_decision_def high_value_def net_total_def)
qed

text \<open>A sample: an empty quotation under a configuration in which every quotation is of high value needs an
  approval, for which a chain is selected.\<close>

theorem assessment_decides_witness:
  "\<exists>i. ai_lines i = [] \<and> qa_decision (assessQuote i) = D_approval_required \<and> qa_requiredChainId (assessQuote i) = Some ''c''"
proof -
  let ?c = "\<lparr>ch_id = ''c'', ch_name = ''all'', ch_minRiskScore = 0, ch_minBlendedDiscountPercent = 0, ch_priority = 1, ch_active = None, ch_steps = []\<rparr>"
  let ?i = "(sample_assess_input [] [])\<lparr>ai_config := DEFAULT_GOVERNANCE\<lparr>gc_highValueNetTotal := 0\<rparr>, ai_chains := [?c]\<rparr>"
  have l: "line_results ?i = []" by (simp add: line_results_def sample_assess_input_def)
  have m: "chain_matches ?c (qa_riskScore (assessQuote ?i)) (qa_blendedDiscountPercent (assessQuote ?i))"
    using risk_score_bounds [of "[]"] by (simp add: chain_matches_def l)
  obtain i c where i: "ai_lines i = []" "gc_highValueNetTotal (ai_config i) = 0" "ai_chains i = [c]" "ch_id c = ''c''"
    and m: "chain_matches c (qa_riskScore (assessQuote i)) (qa_blendedDiscountPercent (assessQuote i))"
    by (rule that [of ?i ?c, OF _ _ _ _ m]) (simp_all add: sample_assess_input_def)
  have l: "qa_lines (assessQuote i) = []" using i(1) by (simp add: line_results_def)
  note a = assessment_decides [of i, unfolded Let_def l i m]
  have "DECISION_RANK (qa_decision (assessQuote i)) = DECISION_RANK D_approval_required"
    using conjunct1 [OF a] by simp
  then have d: "qa_decision (assessQuote i) = D_approval_required" unfolding rank_inj .
  have "qa_requiredChainId (assessQuote i) \<noteq> None"
    using conjunct1 [OF conjunct2 [OF conjunct2 [OF a]]] d m by simp
  then obtain k where k: "qa_requiredChainId (assessQuote i) = Some k" by blast
  then have "k = ''c''" using conjunct2 [OF conjunct2 [OF conjunct2 [OF a]]] m i(4) by auto
  then show ?thesis using d k i(1) by blast
qed

text \<open>A discount policy written for the tier \<open>silver\<close> or \<open>strategic\<close> is never applied: the
  assessment normalises the customer's tier to \<open>standard\<close>, \<open>gold\<close> or \<open>platinum\<close> before it selects a
  policy, whatever the policies, the customer and the product are.\<close>

theorem silver_and_strategic_policies_never_apply:
  "po_customerTier (line_policy i product) \<notin> {Some T_silver, Some T_strategic}"
  using selectPolicy_cases [of "ai_policies i" "assessed_tier (ai_customerTier i)" "pr_category product"]
    assessed_tier_range [of "ai_customerTier i"]
  by (auto simp: line_policy_def policy_matches_def implicit_default_def)

end
