(* ===== verification/Dealflow_Approval.thy ===== *)
theory Dealflow_Approval
  imports Dealflow_Loyalty Dealflow_Samples
begin

text \<open>
  \<open>approval-engine.ts\<close>: building the steps of a chain, deciding a step, invalidating a chain and
  the test that a quote's approvals are complete. \<open>crypto.randomUUID()\<close> is the parameter
  \<open>fresh\<close>, the \<open>n\<close>-th identifier drawn by the call; \<open>now\<close> is the instant \<open>new Date()\<close> reads.
\<close>

section \<open>Definitions\<close>

definition step_cmp :: "approval_chain_step \<Rightarrow> approval_chain_step \<Rightarrow> rat" where
  "step_cmp = by_key (\<lambda>s. of_int (cs_stepOrder s))"

definition level_limit :: "js_number \<Rightarrow> js_number" where
  "level_limit maxLevels = min 3 (max 1 maxLevels)"

text \<open>\<open>chain.steps.slice().sort(byOrder).slice(0, limit)\<close>; \<open>slice\<close> truncates a fractional end.\<close>

definition limited_steps :: "approval_chain \<Rightarrow> js_number \<Rightarrow> approval_chain_step list" where
  "limited_steps c maxLevels = take (nat \<lfloor>level_limit maxLevels\<rfloor>) (js_sort step_cmp (ch_steps c))"

definition pending_step :: "string \<Rightarrow> string \<Rightarrow> approval_chain \<Rightarrow> approval_chain_step \<Rightarrow> quote_approval" where
  "pending_step uuid quoteId c step = \<lparr>
     ap_id = uuid, ap_quoteId = quoteId, ap_chainId = ch_id c, ap_stepOrder = cs_stepOrder step,
     ap_roleKey = cs_roleKey step, ap_label = cs_label step, ap_status = A_pending,
     ap_actorId = None, ap_decidedAt = None, ap_decision = None, ap_reason = None,
     ap_previousValues = None, ap_newValues = None\<rparr>"

definition buildApprovalSteps ::
  "(nat \<Rightarrow> string) \<Rightarrow> string \<Rightarrow> approval_chain \<Rightarrow> js_number \<Rightarrow> quote_approval list" where
  "buildApprovalSteps fresh quoteId c maxLevels =
     map (\<lambda>(i, step). pending_step (fresh i) quoteId c step) (enumerate 0 (limited_steps c maxLevels))"

text \<open>The text of \<open>reason\<close> names the assessment and the chain; it is not read again.\<close>

definition autoApproveIfAllowed ::
  "(nat \<Rightarrow> string) \<Rightarrow> int \<Rightarrow> string \<Rightarrow> quote_assessment \<Rightarrow> approval_chain option \<Rightarrow> actor \<Rightarrow> js_number \<Rightarrow>
   quote_approval list result" where
  "autoApproveIfAllowed fresh now quoteId assessment c a maxLevels =
     (if qa_decision assessment = D_allowed \<or> qa_decision assessment = D_warning
      then (case c of
              None \<Rightarrow> Ok []
            | Some ch \<Rightarrow> Ok (map (\<lambda>(i, step). (pending_step (fresh i) quoteId ch step)
                 \<lparr>ap_status := A_skipped, ap_actorId := Some (act_id a), ap_decidedAt := Some now,
                  ap_decision := Some ''auto'', ap_reason := Some (ch_name ch)\<rparr>)
                 (enumerate 0 (limited_steps ch maxLevels))))
      else (case c of
              None \<Rightarrow> Throw (conflict (Approval Chain_required_not_configured))
            | Some ch \<Rightarrow> Ok (buildApprovalSteps fresh quoteId ch maxLevels)))"

definition canActOnRole :: "actor \<Rightarrow> approval_role_key \<Rightarrow> bool" where
  "canActOnRole a roleKey \<longleftrightarrow>
     (let permissions = (case act_permissions a of None \<Rightarrow> [] | Some ps \<Rightarrow> ps);
          roles = actorDiscountRoles (Some a)
      in APPROVAL_PERMISSIONS roleKey \<in> set permissions \<or>
         ''admin'' \<in> set roles \<or>
         (roleKey = R_manager \<and> ''manager'' \<in> set roles))"

datatype approval_decision = Approve | Reject

fun decision_status :: "approval_decision \<Rightarrow> approval_status" where
  "decision_status Approve = A_approved"
| "decision_status Reject = A_rejected"

fun decision_name :: "approval_decision \<Rightarrow> string" where
  "decision_name Approve = ''approved''"
| "decision_name Reject = ''rejected''"

definition approval_order_cmp :: "quote_approval \<Rightarrow> quote_approval \<Rightarrow> rat" where
  "approval_order_cmp = by_key (\<lambda>i. of_int (ap_stepOrder i))"

definition blocking_step :: "quote_approval list \<Rightarrow> quote_approval \<Rightarrow> quote_approval option" where
  "blocking_step approvals current =
     first (js_sort approval_order_cmp
       (filter (\<lambda>i. ap_status i = A_pending \<and> ap_stepOrder i < ap_stepOrder current) approvals))"

definition decided_step ::
  "int \<Rightarrow> actor \<Rightarrow> approval_decision \<Rightarrow> string \<Rightarrow> quote_status \<times> js_number \<Rightarrow> quote_approval \<Rightarrow> quote_approval" where
  "decided_step now a decision reason previousValues item = item
     \<lparr>ap_status := decision_status decision, ap_actorId := Some (act_id a), ap_decidedAt := Some now,
      ap_decision := Some (decision_name decision), ap_reason := Some reason,
      ap_previousValues := Some previousValues, ap_newValues := Some (decision_status decision)\<rparr>"

definition settle_step ::
  "int \<Rightarrow> actor \<Rightarrow> approval_decision \<Rightarrow> string \<Rightarrow> quote_status \<times> js_number \<Rightarrow> quote_approval \<Rightarrow> quote_approval \<Rightarrow> quote_approval" where
  "settle_step now a decision reason previousValues current item =
     (if ap_id item \<noteq> ap_id current
      then (if decision = Reject \<and> ap_status item = A_pending then item\<lparr>ap_status := A_invalidated\<rparr> else item)
      else decided_step now a decision reason previousValues item)"

definition applyApprovalDecision ::
  "int \<Rightarrow> quote_approval list \<Rightarrow> string \<Rightarrow> actor \<Rightarrow> approval_decision \<Rightarrow> string \<Rightarrow> quote_status \<times> js_number \<Rightarrow>
   quote_approval list result" where
  "applyApprovalDecision now approvals approvalId a decision reason previousValues =
     (case find (\<lambda>i. ap_id i = approvalId) approvals of
        None \<Rightarrow> Throw (conflict (Approval Approval_step_not_found))
      | Some current \<Rightarrow>
          if ap_status current \<noteq> A_pending
          then Throw (conflict (Approval (Approval_step_is (ap_status current))))
          else (case blocking_step approvals current of
                  Some b \<Rightarrow> Throw (conflict (Approval (Previous_step_first (ap_label b))))
                | None \<Rightarrow>
                    if \<not> canActOnRole a (ap_roleKey current)
                    then Throw (forbidden (Approval (Step_requires (ap_label current) (ap_roleKey current))))
                    else Ok (map (settle_step now a decision reason previousValues current) approvals)))"

definition invalidateApprovals :: "quote_approval list \<Rightarrow> quote_approval list" where
  "invalidateApprovals approvals =
     map (\<lambda>i. if ap_status i = A_pending \<or> ap_status i = A_approved \<or> ap_status i = A_skipped
              then i\<lparr>ap_status := A_invalidated\<rparr> else i) approvals"

definition allRequiredApproved :: "quote_approval list \<Rightarrow> bool" where
  "allRequiredApproved approvals =
     (let required = filter (\<lambda>i. ap_status i \<noteq> A_skipped \<and> ap_status i \<noteq> A_invalidated) approvals
      in if required = [] then approvals = [] \<or> (\<forall>i\<in>set approvals. ap_status i = A_skipped)
         else \<forall>i\<in>set required. ap_status i = A_approved)"

section \<open>Lemmas\<close>

interpretation step_order: comparator step_cmp
  unfolding step_cmp_def by (rule comparator_by_key)

interpretation approval_order: comparator approval_order_cmp
  unfolding approval_order_cmp_def by (rule comparator_by_key)

lemma level_limit_bounds: "1 \<le> level_limit m \<and> level_limit m \<le> 3"
  by (auto simp: level_limit_def)

lemma limited_steps_length: "length (limited_steps c m) \<le> 3"
proof -
  have "\<lfloor>level_limit m\<rfloor> \<le> 3" using level_limit_bounds [of m] floor_mono [of "level_limit m" 3] by simp
  then show ?thesis by (simp add: limited_steps_def nat_le_iff min_le_iff_disj)
qed

lemma limited_steps_set: "set (limited_steps c m) \<subseteq> set (ch_steps c)"
  unfolding limited_steps_def using set_take_subset set_js_sort by fastforce

lemma limited_steps_nonempty: "ch_steps c \<noteq> [] \<Longrightarrow> limited_steps c m \<noteq> []"
proof -
  assume "ch_steps c \<noteq> []"
  moreover have "1 \<le> \<lfloor>level_limit m\<rfloor>" using level_limit_bounds [of m] by (simp add: le_floor_iff)
  ultimately show ?thesis by (simp add: limited_steps_def nat_eq_iff2)
qed

text \<open>The steps kept are the lowest ones: a chain cannot lose its first approver.\<close>

lemma limited_steps_lowest:
  assumes "s \<in> set (limited_steps c m)" and "t \<in> set (ch_steps c)" and "cs_stepOrder t < cs_stepOrder s"
  shows "t \<in> set (limited_steps c m)"
proof (rule ccontr)
  let ?n = "nat \<lfloor>level_limit m\<rfloor>" and ?xs = "js_sort step_cmp (ch_steps c)"
  assume "t \<notin> set (limited_steps c m)"
  then have t: "t \<in> set (drop ?n ?xs)"
    using assms(2) unfolding limited_steps_def
    by (metis UnE append_take_drop_id set_append set_js_sort)
  have s: "s \<in> set (take ?n ?xs)" using assms(1) by (simp add: limited_steps_def)
  have "sorted_wrt (\<lambda>a b. step_cmp a b \<le> 0) (take ?n ?xs @ drop ?n ?xs)"
    using step_order.sorted_js_sort [of "ch_steps c"] by simp
  then have "step_cmp s t \<le> 0" using s t unfolding sorted_wrt_append by blast
  then show False using assms(3) by (simp add: step_cmp_def by_key_def)
qed

lemma buildApprovalSteps_length: "length (buildApprovalSteps f q c m) = length (limited_steps c m)"
  by (simp add: buildApprovalSteps_def)

lemma buildApprovalSteps_all:
  "x \<in> set (buildApprovalSteps f q c m) \<Longrightarrow> ap_status x = A_pending \<and> ap_quoteId x = q \<and> ap_chainId x = ch_id c"
  by (auto simp: buildApprovalSteps_def pending_step_def)

lemma set_enumerate_snd: "(i, s) \<in> set (enumerate n xs) \<Longrightarrow> s \<in> set xs"
  by (induction xs arbitrary: n) auto

lemma buildApprovalSteps_ids:
  assumes "inj f" shows "distinct (map ap_id (buildApprovalSteps f q c m))"
proof -
  have "map ap_id (buildApprovalSteps f q c m) = map f (map fst (enumerate 0 (limited_steps c m)))"
    by (auto simp: buildApprovalSteps_def pending_step_def simp del: map_fst_enumerate)
  then show ?thesis
    using assms inj_on_subset [OF assms subset_UNIV] by (simp only: map_fst_enumerate) (simp add: distinct_map)
qed

lemma autoApprove_allowed:
  assumes "qa_decision as \<in> {D_allowed, D_warning}"
  shows "\<exists>xs. autoApproveIfAllowed f now q as c a m = Ok xs \<and> (\<forall>x\<in>set xs. ap_status x = A_skipped)"
  using assms by (auto simp: autoApproveIfAllowed_def split: option.splits)

lemma autoApprove_required:
  assumes "qa_decision as \<notin> {D_allowed, D_warning}"
  shows "autoApproveIfAllowed f now q as c a m =
    (case c of None \<Rightarrow> Throw (conflict (Approval Chain_required_not_configured))
     | Some ch \<Rightarrow> Ok (buildApprovalSteps f q ch m))"
  using assms by (auto simp: autoApproveIfAllowed_def)

text \<open>When every step has been decided in favour or skipped, and none is left pending.\<close>

lemma allRequiredApproved_iff:
  "allRequiredApproved xs \<longleftrightarrow>
     (\<forall>x\<in>set xs. ap_status x = A_skipped) \<or>
     ((\<exists>x\<in>set xs. ap_status x = A_approved) \<and>
      (\<forall>x\<in>set xs. ap_status x \<in> {A_approved, A_skipped, A_invalidated}))"
proof (cases "filter (\<lambda>i. ap_status i \<noteq> A_skipped \<and> ap_status i \<noteq> A_invalidated) xs = []")
  case True
  then have all: "\<forall>x\<in>set xs. ap_status x = A_skipped \<or> ap_status x = A_invalidated"
    by (auto simp: filter_empty_conv)
  then have "\<not> (\<exists>x\<in>set xs. ap_status x = A_approved)" by auto
  with True all show ?thesis by (auto simp: allRequiredApproved_def Let_def)
next
  case False
  then obtain y where y: "y \<in> set xs" "ap_status y \<noteq> A_skipped" "ap_status y \<noteq> A_invalidated"
    by (auto simp: filter_empty_conv)
  have "allRequiredApproved xs \<longleftrightarrow>
    (\<forall>x\<in>set xs. ap_status x \<noteq> A_skipped \<and> ap_status x \<noteq> A_invalidated \<longrightarrow> ap_status x = A_approved)"
    using False by (auto simp: allRequiredApproved_def Let_def)
  then show ?thesis using y by blast
qed

lemma allRequiredApproved_no_pending: "allRequiredApproved xs \<Longrightarrow> x \<in> set xs \<Longrightarrow> ap_status x \<noteq> A_pending \<and> ap_status x \<noteq> A_rejected"
  by (auto simp: allRequiredApproved_iff)

text \<open>The inversion of a successful decision.\<close>

lemma applyApprovalDecision_Ok:
  assumes "applyApprovalDecision now xs aid a d r pv = Ok ys"
  obtains cur where "find (\<lambda>i. ap_id i = aid) xs = Some cur" "cur \<in> set xs" "ap_id cur = aid"
    "ap_status cur = A_pending" "canActOnRole a (ap_roleKey cur)"
    "\<forall>x\<in>set xs. ap_status x = A_pending \<longrightarrow> ap_stepOrder cur \<le> ap_stepOrder x"
    "ys = map (settle_step now a d r pv cur) xs"
proof -
  from assms obtain cur where cur: "find (\<lambda>i. ap_id i = aid) xs = Some cur"
    and st: "ap_status cur = A_pending" and bl: "blocking_step xs cur = None"
    and role: "canActOnRole a (ap_roleKey cur)" and ys: "ys = map (settle_step now a d r pv cur) xs"
    unfolding applyApprovalDecision_def by (auto split: option.splits if_splits)
  have "cur \<in> set xs" "ap_id cur = aid" using find_SomeD [OF cur] by auto
  moreover have "\<forall>x\<in>set xs. ap_status x = A_pending \<longrightarrow> ap_stepOrder cur \<le> ap_stepOrder x"
    using bl by (auto simp: blocking_step_def filter_empty_conv not_less)
  ultimately show ?thesis using cur st role ys that by blast
qed

lemma settle_step_id [simp]: "ap_id (settle_step now a d r pv cur x) = ap_id x"
  by (simp add: settle_step_def decided_step_def)

lemma settle_step_frame [simp]:
  "ap_stepOrder (settle_step now a d r pv cur x) = ap_stepOrder x"
  "ap_roleKey (settle_step now a d r pv cur x) = ap_roleKey x"
  "ap_quoteId (settle_step now a d r pv cur x) = ap_quoteId x"
  by (simp_all add: settle_step_def decided_step_def)

lemma settle_step_status:
  "ap_status (settle_step now a d r pv cur x) =
     (if ap_id x = ap_id cur then decision_status d
      else if d = Reject \<and> ap_status x = A_pending then A_invalidated else ap_status x)"
  by (simp add: settle_step_def decided_step_def)

definition pending_count :: "quote_approval list \<Rightarrow> nat" where
  "pending_count xs = length (filter (\<lambda>x. ap_status x = A_pending) xs)"

text \<open>Every successful decision removes a pending step, so a chain is decided in finitely many.\<close>

lemma decide_pending_decreases:
  assumes "applyApprovalDecision now xs aid a d r pv = Ok ys"
  shows "pending_count ys < pending_count xs"
proof -
  obtain cur where cur: "cur \<in> set xs" "ap_status cur = A_pending"
    and ys: "ys = map (settle_step now a d r pv cur) xs"
    using applyApprovalDecision_Ok [OF assms] by metis
  let ?g = "\<lambda>x. ap_status (settle_step now a d r pv cur x) = A_pending"
  have le: "?g x \<Longrightarrow> ap_status x = A_pending" for x
    by (cases d) (auto simp: settle_step_status split: if_splits)
  have ncur: "\<not> ?g cur" by (cases d) (simp_all add: settle_step_status)
  have "length (filter ?g zs) < length (filter (\<lambda>x. ap_status x = A_pending) zs)" if "cur \<in> set zs" for zs
    using that
  proof (induction zs)
    case (Cons z zs)
    have mono: "length (filter ?g zs) \<le> length (filter (\<lambda>x. ap_status x = A_pending) zs)" for zs
      by (induction zs) (auto dest: le)
    show ?case
    proof (cases "z = cur")
      case True
      then show ?thesis using ncur cur(2) mono [of zs] by auto
    next
      case False
      then show ?thesis using Cons le [of z] by auto
    qed
  qed simp
  from this [OF cur(1)] show ?thesis by (simp add: pending_count_def ys filter_map comp_def)
qed

section \<open>Runs of decisions\<close>

text \<open>One approval by somebody at some time.\<close>

inductive approves :: "quote_approval list \<Rightarrow> quote_approval list \<Rightarrow> bool" where
  approve: "applyApprovalDecision now xs aid a Approve r pv = Ok ys \<Longrightarrow> approves xs ys"

inductive_cases approves_cases: "approves xs ys"

definition chain_state :: "quote_approval list \<Rightarrow> bool" where
  "chain_state xs \<longleftrightarrow> xs \<noteq> [] \<and> distinct (map ap_id xs) \<and> (\<forall>x\<in>set xs. ap_status x = A_pending \<or> ap_status x = A_approved)"

lemma approves_chain_state: "chain_state xs \<Longrightarrow> approves xs ys \<Longrightarrow> chain_state ys"
proof (elim approves_cases)
  fix now aid a r pv
  assume inv: "chain_state xs" and "applyApprovalDecision now xs aid a Approve r pv = Ok ys"
  then obtain cur where ys: "ys = map (settle_step now a Approve r pv cur) xs" using applyApprovalDecision_Ok by metis
  have "map ap_id ys = map ap_id xs" by (simp add: ys)
  moreover have "\<forall>y\<in>set ys. ap_status y = A_pending \<or> ap_status y = A_approved"
    using inv by (auto simp: chain_state_def ys settle_step_status)
  ultimately show "chain_state ys" using inv unfolding chain_state_def by (metis map_is_Nil_conv)
qed

interpretation approvals: guarded_system approves chain_state "\<lambda>xs ys. pending_count ys \<le> pending_count xs"
  using approves_chain_state by unfold_locales (auto elim!: approves_cases dest: decide_pending_decreases)

lemma built_chain_state:
  "inj f \<Longrightarrow> ch_steps c \<noteq> [] \<Longrightarrow> chain_state (buildApprovalSteps f q c m)"
  using buildApprovalSteps_ids [of f q c m] buildApprovalSteps_all [of _ f q c m] limited_steps_nonempty [of c m] buildApprovalSteps_length [of f q c m]
  by (auto simp: chain_state_def)

lemma find_distinct: "distinct (map ap_id xs) \<Longrightarrow> x \<in> set xs \<Longrightarrow> find (\<lambda>i. ap_id i = ap_id x) xs = Some x"
  by (induction xs) (auto simp: image_iff)

lemma lowest_pending:
  assumes "chain_state xs" and "pending_count xs > 0"
  obtains x where "x \<in> set xs" "ap_status x = A_pending" "\<forall>y\<in>set xs. ap_status y = A_pending \<longrightarrow> ap_stepOrder x \<le> ap_stepOrder y"
proof -
  let ?P = "{x \<in> set xs. ap_status x = A_pending}"
  have "?P \<noteq> {}" using assms(2) by (auto simp: pending_count_def filter_empty_conv)
  then obtain x where "is_arg_min ap_stepOrder (\<lambda>x. x \<in> ?P) x" using ex_is_arg_min_if_finite [of ?P] by fastforce
  then show ?thesis using that by (auto simp: is_arg_min_linorder)
qed

lemma admin_can_approve:
  assumes inv: "chain_state xs" and p: "pending_count xs > 0" and adm: "act_role a = Some ''admin''"
  shows "\<exists>x\<in>set xs. \<exists>ys. applyApprovalDecision now xs (ap_id x) a Approve r pv = Ok ys"
proof -
  obtain x where x: "x \<in> set xs" "ap_status x = A_pending" "\<forall>y\<in>set xs. ap_status y = A_pending \<longrightarrow> ap_stepOrder x \<le> ap_stepOrder y"
    using lowest_pending [OF inv p] .
  have "find (\<lambda>i. ap_id i = ap_id x) xs = Some x" using inv x(1) find_distinct [of xs x] by (simp add: chain_state_def)
  moreover have "blocking_step xs x = None" using x(3) by (auto simp: blocking_step_def filter_empty_conv not_less)
  moreover have "canActOnRole a k" for k using adm by (simp add: canActOnRole_def Let_def actorDiscountRoles_def)
  ultimately show ?thesis using x(1,2) by (auto simp: applyApprovalDecision_def intro!: bexI [of _ x])
qed

section \<open>Properties\<close>

text \<open>C17: A decision is only recorded in order and by the right role: when \<open>applyApprovalDecision\<close>
  succeeds the named step was pending, no earlier step was, the actor may act for the step's role
  (administrators for all, managers for manager steps, otherwise by permission), that step gets the
  decision, every step decided before keeps its status, and after a rejection nothing is pending.\<close>

theorem approval_decision_in_order:
  assumes "applyApprovalDecision now xs aid a d r pv = Ok ys" and "distinct (map ap_id xs)"
  shows "\<exists>cur\<in>set xs. ap_id cur = aid \<and> ap_status cur = A_pending \<and> canActOnRole a (ap_roleKey cur) \<and>
    (\<forall>x\<in>set xs. ap_status x = A_pending \<longrightarrow> ap_stepOrder cur \<le> ap_stepOrder x) \<and>
    map ap_id ys = map ap_id xs \<and>
    (\<forall>y\<in>set ys. ap_id y = aid \<longrightarrow> ap_status y = decision_status d \<and> ap_actorId y = Some (act_id a)) \<and>
    (\<forall>x\<in>set xs. ap_status x \<noteq> A_pending \<longrightarrow> x \<in> set ys) \<and>
    (d = Reject \<longrightarrow> (\<forall>y\<in>set ys. ap_status y \<noteq> A_pending))"
proof -
  obtain cur where cur: "cur \<in> set xs" "ap_id cur = aid" "ap_status cur = A_pending" "canActOnRole a (ap_roleKey cur)"
    "\<forall>x\<in>set xs. ap_status x = A_pending \<longrightarrow> ap_stepOrder cur \<le> ap_stepOrder x" and ys: "ys = map (settle_step now a d r pv cur) xs"
    using applyApprovalDecision_Ok [OF assms(1)] by metis
  have ids: "map ap_id ys = map ap_id xs" by (simp add: ys)
  have "\<forall>y\<in>set ys. ap_id y = aid \<longrightarrow> ap_status y = decision_status d \<and> ap_actorId y = Some (act_id a)"
    using cur(2) by (auto simp: ys settle_step_def decided_step_def)
  moreover have "x \<in> set ys" if "x \<in> set xs" "ap_status x \<noteq> A_pending" for x
  proof -
    have "ap_id x \<noteq> ap_id cur" using that cur(1,3) assms(2) by (metis distinct_map inj_onD)
    then have "settle_step now a d r pv cur x = x" using that by (simp add: settle_step_def)
    then show ?thesis using that(1) by (metis ys image_eqI list.set_map)
  qed
  moreover have "d = Reject \<longrightarrow> (\<forall>y\<in>set ys. ap_status y \<noteq> A_pending)" by (auto simp: ys settle_step_status)
  ultimately show ?thesis using cur ids by blast
qed

definition sample_step :: "int \<Rightarrow> approval_role_key \<Rightarrow> approval_chain_step" where
  "sample_step n k = \<lparr>cs_id = ''s'', cs_chainId = ''ch'', cs_stepOrder = n, cs_roleKey = k, cs_label = ''step''\<rparr>"

definition sample_admin :: actor where
  "sample_admin = \<lparr>act_id = ''root'', act_email = None, act_role = Some ''admin'', act_roles = None, act_permissions = None\<rparr>"

definition one_step_chain :: approval_chain where
  "one_step_chain = \<lparr>ch_id = ''ch'', ch_name = ''ch'', ch_minRiskScore = 0, ch_minBlendedDiscountPercent = 0,
     ch_priority = 1, ch_active = None, ch_steps = [sample_step 1 R_manager]\<rparr>"

lemma one_step_built:
  "buildApprovalSteps f q one_step_chain 3 = [pending_step (f 0) q one_step_chain (sample_step 1 R_manager)]"
  by (simp add: buildApprovalSteps_def limited_steps_def one_step_chain_def level_limit_def)

theorem approval_decision_in_order_witness:
  "\<exists>xs ys. applyApprovalDecision 7 xs ''x'' sample_admin Approve ''fine'' (Q_approval_required, 0) = Ok ys \<and>
     distinct (map ap_id xs) \<and> xs \<noteq> [] \<and> map ap_id ys = map ap_id xs"
proof -
  let ?xs = "[pending_step ''x'' ''q1'' one_step_chain (sample_step 1 R_manager)]"
  obtain ys where ok: "applyApprovalDecision 7 ?xs ''x'' sample_admin Approve ''fine'' (Q_approval_required, 0) = Ok ys"
    by (simp add: applyApprovalDecision_def blocking_step_def pending_step_def canActOnRole_def Let_def sample_admin_def
        actorDiscountRoles_def sample_step_def)
  have d: "distinct (map ap_id ?xs)" by simp
  have "map ap_id ys = map ap_id ?xs" using approval_decision_in_order [OF ok d] by blast
  then show ?thesis using ok d by (intro exI [of _ ?xs] exI [of _ ys]) simp
qed

text \<open>An approval chain is never stuck and always ends: from the steps of a chain that has some,
  after any number of approvals, while a step is pending an administrator's approval of some step
  succeeds, each success leaves strictly fewer pending steps, and when none is left the approvals are
  complete.\<close>

theorem approval_chain_live:
  assumes "inj f" and "ch_steps c \<noteq> []" and "approves\<^sup>*\<^sup>* (buildApprovalSteps f q c m) xs" and "act_role a = Some ''admin''"
  shows "(pending_count xs = 0 \<longrightarrow> allRequiredApproved xs) \<and>
         (pending_count xs > 0 \<longrightarrow>
            (\<exists>x\<in>set xs. \<exists>ys. applyApprovalDecision now xs (ap_id x) a Approve r pv = Ok ys \<and> pending_count ys < pending_count xs))"
proof -
  have inv: "chain_state xs" using approvals.run_inv [OF assms(3)] built_chain_state [OF assms(1,2)] by blast
  have "allRequiredApproved xs" if "pending_count xs = 0"
  proof -
    have "\<forall>x\<in>set xs. ap_status x = A_approved" using that inv by (auto simp: pending_count_def filter_empty_conv chain_state_def)
    moreover have "xs \<noteq> []" using inv by (simp add: chain_state_def)
    then obtain x where "x \<in> set xs" by (cases xs) auto
    ultimately show ?thesis by (auto simp: allRequiredApproved_iff)
  qed
  then show ?thesis using admin_can_approve [OF inv _ assms(4), of now r pv] decide_pending_decreases by blast
qed

theorem approval_chain_live_witness:
  "\<exists>xs x ys. pending_count xs > 0 \<and> x \<in> set xs \<and> applyApprovalDecision 7 xs (ap_id x) sample_admin Approve ''ok'' (Q_approval_required, 0) = Ok ys"
proof -
  let ?f = "\<lambda>n::nat. replicate n CHR ''x''"
  let ?xs = "buildApprovalSteps ?f ''q1'' one_step_chain 3"
  have f: "inj ?f" by (rule injI) (metis length_replicate)
  have s: "ch_steps one_step_chain \<noteq> []" and a: "act_role sample_admin = Some ''admin''" by (simp_all add: one_step_chain_def sample_admin_def)
  have p: "pending_count ?xs > 0" by (simp add: one_step_built pending_count_def pending_step_def)
  from approval_chain_live [OF f s rtranclp.rtrancl_refl a, of "''q1''" 3 7 "''ok''" "(Q_approval_required, 0)"] p show ?thesis by blast
qed

text \<open>Cutting a chain to the configured number of levels keeps the right steps: between one and
  three steps of a non-empty chain remain, each is a step of the chain, and a step that is dropped
  never comes before one that is kept.\<close>

theorem chain_cut_keeps_first_steps:
  assumes "ch_steps c \<noteq> []"
  shows "1 \<le> length (buildApprovalSteps f q c m) \<and> length (buildApprovalSteps f q c m) \<le> 3 \<and>
    set (limited_steps c m) \<subseteq> set (ch_steps c) \<and>
    (\<forall>s\<in>set (limited_steps c m). \<forall>t\<in>set (ch_steps c). cs_stepOrder t < cs_stepOrder s \<longrightarrow> t \<in> set (limited_steps c m))"
proof -
  have "limited_steps c m \<noteq> []" by (rule limited_steps_nonempty [OF assms])
  then have "1 \<le> length (limited_steps c m)" by (simp add: Suc_le_eq)
  then show ?thesis
    using limited_steps_length [of c m] limited_steps_set [of c m] limited_steps_lowest [of _ c m]
    by (auto simp: buildApprovalSteps_length)
qed

theorem chain_cut_keeps_first_steps_witness:
  "ch_steps one_step_chain \<noteq> [] \<and> 1 \<le> length (buildApprovalSteps (\<lambda>_. ''x'') ''q1'' one_step_chain 0)"
proof -
  have "ch_steps one_step_chain \<noteq> []" by (simp add: one_step_chain_def)
  from this chain_cut_keeps_first_steps [OF this, of "\<lambda>_. ''x''" "''q1''" 0] show ?thesis by blast
qed

end
