(* ===== verification/Dealflow_Fulfillment.thy ===== *)
theory Dealflow_Fulfillment
  imports Dealflow_Types Dealflow_Samples
begin

text \<open>
  \<open>fulfillment-engine.ts\<close>: the warehouse split of a quote (manual overrides first, then greedy by
  availability), the reservation of a plan against the stock table, and the consumption at
  confirmation. The mutable \<open>stockLeft\<close>, \<open>allocations\<close>, \<open>remainingByLine\<close> and \<open>remainingByProduct\<close>
  are the fields of \<open>plan_state\<close>; \<open>remainingByProduct\<close> is an association list because a
  JavaScript \<open>Map\<close> iterates in insertion order. \<open>localeCompare\<close> is the parameter \<open>lc\<close>,
  \<open>crypto.randomUUID()\<close> the parameter \<open>fresh\<close>.
\<close>

section \<open>Definitions\<close>

definition available :: "stock_level option \<Rightarrow> js_number" where
  "available stock = (case stock of None \<Rightarrow> 0 | Some s \<Rightarrow> max 0 (st_quantityOnHand s - st_reserved s))"

definition row_at :: "stock_level list \<Rightarrow> string \<Rightarrow> string \<Rightarrow> stock_level option" where
  "row_at stock w p = find (\<lambda>i. st_warehouseId i = w \<and> st_productId i = p) stock"

definition bump_reserved :: "string \<Rightarrow> string \<Rightarrow> js_number \<Rightarrow> stock_level list \<Rightarrow> stock_level list" where
  "bump_reserved w p q stock =
     update_first (\<lambda>i. st_warehouseId i = w \<and> st_productId i = p) (\<lambda>r. r\<lparr>st_reserved := st_reserved r + q\<rparr>) stock"

record plan_state =
  ps_allocations :: "fulfillment_split list"
  ps_remainingByLine :: "string \<Rightarrow> js_number option"
  ps_remainingByProduct :: "(string \<times> js_number) list"
  ps_stock :: "stock_level list"

record plan_override =
  ov_quoteLineId :: string
  ov_warehouseId :: string
  ov_quantity :: js_number

record plan_input =
  pi_quoteId :: string
  pi_lines :: "quote_line list"
  pi_warehouses :: "warehouse list"
  pi_stock :: "stock_level list"
  pi_overrides :: "plan_override list"

definition consume :: "string \<Rightarrow> string \<Rightarrow> js_number \<Rightarrow> stock_level list \<Rightarrow> stock_level list result" where
  "consume w p quantity stock =
     (if row_at stock w p = None \<or> available (row_at stock w p) < quantity
      then Throw (conflict (Fulfillment (Insufficient_stock w p quantity (available (row_at stock w p)))))
      else Ok (bump_reserved w p quantity stock))"

definition line_remaining :: "plan_state \<Rightarrow> quote_line \<Rightarrow> js_number" where
  "line_remaining st line = (case ps_remainingByLine st (ln_id line) of None \<Rightarrow> ln_quantity line | Some r \<Rightarrow> r)"

definition mk_split :: "string \<Rightarrow> string \<Rightarrow> string \<Rightarrow> warehouse \<Rightarrow> js_number \<Rightarrow> bool \<Rightarrow> fulfillment_split" where
  "mk_split uuid quoteId lineId w quantity manual = \<lparr>
     fs_id = uuid, fs_quoteId = quoteId, fs_quoteLineId = lineId, fs_warehouseId = wh_id w,
     fs_quantity = quantity, fs_unitFulfillmentCost = wh_fulfillmentCostPerUnit w,
     fs_isBackorder = False, fs_isManualOverride = manual\<rparr>"

definition apply_override ::
  "(nat \<Rightarrow> string) \<Rightarrow> plan_input \<Rightarrow> plan_override \<Rightarrow> plan_state \<Rightarrow> plan_state result" where
  "apply_override fresh input ov st =
     (case find (\<lambda>i. ln_id i = ov_quoteLineId ov) (pi_lines input) of
        None \<Rightarrow> Throw (invalid (Fulfillment (Override_unknown_line (ov_quoteLineId ov))))
      | Some line \<Rightarrow>
          if ov_quantity ov \<le> 0 then Throw (invalid (Fulfillment Override_not_positive))
          else (case find (\<lambda>i. wh_id i = ov_warehouseId ov) (pi_warehouses input) of
                  None \<Rightarrow> Throw (invalid (Fulfillment (Override_unknown_warehouse (ov_warehouseId ov))))
                | Some w \<Rightarrow>
                    if ov_quantity ov > line_remaining st line
                    then Throw (invalid (Fulfillment (Override_exceeds_line (ln_id line) (line_remaining st line))))
                    else rbind (consume (wh_id w) (ln_productId line) (ov_quantity ov) (ps_stock st)) (\<lambda>stock'.
                      Ok (st\<lparr>ps_stock := stock',
                             ps_allocations := ps_allocations st @
                               [mk_split (fresh (length (ps_allocations st))) (pi_quoteId input) (ln_id line) w (ov_quantity ov) True],
                             ps_remainingByLine := (ps_remainingByLine st)(ln_id line \<mapsto> line_remaining st line - ov_quantity ov)\<rparr>))))"

fun apply_overrides ::
  "(nat \<Rightarrow> string) \<Rightarrow> plan_input \<Rightarrow> plan_override list \<Rightarrow> plan_state \<Rightarrow> plan_state result" where
  "apply_overrides fresh input [] st = Ok st"
| "apply_overrides fresh input (ov # ovs) st =
     rbind (apply_override fresh input ov st) (apply_overrides fresh input ovs)"

definition warehouse_cmp :: "(string \<Rightarrow> string \<Rightarrow> rat) \<Rightarrow> warehouse \<Rightarrow> warehouse \<Rightarrow> rat" where
  "warehouse_cmp lc left right =
     (if wh_fulfillmentCostPerUnit left \<noteq> wh_fulfillmentCostPerUnit right
      then wh_fulfillmentCostPerUnit left - wh_fulfillmentCostPerUnit right
      else lc (wh_name left) (wh_name right))"

definition availability_cmp :: "stock_level list \<Rightarrow> string \<Rightarrow> warehouse \<Rightarrow> warehouse \<Rightarrow> rat" where
  "availability_cmp stock p = by_key2 (\<lambda>w. - available (row_at stock (wh_id w) p)) wh_fulfillmentCostPerUnit"

text \<open>The inner loop over warehouses: stop when nothing remains, skip an empty warehouse.\<close>

fun take_from ::
  "(nat \<Rightarrow> string) \<Rightarrow> string \<Rightarrow> quote_line \<Rightarrow> warehouse list \<Rightarrow> js_number \<Rightarrow> plan_state \<Rightarrow> js_number \<times> plan_state" where
  "take_from fresh quoteId line [] remaining st = (remaining, st)"
| "take_from fresh quoteId line (w # ws) remaining st =
     (if remaining \<le> 0 then (remaining, st)
      else let tk = min remaining (available (row_at (ps_stock st) (wh_id w) (ln_productId line)))
           in if tk \<le> 0 then take_from fresh quoteId line ws remaining st
              else take_from fresh quoteId line ws (remaining - tk)
                     (st\<lparr>ps_stock := bump_reserved (wh_id w) (ln_productId line) tk (ps_stock st),
                         ps_allocations := ps_allocations st @
                           [mk_split (fresh (length (ps_allocations st))) quoteId (ln_id line) w tk False]\<rparr>))"

fun add_to :: "string \<Rightarrow> js_number \<Rightarrow> (string \<times> js_number) list \<Rightarrow> (string \<times> js_number) list" where
  "add_to k v [] = [(k, 0 + v)]"
| "add_to k v ((k', v') # m) = (if k' = k then (k', v' + v) # m else (k', v') # add_to k v m)"

definition plan_line ::
  "(nat \<Rightarrow> string) \<Rightarrow> string \<Rightarrow> warehouse list \<Rightarrow> quote_line \<Rightarrow> plan_state \<Rightarrow> plan_state" where
  "plan_line fresh quoteId ranked line st =
     (let byAvailability = js_sort (availability_cmp (ps_stock st) (ln_productId line)) ranked;
          (remaining, st') = take_from fresh quoteId line byAvailability (line_remaining st line) st
      in st'\<lparr>ps_remainingByLine := (ps_remainingByLine st')(ln_id line \<mapsto> remaining),
             ps_remainingByProduct := add_to (ln_productId line) remaining (ps_remainingByProduct st')\<rparr>)"

fun plan_lines ::
  "(nat \<Rightarrow> string) \<Rightarrow> string \<Rightarrow> warehouse list \<Rightarrow> quote_line list \<Rightarrow> plan_state \<Rightarrow> plan_state" where
  "plan_lines fresh quoteId ranked [] st = st"
| "plan_lines fresh quoteId ranked (l # ls) st = plan_lines fresh quoteId ranked ls (plan_line fresh quoteId ranked l st)"

definition initial_plan :: "plan_input \<Rightarrow> plan_state" where
  "initial_plan input = \<lparr>ps_allocations = [], ps_remainingByLine = Map.empty,
     ps_remainingByProduct = [], ps_stock = pi_stock input\<rparr>"

definition plan_run ::
  "(string \<Rightarrow> string \<Rightarrow> rat) \<Rightarrow> (nat \<Rightarrow> string) \<Rightarrow> plan_input \<Rightarrow> plan_state result" where
  "plan_run lc fresh input =
     rbind (apply_overrides fresh input (pi_overrides input) (initial_plan input)) (\<lambda>st.
       Ok (plan_lines fresh (pi_quoteId input) (js_sort (warehouse_cmp lc) (pi_warehouses input)) (pi_lines input) st))"

definition plan_backorders :: "(nat \<Rightarrow> string) \<Rightarrow> string \<Rightarrow> plan_state \<Rightarrow> backorder list" where
  "plan_backorders fresh quoteId st =
     map (\<lambda>(i, (p, q)). \<lparr>bo_id = fresh (length (ps_allocations st) + i), bo_quoteId = quoteId, bo_productId = p, bo_quantity = q\<rparr>)
       (enumerate 0 (filter (\<lambda>(p, q). q > 0) (ps_remainingByProduct st)))"

definition planFulfillment ::
  "(string \<Rightarrow> string \<Rightarrow> rat) \<Rightarrow> (nat \<Rightarrow> string) \<Rightarrow> plan_input \<Rightarrow> fulfillment_plan result" where
  "planFulfillment lc fresh input =
     rbind (plan_run lc fresh input) (\<lambda>st.
       let backorders = plan_backorders fresh (pi_quoteId input) st;
           shipped = filter (\<lambda>i. \<not> fs_isBackorder i) (ps_allocations st)
       in Ok \<lparr>fp_allocations = ps_allocations st, fp_backorders = backorders,
              fp_shipmentCount = card (set (map fs_warehouseId shipped)),
              fp_fulfillmentCost = sum_list (map (\<lambda>i. fs_quantity i * fs_unitFulfillmentCost i) shipped),
              fp_backorderQuantity = sum_list (map bo_quantity backorders)\<rparr>)"

text \<open>\<open>Object.fromEntries(lines.map(l => [l.id, l.productId]))\<close>: the last entry of a key wins.\<close>

definition productByLineId :: "quote_line list \<Rightarrow> string \<Rightarrow> string option" where
  "productByLineId lines = map_of (rev (map (\<lambda>l. (ln_id l, ln_productId l)) lines))"

definition stock_row :: "stock_level list \<Rightarrow> string \<Rightarrow> string option \<Rightarrow> stock_level option" where
  "stock_row stock w productId = (case productId of None \<Rightarrow> None | Some p \<Rightarrow> row_at stock w p)"

definition set_reserved :: "string \<Rightarrow> string option \<Rightarrow> (js_number \<Rightarrow> js_number) \<Rightarrow> stock_level list \<Rightarrow> stock_level list" where
  "set_reserved w productId f stock = (case productId of None \<Rightarrow> stock | Some p \<Rightarrow>
     update_first (\<lambda>i. st_warehouseId i = w \<and> st_productId i = p) (\<lambda>r. r\<lparr>st_reserved := f (st_reserved r)\<rparr>) stock)"

definition mutate ::
  "(string \<Rightarrow> string option) \<Rightarrow> fulfillment_split \<Rightarrow> js_number \<Rightarrow> stock_level list \<Rightarrow> stock_level list result" where
  "mutate pbl split delta stock =
     (if fs_isBackorder split then Ok stock
      else let productId = pbl (fs_quoteLineId split)
           in if stock_row stock (fs_warehouseId split) productId = None
              then Throw (conflict (Fulfillment (Stock_row_missing (fs_warehouseId split) productId)))
              else Ok (set_reserved (fs_warehouseId split) productId (\<lambda>r. max 0 (r + delta)) stock))"

fun release_previous ::
  "(string \<Rightarrow> string option) \<Rightarrow> fulfillment_split list \<Rightarrow> stock_level list \<Rightarrow> stock_level list result" where
  "release_previous pbl [] stock = Ok stock"
| "release_previous pbl (s # ss) stock = rbind (mutate pbl s (- fs_quantity s) stock) (release_previous pbl ss)"

definition reserve_one ::
  "(string \<Rightarrow> string option) \<Rightarrow> fulfillment_split \<Rightarrow> stock_level list \<Rightarrow> stock_level list result" where
  "reserve_one pbl split stock =
     rbind (mutate pbl split (fs_quantity split) stock) (\<lambda>stock'.
       let productId = pbl (fs_quoteLineId split)
       in case stock_row stock' (fs_warehouseId split) productId of
            None \<Rightarrow> Ok stock'
          | Some row \<Rightarrow>
              if st_reserved row > st_quantityOnHand row + 1 / 10 ^ 9
              then Throw (conflict (Fulfillment (Reservation_exceeds_on_hand (fs_warehouseId split) productId
                     (st_reserved row) (st_quantityOnHand row))))
              else Ok stock')"

fun reserve_next ::
  "(string \<Rightarrow> string option) \<Rightarrow> fulfillment_split list \<Rightarrow> stock_level list \<Rightarrow> stock_level list result" where
  "reserve_next pbl [] stock = Ok stock"
| "reserve_next pbl (s # ss) stock = rbind (reserve_one pbl s stock) (reserve_next pbl ss)"

definition reserveStock ::
  "stock_level list \<Rightarrow> (string \<Rightarrow> string option) \<Rightarrow> fulfillment_split list \<Rightarrow> fulfillment_split list \<Rightarrow> stock_level list result" where
  "reserveStock stock pbl previous nxt = rbind (release_previous pbl previous stock) (reserve_next pbl nxt)"

definition consume_split ::
  "(string \<Rightarrow> string option) \<Rightarrow> fulfillment_split \<Rightarrow> stock_level list \<Rightarrow> stock_level list result" where
  "consume_split pbl split stock =
     (if fs_isBackorder split then Ok stock
      else case pbl (fs_quoteLineId split) of
             None \<Rightarrow> Throw (conflict (Fulfillment (Stock_row_missing_at_confirmation (fs_warehouseId split) None)))
           | Some p \<Rightarrow>
               if row_at stock (fs_warehouseId split) p = None
               then Throw (conflict (Fulfillment (Stock_row_missing_at_confirmation (fs_warehouseId split) (Some p))))
               else Ok (update_first (\<lambda>i. st_warehouseId i = fs_warehouseId split \<and> st_productId i = p)
                          (\<lambda>r. r\<lparr>st_quantityOnHand := max 0 (st_quantityOnHand r - fs_quantity split),
                                 st_reserved := max 0 (st_reserved r - fs_quantity split)\<rparr>) stock))"

fun consumeStockOnConfirm ::
  "(string \<Rightarrow> string option) \<Rightarrow> fulfillment_split list \<Rightarrow> stock_level list \<Rightarrow> stock_level list result" where
  "consumeStockOnConfirm pbl [] stock = Ok stock"
| "consumeStockOnConfirm pbl (s # ss) stock = rbind (consume_split pbl s stock) (consumeStockOnConfirm pbl ss)"

section \<open>Availability under reservation\<close>

definition avail :: "stock_level list \<Rightarrow> string \<Rightarrow> string \<Rightarrow> js_number" where
  "avail stock w p = available (row_at stock w p)"

definition total_avail :: "warehouse list \<Rightarrow> stock_level list \<Rightarrow> string \<Rightarrow> js_number" where
  "total_avail ws stock p = sum_list (map (\<lambda>w. avail stock (wh_id w) p) ws)"

lemma avail_nonneg [simp]: "0 \<le> avail s w p"
  by (simp add: avail_def available_def split: option.splits)

lemma total_avail_nonneg [simp]: "0 \<le> total_avail ws s p"
  unfolding total_avail_def by (rule sum_list_nonneg_map) simp

lemma row_at_bump:
  "row_at (bump_reserved w p q s) w' p' =
     (if w' = w \<and> p' = p then map_option (\<lambda>r. r\<lparr>st_reserved := st_reserved r + q\<rparr>) (row_at s w p)
      else row_at s w' p')"
  by (induction s) (auto simp: row_at_def bump_reserved_def)

lemma avail_bump_other: "w' \<noteq> w \<or> p' \<noteq> p \<Longrightarrow> avail (bump_reserved w p q s) w' p' = avail s w' p'"
  by (auto simp: avail_def row_at_bump)

lemma avail_bump_same: "0 \<le> q \<Longrightarrow> q \<le> avail s w p \<Longrightarrow> avail (bump_reserved w p q s) w p = avail s w p - q"
  by (auto simp: avail_def row_at_bump available_def split: option.splits)

lemma total_avail_bump_other_product:
  "p' \<noteq> p \<Longrightarrow> total_avail ws (bump_reserved w p q s) p' = total_avail ws s p'"
  by (simp add: total_avail_def avail_bump_other)

lemma total_avail_bump_absent:
  "w \<notin> wh_id ` set ws \<Longrightarrow> total_avail ws (bump_reserved w p q s) p = total_avail ws s p"
proof -
  assume "w \<notin> wh_id ` set ws"
  then have "avail (bump_reserved w p q s) (wh_id x) p = avail s (wh_id x) p" if "x \<in> set ws" for x
    using that by (intro avail_bump_other) auto
  then show ?thesis by (simp add: total_avail_def cong: map_cong)
qed

lemma total_avail_bump:
  assumes "distinct (map wh_id ws)" and "w \<in> wh_id ` set ws" and "0 \<le> q" and "q \<le> avail s w p"
  shows "total_avail ws (bump_reserved w p q s) p = total_avail ws s p - q"
  using assms(1,2)
proof (induction ws)
  case (Cons x ws)
  show ?case
  proof (cases "wh_id x = w")
    case True
    with Cons.prems have "w \<notin> wh_id ` set ws" by auto
    then have "total_avail ws (bump_reserved w p q s) p = total_avail ws s p"
      by (rule total_avail_bump_absent)
    then show ?thesis using True assms(3,4) by (simp add: total_avail_def avail_bump_same)
  next
    case False
    with Cons have "total_avail ws (bump_reserved w p q s) p = total_avail ws s p - q" by auto
    then show ?thesis using False by (simp add: total_avail_def avail_bump_other)
  qed
qed simp

lemma total_avail_js_sort [simp]: "total_avail (js_sort cmp ws) s p = total_avail ws s p"
proof -
  have "mset (map (\<lambda>w. avail s (wh_id w) p) (js_sort cmp ws)) = mset (map (\<lambda>w. avail s (wh_id w) p) ws)" by simp
  then show ?thesis unfolding total_avail_def by (metis sum_mset_sum_list)
qed

section \<open>The inner loop\<close>

lemma max_min_shift:
  fixes r :: rat
  assumes "0 \<le> a" and "0 \<le> t"
  shows "max 0 (r - min r a - t) = max 0 (r - (a + t))"
  using assms by (auto simp: max_def min_def)

lemma take_from_stop: "rem \<le> 0 \<Longrightarrow> take_from f q l (w # ws) rem st = (rem, st)"
  by simp

lemma take_from_skip:
  "0 < rem \<Longrightarrow> min rem (available (row_at (ps_stock st) (wh_id w) (ln_productId l))) \<le> 0 \<Longrightarrow>
   take_from f q l (w # ws) rem st = take_from f q l ws rem st"
  unfolding take_from.simps Let_def by (simp only: not_le [symmetric] if_False if_True)

lemma take_from_go:
  fixes rem :: rat
  defines "tk st w l \<equiv> min rem (available (row_at (ps_stock st) (wh_id w) (ln_productId l)))"
  assumes "0 < rem" and "0 < tk st w l"
  shows "take_from f q l (w # ws) rem st = take_from f q l ws (rem - tk st w l)
     (st\<lparr>ps_stock := bump_reserved (wh_id w) (ln_productId l) (tk st w l) (ps_stock st),
         ps_allocations := ps_allocations st @
           [mk_split (f (length (ps_allocations st))) q (ln_id l) w (tk st w l) False]\<rparr>)"
proof -
  have "\<not> rem \<le> 0" "\<not> tk st w l \<le> 0" using assms by linarith+
  then show ?thesis unfolding take_from.simps Let_def tk_def by (simp only: if_False)
qed

text \<open>What the loop over warehouses does to the line's remainder, the stock and the splits.\<close>

lemma take_from_spec:
  assumes "distinct (map wh_id ws)" and "0 \<le> rem" and "take_from f q l ws rem st = (rem', st')"
  shows "rem' = max 0 (rem - total_avail ws (ps_stock st) (ln_productId l)) \<and>
     (\<exists>new. ps_allocations st' = ps_allocations st @ new \<and>
        sum_list (map fs_quantity new) = rem - rem' \<and>
        (\<forall>x\<in>set new. 0 < fs_quantity x \<and> fs_quoteLineId x = ln_id l \<and> \<not> fs_isBackorder x \<and>
           fs_warehouseId x \<in> wh_id ` set ws)) \<and>
     ps_remainingByLine st' = ps_remainingByLine st \<and>
     ps_remainingByProduct st' = ps_remainingByProduct st"
  using assms
proof (induction ws arbitrary: rem st)
  case Nil
  then show ?case by (simp add: total_avail_def)
next
  case (Cons w ws)
  let ?p = "ln_productId l"
  let ?a = "available (row_at (ps_stock st) (wh_id w) ?p)"
  have tot: "total_avail (w # ws) (ps_stock st) ?p = ?a + total_avail ws (ps_stock st) ?p"
    by (simp add: total_avail_def avail_def)
  have a0: "0 \<le> ?a" using avail_nonneg [of "ps_stock st" "wh_id w" ?p] by (simp add: avail_def)
  have t0: "0 \<le> total_avail ws (ps_stock st) ?p" by simp
  show ?case
  proof (cases "rem \<le> 0")
    case True
    then have "rem = 0" using Cons.prems by simp
    moreover from this have "max 0 (rem - total_avail (w # ws) (ps_stock st) ?p) = 0"
      by (intro max_absorb1) simp
    ultimately show ?thesis using Cons.prems by auto
  next
    case False
    show ?thesis
    proof (cases "min rem ?a \<le> 0")
      case True
      then have a: "?a = 0" using False a0 by (simp add: min_def split: if_splits)
      then have "take_from f q l ws rem st = (rem', st')" using Cons.prems False True by simp
      with Cons.IH [of rem st] Cons.prems a tot show ?thesis by auto
    next
      case tk: False
      let ?t = "min rem ?a"
      let ?sp = "mk_split (f (length (ps_allocations st))) q (ln_id l) w ?t False"
      let ?st = "st\<lparr>ps_stock := bump_reserved (wh_id w) ?p ?t (ps_stock st), ps_allocations := ps_allocations st @ [?sp]\<rparr>"
      have run: "take_from f q l ws (rem - ?t) ?st = (rem', st')"
        using Cons.prems(3) False tk by (simp add: Let_def)
      have d: "distinct (map wh_id ws)" and nw: "wh_id w \<notin> wh_id ` set ws" using Cons.prems(1) by auto
      have same: "total_avail ws (ps_stock ?st) ?p = total_avail ws (ps_stock st) ?p"
        using total_avail_bump_absent [OF nw] by simp
      have "0 \<le> rem - ?t" by simp
      from Cons.IH [OF d this run] same obtain new where
        r: "rem' = max 0 (rem - ?t - total_avail ws (ps_stock st) ?p)"
        and n: "ps_allocations st' = ps_allocations st @ [?sp] @ new"
        and sm: "sum_list (map fs_quantity new) = rem - ?t - rem'"
        and al: "\<forall>x\<in>set new. 0 < fs_quantity x \<and> fs_quoteLineId x = ln_id l \<and> \<not> fs_isBackorder x \<and>
           fs_warehouseId x \<in> wh_id ` set ws"
        and fr: "ps_remainingByLine st' = ps_remainingByLine st" "ps_remainingByProduct st' = ps_remainingByProduct st"
        by auto
      have "rem' = max 0 (rem - total_avail (w # ws) (ps_stock st) ?p)"
        unfolding tot r by (rule max_min_shift [OF a0 t0])
      moreover have "sum_list (map fs_quantity (?sp # new)) = rem - rem'"
        using sm by (simp add: mk_split_def)
      moreover have "\<forall>x\<in>set (?sp # new). 0 < fs_quantity x \<and> fs_quoteLineId x = ln_id l \<and> \<not> fs_isBackorder x \<and>
           fs_warehouseId x \<in> wh_id ` set (w # ws)"
        using al tk by (auto simp: mk_split_def)
      ultimately show ?thesis using n fr by (intro conjI exI [of _ "?sp # new"]) auto
    qed
  qed
qed

lemma take_from_avail:
  assumes us: "distinct (map wh_id us)"
    and "take_from f q l ws rem st = (rem', st')" and "set ws \<subseteq> set us"
  shows "total_avail us (ps_stock st') p =
     total_avail us (ps_stock st) p - (if p = ln_productId l then rem - rem' else 0)"
  using assms(2,3)
proof (induction ws arbitrary: rem st)
  case Nil
  then show ?case by simp
next
  case (Cons w ws)
  let ?p = "ln_productId l"
  let ?a = "available (row_at (ps_stock st) (wh_id w) ?p)"
  let ?t = "min rem ?a"
  let ?sp = "mk_split (f (length (ps_allocations st))) q (ln_id l) w ?t False"
  let ?st = "st\<lparr>ps_stock := bump_reserved (wh_id w) ?p ?t (ps_stock st), ps_allocations := ps_allocations st @ [?sp]\<rparr>"
  consider "rem \<le> 0" | "0 < rem" "?t \<le> 0" | "0 < rem" "0 < ?t" by linarith
  then show ?case
  proof cases
    case 1
    then show ?thesis using Cons.prems by simp
  next
    case 2
    then show ?thesis using Cons.IH Cons.prems take_from_skip [OF 2, of f q ws] by simp
  next
    case 3
    have bump: "total_avail us (ps_stock ?st) p = total_avail us (ps_stock st) p - (if p = ?p then ?t else 0)"
    proof (cases "p = ?p")
      case True
      then show ?thesis using 3 us Cons.prems(2) total_avail_bump [of us "wh_id w" ?t "ps_stock st" ?p]
        by (auto simp: avail_def)
    next
      case False
      then show ?thesis by (simp add: total_avail_bump_other_product)
    qed
    have "take_from f q l ws (rem - ?t) ?st = (rem', st')"
      using Cons.prems(1) take_from_go [OF 3, of f q ws] by simp
    then have "total_avail us (ps_stock st') p =
      total_avail us (ps_stock ?st) p - (if p = ?p then rem - ?t - rem' else 0)"
      using Cons.IH Cons.prems(2) by simp
    then show ?thesis unfolding bump by simp
  qed
qed

section \<open>The line loop\<close>

definition owed :: "(string \<times> js_number) list \<Rightarrow> string \<Rightarrow> js_number" where
  "owed m p = (case map_of m p of None \<Rightarrow> 0 | Some v \<Rightarrow> v)"

definition open_demand :: "plan_state \<Rightarrow> quote_line list \<Rightarrow> string \<Rightarrow> js_number" where
  "open_demand st ls p = sum_list (map (line_remaining st) (filter (\<lambda>l. ln_productId l = p) ls))"

definition allocated :: "plan_state \<Rightarrow> js_number" where
  "allocated st = sum_list (map fs_quantity (ps_allocations st))"

lemma owed_Nil [simp]: "owed [] p = 0"
  by (simp add: owed_def)

lemma owed_Cons [simp]: "owed ((k, v) # m) p = (if p = k then v else owed m p)"
  by (simp add: owed_def)

lemma owed_add_to: "owed (add_to k v m) p = owed m p + (if p = k then v else 0)"
  by (induction k v m rule: add_to.induct) auto

lemma sum_add_to: "sum_list (map snd (add_to k v m)) = sum_list (map snd m) + v"
  by (induction k v m rule: add_to.induct) auto

lemma keys_add_to: "fst ` set (add_to k v m) = insert k (fst ` set m)"
  by (induction k v m rule: add_to.induct) auto

lemma distinct_add_to: "distinct (map fst m) \<Longrightarrow> distinct (map fst (add_to k v m))"
  by (induction k v m rule: add_to.induct) (auto simp: keys_add_to)

lemma nonneg_add_to: "\<forall>x\<in>set m. 0 \<le> snd x \<Longrightarrow> 0 \<le> v \<Longrightarrow> \<forall>x\<in>set (add_to k v m). 0 \<le> snd x"
  by (induction k v m rule: add_to.induct) auto

lemma plan_line_spec:
  fixes f :: "nat \<Rightarrow> string" and q :: string
  assumes ws: "distinct (map wh_id ws)" and nn: "0 \<le> line_remaining st l"
  defines "st' \<equiv> plan_line f q ws l st"
    and "r \<equiv> max 0 (line_remaining st l - total_avail ws (ps_stock st) (ln_productId l))"
  shows "ps_remainingByLine st' = (ps_remainingByLine st)(ln_id l \<mapsto> r)"
    and "ps_remainingByProduct st' = add_to (ln_productId l) r (ps_remainingByProduct st)"
    and "total_avail ws (ps_stock st') p =
           total_avail ws (ps_stock st) p - (if p = ln_productId l then line_remaining st l - r else 0)"
    and "allocated st' = allocated st + (line_remaining st l - r)"
    and "\<exists>new. ps_allocations st' = ps_allocations st @ new \<and>
           (\<forall>x\<in>set new. 0 < fs_quantity x \<and> \<not> fs_isBackorder x \<and> fs_quoteLineId x = ln_id l)"
proof -
  let ?ws = "js_sort (availability_cmp (ps_stock st) (ln_productId l)) ws"
  obtain rem s2 where run: "take_from f q l ?ws (line_remaining st l) st = (rem, s2)" by fastforce
  have d: "distinct (map wh_id ?ws)" using ws by simp
  have st': "st' = s2\<lparr>ps_remainingByLine := (ps_remainingByLine s2)(ln_id l \<mapsto> rem),
                      ps_remainingByProduct := add_to (ln_productId l) rem (ps_remainingByProduct s2)\<rparr>"
    using run by (simp add: st'_def plan_line_def)
  note spec = take_from_spec [OF d nn run]
  have rem: "rem = r" using spec by (simp add: r_def)
  show "ps_remainingByLine st' = (ps_remainingByLine st)(ln_id l \<mapsto> r)"
    and "ps_remainingByProduct st' = add_to (ln_productId l) r (ps_remainingByProduct st)"
    using spec rem by (simp_all add: st')
  show "allocated st' = allocated st + (line_remaining st l - r)"
    using spec rem by (auto simp: st' allocated_def)
  show "\<exists>new. ps_allocations st' = ps_allocations st @ new \<and>
           (\<forall>x\<in>set new. 0 < fs_quantity x \<and> \<not> fs_isBackorder x \<and> fs_quoteLineId x = ln_id l)"
    using spec by (auto simp: st')
  show "total_avail ws (ps_stock st') p =
      total_avail ws (ps_stock st) p - (if p = ln_productId l then line_remaining st l - r else 0)"
    using take_from_avail [OF ws run] rem by (simp add: st')
qed

lemma backlog_shift:
  fixes r :: rat
  assumes "0 \<le> r" and "0 \<le> d" and "0 \<le> t"
  shows "max 0 (r - t) + max 0 (d - (t - (r - max 0 (r - t)))) = max 0 (r + d - t)"
  using assms by (auto simp: max_def)

lemma line_remaining_upd:
  "ln_id l' \<noteq> ln_id l \<Longrightarrow> ps_remainingByLine st' = (ps_remainingByLine st)(ln_id l \<mapsto> r) \<Longrightarrow>
   line_remaining st' l' = line_remaining st l'"
  by (simp add: line_remaining_def)

text \<open>The whole loop, for each product: what is still owed is the open demand that the
  warehouses cannot cover; every unit is allocated or owed.\<close>

lemma plan_lines_spec:
  assumes ws: "distinct (map wh_id ws)" and "distinct (map ln_id ls)"
    and "\<forall>l\<in>set ls. 0 \<le> line_remaining st l"
  shows "owed (ps_remainingByProduct (plan_lines f q ws ls st)) p =
           owed (ps_remainingByProduct st) p + max 0 (open_demand st ls p - total_avail ws (ps_stock st) p)
       \<and> allocated (plan_lines f q ws ls st) + sum_list (map snd (ps_remainingByProduct (plan_lines f q ws ls st))) =
           allocated st + sum_list (map snd (ps_remainingByProduct st)) + sum_list (map (line_remaining st) ls)"
  using assms(2,3)
proof (induction ls arbitrary: st)
  case Nil
  then show ?case by (simp add: open_demand_def max_absorb1)
next
  case (Cons l ls)
  let ?st = "plan_line f q ws l st"
  let ?p = "ln_productId l"
  let ?r = "max 0 (line_remaining st l - total_avail ws (ps_stock st) ?p)"
  have nn: "0 \<le> line_remaining st l" using Cons.prems by simp
  note spec = plan_line_spec [OF ws nn, where f = f and q = q]
  have keep: "line_remaining ?st l' = line_remaining st l'" if "l' \<in> set ls" for l'
  proof (rule line_remaining_upd [OF _ spec(1)])
    show "ln_id l' \<noteq> ln_id l" using that Cons.prems(1) by (metis distinct.simps(2) image_eqI list.set_map list.simps(9))
  qed
  have IH: "owed (ps_remainingByProduct (plan_lines f q ws ls ?st)) p =
      owed (ps_remainingByProduct ?st) p + max 0 (open_demand ?st ls p - total_avail ws (ps_stock ?st) p)"
    "allocated (plan_lines f q ws ls ?st) + sum_list (map snd (ps_remainingByProduct (plan_lines f q ws ls ?st))) =
      allocated ?st + sum_list (map snd (ps_remainingByProduct ?st)) + sum_list (map (line_remaining ?st) ls)"
    using Cons.IH [of ?st] Cons.prems keep by auto
  have od: "open_demand ?st ls p = open_demand st ls p"
    unfolding open_demand_def by (rule arg_cong [of _ _ sum_list], rule map_cong [OF refl]) (simp add: keep)
  have odn: "0 \<le> open_demand st ls p"
    using Cons.prems(2) unfolding open_demand_def by (intro sum_list_nonneg_map) auto
  have sm: "sum_list (map (line_remaining ?st) ls) = sum_list (map (line_remaining st) ls)"
    using keep by (simp cong: map_cong)
  have "owed (ps_remainingByProduct (plan_lines f q ws ls ?st)) p =
      owed (ps_remainingByProduct st) p + max 0 (open_demand st (l # ls) p - total_avail ws (ps_stock st) p)"
  proof (cases "p = ?p")
    case True
    have "?r + max 0 (open_demand st ls p - (total_avail ws (ps_stock st) p - (line_remaining st l - ?r)))
          = max 0 (line_remaining st l + open_demand st ls p - total_avail ws (ps_stock st) p)"
      unfolding True by (rule backlog_shift) (use nn odn in \<open>auto simp: True\<close>)
    then show ?thesis using True IH(1) spec(2,3) od by (simp add: owed_add_to open_demand_def)
  next
    case False
    then show ?thesis using IH(1) spec(2,3) od by (simp add: owed_add_to open_demand_def)
  qed
  moreover have "allocated (plan_lines f q ws ls ?st) + sum_list (map snd (ps_remainingByProduct (plan_lines f q ws ls ?st))) =
      allocated st + sum_list (map snd (ps_remainingByProduct st)) + sum_list (map (line_remaining st) (l # ls))"
    using IH(2) spec(2,4) sm by (simp add: sum_add_to)
  ultimately show ?case by simp
qed

section \<open>Manual overrides\<close>

lemma apply_override_Ok:
  assumes "apply_override f i ov st = Ok st'"
  obtains l w where "l \<in> set (pi_lines i)" "w \<in> set (pi_warehouses i)"
    "0 < ov_quantity ov" "ov_quantity ov \<le> line_remaining st l"
    "ov_quantity ov \<le> avail (ps_stock st) (wh_id w) (ln_productId l)"
    "st' = st\<lparr>ps_stock := bump_reserved (wh_id w) (ln_productId l) (ov_quantity ov) (ps_stock st),
             ps_allocations := ps_allocations st @
               [mk_split (f (length (ps_allocations st))) (pi_quoteId i) (ln_id l) w (ov_quantity ov) True],
             ps_remainingByLine := (ps_remainingByLine st)(ln_id l \<mapsto> line_remaining st l - ov_quantity ov)\<rparr>"
proof -
  from assms obtain l where l: "find (\<lambda>x. ln_id x = ov_quoteLineId ov) (pi_lines i) = Some l"
    by (auto simp: apply_override_def split: option.splits)
  with assms obtain w where w: "find (\<lambda>x. wh_id x = ov_warehouseId ov) (pi_warehouses i) = Some w"
    by (auto simp: apply_override_def split: option.splits if_splits)
  have "l \<in> set (pi_lines i)" "w \<in> set (pi_warehouses i)" using find_SomeD [OF l] find_SomeD [OF w] by auto
  with assms l w show thesis
    by (intro that [of l w]) (auto simp: apply_override_def consume_def avail_def not_le not_less split: if_splits)
qed

lemma sum_list_point:
  fixes g h :: "quote_line \<Rightarrow> rat"
  assumes "distinct (map ln_id ls)" and "l \<in> set ls"
    and "\<And>x. x \<in> set ls \<Longrightarrow> g x = h x - (if ln_id x = ln_id l then q else 0)"
  shows "sum_list (map g (filter P ls)) = sum_list (map h (filter P ls)) - (if P l then q else 0)"
  using assms
proof (induction ls)
  case (Cons x xs)
  show ?case
  proof (cases "x = l")
    case True
    then have "ln_id y \<noteq> ln_id l" if "y \<in> set xs" for y
      using Cons.prems(1) that by (metis distinct.simps(2) image_eqI list.set_map list.simps(9))
    then have eq: "\<And>y. y \<in> set xs \<Longrightarrow> g y = h y" using Cons.prems(3) by force
    have "sum_list (map g (filter P xs)) = sum_list (map h (filter P xs))"
      by (rule arg_cong [of _ _ sum_list], rule map_cong [OF refl]) (simp add: eq)
    then show ?thesis using True Cons.prems(3) [of l] by simp
  next
    case False
    then have l: "l \<in> set xs" using Cons.prems(2) by simp
    then have "ln_id x \<noteq> ln_id l"
      using Cons.prems(1) by (metis distinct.simps(2) image_eqI list.set_map list.simps(9))
    then have "g x = h x" using Cons.prems(3) by simp
    moreover have "sum_list (map g (filter P xs)) = sum_list (map h (filter P xs)) - (if P l then q else 0)"
      using Cons.IH [OF _ l] Cons.prems by simp
    ultimately show ?thesis by simp
  qed
qed simp

lemma apply_override_spec:
  assumes run: "apply_override f i ov st = Ok st'"
    and dl: "distinct (map ln_id (pi_lines i))" and dw: "distinct (map wh_id (pi_warehouses i))"
    and nn: "\<forall>l\<in>set (pi_lines i). 0 \<le> line_remaining st l"
  shows "\<forall>l\<in>set (pi_lines i). 0 \<le> line_remaining st' l"
    and "open_demand st' (pi_lines i) p - total_avail (pi_warehouses i) (ps_stock st') p =
         open_demand st (pi_lines i) p - total_avail (pi_warehouses i) (ps_stock st) p"
    and "allocated st' + sum_list (map (line_remaining st') (pi_lines i)) =
         allocated st + sum_list (map (line_remaining st) (pi_lines i))"
    and "ps_remainingByProduct st' = ps_remainingByProduct st"
proof -
  let ?q = "ov_quantity ov"
  obtain l w where lw: "l \<in> set (pi_lines i)" "w \<in> set (pi_warehouses i)" "0 < ?q" "?q \<le> line_remaining st l"
    "?q \<le> avail (ps_stock st) (wh_id w) (ln_productId l)"
    and st': "st' = st\<lparr>ps_stock := bump_reserved (wh_id w) (ln_productId l) ?q (ps_stock st),
             ps_allocations := ps_allocations st @
               [mk_split (f (length (ps_allocations st))) (pi_quoteId i) (ln_id l) w ?q True],
             ps_remainingByLine := (ps_remainingByLine st)(ln_id l \<mapsto> line_remaining st l - ?q)\<rparr>"
    using apply_override_Ok [OF run] by metis
  have pt: "line_remaining st' x = line_remaining st x - (if ln_id x = ln_id l then ?q else 0)"
    if "x \<in> set (pi_lines i)" for x
  proof (cases "ln_id x = ln_id l")
    case True
    then have "x = l" using that lw(1) dl by (metis find_unique option.inject)
    then show ?thesis by (simp add: st' line_remaining_def)
  next
    case False
    then show ?thesis by (simp add: st' line_remaining_def)
  qed
  show "\<forall>x\<in>set (pi_lines i). 0 \<le> line_remaining st' x"
  proof
    fix x assume x: "x \<in> set (pi_lines i)"
    show "0 \<le> line_remaining st' x"
    proof (cases "ln_id x = ln_id l")
      case True
      then have "x = l" using x lw(1) dl by (metis find_unique option.inject)
      then show ?thesis using pt [OF x] lw(4) by simp
    next
      case False
      then show ?thesis using pt [OF x] nn x by simp
    qed
  qed
  have od: "open_demand st' (pi_lines i) p = open_demand st (pi_lines i) p - (if ln_productId l = p then ?q else 0)"
    unfolding open_demand_def by (rule sum_list_point [OF dl lw(1)]) (rule pt)
  have ta: "total_avail (pi_warehouses i) (ps_stock st') p =
      total_avail (pi_warehouses i) (ps_stock st) p - (if ln_productId l = p then ?q else 0)"
    using total_avail_bump [OF dw, of "wh_id w" ?q] lw
    by (cases "ln_productId l = p") (auto simp: st' total_avail_bump_other_product)
  show "open_demand st' (pi_lines i) p - total_avail (pi_warehouses i) (ps_stock st') p =
      open_demand st (pi_lines i) p - total_avail (pi_warehouses i) (ps_stock st) p"
    unfolding od ta by simp
  have "sum_list (map (line_remaining st') (pi_lines i)) = sum_list (map (line_remaining st) (pi_lines i)) - ?q"
    using sum_list_point [OF dl lw(1), of "line_remaining st'" "line_remaining st" ?q "\<lambda>_. True"] pt by simp
  then show "allocated st' + sum_list (map (line_remaining st') (pi_lines i)) =
      allocated st + sum_list (map (line_remaining st) (pi_lines i))"
    by (simp add: allocated_def st' mk_split_def)
  show "ps_remainingByProduct st' = ps_remainingByProduct st" by (simp add: st')
qed

lemma apply_overrides_spec:
  assumes "apply_overrides f i ovs st = Ok st'"
    and "distinct (map ln_id (pi_lines i))" and "distinct (map wh_id (pi_warehouses i))"
    and "\<forall>l\<in>set (pi_lines i). 0 \<le> line_remaining st l"
  shows "(\<forall>l\<in>set (pi_lines i). 0 \<le> line_remaining st' l)
    \<and> open_demand st' (pi_lines i) p - total_avail (pi_warehouses i) (ps_stock st') p =
         open_demand st (pi_lines i) p - total_avail (pi_warehouses i) (ps_stock st) p
    \<and> allocated st' + sum_list (map (line_remaining st') (pi_lines i)) =
         allocated st + sum_list (map (line_remaining st) (pi_lines i))
    \<and> ps_remainingByProduct st' = ps_remainingByProduct st"
  using assms(1,4)
proof (induction ovs arbitrary: st)
  case (Cons ov ovs)
  then obtain s1 where s1: "apply_override f i ov st = Ok s1" and rest: "apply_overrides f i ovs s1 = Ok st'" by auto
  note spec = apply_override_spec [OF s1 assms(2,3) Cons.prems(2)]
  from Cons.IH [OF rest spec(1)] spec(2) [of p] spec(3,4) show ?case by simp
qed simp

section \<open>Tracking stock per warehouse and product\<close>

definition alloc_at ::
  "(string \<Rightarrow> string option) \<Rightarrow> fulfillment_split list \<Rightarrow> string \<Rightarrow> string \<Rightarrow> js_number" where
  "alloc_at pbl xs w p =
     sum_list (map fs_quantity (filter (\<lambda>x. fs_warehouseId x = w \<and> pbl (fs_quoteLineId x) = Some p) xs))"

lemma alloc_at_Nil [simp]: "alloc_at pbl [] w p = 0"
  by (simp add: alloc_at_def)

lemma alloc_at_append [simp]: "alloc_at pbl (xs @ ys) w p = alloc_at pbl xs w p + alloc_at pbl ys w p"
  by (simp add: alloc_at_def)

lemma alloc_at_Cons:
  "alloc_at pbl (x # xs) w p =
     (if fs_warehouseId x = w \<and> pbl (fs_quoteLineId x) = Some p then fs_quantity x else 0) + alloc_at pbl xs w p"
  by (simp add: alloc_at_def)

text \<open>\<open>in_place pbl st w p\<close>: free units plus units the plan holds there. No step changes it.\<close>

definition in_place :: "(string \<Rightarrow> string option) \<Rightarrow> plan_state \<Rightarrow> string \<Rightarrow> string \<Rightarrow> js_number" where
  "in_place pbl st w p = avail (ps_stock st) w p + alloc_at pbl (ps_allocations st) w p"

lemma in_place_take:
  assumes "pbl lid = Some p0" and "0 \<le> t" and "t \<le> avail (ps_stock st) (wh_id w) p0"
  shows "in_place pbl (st\<lparr>ps_stock := bump_reserved (wh_id w) p0 t (ps_stock st),
           ps_allocations := ps_allocations st @ [mk_split u q lid w t b]\<rparr>) w' p = in_place pbl st w' p"
  using assms avail_bump_same [of t "ps_stock st" "wh_id w" p0]
  by (cases "w' = wh_id w \<and> p = p0") (auto simp: in_place_def alloc_at_Cons mk_split_def avail_bump_other)

lemma take_from_in_place:
  assumes "pbl (ln_id l) = Some (ln_productId l)" and "take_from f q l ws rem st = (rem', st')"
  shows "in_place pbl st' w' p = in_place pbl st w' p"
  using assms(2)
proof (induction ws arbitrary: rem st)
  case (Cons w ws)
  let ?a = "available (row_at (ps_stock st) (wh_id w) (ln_productId l))"
  let ?t = "min rem ?a"
  let ?st = "st\<lparr>ps_stock := bump_reserved (wh_id w) (ln_productId l) ?t (ps_stock st), ps_allocations := ps_allocations st @
     [mk_split (f (length (ps_allocations st))) q (ln_id l) w ?t False]\<rparr>"
  consider "rem \<le> 0" | "0 < rem" "?t \<le> 0" | "0 < rem" "0 < ?t" by linarith
  then show ?case
  proof cases
    case 3
    have "take_from f q l ws (rem - ?t) ?st = (rem', st')" using Cons.prems take_from_go [OF 3, of f q ws] by simp
    then have "in_place pbl st' w' p = in_place pbl ?st w' p" by (rule Cons.IH)
    also have "\<dots> = in_place pbl st w' p"
      by (rule in_place_take) (use 3 assms(1) in \<open>auto simp: avail_def\<close>)
    finally show ?thesis .
  next
    case 1
    then show ?thesis using Cons.prems by simp
  next
    case 2
    then show ?thesis using Cons.IH Cons.prems take_from_skip [OF 2, of f q ws] by simp
  qed
qed simp

lemma plan_lines_in_place:
  assumes "\<forall>l\<in>set ls. pbl (ln_id l) = Some (ln_productId l)"
  shows "in_place pbl (plan_lines f q ws ls st) w p = in_place pbl st w p"
  using assms
proof (induction ls arbitrary: st)
  case (Cons l ls)
  obtain rem s2 where run: "take_from f q l (js_sort (availability_cmp (ps_stock st) (ln_productId l)) ws)
     (line_remaining st l) st = (rem, s2)" by fastforce
  then have "in_place pbl (plan_line f q ws l st) w p = in_place pbl s2 w p"
    by (simp add: plan_line_def in_place_def)
  also have "\<dots> = in_place pbl st w p" using take_from_in_place [OF _ run] Cons.prems by simp
  finally show ?case using Cons by simp
qed simp

lemma apply_overrides_in_place:
  assumes "\<forall>l\<in>set (pi_lines i). pbl (ln_id l) = Some (ln_productId l)" and "apply_overrides f i ovs st = Ok st'"
  shows "in_place pbl st' w' p = in_place pbl st w' p"
  using assms(2)
proof (induction ovs arbitrary: st)
  case (Cons ov ovs)
  then obtain s1 where s1: "apply_override f i ov st = Ok s1" and rest: "apply_overrides f i ovs s1 = Ok st'" by auto
  obtain l w where lw: "l \<in> set (pi_lines i)" "0 < ov_quantity ov"
    "ov_quantity ov \<le> avail (ps_stock st) (wh_id w) (ln_productId l)"
    "s1 = st\<lparr>ps_stock := bump_reserved (wh_id w) (ln_productId l) (ov_quantity ov) (ps_stock st),
             ps_allocations := ps_allocations st @
               [mk_split (f (length (ps_allocations st))) (pi_quoteId i) (ln_id l) w (ov_quantity ov) True],
             ps_remainingByLine := (ps_remainingByLine st)(ln_id l \<mapsto> line_remaining st l - ov_quantity ov)\<rparr>"
    using apply_override_Ok [OF s1] by metis
  have "in_place pbl s1 w' p = in_place pbl st w' p"
    using in_place_take [of pbl "ln_id l" "ln_productId l" "ov_quantity ov" st w] lw assms(1)
    by (simp add: in_place_def)
  then show ?case using Cons.IH [OF rest] by simp
qed simp

lemma productByLineId_lines:
  assumes "distinct (map ln_id ls)" and "l \<in> set ls"
  shows "productByLineId ls (ln_id l) = Some (ln_productId l)"
proof -
  have "distinct (map fst (rev (map (\<lambda>l. (ln_id l, ln_productId l)) ls)))"
    using assms(1) by (simp add: rev_map [symmetric] comp_def)
  then show ?thesis using assms(2) by (auto simp: productByLineId_def intro!: map_of_is_SomeI)
qed

section \<open>The plan as a whole\<close>

definition demand :: "quote_line list \<Rightarrow> string \<Rightarrow> js_number" where
  "demand ls p = sum_list (map ln_quantity (filter (\<lambda>l. ln_productId l = p) ls))"

definition backordered :: "backorder list \<Rightarrow> string \<Rightarrow> js_number" where
  "backordered bs p = sum_list (map bo_quantity (filter (\<lambda>b. bo_productId b = p) bs))"

text \<open>Well-formed planning input: line and warehouse identifiers are unique (they are primary
  keys) and no line has a negative quantity.\<close>

definition plan_input_ok :: "plan_input \<Rightarrow> bool" where
  "plan_input_ok i \<longleftrightarrow> distinct (map ln_id (pi_lines i)) \<and> distinct (map wh_id (pi_warehouses i)) \<and>
     (\<forall>l\<in>set (pi_lines i). 0 \<le> ln_quantity l)"

definition tables_ok :: "string set \<Rightarrow> plan_state \<Rightarrow> bool" where
  "tables_ok K st \<longleftrightarrow> distinct (map fst (ps_remainingByProduct st)) \<and>
     (\<forall>x\<in>set (ps_remainingByProduct st). 0 \<le> snd x) \<and>
     (\<forall>x\<in>set (ps_allocations st). 0 < fs_quantity x \<and> \<not> fs_isBackorder x \<and> fs_quoteLineId x \<in> K)"

lemma plan_line_tables:
  assumes "distinct (map wh_id ws)" and "0 \<le> line_remaining st l" and "tables_ok K st" and "ln_id l \<in> K"
  shows "tables_ok K (plan_line f q ws l st)"
proof -
  note spec = plan_line_spec [OF assms(1,2), where f = f and q = q]
  have "\<forall>x\<in>set (ps_remainingByProduct (plan_line f q ws l st)). 0 \<le> snd x"
    unfolding spec(2) by (rule nonneg_add_to) (use assms(3) in \<open>auto simp: tables_ok_def\<close>)
  then show ?thesis using assms(3,4) spec(2,5) by (auto simp: tables_ok_def distinct_add_to)
qed

lemma plan_lines_tables:
  assumes "distinct (map wh_id ws)" and "distinct (map ln_id ls)" and "\<forall>l\<in>set ls. 0 \<le> line_remaining st l"
    and "tables_ok K st" and "ln_id ` set ls \<subseteq> K"
  shows "tables_ok K (plan_lines f q ws ls st)"
  using assms(2-5)
proof (induction ls arbitrary: st)
  case (Cons l ls)
  let ?st = "plan_line f q ws l st"
  have nn: "0 \<le> line_remaining st l" using Cons.prems by simp
  note spec = plan_line_spec [OF assms(1) nn, where f = f and q = q]
  have keep: "line_remaining ?st l' = line_remaining st l'" if "l' \<in> set ls" for l'
  proof (rule line_remaining_upd [OF _ spec(1)])
    show "ln_id l' \<noteq> ln_id l" using that Cons.prems(1) by (metis distinct.simps(2) image_eqI list.set_map list.simps(9))
  qed
  have "tables_ok K ?st" using plan_line_tables [OF assms(1) nn] Cons.prems by simp
  moreover have "\<forall>l\<in>set ls. 0 \<le> line_remaining ?st l" using keep Cons.prems(2) by simp
  ultimately show ?case using Cons.IH Cons.prems(1,4) by simp
qed simp

lemma apply_overrides_tables:
  assumes "apply_overrides f i ovs st = Ok st'" and "tables_ok K st" and "ln_id ` set (pi_lines i) \<subseteq> K"
  shows "tables_ok K st'"
  using assms(1,2)
proof (induction ovs arbitrary: st)
  case (Cons ov ovs)
  then obtain s1 where s1: "apply_override f i ov st = Ok s1" and rest: "apply_overrides f i ovs s1 = Ok st'" by auto
  obtain l w where lw: "0 < ov_quantity ov" "l \<in> set (pi_lines i)"
    "s1 = st\<lparr>ps_stock := bump_reserved (wh_id w) (ln_productId l) (ov_quantity ov) (ps_stock st),
             ps_allocations := ps_allocations st @
               [mk_split (f (length (ps_allocations st))) (pi_quoteId i) (ln_id l) w (ov_quantity ov) True],
             ps_remainingByLine := (ps_remainingByLine st)(ln_id l \<mapsto> line_remaining st l - ov_quantity ov)\<rparr>"
    using apply_override_Ok [OF s1] by metis
  have "tables_ok K s1" using Cons.prems(2) lw(1,2) assms(3) unfolding lw(3) by (auto simp: tables_ok_def mk_split_def)
  then show ?case using Cons.IH rest by simp
qed simp

lemma plan_run_facts:
  assumes run: "plan_run lc f i = Ok st" and ok: "plan_input_ok i"
  shows "owed (ps_remainingByProduct st) p = max 0 (demand (pi_lines i) p - total_avail (pi_warehouses i) (pi_stock i) p)"
    and "allocated st + sum_list (map snd (ps_remainingByProduct st)) = sum_list (map ln_quantity (pi_lines i))"
    and "tables_ok (ln_id ` set (pi_lines i)) st"
    and "in_place (productByLineId (pi_lines i)) st w p = avail (pi_stock i) w p"
proof -
  let ?ws = "js_sort (warehouse_cmp lc) (pi_warehouses i)"
  obtain s1 where s1: "apply_overrides f i (pi_overrides i) (initial_plan i) = Ok s1"
    and st: "st = plan_lines f (pi_quoteId i) ?ws (pi_lines i) s1"
    using run by (auto simp: plan_run_def)
  have dl: "distinct (map ln_id (pi_lines i))" and dw: "distinct (map wh_id (pi_warehouses i))"
    and q: "\<forall>l\<in>set (pi_lines i). 0 \<le> line_remaining (initial_plan i) l"
    using ok by (auto simp: plan_input_ok_def initial_plan_def line_remaining_def)
  have lr: "line_remaining (initial_plan i) = ln_quantity"
    by (simp add: initial_plan_def line_remaining_def fun_eq_iff)
  have init: "ps_stock (initial_plan i) = pi_stock i" "ps_remainingByProduct (initial_plan i) = []"
    "allocated (initial_plan i) = 0"
    by (simp_all add: initial_plan_def allocated_def)
  note ovs = apply_overrides_spec [OF s1 dl dw q]
  have nn: "\<forall>l\<in>set (pi_lines i). 0 \<le> line_remaining s1 l" using ovs by blast
  have dws: "distinct (map wh_id ?ws)" using dw by simp
  note lines = plan_lines_spec [OF dws dl nn, of f "pi_quoteId i"]
  have od0: "open_demand (initial_plan i) (pi_lines i) p = demand (pi_lines i) p" for p
    by (simp add: open_demand_def demand_def lr)
  have diff: "open_demand s1 (pi_lines i) p - total_avail (pi_warehouses i) (ps_stock s1) p =
      demand (pi_lines i) p - total_avail (pi_warehouses i) (pi_stock i) p"
    using ovs [of p] by (simp add: od0 init)
  show "owed (ps_remainingByProduct st) p = max 0 (demand (pi_lines i) p - total_avail (pi_warehouses i) (pi_stock i) p)"
    using lines [of p] ovs diff by (simp add: st init)
  show "allocated st + sum_list (map snd (ps_remainingByProduct st)) = sum_list (map ln_quantity (pi_lines i))"
    using lines ovs by (simp add: st lr init)
  have "tables_ok (ln_id ` set (pi_lines i)) s1"
    by (rule apply_overrides_tables [OF s1]) (simp_all add: tables_ok_def initial_plan_def)
  then show "tables_ok (ln_id ` set (pi_lines i)) st" unfolding st by (intro plan_lines_tables dws dl nn) auto
  let ?pbl = "productByLineId (pi_lines i)"
  have pbl: "\<forall>l\<in>set (pi_lines i). ?pbl (ln_id l) = Some (ln_productId l)"
    using productByLineId_lines [OF dl] by blast
  have "in_place ?pbl st w p = in_place ?pbl (initial_plan i) w p"
    unfolding st using plan_lines_in_place [OF pbl] apply_overrides_in_place [OF pbl s1] by simp
  then show "in_place ?pbl st w p = avail (pi_stock i) w p" by (simp add: in_place_def initial_plan_def)
qed

lemma backordered_owed:
  assumes "distinct (map fst m)" and "\<forall>x\<in>set m. 0 \<le> snd x"
  shows "sum_list (map snd (filter (\<lambda>x. 0 < snd x \<and> fst x = p) m)) = owed m p"
  using assms
proof (induction m)
  case (Cons x m)
  have "p \<notin> fst ` set m \<Longrightarrow> filter (\<lambda>x. 0 < snd x \<and> fst x = p) m = []" by (auto simp: filter_empty_conv)
  then show ?case using Cons by (cases x) auto
qed simp

lemma sum_positive_part:
  fixes m :: "('a \<times> rat) list"
  assumes "\<forall>x\<in>set m. 0 \<le> snd x"
  shows "sum_list (map snd (filter (\<lambda>x. 0 < snd x) m)) = sum_list (map snd m)"
  using assms by (induction m) auto

lemma map_snd_enumerate_filter: "map (\<lambda>x. h (snd x)) (enumerate n xs) = map h xs"
  by (metis map_map comp_def map_snd_enumerate list.map_cong0)

lemma plan_backorders_quantities:
  "map bo_quantity (plan_backorders f q st) = map snd (filter (\<lambda>x. 0 < snd x) (ps_remainingByProduct st))"
  "map (\<lambda>b. (bo_productId b, bo_quantity b)) (plan_backorders f q st) = filter (\<lambda>x. 0 < snd x) (ps_remainingByProduct st)"
  using map_snd_enumerate_filter [of "\<lambda>x. x"] map_snd_enumerate_filter [of snd]
  by (simp_all add: plan_backorders_def comp_def case_prod_unfold)

lemma backordered_eq:
  "backordered bs p = sum_list (map snd (filter (\<lambda>x. fst x = p) (map (\<lambda>b. (bo_productId b, bo_quantity b)) bs)))"
  by (induction bs) (auto simp: backordered_def)

lemma planFulfillment_Ok:
  assumes "planFulfillment lc f i = Ok plan"
  obtains st where "plan_run lc f i = Ok st" "fp_allocations plan = ps_allocations st"
    "fp_backorders plan = plan_backorders f (pi_quoteId i) st"
    "fp_backorderQuantity plan = sum_list (map bo_quantity (fp_backorders plan))"
  using assms by (auto simp: planFulfillment_def Let_def)

lemma plan_backordered:
  assumes "planFulfillment lc f i = Ok plan" and ok: "plan_input_ok i"
  shows "backordered (fp_backorders plan) p = max 0 (demand (pi_lines i) p - total_avail (pi_warehouses i) (pi_stock i) p)"
proof -
  obtain st where st: "plan_run lc f i = Ok st" and bo: "fp_backorders plan = plan_backorders f (pi_quoteId i) st"
    using planFulfillment_Ok [OF assms(1)] by metis
  have t: "distinct (map fst (ps_remainingByProduct st))" "\<forall>x\<in>set (ps_remainingByProduct st). 0 \<le> snd x"
    using plan_run_facts(3) [OF st ok] by (auto simp: tables_ok_def)
  have "backordered (fp_backorders plan) p = owed (ps_remainingByProduct st) p"
    unfolding bo backordered_eq plan_backorders_quantities(2) using backordered_owed [OF t, of p]
    by (simp add: conj_commute)
  then show ?thesis using plan_run_facts(1) [OF st ok] by simp
qed

lemma plan_units:
  assumes "planFulfillment lc f i = Ok plan" and ok: "plan_input_ok i"
  shows "sum_list (map fs_quantity (fp_allocations plan)) + fp_backorderQuantity plan =
    sum_list (map ln_quantity (pi_lines i))"
proof -
  obtain st where st: "plan_run lc f i = Ok st" "fp_allocations plan = ps_allocations st"
    "fp_backorders plan = plan_backorders f (pi_quoteId i) st"
    "fp_backorderQuantity plan = sum_list (map bo_quantity (fp_backorders plan))"
    using planFulfillment_Ok [OF assms(1)] by metis
  have "\<forall>x\<in>set (ps_remainingByProduct st). 0 \<le> snd x" using plan_run_facts(3) [OF st(1) ok] by (auto simp: tables_ok_def)
  then show ?thesis using plan_run_facts(2) [OF st(1) ok]
    by (simp add: st plan_backorders_quantities sum_positive_part allocated_def)
qed

lemma plan_allocations_ok:
  assumes "planFulfillment lc f i = Ok plan" and ok: "plan_input_ok i"
  shows "\<forall>x\<in>set (fp_allocations plan). 0 < fs_quantity x \<and> \<not> fs_isBackorder x \<and>
           productByLineId (pi_lines i) (fs_quoteLineId x) \<noteq> None"
    and "alloc_at (productByLineId (pi_lines i)) (fp_allocations plan) w p \<le> avail (pi_stock i) w p"
proof -
  obtain st where st: "plan_run lc f i = Ok st" "fp_allocations plan = ps_allocations st"
    using planFulfillment_Ok [OF assms(1)] by metis
  have "distinct (map ln_id (pi_lines i))" using ok by (simp add: plan_input_ok_def)
  then show "\<forall>x\<in>set (fp_allocations plan). 0 < fs_quantity x \<and> \<not> fs_isBackorder x \<and>
           productByLineId (pi_lines i) (fs_quoteLineId x) \<noteq> None"
    using plan_run_facts(3) [OF st(1) ok] productByLineId_lines by (fastforce simp: st tables_ok_def)
  show "alloc_at (productByLineId (pi_lines i)) (fp_allocations plan) w p \<le> avail (pi_stock i) w p"
    using plan_run_facts(4) [OF st(1) ok, of w p] avail_nonneg [of "ps_stock st" w p]
    unfolding in_place_def st(2) by linarith
qed

section \<open>Reserving and releasing\<close>

definition reserved_at :: "stock_level list \<Rightarrow> string \<Rightarrow> string \<Rightarrow> js_number" where
  "reserved_at s w p = (case row_at s w p of None \<Rightarrow> 0 | Some r \<Rightarrow> st_reserved r)"

definition reservable :: "(string \<Rightarrow> string option) \<Rightarrow> fulfillment_split list \<Rightarrow> bool" where
  "reservable pbl xs \<longleftrightarrow> (\<forall>x\<in>set xs. 0 < fs_quantity x \<and> \<not> fs_isBackorder x \<and> pbl (fs_quoteLineId x) \<noteq> None)"

lemma reservable_Cons [simp]:
  "reservable pbl (x # xs) \<longleftrightarrow> 0 < fs_quantity x \<and> \<not> fs_isBackorder x \<and> pbl (fs_quoteLineId x) \<noteq> None \<and> reservable pbl xs"
  by (auto simp: reservable_def)

lemma alloc_at_nonneg: "reservable pbl xs \<Longrightarrow> 0 \<le> alloc_at pbl xs w p"
  by (induction xs) (auto simp: alloc_at_Cons)

lemma set_reserved_shift:
  assumes "0 \<le> reserved_at s w p + d"
  shows "set_reserved w (Some p) (\<lambda>r. max 0 (r + d)) s = bump_reserved w p d s"
  using assms by (induction s) (auto simp: set_reserved_def bump_reserved_def reserved_at_def row_at_def)

lemma reserved_at_bump:
  "row_at s w p \<noteq> None \<Longrightarrow>
   reserved_at (bump_reserved w p d s) w' p' = reserved_at s w' p' + (if w' = w \<and> p' = p then d else 0)"
  by (auto simp: reserved_at_def row_at_bump)

lemma avail_pos_row: "0 < avail s w p \<Longrightarrow> row_at s w p \<noteq> None"
  by (cases "row_at s w p") (auto simp: avail_def available_def)

lemma reserve_one_bump:
  assumes "reservable pbl [x]" and "pbl (fs_quoteLineId x) = Some p" and "0 \<le> reserved_at s (fs_warehouseId x) p"
    and "fs_quantity x \<le> avail s (fs_warehouseId x) p"
  shows "reserve_one pbl x s = Ok (bump_reserved (fs_warehouseId x) p (fs_quantity x) s)"
proof -
  obtain r where r: "row_at s (fs_warehouseId x) p = Some r" using avail_pos_row assms(1,4) by (fastforce simp: reservable_def)
  have "st_reserved r + fs_quantity x \<le> st_quantityOnHand r"
    using assms(1,4) r by (auto simp: avail_def available_def reservable_def max_def split: if_splits)
  then have "st_reserved r + fs_quantity x \<le> st_quantityOnHand r + 1 / 10 ^ 9" by simp
  then show ?thesis using assms r set_reserved_shift [of s "fs_warehouseId x" p "fs_quantity x"]
    by (simp add: reserve_one_def mutate_def stock_row_def row_at_bump reservable_def)
qed

text \<open>Reserving splits that fit the free stock never throws, and raises the reservation of every
  row by exactly what the splits take there.\<close>

lemma reserve_next_fits:
  assumes "reservable pbl xs" and "\<And>w p. alloc_at pbl xs w p \<le> avail s w p" and "\<And>w p. 0 \<le> reserved_at s w p"
  shows "\<exists>s'. reserve_next pbl xs s = Ok s' \<and>
    (\<forall>w p. row_at s' w p = map_option (\<lambda>r. r\<lparr>st_reserved := st_reserved r + alloc_at pbl xs w p\<rparr>) (row_at s w p))"
  using assms
proof (induction xs arbitrary: s)
  case Nil
  then show ?case by (simp add: option.map_ident)
next
  case (Cons x xs)
  obtain p0 where p0: "pbl (fs_quoteLineId x) = Some p0" using Cons.prems(1) by auto
  let ?w = "fs_warehouseId x" and ?q = "fs_quantity x"
  let ?s = "bump_reserved ?w p0 ?q s"
  have res: "reservable pbl xs" and q: "0 < ?q" using Cons.prems(1) by auto
  have fit: "?q \<le> avail s ?w p0"
    using Cons.prems(2) [of ?w p0] alloc_at_nonneg [OF res, of ?w p0] p0 by (simp add: alloc_at_Cons)
  have one: "reserve_one pbl x s = Ok ?s"
    by (rule reserve_one_bump) (use Cons.prems p0 fit in \<open>auto simp: reservable_def\<close>)
  have row: "row_at s ?w p0 \<noteq> None" using avail_pos_row fit q by fastforce
  have "\<exists>s'. reserve_next pbl xs ?s = Ok s' \<and>
    (\<forall>w p. row_at s' w p = map_option (\<lambda>r. r\<lparr>st_reserved := st_reserved r + alloc_at pbl xs w p\<rparr>) (row_at ?s w p))"
  proof (rule Cons.IH [OF res])
    show "alloc_at pbl xs w p \<le> avail ?s w p" for w p
    proof (cases "w = ?w \<and> p = p0")
      case True
      then show ?thesis using Cons.prems(2) [of w p] avail_bump_same [OF _ fit] q p0 by (simp add: alloc_at_Cons)
    next
      case False
      then show ?thesis using Cons.prems(2) [of w p] p0 by (auto simp: alloc_at_Cons avail_bump_other split: if_splits)
    qed
    show "0 \<le> reserved_at ?s w p" for w p
      using Cons.prems(3) [of w p] q by (simp add: reserved_at_bump [OF row])
  qed
  then obtain s' where s': "reserve_next pbl xs ?s = Ok s'"
    "\<And>w p. row_at s' w p = map_option (\<lambda>r. r\<lparr>st_reserved := st_reserved r + alloc_at pbl xs w p\<rparr>) (row_at ?s w p)"
    by blast
  have "row_at s' w p = map_option (\<lambda>r. r\<lparr>st_reserved := st_reserved r + alloc_at pbl (x # xs) w p\<rparr>) (row_at s w p)" for w p
    by (cases "row_at s w p") (auto simp: s'(2) row_at_bump alloc_at_Cons p0 add.assoc)
  then show ?case using one s'(1) by simp
qed

text \<open>Releasing splits whose units are reserved gives exactly those units back.\<close>

lemma release_previous_gives_back:
  assumes "reservable pbl xs" and "\<And>w p. alloc_at pbl xs w p \<le> reserved_at s w p"
  shows "\<exists>s'. release_previous pbl xs s = Ok s' \<and>
    (\<forall>w p. row_at s' w p = map_option (\<lambda>r. r\<lparr>st_reserved := st_reserved r - alloc_at pbl xs w p\<rparr>) (row_at s w p))"
  using assms
proof (induction xs arbitrary: s)
  case Nil
  then show ?case by (simp add: option.map_ident)
next
  case (Cons x xs)
  obtain p0 where p0: "pbl (fs_quoteLineId x) = Some p0" using Cons.prems(1) by auto
  let ?w = "fs_warehouseId x" and ?q = "fs_quantity x"
  let ?s = "bump_reserved ?w p0 (- ?q) s"
  have res: "reservable pbl xs" and q: "0 < ?q" using Cons.prems(1) by auto
  have fit: "?q \<le> reserved_at s ?w p0"
    using Cons.prems(2) [of ?w p0] alloc_at_nonneg [OF res, of ?w p0] p0 by (simp add: alloc_at_Cons)
  then have row: "row_at s ?w p0 \<noteq> None" using q by (cases "row_at s ?w p0") (auto simp: reserved_at_def)
  have one: "mutate pbl x (- ?q) s = Ok ?s"
    using Cons.prems(1) p0 row fit set_reserved_shift [of s ?w p0 "- ?q"] by (auto simp: mutate_def stock_row_def)
  have "\<exists>s'. release_previous pbl xs ?s = Ok s' \<and>
    (\<forall>w p. row_at s' w p = map_option (\<lambda>r. r\<lparr>st_reserved := st_reserved r - alloc_at pbl xs w p\<rparr>) (row_at ?s w p))"
  proof (rule Cons.IH [OF res])
    show "alloc_at pbl xs w p \<le> reserved_at ?s w p" for w p
      using Cons.prems(2) [of w p] p0 by (auto simp: alloc_at_Cons reserved_at_bump [OF row] split: if_splits)
  qed
  then obtain s' where s': "release_previous pbl xs ?s = Ok s'"
    "\<And>w p. row_at s' w p = map_option (\<lambda>r. r\<lparr>st_reserved := st_reserved r - alloc_at pbl xs w p\<rparr>) (row_at ?s w p)"
    by blast
  have "row_at s' w p = map_option (\<lambda>r. r\<lparr>st_reserved := st_reserved r - alloc_at pbl (x # xs) w p\<rparr>) (row_at s w p)" for w p
    by (cases "row_at s w p") (auto simp: s'(2) row_at_bump alloc_at_Cons p0)
  then show ?case using one s'(1) by simp
qed

lemma reserve_release_rows:
  assumes "reservable pbl xs" and "\<And>w p. alloc_at pbl xs w p \<le> avail s w p" and "\<And>w p. 0 \<le> reserved_at s w p"
  shows "\<exists>s' s''. reserveStock s pbl [] xs = Ok s' \<and> reserveStock s' pbl xs [] = Ok s'' \<and>
    (\<forall>w p. row_at s'' w p = row_at s w p)"
proof -
  obtain s' where s': "reserve_next pbl xs s = Ok s'"
    "\<And>w p. row_at s' w p = map_option (\<lambda>r. r\<lparr>st_reserved := st_reserved r + alloc_at pbl xs w p\<rparr>) (row_at s w p)"
    using reserve_next_fits [OF assms] by blast
  have "alloc_at pbl xs w p \<le> reserved_at s' w p" for w p
  proof (cases "row_at s w p")
    case None
    then show ?thesis using assms(2) [of w p] by (simp add: reserved_at_def s' avail_def available_def)
  next
    case (Some r)
    then show ?thesis using assms(3) [of w p] by (simp add: reserved_at_def s')
  qed
  then obtain s'' where s'': "release_previous pbl xs s' = Ok s''"
    "\<And>w p. row_at s'' w p = map_option (\<lambda>r. r\<lparr>st_reserved := st_reserved r - alloc_at pbl xs w p\<rparr>) (row_at s' w p)"
    using release_previous_gives_back [OF assms(1), of s'] by blast
  have "row_at s'' w p = row_at s w p" for w p
    by (cases "row_at s w p") (simp_all add: s''(2) s'(2))
  then show ?thesis using s'(1) s''(1) by (simp add: reserveStock_def)
qed

section \<open>The stock invariant\<close>

definition row_ok :: "stock_level \<Rightarrow> bool" where
  "row_ok r \<longleftrightarrow> 0 \<le> st_reserved r \<and> 0 \<le> st_quantityOnHand r \<and> st_reserved r \<le> st_quantityOnHand r + 1 / 10 ^ 9"

definition stock_ok :: "stock_level list \<Rightarrow> bool" where
  "stock_ok s \<longleftrightarrow> (\<forall>r\<in>set s. row_ok r)"

lemma stock_ok_row: "stock_ok s \<Longrightarrow> find P s = Some r \<Longrightarrow> row_ok r"
  by (auto simp: stock_ok_def dest: find_SomeD)

lemma stock_ok_reserved: "stock_ok s \<Longrightarrow> 0 \<le> reserved_at s w p"
  by (auto simp: row_ok_def reserved_at_def row_at_def split: option.splits dest: stock_ok_row)

lemma stock_ok_update_first:
  assumes "stock_ok s" and f: "\<And>r. find P s = Some r \<Longrightarrow> row_ok r \<Longrightarrow> row_ok (f r)"
  shows "stock_ok (update_first P f s)"
proof -
  have "r \<in> set s \<or> (\<exists>r0. find P s = Some r0 \<and> r = f r0)" if "r \<in> set (update_first P f s)" for r
    using that by (induction s) (auto split: if_splits)
  then show ?thesis unfolding stock_ok_def using assms stock_ok_row [OF assms(1)] by (metis stock_ok_def)
qed

lemma row_ok_release: "row_ok r \<Longrightarrow> d \<le> 0 \<Longrightarrow> row_ok (r\<lparr>st_reserved := max 0 (st_reserved r + d)\<rparr>)"
  unfolding row_ok_def by simp

lemma row_ok_consume:
  "row_ok r \<Longrightarrow> 0 \<le> q \<Longrightarrow> row_ok (r\<lparr>st_quantityOnHand := max 0 (st_quantityOnHand r - q), st_reserved := max 0 (st_reserved r - q)\<rparr>)"
  unfolding row_ok_def by (simp add: max_def)

lemma mutate_release_ok:
  assumes "mutate pbl x d s = Ok s'" and "d \<le> 0" and "stock_ok s"
  shows "stock_ok s'"
proof -
  have "stock_ok (set_reserved w p (\<lambda>r. max 0 (r + d)) s)" for w p
    using assms(2,3) by (cases p) (simp_all add: set_reserved_def stock_ok_update_first row_ok_release)
  then show ?thesis using assms(1,3) by (auto simp: mutate_def Let_def split: if_splits)
qed

lemma release_previous_ok:
  "release_previous pbl xs s = Ok s' \<Longrightarrow> \<forall>x\<in>set xs. 0 \<le> fs_quantity x \<Longrightarrow> stock_ok s \<Longrightarrow> stock_ok s'"
  by (induction xs arbitrary: s) (auto dest: mutate_release_ok)

lemma find_set_reserved:
  "row_at (set_reserved w (Some p) f s) w p = map_option (\<lambda>r. r\<lparr>st_reserved := f (st_reserved r)\<rparr>) (row_at s w p)"
  by (induction s) (auto simp: set_reserved_def row_at_def)

lemma reserve_one_ok:
  assumes "reserve_one pbl x s = Ok s'" and "stock_ok s"
  shows "stock_ok s'"
proof (cases "fs_isBackorder x")
  case True
  then show ?thesis using assms by (auto simp: reserve_one_def mutate_def Let_def split: option.splits if_splits)
next
  case False
  then obtain p where p: "pbl (fs_quoteLineId x) = Some p"
    using assms(1) by (cases "pbl (fs_quoteLineId x)") (auto simp: reserve_one_def mutate_def stock_row_def)
  obtain r where r: "row_at s (fs_warehouseId x) p = Some r"
    using assms(1) False p by (cases "row_at s (fs_warehouseId x) p") (auto simp: reserve_one_def mutate_def stock_row_def)
  let ?r = "max 0 (st_reserved r + fs_quantity x)"
  have s': "s' = set_reserved (fs_warehouseId x) (Some p) (\<lambda>r. max 0 (r + fs_quantity x)) s"
    and b: "?r \<le> st_quantityOnHand r + 1 / 10 ^ 9"
    using assms(1) False p r
    by (auto simp: reserve_one_def mutate_def stock_row_def find_set_reserved Let_def not_less split: if_splits)
  show ?thesis
    unfolding s' set_reserved_def option.case
    by (rule stock_ok_update_first [OF assms(2)]) (use b r in \<open>auto simp: row_at_def row_ok_def\<close>)
qed

lemma reserve_next_ok: "reserve_next pbl xs s = Ok s' \<Longrightarrow> stock_ok s \<Longrightarrow> stock_ok s'"
  by (induction xs arbitrary: s) (auto dest: reserve_one_ok)

lemma reserveStock_stock_ok:
  "reserveStock s pbl prev nxt = Ok s' \<Longrightarrow> \<forall>x\<in>set prev. 0 \<le> fs_quantity x \<Longrightarrow> stock_ok s \<Longrightarrow> stock_ok s'"
  by (auto simp: reserveStock_def dest: release_previous_ok reserve_next_ok)

lemma consume_split_ok:
  assumes "consume_split pbl x s = Ok s'" and "0 \<le> fs_quantity x" and "stock_ok s"
  shows "stock_ok s'"
proof -
  have "stock_ok (update_first (\<lambda>i. st_warehouseId i = fs_warehouseId x \<and> st_productId i = p)
      (\<lambda>r. r\<lparr>st_quantityOnHand := max 0 (st_quantityOnHand r - fs_quantity x),
            st_reserved := max 0 (st_reserved r - fs_quantity x)\<rparr>) s)" for p
    using assms(2,3) by (intro stock_ok_update_first row_ok_consume)
  then show ?thesis using assms(1,3) by (auto simp: consume_split_def split: if_splits option.splits)
qed

lemma consumeStockOnConfirm_ok:
  "consumeStockOnConfirm pbl xs s = Ok s' \<Longrightarrow> \<forall>x\<in>set xs. 0 \<le> fs_quantity x \<Longrightarrow> stock_ok s \<Longrightarrow> stock_ok s'"
  by (induction xs arbitrary: s) (auto dest: consume_split_ok)

section \<open>Properties\<close>

definition sample_input :: plan_input where
  "sample_input = \<lparr>pi_quoteId = ''q1'', pi_lines = [sample_line ''l1'' ''p1'' 10 5 0],
     pi_warehouses = [sample_warehouse ''w1'' 2, sample_warehouse ''w2'' 1],
     pi_stock = [sample_stock ''w1'' ''p1'' 6 2, sample_stock ''w2'' ''p1'' 3 0],
     pi_overrides = [\<lparr>ov_quoteLineId = ''l1'', ov_warehouseId = ''w2'', ov_quantity = 1\<rparr>]\<rparr>"

definition sample_plan :: fulfillment_plan where
  "sample_plan = projr (planFulfillment (\<lambda>_ _. 0) (\<lambda>_. ''u'') sample_input)"

lemma sample_plan_run: "planFulfillment (\<lambda>_ _. 0) (\<lambda>_. ''u'') sample_input = Ok sample_plan"
  by code_simp

lemma sample_input_ok: "plan_input_ok sample_input"
  by code_simp

lemma sample_input_stock_ok: "stock_ok (pi_stock sample_input)"
  by code_simp

text \<open>The plan is a maximal fill: for every product, what a successful plan puts on backorder
  is exactly the demand of the lines beyond the free units of all warehouses (zero when the
  warehouses cover it), whatever manual overrides were applied.\<close>

theorem plan_maximal_fill:
  assumes "planFulfillment lc fresh input = Ok plan" and "plan_input_ok input"
  shows "backordered (fp_backorders plan) p =
    max 0 (demand (pi_lines input) p - total_avail (pi_warehouses input) (pi_stock input) p)"
  using assms by (rule plan_backordered)

theorem plan_maximal_fill_witness: "backordered (fp_backorders sample_plan) ''p1'' = 3"
proof -
  have "max 0 (demand (pi_lines sample_input) ''p1'' - total_avail (pi_warehouses sample_input) (pi_stock sample_input) ''p1'') = 3"
    by code_simp
  then show ?thesis using plan_maximal_fill [OF sample_plan_run sample_input_ok, of "''p1''"] by simp
qed

text \<open>C19: A plan conserves units and never oversells: allocated plus backordered units are the
  units of the lines, every split is positive, and no warehouse row is allocated beyond its free
  units.\<close>

theorem plan_conserves_and_fits:
  assumes "planFulfillment lc fresh input = Ok plan" and "plan_input_ok input"
  shows "sum_list (map fs_quantity (fp_allocations plan)) + fp_backorderQuantity plan =
      sum_list (map ln_quantity (pi_lines input)) \<and>
    (\<forall>x\<in>set (fp_allocations plan). 0 < fs_quantity x) \<and>
    alloc_at (productByLineId (pi_lines input)) (fp_allocations plan) w p \<le> avail (pi_stock input) w p"
  using plan_units [OF assms] plan_allocations_ok [OF assms] by blast

theorem plan_conserves_and_fits_witness:
  "sum_list (map fs_quantity (fp_allocations sample_plan)) + fp_backorderQuantity sample_plan = 10"
proof -
  have "sum_list (map ln_quantity (pi_lines sample_input)) = 10" by code_simp
  then show ?thesis using plan_conserves_and_fits [OF sample_plan_run sample_input_ok] by simp
qed

text \<open>C20: A fresh plan can always be reserved against the stock it was computed from, and
  reserving it and then releasing it restores every stock row.\<close>

theorem plan_reserve_release_roundtrip:
  assumes "planFulfillment lc fresh input = Ok plan" and "plan_input_ok input" and "stock_ok (pi_stock input)"
  shows "\<exists>s' s''. reserveStock (pi_stock input) (productByLineId (pi_lines input)) [] (fp_allocations plan) = Ok s' \<and>
    reserveStock s' (productByLineId (pi_lines input)) (fp_allocations plan) [] = Ok s'' \<and>
    (\<forall>w p. row_at s'' w p = row_at (pi_stock input) w p)"
  by (rule reserve_release_rows)
    (use plan_allocations_ok [OF assms(1,2)] stock_ok_reserved [OF assms(3)] in \<open>auto simp: reservable_def\<close>)

theorem plan_reserve_release_roundtrip_witness:
  "\<exists>s' s''. reserveStock (pi_stock sample_input) (productByLineId (pi_lines sample_input)) [] (fp_allocations sample_plan) = Ok s' \<and>
    reserveStock s' (productByLineId (pi_lines sample_input)) (fp_allocations sample_plan) [] = Ok s''"
  using plan_reserve_release_roundtrip [OF sample_plan_run sample_input_ok sample_input_stock_ok] by blast

text \<open>C21: Every successful reservation change and every successful consumption keeps the stock
  table sound: no negative reservation or on-hand quantity, and never more reserved than on hand
  (up to the engine's tolerance of 1e-9).\<close>

theorem stock_invariant:
  assumes "stock_ok s" and "\<forall>x\<in>set prev. 0 \<le> fs_quantity x"
  shows "(\<forall>s'. reserveStock s pbl prev nxt = Ok s' \<longrightarrow> stock_ok s') \<and>
    (\<forall>s'. consumeStockOnConfirm pbl prev s = Ok s' \<longrightarrow> stock_ok s')"
  using assms reserveStock_stock_ok consumeStockOnConfirm_ok by blast

theorem stock_invariant_witness:
  "\<exists>s'. reserveStock (pi_stock sample_input) (productByLineId (pi_lines sample_input)) [] (fp_allocations sample_plan) = Ok s' \<and>
     stock_ok s'"
proof -
  let ?r = "reserveStock (pi_stock sample_input) (productByLineId (pi_lines sample_input)) [] (fp_allocations sample_plan)"
  have "?r = Ok (projr ?r)" by code_simp
  then show ?thesis
    using stock_invariant [OF sample_input_stock_ok, of "[]" "productByLineId (pi_lines sample_input)"] by auto
qed

end
