(* ===== verification/Dealflow_Governance.thy ===== *)
theory Dealflow_Governance
  imports Dealflow_Pricing Dealflow_Strings Dealflow_Samples
begin

text \<open>
  \<open>governance-config.ts\<close>: the validation of the governance tables an administrator writes. The
  numbers of the model are finite, so the \<open>Number.isFinite\<close> tests are true, and an adjustment kind or
  exceed action outside the enumeration cannot be written; every other guard is a branch.
\<close>

section \<open>Definitions\<close>

text \<open>One item of \<open>items.map((item, index) => ...)\<close>.\<close>

definition normalize_break :: "nat \<times> quantity_break \<Rightarrow> quantity_break result" where
  "normalize_break ii = (let (index, item) = ii in
     if js_trim (qb_name item) = [] then Throw (invalid (Governance (Break_name_required index)))
     else if qb_productId item = [] then Throw (invalid (Governance (Break_product_required index)))
     else if qb_minQuantity item < 1 then Throw (invalid (Governance (Break_min_quantity index)))
     else if (case qb_maxQuantity item of None \<Rightarrow> False | Some m \<Rightarrow> m < qb_minQuantity item)
     then Throw (invalid (Governance (Break_min_exceeds_max index)))
     else if qb_adjustmentKind item = AK_fixed \<and> qb_adjustmentValue item < 0
     then Throw (invalid (Governance (Break_fixed_negative index)))
     else if qb_adjustmentKind item = AK_percent \<and> (qb_adjustmentValue item < -100 \<or> qb_adjustmentValue item > 100)
     then Throw (invalid (Governance (Break_percent_range index)))
     else Ok (item\<lparr>qb_name := js_trim (qb_name item), qb_active := Some (qb_active item \<noteq> Some False)\<rparr>))"

definition le_max :: "js_number \<Rightarrow> js_number option \<Rightarrow> bool" where
  "le_max q m = (case m of None \<Rightarrow> True | Some m \<Rightarrow> q \<le> m)"

definition overlapping :: "quantity_break \<Rightarrow> quantity_break \<Rightarrow> bool" where
  "overlapping left right \<longleftrightarrow>
     qb_productId left = qb_productId right \<and> qb_customerTier left = qb_customerTier right \<and>
     le_max (qb_minQuantity left) (qb_maxQuantity right) \<and> le_max (qb_minQuantity right) (qb_maxQuantity left)"

text \<open>The two nested loops over the active rows: \<open>i\<close> ascending, \<open>j\<close> after \<open>i\<close>.\<close>

fun check_overlaps :: "quantity_break list \<Rightarrow> unit result" where
  "check_overlaps [] = Ok ()"
| "check_overlaps (left # rest) =
     (case find (overlapping left) rest of
        Some right \<Rightarrow> Throw (invalid (Governance (Break_overlap (qb_name left) (qb_name right))))
      | None \<Rightarrow> check_overlaps rest)"

definition validateQuantityBreaks :: "quantity_break list \<Rightarrow> quantity_break list result" where
  "validateQuantityBreaks items =
     rbind (map_result normalize_break (enumerate 0 items)) (\<lambda>normalized.
       rbind (check_overlaps (filter (\<lambda>i. qb_active i = Some True) normalized)) (\<lambda>_. Ok normalized))"

fun validate_roles :: "nat \<Rightarrow> string list \<Rightarrow> role_authority list \<Rightarrow> role_authority list result" where
  "validate_roles index seen [] = Ok []"
| "validate_roles index seen (item # items) =
     (let roleKey = js_trim (ra_roleKey item) in
      if roleKey = [] then Throw (invalid (Governance (Role_key_required index)))
      else if roleKey \<in> set seen then Throw (invalid (Governance (Duplicate_role roleKey)))
      else if ra_maxDiscountPercent item < 0 \<or> ra_maxDiscountPercent item > 100
      then Throw (invalid (Governance (Role_max_discount_range roleKey)))
      else if ra_minMarginPercent item < 0 \<or> ra_minMarginPercent item > 100
      then Throw (invalid (Governance (Role_min_margin_range roleKey)))
      else if ra_maxPriceOverridePercent item < 0 \<or> ra_maxPriceOverridePercent item > 100
      then Throw (invalid (Governance (Role_price_override_range roleKey)))
      else rbind (validate_roles (Suc index) (roleKey # seen) items) (\<lambda>rest.
             Ok (item\<lparr>ra_roleKey := roleKey\<rparr> # rest)))"

definition validateRoleAuthorities :: "role_authority list \<Rightarrow> role_authority list result" where
  "validateRoleAuthorities items = validate_roles 0 [] items"

definition pct_ok :: "js_number \<Rightarrow> bool" where
  "pct_ok v \<longleftrightarrow> 0 \<le> v \<and> v \<le> 100"

text \<open>\<open>Number.isInteger\<close>.\<close>

definition is_integer :: "js_number \<Rightarrow> bool" where
  "is_integer v \<longleftrightarrow> of_int \<lfloor>v\<rfloor> = v"

definition validateGovernance :: "governance_config \<Rightarrow> governance_config result" where
  "validateGovernance input =
     (let bad = (\<lambda>f. Throw (invalid (Governance (Governance_range f)))) in
      if gc_highValueNetTotal input < 0 then bad ''highValueNetTotal''
      else if \<not> is_integer (gc_maxApprovalLevels input) \<or> gc_maxApprovalLevels input < 1 \<or> gc_maxApprovalLevels input > 3
      then bad ''maxApprovalLevels''
      else if gc_cumulativeWarningLimit input < 1 then bad ''cumulativeWarningLimit''
      else if gc_materialDiscountDeltaPp input < 0 then bad ''materialDiscountDeltaPp''
      else if gc_materialTotalDeltaRatio input < 0 \<or> gc_materialTotalDeltaRatio input > 1 then bad ''materialTotalDeltaRatio''
      else if \<not> pct_ok (gc_taxRatePercent input) then bad ''taxRatePercent''
      else if gc_staleQuoteDays input < 1 then bad ''staleQuoteDays''
      else if \<not> pct_ok (gc_unusualDiscountPercent input) then bad ''unusualDiscountPercent''
      else if gc_largeDealNetTotal input < 0 then bad ''largeDealNetTotal''
      else if \<not> pct_ok (gc_maxCommercialDiscountPercent input) then bad ''maxCommercialDiscountPercent''
      else Ok input)"

section \<open>Quantity breaks\<close>

definition break_ok :: "quantity_break \<Rightarrow> bool" where
  "break_ok b \<longleftrightarrow> qb_name b \<noteq> [] \<and> js_trim (qb_name b) = qb_name b \<and> qb_productId b \<noteq> [] \<and> 1 \<le> qb_minQuantity b \<and>
     (\<forall>m. qb_maxQuantity b = Some m \<longrightarrow> qb_minQuantity b \<le> m) \<and> adjustment_ok b \<and> qb_active b \<noteq> None"

lemma normalize_break_ok: "normalize_break (i, b) = Ok b' \<Longrightarrow> break_ok b'"
  by (auto simp: normalize_break_def break_ok_def adjustment_ok_def not_less split: if_splits option.splits)

lemma normalize_break_fixed: "break_ok b \<Longrightarrow> normalize_break (i, b) = Ok b"
  by (cases b) (auto simp: normalize_break_def break_ok_def adjustment_ok_def split: option.splits)

lemma normalize_all_ok: "map_result normalize_break (enumerate n bs) = Ok bs' \<Longrightarrow> \<forall>b\<in>set bs'. break_ok b"
  by (induction bs arbitrary: n bs') (auto dest: normalize_break_ok)

lemma normalize_all_fixed: "\<forall>b\<in>set bs. break_ok b \<Longrightarrow> map_result normalize_break (enumerate n bs) = Ok bs"
  by (induction bs arbitrary: n) (auto simp: normalize_break_fixed)

lemma check_overlaps_iff:
  "check_overlaps bs = Ok () \<longleftrightarrow> sorted_wrt (\<lambda>l r. \<not> overlapping l r) bs"
  by (induction bs) (auto simp: find_None_all split: option.splits dest: find_SomeD)

lemma overlapping_sym: "overlapping l r = overlapping r l"
  by (auto simp: overlapping_def)

lemma sorted_wrt_sym_pair:
  assumes "sorted_wrt (\<lambda>l r. \<not> R l r) xs" and "\<And>l r. R l r = R r l" and "x \<in> set xs" "y \<in> set xs" "x \<noteq> y"
  shows "\<not> R x y"
  using assms by (induction xs) auto

lemma validated_facts:
  assumes "validateQuantityBreaks items = Ok bs"
  shows "\<forall>b\<in>set bs. break_ok b"
    and "check_overlaps (filter (\<lambda>i. qb_active i = Some True) bs) = Ok ()"
  using assms by (auto simp: validateQuantityBreaks_def dest: normalize_all_ok)

lemma active_iff: "break_ok b \<Longrightarrow> qb_active b \<noteq> Some False \<longleftrightarrow> qb_active b = Some True"
  by (auto simp: break_ok_def)

lemma in_range_le_max: "in_range b q \<longleftrightarrow> qb_minQuantity b \<le> q \<and> le_max q (qb_maxQuantity b)"
  by (auto simp: in_range_def le_max_def split: option.splits)

text \<open>Two different rows of a validated table that both apply to a line are of different tiers.\<close>

lemma validated_disjoint:
  assumes "validateQuantityBreaks items = Ok bs" and "x \<in> set bs" "applies x p q t" "y \<in> set bs" "applies y p q t"
    and "qb_customerTier x = qb_customerTier y"
  shows "x = y"
proof (rule ccontr)
  assume "x \<noteq> y"
  have "x \<in> set (filter (\<lambda>i. qb_active i = Some True) bs)" "y \<in> set (filter (\<lambda>i. qb_active i = Some True) bs)"
    using assms(2-5) validated_facts(1) [OF assms(1)] active_iff by (auto simp: applies_def)
  then have "\<not> overlapping x y"
    using validated_facts(2) [OF assms(1)] \<open>x \<noteq> y\<close> overlapping_sym sorted_wrt_sym_pair [of overlapping]
    unfolding check_overlaps_iff by blast
  moreover have "overlapping x y"
    using assms(3,5,6) by (auto simp: overlapping_def applies_def in_range_le_max le_max_def split: option.splits)
  ultimately show False by simp
qed

lemma validated_select_unique:
  assumes "validateQuantityBreaks items = Ok bs" and "set bs' = set bs"
  shows "selectQuantityBreak bs' p q t = selectQuantityBreak bs p q t"
proof (cases "selectQuantityBreak bs p q t")
  case None
  then show ?thesis using assms(2) selectQuantityBreak_None_iff by metis
next
  case (Some b)
  note b = selectQuantityBreak_applies [OF Some]
  then have "selectQuantityBreak bs' p q t \<noteq> None" using assms(2) selectQuantityBreak_None_iff by metis
  then obtain b' where b': "selectQuantityBreak bs' p q t = Some b'" by blast
  note b'a = selectQuantityBreak_applies [OF b']
  have mem: "b' \<in> set bs" "b \<in> set bs'" using b b'a assms(2) by auto
  have "tier_weight b = tier_weight b'"
    using selectQuantityBreak_best [OF Some mem(1)] selectQuantityBreak_best [OF b' mem(2)] b b'a by linarith
  then have "qb_customerTier b = qb_customerTier b'"
    using b b'a by (auto simp: tier_weight_def applies_def split: if_splits)
  then have "b' = b" using validated_disjoint [OF assms(1)] b b'a mem by metis
  then show ?thesis using Some b' by simp
qed

section \<open>Role authorities\<close>

lemma validate_roles_Ok:
  "validate_roles n seen rs = Ok rs' \<Longrightarrow>
   distinct (map ra_roleKey rs') \<and> (\<forall>r\<in>set rs'. ra_roleKey r \<notin> set seen \<and> ra_roleKey r \<noteq> [] \<and> js_trim (ra_roleKey r) = ra_roleKey r \<and>
     pct_ok (ra_maxDiscountPercent r) \<and> pct_ok (ra_minMarginPercent r) \<and> pct_ok (ra_maxPriceOverridePercent r))"
proof (induction rs arbitrary: n seen rs')
  case (Cons r rs)
  then obtain rest where rest: "validate_roles (Suc n) (js_trim (ra_roleKey r) # seen) rs = Ok rest"
    "rs' = r\<lparr>ra_roleKey := js_trim (ra_roleKey r)\<rparr> # rest"
    and ok: "js_trim (ra_roleKey r) \<noteq> []" "js_trim (ra_roleKey r) \<notin> set seen" "pct_ok (ra_maxDiscountPercent r)"
      "pct_ok (ra_minMarginPercent r)" "pct_ok (ra_maxPriceOverridePercent r)"
    by (auto simp: Let_def pct_ok_def not_less split: if_splits)
  from Cons.IH [OF rest(1)] show ?case using rest(2) ok by auto
qed simp

lemma validate_roles_fixed:
  "distinct (map ra_roleKey rs) \<Longrightarrow>
   \<forall>r\<in>set rs. ra_roleKey r \<notin> set seen \<and> ra_roleKey r \<noteq> [] \<and> js_trim (ra_roleKey r) = ra_roleKey r \<and>
     pct_ok (ra_maxDiscountPercent r) \<and> pct_ok (ra_minMarginPercent r) \<and> pct_ok (ra_maxPriceOverridePercent r) \<Longrightarrow>
   validate_roles n seen rs = Ok rs"
proof (induction rs arbitrary: n seen)
  case (Cons r rs)
  have "validate_roles (Suc n) (ra_roleKey r # seen) rs = Ok rs"
    by (rule Cons.IH) (use Cons.prems in \<open>auto simp: image_iff\<close>)
  moreover have "r\<lparr>ra_roleKey := ra_roleKey r\<rparr> = r" by simp
  ultimately show ?case using Cons.prems(2) by (simp add: Let_def pct_ok_def not_less [symmetric])
qed simp

section \<open>Properties\<close>

text \<open>On a validated table of quantity breaks the price rule of a line does not depend on the
  order (or repetition) of the rows: any list with the same rows selects the same break for every
  product, quantity and tier.\<close>

theorem validated_breaks_deterministic:
  assumes "validateQuantityBreaks items = Ok bs" and "set bs' = set bs"
  shows "resolveUnitPrice p q bs' t = resolveUnitPrice p q bs t"
  unfolding resolveUnitPrice_def validated_select_unique [OF assms] ..

definition sample_break :: "string \<Rightarrow> js_number \<Rightarrow> js_number option \<Rightarrow> js_number \<Rightarrow> quantity_break" where
  "sample_break n lo hi v = \<lparr>qb_id = n, qb_name = n, qb_productId = ''p1'', qb_customerTier = None, qb_minQuantity = lo,
     qb_maxQuantity = hi, qb_adjustmentKind = AK_percent, qb_adjustmentValue = v, qb_active = Some True\<rparr>"

lemma sample_breaks_valid:
  "validateQuantityBreaks [sample_break ''a'' 1 (Some 9) (- 5), sample_break ''b'' 10 None (- 10)] =
   Ok [sample_break ''a'' 1 (Some 9) (- 5), sample_break ''b'' 10 None (- 10)]"
  by code_simp

theorem validated_breaks_deterministic_witness:
  "resolveUnitPrice (sample_product ''p1'' 10 One_time) 12 [sample_break ''b'' 10 None (- 10), sample_break ''a'' 1 (Some 9) (- 5)] None =
   resolveUnitPrice (sample_product ''p1'' 10 One_time) 12 [sample_break ''a'' 1 (Some 9) (- 5), sample_break ''b'' 10 None (- 10)] None"
  by (rule validated_breaks_deterministic [OF sample_breaks_valid]) auto

text \<open>A validated table gives sound prices: for a product with a non-negative list price the
  resolved unit price is never negative.\<close>

theorem validated_breaks_price_nonneg:
  assumes "validateQuantityBreaks items = Ok bs" and "0 \<le> pr_listPrice p"
  shows "0 \<le> rp_unitPrice (resolveUnitPrice p q bs t)"
  using assms(2) validated_facts(1) [OF assms(1)] by (intro resolveUnitPrice_nonneg) (auto simp: break_ok_def)

theorem validated_breaks_price_nonneg_witness:
  "0 \<le> rp_unitPrice (resolveUnitPrice (sample_product ''p1'' 10 One_time) 12
     [sample_break ''a'' 1 (Some 9) (- 5), sample_break ''b'' 10 None (- 10)] None)"
  by (rule validated_breaks_price_nonneg [OF sample_breaks_valid]) (simp add: sample_product_def)

text \<open>Validation of the quantity breaks and of the role authorities normalises once: running it
  on its own result accepts it unchanged. Validated role rules have pairwise different keys and
  percentages between 0 and 100.\<close>

theorem governance_validation_idempotent:
  "(\<forall>bs. validateQuantityBreaks items = Ok bs \<longrightarrow> validateQuantityBreaks bs = Ok bs) \<and>
   (\<forall>rs. validateRoleAuthorities roles = Ok rs \<longrightarrow> validateRoleAuthorities rs = Ok rs \<and>
      distinct (map ra_roleKey rs) \<and> (\<forall>r\<in>set rs. pct_ok (ra_maxDiscountPercent r) \<and> pct_ok (ra_minMarginPercent r)))"
proof (intro conjI allI impI)
  fix bs assume "validateQuantityBreaks items = Ok bs"
  note f = validated_facts [OF this]
  show "validateQuantityBreaks bs = Ok bs"
    using f(2) normalize_all_fixed [OF f(1)] by (simp add: validateQuantityBreaks_def)
next
  fix rs assume "validateRoleAuthorities roles = Ok rs"
  then have ok: "distinct (map ra_roleKey rs) \<and> (\<forall>r\<in>set rs. ra_roleKey r \<notin> set [] \<and> ra_roleKey r \<noteq> [] \<and>
      js_trim (ra_roleKey r) = ra_roleKey r \<and> pct_ok (ra_maxDiscountPercent r) \<and> pct_ok (ra_minMarginPercent r) \<and>
      pct_ok (ra_maxPriceOverridePercent r))"
    unfolding validateRoleAuthorities_def by (rule validate_roles_Ok)
  then show "validateRoleAuthorities rs = Ok rs"
    unfolding validateRoleAuthorities_def by (intro validate_roles_fixed) auto
  show "distinct (map ra_roleKey rs)" using ok by simp
  show "\<forall>r\<in>set rs. pct_ok (ra_maxDiscountPercent r) \<and> pct_ok (ra_minMarginPercent r)" using ok by simp
qed

theorem governance_validation_idempotent_witness:
  "validateQuantityBreaks [sample_break '' a '' 1 None 5] = Ok [sample_break ''a'' 1 None 5\<lparr>qb_id := '' a ''\<rparr>] \<and>
   validateQuantityBreaks [sample_break ''a'' 1 None 5\<lparr>qb_id := '' a ''\<rparr>] = Ok [sample_break ''a'' 1 None 5\<lparr>qb_id := '' a ''\<rparr>]"
proof -
  have "validateQuantityBreaks [sample_break '' a '' 1 None 5] = Ok [sample_break ''a'' 1 None 5\<lparr>qb_id := '' a ''\<rparr>]" by code_simp
  then show ?thesis using governance_validation_idempotent [of "[sample_break '' a '' 1 None 5]" "[]"] by blast
qed

end
