(* ===== verification/Dealflow_Health.thy ===== *)
theory Dealflow_Health
  imports Dealflow_Discount Dealflow_Strings Dealflow_Samples
begin

text \<open>
  \<open>health-engine.ts\<close> and \<open>anomaly-engine.ts\<close>: the health score of a deal and the anomalies a scan
  reports. Each \<open>if\<close> of \<open>computeDealHealth\<close> that subtracts from the score and pushes a factor is one
  definition giving the (penalty, factor) pairs of that check; the score is 100 less the penalties.
  Texts are kept as their template and interpolated values; \<open>Date.parse\<close> of an ISO stamp is its
  millisecond value, \<open>toFixed(1)\<close> of a non-negative number rounds half up.
\<close>

section \<open>Deal health\<close>

datatype factor_level = F_healthy | F_warning | F_critical

datatype factor_detail =
    Det_rejected
  | Det_approval_pending js_number
  | Det_waiting_on "string option"
  | Det_declined
  | Det_accepted
  | Det_negotiation
  | Det_inactive js_number js_number
  | Det_unusual_discount js_number js_number
  | Det_risk js_number js_number
  | Det_margin js_number
  | Det_backorder js_number
  | Det_no_schedules
  | Det_high_value js_number js_number
  | Det_draft_age js_number

record deal_health_factor =
  hf_id :: string
  hf_level :: factor_level
  hf_detail :: factor_detail

datatype health_status = H_healthy | H_at_risk | H_critical

record deal_health =
  dh_score :: js_number
  dh_status :: health_status
  dh_stage :: quote_status
  dh_daysInStage :: js_number
  dh_factors :: "deal_health_factor list"
  dh_computedAt :: int

definition days_since :: "int \<Rightarrow> int \<Rightarrow> js_number" where
  "days_since now stamp = max 0 (of_int (now - stamp) / 86400000)"

type_synonym health_check = "(js_number \<times> deal_health_factor) list"

definition backorder_qty :: "quote_aggregate \<Rightarrow> js_number" where
  "backorder_qty a = foldl (\<lambda>sum i. sum + bo_quantity i) 0 (ag_backorders a)"

definition check_rejected :: "quote \<Rightarrow> health_check" where
  "check_rejected q = (if qt_status q = Q_rejected \<or> qt_assessmentDecision q = D_rejected
     then [(40, \<lparr>hf_id = ''rejected'', hf_level = F_critical, hf_detail = Det_rejected\<rparr>)] else [])"

definition check_approval :: "quote_aggregate \<Rightarrow> quote_assessment option \<Rightarrow> js_number \<Rightarrow> health_check" where
  "check_approval a assessment staleDays =
     (if qt_status (ag_quote a) = Q_approval_required
      then let delay = filter (\<lambda>i. ap_status i = A_pending) (ag_approvals a) \<noteq> [] \<and> staleDays \<ge> 3
           in [(if delay then 28 else 20,
                \<lparr>hf_id = ''approval'', hf_level = (if delay then F_critical else F_warning),
                 hf_detail = (if delay then Det_approval_pending staleDays
                              else Det_waiting_on (case assessment of None \<Rightarrow> None | Some x \<Rightarrow> qa_requiredChainName x))\<rparr>)]
      else [])"

definition check_customer :: "quote \<Rightarrow> health_check" where
  "check_customer q = (case qt_customerDecision q of
       C_declined \<Rightarrow> [(30, \<lparr>hf_id = ''declined'', hf_level = F_critical, hf_detail = Det_declined\<rparr>)]
     | C_accepted \<Rightarrow> [(0, \<lparr>hf_id = ''accepted'', hf_level = F_healthy, hf_detail = Det_accepted\<rparr>)]
     | C_none \<Rightarrow> [])"

definition check_negotiation :: "quote \<Rightarrow> health_check" where
  "check_negotiation q = (if qt_status q = Q_customer_negotiation
     then [(10, \<lparr>hf_id = ''negotiation'', hf_level = F_warning, hf_detail = Det_negotiation\<rparr>)] else [])"

definition check_stale :: "quote \<Rightarrow> governance_config \<Rightarrow> js_number \<Rightarrow> health_check" where
  "check_stale q config staleDays =
     (if staleDays \<ge> gc_staleQuoteDays config \<and> qt_status q \<noteq> Q_completed \<and> qt_status q \<noteq> Q_rejected
      then [(12, \<lparr>hf_id = ''stale'', hf_level = (if staleDays \<ge> gc_staleQuoteDays config * 2 then F_critical else F_warning),
                  hf_detail = Det_inactive staleDays (gc_staleQuoteDays config)\<rparr>)] else [])"

definition check_discount :: "quote \<Rightarrow> governance_config \<Rightarrow> health_check" where
  "check_discount q config =
     (if qt_blendedDiscountPercent q \<ge> gc_unusualDiscountPercent config
      then [(16, \<lparr>hf_id = ''discount'', hf_level = F_critical,
                  hf_detail = Det_unusual_discount (qt_blendedDiscountPercent q) (gc_unusualDiscountPercent config)\<rparr>)]
      else if qt_riskScore q \<ge> 40 \<or> qt_assessmentDecision q = D_warning \<or> qt_assessmentDecision q = D_approval_required
      then [(if qt_riskScore q \<ge> 70 then 18 else 8,
             \<lparr>hf_id = ''discount'', hf_level = (if qt_riskScore q \<ge> 70 then F_critical else F_warning),
              hf_detail = Det_risk (qt_riskScore q) (qt_blendedDiscountPercent q)\<rparr>)]
      else [])"

definition check_margin :: "quote \<Rightarrow> health_check" where
  "check_margin q = (if qt_marginPercent q > 0 \<and> qt_marginPercent q < 30
     then [(14, \<lparr>hf_id = ''margin'', hf_level = (if qt_marginPercent q < 20 then F_critical else F_warning),
                 hf_detail = Det_margin (qt_marginPercent q)\<rparr>)] else [])"

definition check_fulfill :: "quote_aggregate \<Rightarrow> health_check" where
  "check_fulfill a = (if backorder_qty a > 0
     then [(16, \<lparr>hf_id = ''fulfill'', hf_level = F_warning, hf_detail = Det_backorder (backorder_qty a)\<rparr>)] else [])"

definition check_billing :: "quote_aggregate \<Rightarrow> health_check" where
  "check_billing a = (if qt_status (ag_quote a) \<in> {Q_confirmed, Q_fulfillment, Q_billing} \<and> ag_schedules a = []
     then [(12, \<lparr>hf_id = ''billing'', hf_level = F_warning, hf_detail = Det_no_schedules\<rparr>)] else [])"

definition check_high_value :: "quote \<Rightarrow> governance_config \<Rightarrow> health_check" where
  "check_high_value q config = (if qt_netTotal q \<ge> gc_highValueNetTotal config
     then [(8, \<lparr>hf_id = ''high-value'', hf_level = F_warning,
                hf_detail = Det_high_value (qt_netTotal q) (gc_highValueNetTotal config)\<rparr>)] else [])"

definition check_age :: "quote \<Rightarrow> js_number \<Rightarrow> health_check" where
  "check_age q ageDays = (if ageDays \<ge> 21 \<and> qt_status q = Q_draft
     then [(8, \<lparr>hf_id = ''age'', hf_level = F_warning, hf_detail = Det_draft_age ageDays\<rparr>)] else [])"

definition health_checks ::
  "quote_aggregate \<Rightarrow> quote_assessment option \<Rightarrow> governance_config \<Rightarrow> int \<Rightarrow> health_check" where
  "health_checks a assessment config now =
     (let q = ag_quote a; ageDays = days_since now (qt_createdAt q); staleDays = days_since now (qt_updatedAt q)
      in check_rejected q @ check_approval a assessment staleDays @ check_customer q @ check_negotiation q @
         check_stale q config staleDays @ check_discount q config @ check_margin q @ check_fulfill a @
         check_billing a @ check_high_value q config @ check_age q ageDays)"

definition health_score :: "health_check \<Rightarrow> js_number" where
  "health_score cs = max 0 (min 100 (math_round (foldl (\<lambda>score c. score - fst c) 100 cs)))"

definition health_status_of :: "quote \<Rightarrow> js_number \<Rightarrow> health_status" where
  "health_status_of q clamped =
     (if clamped < 50 \<or> qt_status q = Q_rejected \<or> qt_customerDecision q = C_declined then H_critical
      else if clamped < 75 then H_at_risk else H_healthy)"

definition computeDealHealth ::
  "quote_aggregate \<Rightarrow> quote_assessment option \<Rightarrow> governance_config \<Rightarrow> int \<Rightarrow> deal_health" where
  "computeDealHealth a assessment config now =
     (let cs = health_checks a assessment config now; clamped = health_score cs
      in \<lparr>dh_score = clamped, dh_status = health_status_of (ag_quote a) clamped, dh_stage = qt_status (ag_quote a),
          dh_daysInStage = round_digits (days_since now (qt_updatedAt (ag_quote a))) 1,
          dh_factors = map snd cs, dh_computedAt = now\<rparr>)"

section \<open>Anomalies\<close>

record detected_anomaly =
  da_type :: anomaly_type
  da_severity :: anomaly_severity
  da_entityType :: string
  da_entityId :: string
  da_quoteId :: "string option"
  da_description :: anomaly_text
  da_detectedAt :: int

text \<open>\<open>reason.includes('Unit price override')\<close>: the words are the start of the \<open>R_override\<close> template;
  in the other templates they can only come from an interpolated name.\<close>

fun mentions_override :: "reason \<Rightarrow> bool" where
  "mentions_override (R_override _ _ _) = True"
| "mentions_override (R_exceeds_reject _ _ n) = js_includes n ''Unit price override''"
| "mentions_override (R_exceeds_approval _ _ n) = js_includes n ''Unit price override''"
| "mentions_override (R_exceeds_warning _ _ n) = js_includes n ''Unit price override''"
| "mentions_override (R_margin_erosion _ _ n) = js_includes n ''Unit price override''"
| "mentions_override (R_within n) = js_includes n ''Unit price override''"
| "mentions_override (R_role_range _ n _) = js_includes n ''Unit price override''"
| "mentions_override (R_margin_floor _ n _) = js_includes n ''Unit price override''"
| "mentions_override (R_chain_selected n _ _) = js_includes n ''Unit price override''"
| "mentions_override _ = False"

definition mk_anomaly :: "quote \<Rightarrow> int \<Rightarrow> anomaly_type \<Rightarrow> anomaly_severity \<Rightarrow> anomaly_text \<Rightarrow> detected_anomaly" where
  "mk_anomaly q stamp t sev d = \<lparr>da_type = t, da_severity = sev, da_entityType = ''quote'', da_entityId = qt_id q,
     da_quoteId = Some (qt_id q), da_description = d, da_detectedAt = stamp\<rparr>"

definition approval_cycles :: "quote_aggregate \<Rightarrow> nat" where
  "approval_cycles a = length (filter rv_materialChange (ag_revisions a))"

text \<open>\<open>if (c) found.push(x)\<close>.\<close>

definition push_if :: "bool \<Rightarrow> 'a \<Rightarrow> 'a list" where
  "push_if c x = (if c then [x] else [])"

definition detectQuoteAnomalies ::
  "quote_aggregate \<Rightarrow> quote_assessment option \<Rightarrow> governance_config \<Rightarrow> int \<Rightarrow> detected_anomaly list" where
  "detectQuoteAnomalies a assessment config now =
     (let q = ag_quote a; n = qt_number q; staleDays = days_since now (qt_updatedAt q); mk = mk_anomaly q now
      in push_if (qt_blendedDiscountPercent q \<ge> gc_unusualDiscountPercent config)
           (mk AT_unusual_discount S_critical
             (AD_unusual_discount n (qt_blendedDiscountPercent q) (gc_unusualDiscountPercent config))) @
         push_if (qt_netTotal q \<ge> gc_largeDealNetTotal config)
           (mk AT_large_deal S_warning (AD_large_deal n (qt_netTotal q) (gc_largeDealNetTotal config))) @
         push_if (case assessment of None \<Rightarrow> False | Some x \<Rightarrow> list_ex mentions_override (qa_reasons x))
           (mk AT_price_override S_warning (AD_price_override n)) @
         push_if (approval_cycles a \<ge> 2 \<and> qt_status q = Q_approval_required)
           (mk AT_repeated_approval S_warning (AD_repeated_approval n (approval_cycles a))) @
         push_if (list_ex rv_materialChange (ag_revisions a) \<and> qt_status q = Q_customer_negotiation)
           (mk AT_negotiation_spike S_warning (AD_negotiation_spike n)) @
         push_if (staleDays \<ge> gc_staleQuoteDays config \<and> qt_status q \<noteq> Q_completed \<and> qt_status q \<noteq> Q_rejected)
           (mk AT_stale_deal (if staleDays \<ge> gc_staleQuoteDays config * 2 then S_critical else S_warning)
             (AD_stale_deal n staleDays)) @
         push_if (backorder_qty a > 0) (mk AT_inventory_shortfall S_warning (AD_inventory_shortfall n)))"

section \<open>Lemmas\<close>

definition total_penalty :: "health_check \<Rightarrow> js_number" where
  "total_penalty cs = sum_list (map fst cs)"

lemma total_penalty_simps [simp]:
  "total_penalty [] = 0" "total_penalty (c # cs) = fst c + total_penalty cs"
  "total_penalty (cs @ ds) = total_penalty cs + total_penalty ds"
  by (simp_all add: total_penalty_def)

lemma health_score_eq: "health_score cs = max 0 (min 100 (math_round (100 - total_penalty cs)))"
proof -
  have "foldl (\<lambda>score c. score - fst c) a cs = a - total_penalty cs" for a
    by (induction cs arbitrary: a) (auto simp: total_penalty_def)
  then show ?thesis by (simp add: health_score_def)
qed

lemma health_score_antimono: "total_penalty cs \<le> total_penalty ds \<Longrightarrow> health_score ds \<le> health_score cs"
  unfolding health_score_eq by (intro max.mono min.mono math_round_mono) auto

lemma days_since_mono: "t \<le> t' \<Longrightarrow> days_since t s \<le> days_since t' s"
  unfolding days_since_def by (intro max.mono divide_right_mono) auto

lemma days_since_nonneg [simp]: "0 \<le> days_since t s"
  by (simp add: days_since_def)

lemma check_approval_mono: "d \<le> d' \<Longrightarrow> total_penalty (check_approval a x d) \<le> total_penalty (check_approval a x d')"
  by (auto simp: check_approval_def Let_def)

lemma check_stale_mono: "d \<le> d' \<Longrightarrow> total_penalty (check_stale q c d) \<le> total_penalty (check_stale q c d')"
  by (auto simp: check_stale_def)

lemma check_age_mono: "d \<le> d' \<Longrightarrow> total_penalty (check_age q d) \<le> total_penalty (check_age q d')"
  by (auto simp: check_age_def)

lemma health_checks_mono:
  assumes "t \<le> t'"
  shows "total_penalty (health_checks a x c t) \<le> total_penalty (health_checks a x c t')"
proof -
  let ?q = "ag_quote a"
  have "days_since t (qt_updatedAt ?q) \<le> days_since t' (qt_updatedAt ?q)"
    "days_since t (qt_createdAt ?q) \<le> days_since t' (qt_createdAt ?q)"
    using assms by (auto intro: days_since_mono)
  then show ?thesis
    using check_approval_mono [of _ _ a x] check_stale_mono [of _ _ ?q c] check_age_mono [of _ _ ?q]
    unfolding health_checks_def Let_def total_penalty_simps by (intro add_mono order_refl) auto
qed

text \<open>Every check subtracts at least 8 points, or nothing for a favourable factor.\<close>

definition penalties_ok :: "health_check \<Rightarrow> bool" where
  "penalties_ok cs \<longleftrightarrow> (\<forall>c\<in>set cs. 8 \<le> fst c \<and> hf_level (snd c) \<noteq> F_healthy \<or> fst c = 0 \<and> hf_level (snd c) = F_healthy)"

lemma penalties_ok_simps [simp]:
  "penalties_ok []" "penalties_ok (cs @ ds) \<longleftrightarrow> penalties_ok cs \<and> penalties_ok ds"
  "penalties_ok (c # cs) \<longleftrightarrow>
     (8 \<le> fst c \<and> hf_level (snd c) \<noteq> F_healthy \<or> fst c = 0 \<and> hf_level (snd c) = F_healthy) \<and> penalties_ok cs"
  by (auto simp: penalties_ok_def)

lemma check_penalties [simp]:
  "penalties_ok (check_rejected q)" "penalties_ok (check_customer q)" "penalties_ok (check_negotiation q)"
  "penalties_ok (check_approval a x d)" "penalties_ok (check_stale q c d)" "penalties_ok (check_discount q c)"
  "penalties_ok (check_margin q)" "penalties_ok (check_fulfill a)" "penalties_ok (check_billing a)"
  "penalties_ok (check_high_value q c)" "penalties_ok (check_age q d)"
  by (simp add: check_rejected_def, simp add: check_customer_def split: customer_decision.split,
      simp add: check_negotiation_def, simp add: check_approval_def Let_def, simp add: check_stale_def,
      simp add: check_discount_def, simp add: check_margin_def, simp add: check_fulfill_def, simp add: check_billing_def,
      simp add: check_high_value_def, simp add: check_age_def)

lemma health_checks_penalties: "penalties_ok (health_checks a x c t)"
  by (simp add: health_checks_def Let_def)

lemma penalty_from_factors:
  assumes "penalties_ok cs"
  shows "0 \<le> total_penalty cs \<and> (if \<forall>f\<in>set (map snd cs). hf_level f = F_healthy then total_penalty cs = 0 else 8 \<le> total_penalty cs)"
  using assms
proof (induction cs)
  case (Cons c cs)
  then have IH: "0 \<le> total_penalty cs"
    "if \<forall>f\<in>set (map snd cs). hf_level f = F_healthy then total_penalty cs = 0 else 8 \<le> total_penalty cs"
    by auto
  show ?case
  proof (cases "\<forall>f\<in>set (map snd cs). hf_level f = F_healthy")
    case True
    then show ?thesis using IH Cons.prems by auto
  next
    case False
    then have "8 \<le> total_penalty cs" using IH(2) by presburger
    then show ?thesis using False Cons.prems by auto
  qed
qed simp

lemma health_score_100_iff:
  assumes "penalties_ok cs"
  shows "health_score cs = 100 \<longleftrightarrow> (\<forall>f\<in>set (map snd cs). hf_level f = F_healthy)"
proof (cases "\<forall>f\<in>set (map snd cs). hf_level f = F_healthy")
  case True
  then have "total_penalty cs = 0" using penalty_from_factors [OF assms] by presburger
  then show ?thesis using True math_round_of_int [of 100] by (simp add: health_score_eq)
next
  case False
  then have "8 \<le> total_penalty cs" using penalty_from_factors [OF assms] by presburger
  then have "math_round (100 - total_penalty cs) \<le> 92 + 1/2"
    using math_round_le [of "100 - total_penalty cs"] by linarith
  then have "health_score cs < 100" unfolding health_score_eq by linarith
  then show ?thesis using False by linarith
qed

lemma map_push_if [simp]: "map f (push_if c x) = push_if c (f x)"
  by (simp add: push_if_def)

lemma distinct_push_if [simp]: "distinct (push_if c x)"
  by (simp add: push_if_def)

lemma set_push_if [simp]: "y \<in> set (push_if c x) \<longleftrightarrow> c \<and> y = x"
  unfolding push_if_def by (cases c) simp_all

lemma mk_anomaly_simps [simp]:
  "da_type (mk_anomaly q t k v d) = k" "da_quoteId (mk_anomaly q t k v d) = Some (qt_id q)"
  "da_detectedAt (mk_anomaly q t k v d) = t"
  by (simp_all add: mk_anomaly_def)

lemma anomaly_types:
  "distinct (map da_type (detectQuoteAnomalies a x c t))"
  unfolding detectQuoteAnomalies_def Let_def map_append map_push_if mk_anomaly_simps distinct_append set_append
  by auto

lemma anomaly_price_override_iff:
  "AT_price_override \<in> set (map da_type (detectQuoteAnomalies a x c t)) \<longleftrightarrow>
   (\<exists>y. x = Some y \<and> (\<exists>r\<in>set (qa_reasons y). mentions_override r))"
  unfolding detectQuoteAnomalies_def Let_def map_append map_push_if mk_anomaly_simps set_append Un_iff set_push_if
  by (auto simp: list_ex_iff split: option.splits)

section \<open>Properties\<close>

text \<open>The health score is a percentage; it is 100 exactly when every listed factor is
  favourable, and a deal reported healthy scores at least 75, is not rejected and was not declined
  by the customer.\<close>

theorem deal_health_sound:
  "let h = computeDealHealth a x c t
   in 0 \<le> dh_score h \<and> dh_score h \<le> 100 \<and>
      (dh_score h = 100 \<longleftrightarrow> (\<forall>f\<in>set (dh_factors h). hf_level f = F_healthy)) \<and>
      (dh_status h = H_healthy \<longleftrightarrow>
        75 \<le> dh_score h \<and> qt_status (ag_quote a) \<noteq> Q_rejected \<and> qt_customerDecision (ag_quote a) \<noteq> C_declined)"
proof -
  let ?cs = "health_checks a x c t"
  have "0 \<le> health_score ?cs" "health_score ?cs \<le> 100" unfolding health_score_def by auto
  then show ?thesis
    using health_score_100_iff [OF health_checks_penalties, of a x c t]
    by (simp add: computeDealHealth_def Let_def health_status_of_def)
qed

theorem deal_health_sound_witness:
  "let h = computeDealHealth (sample_aggregate Q_rejected []) None DEFAULT_GOVERNANCE 0
   in 0 \<le> dh_score h \<and> dh_score h \<le> 100 \<and> dh_status h \<noteq> H_healthy"
  using deal_health_sound [of "sample_aggregate Q_rejected []" None DEFAULT_GOVERNANCE 0]
  by (simp add: Let_def sample_aggregate_def sample_quote_def)

text \<open>Time alone never improves a deal: with the same quotation, a later evaluation never
  reports a higher score.\<close>

theorem deal_health_decays:
  assumes "t \<le> t'"
  shows "dh_score (computeDealHealth a x c t') \<le> dh_score (computeDealHealth a x c t)"
  using health_score_antimono [OF health_checks_mono [OF assms]] by (simp add: computeDealHealth_def Let_def)

theorem deal_health_decays_witness:
  "dh_score (computeDealHealth (sample_aggregate Q_draft []) None DEFAULT_GOVERNANCE 864000000) \<le>
   dh_score (computeDealHealth (sample_aggregate Q_draft []) None DEFAULT_GOVERNANCE 0)"
  by (rule deal_health_decays) simp

text \<open>The anomaly scan names each kind of anomaly at most once and always against the scanned
  quotation.\<close>

theorem anomalies_once_per_type:
  "distinct (map da_type (detectQuoteAnomalies a x c t)) \<and>
   (\<forall>d\<in>set (detectQuoteAnomalies a x c t). da_quoteId d = Some (qt_id (ag_quote a)) \<and> da_detectedAt d = t)"
  using anomaly_types by (auto simp: detectQuoteAnomalies_def Let_def)

theorem anomalies_once_per_type_witness:
  "distinct (map da_type (detectQuoteAnomalies (sample_aggregate Q_draft []) None DEFAULT_GOVERNANCE 864000000))"
  using anomalies_once_per_type [of "sample_aggregate Q_draft []" None DEFAULT_GOVERNANCE 864000000] by blast

end
