(* ===== verification/Dealflow_Service.thy ===== *)
theory Dealflow_Service
  imports Dealflow_Store Dealflow_Lifecycle Dealflow_Discount Dealflow_Approval Dealflow_Fulfillment
    Dealflow_Billing Dealflow_Governance Dealflow_Health Dealflow_Recommendation Dealflow_Email
begin

text \<open>
  The inner functions of \<open>createDealflowService\<close> in \<open>service.ts\<close> that every handler is built from:
  version checks, audit, notification and publication, \<open>load\<close>, \<open>refreshAssessment\<close>, \<open>decorate\<close>, the
  customer e-mail, the authority guard of commercial writes, the anomaly scan, \<open>saveAssessed\<close>,
  revisions, \<open>maybeReapprove\<close> and \<open>toLine\<close>. A quotation that is loaded is a value; the functions that
  mutate it return it.
\<close>

section \<open>Sinks and configuration\<close>

definition governanceOf :: "env \<Rightarrow> world \<Rightarrow> governance_config" where
  "governanceOf e w = (case e_config e of Some c \<Rightarrow> c | None \<Rightarrow> w_governance w)"

definition hex_digit :: "char \<Rightarrow> bool" where
  "hex_digit c = (let n = (of_char c :: nat) in (48 \<le> n \<and> n \<le> 57) \<or> (97 \<le> n \<and> n \<le> 102) \<or> (65 \<le> n \<and> n \<le> 70))"

definition uuid_pattern :: "string \<Rightarrow> bool" where
  "uuid_pattern s \<longleftrightarrow> length s = 36 \<and>
     (\<forall>i\<in>set [0..<36]. if i \<in> {8, 13, 18, 23} then s ! i = CHR ''-'' else hex_digit (s ! i))"

definition uuidOrNull :: "string option \<Rightarrow> string option" where
  "uuidOrNull v = (case v of None \<Rightarrow> None | Some s \<Rightarrow> if uuid_pattern s then Some s else None)"

definition audit :: "env \<Rightarrow> actor option \<Rightarrow> string \<Rightarrow> string \<Rightarrow> string \<Rightarrow> string \<Rightarrow> unit action" where
  "audit e a action resource resourceId status =
     (if e_hasAudit e then log_event (Ev_audit (map_option act_id a) action resource resourceId status) else ret ())"

definition notify :: "env \<Rightarrow> string option \<Rightarrow> string \<Rightarrow> unit action" where
  "notify e userId title =
     (case userId of None \<Rightarrow> ret ()
      | Some u \<Rightarrow> if u = [] \<or> \<not> e_hasNotify e then ret () else log_event (Ev_notify u title))"

definition publish :: "env \<Rightarrow> string \<Rightarrow> string option \<Rightarrow> unit action" where
  "publish e type quoteId = (if e_hasPublish e then log_event (Ev_publish type quoteId) else ret ())"

definition owner_or :: "quote_aggregate \<Rightarrow> string option \<Rightarrow> string option" where
  "owner_or a other = (case uuidOrNull (qt_ownerId (ag_quote a)) of Some u \<Rightarrow> Some u | None \<Rightarrow> other)"

section \<open>Reading and pricing a quotation\<close>

definition assertExpectedVersion :: "quote_aggregate \<Rightarrow> int \<Rightarrow> unit action" where
  "assertExpectedVersion a expectedVersion =
     ensure (qt_version (ag_quote a) = expectedVersion)
       (conflict (Quotation (Updated_by_another_user (qt_version (ag_quote a)) expectedVersion)))"

definition bumpVersion :: "quote_aggregate \<Rightarrow> quote_aggregate" where
  "bumpVersion a = a\<lparr>ag_quote := (ag_quote a)\<lparr>qt_version := qt_version (ag_quote a) + 1\<rparr>\<rparr>"

definition set_status :: "quote_status \<Rightarrow> quote_aggregate \<Rightarrow> quote_aggregate" where
  "set_status s a = a\<lparr>ag_quote := (ag_quote a)\<lparr>qt_status := s\<rparr>\<rparr>"

abbreviation status_of :: "quote_aggregate \<Rightarrow> quote_status" where
  "status_of a \<equiv> qt_status (ag_quote a)"

definition moveTo :: "quote_status \<Rightarrow> quote_aggregate \<Rightarrow> quote_aggregate action" where
  "moveTo s a = bnd (lift (assertTransition (status_of a) s)) (\<lambda>_. ret (set_status s a))"

definition load :: "string \<Rightarrow> quote_aggregate action" where
  "load i = bnd (store_getQuote i) (\<lambda>found. case found of
     None \<Rightarrow> throw (notFound (Quotation (Quote_not_found i))) | Some a \<Rightarrow> ret a)"

definition load_by_token :: "string \<Rightarrow> quote_aggregate action" where
  "load_by_token token = bnd (store_getQuoteByToken token) (\<lambda>found. case found of
     None \<Rightarrow> throw (notFound (Quotation Portal_token_invalid)) | Some a \<Rightarrow> ret a)"

definition line_with_product :: "product list \<Rightarrow> quote_line \<Rightarrow> (quote_line \<times> product) result" where
  "line_with_product products line = (case find (\<lambda>p. pr_id p = ln_productId line) products of
     None \<Rightarrow> Throw (invalid (Quotation (Unknown_line_product (ln_productId line)))) | Some p \<Rightarrow> Ok (line, p))"

definition write_assessment :: "quote_assessment \<Rightarrow> js_number \<Rightarrow> quote \<Rightarrow> quote" where
  "write_assessment x tax q = q\<lparr>qt_listTotal := qa_listTotal x, qt_discountTotal := qa_discountTotal x,
     qt_netTotal := qa_netTotal x, qt_costTotal := qa_costTotal x, qt_marginPercent := qa_marginPercent x,
     qt_blendedDiscountPercent := qa_blendedDiscountPercent x, qt_riskScore := qa_riskScore x,
     qt_assessmentDecision := qa_decision x, qt_requiredChainId := qa_requiredChainId x, qt_taxTotal := tax\<rparr>"

definition assess_in :: "env \<Rightarrow> world \<Rightarrow> quote_aggregate \<Rightarrow> (quote_assessment \<times> quote_aggregate) result" where
  "assess_in e w a =
     rbind (map_result (line_with_product (w_products w)) (ag_lines a)) (\<lambda>lines.
       let x = assessQuote \<lparr>ai_customerTier = cu_tier (ag_customer a), ai_lines = lines, ai_policies = w_policies w,
                 ai_chains = w_chains w, ai_config = governanceOf e w, ai_actor = None,
                 ai_quantityBreaks = w_quantityBreaks w, ai_roleAuthorities = w_roleAuthorities w,
                 ai_stock = w_stock w, ai_warehouses = w_warehouses w\<rparr>
       in Ok (x, a\<lparr>ag_products := filter (\<lambda>p. \<exists>l\<in>set (ag_lines a). ln_productId l = pr_id p) (w_products w),
                   ag_quote := write_assessment x (computeTaxTotal (ag_lines a) (w_products w) (governanceOf e w)) (ag_quote a)\<rparr>))"

definition refreshAssessment :: "env \<Rightarrow> quote_aggregate \<Rightarrow> (quote_assessment \<times> quote_aggregate) action" where
  "refreshAssessment e a w = (assess_in e w a, w)"

section \<open>Presenting\<close>

record loyalty_view =
  lv_tier :: loyalty_tier
  lv_wonPurchaseCount :: nat
  lv_bonusPercent :: js_number

record presented_quote =
  pv_quote :: quote
  pv_grandTotal :: js_number
  pv_commercials :: commercials
  pv_loyalty :: "loyalty_view option"
  pv_negotiations :: "negotiation_request list option"
  pv_discountAuthority :: "discount_ceiling option"
  pv_customerEmails :: "quote_email_delivery list option"
  pv_health :: deal_health
  pv_odooConfigured :: bool
  pv_customer :: customer
  pv_lines :: "(quote_line \<times> product option) list"
  pv_assessment :: "quote_assessment option"
  pv_approvals :: "quote_approval list"
  pv_allocations :: "fulfillment_split list"
  pv_backorders :: "backorder list"
  pv_shipmentCount :: nat
  pv_fulfillmentCost :: js_number
  pv_backorderQuantity :: js_number
  pv_billing :: "billing_schedule list"
  pv_revisions :: "quote_revision list"

definition present ::
  "env \<Rightarrow> quote_aggregate \<Rightarrow> quote_assessment option \<Rightarrow> loyalty_view option \<Rightarrow> negotiation_request list option \<Rightarrow>
   discount_ceiling option \<Rightarrow> quote_email_delivery list option \<Rightarrow> presented_quote" where
  "present e a x loyalty negotiations authority emails =
     (let q = ag_quote a;
          commercials = hybridCommercials (ag_lines a) (ag_products a) (Some (qt_taxTotal q));
          shipped = filter (\<lambda>i. \<not> fs_isBackorder i) (ag_allocations a)
      in \<lparr>pv_quote = q, pv_grandTotal = qt_netTotal q + qt_taxTotal q, pv_commercials = commercials,
          pv_loyalty = loyalty, pv_negotiations = negotiations, pv_discountAuthority = authority,
          pv_customerEmails = emails,
          pv_health = computeDealHealth a x (case e_config e of None \<Rightarrow> DEFAULT_GOVERNANCE | Some c \<Rightarrow> c) (e_now e),
          pv_odooConfigured = e_odooEnabled e, pv_customer = ag_customer a,
          pv_lines = map (\<lambda>l. (l, find (\<lambda>p. pr_id p = ln_productId l) (ag_products a))) (ag_lines a),
          pv_assessment = x, pv_approvals = ag_approvals a, pv_allocations = ag_allocations a,
          pv_backorders = ag_backorders a, pv_shipmentCount = card (set (map fs_warehouseId shipped)),
          pv_fulfillmentCost = sum_list (map (\<lambda>i. fs_quantity i * fs_unitFulfillmentCost i) shipped),
          pv_backorderQuantity = sum_list (map bo_quantity (ag_backorders a)),
          pv_billing = ag_schedules a, pv_revisions = ag_revisions a\<rparr>)"

definition sync_tier :: "env \<Rightarrow> quote_aggregate \<Rightarrow> customer_tier \<Rightarrow> quote_aggregate action" where
  "sync_tier e a persisted =
     (let c = ag_customer a in
      if cu_email c \<noteq> [] \<and> persist_tier (cu_tier c) \<noteq> persisted
      then bnd (store_upsertCustomer e \<lparr>ci_id = None, ci_name = cu_name c, ci_email = cu_email c, ci_tier = Some persisted\<rparr>)
             (\<lambda>updated. ret (a\<lparr>ag_customer := c\<lparr>cu_tier := cu_tier updated\<rparr>\<rparr>))
      else ret a)"

definition decorate ::
  "env \<Rightarrow> quote_aggregate \<Rightarrow> quote_assessment option \<Rightarrow> actor option \<Rightarrow> bool \<Rightarrow> presented_quote action" where
  "decorate e a x act includeNegotiations =
     bnd (store_countWonPurchases (cu_id (ag_customer a))) (\<lambda>won.
     let tier = wonPurchaseCountToTier won
     in bnd (sync_tier e a (persistCustomerTier (Some (loyalty_tier_name tier)))) (\<lambda>a.
        bnd (gets (governanceOf e)) (\<lambda>config.
        bnd (gets w_roleAuthorities) (\<lambda>authorities.
        bnd (store_listNegotiations (qt_id (ag_quote a))) (\<lambda>negotiations.
        bnd (store_listQuoteEmails (qt_id (ag_quote a))) (\<lambda>emails.
        ret (present e a x
          (Some \<lparr>lv_tier = tier, lv_wonPurchaseCount = won,
                 lv_bonusPercent = loyaltyBonusPercent (Some (loyalty_tier_name tier))\<rparr>)
          (if includeNegotiations then Some negotiations else None)
          (case act of None \<Rightarrow> None
           | Some _ \<Rightarrow> Some (actorDiscountCeiling authorities act (Some (loyalty_tier_name tier)) config))
          (Some emails))))))))"

section \<open>The customer e-mail\<close>

definition new_delivery ::
  "env \<Rightarrow> string \<Rightarrow> quote_aggregate \<Rightarrow> quote_email_event \<Rightarrow> string \<Rightarrow> email_key \<Rightarrow> quote_email_document \<Rightarrow> quote_email_delivery" where
  "new_delivery e i a eventType recipient key doc = \<lparr>em_id = i, em_quoteId = qt_id (ag_quote a), em_eventType = eventType,
     em_quoteVersion = qt_version (ag_quote a), em_recipientEmail = recipient,
     em_status = (if recipient \<noteq> [] then M_pending else M_failed), em_idempotencyKey = key,
     em_notificationDeliveryId = None, em_provider = None, em_providerMessageId = None,
     em_errorMessage = (if recipient \<noteq> [] then None else Some ''Customer email is missing''),
     em_payload = doc, em_sentAt = None, em_createdAt = e_now e, em_updatedAt = e_now e\<rparr>"

definition mapped_status :: "send_status \<Rightarrow> quote_email_status \<Rightarrow> quote_email_status" where
  "mapped_status result current = (case result of
     Send_sent \<Rightarrow> M_sent | Send_not_configured \<Rightarrow> M_not_configured | Send_failed \<Rightarrow> M_failed
   | Send_skipped \<Rightarrow> if current = M_sent then M_sent else if current = M_not_configured then M_not_configured else M_pending)"

definition after_send :: "env \<Rightarrow> send_result \<Rightarrow> quote_email_delivery \<Rightarrow> quote_email_delivery" where
  "after_send e r m =
     (let s = mapped_status (sr_status r) (em_status m)
      in m\<lparr>em_status := s, em_provider := sr_provider r, em_providerMessageId := sr_providerMessageId r,
           em_notificationDeliveryId := sr_notificationDeliveryId r,
           em_errorMessage := (case sr_error r of Some x \<Rightarrow> Some x
             | None \<Rightarrow> if s = M_not_configured then Some ''Email provider is not configured'' else None),
           em_sentAt := (if s = M_sent then Some (e_now e) else None), em_updatedAt := e_now e\<rparr>)"

definition failed_with :: "env \<Rightarrow> string \<Rightarrow> quote_email_delivery \<Rightarrow> quote_email_delivery" where
  "failed_with e msg m = m\<lparr>em_status := M_failed, em_errorMessage := Some msg, em_updatedAt := e_now e\<rparr>"

text \<open>The \<open>try\<close> block: render, send, store the outcome; a throw stores \<open>failed\<close>.\<close>

definition deliver :: "env \<Rightarrow> quote_aggregate \<Rightarrow> quote_email_event \<Rightarrow> quote_email_delivery \<Rightarrow> quote_email_delivery action" where
  "deliver e a eventType m =
     (case e_renderPdf e a (ed_taxTotal (em_payload m)) eventType of
        Inl msg \<Rightarrow> store_saveQuoteEmail (failed_with e msg m)
      | Inr pdf \<Rightarrow>
          (case e_sendCustomerEmail e of
             None \<Rightarrow> store_saveQuoteEmail (m\<lparr>em_status := M_not_configured,
                       em_errorMessage := Some ''Email adapter is not available'', em_updatedAt := e_now e\<rparr>)
           | Some send \<Rightarrow>
               (case send m pdf of
                  Inl msg \<Rightarrow> store_saveQuoteEmail (failed_with e msg m)
                | Inr r \<Rightarrow> store_saveQuoteEmail (after_send e r m))))"

definition open_delivery ::
  "env \<Rightarrow> quote_aggregate \<Rightarrow> quote_email_event \<Rightarrow> email_key \<Rightarrow> quote_email_document \<Rightarrow> quote_email_delivery option \<Rightarrow>
   quote_email_delivery action" where
  "open_delivery e a eventType key doc existing =
     (let recipient = js_trim (cu_email (ag_customer a)) in
      case existing of
        None \<Rightarrow> bnd (randomUUID e) (\<lambda>i. store_saveQuoteEmail (new_delivery e i a eventType recipient key doc))
      | Some m \<Rightarrow> store_saveQuoteEmail (m\<lparr>em_quoteVersion := qt_version (ag_quote a),
          em_recipientEmail := (if recipient \<noteq> [] then recipient else em_recipientEmail m),
          em_payload := doc, em_updatedAt := e_now e\<rparr>))"

definition email_action_name :: "quote_email_event \<Rightarrow> string" where
  "email_action_name ev = (case ev of E_prelim_invoice \<Rightarrow> ''quote.customer_email_prelim_invoice''
     | E_final_invoice \<Rightarrow> ''quote.customer_email_final_invoice'')"

definition settled_email :: "quote_email_delivery option \<Rightarrow> bool" where
  "settled_email m = (case m of None \<Rightarrow> False | Some x \<Rightarrow> em_status x = M_sent \<or> em_status x = M_not_configured)"

definition dispatchCustomerQuoteEmail ::
  "env \<Rightarrow> quote_aggregate \<Rightarrow> quote_email_event \<Rightarrow> actor option \<Rightarrow> quote_email_delivery action" where
  "dispatchCustomerQuoteEmail e a eventType act =
     (let key = customerQuoteEmailKey (qt_id (ag_quote a)) eventType (customerQuoteEmailStamp a eventType) in
      bnd (store_findQuoteEmailByKey key) (\<lambda>existing.
      if settled_email existing then ret (the existing)
      else
        let doc = buildCustomerQuoteDocument a eventType in
        bnd (lift (assertCustomerSafePayload doc)) (\<lambda>_.
        bnd (open_delivery e a eventType key doc existing) (\<lambda>m.
        if js_trim (cu_email (ag_customer a)) = []
        then bnd (audit e act (email_action_name eventType) ''quote'' (qt_id (ag_quote a)) ''failure'') (\<lambda>_. ret m)
        else
          bnd (deliver e a eventType m) (\<lambda>m.
          bnd (audit e act (email_action_name eventType) ''quote'' (qt_id (ag_quote a))
                (if em_status m = M_failed then ''failure'' else ''success'')) (\<lambda>_.
          bnd (notify e (owner_or a (map_option act_id act))
                (if eventType = E_final_invoice then ''Customer final bill email'' else ''Customer provisional invoice email'')) (\<lambda>_.
          bnd (publish e ''quote.updated'' (Some (qt_id (ag_quote a)))) (\<lambda>_. ret m))))))))"

section \<open>Guards\<close>

definition actorHas :: "actor option \<Rightarrow> string \<Rightarrow> bool" where
  "actorHas a permission = (case a of None \<Rightarrow> False
     | Some x \<Rightarrow> (case act_permissions x of None \<Rightarrow> False | Some ps \<Rightarrow> permission \<in> set ps) \<or>
                 ''admin'' \<in> set (actorDiscountRoles a))"

definition canWriteProducts :: "actor option \<Rightarrow> bool" where
  "canWriteProducts a \<longleftrightarrow> actorHas a ''dealflow.catalog.products.write'' \<or> actorHas a ''dealflow.catalog.write''"

definition canManageCustomers :: "actor option \<Rightarrow> bool" where
  "canManageCustomers a \<longleftrightarrow> actorHas a ''dealflow.catalog.write'' \<or> actorHas a ''dealflow.quotes.write''"

definition is_manager :: "actor \<Rightarrow> bool" where
  "is_manager a \<longleftrightarrow> ''manager'' \<in> set (actorDiscountRoles (Some a)) \<or> ''admin'' \<in> set (actorDiscountRoles (Some a))"

definition assertManagerActor :: "actor \<Rightarrow> unit action" where
  "assertManagerActor a = ensure (is_manager a) (forbidden (Authority Only_manager))"

fun all_ok :: "('a \<Rightarrow> unit result) \<Rightarrow> 'a list \<Rightarrow> unit result" where
  "all_ok f [] = Ok ()"
| "all_ok f (x # xs) = rbind (f x) (\<lambda>_. all_ok f xs)"

definition commercial_write ::
  "env \<Rightarrow> world \<Rightarrow> quote_aggregate \<Rightarrow> actor \<Rightarrow> js_number list \<Rightarrow> (js_number \<times> js_number) list \<Rightarrow> unit result" where
  "commercial_write e w a act discounts overrides =
     rbind (check (\<not> isCommerciallyLocked (status_of a) (qt_financeLockedAt (ag_quote a)))
              (conflict (Quotation (Locked_quotation (status_of a))))) (\<lambda>_.
     rbind (check (canMutateCommercials (status_of a)) (conflict (Quotation (Commercials_closed (status_of a))))) (\<lambda>_.
     rbind (check (status_of a = Q_manager_review \<longrightarrow> is_manager act) (forbidden (Authority Only_manager))) (\<lambda>_.
     let tier = Some (loyalty_tier_name (wonPurchaseCountToTier (won_purchases w (cu_id (ag_customer a))))) in
     rbind (all_ok (\<lambda>d. assertDiscountWithinAuthority d (w_roleAuthorities w) (Some act) tier (governanceOf e w)) discounts) (\<lambda>_.
     all_ok (\<lambda>(rulePrice, appliedPrice). assertPriceOverrideWithinAuthority rulePrice appliedPrice (w_roleAuthorities w) (Some act))
       overrides))))"

definition assertCommercialWrite ::
  "env \<Rightarrow> quote_aggregate \<Rightarrow> actor \<Rightarrow> js_number list \<Rightarrow> (js_number \<times> js_number) list \<Rightarrow> unit action" where
  "assertCommercialWrite e a act discounts overrides w = (commercial_write e w a act discounts overrides, w)"

section \<open>Saving\<close>

definition persist_anomaly :: "env \<Rightarrow> quote_aggregate \<Rightarrow> actor option \<Rightarrow> dealflow_anomaly list \<Rightarrow> detected_anomaly \<Rightarrow> unit action" where
  "persist_anomaly e a act existing d =
     (if \<exists>row\<in>set existing. an_type row = da_type d \<and> an_entityId row = da_entityId d \<and> an_status row = AN_open then ret ()
      else bnd (randomUUID e) (\<lambda>i.
        bnd (store_upsertAnomaly \<lparr>an_id = i, an_type = da_type d, an_severity = da_severity d, an_entityType = da_entityType d,
               an_entityId = da_entityId d, an_quoteId = da_quoteId d, an_description = da_description d,
               an_status = AN_open, an_resolution = None, an_resolverId = None, an_detectedAt = da_detectedAt d,
               an_updatedAt = da_detectedAt d\<rparr>) (\<lambda>saved.
        bnd (notify e (uuidOrNull (qt_ownerId (ag_quote a))) ''Anomaly detected'') (\<lambda>_.
        bnd (audit e act ''anomaly.detected'' ''anomaly'' (an_id saved) ''success'') (\<lambda>_.
        publish e ''anomaly.created'' (Some (qt_id (ag_quote a))))))))"

definition persistAnomalies :: "env \<Rightarrow> quote_aggregate \<Rightarrow> quote_assessment option \<Rightarrow> actor option \<Rightarrow> unit action" where
  "persistAnomalies e a x act =
     bnd (gets (governanceOf e)) (\<lambda>config.
     bnd (gets w_anomalies) (\<lambda>existing.
     each (persist_anomaly e a act existing) (detectQuoteAnomalies a x config (e_now e))))"

definition touch :: "env \<Rightarrow> quote_aggregate \<Rightarrow> quote_aggregate" where
  "touch e a = a\<lparr>ag_quote := (ag_quote a)\<lparr>qt_updatedAt := e_now e\<rparr>\<rparr>"

definition saveAssessed :: "env \<Rightarrow> quote_aggregate \<Rightarrow> actor option \<Rightarrow> (quote_aggregate \<times> quote_assessment) action" where
  "saveAssessed e a act =
     bnd (refreshAssessment e a) (\<lambda>(x, a).
     bnd (store_saveQuote (touch e a)) (\<lambda>saved.
     bnd (persistAnomalies e saved (Some x) act) (\<lambda>_.
     bnd (publish e ''quote.updated'' (Some (qt_id (ag_quote saved)))) (\<lambda>_.
     ret (saved, x)))))"

definition appendRevision :: "env \<Rightarrow> quote_aggregate \<Rightarrow> actor option \<Rightarrow> bool \<Rightarrow> quote_aggregate action" where
  "appendRevision e a act materialChange =
     bnd (randomUUID e) (\<lambda>i.
     ret (a\<lparr>ag_revisions := ag_revisions a @
       [\<lparr>rv_id = i, rv_quoteId = qt_id (ag_quote a), rv_version = qt_version (ag_quote a),
         rv_snapshot = \<lparr>rs_status = status_of a, rs_lines = ag_lines a,
           rs_blendedDiscountPercent = qt_blendedDiscountPercent (ag_quote a), rs_netTotal = qt_netTotal (ag_quote a)\<rparr>,
         rv_materialChange = materialChange, rv_createdBy = uuidOrNull (map_option act_id act),
         rv_createdAt = e_now e\<rparr>]\<rparr>))"

definition reapprove :: "env \<Rightarrow> quote_aggregate \<Rightarrow> quote_assessment \<Rightarrow> quote_aggregate action" where
  "reapprove e a x =
     bnd (gets w_chains) (\<lambda>chains.
     case (case qa_requiredChainId x of None \<Rightarrow> None | Some i \<Rightarrow> find (\<lambda>c. ch_id c = i) chains) of
       None \<Rightarrow> throw (conflict (Quotation No_chain_for_material_change))
     | Some chain \<Rightarrow>
         bnd (gets (\<lambda>w. gc_maxApprovalLevels (governanceOf e w))) (\<lambda>maxLevels.
         bnd (drawing e (\<lambda>fresh. Ok (buildApprovalSteps fresh (qt_id (ag_quote a)) chain maxLevels)) length) (\<lambda>steps.
         moveTo Q_approval_required (a\<lparr>ag_approvals := invalidateApprovals (ag_approvals a) @ steps\<rparr>))))"

text \<open>The totals before the change that \<open>isMaterialChange\<close> compares with.\<close>

definition totals_before :: "quote_aggregate \<Rightarrow> js_number \<times> js_number" where
  "totals_before a = (qt_blendedDiscountPercent (ag_quote a), qt_netTotal (ag_quote a))"

definition maybeReapprove ::
  "env \<Rightarrow> quote_aggregate \<Rightarrow> js_number \<times> js_number \<Rightarrow> (quote_aggregate \<times> bool) action" where
  "maybeReapprove e a before =
     bnd (refreshAssessment e a) (\<lambda>(x, a).
     bnd (gets (governanceOf e)) (\<lambda>config.
     if \<not> isMaterialChange before (qa_blendedDiscountPercent x, qa_netTotal x) config then ret (a, False)
     else if status_of a = Q_approved then bnd (reapprove e a x) (\<lambda>a. ret (a, True))
     else ret (a, True)))"

definition finishMutation :: "env \<Rightarrow> quote_aggregate \<Rightarrow> actor option \<Rightarrow> bool \<Rightarrow> quote_aggregate action" where
  "finishMutation e a act material =
     (if material then appendRevision e (bumpVersion a) act True else ret (bumpVersion a))"

record line_input =
  li_productId :: string
  li_quantity :: js_number
  li_discountPercent :: js_number

definition toLine :: "env \<Rightarrow> string \<Rightarrow> line_input \<Rightarrow> quantity_break list \<Rightarrow> quote_line action" where
  "toLine e quoteId input breaks =
     bnd (ensure (\<not> li_quantity input \<le> 0) (invalid (Quotation Quantity_not_positive))) (\<lambda>_.
     bnd (ensure (\<not> (li_discountPercent input < 0 \<or> li_discountPercent input > 100)) (invalid (Quotation Discount_out_of_range))) (\<lambda>_.
     bnd (store_getProduct (li_productId input)) (\<lambda>product.
     case product of
       None \<Rightarrow> throw (notFound (Catalog (Product_not_found (li_productId input))))
     | Some p \<Rightarrow>
         bnd (ensure (pr_active p \<noteq> Some False) (invalid (Catalog (Product_inactive (li_productId input))))) (\<lambda>_.
         bnd (randomUUID e) (\<lambda>i.
         ret \<lparr>ln_id = i, ln_quoteId = quoteId, ln_productId = pr_id p, ln_quantity = li_quantity input,
              ln_listPrice = rp_unitPrice (resolveUnitPrice p (li_quantity input) breaks None),
              ln_discountPercent = li_discountPercent input, ln_unitCost = pr_cost p, ln_recommendedFromId = None\<rparr>)))))"

end
