(* ===== verification/Dealflow_Quotes.thy ===== *)
theory Dealflow_Quotes
  imports Dealflow_Service
begin

text \<open>
  The handlers of \<open>service.ts\<close> that draft a quotation and take it through approval: \<open>createQuote\<close>,
  \<open>deleteQuote\<close>, \<open>voidQuote\<close>, \<open>addLine\<close>, \<open>updateLine\<close>, \<open>removeLine\<close>, \<open>assess\<close>, \<open>submit\<close>, \<open>decide\<close>, and the
  reads \<open>getQuote\<close>, \<open>listQuotes\<close>, \<open>getQuoteByToken\<close>. For a handler that loads a quotation, edits it
  and saves it, \<open><handler>_edit\<close> is the part between the load and \<open>saveAssessed\<close>; the handler itself
  is that part with the load, the save and the calls after it.
\<close>

section \<open>Reads\<close>

record portal_line =
  pl_id :: string
  pl_quantity :: js_number
  pl_listPrice :: js_number
  pl_discountPercent :: js_number
  pl_product :: "(string \<times> string \<times> billing_type \<times> billing_frequency option \<times> string option) option"

record portal_view =
  vw_id :: string
  vw_number :: string
  vw_status :: quote_status
  vw_createdAt :: int
  vw_listTotal :: js_number
  vw_discountTotal :: js_number
  vw_netTotal :: js_number
  vw_blendedDiscountPercent :: js_number
  vw_version :: int
  vw_taxTotal :: js_number
  vw_grandTotal :: js_number
  vw_recurringMonthly :: js_number
  vw_recurringAnnual :: js_number
  vw_commercials :: "commercials option"
  vw_loyalty :: "loyalty_view option"
  vw_negotiations :: "negotiation_request list"
  vw_customerDecision :: customer_decision
  vw_customerName :: string
  vw_lines :: "portal_line list"

definition portal_line_of :: "quote_line \<times> product option \<Rightarrow> portal_line" where
  "portal_line_of lp = (let (l, p) = lp in
     \<lparr>pl_id = ln_id l, pl_quantity = ln_quantity l, pl_listPrice = ln_listPrice l, pl_discountPercent = ln_discountPercent l,
      pl_product = map_option (\<lambda>x. (pr_name x, pr_sku x, pr_billingType x, pr_billingFrequency x, pr_description x)) p\<rparr>)"

text \<open>The commercials, the loyalty standing and the negotiations are optional in the argument of \<open>toPortalView\<close>.\<close>

definition portal_view_of ::
  "quote \<Rightarrow> commercials option \<Rightarrow> loyalty_view option \<Rightarrow> negotiation_request list option \<Rightarrow> string \<Rightarrow>
   (quote_line \<times> product option) list \<Rightarrow> portal_view" where
  "portal_view_of q commercials loyalty negotiations customerName ls =
     \<lparr>vw_id = qt_id q, vw_number = qt_number q, vw_status = qt_status q, vw_createdAt = qt_createdAt q,
      vw_listTotal = qt_listTotal q, vw_discountTotal = qt_discountTotal q, vw_netTotal = qt_netTotal q,
      vw_blendedDiscountPercent = qt_blendedDiscountPercent q, vw_version = qt_version q, vw_taxTotal = qt_taxTotal q,
      vw_grandTotal = qt_netTotal q + qt_taxTotal q,
      vw_recurringMonthly = (case commercials of None \<Rightarrow> 0 | Some c \<Rightarrow> hc_recurringMonthly c),
      vw_recurringAnnual = (case commercials of None \<Rightarrow> 0 | Some c \<Rightarrow> hc_recurringAnnual c),
      vw_commercials = commercials, vw_loyalty = loyalty,
      vw_negotiations = (case negotiations of None \<Rightarrow> [] | Some ns \<Rightarrow> ns),
      vw_customerDecision = qt_customerDecision q, vw_customerName = customerName,
      vw_lines = map portal_line_of ls\<rparr>"

definition toPortalView :: "presented_quote \<Rightarrow> portal_view" where
  "toPortalView v = portal_view_of (pv_quote v) (Some (pv_commercials v)) (pv_loyalty v) (pv_negotiations v)
     (cu_name (pv_customer v)) (pv_lines v)"

definition getQuote :: "env \<Rightarrow> string \<Rightarrow> actor option \<Rightarrow> presented_quote action" where
  "getQuote e i act =
     bnd (load i) (\<lambda>a. bnd (refreshAssessment e a) (\<lambda>(x, a). decorate e a (Some x) act True))"

fun decorate_all :: "env \<Rightarrow> quote_aggregate list \<Rightarrow> presented_quote list action" where
  "decorate_all e [] = ret []"
| "decorate_all e (a # as) = bnd (decorate e a None None True) (\<lambda>v. bnd (decorate_all e as) (\<lambda>vs. ret (v # vs)))"

definition listQuotes :: "env \<Rightarrow> presented_quote list action" where
  "listQuotes e = bnd store_listQuoteSummaries (decorate_all e)"

definition getQuoteByToken :: "env \<Rightarrow> string \<Rightarrow> portal_view action" where
  "getQuoteByToken e token =
     bnd (load_by_token token) (\<lambda>a.
     bnd (refreshAssessment e a) (\<lambda>(_, a).
     bnd (decorate e a None None True) (\<lambda>v. ret (toPortalView v))))"

section \<open>Creating, deleting, voiding\<close>

record create_input =
  cr_customerId :: string
  cr_ownerId :: "string option"
  cr_lines :: "line_input list"

definition new_quote :: "env \<Rightarrow> string \<Rightarrow> string \<Rightarrow> string \<Rightarrow> string \<Rightarrow> string \<Rightarrow> quote" where
  "new_quote e i number customerId ownerId token = \<lparr>qt_id = i, qt_number = number, qt_customerId = customerId,
     qt_ownerId = Some ownerId, qt_status = Q_draft, qt_listTotal = 0, qt_discountTotal = 0, qt_netTotal = 0, qt_costTotal = 0,
     qt_marginPercent = 0, qt_blendedDiscountPercent = 0, qt_riskScore = 0, qt_assessmentDecision = D_allowed,
     qt_requiredChainId = None, qt_portalToken = token, qt_version = 1, qt_odooSaleOrderId = None, qt_taxTotal = 0,
     qt_customerDecision = C_none, qt_customerDecisionAt = None, qt_customerDecisionComment = None,
     qt_customerDecisionVersion = None, qt_commerciallyFrozenAt = None, qt_commerciallyFrozenBy = None,
     qt_financeLockedAt = None, qt_financeLockedBy = None, qt_activeNegotiationId = None,
     qt_createdAt = e_now e, qt_updatedAt = e_now e\<rparr>"

fun to_lines :: "env \<Rightarrow> string \<Rightarrow> quantity_break list \<Rightarrow> line_input list \<Rightarrow> quote_line list action" where
  "to_lines e q breaks [] = ret []"
| "to_lines e q breaks (x # xs) =
     bnd (toLine e q x breaks) (\<lambda>l. bnd (to_lines e q breaks xs) (\<lambda>ls. ret (l # ls)))"

definition create_edit :: "env \<Rightarrow> create_input \<Rightarrow> actor \<Rightarrow> quote_aggregate action" where
  "create_edit e input act =
     bnd (store_getCustomer (cr_customerId input)) (\<lambda>found.
     case found of
       None \<Rightarrow> throw (notFound (Catalog (Customer_not_found (cr_customerId input))))
     | Some customer \<Rightarrow>
         bnd (randomUUID e) (\<lambda>i.
         bnd store_nextQuoteNumber (\<lambda>number.
         bnd (store_newPortalToken e) (\<lambda>token.
         let q = new_quote e i number (cu_id customer) (case cr_ownerId input of Some o' \<Rightarrow> o' | None \<Rightarrow> act_id act) token;
             draft = (emptyAggregate q [])\<lparr>ag_customer := customer\<rparr>
         in bnd (gets w_quantityBreaks) (\<lambda>breaks.
            bnd (assertCommercialWrite e draft act (map li_discountPercent (cr_lines input)) []) (\<lambda>_.
            bnd (to_lines e i breaks (cr_lines input)) (\<lambda>lines.
            ret (draft\<lparr>ag_lines := lines\<rparr>))))))))"

definition createQuote :: "env \<Rightarrow> create_input \<Rightarrow> actor \<Rightarrow> presented_quote action" where
  "createQuote e input act =
     bnd (create_edit e input act) (\<lambda>a.
     bnd (saveAssessed e a (Some act)) (\<lambda>(saved, x).
     bnd (audit e (Some act) ''quote.created'' ''quote'' (qt_id (ag_quote saved)) ''success'') (\<lambda>_.
     decorate e saved (Some x) (Some act) True)))"

definition deleteQuote :: "env \<Rightarrow> string \<Rightarrow> actor \<Rightarrow> int \<Rightarrow> unit action" where
  "deleteQuote e quoteId act expectedVersion =
     bnd (ensure (actorHas (Some act) ''dealflow.quotes.write'') (forbidden (Authority (Not_allowed ''delete quotations'')))) (\<lambda>_.
     bnd (load quoteId) (\<lambda>a.
     bnd (assertExpectedVersion a expectedVersion) (\<lambda>_.
     bnd (ensure (\<not> isCommerciallyLocked (status_of a) (qt_financeLockedAt (ag_quote a)))
            (conflict (Workflow (Locked_order (status_of a))))) (\<lambda>_.
     bnd (ensure (canDeleteQuote (status_of a))
            (conflict (Workflow (if canVoidQuote (status_of a) then Void_instead (status_of a) else Cannot_delete (status_of a))))) (\<lambda>_.
     bnd (store_deleteQuote quoteId) (\<lambda>_.
     bnd (audit e (Some act) ''quote.deleted'' ''quote'' quoteId ''success'') (\<lambda>_.
     publish e ''quote.deleted'' (Some quoteId))))))))"

definition void_edit :: "actor \<Rightarrow> int \<Rightarrow> quote_aggregate \<Rightarrow> quote_aggregate action" where
  "void_edit act expectedVersion a =
     bnd (assertExpectedVersion a expectedVersion) (\<lambda>_.
     bnd (ensure (\<not> isCommerciallyLocked (status_of a) (qt_financeLockedAt (ag_quote a)))
            (conflict (Workflow (Locked_order (status_of a))))) (\<lambda>_.
     bnd (ensure (canVoidQuote (status_of a))
            (conflict (Workflow (if canDeleteQuote (status_of a) then Delete_instead (status_of a) else Cannot_void (status_of a))))) (\<lambda>_.
     bnd (ensure (status_of a \<in> {Q_approval_required, Q_approved, Q_finalized} \<longrightarrow> actorHas (Some act) ''dealflow.quotes.approve'')
            (forbidden (Authority (Not_allowed ''void a quote in the approval pipeline'')))) (\<lambda>_.
     bnd (moveTo Q_rejected a) (\<lambda>a. ret (bumpVersion a))))))"

definition voidQuote :: "env \<Rightarrow> string \<Rightarrow> actor \<Rightarrow> int \<Rightarrow> presented_quote action" where
  "voidQuote e quoteId act expectedVersion =
     bnd (ensure (actorHas (Some act) ''dealflow.quotes.write'') (forbidden (Authority (Not_allowed ''void quotations'')))) (\<lambda>_.
     bnd (load quoteId) (\<lambda>a.
     bnd (void_edit act expectedVersion a) (\<lambda>a.
     bnd (saveAssessed e a (Some act)) (\<lambda>(saved, x).
     bnd (audit e (Some act) ''quote.voided'' ''quote'' quoteId ''success'') (\<lambda>_.
     bnd (notify e (owner_or saved (Some (act_id act))) ''Quotation voided'') (\<lambda>_.
     decorate e saved (Some x) (Some act) True))))))"

section \<open>Lines\<close>

text \<open>\<open>maybeReapprove\<close> followed by \<open>finishMutation\<close>, as every commercial edit ends.\<close>

definition settle_mutation :: "env \<Rightarrow> quote_aggregate \<Rightarrow> js_number \<times> js_number \<Rightarrow> actor option \<Rightarrow> quote_aggregate action" where
  "settle_mutation e a before act =
     bnd (maybeReapprove e a before) (\<lambda>(a, material). finishMutation e a act material)"

definition addLine_edit :: "env \<Rightarrow> line_input \<Rightarrow> int \<Rightarrow> actor \<Rightarrow> quote_aggregate \<Rightarrow> quote_aggregate action" where
  "addLine_edit e input expectedVersion act a =
     bnd (assertExpectedVersion a expectedVersion) (\<lambda>_.
     bnd (assertCommercialWrite e a act [li_discountPercent input] []) (\<lambda>_.
     bnd (gets w_quantityBreaks) (\<lambda>breaks.
     bnd (toLine e (qt_id (ag_quote a)) input breaks) (\<lambda>l.
     settle_mutation e (a\<lparr>ag_lines := ag_lines a @ [l]\<rparr>) (totals_before a) (Some act)))))"

definition addLine :: "env \<Rightarrow> string \<Rightarrow> line_input \<Rightarrow> int \<Rightarrow> actor \<Rightarrow> presented_quote action" where
  "addLine e quoteId input expectedVersion act =
     bnd (load quoteId) (\<lambda>a.
     bnd (addLine_edit e input expectedVersion act a) (\<lambda>a.
     bnd (saveAssessed e a (Some act)) (\<lambda>(saved, x).
     bnd (audit e (Some act) ''quote.line_added'' ''quote'' quoteId ''success'') (\<lambda>_.
     decorate e saved (Some x) (Some act) True))))"

record line_patch =
  lp_productId :: "string option"
  lp_quantity :: "js_number option"
  lp_discountPercent :: "js_number option"
  lp_unitPrice :: "js_number option"

definition or_else :: "'a option \<Rightarrow> 'a \<Rightarrow> 'a" where
  "or_else v d = (case v of None \<Rightarrow> d | Some x \<Rightarrow> x)"

definition patch_quantities :: "js_number option \<Rightarrow> js_number option \<Rightarrow> quote_line \<Rightarrow> quote_line" where
  "patch_quantities q d l = l\<lparr>ln_quantity := or_else q (ln_quantity l), ln_discountPercent := or_else d (ln_discountPercent l)\<rparr>"

definition set_line :: "string \<Rightarrow> quote_line \<Rightarrow> quote_aggregate \<Rightarrow> quote_aggregate" where
  "set_line i l a = a\<lparr>ag_lines := update_first (\<lambda>x. ln_id x = i) (\<lambda>_. l) (ag_lines a)\<rparr>"

definition rule_price :: "world \<Rightarrow> customer_tier \<Rightarrow> quote_line \<Rightarrow> js_number" where
  "rule_price w tier l = (case find (\<lambda>p. pr_id p = ln_productId l) (w_products w) of
     None \<Rightarrow> ln_listPrice l | Some p \<Rightarrow> rp_unitPrice (resolveUnitPrice p (ln_quantity l) (w_quantityBreaks w) (Some tier)))"

definition reprice_line :: "env \<Rightarrow> string \<Rightarrow> line_patch \<Rightarrow> quantity_break list \<Rightarrow> js_number \<Rightarrow> quote_line \<Rightarrow> quote_line action" where
  "reprice_line e quoteId input breaks rulePrice l =
     (if truthy (lp_productId input) \<and> lp_productId input \<noteq> Some (ln_productId l)
      then bnd (toLine e quoteId \<lparr>li_productId = the (lp_productId input), li_quantity = ln_quantity l,
                  li_discountPercent = ln_discountPercent l\<rparr> breaks) (\<lambda>r.
             ret (l\<lparr>ln_productId := ln_productId r, ln_listPrice := ln_listPrice r, ln_unitCost := ln_unitCost r\<rparr>))
      else case lp_unitPrice input of
             Some u \<Rightarrow> ret (l\<lparr>ln_listPrice := u\<rparr>)
           | None \<Rightarrow> if lp_quantity input \<noteq> None then ret (l\<lparr>ln_listPrice := rulePrice\<rparr>) else ret l)"

definition updateLine_edit :: "env \<Rightarrow> string \<Rightarrow> line_patch \<Rightarrow> int \<Rightarrow> actor \<Rightarrow> quote_aggregate \<Rightarrow> quote_aggregate action" where
  "updateLine_edit e lineId input expectedVersion act a =
     bnd (assertExpectedVersion a expectedVersion) (\<lambda>_.
     case find (\<lambda>l. ln_id l = lineId) (ag_lines a) of
       None \<Rightarrow> throw (notFound (Quotation (Line_not_found lineId)))
     | Some line \<Rightarrow>
         let l = patch_quantities (lp_quantity input) (lp_discountPercent input) line in
         bnd (ensure (case lp_unitPrice input of None \<Rightarrow> True | Some u \<Rightarrow> \<not> u < 0) (invalid (Quotation Unit_price_negative))) (\<lambda>_.
         bnd (gets w_quantityBreaks) (\<lambda>breaks.
         bnd (gets (\<lambda>w. rule_price w (cu_tier (ag_customer a)) l)) (\<lambda>rulePrice.
         bnd (reprice_line e (qt_id (ag_quote a)) input breaks rulePrice l) (\<lambda>l.
         bnd (assertCommercialWrite e (set_line lineId l a) act [ln_discountPercent l]
                (if lp_unitPrice input \<noteq> None then [(rulePrice, ln_listPrice l)] else [])) (\<lambda>_.
         settle_mutation e (set_line lineId l a) (totals_before a) (Some act)))))))"

definition updateLine :: "env \<Rightarrow> string \<Rightarrow> string \<Rightarrow> line_patch \<Rightarrow> int \<Rightarrow> actor \<Rightarrow> presented_quote action" where
  "updateLine e quoteId lineId input expectedVersion act =
     bnd (load quoteId) (\<lambda>a.
     bnd (updateLine_edit e lineId input expectedVersion act a) (\<lambda>a.
     bnd (saveAssessed e a (Some act)) (\<lambda>(saved, x).
     bnd (audit e (Some act) ''quote.discount_changed'' ''quote'' quoteId ''success'') (\<lambda>_.
     decorate e saved (Some x) (Some act) True))))"

definition removeLine_edit :: "env \<Rightarrow> string \<Rightarrow> int \<Rightarrow> actor \<Rightarrow> quote_aggregate \<Rightarrow> quote_aggregate action" where
  "removeLine_edit e lineId expectedVersion act a =
     bnd (assertExpectedVersion a expectedVersion) (\<lambda>_.
     bnd (assertCommercialWrite e a act [] []) (\<lambda>_.
     settle_mutation e (a\<lparr>ag_lines := filter (\<lambda>l. ln_id l \<noteq> lineId) (ag_lines a)\<rparr>) (totals_before a) (Some act)))"

definition removeLine :: "env \<Rightarrow> string \<Rightarrow> string \<Rightarrow> int \<Rightarrow> actor \<Rightarrow> presented_quote action" where
  "removeLine e quoteId lineId expectedVersion act =
     bnd (load quoteId) (\<lambda>a.
     bnd (removeLine_edit e lineId expectedVersion act a) (\<lambda>a.
     bnd (saveAssessed e a (Some act)) (\<lambda>(saved, x).
     bnd (audit e (Some act) ''quote.line_removed'' ''quote'' quoteId ''success'') (\<lambda>_.
     decorate e saved (Some x) (Some act) True))))"

definition assess :: "env \<Rightarrow> string \<Rightarrow> actor option \<Rightarrow> presented_quote action" where
  "assess e quoteId act =
     bnd (load quoteId) (\<lambda>a.
     bnd (refreshAssessment e a) (\<lambda>(x, a).
     bnd (store_saveQuote a) (\<lambda>_. decorate e a (Some x) act True)))"

section \<open>Approval\<close>

text \<open>The edit of \<open>submit\<close> also returns the assessment it decided on; the calls after the save read it.\<close>

definition submit_edit :: "env \<Rightarrow> actor \<Rightarrow> quote_aggregate \<Rightarrow> (quote_aggregate \<times> quote_assessment) action" where
  "submit_edit e act a =
     bnd (ensure (status_of a = Q_finalized) (conflict (Workflow (Not_finalized (status_of a))))) (\<lambda>_.
     bnd (ensure (ag_lines a \<noteq> []) (invalid (Workflow Needs_a_line))) (\<lambda>_.
     bnd (refreshAssessment e a) (\<lambda>(x, a).
     bnd (ensure (qa_decision x \<noteq> D_rejected) (conflict (Workflow Exceeds_reject_ceilings))) (\<lambda>_.
     bnd (gets w_chains) (\<lambda>chains.
     let chain = (case qa_requiredChainId x of None \<Rightarrow> None | Some i \<Rightarrow> find (\<lambda>c. ch_id c = i) chains) in
     bnd (gets (\<lambda>w. gc_maxApprovalLevels (governanceOf e w))) (\<lambda>maxLevels.
     bnd (drawing e (\<lambda>fresh. autoApproveIfAllowed fresh (e_now e) (qt_id (ag_quote a)) x chain act maxLevels) length) (\<lambda>approvals.
     bnd (moveTo (if qa_decision x = D_allowed \<or> qa_decision x = D_warning then Q_approved else Q_approval_required)
            (bumpVersion (a\<lparr>ag_approvals := approvals\<rparr>))) (\<lambda>a.
     ret (a, x)))))))))"

definition submit :: "env \<Rightarrow> string \<Rightarrow> actor \<Rightarrow> presented_quote action" where
  "submit e quoteId act =
     bnd (load quoteId) (\<lambda>a.
     bnd (submit_edit e act a) (\<lambda>(a, x).
     bnd (saveAssessed e a (Some act)) (\<lambda>(saved, _).
     bnd (audit e (Some act) ''quote.submitted'' ''quote'' quoteId ''success'') (\<lambda>_.
     bnd (unless (status_of saved \<noteq> Q_approval_required)
            (bnd (notify e (Some (act_id act)) ''Approval requested'') (\<lambda>_.
             unless (\<not> (qa_highValue x \<or> qa_mergeRisk x))
               (notify e (Some (act_id act)) (if qa_highValue x then ''High-value approval required'' else ''Approval merge risk''))))) (\<lambda>_.
     bnd (if status_of saved = Q_approved
          then bnd (dispatchCustomerQuoteEmail e saved E_prelim_invoice (Some act)) (\<lambda>_. ret ()) else ret ()) (\<lambda>_.
     decorate e saved (Some x) (Some act) True))))))"

definition decide_edit ::
  "env \<Rightarrow> string \<Rightarrow> approval_decision \<Rightarrow> string \<Rightarrow> actor \<Rightarrow> quote_aggregate \<Rightarrow> quote_aggregate action" where
  "decide_edit e approvalId decision reason act a =
     bnd (ensure (status_of a = Q_approval_required) (conflict (Workflow Not_waiting_for_approval))) (\<lambda>_.
     bnd (lift (applyApprovalDecision (e_now e) (ag_approvals a) approvalId act decision reason
                 (status_of a, qt_riskScore (ag_quote a)))) (\<lambda>approvals.
     let a = a\<lparr>ag_approvals := approvals\<rparr> in
     bnd (if decision = Reject
          then bnd (moveTo Q_rejected a) (\<lambda>a.
               bnd (audit e (Some act) ''quote.rejected'' ''quote'' (qt_id (ag_quote a)) ''success'') (\<lambda>_. ret a))
          else if allRequiredApproved approvals
          then bnd (moveTo Q_approved a) (\<lambda>a.
               bnd (audit e (Some act) ''quote.approved'' ''quote'' (qt_id (ag_quote a)) ''success'') (\<lambda>_. ret a))
          else bnd (audit e (Some act) ''quote.approval_step'' ''quote'' (qt_id (ag_quote a)) ''success'') (\<lambda>_. ret a)) (\<lambda>a.
     ret (bumpVersion a))))"

definition decide :: "env \<Rightarrow> string \<Rightarrow> string \<Rightarrow> approval_decision \<Rightarrow> string \<Rightarrow> actor \<Rightarrow> presented_quote action" where
  "decide e quoteId approvalId decision reason act =
     bnd (load quoteId) (\<lambda>a.
     bnd (decide_edit e approvalId decision reason act a) (\<lambda>a.
     bnd (saveAssessed e a (Some act)) (\<lambda>(saved, x).
     bnd (notify e (owner_or saved (Some (act_id act))) (if decision = Approve then ''Approval recorded'' else ''Quote returned'')) (\<lambda>_.
     bnd (store_listQuoteEmails (qt_id (ag_quote saved))) (\<lambda>emails.
     let decided = find (\<lambda>i. ap_id i = approvalId) (ag_approvals saved);
         alreadyPrelim = list_ex (\<lambda>m. em_eventType m = E_prelim_invoice) emails
     in bnd (if decision = Approve \<and> (map_option ap_roleKey decided = Some R_manager \<or>
                  (status_of saved = Q_approved \<and> \<not> alreadyPrelim))
             then bnd (dispatchCustomerQuoteEmail e saved E_prelim_invoice (Some act)) (\<lambda>_. ret ()) else ret ()) (\<lambda>_.
        decorate e saved (Some x) (Some act) True))))))"

end
