(* ===== verification/Dealflow_Negotiation.thy ===== *)
theory Dealflow_Negotiation
  imports Dealflow_Quotes
begin

text \<open>
  The negotiation handlers of \<open>service.ts\<close>: \<open>startNegotiation\<close>, \<open>createNegotiationRequest\<close>,
  \<open>respondToNegotiation\<close>, \<open>sendNegotiationToManager\<close>, \<open>reviseAsManager\<close>, \<open>returnRevisedQuote\<close>,
  \<open>agreeToFinal\<close>, \<open>finalizeQuotation\<close>, and the customer portal: \<open>createPortalNegotiation\<close>,
  \<open>applyPortalChange\<close>, \<open>applyPortalDecision\<close>.
\<close>

section \<open>Opening a negotiation\<close>

definition startNegotiation_edit :: "env \<Rightarrow> actor \<Rightarrow> quote_aggregate \<Rightarrow> quote_aggregate action" where
  "startNegotiation_edit e act a =
     bnd (gets w_roleAuthorities) (\<lambda>authorities.
     bnd (ensure (case selectRoleAuthority authorities (Some act) of None \<Rightarrow> True | Some x \<Rightarrow> ra_canNegotiate x)
            (forbidden (Authority Role_cannot_negotiate))) (\<lambda>_.
     bnd (ensure (status_of a = Q_draft \<or> status_of a = Q_rejected) (conflict (Negotiation Only_draft_negotiation))) (\<lambda>_.
     bnd (moveTo Q_customer_negotiation a) (\<lambda>a. ret (bumpVersion a)))))"

definition startNegotiation :: "env \<Rightarrow> string \<Rightarrow> actor \<Rightarrow> presented_quote action" where
  "startNegotiation e quoteId act =
     bnd (load quoteId) (\<lambda>a.
     bnd (startNegotiation_edit e act a) (\<lambda>a.
     bnd (saveAssessed e a (Some act)) (\<lambda>(saved, x).
     bnd (audit e (Some act) ''quote.negotiation_started'' ''quote'' quoteId ''success'') (\<lambda>_.
     decorate e saved (Some x) (Some act) True))))"

record negotiation_input =
  ni_expectedVersion :: "int option"
  ni_note :: string
  ni_requestedDiscountPercent :: "js_number option"
  ni_requestedTargetAmount :: "js_number option"
  ni_requestedLines :: "negotiation_requested_line list"
  ni_actorId :: "string option"
  ni_actorRole :: "string option"

definition requested_line :: "quote_line list \<Rightarrow> negotiation_requested_line \<Rightarrow> quote_line option" where
  "requested_line lines r = find (\<lambda>l. Some (ln_id l) = nl_lineId r) lines"

definition or_option :: "'a option \<Rightarrow> 'a option \<Rightarrow> 'a option" where
  "or_option x y = (case x of None \<Rightarrow> y | Some _ \<Rightarrow> x)"

definition with_originals :: "quote_line list \<Rightarrow> negotiation_requested_line \<Rightarrow> negotiation_requested_line" where
  "with_originals lines r = r\<lparr>
     nl_originalQuantity := or_option (nl_originalQuantity r) (map_option ln_quantity (requested_line lines r)),
     nl_originalDiscountPercent := or_option (nl_originalDiscountPercent r) (map_option ln_discountPercent (requested_line lines r))\<rparr>"

definition apply_requested_quantity :: "quote_line list \<Rightarrow> negotiation_requested_line \<Rightarrow> quote_line list" where
  "apply_requested_quantity lines r =
     (if nl_action r = Some LA_remove then lines
      else case nl_quantity r of None \<Rightarrow> lines
           | Some q \<Rightarrow> update_first (\<lambda>l. Some (ln_id l) = nl_lineId r) (\<lambda>l. l\<lparr>ln_quantity := q\<rparr>) lines)"

definition is_customer_role :: "string option \<Rightarrow> bool" where
  "is_customer_role r \<longleftrightarrow> r = Some ''customer'' \<or> r = Some ''user''"

definition set_activeNegotiation :: "string \<Rightarrow> quote_aggregate \<Rightarrow> quote_aggregate" where
  "set_activeNegotiation i a = a\<lparr>ag_quote := (ag_quote a)\<lparr>qt_activeNegotiationId := Some i\<rparr>\<rparr>"

definition mk_request ::
  "env \<Rightarrow> string \<Rightarrow> quote_aggregate \<Rightarrow> negotiation_input \<Rightarrow> actor option \<Rightarrow> negotiation_requested_line list \<Rightarrow> negotiation_request" where
  "mk_request e i a input act requested = \<lparr>ng_id = i, ng_quoteId = qt_id (ag_quote a), ng_customerId = cu_id (ag_customer a),
     ng_actorId = or_option (ni_actorId input) (map_option act_id act),
     ng_actorRole = Some (case or_option (ni_actorRole input) (Option.bind act act_role) of None \<Rightarrow> ''customer'' | Some r \<Rightarrow> r),
     ng_requestedDiscountPercent = ni_requestedDiscountPercent input, ng_requestedTargetAmount = ni_requestedTargetAmount input,
     ng_requestedLines = requested, ng_note = js_trim (ni_note input), ng_quoteVersion = Some (qt_version (ag_quote a)),
     ng_responseNote = None, ng_respondedBy = None, ng_respondedAt = None, ng_status = N_open,
     ng_createdAt = e_now e, ng_updatedAt = e_now e\<rparr>"

definition createNegotiation_edit ::
  "env \<Rightarrow> negotiation_input \<Rightarrow> actor option \<Rightarrow> quote_aggregate \<Rightarrow> quote_aggregate action" where
  "createNegotiation_edit e input act a =
     bnd (case ni_expectedVersion input of None \<Rightarrow> ret () | Some v \<Rightarrow> assertExpectedVersion a v) (\<lambda>_.
     bnd (ensure (status_of a = Q_draft \<or> status_of a = Q_customer_negotiation)
            (conflict (Negotiation (Quotation_not_open (status_of a))))) (\<lambda>_.
     bnd (store_listNegotiations (qt_id (ag_quote a))) (\<lambda>existing.
     bnd (ensure (\<not> list_ex (\<lambda>n. ng_status n = N_open) existing)
            (conflict (Negotiation (Negotiation_already_open (qt_id (ag_quote a)))))) (\<lambda>_.
     bnd (if status_of a = Q_draft then moveTo Q_customer_negotiation a else ret a) (\<lambda>a.
     let requested = map (with_originals (ag_lines a)) (ni_requestedLines input);
         a = (if is_customer_role (or_option (ni_actorRole input) (Option.bind act act_role))
              then a\<lparr>ag_lines := foldl apply_requested_quantity (ag_lines a) requested\<rparr> else a)
     in bnd (randomUUID e) (\<lambda>i.
        bnd (store_saveNegotiation (mk_request e i a input act requested)) (\<lambda>saved.
        ret (bumpVersion (set_activeNegotiation (ng_id saved) a)))))))))"

definition createNegotiationRequest :: "env \<Rightarrow> string \<Rightarrow> negotiation_input \<Rightarrow> actor option \<Rightarrow> presented_quote action" where
  "createNegotiationRequest e quoteId input act =
     bnd (load quoteId) (\<lambda>a.
     bnd (createNegotiation_edit e input act a) (\<lambda>a.
     bnd (saveAssessed e a act) (\<lambda>(saved, x).
     bnd (audit e act ''quote.negotiation_noted'' ''quote'' quoteId ''success'') (\<lambda>_.
     bnd (publish e ''negotiation.updated'' (Some quoteId)) (\<lambda>_.
     bnd (notify e (uuidOrNull (qt_ownerId (ag_quote saved))) ''Customer negotiation request'') (\<lambda>_.
     decorate e saved (Some x) act True))))))"

section \<open>Responding\<close>

datatype response = Resp_accepted | Resp_rejected | Resp_in_review

fun response_status :: "response \<Rightarrow> negotiation_status" where
  "response_status Resp_accepted = N_accepted"
| "response_status Resp_rejected = N_rejected"
| "response_status Resp_in_review = N_in_review"

fun response_action :: "response \<Rightarrow> string" where
  "response_action Resp_accepted = ''quote.negotiation_accepted''"
| "response_action Resp_rejected = ''quote.negotiation_rejected''"
| "response_action Resp_in_review = ''quote.negotiation_in_review''"

definition accept_line :: "env \<Rightarrow> actor \<Rightarrow> quote_aggregate \<Rightarrow> negotiation_requested_line \<Rightarrow> quote_aggregate action" where
  "accept_line e act a r =
     (if requested_line (ag_lines a) r = None \<or> nl_action r = Some LA_remove then ret a
      else
        let a = a\<lparr>ag_lines := apply_requested_quantity (ag_lines a) r\<rparr> in
        case nl_discountPercent r of
          None \<Rightarrow> ret a
        | Some d \<Rightarrow>
            bnd (assertCommercialWrite e a act [d] []) (\<lambda>_.
            ret (a\<lparr>ag_lines := update_first (\<lambda>l. Some (ln_id l) = nl_lineId r) (\<lambda>l. l\<lparr>ln_discountPercent := d\<rparr>) (ag_lines a)\<rparr>)))"

fun accept_lines :: "env \<Rightarrow> actor \<Rightarrow> quote_aggregate \<Rightarrow> negotiation_requested_line list \<Rightarrow> quote_aggregate action" where
  "accept_lines e act a [] = ret a"
| "accept_lines e act a (r # rs) = bnd (accept_line e act a r) (\<lambda>a. accept_lines e act a rs)"

definition own_negotiation :: "string \<Rightarrow> string \<Rightarrow> negotiation_request action" where
  "own_negotiation quoteId negotiationId =
     bnd (store_getNegotiation negotiationId) (\<lambda>found. case found of
       None \<Rightarrow> throw (notFound (Negotiation (Negotiation_not_found negotiationId)))
     | Some n \<Rightarrow> if ng_quoteId n \<noteq> quoteId then throw (notFound (Negotiation (Negotiation_not_found negotiationId))) else ret n)"

definition respond_edit ::
  "env \<Rightarrow> string \<Rightarrow> response \<Rightarrow> string \<Rightarrow> int \<Rightarrow> actor \<Rightarrow> quote_aggregate \<Rightarrow> quote_aggregate action" where
  "respond_edit e negotiationId decision responseNote expectedVersion act a =
     bnd (assertExpectedVersion a expectedVersion) (\<lambda>_.
     bnd (own_negotiation (qt_id (ag_quote a)) negotiationId) (\<lambda>request.
     bnd (if decision = Resp_accepted then accept_lines e act a (ng_requestedLines request) else ret a) (\<lambda>a.
     bnd (store_saveNegotiation (request\<lparr>ng_status := response_status decision, ng_responseNote := Some (js_trim responseNote),
            ng_respondedBy := Some (act_id act), ng_respondedAt := Some (e_now e), ng_updatedAt := e_now e\<rparr>)) (\<lambda>saved.
     ret (bumpVersion (set_activeNegotiation (ng_id saved) a))))))"

definition respondToNegotiation ::
  "env \<Rightarrow> string \<Rightarrow> string \<Rightarrow> response \<Rightarrow> string \<Rightarrow> int \<Rightarrow> actor \<Rightarrow> presented_quote action" where
  "respondToNegotiation e quoteId negotiationId decision responseNote expectedVersion act =
     bnd (load quoteId) (\<lambda>a.
     bnd (respond_edit e negotiationId decision responseNote expectedVersion act a) (\<lambda>a.
     bnd (saveAssessed e a (Some act)) (\<lambda>(saved, x).
     bnd (audit e (Some act) (response_action decision) ''quote'' quoteId ''success'') (\<lambda>_.
     bnd (publish e ''negotiation.updated'' (Some quoteId)) (\<lambda>_.
     bnd (notify e (owner_or saved (Some (act_id act)))
            (case decision of Resp_accepted \<Rightarrow> ''Negotiation request accepted'' | Resp_rejected \<Rightarrow> ''Negotiation request rejected''
             | Resp_in_review \<Rightarrow> ''Negotiation in review'')) (\<lambda>_.
     decorate e saved (Some x) (Some act) True))))))"

definition sendToManager_edit :: "env \<Rightarrow> string option \<Rightarrow> int \<Rightarrow> quote_aggregate \<Rightarrow> quote_aggregate action" where
  "sendToManager_edit e negotiationId expectedVersion a =
     bnd (assertExpectedVersion a expectedVersion) (\<lambda>_.
     bnd (ensure (status_of a = Q_draft \<or> status_of a = Q_customer_negotiation)
            (conflict (Negotiation (Not_open_for_manager (status_of a))))) (\<lambda>_.
     bnd (moveTo Q_manager_review a) (\<lambda>a.
     bnd (if truthy negotiationId
          then bnd (own_negotiation (qt_id (ag_quote a)) (the negotiationId)) (\<lambda>n.
               bnd (store_saveNegotiation (n\<lparr>ng_status := N_sent_to_manager, ng_updatedAt := e_now e\<rparr>)) (\<lambda>n.
               ret (set_activeNegotiation (ng_id n) a)))
          else ret a) (\<lambda>a.
     ret (bumpVersion a)))))"

definition sendNegotiationToManager :: "env \<Rightarrow> string \<Rightarrow> string option \<Rightarrow> actor \<Rightarrow> int \<Rightarrow> presented_quote action" where
  "sendNegotiationToManager e quoteId negotiationId act expectedVersion =
     bnd (load quoteId) (\<lambda>a.
     bnd (sendToManager_edit e negotiationId expectedVersion a) (\<lambda>a.
     bnd (saveAssessed e a (Some act)) (\<lambda>(saved, x).
     bnd (audit e (Some act) ''quote.sent_to_manager'' ''quote'' quoteId ''success'') (\<lambda>_.
     bnd (publish e ''negotiation.updated'' (Some quoteId)) (\<lambda>_.
     decorate e saved (Some x) (Some act) True)))))"

section \<open>Manager review\<close>

record line_change =
  lc_lineId :: string
  lc_quantity :: "js_number option"
  lc_discountPercent :: "js_number option"
  lc_productId :: "string option"

definition revise_line :: "world \<Rightarrow> customer_tier \<Rightarrow> line_change \<Rightarrow> quote_line \<Rightarrow> quote_line" where
  "revise_line w tier c line =
     (let l = patch_quantities (lc_quantity c) (lc_discountPercent c) line in
      case find (\<lambda>p. pr_id p = or_else (lc_productId c) (ln_productId l)) (w_products w) of
        None \<Rightarrow> l
      | Some p \<Rightarrow>
          let l = (if truthy (lc_productId c) \<and> lc_productId c \<noteq> Some (ln_productId l)
                   then l\<lparr>ln_productId := pr_id p, ln_unitCost := pr_cost p\<rparr> else l)
          in l\<lparr>ln_listPrice := rp_unitPrice (resolveUnitPrice p (ln_quantity l) (w_quantityBreaks w) (Some tier))\<rparr>)"

fun revise_lines ::
  "world \<Rightarrow> customer_tier \<Rightarrow> line_change list \<Rightarrow> quote_line list \<Rightarrow> js_number list \<Rightarrow> (quote_line list \<times> js_number list) result" where
  "revise_lines w tier [] lines discounts = Ok (lines, discounts)"
| "revise_lines w tier (c # cs) lines discounts =
     (case find (\<lambda>l. ln_id l = lc_lineId c) lines of
        None \<Rightarrow> Throw (notFound (Quotation (Line_not_found (lc_lineId c))))
      | Some line \<Rightarrow>
          let l = revise_line w tier c line
          in revise_lines w tier cs (update_first (\<lambda>x. ln_id x = lc_lineId c) (\<lambda>_. l) lines) (discounts @ [ln_discountPercent l]))"

definition mark_active_revised :: "env \<Rightarrow> quote_aggregate \<Rightarrow> unit action" where
  "mark_active_revised e a =
     (if truthy (qt_activeNegotiationId (ag_quote a))
      then bnd (store_getNegotiation (the (qt_activeNegotiationId (ag_quote a)))) (\<lambda>found. case found of
             None \<Rightarrow> ret ()
           | Some n \<Rightarrow> bnd (store_saveNegotiation (n\<lparr>ng_status := N_manager_revised, ng_updatedAt := e_now e\<rparr>)) (\<lambda>_. ret ()))
      else ret ())"

definition revise_edit :: "env \<Rightarrow> line_change list \<Rightarrow> int \<Rightarrow> actor \<Rightarrow> quote_aggregate \<Rightarrow> quote_aggregate action" where
  "revise_edit e changes expectedVersion act a =
     bnd (assertExpectedVersion a expectedVersion) (\<lambda>_.
     bnd (ensure (status_of a = Q_manager_review) (conflict (Negotiation Not_in_manager_review))) (\<lambda>_.
     bnd (gets (\<lambda>w. revise_lines w (cu_tier (ag_customer a)) changes (ag_lines a) [])) (\<lambda>revised.
     bnd (lift revised) (\<lambda>(lines, discounts).
     let b = a\<lparr>ag_lines := lines\<rparr> in
     bnd (assertCommercialWrite e b act discounts []) (\<lambda>_.
     bnd (mark_active_revised e b) (\<lambda>_.
     settle_mutation e b (totals_before a) (Some act)))))))"

definition reviseAsManager :: "env \<Rightarrow> string \<Rightarrow> line_change list \<Rightarrow> int \<Rightarrow> actor \<Rightarrow> presented_quote action" where
  "reviseAsManager e quoteId changes expectedVersion act =
     bnd (assertManagerActor act) (\<lambda>_.
     bnd (load quoteId) (\<lambda>a.
     bnd (revise_edit e changes expectedVersion act a) (\<lambda>a.
     bnd (saveAssessed e a (Some act)) (\<lambda>(saved, x).
     bnd (audit e (Some act) ''quote.manager_revised'' ''quote'' quoteId ''success'') (\<lambda>_.
     bnd (publish e ''negotiation.updated'' (Some quoteId)) (\<lambda>_.
     decorate e saved (Some x) (Some act) True))))))"

definition return_edit :: "env \<Rightarrow> string option \<Rightarrow> int \<Rightarrow> quote_aggregate \<Rightarrow> quote_aggregate action" where
  "return_edit e negotiationId expectedVersion a =
     bnd (assertExpectedVersion a expectedVersion) (\<lambda>_.
     bnd (ensure (status_of a = Q_manager_review) (conflict (Negotiation Not_in_manager_review))) (\<lambda>_.
     bnd (moveTo Q_customer_negotiation a) (\<lambda>a.
     let targetId = or_option negotiationId (qt_activeNegotiationId (ag_quote a)) in
     bnd (if truthy targetId
          then bnd (store_getNegotiation (the targetId)) (\<lambda>found. case found of
                 None \<Rightarrow> ret ()
               | Some n \<Rightarrow>
                   if ng_quoteId n = qt_id (ag_quote a)
                   then bnd (store_saveNegotiation (n\<lparr>ng_status := N_returned_to_customer, ng_updatedAt := e_now e\<rparr>)) (\<lambda>_. ret ())
                   else ret ())
          else ret ()) (\<lambda>_.
     ret (bumpVersion a)))))"

definition returnRevisedQuote :: "env \<Rightarrow> string \<Rightarrow> string option \<Rightarrow> actor \<Rightarrow> int \<Rightarrow> presented_quote action" where
  "returnRevisedQuote e quoteId negotiationId act expectedVersion =
     bnd (assertManagerActor act) (\<lambda>_.
     bnd (load quoteId) (\<lambda>a.
     bnd (return_edit e negotiationId expectedVersion a) (\<lambda>a.
     bnd (saveAssessed e a (Some act)) (\<lambda>(saved, x).
     bnd (audit e (Some act) ''quote.returned_to_customer'' ''quote'' quoteId ''success'') (\<lambda>_.
     bnd (publish e ''negotiation.updated'' (Some quoteId)) (\<lambda>_.
     bnd (dispatchCustomerQuoteEmail e saved E_prelim_invoice (Some act)) (\<lambda>_.
     decorate e saved (Some x) (Some act) True)))))))"

section \<open>Agreement\<close>

definition latest_negotiation :: "negotiation_request list \<Rightarrow> negotiation_request option" where
  "latest_negotiation ns = first (js_sort (by_key (\<lambda>n. - of_int (ng_createdAt n))) ns)"

definition record_decision :: "env \<Rightarrow> customer_decision \<Rightarrow> quote_aggregate \<Rightarrow> quote_aggregate" where
  "record_decision e d a = a\<lparr>ag_quote := (ag_quote a)\<lparr>qt_customerDecision := d, qt_customerDecisionAt := Some (e_now e),
     qt_customerDecisionVersion := Some (qt_version (ag_quote a))\<rparr>\<rparr>"

definition agree_edit :: "env \<Rightarrow> int \<Rightarrow> quote_aggregate \<Rightarrow> quote_aggregate action" where
  "agree_edit e expectedVersion a =
     bnd (assertExpectedVersion a expectedVersion) (\<lambda>_.
     bnd (ensure (status_of a \<in> {Q_draft, Q_customer_negotiation, Q_manager_review, Q_finalized})
            (conflict (Negotiation Not_waiting_for_customer))) (\<lambda>_.
     bnd (store_listNegotiations (qt_id (ag_quote a))) (\<lambda>ns.
     let latest = latest_negotiation ns in
     bnd (ensure (case latest of None \<Rightarrow> True | Some n \<Rightarrow> ng_status n \<notin> {N_open, N_in_review, N_sent_to_manager})
            (conflict (Negotiation Confirm_after_revision))) (\<lambda>_.
     bnd (case latest of None \<Rightarrow> ret a
          | Some n \<Rightarrow> bnd (store_saveNegotiation (n\<lparr>ng_status := N_agreed, ng_updatedAt := e_now e\<rparr>)) (\<lambda>n.
                     ret (set_activeNegotiation (ng_id n) a))) (\<lambda>a.
     ret (bumpVersion (record_decision e C_accepted a)))))))"

definition agreeToFinal :: "env \<Rightarrow> string \<Rightarrow> int \<Rightarrow> actor option \<Rightarrow> presented_quote action" where
  "agreeToFinal e quoteId expectedVersion act =
     bnd (load quoteId) (\<lambda>a.
     bnd (agree_edit e expectedVersion a) (\<lambda>a.
     bnd (saveAssessed e a act) (\<lambda>(saved, x).
     bnd (audit e act ''quote.customer_agreed'' ''quote'' quoteId ''success'') (\<lambda>_.
     bnd (publish e ''negotiation.updated'' (Some quoteId)) (\<lambda>_.
     bnd (notify e (owner_or saved (map_option act_id act)) ''Customer confirmed quotation'') (\<lambda>_.
     decorate e saved (Some x) act True))))))"

definition freeze :: "env \<Rightarrow> actor \<Rightarrow> quote_aggregate \<Rightarrow> quote_aggregate" where
  "freeze e act a = a\<lparr>ag_quote := (ag_quote a)\<lparr>qt_commerciallyFrozenAt := Some (e_now e),
     qt_commerciallyFrozenBy := Some (act_id act)\<rparr>\<rparr>"

definition finalize_edit :: "env \<Rightarrow> int \<Rightarrow> actor \<Rightarrow> quote_aggregate \<Rightarrow> quote_aggregate action" where
  "finalize_edit e expectedVersion act a =
     bnd (assertExpectedVersion a expectedVersion) (\<lambda>_.
     bnd (ensure (status_of a = Q_manager_review \<or> status_of a = Q_customer_negotiation)
            (conflict (Workflow (Not_finalizable (status_of a))))) (\<lambda>_.
     bnd (ensure (ag_lines a \<noteq> []) (invalid (Workflow Needs_a_line))) (\<lambda>_.
     bnd (moveTo Q_finalized a) (\<lambda>a.
     bnd (appendRevision e (freeze e act a) (Some act) True) (\<lambda>a. ret (bumpVersion a))))))"

definition finalizeQuotation :: "env \<Rightarrow> string \<Rightarrow> actor \<Rightarrow> int \<Rightarrow> presented_quote action" where
  "finalizeQuotation e quoteId act expectedVersion =
     bnd (assertManagerActor act) (\<lambda>_.
     bnd (load quoteId) (\<lambda>a.
     bnd (finalize_edit e expectedVersion act a) (\<lambda>a.
     bnd (saveAssessed e a (Some act)) (\<lambda>(saved, x).
     bnd (audit e (Some act) ''quote.finalized'' ''quote'' quoteId ''success'') (\<lambda>_.
     bnd (publish e ''quote.updated'' (Some quoteId)) (\<lambda>_.
     bnd (dispatchCustomerQuoteEmail e saved E_prelim_invoice (Some act)) (\<lambda>_.
     decorate e saved (Some x) (Some act) True)))))))"

section \<open>The customer portal\<close>

definition portal_actor :: actor where
  "portal_actor = \<lparr>act_id = ''portal'', act_email = None, act_role = Some ''user'', act_roles = None, act_permissions = None\<rparr>"

definition createPortalNegotiation :: "env \<Rightarrow> string \<Rightarrow> negotiation_input \<Rightarrow> presented_quote action" where
  "createPortalNegotiation e token input =
     bnd (load_by_token token) (\<lambda>a.
     createNegotiationRequest e (qt_id (ag_quote a)) (input\<lparr>ni_actorId := None, ni_actorRole := Some ''customer''\<rparr>) (Some portal_actor))"

definition portal_line_change :: "world \<Rightarrow> customer_tier \<Rightarrow> line_change \<Rightarrow> quote_line \<Rightarrow> quote_line" where
  "portal_line_change w tier c line =
     (let l = patch_quantities (lc_quantity c) None line
      in case find (\<lambda>p. pr_id p = ln_productId l) (w_products w) of
           None \<Rightarrow> l
         | Some p \<Rightarrow> l\<lparr>ln_listPrice := rp_unitPrice (resolveUnitPrice p (ln_quantity l) (w_quantityBreaks w) (Some tier))\<rparr>)"

fun portal_lines :: "world \<Rightarrow> customer_tier \<Rightarrow> line_change list \<Rightarrow> quote_line list \<Rightarrow> quote_line list result" where
  "portal_lines w tier [] lines = Ok lines"
| "portal_lines w tier (c # cs) lines =
     (case find (\<lambda>l. ln_id l = lc_lineId c) lines of
        None \<Rightarrow> Throw (notFound (Quotation (Line_not_found (lc_lineId c))))
      | Some line \<Rightarrow>
          portal_lines w tier cs (update_first (\<lambda>x. ln_id x = lc_lineId c) (\<lambda>_. portal_line_change w tier c line) lines))"

definition requested_discounts :: "line_change list \<Rightarrow> js_number list" where
  "requested_discounts cs = List.map_filter lc_discountPercent cs"

definition portal_request :: "env \<Rightarrow> string \<Rightarrow> quote_aggregate \<Rightarrow> line_change list \<Rightarrow> negotiation_request" where
  "portal_request e i a cs = \<lparr>ng_id = i, ng_quoteId = qt_id (ag_quote a), ng_customerId = cu_id (ag_customer a),
     ng_actorId = None, ng_actorRole = Some ''customer'',
     ng_requestedDiscountPercent = Some (foldl max (hd (requested_discounts cs)) (requested_discounts cs)),
     ng_requestedTargetAmount = None,
     ng_requestedLines = map (\<lambda>c. \<lparr>nl_productId = None, nl_lineId = Some (lc_lineId c), nl_quantity = lc_quantity c,
        nl_discountPercent = lc_discountPercent c, nl_action = Some LA_update, nl_requestType = None, nl_comment = None,
        nl_originalQuantity = None, nl_originalDiscountPercent = None\<rparr>) cs,
     ng_note = ''Requested line discounts'', ng_quoteVersion = None, ng_responseNote = None, ng_respondedBy = None,
     ng_respondedAt = None, ng_status = N_open, ng_createdAt = e_now e, ng_updatedAt = e_now e\<rparr>"

definition portalChange_edit :: "env \<Rightarrow> line_change list \<Rightarrow> int \<Rightarrow> quote_aggregate \<Rightarrow> quote_aggregate action" where
  "portalChange_edit e changes expectedVersion a =
     bnd (assertExpectedVersion a expectedVersion) (\<lambda>_.
     bnd (ensure (status_of a = Q_customer_negotiation \<or> status_of a = Q_draft) (conflict (Negotiation Not_open_for_customer))) (\<lambda>_.
     bnd (if status_of a = Q_draft then moveTo Q_customer_negotiation a else ret a) (\<lambda>b.
     bnd (gets (\<lambda>w. portal_lines w (cu_tier (ag_customer a)) changes (ag_lines a))) (\<lambda>changed.
     bnd (lift changed) (\<lambda>lines.
     let b = b\<lparr>ag_lines := lines\<rparr> in
     bnd (if requested_discounts changes \<noteq> []
          then bnd (randomUUID e) (\<lambda>i. bnd (store_saveNegotiation (portal_request e i b changes)) (\<lambda>n.
               ret (set_activeNegotiation (ng_id n) b)))
          else ret b) (\<lambda>b.
     settle_mutation e b (totals_before a) (Some portal_actor)))))))"

definition applyPortalChange :: "env \<Rightarrow> string \<Rightarrow> line_change list \<Rightarrow> int \<Rightarrow> portal_view action" where
  "applyPortalChange e token changes expectedVersion =
     bnd (load_by_token token) (\<lambda>a.
     bnd (portalChange_edit e changes expectedVersion a) (\<lambda>a.
     bnd (saveAssessed e a (Some portal_actor)) (\<lambda>(saved, x).
     bnd (audit e (Some portal_actor) ''quote.negotiated'' ''quote'' (qt_id (ag_quote saved)) ''success'') (\<lambda>_.
     bnd (publish e ''negotiation.updated'' (Some (qt_id (ag_quote saved)))) (\<lambda>_.
     bnd (notify e (uuidOrNull (qt_ownerId (ag_quote saved))) ''Customer negotiation received'') (\<lambda>_.
     bnd (decorate e saved (Some x) (Some portal_actor) True) (\<lambda>v. ret (toPortalView v))))))))"

text \<open>The edit of \<open>applyPortalDecision\<close> is \<open>None\<close> when the same decision is already recorded for this version.\<close>

definition portalDecision_edit ::
  "env \<Rightarrow> customer_decision \<Rightarrow> string option \<Rightarrow> int \<Rightarrow> quote_aggregate \<Rightarrow> quote_aggregate option action" where
  "portalDecision_edit e decision comment expectedVersion a =
     bnd (assertExpectedVersion a expectedVersion) (\<lambda>_.
     bnd (ensure (status_of a = Q_draft \<or> status_of a = Q_customer_negotiation \<or> status_of a = Q_manager_review)
            (conflict (Negotiation Not_open_for_acceptance))) (\<lambda>_.
     if qt_customerDecision (ag_quote a) = decision \<and> qt_customerDecisionVersion (ag_quote a) = Some (qt_version (ag_quote a))
     then ret None
     else let b = record_decision e decision a
          in ret (Some (bumpVersion (b\<lparr>ag_quote := (ag_quote b)\<lparr>qt_customerDecisionComment := comment\<rparr>\<rparr>)))))"

definition applyPortalDecision :: "env \<Rightarrow> string \<Rightarrow> customer_decision \<Rightarrow> string option \<Rightarrow> int \<Rightarrow> portal_view action" where
  "applyPortalDecision e token decision comment expectedVersion =
     bnd (ensure (decision = C_accepted \<or> decision = C_declined) (invalid (Negotiation Decision_must_be_accept_or_decline))) (\<lambda>_.
     bnd (load_by_token token) (\<lambda>a.
     bnd (portalDecision_edit e decision comment expectedVersion a) (\<lambda>edited.
     case edited of
       None \<Rightarrow> bnd (decorate e a None None True) (\<lambda>v. ret (toPortalView v))
     | Some b \<Rightarrow>
         bnd (saveAssessed e b (Some portal_actor)) (\<lambda>(saved, _).
         bnd (audit e (Some portal_actor) (if decision = C_accepted then ''quote.customer_accepted'' else ''quote.customer_declined'')
                ''quote'' (qt_id (ag_quote saved)) ''success'') (\<lambda>_.
         bnd (notify e (uuidOrNull (qt_ownerId (ag_quote saved)))
                (if decision = C_accepted then ''Customer accepted quotation'' else ''Customer declined quotation'')) (\<lambda>_.
         bnd (publish e ''negotiation.updated'' (Some (qt_id (ag_quote saved)))) (\<lambda>_.
         bnd (decorate e saved None None True) (\<lambda>v. ret (toPortalView v)))))))))"

end
