(* ===== verification/Dealflow_Orders.thy ===== *)
theory Dealflow_Orders
  imports Dealflow_Negotiation
begin

text \<open>
  The handlers of \<open>service.ts\<close> after approval: \<open>planFulfillment\<close>, \<open>generateBilling\<close>, \<open>cancelBilling\<close>,
  \<open>confirm\<close> (and \<open>lockDeal\<close>, which is \<open>confirm\<close>), \<open>complete\<close>; with them \<open>applyRecommendation\<close>,
  \<open>recommendations\<close>, \<open>disposeAnomaly\<close> and \<open>contactVendor\<close>.
\<close>

section \<open>Recommendations\<close>

definition recommendations :: "string \<Rightarrow> recommendation list action" where
  "recommendations quoteId =
     bnd (load quoteId) (\<lambda>a. gets (\<lambda>w. recommendProducts (ag_lines a) (w_products w) (w_relations w)))"

definition applyRecommendation_edit :: "env \<Rightarrow> string \<Rightarrow> actor \<Rightarrow> int \<Rightarrow> quote_aggregate \<Rightarrow> quote_aggregate action" where
  "applyRecommendation_edit e relationId act expectedVersion a =
     bnd (assertExpectedVersion a expectedVersion) (\<lambda>_.
     bnd (assertCommercialWrite e a act [0] []) (\<lambda>_.
     bnd (gets w_relations) (\<lambda>relations.
     case find (\<lambda>r. rel_id r = relationId) relations of
       None \<Rightarrow> throw (notFound (Negotiation (Recommendation_not_found relationId)))
     | Some relation \<Rightarrow>
         bnd (gets (\<lambda>w. recommendProducts (ag_lines a) (w_products w) relations)) (\<lambda>recs.
         bnd (ensure (list_ex (\<lambda>r. rc_relationId r = relationId) recs) (conflict (Negotiation Recommendation_not_applicable))) (\<lambda>_.
         bnd (gets w_quantityBreaks) (\<lambda>breaks.
         bnd (toLine e (qt_id (ag_quote a)) \<lparr>li_productId = rel_recommendedProductId relation, li_quantity = 1, li_discountPercent = 0\<rparr> breaks) (\<lambda>l.
         settle_mutation e (a\<lparr>ag_lines := ag_lines a @ [l\<lparr>ln_recommendedFromId := Some (rel_id relation)\<rparr>]\<rparr>) (totals_before a) (Some act))))))))"

definition applyRecommendation :: "env \<Rightarrow> string \<Rightarrow> string \<Rightarrow> actor \<Rightarrow> int \<Rightarrow> presented_quote action" where
  "applyRecommendation e quoteId relationId act expectedVersion =
     bnd (load quoteId) (\<lambda>a.
     bnd (applyRecommendation_edit e relationId act expectedVersion a) (\<lambda>a.
     bnd (saveAssessed e a (Some act)) (\<lambda>(saved, x).
     bnd (audit e (Some act) ''quote.recommendation_applied'' ''quote'' quoteId ''success'') (\<lambda>_.
     decorate e saved (Some x) (Some act) True))))"

section \<open>Fulfilment and billing\<close>

definition plan_of :: "env \<Rightarrow> world \<Rightarrow> quote_aggregate \<Rightarrow> plan_override list \<Rightarrow> (nat \<Rightarrow> string) \<Rightarrow> fulfillment_plan result" where
  "plan_of e w a overrides fresh = planFulfillment (e_localeCompare e) fresh
     \<lparr>pi_quoteId = qt_id (ag_quote a), pi_lines = ag_lines a, pi_warehouses = w_warehouses w, pi_stock = w_stock w,
      pi_overrides = overrides\<rparr>"

definition plan_draws :: "fulfillment_plan \<Rightarrow> nat" where
  "plan_draws p = length (fp_allocations p) + length (fp_backorders p)"

definition plan_edit :: "env \<Rightarrow> plan_override list \<Rightarrow> int \<Rightarrow> quote_aggregate \<Rightarrow> quote_aggregate action" where
  "plan_edit e overrides expectedVersion a =
     bnd (assertExpectedVersion a expectedVersion) (\<lambda>_.
     bnd (ensure (isOpenForPlanning (status_of a)) (conflict (Workflow (Planning_closed (status_of a))))) (\<lambda>_.
     bnd (\<lambda>w. drawing e (plan_of e w a overrides) plan_draws w) (\<lambda>plan.
     bnd (gets w_stock) (\<lambda>stock.
     bnd (lift (reserveStock stock (productByLineId (ag_lines a)) (ag_allocations a) (fp_allocations plan))) (\<lambda>reserved.
     bnd (store_replaceStock reserved) (\<lambda>_.
     let a = a\<lparr>ag_allocations := fp_allocations plan, ag_backorders := fp_backorders plan\<rparr> in
     bnd (if status_of a = Q_confirmed then moveTo Q_fulfillment a else ret a) (\<lambda>a.
     ret (bumpVersion a))))))))"

definition service_planFulfillment :: "env \<Rightarrow> string \<Rightarrow> plan_override list \<Rightarrow> actor \<Rightarrow> int \<Rightarrow> presented_quote action" where
  "service_planFulfillment e quoteId overrides act expectedVersion =
     bnd (load quoteId) (\<lambda>a.
     bnd (plan_edit e overrides expectedVersion a) (\<lambda>a.
     bnd (saveAssessed e a (Some act)) (\<lambda>(saved, x).
     bnd (audit e (Some act) ''quote.fulfillment_planned'' ''quote'' quoteId ''success'') (\<lambda>_.
     decorate e saved (Some x) (Some act) True))))"

definition billing_edit :: "env \<Rightarrow> int \<Rightarrow> quote_aggregate \<Rightarrow> quote_aggregate action" where
  "billing_edit e expectedVersion a =
     bnd (assertExpectedVersion a expectedVersion) (\<lambda>_.
     bnd (ensure (isOpenForBilling (status_of a)) (conflict (Workflow (Billing_closed (status_of a))))) (\<lambda>_.
     bnd (drawing e (\<lambda>fresh. buildBillingSchedules fresh (qt_id (ag_quote a)) (ag_lines a) (ag_products a) (e_now e)) length) (\<lambda>schedules.
     let a = a\<lparr>ag_schedules := schedules\<rparr> in
     bnd (if status_of a = Q_confirmed \<or> status_of a = Q_fulfillment then moveTo Q_billing a else ret a) (\<lambda>a.
     ret (bumpVersion a)))))"

definition generateBilling :: "env \<Rightarrow> string \<Rightarrow> actor \<Rightarrow> int \<Rightarrow> presented_quote action" where
  "generateBilling e quoteId act expectedVersion =
     bnd (load quoteId) (\<lambda>a.
     bnd (billing_edit e expectedVersion a) (\<lambda>a.
     bnd (saveAssessed e a (Some act)) (\<lambda>(saved, x).
     bnd (audit e (Some act) ''quote.billing_generated'' ''quote'' quoteId ''success'') (\<lambda>_.
     decorate e saved (Some x) (Some act) True))))"

definition cancelBilling_edit :: "env \<Rightarrow> string \<Rightarrow> int \<Rightarrow> quote_aggregate \<Rightarrow> quote_aggregate action" where
  "cancelBilling_edit e scheduleId expectedVersion a =
     bnd (assertExpectedVersion a expectedVersion) (\<lambda>_.
     case find (\<lambda>s. bs_id s = scheduleId) (ag_schedules a) of
       None \<Rightarrow> throw (notFound (Billing (Schedule_not_found scheduleId)))
     | Some schedule \<Rightarrow>
         bnd (lift (cancelSchedule schedule (e_now e))) (\<lambda>cancelled.
         ret (bumpVersion (a\<lparr>ag_schedules := map (\<lambda>s. if bs_id s = scheduleId then cancelled else s) (ag_schedules a)\<rparr>))))"

definition cancelBilling :: "env \<Rightarrow> string \<Rightarrow> string \<Rightarrow> actor \<Rightarrow> int \<Rightarrow> presented_quote action" where
  "cancelBilling e quoteId scheduleId act expectedVersion =
     bnd (load quoteId) (\<lambda>a.
     bnd (cancelBilling_edit e scheduleId expectedVersion a) (\<lambda>a.
     bnd (saveAssessed e a (Some act)) (\<lambda>(saved, x).
     bnd (audit e (Some act) ''quote.billing_cancelled'' ''quote'' quoteId ''success'') (\<lambda>_.
     decorate e saved (Some x) (Some act) True))))"

section \<open>The finance lock\<close>

definition lock_fields :: "env \<Rightarrow> actor \<Rightarrow> quote_aggregate \<Rightarrow> quote_aggregate" where
  "lock_fields e act a = a\<lparr>ag_quote := (ag_quote a)\<lparr>qt_financeLockedAt := Some (e_now e), qt_financeLockedBy := Some (act_id act)\<rparr>\<rparr>"

definition consume_allocations :: "quote_aggregate \<Rightarrow> unit action" where
  "consume_allocations a =
     (if ag_allocations a \<noteq> []
      then bnd (gets w_stock) (\<lambda>stock.
           bnd (lift (consumeStockOnConfirm (productByLineId (ag_lines a)) (ag_allocations a) stock)) store_replaceStock)
      else ret ())"

definition sync_odoo :: "env \<Rightarrow> actor \<Rightarrow> quote_aggregate \<Rightarrow> quote_aggregate action" where
  "sync_odoo e act a =
     (if e_odooEnabled e \<and> e_createSaleOrder e \<noteq> None
      then case the (e_createSaleOrder e) (qt_number (ag_quote a)) (cu_name (ag_customer a)) (qt_netTotal (ag_quote a)) of
             Inr i \<Rightarrow> ret (a\<lparr>ag_quote := (ag_quote a)\<lparr>qt_odooSaleOrderId := Some i\<rparr>\<rparr>)
           | Inl _ \<Rightarrow> bnd (audit e (Some act) ''quote.odoo_sync_failed'' ''quote'' (qt_id (ag_quote a)) ''failure'') (\<lambda>_. ret a)
      else bnd (audit e (Some act) ''quote.odoo_not_configured'' ''quote'' (qt_id (ag_quote a)) ''success'') (\<lambda>_. ret a))"

text \<open>The part of \<open>confirm\<close> for a quotation that is not locked yet, up to the save; it also returns
  the assessment.\<close>

definition confirm_edit :: "env \<Rightarrow> actor \<Rightarrow> quote_aggregate \<Rightarrow> (quote_aggregate \<times> quote_assessment) action" where
  "confirm_edit e act a =
     bnd (ensure (status_of a = Q_approved) (conflict (Workflow (Cannot_lock_from (status_of a))))) (\<lambda>_.
     bnd (ensure (allRequiredApproved (ag_approvals a)) (conflict (Workflow Still_requires_approval))) (\<lambda>_.
     bnd (refreshAssessment e a) (\<lambda>(x, a).
     bnd (ensure (qa_decision x \<noteq> D_rejected) (conflict (Workflow Outside_reject_ceilings))) (\<lambda>_.
     bnd (consume_allocations a) (\<lambda>_.
     bnd (moveTo Q_confirmed a) (\<lambda>a.
     let a = lock_fields e act a in
     bnd (if ag_allocations a \<noteq> [] then moveTo Q_fulfillment a else ret a) (\<lambda>a.
     bnd (if ag_schedules a \<noteq> [] then moveTo Q_billing a else ret a) (\<lambda>a.
     bnd (sync_odoo e act (bumpVersion a)) (\<lambda>a. ret (a, x))))))))))"

definition confirm_guard :: "actor \<Rightarrow> int \<Rightarrow> quote_aggregate \<Rightarrow> unit action" where
  "confirm_guard act expectedVersion a =
     bnd (assertExpectedVersion a expectedVersion) (\<lambda>_.
     ensure (actorHas (Some act) ''dealflow.quotes.lock'') (forbidden (Authority (Not_allowed ''lock a quotation''))))"

definition service_confirm :: "env \<Rightarrow> string \<Rightarrow> actor \<Rightarrow> int \<Rightarrow> presented_quote action" where
  "service_confirm e quoteId act expectedVersion =
     bnd (load quoteId) (\<lambda>a.
     bnd (confirm_guard act expectedVersion a) (\<lambda>_.
     if qt_financeLockedAt (ag_quote a) \<noteq> None
     then bnd (dispatchCustomerQuoteEmail e a E_final_invoice (Some act)) (\<lambda>_.
          bnd (refreshAssessment e a) (\<lambda>(x, a). decorate e a (Some x) (Some act) True))
     else
       bnd (confirm_edit e act a) (\<lambda>(a, x).
       bnd (saveAssessed e a (Some act)) (\<lambda>(saved, _).
       bnd (audit e (Some act) ''quote.confirmed'' ''quote'' quoteId ''success'') (\<lambda>_.
       bnd (dispatchCustomerQuoteEmail e saved E_final_invoice (Some act)) (\<lambda>_.
       decorate e saved (Some x) (Some act) True))))))"

definition lockDeal :: "env \<Rightarrow> string \<Rightarrow> actor \<Rightarrow> int \<Rightarrow> presented_quote action" where
  "lockDeal e quoteId act expectedVersion = service_confirm e quoteId act expectedVersion"

definition complete_edit :: "int \<Rightarrow> quote_aggregate \<Rightarrow> quote_aggregate action" where
  "complete_edit expectedVersion a =
     bnd (assertExpectedVersion a expectedVersion) (\<lambda>_.
     bnd (ensure (status_of a = Q_billing \<or> status_of a = Q_fulfillment \<or> status_of a = Q_confirmed)
            (conflict (Workflow (Cannot_complete_from (status_of a))))) (\<lambda>_.
     bnd (lift (assertTransition (status_of a) Q_completed)) (\<lambda>_.
     let a = (if status_of a = Q_confirmed then set_status Q_fulfillment a else a) in
     bnd (if status_of a = Q_fulfillment
          then bnd (lift (assertTransition Q_fulfillment Q_billing)) (\<lambda>_. ret (set_status Q_billing a)) else ret a) (\<lambda>a.
     bnd (moveTo Q_completed a) (\<lambda>a. ret (bumpVersion a))))))"

definition service_complete :: "env \<Rightarrow> string \<Rightarrow> actor \<Rightarrow> int \<Rightarrow> presented_quote action" where
  "service_complete e quoteId act expectedVersion =
     bnd (load quoteId) (\<lambda>a.
     bnd (complete_edit expectedVersion a) (\<lambda>a.
     bnd (saveAssessed e a (Some act)) (\<lambda>(saved, x).
     bnd (audit e (Some act) ''quote.completed'' ''quote'' quoteId ''success'') (\<lambda>_.
     decorate e saved (Some x) (Some act) True))))"

section \<open>Anomalies and vendor contact\<close>

definition disposeAnomaly :: "env \<Rightarrow> string \<Rightarrow> anomaly_status \<Rightarrow> string option \<Rightarrow> actor \<Rightarrow> dealflow_anomaly action" where
  "disposeAnomaly e i status resolution act =
     bnd (gets w_anomalies) (\<lambda>all.
     case find (\<lambda>x. an_id x = i) all of
       None \<Rightarrow> throw (notFound (Quotation (Anomaly_not_found i)))
     | Some existing \<Rightarrow>
         bnd (store_upsertAnomaly (existing\<lparr>an_status := status, an_resolution := or_option resolution (an_resolution existing),
                an_resolverId := Some (act_id act), an_updatedAt := e_now e\<rparr>)) (\<lambda>next.
         bnd (audit e (Some act) ''anomaly.disposed'' ''anomaly'' i ''success'') (\<lambda>_.
         bnd (publish e ''anomaly.updated'' (an_quoteId next)) (\<lambda>_. ret next))))"

definition contactVendor :: "env \<Rightarrow> string \<Rightarrow> actor \<Rightarrow> unit action" where
  "contactVendor e quoteId act =
     bnd (load quoteId) (\<lambda>_.
     bnd (audit e (Some act) ''quote.vendor_contacted'' ''quote'' quoteId ''success'') (\<lambda>_.
     notify e (Some (act_id act)) ''Vendor contact recorded''))"

end
