(* ===== verification/Dealflow_Catalog.thy ===== *)
theory Dealflow_Catalog
  imports Dealflow_Service
begin

text \<open>
  The catalogue and governance handlers of \<open>service.ts\<close>: quantity breaks, role authorities,
  governance, products, customers, stock, policies, chains, warehouses, product relations, and the
  provisioning of a customer account. \<open>undefined\<close> optional inputs are \<open>None\<close>.
\<close>

section \<open>Governance\<close>

definition service_replaceQuantityBreaks :: "env \<Rightarrow> quantity_break list \<Rightarrow> actor \<Rightarrow> quantity_break list action" where
  "service_replaceQuantityBreaks e items act =
     bnd (lift (validateQuantityBreaks items)) (\<lambda>valid.
     bnd (store_replaceQuantityBreaks valid) (\<lambda>next.
     bnd (audit e (Some act) ''governance.quantity_breaks_updated'' ''governance'' ''catalog'' ''success'') (\<lambda>_. ret next)))"

definition service_replaceRoleAuthorities :: "env \<Rightarrow> role_authority list \<Rightarrow> actor \<Rightarrow> role_authority list action" where
  "service_replaceRoleAuthorities e items act =
     bnd (lift (validateRoleAuthorities items)) (\<lambda>valid.
     bnd (store_replaceRoleAuthorities valid) (\<lambda>next.
     bnd (audit e (Some act) ''governance.role_authorities_updated'' ''governance'' ''catalog'' ''success'') (\<lambda>_. ret next)))"

text \<open>\<open>{ ...previous, ...input }\<close> of a partial input is the parameter \<open>patch\<close>.\<close>

definition updateGovernance :: "env \<Rightarrow> (governance_config \<Rightarrow> governance_config) \<Rightarrow> actor \<Rightarrow> governance_config action" where
  "updateGovernance e patch act =
     bnd (gets w_governance) (\<lambda>previous.
     bnd (lift (validateGovernance (patch previous))) (\<lambda>valid.
     bnd (store_replaceGovernance valid) (\<lambda>next.
     bnd (audit e (Some act) ''governance.settings_updated'' ''governance'' ''catalog'' ''success'') (\<lambda>_. ret next))))"

section \<open>Stock\<close>

definition service_upsertStock :: "env \<Rightarrow> stock_level \<Rightarrow> actor \<Rightarrow> stock_level list action" where
  "service_upsertStock e input act =
     bnd (ensure (canWriteProducts (Some act)) (forbidden (Authority (Not_allowed ''update product stock'')))) (\<lambda>_.
     bnd (ensure (\<not> (st_quantityOnHand input < 0 \<or> st_reserved input < 0 \<or>
              (case st_incoming input of None \<Rightarrow> False | Some x \<Rightarrow> x < 0))) (invalid (Catalog (Invalid_field ''stock'')))) (\<lambda>_.
     bnd (gets w_warehouses) (\<lambda>warehouses.
     bnd (ensure (list_ex (\<lambda>x. wh_id x = st_warehouseId input) warehouses)
            (notFound (Catalog (Warehouse_not_found (st_warehouseId input))))) (\<lambda>_.
     bnd (store_getProduct (st_productId input)) (\<lambda>product.
     bnd (ensure (product \<noteq> None) (notFound (Catalog (Product_not_found (st_productId input))))) (\<lambda>_.
     bnd (store_upsertStock input) (\<lambda>saved.
     bnd (audit e (Some act) ''catalog.stock_upserted'' ''catalog'' (st_productId input) ''success'') (\<lambda>_. ret saved))))))))"

definition service_deleteStock :: "env \<Rightarrow> string \<Rightarrow> string \<Rightarrow> actor \<Rightarrow> stock_level list action" where
  "service_deleteStock e warehouseId productId act =
     bnd (ensure (canWriteProducts (Some act)) (forbidden (Authority (Not_allowed ''delete product stock'')))) (\<lambda>_.
     bnd (gets w_warehouses) (\<lambda>warehouses.
     bnd (ensure (list_ex (\<lambda>x. wh_id x = warehouseId) warehouses) (notFound (Catalog (Warehouse_not_found warehouseId)))) (\<lambda>_.
     bnd (store_getProduct productId) (\<lambda>product.
     bnd (ensure (product \<noteq> None) (notFound (Catalog (Product_not_found productId)))) (\<lambda>_.
     bnd (store_deleteStock warehouseId productId) (\<lambda>saved.
     bnd (audit e (Some act) ''catalog.stock_deleted'' ''catalog'' productId ''success'') (\<lambda>_. ret saved)))))))"

section \<open>Products\<close>

record stock_input =
  si_warehouseId :: string
  si_quantityOnHand :: js_number
  si_incoming :: "js_number option"

record break_input =
  bi_id :: "string option"
  bi_name :: string
  bi_customerTier :: "customer_tier option"
  bi_minQuantity :: js_number
  bi_maxQuantity :: "js_number option"
  bi_adjustmentKind :: quantity_adjustment_kind
  bi_adjustmentValue :: js_number
  bi_active :: "bool option"

text \<open>A nested option is a field that is \<open>undefined\<close>, \<open>null\<close> or a value.\<close>

record product_input =
  in_id :: "string option"
  in_sku :: "string option"
  in_name :: "string option"
  in_category :: "string option"
  in_listPrice :: "js_number option"
  in_cost :: "js_number option"
  in_billingType :: "billing_type option"
  in_billingFrequency :: "billing_frequency option"
  in_description :: "string option option"
  in_taxCategory :: "string option option"
  in_taxRatePercent :: "js_number option option"
  in_active :: "bool option"
  in_taxable :: "bool option"
  in_stock :: "stock_input list option"
  in_quantityBreaks :: "break_input list option"

definition pick :: "'a option \<Rightarrow> 'b option \<Rightarrow> ('b \<Rightarrow> 'a) \<Rightarrow> 'a \<Rightarrow> 'a" where
  "pick v current f d = (case v of Some x \<Rightarrow> x | None \<Rightarrow> (case current of Some c \<Rightarrow> f c | None \<Rightarrow> d))"

definition pick_opt :: "'a option \<Rightarrow> 'b option \<Rightarrow> ('b \<Rightarrow> 'a option) \<Rightarrow> 'a \<Rightarrow> 'a" where
  "pick_opt v current f d =
     (case v of Some x \<Rightarrow> x | None \<Rightarrow> (case current of None \<Rightarrow> d | Some c \<Rightarrow> (case f c of Some y \<Rightarrow> y | None \<Rightarrow> d)))"

definition build_product :: "product_input \<Rightarrow> product option \<Rightarrow> string \<Rightarrow> product" where
  "build_product input current i =
     (let category = js_trim (pick (in_category input) current pr_category []);
          billingType = pick (in_billingType input) current pr_billingType One_time
      in \<lparr>pr_id = i, pr_sku = js_trim (pick (in_sku input) current pr_sku []), pr_name = js_trim (pick (in_name input) current pr_name []),
          pr_category = (if category = [] then ''general'' else category),
          pr_listPrice = pick (in_listPrice input) current pr_listPrice 0, pr_cost = pick (in_cost input) current pr_cost 0,
          pr_billingType = billingType,
          pr_billingFrequency = (if billingType = Recurring
            then Some (pick_opt (in_billingFrequency input) current pr_billingFrequency Monthly) else None),
          pr_description = pick (in_description input) current pr_description None,
          pr_taxCategory = pick (in_taxCategory input) current pr_taxCategory None,
          pr_taxRatePercent = pick (in_taxRatePercent input) current pr_taxRatePercent None,
          pr_active = Some (pick_opt (in_active input) current pr_active True),
          pr_taxable = Some (pick_opt (in_taxable input) current pr_taxable True),
          pr_odooProductId = None,
          pr_createdAt = Option.bind current pr_createdAt, pr_updatedAt = Option.bind current pr_updatedAt\<rparr>)"

definition product_checks :: "product_input \<Rightarrow> product list \<Rightarrow> product \<Rightarrow> unit result" where
  "product_checks input products p =
     rbind (check (pr_sku p \<noteq> [] \<and> pr_name p \<noteq> []) (invalid (Catalog (Required_field ''sku and name'')))) (\<lambda>_.
     rbind (check (\<not> (length (pr_name p) > 160 \<or> length (pr_sku p) > 80)) (invalid (Catalog (Invalid_field ''length'')))) (\<lambda>_.
     rbind (check (\<not> (pr_listPrice p < 0 \<or> pr_cost p < 0)) (invalid (Catalog (Invalid_field ''price'')))) (\<lambda>_.
     rbind (check (case in_taxRatePercent input of Some (Some r) \<Rightarrow> \<not> (r < 0 \<or> r > 100) | _ \<Rightarrow> True) (invalid (Catalog (Invalid_field ''taxRatePercent'')))) (\<lambda>_.
     check (\<not> list_ex (\<lambda>i. toLowerCase (pr_sku i) = toLowerCase (pr_sku p) \<and> Some (pr_id i) \<noteq> in_id input) products)
       (conflict (Catalog (Sku_exists (pr_sku p))))))))"

fun build_breaks :: "env \<Rightarrow> string \<Rightarrow> break_input list \<Rightarrow> quantity_break list action" where
  "build_breaks e pid [] = ret []"
| "build_breaks e pid (b # bs) =
     bnd (case bi_id b of Some i \<Rightarrow> ret i | None \<Rightarrow> randomUUID e) (\<lambda>i.
     bnd (build_breaks e pid bs) (\<lambda>rest.
     ret (\<lparr>qb_id = i, qb_name = bi_name b, qb_productId = pid, qb_customerTier = bi_customerTier b,
           qb_minQuantity = bi_minQuantity b, qb_maxQuantity = bi_maxQuantity b, qb_adjustmentKind = bi_adjustmentKind b,
           qb_adjustmentValue = bi_adjustmentValue b, qb_active = Some (bi_active b \<noteq> Some False)\<rparr> # rest)))"

definition replace_product_breaks :: "env \<Rightarrow> actor \<Rightarrow> string \<Rightarrow> break_input list \<Rightarrow> unit action" where
  "replace_product_breaks e act pid bs =
     bnd (ensure (\<not> (list_ex (\<lambda>b. bi_adjustmentKind b = AK_percent) bs \<and> \<not> actorHas (Some act) ''dealflow.catalog.write''))
            (forbidden (Authority (Not_allowed ''percent quantity breaks'')))) (\<lambda>_.
     bnd (gets w_quantityBreaks) (\<lambda>all.
     bnd (build_breaks e pid bs) (\<lambda>built.
     bnd (lift (validateQuantityBreaks (filter (\<lambda>b. qb_productId b \<noteq> pid) all @ built))) (\<lambda>next.
     bnd (store_replaceQuantityBreaks next) (\<lambda>_. ret ())))))"

definition current_product :: "string option \<Rightarrow> product option action" where
  "current_product i =
     (if truthy i
      then bnd (store_getProduct (the i)) (\<lambda>found.
           bnd (ensure (found \<noteq> None) (notFound (Catalog (Product_not_found (the i))))) (\<lambda>_. ret found))
      else ret None)"

definition audit_product :: "env \<Rightarrow> actor \<Rightarrow> product option \<Rightarrow> product \<Rightarrow> unit action" where
  "audit_product e act current saved =
     bnd (audit e (Some act) (if current = None then ''catalog.product_created'' else ''catalog.product_updated'') ''catalog'' (pr_id saved) ''success'') (\<lambda>_.
     bnd (unless (\<not> (case current of None \<Rightarrow> False | Some c \<Rightarrow> pr_active c = Some False \<and> pr_active saved \<noteq> Some False))
            (audit e (Some act) ''catalog.product_activated'' ''catalog'' (pr_id saved) ''success'')) (\<lambda>_.
     unless (\<not> (case current of None \<Rightarrow> False | Some c \<Rightarrow> pr_active c \<noteq> Some False \<and> pr_active saved = Some False))
       (audit e (Some act) ''catalog.product_deactivated'' ''catalog'' (pr_id saved) ''success'')))"

definition service_upsertProduct :: "env \<Rightarrow> product_input \<Rightarrow> actor \<Rightarrow> product action" where
  "service_upsertProduct e input act =
     bnd (ensure (canWriteProducts (Some act)) (forbidden (Authority (Not_allowed ''create or edit products'')))) (\<lambda>_.
     bnd (current_product (in_id input)) (\<lambda>current.
     bnd (gets w_products) (\<lambda>products.
     bnd (lift (product_checks input products (build_product input current []))) (\<lambda>_.
     bnd (case in_id input of Some i \<Rightarrow> ret i | None \<Rightarrow> randomUUID e) (\<lambda>i.
     bnd (store_upsertProduct (build_product input current i)) (\<lambda>saved.
     bnd (each (\<lambda>row. bnd (service_upsertStock e \<lparr>st_warehouseId = si_warehouseId row, st_productId = pr_id saved,
              st_quantityOnHand = si_quantityOnHand row, st_reserved = 0,
              st_incoming = Some (case si_incoming row of None \<Rightarrow> 0 | Some x \<Rightarrow> x)\<rparr> act) (\<lambda>_. ret ()))
            (case in_stock input of None \<Rightarrow> [] | Some rows \<Rightarrow> rows)) (\<lambda>_.
     bnd (case in_quantityBreaks input of None \<Rightarrow> ret () | Some bs \<Rightarrow> replace_product_breaks e act (pr_id saved) bs) (\<lambda>_.
     bnd (audit_product e act current saved) (\<lambda>_.
     bnd (publish e ''catalog.updated'' None) (\<lambda>_. ret saved))))))))))"

definition service_deleteProduct :: "env \<Rightarrow> string \<Rightarrow> actor \<Rightarrow> unit action" where
  "service_deleteProduct e i act =
     bnd (ensure (canWriteProducts (Some act)) (forbidden (Authority (Not_allowed ''delete products'')))) (\<lambda>_.
     bnd (store_getProduct i) (\<lambda>current.
     bnd (ensure (current \<noteq> None) (notFound (Catalog (Product_not_found i)))) (\<lambda>_.
     bnd (store_countProductQuoteLines i) (\<lambda>used.
     bnd (ensure (\<not> used > 0) (conflict (Catalog (In_use i used)))) (\<lambda>_.
     bnd (store_deleteProduct i) (\<lambda>_.
     bnd (audit e (Some act) ''catalog.product_deleted'' ''catalog'' i ''success'') (\<lambda>_.
     publish e ''catalog.updated'' None)))))))"

section \<open>Customers\<close>

definition service_upsertCustomer :: "env \<Rightarrow> customer_input \<Rightarrow> actor \<Rightarrow> customer action" where
  "service_upsertCustomer e input act =
     bnd (ensure (canManageCustomers (Some act)) (forbidden (Authority (Not_allowed ''create or edit customers'')))) (\<lambda>_.
     let name = js_trim (ci_name input); email = js_trim (ci_email input) in
     bnd (ensure (name \<noteq> [] \<and> email \<noteq> [] \<and> js_includes email ''@'') (invalid (Catalog (Required_field ''name and email'')))) (\<lambda>_.
     bnd (if truthy (ci_id input)
          then bnd (store_getCustomer (the (ci_id input))) (\<lambda>c.
               ensure (c \<noteq> None) (notFound (Catalog (Customer_not_found (the (ci_id input))))))
          else ret ()) (\<lambda>_.
     bnd (store_upsertCustomer e (input\<lparr>ci_name := name, ci_email := email\<rparr>)) (\<lambda>saved.
     bnd (audit e (Some act) (if truthy (ci_id input) then ''catalog.customer_updated'' else ''catalog.customer_created'')
            ''catalog'' (cu_id saved) ''success'') (\<lambda>_.
     bnd (publish e ''catalog.updated'' None) (\<lambda>_. ret saved))))))"

definition service_deleteCustomer :: "env \<Rightarrow> string \<Rightarrow> actor \<Rightarrow> unit action" where
  "service_deleteCustomer e i act =
     bnd (ensure (canManageCustomers (Some act)) (forbidden (Authority (Not_allowed ''delete customers'')))) (\<lambda>_.
     bnd (store_getCustomer i) (\<lambda>current.
     bnd (ensure (current \<noteq> None) (notFound (Catalog (Customer_not_found i)))) (\<lambda>_.
     bnd (store_countCustomerQuotes i) (\<lambda>used.
     bnd (ensure (\<not> used > 0) (conflict (Catalog (In_use i used)))) (\<lambda>_.
     bnd (store_deleteCustomer i) (\<lambda>_.
     bnd (audit e (Some act) ''catalog.customer_deleted'' ''catalog'' i ''success'') (\<lambda>_.
     publish e ''catalog.updated'' None)))))))"

definition provisionCustomer :: "env \<Rightarrow> string \<Rightarrow> string \<Rightarrow> string option \<Rightarrow> customer action" where
  "provisionCustomer e email displayName companyName =
     (let company = (case companyName of None \<Rightarrow> [] | Some c \<Rightarrow> js_trim c);
          name = (if company \<noteq> [] then company else if js_trim displayName \<noteq> [] then js_trim displayName else email) in
      bnd (store_upsertCustomer e \<lparr>ci_id = None, ci_name = name, ci_email = email, ci_tier = None\<rparr>) (\<lambda>customer.
      bnd (store_countWonPurchases (cu_id customer)) (\<lambda>won.
      let tier = persistCustomerTier (Some (loyalty_tier_name (wonPurchaseCountToTier won))) in
      if persist_tier (cu_tier customer) \<noteq> tier
      then store_upsertCustomer e \<lparr>ci_id = None, ci_name = cu_name customer, ci_email = cu_email customer, ci_tier = Some tier\<rparr>
      else ret customer)))"

section \<open>Policies, chains, warehouses, relations\<close>

definition service_upsertPolicy :: "env \<Rightarrow> discount_policy \<Rightarrow> string option \<Rightarrow> actor \<Rightarrow> discount_policy action" where
  "service_upsertPolicy e input i act =
     bnd (ensure (actorHas (Some act) ''dealflow.catalog.write'') (forbidden (Authority (Not_allowed ''change discount policies'')))) (\<lambda>_.
     bnd (gets (\<lambda>w. if truthy i then find (\<lambda>p. Some (po_id p) = i) (w_policies w) else None)) (\<lambda>previous.
     bnd (case i of Some x \<Rightarrow> ret x | None \<Rightarrow> randomUUID e) (\<lambda>pid.
     bnd (store_upsertPolicy (input\<lparr>po_id := pid, po_name := js_trim (po_name input), po_active := Some (po_active input \<noteq> Some False)\<rparr>)) (\<lambda>saved.
     bnd (audit e (Some act) (if previous \<noteq> None then ''catalog.policy_updated'' else ''catalog.policy_created'') ''catalog'' (po_id saved) ''success'') (\<lambda>_.
     ret saved)))))"

definition service_deletePolicy :: "env \<Rightarrow> string \<Rightarrow> actor \<Rightarrow> unit action" where
  "service_deletePolicy e i act =
     bnd (ensure (actorHas (Some act) ''dealflow.catalog.write'') (forbidden (Authority (Not_allowed ''delete discount policies'')))) (\<lambda>_.
     bnd (gets (\<lambda>w. find (\<lambda>p. po_id p = i) (w_policies w))) (\<lambda>current.
     bnd (ensure (current \<noteq> None) (notFound (Catalog (Policy_not_found i)))) (\<lambda>_.
     bnd (store_deletePolicy i) (\<lambda>_.
     bnd (audit e (Some act) ''catalog.policy_deleted'' ''catalog'' i ''success'') (\<lambda>_.
     publish e ''catalog.updated'' None)))))"

definition service_upsertChain :: "env \<Rightarrow> approval_chain \<Rightarrow> string option \<Rightarrow> actor \<Rightarrow> approval_chain action" where
  "service_upsertChain e input i act =
     bnd (case i of Some x \<Rightarrow> ret x | None \<Rightarrow> randomUUID e) (\<lambda>cid.
     bnd (store_upsertChain (input\<lparr>ch_id := cid, ch_name := js_trim (ch_name input), ch_active := Some (ch_active input \<noteq> Some False),
            ch_steps := map (\<lambda>s. s\<lparr>cs_chainId := cid\<rparr>) (ch_steps input)\<rparr>)) (\<lambda>saved.
     bnd (audit e (Some act) ''catalog.chain_upserted'' ''catalog'' (ch_id saved) ''success'') (\<lambda>_. ret saved)))"

definition service_deleteChain :: "env \<Rightarrow> string \<Rightarrow> actor \<Rightarrow> unit action" where
  "service_deleteChain e i act =
     bnd (ensure (actorHas (Some act) ''dealflow.catalog.write'') (forbidden (Authority (Not_allowed ''delete approval chains'')))) (\<lambda>_.
     bnd (store_getChain i) (\<lambda>current.
     bnd (ensure (current \<noteq> None) (notFound (Catalog (Chain_not_found i)))) (\<lambda>_.
     bnd (store_countChainApprovals i) (\<lambda>used.
     bnd (ensure (\<not> used > 0) (conflict (Catalog (In_use i used)))) (\<lambda>_.
     bnd (store_deleteChain i) (\<lambda>_.
     bnd (audit e (Some act) ''catalog.chain_deleted'' ''catalog'' i ''success'') (\<lambda>_.
     publish e ''catalog.updated'' None)))))))"

definition service_upsertWarehouse :: "env \<Rightarrow> string option \<Rightarrow> string \<Rightarrow> js_number \<Rightarrow> actor \<Rightarrow> warehouse action" where
  "service_upsertWarehouse e i rawName cost act =
     bnd (ensure (actorHas (Some act) ''dealflow.catalog.write'') (forbidden (Authority (Not_allowed ''create or edit warehouses'')))) (\<lambda>_.
     bnd (ensure (js_trim rawName \<noteq> []) (invalid (Catalog (Required_field ''name'')))) (\<lambda>_.
     bnd (ensure (\<not> cost < 0) (invalid (Catalog (Invalid_field ''fulfillmentCostPerUnit'')))) (\<lambda>_.
     bnd (gets (\<lambda>w. find (\<lambda>x. Some (wh_id x) = i) (w_warehouses w))) (\<lambda>current.
     bnd (ensure (truthy i \<longrightarrow> current \<noteq> None) (notFound (Catalog (Warehouse_not_found (the i))))) (\<lambda>_.
     bnd (case i of Some x \<Rightarrow> ret x | None \<Rightarrow> randomUUID e) (\<lambda>wid.
     bnd (store_upsertWarehouse \<lparr>wh_id = wid, wh_name = js_trim rawName, wh_fulfillmentCostPerUnit = cost, wh_odooWarehouseId = None\<rparr>) (\<lambda>saved.
     bnd (audit e (Some act) (if truthy i then ''catalog.warehouse_updated'' else ''catalog.warehouse_created'') ''catalog'' (wh_id saved) ''success'') (\<lambda>_.
     bnd (publish e ''catalog.updated'' None) (\<lambda>_. ret saved)))))))))"

definition service_deleteWarehouse :: "env \<Rightarrow> string \<Rightarrow> actor \<Rightarrow> unit action" where
  "service_deleteWarehouse e i act =
     bnd (ensure (actorHas (Some act) ''dealflow.catalog.write'') (forbidden (Authority (Not_allowed ''delete warehouses'')))) (\<lambda>_.
     bnd (gets (\<lambda>w. find (\<lambda>x. wh_id x = i) (w_warehouses w))) (\<lambda>current.
     bnd (ensure (current \<noteq> None) (notFound (Catalog (Warehouse_not_found i)))) (\<lambda>_.
     bnd (store_countWarehouseAllocations i) (\<lambda>used.
     bnd (ensure (\<not> used > 0) (conflict (Catalog (In_use i used)))) (\<lambda>_.
     bnd (store_deleteWarehouse i) (\<lambda>_.
     bnd (audit e (Some act) ''catalog.warehouse_deleted'' ''catalog'' i ''success'') (\<lambda>_.
     publish e ''catalog.updated'' None)))))))"

definition service_upsertRelation :: "env \<Rightarrow> product_relation \<Rightarrow> string option \<Rightarrow> actor \<Rightarrow> product_relation action" where
  "service_upsertRelation e input i act =
     bnd (ensure (actorHas (Some act) ''dealflow.catalog.write'') (forbidden (Authority (Not_allowed ''change product recommendations'')))) (\<lambda>_.
     bnd (store_getProduct (rel_productId input)) (\<lambda>product.
     bnd (store_getProduct (rel_recommendedProductId input)) (\<lambda>recommended.
     bnd (ensure (product \<noteq> None \<and> recommended \<noteq> None) (notFound (Catalog (Product_not_found [])))) (\<lambda>_.
     bnd (ensure (rel_productId input \<noteq> rel_recommendedProductId input) (invalid (Catalog Self_recommendation))) (\<lambda>_.
     bnd (case i of Some x \<Rightarrow> ret x | None \<Rightarrow> randomUUID e) (\<lambda>rid.
     bnd (ensure (js_trim (rel_reason input) \<noteq> []) (invalid (Catalog (Required_field ''reason'')))) (\<lambda>_.
     bnd (store_upsertRelation (input\<lparr>rel_id := rid, rel_reason := js_trim (rel_reason input)\<rparr>)) (\<lambda>saved.
     bnd (audit e (Some act) (if truthy i then ''catalog.relation_updated'' else ''catalog.relation_created'') ''catalog'' (rel_id saved) ''success'') (\<lambda>_.
     ret saved)))))))))"

definition service_deleteRelation :: "env \<Rightarrow> string \<Rightarrow> actor \<Rightarrow> unit action" where
  "service_deleteRelation e i act =
     bnd (ensure (actorHas (Some act) ''dealflow.catalog.write'') (forbidden (Authority (Not_allowed ''delete product recommendations'')))) (\<lambda>_.
     bnd (gets (\<lambda>w. find (\<lambda>r. rel_id r = i) (w_relations w))) (\<lambda>current.
     bnd (ensure (current \<noteq> None) (notFound (Catalog (Relation_not_found i)))) (\<lambda>_.
     bnd (store_deleteRelation i) (\<lambda>_.
     audit e (Some act) ''catalog.relation_deleted'' ''catalog'' i ''success''))))"

end
