(* ===== verification/Dealflow_Logic.thy ===== *)
theory Dealflow_Logic
  imports Dealflow_Orders Dealflow_Catalog
begin

text \<open>
  The logic the handler proofs use: a weakest-precondition reading of actions (normal and
  exceptional postcondition), the frame relation \<open>same_core\<close> of the actions that write no quotation,
  and the collections \<open>wp_simps\<close> (rewrite \<open>wp\<close> through the action combinators) and \<open>quiet_intros\<close> (frame
  rules, one per action).
\<close>

named_theorems wp_simps \<open>weakest preconditions of the actions\<close>
named_theorems quiet_intros \<open>actions that write no quotation\<close>

section \<open>Weakest preconditions\<close>

lemma bnd_Inl: "m w = (Inl err, w1) \<Longrightarrow> bnd m k w = (Inl err, w1)"
  by (simp add: bnd_def)

lemma bnd_Inr: "m w = (Inr x, w1) \<Longrightarrow> bnd m k w = k x w1"
  by (simp add: bnd_def)

definition wp :: "'a action \<Rightarrow> ('a \<Rightarrow> world \<Rightarrow> bool) \<Rightarrow> (world \<Rightarrow> bool) \<Rightarrow> world \<Rightarrow> bool" where
  "wp m Q E w = (case m w of (Inl _, w') \<Rightarrow> E w' | (Inr x, w') \<Rightarrow> Q x w')"

lemma wp_ret [wp_simps]: "wp (ret x) Q E = Q x"
  by (simp add: fun_eq_iff wp_def ret_def)

lemma wp_throw [wp_simps]: "wp (throw err) Q E w = E w"
  by (simp add: wp_def throw_def)

lemma wp_bnd [wp_simps]: "wp (bnd m f) Q E w = wp m (\<lambda>x. wp (f x) Q E) E w"
  by (simp add: wp_def bnd_def split: prod.splits sum.splits)

lemma wp_gets [wp_simps]: "wp (gets f) Q E w = Q (f w) w"
  by (simp add: wp_def gets_def)

lemma wp_modify [wp_simps]: "wp (modify f) Q E w = Q () (f w)"
  by (simp add: wp_def modify_def)

lemma wp_lift [wp_simps]: "wp (lift r) Q E w = (case r of Inl _ \<Rightarrow> E w | Inr x \<Rightarrow> Q x w)"
  by (simp add: wp_def lift_def split: sum.splits)

lemma wp_ensure [wp_simps]: "wp (ensure b err) Q E w = (if b then Q () w else E w)"
  by (simp add: ensure_def wp_ret wp_throw)

lemma wp_unless [wp_simps]: "wp (unless b m) Q E w = (if b then Q () w else wp m Q E w)"
  by (simp add: unless_def wp_ret)

lemma wp_if [wp_simps]: "wp (if b then m else n) Q E w = (if b then wp m Q E w else wp n Q E w)"
  by simp

lemma wp_case_option [wp_simps]:
  "wp (case x of None \<Rightarrow> m | Some y \<Rightarrow> f y) Q E w = (case x of None \<Rightarrow> wp m Q E w | Some y \<Rightarrow> wp (f y) Q E w)"
  by (simp split: option.split)

lemma wp_case_prod [wp_simps]: "wp (case p of (x, y) \<Rightarrow> f x y) Q E w = (case p of (x, y) \<Rightarrow> wp (f x y) Q E w)"
  by (simp split: prod.split)

lemma wp_randomUUID [wp_simps]:
  "wp (randomUUID e) Q E w = Q (e_uuid e (w_uuid w)) (w\<lparr>w_uuid := Suc (w_uuid w)\<rparr>)"
  by (simp add: wp_def randomUUID_def)

lemma wp_drawing [wp_simps]:
  "wp (drawing e f used) Q E w =
     (case f (fresh_from e w) of Inl _ \<Rightarrow> E w | Inr x \<Rightarrow> Q x (w\<lparr>w_uuid := w_uuid w + used x\<rparr>))"
  by (simp add: wp_def drawing_def split: sum.splits)

lemma wp_refreshAssessment [wp_simps]:
  "wp (refreshAssessment e a) Q E w = (case assess_in e w a of Inl _ \<Rightarrow> E w | Inr x \<Rightarrow> Q x w)"
  by (simp add: wp_def refreshAssessment_def split: sum.splits)

lemma wp_assertCommercialWrite [wp_simps]:
  "wp (assertCommercialWrite e a act ds os) Q E w =
     (case commercial_write e w a act ds os of Inl _ \<Rightarrow> E w | Inr _ \<Rightarrow> Q () w)"
  by (simp add: wp_def assertCommercialWrite_def split: sum.splits)

lemma wp_moveTo [wp_simps]:
  "wp (moveTo s a) Q E w = (if status_of a = s \<or> moves (status_of a) s then Q (set_status s a) w else E w)"
  by (simp add: moveTo_def wp_bnd wp_lift wp_ret assertTransition_def)

lemma wp_assertExpectedVersion [wp_simps]:
  "wp (assertExpectedVersion a v) Q E w = (if qt_version (ag_quote a) = v then Q () w else E w)"
  by (simp add: assertExpectedVersion_def wp_ensure)

lemmas wp_store_reads [wp_simps] = store_getCustomer_def store_getProduct_def store_getNegotiation_def
  store_listNegotiations_def store_listQuoteEmails_def store_findQuoteEmailByKey_def store_countWonPurchases_def
  store_findCustomersByEmail_def

lemma wp_saveNegotiation [wp_simps]:
  "wp (store_saveNegotiation n) Q E w =
     Q n (w\<lparr>w_negotiations := upsert_by (\<lambda>i. ng_id i = ng_id n) n (w_negotiations w)\<rparr>)"
  by (simp add: store_saveNegotiation_def wp_simps)

lemma wp_numbers [wp_simps]:
  "wp store_nextQuoteNumber Q E w = Q (''DF-'' @ padStart5 (digits (Suc (w_quoteSeq w)))) (w\<lparr>w_quoteSeq := Suc (w_quoteSeq w)\<rparr>)"
  "wp (store_newPortalToken e) Q E w = Q (e_token e (w_uuid w)) (w\<lparr>w_uuid := Suc (w_uuid w)\<rparr>)"
  by (simp_all add: wp_def store_nextQuoteNumber_def store_newPortalToken_def)

lemma wp_replaceStock [wp_simps]: "wp (store_replaceStock s) Q E w = Q () (w\<lparr>w_stock := s\<rparr>)"
  by (simp add: store_replaceStock_def wp_simps)

lemma wp_result:
  assumes "wp m Q E w"
  shows "m w = (Inr x, w') \<Longrightarrow> Q x w'" and "m w = (Inl err, w') \<Longrightarrow> E w'"
  using assms by (auto simp: wp_def)

lemma wp_mono:
  assumes "wp m Q E w" and "\<And>x w'. Q x w' \<Longrightarrow> Q' x w'" and "\<And>w'. E w' \<Longrightarrow> E' w'"
  shows "wp m Q' E' w"
  using assms by (auto simp: wp_def split: prod.splits sum.splits)

lemma wp_snd: "wp m (\<lambda>_. R) R w \<longleftrightarrow> R (snd (m w))"
  by (simp add: wp_def split: prod.splits sum.splits)

section \<open>Frames\<close>

text \<open>What every action other than a write of a quotation or of the catalogue keeps: the
  quotations, the products and the tables an assessment reads are the same (stock apart), no customer
  disappears, the identifier supply and the quote counter only advance.\<close>

definition same_core :: "world \<Rightarrow> world \<Rightarrow> bool" where
  "same_core w w' \<longleftrightarrow> w_quotes w' = w_quotes w \<and> w_products w' = w_products w \<and> w_policies w' = w_policies w \<and>
     w_chains w' = w_chains w \<and> w_quantityBreaks w' = w_quantityBreaks w \<and> w_roleAuthorities w' = w_roleAuthorities w \<and>
     w_governance w' = w_governance w \<and> w_warehouses w' = w_warehouses w \<and>
     cu_id ` set (w_customers w) \<subseteq> cu_id ` set (w_customers w') \<and> w_uuid w \<le> w_uuid w' \<and> w_quoteSeq w \<le> w_quoteSeq w'"

lemma same_core_refl [simp]: "same_core w w"
  by (simp add: same_core_def)

lemma same_core_trans: "same_core w w1 \<Longrightarrow> same_core w1 w2 \<Longrightarrow> same_core w w2"
  unfolding same_core_def by (auto intro: order_trans)

lemma same_core_upd [simp]:
  "same_core w (w1\<lparr>w_log := x\<rparr>) = same_core w w1"
  "same_core w (w1\<lparr>w_negotiations := n\<rparr>) = same_core w w1"
  "same_core w (w1\<lparr>w_emails := m\<rparr>) = same_core w w1"
  "same_core w (w1\<lparr>w_anomalies := y\<rparr>) = same_core w w1"
  "same_core w (w1\<lparr>w_stock := s\<rparr>) = same_core w w1"
  by (simp_all add: same_core_def)

lemma same_core_seq [simp]: "same_core w w1 \<Longrightarrow> w_quoteSeq w1 \<le> k \<Longrightarrow> same_core w (w1\<lparr>w_quoteSeq := k\<rparr>)"
  by (simp add: same_core_def)

lemma same_core_uuid [simp]: "same_core w w1 \<Longrightarrow> w_uuid w1 \<le> n \<Longrightarrow> same_core w (w1\<lparr>w_uuid := n\<rparr>)"
  by (simp add: same_core_def)

definition quiet :: "'a action \<Rightarrow> bool" where
  "quiet m \<longleftrightarrow> (\<forall>w. same_core w (snd (m w)))"

lemma quiet_wp: "quiet m \<longleftrightarrow> (\<forall>w. wp m (\<lambda>_. same_core w) (same_core w) w)"
  by (simp add: quiet_def wp_snd)

lemma quiet_rule:
  assumes "quiet m" and "\<And>x w'. same_core w w' \<Longrightarrow> Q x w'" and "\<And>w'. same_core w w' \<Longrightarrow> E w'"
  shows "wp m Q E w"
  using assms unfolding quiet_wp by (blast intro: wp_mono)

lemma quiet_bnd [quiet_intros]:
  assumes "quiet m" and "\<And>x. quiet (f x)"
  shows "quiet (bnd m f)"
  unfolding quiet_wp wp_bnd
proof
  fix w
  show "wp m (\<lambda>x. wp (f x) (\<lambda>_. same_core w) (same_core w)) (same_core w) w"
  proof (rule quiet_rule [OF assms(1)])
    fix x w' assume "same_core w w'"
    then show "wp (f x) (\<lambda>_. same_core w) (same_core w) w'"
      by (intro quiet_rule [OF assms(2)]) (auto intro: same_core_trans)
  qed
qed

lemma quiet_ret [quiet_intros]: "quiet (ret x)"
  by (simp add: quiet_wp wp_simps)

lemma quiet_throw [quiet_intros]: "quiet (throw x)"
  by (simp add: quiet_wp wp_simps)

lemma quiet_gets [quiet_intros]: "quiet (gets f)"
  by (simp add: quiet_wp wp_simps)

lemma quiet_lift [quiet_intros]: "quiet (lift r)"
  by (simp add: quiet_wp wp_simps split: sum.splits)

lemma quiet_ensure [quiet_intros]: "quiet (ensure b x)"
  by (simp add: quiet_wp wp_simps)

lemma quiet_unless [quiet_intros]: "quiet m \<Longrightarrow> quiet (unless b m)"
  by (simp add: unless_def quiet_ret)

lemma quiet_if [quiet_intros]: "quiet m \<Longrightarrow> quiet n \<Longrightarrow> quiet (if b then m else n)"
  by simp

lemma quiet_case_option [quiet_intros]:
  "quiet m \<Longrightarrow> (\<And>y. quiet (f y)) \<Longrightarrow> quiet (case x of None \<Rightarrow> m | Some y \<Rightarrow> f y)"
  by (simp split: option.split)

lemma quiet_case_prod [quiet_intros]: "(\<And>x y. quiet (f x y)) \<Longrightarrow> quiet (case p of (x, y) \<Rightarrow> f x y)"
  by (simp split: prod.split)

lemma quiet_case_sum [quiet_intros]:
  "(\<And>x. quiet (f x)) \<Longrightarrow> (\<And>y. quiet (g y)) \<Longrightarrow> quiet (case p of Inl x \<Rightarrow> f x | Inr y \<Rightarrow> g y)"
  by (simp split: sum.split)

lemma quiet_each [quiet_intros]: "(\<And>x. quiet (f x)) \<Longrightarrow> quiet (each f xs)"
  by (induction xs) (auto intro: quiet_intros)

lemma quiet_randomUUID [quiet_intros]: "quiet (randomUUID e)"
  by (simp add: quiet_wp wp_simps)

lemma quiet_drawing [quiet_intros]: "quiet (drawing e f u)"
  by (simp add: quiet_wp wp_simps split: sum.splits)

lemma quiet_refreshAssessment [quiet_intros]: "quiet (refreshAssessment e a)"
  by (simp add: quiet_wp wp_simps split: sum.splits)

lemma quiet_assertCommercialWrite [quiet_intros]: "quiet (assertCommercialWrite e a act ds os)"
  by (simp add: quiet_wp wp_simps split: sum.splits)

lemma quiet_log_event [quiet_intros]: "quiet (log_event ev)"
  by (simp add: quiet_wp wp_simps log_event_def)

lemma quiet_audit [quiet_intros]: "quiet (audit e a x r i s)"
  unfolding audit_def by (intro quiet_intros)

lemma quiet_notify [quiet_intros]: "quiet (notify e u t)"
  unfolding notify_def by (intro quiet_intros)

lemma quiet_publish [quiet_intros]: "quiet (publish e t q)"
  unfolding publish_def by (intro quiet_intros)

lemma quiet_store_reads [quiet_intros]:
  "quiet (store_getCustomer i)" "quiet (store_getProduct i)" "quiet (store_getNegotiation i)"
  "quiet (store_listNegotiations i)" "quiet (store_listQuoteEmails i)" "quiet (store_findQuoteEmailByKey k)"
  "quiet (store_countWonPurchases i)" "quiet (store_findCustomersByEmail i)" "quiet (store_countCustomerQuotes i)"
  "quiet (store_countProductQuoteLines i)" "quiet (store_countWarehouseAllocations i)" "quiet (store_getChain i)"
  "quiet (store_countChainApprovals i)"
  by (simp_all add: wp_store_reads store_countCustomerQuotes_def store_countProductQuoteLines_def
      store_countWarehouseAllocations_def store_getChain_def store_countChainApprovals_def quiet_gets)

lemma quiet_quote_reads [quiet_intros]:
  "quiet (store_getQuote i)" "quiet (store_getQuoteByToken t)" "quiet store_listQuoteSummaries"
  by (simp_all add: quiet_def store_getQuote_def store_getQuoteByToken_def store_listQuoteSummaries_def)

lemma quiet_load [quiet_intros]: "quiet (load i)" "quiet (load_by_token t)"
  unfolding load_def load_by_token_def by (intro quiet_intros)+

lemma quiet_store_writes [quiet_intros]:
  "quiet (store_saveNegotiation n)" "quiet (store_saveQuoteEmail m)" "quiet (store_upsertAnomaly x)"
  "quiet (store_replaceStock s)"
  by (simp_all add: quiet_wp wp_simps store_saveQuoteEmail_def store_upsertAnomaly_def)

lemma patch_customer_id [simp]: "cu_id (patch_customer i c) = cu_id c"
  by (simp add: patch_customer_def)

lemma quiet_upsertCustomer [quiet_intros]: "quiet (store_upsertCustomer e input)"
proof -
  have "map cu_id (update_first h (patch_customer input) cs) = map cu_id cs" for h cs
    by (rule map_update_first) simp
  then have "cu_id ` set (update_first h (patch_customer input) cs) = cu_id ` set cs" for h cs
    by (metis list.set_map)
  then show ?thesis
    by (auto simp: quiet_def store_upsertCustomer_def same_core_def Let_def split: option.splits)
qed

lemma quiet_sync_tier [quiet_intros]: "quiet (sync_tier e a t)"
  unfolding sync_tier_def Let_def by (intro quiet_intros)

lemma quiet_decorate [quiet_intros]: "quiet (decorate e a x act b)"
  unfolding decorate_def Let_def by (intro quiet_intros)

lemma quiet_deliver [quiet_intros]: "quiet (deliver e a ev m)"
  unfolding deliver_def by (intro quiet_intros)

lemma quiet_open_delivery [quiet_intros]: "quiet (open_delivery e a ev k d m)"
  unfolding open_delivery_def Let_def by (intro quiet_intros)

lemma quiet_dispatch [quiet_intros]: "quiet (dispatchCustomerQuoteEmail e a ev act)"
  unfolding dispatchCustomerQuoteEmail_def Let_def by (intro quiet_intros)

lemma quiet_persistAnomalies [quiet_intros]: "quiet (persistAnomalies e a x act)"
  unfolding persistAnomalies_def persist_anomaly_def by (intro quiet_intros)

lemma quiet_toLine [quiet_intros]: "quiet (toLine e q i bs)"
  unfolding toLine_def by (intro quiet_intros)

lemma quiet_to_lines [quiet_intros]: "quiet (to_lines e q bs xs)"
  by (induction xs) (auto intro: quiet_intros)

lemma quiet_decorate_all [quiet_intros]: "quiet (decorate_all e as)"
  by (induction as) (auto intro: quiet_intros)

lemma quiet_own_negotiation [quiet_intros]: "quiet (own_negotiation q i)"
  unfolding own_negotiation_def by (intro quiet_intros)

lemma quiet_numbers [quiet_intros]: "quiet store_nextQuoteNumber" "quiet (store_newPortalToken e)"
  by (simp_all add: quiet_def store_nextQuoteNumber_def store_newPortalToken_def)

end
