(* ===== verification/Dealflow_Invariants.thy ===== *)
theory Dealflow_Invariants
  imports Dealflow_Logic
begin

text \<open>
  The invariant of a stored quotation (\<open>quote_inv\<close>), the relation between two successive states of
  one quotation (\<open>evolves\<close>), and that the edit of every handler keeps the first and satisfies the
  second.
\<close>

section \<open>The invariant and the evolution of a quotation\<close>

definition approved_or_later :: "quote_status \<Rightarrow> bool" where
  "approved_or_later s \<longleftrightarrow> s = Q_approved \<or> committed s"

definition quote_inv :: "quote_aggregate \<Rightarrow> bool" where
  "quote_inv a \<longleftrightarrow>
     1 \<le> qt_version (ag_quote a) \<and>
     (approved_or_later (status_of a) \<longrightarrow> allRequiredApproved (ag_approvals a)) \<and>
     (qt_financeLockedAt (ag_quote a) \<noteq> None \<longleftrightarrow> committed (status_of a)) \<and>
     (ag_allocations a \<noteq> [] \<or> ag_backorders a \<noteq> [] \<longrightarrow> status_of a \<in> {Q_fulfillment, Q_billing, Q_completed}) \<and>
     (ag_schedules a \<noteq> [] \<longrightarrow> status_of a \<in> {Q_billing, Q_completed}) \<and>
     (\<forall>v. qt_customerDecisionVersion (ag_quote a) = Some v \<longrightarrow> v < qt_version (ag_quote a))"

definition evolves :: "quote_aggregate \<Rightarrow> quote_aggregate \<Rightarrow> bool" where
  "evolves a b \<longleftrightarrow>
     qt_id (ag_quote b) = qt_id (ag_quote a) \<and> qt_number (ag_quote b) = qt_number (ag_quote a) \<and>
     qt_customerId (ag_quote b) = qt_customerId (ag_quote a) \<and> qt_portalToken (ag_quote b) = qt_portalToken (ag_quote a) \<and>
     qt_version (ag_quote a) \<le> qt_version (ag_quote b) \<and>
     moves\<^sup>*\<^sup>* (status_of a) (status_of b) \<and>
     (qt_version (ag_quote a) = qt_version (ag_quote b) \<longrightarrow>
        status_of b = status_of a \<and> ag_lines b = ag_lines a \<and> ag_approvals b = ag_approvals a \<and>
        ag_allocations b = ag_allocations a \<and> ag_backorders b = ag_backorders a \<and> ag_schedules b = ag_schedules a \<and>
        ag_revisions b = ag_revisions a \<and> qt_customerDecision (ag_quote b) = qt_customerDecision (ag_quote a)) \<and>
     (\<exists>new. ag_revisions b = ag_revisions a @ new) \<and>
     (qt_financeLockedAt (ag_quote a) \<noteq> None \<longrightarrow> qt_financeLockedAt (ag_quote b) = qt_financeLockedAt (ag_quote a))"

lemma evolves_refl [simp]: "evolves a a"
  by (simp add: evolves_def)

lemma evolves_trans: "evolves a b \<Longrightarrow> evolves b c \<Longrightarrow> evolves a c"
  unfolding evolves_def by (auto intro: rtranclp_trans)

text \<open>The fields \<open>quote_inv\<close> and \<open>evolves\<close> read; \<open>attach\<close> and \<open>refreshAssessment\<close> change none of them.\<close>

definition core :: "quote_aggregate \<Rightarrow>
   (string \<times> string \<times> string \<times> string \<times> int \<times> quote_status) \<times> (int option \<times> customer_decision \<times> int option) \<times>
   quote_line list \<times> quote_approval list \<times> fulfillment_split list \<times> backorder list \<times> billing_schedule list \<times> quote_revision list" where
  "core a = (let q = ag_quote a in
     ((qt_id q, qt_number q, qt_customerId q, qt_portalToken q, qt_version q, qt_status q),
      (qt_financeLockedAt q, qt_customerDecision q, qt_customerDecisionVersion q),
      ag_lines a, ag_approvals a, ag_allocations a, ag_backorders a, ag_schedules a, ag_revisions a))"

lemma core_eqD:
  assumes "core a = core b"
  shows "quote_inv a = quote_inv b" and "evolves a c = evolves b c" and "evolves c a = evolves c b"
    and "ag_lines a = ag_lines b" and "qt_id (ag_quote a) = qt_id (ag_quote b)" and "qt_customerId (ag_quote a) = qt_customerId (ag_quote b)"
    and "status_of a = status_of b" and "qt_version (ag_quote a) = qt_version (ag_quote b)"
  using assms by (simp_all add: core_def Let_def quote_inv_def evolves_def)

lemma core_frame [simp]:
  "core (a\<lparr>ag_products := p\<rparr>) = core a" "core (a\<lparr>ag_customer := c\<rparr>) = core a"
  "core (a\<lparr>ag_quote := write_assessment x t (ag_quote a)\<rparr>) = core a"
  "core (touch e a) = core a" "core (set_activeNegotiation i a) = core a" "core (freeze e act a) = core a"
  by (simp_all add: core_def Let_def write_assessment_def touch_def set_activeNegotiation_def freeze_def)

lemma core_assess_in:
  assumes "assess_in e w a = Inr (x, b)" shows "core b = core a"
  using assms by (auto simp: assess_in_def core_def Let_def write_assessment_def)

lemma core_attach: "attach w a = Inr b \<Longrightarrow> core b = core a"
  by (auto simp: attach_def core_def Let_def split: option.splits)

section \<open>Edits\<close>

definition line_refs :: "world \<Rightarrow> quote_aggregate \<Rightarrow> bool" where
  "line_refs w a \<longleftrightarrow> (\<forall>l\<in>set (ag_lines a). ln_productId l \<in> pr_id ` set (w_products w))"

lemma line_refs_same_core: "same_core w w' \<Longrightarrow> line_refs w' a = line_refs w a"
  by (simp add: line_refs_def same_core_def)

definition good_edit :: "world \<Rightarrow> quote_aggregate \<Rightarrow> quote_aggregate \<Rightarrow> bool" where
  "good_edit w a b \<longleftrightarrow> quote_inv b \<and> evolves a b \<and> line_refs w b"

definition edit_ok :: "('b \<Rightarrow> quote_aggregate) \<Rightarrow> 'b action \<Rightarrow> quote_aggregate \<Rightarrow> bool" where
  "edit_ok proj m a \<longleftrightarrow> (\<forall>w. quote_inv a \<longrightarrow> line_refs w a \<longrightarrow>
     wp m (\<lambda>b w'. same_core w w' \<and> good_edit w a (proj b)) (same_core w) w)"

lemma good_edit_core: "core b = core c \<Longrightarrow> good_edit w a b = good_edit w a c"
  using core_eqD [of b c] by (simp add: good_edit_def line_refs_def)

text \<open>One version later, with the status moved along the table, and the other fields as stated.\<close>

lemma good_edit_bump:
  assumes inv: "quote_inv a" and refs: "line_refs w b"
    and keep: "qt_id (ag_quote b) = qt_id (ag_quote a)" "qt_number (ag_quote b) = qt_number (ag_quote a)"
      "qt_customerId (ag_quote b) = qt_customerId (ag_quote a)" "qt_portalToken (ag_quote b) = qt_portalToken (ag_quote a)"
      "qt_version (ag_quote b) = qt_version (ag_quote a) + 1"
    and move: "moves\<^sup>*\<^sup>* (status_of a) (status_of b)"
    and rev: "\<exists>new. ag_revisions b = ag_revisions a @ new"
    and appr: "approved_or_later (status_of b) \<Longrightarrow> allRequiredApproved (ag_approvals b)"
    and lock: "qt_financeLockedAt (ag_quote b) \<noteq> None \<longleftrightarrow> committed (status_of b)"
      "qt_financeLockedAt (ag_quote a) \<noteq> None \<Longrightarrow> qt_financeLockedAt (ag_quote b) = qt_financeLockedAt (ag_quote a)"
    and alloc: "ag_allocations b \<noteq> [] \<or> ag_backorders b \<noteq> [] \<Longrightarrow> status_of b \<in> {Q_fulfillment, Q_billing, Q_completed}"
    and sched: "ag_schedules b \<noteq> [] \<Longrightarrow> status_of b \<in> {Q_billing, Q_completed}"
    and dec: "\<And>v. qt_customerDecisionVersion (ag_quote b) = Some v \<Longrightarrow> v \<le> qt_version (ag_quote a)"
  shows "good_edit w a b"
proof -
  have "1 \<le> qt_version (ag_quote a)" using inv by (simp add: quote_inv_def)
  then have "quote_inv b"
    unfolding quote_inv_def using keep(5) appr lock(1) alloc sched dec by fastforce
  moreover have "evolves a b"
    unfolding evolves_def using keep move rev lock(2) by simp
  ultimately show ?thesis using refs by (simp add: good_edit_def)
qed

lemma bumpVersion_simps [simp]:
  "qt_version (ag_quote (bumpVersion a)) = qt_version (ag_quote a) + 1" "status_of (bumpVersion a) = status_of a"
  "qt_id (ag_quote (bumpVersion a)) = qt_id (ag_quote a)" "qt_number (ag_quote (bumpVersion a)) = qt_number (ag_quote a)"
  "qt_customerId (ag_quote (bumpVersion a)) = qt_customerId (ag_quote a)"
  "qt_portalToken (ag_quote (bumpVersion a)) = qt_portalToken (ag_quote a)"
  "qt_financeLockedAt (ag_quote (bumpVersion a)) = qt_financeLockedAt (ag_quote a)"
  "qt_customerDecisionVersion (ag_quote (bumpVersion a)) = qt_customerDecisionVersion (ag_quote a)"
  "qt_customerDecision (ag_quote (bumpVersion a)) = qt_customerDecision (ag_quote a)"
  "ag_lines (bumpVersion a) = ag_lines a" "ag_approvals (bumpVersion a) = ag_approvals a"
  "ag_allocations (bumpVersion a) = ag_allocations a" "ag_backorders (bumpVersion a) = ag_backorders a"
  "ag_schedules (bumpVersion a) = ag_schedules a" "ag_revisions (bumpVersion a) = ag_revisions a"
  by (simp_all add: bumpVersion_def)

lemma set_status_simps [simp]:
  "qt_version (ag_quote (set_status s a)) = qt_version (ag_quote a)" "status_of (set_status s a) = s"
  "qt_id (ag_quote (set_status s a)) = qt_id (ag_quote a)" "qt_number (ag_quote (set_status s a)) = qt_number (ag_quote a)"
  "qt_customerId (ag_quote (set_status s a)) = qt_customerId (ag_quote a)"
  "qt_portalToken (ag_quote (set_status s a)) = qt_portalToken (ag_quote a)"
  "qt_financeLockedAt (ag_quote (set_status s a)) = qt_financeLockedAt (ag_quote a)"
  "qt_customerDecisionVersion (ag_quote (set_status s a)) = qt_customerDecisionVersion (ag_quote a)"
  "qt_customerDecision (ag_quote (set_status s a)) = qt_customerDecision (ag_quote a)"
  "ag_lines (set_status s a) = ag_lines a" "ag_approvals (set_status s a) = ag_approvals a"
  "ag_allocations (set_status s a) = ag_allocations a" "ag_backorders (set_status s a) = ag_backorders a"
  "ag_schedules (set_status s a) = ag_schedules a" "ag_revisions (set_status s a) = ag_revisions a"
  by (simp_all add: set_status_def)

lemma core_set_same: "status_of a = s \<Longrightarrow> core (set_status s a) = core a"
  by (auto simp: core_def Let_def)

lemma core_bumpVersion: "core b = core c \<Longrightarrow> core (bumpVersion b) = core (bumpVersion c)"
  by (simp add: core_def Let_def)

lemma core_set_status: "core b = core c \<Longrightarrow> core (set_status s b) = core (set_status s c)"
  by (simp add: core_def Let_def)

text \<open>The common kind of edit: a version later, perhaps with other lines, revisions appended, and a
  status move that stays outside the committed statuses.\<close>

lemma quote_invD:
  assumes "quote_inv a"
  shows "1 \<le> qt_version (ag_quote a)" and "approved_or_later (status_of a) \<Longrightarrow> allRequiredApproved (ag_approvals a)"
    and "qt_financeLockedAt (ag_quote a) \<noteq> None \<longleftrightarrow> committed (status_of a)"
    and "ag_allocations a \<noteq> [] \<or> ag_backorders a \<noteq> [] \<Longrightarrow> status_of a \<in> {Q_fulfillment, Q_billing, Q_completed}"
    and "ag_schedules a \<noteq> [] \<Longrightarrow> status_of a \<in> {Q_billing, Q_completed}"
    and "qt_customerDecisionVersion (ag_quote a) = Some v \<Longrightarrow> v < qt_version (ag_quote a)"
  using assms by (simp_all add: quote_inv_def)

lemma uncommitted_empty:
  assumes "quote_inv a" and "\<not> committed (status_of a)"
  shows "qt_financeLockedAt (ag_quote a) = None" "ag_allocations a = []" "ag_backorders a = []" "ag_schedules a = []"
  using quote_invD(3-5) [OF assms(1)] assms(2) by (auto simp: committed_def)

lemma good_edit_open:
  assumes inv: "quote_inv a" and refs: "line_refs w b"
    and core: "core c = core (bumpVersion (set_status s (a\<lparr>ag_lines := ag_lines b, ag_revisions := ag_revisions a @ new\<rparr>)))"
    and move: "status_of a = s \<or> moves (status_of a) s" and s: "\<not> approved_or_later s"
  shows "good_edit w a c"
proof -
  have nc: "\<not> committed (status_of a)" "\<not> committed s"
    using move s committed_closed by (metis approved_or_later_def)+
  note empty = uncommitted_empty [OF inv nc(1)]
  have mv: "moves\<^sup>*\<^sup>* (status_of a) s" using move by (auto simp del: moves_simps)
  let ?d = "bumpVersion (set_status s (a\<lparr>ag_lines := ag_lines b, ag_revisions := ag_revisions a @ new\<rparr>))"
  have "line_refs w ?d" using refs by (simp add: line_refs_def)
  then have "good_edit w a ?d"
    using nc s empty mv quote_invD(6) [OF inv] by (intro good_edit_bump [OF inv]) (auto simp: less_imp_le simp del: moves_simps)
  then show ?thesis unfolding good_edit_core [OF core] .
qed

section \<open>Pieces of edits\<close>

lemma wp_cons: "wp m P E w \<Longrightarrow> (\<And>x w'. P x w' \<Longrightarrow> Q x w') \<Longrightarrow> wp m Q E w"
  by (rule wp_mono)

lemma settle_wp:
  assumes "same_core w0 w" and "status_of b \<noteq> Q_approved"
  shows "wp (settle_mutation e b before act)
    (\<lambda>c w'. same_core w0 w' \<and> (\<exists>new. core c = core (bumpVersion (b\<lparr>ag_revisions := ag_revisions b @ new\<rparr>)))) (same_core w0) w"
proof -
  have finish: "wp (finishMutation e c act material)
      (\<lambda>d w'. same_core w0 w' \<and> (\<exists>new. core d = core (bumpVersion (b\<lparr>ag_revisions := ag_revisions b @ new\<rparr>)))) (same_core w0) w"
    if c: "core c = core b" for c material
  proof -
    have 1: "\<exists>new. core (bumpVersion c) = core (bumpVersion (b\<lparr>ag_revisions := ag_revisions b @ new\<rparr>))"
      using core_bumpVersion [OF c] by (intro exI [of _ "[]"]) simp
    have 2: "core (bumpVersion c\<lparr>ag_revisions := ag_revisions c @ [r]\<rparr>) = core (bumpVersion (b\<lparr>ag_revisions := ag_revisions b @ [r]\<rparr>))" for r
      using c by (simp add: core_def Let_def)
    then have "\<exists>new. core (bumpVersion c\<lparr>ag_revisions := ag_revisions c @ [r]\<rparr>) = core (bumpVersion (b\<lparr>ag_revisions := ag_revisions b @ new\<rparr>))" for r
      by blast
    then show ?thesis
      using assms(1) 1 by (cases material) (simp_all add: finishMutation_def appendRevision_def wp_simps)
  qed
  show ?thesis
  proof (cases "assess_in e w b")
    case (Inl err)
    then show ?thesis using assms(1) by (simp add: settle_mutation_def maybeReapprove_def wp_simps)
  next
    case (Inr xc)
    then obtain x c where xc: "assess_in e w b = Inr (x, c)" by (cases xc) simp
    have c: "core c = core b" using xc by (rule core_assess_in)
    then have "status_of c \<noteq> Q_approved" using core_eqD(7) assms(2) by metis
    then show ?thesis using finish [OF c] by (simp add: settle_mutation_def maybeReapprove_def wp_simps xc)
  qed
qed

lemma toLine_wp:
  assumes "same_core w0 w"
  shows "wp (toLine e q input bs) (\<lambda>l w'. same_core w0 w' \<and> ln_productId l \<in> pr_id ` set (w_products w0)) (same_core w0) w"
proof -
  have "pr_id p \<in> pr_id ` set (w_products w0)" if "find P (w_products w) = Some p" for P p
    using that assms find_SomeD by (fastforce simp: same_core_def)
  then show ?thesis using assms by (auto simp: toLine_def wp_simps split: option.splits)
qed

lemma commercial_write_Ok:
  assumes "commercial_write e w a act ds os = Inr u"
  shows "canMutateCommercials (status_of a)" and "\<not> approved_or_later (status_of a)"
  using assms by (auto simp: commercial_write_def check_def isCommerciallyLocked_def canMutateCommercials_def
      approved_or_later_def committed_def split: if_splits)

text \<open>The end of every commercial edit: from a checked quotation with new lines to a good edit.\<close>

lemma commercial_settle:
  assumes inv: "quote_inv a" and b: "core b = core (set_status s (a\<lparr>ag_lines := ls\<rparr>))"
    and move: "status_of a = s \<or> moves (status_of a) s" and s: "\<not> approved_or_later s"
    and refs: "line_refs w0 (a\<lparr>ag_lines := ls\<rparr>)" and core: "same_core w0 w"
  shows "wp (settle_mutation e b before act) (\<lambda>c w'. same_core w0 w' \<and> good_edit w0 a c) (same_core w0) w"
proof (rule wp_cons [OF settle_wp [OF core]])
  show "status_of b \<noteq> Q_approved" using core_eqD(7) [OF b] s by (simp add: approved_or_later_def)
next
  fix c w' assume c: "same_core w0 w' \<and> (\<exists>new. core c = core (bumpVersion (b\<lparr>ag_revisions := ag_revisions b @ new\<rparr>)))"
  then obtain new where new: "core c = core (bumpVersion (b\<lparr>ag_revisions := ag_revisions b @ new\<rparr>))" by blast
  have "core (bumpVersion (b\<lparr>ag_revisions := ag_revisions b @ new\<rparr>)) =
      core (bumpVersion (set_status s (a\<lparr>ag_lines := ag_lines (a\<lparr>ag_lines := ls\<rparr>), ag_revisions := ag_revisions a @ new\<rparr>)))"
    using b by (simp add: core_def Let_def)
  then have "good_edit w0 a c"
    using new by (intro good_edit_open [OF inv refs _ move s, of c new]) simp
  then show "same_core w0 w' \<and> good_edit w0 a c" using c by blast
qed

lemma core_lines: "core (a\<lparr>ag_lines := ls\<rparr>) = core (set_status (status_of a) (a\<lparr>ag_lines := ls\<rparr>))"
  by (simp add: core_def Let_def)

lemma line_refs_append:
  "line_refs w a \<Longrightarrow> ln_productId l \<in> pr_id ` set (w_products w) \<Longrightarrow> line_refs w (a\<lparr>ag_lines := ag_lines a @ [l]\<rparr>)"
  by (auto simp: line_refs_def)

lemma line_refs_filter: "line_refs w a \<Longrightarrow> line_refs w (a\<lparr>ag_lines := filter P (ag_lines a)\<rparr>)"
  by (auto simp: line_refs_def)

lemma line_refs_update:
  assumes "line_refs w a" and "ln_productId l \<in> pr_id ` set (w_products w)"
  shows "line_refs w (a\<lparr>ag_lines := update_first P (\<lambda>_. l) (ag_lines a)\<rparr>)"
  using assms set_update_first_subset [of P "\<lambda>_. l" "ag_lines a"] by (fastforce simp: line_refs_def)

section \<open>Drafting\<close>

lemma addLine_edit_ok: "edit_ok id (addLine_edit e input v act a) a"
  unfolding edit_ok_def
proof (intro allI impI)
  fix w assume inv: "quote_inv a" and refs: "line_refs w a"
  have "wp (toLine e (qt_id (ag_quote a)) input bs)
     (\<lambda>l. wp (settle_mutation e (a\<lparr>ag_lines := ag_lines a @ [l]\<rparr>) (totals_before a) (Some act))
        (\<lambda>b w'. same_core w w' \<and> good_edit w a b) (same_core w)) (same_core w) w"
    if "\<not> approved_or_later (status_of a)" for bs
  proof (rule wp_cons [OF toLine_wp [OF same_core_refl]])
    fix l :: quote_line and w' assume "same_core w w' \<and> ln_productId l \<in> pr_id ` set (w_products w)"
    then show "wp (settle_mutation e (a\<lparr>ag_lines := ag_lines a @ [l]\<rparr>) (totals_before a) (Some act))
        (\<lambda>b w'. same_core w w' \<and> good_edit w a b) (same_core w) w'"
      using that line_refs_append [OF refs, of l] by (intro commercial_settle [OF inv core_lines]) auto
  qed
  then show "wp (addLine_edit e input v act a) (\<lambda>b w'. same_core w w' \<and> good_edit w a (id b)) (same_core w) w"
    using commercial_write_Ok(2) by (auto simp: addLine_edit_def wp_simps split: sum.splits)
qed

lemma removeLine_edit_ok: "edit_ok id (removeLine_edit e i v act a) a"
  unfolding edit_ok_def
proof (intro allI impI)
  fix w assume inv: "quote_inv a" and refs: "line_refs w a"
  have "wp (settle_mutation e (a\<lparr>ag_lines := filter (\<lambda>l. ln_id l \<noteq> i) (ag_lines a)\<rparr>) (totals_before a) (Some act))
     (\<lambda>b w'. same_core w w' \<and> good_edit w a b) (same_core w) w" if "\<not> approved_or_later (status_of a)"
    using that line_refs_filter [OF refs] by (intro commercial_settle [OF inv core_lines]) auto
  then show "wp (removeLine_edit e i v act a) (\<lambda>b w'. same_core w w' \<and> good_edit w a (id b)) (same_core w) w"
    using commercial_write_Ok(2) by (auto simp: removeLine_edit_def wp_simps split: sum.splits)
qed

lemma good_edit_status:
  assumes "quote_inv a" and "line_refs w a" and "core c = core (bumpVersion (set_status s a))"
    and "status_of a = s \<or> moves (status_of a) s" and "\<not> approved_or_later s"
  shows "good_edit w a c"
  using good_edit_open [OF assms(1,2) _ assms(4,5), of c "[]"] assms(3) by simp

lemma good_edit_lines:
  assumes inv: "quote_inv a" and refs: "line_refs w (a\<lparr>ag_lines := ls\<rparr>)" and core: "core c = core (bumpVersion (a\<lparr>ag_lines := ls\<rparr>))"
  shows "good_edit w a c"
  unfolding good_edit_core [OF core] using quote_invD [OF inv] refs
  by (intro good_edit_bump [OF inv]) (auto simp: line_refs_def less_imp_le)

text \<open>How an edit lemma starts: fix the world and the two facts about the loaded quotation.\<close>

lemma edit_okI:
  "(\<And>w. quote_inv a \<Longrightarrow> line_refs w a \<Longrightarrow> wp m (\<lambda>b w'. same_core w w' \<and> good_edit w a (proj b)) (same_core w) w) \<Longrightarrow> edit_ok proj m a"
  by (simp add: edit_ok_def)

lemma void_edit_ok: "edit_ok id (void_edit act v a) a"
proof (rule edit_okI)
  fix w assume "quote_inv a" "line_refs w a"
  then have "good_edit w a (bumpVersion (set_status Q_rejected a))" if "status_of a = Q_rejected \<or> moves (status_of a) Q_rejected"
    using that by (intro good_edit_status [where s = Q_rejected]) (auto simp: approved_or_later_def committed_def simp del: moves_simps)
  then show "wp (void_edit act v a) (\<lambda>b w'. same_core w w' \<and> good_edit w a (id b)) (same_core w) w"
    by (simp add: void_edit_def wp_simps del: moves_simps)
qed

lemma reprice_line_wp:
  assumes "same_core w0 w" and "ln_productId l \<in> pr_id ` set (w_products w0)"
  shows "wp (reprice_line e q input bs rp l)
    (\<lambda>l w'. same_core w0 w' \<and> ln_productId l \<in> pr_id ` set (w_products w0)) (same_core w0) w"
proof (cases "truthy (lp_productId input) \<and> lp_productId input \<noteq> Some (ln_productId l)")
  case True
  let ?i = "\<lparr>li_productId = the (lp_productId input), li_quantity = ln_quantity l, li_discountPercent = ln_discountPercent l\<rparr>"
  have "wp (toLine e q ?i bs) (\<lambda>r. wp (ret (l\<lparr>ln_productId := ln_productId r, ln_listPrice := ln_listPrice r, ln_unitCost := ln_unitCost r\<rparr>))
      (\<lambda>l w'. same_core w0 w' \<and> ln_productId l \<in> pr_id ` set (w_products w0)) (same_core w0)) (same_core w0) w"
    by (rule wp_cons [OF toLine_wp [OF assms(1)]]) (simp add: wp_simps)
  then show ?thesis unfolding reprice_line_def if_P [OF True] wp_bnd .
next
  case False
  then show ?thesis using assms unfolding reprice_line_def if_not_P [OF False] by (simp add: wp_simps split: option.split)
qed

lemma updateLine_edit_ok: "edit_ok id (updateLine_edit e i input v act a) a"
proof (rule edit_okI)
  fix w assume inv: "quote_inv a" and refs: "line_refs w a"
  show "wp (updateLine_edit e i input v act a) (\<lambda>b w'. same_core w w' \<and> good_edit w a (id b)) (same_core w) w"
  proof (cases "find (\<lambda>l. ln_id l = i) (ag_lines a)")
    case None
    then show ?thesis by (simp add: updateLine_edit_def wp_simps)
  next
    case (Some line)
    let ?l = "patch_quantities (lp_quantity input) (lp_discountPercent input) line"
    have l: "ln_productId ?l \<in> pr_id ` set (w_products w)"
      using find_SomeD [OF Some] refs by (simp add: patch_quantities_def line_refs_def)
    have step: "wp (assertCommercialWrite e (set_line i l a) act ds os)
        (\<lambda>_. wp (settle_mutation e (set_line i l a) (totals_before a) (Some act)) (\<lambda>b w'. same_core w w' \<and> good_edit w a b) (same_core w))
        (same_core w) w'"
      if "same_core w w'" "ln_productId l \<in> pr_id ` set (w_products w)" for l w' ds os
    proof (cases "commercial_write e w' (set_line i l a) act ds os")
      case (Inr u)
      then have "\<not> approved_or_later (status_of a)" using commercial_write_Ok(2) by (fastforce simp: set_line_def)
      then show ?thesis using that Inr line_refs_update [OF refs, of l]
        by (simp add: wp_simps) (auto simp: set_line_def intro!: commercial_settle [OF inv core_lines])
    qed (use that in \<open>simp add: wp_simps\<close>)
    have "wp (reprice_line e (qt_id (ag_quote a)) input bs rp ?l)
      (\<lambda>l. wp (assertCommercialWrite e (set_line i l a) act [ln_discountPercent l] (if lp_unitPrice input \<noteq> None then [(rp, ln_listPrice l)] else []))
        (\<lambda>_. wp (settle_mutation e (set_line i l a) (totals_before a) (Some act)) (\<lambda>b w'. same_core w w' \<and> good_edit w a b) (same_core w))
        (same_core w)) (same_core w) w" for bs rp
      by (rule wp_cons [OF reprice_line_wp [OF same_core_refl l]]) (use step in blast)
    then show ?thesis unfolding updateLine_edit_def wp_bnd wp_assertExpectedVersion Some option.case Let_def wp_ensure wp_gets
      by simp
  qed
qed

section \<open>Approval\<close>

lemma submit_edit_ok: "edit_ok fst (submit_edit e act a) a"
proof (rule edit_okI)
  fix w assume inv: "quote_inv a" and refs: "line_refs w a"
  have fin: "good_edit w a (set_status s (bumpVersion (c\<lparr>ag_approvals := xs\<rparr>)))"
    if st: "status_of a = Q_finalized" and c: "core c = core a" and s: "s = Q_approved \<or> s = Q_approval_required"
      and ok: "s = Q_approved \<Longrightarrow> allRequiredApproved xs" for c xs s
  proof -
    have core: "core (set_status s (bumpVersion (c\<lparr>ag_approvals := xs\<rparr>))) = core (set_status s (bumpVersion (a\<lparr>ag_approvals := xs\<rparr>)))"
      using c by (simp add: core_def Let_def)
    have nc: "\<not> committed (status_of a)" using st by (simp add: committed_def)
    have mv: "moves\<^sup>*\<^sup>* (status_of a) s" using s by (auto simp: st intro!: r_into_rtranclp)
    show ?thesis
      unfolding good_edit_core [OF core]
      using uncommitted_empty [OF inv nc] mv s ok refs quote_invD(6) [OF inv]
      by (intro good_edit_bump [OF inv]) (auto simp: line_refs_def less_imp_le approved_or_later_def committed_def simp del: moves_simps)
  qed
  have appr: "allRequiredApproved xs" if "autoApproveIfAllowed f t q x ch act m = Inr xs" "qa_decision x = D_allowed \<or> qa_decision x = D_warning" for f t q x ch m xs
    using autoApprove_allowed [of x f t q ch act m] that by (auto simp: allRequiredApproved_iff)
  show "wp (submit_edit e act a) (\<lambda>b w'. same_core w w' \<and> good_edit w a (fst b)) (same_core w) w"
  proof (cases "assess_in e w a")
    case (Inl err)
    then show ?thesis by (simp add: submit_edit_def wp_simps)
  next
    case (Inr xc)
    then obtain x c where xc: "assess_in e w a = Inr (x, c)" by (cases xc) simp
    have "status_of c = status_of a" using core_eqD(7) [OF core_assess_in [OF xc]] .
    then show ?thesis
      using fin [OF _ core_assess_in [OF xc], of Q_approved] fin [OF _ core_assess_in [OF xc], of Q_approval_required] appr
      by (simp add: submit_edit_def wp_simps xc Let_def split: sum.splits)
  qed
qed

lemma decide_edit_ok: "edit_ok id (decide_edit e i d r act a) a"
proof (rule edit_okI)
  fix w assume inv: "quote_inv a" and refs: "line_refs w a"
  have fin: "good_edit w a (bumpVersion (set_status s (a\<lparr>ag_approvals := xs\<rparr>)))"
    if st: "status_of a = Q_approval_required" and s: "s \<in> {Q_approved, Q_approval_required, Q_rejected}"
      and ok: "s = Q_approved \<Longrightarrow> allRequiredApproved xs" for xs s
  proof -
    have nc: "\<not> committed (status_of a)" using st by (simp add: committed_def)
    have "status_of a = s \<or> moves (status_of a) s" using s by (auto simp: st)
    then have mv: "moves\<^sup>*\<^sup>* (status_of a) s" by (auto simp del: moves_simps)
    show ?thesis
      using uncommitted_empty [OF inv nc] mv s ok refs quote_invD(6) [OF inv]
      by (intro good_edit_bump [OF inv]) (auto simp: line_refs_def less_imp_le approved_or_later_def committed_def simp del: moves_simps)
  qed
  have stay: "good_edit w a (bumpVersion (a\<lparr>ag_approvals := xs\<rparr>))" if st: "status_of a = Q_approval_required" for xs
  proof -
    have "core (bumpVersion (set_status Q_approval_required (a\<lparr>ag_approvals := xs\<rparr>))) = core (bumpVersion (a\<lparr>ag_approvals := xs\<rparr>))"
      using st by (intro core_bumpVersion core_set_same) simp
    from good_edit_core [OF this] show ?thesis using fin [OF st, of Q_approval_required xs] by blast
  qed
  show "wp (decide_edit e i d r act a) (\<lambda>b w'. same_core w w' \<and> good_edit w a (id b)) (same_core w) w"
  proof (cases "status_of a = Q_approval_required")
    case True
    have aud: "wp (audit e (Some act) x y z r) (\<lambda>_ w'. same_core w w' \<and> good_edit w a c) (same_core w) w"
      if "good_edit w a c" for c x y z r
      using that by (intro quiet_rule [OF quiet_audit]) auto
    show ?thesis
      using aud [OF fin [OF True, of Q_approved]] aud [OF fin [OF True, of Q_rejected]] aud [OF stay [OF True]] True
      by (simp add: decide_edit_def wp_simps Let_def split: sum.split)
  qed (simp add: decide_edit_def wp_simps)
qed

section \<open>Negotiation\<close>

lemma startNegotiation_edit_ok: "edit_ok id (startNegotiation_edit e act a) a"
proof (rule edit_okI)
  fix w assume "quote_inv a" "line_refs w a"
  then have "good_edit w a (bumpVersion (set_status Q_customer_negotiation a))" if "status_of a = Q_customer_negotiation \<or> moves (status_of a) Q_customer_negotiation"
    using that by (intro good_edit_status [where s = Q_customer_negotiation]) (auto simp: approved_or_later_def committed_def simp del: moves_simps)
  then show "wp (startNegotiation_edit e act a) (\<lambda>b w'. same_core w w' \<and> good_edit w a (id b)) (same_core w) w"
    by (simp add: startNegotiation_edit_def wp_simps del: moves_simps)
qed

lemma refs_update:
  assumes "ln_productId ` set lines \<subseteq> P" and "\<And>l. ln_productId (f l) = ln_productId l"
  shows "ln_productId ` set (update_first h f lines) \<subseteq> P"
proof -
  have "map ln_productId (update_first h f lines) = map ln_productId lines" by (rule map_update_first) (rule assms(2))
  then show ?thesis using assms(1) by (metis list.set_map)
qed

lemma line_refs_image: "line_refs w a \<longleftrightarrow> ln_productId ` set (ag_lines a) \<subseteq> pr_id ` set (w_products w)"
  by (auto simp: line_refs_def)

lemma refs_requested:
  "ln_productId ` set lines \<subseteq> P \<Longrightarrow> ln_productId ` set (apply_requested_quantity lines r) \<subseteq> P"
  using refs_update [of lines P] by (simp add: apply_requested_quantity_def split: option.split)

lemma refs_requested_all:
  "ln_productId ` set lines \<subseteq> P \<Longrightarrow> ln_productId ` set (foldl apply_requested_quantity lines rs) \<subseteq> P"
  by (induction rs arbitrary: lines) (simp_all add: refs_requested)

end
