(* ===== verification/Dealflow_Edits.thy ===== *)
theory Dealflow_Edits
  imports Dealflow_Invariants
begin

text \<open>
  The edits of the negotiation handlers and of the handlers after approval keep the invariant of a
  quotation and make it evolve.
\<close>

section \<open>Negotiation\<close>

lemma createNegotiation_edit_ok: "edit_ok id (createNegotiation_edit e input act a) a"
proof (rule edit_okI)
  fix w assume inv: "quote_inv a" and refs: "line_refs w a"
  have fin: "good_edit w a (bumpVersion (set_activeNegotiation i b))"
    if st: "status_of a = Q_customer_negotiation \<or> moves (status_of a) Q_customer_negotiation"
      and b: "core b = core (set_status Q_customer_negotiation (a\<lparr>ag_lines := ls\<rparr>))"
      and ls: "ln_productId ` set ls \<subseteq> pr_id ` set (w_products w)" for i b ls
  proof (rule good_edit_open [OF inv _ _ st, where new = "[]"])
    show "line_refs w (a\<lparr>ag_lines := ls\<rparr>)" using ls by (simp add: line_refs_image)
    show "core (bumpVersion (set_activeNegotiation i b)) =
      core (bumpVersion (set_status Q_customer_negotiation (a\<lparr>ag_lines := ag_lines (a\<lparr>ag_lines := ls\<rparr>), ag_revisions := ag_revisions a @ []\<rparr>)))"
      using b by (intro core_bumpVersion) simp
  qed (simp add: approved_or_later_def committed_def)
  have lines: "ln_productId ` set (if c then foldl apply_requested_quantity (ag_lines a) rs else ag_lines a) \<subseteq> pr_id ` set (w_products w)" for c rs
    using refs refs_requested_all by (simp add: line_refs_image)
  have rest: "wp (let requested = map (with_originals (ag_lines b)) (ni_requestedLines input);
         b = (if is_customer_role (or_option (ni_actorRole input) (Option.bind act act_role))
              then b\<lparr>ag_lines := foldl apply_requested_quantity (ag_lines b) requested\<rparr> else b)
     in bnd (randomUUID e) (\<lambda>i. bnd (store_saveNegotiation (mk_request e i b input act requested)) (\<lambda>saved.
        ret (bumpVersion (set_activeNegotiation (ng_id saved) b)))))
      (\<lambda>b w'. same_core w w' \<and> good_edit w a b) (same_core w) w"
    if st: "status_of a = Q_customer_negotiation \<or> moves (status_of a) Q_customer_negotiation"
      and b: "core b = core (set_status Q_customer_negotiation a)" for b
  proof -
    have l: "ag_lines b = ag_lines a" using core_eqD(4) [OF b] by simp
    have c: "core (b\<lparr>ag_lines := ls\<rparr>) = core (set_status Q_customer_negotiation (a\<lparr>ag_lines := ls\<rparr>))" for ls
      using b by (simp add: core_def Let_def)
    have c': "core b = core (set_status Q_customer_negotiation (a\<lparr>ag_lines := ag_lines a\<rparr>))" using b by simp
    show ?thesis using fin [OF st c] fin [OF st c'] lines [of True] lines [of False] by (simp add: wp_simps Let_def l)
  qed
  show "wp (createNegotiation_edit e input act a) (\<lambda>b w'. same_core w w' \<and> good_edit w a (id b)) (same_core w) w"
  proof (cases "status_of a = Q_draft")
    case True
    then show ?thesis using rest [of "set_status Q_customer_negotiation a"]
      by (simp add: createNegotiation_edit_def wp_simps split: option.split)
  next
    case False
    then show ?thesis using rest [of a] core_set_same [of a Q_customer_negotiation]
      by (simp add: createNegotiation_edit_def wp_simps split: option.split)
  qed
qed

lemma accept_lines_wp:
  assumes "same_core w0 w" and "ln_productId ` set ls \<subseteq> pr_id ` set (w_products w0)"
  shows "wp (accept_lines e act (a\<lparr>ag_lines := ls\<rparr>) rs)
    (\<lambda>b w'. same_core w0 w' \<and> (\<exists>ls'. b = a\<lparr>ag_lines := ls'\<rparr> \<and> ln_productId ` set ls' \<subseteq> pr_id ` set (w_products w0))) (same_core w0) w"
  using assms
proof (induction rs arbitrary: ls w)
  case Nil
  then show ?case by (auto simp: wp_simps)
next
  case (Cons r rs)
  define R where "R b \<longleftrightarrow> (\<exists>ls'. b = a\<lparr>ag_lines := ls'\<rparr> \<and> ln_productId ` set ls' \<subseteq> pr_id ` set (w_products w0))" for b
  have R: "R (a\<lparr>ag_lines := xs\<rparr>)" if "ln_productId ` set xs \<subseteq> pr_id ` set (w_products w0)" for xs
    using that unfolding R_def by blast
  have upd: "R (a\<lparr>ag_lines := update_first h (ln_discountPercent_update g) (apply_requested_quantity ls r)\<rparr>)" for h g
    by (rule R, rule refs_update [OF refs_requested [OF Cons.prems(2)]]) simp
  have "wp (accept_line e act (a\<lparr>ag_lines := ls\<rparr>) r) (\<lambda>b w'. same_core w0 w' \<and> R b) (same_core w0) w"
    using Cons.prems R [OF refs_requested [OF Cons.prems(2), of r]] R [OF Cons.prems(2)] upd
    by (simp add: accept_line_def wp_simps Let_def split: option.split sum.split)
  then show ?case unfolding accept_lines.simps wp_bnd
    by (rule wp_cons) (auto simp: R_def intro: Cons.IH)
qed

lemma respond_edit_ok: "edit_ok id (respond_edit e n d note v act a) a"
proof (rule edit_okI)
  fix w assume inv: "quote_inv a" and refs: "line_refs w a"
  have fin: "good_edit w a (bumpVersion (set_activeNegotiation i (a\<lparr>ag_lines := ls\<rparr>)))"
    if "ln_productId ` set ls \<subseteq> pr_id ` set (w_products w)" for i ls
    using that by (intro good_edit_lines [OF inv, of w ls] core_bumpVersion) (simp_all add: line_refs_image)
  have acc: "wp (accept_lines e act a rs) (\<lambda>b w'. same_core w w' \<and> (\<forall>i. good_edit w a (bumpVersion (set_activeNegotiation i b)))) (same_core w) w" for rs
    using accept_lines_wp [OF same_core_refl, of "ag_lines a" w e act a rs] refs fin by (auto simp: line_refs_image elim!: wp_cons)
  have none: "good_edit w a (bumpVersion (set_activeNegotiation i a))" for i
    using fin [of "ag_lines a"] refs by (simp add: line_refs_image)
  have own: "wp (own_negotiation q i) Q (same_core w) w" if "\<And>r. Q r w" for q i Q
    using that by (simp add: own_negotiation_def wp_simps split: option.split)
  show "wp (respond_edit e n d note v act a) (\<lambda>b w'. same_core w w' \<and> good_edit w a (id b)) (same_core w) w"
    using none by (auto simp: respond_edit_def wp_simps intro!: own wp_cons [OF acc])
qed

lemma sendToManager_edit_ok: "edit_ok id (sendToManager_edit e n v a) a"
proof (rule edit_okI)
  fix w assume "quote_inv a" "line_refs w a"
  then have fin: "good_edit w a (bumpVersion b)"
    if "status_of a = Q_manager_review \<or> moves (status_of a) Q_manager_review" "core b = core (set_status Q_manager_review a)" for b
    using that by (intro good_edit_status [where s = Q_manager_review] core_bumpVersion) (auto simp: approved_or_later_def committed_def simp del: moves_simps)
  show "wp (sendToManager_edit e n v a) (\<lambda>b w'. same_core w w' \<and> good_edit w a (id b)) (same_core w) w"
    using fin [of "set_status Q_manager_review a"] fin [of "set_activeNegotiation i (set_status Q_manager_review a)" for i]
    by (simp add: sendToManager_edit_def own_negotiation_def wp_simps split: option.split del: moves_simps)
qed

section \<open>Manager review\<close>

lemma revise_line_ref:
  assumes "ln_productId l \<in> pr_id ` set (w_products w)"
  shows "ln_productId (revise_line w t c l) \<in> pr_id ` set (w_products w)"
proof (cases "find (\<lambda>p. pr_id p = or_else (lc_productId c) (ln_productId l)) (w_products w)")
  case (Some p)
  then have "pr_id p \<in> pr_id ` set (w_products w)" using find_SomeD [OF Some] by blast
  then show ?thesis using assms Some by (simp add: revise_line_def patch_quantities_def Let_def)
qed (use assms in \<open>simp add: revise_line_def patch_quantities_def Let_def\<close>)

lemma refs_replace:
  assumes "ln_productId ` set lines \<subseteq> P" and "ln_productId l \<in> P"
  shows "ln_productId ` set (update_first h (\<lambda>_. l) lines) \<subseteq> P"
  using assms set_update_first_subset [of h "\<lambda>_. l" lines] by fastforce

lemma revise_lines_refs:
  assumes "revise_lines w t cs lines ds = Ok (lines', ds')" and "ln_productId ` set lines \<subseteq> pr_id ` set (w_products w)"
  shows "ln_productId ` set lines' \<subseteq> pr_id ` set (w_products w)"
  using assms
proof (induction cs arbitrary: lines ds)
  case (Cons c cs)
  then obtain line where line: "find (\<lambda>l. ln_id l = lc_lineId c) lines = Some line"
    by (auto split: option.splits)
  then have "ln_productId line \<in> pr_id ` set (w_products w)" using find_SomeD [OF line] Cons.prems(2) by auto
  from refs_replace [OF Cons.prems(2) revise_line_ref [OF this]] show ?case
    using Cons.prems(1) line Cons.IH by (simp add: Let_def)
qed simp

lemma revise_edit_ok: "edit_ok id (revise_edit e cs v act a) a"
proof (rule edit_okI)
  fix w assume inv: "quote_inv a" and refs: "line_refs w a"
  have mark: "wp (mark_active_revised e b) (\<lambda>_. wp (settle_mutation e (a\<lparr>ag_lines := ls\<rparr>) (totals_before a) (Some act))
      (\<lambda>b w'. same_core w w' \<and> good_edit w a b) (same_core w)) (same_core w) w"
    if st: "status_of a = Q_manager_review" and ls: "ln_productId ` set ls \<subseteq> pr_id ` set (w_products w)" for b ls
  proof -
    have "quiet (mark_active_revised e b)" unfolding mark_active_revised_def by (intro quiet_intros)
    then show ?thesis
    proof (rule quiet_rule)
      fix w' assume "same_core w w'"
      then show "wp (settle_mutation e (a\<lparr>ag_lines := ls\<rparr>) (totals_before a) (Some act)) (\<lambda>b w'. same_core w w' \<and> good_edit w a b) (same_core w) w'"
        using ls st by (intro commercial_settle [OF inv core_lines]) (simp_all add: line_refs_image approved_or_later_def committed_def)
    qed
  qed
  have lines: "ln_productId ` set ls \<subseteq> pr_id ` set (w_products w)" if "revise_lines w (cu_tier (ag_customer a)) cs (ag_lines a) [] = Ok (ls, ds)" for ls ds
    using revise_lines_refs [OF that] refs by (simp add: line_refs_image)
  show "wp (revise_edit e cs v act a) (\<lambda>b w'. same_core w w' \<and> good_edit w a (id b)) (same_core w) w"
    using mark lines by (simp add: revise_edit_def wp_simps Let_def split: sum.split)
qed

lemma return_edit_ok: "edit_ok id (return_edit e n v a) a"
proof (rule edit_okI)
  fix w assume inv: "quote_inv a" and refs: "line_refs w a"
  have fin: "good_edit w a (bumpVersion (set_status Q_customer_negotiation a))" if "status_of a = Q_manager_review"
    using that by (intro good_edit_status [OF inv refs, where s = Q_customer_negotiation]) (simp_all add: approved_or_later_def committed_def)
  show "wp (return_edit e n v a) (\<lambda>b w'. same_core w w' \<and> good_edit w a (id b)) (same_core w) w"
    using fin by (simp add: return_edit_def wp_simps Let_def split: option.split)
qed

lemma good_edit_decision:
  assumes inv: "quote_inv a" and refs: "line_refs w a" and core: "core c = core (bumpVersion (record_decision e d a))"
  shows "good_edit w a c"
  unfolding good_edit_core [OF core] using quote_invD(2-5) [OF inv] refs
  by (intro good_edit_bump [OF inv]) (auto simp: record_decision_def line_refs_def)

lemma agree_edit_ok: "edit_ok id (agree_edit e v a) a"
proof (rule edit_okI)
  fix w assume inv: "quote_inv a" and refs: "line_refs w a"
  have fin: "good_edit w a (bumpVersion (record_decision e C_accepted (set_activeNegotiation i a)))" for i
    by (rule good_edit_decision [OF inv refs]) (simp add: core_def Let_def record_decision_def set_activeNegotiation_def)
  show "wp (agree_edit e v a) (\<lambda>b w'. same_core w w' \<and> good_edit w a (id b)) (same_core w) w"
    using fin good_edit_decision [OF inv refs refl] by (simp add: agree_edit_def wp_simps Let_def split: option.split)
qed

lemma finalize_edit_ok: "edit_ok id (finalize_edit e v act a) a"
proof (rule edit_okI)
  fix w assume inv: "quote_inv a" and refs: "line_refs w a"
  have fin: "good_edit w a (bumpVersion (b\<lparr>ag_revisions := ag_revisions b @ new\<rparr>))"
    if "status_of a = Q_finalized \<or> moves (status_of a) Q_finalized" "b = freeze e act (set_status Q_finalized a)" for b new
    by (rule good_edit_open [OF inv refs _ that(1), of _ new])
      (simp_all add: that(2) core_def Let_def freeze_def approved_or_later_def committed_def)
  show "wp (finalize_edit e v act a) (\<lambda>b w'. same_core w w' \<and> good_edit w a (id b)) (same_core w) w"
    using fin by (simp add: finalize_edit_def appendRevision_def wp_simps Let_def del: moves_simps)
qed

section \<open>The portal\<close>

lemma portal_lines_refs:
  assumes "portal_lines w t cs lines = Ok lines'" and "ln_productId ` set lines \<subseteq> P"
  shows "ln_productId ` set lines' \<subseteq> P"
  using assms
proof (induction cs arbitrary: lines)
  case (Cons c cs)
  then obtain line where line: "find (\<lambda>l. ln_id l = lc_lineId c) lines = Some line"
    by (auto split: option.splits)
  then have "ln_productId (portal_line_change w t c line) \<in> P"
    using find_SomeD [OF line] Cons.prems(2) by (auto simp: portal_line_change_def patch_quantities_def Let_def split: option.split)
  from refs_replace [OF Cons.prems(2) this] show ?case using Cons.prems(1) line Cons.IH by simp
qed simp

lemma portalChange_edit_ok: "edit_ok id (portalChange_edit e cs v a) a"
proof (rule edit_okI)
  fix w assume inv: "quote_inv a" and refs: "line_refs w a"
  have fin: "wp (settle_mutation e b (totals_before a) (Some portal_actor)) (\<lambda>b w'. same_core w w' \<and> good_edit w a b) (same_core w) w'"
    if "status_of a = Q_customer_negotiation \<or> status_of a = Q_draft" "core b = core (set_status Q_customer_negotiation (a\<lparr>ag_lines := ls\<rparr>))"
       "ln_productId ` set ls \<subseteq> pr_id ` set (w_products w)" "same_core w w'" for b ls w'
    using that by (intro commercial_settle [OF inv that(2)]) (auto simp: line_refs_image approved_or_later_def committed_def)
  have lines: "ln_productId ` set ls \<subseteq> pr_id ` set (w_products w)" if "portal_lines w (cu_tier (ag_customer a)) cs (ag_lines a) = Ok ls" for ls
    using portal_lines_refs [OF that] refs by (simp add: line_refs_image)
  have swap: "set_status s a\<lparr>ag_lines := ls\<rparr> = set_status s (a\<lparr>ag_lines := ls\<rparr>)" for s ls by (simp add: set_status_def)
  have stay: "core (a\<lparr>ag_lines := ls\<rparr>) = core (set_status Q_customer_negotiation (a\<lparr>ag_lines := ls\<rparr>))"
    if "status_of a = Q_customer_negotiation" for ls using that core_set_same [of "a\<lparr>ag_lines := ls\<rparr>", OF refl] by simp
  have "wp (lift (portal_lines w (cu_tier (ag_customer a)) cs (ag_lines a))) (\<lambda>lines. wp (
     bnd (if requested_discounts cs \<noteq> []
          then bnd (randomUUID e) (\<lambda>i. bnd (store_saveNegotiation (portal_request e i (b\<lparr>ag_lines := lines\<rparr>) cs)) (\<lambda>n.
               ret (set_activeNegotiation (ng_id n) (b\<lparr>ag_lines := lines\<rparr>))))
          else ret (b\<lparr>ag_lines := lines\<rparr>)) (\<lambda>b.
     settle_mutation e b (totals_before a) (Some portal_actor))) (\<lambda>b w'. same_core w w' \<and> good_edit w a b) (same_core w)) (same_core w) w"
    if st: "status_of a = Q_customer_negotiation \<or> status_of a = Q_draft"
      and b: "\<And>ls. core (b\<lparr>ag_lines := ls\<rparr>) = core (set_status Q_customer_negotiation (a\<lparr>ag_lines := ls\<rparr>))" for b
    using fin [OF st] lines b by (simp add: wp_simps split: sum.split)
  from this [of a] this [of "set_status Q_customer_negotiation a"] stay
  show "wp (portalChange_edit e cs v a) (\<lambda>b w'. same_core w w' \<and> good_edit w a (id b)) (same_core w) w"
    by (auto simp: portalChange_edit_def wp_simps Let_def swap)
qed

lemma portalDecision_edit_ok: "edit_ok (case_option a id) (portalDecision_edit e d c v a) a"
proof (rule edit_okI)
  fix w assume inv: "quote_inv a" and refs: "line_refs w a"
  have "good_edit w a (bumpVersion (record_decision e d a\<lparr>ag_quote := ag_quote (record_decision e d a)\<lparr>qt_customerDecisionComment := c\<rparr>\<rparr>))"
    by (rule good_edit_decision [OF inv refs]) (simp add: core_def Let_def)
  moreover have "good_edit w a a" using inv refs by (simp add: good_edit_def)
  ultimately show "wp (portalDecision_edit e d c v a) (\<lambda>b w'. same_core w w' \<and> good_edit w a (case_option a id b)) (same_core w) w"
    by (simp add: portalDecision_edit_def wp_simps Let_def)
qed

section \<open>Recommendations, fulfilment, billing\<close>

lemma applyRecommendation_edit_ok: "edit_ok id (applyRecommendation_edit e r act v a) a"
proof (rule edit_okI)
  fix w assume inv: "quote_inv a" and refs: "line_refs w a"
  have step: "wp (toLine e q i bs)
     (\<lambda>l. wp (settle_mutation e (a\<lparr>ag_lines := ag_lines a @ [l\<lparr>ln_recommendedFromId := r\<rparr>]\<rparr>) (totals_before a) (Some act))
        (\<lambda>b w'. same_core w w' \<and> good_edit w a b) (same_core w)) (same_core w) w"
    if "\<not> approved_or_later (status_of a)" for q i bs r
  proof (rule wp_cons [OF toLine_wp [OF same_core_refl]])
    fix l :: quote_line and w' assume "same_core w w' \<and> ln_productId l \<in> pr_id ` set (w_products w)"
    then show "wp (settle_mutation e (a\<lparr>ag_lines := ag_lines a @ [l\<lparr>ln_recommendedFromId := r\<rparr>]\<rparr>) (totals_before a) (Some act))
        (\<lambda>b w'. same_core w w' \<and> good_edit w a b) (same_core w) w'"
      using that line_refs_append [OF refs, of "l\<lparr>ln_recommendedFromId := r\<rparr>"] by (intro commercial_settle [OF inv core_lines]) auto
  qed
  show "wp (applyRecommendation_edit e r act v a) (\<lambda>b w'. same_core w w' \<and> good_edit w a (id b)) (same_core w) w"
  proof (cases "commercial_write e w a act [0] []")
    case (Inr u)
    from step [OF commercial_write_Ok(2) [OF Inr]] show ?thesis
      by (simp add: applyRecommendation_edit_def wp_simps Inr split: option.split)
  qed (simp add: applyRecommendation_edit_def wp_simps)
qed

text \<open>After the lock: new allocations or schedules, a move between committed statuses.\<close>

lemma good_edit_committed:
  assumes inv: "quote_inv a" and refs: "line_refs w a"
    and core: "core c = core (bumpVersion (set_status s (a\<lparr>ag_allocations := al, ag_backorders := bo, ag_schedules := sc\<rparr>)))"
    and st: "committed (status_of a)" "committed s" and mv: "moves\<^sup>*\<^sup>* (status_of a) s"
    and al: "al \<noteq> [] \<or> bo \<noteq> [] \<Longrightarrow> s \<in> {Q_fulfillment, Q_billing, Q_completed}" and sc: "sc \<noteq> [] \<Longrightarrow> s \<in> {Q_billing, Q_completed}"
  shows "good_edit w a c"
proof -
  have appr: "allRequiredApproved (ag_approvals a)" using quote_invD(2) [OF inv] st by (simp add: approved_or_later_def)
  show ?thesis
    unfolding good_edit_core [OF core] using quote_invD(3,6) [OF inv] refs st mv al sc appr
    by (intro good_edit_bump [OF inv]) (auto simp: line_refs_def less_imp_le)
qed

lemma wp_read: "wp (\<lambda>w. m w w) Q E w = wp (m w) Q E w"
  by (simp add: wp_def)

lemma plan_edit_ok: "edit_ok id (plan_edit e os v a) a"
proof (rule edit_okI)
  fix w assume inv: "quote_inv a" and refs: "line_refs w a"
  have fin: "good_edit w a (bumpVersion c)"
    if st: "isOpenForPlanning (status_of a)" and c: "core c = core (set_status Q_fulfillment (a\<lparr>ag_allocations := al, ag_backorders := bo\<rparr>))" for c al bo
  proof (rule good_edit_committed [OF inv refs, where s = Q_fulfillment and al = al and bo = bo and sc = "ag_schedules a"])
    show "core (bumpVersion c) = core (bumpVersion (set_status Q_fulfillment (a\<lparr>ag_allocations := al, ag_backorders := bo, ag_schedules := ag_schedules a\<rparr>)))"
      using c by (intro core_bumpVersion) simp
    have "status_of a = Q_fulfillment \<or> moves (status_of a) Q_fulfillment" using st by (auto simp: isOpenForPlanning_def)
    then show "moves\<^sup>*\<^sup>* (status_of a) Q_fulfillment" by (auto simp del: moves_simps)
    show "Q_fulfillment \<in> {Q_billing, Q_completed}" if "ag_schedules a \<noteq> []"
      using quote_invD(5) [OF inv that] st by (auto simp: isOpenForPlanning_def)
  qed (use st in \<open>auto simp: isOpenForPlanning_def committed_def\<close>)
  have stay: "core (a\<lparr>ag_allocations := al, ag_backorders := bo\<rparr>) = core (set_status Q_fulfillment (a\<lparr>ag_allocations := al, ag_backorders := bo\<rparr>))"
    if "status_of a = Q_fulfillment" for al bo
    using that core_set_same [of "a\<lparr>ag_allocations := al, ag_backorders := bo\<rparr>", OF refl] by simp
  have sel: "status_of (a\<lparr>ag_allocations := al, ag_backorders := bo\<rparr>) = status_of a" for al bo by simp
  show "wp (plan_edit e os v a) (\<lambda>b w'. same_core w w' \<and> good_edit w a (id b)) (same_core w) w"
  proof (cases "isOpenForPlanning (status_of a)")
    case True
    then have "status_of a = Q_confirmed \<or> status_of a = Q_fulfillment" by (simp add: isOpenForPlanning_def)
    then show ?thesis using fin [OF True refl] fin [OF True stay]
      by (auto simp: plan_edit_def wp_simps wp_read [of "\<lambda>w. drawing e (plan_of e w a os) plan_draws"] Let_def True split: sum.split)
  qed (simp add: plan_edit_def wp_simps)
qed

lemma billing_edit_ok: "edit_ok id (billing_edit e v a) a"
proof (rule edit_okI)
  fix w assume inv: "quote_inv a" and refs: "line_refs w a"
  have fin: "good_edit w a (bumpVersion c)"
    if st: "isOpenForBilling (status_of a)" and c: "core c = core (set_status Q_billing (a\<lparr>ag_schedules := sc\<rparr>))" for c sc
  proof (rule good_edit_committed [OF inv refs, where s = Q_billing and al = "ag_allocations a" and bo = "ag_backorders a" and sc = sc])
    show "core (bumpVersion c) = core (bumpVersion (set_status Q_billing (a\<lparr>ag_allocations := ag_allocations a, ag_backorders := ag_backorders a, ag_schedules := sc\<rparr>)))"
      using c by (intro core_bumpVersion) simp
    have "status_of a = Q_billing \<or> moves (status_of a) Q_billing" using st by (auto simp: isOpenForBilling_def isOpenForPlanning_def)
    then show "moves\<^sup>*\<^sup>* (status_of a) Q_billing" by (auto simp del: moves_simps)
  qed (use st in \<open>auto simp: isOpenForBilling_def isOpenForPlanning_def committed_def\<close>)
  have stay: "core (a\<lparr>ag_schedules := sc\<rparr>) = core (set_status Q_billing (a\<lparr>ag_schedules := sc\<rparr>))" if "status_of a = Q_billing" for sc
    using that core_set_same [of "a\<lparr>ag_schedules := sc\<rparr>", OF refl] by simp
  show "wp (billing_edit e v a) (\<lambda>b w'. same_core w w' \<and> good_edit w a (id b)) (same_core w) w"
  proof (cases "isOpenForBilling (status_of a)")
    case True
    then have "status_of a = Q_confirmed \<or> status_of a = Q_fulfillment \<or> status_of a = Q_billing" by (auto simp: isOpenForBilling_def isOpenForPlanning_def)
    then show ?thesis using fin [OF True refl] fin [OF True stay]
      by (auto simp: billing_edit_def wp_simps Let_def True split: sum.split)
  qed (simp add: billing_edit_def wp_simps)
qed

lemma cancelBilling_edit_ok: "edit_ok id (cancelBilling_edit e i v a) a"
proof (rule edit_okI)
  fix w assume inv: "quote_inv a" and refs: "line_refs w a"
  have fin: "good_edit w a (bumpVersion (a\<lparr>ag_schedules := map f (ag_schedules a)\<rparr>))" if "ag_schedules a \<noteq> []" for f
  proof (rule good_edit_committed [OF inv refs, where s = "status_of a" and al = "ag_allocations a" and bo = "ag_backorders a" and sc = "map f (ag_schedules a)"])
    show "core (bumpVersion (a\<lparr>ag_schedules := map f (ag_schedules a)\<rparr>)) = core (bumpVersion (set_status (status_of a)
        (a\<lparr>ag_allocations := ag_allocations a, ag_backorders := ag_backorders a, ag_schedules := map f (ag_schedules a)\<rparr>)))"
      by (simp add: core_def Let_def)
  qed (use quote_invD(4,5) [OF inv] that in \<open>auto simp: committed_def\<close>)
  show "wp (cancelBilling_edit e i v a) (\<lambda>b w'. same_core w w' \<and> good_edit w a (id b)) (same_core w) w"
  proof (cases "ag_schedules a = []")
    case False
    then show ?thesis using fin by (simp add: cancelBilling_edit_def wp_simps split: option.split sum.split)
  qed (simp add: cancelBilling_edit_def wp_simps)
qed

section \<open>The finance lock\<close>

lemma confirm_edit_ok: "edit_ok fst (confirm_edit e act a) a"
proof (rule edit_okI)
  fix w assume inv: "quote_inv a" and refs: "line_refs w a"
  show "wp (confirm_edit e act a) (\<lambda>b w'. same_core w w' \<and> good_edit w a (fst b)) (same_core w) w"
  proof (cases "status_of a = Q_approved \<and> (\<exists>x c. assess_in e w a = Inr (x, c))")
    case True
    then obtain x c where st: "status_of a = Q_approved" and xc: "assess_in e w a = Inr (x, c)" by blast
    note core = core_assess_in [OF xc]
    have nc: "\<not> committed (status_of a)" using st by (simp add: committed_def)
    note empty = uncommitted_empty [OF inv nc]
    have c: "ag_allocations c = []" "ag_schedules c = []" "status_of c = Q_approved"
      using core empty st by (simp_all add: core_def Let_def)
    have fin: "good_edit w a d" if "core d = core (bumpVersion (lock_fields e act (set_status Q_confirmed c)))" for d
    proof -
      have d: "core d = core (bumpVersion (lock_fields e act (set_status Q_confirmed a)))"
        using that core by (simp add: core_def Let_def lock_fields_def)
      have mv: "moves\<^sup>*\<^sup>* Q_approved Q_confirmed" by (intro r_into_rtranclp) simp
      have sel: "status_of (lock_fields e act b) = status_of b" for b by (simp add: lock_fields_def)
      show ?thesis unfolding good_edit_core [OF d]
        using quote_invD(6) [OF inv] quote_invD(2) [OF inv] empty refs st mv
        by (intro good_edit_bump [OF inv])
          (auto simp: sel lock_fields_def line_refs_def less_imp_le committed_def approved_or_later_def simp del: moves_simps)
    qed
    let ?b = "bumpVersion (lock_fields e act (set_status Q_confirmed c))"
    have odoo: "core (?b\<lparr>ag_quote := ag_quote ?b\<lparr>qt_odooSaleOrderId := i\<rparr>\<rparr>) = core ?b" for i by (simp add: core_def Let_def)
    have sync: "wp (sync_odoo e act ?b) (\<lambda>b w'. same_core w w' \<and> good_edit w a b) (same_core w) w"
      using fin [OF odoo] fin [OF refl]
      by (auto simp: sync_odoo_def wp_simps split: sum.split intro!: quiet_rule [OF quiet_audit])
    have sel: "ag_allocations (lock_fields e act b) = ag_allocations b" "ag_schedules (lock_fields e act b) = ag_schedules b" for b
      by (simp_all add: lock_fields_def)
    show ?thesis using sync by (simp add: confirm_edit_def wp_simps xc st c consume_allocations_def Let_def sel)
  next
    case False
    then show ?thesis by (auto simp: confirm_edit_def wp_simps split: sum.split)
  qed
qed

lemma complete_edit_ok: "edit_ok id (complete_edit v a) a"
proof (rule edit_okI)
  fix w assume inv: "quote_inv a" and refs: "line_refs w a"
  have fin: "good_edit w a (bumpVersion (set_status Q_completed b))"
    if st: "committed (status_of a)" and mv: "moves\<^sup>*\<^sup>* (status_of a) Q_completed" and b: "\<And>s. core (set_status s b) = core (set_status s a)" for b
  proof (rule good_edit_committed [OF inv refs, where s = Q_completed and al = "ag_allocations a" and bo = "ag_backorders a" and sc = "ag_schedules a"])
    show "core (bumpVersion (set_status Q_completed b)) = core (bumpVersion (set_status Q_completed
        (a\<lparr>ag_allocations := ag_allocations a, ag_backorders := ag_backorders a, ag_schedules := ag_schedules a\<rparr>)))"
      using b [of Q_completed] by (intro core_bumpVersion) simp
  qed (use st mv in \<open>auto simp: committed_def\<close>)
  have mv: "moves\<^sup>*\<^sup>* (status_of a) Q_completed" if "moves (status_of a) Q_completed" using that by (simp del: moves_simps)
  have b: "core (set_status s (set_status t b)) = core (set_status s b)" for s t b by (simp add: set_status_def)
  show "wp (complete_edit v a) (\<lambda>b w'. same_core w w' \<and> good_edit w a (id b)) (same_core w) w"
    using fin [OF _ mv] b
    by (auto simp: complete_edit_def wp_simps Let_def assertTransition_def committed_def)
qed

end
