(* ===== verification/Dealflow_Handlers.thy ===== *)
theory Dealflow_Handlers
  imports Dealflow_Edits
begin

text \<open>
  From edits to handlers. \<open>world_inv\<close> is the invariant of the whole store, \<open>progress\<close> what one world
  owes to an earlier one; \<open>sound m\<close> says that the action \<open>m\<close> keeps the first and makes the second, on
  success and on every error. The rules \<open>sound_load\<close>, \<open>after_edit\<close> and \<open>commits_save\<close> follow the shape
  of a handler: load, edit, save, report.

  Identifiers come from one supply \<open>U\<close>, which the clients of \<open>crypto.randomUUID\<close> take to be injective.
\<close>

section \<open>Invariant of the store\<close>

definition quote_number :: "nat \<Rightarrow> string" where
  "quote_number k = ''DF-'' @ padStart5 (digits k)"

lemma quote_number_eq_iff [simp]: "quote_number m = quote_number n \<longleftrightarrow> m = n"
  using quote_number_inj by (auto simp: quote_number_def)

definition stored_ok :: "(nat \<Rightarrow> string) \<Rightarrow> world \<Rightarrow> string \<Rightarrow> quote_aggregate \<Rightarrow> bool" where
  "stored_ok U w i a \<longleftrightarrow> qt_id (ag_quote a) = i \<and> quote_inv a \<and> line_refs w a \<and>
     qt_customerId (ag_quote a) \<in> cu_id ` set (w_customers w) \<and> i \<in> U ` {..<w_uuid w} \<and>
     qt_number (ag_quote a) \<in> quote_number ` {..w_quoteSeq w}"

definition world_inv :: "(nat \<Rightarrow> string) \<Rightarrow> world \<Rightarrow> bool" where
  "world_inv U w \<longleftrightarrow> distinct (map fst (w_quotes w)) \<and> (\<forall>i a. quote_lookup w i = Some a \<longrightarrow> stored_ok U w i a) \<and>
     (\<forall>i j a b. quote_lookup w i = Some a \<longrightarrow> quote_lookup w j = Some b \<longrightarrow> qt_number (ag_quote a) = qt_number (ag_quote b) \<longrightarrow> i = j)"

definition progress :: "(nat \<Rightarrow> string) \<Rightarrow> world \<Rightarrow> world \<Rightarrow> bool" where
  "progress U w w' \<longleftrightarrow> w_uuid w \<le> w_uuid w' \<and>
     (\<forall>i a b. quote_lookup w i = Some a \<longrightarrow> quote_lookup w' i = Some b \<longrightarrow> evolves a b) \<and>
     (\<forall>i a. quote_lookup w i = Some a \<longrightarrow> committed (status_of a) \<longrightarrow> quote_lookup w' i \<noteq> None) \<and>
     (\<forall>i. quote_lookup w i = None \<longrightarrow> quote_lookup w' i \<noteq> None \<longrightarrow> i \<in> U ` {w_uuid w..<w_uuid w'}) \<and>
     w_quoteSeq w \<le> w_quoteSeq w' \<and>
     (\<forall>i a. quote_lookup w i = None \<longrightarrow> quote_lookup w' i = Some a \<longrightarrow> qt_number (ag_quote a) \<in> quote_number ` {w_quoteSeq w<..w_quoteSeq w'})"

definition ok :: "(nat \<Rightarrow> string) \<Rightarrow> world \<Rightarrow> world \<Rightarrow> bool" where
  "ok U w w' \<longleftrightarrow> world_inv U w' \<and> progress U w w'"

lemma progress_refl [simp]: "progress U w w"
  by (simp add: progress_def)

lemma progress_trans:
  assumes inj: "inj U" and inv: "world_inv U w" and p1: "progress U w w1" and p2: "progress U w1 w2"
  shows "progress U w w2"
  unfolding progress_def
proof (intro conjI allI impI)
  show "w_uuid w \<le> w_uuid w2" using p1 p2 by (simp add: progress_def)
next
  fix i a b assume a: "quote_lookup w i = Some a" and b: "quote_lookup w2 i = Some b"
  show "evolves a b"
  proof (cases "quote_lookup w1 i")
    case None
    have "i \<in> U ` {..<w_uuid w}" using inv a by (simp add: world_inv_def stored_ok_def)
    moreover have "i \<in> U ` {w_uuid w1..<w_uuid w2}" using p2 None b by (simp add: progress_def)
    moreover have "w_uuid w \<le> w_uuid w1" using p1 by (simp add: progress_def)
    ultimately show ?thesis using inj by (auto dest: injD)
  next
    case (Some c)
    then have "evolves a c" "evolves c b" using p1 p2 a b unfolding progress_def by blast+
    then show ?thesis by (rule evolves_trans)
  qed
next
  fix i a assume a: "quote_lookup w i = Some a" and c: "committed (status_of a)"
  then obtain b where b: "quote_lookup w1 i = Some b" using p1 unfolding progress_def by fast
  then have "evolves a b" using p1 a by (simp add: progress_def)
  then have "committed (status_of b)" using committed_closed_rtrancl c by (auto simp: evolves_def)
  then show "quote_lookup w2 i \<noteq> None" using p2 b by (simp add: progress_def)
next
  fix i assume n: "quote_lookup w i = None" and s: "quote_lookup w2 i \<noteq> None"
  have le: "w_uuid w \<le> w_uuid w1" "w_uuid w1 \<le> w_uuid w2" using p1 p2 by (simp_all add: progress_def)
  show "i \<in> U ` {w_uuid w..<w_uuid w2}"
  proof (cases "quote_lookup w1 i = None")
    case True
    then have "i \<in> U ` {w_uuid w1..<w_uuid w2}" using p2 s by (simp add: progress_def)
    then show ?thesis using le by (rule_tac subsetD [OF image_mono]) auto
  next
    case False
    then have "i \<in> U ` {w_uuid w..<w_uuid w1}" using p1 n by (simp add: progress_def)
    then show ?thesis using le by (rule_tac subsetD [OF image_mono]) auto
  qed
next
  have le: "w_quoteSeq w \<le> w_quoteSeq w1" "w_quoteSeq w1 \<le> w_quoteSeq w2" using p1 p2 by (simp_all add: progress_def)
  then show "w_quoteSeq w \<le> w_quoteSeq w2" by simp
  fix i a assume n: "quote_lookup w i = None" and s: "quote_lookup w2 i = Some a"
  show "qt_number (ag_quote a) \<in> quote_number ` {w_quoteSeq w<..w_quoteSeq w2}"
  proof (cases "quote_lookup w1 i")
    case None
    then have "qt_number (ag_quote a) \<in> quote_number ` {w_quoteSeq w1<..w_quoteSeq w2}" using p2 s by (simp add: progress_def)
    then show ?thesis using le by (rule_tac subsetD [OF image_mono]) auto
  next
    case (Some b)
    then have "qt_number (ag_quote b) \<in> quote_number ` {w_quoteSeq w<..w_quoteSeq w1}" using p1 n by (simp add: progress_def)
    moreover have "evolves b a" using p2 Some s by (simp add: progress_def)
    then have "qt_number (ag_quote a) = qt_number (ag_quote b)" by (simp add: evolves_def)
    ultimately show ?thesis using le by (simp only:) (rule_tac subsetD [OF image_mono], auto)
  qed
qed

lemma ok_refl: "world_inv U w \<Longrightarrow> ok U w w"
  by (simp add: ok_def)

lemma ok_trans: "inj U \<Longrightarrow> world_inv U w \<Longrightarrow> ok U w w1 \<Longrightarrow> ok U w1 w2 \<Longrightarrow> ok U w w2"
  by (auto simp: ok_def intro: progress_trans)

text \<open>A number names one quotation over the whole run.\<close>

lemma progress_number:
  assumes "world_inv U w" and "progress U w w'" and a: "quote_lookup w i = Some a" and b: "quote_lookup w' j = Some b"
    and same: "qt_number (ag_quote a) = qt_number (ag_quote b)"
  shows "i = j"
proof (cases "quote_lookup w j")
  case None
  have "qt_number (ag_quote b) \<in> quote_number ` {w_quoteSeq w<..w_quoteSeq w'}" using assms(2) None b by (simp add: progress_def)
  moreover have "qt_number (ag_quote a) \<in> quote_number ` {..w_quoteSeq w}" using assms(1) a by (simp add: world_inv_def stored_ok_def)
  ultimately show ?thesis using same by auto
next
  case (Some c)
  then have "evolves c b" using assms(2) b by (simp add: progress_def)
  then have "qt_number (ag_quote a) = qt_number (ag_quote c)" using same by (simp add: evolves_def)
  then show ?thesis using assms(1) a Some unfolding world_inv_def by blast
qed

text \<open>Writes outside the quotations: no product and no customer disappears.\<close>

definition keeps :: "world \<Rightarrow> world \<Rightarrow> bool" where
  "keeps w w' \<longleftrightarrow> w_quotes w' = w_quotes w \<and> pr_id ` set (w_products w) \<subseteq> pr_id ` set (w_products w') \<and>
     cu_id ` set (w_customers w) \<subseteq> cu_id ` set (w_customers w') \<and> w_uuid w \<le> w_uuid w' \<and> w_quoteSeq w \<le> w_quoteSeq w'"

lemma same_core_keeps: "same_core w w' \<Longrightarrow> keeps w w'"
  by (simp add: same_core_def keeps_def)

lemma keeps_ok:
  assumes "world_inv U w" and k: "keeps w w'"
  shows "ok U w w'"
proof -
  have q: "quote_lookup w' = quote_lookup w" using k by (simp add: keeps_def quote_lookup_def fun_eq_iff)
  have "stored_ok U w' i a" if "stored_ok U w i a" for i a
  proof -
    have "line_refs w' a" using that k by (auto simp: stored_ok_def line_refs_def keeps_def)
    moreover have "qt_customerId (ag_quote a) \<in> cu_id ` set (w_customers w')" using that k by (auto simp: stored_ok_def keeps_def)
    moreover have "i \<in> U ` {..<w_uuid w'}" using that k by (auto simp: stored_ok_def keeps_def)
    moreover have "qt_number (ag_quote a) \<in> quote_number ` {..w_quoteSeq w'}" using that k by (auto simp: stored_ok_def keeps_def)
    ultimately show ?thesis using that by (simp add: stored_ok_def)
  qed
  then show ?thesis using assms by (simp add: ok_def world_inv_def progress_def q) (auto simp: keeps_def)
qed

section \<open>Writing a quotation\<close>

lemma fst_upsert_by_set: "set (map fst (upsert_by (\<lambda>x. fst x = k) (k, v) qs)) \<subseteq> insert k (set (map fst qs))"
  by (induction qs) auto

lemma fst_upsert_by:
  "distinct (map fst qs) \<Longrightarrow> distinct (map fst (upsert_by (\<lambda>x. fst x = k) (k, v) qs))"
proof (induction qs)
  case (Cons q qs)
  then show ?case using fst_upsert_by_set [of k v qs] by (cases "fst q = k") auto
qed simp

lemma put_quote_frame [simp]:
  "w_products (put_quote a w) = w_products w" "w_customers (put_quote a w) = w_customers w" "w_uuid (put_quote a w) = w_uuid w"
  "w_quoteSeq (put_quote a w) = w_quoteSeq w"
  "w_quotes (put_quote a w) = upsert_by (\<lambda>x. fst x = qt_id (ag_quote a)) (qt_id (ag_quote a), a) (w_quotes w)"
  by (simp_all add: put_quote_def)

lemma lookup_put: "quote_lookup (put_quote a w) i = (if i = qt_id (ag_quote a) then Some a else quote_lookup w i)"
  using quotes.get_put [of a "qt_id (ag_quote a)" w i] by (simp add: put_at_def)

lemma ok_put:
  assumes inv: "world_inv U w" and sc: "same_core w w'"
    and new: "stored_ok U w' (qt_id (ag_quote d)) d"
    and old: "\<And>a. quote_lookup w (qt_id (ag_quote d)) = Some a \<Longrightarrow> evolves a d"
    and fresh: "quote_lookup w (qt_id (ag_quote d)) = None \<Longrightarrow> qt_id (ag_quote d) \<in> U ` {w_uuid w..<w_uuid w'}"
      "quote_lookup w (qt_id (ag_quote d)) = None \<Longrightarrow> qt_number (ag_quote d) \<notin> quote_number ` {..w_quoteSeq w}"
  shows "ok U w (put_quote d w')"
proof -
  have ok': "ok U w w'" using keeps_ok [OF inv same_core_keeps [OF sc]] .
  have q: "quote_lookup w' = quote_lookup w" using sc by (simp add: same_core_def quote_lookup_def fun_eq_iff)
  have st: "stored_ok U (put_quote d w') = stored_ok U w'" by (simp add: stored_ok_def line_refs_def fun_eq_iff)
  have num: "j = qt_id (ag_quote d)" if b: "quote_lookup w j = Some b" and eq: "qt_number (ag_quote b) = qt_number (ag_quote d)" for j b
  proof (cases "quote_lookup w (qt_id (ag_quote d))")
    case None
    have "qt_number (ag_quote b) \<in> quote_number ` {..w_quoteSeq w}" using inv b by (simp add: world_inv_def stored_ok_def)
    then show ?thesis using fresh(2) [OF None] eq by simp
  next
    case (Some a)
    then have "qt_number (ag_quote d) = qt_number (ag_quote a)" using old by (simp add: evolves_def)
    then have "qt_number (ag_quote b) = qt_number (ag_quote a)" using eq by simp
    then show ?thesis using inv b Some unfolding world_inv_def by blast
  qed
  then have "world_inv U (put_quote d w')"
    using ok' new fst_upsert_by [of "w_quotes w'"] unfolding ok_def world_inv_def st lookup_put q
    by (auto split: if_splits)
  moreover have "progress U w (put_quote d w')"
  proof -
    obtain k where k: "qt_number (ag_quote d) = quote_number k" "k \<le> w_quoteSeq w'" using new by (auto simp: stored_ok_def)
    have "qt_number (ag_quote d) \<in> quote_number ` {w_quoteSeq w<..w_quoteSeq w'}" if "quote_lookup w (qt_id (ag_quote d)) = None"
    proof -
      have "\<not> k \<le> w_quoteSeq w" using fresh(2) [OF that] k(1) by (metis atMost_iff imageI)
      then show ?thesis using k by simp
    qed
    then show ?thesis using ok' old fresh(1) by (auto simp: ok_def progress_def lookup_put q)
  qed
  ultimately show ?thesis by (simp add: ok_def)
qed

text \<open>\<open>loaded w a\<close>: the value a handler got from \<open>load\<close> in \<open>w\<close>.\<close>

definition loaded :: "world \<Rightarrow> quote_aggregate \<Rightarrow> bool" where
  "loaded w a \<longleftrightarrow> (\<exists>s. quote_lookup w (qt_id (ag_quote a)) = Some s \<and> core s = core a)"

lemma loaded_facts:
  assumes "world_inv U w" and "loaded w a"
  shows "quote_inv a" "line_refs w a" "qt_customerId (ag_quote a) \<in> cu_id ` set (w_customers w)" "qt_id (ag_quote a) \<in> U ` {..<w_uuid w}"
    "qt_number (ag_quote a) \<in> quote_number ` {..w_quoteSeq w}"
proof -
  obtain s where s: "quote_lookup w (qt_id (ag_quote a)) = Some s" "core s = core a" using assms(2) by (auto simp: loaded_def)
  then have st: "stored_ok U w (qt_id (ag_quote a)) s" using assms(1) by (simp add: world_inv_def)
  note c = core_eqD [OF s(2)]
  show "quote_inv a" using st c(1) by (simp add: stored_ok_def)
  show "line_refs w a" using st c(4) by (simp add: stored_ok_def line_refs_def)
  show "qt_customerId (ag_quote a) \<in> cu_id ` set (w_customers w)" using st c(6) by (simp add: stored_ok_def)
  show "qt_id (ag_quote a) \<in> U ` {..<w_uuid w}" using st by (simp add: stored_ok_def)
  have "qt_number (ag_quote s) = qt_number (ag_quote a)" using s(2) by (simp add: core_def Let_def)
  then show "qt_number (ag_quote a) \<in> quote_number ` {..w_quoteSeq w}" using st by (simp add: stored_ok_def)
qed

lemma ok_put_edit:
  assumes inv: "world_inv U w" and l: "loaded w a" and sc: "same_core w w'" and g: "good_edit w a b" and c: "core d = core b"
  shows "ok U w (put_quote d w')"
proof (rule ok_put [OF inv sc])
  have ab: "evolves a b" and qb: "quote_inv b" and rb: "line_refs w b" using g by (simp_all add: good_edit_def)
  note e = core_eqD [OF c]
  have id: "qt_id (ag_quote d) = qt_id (ag_quote a)" using e(5) ab by (simp add: evolves_def)
  have cust: "qt_customerId (ag_quote d) = qt_customerId (ag_quote a)" using e(6) ab by (simp add: evolves_def)
  have "w_uuid w \<le> w_uuid w'" using sc by (simp add: same_core_def)
  then have "qt_id (ag_quote d) \<in> U ` {..<w_uuid w'}" using loaded_facts(4) [OF inv l] id by auto
  moreover have "qt_customerId (ag_quote d) \<in> cu_id ` set (w_customers w')"
    using loaded_facts(3) [OF inv l] cust sc by (auto simp: same_core_def)
  moreover have "line_refs w' d" using rb e(4) sc by (simp add: line_refs_def same_core_def)
  moreover have "qt_number (ag_quote d) = qt_number (ag_quote a)" using c ab by (simp add: core_def Let_def evolves_def)
  then have "qt_number (ag_quote d) \<in> quote_number ` {..w_quoteSeq w'}" using loaded_facts(5) [OF inv l] sc by (auto simp: same_core_def)
  ultimately show "stored_ok U w' (qt_id (ag_quote d)) d" using e(1) qb by (simp add: stored_ok_def)
  show "evolves s d" if "quote_lookup w (qt_id (ag_quote d)) = Some s" for s
  proof -
    have "core s = core a" using l that id by (auto simp: loaded_def)
    then show ?thesis using core_eqD(2) [of s a d] core_eqD(3) [OF c, of a] ab by blast
  qed
  show "qt_id (ag_quote d) \<in> U ` {w_uuid w..<w_uuid w'}" if "quote_lookup w (qt_id (ag_quote d)) = None"
    using that l id by (auto simp: loaded_def)
  show "qt_number (ag_quote d) \<notin> quote_number ` {..w_quoteSeq w}" if "quote_lookup w (qt_id (ag_quote d)) = None"
    using that l id by (auto simp: loaded_def)
qed

section \<open>The shape of a handler\<close>

definition sound :: "(nat \<Rightarrow> string) \<Rightarrow> 'a action \<Rightarrow> bool" where
  "sound U m \<longleftrightarrow> (\<forall>w. world_inv U w \<longrightarrow> ok U w (snd (m w)))"

definition after :: "(nat \<Rightarrow> string) \<Rightarrow> quote_aggregate \<Rightarrow> 'a action \<Rightarrow> bool" where
  "after U a m \<longleftrightarrow> (\<forall>w. world_inv U w \<longrightarrow> loaded w a \<longrightarrow> ok U w (snd (m w)))"

definition commits :: "(nat \<Rightarrow> string) \<Rightarrow> quote_aggregate \<Rightarrow> 'a action \<Rightarrow> bool" where
  "commits U b m \<longleftrightarrow> (\<forall>w w' a. world_inv U w \<longrightarrow> loaded w a \<longrightarrow> same_core w w' \<longrightarrow> good_edit w a b \<longrightarrow> ok U w (snd (m w')))"

named_theorems sound_intros \<open>handlers keep the invariant of the store\<close>

lemma ok_same_core:
  assumes "inj U" "world_inv U w" "ok U w w1" "same_core w1 w2" shows "ok U w w2"
  using ok_trans [OF assms(1-3)] keeps_ok [OF _ same_core_keeps [OF assms(4)]] assms(3) by (simp add: ok_def)

lemma sound_quiet: "quiet m \<Longrightarrow> sound U m"
  by (simp add: sound_def quiet_def keeps_ok same_core_keeps)

lemma after_quiet: "quiet m \<Longrightarrow> after U a m"
  by (simp add: after_def quiet_def keeps_ok same_core_keeps)

lemma snd_bnd: "snd (bnd m f w) = (case fst (m w) of Inl _ \<Rightarrow> snd (m w) | Inr x \<Rightarrow> snd (f x (snd (m w))))"
  by (simp add: bnd_def split: prod.split sum.split)

lemma sound_guard:
  assumes inj: "inj U" and m: "quiet m" and k: "\<And>x. sound U (k x)"
  shows "sound U (bnd m k)"
  unfolding sound_def
proof (intro allI impI)
  fix w assume inv: "world_inv U w"
  have ok1: "ok U w (snd (m w))" using sound_quiet [OF m] inv by (simp add: sound_def)
  then have "ok U w (snd (k x (snd (m w))))" for x using ok_trans [OF inj inv ok1] k by (simp add: sound_def ok_def)
  then show "ok U w (snd (bnd m k w))" using ok1 by (simp add: snd_bnd split: sum.split)
qed

lemma loaded_same_core: "same_core w w' \<Longrightarrow> loaded w a \<Longrightarrow> loaded w' a"
  by (simp add: loaded_def same_core_def quote_lookup_def)

lemma after_guard:
  assumes inj: "inj U" and m: "quiet m" and k: "\<And>x. after U a (k x)"
  shows "after U a (bnd m k)"
  unfolding after_def
proof (intro allI impI)
  fix w assume inv: "world_inv U w" and l: "loaded w a"
  have sc: "same_core w (snd (m w))" using m by (simp add: quiet_def)
  have ok1: "ok U w (snd (m w))" using keeps_ok [OF inv same_core_keeps [OF sc]] .
  then have "ok U w (snd (k x (snd (m w))))" for x
    using ok_trans [OF inj inv ok1] k loaded_same_core [OF sc l] by (simp add: after_def ok_def)
  then show "ok U w (snd (bnd m k w))" using ok1 by (simp add: snd_bnd split: sum.split)
qed

lemma after_if: "after U a m \<Longrightarrow> after U a n \<Longrightarrow> after U a (if b then m else n)"
  by simp

lemma load_loaded:
  assumes inv: "world_inv U w" and r: "load i w = (r, w')"
  shows "w' = w" and "r = Inr a \<Longrightarrow> loaded w a" and "r = Inr a \<Longrightarrow> qt_id (ag_quote a) = i"
proof -
  show "w' = w" using r by (auto simp: load_def bnd_def store_getQuote_def throw_def ret_def split: sum.splits option.splits)
  assume "r = Inr a"
  then obtain s where s: "quote_lookup w i = Some s" "attach w s = Inr a"
    using r by (auto simp: load_def bnd_def store_getQuote_def attach_opt_def throw_def ret_def split: sum.splits option.splits)
  have c: "core a = core s" using core_attach [OF s(2)] .
  have "qt_id (ag_quote s) = i" using inv s(1) by (simp add: world_inv_def stored_ok_def)
  then show id: "qt_id (ag_quote a) = i" using core_eqD(5) [OF c] by simp
  show "loaded w a" unfolding loaded_def id using s(1) c by auto
qed

lemma sound_load:
  assumes "\<And>a. qt_id (ag_quote a) = i \<Longrightarrow> after U a (k a)"
  shows "sound U (bnd (load i) k)"
  unfolding sound_def
proof (intro allI impI)
  fix w assume inv: "world_inv U w"
  obtain r w' where r: "load i w = (r, w')" by (cases "load i w")
  have w': "w' = w" using load_loaded(1) [OF inv r] .
  show "ok U w (snd (bnd (load i) k w))"
  proof (cases r)
    case (Inr a)
    then have "loaded w a" "qt_id (ag_quote a) = i" using load_loaded(2,3) [OF inv r] by simp_all
    then show ?thesis using assms inv Inr r w' by (simp add: snd_bnd after_def)
  qed (use r w' ok_refl [OF inv] in \<open>simp add: snd_bnd\<close>)
qed

lemma token_loaded:
  assumes inv: "world_inv U w" and r: "load_by_token t w = (r, w')"
  shows "w' = w" and "r = Inr a \<Longrightarrow> loaded w a"
proof -
  show "w' = w" using r by (auto simp: load_by_token_def bnd_def store_getQuoteByToken_def throw_def ret_def split: sum.splits option.splits)
  assume "r = Inr a"
  then obtain s where s: "find (\<lambda>a. qt_portalToken (ag_quote a) = t) (map snd (w_quotes w)) = Some s" "attach w s = Inr a"
    using r by (auto simp: load_by_token_def bnd_def store_getQuoteByToken_def attach_opt_def throw_def ret_def split: sum.splits option.splits)
  then have "s \<in> set (map snd (w_quotes w))" using find_SomeD by fast
  then obtain i where i: "(i, s) \<in> set (w_quotes w)" by auto
  have lk: "quote_lookup w i = Some s" using inv i by (simp add: quote_lookup_def world_inv_def)
  moreover have "qt_id (ag_quote s) = i" using inv lk by (simp add: world_inv_def stored_ok_def)
  moreover have "core a = core s" using core_attach [OF s(2)] .
  ultimately show "loaded w a" using core_eqD(5) by (metis loaded_def)
qed

lemma sound_token:
  assumes "\<And>a. after U a (k a)"
  shows "sound U (bnd (load_by_token t) k)"
  unfolding sound_def
proof (intro allI impI)
  fix w assume inv: "world_inv U w"
  obtain r w' where r: "load_by_token t w = (r, w')" by (cases "load_by_token t w")
  have w': "w' = w" using token_loaded(1) [OF inv r] .
  show "ok U w (snd (bnd (load_by_token t) k w))"
  proof (cases r)
    case (Inr a)
    then have "loaded w a" using token_loaded(2) [OF inv r] by simp
    then show ?thesis using assms inv Inr r w' by (simp add: snd_bnd after_def)
  qed (use r w' ok_refl [OF inv] in \<open>simp add: snd_bnd\<close>)
qed

lemma after_edit:
  assumes "edit_ok proj m a" and "\<And>b. commits U (proj b) (k b)"
  shows "after U a (bnd m k)"
  unfolding after_def
proof (intro allI impI)
  fix w assume inv: "world_inv U w" and l: "loaded w a"
  have "wp m (\<lambda>b w'. same_core w w' \<and> good_edit w a (proj b)) (same_core w) w"
    using assms(1) loaded_facts(1,2) [OF inv l] by (simp add: edit_ok_def)
  then show "ok U w (snd (bnd m k w))"
    using assms(2) inv l keeps_ok [OF inv same_core_keeps]
    by (auto simp: wp_def snd_bnd commits_def split: prod.splits sum.splits)
qed

lemma commits_saveQuote:
  assumes inj: "inj U" and c: "core d = core b" and k: "\<And>s. quiet (k s)"
  shows "commits U b (bnd (store_saveQuote d) k)"
  unfolding commits_def
proof (intro allI impI)
  fix w w' a assume h: "world_inv U w" "loaded w a" "same_core w w'" "good_edit w a b"
  have ok1: "ok U w (put_quote d w')" using ok_put_edit [OF h c] .
  then have "ok U w (snd (k s (put_quote d w')))" for s
    using ok_same_core [OF inj h(1) ok1] k by (simp add: quiet_def)
  then show "ok U w (snd (bnd (store_saveQuote d) k w'))"
    using ok1 by (simp add: snd_bnd store_saveQuote_def split: sum.split)
qed

lemma commits_save:
  assumes inj: "inj U" and k: "\<And>sx. quiet (k sx)"
  shows "commits U b (bnd (saveAssessed e b act) k)"
  unfolding commits_def
proof (intro allI impI)
  fix w w' a assume h: "world_inv U w" "loaded w a" "same_core w w'" "good_edit w a b"
  show "ok U w (snd (bnd (saveAssessed e b act) k w'))"
  proof (cases "assess_in e w' b")
    case (Inl err)
    then show ?thesis using keeps_ok [OF h(1) same_core_keeps [OF h(3)]]
      by (simp add: snd_bnd saveAssessed_def refreshAssessment_def bnd_def)
  next
    case (Inr xd)
    obtain x d where xd: "assess_in e w' b = Inr (x, d)" using Inr by (cases xd) simp
    let ?r = "\<lambda>saved. bnd (bnd (persistAnomalies e saved (Some x) act) (\<lambda>_. bnd (publish e ''quote.updated'' (Some (qt_id (ag_quote saved)))) (\<lambda>_. ret (saved, x)))) k"
    have "commits U b (bnd (store_saveQuote (touch e d)) ?r)"
      using core_assess_in [OF xd] by (intro commits_saveQuote [OF inj] quiet_intros k) simp
    moreover have "bnd (saveAssessed e b act) k w' = bnd (store_saveQuote (touch e d)) ?r w'"
      by (simp add: saveAssessed_def bnd_def refreshAssessment_def xd split: sum.split prod.split)
    ultimately show ?thesis using h by (simp add: commits_def)
  qed
qed

end
