(* ===== verification/Dealflow_System.thy ===== *)
theory Dealflow_System
  imports Dealflow_Handlers
begin

text \<open>
  The service as a transition system: a \<open>request\<close> per handler of \<open>service.ts\<close>, \<open>handle\<close> runs it, a step
  is the effect of one request on the store, whether it succeeds or throws, and every run from an
  empty quote table keeps \<open>world_inv\<close> and \<open>progress\<close>.
\<close>

section \<open>Each handler is sound\<close>

lemma sound_handler:
  assumes inj: "inj U" and edit: "\<And>a. edit_ok id (m a) a" and k: "\<And>b sx. quiet (k b sx)"
  shows "sound U (bnd (load i) (\<lambda>a. bnd (m a) (\<lambda>b. bnd (saveAssessed e b act) (k b))))"
proof (rule sound_load)
  fix a
  show "after U a (bnd (m a) (\<lambda>b. bnd (saveAssessed e b act) (k b)))"
    using edit commits_save [OF inj k] by (intro after_edit [where proj = id]) simp_all
qed

lemma sound_handler_pair:
  assumes inj: "inj U" and edit: "\<And>a. edit_ok fst (m a) a" and k: "\<And>b sx. quiet (k b sx)"
  shows "after U a (bnd (m a) (\<lambda>b. bnd (saveAssessed e (fst b) act) (k b)))"
  using edit commits_save [OF inj k] by (intro after_edit [where proj = fst]) simp_all

lemma quiet_saved [quiet_intros]:
  "(\<And>saved x. quiet (f saved x)) \<Longrightarrow> quiet ((\<lambda>(saved, x). f saved x) sx)"
  by (simp split: prod.split)

lemma sound_line_handlers:
  assumes inj: "inj U"
  shows "sound U (addLine e q input v act)" "sound U (updateLine e q l patch v act)" "sound U (removeLine e q l v act)"
    "sound U (applyRecommendation e q r act v)"
  unfolding addLine_def updateLine_def removeLine_def applyRecommendation_def
  by (intro sound_handler [OF inj] addLine_edit_ok updateLine_edit_ok removeLine_edit_ok applyRecommendation_edit_ok quiet_intros)+

lemma sound_negotiation_handlers:
  assumes inj: "inj U"
  shows "sound U (startNegotiation e q act)" "sound U (createNegotiationRequest e q input oact)"
    "sound U (respondToNegotiation e q n d note v act)" "sound U (sendNegotiationToManager e q on act v)"
    "sound U (agreeToFinal e q v oact)"
  unfolding startNegotiation_def createNegotiationRequest_def respondToNegotiation_def sendNegotiationToManager_def agreeToFinal_def
  by (intro sound_handler [OF inj] startNegotiation_edit_ok createNegotiation_edit_ok respond_edit_ok sendToManager_edit_ok
      agree_edit_ok quiet_intros)+

lemma quiet_assertManagerActor [quiet_intros]: "quiet (assertManagerActor a)"
  unfolding assertManagerActor_def by (rule quiet_ensure)

lemma sound_manager_handlers:
  assumes inj: "inj U"
  shows "sound U (reviseAsManager e q cs v act)" "sound U (returnRevisedQuote e q on act v)" "sound U (finalizeQuotation e q act v)"
    "sound U (voidQuote e q act v)"
  unfolding reviseAsManager_def returnRevisedQuote_def finalizeQuotation_def voidQuote_def
  by (intro sound_guard [OF inj] sound_handler [OF inj] revise_edit_ok return_edit_ok finalize_edit_ok void_edit_ok quiet_intros)+

lemma sound_order_handlers:
  assumes inj: "inj U"
  shows "sound U (service_planFulfillment e q os act v)" "sound U (generateBilling e q act v)" "sound U (cancelBilling e q s act v)"
    "sound U (service_complete e q act v)"
  unfolding service_planFulfillment_def generateBilling_def cancelBilling_def service_complete_def
  by (intro sound_handler [OF inj] plan_edit_ok billing_edit_ok cancelBilling_edit_ok complete_edit_ok quiet_intros)+

lemma sound_decide: "inj U \<Longrightarrow> sound U (decide e q i d r act)"
  unfolding decide_def Let_def by (intro sound_handler decide_edit_ok quiet_intros)

lemma sound_submit:
  assumes inj: "inj U" shows "sound U (submit e q act)"
  unfolding submit_def case_prod_beta'
  by (intro sound_load sound_handler_pair [OF inj] submit_edit_ok quiet_intros)

lemma sound_confirm:
  assumes inj: "inj U" shows "sound U (service_confirm e q act v)" and "sound U (lockDeal e q act v)"
proof -
  show "sound U (service_confirm e q act v)"
    unfolding service_confirm_def case_prod_beta' confirm_guard_def assertExpectedVersion_def
    by (intro sound_load after_guard [OF inj] after_if sound_handler_pair [OF inj] confirm_edit_ok after_quiet quiet_intros)
  then show "sound U (lockDeal e q act v)" by (simp add: lockDeal_def)
qed

lemma sound_assess:
  assumes inj: "inj U" shows "sound U (assess e q act)"
proof -
  have "edit_ok snd (refreshAssessment e a) a" for a
  proof (rule edit_okI)
    fix w assume "quote_inv a" "line_refs w a"
    then have "good_edit w a a" by (simp add: good_edit_def)
    then have "good_edit w a b" if "assess_in e w a = Inr (x, b)" for x b
      using good_edit_core [OF core_assess_in [OF that]] by blast
    then show "wp (refreshAssessment e a) (\<lambda>b w'. same_core w w' \<and> good_edit w a (snd b)) (same_core w) w"
      by (auto simp: wp_simps split: sum.split)
  qed
  then show ?thesis unfolding assess_def case_prod_beta'
    by (intro sound_load after_edit [where proj = snd] commits_saveQuote [OF inj] quiet_intros refl)
qed

lemma sound_portal_handlers:
  assumes inj: "inj U"
  shows "sound U (createPortalNegotiation e t input)" "sound U (applyPortalChange e t cs v)" "sound U (applyPortalDecision e t d c v)"
proof -
  have "after U a (createNegotiationRequest e q i act)" for a q i act
    using sound_negotiation_handlers(2) [OF inj] by (simp add: sound_def after_def)
  then show "sound U (createPortalNegotiation e t input)"
    unfolding createPortalNegotiation_def by (intro sound_token)
  show "sound U (applyPortalChange e t cs v)"
    unfolding applyPortalChange_def
    by (intro sound_token after_edit [where proj = id, OF portalChange_edit_ok], unfold id_apply) (intro commits_save [OF inj] quiet_intros)
  have q: "quiet m \<Longrightarrow> commits U b m" for b and m :: "portal_view action"
    unfolding commits_def quiet_def by (metis keeps_ok same_core_keeps same_core_trans)
  show "sound U (applyPortalDecision e t d c v)"
    unfolding applyPortalDecision_def
    by (intro sound_guard [OF inj] quiet_intros sound_token after_edit [OF portalDecision_edit_ok])
      (auto split: option.split intro!: q commits_save [OF inj] quiet_intros)
qed

section \<open>Creation and deletion\<close>

text \<open>The draft of \<open>createQuote\<close>: a good new quotation under a fresh identifier.\<close>

definition good_new :: "(nat \<Rightarrow> string) \<Rightarrow> world \<Rightarrow> world \<Rightarrow> quote_aggregate \<Rightarrow> bool" where
  "good_new U w w' a \<longleftrightarrow> same_core w w' \<and> quote_inv a \<and> line_refs w a \<and>
     qt_customerId (ag_quote a) \<in> cu_id ` set (w_customers w) \<and> qt_id (ag_quote a) \<in> U ` {w_uuid w..<w_uuid w'} \<and>
     qt_number (ag_quote a) \<in> quote_number ` {w_quoteSeq w<..w_quoteSeq w'}"

lemma to_lines_wp:
  assumes "same_core w0 w"
  shows "wp (to_lines e q bs xs) (\<lambda>ls w'. same_core w w' \<and> ln_productId ` set ls \<subseteq> pr_id ` set (w_products w0)) (same_core w0) w"
  using assms
proof (induction xs arbitrary: w)
  case (Cons x xs)
  let ?P = "pr_id ` set (w_products w0)"
  have rest: "wp (to_lines e q bs xs) (\<lambda>ls. wp (ret (l # ls)) (\<lambda>ls w'. same_core w w' \<and> ln_productId ` set ls \<subseteq> ?P) (same_core w0)) (same_core w0) w1"
    if "same_core w w1" "ln_productId l \<in> ?P" for l w1
  proof (rule wp_cons [OF Cons.IH])
    show "same_core w0 w1" using same_core_trans [OF Cons.prems that(1)] .
    fix ls :: "quote_line list" and w2 assume "same_core w1 w2 \<and> ln_productId ` set ls \<subseteq> ?P"
    then show "wp (ret (l # ls)) (\<lambda>ls w'. same_core w w' \<and> ln_productId ` set ls \<subseteq> ?P) (same_core w0) w2"
      using that same_core_trans [OF that(1)] by (simp add: wp_simps)
  qed
  have "wp (toLine e q x bs) (\<lambda>l w'. same_core w w' \<and> ln_productId l \<in> ?P) (same_core w0) w"
  proof (rule wp_mono [OF toLine_wp [OF same_core_refl]])
    show "same_core w w' \<and> ln_productId l \<in> ?P" if "same_core w w' \<and> ln_productId l \<in> pr_id ` set (w_products w)" for l :: quote_line and w'
      using that Cons.prems by (simp add: same_core_def)
  qed (rule same_core_trans [OF Cons.prems])
  then show ?case unfolding to_lines.simps wp_bnd by (rule wp_cons) (use rest in blast)
qed (simp add: wp_simps)

lemma create_edit_wp:
  assumes "e_uuid e = U"
  shows "wp (create_edit e input act) (\<lambda>a w'. good_new U w w' a) (same_core w) w"
proof (cases "find (\<lambda>c. cu_id c = cr_customerId input) (w_customers w)")
  case None
  then show ?thesis by (simp add: create_edit_def wp_simps)
next
  case (Some c)
  have cust: "cu_id c \<in> cu_id ` set (w_customers w)" using find_SomeD [OF Some] by blast
  have lines: "wp (to_lines e i bs xs) (\<lambda>ls. wp (ret (emptyAggregate (new_quote e (U (w_uuid w)) n (cu_id c) o' t) []\<lparr>ag_customer := c, ag_lines := ls\<rparr>))
      (\<lambda>a w'. good_new U w w' a) (same_core w)) (same_core w) w1"
    if w1: "same_core w w1" "w_uuid w < w_uuid w1" "n = quote_number (Suc (w_quoteSeq w))" "w_quoteSeq w < w_quoteSeq w1" for i bs xs n o' t w1
  proof (rule wp_cons [OF to_lines_wp [OF w1(1)]])
    fix ls :: "quote_line list" and w2 assume h: "same_core w1 w2 \<and> ln_productId ` set ls \<subseteq> pr_id ` set (w_products w)"
    have sc: "same_core w w2" using same_core_trans [OF w1(1)] h by blast
    have "w_uuid w < w_uuid w2" using w1(2) h by (auto simp: same_core_def)
    then have "U (w_uuid w) \<in> U ` {w_uuid w..<w_uuid w2}" by simp
    moreover have "w_quoteSeq w1 \<le> w_quoteSeq w2" using h by (simp add: same_core_def)
    then have "n \<in> quote_number ` {w_quoteSeq w<..w_quoteSeq w2}" using w1(3,4) by auto
    ultimately show "wp (ret (emptyAggregate (new_quote e (U (w_uuid w)) n (cu_id c) o' t) []\<lparr>ag_customer := c, ag_lines := ls\<rparr>))
      (\<lambda>a w'. good_new U w w' a) (same_core w) w2"
      using sc h cust by (simp add: wp_simps good_new_def emptyAggregate_def new_quote_def quote_inv_def line_refs_image
          approved_or_later_def committed_def)
  qed
  show ?thesis using lines assms by (simp add: create_edit_def wp_simps Some Let_def quote_number_def split: sum.split)
qed

lemma good_new_fresh:
  assumes inj: "inj U" and inv: "world_inv U w" and g: "good_new U w w' b"
  shows "quote_lookup w (qt_id (ag_quote b)) = None"
proof (rule ccontr)
  assume "quote_lookup w (qt_id (ag_quote b)) \<noteq> None"
  then have "qt_id (ag_quote b) \<in> U ` {..<w_uuid w}" using inv by (auto simp: world_inv_def stored_ok_def)
  then obtain m n where "m < w_uuid w" "w_uuid w \<le> n" "U m = U n" using g by (auto simp: good_new_def)
  then show False using injD [OF inj, of m n] by simp
qed

lemma ok_put_new:
  assumes inj: "inj U" and inv: "world_inv U w" and g: "good_new U w w' b" and c: "core d = core b"
  shows "ok U w (put_quote d w')"
proof -
  note e = core_eqD [OF c]
  have sc: "same_core w w'" and id: "qt_id (ag_quote d) \<in> U ` {w_uuid w..<w_uuid w'}" using g e(5) by (simp_all add: good_new_def)
  have none: "quote_lookup w (qt_id (ag_quote d)) = None" using good_new_fresh [OF inj inv g] e(5) by simp
  have "quote_inv d" "line_refs w' d" "qt_customerId (ag_quote d) \<in> cu_id ` set (w_customers w')"
    using g e(1,4,6) by (auto simp: good_new_def line_refs_def same_core_def)
  moreover have "qt_id (ag_quote d) \<in> U ` {..<w_uuid w'}" using id by auto
  moreover have num: "qt_number (ag_quote d) \<in> quote_number ` {w_quoteSeq w<..w_quoteSeq w'}"
    using g c by (simp add: good_new_def core_def Let_def)
  moreover have "qt_number (ag_quote d) \<in> quote_number ` {..w_quoteSeq w'}" using num by auto
  ultimately have "stored_ok U w' (qt_id (ag_quote d)) d" by (simp add: stored_ok_def)
  moreover have "qt_number (ag_quote d) \<notin> quote_number ` {..w_quoteSeq w}" using num by auto
  ultimately show ?thesis using none id by (intro ok_put [OF inv sc]) simp_all
qed

lemma save_new:
  assumes inj: "inj U" and inv: "world_inv U w" and g: "good_new U w w' b" and k: "\<And>sx. quiet (k sx)"
  shows "ok U w (snd (bnd (saveAssessed e b act) k w'))"
proof (cases "assess_in e w' b")
  case (Inl err)
  then show ?thesis using keeps_ok [OF inv same_core_keeps] g
    by (simp add: snd_bnd saveAssessed_def refreshAssessment_def bnd_def good_new_def)
next
  case (Inr xd)
  obtain x d where xd: "assess_in e w' b = Inr (x, d)" using Inr by (cases xd) simp
  have ok1: "ok U w (put_quote (touch e d) w')" using ok_put_new [OF inj inv g] core_assess_in [OF xd] by simp
  let ?r = "\<lambda>saved. bnd (bnd (persistAnomalies e saved (Some x) act) (\<lambda>_. bnd (publish e ''quote.updated'' (Some (qt_id (ag_quote saved)))) (\<lambda>_. ret (saved, x)))) k"
  have "quiet (?r saved)" for saved by (intro quiet_intros k)
  then have "ok U w (snd (?r saved (put_quote (touch e d) w')))" for saved
    using ok_same_core [OF inj inv ok1] by (simp add: quiet_def)
  moreover have "bnd (saveAssessed e b act) k w' = bnd (store_saveQuote (touch e d)) ?r w'"
    by (simp add: saveAssessed_def bnd_def refreshAssessment_def xd split: sum.split prod.split)
  ultimately show ?thesis using ok1 by (simp add: snd_bnd store_saveQuote_def split: sum.split)
qed

lemma sound_createQuote:
  assumes inj: "inj U" and e: "e_uuid e = U" shows "sound U (createQuote e input act)"
  unfolding sound_def
proof (intro allI impI)
  fix w assume inv: "world_inv U w"
  have "wp (create_edit e input act) (\<lambda>a w'. ok U w (snd (bnd (saveAssessed e a (Some act)) (\<lambda>(saved, x).
     bnd (audit e (Some act) ''quote.created'' ''quote'' (qt_id (ag_quote saved)) ''success'') (\<lambda>_.
     decorate e saved (Some x) (Some act) True)) w'))) (ok U w) w"
    by (rule wp_mono [OF create_edit_wp [OF e]])
      (intro save_new [OF inj inv] quiet_intros, assumption, erule keeps_ok [OF inv same_core_keeps])
  then show "ok U w (snd (createQuote e input act w))"
    by (auto simp: createQuote_def snd_bnd wp_def split: prod.splits sum.splits)
qed

lemma ok_drop:
  assumes inv: "world_inv U w" and free: "\<And>a. quote_lookup w i = Some a \<Longrightarrow> \<not> committed (status_of a)"
  shows "ok U w (drop_quote i w)"
proof -
  have lk: "quote_lookup (drop_quote i w) j = (if j = i then None else quote_lookup w j)" for j
    using quotes.get_del by simp
  have "stored_ok U (drop_quote i w) = stored_ok U w" and "w_uuid (drop_quote i w) = w_uuid w" "w_quoteSeq (drop_quote i w) = w_quoteSeq w"
    by (simp_all add: fun_eq_iff stored_ok_def line_refs_def drop_quote_def store_deleteQuote_def modify_def)
  moreover have "distinct (map fst (w_quotes (drop_quote i w)))"
    using inv by (simp add: world_inv_def drop_quote_def store_deleteQuote_def modify_def distinct_map_filter)
  ultimately show ?thesis using inv free by (auto simp: ok_def world_inv_def progress_def lk split: if_splits)
qed

lemma after_drop:
  assumes inj: "inj U" and k: "quiet (k ())"
  shows "after U a (bnd (ensure (canDeleteQuote (status_of a)) err) (\<lambda>_. bnd (store_deleteQuote (qt_id (ag_quote a))) k))"
  unfolding after_def
proof (intro allI impI)
  fix w assume inv: "world_inv U w" and l: "loaded w a"
  let ?w = "drop_quote (qt_id (ag_quote a)) w"
  show "ok U w (snd (bnd (ensure (canDeleteQuote (status_of a)) err) (\<lambda>_. bnd (store_deleteQuote (qt_id (ag_quote a))) k) w))"
  proof (cases "canDeleteQuote (status_of a)")
    case True
    obtain s where s: "quote_lookup w (qt_id (ag_quote a)) = Some s" "core s = core a" using l by (auto simp: loaded_def)
    have "\<not> committed (status_of s)" using True core_eqD(7) [OF s(2)] by (auto simp: canDeleteQuote_def committed_def)
    then have ok1: "ok U w ?w" using s(1) by (intro ok_drop [OF inv]) simp
    have "snd (bnd (ensure (canDeleteQuote (status_of a)) err) (\<lambda>_. bnd (store_deleteQuote (qt_id (ag_quote a))) k) w) = snd (k () ?w)"
      using True by (simp add: bnd_def ensure_def ret_def store_deleteQuote_def modify_def drop_quote_def)
    then show ?thesis using ok_same_core [OF inj inv ok1] k by (simp add: quiet_def)
  qed (simp add: bnd_def ensure_def throw_def ok_refl [OF inv])
qed

lemma sound_deleteQuote:
  assumes inj: "inj U" shows "sound U (deleteQuote e q act v)"
  unfolding deleteQuote_def assertExpectedVersion_def
proof (rule sound_guard [OF inj], rule quiet_ensure, rule sound_load)
  fix a :: quote_aggregate assume id: "qt_id (ag_quote a) = q"
  have d: "after U a (bnd (ensure (canDeleteQuote (status_of a)) err) (\<lambda>_. bnd (store_deleteQuote q) (\<lambda>_.
     bnd (audit e (Some act) ''quote.deleted'' ''quote'' q ''success'') (\<lambda>_. publish e ''quote.deleted'' (Some q)))))" for err
    unfolding id [symmetric] by (intro after_drop [OF inj] quiet_intros)
  show "after U a (bnd (ensure (qt_version (ag_quote a) = v) (conflict (Quotation (Updated_by_another_user (qt_version (ag_quote a)) v)))) (\<lambda>_.
     bnd (ensure (\<not> isCommerciallyLocked (status_of a) (qt_financeLockedAt (ag_quote a))) (conflict (Workflow (Locked_order (status_of a))))) (\<lambda>_.
     bnd (ensure (canDeleteQuote (status_of a))
            (conflict (Workflow (if canVoidQuote (status_of a) then Void_instead (status_of a) else Cannot_delete (status_of a))))) (\<lambda>_.
     bnd (store_deleteQuote q) (\<lambda>_.
     bnd (audit e (Some act) ''quote.deleted'' ''quote'' q ''success'') (\<lambda>_.
     publish e ''quote.deleted'' (Some q)))))))"
    by (intro d after_guard [OF inj] quiet_intros)
qed

section \<open>Catalogue handlers\<close>

definition growing :: "'a action \<Rightarrow> bool" where
  "growing m \<longleftrightarrow> (\<forall>w. keeps w (snd (m w)))"

named_theorems growing_intros \<open>actions that remove no product, customer or quotation\<close>

lemma keeps_trans: "keeps w w1 \<Longrightarrow> keeps w1 w2 \<Longrightarrow> keeps w w2"
  unfolding keeps_def by (metis order_trans)

lemma growing_quiet: "quiet m \<Longrightarrow> growing m"
  by (simp add: growing_def quiet_def same_core_keeps)

lemma growing_bnd:
  assumes "growing m" and "\<And>x. growing (f x)" shows "growing (bnd m f)"
  using assms by (auto simp: growing_def snd_bnd split: sum.split intro: keeps_trans)

lemma growing_case_option: "growing m \<Longrightarrow> (\<And>y. growing (f y)) \<Longrightarrow> growing (case x of None \<Rightarrow> m | Some y \<Rightarrow> f y)"
  by (simp split: option.split)

lemma growing_if: "growing m \<Longrightarrow> growing n \<Longrightarrow> growing (if b then m else n)"
  by simp

lemma growing_each: "(\<And>x. growing (f x)) \<Longrightarrow> growing (each f xs)"
  by (induction xs) (auto intro: growing_bnd growing_quiet quiet_ret)

lemma growing_sound: "growing m \<Longrightarrow> sound U m"
  by (simp add: growing_def sound_def keeps_ok)

lemma ids_upsert_by: "key ` set xs \<subseteq> key ` set (upsert_by (\<lambda>i. key i = key v) v xs)"
  by (induction xs) auto

lemma growing_upsertProduct: "growing (store_upsertProduct p)"
  unfolding growing_def keeps_def store_upsertProduct_def bnd_def modify_def ret_def using ids_upsert_by [of pr_id _ p] by simp

lemma growing_table_writes:
  "growing (store_upsertWarehouse x)" "growing (store_upsertStock r)" "growing (store_deleteStock a b)"
  "growing (store_upsertPolicy po)" "growing (store_deletePolicy i)" "growing (store_upsertChain c)" "growing (store_deleteChain i)"
  "growing (store_upsertRelation rl)" "growing (store_deleteRelation i)" "growing (store_replaceQuantityBreaks bs)"
  "growing (store_replaceRoleAuthorities as)" "growing (store_replaceGovernance g)" "growing (store_deleteWarehouse i)"
  by (simp_all add: growing_def keeps_def store_upsertWarehouse_def store_upsertStock_def store_deleteStock_def
      store_upsertPolicy_def store_deletePolicy_def store_upsertChain_def store_deleteChain_def store_upsertRelation_def
      store_deleteRelation_def store_replaceQuantityBreaks_def store_replaceRoleAuthorities_def store_replaceGovernance_def
      store_deleteWarehouse_def bnd_def modify_def ret_def gets_def)

lemmas growing_rules = growing_bnd growing_case_option growing_if growing_each growing_upsertProduct growing_table_writes
  growing_quiet quiet_intros

lemma quiet_build_breaks [quiet_intros]: "quiet (build_breaks e p bs)"
  by (induction bs) (auto intro!: quiet_intros)

lemma growing_stock_handlers: "growing (service_upsertStock e row act)" "growing (service_deleteStock e a b act)"
  unfolding service_upsertStock_def service_deleteStock_def by (intro growing_rules)+

lemma growing_replace_breaks: "growing (replace_product_breaks e act p bs)"
  unfolding replace_product_breaks_def by (intro growing_rules quiet_build_breaks)

lemma quiet_product_parts [quiet_intros]: "quiet (current_product i)" "quiet (audit_product e act c p)"
  unfolding current_product_def audit_product_def by (intro quiet_intros)+

lemma growing_upsertProduct_handler: "growing (service_upsertProduct e input act)"
  unfolding service_upsertProduct_def
  by (intro growing_stock_handlers growing_replace_breaks quiet_product_parts growing_rules)

lemma growing_config_handlers:
  "growing (service_replaceQuantityBreaks e bs act)" "growing (service_replaceRoleAuthorities e ras act)" "growing (updateGovernance e patch act)"
  unfolding service_replaceQuantityBreaks_def service_replaceRoleAuthorities_def updateGovernance_def by (intro growing_rules)+

lemma growing_catalog_handlers:
  "growing (service_upsertPolicy e po i act)" "growing (service_deletePolicy e j act)" "growing (service_upsertChain e ch i act)"
  "growing (service_deleteChain e j act)" "growing (service_upsertWarehouse e i name cost act)" "growing (service_deleteWarehouse e j act)"
  "growing (service_upsertRelation e rl i act)" "growing (service_deleteRelation e j act)"
  unfolding service_upsertPolicy_def service_deletePolicy_def service_upsertChain_def service_deleteChain_def
    service_upsertWarehouse_def service_deleteWarehouse_def service_upsertRelation_def service_deleteRelation_def
  by (intro growing_rules)+

lemma quiet_customer_handlers: "quiet (service_upsertCustomer e input act)" "quiet (provisionCustomer e email name company)"
  unfolding service_upsertCustomer_def provisionCustomer_def Let_def by (intro quiet_intros)+

text \<open>The two deletions a quotation could be hurt by.\<close>

lemma mem_remove_first: "x \<in> set xs \<Longrightarrow> \<not> P x \<Longrightarrow> x \<in> set (remove_first P xs)"
  by (induction xs) auto

lemma ok_shrink:
  assumes inv: "world_inv U w" and q: "w_quotes w' = w_quotes w" "w_uuid w' = w_uuid w" "w_quoteSeq w' = w_quoteSeq w"
    and p: "\<And>i a l. quote_lookup w i = Some a \<Longrightarrow> l \<in> set (ag_lines a) \<Longrightarrow> ln_productId l \<in> pr_id ` set (w_products w')"
    and c: "\<And>i a. quote_lookup w i = Some a \<Longrightarrow> qt_customerId (ag_quote a) \<in> cu_id ` set (w_customers w')"
  shows "ok U w w'"
proof -
  have lk: "quote_lookup w' = quote_lookup w" using q by (simp add: quote_lookup_def fun_eq_iff)
  have "stored_ok U w' i a" if "quote_lookup w i = Some a" for i a
    using inv that p [OF that] c [OF that] q by (auto simp: world_inv_def stored_ok_def line_refs_def)
  moreover have "progress U w w'" by (simp add: progress_def lk q)
  ultimately show ?thesis using inv unfolding ok_def world_inv_def lk q by blast
qed

lemma lookup_in: "quote_lookup w i = Some a \<Longrightarrow> a \<in> set (map snd (w_quotes w))"
  by (force simp: quote_lookup_def dest: map_of_SomeD)

lemma sound_deleteProduct:
  assumes inj: "inj U" shows "sound U (service_deleteProduct e i act)"
proof -
  have "sound U (bnd (store_countProductQuoteLines i) (\<lambda>used. bnd (ensure (\<not> used > 0) (conflict (Catalog (In_use i used)))) (\<lambda>_. bnd (store_deleteProduct i) k)))"
    if k: "\<And>x. quiet (k x)" for k :: "unit \<Rightarrow> unit action"
    unfolding sound_def
  proof (intro allI impI)
    fix w assume inv: "world_inv U w"
    let ?n = "sum_list (map (\<lambda>a. length (filter (\<lambda>l. ln_productId l = i) (ag_lines a))) (map snd (w_quotes w)))"
    let ?w = "snd (store_deleteProduct i w)"
    show "ok U w (snd (bnd (store_countProductQuoteLines i) (\<lambda>used. bnd (ensure (\<not> used > 0) (conflict (Catalog (In_use i used)))) (\<lambda>_. bnd (store_deleteProduct i) k)) w))"
    proof (cases "?n > 0")
      case False
      have ne: "ln_productId l \<noteq> i" if a: "quote_lookup w j = Some a" and l: "l \<in> set (ag_lines a)" for j a l
      proof -
        have "length (filter (\<lambda>l. ln_productId l = i) (ag_lines a)) = 0" using False lookup_in [OF a] by auto
        then show ?thesis using l by (auto simp: filter_empty_conv)
      qed
      have "ok U w ?w"
      proof (rule ok_shrink [OF inv])
        show "ln_productId l \<in> pr_id ` set (w_products ?w)" if a: "quote_lookup w j = Some a" and l: "l \<in> set (ag_lines a)" for j a l
        proof -
          have "ln_productId l \<in> pr_id ` set (w_products w)" using inv a l by (auto simp: world_inv_def stored_ok_def line_refs_def)
          then obtain p where "p \<in> set (w_products w)" "pr_id p = ln_productId l" by auto
          then have "p \<in> set (w_products ?w)" using ne [OF a l] by (auto simp: store_deleteProduct_def modify_def intro: mem_remove_first)
          then show ?thesis using \<open>pr_id p = ln_productId l\<close> by (metis imageI)
        qed
      qed (use inv in \<open>auto simp: store_deleteProduct_def modify_def world_inv_def stored_ok_def\<close>)
      then have "ok U w (snd (k () ?w))" using ok_same_core [OF inj inv] k by (simp add: quiet_def)
      then show ?thesis using False
        by (simp add: bnd_def store_countProductQuoteLines_def gets_def ensure_def ret_def store_deleteProduct_def modify_def)
    next
      case True
      then have "?n \<noteq> 0" by (rule gr_implies_not0)
      then show ?thesis by (auto simp: bnd_def store_countProductQuoteLines_def gets_def ensure_def throw_def ok_refl [OF inv])
    qed
  qed
  note del = this
  show ?thesis unfolding service_deleteProduct_def by (intro del sound_guard [OF inj] quiet_intros)
qed

lemma sound_deleteCustomer:
  assumes inj: "inj U" shows "sound U (service_deleteCustomer e i act)"
proof -
  have "sound U (bnd (store_countCustomerQuotes i) (\<lambda>used. bnd (ensure (\<not> used > 0) (conflict (Catalog (In_use i used)))) (\<lambda>_. bnd (store_deleteCustomer i) k)))"
    if k: "\<And>x. quiet (k x)" for k :: "unit \<Rightarrow> unit action"
    unfolding sound_def
  proof (intro allI impI)
    fix w assume inv: "world_inv U w"
    let ?n = "length (filter (\<lambda>a. qt_customerId (ag_quote a) = i) (map snd (w_quotes w)))"
    let ?w = "snd (store_deleteCustomer i w)"
    show "ok U w (snd (bnd (store_countCustomerQuotes i) (\<lambda>used. bnd (ensure (\<not> used > 0) (conflict (Catalog (In_use i used)))) (\<lambda>_. bnd (store_deleteCustomer i) k)) w))"
    proof (cases "?n > 0")
      case False
      then have "ok U w ?w"
      proof (intro ok_shrink [OF inv])
        fix j a assume a: "quote_lookup w j = Some a"
        have ne: "qt_customerId (ag_quote a) \<noteq> i" using False lookup_in [OF a] by (auto simp: filter_empty_conv)
        have "qt_customerId (ag_quote a) \<in> cu_id ` set (w_customers w)" using inv a by (simp add: world_inv_def stored_ok_def)
        then obtain c where "c \<in> set (w_customers w)" "cu_id c = qt_customerId (ag_quote a)" by auto
        then have "c \<in> set (w_customers ?w)" using ne by (auto simp: store_deleteCustomer_def modify_def intro: mem_remove_first)
        then show "qt_customerId (ag_quote a) \<in> cu_id ` set (w_customers ?w)" using \<open>cu_id c = _\<close> by (metis imageI)
      qed (use inv in \<open>auto simp: store_deleteCustomer_def modify_def world_inv_def stored_ok_def line_refs_def\<close>)
      then have "ok U w (snd (k () ?w))" using ok_same_core [OF inj inv] k by (simp add: quiet_def)
      then show ?thesis using False
        by (simp add: bnd_def store_countCustomerQuotes_def gets_def ensure_def ret_def store_deleteCustomer_def modify_def)
    qed (simp add: bnd_def store_countCustomerQuotes_def gets_def ensure_def throw_def ok_refl [OF inv])
  qed
  note del = this
  show ?thesis unfolding service_deleteCustomer_def by (intro del sound_guard [OF inj] quiet_intros)
qed

section \<open>Requests and steps\<close>

datatype (plugins only: code) quote_request =
    R_getQuote string "actor option" | R_listQuotes | R_getQuoteByToken string
  | R_createQuote create_input actor | R_deleteQuote string actor int | R_voidQuote string actor int
  | R_addLine string line_input int actor | R_updateLine string string line_patch int actor | R_removeLine string string int actor
  | R_assess string "actor option" | R_submit string actor | R_decide string string approval_decision string actor
  | R_startNegotiation string actor | R_createNegotiation string negotiation_input "actor option"
  | R_respond string string response string int actor | R_sendToManager string "string option" actor int
  | R_revise string "line_change list" int actor | R_return string "string option" actor int
  | R_agree string int "actor option" | R_finalize string actor int
  | R_portalNegotiation string negotiation_input | R_portalChange string "line_change list" int
  | R_portalDecision string customer_decision "string option" int
  | R_recommendations string | R_applyRecommendation string string actor int
  | R_plan string "plan_override list" actor int | R_billing string actor int | R_cancelBilling string string actor int
  | R_confirm string actor int | R_lock string actor int | R_complete string actor int
  | R_disposeAnomaly string anomaly_status "string option" actor | R_contactVendor string actor

datatype (plugins only: code) catalog_request =
    R_quantityBreaks "quantity_break list" actor | R_roleAuthorities "role_authority list" actor
  | R_governance "governance_config \<Rightarrow> governance_config" actor
  | R_upsertStock stock_level actor | R_deleteStock string string actor
  | R_upsertProduct product_input actor | R_deleteProduct string actor
  | R_upsertCustomer customer_input actor | R_deleteCustomer string actor | R_provision string string "string option"
  | R_upsertPolicy discount_policy "string option" actor | R_deletePolicy string actor
  | R_upsertChain approval_chain "string option" actor | R_deleteChain string actor
  | R_upsertWarehouse "string option" string js_number actor | R_deleteWarehouse string actor
  | R_upsertRelation product_relation "string option" actor | R_deleteRelation string actor

datatype request = On_quotes quote_request | On_catalog catalog_request

text \<open>A request answers with its world and, when it throws, the error.\<close>

definition run :: "'a action \<Rightarrow> world \<Rightarrow> domain_error option \<times> world" where
  "run m w = (case m w of (Inl err, w') \<Rightarrow> (Some err, w') | (Inr _, w') \<Rightarrow> (None, w'))"

primrec handle_quote :: "env \<Rightarrow> quote_request \<Rightarrow> world \<Rightarrow> domain_error option \<times> world" where
  "handle_quote e (R_getQuote i act) = run (getQuote e i act)"
| "handle_quote e R_listQuotes = run (listQuotes e)"
| "handle_quote e (R_getQuoteByToken t) = run (getQuoteByToken e t)"
| "handle_quote e (R_createQuote input act) = run (createQuote e input act)"
| "handle_quote e (R_deleteQuote i act v) = run (deleteQuote e i act v)"
| "handle_quote e (R_voidQuote i act v) = run (voidQuote e i act v)"
| "handle_quote e (R_addLine i input v act) = run (addLine e i input v act)"
| "handle_quote e (R_updateLine i l patch v act) = run (updateLine e i l patch v act)"
| "handle_quote e (R_removeLine i l v act) = run (removeLine e i l v act)"
| "handle_quote e (R_assess i act) = run (assess e i act)"
| "handle_quote e (R_submit i act) = run (submit e i act)"
| "handle_quote e (R_decide i ap d r act) = run (decide e i ap d r act)"
| "handle_quote e (R_startNegotiation i act) = run (startNegotiation e i act)"
| "handle_quote e (R_createNegotiation i input act) = run (createNegotiationRequest e i input act)"
| "handle_quote e (R_respond i n d note v act) = run (respondToNegotiation e i n d note v act)"
| "handle_quote e (R_sendToManager i n act v) = run (sendNegotiationToManager e i n act v)"
| "handle_quote e (R_revise i cs v act) = run (reviseAsManager e i cs v act)"
| "handle_quote e (R_return i n act v) = run (returnRevisedQuote e i n act v)"
| "handle_quote e (R_agree i v act) = run (agreeToFinal e i v act)"
| "handle_quote e (R_finalize i act v) = run (finalizeQuotation e i act v)"
| "handle_quote e (R_portalNegotiation t input) = run (createPortalNegotiation e t input)"
| "handle_quote e (R_portalChange t cs v) = run (applyPortalChange e t cs v)"
| "handle_quote e (R_portalDecision t d c v) = run (applyPortalDecision e t d c v)"
| "handle_quote e (R_recommendations i) = run (recommendations i)"
| "handle_quote e (R_applyRecommendation i r act v) = run (applyRecommendation e i r act v)"
| "handle_quote e (R_plan i os act v) = run (service_planFulfillment e i os act v)"
| "handle_quote e (R_billing i act v) = run (generateBilling e i act v)"
| "handle_quote e (R_cancelBilling i s act v) = run (cancelBilling e i s act v)"
| "handle_quote e (R_confirm i act v) = run (service_confirm e i act v)"
| "handle_quote e (R_lock i act v) = run (lockDeal e i act v)"
| "handle_quote e (R_complete i act v) = run (service_complete e i act v)"
| "handle_quote e (R_disposeAnomaly i s r act) = run (disposeAnomaly e i s r act)"
| "handle_quote e (R_contactVendor i act) = run (contactVendor e i act)"

primrec handle_catalog :: "env \<Rightarrow> catalog_request \<Rightarrow> world \<Rightarrow> domain_error option \<times> world" where
  "handle_catalog e (R_quantityBreaks bs act) = run (service_replaceQuantityBreaks e bs act)"
| "handle_catalog e (R_roleAuthorities ras act) = run (service_replaceRoleAuthorities e ras act)"
| "handle_catalog e (R_governance patch act) = run (updateGovernance e patch act)"
| "handle_catalog e (R_upsertStock row act) = run (service_upsertStock e row act)"
| "handle_catalog e (R_deleteStock a b act) = run (service_deleteStock e a b act)"
| "handle_catalog e (R_upsertProduct input act) = run (service_upsertProduct e input act)"
| "handle_catalog e (R_deleteProduct i act) = run (service_deleteProduct e i act)"
| "handle_catalog e (R_upsertCustomer input act) = run (service_upsertCustomer e input act)"
| "handle_catalog e (R_deleteCustomer i act) = run (service_deleteCustomer e i act)"
| "handle_catalog e (R_provision email name company) = run (provisionCustomer e email name company)"
| "handle_catalog e (R_upsertPolicy po i act) = run (service_upsertPolicy e po i act)"
| "handle_catalog e (R_deletePolicy i act) = run (service_deletePolicy e i act)"
| "handle_catalog e (R_upsertChain ch i act) = run (service_upsertChain e ch i act)"
| "handle_catalog e (R_deleteChain i act) = run (service_deleteChain e i act)"
| "handle_catalog e (R_upsertWarehouse i name cost act) = run (service_upsertWarehouse e i name cost act)"
| "handle_catalog e (R_deleteWarehouse i act) = run (service_deleteWarehouse e i act)"
| "handle_catalog e (R_upsertRelation rl i act) = run (service_upsertRelation e rl i act)"
| "handle_catalog e (R_deleteRelation i act) = run (service_deleteRelation e i act)"

primrec handle :: "env \<Rightarrow> request \<Rightarrow> world \<Rightarrow> domain_error option \<times> world" where
  "handle e (On_quotes r) = handle_quote e r"
| "handle e (On_catalog r) = handle_catalog e r"

inductive step :: "(nat \<Rightarrow> string) \<Rightarrow> world \<Rightarrow> world \<Rightarrow> bool" for U where
  request: "e_uuid e = U \<Longrightarrow> handle e r w = (out, w') \<Longrightarrow> step U w w'"

inductive_cases step_cases: "step U w w'"

lemma snd_run [simp]: "snd (run m w) = snd (m w)"
  by (simp add: run_def split: prod.split sum.split)

lemma sound_run: "sound U m \<Longrightarrow> world_inv U w \<Longrightarrow> ok U w (snd (run m w))"
  by (simp add: sound_def)

lemma quiet_read_handlers:
  "quiet (getQuote e i oact)" "quiet (listQuotes e)" "quiet (getQuoteByToken e t)" "quiet (recommendations i)"
  "quiet (disposeAnomaly e i s r act)" "quiet (contactVendor e i act)"
  unfolding getQuote_def listQuotes_def getQuoteByToken_def recommendations_def disposeAnomaly_def contactVendor_def
  by (intro quiet_intros)+

lemma handle_quote_ok:
  assumes inj: "inj U" and e: "e_uuid e = U" and inv: "world_inv U w"
  shows "ok U w (snd (handle_quote e r w))"
proof -
  note sound = sound_line_handlers [OF inj] sound_negotiation_handlers [OF inj] sound_manager_handlers [OF inj]
    sound_order_handlers [OF inj] sound_decide [OF inj] sound_submit [OF inj] sound_confirm [OF inj] sound_assess [OF inj]
    sound_portal_handlers [OF inj] sound_createQuote [OF inj e] sound_deleteQuote [OF inj] quiet_read_handlers [THEN sound_quiet]
  show ?thesis by (induct r) (unfold handle_quote.simps, (rule sound_run [OF _ inv], rule sound)+)
qed

lemma handle_catalog_ok:
  assumes inj: "inj U" and inv: "world_inv U w"
  shows "ok U w (snd (handle_catalog e r w))"
proof -
  note sound = sound_deleteProduct [OF inj] sound_deleteCustomer [OF inj] quiet_customer_handlers [THEN sound_quiet]
    growing_upsertProduct_handler [THEN growing_sound] growing_stock_handlers [THEN growing_sound]
    growing_config_handlers [THEN growing_sound] growing_catalog_handlers [THEN growing_sound]
  show ?thesis by (induct r) (unfold handle_catalog.simps, (rule sound_run [OF _ inv], rule sound)+)
qed

lemma handle_ok: "inj U \<Longrightarrow> e_uuid e = U \<Longrightarrow> world_inv U w \<Longrightarrow> ok U w (snd (handle e r w))"
  by (cases r) (simp_all add: handle_quote_ok handle_catalog_ok)

section \<open>Runs\<close>

interpretation service: guarded_system "step U" "\<lambda>w. inj U \<and> world_inv U w" "progress U"
proof
  fix s t assume i: "inj U \<and> world_inv U s" and "step U s t"
  then obtain e r out where e: "e_uuid e = U" and h: "handle e r s = (out, t)" by (auto elim: step_cases)
  have "ok U s t" using handle_ok [OF conjunct1 [OF i] e conjunct2 [OF i], of r] h by simp
  then show "inj U \<and> world_inv U t" and "progress U s t" using i by (simp_all add: ok_def)
next
  show "progress U s u" if "inj U \<and> world_inv U s" "progress U s t" "progress U t u" for s t u
    using that progress_trans by blast
qed simp

lemma empty_inv: "w_quotes w = [] \<Longrightarrow> world_inv U w"
  by (simp add: world_inv_def quote_lookup_def)

text \<open>The stores the service can get to from an empty quote table, whatever the catalogue was.\<close>

definition reachable :: "(nat \<Rightarrow> string) \<Rightarrow> world \<Rightarrow> bool" where
  "reachable U w \<longleftrightarrow> inj U \<and> (\<exists>w0. w_quotes w0 = [] \<and> (step U)\<^sup>*\<^sup>* w0 w)"

lemma reachable_inv: assumes "reachable U w" shows "inj U" and "world_inv U w"
  using assms service.run_inv empty_inv by (auto simp: reachable_def)

lemma reachable_run: "reachable U w \<Longrightarrow> (step U)\<^sup>*\<^sup>* w w' \<Longrightarrow> reachable U w'"
  unfolding reachable_def by (meson rtranclp_trans)

lemma reachable_progress: "reachable U w \<Longrightarrow> (step U)\<^sup>*\<^sup>* w w' \<Longrightarrow> progress U w w'"
  using service.run_rel reachable_inv by blast

lemma reachable_quote:
  assumes "reachable U w" and "quote_lookup w i = Some a"
  shows "stored_ok U w i a" and "quote_inv a"
  using reachable_inv(2) [OF assms(1)] assms(2) by (simp_all add: world_inv_def stored_ok_def)

end
