(* ===== verification/Dealflow_Liveness.thy ===== *)
theory Dealflow_Liveness
  imports Dealflow_System
begin

text \<open>
  Total correctness of the handlers: which requests are bound to succeed. \<open>returns m\<close> says that the
  action \<open>m\<close> never throws; the part of every handler after its save returns. \<open>handler_returns\<close> then
  reduces the success of a handler to the success of its edit, which the weakest precondition with an
  empty exceptional postcondition expresses.
\<close>

named_theorems returns_intros \<open>actions that never throw\<close>

section \<open>Actions that never throw\<close>

definition returns :: "'a action \<Rightarrow> bool" where
  "returns m \<longleftrightarrow> (\<forall>w. \<exists>x w'. m w = (Inr x, w'))"

lemma returns_basic [returns_intros]: "returns (ret x)" "returns (gets f)" "returns (modify g)" "returns (randomUUID e)"
  by (simp_all add: returns_def ret_def gets_def modify_def randomUUID_def)

lemma returns_bnd [returns_intros]: "returns m \<Longrightarrow> (\<And>x. returns (f x)) \<Longrightarrow> returns (bnd m f)"
  unfolding returns_def bnd_def by (metis (no_types, lifting) old.prod.case old.sum.simps(6))

lemma returns_branches [returns_intros]:
  "returns m \<Longrightarrow> returns n \<Longrightarrow> returns (if b then m else n)" "returns l \<Longrightarrow> returns (unless b l)"
  "returns m \<Longrightarrow> (\<And>y. returns (g y)) \<Longrightarrow> returns (case o' of None \<Rightarrow> m | Some y \<Rightarrow> g y)"
  "(\<And>y. returns (h y)) \<Longrightarrow> (\<And>z. returns (k z)) \<Longrightarrow> returns (case s of Inl y \<Rightarrow> h y | Inr z \<Rightarrow> k z)"
  "(\<And>y z. returns (p y z)) \<Longrightarrow> returns (case q of (y, z) \<Rightarrow> p y z)"
  by (simp_all add: unless_def returns_basic split: option.split sum.split prod.split)

lemma returns_each [returns_intros]: "(\<And>x. returns (f x)) \<Longrightarrow> returns (each f xs)"
  by (induction xs) (auto intro: returns_intros)

lemma returns_logs [returns_intros]: "returns (log_event ev)" "returns (audit e a x r i s)" "returns (notify e u t)" "returns (publish e t q)"
  unfolding log_event_def audit_def notify_def publish_def by (intro returns_intros)+

lemma returns_store [returns_intros]:
  "returns (store_listNegotiations i)" "returns (store_listQuoteEmails i)" "returns (store_findQuoteEmailByKey k)"
  "returns (store_countWonPurchases i)" "returns (store_saveQuoteEmail m)" "returns (store_upsertAnomaly y)"
  unfolding store_listNegotiations_def store_listQuoteEmails_def store_findQuoteEmailByKey_def store_countWonPurchases_def
    store_saveQuoteEmail_def store_upsertAnomaly_def
  by (intro returns_intros)+

lemma returns_upsertCustomer [returns_intros]: "returns (store_upsertCustomer e input)"
  by (simp add: returns_def store_upsertCustomer_def Let_def split: option.split)

lemma returns_decorate [returns_intros]: "returns (decorate e a x act b)"
  unfolding decorate_def sync_tier_def Let_def by (intro returns_intros)

lemma returns_dispatch [returns_intros]: "returns (dispatchCustomerQuoteEmail e a ev act)"
  unfolding dispatchCustomerQuoteEmail_def open_delivery_def deliver_def Let_def payload_always_safe lift_def
  by (intro returns_intros) (simp add: returns_def)

lemma returns_persistAnomalies [returns_intros]: "returns (persistAnomalies e a x act)"
  unfolding persistAnomalies_def persist_anomaly_def by (intro returns_intros)

section \<open>Loading and saving succeed\<close>

lemma attach_total:
  assumes "qt_customerId (ag_quote a) \<in> cu_id ` set (w_customers w)"
  obtains b where "attach w a = Inr b" and "core b = core a"
proof -
  obtain c where "find (\<lambda>c. cu_id c = qt_customerId (ag_quote a)) (w_customers w) = Some c"
    using assms by (cases "find (\<lambda>c. cu_id c = qt_customerId (ag_quote a)) (w_customers w)") (auto simp: find_None_iff)
  then show ?thesis using that core_attach by (auto simp: attach_def)
qed

lemma load_total:
  assumes "world_inv U w" and "quote_lookup w i = Some a"
  obtains b where "load i w = (Inr b, w)" and "attach w a = Inr b" and "core b = core a"
proof -
  have "qt_customerId (ag_quote a) \<in> cu_id ` set (w_customers w)" using assms by (simp add: world_inv_def stored_ok_def)
  then obtain b where "attach w a = Inr b" "core b = core a" by (rule attach_total)
  then show ?thesis using that assms(2) by (simp add: load_def bnd_def store_getQuote_def attach_opt_def ret_def)
qed

lemma map_result_total: "(\<And>x. x \<in> set xs \<Longrightarrow> \<exists>y. f x = Inr y) \<Longrightarrow> \<exists>ys. map_result f xs = Inr ys"
proof (induction xs)
  case (Cons x xs)
  then obtain y ys where "f x = Inr y" "map_result f xs = Inr ys" by (metis list.set_intros)
  then show ?case by simp
qed simp

lemma assess_total:
  assumes "line_refs w a" obtains x b where "assess_in e w a = Inr (x, b)"
proof -
  have "\<exists>y. line_with_product (w_products w) l = Inr y" if "l \<in> set (ag_lines a)" for l
  proof -
    have "ln_productId l \<in> pr_id ` set (w_products w)" using assms that by (simp add: line_refs_def)
    then have "find (\<lambda>p. pr_id p = ln_productId l) (w_products w) \<noteq> None" by (auto simp: find_None_iff)
    then show ?thesis by (auto simp: line_with_product_def)
  qed
  then obtain ys where "map_result (line_with_product (w_products w)) (ag_lines a) = Inr ys" using map_result_total by blast
  then show ?thesis using that by (simp add: assess_in_def Let_def)
qed

lemma returnsD: "returns m \<Longrightarrow> \<exists>x w'. m w = (Inr x, w')"
  by (simp add: returns_def)

lemma quiet_returnsE:
  assumes "quiet m" "returns m" obtains x w' where "m w = (Inr x, w')" "same_core w w'"
  using assms unfolding quiet_def returns_def by (metis snd_conv)

text \<open>Saving a quotation whose customer and products exist succeeds; the store then holds it.\<close>

lemma save_total:
  assumes refs: "line_refs w b" and cust: "qt_customerId (ag_quote b) \<in> cu_id ` set (w_customers w)"
    and k: "\<And>sx. quiet (k sx)" "\<And>sx. returns (k sx)"
  obtains r s w' where "bnd (saveAssessed e b act) k w = (Inr r, w')" "core s = core b" "same_core (put_quote s w) w'"
proof -
  obtain x d where xd: "assess_in e w b = Inr (x, d)" using assess_total [OF refs] .
  define s where "s = touch e d"
  have cs: "core s = core b" using core_assess_in [OF xd] by (simp add: s_def)
  have "qt_customerId (ag_quote s) \<in> cu_id ` set (w_customers (put_quote s w))" using core_eqD(6) [OF cs] cust by simp
  then obtain saved where saved: "attach (put_quote s w) s = Inr saved" by (rule attach_total)
  let ?r = "bnd (bnd (persistAnomalies e saved (Some x) act) (\<lambda>_. bnd (publish e ''quote.updated'' (Some (qt_id (ag_quote saved)))) (\<lambda>_. ret (saved, x)))) k"
  have "quiet ?r" "returns ?r" by (intro quiet_intros k) (intro returns_intros k)
  then obtain r w' where "?r (put_quote s w) = (Inr r, w')" "same_core (put_quote s w) w'" by (rule quiet_returnsE)
  moreover have "bnd (saveAssessed e b act) k w = ?r (put_quote s w)"
    by (simp add: saveAssessed_def bnd_def refreshAssessment_def xd store_saveQuote_def saved flip: s_def split: sum.split prod.split)
  ultimately show ?thesis using that cs by metis
qed

text \<open>\<open>holds w i P\<close>: the store has a quotation \<open>i\<close> with the core of some \<open>c\<close> that satisfies \<open>P\<close>.\<close>

definition holds :: "world \<Rightarrow> string \<Rightarrow> (quote_aggregate \<Rightarrow> bool) \<Rightarrow> bool" where
  "holds w i P \<longleftrightarrow> (\<exists>s c. quote_lookup w i = Some s \<and> core s = core c \<and> P c)"

text \<open>The tables an assessment reads, stock apart; no quotation handler writes them.\<close>

definition tables :: "world \<Rightarrow> product list \<times> discount_policy list \<times> approval_chain list \<times> quantity_break list \<times>
    role_authority list \<times> governance_config \<times> warehouse list" where
  "tables w = (w_products w, w_policies w, w_chains w, w_quantityBreaks w, w_roleAuthorities w, w_governance w, w_warehouses w)"

lemma tables_same_core: "same_core w w' \<Longrightarrow> tables w' = tables w"
  by (simp add: same_core_def tables_def)

lemma tables_put [simp]: "tables (put_quote a w) = tables w"
  by (simp add: tables_def put_quote_def)

definition succeeds :: "'a action \<Rightarrow> world \<Rightarrow> string \<Rightarrow> (quote_aggregate \<Rightarrow> bool) \<Rightarrow> bool" where
  "succeeds m w i P \<longleftrightarrow> (\<exists>r w'. m w = (Inr r, w') \<and> holds w' i P \<and> tables w' = tables w)"

lemma edit_then_save:
  assumes inv: "world_inv U w" and l: "loaded w a" and edit: "edit_ok proj m a"
    and m: "wp m (\<lambda>c _. P (proj c)) (\<lambda>_. False) w"
    and k: "\<And>b sx. quiet (k b sx)" "\<And>b sx. returns (k b sx)"
  shows "succeeds (bnd m (\<lambda>b. bnd (saveAssessed e (proj b) act) (k b))) w (qt_id (ag_quote a)) P"
proof -
  have "wp m (\<lambda>b w'. same_core w w' \<and> good_edit w a (proj b)) (same_core w) w"
    using edit loaded_facts(1,2) [OF inv l] by (simp add: edit_ok_def)
  then obtain b w1 where b: "m w = (Inr b, w1)" "same_core w w1" "good_edit w a (proj b)" "P (proj b)"
    using m by (auto simp: wp_def split: prod.splits sum.splits)
  have id: "qt_id (ag_quote (proj b)) = qt_id (ag_quote a)" "qt_customerId (ag_quote (proj b)) = qt_customerId (ag_quote a)"
    using b(3) by (simp_all add: good_edit_def evolves_def)
  have "line_refs w1 (proj b)" using b(2,3) line_refs_same_core by (simp add: good_edit_def)
  moreover have "qt_customerId (ag_quote (proj b)) \<in> cu_id ` set (w_customers w1)"
    using loaded_facts(3) [OF inv l] id(2) b(2) by (auto simp: same_core_def)
  ultimately obtain r s w' where s: "bnd (saveAssessed e (proj b) act) (k b) w1 = (Inr r, w')" "core s = core (proj b)" "same_core (put_quote s w1) w'"
    by (rule save_total) (rule k)+
  have "quote_lookup w' (qt_id (ag_quote a)) = Some s"
    using s(3) core_eqD(5) [OF s(2)] id(1) lookup_put [of s w1] by (simp add: same_core_def quote_lookup_def)
  then have "holds w' (qt_id (ag_quote a)) P" using s(2) b(4) by (auto simp: holds_def)
  moreover have "bnd m (\<lambda>b. bnd (saveAssessed e (proj b) act) (k b)) w = (Inr r, w')"
    unfolding bnd_def [of m] b(1) prod.case sum.case by (rule s(1))
  moreover have "tables w' = tables w" using tables_same_core [OF s(3)] tables_same_core [OF b(2)] by simp
  ultimately show ?thesis by (auto simp: succeeds_def)
qed

lemma handler_returns:
  assumes inv: "world_inv U w" and lk: "quote_lookup w i = Some a"
    and edit: "\<And>b. edit_ok proj (m b) b"
    and m: "\<And>b. core b = core a \<Longrightarrow> attach w a = Inr b \<Longrightarrow> wp (m b) (\<lambda>c _. P (proj c)) (\<lambda>_. False) w"
    and k: "\<And>b sx. quiet (k b sx)" "\<And>b sx. returns (k b sx)"
  shows "succeeds (bnd (load i) (\<lambda>a. bnd (m a) (\<lambda>b. bnd (saveAssessed e (proj b) act) (k b)))) w i P"
proof -
  obtain b where b: "load i w = (Inr b, w)" "attach w a = Inr b" "core b = core a" using load_total [OF inv lk] .
  have l: "loaded w b" and id: "qt_id (ag_quote b) = i" using load_loaded(2,3) [OF inv b(1)] by simp_all
  have "succeeds (bnd (m b) (\<lambda>b. bnd (saveAssessed e (proj b) act) (k b))) w i P"
    using edit_then_save [OF inv l edit m [OF b(3,2)] k] id by simp
  then show ?thesis by (simp add: succeeds_def bnd_def [of "load i"] b(1))
qed

lemma plain_handler_returns:
  assumes "world_inv U w" "quote_lookup w i = Some a" and edit: "\<And>b. edit_ok id (m b) b"
    and m: "\<And>b. core b = core a \<Longrightarrow> wp (m b) (\<lambda>c _. P c) (\<lambda>_. False) w"
    and k: "\<And>b sx. quiet (k b sx)" "\<And>b sx. returns (k b sx)"
  shows "succeeds (bnd (load i) (\<lambda>a. bnd (m a) (\<lambda>b. bnd (saveAssessed e b act) (k b)))) w i P"
  using handler_returns [where proj = id and P = P, OF assms(1,2) edit _ k] m by simp

lemma succeeds_guard: "b \<Longrightarrow> succeeds (f ()) w i P \<Longrightarrow> succeeds (bnd (ensure b err) f) w i P"
  by (simp add: succeeds_def bnd_def ensure_def ret_def)

section \<open>Requests that succeed\<close>

lemma core_readsD:
  assumes "core b = core a"
  shows "status_of b = status_of a" "qt_version (ag_quote b) = qt_version (ag_quote a)" "ag_lines b = ag_lines a"
    "ag_approvals b = ag_approvals a" "qt_financeLockedAt (ag_quote b) = qt_financeLockedAt (ag_quote a)"
    "ag_allocations b = ag_allocations a" "ag_schedules b = ag_schedules a"
  using assms by (simp_all add: core_def Let_def)

definition reaches :: "quote_status \<Rightarrow> quote_aggregate \<Rightarrow> quote_aggregate \<Rightarrow> bool" where
  "reaches s a c \<longleftrightarrow> status_of c = s \<and> qt_version (ag_quote c) = qt_version (ag_quote a) + 1 \<and> ag_lines c = ag_lines a"

lemma complete_succeeds:
  assumes "world_inv U w" "quote_lookup w i = Some a" and "status_of a \<in> {Q_confirmed, Q_fulfillment, Q_billing}"
  shows "succeeds (service_complete e i act (qt_version (ag_quote a))) w i (reaches Q_completed a)"
  unfolding service_complete_def
proof (rule plain_handler_returns [OF assms(1,2) complete_edit_ok])
  fix b assume "core b = core a"
  note c = core_readsD [OF this]
  show "wp (complete_edit (qt_version (ag_quote a)) b) (\<lambda>c _. reaches Q_completed a c) (\<lambda>_. False) w"
    using assms(3) by (auto simp: complete_edit_def wp_simps c Let_def reaches_def assertTransition_def)
qed (intro quiet_intros returns_intros)+

lemma void_succeeds:
  assumes "world_inv U w" "quote_lookup w i = Some a" and "canVoidQuote (status_of a)"
    and "actorHas (Some act) ''dealflow.quotes.write''" "actorHas (Some act) ''dealflow.quotes.approve''"
  shows "succeeds (voidQuote e i act (qt_version (ag_quote a))) w i (reaches Q_rejected a)"
proof -
  have inv: "quote_inv a" using assms(1,2) by (simp add: world_inv_def stored_ok_def)
  have free: "\<not> committed (status_of a)" using assms(3) by (auto simp: canVoidQuote_def committed_def)
  then have "\<not> isCommerciallyLocked (status_of a) (qt_financeLockedAt (ag_quote a))"
    using uncommitted_empty(1) [OF inv free] by (auto simp: isCommerciallyLocked_def committed_def)
  note free = this
  show ?thesis unfolding voidQuote_def
  proof (rule succeeds_guard [OF assms(4)], rule plain_handler_returns [OF assms(1,2) void_edit_ok])
    fix b assume "core b = core a"
    note c = core_readsD [OF this]
    show "wp (void_edit act (qt_version (ag_quote a)) b) (\<lambda>c _. reaches Q_rejected a c) (\<lambda>_. False) w"
      using assms(3,5) free by (auto simp: void_edit_def wp_simps c reaches_def canVoidQuote_def)
  qed (intro quiet_intros returns_intros)+
qed

lemma startNegotiation_succeeds:
  assumes "world_inv U w" "quote_lookup w i = Some a" and "status_of a = Q_draft"
    and "case selectRoleAuthority (w_roleAuthorities w) (Some act) of None \<Rightarrow> True | Some x \<Rightarrow> ra_canNegotiate x"
  shows "succeeds (startNegotiation e i act) w i (reaches Q_customer_negotiation a)"
  unfolding startNegotiation_def
proof (rule plain_handler_returns [OF assms(1,2) startNegotiation_edit_ok])
  fix b assume "core b = core a"
  note c = core_readsD [OF this]
  show "wp (startNegotiation_edit e act b) (\<lambda>c _. reaches Q_customer_negotiation a c) (\<lambda>_. False) w"
    using assms(3,4) by (auto simp: startNegotiation_edit_def wp_simps c reaches_def)
qed (intro quiet_intros returns_intros)+

lemma finalize_succeeds:
  assumes "world_inv U w" "quote_lookup w i = Some a" and "status_of a \<in> {Q_customer_negotiation, Q_manager_review}"
    and "ag_lines a \<noteq> []" and "is_manager act"
  shows "succeeds (finalizeQuotation e i act (qt_version (ag_quote a))) w i (reaches Q_finalized a)"
  unfolding finalizeQuotation_def assertManagerActor_def
proof (rule succeeds_guard [OF assms(5)], rule plain_handler_returns [OF assms(1,2) finalize_edit_ok])
  fix b assume "core b = core a"
  note c = core_readsD [OF this]
  show "wp (finalize_edit e (qt_version (ag_quote a)) act b) (\<lambda>c _. reaches Q_finalized a c) (\<lambda>_. False) w"
    using assms(3,4) by (auto simp: finalize_edit_def appendRevision_def wp_simps c reaches_def freeze_def)
qed (intro quiet_intros returns_intros)+

text \<open>The assessment \<open>submit\<close> and \<open>confirm\<close> decide on: that of the loaded quotation.\<close>

definition current_assessment :: "env \<Rightarrow> world \<Rightarrow> quote_aggregate \<Rightarrow> quote_assessment option" where
  "current_assessment e w a = (case attach w a of Inl _ \<Rightarrow> None | Inr b \<Rightarrow>
     (case assess_in e w b of Inl _ \<Rightarrow> None | Inr (x, _) \<Rightarrow> Some x))"

lemma current_assessmentD:
  assumes "current_assessment e w a = Some x" and "attach w a = Inr b"
  obtains c where "assess_in e w b = Inr (x, c)" and "core c = core b"
  using assms core_assess_in by (auto simp: current_assessment_def split: sum.splits)

definition chain_of :: "world \<Rightarrow> quote_assessment \<Rightarrow> approval_chain option" where
  "chain_of w x = (case qa_requiredChainId x of None \<Rightarrow> None | Some i \<Rightarrow> find (\<lambda>c. ch_id c = i) (w_chains w))"

lemma submit_approves:
  assumes "world_inv U w" "quote_lookup w i = Some a" and "status_of a = Q_finalized" and "ag_lines a \<noteq> []"
    and x: "current_assessment e w a = Some x" "qa_decision x = D_allowed \<or> qa_decision x = D_warning"
  shows "succeeds (submit e i act) w i (reaches Q_approved a)"
  unfolding submit_def case_prod_beta'
proof (rule handler_returns [where proj = fst, OF assms(1,2) submit_edit_ok])
  fix b assume b: "core b = core a" and att: "attach w a = Inr b"
  obtain c where c: "assess_in e w b = Inr (x, c)" "core c = core b" using current_assessmentD [OF x(1) att] .
  note r = core_readsD [OF b] core_readsD [OF c(2)]
  show "wp (submit_edit e act b) (\<lambda>c _. reaches Q_approved a (fst c)) (\<lambda>_. False) w"
    using assms(3,4) x(2) by (auto simp: submit_edit_def wp_simps r c(1) Let_def reaches_def autoApproveIfAllowed_def split: option.splits)
qed (intro quiet_intros returns_intros)+

lemma submit_asks:
  assumes "world_inv U w" "quote_lookup w i = Some a" and "status_of a = Q_finalized" and "ag_lines a \<noteq> []"
    and x: "current_assessment e w a = Some x" "qa_decision x = D_approval_required" and ch: "chain_of w x = Some ch"
  shows "succeeds (submit e i act) w i (\<lambda>c. reaches Q_approval_required a c \<and>
    (\<exists>f. ag_approvals c = buildApprovalSteps f (qt_id (ag_quote a)) ch (gc_maxApprovalLevels (governanceOf e w))))"
  unfolding submit_def case_prod_beta'
proof (rule handler_returns [where proj = fst, OF assms(1,2) submit_edit_ok])
  fix b assume b: "core b = core a" and att: "attach w a = Inr b"
  obtain c where c: "assess_in e w b = Inr (x, c)" "core c = core b" using current_assessmentD [OF x(1) att] .
  note r = core_readsD [OF b] core_readsD [OF c(2)] core_eqD(5) [OF b] core_eqD(5) [OF c(2)]
  show "wp (submit_edit e act b) (\<lambda>c _. reaches Q_approval_required a (fst c) \<and>
    (\<exists>f. ag_approvals (fst c) = buildApprovalSteps f (qt_id (ag_quote a)) ch (gc_maxApprovalLevels (governanceOf e w)))) (\<lambda>_. False) w"
    using assms(3,4) x(2) ch by (auto simp: submit_edit_def wp_simps r c(1) Let_def reaches_def autoApproveIfAllowed_def chain_of_def)
qed (intro quiet_intros returns_intros)+

lemma submit_refuses:
  assumes "world_inv U w" "quote_lookup w i = Some a" and "status_of a = Q_finalized" and "ag_lines a \<noteq> []"
    and x: "current_assessment e w a = Some x"
  shows "qa_decision x = D_rejected \<Longrightarrow> submit e i act w = (Inl (conflict (Workflow Exceeds_reject_ceilings)), w)"
    and "qa_decision x = D_approval_required \<Longrightarrow> chain_of w x = None \<Longrightarrow>
           submit e i act w = (Inl (conflict (Approval Chain_required_not_configured)), w)"
proof -
  obtain b where b: "load i w = (Inr b, w)" "attach w a = Inr b" "core b = core a" using load_total [OF assms(1,2)] .
  obtain c where c: "assess_in e w b = Inr (x, c)" "core c = core b" using current_assessmentD [OF x(1) b(2)] .
  note r = core_readsD [OF b(3)] core_readsD [OF c(2)]
  note defs = submit_def submit_edit_def bnd_def b(1) ensure_def ret_def throw_def gets_def drawing_def refreshAssessment_def
  show "submit e i act w = (Inl (conflict (Workflow Exceeds_reject_ceilings)), w)" if "qa_decision x = D_rejected"
    using that assms(3,4) by (simp add: defs r c(1))
  show "submit e i act w = (Inl (conflict (Approval Chain_required_not_configured)), w)"
    if "qa_decision x = D_approval_required" "chain_of w x = None"
    using that assms(3,4) by (simp add: defs r c(1) autoApproveIfAllowed_def chain_of_def Let_def)
qed

lemma confirm_succeeds:
  assumes "world_inv U w" "quote_lookup w i = Some a" and st: "status_of a = Q_approved"
    and x: "current_assessment e w a = Some x" "qa_decision x \<noteq> D_rejected" and act: "actorHas (Some act) ''dealflow.quotes.lock''"
  shows "succeeds (service_confirm e i act (qt_version (ag_quote a))) w i
    (\<lambda>c. reaches Q_confirmed a c \<and> qt_financeLockedAt (ag_quote c) = Some (e_now e))"
proof -
  have inv: "quote_inv a" using assms(1,2) by (simp add: world_inv_def stored_ok_def)
  have nc: "\<not> committed (status_of a)" using st by (simp add: committed_def)
  note free = uncommitted_empty [OF inv nc]
  have appr: "allRequiredApproved (ag_approvals a)" using quote_invD(2) [OF inv] st by (simp add: approved_or_later_def)
  obtain b where b: "load i w = (Inr b, w)" "attach w a = Inr b" "core b = core a" using load_total [OF assms(1,2)] .
  obtain c where c: "assess_in e w b = Inr (x, c)" "core c = core b" using current_assessmentD [OF x(1) b(2)] .
  note r = core_readsD [OF b(3)] core_readsD [OF c(2)]
  have l: "loaded w b" and id: "qt_id (ag_quote b) = i" using load_loaded(2,3) [OF assms(1) b(1)] by simp_all
  have audit: "wp (audit e (Some act) s1 s2 s3 s4) Q E w' = (\<exists>w''. snd (audit e (Some act) s1 s2 s3 s4 w') = w'' \<and> Q () w'')" for s1 s2 s3 s4 Q E w'
    using returnsD [OF returns_logs(2), of e "Some act" s1 s2 s3 s4 w'] by (auto simp: wp_def)
  have edit: "wp (confirm_edit e act b) (\<lambda>c _. reaches Q_confirmed a (fst c) \<and> qt_financeLockedAt (ag_quote (fst c)) = Some (e_now e)) (\<lambda>_. False) w"
    using x(2) st appr free
    by (auto simp: confirm_edit_def wp_simps r c(1) Let_def reaches_def consume_allocations_def lock_fields_def sync_odoo_def audit split: option.splits sum.splits)
  have "succeeds (bnd (confirm_edit e act b) (\<lambda>p. bnd (saveAssessed e (fst p) (Some act)) (\<lambda>p'.
       bnd (audit e (Some act) ''quote.confirmed'' ''quote'' i ''success'') (\<lambda>_.
       bnd (dispatchCustomerQuoteEmail e (fst p') E_final_invoice (Some act)) (\<lambda>_.
       decorate e (fst p') (Some (snd p)) (Some act) True))))) w i
    (\<lambda>c. reaches Q_confirmed a c \<and> qt_financeLockedAt (ag_quote c) = Some (e_now e))"
    unfolding id [symmetric] by (rule edit_then_save [OF assms(1) l confirm_edit_ok edit]) (intro quiet_intros returns_intros)+
  moreover have "confirm_guard act (qt_version (ag_quote a)) b w = (Inr (), w)"
    using act by (simp add: confirm_guard_def assertExpectedVersion_def bnd_def ensure_def ret_def r)
  ultimately show ?thesis
    by (simp add: succeeds_def service_confirm_def case_prod_beta' bnd_def [of "load i"] bnd_def [of "confirm_guard _ _ _"] b(1) r free)
qed

lemma delete_succeeds:
  assumes "world_inv U w" "quote_lookup w i = Some a" and st: "canDeleteQuote (status_of a)"
    and act: "actorHas (Some act) ''dealflow.quotes.write''"
  shows "\<exists>w'. deleteQuote e i act (qt_version (ag_quote a)) w = (Inr (), w') \<and> quote_lookup w' i = None"
proof -
  have inv: "quote_inv a" using assms(1,2) by (simp add: world_inv_def stored_ok_def)
  have nc: "\<not> committed (status_of a)" using st by (auto simp: canDeleteQuote_def committed_def)
  obtain b where b: "load i w = (Inr b, w)" "attach w a = Inr b" "core b = core a" using load_total [OF assms(1,2)] .
  note r = core_readsD [OF b(3)]
  let ?k = "bnd (audit e (Some act) ''quote.deleted'' ''quote'' i ''success'') (\<lambda>_. publish e ''quote.deleted'' (Some i))"
  have "quiet ?k" "returns ?k" by (intro quiet_intros) (intro returns_intros)
  then obtain w' where w': "?k (snd (store_deleteQuote i w)) = (Inr (), w')" "same_core (snd (store_deleteQuote i w)) w'"
    by (rule quiet_returnsE) auto
  have "quote_lookup w' i = None"
    using w'(2) quotes.get_del [of i w i] by (simp add: same_core_def quote_lookup_def drop_quote_def)
  moreover have "\<not> isCommerciallyLocked (status_of a) (qt_financeLockedAt (ag_quote a))"
    using uncommitted_empty(1) [OF inv nc] st by (auto simp: isCommerciallyLocked_def canDeleteQuote_def)
  then have "deleteQuote e i act (qt_version (ag_quote a)) w = (Inr (), w')"
    using w'(1) act st by (simp add: deleteQuote_def bnd_def ensure_def ret_def b(1) r assertExpectedVersion_def store_deleteQuote_def modify_def)
  ultimately show ?thesis by blast
qed

lemma create_succeeds:
  assumes "wp (create_edit e input act) (\<lambda>a w'. P a) (\<lambda>_. False) w"
  shows "\<exists>i. succeeds (createQuote e input act) w i P \<and> (w_quotes w = [] \<longrightarrow> (\<exists>s. w_quotes (snd (createQuote e input act w)) = [(i, s)]))"
proof -
  obtain b w1 where b: "create_edit e input act w = (Inr b, w1)" "P b" "good_new (e_uuid e) w w1 b"
    using assms create_edit_wp [OF refl, of e input act w] by (auto simp: wp_def split: prod.splits sum.splits)
  let ?k = "\<lambda>(saved, x). bnd (audit e (Some act) ''quote.created'' ''quote'' (qt_id (ag_quote saved)) ''success'') (\<lambda>_.
     decorate e saved (Some x) (Some act) True)"
  have refs: "line_refs w1 b" and cust: "qt_customerId (ag_quote b) \<in> cu_id ` set (w_customers w1)"
    using b(3) by (auto simp: good_new_def line_refs_def same_core_def)
  have k: "quiet (?k sx)" "returns (?k sx)" for sx by (intro quiet_intros) (intro returns_intros)
  obtain r s w' where s: "bnd (saveAssessed e b (Some act)) ?k w1 = (Inr r, w')" "core s = core b" "same_core (put_quote s w1) w'"
    using save_total [OF refs cust k] .
  have "quote_lookup w' (qt_id (ag_quote s)) = Some s" using s(3) lookup_put [of s w1] by (simp add: same_core_def quote_lookup_def)
  then have "holds w' (qt_id (ag_quote s)) P" using s(2) b(2) by (auto simp: holds_def)
  moreover have c: "createQuote e input act w = (Inr r, w')" unfolding createQuote_def bnd_def [of "create_edit _ _ _"] b(1) using s(1) by simp
  moreover have "tables w' = tables w" using tables_same_core [OF s(3)] b(3) by (simp add: good_new_def tables_same_core)
  moreover have "w_quotes (snd (createQuote e input act w)) = [(qt_id (ag_quote s), s)]" if "w_quotes w = []"
    using that s(3) b(3) c by (simp add: good_new_def same_core_def put_quote_def)
  ultimately show ?thesis unfolding succeeds_def by blast
qed

text \<open>What a success says of the store, for the facts that only read the core.\<close>

lemma holds_reaches: "holds w i (reaches s a) \<Longrightarrow> \<exists>b. quote_lookup w i = Some b \<and> reaches s a b"
  unfolding holds_def reaches_def by (metis core_readsD(1-3))

lemma succeeds_run: "succeeds m w i P \<Longrightarrow> \<exists>w'. run m w = (None, w') \<and> holds w' i P \<and> tables w' = tables w"
  by (auto simp: succeeds_def run_def)

lemma succeeds_reaches: "succeeds m w i (reaches s a) \<Longrightarrow> \<exists>w' b. run m w = (None, w') \<and> quote_lookup w' i = Some b \<and> reaches s a b \<and> tables w' = tables w"
  using succeeds_run holds_reaches by blast

lemma portal_decision_succeeds:
  assumes inv: "world_inv U w" and ld: "load_by_token t w = (Inr a, w)" and st: "status_of a \<in> {Q_draft, Q_customer_negotiation, Q_manager_review}"
    and d: "d = C_accepted \<or> d = C_declined"
  shows "succeeds (applyPortalDecision e t d n (qt_version (ag_quote a))) w (qt_id (ag_quote a))
    (\<lambda>b. status_of b = status_of a \<and> ag_lines b = ag_lines a \<and> qt_version (ag_quote b) = qt_version (ag_quote a) + 1 \<and>
       qt_customerDecisionVersion (ag_quote b) = Some (qt_version (ag_quote a)) \<and> qt_customerDecision (ag_quote b) = d)"
proof -
  have l: "loaded w a" by (rule token_loaded(2) [OF inv ld HOL.refl])
  note facts = loaded_facts [OF inv l]
  define b where "b = bumpVersion ((record_decision e d a)\<lparr>ag_quote := (ag_quote (record_decision e d a))\<lparr>qt_customerDecisionComment := n\<rparr>\<rparr>)"
  let ?k = "\<lambda>(saved, _::quote_assessment). bnd (audit e (Some portal_actor) (if d = C_accepted then ''quote.customer_accepted'' else ''quote.customer_declined'')
                ''quote'' (qt_id (ag_quote saved)) ''success'') (\<lambda>_.
         bnd (notify e (uuidOrNull (qt_ownerId (ag_quote saved)))
                (if d = C_accepted then ''Customer accepted quotation'' else ''Customer declined quotation'')) (\<lambda>_.
         bnd (publish e ''negotiation.updated'' (Some (qt_id (ag_quote saved)))) (\<lambda>_.
         bnd (decorate e saved None None True) (\<lambda>v. ret (toPortalView v)))))"
  have fresh: "qt_customerDecisionVersion (ag_quote a) \<noteq> Some (qt_version (ag_quote a))" using quote_invD(6) [OF facts(1)] by auto
  have edit: "portalDecision_edit e d n (qt_version (ag_quote a)) a w = (Inr (Some b), w)"
    using st fresh by (simp add: portalDecision_edit_def assertExpectedVersion_def ensure_def bnd_def ret_def Let_def b_def)
  have refs: "line_refs w b" and cust: "qt_customerId (ag_quote b) \<in> cu_id ` set (w_customers w)" and id: "qt_id (ag_quote b) = qt_id (ag_quote a)"
    using facts(2,3) by (simp_all add: b_def record_decision_def line_refs_def bumpVersion_def)
  have k: "quiet (?k sx)" "returns (?k sx)" for sx by (intro quiet_intros) (intro returns_intros)
  obtain r s w' where s: "bnd (saveAssessed e b (Some portal_actor)) ?k w = (Inr r, w')" "core s = core b" "same_core (put_quote s w) w'"
    using save_total [OF refs cust k] .
  have "quote_lookup w' (qt_id (ag_quote a)) = Some s" using s(3) core_eqD(5) [OF s(2)] id lookup_put [of s w] by (simp add: same_core_def quote_lookup_def)
  then have "holds w' (qt_id (ag_quote a)) (\<lambda>b. status_of b = status_of a \<and> ag_lines b = ag_lines a \<and> qt_version (ag_quote b) = qt_version (ag_quote a) + 1 \<and>
       qt_customerDecisionVersion (ag_quote b) = Some (qt_version (ag_quote a)) \<and> qt_customerDecision (ag_quote b) = d)"
    using s(2) by (auto simp: holds_def b_def record_decision_def bumpVersion_def)
  moreover have guard: "ensure (d = C_accepted \<or> d = C_declined) x w = (Inr (), w)" for x using d by (auto simp: ensure_def ret_def)
  have "applyPortalDecision e t d n (qt_version (ag_quote a)) w = (Inr r, w')"
    unfolding applyPortalDecision_def by (simp only: bnd_Inr [where m = "ensure _ _", OF guard] bnd_Inr [where m = "load_by_token _", OF ld] bnd_Inr [where m = "portalDecision_edit _ _ _ _ _", OF edit] option.case s(1))
  moreover have "tables w' = tables w" using tables_same_core [OF s(3)] by simp
  ultimately show ?thesis by (auto simp: succeeds_def)
qed

lemma token_total:
  assumes "world_inv U w" and "quote_lookup w i = Some a"
  obtains j b c where "load_by_token (qt_portalToken (ag_quote a)) w = (Inr c, w)" "quote_lookup w j = Some b" "core c = core b"
proof -
  have "(i, a) \<in> set (w_quotes w)" using assms(2) by (simp add: quote_lookup_def map_of_SomeD)
  then obtain b where b: "find (\<lambda>x. qt_portalToken (ag_quote x) = qt_portalToken (ag_quote a)) (map snd (w_quotes w)) = Some b"
    by (cases "find (\<lambda>x. qt_portalToken (ag_quote x) = qt_portalToken (ag_quote a)) (map snd (w_quotes w))") (force simp: find_None_iff)+
  then have "b \<in> set (map snd (w_quotes w))" using find_SomeD by fast
  then obtain j where "(j, b) \<in> set (w_quotes w)" by auto
  then have lk: "quote_lookup w j = Some b" using assms(1) by (simp add: quote_lookup_def world_inv_def)
  obtain c where "attach w b = Inr c" "core c = core b" using load_total [OF assms(1) lk] .
  then show ?thesis using that lk b by (simp add: load_by_token_def bnd_def store_getQuoteByToken_def attach_opt_def ret_def)
qed

section \<open>Requests a status refuses\<close>

text \<open>Completing, voiding and deleting are refused, and write nothing, outside their statuses, whoever asks and
  whatever version is given.\<close>

lemma closing_refuses:
  assumes "world_inv U w" and "quote_lookup w i = Some a"
  shows "status_of a \<notin> {Q_confirmed, Q_fulfillment, Q_billing} \<Longrightarrow> \<exists>err. run (service_complete e i act v) w = (Some err, w)"
    and "\<not> canVoidQuote (status_of a) \<Longrightarrow> \<exists>err. run (voidQuote e i act v) w = (Some err, w)"
    and "\<not> canDeleteQuote (status_of a) \<Longrightarrow> \<exists>err. run (deleteQuote e i act v) w = (Some err, w)"
proof -
  obtain b where b: "load i w = (Inr b, w)" "core b = core a" using load_total [OF assms] by metis
  note r = core_readsD(1) [OF b(2)]
  note defs = run_def bnd_def b(1) assertExpectedVersion_def ensure_def throw_def ret_def r
  show "status_of a \<notin> {Q_confirmed, Q_fulfillment, Q_billing} \<Longrightarrow> \<exists>err. run (service_complete e i act v) w = (Some err, w)"
    by (auto simp: service_complete_def complete_edit_def defs)
  show "\<not> canVoidQuote (status_of a) \<Longrightarrow> \<exists>err. run (voidQuote e i act v) w = (Some err, w)"
    by (auto simp: voidQuote_def void_edit_def defs)
  show "\<not> canDeleteQuote (status_of a) \<Longrightarrow> \<exists>err. run (deleteQuote e i act v) w = (Some err, w)"
    by (auto simp: deleteQuote_def defs)
qed

end
