(* ===== verification/Dealflow_Outcome.thy ===== *)
theory Dealflow_Outcome
  imports Dealflow_Liveness
begin

text \<open>
  What one request may do to the quotations, proved once for every handler. The locale \<open>outcome\<close> takes
  a relation \<open>G w failed w'\<close> between the store before a request, whether it threw, and the store after,
  together with a relation \<open>Q\<close> between the states of one quotation before and after an edit; its
  assumptions say what \<open>G\<close> must accept: requests that write no quotation, one save, one creation, one
  deletion. \<open>guarded_edits\<close> adds that the edits of the handlers respect \<open>Q\<close> and concludes for every
  request.
\<close>

section \<open>Outcomes\<close>

definition threw :: "'a result \<times> world \<Rightarrow> bool" where
  "threw r \<longleftrightarrow> (case fst r of Inl _ \<Rightarrow> True | Inr _ \<Rightarrow> False)"

lemma threw_simps [simp]: "threw (Inl x, w)" "\<not> threw (Inr y, w)"
  by (simp_all add: threw_def)

definition yields :: "(world \<Rightarrow> bool \<Rightarrow> world \<Rightarrow> bool) \<Rightarrow> (nat \<Rightarrow> string) \<Rightarrow> 'a action \<Rightarrow> bool" where
  "yields G U m \<longleftrightarrow> (\<forall>w. world_inv U w \<longrightarrow> G w (threw (m w)) (snd (m w)))"

definition yields_after :: "(world \<Rightarrow> bool \<Rightarrow> world \<Rightarrow> bool) \<Rightarrow> (nat \<Rightarrow> string) \<Rightarrow> quote_aggregate \<Rightarrow> 'a action \<Rightarrow> bool" where
  "yields_after G U a m \<longleftrightarrow> (\<forall>w. world_inv U w \<longrightarrow> loaded w a \<longrightarrow> G w (threw (m w)) (snd (m w)))"

definition yields_then :: "(world \<Rightarrow> bool \<Rightarrow> world \<Rightarrow> bool) \<Rightarrow> (quote_aggregate \<Rightarrow> quote_aggregate \<Rightarrow> bool) \<Rightarrow> (nat \<Rightarrow> string) \<Rightarrow>
    quote_aggregate \<Rightarrow> quote_aggregate \<Rightarrow> 'a action \<Rightarrow> bool" where
  "yields_then G Q U a b m \<longleftrightarrow> (\<forall>w w1. world_inv U w \<longrightarrow> loaded w a \<longrightarrow> same_core w w1 \<longrightarrow> good_edit w a b \<longrightarrow> Q a b \<longrightarrow>
     G w (threw (m w1)) (snd (m w1)))"

definition edit_obeys :: "(quote_aggregate \<Rightarrow> quote_aggregate \<Rightarrow> bool) \<Rightarrow> ('b \<Rightarrow> quote_aggregate) \<Rightarrow> 'b action \<Rightarrow> quote_aggregate \<Rightarrow> bool" where
  "edit_obeys Q proj m a \<longleftrightarrow> (\<forall>w. wp m (\<lambda>b _. Q a (proj b)) (\<lambda>_. True) w)"

lemma quietD: "quiet m \<Longrightarrow> same_core w (snd (m w))"
  by (simp add: quiet_def)

lemma same_core_quotes: "same_core w w' \<Longrightarrow> w_quotes w' = w_quotes w"
  by (simp add: same_core_def)

lemma same_core_inv: "world_inv U w \<Longrightarrow> same_core w w' \<Longrightarrow> world_inv U w'"
  using keeps_ok [OF _ same_core_keeps] by (simp add: ok_def)

locale outcome =
  fixes G :: "world \<Rightarrow> bool \<Rightarrow> world \<Rightarrow> bool" and Q :: "quote_aggregate \<Rightarrow> quote_aggregate \<Rightarrow> bool"
  assumes same: "w_quotes w' = w_quotes w \<Longrightarrow> G w f w'"
    and left: "w_quotes w1 = w_quotes w \<Longrightarrow> G w1 f w' \<Longrightarrow> G w f w'"
    and saved: "loaded w a \<Longrightarrow> Q a b \<Longrightarrow> core s = core b \<Longrightarrow> qt_id (ag_quote s) = qt_id (ag_quote a) \<Longrightarrow>
                  w_quotes w' = w_quotes (put_quote s w) \<Longrightarrow> G w False w'"
    and added: "quote_lookup w (qt_id (ag_quote s)) = None \<Longrightarrow> w_quotes w' = w_quotes (put_quote s w) \<Longrightarrow> G w False w'"
    and dropped: "w_quotes w' = w_quotes (drop_quote i w) \<Longrightarrow> G w False w'"
    and Q_refl: "Q a a"
begin

lemma quiet: "quiet m \<Longrightarrow> yields G U m"
  unfolding yields_def using same quietD same_core_quotes by blast

lemma quiet_after: "quiet m \<Longrightarrow> yields_after G U a m"
  unfolding yields_after_def using same quietD same_core_quotes by blast

lemma quiet_then: "quiet m \<Longrightarrow> yields_then G Q U a b m"
  unfolding yields_then_def using same quietD same_core_quotes same_core_trans by meson

lemma after_any: "yields G U m \<Longrightarrow> yields_after G U a m"
  by (simp add: yields_def yields_after_def)

lemma branch: "yields_after G U a m \<Longrightarrow> yields_after G U a n \<Longrightarrow> yields_after G U a (if b then m else n)"
  by simp

lemma guard:
  assumes m: "quiet m" and k: "\<And>x. yields G U (k x)"
  shows "yields G U (bnd m k)"
  unfolding yields_def
proof (intro allI impI)
  fix w assume inv: "world_inv U w"
  have sc: "same_core w (snd (m w))" by (rule quietD [OF m])
  obtain r w1 where m: "m w = (r, w1)" by (cases "m w")
  then have q: "w_quotes w1 = w_quotes w" and i: "world_inv U w1" using same_core_quotes [OF sc] same_core_inv [OF inv sc] by simp_all
  show "G w (threw (bnd m k w)) (snd (bnd m k w))"
  proof (cases r)
    case (Inl err)
    then show ?thesis using bnd_Inl [of m w err w1 k] m same [OF q] by simp
  next
    case (Inr x)
    have "G w1 (threw (k x w1)) (snd (k x w1))" using k i by (simp add: yields_def)
    then show ?thesis using bnd_Inr [of m w x w1 k] m Inr left [OF q] by simp
  qed
qed

lemma check:
  assumes m: "quiet m" and k: "\<And>x. yields_after G U a (k x)"
  shows "yields_after G U a (bnd m k)"
  unfolding yields_after_def
proof (intro allI impI)
  fix w assume inv: "world_inv U w" and l: "loaded w a"
  have sc: "same_core w (snd (m w))" by (rule quietD [OF m])
  obtain r w1 where m: "m w = (r, w1)" by (cases "m w")
  then have q: "w_quotes w1 = w_quotes w" and i: "world_inv U w1" and l1: "loaded w1 a"
    using same_core_quotes [OF sc] same_core_inv [OF inv sc] loaded_same_core [OF sc l] by simp_all
  show "G w (threw (bnd m k w)) (snd (bnd m k w))"
  proof (cases r)
    case (Inl err)
    then show ?thesis using bnd_Inl [of m w err w1 k] m same [OF q] by simp
  next
    case (Inr x)
    have "G w1 (threw (k x w1)) (snd (k x w1))" using k i l1 by (simp add: yields_after_def)
    then show ?thesis using bnd_Inr [of m w x w1 k] m Inr left [OF q] by simp
  qed
qed

lemma reading:
  assumes m: "\<And>w r w'. world_inv U w \<Longrightarrow> m w = (r, w') \<Longrightarrow> w' = w \<and> (\<forall>a. r = Inr a \<longrightarrow> loaded w a)"
    and k: "\<And>a. yields_after G U a (k a)"
  shows "yields G U (bnd m k)"
  unfolding yields_def
proof (intro allI impI)
  fix w assume inv: "world_inv U w"
  obtain r w1 where r: "m w = (r, w1)" by (cases "m w")
  note h = m [OF inv r]
  show "G w (threw (bnd m k w)) (snd (bnd m k w))"
  proof (cases r)
    case (Inl err)
    then show ?thesis using bnd_Inl [of m w err w1 k] r h same [of w w] by simp
  next
    case (Inr a)
    then have "G w (threw (k a w)) (snd (k a w))" using k inv h by (simp add: yields_after_def)
    then show ?thesis using bnd_Inr [of m w a w1 k] r Inr h by simp
  qed
qed

lemma loading: "(\<And>a. yields_after G U a (k a)) \<Longrightarrow> yields G U (bnd (load i) k)"
  by (rule reading) (use load_loaded in blast)

lemma token: "(\<And>a. yields_after G U a (k a)) \<Longrightarrow> yields G U (bnd (load_by_token t) k)"
  by (rule reading) (use token_loaded in blast)

lemma edit:
  assumes m: "edit_ok proj m a" "edit_obeys Q proj m a" and k: "\<And>b. yields_then G Q U a (proj b) (k b)"
  shows "yields_after G U a (bnd m k)"
  unfolding yields_after_def
proof (intro allI impI)
  fix w assume inv: "world_inv U w" and l: "loaded w a"
  have wp: "wp m (\<lambda>b w'. same_core w w' \<and> good_edit w a (proj b)) (same_core w) w"
    using m(1) loaded_facts(1,2) [OF inv l] by (simp add: edit_ok_def)
  have p: "wp m (\<lambda>b _. Q a (proj b)) (\<lambda>_. True) w" using m(2) by (simp add: edit_obeys_def)
  obtain r w1 where r: "m w = (r, w1)" by (cases "m w")
  show "G w (threw (bnd m k w)) (snd (bnd m k w))"
  proof (cases r)
    case (Inl err)
    then have "w_quotes w1 = w_quotes w" using wp r by (simp add: wp_def same_core_def)
    then show ?thesis using bnd_Inl [of m w err w1 k] r Inl same by simp
  next
    case (Inr b)
    then have "same_core w w1" "good_edit w a (proj b)" "Q a (proj b)" using wp p r by (simp_all add: wp_def)
    then have "G w (threw (k b w1)) (snd (k b w1))" using k [of b] inv l by (simp add: yields_then_def)
    then show ?thesis using bnd_Inr [of m w b w1 k] r Inr by simp
  qed
qed

text \<open>A save after a good edit never throws, and what follows it returns.\<close>

lemma save:
  assumes k: "\<And>sx. quiet (k sx)" "\<And>sx. returns (k sx)"
  shows "yields_then G Q U a b (bnd (saveAssessed e b act) k)"
  unfolding yields_then_def
proof (intro allI impI)
  fix w w1 assume inv: "world_inv U w" and l: "loaded w a" and sc: "same_core w w1" and g: "good_edit w a b" and q: "Q a b"
  have id: "qt_id (ag_quote b) = qt_id (ag_quote a)" "qt_customerId (ag_quote b) = qt_customerId (ag_quote a)"
    using g by (simp_all add: good_edit_def evolves_def)
  have refs: "line_refs w1 b" using g line_refs_same_core [OF sc] by (simp add: good_edit_def)
  have cust: "qt_customerId (ag_quote b) \<in> cu_id ` set (w_customers w1)"
    using loaded_facts(3) [OF inv l] id(2) sc by (auto simp: same_core_def)
  obtain r s w' where s: "bnd (saveAssessed e b act) k w1 = (Inr r, w')" "core s = core b" "same_core (put_quote s w1) w'"
    using save_total [OF refs cust k] .
  have "w_quotes w' = w_quotes (put_quote s w)" using same_core_quotes [OF s(3)] same_core_quotes [OF sc] by simp
  then have "G w False w'" using saved [OF l q s(2)] core_eqD(5) [OF s(2)] id(1) by simp
  then show "G w (threw (bnd (saveAssessed e b act) k w1)) (snd (bnd (saveAssessed e b act) k w1))" by (simp add: s(1))
qed

lemma save_option:
  assumes "quiet m" and "\<And>b sx. quiet (k b sx)" "\<And>b sx. returns (k b sx)"
  shows "yields_then G Q U a (case_option a id x) (case x of None \<Rightarrow> m | Some b \<Rightarrow> bnd (saveAssessed e b act) (k b))"
  using save [of "k (the x)"] quiet_then assms by (cases x) simp_all

lemma handler:
  assumes "\<And>a. edit_ok proj (m a) a" "\<And>a. edit_obeys Q proj (m a) a" "\<And>b sx. quiet (k b sx)" "\<And>b sx. returns (k b sx)"
  shows "yields_after G U a (bnd (m a) (\<lambda>b. bnd (saveAssessed e (proj b) act) (k b)))"
  by (intro edit [where proj = proj] save assms)

lemma plain_handler:
  assumes "\<And>a. edit_ok id (m a) a" "\<And>a. edit_obeys Q id (m a) a" "\<And>b sx. quiet (k b sx)" "\<And>b sx. returns (k b sx)"
  shows "yields_after G U a (bnd (m a) (\<lambda>b. bnd (saveAssessed e b act) (k b)))"
  using handler [where proj = id, OF assms] by simp

lemma create:
  assumes inj: "inj U" and e: "e_uuid e = U" shows "yields G U (createQuote e input act)"
  unfolding yields_def
proof (intro allI impI)
  fix w assume inv: "world_inv U w"
  let ?k = "\<lambda>(saved, x). bnd (audit e (Some act) ''quote.created'' ''quote'' (qt_id (ag_quote saved)) ''success'') (\<lambda>_.
     decorate e saved (Some x) (Some act) True)"
  have k: "quiet (?k sx)" "returns (?k sx)" for sx by (intro quiet_intros) (intro returns_intros)
  have wp: "wp (create_edit e input act) (\<lambda>a w'. good_new U w w' a) (same_core w) w" by (rule create_edit_wp [OF e])
  obtain r w1 where r: "create_edit e input act w = (r, w1)" by (cases "create_edit e input act w")
  show "G w (threw (createQuote e input act w)) (snd (createQuote e input act w))"
  proof (cases r)
    case (Inl err)
    then have "w_quotes w1 = w_quotes w" using wp r by (simp add: wp_def same_core_def)
    then have "G w True w1" by (rule same)
    then show ?thesis unfolding createQuote_def bnd_Inl [where m = "create_edit e input act", OF r [unfolded Inl]] by simp
  next
    case (Inr b)
    then have g: "good_new U w w1 b" using wp r by (simp add: wp_def)
    then have refs: "line_refs w1 b" and cust: "qt_customerId (ag_quote b) \<in> cu_id ` set (w_customers w1)" and sc: "same_core w w1"
      by (auto simp: good_new_def line_refs_def same_core_def)
    obtain r' s w' where s: "bnd (saveAssessed e b (Some act)) ?k w1 = (Inr r', w')" "core s = core b" "same_core (put_quote s w1) w'"
      using save_total [OF refs cust k] .
    have "w_quotes w' = w_quotes (put_quote s w)" using same_core_quotes [OF s(3)] same_core_quotes [OF sc] by simp
    moreover have "quote_lookup w (qt_id (ag_quote s)) = None" using good_new_fresh [OF inj inv g] core_eqD(5) [OF s(2)] by simp
    ultimately have "G w False w'" using added by blast
    then show ?thesis unfolding createQuote_def bnd_Inr [where m = "create_edit e input act", OF r [unfolded Inr]] s(1) by simp
  qed
qed

lemma delete: "yields G U (deleteQuote e q act v)"
proof -
  have del: "yields_after G U a (bnd (store_deleteQuote q) k)" if k: "quiet (k ())" "returns (k ())" for a and k :: "unit \<Rightarrow> unit action"
    unfolding yields_after_def
  proof (intro allI impI)
    fix w
    obtain x w' where w': "k () (drop_quote q w) = (Inr x, w')" "same_core (drop_quote q w) w'" using quiet_returnsE [OF k] .
    have "bnd (store_deleteQuote q) k w = k () (drop_quote q w)" by (simp add: bnd_def store_deleteQuote_def modify_def drop_quote_def)
    then show "G w (threw (bnd (store_deleteQuote q) k w)) (snd (bnd (store_deleteQuote q) k w))"
      using dropped [OF same_core_quotes [OF w'(2)]] w'(1) by simp
  qed
  show ?thesis unfolding deleteQuote_def assertExpectedVersion_def
    by (intro guard loading) (intro quiet_intros, intro check del quiet_intros returns_intros)
qed

lemma assess: "yields G U (assess e q act)"
proof -
  have "yields_after G U a (bnd (refreshAssessment e a) (\<lambda>p. bnd (store_saveQuote (snd p)) (\<lambda>_. decorate e (snd p) (Some (fst p)) act True)))" for a
    unfolding yields_after_def
  proof (intro allI impI)
    fix w assume inv: "world_inv U w" and l: "loaded w a"
    obtain x d where xd: "assess_in e w a = Inr (x, d)" using assess_total [OF loaded_facts(2) [OF inv l]] .
    have c: "core d = core a" by (rule core_assess_in [OF xd])
    have "qt_customerId (ag_quote d) \<in> cu_id ` set (w_customers (put_quote d w))" using loaded_facts(3) [OF inv l] core_eqD(6) [OF c] by simp
    then obtain saved where sv: "attach (put_quote d w) d = Inr saved" using attach_total by blast
    have "quiet (decorate e d (Some x) act True)" "returns (decorate e d (Some x) act True)" by (intro quiet_intros) (intro returns_intros)
    then obtain r w' where w': "decorate e d (Some x) act True (put_quote d w) = (Inr r, w')" "same_core (put_quote d w) w'" by (rule quiet_returnsE)
    have "bnd (refreshAssessment e a) (\<lambda>p. bnd (store_saveQuote (snd p)) (\<lambda>_. decorate e (snd p) (Some (fst p)) act True)) w = (Inr r, w')"
      by (simp add: bnd_def refreshAssessment_def xd store_saveQuote_def sv w'(1))
    moreover have "G w False w'" using saved [OF l Q_refl c core_eqD(5) [OF c] same_core_quotes [OF w'(2)]] .
    ultimately show "G w (threw (bnd (refreshAssessment e a) (\<lambda>p. bnd (store_saveQuote (snd p)) (\<lambda>_. decorate e (snd p) (Some (fst p)) act True)) w))
       (snd (bnd (refreshAssessment e a) (\<lambda>p. bnd (store_saveQuote (snd p)) (\<lambda>_. decorate e (snd p) (Some (fst p)) act True)) w))" by simp
  qed
  then show ?thesis unfolding assess_def case_prod_beta' by (rule loading)
qed

end

section \<open>Edits that respect a relation\<close>

locale open_edits = outcome +
  assumes line_edits: "edit_obeys Q id (addLine_edit e input v act a) a" "edit_obeys Q id (removeLine_edit e l v act a) a"
      "edit_obeys Q id (applyRecommendation_edit e r act v a) a" "edit_obeys Q id (updateLine_edit e l patch v act a) a"
    and approval_edits: "edit_obeys Q id (void_edit act v a) a" "edit_obeys Q fst (submit_edit e act a) a" "edit_obeys Q id (decide_edit e i d s act a) a"
    and negotiation_edits: "edit_obeys Q id (startNegotiation_edit e act a) a" "edit_obeys Q id (createNegotiation_edit e n oact a) a"
      "edit_obeys Q id (sendToManager_edit e i' v a) a" "edit_obeys Q id (agree_edit e v a) a"
      "edit_obeys Q id (revise_edit e cs v act a) a" "edit_obeys Q id (return_edit e i' v a) a" "edit_obeys Q id (finalize_edit e v act a) a"
    and portal_edits: "edit_obeys Q id (portalChange_edit e cs v a) a" "edit_obeys Q (case_option a id) (portalDecision_edit e cd i' v a) a"
    and order_edits: "edit_obeys Q id (plan_edit e os v a) a" "edit_obeys Q id (billing_edit e v a) a" "edit_obeys Q id (cancelBilling_edit e i v a) a"
      "edit_obeys Q id (complete_edit v a) a"
begin

lemma line_handlers: "yields G U (addLine e q input v act)" "yields G U (updateLine e q l patch v act)" "yields G U (removeLine e q l v act)"
  "yields G U (applyRecommendation e q r act v)"
  unfolding addLine_def updateLine_def removeLine_def applyRecommendation_def
  by (intro loading plain_handler addLine_edit_ok updateLine_edit_ok removeLine_edit_ok applyRecommendation_edit_ok line_edits
      quiet_intros returns_intros)+

lemma negotiation_handlers: "yields G U (startNegotiation e q act)" "yields G U (createNegotiationRequest e q n oact)"
  "yields G U (sendNegotiationToManager e q on act v)" "yields G U (agreeToFinal e q v oact)"
  unfolding startNegotiation_def createNegotiationRequest_def sendNegotiationToManager_def agreeToFinal_def
  by (intro loading plain_handler startNegotiation_edit_ok createNegotiation_edit_ok sendToManager_edit_ok agree_edit_ok
      negotiation_edits quiet_intros returns_intros)+

lemma manager_handlers: "yields G U (reviseAsManager e q cs v act)" "yields G U (returnRevisedQuote e q on act v)"
  "yields G U (finalizeQuotation e q act v)" "yields G U (voidQuote e q act v)"
  unfolding reviseAsManager_def returnRevisedQuote_def finalizeQuotation_def voidQuote_def
  by (intro guard loading plain_handler revise_edit_ok return_edit_ok finalize_edit_ok void_edit_ok
      negotiation_edits approval_edits quiet_intros returns_intros)+

lemma order_handlers: "yields G U (service_planFulfillment e q os act v)" "yields G U (generateBilling e q act v)" "yields G U (cancelBilling e q s act v)"
  "yields G U (service_complete e q act v)" "yields G U (decide e q i d r act)" "yields G U (submit e q act)"
  unfolding service_planFulfillment_def generateBilling_def cancelBilling_def service_complete_def decide_def submit_def Let_def case_prod_beta'
  by (intro loading plain_handler handler plan_edit_ok billing_edit_ok cancelBilling_edit_ok complete_edit_ok
      decide_edit_ok submit_edit_ok approval_edits order_edits quiet_intros returns_intros)+

lemma portal_handlers: "yields G U (createPortalNegotiation e t input)" "yields G U (applyPortalChange e t cs v)" "yields G U (applyPortalDecision e t d c v)"
  unfolding createPortalNegotiation_def applyPortalChange_def applyPortalDecision_def
  by (intro token after_any negotiation_handlers plain_handler portalChange_edit_ok portal_edits
      guard edit [OF portalDecision_edit_ok] save_option quiet_intros returns_intros)+

lemma respond: "(\<And>a. edit_obeys Q id (respond_edit e n d note v act a) a) \<Longrightarrow> yields G U (respondToNegotiation e q n d note v act)"
  unfolding respondToNegotiation_def by (intro loading plain_handler respond_edit_ok quiet_intros returns_intros)

end

text \<open>The relations the lock respects too.\<close>

locale guarded_edits = open_edits +
  assumes confirm_edits: "edit_obeys Q fst (confirm_edit e act a) a"
begin

lemma confirm_handlers: "yields G U (service_confirm e q act v)" "yields G U (lockDeal e q act v)"
proof -
  show "yields G U (service_confirm e q act v)"
    unfolding service_confirm_def case_prod_beta' confirm_guard_def assertExpectedVersion_def
    by (intro loading branch handler check confirm_edit_ok confirm_edits quiet_after quiet_intros returns_intros)
  then show "yields G U (lockDeal e q act v)" by (simp add: lockDeal_def)
qed

end

text \<open>A request for the handler whose edit checks neither status nor lock.\<close>

fun responds :: "request \<Rightarrow> bool" where
  "responds (On_quotes (R_respond i n d note v act)) = True"
| "responds r = False"

text \<open>The requests for the finance lock.\<close>

fun locks :: "request \<Rightarrow> bool" where
  "locks (On_quotes (R_lock i act v)) = True"
| "locks (On_quotes (R_confirm i act v)) = True"
| "locks r = False"

lemma fst_run: "(fst (run m w) \<noteq> None) = threw (m w)"
  by (simp add: run_def threw_def split: prod.split sum.split)

lemma yields_run: "yields G U m \<Longrightarrow> world_inv U w \<Longrightarrow> G w (fst (run m w) \<noteq> None) (snd (run m w))"
  unfolding fst_run snd_run by (simp add: yields_def)

definition writes_no_quote :: "'a action \<Rightarrow> bool" where
  "writes_no_quote m \<longleftrightarrow> (\<forall>w. w_quotes (snd (m w)) = w_quotes w)"

lemma no_quote_rules: "growing m \<Longrightarrow> writes_no_quote m" "writes_no_quote n \<Longrightarrow> (\<And>x. writes_no_quote (f x)) \<Longrightarrow> writes_no_quote (bnd n f)"
  "writes_no_quote (store_deleteProduct i)" "writes_no_quote (store_deleteCustomer i)"
  by (auto simp: writes_no_quote_def growing_def keeps_def snd_bnd store_deleteProduct_def store_deleteCustomer_def modify_def split: sum.split)

lemma deletions_write_no_quote: "writes_no_quote (service_deleteProduct e i act)" "writes_no_quote (service_deleteCustomer e i act)"
proof -
  have q: "quiet m \<Longrightarrow> writes_no_quote m" for m :: "'a action" by (intro no_quote_rules growing_quiet)
  show "writes_no_quote (service_deleteProduct e i act)" "writes_no_quote (service_deleteCustomer e i act)"
    unfolding service_deleteProduct_def service_deleteCustomer_def
    by (intro no_quote_rules(2-4) | rule no_quote_rules(1), rule growing_quiet, intro quiet_intros)+
qed

lemma catalog_writes_no_quote: "w_quotes (snd (handle_catalog e r w)) = w_quotes w"
proof -
  note keep = deletions_write_no_quote quiet_customer_handlers [THEN growing_quiet, THEN no_quote_rules(1)]
    growing_upsertProduct_handler [THEN no_quote_rules(1)] growing_stock_handlers [THEN no_quote_rules(1)]
    growing_config_handlers [THEN no_quote_rules(1)] growing_catalog_handlers [THEN no_quote_rules(1)]
  have run: "writes_no_quote m \<Longrightarrow> w_quotes (snd (run m w)) = w_quotes w" for m :: "'a action" by (simp add: writes_no_quote_def)
  show ?thesis by (induct r) (unfold handle_catalog.simps snd_run, (rule keep [unfolded writes_no_quote_def, rule_format])+)
qed

context open_edits begin

lemma open_requests:
  assumes inj: "inj U" and e: "e_uuid e = U" and inv: "world_inv U w" and r: "\<not> responds r" "\<not> locks r" and h: "handle e r w = (out, w')"
  shows "G w (out \<noteq> None) w'"
proof (cases r)
  case (On_quotes q)
  note y = line_handlers negotiation_handlers manager_handlers order_handlers portal_handlers assess delete
    create [OF inj e] quiet_read_handlers [THEN quiet]
  have "\<not> responds (On_quotes q) \<Longrightarrow> \<not> locks (On_quotes q) \<Longrightarrow> G w (fst (handle_quote e q w) \<noteq> None) (snd (handle_quote e q w))"
    by (induct q) (unfold handle_quote.simps, ((rule yields_run [OF _ inv], rule y) | simp)+)
  then show ?thesis using r h On_quotes by simp
next
  case (On_catalog c)
  then have "w_quotes w' = w_quotes w" using catalog_writes_no_quote [of e c w] h by simp
  then show ?thesis by (rule same)
qed

lemma respond_request:
  assumes "\<And>e n d msg v act a. edit_obeys Q id (respond_edit e n d msg v act a) a" and "world_inv U w"
    and "responds r" "handle e r w = (out, w')"
  shows "G w (out \<noteq> None) w'"
proof -
  obtain i n d msg v act where r: "r = On_quotes (R_respond i n d msg v act)" using assms(3) by (cases r rule: responds.cases) simp_all
  show ?thesis using yields_run [OF respond [OF assms(1)] assms(2), of e i n d msg v act] assms(4) r by (simp del: snd_run)
qed

end

context guarded_edits begin

lemma requests:
  assumes "inj U" "e_uuid e = U" "world_inv U w" "handle e r w = (out, w')" "\<not> responds r"
  shows "G w (out \<noteq> None) w'"
proof (cases "locks r")
  case True
  then obtain i act v where "r = On_quotes (R_lock i act v) \<or> r = On_quotes (R_confirm i act v)" by (cases r rule: locks.cases) auto
  then show ?thesis
    using yields_run [OF confirm_handlers(1) assms(3), of e i act v] yields_run [OF confirm_handlers(2) assms(3), of e i act v] assms(4)
    by (auto simp del: snd_run)
qed (use open_requests assms in blast)

end

end
