(* ===== verification/Dealflow_Frozen.thy ===== *)
theory Dealflow_Frozen
  imports Dealflow_Outcome
begin

text \<open>
  Two uses of the locale \<open>guarded_edits\<close>. \<open>frozen\<close>: outside the statuses that allow a commercial change the
  lines of a quotation stay, and a rejected quotation stays rejected; every edit but that of
  \<open>respondToNegotiation\<close> respects it. \<open>atomic\<close>: a request that throws has written no quotation.
\<close>

section \<open>Frozen quotations\<close>

definition frozen :: "quote_aggregate \<Rightarrow> quote_aggregate \<Rightarrow> bool" where
  "frozen a b \<longleftrightarrow> (\<not> canMutateCommercials (status_of a) \<longrightarrow> ag_lines b = ag_lines a) \<and>
     (status_of a = Q_rejected \<longrightarrow> status_of b = Q_rejected)"

lemma wp_trivial: "(\<And>b w'. Q b w') \<Longrightarrow> wp m Q (\<lambda>_. True) w"
  by (simp add: wp_def split: prod.split sum.split)

lemma frozen_open: "status_of a \<in> {Q_draft, Q_customer_negotiation, Q_manager_review} \<Longrightarrow> frozen a b"
  by (auto simp: frozen_def canMutateCommercials_def)

lemma settle_frozen:
  assumes "canMutateCommercials (status_of a)" and "status_of b = status_of a"
  shows "wp (settle_mutation e b t act) (\<lambda>c _. frozen a c) (\<lambda>_. True) w"
proof (rule wp_mono [OF settle_wp [OF same_core_refl]])
  show "status_of b \<noteq> Q_approved" using assms by (auto simp: canMutateCommercials_def)
next
  fix c w' assume "same_core w w' \<and> (\<exists>new. core c = core (bumpVersion (b\<lparr>ag_revisions := ag_revisions b @ new\<rparr>)))"
  then obtain new where "core c = core (bumpVersion (b\<lparr>ag_revisions := ag_revisions b @ new\<rparr>))" by blast
  from core_readsD(1) [OF this] have "status_of c = status_of a" using assms(2) by simp
  then show "frozen a c" using assms(1) by (simp add: frozen_def)
qed simp

text \<open>Rules that forget what an action returned, except what its guard says.\<close>

lemma forget_bnd: "(\<And>x w'. wp (f x) Q (\<lambda>_. True) w') \<Longrightarrow> wp (bnd m f) Q (\<lambda>_. True) w"
  unfolding wp_bnd by (rule wp_trivial)

lemma keep_ensure: "(b \<Longrightarrow> wp (f ()) Q (\<lambda>_. True) w) \<Longrightarrow> wp (bnd (ensure b err) f) Q (\<lambda>_. True) w"
  by (simp add: wp_simps)

lemma keep_commercial:
  "(\<And>u. canMutateCommercials (status_of a) \<Longrightarrow> wp (f u) Q (\<lambda>_. True) w) \<Longrightarrow> wp (bnd (assertCommercialWrite e a act ds os) f) Q (\<lambda>_. True) w"
  using commercial_write_Ok(1) by (auto simp: wp_simps split: sum.split)

lemma keep_moveTo:
  "(\<And>b. b = set_status s a \<Longrightarrow> status_of a = Q_rejected \<Longrightarrow> s \<in> {Q_draft, Q_rejected} \<Longrightarrow> wp (f b) Q (\<lambda>_. True) w) \<Longrightarrow>
   (\<And>b. b = set_status s a \<Longrightarrow> status_of a \<noteq> Q_rejected \<Longrightarrow> wp (f b) Q (\<lambda>_. True) w) \<Longrightarrow>
   wp (bnd (moveTo s a) f) Q (\<lambda>_. True) w"
  by (cases "status_of a = Q_rejected") (auto simp: wp_simps)

lemma branch_option: "(x = None \<Longrightarrow> wp m Q E w) \<Longrightarrow> (\<And>y. x = Some y \<Longrightarrow> wp (f y) Q E w) \<Longrightarrow> wp (case x of None \<Rightarrow> m | Some y \<Rightarrow> f y) Q E w"
  by (cases x) simp_all

lemma branch_throw: "wp (throw err) Q (\<lambda>_. True) w"
  by (simp add: wp_simps)

lemma keep_lines:
  "(\<And>c. ag_lines c = ag_lines b \<Longrightarrow> wp (f c) Q (\<lambda>_. True) w) \<Longrightarrow> wp (bnd (moveTo s b) f) Q (\<lambda>_. True) w"
  "(\<And>c. ag_lines c = ag_lines b \<Longrightarrow> wp (f c) Q (\<lambda>_. True) w) \<Longrightarrow> wp (bnd (if p then moveTo s b else ret b) f) Q (\<lambda>_. True) w"
  by (simp_all add: wp_simps)

lemma keep_assess:
  "(\<And>x c. core c = core b \<Longrightarrow> wp (f (x, c)) Q (\<lambda>_. True) w) \<Longrightarrow> wp (bnd (refreshAssessment e b) f) Q (\<lambda>_. True) w"
  using core_assess_in by (auto simp: wp_simps split: sum.split)

lemmas forget_rules = keep_ensure keep_commercial branch_option branch_throw forget_bnd

lemma line_edits_frozen:
  "edit_obeys frozen id (addLine_edit e input v act a) a" "edit_obeys frozen id (removeLine_edit e l v act a) a"
  "edit_obeys frozen id (applyRecommendation_edit e r act v a) a" "edit_obeys frozen id (updateLine_edit e l patch v act a) a"
  unfolding edit_obeys_def addLine_edit_def removeLine_edit_def applyRecommendation_edit_def updateLine_edit_def
    assertExpectedVersion_def Let_def id_apply
  by (intro allI forget_rules settle_frozen; simp add: set_line_def)+

lemma open_edits_frozen:
  "edit_obeys frozen id (createNegotiation_edit e input oact a) a" "edit_obeys frozen id (sendToManager_edit e n v a) a"
  "edit_obeys frozen id (revise_edit e cs v act a) a" "edit_obeys frozen id (return_edit e n v a) a"
  "edit_obeys frozen id (finalize_edit e v act a) a" "edit_obeys frozen id (portalChange_edit e cs v a) a"
  "edit_obeys frozen (case_option a id) (portalDecision_edit e d c v a) a"
  unfolding edit_obeys_def createNegotiation_edit_def sendToManager_edit_def revise_edit_def return_edit_def finalize_edit_def
    portalChange_edit_def portalDecision_edit_def assertExpectedVersion_def
  by ((rule allI, (rule keep_ensure | rule forget_bnd)+, rule wp_trivial, rule frozen_open, blast))+

lemma frozenI: "ag_lines b = ag_lines a \<Longrightarrow> status_of a \<noteq> Q_rejected \<Longrightarrow> frozen a b"
  by (simp add: frozen_def)

lemma wp_audit: "wp (audit e act x r i s) Q (\<lambda>_. True) w = Q () (snd (audit e act x r i s w))"
  using returnsD [OF returns_logs(2), of e act x r i s w] by (auto simp: wp_def)

lemma approval_edits_frozen:
  "edit_obeys frozen id (startNegotiation_edit e act a) a" "edit_obeys frozen id (void_edit act v a) a"
  "edit_obeys frozen id (decide_edit e i d r act a) a" "edit_obeys frozen fst (submit_edit e act a) a"
proof -
  show "edit_obeys frozen id (startNegotiation_edit e act a) a" "edit_obeys frozen id (void_edit act v a) a"
    by (auto simp: edit_obeys_def startNegotiation_edit_def void_edit_def wp_simps frozen_def canVoidQuote_def split: option.split)
  show "edit_obeys frozen id (decide_edit e i d r act a) a"
    by (auto simp: edit_obeys_def decide_edit_def wp_simps frozen_def Let_def wp_audit split: sum.split)
  have "frozen a (set_status s (bumpVersion (b\<lparr>ag_approvals := xs\<rparr>)))" if "assess_in e w a = Inr (x, b)" "status_of a = Q_finalized" for w x b s xs
    using core_readsD(3) [OF core_assess_in [OF that(1)]] that(2) by (simp add: frozen_def)
  then show "edit_obeys frozen fst (submit_edit e act a) a"
    by (auto simp: edit_obeys_def submit_edit_def wp_simps Let_def split: sum.split)
qed

lemma set_status_frame [simp]: "ag_lines (lock_fields e act a) = ag_lines a" "status_of (lock_fields e act a) = status_of a"
  by (simp_all add: lock_fields_def)

lemma order_edits_frozen:
  "edit_obeys frozen id (plan_edit e os v a) a" "edit_obeys frozen id (billing_edit e v a) a"
  "edit_obeys frozen id (cancelBilling_edit e s v a) a" "edit_obeys frozen id (complete_edit v a) a" "edit_obeys frozen id (agree_edit e v a) a"
proof -
  show "edit_obeys frozen id (plan_edit e os v a) a"
    unfolding edit_obeys_def plan_edit_def assertExpectedVersion_def Let_def
    by (intro allI keep_ensure keep_lines forget_bnd)+ (auto simp: wp_simps isOpenForPlanning_def intro!: frozenI)
  show "edit_obeys frozen id (billing_edit e v a) a"
    by (auto simp: edit_obeys_def billing_edit_def wp_simps frozen_def Let_def isOpenForBilling_def isOpenForPlanning_def split: sum.split)
  show "edit_obeys frozen id (cancelBilling_edit e s v a) a"
    by (auto simp: edit_obeys_def cancelBilling_edit_def wp_simps frozen_def Let_def split: sum.split option.split)
  show "edit_obeys frozen id (complete_edit v a) a"
    by (auto simp: edit_obeys_def complete_edit_def wp_simps frozen_def Let_def split: sum.split)
  show "edit_obeys frozen id (agree_edit e v a) a"
    by (auto simp: edit_obeys_def agree_edit_def wp_simps frozen_def Let_def record_decision_def set_activeNegotiation_def split: sum.split option.split)
qed

lemma confirm_edit_frozen: "edit_obeys frozen fst (confirm_edit e act a) a"
proof -
  have "wp (sync_odoo e act b) (\<lambda>c _. frozen a c) (\<lambda>_. True) w" if "ag_lines b = ag_lines a" "status_of a = Q_approved" for b w
    using that by (auto simp: sync_odoo_def wp_simps frozen_def wp_audit split: sum.split option.split)
  then have "wp (bnd (sync_odoo e act b) (\<lambda>c. ret (c, x))) (\<lambda>c _. frozen a (fst c)) (\<lambda>_. True) w"
    if "ag_lines b = ag_lines a" "status_of a = Q_approved" for b x w
    using that by (simp add: wp_simps)
  note sync = this
  show ?thesis
    unfolding edit_obeys_def confirm_edit_def Let_def
  proof (intro allI keep_ensure keep_assess, unfold prod.case, intro keep_ensure keep_lines sync forget_bnd)
    fix w and x :: quote_assessment and c d f g :: quote_aggregate
    assume h: "core c = core a" "ag_lines d = ag_lines c" "ag_lines f = ag_lines (lock_fields e act d)" "ag_lines g = ag_lines f"
    have "ag_lines c = ag_lines a" using core_readsD(3) [OF h(1)] .
    then show "ag_lines (bumpVersion g) = ag_lines a" using h(2-4) by simp
  qed
qed

section \<open>Interpretations\<close>

lemma frozen_core:
  assumes "core a = core a'" "core b = core b'" shows "frozen a b = frozen a' b'"
  unfolding frozen_def using core_readsD(1,3) [OF assms(1)] core_readsD(1,3) [OF assms(2)] by simp

definition related :: "(quote_aggregate \<Rightarrow> quote_aggregate \<Rightarrow> bool) \<Rightarrow> world \<Rightarrow> world \<Rightarrow> bool" where
  "related P w w' \<longleftrightarrow> (\<forall>i a b. quote_lookup w i = Some a \<longrightarrow> quote_lookup w' i = Some b \<longrightarrow> P a b)"

lemma lookup_quotes: "w_quotes w = w_quotes w' \<Longrightarrow> quote_lookup w = quote_lookup w'"
  by (simp add: quote_lookup_def fun_eq_iff)

text \<open>A reflexive relation that reads the core only is an outcome of the locale.\<close>

lemma related_outcome:
  assumes refl: "\<And>a. P a a" and core_resp: "\<And>a a' b b'. core a = core a' \<Longrightarrow> core b = core b' \<Longrightarrow> P a b = P a' b'"
  shows "outcome (\<lambda>w _ w'. related P w w') P"
proof
  show "P a a" for a by (rule refl)
  show "related P w w'" if "w_quotes w' = w_quotes w" for w w' :: world
    using lookup_quotes [OF that] by (simp add: related_def refl)
  show "related P w w'" if "w_quotes w1 = w_quotes w" "related P w1 w'" for w w1 w' :: world
    using lookup_quotes [OF that(1)] that(2) by (simp add: related_def)
  show "related P w w'" if l: "loaded w a" and q: "P a b" and s: "core s = core b" and id: "qt_id (ag_quote s) = qt_id (ag_quote a)"
    and w': "w_quotes w' = w_quotes (put_quote s w)" for w w' :: world and a b s
    unfolding related_def
  proof (intro allI impI)
    fix i x y assume x: "quote_lookup w i = Some x" and y: "quote_lookup w' i = Some y"
    show "P x y"
    proof (cases "i = qt_id (ag_quote s)")
      case True
      then have "core x = core a" "core y = core b" using l x y id s lookup_quotes [OF w'] by (auto simp: loaded_def lookup_put)
      then show ?thesis using q core_resp by blast
    next
      case False
      then show ?thesis using x y lookup_quotes [OF w'] by (simp add: lookup_put refl)
    qed
  qed
  show "related P w w'" if "quote_lookup w (qt_id (ag_quote s)) = None" "w_quotes w' = w_quotes (put_quote s w)" for w w' :: world and s
    using that(1) lookup_quotes [OF that(2)] by (auto simp: related_def lookup_put refl)
  show "related P w w'" if "w_quotes w' = w_quotes (drop_quote i w)" for w w' :: world and i
    using lookup_quotes [OF that] quotes.get_del [of i w] by (auto simp: related_def refl split: if_splits)
qed

interpretation freeze: guarded_edits "\<lambda>w _ w'. related frozen w w'" frozen
  by (intro guarded_edits.intro open_edits.intro related_outcome frozen_core open_edits_axioms.intro guarded_edits_axioms.intro
      line_edits_frozen open_edits_frozen approval_edits_frozen order_edits_frozen confirm_edit_frozen)
    (simp_all add: frozen_def)

interpretation atomic: guarded_edits "\<lambda>w failed w'. failed \<longrightarrow> w_quotes w' = w_quotes w" "\<lambda>_ _. True"
  by unfold_locales (simp_all add: edit_obeys_def wp_trivial)

end
