(* ===== verification/Dealflow_Versions.thy ===== *)
theory Dealflow_Versions
  imports Dealflow_System
begin

text \<open>
  Optimistic concurrency: a request that names the version it was prepared for. \<open>expected\<close> and
  \<open>expected_by_token\<close> read the quotation and the version a request names, \<open>refuses m w\<close> says that the
  action \<open>m\<close> throws in \<open>w\<close> and writes nothing at all.
\<close>

definition expected :: "quote_request \<Rightarrow> (string \<times> int) option" where
  "expected r = (case r of
     R_deleteQuote i _ v \<Rightarrow> Some (i, v) | R_voidQuote i _ v \<Rightarrow> Some (i, v) | R_addLine i _ v _ \<Rightarrow> Some (i, v)
   | R_updateLine i _ _ v _ \<Rightarrow> Some (i, v) | R_removeLine i _ v _ \<Rightarrow> Some (i, v) | R_respond i _ _ _ v _ \<Rightarrow> Some (i, v)
   | R_sendToManager i _ _ v \<Rightarrow> Some (i, v) | R_revise i _ v _ \<Rightarrow> Some (i, v) | R_return i _ _ v \<Rightarrow> Some (i, v)
   | R_agree i v _ \<Rightarrow> Some (i, v) | R_finalize i _ v \<Rightarrow> Some (i, v) | R_applyRecommendation i _ _ v \<Rightarrow> Some (i, v)
   | R_plan i _ _ v \<Rightarrow> Some (i, v) | R_billing i _ v \<Rightarrow> Some (i, v) | R_cancelBilling i _ _ v \<Rightarrow> Some (i, v)
   | R_confirm i _ v \<Rightarrow> Some (i, v) | R_lock i _ v \<Rightarrow> Some (i, v) | R_complete i _ v \<Rightarrow> Some (i, v)
   | R_createNegotiation i input _ \<Rightarrow> map_option (Pair i) (ni_expectedVersion input)
   | _ \<Rightarrow> None)"

definition expected_by_token :: "quote_request \<Rightarrow> (string \<times> int) option" where
  "expected_by_token r = (case r of R_portalChange t _ v \<Rightarrow> Some (t, v) | R_portalDecision t _ _ v \<Rightarrow> Some (t, v) | _ \<Rightarrow> None)"

definition refuses :: "'a action \<Rightarrow> world \<Rightarrow> bool" where
  "refuses m w \<longleftrightarrow> (\<exists>err. m w = (Inl err, w))"

named_theorems refuses_intros \<open>how a refusal propagates through a handler\<close>

lemma refuses_bnd [refuses_intros]: "refuses m w \<Longrightarrow> refuses (bnd m k) w"
  by (auto simp: refuses_def bnd_def)

lemma refuses_ensure: "(b \<Longrightarrow> refuses (k ()) w) \<Longrightarrow> refuses (bnd (ensure b err) k) w"
  by (cases b) (auto simp: refuses_def bnd_def ensure_def ret_def throw_def)

lemma refuses_manager: "refuses (k ()) w \<Longrightarrow> refuses (bnd (assertManagerActor a) k) w"
  unfolding assertManagerActor_def by (rule refuses_ensure)

lemma refuses_version: "qt_version (ag_quote a) \<noteq> v \<Longrightarrow> refuses (bnd (assertExpectedVersion a v) k) w"
  by (simp add: refuses_def bnd_def assertExpectedVersion_def ensure_def throw_def)

lemma attach_version: "attach w a = Inr b \<Longrightarrow> qt_version (ag_quote b) = qt_version (ag_quote a)"
  using core_attach core_eqD(8) by metis

lemma refuses_load:
  assumes "\<And>a. quote_lookup w i = Some a \<Longrightarrow> qt_version (ag_quote a) \<noteq> v" and "\<And>b. qt_version (ag_quote b) \<noteq> v \<Longrightarrow> refuses (k b) w"
  shows "refuses (bnd (load i) k) w"
proof (cases "quote_lookup w i")
  case None
  then show ?thesis by (simp add: refuses_def bnd_def load_def store_getQuote_def attach_opt_def throw_def)
next
  case (Some a)
  show ?thesis
  proof (cases "attach w a")
    case (Inl err)
    then show ?thesis using Some by (simp add: refuses_def bnd_def load_def store_getQuote_def attach_opt_def)
  next
    case (Inr b)
    then have "refuses (k b) w" using assms Some attach_version by metis
    then show ?thesis using Some Inr by (simp add: refuses_def bnd_def load_def store_getQuote_def attach_opt_def ret_def)
  qed
qed

lemma refuses_token:
  assumes "\<And>i a. (i, a) \<in> set (w_quotes w) \<Longrightarrow> qt_portalToken (ag_quote a) = t \<Longrightarrow> qt_version (ag_quote a) \<noteq> v"
    and "\<And>b. qt_version (ag_quote b) \<noteq> v \<Longrightarrow> refuses (k b) w"
  shows "refuses (bnd (load_by_token t) k) w"
proof (cases "find (\<lambda>a. qt_portalToken (ag_quote a) = t) (map snd (w_quotes w))")
  case None
  then show ?thesis by (simp add: refuses_def bnd_def load_by_token_def store_getQuoteByToken_def attach_opt_def throw_def)
next
  case (Some a)
  then have a: "a \<in> set (map snd (w_quotes w))" "qt_portalToken (ag_quote a) = t" using find_SomeD by fast+
  show ?thesis
  proof (cases "attach w a")
    case (Inl err)
    then show ?thesis using Some by (simp add: refuses_def bnd_def load_by_token_def store_getQuoteByToken_def attach_opt_def)
  next
    case (Inr b)
    obtain i where "(i, a) \<in> set (w_quotes w)" using a(1) by auto
    then have "qt_version (ag_quote a) \<noteq> v" using assms(1) a(2) by blast
    then have "refuses (k b) w" using assms(2) attach_version [OF Inr] by simp
    then show ?thesis using Some Inr by (simp add: refuses_def bnd_def load_by_token_def store_getQuoteByToken_def attach_opt_def ret_def)
  qed
qed

lemma refuses_edits:
  assumes "qt_version (ag_quote a) \<noteq> v"
  shows "refuses (void_edit act v a) w" "refuses (addLine_edit e input v act a) w" "refuses (updateLine_edit e l patch v act a) w"
    "refuses (removeLine_edit e l v act a) w" "refuses (respond_edit e n d txt v act a) w" "refuses (sendToManager_edit e ni v a) w"
    "refuses (revise_edit e cs v act a) w" "refuses (return_edit e ni v a) w" "refuses (agree_edit e v a) w" "refuses (finalize_edit e v act a) w"
    "refuses (applyRecommendation_edit e r act v a) w" "refuses (plan_edit e os v a) w" "refuses (billing_edit e v a) w"
    "refuses (cancelBilling_edit e s v a) w" "refuses (confirm_guard act v a) w" "refuses (complete_edit v a) w"
    "refuses (portalChange_edit e cs v a) w" "refuses (portalDecision_edit e cd c v a) w"
    "ni_expectedVersion input' = Some v \<Longrightarrow> refuses (createNegotiation_edit e input' oact a) w"
  unfolding void_edit_def addLine_edit_def updateLine_edit_def removeLine_edit_def respond_edit_def sendToManager_edit_def revise_edit_def
    return_edit_def agree_edit_def finalize_edit_def applyRecommendation_edit_def plan_edit_def billing_edit_def cancelBilling_edit_def
    confirm_guard_def complete_edit_def portalChange_edit_def portalDecision_edit_def createNegotiation_edit_def
  using refuses_version [OF assms] by (simp_all only: option.case)

lemma refuses_run: "refuses m w \<Longrightarrow> \<exists>err. run m w = (Some err, w)"
  by (auto simp: refuses_def run_def)

lemma stale_requests:
  assumes "expected r = Some (i, v)" and stale: "\<And>a. quote_lookup w i = Some a \<Longrightarrow> qt_version (ag_quote a) \<noteq> v"
  shows "\<exists>err. handle_quote e r w = (Some err, w)"
proof -
  note handlers = deleteQuote_def voidQuote_def addLine_def updateLine_def removeLine_def respondToNegotiation_def
    sendNegotiationToManager_def reviseAsManager_def returnRevisedQuote_def agreeToFinal_def finalizeQuotation_def applyRecommendation_def
    service_planFulfillment_def generateBilling_def cancelBilling_def lockDeal_def service_confirm_def service_complete_def createNegotiationRequest_def
  have load: "refuses (bnd (load i) k) w" if "\<And>b. qt_version (ag_quote b) \<noteq> v \<Longrightarrow> refuses (k b) w" for k :: "quote_aggregate \<Rightarrow> 'z action"
    using stale that by (rule refuses_load)
  show ?thesis using assms(1)
    by (induct r; simp add: expected_def; (elim conjE)?; (erule exE)?; hypsubst?)
       (unfold handlers, (intro refuses_run refuses_ensure refuses_manager load refuses_bnd refuses_edits refuses_version; assumption?)+)
qed

lemma stale_portal_requests:
  assumes "expected_by_token r = Some (t, v)"
    and stale: "\<And>i a. (i, a) \<in> set (w_quotes w) \<Longrightarrow> qt_portalToken (ag_quote a) = t \<Longrightarrow> qt_version (ag_quote a) \<noteq> v"
  shows "\<exists>err. handle_quote e r w = (Some err, w)"
proof -
  have load: "refuses (bnd (load_by_token t) k) w" if "\<And>b. qt_version (ag_quote b) \<noteq> v \<Longrightarrow> refuses (k b) w" for k :: "quote_aggregate \<Rightarrow> portal_view action"
    using stale that by (rule refuses_token)
  show ?thesis using assms(1)
    by (induct r; simp add: expected_by_token_def; (elim conjE)?; hypsubst?)
       (unfold applyPortalChange_def applyPortalDecision_def, (intro refuses_run refuses_ensure load refuses_bnd refuses_edits; assumption?)+)
qed

end
