(* ===== verification/Dealflow_StockFrame.thy ===== *)
theory Dealflow_StockFrame
  imports Dealflow_Liveness
begin

text \<open>
  Which quotation requests write the stock table: \<open>stock_kept m\<close> says that the action \<open>m\<close> leaves it, one
  rule per action. Every handler but \<open>planFulfillment\<close> and \<open>confirm\<close> is built from such actions; \<open>confirm\<close>
  would write it for a quotation that holds allocations, which no uncommitted quotation does.
\<close>

definition stock_kept :: "'a action \<Rightarrow> bool" where
  "stock_kept m \<longleftrightarrow> (\<forall>w. w_stock (snd (m w)) = w_stock w)"

named_theorems stock_intros \<open>actions that leave the stock table\<close>

lemma stock_basic [stock_intros]: "stock_kept (ret x)" "stock_kept (throw y)" "stock_kept (gets f)" "stock_kept (lift r)" "stock_kept (ensure b y)"
  "stock_kept (randomUUID e)" "stock_kept (drawing e g u)"
  by (simp_all add: stock_kept_def ret_def throw_def gets_def lift_def ensure_def randomUUID_def drawing_def split: sum.split)

lemma stock_bnd [stock_intros]: "stock_kept m \<Longrightarrow> (\<And>x. stock_kept (f x)) \<Longrightarrow> stock_kept (bnd m f)"
  by (simp add: stock_kept_def snd_bnd split: sum.split)

lemma stock_branches [stock_intros]:
  "stock_kept m \<Longrightarrow> stock_kept n \<Longrightarrow> stock_kept (if b then m else n)" "stock_kept l \<Longrightarrow> stock_kept (unless b l)"
  "stock_kept m \<Longrightarrow> (\<And>y. stock_kept (g y)) \<Longrightarrow> stock_kept (case o' of None \<Rightarrow> m | Some y \<Rightarrow> g y)"
  "(\<And>y. stock_kept (h y)) \<Longrightarrow> (\<And>z. stock_kept (k z)) \<Longrightarrow> stock_kept (case s of Inl y \<Rightarrow> h y | Inr z \<Rightarrow> k z)"
  "(\<And>y z. stock_kept (p y z)) \<Longrightarrow> stock_kept (case q of (y, z) \<Rightarrow> p y z)"
  by (simp_all add: unless_def stock_basic split: option.split sum.split prod.split)

lemma stock_each [stock_intros]: "(\<And>x. stock_kept (f x)) \<Longrightarrow> stock_kept (each f xs)"
  by (induction xs) (auto intro: stock_intros)

lemma stock_store [stock_intros]:
  "stock_kept (log_event ev)" "stock_kept (store_upsertAnomaly x)" "stock_kept (store_saveNegotiation n)" "stock_kept (store_saveQuoteEmail m)"
  "stock_kept (store_upsertCustomer e input)" "stock_kept (store_deleteQuote i)" "stock_kept store_nextQuoteNumber" "stock_kept (store_newPortalToken e)"
  "stock_kept (refreshAssessment e a)" "stock_kept (assertCommercialWrite e a act ds os)" "stock_kept (store_saveQuote a)"
  "stock_kept (store_getQuote i)" "stock_kept (store_getQuoteByToken t)" "stock_kept store_listQuoteSummaries"
  by (simp_all add: stock_kept_def log_event_def modify_def store_upsertAnomaly_def store_saveNegotiation_def store_saveQuoteEmail_def bnd_def ret_def
      store_upsertCustomer_def Let_def store_deleteQuote_def store_nextQuoteNumber_def store_newPortalToken_def refreshAssessment_def
      assertCommercialWrite_def store_saveQuote_def put_quote_def store_getQuote_def store_getQuoteByToken_def store_listQuoteSummaries_def
      split: option.split)

lemma stock_reads [stock_intros]:
  "stock_kept (store_getCustomer i)" "stock_kept (store_getProduct i)" "stock_kept (store_getNegotiation i)" "stock_kept (store_listNegotiations i)"
  "stock_kept (store_listQuoteEmails i)" "stock_kept (store_findQuoteEmailByKey k)" "stock_kept (store_countWonPurchases i)"
  by (simp_all add: store_getCustomer_def store_getProduct_def store_getNegotiation_def store_listNegotiations_def store_listQuoteEmails_def
      store_findQuoteEmailByKey_def store_countWonPurchases_def stock_basic)

lemma stock_events [stock_intros]: "stock_kept (audit e a x r i s)" "stock_kept (notify e u t)" "stock_kept (publish e t q)"
  unfolding audit_def notify_def publish_def by (intro stock_intros)+

lemma stock_service [stock_intros]:
  "stock_kept (load i)" "stock_kept (load_by_token t)" "stock_kept (decorate e a x act b)" "stock_kept (dispatchCustomerQuoteEmail e a ev act)"
  "stock_kept (persistAnomalies e a x act)" "stock_kept (moveTo s a)" "stock_kept (assertExpectedVersion a v)" "stock_kept (assertManagerActor u)"
  "stock_kept (own_negotiation i n)" "stock_kept (toLine e i input bs)" "stock_kept (appendRevision e a act m)" "stock_kept (mark_active_revised e a)"
  "stock_kept (sync_odoo e u a)"
  unfolding load_def load_by_token_def decorate_def sync_tier_def dispatchCustomerQuoteEmail_def open_delivery_def deliver_def persistAnomalies_def
    persist_anomaly_def moveTo_def assertExpectedVersion_def assertManagerActor_def own_negotiation_def toLine_def appendRevision_def
    mark_active_revised_def sync_odoo_def Let_def
  by (intro stock_intros)+

lemma stock_saveAssessed [stock_intros]: "stock_kept (saveAssessed e a act)"
  unfolding saveAssessed_def by (intro stock_intros)

lemma stock_settle [stock_intros]: "stock_kept (settle_mutation e a b act)"
  unfolding settle_mutation_def maybeReapprove_def reapprove_def finishMutation_def by (intro stock_intros)

lemma stock_to_lines [stock_intros]: "stock_kept (to_lines e i bs xs)"
  by (induction xs) (auto intro: stock_intros)

lemma stock_decorate_all [stock_intros]: "stock_kept (decorate_all e as)"
  by (induction as) (auto intro: stock_intros)

lemma stock_accept_lines [stock_intros]: "stock_kept (accept_lines e u a rs)"
proof (induction rs arbitrary: a)
  case (Cons r rs)
  have "stock_kept (accept_line e u a r)" unfolding accept_line_def Let_def by (intro stock_intros)
  then show ?case unfolding accept_lines.simps by (intro stock_bnd Cons.IH)
qed (simp add: stock_basic)

lemma stock_edits [stock_intros]:
  "stock_kept (create_edit e input act)" "stock_kept (void_edit act v a)" "stock_kept (addLine_edit e li v act a)" "stock_kept (updateLine_edit e l patch v act a)"
  "stock_kept (removeLine_edit e l v act a)" "stock_kept (submit_edit e act a)" "stock_kept (decide_edit e i d r act a)"
  "stock_kept (startNegotiation_edit e act a)" "stock_kept (createNegotiation_edit e ni oact a)" "stock_kept (respond_edit e n dd txt v act a)"
  "stock_kept (sendToManager_edit e on v a)" "stock_kept (revise_edit e cs v act a)" "stock_kept (return_edit e on v a)" "stock_kept (agree_edit e v a)"
  "stock_kept (finalize_edit e v act a)" "stock_kept (portalChange_edit e cs v a)" "stock_kept (portalDecision_edit e cd c v a)"
  "stock_kept (applyRecommendation_edit e r act v a)" "stock_kept (billing_edit e v a)" "stock_kept (cancelBilling_edit e s v a)" "stock_kept (complete_edit v a)"
  unfolding create_edit_def void_edit_def addLine_edit_def updateLine_edit_def reprice_line_def removeLine_edit_def submit_edit_def decide_edit_def
    startNegotiation_edit_def createNegotiation_edit_def respond_edit_def sendToManager_edit_def revise_edit_def return_edit_def agree_edit_def
    finalize_edit_def portalChange_edit_def portalDecision_edit_def applyRecommendation_edit_def billing_edit_def cancelBilling_edit_def
    complete_edit_def Let_def
  by (intro stock_intros)+

section \<open>Locking\<close>

lemma stock_refresh:
  "(\<And>x c. core c = core a \<Longrightarrow> stock_kept (k (x, c))) \<Longrightarrow> stock_kept (bnd (refreshAssessment e a) k)"
  using core_assess_in by (fastforce simp: stock_kept_def snd_bnd refreshAssessment_def split: sum.split)

lemma stock_confirm_edit:
  assumes "ag_allocations a = []" shows "stock_kept (confirm_edit e act a)"
proof -
  have "consume_allocations c = ret ()" if "core c = core a" for c
    using core_readsD(6) [OF that] assms by (simp add: consume_allocations_def)
  then show ?thesis unfolding confirm_edit_def Let_def
    by (intro stock_bnd stock_basic(5) stock_refresh, unfold prod.case) (intro stock_bnd, auto intro!: stock_intros)
qed

definition stock_after :: "(nat \<Rightarrow> string) \<Rightarrow> 'a action \<Rightarrow> bool" where
  "stock_after U m \<longleftrightarrow> (\<forall>w. world_inv U w \<longrightarrow> w_stock (snd (m w)) = w_stock w)"

lemma stock_confirm: "stock_after U (service_confirm e i act v)"
proof -
  have k: "stock_kept (bnd (confirm_guard act v b) (\<lambda>_.
     if qt_financeLockedAt (ag_quote b) \<noteq> None
     then bnd (dispatchCustomerQuoteEmail e b E_final_invoice (Some act)) (\<lambda>_.
          bnd (refreshAssessment e b) (\<lambda>(x, a). decorate e a (Some x) (Some act) True))
     else
       bnd (confirm_edit e act b) (\<lambda>(a, x).
       bnd (saveAssessed e a (Some act)) (\<lambda>(saved, _).
       bnd (audit e (Some act) ''quote.confirmed'' ''quote'' i ''success'') (\<lambda>_.
       bnd (dispatchCustomerQuoteEmail e saved E_final_invoice (Some act)) (\<lambda>_.
       decorate e saved (Some x) (Some act) True))))))" if inv: "quote_inv b" for b
  proof (cases "qt_financeLockedAt (ag_quote b)")
    case None
    then have "ag_allocations b = []" using uncommitted_empty(2) [OF inv] quote_invD(3) [OF inv] by blast
    from stock_confirm_edit [OF this] show ?thesis unfolding None confirm_guard_def by (simp add: stock_intros split_def)
  next
    case (Some t)
    then show ?thesis unfolding confirm_guard_def by (simp add: stock_intros split_def)
  qed
  show ?thesis unfolding stock_after_def
  proof (intro allI impI)
    fix w assume inv: "world_inv U w"
    obtain r w1 where r: "load i w = (r, w1)" by (cases "load i w")
    have "w1 = w" by (rule load_loaded(1) [OF inv r])
    moreover have "quote_inv a" if "r = Inr a" for a using loaded_facts(1) [OF inv load_loaded(2) [OF inv r that]] .
    ultimately show "w_stock (snd (service_confirm e i act v w)) = w_stock w"
      using r k by (cases r) (simp_all add: service_confirm_def snd_bnd [of "load i"] stock_kept_def)
  qed
qed

text \<open>The requests that plan from the stock table.\<close>

fun plans :: "quote_request \<Rightarrow> bool" where
  "plans (R_plan i os act v) = True"
| "plans r = False"

lemma stock_quote_requests:
  assumes inv: "world_inv U w" and r: "\<not> plans r"
  shows "w_stock (snd (handle_quote e r w)) = w_stock w"
proof -
  have run: "stock_kept m \<Longrightarrow> w_stock (snd (run m w)) = w_stock w" for m :: "'z action" by (simp add: stock_kept_def)
  note handlers = getQuote_def listQuotes_def getQuoteByToken_def createQuote_def deleteQuote_def voidQuote_def addLine_def updateLine_def
    removeLine_def assess_def submit_def decide_def startNegotiation_def createNegotiationRequest_def respondToNegotiation_def
    sendNegotiationToManager_def reviseAsManager_def returnRevisedQuote_def agreeToFinal_def finalizeQuotation_def createPortalNegotiation_def
    applyPortalChange_def applyPortalDecision_def recommendations_def applyRecommendation_def generateBilling_def cancelBilling_def
    service_complete_def disposeAnomaly_def contactVendor_def
  have confirm: "w_stock (snd (run (service_confirm e i act v) w)) = w_stock w" for i act v
    using stock_confirm inv by (simp add: stock_after_def)
  show ?thesis using r
    by (induct r) (unfold handle_quote.simps lockDeal_def handlers Let_def, (rule confirm | (rule notE, assumption, simp; fail) | (rule run, intro stock_intros))+)
qed

section \<open>No quotation request takes stock from a warehouse\<close>

text \<open>The quantity on hand of each row. A plan moves only what is reserved.\<close>

definition on_hand :: "stock_level list \<Rightarrow> (string \<times> string \<times> js_number) list" where
  "on_hand stock = map (\<lambda>r. (st_warehouseId r, st_productId r, st_quantityOnHand r)) stock"

lemma on_hand_update: "(\<And>r. on_hand [f r] = on_hand [r]) \<Longrightarrow> on_hand (update_first P f stock) = on_hand stock"
  by (induction stock) (auto simp: on_hand_def)

lemma on_hand_mutate: "mutate pbl x d stock = Ok stock' \<Longrightarrow> on_hand stock' = on_hand stock"
  by (auto simp: mutate_def set_reserved_def Let_def on_hand_def on_hand_update [unfolded on_hand_def] split: if_splits option.splits)

lemma on_hand_release: "release_previous pbl xs stock = Ok stock' \<Longrightarrow> on_hand stock' = on_hand stock"
  by (induction xs arbitrary: stock) (auto simp: on_hand_mutate split: sum.splits)

lemma on_hand_reserve_one: "reserve_one pbl x stock = Ok stock' \<Longrightarrow> on_hand stock' = on_hand stock"
  by (auto simp: reserve_one_def Let_def on_hand_mutate split: sum.splits option.splits if_splits)

lemma on_hand_reserve: "reserve_next pbl xs stock = Ok stock' \<Longrightarrow> on_hand stock' = on_hand stock"
  by (induction xs arbitrary: stock) (auto simp: on_hand_reserve_one split: sum.splits)

lemma on_hand_reserveStock: "reserveStock stock pbl xs ys = Ok stock' \<Longrightarrow> on_hand stock' = on_hand stock"
  by (auto simp: reserveStock_def on_hand_release on_hand_reserve split: sum.splits)

definition hand_kept :: "'a action \<Rightarrow> bool" where
  "hand_kept m \<longleftrightarrow> (\<forall>w. on_hand (w_stock (snd (m w))) = on_hand (w_stock w))"

lemma hand_stock: "stock_kept m \<Longrightarrow> hand_kept m"
  by (simp add: hand_kept_def stock_kept_def)

lemma hand_bnd: "hand_kept m \<Longrightarrow> (\<And>x. hand_kept (f x)) \<Longrightarrow> hand_kept (bnd m f)"
  by (simp add: hand_kept_def snd_bnd split: sum.split)

lemma hand_reserve:
  "hand_kept (bnd (gets w_stock) (\<lambda>stock. bnd (lift (reserveStock stock pbl xs ys)) (\<lambda>reserved. bnd (store_replaceStock reserved) (\<lambda>_. k))))"
  if "hand_kept k"
  using that on_hand_reserveStock
  by (auto simp: hand_kept_def bnd_def gets_def lift_def store_replaceStock_def modify_def split: sum.splits)

lemma hand_plan_edit: "hand_kept (plan_edit e os v a)"
proof -
  have draw: "hand_kept (\<lambda>w. drawing e (plan_of e w a os) plan_draws w)"
    by (simp add: hand_kept_def drawing_def split: sum.split)
  show ?thesis unfolding plan_edit_def Let_def
    by (rule hand_bnd, rule hand_stock, intro stock_intros, rule hand_bnd, rule hand_stock, intro stock_intros, rule hand_bnd, rule draw,
      rule hand_reserve, rule hand_stock, intro stock_intros)
qed

lemma hand_plan: "hand_kept (service_planFulfillment e i os act v)"
  unfolding service_planFulfillment_def
  by (rule hand_bnd, rule hand_stock, intro stock_intros, rule hand_bnd, rule hand_plan_edit, rule hand_stock, intro stock_intros)

lemma on_hand_quote_requests:
  assumes "world_inv U w"
  shows "on_hand (w_stock (snd (handle_quote e r w))) = on_hand (w_stock w)"
proof (cases "plans r")
  case True
  then show ?thesis using hand_plan by (cases r rule: plans.cases) (simp_all add: hand_kept_def)
next
  case False
  then show ?thesis by (simp add: stock_quote_requests [OF assms])
qed

end
