(* ===== verification/Dealflow_Run.thy ===== *)
theory Dealflow_Run
  imports Dealflow_Liveness
begin

text \<open>
  A concrete run for the witnesses of the system properties: an empty store with one customer and one
  product, and an administrator who creates a quotation, negotiates, finalises, submits and locks it.
  The success lemmas give the existence of every world of the run. The theory models no code.
\<close>

definition sample_supply :: "nat \<Rightarrow> string" where
  "sample_supply n = replicate n (CHR ''x'')"

definition sample_env :: env where
  "sample_env = \<lparr>e_uuid = sample_supply, e_token = sample_supply, e_now = 0, e_localeCompare = (\<lambda>_ _. 0), e_config = None,
     e_hasAudit = False, e_hasNotify = False, e_hasPublish = False, e_sendCustomerEmail = None,
     e_renderPdf = (\<lambda>_ _ _. Inl ''no renderer''), e_odooEnabled = False, e_createSaleOrder = None\<rparr>"

definition sample_world :: world where
  "sample_world = \<lparr>w_customers = [sample_customer], w_products = [sample_product ''p1'' 100 One_time],
     w_warehouses = [sample_warehouse ''w1'' 1], w_stock = [sample_stock ''w1'' ''p1'' 10 0], w_policies = [], w_chains = [],
     w_relations = [], w_quantityBreaks = [], w_roleAuthorities = [], w_governance = DEFAULT_GOVERNANCE, w_quotes = [],
     w_anomalies = [], w_negotiations = [], w_emails = [], w_quoteSeq = 0, w_uuid = 0, w_log = []\<rparr>"

definition sample_input :: create_input where
  "sample_input = \<lparr>cr_customerId = ''c1'', cr_ownerId = None,
     cr_lines = [\<lparr>li_productId = ''p1'', li_quantity = 4, li_discountPercent = 0\<rparr>]\<rparr>"

definition sample_lines :: "quote_line list \<Rightarrow> bool" where
  "sample_lines ls \<longleftrightarrow> (\<exists>i q c. ls = [\<lparr>ln_id = i, ln_quoteId = q, ln_productId = ''p1'', ln_quantity = 4, ln_listPrice = 100,
     ln_discountPercent = 0, ln_unitCost = c, ln_recommendedFromId = None\<rparr>])"

lemma inj_sample_supply: "inj sample_supply"
  by (auto simp: inj_def sample_supply_def dest: arg_cong [where f = length])

lemma sample_env_simps [simp]: "e_uuid sample_env = sample_supply" "governanceOf sample_env w = w_governance w" "e_now sample_env = 0"
  by (simp_all add: sample_env_def governanceOf_def)

lemma sample_discount_ok: "assertDiscountWithinAuthority 0 [] (Some sample_admin) t DEFAULT_GOVERNANCE = Ok ()"
  by (simp add: assertDiscountWithinAuthority_def actorDiscountCeiling_def matchDiscountAuthority_def check_def Let_def sample_admin_def
      actorDiscountRoles_def DEFAULT_GOVERNANCE_def eps_def loyaltyBonusPercent_def split: loyalty_tier.split)

lemma sample_create:
  "wp (create_edit sample_env sample_input sample_admin)
     (\<lambda>a _. status_of a = Q_draft \<and> qt_version (ag_quote a) = 1 \<and> sample_lines (ag_lines a)) (\<lambda>_. False) sample_world"
  by (simp add: create_edit_def sample_input_def sample_world_def wp_simps Let_def sample_customer_def toLine_def commercial_write_def
      check_def new_quote_def emptyAggregate_def isCommerciallyLocked_def canMutateCommercials_def sample_discount_ok sample_product_def
      sample_lines_def resolveUnitPrice_def selectQuantityBreak_def matchingQuantityBreaks_def)

definition sample_assessed :: "customer_tier \<Rightarrow> stock_level list \<Rightarrow> quote_line \<Rightarrow> assess_input" where
  "sample_assessed t st l = \<lparr>ai_customerTier = t, ai_lines = [(l, sample_product ''p1'' 100 One_time)], ai_policies = [], ai_chains = [],
     ai_config = DEFAULT_GOVERNANCE, ai_actor = None, ai_quantityBreaks = [], ai_roleAuthorities = [], ai_stock = st,
     ai_warehouses = [sample_warehouse ''w1'' 1]\<rparr>"

lemma round_digits_numeral [simp]: "round_digits (numeral n) d = numeral n"
  using round_digits_of_int [of "numeral n" d] by simp

lemma sample_decision:
  assumes "ln_quantity l = 4" "ln_listPrice l = 100" "ln_discountPercent l = 0"
  shows "qa_decision (assessQuote (sample_assessed t st l)) = D_allowed"
proof -
  let ?i = "sample_assessed t st l" and ?p = "sample_product ''p1'' 100 One_time"
  have price: "rp_unitPrice (line_priced ?i l ?p) = 100"
    by (simp add: line_priced_def sample_assessed_def resolveUnitPrice_def selectQuantityBreak_def matchingQuantityBreaks_def sample_product_def)
  then have applied: "line_appliedPrice ?i l ?p = 100" by (simp add: line_appliedPrice_def assms)
  have net: "line_netAmount ?i l ?p = 400" by (simp add: line_netAmount_def applied assms)
  have cost: "line_costAmount l ?p = 200" by (simp add: line_costAmount_def assms sample_product_def)
  have "pr_listPrice ?p = 100" "pr_cost ?p = 50" by (simp_all add: sample_product_def)
  then have erosion: "line_marginErosion ?i l ?p = 0"
    by (simp add: line_marginErosion_def net cost assms Let_def)
  have over: "line_overridePercent ?i l ?p = 0" by (simp add: line_overridePercent_def price applied Let_def)
  have pol: "line_policy ?i ?p = implicit_default" by (simp add: line_policy_def sample_assessed_def selectPolicy_def first_def)
  have auth: "selectRoleAuthority (ai_roleAuthorities ?i) (ai_actor ?i) = None"
    by (simp add: sample_assessed_def selectRoleAuthority_def matchDiscountAuthority_def)
  have "fst (line_verdict ?i l ?p) = D_allowed"
    by (simp add: line_verdict_def auth erosion over pol assms decideLineDiscount_def implicit_default_def authority_override_def
        authority_margin_def authority_discount_def Let_def)
  then have "la_decision (assess_line ?i l ?p) = D_allowed" and "la_netAmount (assess_line ?i l ?p) = 400"
    by (simp_all add: assess_line_def net)
  moreover have "line_results ?i = [assess_line ?i l ?p]" and "ai_config ?i = DEFAULT_GOVERNANCE"
    by (simp_all add: line_results_def sample_assessed_def)
  ultimately show ?thesis
    by (simp add: quote_decision_def cumulative_escalated_def count_decision_def high_value_def net_total_def worse_def DEFAULT_GOVERNANCE_def Let_def)
qed

lemma sample_assess:
  assumes "tables w = tables sample_world" and "sample_lines (ag_lines b)"
  shows "\<exists>x c. assess_in sample_env w b = Inr (x, c) \<and> qa_decision x = D_allowed"
proof -
  obtain l where l: "ag_lines b = [l]" "ln_productId l = ''p1''" "ln_quantity l = 4" "ln_listPrice l = 100" "ln_discountPercent l = 0"
    using assms(2) by (auto simp: sample_lines_def)
  have "pr_id (sample_product ''p1'' 100 One_time) = ''p1''" by (simp add: sample_product_def)
  then show ?thesis
    using assms(1) sample_decision [OF l(3-5), of "cu_tier (ag_customer b)" "w_stock w"]
    by (simp add: tables_def sample_world_def assess_in_def Let_def l(1,2) line_with_product_def sample_assessed_def)
qed

lemma sample_current:
  assumes inv: "world_inv U w" and lk: "quote_lookup w i = Some a" and "tables w = tables sample_world" and ls: "sample_lines (ag_lines a)"
  shows "\<exists>x. current_assessment sample_env w a = Some x \<and> qa_decision x = D_allowed"
proof -
  obtain b where b: "attach w a = Inr b" "core b = core a" using load_total [OF inv lk] by metis
  have "sample_lines (ag_lines b)" using ls core_readsD(3) [OF b(2)] by simp
  then obtain x c where "assess_in sample_env w b = Inr (x, c)" "qa_decision x = D_allowed" using sample_assess [OF assms(3)] by blast
  then show ?thesis using b(1) by (simp add: current_assessment_def)
qed

definition sample_at :: "quote_status \<Rightarrow> world \<Rightarrow> string \<Rightarrow> quote_aggregate \<Rightarrow> bool" where
  "sample_at s w i a \<longleftrightarrow> (step sample_supply)\<^sup>*\<^sup>* sample_world w \<and> quote_lookup w i = Some a \<and> status_of a = s \<and>
     sample_lines (ag_lines a) \<and> tables w = tables sample_world"

lemma sample_at_inv: "sample_at s w i a \<Longrightarrow> world_inv sample_supply w"
  using service.run_inv [of sample_supply sample_world w] inj_sample_supply empty_inv [of sample_world]
  by (simp add: sample_at_def sample_world_def)

lemma sample_next:
  assumes "sample_at s w i a" and "succeeds m w i (reaches s' a)" and "handle_quote sample_env r = run m"
  shows "\<exists>w' b. sample_at s' w' i b \<and> handle sample_env (On_quotes r) w = (None, w') \<and> step sample_supply w w'"
proof -
  obtain w' b where w': "run m w = (None, w')" "quote_lookup w' i = Some b" "reaches s' a b" "tables w' = tables w"
    using succeeds_reaches [OF assms(2)] by blast
  have h: "handle sample_env (On_quotes r) w = (None, w')" using w'(1) assms(3) by simp
  then have "step sample_supply w w'" by (intro step.request [OF _ h]) simp
  then show ?thesis using assms(1) w' h by (auto simp: sample_at_def reaches_def intro: rtranclp.rtrancl_into_rtrancl)
qed

lemma sample_fresh: "\<exists>w i a. sample_at Q_draft w i a \<and> w_quotes w = [(i, a)]"
proof -
  let ?c = "createQuote sample_env sample_input sample_admin"
  have none: "w_quotes sample_world = []" by (simp add: sample_world_def)
  let ?P = "\<lambda>a. status_of a = Q_draft \<and> qt_version (ag_quote a) = 1 \<and> sample_lines (ag_lines a)"
  obtain i where i: "succeeds ?c sample_world i ?P" "\<exists>s. w_quotes (snd (?c sample_world)) = [(i, s)]"
    using create_succeeds [OF sample_create] none by blast
  obtain r w' where w': "?c sample_world = (Inr r, w')" "holds w' i ?P" "tables w' = tables sample_world"
    using i(1) unfolding succeeds_def by blast
  obtain s where q: "w_quotes w' = [(i, s)]" using i(2) w'(1) by auto
  have h: "handle sample_env (On_quotes (R_createQuote sample_input sample_admin)) sample_world = (None, w')" using w'(1) by (simp add: run_def)
  have "step sample_supply sample_world w'" by (rule step.request [OF _ h]) simp
  moreover obtain c where "core s = core c" "status_of c = Q_draft" "sample_lines (ag_lines c)"
    using w'(2) q by (auto simp: holds_def quote_lookup_def)
  ultimately show ?thesis using w'(3) q core_readsD(1,3) [of s c]
    by (intro exI [of _ w'] exI [of _ i] exI [of _ s]) (simp add: sample_at_def quote_lookup_def r_into_rtranclp)
qed

lemma sample_draft: "\<exists>w i a. sample_at Q_draft w i a"
  using sample_fresh by blast

lemma sample_admin_facts: "is_manager sample_admin" "actorHas (Some sample_admin) perm" "selectRoleAuthority [] (Some sample_admin) = None"
  by (simp_all add: is_manager_def actorHas_def sample_admin_def actorDiscountRoles_def selectRoleAuthority_def matchDiscountAuthority_def)

lemma sample_atD:
  assumes "sample_at s w i a"
  shows "quote_lookup w i = Some a" "status_of a = s" "ag_lines a \<noteq> []" "sample_lines (ag_lines a)" "tables w = tables sample_world"
    "w_roleAuthorities w = []" "(step sample_supply)\<^sup>*\<^sup>* sample_world w"
  using assms by (auto simp: sample_at_def sample_lines_def tables_def sample_world_def)

lemma sample_finalized: "\<exists>w i a. sample_at Q_finalized w i a"
proof -
  obtain w1 i a1 where s1: "sample_at Q_draft w1 i a1" using sample_draft by blast
  note d1 = sample_atD [OF s1]
  have "succeeds (startNegotiation sample_env i sample_admin) w1 i (reaches Q_customer_negotiation a1)"
    by (rule startNegotiation_succeeds [OF sample_at_inv [OF s1] d1(1,2)]) (simp add: d1(6) sample_admin_facts)
  then obtain w2 a2 where s2: "sample_at Q_customer_negotiation w2 i a2"
    using sample_next [OF s1, where r = "R_startNegotiation i sample_admin"] by fastforce
  note d2 = sample_atD [OF s2]
  have "succeeds (finalizeQuotation sample_env i sample_admin (qt_version (ag_quote a2))) w2 i (reaches Q_finalized a2)"
    by (rule finalize_succeeds [OF sample_at_inv [OF s2] d2(1) _ d2(3) sample_admin_facts(1)]) (simp add: d2(2))
  then show ?thesis using sample_next [OF s2, where r = "R_finalize i sample_admin (qt_version (ag_quote a2))"] by fastforce
qed

lemma sample_approved: "\<exists>w i a. sample_at Q_approved w i a"
proof -
  obtain w i a where s: "sample_at Q_finalized w i a" using sample_finalized by blast
  note d = sample_atD [OF s] and inv = sample_at_inv [OF s]
  obtain x where x: "current_assessment sample_env w a = Some x" "qa_decision x = D_allowed"
    using sample_current [OF inv d(1,5,4)] by blast
  have "succeeds (submit sample_env i sample_admin) w i (reaches Q_approved a)"
    by (rule submit_approves [OF inv d(1-3) x(1)]) (simp add: x(2))
  then show ?thesis using sample_next [OF s, where r = "R_submit i sample_admin"] by fastforce
qed

lemma sample_confirmed: "\<exists>w i a. sample_at Q_confirmed w i a"
proof -
  obtain w i a where s: "sample_at Q_approved w i a" using sample_approved by blast
  note d = sample_atD [OF s] and inv = sample_at_inv [OF s]
  obtain x where x: "current_assessment sample_env w a = Some x" "qa_decision x = D_allowed"
    using sample_current [OF inv d(1,5,4)] by blast
  have "succeeds (service_confirm sample_env i sample_admin (qt_version (ag_quote a))) w i
     (\<lambda>c. reaches Q_confirmed a c \<and> qt_financeLockedAt (ag_quote c) = Some (e_now sample_env))"
    by (rule confirm_succeeds [OF inv d(1,2) x(1)]) (simp_all add: x(2) sample_admin_facts)
  then have "succeeds (service_confirm sample_env i sample_admin (qt_version (ag_quote a))) w i (reaches Q_confirmed a)"
    unfolding succeeds_def holds_def by blast
  then show ?thesis using sample_next [OF s, where r = "R_confirm i sample_admin (qt_version (ag_quote a))"] by fastforce
qed

lemma sample_reachable: "sample_at s w i a \<Longrightarrow> reachable sample_supply w"
  unfolding reachable_def sample_at_def using inj_sample_supply by (intro conjI exI [of _ sample_world]) (auto simp: sample_world_def)

lemma sample_completed:
  "\<exists>w i a v w' b. sample_at Q_confirmed w i a \<and> sample_at Q_completed w' i b \<and> (step sample_supply)\<^sup>*\<^sup>* w w' \<and>
     handle sample_env (On_quotes (R_complete i sample_admin v)) w = (None, w')"
proof -
  obtain w i a where s: "sample_at Q_confirmed w i a" using sample_confirmed by blast
  have "succeeds (service_complete sample_env i sample_admin (qt_version (ag_quote a))) w i (reaches Q_completed a)"
    by (rule complete_succeeds [OF sample_at_inv [OF s] sample_atD(1) [OF s]]) (simp add: sample_atD(2) [OF s])
  then show ?thesis using sample_next [OF s, where r = "R_complete i sample_admin (qt_version (ag_quote a))"] s
    by (meson handle_quote.simps r_into_rtranclp)
qed

end
