(* ===== verification/Platform_Rbac.thy ===== *)
theory Platform_Rbac
  imports Dealflow_Strings
begin

text \<open>
  Roles and permissions of the platform, \<open>backend/src/rbac\<close>: the names and their patterns, the default
  catalog and the one of the quote-to-cash module (\<open>modules/problem/src/permissions.ts\<close>), their merge, the
  two ways the merged catalog is written to the database (\<open>seed-catalog.ts\<close>), the roles and permissions of
  a user read back from it, and the checks a route makes. A table of the database is the list of its rows;
  \<open>upsert\<close> and \<open>createMany\<close> act on that list, and identifiers come from a supply. Time stamps of the rows
  are left out.
\<close>

section \<open>Errors of the platform\<close>

datatype app_error =
    ValidationError string
  | AuthenticationError string
  | AuthorizationError string
  | NotFoundError string
  | ConflictError string
  | RateLimitError string
  | ExternalServiceError string
  | DatabaseError string
  | TimeoutError string
  | InternalError string
  | Js_error string

fun app_statusCode :: "app_error \<Rightarrow> nat option" where
  "app_statusCode (ValidationError _) = Some 400"
| "app_statusCode (AuthenticationError _) = Some 401"
| "app_statusCode (AuthorizationError _) = Some 403"
| "app_statusCode (NotFoundError _) = Some 404"
| "app_statusCode (ConflictError _) = Some 409"
| "app_statusCode (RateLimitError _) = Some 429"
| "app_statusCode (ExternalServiceError _) = Some 502"
| "app_statusCode (DatabaseError _) = Some 503"
| "app_statusCode (TimeoutError _) = Some 504"
| "app_statusCode (InternalError _) = Some 500"
| "app_statusCode (Js_error _) = None"

section \<open>Names\<close>

definition is_lower :: "char \<Rightarrow> bool" where
  "is_lower c \<longleftrightarrow> 97 \<le> (of_char c :: nat) \<and> (of_char c :: nat) \<le> 122"

definition is_digit :: "char \<Rightarrow> bool" where
  "is_digit c \<longleftrightarrow> 48 \<le> (of_char c :: nat) \<and> (of_char c :: nat) \<le> 57"

definition is_word :: "char \<Rightarrow> bool" where
  "is_word c \<longleftrightarrow> is_lower c \<or> is_digit c \<or> c = CHR ''_''"

definition normalizeRoleName :: "string \<Rightarrow> string" where
  "normalizeRoleName name = toLowerCase (js_trim name)"

definition normalizePermissionKey :: "string \<Rightarrow> string" where
  "normalizePermissionKey key = toLowerCase (js_trim key)"

text \<open>\<open>ROLE_NAME_PATTERN\<close>: a letter, then 1 to 63 letters, digits or underscores.\<close>

definition isRoleName :: "string \<Rightarrow> bool" where
  "isRoleName value = (case normalizeRoleName value of [] \<Rightarrow> False
     | c # s \<Rightarrow> is_lower c \<and> 1 \<le> length s \<and> length s \<le> 63 \<and> list_all is_word s)"

fun split_dots :: "string \<Rightarrow> string list" where
  "split_dots [] = [[]]"
| "split_dots (c # s) = (if c = CHR ''.'' then [] # split_dots s
     else case split_dots s of [] \<Rightarrow> [[c]] | seg # segs \<Rightarrow> (c # seg) # segs)"

definition starts_lower :: "(char \<Rightarrow> bool) \<Rightarrow> string \<Rightarrow> bool" where
  "starts_lower rest s = (case s of [] \<Rightarrow> False | c # t \<Rightarrow> is_lower c \<and> list_all rest t)"

text \<open>\<open>PERMISSION_KEY_PATTERN\<close>: at least two segments between dots; the first has no underscore.\<close>

definition isPermissionKey :: "string \<Rightarrow> bool" where
  "isPermissionKey value = (case split_dots (normalizePermissionKey value) of
     seg # seg' # segs \<Rightarrow> starts_lower (\<lambda>c. is_lower c \<or> is_digit c) seg \<and> list_all (starts_lower is_word) (seg' # segs)
   | _ \<Rightarrow> False)"

section \<open>The catalogs\<close>

type_synonym permission_entry = "string \<times> string"
type_synonym role_permissions = "(string \<times> string list) list"

definition DEFAULT_ROLES :: "(string \<times> string) list" where
  "DEFAULT_ROLES = [
     (''admin'', ''Full access to starter-kit capabilities''),
     (''manager'', ''Manage users, reports, and notifications''),
     (''staff'', ''Operational access, including Odoo reads''),
     (''user'', ''Standard application access without Odoo writes'')]"

definition DEFAULT_PERMISSIONS :: "permission_entry list" where
  "DEFAULT_PERMISSIONS = [
     (''users.read'', ''View users''), (''users.write'', ''Create and update users''),
     (''roles.read'', ''View roles and permissions''), (''roles.write'', ''Create roles and assign permissions''),
     (''reports.generate'', ''Generate reports''), (''notifications.read'', ''View notifications''),
     (''notifications.write'', ''Create and update notifications''),
     (''odoo.read'', ''Read Odoo records through the backend adapter''),
     (''odoo.write'', ''Create or modify Odoo records through the backend adapter''), (''ai.use'', ''Use AI features''),
     (''copilot.use'', ''Use the controlled AI copilot''),
     (''intents.use'', ''Run natural-language business actions through the intent engine''),
     (''problem.analyze'', ''Analyze a hackathon problem statement into a structured specification''),
     (''capabilities.recommend'', ''Generate advisory capability, profile, and mode recommendations from a structured analysis''),
     (''projects.plan'', ''Analyze a problem statement, select capabilities, and approve a validated project configuration''),
     (''projects.generate'', ''Generate an isolated project overlay from an approved project configuration''),
     (''rag.use'', ''Index documents and run semantic search / RAG answers''),
     (''search.use'', ''Run keyword, filter, and full-text search''), (''search.write'', ''Index and delete search documents''),
     (''analytics.read'', ''Query registered KPIs, time series, and dashboards''),
     (''analytics.write'', ''Ingest analytics facts for registered KPIs''),
     (''analytics.export'', ''Export analytics query results''),
     (''anomaly.use'', ''Run statistical anomaly detection and read findings''),
     (''documents.analyze'', ''Upload and analyze documents with AI''), (''documents.read'', ''Read document analysis results''),
     (''files.read'', ''Read uploaded files and signed download URLs''), (''files.write'', ''Upload and delete files''),
     (''automations.read'', ''View automation rules and executions''),
     (''automations.write'', ''Create, update, enable, and disable automation rules''),
     (''automations.execute'', ''Emit automation events and inbound webhooks''), (''jobs.read'', ''Read background job status''),
     (''audit.read'', ''Read audit events''), (''admin.settings'', ''Change administrative settings'')]"

definition DEFAULT_ROLE_PERMISSIONS :: role_permissions where
  "DEFAULT_ROLE_PERMISSIONS = [
     (''admin'', map fst DEFAULT_PERMISSIONS),
     (''manager'', [
        ''users.read'', ''roles.read'', ''reports.generate'', ''notifications.read'', ''notifications.write'', ''odoo.read'',
        ''ai.use'', ''copilot.use'', ''intents.use'', ''problem.analyze'', ''capabilities.recommend'', ''projects.plan'',
        ''projects.generate'', ''rag.use'', ''search.use'', ''search.write'', ''analytics.read'', ''analytics.write'',
        ''analytics.export'', ''anomaly.use'', ''documents.analyze'', ''documents.read'', ''files.read'', ''files.write'',
        ''automations.read'', ''automations.write'', ''automations.execute'', ''jobs.read'', ''audit.read'']),
     (''staff'', [
        ''notifications.read'', ''odoo.read'', ''automations.read'', ''jobs.read'', ''files.read'', ''files.write'',
        ''search.use'', ''analytics.read'']),
     (''user'', [
        ''notifications.read'', ''files.read'', ''files.write''])]"

definition DEALFLOW_PERMISSIONS :: "permission_entry list" where
  "DEALFLOW_PERMISSIONS = [
     (''dealflow.catalog.read'', ''Read DealFlow360 customers, products, warehouses, and policies''),
     (''dealflow.catalog.write'', ''Create and edit DealFlow360 discount policies, approval chains, quantity-break percent rules, role ranges, and governance''),
     (''dealflow.catalog.products.write'', ''Create and edit DealFlow360 products and warehouse stock without changing discount policies or governance''),
     (''dealflow.quotes.read'', ''Read quotes, assessments, and fulfillment plans''),
     (''dealflow.quotes.write'', ''Create and edit quotes, send to manager, submit finalized quotations, and negotiate''),
     (''dealflow.quotes.lock'', ''Finance lock of an approved quotation''),
     (''dealflow.quotes.approve'', ''Record an approval or rejection on a quote chain''),
     (''dealflow.approvals.manager'', ''Act as Sales Manager on an approval chain''),
     (''dealflow.approvals.finance'', ''Act as Finance on an approval chain''),
     (''dealflow.approvals.final'', ''Give final approval on an approval chain''),
     (''dealflow.fulfillment.write'', ''Plan warehouse splits, overrides, and backorders''),
     (''dealflow.billing.write'', ''Generate and cancel hybrid billing schedules'')]"

definition DEALFLOW_ROLE_PERMISSIONS :: role_permissions where
  "DEALFLOW_ROLE_PERMISSIONS = [
     (''manager'', [
        ''dealflow.catalog.read'', ''dealflow.quotes.read'', ''dealflow.quotes.write'', ''dealflow.quotes.approve'',
        ''dealflow.approvals.manager'', ''dealflow.fulfillment.write'', ''dealflow.billing.write'']),
     (''staff'', [
        ''dealflow.catalog.read'', ''dealflow.catalog.products.write'', ''dealflow.quotes.read'', ''dealflow.quotes.write'',
        ''dealflow.fulfillment.write'', ''dealflow.billing.write'']),
     (''finance'', [
        ''dealflow.catalog.read'', ''dealflow.quotes.read'', ''dealflow.quotes.approve'', ''dealflow.quotes.lock'',
        ''dealflow.approvals.finance'', ''dealflow.billing.write'', ''notifications.read'', ''reports.generate'',
        ''analytics.read'', ''audit.read'']),
     (''operations'', [
        ''dealflow.catalog.read'', ''dealflow.quotes.read'', ''dealflow.fulfillment.write'', ''notifications.read'',
        ''analytics.read''])]"

section \<open>The merge of the two catalogs\<close>

record problem_module =
  pm_permissions :: "permission_entry list"
  pm_rolePermissions :: role_permissions

record rbac_catalog =
  rc_roles :: "(string \<times> string) list"
  rc_permissions :: "permission_entry list"
  rc_rolePermissions :: role_permissions

fun merge_permissions :: "permission_entry list \<Rightarrow> permission_entry list \<Rightarrow> app_error + permission_entry list" where
  "merge_permissions permissions [] = Inr permissions"
| "merge_permissions permissions ((k, d) # ps) =
     (let key = normalizePermissionKey k in
      if \<not> isPermissionKey key then Inl (Js_error (''Invalid problem permission key: '' @ k))
      else if key \<in> fst ` set permissions then Inl (Js_error (''Problem permission collides with the platform catalog: '' @ key))
      else merge_permissions (permissions @ [(key, d)]) ps)"

definition keys_of :: "role_permissions \<Rightarrow> string \<Rightarrow> string list" where
  "keys_of rp name = (case map_of rp name of None \<Rightarrow> [] | Some ks \<Rightarrow> ks)"

definition set_keys :: "string \<Rightarrow> string list \<Rightarrow> role_permissions \<Rightarrow> role_permissions" where
  "set_keys name ks rp = upsert_by (\<lambda>p. fst p = name) (name, ks) rp"

definition push_new :: "string list \<Rightarrow> string \<Rightarrow> string list" where
  "push_new next k = (let key = normalizePermissionKey k in if key \<in> set next then next else next @ [key])"

definition merge_role :: "role_permissions \<Rightarrow> string \<times> string list \<Rightarrow> role_permissions" where
  "merge_role rp entry = (let name = normalizeRoleName (fst entry) in set_keys name (foldl push_new (keys_of rp name) (snd entry)) rp)"

definition extra_description :: "string \<Rightarrow> string" where
  "extra_description name =
     (if name = ''finance'' then ''Billing, financial approvals, and commercial reporting''
      else if name = ''operations'' then ''Warehouses, inventory, fulfillment, and backorders''
      else ''Application role: '' @ name)"

definition mergeRbacCatalog :: "problem_module option \<Rightarrow> app_error + rbac_catalog" where
  "mergeRbacCatalog m =
     (case merge_permissions DEFAULT_PERMISSIONS (case m of None \<Rightarrow> [] | Some x \<Rightarrow> pm_permissions x) of
        Inl e \<Rightarrow> Inl e
      | Inr permissions \<Rightarrow>
          let merged = foldl merge_role DEFAULT_ROLE_PERMISSIONS (case m of None \<Rightarrow> [] | Some x \<Rightarrow> pm_rolePermissions x);
              rp = set_keys ''admin'' (map fst permissions) merged;
              extra = filter (\<lambda>n. n \<notin> fst ` set DEFAULT_ROLES) (map fst rp)
          in Inr \<lparr>rc_roles = DEFAULT_ROLES @ map (\<lambda>n. (n, extra_description n)) extra,
                  rc_permissions = permissions, rc_rolePermissions = rp\<rparr>)"

definition dealflow_module :: problem_module where
  "dealflow_module = \<lparr>pm_permissions = DEALFLOW_PERMISSIONS, pm_rolePermissions = DEALFLOW_ROLE_PERMISSIONS\<rparr>"

section \<open>The catalog in the database\<close>

record catalog_row =
  row_id :: string
  row_key :: string
  row_description :: string

record rbac_db =
  rdb_roles :: "catalog_row list"
  rdb_permissions :: "catalog_row list"
  rdb_joins :: "(string \<times> string) list"
  rdb_ids :: nat

definition id_of :: "catalog_row list \<Rightarrow> string \<Rightarrow> string option" where
  "id_of rows k = map_option row_id (find (\<lambda>r. row_key r = k) rows)"

text \<open>\<open>upsert\<close> of one row by its unique key; the row created takes the next identifier.\<close>

definition upsert_row :: "(nat \<Rightarrow> string) \<Rightarrow> string \<times> string \<Rightarrow> catalog_row list \<times> nat \<Rightarrow> catalog_row list \<times> nat" where
  "upsert_row U e t = (case t of (rows, n) \<Rightarrow>
     if find (\<lambda>r. row_key r = fst e) rows = None
     then (rows @ [\<lparr>row_id = U n, row_key = fst e, row_description = snd e\<rparr>], Suc n)
     else (update_first (\<lambda>r. row_key r = fst e) (\<lambda>r. r\<lparr>row_description := snd e\<rparr>) rows, n))"

text \<open>\<open>createMany\<close> appends the rows; a key that is taken is a unique violation.\<close>

fun create_rows :: "(nat \<Rightarrow> string) \<Rightarrow> (string \<times> string) list \<Rightarrow> catalog_row list \<times> nat \<Rightarrow> app_error + (catalog_row list \<times> nat)" where
  "create_rows U [] t = Inr t"
| "create_rows U (e # es) t = (case t of (rows, n) \<Rightarrow>
     if find (\<lambda>r. row_key r = fst e) rows \<noteq> None then Inl (Js_error ''Unique constraint failed'')
     else create_rows U es (rows @ [\<lparr>row_id = U n, row_key = fst e, row_description = snd e\<rparr>], Suc n))"

fun create_joins :: "(string \<times> string) list \<Rightarrow> (string \<times> string) list \<Rightarrow> app_error + (string \<times> string) list" where
  "create_joins [] js = Inr js"
| "create_joins (j # new) js = (if j \<in> set js then Inl (Js_error ''Unique constraint failed'') else create_joins new (js @ [j]))"

definition upsert_join :: "(string \<times> string) list \<Rightarrow> string \<times> string \<Rightarrow> (string \<times> string) list" where
  "upsert_join js j = (if j \<in> set js then js else js @ [j])"

fun permission_rows :: "string \<Rightarrow> (string \<Rightarrow> string option) \<Rightarrow> string list \<Rightarrow> app_error + (string \<times> string) list" where
  "permission_rows roleId permissions [] = Inr []"
| "permission_rows roleId permissions (k # ks) =
     (case permissions k of None \<Rightarrow> Inl (Js_error (''Missing catalog permission: '' @ k))
      | Some p \<Rightarrow> map_sum id (Cons (roleId, p)) (permission_rows roleId permissions ks))"

fun rolePermissionRows ::
  "(string \<Rightarrow> string option) \<Rightarrow> (string \<Rightarrow> string option) \<Rightarrow> role_permissions \<Rightarrow> app_error + (string \<times> string) list" where
  "rolePermissionRows roles permissions [] = Inr []"
| "rolePermissionRows roles permissions ((name, ks) # rp) =
     (case roles name of None \<Rightarrow> Inl (Js_error (''Missing catalog role: '' @ name))
      | Some r \<Rightarrow> (case permission_rows r permissions ks of Inl e \<Rightarrow> Inl e
          | Inr js \<Rightarrow> map_sum id ((@) js) (rolePermissionRows roles permissions rp)))"

definition seedEmptyCatalog :: "(nat \<Rightarrow> string) \<Rightarrow> rbac_catalog \<Rightarrow> rbac_db \<Rightarrow> app_error + rbac_db" where
  "seedEmptyCatalog U c db =
     (case create_rows U (rc_roles c) (rdb_roles db, rdb_ids db) of Inl e \<Rightarrow> Inl e
      | Inr (roles, n) \<Rightarrow> (case create_rows U (rc_permissions c) (rdb_permissions db, n) of Inl e \<Rightarrow> Inl e
          | Inr (permissions, m) \<Rightarrow> (case rolePermissionRows (id_of roles) (id_of permissions) (rc_rolePermissions c) of Inl e \<Rightarrow> Inl e
              | Inr joins \<Rightarrow> (case create_joins joins (rdb_joins db) of Inl e \<Rightarrow> Inl e
                  | Inr js \<Rightarrow> Inr \<lparr>rdb_roles = roles, rdb_permissions = permissions, rdb_joins = js, rdb_ids = m\<rparr>))))"

definition seedCatalogByUpsert :: "(nat \<Rightarrow> string) \<Rightarrow> rbac_catalog \<Rightarrow> rbac_db \<Rightarrow> app_error + rbac_db" where
  "seedCatalogByUpsert U c db =
     (case foldl (\<lambda>t e. upsert_row U e t) (rdb_roles db, rdb_ids db) (rc_roles c) of (roles, n) \<Rightarrow>
      case foldl (\<lambda>t e. upsert_row U e t) (rdb_permissions db, n) (rc_permissions c) of (permissions, m) \<Rightarrow>
      (case rolePermissionRows (id_of roles) (id_of permissions) (rc_rolePermissions c) of Inl e \<Rightarrow> Inl e
       | Inr joins \<Rightarrow> Inr \<lparr>rdb_roles = roles, rdb_permissions = permissions,
           rdb_joins = foldl upsert_join (rdb_joins db) joins, rdb_ids = m\<rparr>))"

definition seedRbacCatalog :: "(nat \<Rightarrow> string) \<Rightarrow> problem_module option \<Rightarrow> rbac_db \<Rightarrow> app_error + rbac_db" where
  "seedRbacCatalog U m db =
     (case mergeRbacCatalog m of Inl e \<Rightarrow> Inl e
      | Inr c \<Rightarrow> if rdb_roles db = [] then seedEmptyCatalog U c db else seedCatalogByUpsert U c db)"

section \<open>Users and checks\<close>

fun str_less :: "string \<Rightarrow> string \<Rightarrow> bool" where
  "str_less [] t = (t \<noteq> [])"
| "str_less (c # s) [] = False"
| "str_less (c # s) (d # t) = ((of_char c :: nat) < of_char d \<or> c = d \<and> str_less s t)"

text \<open>\<open>[...new Set(xs)].sort()\<close>\<close>

definition sorted_set :: "string list \<Rightarrow> string list" where
  "sorted_set xs = js_sort (\<lambda>a b. if str_less b a then 1 else if a = b then 0 else - 1) (rev (remdups (rev xs)))"

definition role_grants :: "rbac_db \<Rightarrow> string \<Rightarrow> string list" where
  "role_grants db roleId = concat (map (\<lambda>(r, p). if r = roleId then map row_key (filter (\<lambda>x. row_id x = p) (rdb_permissions db)) else [])
     (rdb_joins db))"

text \<open>\<open>mapUserWithRoles\<close>: the names of the roles a user is assigned, and what they grant.\<close>

definition user_roles :: "rbac_db \<Rightarrow> string list \<Rightarrow> string list" where
  "user_roles db roleIds = sorted_set (concat (map (\<lambda>i. map row_key (filter (\<lambda>r. row_id r = i) (rdb_roles db))) roleIds))"

definition user_permissions :: "rbac_db \<Rightarrow> string list \<Rightarrow> string list" where
  "user_permissions db roleIds = sorted_set (concat (map (role_grants db) roleIds))"

datatype user_status = U_active | U_invited | U_disabled

record authenticated_user =
  us_id :: string
  us_email :: string
  us_displayName :: string
  us_status :: user_status
  us_role :: string
  us_roles :: "string list"
  us_permissions :: "string list"

definition ROLE_PRECEDENCE :: "string \<Rightarrow> js_number" where
  "ROLE_PRECEDENCE r = (if r = ''admin'' then 0 else if r = ''manager'' then 1 else if r = ''staff'' then 2 else if r = ''user'' then 3 else 50)"

definition primaryRole :: "(string \<Rightarrow> string \<Rightarrow> js_number) \<Rightarrow> string list \<Rightarrow> string" where
  "primaryRole localeCompare roles =
     (case js_sort (\<lambda>l r. if ROLE_PRECEDENCE l \<noteq> ROLE_PRECEDENCE r then ROLE_PRECEDENCE l - ROLE_PRECEDENCE r else localeCompare l r) roles of
        [] \<Rightarrow> ''user'' | r # _ \<Rightarrow> r)"

definition hasRole :: "authenticated_user \<Rightarrow> string list \<Rightarrow> bool" where
  "hasRole u roles = list_ex (\<lambda>r. normalizeRoleName r \<in> normalizeRoleName ` set (us_roles u)) roles"

definition hasPermission :: "authenticated_user \<Rightarrow> string list \<Rightarrow> bool" where
  "hasPermission u ps = list_all (\<lambda>p. normalizePermissionKey p \<in> normalizePermissionKey ` set (us_permissions u)) ps"

definition hasAnyPermission :: "authenticated_user \<Rightarrow> string list \<Rightarrow> bool" where
  "hasAnyPermission u ps = list_ex (\<lambda>p. normalizePermissionKey p \<in> normalizePermissionKey ` set (us_permissions u)) ps"

definition assertAuthenticated :: "authenticated_user option \<Rightarrow> app_error + authenticated_user" where
  "assertAuthenticated u = (case u of None \<Rightarrow> Inl (AuthenticationError ''Authentication required'') | Some x \<Rightarrow> Inr x)"

definition assertRole :: "authenticated_user option \<Rightarrow> string list \<Rightarrow> app_error + authenticated_user" where
  "assertRole u roles = (case assertAuthenticated u of Inl e \<Rightarrow> Inl e
     | Inr x \<Rightarrow> if hasRole x roles then Inr x else Inl (AuthorizationError ''You are not allowed to perform this action''))"

definition assertPermission :: "authenticated_user option \<Rightarrow> string list \<Rightarrow> app_error + authenticated_user" where
  "assertPermission u ps = (case assertAuthenticated u of Inl e \<Rightarrow> Inl e
     | Inr x \<Rightarrow> if hasPermission x ps then Inr x else Inl (AuthorizationError ''You are not allowed to perform this action''))"

section \<open>The two ways of seeding\<close>

definition keyed :: "role_permissions \<Rightarrow> bool" where
  "keyed rp \<longleftrightarrow> distinct (map fst rp) \<and> (\<forall>(n, ks)\<in>set rp. distinct ks)"

lemma keyed_distinct: "keyed rp \<Longrightarrow> distinct (map fst rp)" "keyed rp \<Longrightarrow> (n, ks) \<in> set rp \<Longrightarrow> distinct ks"
  by (auto simp: keyed_def)

lemma set_keys_keyed: "keyed rp \<Longrightarrow> distinct ks \<Longrightarrow> keyed (set_keys name ks rp)"
  using set_upsert_by [of "\<lambda>p. fst p = name" "(name, ks)" rp] distinct_upsert_key [of fst rp "(name, ks)"]
  by (force simp: keyed_def set_keys_def)

lemma push_new_distinct: "distinct next \<Longrightarrow> distinct (foldl push_new next ks)"
  by (induction ks arbitrary: "next") (simp_all add: push_new_def Let_def)

lemma keys_of_distinct: "keyed rp \<Longrightarrow> distinct (keys_of rp n)"
  using map_of_SomeD [of rp n] by (auto simp: keys_of_def keyed_def split: option.split)

lemma merge_role_keyed: "keyed rp \<Longrightarrow> keyed (merge_role rp e)"
  by (simp add: merge_role_def Let_def set_keys_keyed push_new_distinct keys_of_distinct)

lemma foldl_merge_keyed: "keyed rp \<Longrightarrow> keyed (foldl merge_role rp es)"
  by (induction es arbitrary: rp) (simp_all add: merge_role_keyed)

lemma merge_permissions_distinct:
  "merge_permissions ps qs = Inr r \<Longrightarrow> distinct (map fst ps) \<Longrightarrow> distinct (map fst r)"
  by (induction ps qs rule: merge_permissions.induct) (auto simp: Let_def split: if_splits)

lemma catalog_constants:
  "distinct (map fst DEFAULT_PERMISSIONS)" "keyed DEFAULT_ROLE_PERMISSIONS" "distinct (map fst DEFAULT_ROLES)"
  by (code_simp)+

definition row_table :: "(nat \<Rightarrow> string) \<Rightarrow> catalog_row list \<Rightarrow> nat \<Rightarrow> bool" where
  "row_table U rows n \<longleftrightarrow> distinct (map row_key rows) \<and> distinct (map row_id rows) \<and> row_id ` set rows \<subseteq> U ` {..<n}"

lemma row_table_snoc:
  assumes "inj U" and "row_table U rows n" and "k \<notin> row_key ` set rows"
  shows "row_table U (rows @ [\<lparr>row_id = U n, row_key = k, row_description = d\<rparr>]) (Suc n)"
proof -
  have "U n \<notin> row_id ` set rows" using assms(1,2) by (auto simp: row_table_def dest: injD)
  then show ?thesis using assms(2,3) by (auto simp: row_table_def lessThan_Suc)
qed

lemma find_key_None: "find (\<lambda>r. row_key r = k) rows = None \<longleftrightarrow> k \<notin> row_key ` set rows"
  by (auto simp: find_None_iff)

lemma create_rows_upsert:
  assumes "inj U" and "row_table U rows n" and "distinct (map fst es)" and "fst ` set es \<inter> row_key ` set rows = {}"
  shows "\<exists>rows' n'. create_rows U es (rows, n) = Inr (rows', n') \<and> foldl (\<lambda>t e. upsert_row U e t) (rows, n) es = (rows', n') \<and>
    row_table U rows' n' \<and> row_key ` set rows' = row_key ` set rows \<union> fst ` set es"
  using assms(2-4)
proof (induction es arbitrary: rows n)
  case (Cons e es)
  let ?rows = "rows @ [\<lparr>row_id = U n, row_key = fst e, row_description = snd e\<rparr>]"
  have free: "fst e \<notin> row_key ` set rows" using Cons.prems(3) by auto
  then have none: "find (\<lambda>r. row_key r = fst e) rows = None" by (simp add: find_key_None)
  have "fst ` set es \<inter> row_key ` set ?rows = {}" using Cons.prems(2,3) by auto
  then obtain rows' n' where IH: "create_rows U es (?rows, Suc n) = Inr (rows', n')"
      "foldl (\<lambda>t e. upsert_row U e t) (?rows, Suc n) es = (rows', n')" "row_table U rows' n'"
      "row_key ` set rows' = row_key ` set ?rows \<union> fst ` set es"
    using Cons.IH [OF row_table_snoc [OF assms(1) Cons.prems(1) free, of "snd e"]] Cons.prems(2) by auto
  then show ?case using none by (auto simp: upsert_row_def)
qed simp

lemma id_of_None: "id_of rows k = None \<longleftrightarrow> k \<notin> row_key ` set rows"
  by (simp add: id_of_def find_key_None)

lemma id_of_inj:
  assumes "row_table U rows n" and "id_of rows k = Some i" and "id_of rows k' = Some i"
  shows "k = k'"
proof -
  obtain r r' where r: "find (\<lambda>r. row_key r = k) rows = Some r" "row_id r = i" "find (\<lambda>r. row_key r = k') rows = Some r'" "row_id r' = i"
    using assms(2,3) by (auto simp: id_of_def)
  then have "r \<in> set rows" "r' \<in> set rows" "row_key r = k" "row_key r' = k'" using find_SomeD by fast+
  then show ?thesis using assms(1) r(2,4) by (auto simp: row_table_def distinct_map dest: inj_onD)
qed

lemma map_sum_Inr_iff: "map_sum id f s = Inr y \<longleftrightarrow> (\<exists>x. s = Inr x \<and> y = f x)"
  by (cases s) auto

lemma permission_rows_InrD:
  "permission_rows r permissions ks = Inr js \<Longrightarrow>
     (\<forall>k\<in>set ks. permissions k \<noteq> None) \<and> js = map (\<lambda>k. (r, the (permissions k))) ks"
  by (induction ks arbitrary: js) (auto simp: map_sum_Inr_iff split: option.splits)

lemma rolePermissionRows_InrD:
  "rolePermissionRows roles permissions rp = Inr js \<Longrightarrow>
     (\<forall>(n, ks)\<in>set rp. roles n \<noteq> None \<and> (\<forall>k\<in>set ks. permissions k \<noteq> None)) \<and>
     js = concat (map (\<lambda>(n, ks). map (\<lambda>k. (the (roles n), the (permissions k))) ks) rp)"
proof (induction rp arbitrary: js)
  case (Cons e rp)
  obtain n ks where e: "e = (n, ks)" by (cases e)
  obtain r ks' js' where "roles n = Some r" "permission_rows r permissions ks = Inr ks'"
      "rolePermissionRows roles permissions rp = Inr js'" "js = ks' @ js'"
    using Cons.prems by (auto simp: e map_sum_Inr_iff split: option.splits sum.splits)
  then show ?case using Cons.IH [of js'] permission_rows_InrD [of r permissions ks ks'] by (simp add: e)
qed simp

lemma permission_rows_total: "\<forall>k\<in>set ks. permissions k \<noteq> None \<Longrightarrow> \<exists>js. permission_rows r permissions ks = Inr js"
  by (induction ks) (auto simp: map_sum_Inr_iff)

lemma rolePermissionRows_total:
  "\<forall>(n, ks)\<in>set rp. roles n \<noteq> None \<and> (\<forall>k\<in>set ks. permissions k \<noteq> None) \<Longrightarrow> \<exists>js. rolePermissionRows roles permissions rp = Inr js"
proof (induction rp)
  case (Cons e rp)
  obtain n ks where e: "e = (n, ks)" by (cases e)
  then obtain r where r: "roles n = Some r" using Cons.prems by auto
  obtain js where "permission_rows r permissions ks = Inr js" using permission_rows_total [of ks permissions r] Cons.prems by (auto simp: e)
  moreover obtain js' where "rolePermissionRows roles permissions rp = Inr js'" using Cons by auto
  ultimately show ?case using r by (simp add: e)
qed simp

lemma joins_distinct:
  assumes rp: "keyed rp" and roles: "\<And>n n' i. roles n = Some i \<Longrightarrow> roles n' = Some i \<Longrightarrow> n = n'"
    and perms: "\<And>k k' i. permissions k = Some i \<Longrightarrow> permissions k' = Some i \<Longrightarrow> k = k'"
    and js: "rolePermissionRows roles permissions rp = Inr js"
  shows "distinct js"
  using rp js
proof (induction rp arbitrary: js)
  case (Cons e rp)
  obtain n ks where e: "e = (n, ks)" by (cases e)
  let ?f = "\<lambda>(n, ks). map (\<lambda>k. (the (roles n), the (permissions k))) ks"
  note D = rolePermissionRows_InrD [OF Cons.prems(2)]
  have total: "\<forall>(n, ks)\<in>set rp. roles n \<noteq> None \<and> (\<forall>k\<in>set ks. permissions k \<noteq> None)" using D by simp
  then obtain js' where js': "rolePermissionRows roles permissions rp = Inr js'" using rolePermissionRows_total by blast
  have "keyed rp" using Cons.prems(1) by (simp add: keyed_def)
  then have "distinct js'" using Cons.IH js' by simp
  moreover have eq: "js = ?f e @ js'" using D rolePermissionRows_InrD [OF js'] by simp
  moreover have "distinct (?f e)"
  proof -
    have "inj_on (\<lambda>k. (the (roles n), the (permissions k))) (set ks)"
    proof (rule inj_onI)
      fix k k' assume k: "k \<in> set ks" "k' \<in> set ks" "(the (roles n), the (permissions k)) = (the (roles n), the (permissions k'))"
      then obtain i i' where "permissions k = Some i" "permissions k' = Some i'" using D unfolding e by fastforce
      then show "k = k'" using k(3) perms by simp
    qed
    then show ?thesis using Cons.prems(1) by (simp add: e keyed_def distinct_map)
  qed
  moreover have "set (?f e) \<inter> set js' = {}"
  proof (rule equals0I)
    fix x assume "x \<in> set (?f e) \<inter> set js'"
    then obtain m ls where m: "(m, ls) \<in> set rp" "fst x = the (roles m)" "fst x = the (roles n)"
      using rolePermissionRows_InrD [OF js'] by (auto simp: e)
    then have "roles m \<noteq> None" "roles n \<noteq> None" using total D by (auto simp: e)
    then have "m = n" using m(2,3) roles by force
    then show False using m(1) Cons.prems(1) by (auto simp: e keyed_def image_iff)
  qed
  ultimately show ?case by simp
qed simp

lemma create_joins_distinct: "distinct (js @ new) \<Longrightarrow> create_joins new js = Inr (js @ new)"
  by (induction new js rule: create_joins.induct) auto

lemma foldl_upsert_join: "distinct (js @ new) \<Longrightarrow> foldl upsert_join js new = js @ new"
  by (induction new arbitrary: js) (auto simp: upsert_join_def)

definition empty_db :: "rbac_db \<Rightarrow> bool" where
  "empty_db db \<longleftrightarrow> rdb_roles db = [] \<and> rdb_permissions db = [] \<and> rdb_joins db = []"

lemma catalog_wf:
  assumes "mergeRbacCatalog m = Inr c"
  shows "distinct (map fst (rc_roles c))" "distinct (map fst (rc_permissions c))" "keyed (rc_rolePermissions c)"
    "fst ` set (rc_rolePermissions c) \<subseteq> fst ` set (rc_roles c)"
proof -
  obtain ps where ps: "merge_permissions DEFAULT_PERMISSIONS (case m of None \<Rightarrow> [] | Some x \<Rightarrow> pm_permissions x) = Inr ps"
    using assms by (auto simp: mergeRbacCatalog_def split: sum.splits)
  define rp where "rp = set_keys ''admin'' (map fst ps) (foldl merge_role DEFAULT_ROLE_PERMISSIONS (case m of None \<Rightarrow> [] | Some x \<Rightarrow> pm_rolePermissions x))"
  have c: "c = \<lparr>rc_roles = DEFAULT_ROLES @ map (\<lambda>n. (n, extra_description n)) (filter (\<lambda>n. n \<notin> fst ` set DEFAULT_ROLES) (map fst rp)),
                  rc_permissions = ps, rc_rolePermissions = rp\<rparr>"
    using assms by (simp add: mergeRbacCatalog_def ps rp_def Let_def)
  have dp: "distinct (map fst ps)" using merge_permissions_distinct [OF ps catalog_constants(1)] .
  have k: "keyed rp" unfolding rp_def by (intro set_keys_keyed foldl_merge_keyed catalog_constants(2) dp)
  show "distinct (map fst (rc_permissions c))" "keyed (rc_rolePermissions c)" using dp k by (simp_all add: c)
  have names: "map fst (rc_roles c) = map fst DEFAULT_ROLES @ filter (\<lambda>n. n \<notin> fst ` set DEFAULT_ROLES) (map fst rp)"
    by (simp add: c comp_def)
  have "distinct (filter (\<lambda>n. n \<notin> fst ` set DEFAULT_ROLES) (map fst rp))"
    by (rule distinct_filter) (rule keyed_distinct(1) [OF k])
  moreover have "set (map fst DEFAULT_ROLES) \<inter> set (filter (\<lambda>n. n \<notin> fst ` set DEFAULT_ROLES) (map fst rp)) = {}"
    by (simp only: set_filter set_map) blast
  ultimately show "distinct (map fst (rc_roles c))" using names catalog_constants(3) by (simp only: distinct_append)
  have "set (map fst rp) \<subseteq> set (map fst (rc_roles c))" unfolding names by (simp only: set_append set_filter set_map) blast
  moreover have "rc_rolePermissions c = rp" by (simp add: c)
  ultimately show "fst ` set (rc_rolePermissions c) \<subseteq> fst ` set (rc_roles c)" by (simp only: set_map)
qed

text \<open>What an empty database looks like after either way of seeding.\<close>

lemma seed_empty:
  assumes "inj U" and "mergeRbacCatalog m = Inr c" and e: "empty_db db"
  obtains roles permissions n k where
    "row_table U roles n" "row_key ` set roles = fst ` set (rc_roles c)"
    "row_table U permissions k" "row_key ` set permissions = fst ` set (rc_permissions c)"
    "seedEmptyCatalog U c db = (case rolePermissionRows (id_of roles) (id_of permissions) (rc_rolePermissions c) of Inl x \<Rightarrow> Inl x
       | Inr joins \<Rightarrow> Inr \<lparr>rdb_roles = roles, rdb_permissions = permissions, rdb_joins = joins, rdb_ids = k\<rparr>)"
    "seedCatalogByUpsert U c db = seedEmptyCatalog U c db"
proof -
  note wf = catalog_wf [OF assms(2)]
  have none: "row_table U [] n" for n by (simp add: row_table_def)
  obtain roles n where r: "create_rows U (rc_roles c) ([], rdb_ids db) = Inr (roles, n)"
      "foldl (\<lambda>t e. upsert_row U e t) ([], rdb_ids db) (rc_roles c) = (roles, n)" "row_table U roles n"
      "row_key ` set roles = fst ` set (rc_roles c)"
    using create_rows_upsert [OF assms(1) none wf(1), of "rdb_ids db"] by auto
  obtain permissions k where p: "create_rows U (rc_permissions c) ([], n) = Inr (permissions, k)"
      "foldl (\<lambda>t e. upsert_row U e t) ([], n) (rc_permissions c) = (permissions, k)" "row_table U permissions k"
      "row_key ` set permissions = fst ` set (rc_permissions c)"
    using create_rows_upsert [OF assms(1) none wf(2), of n] by auto
  have d: "distinct joins" if "rolePermissionRows (id_of roles) (id_of permissions) (rc_rolePermissions c) = Inr joins" for joins
    using joins_distinct [OF wf(3) id_of_inj [OF r(3)] id_of_inj [OF p(3)] that] .
  show ?thesis
  proof (rule that [OF r(3,4) p(3,4)])
    show s: "seedEmptyCatalog U c db = (case rolePermissionRows (id_of roles) (id_of permissions) (rc_rolePermissions c) of Inl x \<Rightarrow> Inl x
       | Inr joins \<Rightarrow> Inr \<lparr>rdb_roles = roles, rdb_permissions = permissions, rdb_joins = joins, rdb_ids = k\<rparr>)"
      using e d create_joins_distinct [of "[]"] by (simp add: seedEmptyCatalog_def empty_db_def r(1) p(1) split: sum.split)
    show "seedCatalogByUpsert U c db = seedEmptyCatalog U c db"
      unfolding s using e d foldl_upsert_join [of "[]"] by (simp add: seedCatalogByUpsert_def empty_db_def r(2) p(2) split: sum.split)
  qed
qed

text \<open>The fast path of the seeder is the slow one: on an empty database inserting the whole merged catalog
  with three \<open>createMany\<close> calls gives the same result, the same identifiers and the same errors, as
  upserting it row by row, for every problem module whose catalog merges.\<close>

theorem seed_paths_agree:
  assumes "inj U" and "mergeRbacCatalog m = Inr c" and "rdb_roles db = []" and "rdb_permissions db = []" and "rdb_joins db = []"
  shows "seedEmptyCatalog U c db = seedCatalogByUpsert U c db"
proof -
  have "empty_db db" using assms(3-5) by (simp add: empty_db_def)
  then show ?thesis using seed_empty [OF assms(1,2)] by metis
qed

section \<open>What a seeded user may do\<close>

lemma set_sorted_set [simp]: "set (sorted_set xs) = set xs"
  by (simp add: sorted_set_def)

lemma id_of_row:
  assumes "row_table U rows n" and "k \<in> row_key ` set rows"
  obtains r where "r \<in> set rows" "row_key r = k" "id_of rows k = Some (row_id r)"
    "\<forall>x\<in>set rows. row_id x = row_id r \<longleftrightarrow> row_key x = k"
proof -
  obtain r where r: "find (\<lambda>r. row_key r = k) rows = Some r"
    using assms(2) by (cases "find (\<lambda>r. row_key r = k) rows") (auto simp: find_key_None)
  then have m: "r \<in> set rows" "row_key r = k" using find_SomeD by fast+
  then have "row_id x = row_id r \<longleftrightarrow> row_key x = k" if "x \<in> set rows" for x
    using assms(1) that by (auto simp: row_table_def distinct_map dest: inj_onD)
  then show ?thesis using that m r by (simp add: id_of_def)
qed

lemma role_grants_seeded:
  assumes roles: "row_table U roles n" and perms: "row_table U permissions k" and rp: "keyed rp"
    and js: "rolePermissionRows (id_of roles) (id_of permissions) rp = Inr joins"
    and keys: "name \<in> row_key ` set roles"
  shows "set (role_grants \<lparr>rdb_roles = roles, rdb_permissions = permissions, rdb_joins = joins, rdb_ids = j\<rparr> (the (id_of roles name))) =
    set (keys_of rp name)"
proof -
  note D = rolePermissionRows_InrD [OF js]
  have some: "id_of roles n \<noteq> None" "q \<in> set ks \<Longrightarrow> id_of permissions q \<noteq> None" if "(n, ks) \<in> set rp" for n ks q
    using bspec [OF conjunct1 [OF D] that] by auto
  have joins: "joins = concat (map (\<lambda>(n, ks). map (\<lambda>k. (the (id_of roles n), the (id_of permissions k))) ks) rp)" by (rule conjunct2 [OF D])
  obtain i where i: "id_of roles name = Some i" using id_of_row [OF roles keys] by metis
  have same: "name' = name" if "(name', ks) \<in> set rp" "the (id_of roles name') = i" for name' ks
  proof -
    have "id_of roles name' = Some i" using some(1) [OF that(1)] that(2) by auto
    then show ?thesis using id_of_inj [OF roles _ i] by blast
  qed
  have row: "row_key x = p" if "(name', ks) \<in> set rp" "p \<in> set ks" "x \<in> set permissions" "row_id x = the (id_of permissions p)" for name' ks p x
  proof -
    have "p \<in> row_key ` set permissions" using some(2) [OF that(1,2)] by (simp add: id_of_None)
    then obtain r where "r \<in> set permissions" "row_key r = p" "id_of permissions p = Some (row_id r)"
        "\<forall>x\<in>set permissions. row_id x = row_id r \<longleftrightarrow> row_key x = p"
      by (rule id_of_row [OF perms])
    then show ?thesis using that(3,4) by simp
  qed
  have ex: "\<exists>x\<in>set permissions. row_id x = the (id_of permissions p) \<and> row_key x = p" if "(name', ks) \<in> set rp" "p \<in> set ks" for name' ks p
  proof -
    have "p \<in> row_key ` set permissions" using some(2) [OF that] by (simp add: id_of_None)
    then obtain r where "r \<in> set permissions" "row_key r = p" "id_of permissions p = Some (row_id r)"
        "\<forall>x\<in>set permissions. row_id x = row_id r \<longleftrightarrow> row_key x = p"
      by (rule id_of_row [OF perms])
    then show ?thesis by auto
  qed
  have kset: "p \<in> set (keys_of rp name) \<longleftrightarrow> (\<exists>ks. (name, ks) \<in> set rp \<and> p \<in> set ks)" for p
  proof (cases "map_of rp name")
    case None
    then have "\<And>ks. (name, ks) \<notin> set rp" using map_of_eq_None_iff [of rp name] by (metis fst_conv image_eqI)
    then show ?thesis using None by (simp add: keys_of_def)
  next
    case (Some ls)
    then have "(name, ks) \<in> set rp \<longleftrightarrow> ks = ls" for ks using map_of_eq_Some_iff [OF keyed_distinct(1) [OF rp], of name ks] by auto
    then show ?thesis by (simp add: keys_of_def Some)
  qed
  show ?thesis
  proof (intro set_eqI iffI)
    fix p assume "p \<in> set (role_grants \<lparr>rdb_roles = roles, rdb_permissions = permissions, rdb_joins = joins, rdb_ids = j\<rparr> (the (id_of roles name)))"
    then obtain pid x where x: "(i, pid) \<in> set joins" "x \<in> set permissions" "row_id x = pid" "row_key x = p"
      by (auto simp: role_grants_def i split: if_splits)
    then obtain name' ks q where "(name', ks) \<in> set rp" "q \<in> set ks" "i = the (id_of roles name')" "pid = the (id_of permissions q)" unfolding joins by auto
    then show "p \<in> set (keys_of rp name)" using same row x kset by metis
  next
    fix p assume "p \<in> set (keys_of rp name)"
    then obtain ks where ks: "(name, ks) \<in> set rp" "p \<in> set ks" using kset by blast
    then have "(i, the (id_of permissions p)) \<in> set joins" unfolding joins using i by force
    moreover obtain x where "x \<in> set permissions" "row_id x = the (id_of permissions p)" "row_key x = p" using ex ks by blast
    ultimately show "p \<in> set (role_grants \<lparr>rdb_roles = roles, rdb_permissions = permissions, rdb_joins = joins, rdb_ids = j\<rparr> (the (id_of roles name)))"
      by (force simp: role_grants_def i)
  qed
qed

lemma seedRbacCatalog_empty: "mergeRbacCatalog m = Inr c \<Longrightarrow> rdb_roles db = [] \<Longrightarrow> seedRbacCatalog U m db = seedEmptyCatalog U c db"
  by (simp add: seedRbacCatalog_def)

text \<open>C22: Role-based access end to end: when the catalog of a module is seeded into an empty database, a user
  assigned some of its roles is read back with exactly those roles, and with exactly the permissions
  the merged catalog lists for them.\<close>

theorem seeded_user_has_exactly_its_roles_permissions:
  assumes "inj U" and "mergeRbacCatalog m = Inr c" and "rdb_roles db = []" and "rdb_permissions db = []" and "rdb_joins db = []"
    and "seedRbacCatalog U m db = Inr db'" and "set names \<subseteq> fst ` set (rc_roles c)"
  shows "set (user_roles db' (map (\<lambda>n. the (id_of (rdb_roles db') n)) names)) = set names \<and>
    set (user_permissions db' (map (\<lambda>n. the (id_of (rdb_roles db') n)) names)) = (\<Union>n\<in>set names. set (keys_of (rc_rolePermissions c) n))"
proof -
  have e: "empty_db db" using assms(3-5) by (simp add: empty_db_def)
  obtain roles permissions n k where t: "row_table U roles n" "row_key ` set roles = fst ` set (rc_roles c)" "row_table U permissions k"
      "seedEmptyCatalog U c db = (case rolePermissionRows (id_of roles) (id_of permissions) (rc_rolePermissions c) of Inl x \<Rightarrow> Inl x
       | Inr joins \<Rightarrow> Inr \<lparr>rdb_roles = roles, rdb_permissions = permissions, rdb_joins = joins, rdb_ids = k\<rparr>)"
    using seed_empty [OF assms(1,2) e] by metis
  then obtain joins where js: "rolePermissionRows (id_of roles) (id_of permissions) (rc_rolePermissions c) = Inr joins"
      and db': "db' = \<lparr>rdb_roles = roles, rdb_permissions = permissions, rdb_joins = joins, rdb_ids = k\<rparr>"
    using assms(6) seedRbacCatalog_empty [OF assms(2,3)] by (auto split: sum.splits)
  have g: "set (role_grants db' (the (id_of roles m))) = set (keys_of (rc_rolePermissions c) m)" if "m \<in> set names" for m
    unfolding db' using role_grants_seeded [OF t(1,3) catalog_wf(3) [OF assms(2)] js] that assms(7) t(2) by blast
  have r: "{x \<in> set roles. row_id x = the (id_of roles m)} = {x \<in> set roles. row_key x = m}" if "m \<in> set names" for m
  proof -
    have "m \<in> row_key ` set roles" using that assms(7) t(2) by blast
    then obtain r where "r \<in> set roles" "row_key r = m" "id_of roles m = Some (row_id r)" "\<forall>x\<in>set roles. row_id x = row_id r \<longleftrightarrow> row_key x = m"
      by (rule id_of_row [OF t(1)])
    then show ?thesis by auto
  qed
  have "rdb_roles db' = roles" by (simp add: db')
  moreover have "set names = (\<Union>m\<in>set names. row_key ` {x \<in> set roles. row_key x = m})" using assms(7) t(2) by fastforce
  ultimately show ?thesis using g r by (simp add: user_roles_def user_permissions_def)
qed

text \<open>The catalog of the quote-to-cash module, evaluated step by step.\<close>

lemma dealflow_permissions:
  "merge_permissions DEFAULT_PERMISSIONS DEALFLOW_PERMISSIONS = Inr (DEFAULT_PERMISSIONS @ DEALFLOW_PERMISSIONS)"
  by code_simp

definition dealflow_roles :: role_permissions where
  "dealflow_roles = set_keys ''admin'' (map fst (DEFAULT_PERMISSIONS @ DEALFLOW_PERMISSIONS)) (foldl merge_role DEFAULT_ROLE_PERMISSIONS DEALFLOW_ROLE_PERMISSIONS)"

definition dealflow_catalog :: rbac_catalog where
  "dealflow_catalog = \<lparr>rc_roles = DEFAULT_ROLES @ map (\<lambda>n. (n, extra_description n)) (filter (\<lambda>n. n \<notin> fst ` set DEFAULT_ROLES) (map fst dealflow_roles)),
     rc_permissions = DEFAULT_PERMISSIONS @ DEALFLOW_PERMISSIONS, rc_rolePermissions = dealflow_roles\<rparr>"

lemma dealflow_catalog_merges: "mergeRbacCatalog (Some dealflow_module) = Inr dealflow_catalog"
  by (simp add: mergeRbacCatalog_def dealflow_module_def dealflow_permissions dealflow_catalog_def dealflow_roles_def Let_def)

definition granted_to :: "string \<Rightarrow> role_permissions \<Rightarrow> string list" where
  "granted_to p rp = map fst (filter (\<lambda>(n, ks). p \<in> set ks) rp)"

definition catalog_facts :: "role_permissions \<Rightarrow> string list \<times> bool \<times> string list list" where
  "catalog_facts rp = (map fst rp, list_all (\<lambda>(n, ks). list_all (\<lambda>k. k \<in> fst ` set (DEFAULT_PERMISSIONS @ DEALFLOW_PERMISSIONS)) ks) rp,
     map (\<lambda>p. granted_to p rp) [''dealflow.quotes.lock'', ''dealflow.quotes.approve'', ''dealflow.quotes.write'', ''dealflow.catalog.write''])"

lemma dealflow_evaluated:
  "catalog_facts dealflow_roles = ([''admin'', ''manager'', ''staff'', ''user'', ''finance'', ''operations''], True,
     [[''admin'', ''finance''], [''admin'', ''manager'', ''finance''], [''admin'', ''manager'', ''staff''], [''admin'']])"
  by code_simp

lemmas dealflow_facts = dealflow_evaluated [unfolded catalog_facts_def prod.inject list.map list.inject]

lemma dealflow_grants:
  "p \<in> set (keys_of dealflow_roles r) \<longleftrightarrow> r \<in> set (granted_to p dealflow_roles)"
proof -
  have d: "distinct (map fst dealflow_roles)"
    using catalog_wf(3) [OF dealflow_catalog_merges] by (simp add: dealflow_catalog_def keyed_def)
  show ?thesis
    using map_of_eq_Some_iff [OF d] by (cases "map_of dealflow_roles r") (force simp: granted_to_def keys_of_def map_of_eq_None_iff)+
qed

lemma dealflow_fields:
  "rc_rolePermissions dealflow_catalog = dealflow_roles" "rc_permissions dealflow_catalog = DEFAULT_PERMISSIONS @ DEALFLOW_PERMISSIONS"
  by (simp_all add: dealflow_catalog_def)

lemma dealflow_known: "(n, ks) \<in> set dealflow_roles \<Longrightarrow> k \<in> set ks \<Longrightarrow> k \<in> fst ` set (DEFAULT_PERMISSIONS @ DEALFLOW_PERMISSIONS)"
  using dealflow_facts unfolding list_all_iff by blast

text \<open>Separation of duties in the seeded roles of the quote-to-cash module: its catalog merges with the
  default one, every permission a role names exists, so seeding succeeds; only finance and the
  administrator may lock a deal, and no other role than the administrator may both write and lock
  quotations.\<close>

theorem dealflow_roles_separate_duties:
  "mergeRbacCatalog (Some dealflow_module) = Inr dealflow_catalog \<and>
   (\<Union>r. set (keys_of (rc_rolePermissions dealflow_catalog) r)) \<subseteq> fst ` set (rc_permissions dealflow_catalog) \<and>
   {r. ''dealflow.quotes.lock'' \<in> set (keys_of (rc_rolePermissions dealflow_catalog) r)} = {''admin'', ''finance''} \<and>
   {r. ''dealflow.quotes.write'' \<in> set (keys_of (rc_rolePermissions dealflow_catalog) r)} = {''admin'', ''manager'', ''staff''} \<and>
   {r. ''dealflow.catalog.write'' \<in> set (keys_of (rc_rolePermissions dealflow_catalog) r)} = {''admin''}"
proof -
  have "k \<in> fst ` set (DEFAULT_PERMISSIONS @ DEALFLOW_PERMISSIONS)" if key: "k \<in> set (keys_of dealflow_roles r)" for r k
  proof -
    obtain ks where "map_of dealflow_roles r = Some ks" "k \<in> set ks"
      using key by (cases "map_of dealflow_roles r") (simp_all add: keys_of_def)
    then show ?thesis using dealflow_known map_of_SomeD by metis
  qed
  then have "(\<Union>r. set (keys_of dealflow_roles r)) \<subseteq> fst ` set (DEFAULT_PERMISSIONS @ DEALFLOW_PERMISSIONS)" by blast
  then show ?thesis unfolding dealflow_fields by (intro conjI dealflow_catalog_merges) (simp_all add: dealflow_grants dealflow_facts set_eq_iff)
qed

lemma dealflow_seeds:
  assumes "inj U" and "rdb_roles db = []" and "rdb_permissions db = []" and "rdb_joins db = []"
  shows "\<exists>db'. seedRbacCatalog U (Some dealflow_module) db = Inr db'"
proof -
  have e: "empty_db db" using assms(2-4) by (simp add: empty_db_def)
  obtain roles permissions n k where t: "row_key ` set roles = fst ` set (rc_roles dealflow_catalog)"
      "row_key ` set permissions = fst ` set (rc_permissions dealflow_catalog)"
      "seedEmptyCatalog U dealflow_catalog db = (case rolePermissionRows (id_of roles) (id_of permissions) (rc_rolePermissions dealflow_catalog) of Inl x \<Rightarrow> Inl x
       | Inr joins \<Rightarrow> Inr \<lparr>rdb_roles = roles, rdb_permissions = permissions, rdb_joins = joins, rdb_ids = k\<rparr>)"
    using seed_empty [OF assms(1) dealflow_catalog_merges e] by metis
  have "id_of roles r \<noteq> None" if "(r, ks) \<in> set dealflow_roles" for r ks
  proof -
    have "r \<in> fst ` set (rc_rolePermissions dealflow_catalog)" using that by (metis dealflow_fields(1) fst_conv image_eqI)
    then show ?thesis unfolding id_of_None t(1) using catalog_wf(4) [OF dealflow_catalog_merges] by blast
  qed
  moreover have "id_of permissions p \<noteq> None" if "(r, ks) \<in> set dealflow_roles" "p \<in> set ks" for r ks p
    unfolding id_of_None t(2) dealflow_fields using dealflow_known that by blast
  ultimately obtain joins where "rolePermissionRows (id_of roles) (id_of permissions) (rc_rolePermissions dealflow_catalog) = Inr joins"
    using rolePermissionRows_total [of dealflow_roles "id_of roles" "id_of permissions"] unfolding dealflow_fields by blast
  then show ?thesis using t(3) seedRbacCatalog_empty [OF dealflow_catalog_merges assms(2)] by simp
qed

definition unary :: "nat \<Rightarrow> string" where
  "unary n = replicate n (CHR ''x'')"

lemma inj_unary: "inj unary"
  by (auto simp: inj_def unary_def dest: arg_cong [where f = length])

definition no_rows :: rbac_db where
  "no_rows = \<lparr>rdb_roles = [], rdb_permissions = [], rdb_joins = [], rdb_ids = 0\<rparr>"

lemma no_rows_simps [simp]: "rdb_roles no_rows = []" "rdb_permissions no_rows = []" "rdb_joins no_rows = []"
  by (simp_all add: no_rows_def)

theorem seed_paths_agree_witness:
  "\<exists>db. seedEmptyCatalog unary dealflow_catalog no_rows = Inr db \<and> seedCatalogByUpsert unary dealflow_catalog no_rows = Inr db"
proof -
  obtain db where "seedEmptyCatalog unary dealflow_catalog no_rows = Inr db"
    using dealflow_seeds [OF inj_unary, of no_rows] seedRbacCatalog_empty [OF dealflow_catalog_merges, of no_rows unary] by auto
  then show ?thesis using seed_paths_agree [OF inj_unary dealflow_catalog_merges, of no_rows] by simp
qed

theorem seeded_user_has_exactly_its_roles_permissions_witness:
  "\<exists>db. seedRbacCatalog unary (Some dealflow_module) no_rows = Inr db \<and>
     ''dealflow.quotes.lock'' \<in> set (user_permissions db [the (id_of (rdb_roles db) ''finance'')]) \<and>
     ''dealflow.quotes.lock'' \<notin> set (user_permissions db [the (id_of (rdb_roles db) ''manager'')])"
proof -
  obtain db where db: "seedRbacCatalog unary (Some dealflow_module) no_rows = Inr db"
    using dealflow_seeds [OF inj_unary, of no_rows] by auto
  have "set (map fst dealflow_roles) \<subseteq> fst ` set (rc_roles dealflow_catalog)"
    using catalog_wf(4) [OF dealflow_catalog_merges] unfolding dealflow_fields by simp
  then have names: "{''admin'', ''manager'', ''staff'', ''user'', ''finance'', ''operations''} \<subseteq> fst ` set (rc_roles dealflow_catalog)"
    using dealflow_facts(1) by simp
  have n: "set [''finance''] \<subseteq> fst ` set (rc_roles dealflow_catalog)" "set [''manager''] \<subseteq> fst ` set (rc_roles dealflow_catalog)"
    using names by auto
  note user = seeded_user_has_exactly_its_roles_permissions [OF inj_unary dealflow_catalog_merges _ _ _ db, simplified dealflow_fields]
  have "set (granted_to ''dealflow.quotes.lock'' dealflow_roles) = {''admin'', ''finance''}" by (simp add: dealflow_facts)
  then show ?thesis using db user [OF _ _ _ n(1)] user [OF _ _ _ n(2)] by (simp add: dealflow_grants)
qed

end
