(* ===== verification/Platform_Kv.thy ===== *)
theory Platform_Kv
  imports Platform_Rbac
begin

text \<open>
  The key-value store with expiry (\<open>MemoryKvStore\<close> of \<open>backend/src/lib/kv.ts\<close>), the idempotency keys over it
  (\<open>lib/idempotency.ts\<close>), durations (\<open>lib/duration.ts\<close>) and the fixed-window rate limiter
  (\<open>security/rate-limit\<close>). A store is the list of the entries of the JavaScript \<open>Map\<close> in insertion order,
  the clock is an argument, times are milliseconds. The type of the values is a parameter: the code
  stores strings, some of them the JSON text of a record.
\<close>

section \<open>The store\<close>

record 'v kv_entry =
  kv_value :: 'v
  kv_expiresAt :: "int option"

type_synonym 'v kv = "(string \<times> 'v kv_entry) list"

definition expired :: "int \<Rightarrow> 'v kv_entry \<Rightarrow> bool" where
  "expired now e = (case kv_expiresAt e of None \<Rightarrow> False | Some t \<Rightarrow> t \<le> now)"

definition kv_del :: "string \<Rightarrow> 'v kv \<Rightarrow> 'v kv" where
  "kv_del key m = filter (\<lambda>p. fst p \<noteq> key) m"

definition kv_get :: "int \<Rightarrow> string \<Rightarrow> 'v kv \<Rightarrow> 'v option \<times> 'v kv" where
  "kv_get now key m = (case map_of m key of
     None \<Rightarrow> (None, m)
   | Some e \<Rightarrow> if expired now e then (None, kv_del key m) else (Some (kv_value e), m))"

definition kv_entry_for :: "int \<Rightarrow> 'v \<Rightarrow> int option \<Rightarrow> 'v kv_entry" where
  "kv_entry_for now v ttlMs = \<lparr>kv_value = v,
     kv_expiresAt = (case ttlMs of None \<Rightarrow> None | Some t \<Rightarrow> if 0 < t then Some (now + t) else None)\<rparr>"

definition kv_set :: "int \<Rightarrow> string \<Rightarrow> 'v \<Rightarrow> int option \<Rightarrow> 'v kv \<Rightarrow> 'v kv" where
  "kv_set now key v ttlMs m = upsert_by (\<lambda>p. fst p = key) (key, kv_entry_for now v ttlMs) m"

definition kv_setNx :: "int \<Rightarrow> string \<Rightarrow> 'v \<Rightarrow> int option \<Rightarrow> 'v kv \<Rightarrow> bool \<times> 'v kv" where
  "kv_setNx now key v ttlMs m = (case map_of m key of
     Some e \<Rightarrow> if \<not> expired now e then (False, m) else (True, kv_set now key v ttlMs m)
   | None \<Rightarrow> (True, kv_set now key v ttlMs m))"

definition kv_pruneExpired :: "int \<Rightarrow> 'v kv \<Rightarrow> nat \<times> 'v kv" where
  "kv_pruneExpired now m = (length (filter (\<lambda>p. expired now (snd p)) m), filter (\<lambda>p. \<not> expired now (snd p)) m)"

text \<open>What a store answers for a key at a time; the laws of the operations over it.\<close>

definition kv_read :: "'v kv \<Rightarrow> int \<Rightarrow> string \<Rightarrow> 'v option" where
  "kv_read m now key = fst (kv_get now key m)"

definition kv_ok :: "'v kv \<Rightarrow> bool" where
  "kv_ok m \<longleftrightarrow> distinct (map fst m)"

lemma map_of_upsert_pair: "map_of (upsert_by (\<lambda>p. fst p = k) (k, v) m) = (map_of m)(k \<mapsto> v)"
  by (induction m) auto

lemma map_of_kv_del: "map_of (kv_del k m) = (map_of m)(k := None)"
  by (induction m) (auto simp: kv_del_def)

lemma kv_read_map: "kv_read m now key = (case map_of m key of None \<Rightarrow> None | Some e \<Rightarrow> if expired now e then None else Some (kv_value e))"
  by (simp add: kv_read_def kv_get_def split: option.split)

lemma kv_read_set:
  "kv_read (kv_set now k v ttl m) t k' =
     (if k' = k then (case ttl of None \<Rightarrow> Some v | Some d \<Rightarrow> if 0 < d \<and> now + d \<le> t then None else Some v) else kv_read m t k')"
  by (simp add: kv_read_map kv_set_def map_of_upsert_pair kv_entry_for_def expired_def split: option.split)

lemma kv_read_del: "kv_read (kv_del k m) t k' = (if k' = k then None else kv_read m t k')"
  by (simp add: kv_read_map map_of_kv_del)

text \<open>Reading is invisible, at this time and later ones.\<close>

lemma kv_get_frame: "now \<le> t \<Longrightarrow> kv_read (snd (kv_get now k m)) t k' = kv_read m t k'"
  by (auto simp: kv_get_def kv_read_map map_of_kv_del expired_def split: option.splits)

lemma kv_setNx_exact: "kv_setNx now k v ttl m = (if kv_read m now k = None then (True, kv_set now k v ttl m) else (False, m))"
  by (simp add: kv_setNx_def kv_read_map split: option.split)

lemma kv_prune_frame:
  assumes "kv_ok m" and "now \<le> t"
  shows "kv_read (snd (kv_pruneExpired now m)) t k = kv_read m t k"
proof -
  have "map_of (filter (\<lambda>p. \<not> expired now (snd p)) m) k =
      (case map_of m k of None \<Rightarrow> None | Some e \<Rightarrow> if expired now e then None else Some e)"
    using assms(1) by (induction m) (auto simp: kv_ok_def map_of_eq_None_iff [symmetric] split: option.splits)
  moreover have "expired now e \<Longrightarrow> expired t e" for e using assms(2) by (auto simp: expired_def split: option.splits)
  ultimately show ?thesis by (auto simp: kv_pruneExpired_def kv_read_map split: option.splits)
qed

lemma kv_ok_preserved [simp]:
  "kv_ok m \<Longrightarrow> kv_ok (kv_set now k v ttl m)" "kv_ok m \<Longrightarrow> kv_ok (kv_del k m)"
  "kv_ok m \<Longrightarrow> kv_ok (snd (kv_get now k m))" "kv_ok m \<Longrightarrow> kv_ok (snd (kv_setNx now k v ttl m))"
  "kv_ok m \<Longrightarrow> kv_ok (snd (kv_pruneExpired now m))"
proof -
  show s: "kv_ok m \<Longrightarrow> kv_ok (kv_set now k v ttl m)" for ttl
    using distinct_upsert_key [of fst m "(k, kv_entry_for now v ttl)"] by (simp add: kv_ok_def kv_set_def)
  show d: "kv_ok m \<Longrightarrow> kv_ok (kv_del k m)" by (simp add: kv_ok_def kv_del_def distinct_map_filter)
  show "kv_ok m \<Longrightarrow> kv_ok (snd (kv_get now k m))" using d by (simp add: kv_get_def split: option.split)
  show "kv_ok m \<Longrightarrow> kv_ok (snd (kv_setNx now k v ttl m))" using s by (simp add: kv_setNx_exact)
  show "kv_ok m \<Longrightarrow> kv_ok (snd (kv_pruneExpired now m))" by (simp add: kv_ok_def kv_pruneExpired_def distinct_map_filter)
qed

section \<open>Durations\<close>

definition digit_value :: "char \<Rightarrow> int" where
  "digit_value c = int (of_char c) - 48"

definition digits_value :: "string \<Rightarrow> int" where
  "digits_value s = foldl (\<lambda>n c. 10 * n + digit_value c) 0 s"

definition UNIT_MS :: "(string \<times> int) list" where
  "UNIT_MS = [(''ms'', 1), (''s'', 1000), (''m'', 60000), (''h'', 3600000), (''d'', 86400000)]"

text \<open>\<open>DURATION_PATTERN\<close>: digits, then a unit in either case.\<close>

definition parseDurationToMs :: "string \<Rightarrow> app_error + int" where
  "parseDurationToMs value =
     (let trimmed = js_trim value; amount = takeWhile is_digit trimmed; unit = toLowerCase (dropWhile is_digit trimmed) in
      case map_of UNIT_MS unit of
        Some ms \<Rightarrow> if amount \<noteq> [] then Inr (digits_value amount * ms) else Inl (Js_error ''Invalid duration'')
      | None \<Rightarrow> Inl (Js_error ''Invalid duration''))"

definition parseDurationToSeconds :: "string \<Rightarrow> app_error + int" where
  "parseDurationToSeconds value = map_sum id (\<lambda>ms. ms div 1000) (parseDurationToMs value)"

section \<open>Idempotency keys\<close>

definition idem_key :: "string \<Rightarrow> string" where
  "idem_key key = ''idempotency:'' @ key"

definition idem_isCompleted :: "int \<Rightarrow> string \<Rightarrow> string kv \<Rightarrow> bool \<times> string kv" where
  "idem_isCompleted now key m = (case kv_get now (idem_key key) m of (v, m') \<Rightarrow> (v = Some ''completed'', m'))"

definition idem_begin :: "int \<Rightarrow> string \<Rightarrow> int \<Rightarrow> string kv \<Rightarrow> bool \<times> string kv" where
  "idem_begin now key ttlMs m = (case idem_isCompleted now key m of (c, m') \<Rightarrow>
     if c then (False, m') else kv_setNx now (idem_key key) ''in_progress'' (Some ttlMs) m')"

definition idem_complete :: "int \<Rightarrow> string \<Rightarrow> int \<Rightarrow> string kv \<Rightarrow> string kv" where
  "idem_complete now key ttlMs m = kv_set now (idem_key key) ''completed'' (Some ttlMs) m"

definition idem_release :: "int \<Rightarrow> string \<Rightarrow> string kv \<Rightarrow> string kv" where
  "idem_release now key m = (case kv_get now (idem_key key) m of (v, m') \<Rightarrow>
     if v = Some ''in_progress'' then kv_del (idem_key key) m' else m')"

datatype idem_op = Idem_begin string int | Idem_complete string int | Idem_release string

fun idem_step :: "int \<Rightarrow> idem_op \<Rightarrow> string kv \<Rightarrow> bool \<times> string kv" where
  "idem_step now (Idem_begin k ttl) m = idem_begin now k ttl m"
| "idem_step now (Idem_complete k ttl) m = (True, idem_complete now k ttl m)"
| "idem_step now (Idem_release k) m = (True, idem_release now k m)"

text \<open>The answers to a sequence of timed calls.\<close>

fun idem_run :: "(int \<times> idem_op) list \<Rightarrow> string kv \<Rightarrow> string kv" where
  "idem_run [] m = m"
| "idem_run ((t, op) # ops) m = idem_run ops (snd (idem_step t op m))"

lemma idem_key_inj [simp]: "idem_key k = idem_key k' \<longleftrightarrow> k = k'"
  by (simp add: idem_key_def)

text \<open>What the three calls answer and leave readable.\<close>

lemma idem_begin_reads:
  "fst (idem_begin now key ttl m) \<longleftrightarrow> kv_read m now (idem_key key) = None"
  "now \<le> t \<Longrightarrow> kv_read (snd (idem_begin now key ttl m)) t k =
     (if kv_read m now (idem_key key) = None \<and> k = idem_key key then (if 0 < ttl \<and> now + ttl \<le> t then None else Some ''in_progress'')
      else kv_read m t k)"
proof -
  let ?k = "idem_key key"
  obtain v m1 where g: "kv_get now ?k m = (v, m1)" by (cases "kv_get now ?k m")
  have v: "v = kv_read m now ?k" using g by (simp add: kv_read_def)
  have m1: "kv_read m1 t' k' = kv_read m t' k'" if "now \<le> t'" for t' k' using kv_get_frame [OF that, of ?k m k'] g by simp
  have b: "idem_begin now key ttl m = (if v = Some ''completed'' then (False, m1) else kv_setNx now ?k ''in_progress'' (Some ttl) m1)"
    by (simp add: idem_begin_def idem_isCompleted_def g)
  show "fst (idem_begin now key ttl m) \<longleftrightarrow> kv_read m now ?k = None"
    unfolding b kv_setNx_exact m1 [OF order_refl] v [symmetric] by simp
  show "kv_read (snd (idem_begin now key ttl m)) t k =
     (if kv_read m now ?k = None \<and> k = ?k then (if 0 < ttl \<and> now + ttl \<le> t then None else Some ''in_progress'') else kv_read m t k)" if "now \<le> t"
    unfolding b kv_setNx_exact m1 [OF order_refl] v [symmetric] using m1 [OF that] by (simp add: kv_read_set)
qed

lemma idem_complete_reads:
  "kv_read (idem_complete now key ttl m) t k =
     (if k = idem_key key then (if 0 < ttl \<and> now + ttl \<le> t then None else Some ''completed'') else kv_read m t k)"
  by (simp add: idem_complete_def kv_read_set)

lemma idem_release_reads:
  assumes "now \<le> t"
  shows "kv_read (idem_release now key m) t k =
     (if kv_read m now (idem_key key) = Some ''in_progress'' \<and> k = idem_key key then None else kv_read m t k)"
proof -
  obtain v m1 where g: "kv_get now (idem_key key) m = (v, m1)" by (cases "kv_get now (idem_key key) m")
  have "v = kv_read m now (idem_key key)" using g by (simp add: kv_read_def)
  moreover have "kv_read m1 t k = kv_read m t k" using kv_get_frame [OF assms, of "idem_key key" m k] g by simp
  ultimately show ?thesis by (simp add: idem_release_def g kv_read_del)
qed

lemma kv_read_live: "kv_read m t k = Some v \<Longrightarrow> s \<le> t \<Longrightarrow> kv_read m s k = Some v"
  by (auto simp: kv_read_map expired_def split: option.splits if_splits)

text \<open>A call that does not release the key keeps a live entry of it; a completed entry survives every call
  that leaves it time.\<close>

lemma idem_step_keeps:
  assumes "s \<le> t" and live: "kv_read m t (idem_key k) = Some v" and "v = ''completed'' \<or> op \<noteq> Idem_release k"
    and "\<forall>ttl. op = Idem_complete k ttl \<longrightarrow> ttl \<le> 0 \<or> t < s + ttl"
  shows "\<exists>v'. kv_read (snd (idem_step s op m)) t (idem_key k) = Some v' \<and> (v = ''completed'' \<longrightarrow> v' = ''completed'')"
proof -
  have "kv_read m s (idem_key k) = Some v" by (rule kv_read_live [OF live assms(1)])
  then show ?thesis using assms
    by (cases op) (auto simp: idem_begin_reads(2) idem_complete_reads idem_release_reads)
qed

definition idem_quiet :: "int \<Rightarrow> string \<Rightarrow> int \<times> idem_op \<Rightarrow> bool" where
  "idem_quiet t k c = (fst c \<le> t \<and> snd c \<noteq> Idem_release k \<and> (case snd c of Idem_complete k' ttl \<Rightarrow> k' = k \<longrightarrow> ttl \<le> 0 \<or> t < fst c + ttl | _ \<Rightarrow> True))"

lemma idem_run_keeps:
  "list_all (idem_quiet t k) cs \<Longrightarrow> kv_read m t (idem_key k) = Some v \<Longrightarrow> kv_read (idem_run cs m) t (idem_key k) \<noteq> None"
proof (induction cs arbitrary: m v)
  case (Cons c cs)
  obtain s op where c: "c = (s, op)" by (cases c)
  have "\<exists>v'. kv_read (snd (idem_step s op m)) t (idem_key k) = Some v' \<and> (v = ''completed'' \<longrightarrow> v' = ''completed'')"
    using Cons.prems by (intro idem_step_keeps) (auto simp: c idem_quiet_def split: idem_op.splits)
  then show ?case using Cons by (auto simp: c)
qed simp

text \<open>An idempotency key admits one runner: after a successful \<open>begin\<close> with a life time, every further \<open>begin\<close> of
  the key within that time is refused, whatever calls, on this key or others, come in between, unless
  the key is released or completed with a life time that runs out before.\<close>

theorem idempotency_admits_one_runner:
  assumes "fst (idem_begin now k ttl m)" and "now \<le> t" and "t < now + ttl"
    and "list_all (idem_quiet t k) cs"
  shows "\<not> fst (idem_begin t k ttl' (idem_run cs (snd (idem_begin now k ttl m))))"
proof -
  have "kv_read (snd (idem_begin now k ttl m)) t (idem_key k) = Some ''in_progress''"
    using assms(1-3) by (simp add: idem_begin_reads)
  then show ?thesis using idem_run_keeps [OF assms(4)] by (simp add: idem_begin_reads(1))
qed

theorem idempotency_admits_one_runner_witness:
  "\<not> fst (idem_begin 5 ''a'' 10 (idem_run [(1, Idem_begin ''b'' 10), (2, Idem_complete ''a'' 10), (3, Idem_release ''b'')] (snd (idem_begin 0 ''a'' 10 []))))"
  by (rule idempotency_admits_one_runner) (simp_all add: idem_begin_reads kv_read_map idem_quiet_def)

end
