(* ===== verification/Platform_RateLimit.thy ===== *)
theory Platform_RateLimit
  imports Platform_Kv
begin

text \<open>
  The fixed-window rate limiter of \<open>backend/src/security/rate-limit\<close>: the memory store, the limiter over it
  and the middleware's decision. The store is the list of the \<open>Map\<close>'s entries; the clock is an argument.
  A store call that throws is the value \<open>None\<close> of its outcome.
\<close>

record rl_entry =
  rl_count :: nat
  rl_resetAt :: int

type_synonym rl_store = "(string \<times> rl_entry) list"

definition increment :: "int \<Rightarrow> int \<Rightarrow> rl_entry option \<Rightarrow> rl_entry" where
  "increment now windowMs current = (case current of
     None \<Rightarrow> \<lparr>rl_count = 1, rl_resetAt = now + windowMs\<rparr>
   | Some c \<Rightarrow> if rl_resetAt c \<le> now then \<lparr>rl_count = 1, rl_resetAt = now + windowMs\<rparr>
              else c\<lparr>rl_count := rl_count c + 1\<rparr>)"

definition store_increment :: "int \<Rightarrow> string \<Rightarrow> int \<Rightarrow> rl_store \<Rightarrow> rl_entry \<times> rl_store" where
  "store_increment now key windowMs m =
     (let e = increment now windowMs (map_of m key) in (e, upsert_by (\<lambda>p. fst p = key) (key, e) m))"

record rl_options =
  ro_windowMs :: int
  ro_max :: nat
  ro_prefix :: string
  ro_enabled :: bool

record rl_decision =
  rd_allowed :: bool
  rd_limit :: nat
  rd_remaining :: nat
  rd_resetAt :: int

definition rl_consume :: "rl_options \<Rightarrow> int \<Rightarrow> string \<Rightarrow> rl_store \<Rightarrow> rl_decision \<times> rl_store" where
  "rl_consume opts now key m =
     (case store_increment now (ro_prefix opts @ '':'' @ key) (ro_windowMs opts) m of (e, m') \<Rightarrow>
       (\<lparr>rd_allowed = (rl_count e \<le> ro_max opts), rd_limit = ro_max opts,
         rd_remaining = ro_max opts - rl_count e, rd_resetAt = rl_resetAt e\<rparr>, m'))"

text \<open>The middleware: a limiter that is not enabled lets everything through; when the store fails, the
  request is refused or let through according to \<open>failClosed\<close>.\<close>

datatype rl_answer = Rl_next | Rl_refuse int

definition rateLimit :: "rl_options \<Rightarrow> bool \<Rightarrow> int \<Rightarrow> rl_decision option \<Rightarrow> rl_answer" where
  "rateLimit opts failClosed now outcome =
     (if \<not> ro_enabled opts then Rl_next
      else case outcome of
        None \<Rightarrow> if failClosed then Rl_refuse 30 else Rl_next
      | Some d \<Rightarrow> if rd_allowed d then Rl_next else Rl_refuse (max 1 (- ((now - rd_resetAt d) div 1000))))"

text \<open>The answers to a list of timed requests.\<close>

fun rl_run :: "rl_options \<Rightarrow> (int \<times> string) list \<Rightarrow> rl_store \<Rightarrow> rl_decision list" where
  "rl_run opts [] m = []"
| "rl_run opts ((t, k) # rs) m = (case rl_consume opts t k m of (d, m') \<Rightarrow> d # rl_run opts rs m')"

section \<open>One key\<close>

text \<open>The entries one key sees; the requests of other keys do not touch them.\<close>

fun windows :: "int \<Rightarrow> int list \<Rightarrow> rl_entry option \<Rightarrow> (int \<times> rl_entry) list" where
  "windows W [] e = []"
| "windows W (t # ts) e = (t, increment t W e) # windows W ts (Some (increment t W e))"

lemma map_of_store_increment:
  "map_of (snd (store_increment t k W m)) k' = (if k' = k then Some (increment t W (map_of m k)) else map_of m k')"
  by (simp add: store_increment_def Let_def map_of_upsert_pair)

definition decisions_of :: "rl_options \<Rightarrow> string \<Rightarrow> (int \<times> string) list \<Rightarrow> rl_store \<Rightarrow> (int \<times> rl_decision) list" where
  "decisions_of opts k rs m = map (\<lambda>(r, d). (fst r, d)) (filter (\<lambda>(r, d). snd r = k) (zip rs (rl_run opts rs m)))"

definition decision_on :: "rl_options \<Rightarrow> rl_entry \<Rightarrow> rl_decision" where
  "decision_on opts e = \<lparr>rd_allowed = (rl_count e \<le> ro_max opts), rd_limit = ro_max opts,
     rd_remaining = ro_max opts - rl_count e, rd_resetAt = rl_resetAt e\<rparr>"

lemma decisions_of_windows:
  "decisions_of opts k rs m = map (\<lambda>(t, e). (t, decision_on opts e))
     (windows (ro_windowMs opts) (map fst (filter (\<lambda>r. snd r = k) rs)) (map_of m (ro_prefix opts @ '':'' @ k)))"
proof (induction rs arbitrary: m)
  case (Cons r rs)
  obtain t k' where r: "r = (t, k')" by (cases r)
  let ?m = "snd (store_increment t (ro_prefix opts @ '':'' @ k') (ro_windowMs opts) m)"
  have "rl_consume opts t k' m = (decision_on opts (increment t (ro_windowMs opts) (map_of m (ro_prefix opts @ '':'' @ k'))), ?m)"
    by (simp add: rl_consume_def store_increment_def Let_def decision_on_def)
  note step = this
  show ?case
  proof (cases "k' = k")
    case True
    then show ?thesis using Cons.IH [of ?m] step by (simp add: r decisions_of_def map_of_store_increment)
  next
    case False
    then show ?thesis using Cons.IH [of ?m] step by (simp add: r decisions_of_def map_of_store_increment)
  qed
qed (simp add: decisions_of_def)

section \<open>How many requests a client gets through\<close>

text \<open>Invariant of a key's history: every request lies in the window it was counted in, windows of later
  requests are the same or start at least a window length later, and the counts inside one window are
  distinct and positive.\<close>

definition in_window :: "int \<Rightarrow> int \<times> rl_entry \<Rightarrow> bool" where
  "in_window W x \<longleftrightarrow> rl_resetAt (snd x) - W \<le> fst x \<and> fst x < rl_resetAt (snd x) \<and> 1 \<le> rl_count (snd x)"

definition after_entry :: "int \<Rightarrow> rl_entry \<Rightarrow> rl_entry \<Rightarrow> bool" where
  "after_entry W e e' \<longleftrightarrow> rl_resetAt e' = rl_resetAt e \<and> rl_count e < rl_count e' \<or> rl_resetAt e + W \<le> rl_resetAt e'"

lemma increment_window:
  assumes "0 < W" and "rl_resetAt e - W \<le> t" and "1 \<le> rl_count e"
  shows "in_window W (t, increment t W (Some e))" and "after_entry W e (increment t W (Some e))"
  using assms by (auto simp: increment_def after_entry_def in_window_def)

lemma after_trans: "0 < W \<Longrightarrow> after_entry W e f \<Longrightarrow> after_entry W f g \<Longrightarrow> after_entry W e g"
  by (auto simp: after_entry_def)

lemma windows_after:
  assumes "0 < W" and "sorted ts" and "\<forall>t\<in>set ts. rl_resetAt e - W \<le> t" and "1 \<le> rl_count e"
  shows "(\<forall>x\<in>set (windows W ts (Some e)). in_window W x \<and> after_entry W e (snd x)) \<and>
    sorted_wrt (\<lambda>x y. after_entry W (snd x) (snd y)) (windows W ts (Some e))"
  using assms(2-4)
proof (induction ts arbitrary: e)
  case (Cons t ts)
  let ?e = "increment t W (Some e)"
  have "rl_resetAt e - W \<le> t" using Cons.prems(2) by simp
  note e = increment_window [OF assms(1) this Cons.prems(3)]
  have lo: "\<forall>s\<in>set ts. rl_resetAt ?e - W \<le> s" using Cons.prems(1) e(1) by (force simp: in_window_def)
  have "1 \<le> rl_count ?e" using e(1) by (simp add: in_window_def)
  then have IH: "(\<forall>x\<in>set (windows W ts (Some ?e)). in_window W x \<and> after_entry W ?e (snd x)) \<and>
      sorted_wrt (\<lambda>x y. after_entry W (snd x) (snd y)) (windows W ts (Some ?e))"
    using Cons.IH [OF _ lo] Cons.prems(1) by simp
  then show ?case using e after_trans [OF assms(1) e(2)] by auto
qed simp

lemma windows_history:
  assumes "0 < W" and "sorted ts"
  shows "\<forall>x\<in>set (windows W ts None). in_window W x" and "sorted_wrt (\<lambda>x y. after_entry W (snd x) (snd y)) (windows W ts None)"
proof -
  have "(\<forall>x\<in>set (windows W ts None). in_window W x) \<and> sorted_wrt (\<lambda>x y. after_entry W (snd x) (snd y)) (windows W ts None)"
  proof (cases ts)
    case (Cons t us)
    let ?e = "increment t W None"
    have e: "rl_resetAt ?e = t + W" "rl_count ?e = 1" by (simp_all add: increment_def)
    then show ?thesis using windows_after [OF assms(1), of us ?e] assms by (auto simp: Cons in_window_def)
  qed simp
  then show "\<forall>x\<in>set (windows W ts None). in_window W x" "sorted_wrt (\<lambda>x y. after_entry W (snd x) (snd y)) (windows W ts None)" by simp_all
qed

text \<open>One window lets at most \<open>n\<close> requests through; an interval as long as a window meets at most two windows.\<close>

lemma one_window:
  assumes "\<forall>x\<in>set xs. in_window W x" and "sorted_wrt (\<lambda>x y. after_entry W (snd x) (snd y)) xs" and "0 < W"
    and "\<forall>x\<in>set xs. rl_resetAt (snd x) = r \<and> rl_count (snd x) \<le> n"
  shows "length xs \<le> n"
proof -
  let ?c = "\<lambda>x. rl_count (snd x)"
  have "sorted_wrt (\<lambda>x y. ?c x < ?c y) xs"
    using assms(2) by (rule sorted_wrt_mono_rel [rotated]) (use assms(3,4) in \<open>auto simp: after_entry_def\<close>)
  then have "sorted_wrt (<) (map ?c xs)" by (simp add: sorted_wrt_map)
  then have "distinct (map ?c xs)" by (simp add: strict_sorted_iff)
  then have "card (set (map ?c xs)) = length xs" using distinct_card by fastforce
  moreover have "set (map ?c xs) \<subseteq> {1..n}" using assms(1,4) unfolding in_window_def by fastforce
  ultimately show ?thesis using card_mono [of "{1..n}" "set (map ?c xs)"] by simp
qed

lemma two_windows:
  assumes win: "\<forall>x\<in>set xs. in_window W x" and aft: "sorted_wrt (\<lambda>x y. after_entry W (snd x) (snd y)) xs" and W: "0 < W"
    and int: "\<forall>x\<in>set xs. a \<le> fst x \<and> fst x < a + W \<and> rl_count (snd x) \<le> n"
  shows "length xs \<le> 2 * n"
proof (cases xs)
  case (Cons x ys)
  let ?r = "\<lambda>x. rl_resetAt (snd x)"
  have sep: "?r y = ?r z \<or> ?r y + W \<le> ?r z \<or> ?r z + W \<le> ?r y" if "y \<in> set xs" "z \<in> set xs" for y z
    using aft that by (induction xs) (auto simp: after_entry_def)
  have lo: "?r x = ?r y \<or> ?r x + W \<le> ?r y" if "y \<in> set xs" for y using aft that by (auto simp: Cons after_entry_def)
  have rng: "a < ?r y \<and> ?r y < a + 2 * W" if "y \<in> set xs" for y using win int that by (force simp: in_window_def)
  define zs where "zs = filter (\<lambda>y. ?r y \<noteq> ?r x) xs"
  have same: "?r y = ?r z" if "y \<in> set zs" "z \<in> set zs" for y z
  proof -
    have "y \<in> set xs" "z \<in> set xs" "?r y \<noteq> ?r x" "?r z \<noteq> ?r x" using that by (auto simp: zs_def)
    then show ?thesis using sep [of y z] lo [of y] lo [of z] rng [of x] rng [of y] rng [of z] by (auto simp: Cons)
  qed
  have part: "length (filter P xs) \<le> n" if "\<forall>y\<in>set (filter P xs). ?r y = r" for P r
    using that win int by (intro one_window [OF _ sorted_wrt_filter [OF aft] W, where r = r]) auto
  have "length zs \<le> n"
  proof (cases zs)
    case (Cons z zs')
    then have "\<forall>y\<in>set zs. ?r y = ?r z" by (intro ballI same) simp_all
    then show ?thesis using part [of "\<lambda>y. ?r y \<noteq> ?r x" "?r z"] by (simp add: zs_def)
  qed simp
  moreover have "length (filter (\<lambda>y. ?r y = ?r x) xs) \<le> n" by (rule part [of _ "?r x"]) simp
  moreover have "length xs = length (filter (\<lambda>y. ?r y = ?r x) xs) + length zs" unfolding zs_def using sum_length_filter_compl [of "\<lambda>y. ?r y = ?r x" xs] by simp
  ultimately show ?thesis by simp
qed simp

text \<open>C23: The limit holds: starting from an empty store, whatever other keys request in between, a key gets at
  most twice its maximum through in any stretch of time as long as a window, and at most its maximum
  within one window.\<close>

theorem rate_limit_bounds_every_interval:
  assumes "0 < ro_windowMs opts" and "sorted (map fst rs)"
  shows "length (filter (\<lambda>(t, d). rd_allowed d \<and> a \<le> t \<and> t < a + ro_windowMs opts) (decisions_of opts k rs [])) \<le> 2 * ro_max opts \<and>
    length (filter (\<lambda>(t, d). rd_allowed d \<and> rd_resetAt d = r) (decisions_of opts k rs [])) \<le> ro_max opts"
proof -
  let ?W = "ro_windowMs opts" and ?ts = "map fst (filter (\<lambda>r. snd r = k) rs)"
  let ?ws = "windows ?W ?ts None"
  have "sorted ?ts" using assms(2) sorted_wrt_filter by (metis (no_types, lifting) filter_map sorted_filter sorted_map)
  note h = windows_history [OF assms(1) this]
  have f: "length (filter P (map (\<lambda>(t, e). (t, decision_on opts e)) xs)) = length (filter (\<lambda>(t, e). P (t, decision_on opts e)) xs)" for P xs
    by (induction xs) auto
  have d: "decisions_of opts k rs [] = map (\<lambda>(t, e). (t, decision_on opts e)) ?ws" by (simp add: decisions_of_windows)
  have "length (filter (\<lambda>(t, e). rl_count e \<le> ro_max opts \<and> a \<le> t \<and> t < a + ?W) ?ws) \<le> 2 * ro_max opts"
    using h by (intro two_windows [OF _ sorted_wrt_filter [OF h(2)] assms(1), where a = a]) auto
  moreover have "length (filter (\<lambda>(t, e). rl_count e \<le> ro_max opts \<and> rl_resetAt e = r) ?ws) \<le> ro_max opts"
    using h by (intro one_window [OF _ sorted_wrt_filter [OF h(2)] assms(1), where r = r]) auto
  ultimately show ?thesis unfolding d f by (simp add: decision_on_def)
qed

theorem rate_limit_bounds_every_interval_witness:
  "length (filter (\<lambda>(t, d). rd_allowed d \<and> 3 \<le> t \<and> t < 3 + 10)
     (decisions_of \<lparr>ro_windowMs = 10, ro_max = 1, ro_prefix = ''p'', ro_enabled = True\<rparr> ''a'' [(0, ''a''), (4, ''a''), (5, ''b''), (11, ''a'')] [])) \<le> 2"
  using rate_limit_bounds_every_interval [of "\<lparr>ro_windowMs = 10, ro_max = 1, ro_prefix = ''p'', ro_enabled = True\<rparr>"
      "[(0, ''a''), (4, ''a''), (5, ''b''), (11, ''a'')]" 3 "''a''"] by simp

definition entry_after :: "int \<Rightarrow> int list \<Rightarrow> rl_entry option" where
  "entry_after W ts = foldl (\<lambda>e t. Some (increment t W e)) None ts"

lemma entry_after_snoc [simp]: "entry_after W (ts @ [t]) = Some (increment t W (entry_after W ts))"
  by (simp add: entry_after_def)

lemma windows_snoc: "windows W (ts @ [t]) None = windows W ts None @ [(t, increment t W (entry_after W ts))]"
proof -
  have "windows W (ts @ [t]) e = windows W ts e @ [(t, increment t W (foldl (\<lambda>e t. Some (increment t W e)) e ts))]" for e
    by (induction ts arbitrary: e) auto
  then show ?thesis by (simp add: entry_after_def)
qed

text \<open>The count of an entry is at most the number of requests since its window began.\<close>

lemma entry_counts:
  assumes "0 < W" and "sorted ts" and "entry_after W ts = Some e"
  shows "rl_count e \<le> length (filter (\<lambda>s. rl_resetAt e - W \<le> s) ts)"
  using assms(2,3)
proof (induction ts arbitrary: e rule: rev_induct)
  case (snoc t ts)
  have e: "e = increment t W (entry_after W ts)" using snoc.prems(2) by simp
  show ?case
  proof (cases "entry_after W ts")
    case None
    then show ?thesis by (simp add: e increment_def)
  next
    case (Some f)
    have "sorted ts" using snoc.prems(1) by (simp add: sorted_append)
    note IH = snoc.IH [OF this Some]
    have "in_window W (t, e)"
      using windows_history(1) [OF assms(1) snoc.prems(1)] unfolding windows_snoc by (simp add: e)
    then show ?thesis using IH by (auto simp: e Some increment_def in_window_def split: if_splits)
  qed
qed (simp add: entry_after_def)

text \<open>The limit is not stricter than announced: a request is let through whenever fewer requests of its key
  than the maximum were made during the window length before it, counting refused ones.\<close>

theorem rate_limit_admits_moderate_clients:
  assumes "0 < ro_windowMs opts" and "sorted (map fst (rs @ [(t, k)]))"
    and "length (filter (\<lambda>(s, k'). k' = k \<and> t - ro_windowMs opts < s) rs) < ro_max opts"
  shows "\<exists>d. last (decisions_of opts k (rs @ [(t, k)]) []) = (t, d) \<and> rd_allowed d"
proof -
  let ?W = "ro_windowMs opts"
  define ts where "ts = map fst (filter (\<lambda>r. snd r = k) rs)"
  define e where "e = increment t ?W (entry_after ?W ts)"
  have srt: "sorted (ts @ [t])"
    using assms(2) by (auto simp: ts_def sorted_append sorted_map intro: sorted_wrt_filter)
  have w: "in_window ?W (t, e)" using windows_history(1) [OF assms(1) srt] unfolding windows_snoc by (simp add: e_def)
  have "rl_count e \<le> length (filter (\<lambda>s. rl_resetAt e - ?W \<le> s) (ts @ [t]))"
    using entry_counts [OF assms(1) srt] by (simp add: e_def)
  also have "\<dots> \<le> Suc (length (filter (\<lambda>s. t - ?W < s) ts))"
  proof -
    have "length (filter (\<lambda>s. rl_resetAt e - ?W \<le> s) xs) \<le> length (filter (\<lambda>s. t - ?W < s) xs)" for xs
      using w by (induction xs) (auto simp: in_window_def)
    from this [of ts] show ?thesis by simp
  qed
  also have "filter (\<lambda>s. t - ?W < s) ts = map fst (filter (\<lambda>(s, k'). k' = k \<and> t - ?W < s) rs)"
    unfolding ts_def by (induction rs) auto
  finally have "rl_count e \<le> ro_max opts" using assms(3) by simp
  then show ?thesis by (simp add: decisions_of_windows windows_snoc e_def decision_on_def flip: ts_def)
qed

theorem rate_limit_admits_moderate_clients_witness:
  "\<exists>d. last (decisions_of \<lparr>ro_windowMs = 10, ro_max = 2, ro_prefix = ''p'', ro_enabled = True\<rparr> ''a'' ([(0, ''a''), (1, ''a''), (9, ''b'')] @ [(10, ''a'')]) []) = (10, d) \<and>
     rd_allowed d"
  by (rule rate_limit_admits_moderate_clients) simp_all

end
