(* ===== verification/Platform_Auth.thy ===== *)
theory Platform_Auth
  imports Platform_Kv
begin

text \<open>
  Authentication of the platform: access and refresh tokens (\<open>auth/jwt.ts\<close>), the revocation of access
  tokens (\<open>auth/token-revocation.ts\<close>), the password policy (\<open>auth/password.ts\<close>), the refresh-token
  repository, the service over them (\<open>services/auth.service.ts\<close>) and the middleware that authenticates a
  request (\<open>auth/authenticate.ts\<close>). The tables of the database are lists of rows, each query is one step on
  them. The environment holds what lies outside the source: the clock, the random identifiers, the signing
  and checking of a JSON web token, SHA-256 and bcrypt. A transaction that throws restores the tables; the
  key-value store is not part of it.
\<close>

section \<open>Tokens\<close>

text \<open>A claim of a decoded token has any JavaScript value; the code distinguishes strings and numbers.\<close>

datatype claim = K_undefined | K_string string | K_number js_number | K_other

record jwt_payload =
  jp_type :: claim
  jp_sub :: claim
  jp_jti :: claim
  jp_role :: claim
  jp_iss :: claim
  jp_aud :: claim
  jp_iat :: claim
  jp_exp :: claim
  jp_tvn :: claim

datatype jwt_decoded = J_payload jwt_payload | J_string string
datatype jwt_error = J_expired | J_not_before | J_invalid | J_other

record sign_input =
  si_type :: string
  si_role :: string
  si_tvn :: "int option"
  si_subject :: string
  si_expiresIn :: string
  si_issuer :: string
  si_audience :: string
  si_jwtid :: string

record token_options =
  to_accessSecret :: string
  to_refreshSecret :: string
  to_accessExpiresIn :: string
  to_refreshExpiresIn :: string
  to_issuer :: string
  to_audience :: string

record token_service =
  ts_options :: token_options
  ts_accessExpiresInSeconds :: int
  ts_refreshExpiresInSeconds :: int

definition createTokenService :: "token_options \<Rightarrow> app_error + token_service" where
  "createTokenService options =
     (case parseDurationToSeconds (to_accessExpiresIn options) of Inl e \<Rightarrow> Inl e
      | Inr a \<Rightarrow> (case parseDurationToSeconds (to_refreshExpiresIn options) of Inl e \<Rightarrow> Inl e
          | Inr r \<Rightarrow> Inr \<lparr>ts_options = options, ts_accessExpiresInSeconds = a, ts_refreshExpiresInSeconds = r\<rparr>))"

datatype token_type = T_access | T_refresh

fun type_name :: "token_type \<Rightarrow> string" where
  "type_name T_access = ''access''"
| "type_name T_refresh = ''refresh''"

record token_claims =
  cl_sub :: string
  cl_type :: token_type
  cl_role :: string
  cl_jti :: string
  cl_iss :: string
  cl_aud :: string
  cl_iat :: js_number
  cl_exp :: js_number
  cl_tvn :: "int option"

record password_policy =
  pp_minLength :: nat
  pp_maxLength :: nat
  pp_requireUppercase :: bool
  pp_requireLowercase :: bool
  pp_requireNumber :: bool
  pp_requireSpecial :: bool
  pp_bcryptCost :: nat

text \<open>\<open>ae_verify now token secret issuer audience\<close> is \<open>jwt.verify\<close>; \<open>ae_bcryptCompare\<close> is \<open>None\<close> when it throws;
  \<open>ae_revocation\<close> and \<open>ae_users\<close> say whether the optional collaborators are there.\<close>

record auth_env =
  ae_now :: int
  ae_uuid :: "nat \<Rightarrow> string"
  ae_sign :: "int \<Rightarrow> sign_input \<Rightarrow> string \<Rightarrow> string"
  ae_verify :: "int \<Rightarrow> string \<Rightarrow> string \<Rightarrow> string \<Rightarrow> string \<Rightarrow> jwt_error + jwt_decoded"
  ae_hashToken :: "string \<Rightarrow> string"
  ae_bcryptHash :: "string \<Rightarrow> nat \<Rightarrow> string"
  ae_bcryptCompare :: "string \<Rightarrow> string \<Rightarrow> bool option"
  ae_localeCompare :: "string \<Rightarrow> string \<Rightarrow> js_number"
  ae_tokens :: token_service
  ae_policy :: password_policy
  ae_defaultRole :: string
  ae_revocation :: bool
  ae_accessTtlMs :: int

definition secret_for :: "token_options \<Rightarrow> token_type \<Rightarrow> string" where
  "secret_for o' t = (case t of T_access \<Rightarrow> to_accessSecret o' | T_refresh \<Rightarrow> to_refreshSecret o')"

definition sign :: "auth_env \<Rightarrow> token_type \<Rightarrow> string \<Rightarrow> string \<Rightarrow> string \<Rightarrow> int \<Rightarrow> string" where
  "sign e t userId role jti tvn =
     (let options = ts_options (ae_tokens e) in
      ae_sign e (ae_now e)
        \<lparr>si_type = type_name t, si_role = role, si_tvn = (case t of T_access \<Rightarrow> Some tvn | T_refresh \<Rightarrow> None), si_subject = userId,
          si_expiresIn = (case t of T_access \<Rightarrow> to_accessExpiresIn options | T_refresh \<Rightarrow> to_refreshExpiresIn options),
          si_issuer = to_issuer options, si_audience = to_audience options, si_jwtid = jti\<rparr>
        (secret_for options t))"

definition mapJwtError :: "jwt_error \<Rightarrow> app_error" where
  "mapJwtError x = AuthenticationError (case x of J_expired \<Rightarrow> ''Token has expired'' | _ \<Rightarrow> ''Invalid or malformed token'')"

abbreviation malformed :: app_error where
  "malformed \<equiv> AuthenticationError ''Invalid or malformed token''"

definition readTokenVersion :: "claim \<Rightarrow> app_error + int" where
  "readTokenVersion v = (case v of K_undefined \<Rightarrow> Inr 0
     | K_number n \<Rightarrow> if n = of_int \<lfloor>n\<rfloor> \<and> 0 \<le> n then Inr \<lfloor>n\<rfloor> else Inl malformed
     | _ \<Rightarrow> Inl malformed)"

fun nonempty_string :: "claim \<Rightarrow> string option" where
  "nonempty_string (K_string s) = (if s = [] then None else Some s)"
| "nonempty_string _ = None"

definition verify_payload :: "token_type \<Rightarrow> jwt_payload \<Rightarrow> app_error + token_claims" where
  "verify_payload t p =
     (if jp_type p \<noteq> K_string (type_name t) then Inl (AuthenticationError ''Invalid token type'')
      else case (nonempty_string (jp_sub p), nonempty_string (jp_jti p), nonempty_string (jp_role p)) of
        (Some sub, Some jti, Some role) \<Rightarrow>
          (case (jp_iss p, jp_aud p, jp_iat p, jp_exp p) of
             (K_string iss, K_string aud, K_number iat, K_number ex) \<Rightarrow>
               let c = \<lparr>cl_sub = sub, cl_type = t, cl_role = role, cl_jti = jti, cl_iss = iss, cl_aud = aud, cl_iat = iat, cl_exp = ex,
                        cl_tvn = None\<rparr>
               in (case t of T_refresh \<Rightarrow> Inr c | T_access \<Rightarrow> map_sum id (\<lambda>v. c\<lparr>cl_tvn := Some v\<rparr>) (readTokenVersion (jp_tvn p)))
           | _ \<Rightarrow> Inl malformed)
      | _ \<Rightarrow> Inl malformed)"

definition verify_token :: "auth_env \<Rightarrow> token_type \<Rightarrow> string \<Rightarrow> app_error + token_claims" where
  "verify_token e t token =
     (let options = ts_options (ae_tokens e) in
      case ae_verify e (ae_now e) token (secret_for options t) (to_issuer options) (to_audience options) of
        Inl x \<Rightarrow> Inl (mapJwtError x)
      | Inr (J_string _) \<Rightarrow> Inl malformed
      | Inr (J_payload p) \<Rightarrow> verify_payload t p)"

section \<open>State\<close>

record auth_user =
  au_id :: string
  au_email :: string
  au_displayName :: string
  au_status :: user_status
  au_passwordHash :: string
  au_roleIds :: "string list"

record refresh_row =
  rt_id :: string
  rt_userId :: string
  rt_tokenHash :: string
  rt_familyId :: string
  rt_expiresAt :: int
  rt_revokedAt :: "int option"
  rt_replacedBy :: "string option"

text \<open>The values of the revocation store: a denied identifier, or the access version of a user.\<close>

datatype auth_value = AV_denied | AV_version int

record auth_state =
  as_users :: "auth_user list"
  as_rbac :: rbac_db
  as_tokens :: "refresh_row list"
  as_kv :: "auth_value kv"
  as_ids :: nat
  as_audit :: "(string \<times> string option \<times> string) list"

type_synonym 'a auth = "auth_state \<Rightarrow> (app_error + 'a) \<times> auth_state"

definition aret :: "'a \<Rightarrow> 'a auth" where
  "aret x s = (Inr x, s)"

definition athrow :: "app_error \<Rightarrow> 'a auth" where
  "athrow e s = (Inl e, s)"

definition abind :: "'a auth \<Rightarrow> ('a \<Rightarrow> 'b auth) \<Rightarrow> 'b auth" where
  "abind m f s = (case m s of (Inl e, s') \<Rightarrow> (Inl e, s') | (Inr x, s') \<Rightarrow> f x s')"

definition alift :: "app_error + 'a \<Rightarrow> 'a auth" where
  "alift r s = (r, s)"

definition agets :: "(auth_state \<Rightarrow> 'a) \<Rightarrow> 'a auth" where
  "agets f s = (Inr (f s), s)"

definition atokens :: "(refresh_row list \<Rightarrow> refresh_row list) \<Rightarrow> unit auth" where
  "atokens f s = (Inr (), s\<lparr>as_tokens := f (as_tokens s)\<rparr>)"

definition akv :: "(auth_value kv \<Rightarrow> 'a \<times> auth_value kv) \<Rightarrow> 'a auth" where
  "akv f s = (case f (as_kv s) of (x, m) \<Rightarrow> (Inr x, s\<lparr>as_kv := m\<rparr>))"

definition auuid :: "auth_env \<Rightarrow> string auth" where
  "auuid e s = (Inr (ae_uuid e (as_ids s)), s\<lparr>as_ids := Suc (as_ids s)\<rparr>)"

definition aaudit :: "string \<Rightarrow> string option \<Rightarrow> string \<Rightarrow> unit auth" where
  "aaudit action actor status s = (Inr (), s\<lparr>as_audit := as_audit s @ [(action, actor, status)]\<rparr>)"

definition transaction :: "'a auth \<Rightarrow> 'a auth" where
  "transaction m s = (case m s of
     (Inl e, s') \<Rightarrow> (Inl e, s'\<lparr>as_users := as_users s, as_rbac := as_rbac s, as_tokens := as_tokens s\<rparr>)
   | (Inr x, s') \<Rightarrow> (Inr x, s'))"

section \<open>Revocation of access tokens\<close>

definition jti_key :: "string \<Rightarrow> string" where
  "jti_key jti = ''auth:deny-jti:'' @ jti"

definition version_key :: "string \<Rightarrow> string" where
  "version_key userId = ''auth:access-ver:'' @ userId"

definition ttlMs :: "auth_env \<Rightarrow> int" where
  "ttlMs e = max 1000 (ae_accessTtlMs e + 5000)"

definition denyAccessJti :: "auth_env \<Rightarrow> string \<Rightarrow> unit auth" where
  "denyAccessJti e jti = akv (\<lambda>m. ((), kv_set (ae_now e) (jti_key jti) AV_denied (Some (ttlMs e)) m))"

definition version_of :: "auth_value option \<Rightarrow> int" where
  "version_of v = (case v of Some (AV_version n) \<Rightarrow> if 0 \<le> n then n else 0 | _ \<Rightarrow> 0)"

definition currentAccessVersion :: "auth_env \<Rightarrow> string \<Rightarrow> int auth" where
  "currentAccessVersion e userId = abind (akv (kv_get (ae_now e) (version_key userId))) (\<lambda>raw. aret (version_of raw))"

definition revokeUserAccess :: "auth_env \<Rightarrow> string \<Rightarrow> unit auth" where
  "revokeUserAccess e userId =
     abind (currentAccessVersion e userId) (\<lambda>v.
     akv (\<lambda>m. ((), kv_set (ae_now e) (version_key userId) (AV_version (v + 1)) (Some (ttlMs e)) m)))"

definition assertAccessAllowed :: "auth_env \<Rightarrow> token_claims \<Rightarrow> unit auth" where
  "assertAccessAllowed e c =
     abind (akv (kv_get (ae_now e) (jti_key (cl_jti c)))) (\<lambda>denied.
     if denied \<noteq> None then athrow (AuthenticationError ''Token has been revoked'')
     else abind (currentAccessVersion e (cl_sub c)) (\<lambda>required.
       if (case cl_tvn c of None \<Rightarrow> 0 | Some v \<Rightarrow> v) < required
       then athrow (AuthenticationError ''Token has been revoked'') else aret ()))"

section \<open>Passwords\<close>

definition is_upper :: "char \<Rightarrow> bool" where
  "is_upper c \<longleftrightarrow> 65 \<le> (of_char c :: nat) \<and> (of_char c :: nat) \<le> 90"

definition is_alnum :: "char \<Rightarrow> bool" where
  "is_alnum c \<longleftrightarrow> is_upper c \<or> is_lower c \<or> is_digit c"

datatype password_requirement = Min_length | Max_length | Uppercase | Lowercase | Number | Special

definition password_requirements :: "password_policy \<Rightarrow> string \<Rightarrow> password_requirement list" where
  "password_requirements p pw =
     (if length pw < pp_minLength p then [Min_length] else []) @
     (if length pw > pp_maxLength p then [Max_length] else []) @
     (if pp_requireUppercase p \<and> \<not> list_ex is_upper pw then [Uppercase] else []) @
     (if pp_requireLowercase p \<and> \<not> list_ex is_lower pw then [Lowercase] else []) @
     (if pp_requireNumber p \<and> \<not> list_ex is_digit pw then [Number] else []) @
     (if pp_requireSpecial p \<and> \<not> list_ex (\<lambda>c. \<not> is_alnum c) pw then [Special] else [])"

definition password_validate :: "password_policy \<Rightarrow> string \<Rightarrow> app_error + unit" where
  "password_validate p pw = (if password_requirements p pw \<noteq> [] then Inl (ValidationError ''Password does not meet policy requirements'') else Inr ())"

definition password_hash :: "auth_env \<Rightarrow> string \<Rightarrow> app_error + string" where
  "password_hash e pw = map_sum id (\<lambda>_. ae_bcryptHash e pw (pp_bcryptCost (ae_policy e))) (password_validate (ae_policy e) pw)"

definition password_verify :: "auth_env \<Rightarrow> string \<Rightarrow> string \<Rightarrow> bool" where
  "password_verify e pw h = (case ae_bcryptCompare e pw h of None \<Rightarrow> False | Some b \<Rightarrow> b)"

section \<open>The repositories\<close>

definition normalizeEmail :: "string \<Rightarrow> string" where
  "normalizeEmail email = toLowerCase (js_trim email)"

definition users_create :: "auth_env \<Rightarrow> string \<Rightarrow> string \<Rightarrow> string \<Rightarrow> auth_user auth" where
  "users_create e email passwordHash displayName =
     abind (agets (\<lambda>s. find (\<lambda>u. au_email u = normalizeEmail email) (as_users s))) (\<lambda>taken.
     if taken \<noteq> None then athrow (ConflictError ''A record with this value already exists'')
     else abind (auuid e) (\<lambda>i.
       let u = \<lparr>au_id = i, au_email = normalizeEmail email, au_displayName = js_trim displayName, au_status = U_active,
                au_passwordHash = passwordHash, au_roleIds = []\<rparr>
       in (\<lambda>s. (Inr u, s\<lparr>as_users := as_users s @ [u]\<rparr>))))"

definition findByEmailForAuth :: "string \<Rightarrow> auth_user option auth" where
  "findByEmailForAuth email = agets (\<lambda>s. find (\<lambda>u. au_email u = normalizeEmail email) (as_users s))"

definition toAuthenticatedUser :: "auth_env \<Rightarrow> rbac_db \<Rightarrow> auth_user \<Rightarrow> authenticated_user" where
  "toAuthenticatedUser e db u = (let roles = user_roles db (au_roleIds u) in
     \<lparr>us_id = au_id u, us_email = au_email u, us_displayName = au_displayName u, us_status = au_status u,
      us_role = primaryRole (ae_localeCompare e) roles, us_roles = roles, us_permissions = user_permissions db (au_roleIds u)\<rparr>)"

text \<open>\<open>findByIdWithRoles\<close>, followed by \<open>toAuthenticatedUser\<close> at each of its uses.\<close>

definition findByIdWithRoles :: "auth_env \<Rightarrow> string \<Rightarrow> authenticated_user option auth" where
  "findByIdWithRoles e i = agets (\<lambda>s. map_option (toAuthenticatedUser e (as_rbac s)) (find (\<lambda>u. au_id u = i) (as_users s)))"

definition roles_findByName :: "string \<Rightarrow> catalog_row option auth" where
  "roles_findByName name = agets (\<lambda>s. find (\<lambda>r. row_key r = toLowerCase (js_trim name)) (rdb_roles (as_rbac s)))"

definition assignUser :: "string \<Rightarrow> string \<Rightarrow> unit auth" where
  "assignUser userId roleId s = (Inr (), s\<lparr>as_users := update_first (\<lambda>u. au_id u = userId)
     (\<lambda>u. u\<lparr>au_roleIds := (if roleId \<in> set (au_roleIds u) then au_roleIds u else au_roleIds u @ [roleId])\<rparr>) (as_users s)\<rparr>)"

definition set_password :: "string \<Rightarrow> string \<Rightarrow> unit auth" where
  "set_password userId passwordHash s =
     (Inr (), s\<lparr>as_users := update_first (\<lambda>u. au_id u = userId) (\<lambda>u. u\<lparr>au_passwordHash := passwordHash\<rparr>) (as_users s)\<rparr>)"

definition tokens_create :: "refresh_row \<Rightarrow> unit auth" where
  "tokens_create r =
     abind (agets as_tokens) (\<lambda>rows.
     if list_ex (\<lambda>x. rt_id x = rt_id r \<or> rt_tokenHash x = rt_tokenHash r) rows
     then athrow (ConflictError ''A record with this value already exists'')
     else atokens (\<lambda>rows. rows @ [r]))"

definition findByTokenHash :: "string \<Rightarrow> refresh_row option auth" where
  "findByTokenHash h = agets (\<lambda>s. find (\<lambda>r. rt_tokenHash r = h) (as_tokens s))"

text \<open>\<open>updateMany\<close> over the rows that satisfy \<open>P\<close> and are not revoked.\<close>

definition revoke_active :: "int \<Rightarrow> string option \<Rightarrow> (refresh_row \<Rightarrow> bool) \<Rightarrow> refresh_row list \<Rightarrow> refresh_row list" where
  "revoke_active now by' P rows = map (\<lambda>r. if P r \<and> rt_revokedAt r = None
     then r\<lparr>rt_revokedAt := Some now, rt_replacedBy := (case by' of None \<Rightarrow> rt_replacedBy r | Some b \<Rightarrow> Some b)\<rparr> else r) rows"

definition claimForRotation :: "auth_env \<Rightarrow> string \<Rightarrow> string \<Rightarrow> bool auth" where
  "claimForRotation e i replacedBy =
     abind (agets (\<lambda>s. length (filter (\<lambda>r. rt_id r = i \<and> rt_revokedAt r = None) (as_tokens s)))) (\<lambda>count.
     abind (atokens (revoke_active (ae_now e) (Some replacedBy) (\<lambda>r. rt_id r = i))) (\<lambda>_. aret (count = 1)))"

definition tokens_revoke :: "auth_env \<Rightarrow> string \<Rightarrow> unit auth" where
  "tokens_revoke e i =
     abind (agets (\<lambda>s. find (\<lambda>r. rt_id r = i) (as_tokens s))) (\<lambda>found.
     if found = None then athrow (NotFoundError ''Resource not found'')
     else atokens (update_first (\<lambda>r. rt_id r = i) (\<lambda>r. r\<lparr>rt_revokedAt := Some (ae_now e), rt_replacedBy := None\<rparr>)))"

definition revokeFamily :: "auth_env \<Rightarrow> string \<Rightarrow> unit auth" where
  "revokeFamily e familyId = atokens (revoke_active (ae_now e) None (\<lambda>r. rt_familyId r = familyId))"

definition revokeAllForUser :: "auth_env \<Rightarrow> string \<Rightarrow> unit auth" where
  "revokeAllForUser e userId = atokens (revoke_active (ae_now e) None (\<lambda>r. rt_userId r = userId))"

section \<open>The service\<close>

record token_pair =
  tp_accessToken :: string
  tp_refreshToken :: string
  tp_expiresIn :: int

record auth_session =
  ss_user :: authenticated_user
  ss_tokens :: token_pair

definition issueSession :: "auth_env \<Rightarrow> authenticated_user \<Rightarrow> string option \<Rightarrow> (auth_session \<times> string) auth" where
  "issueSession e user familyId =
     abind (auuid e) (\<lambda>refreshId.
     abind (case familyId of Some f \<Rightarrow> aret f | None \<Rightarrow> auuid e) (\<lambda>nextFamilyId.
     abind (if ae_revocation e then currentAccessVersion e (us_id user) else aret 0) (\<lambda>tvn.
     abind (auuid e) (\<lambda>accessJti.
     let accessToken = sign e T_access (us_id user) (us_role user) accessJti tvn;
         refreshToken = sign e T_refresh (us_id user) (us_role user) refreshId 0
     in abind (tokens_create \<lparr>rt_id = refreshId, rt_userId = us_id user, rt_tokenHash = ae_hashToken e refreshToken,
            rt_familyId = nextFamilyId, rt_expiresAt = ae_now e + ts_refreshExpiresInSeconds (ae_tokens e) * 1000,
            rt_revokedAt = None, rt_replacedBy = None\<rparr>) (\<lambda>_.
        aret (\<lparr>ss_user = user, ss_tokens = \<lparr>tp_accessToken = accessToken, tp_refreshToken = refreshToken,
                tp_expiresIn = ts_accessExpiresInSeconds (ae_tokens e)\<rparr>\<rparr>, refreshId))))))"

definition create_account :: "auth_env \<Rightarrow> string \<Rightarrow> string \<Rightarrow> string \<Rightarrow> auth_user auth" where
  "create_account e email passwordHash displayName s = (case users_create e email passwordHash displayName s of
     (Inl (ConflictError _), s') \<Rightarrow> (Inl (ConflictError ''An account with this email already exists''), s')
   | r \<Rightarrow> r)"

definition no_catalog :: rbac_db where
  "no_catalog = \<lparr>rdb_roles = [], rdb_permissions = [], rdb_joins = [], rdb_ids = 0\<rparr>"

definition register_account :: "auth_env \<Rightarrow> string \<Rightarrow> string \<Rightarrow> string \<Rightarrow> auth_session auth" where
  "register_account e email passwordHash displayName =
     abind (create_account e email passwordHash displayName) (\<lambda>created.
     abind (roles_findByName (ae_defaultRole e)) (\<lambda>role.
     abind (case role of None \<Rightarrow> aret () | Some r \<Rightarrow> assignUser (au_id created) (row_id r)) (\<lambda>_.
     abind (findByIdWithRoles e (au_id created)) (\<lambda>found.
     abind (issueSession e (case found of Some u \<Rightarrow> u | None \<Rightarrow> toAuthenticatedUser e no_catalog created) None) (\<lambda>(session, _).
     aret session)))))"

definition register :: "auth_env \<Rightarrow> string \<Rightarrow> string \<Rightarrow> string \<Rightarrow> auth_session auth" where
  "register e email password displayName =
     abind (alift (password_hash e password)) (\<lambda>passwordHash.
     abind (transaction (register_account e email passwordHash displayName)) (\<lambda>session.
     abind (aaudit ''user.created'' (Some (us_id (ss_user session))) ''succeeded'') (\<lambda>_. aret session)))"

definition assertAccountActive :: "user_status \<Rightarrow> app_error + unit" where
  "assertAccountActive st = (case st of U_disabled \<Rightarrow> Inl (AuthorizationError ''Account is disabled'')
     | U_active \<Rightarrow> Inr () | U_invited \<Rightarrow> Inl (AuthorizationError ''Account is not active''))"

definition login :: "auth_env \<Rightarrow> string \<Rightarrow> string \<Rightarrow> auth_session auth" where
  "login e email password =
     abind (findByEmailForAuth email) (\<lambda>record.
     case record of
       None \<Rightarrow> abind (aaudit ''user.login'' None ''failed'') (\<lambda>_. athrow (AuthenticationError ''Invalid email or password''))
     | Some u \<Rightarrow>
         if \<not> password_verify e password (au_passwordHash u)
         then abind (aaudit ''user.login'' (Some (au_id u)) ''failed'') (\<lambda>_. athrow (AuthenticationError ''Invalid email or password''))
         else abind (alift (assertAccountActive (au_status u))) (\<lambda>_.
           abind (findByIdWithRoles e (au_id u)) (\<lambda>found. case found of
             None \<Rightarrow> athrow (AuthenticationError ''Invalid email or password'')
           | Some user \<Rightarrow>
               abind (issueSession e user None) (\<lambda>(session, _).
               abind (aaudit ''user.login'' (Some (us_id user)) ''succeeded'') (\<lambda>_. aret session)))))"

text \<open>The checks of a refresh, inside its transaction: either an outcome other than a session, or the row to
  rotate and its user.\<close>

datatype refresh_outcome = Ro_invalid | Ro_reuse | Ro_expired | Ro_disabled | Ro_rotate refresh_row authenticated_user

definition refresh_check :: "auth_env \<Rightarrow> token_claims \<Rightarrow> string \<Rightarrow> refresh_outcome auth" where
  "refresh_check e c tokenHash =
     abind (findByTokenHash tokenHash) (\<lambda>found. case found of
       None \<Rightarrow> aret Ro_invalid
     | Some stored \<Rightarrow>
         if rt_id stored \<noteq> cl_jti c \<or> rt_userId stored \<noteq> cl_sub c then aret Ro_invalid
         else if rt_revokedAt stored \<noteq> None then abind (revokeFamily e (rt_familyId stored)) (\<lambda>_. aret Ro_reuse)
         else if rt_expiresAt stored \<le> ae_now e then aret Ro_expired
         else abind (findByIdWithRoles e (rt_userId stored)) (\<lambda>user. case user of
             Some u \<Rightarrow> if us_status u = U_active then aret (Ro_rotate stored u)
                      else abind (revokeFamily e (rt_familyId stored)) (\<lambda>_. aret Ro_disabled)
           | None \<Rightarrow> abind (revokeFamily e (rt_familyId stored)) (\<lambda>_. aret Ro_disabled)))"

text \<open>The rotation: issue first, then claim the old row; whoever loses the claim revokes what it issued.\<close>

definition refresh_rotate :: "auth_env \<Rightarrow> refresh_row \<Rightarrow> authenticated_user \<Rightarrow> auth_session option auth" where
  "refresh_rotate e stored user =
     abind (issueSession e user (Some (rt_familyId stored))) (\<lambda>(session, refreshTokenId).
     abind (claimForRotation e (rt_id stored) refreshTokenId) (\<lambda>claimed.
     if \<not> claimed then abind (tokens_revoke e refreshTokenId) (\<lambda>_. aret None)
     else aret (Some session)))"

definition refresh_error :: "refresh_outcome \<Rightarrow> app_error" where
  "refresh_error x = (case x of Ro_reuse \<Rightarrow> AuthenticationError ''Refresh token has been revoked''
     | Ro_disabled \<Rightarrow> AuthorizationError ''Account is disabled'' | Ro_expired \<Rightarrow> AuthenticationError ''Token has expired'' | _ \<Rightarrow> malformed)"

definition refresh :: "auth_env \<Rightarrow> string \<Rightarrow> auth_session auth" where
  "refresh e refreshToken =
     abind (alift (verify_token e T_refresh refreshToken)) (\<lambda>c.
     abind (transaction (abind (refresh_check e c (ae_hashToken e refreshToken)) (\<lambda>x. case x of
        Ro_rotate stored user \<Rightarrow> abind (refresh_rotate e stored user) (\<lambda>session. aret (case session of None \<Rightarrow> Inl Ro_invalid | Some y \<Rightarrow> Inr y))
      | _ \<Rightarrow> aret (Inl x)))) (\<lambda>outcome.
     case outcome of Inl x \<Rightarrow> athrow (refresh_error x) | Inr session \<Rightarrow> aret session))"

definition denyAccessToken :: "auth_env \<Rightarrow> string option \<Rightarrow> unit auth" where
  "denyAccessToken e accessToken = (case accessToken of
     None \<Rightarrow> aret ()
   | Some t \<Rightarrow> if t = [] \<or> \<not> ae_revocation e then aret ()
              else (case verify_token e T_access t of Inl _ \<Rightarrow> aret () | Inr c \<Rightarrow> denyAccessJti e (cl_jti c)))"

definition logout :: "auth_env \<Rightarrow> string \<Rightarrow> string option \<Rightarrow> unit auth" where
  "logout e refreshToken accessToken =
     abind (alift (verify_token e T_refresh refreshToken)) (\<lambda>c.
     abind (findByTokenHash (ae_hashToken e refreshToken)) (\<lambda>found. case found of
       None \<Rightarrow> athrow malformed
     | Some stored \<Rightarrow>
         if rt_id stored \<noteq> cl_jti c \<or> rt_userId stored \<noteq> cl_sub c then athrow malformed
         else abind (if rt_revokedAt stored = None then revokeFamily e (rt_familyId stored) else aret ()) (\<lambda>_.
           denyAccessToken e accessToken)))"

definition getMe :: "auth_env \<Rightarrow> string \<Rightarrow> authenticated_user auth" where
  "getMe e userId =
     abind (findByIdWithRoles e userId) (\<lambda>found. case found of
       None \<Rightarrow> athrow (AuthenticationError ''Authentication required'')
     | Some u \<Rightarrow> if us_status u \<noteq> U_active then athrow (AuthorizationError ''Account is disabled'') else aret u)"

definition hasAccount :: "string \<Rightarrow> bool auth" where
  "hasAccount email = abind (findByEmailForAuth email) (\<lambda>u. aret (u \<noteq> None))"

definition resetPassword :: "auth_env \<Rightarrow> string \<Rightarrow> string \<Rightarrow> unit auth" where
  "resetPassword e email password =
     abind (alift (password_hash e password)) (\<lambda>passwordHash.
     abind (findByEmailForAuth email) (\<lambda>record. case record of
       None \<Rightarrow> athrow (AuthenticationError ''Invalid or expired OTP'')
     | Some u \<Rightarrow>
         abind (alift (assertAccountActive (au_status u))) (\<lambda>_.
         abind (set_password (au_id u) passwordHash) (\<lambda>_.
         abind (revokeAllForUser e (au_id u)) (\<lambda>_.
         abind (if ae_revocation e then revokeUserAccess e (au_id u) else aret ()) (\<lambda>_.
         aaudit ''user.password_reset'' (Some (au_id u)) ''succeeded''))))))"

definition createSessionForVerifiedEmail :: "auth_env \<Rightarrow> string \<Rightarrow> auth_session option auth" where
  "createSessionForVerifiedEmail e email =
     abind (findByEmailForAuth email) (\<lambda>record. case record of
       None \<Rightarrow> aret None
     | Some u \<Rightarrow>
         abind (alift (assertAccountActive (au_status u))) (\<lambda>_.
         abind (findByIdWithRoles e (au_id u)) (\<lambda>found. case found of
           None \<Rightarrow> aret None
         | Some user \<Rightarrow> abind (issueSession e user None) (\<lambda>(session, _). aret (Some session)))))"

section \<open>The middleware\<close>

text \<open>\<open>Bearer\<close> in either case, white space, then a word that is the rest of the trimmed header.\<close>

definition extractBearerToken :: "string option \<Rightarrow> app_error + string" where
  "extractBearerToken header = (case header of
     None \<Rightarrow> Inl (AuthenticationError ''Authentication required'')
   | Some h \<Rightarrow> if h = [] then Inl (AuthenticationError ''Authentication required'')
     else (let t = js_trim h; r = drop 6 t; token = dropWhile js_space r in
       if toLowerCase (take 6 t) = ''bearer'' \<and> takeWhile js_space r \<noteq> [] \<and> token \<noteq> [] \<and> list_all (\<lambda>c. \<not> js_space c) token
       then Inr token else Inl malformed))"

definition tryExtractBearerToken :: "string option \<Rightarrow> string option" where
  "tryExtractBearerToken header = (case extractBearerToken header of Inl _ \<Rightarrow> None | Inr t \<Rightarrow> Some t)"

text \<open>A request carries an authorization header and the value of the access cookie, which is absent or not
  empty.\<close>

definition tryExtractAccessToken :: "string option \<Rightarrow> string option \<Rightarrow> string option" where
  "tryExtractAccessToken header cookie = (case tryExtractBearerToken header of Some t \<Rightarrow> Some t | None \<Rightarrow> cookie)"

definition extractAccessToken :: "string option \<Rightarrow> string option \<Rightarrow> app_error + string" where
  "extractAccessToken header cookie = (case tryExtractBearerToken header of
     Some t \<Rightarrow> Inr t
   | None \<Rightarrow> (case cookie of Some t \<Rightarrow> Inr t | None \<Rightarrow> Inl (AuthenticationError ''Authentication required'')))"

definition attachAuthenticatedUser :: "auth_env \<Rightarrow> string \<Rightarrow> authenticated_user auth" where
  "attachAuthenticatedUser e token =
     abind (alift (verify_token e T_access token)) (\<lambda>c.
     abind (if ae_revocation e then assertAccessAllowed e c else aret ()) (\<lambda>_.
     abind (findByIdWithRoles e (cl_sub c)) (\<lambda>found. case found of
       None \<Rightarrow> athrow (AuthenticationError ''Authentication required'')
     | Some u \<Rightarrow> abind (alift (assertAccountActive (us_status u))) (\<lambda>_. aret u))))"

definition authenticate :: "auth_env \<Rightarrow> string option \<Rightarrow> string option \<Rightarrow> authenticated_user auth" where
  "authenticate e header cookie = abind (alift (extractAccessToken header cookie)) (attachAuthenticatedUser e)"

definition authenticateOptional :: "auth_env \<Rightarrow> string option \<Rightarrow> string option \<Rightarrow> authenticated_user option auth" where
  "authenticateOptional e header cookie = (case tryExtractAccessToken header cookie of
     None \<Rightarrow> aret None
   | Some t \<Rightarrow> abind (attachAuthenticatedUser e t) (\<lambda>u. aret (Some u)))"

end
