(* ===== verification/Platform_Sessions.thy ===== *)
theory Platform_Sessions
  imports Platform_Auth
begin

text \<open>
  The sessions of the platform over time. A refresh reads its token in one step (\<open>refresh_begin\<close>) and
  issues and rotates in a later one (\<open>refresh_finish\<close>); between the two any other request may run, another
  refresh with the same token included. The moves of the table of refresh tokens (\<open>tmove\<close>) are what the
  requests do to it; they keep its invariant and let no revoked token and no ended family come back.
\<close>

section \<open>The table of refresh tokens\<close>

type_synonym token_table = "refresh_row list \<times> nat"

definition live :: "refresh_row \<Rightarrow> bool" where
  "live r \<longleftrightarrow> rt_revokedAt r = None"

definition ended :: "string \<Rightarrow> refresh_row list \<Rightarrow> bool" where
  "ended f rows \<longleftrightarrow> (\<forall>r\<in>set rows. rt_familyId r = f \<longrightarrow> \<not> live r)"

text \<open>A row to be appended: its identifier was drawn since \<open>n\<close>, its hash is new.\<close>

definition new_row :: "(nat \<Rightarrow> string) \<Rightarrow> refresh_row list \<Rightarrow> nat \<Rightarrow> nat \<Rightarrow> refresh_row \<Rightarrow> bool" where
  "new_row U rows n n' r \<longleftrightarrow> n \<le> n' \<and> rt_id r \<in> U ` {n..<n'} \<and> rt_tokenHash r \<notin> rt_tokenHash ` set rows"

inductive tmove :: "(nat \<Rightarrow> string) \<Rightarrow> token_table \<Rightarrow> token_table \<Rightarrow> bool" for U where
  tm_ids: "n \<le> n' \<Longrightarrow> tmove U (rows, n) (rows, n')"
| tm_revoke: "tmove U (rows, n) (revoke_active now by' P rows, n)"
| tm_issue: "new_row U rows n n' r \<Longrightarrow> rt_familyId r \<in> U ` {n..<n'} \<Longrightarrow> tmove U (rows, n) (rows @ [r], n')"
| tm_rotate: "new_row U rows n n' r \<Longrightarrow> old \<in> set rows \<Longrightarrow> live old \<Longrightarrow> rt_familyId r = rt_familyId old \<Longrightarrow> rt_userId r = rt_userId old
    \<Longrightarrow> tmove U (rows, n) (revoke_active now (Some (rt_id r)) (\<lambda>x. rt_id x = rt_id old) rows @ [r], n')"
| tm_void: "new_row U rows n n' r \<Longrightarrow> old \<in> set rows \<Longrightarrow> \<not> live r \<Longrightarrow> rt_familyId r = rt_familyId old \<Longrightarrow> rt_userId r = rt_userId old
    \<Longrightarrow> tmove U (rows, n) (rows @ [r], n')"

text \<open>Identifiers and hashes are unique, identifiers and families come from the supply, a family belongs to one
  user and has at most one live token.\<close>

definition table_inv :: "(nat \<Rightarrow> string) \<Rightarrow> token_table \<Rightarrow> bool" where
  "table_inv U t \<longleftrightarrow> inj U \<and> distinct (map rt_id (fst t)) \<and> distinct (map rt_tokenHash (fst t)) \<and>
     (\<forall>r\<in>set (fst t). rt_id r \<in> U ` {..<snd t} \<and> rt_familyId r \<in> U ` {..<snd t}) \<and>
     (\<forall>r\<in>set (fst t). \<forall>x\<in>set (fst t). rt_familyId r = rt_familyId x \<longrightarrow> rt_userId r = rt_userId x \<and> (live r \<and> live x \<longrightarrow> r = x))"

definition later_row :: "refresh_row \<Rightarrow> refresh_row \<Rightarrow> bool" where
  "later_row r x \<longleftrightarrow> rt_id x = rt_id r \<and> rt_userId x = rt_userId r \<and> rt_tokenHash x = rt_tokenHash r \<and> rt_familyId x = rt_familyId r \<and>
     rt_expiresAt x = rt_expiresAt r \<and> (live x \<longrightarrow> live r)"

definition table_later :: "(nat \<Rightarrow> string) \<Rightarrow> token_table \<Rightarrow> token_table \<Rightarrow> bool" where
  "table_later U t t' \<longleftrightarrow> snd t \<le> snd t' \<and> (\<forall>r\<in>set (fst t). \<exists>x\<in>set (fst t'). later_row r x) \<and>
     (\<forall>f\<in>U ` {..<snd t}. ended f (fst t) \<longrightarrow> ended f (fst t'))"

lemma later_row_refl [simp, intro]: "later_row r r"
  by (simp add: later_row_def)

lemma later_row_trans: "later_row r x \<Longrightarrow> later_row x y \<Longrightarrow> later_row r y"
  by (simp add: later_row_def)

lemma revoke_active_fields [simp]:
  "map rt_id (revoke_active now by' P rows) = map rt_id rows"
  "map rt_tokenHash (revoke_active now by' P rows) = map rt_tokenHash rows"
  by (auto simp: revoke_active_def)

lemma revoke_active_hashes [simp]: "rt_tokenHash ` set (revoke_active now by' P rows) = rt_tokenHash ` set rows"
  unfolding set_map [symmetric] revoke_active_fields by (rule refl)

lemma revoke_active_cases:
  assumes "x \<in> set (revoke_active now by' P rows)"
  obtains r where "r \<in> set rows" "later_row r x" "live x \<longrightarrow> x = r \<and> \<not> P r"
  using assms by (auto simp: revoke_active_def later_row_def live_def split: if_splits)

lemma revoke_active_later:
  assumes "r \<in> set rows"
  obtains x where "x \<in> set (revoke_active now by' P rows)" "later_row r x" "P r \<longrightarrow> \<not> live x"
proof
  define x where "x = (if P r \<and> rt_revokedAt r = None
     then r\<lparr>rt_revokedAt := Some now, rt_replacedBy := (case by' of None \<Rightarrow> rt_replacedBy r | Some b \<Rightarrow> Some b)\<rparr> else r)"
  show "x \<in> set (revoke_active now by' P rows)" using assms by (auto simp: revoke_active_def x_def)
  show "later_row r x" "P r \<longrightarrow> \<not> live x" by (auto simp: x_def later_row_def live_def)
qed

lemma revoke_active_ended:
  "ended f rows \<Longrightarrow> ended f (revoke_active now by' P rows)"
  "(\<And>r. rt_familyId r = f \<Longrightarrow> P r) \<Longrightarrow> ended f (revoke_active now by' P rows)"
  unfolding ended_def by (metis revoke_active_cases later_row_def)+

lemma tmove_ids: "tmove U t t' \<Longrightarrow> snd t \<le> snd t'"
  by (induction rule: tmove.induct) (auto simp: new_row_def)

lemma tmoves_ids: "(tmove U)\<^sup>*\<^sup>* t t' \<Longrightarrow> snd t \<le> snd t'"
  by (induction rule: rtranclp_induct) (auto dest: tmove_ids)

text \<open>What is drawn from \<open>n\<close> on is not among the identifiers before.\<close>

lemma supply_fresh: "inj (U :: nat \<Rightarrow> string) \<Longrightarrow> a \<in> U ` {..<n} \<Longrightarrow> b \<in> U ` {n..<n'} \<Longrightarrow> a \<noteq> b"
  by (auto simp: inj_eq)

lemma supply_mono:
  fixes U :: "nat \<Rightarrow> string"
  shows "a \<in> U ` {..<n} \<Longrightarrow> n \<le> n' \<Longrightarrow> a \<in> U ` {..<n'}" and "a \<in> U ` {n..<n'} \<Longrightarrow> a \<in> U ` {..<n'}"
  by auto

lemma table_invI:
  assumes "inj U" and "distinct (map rt_id rows)" and "distinct (map rt_tokenHash rows)"
    and "\<And>r. r \<in> set rows \<Longrightarrow> rt_id r \<in> U ` {..<n} \<and> rt_familyId r \<in> U ` {..<n}"
    and "\<And>r x. r \<in> set rows \<Longrightarrow> x \<in> set rows \<Longrightarrow> rt_familyId r = rt_familyId x \<Longrightarrow> rt_userId r = rt_userId x \<and> (live r \<and> live x \<longrightarrow> r = x)"
  shows "table_inv U (rows, n)"
  unfolding table_inv_def fst_conv snd_conv using assms by blast

lemma table_inv_revoke:
  assumes "table_inv U (rows, n)"
  shows "table_inv U (revoke_active now by' P rows, n)"
  using assms unfolding table_inv_def fst_conv snd_conv revoke_active_fields
  by (metis revoke_active_cases later_row_def)

lemma table_inv_append:
  assumes inv: "table_inv U (rows, n)" and new: "new_row U rows n n' r"
    and f: "rt_familyId r \<in> U ` {..<n'}"
    and same: "\<And>x. x \<in> set rows \<Longrightarrow> rt_familyId x = rt_familyId r \<Longrightarrow> rt_userId x = rt_userId r \<and> \<not> (live r \<and> live x)"
  shows "table_inv U (rows @ [r], n')"
proof -
  have i: "rt_id r \<in> U ` {n..<n'}" and n: "n \<le> n'" and h: "rt_tokenHash r \<notin> rt_tokenHash ` set rows"
    using new by (auto simp: new_row_def)
  have u: "inj U" using inv by (simp add: table_inv_def)
  have ids: "rt_id x \<in> U ` {..<n}" "rt_familyId x \<in> U ` {..<n}" if "x \<in> set rows" for x
    using inv that by (simp_all add: table_inv_def)
  have old: "rt_userId a = rt_userId b \<and> (live a \<and> live b \<longrightarrow> a = b)"
    if "a \<in> set rows" "b \<in> set rows" "rt_familyId a = rt_familyId b" for a b
    using inv that unfolding table_inv_def fst_conv by blast
  have "rt_id x \<noteq> rt_id r" if "x \<in> set rows" for x by (rule supply_fresh [OF u ids(1) [OF that] i])
  then have fresh: "rt_id r \<notin> rt_id ` set rows" by (metis image_iff)
  have drawn: "rt_id x \<in> U ` {..<n'} \<and> rt_familyId x \<in> U ` {..<n'}" if "x \<in> set (rows @ [r])" for x
  proof (cases "x \<in> set rows")
    case True
    then show ?thesis by (intro conjI supply_mono(1) [OF _ n] ids)
  next
    case False
    then have "x = r" using that by simp
    then show ?thesis using f supply_mono(2) [OF i] by simp
  qed
  have pairs: "rt_userId a = rt_userId b \<and> (live a \<and> live b \<longrightarrow> a = b)"
    if "a \<in> set (rows @ [r])" "b \<in> set (rows @ [r])" and fam: "rt_familyId a = rt_familyId b" for a b
  proof -
    have "a \<in> set rows \<or> a = r" "b \<in> set rows \<or> b = r" using that(1,2) by auto
    then show ?thesis using same [of a] same [of b] old [of a b] fam by metis
  qed
  have d: "distinct (map rt_id rows)" "distinct (map rt_tokenHash rows)" using inv by (simp_all add: table_inv_def)
  show ?thesis
  proof (rule table_invI [OF u])
    show "distinct (map rt_id (rows @ [r]))" "distinct (map rt_tokenHash (rows @ [r]))" using d fresh h by simp_all
  qed (rule drawn pairs; assumption)+
qed

lemma table_invD:
  assumes "table_inv U (rows, n)"
  shows "inj U" "distinct (map rt_id rows)" "distinct (map rt_tokenHash rows)"
    and "r \<in> set rows \<Longrightarrow> rt_id r \<in> U ` {..<n}" and "r \<in> set rows \<Longrightarrow> rt_familyId r \<in> U ` {..<n}"
    and "r \<in> set rows \<Longrightarrow> x \<in> set rows \<Longrightarrow> rt_familyId r = rt_familyId x \<Longrightarrow> rt_userId r = rt_userId x"
    and "r \<in> set rows \<Longrightarrow> x \<in> set rows \<Longrightarrow> rt_familyId r = rt_familyId x \<Longrightarrow> live r \<Longrightarrow> live x \<Longrightarrow> r = x"
  using assms unfolding table_inv_def fst_conv snd_conv by blast+

lemma table_same_id: "table_inv U (rows, n) \<Longrightarrow> r \<in> set rows \<Longrightarrow> x \<in> set rows \<Longrightarrow> rt_id r = rt_id x \<Longrightarrow> r = x"
  using table_invD(2) by (metis distinct_map inj_onD)

lemma new_row_revoke [simp]: "new_row U (revoke_active now by' P rows) n n' r \<longleftrightarrow> new_row U rows n n' r"
  unfolding new_row_def revoke_active_hashes by (rule refl)

lemma table_step_inv:
  assumes "tmove U t t'" and "table_inv U t"
  shows "table_inv U t'"
  using assms
proof (induction rule: tmove.induct)
  case (tm_ids n n' rows)
  then show ?case using supply_mono(1) [of _ U n n'] unfolding table_inv_def fst_conv snd_conv by blast
next
  case (tm_revoke rows n now by' P)
  then show ?case by (rule table_inv_revoke)
next
  case (tm_issue rows n n' r)
  have "rt_familyId x \<noteq> rt_familyId r" if "x \<in> set rows" for x
    by (rule supply_fresh [OF table_invD(1,5) [OF tm_issue(3)] tm_issue(2)]) (rule that)
  then show ?case by (intro table_inv_append [OF tm_issue(3,1)] supply_mono(2) [OF tm_issue(2)]) blast
next
  case (tm_rotate rows n n' r old now)
  let ?rows = "revoke_active now (Some (rt_id r)) (\<lambda>x. rt_id x = rt_id old) rows"
  note inv = tm_rotate(6)
  have n: "n \<le> n'" using tm_rotate(1) by (simp add: new_row_def)
  have "rt_userId x = rt_userId r \<and> \<not> (live r \<and> live x)" if x: "x \<in> set ?rows" "rt_familyId x = rt_familyId r" for x
  proof -
    obtain y where y: "y \<in> set rows" "later_row y x" "live x \<longrightarrow> x = y \<and> rt_id y \<noteq> rt_id old"
      using revoke_active_cases [OF x(1)] by metis
    then have f: "rt_familyId y = rt_familyId old" using x(2) tm_rotate(4) by (simp add: later_row_def)
    then show ?thesis using y table_invD(6,7) [OF inv y(1) tm_rotate(2) f] tm_rotate(3,5) by (auto simp: later_row_def)
  qed
  moreover have "rt_familyId r \<in> U ` {..<n'}" unfolding tm_rotate(4) by (rule supply_mono(1) [OF table_invD(5) [OF inv tm_rotate(2)] n])
  ultimately show ?case using tm_rotate(1) by (intro table_inv_append [OF table_inv_revoke [OF inv]]) simp_all
next
  case (tm_void rows n n' r old)
  note inv = tm_void(6)
  have n: "n \<le> n'" using tm_void(1) by (simp add: new_row_def)
  show ?case
  proof (rule table_inv_append [OF inv tm_void(1)])
    show "rt_familyId r \<in> U ` {..<n'}" unfolding tm_void(4) by (rule supply_mono(1) [OF table_invD(5) [OF inv tm_void(2)] n])
    show "rt_userId x = rt_userId r \<and> \<not> (live r \<and> live x)" if "x \<in> set rows" "rt_familyId x = rt_familyId r" for x
      using table_invD(6) [OF inv that(1) tm_void(2)] that(2) tm_void(3-5) by simp
  qed
qed

lemma ended_append: "ended f (rows @ [r]) \<longleftrightarrow> ended f rows \<and> (rt_familyId r = f \<longrightarrow> \<not> live r)"
  by (auto simp: ended_def)

lemma table_step_later:
  assumes "tmove U t t'" and "table_inv U t"
  shows "table_later U t t'"
  using assms
proof (induction rule: tmove.induct)
  case (tm_ids n n' rows)
  then show ?case by (auto simp: table_later_def)
next
  case (tm_revoke rows n now by' P)
  have "\<exists>x\<in>set (revoke_active now by' P rows). later_row r x" if "r \<in> set rows" for r
    using revoke_active_later [OF that] by metis
  then show ?case using revoke_active_ended(1) by (simp add: table_later_def)
next
  case (tm_issue rows n n' r)
  have "f \<noteq> rt_familyId r" if "f \<in> U ` {..<n}" for f
    by (rule supply_fresh [OF table_invD(1) [OF tm_issue(3)] that tm_issue(2)])
  then show ?case using tm_issue(1) unfolding table_later_def fst_conv snd_conv ended_append by (auto simp: new_row_def)
next
  case (tm_rotate rows n n' r old now)
  let ?rows = "revoke_active now (Some (rt_id r)) (\<lambda>x. rt_id x = rt_id old) rows"
  have "\<exists>x\<in>set (?rows @ [r]). later_row y x" if "y \<in> set rows" for y
    using revoke_active_later [OF that] by (metis Un_iff set_append)
  moreover have "\<not> ended (rt_familyId r) rows" using tm_rotate(2-4) by (auto simp: ended_def)
  ultimately show ?case using tm_rotate(1) revoke_active_ended(1) unfolding table_later_def fst_conv snd_conv ended_append
    by (metis new_row_def)
next
  case (tm_void rows n n' r old)
  then show ?case unfolding table_later_def fst_conv snd_conv ended_append by (auto simp: new_row_def)
qed

lemma table_later_trans: "table_later U t t' \<Longrightarrow> table_later U t' t'' \<Longrightarrow> table_later U t t''"
  unfolding table_later_def by (meson le_trans later_row_trans supply_mono(1))

interpretation table: guarded_system "tmove U" "table_inv U" "table_later U" for U
proof
  show "table_inv U s \<Longrightarrow> tmove U s t \<Longrightarrow> table_inv U t" for s t by (rule table_step_inv)
  show "table_inv U s \<Longrightarrow> tmove U s t \<Longrightarrow> table_later U s t" for s t by (rule table_step_later)
  show "table_later U s s" for s by (auto simp: table_later_def)
  show "table_inv U s \<Longrightarrow> table_later U s t \<Longrightarrow> table_later U t u \<Longrightarrow> table_later U s u" for s t u by (rule table_later_trans)
qed

section \<open>What the operations do to the table\<close>

definition tab :: "auth_state \<Rightarrow> token_table" where
  "tab s = (as_tokens s, as_ids s)"

text \<open>A relation between the states before and after a program. When it holds of every primitive write, it
  holds of every request; a transaction that throws puts the tables back.\<close>

definition does :: "(auth_state \<Rightarrow> auth_state \<Rightarrow> bool) \<Rightarrow> 'a auth \<Rightarrow> bool" where
  "does R m \<longleftrightarrow> (\<forall>s. R s (snd (m s)))"

named_theorems auth_does \<open>programs whose writes respect a relation\<close>

lemma doesI: "(\<And>s. R s (snd (m s))) \<Longrightarrow> does R m"
  by (simp add: does_def)

lemma doesD: "does R m \<Longrightarrow> m s = (r, s') \<Longrightarrow> R s s'"
  unfolding does_def by (metis snd_conv)

lemma does_branch [auth_does]:
  "\<lbrakk>b \<Longrightarrow> does R m; \<not> b \<Longrightarrow> does R m'\<rbrakk> \<Longrightarrow> does R (if b then m else m')"
  "\<lbrakk>\<And>x. does R (f x); does R m\<rbrakk> \<Longrightarrow> does R (case o' of None \<Rightarrow> m | Some x \<Rightarrow> f x)"
  "\<lbrakk>\<And>x y. does R (g x y)\<rbrakk> \<Longrightarrow> does R (case p of (x, y) \<Rightarrow> g x y)"
  "\<lbrakk>\<And>x. does R (h x); \<And>x. does R (k x)\<rbrakk> \<Longrightarrow> does R (case s of Inl x \<Rightarrow> h x | Inr x \<Rightarrow> k x)"
  by (simp_all split: option.split prod.split sum.split)

lemma snd_basic [simp]:
  "snd (aret x s) = s" "snd (athrow err s) = s" "snd (alift r s) = s" "snd (agets f s) = s"
  by (simp_all add: aret_def athrow_def alift_def agets_def)

locale write_relation =
  fixes e :: auth_env and R :: "auth_state \<Rightarrow> auth_state \<Rightarrow> bool"
  assumes refl: "R s s" and trans: "R s t \<Longrightarrow> R t s2 \<Longrightarrow> R s s2"
    and rolled_back: "R s t \<Longrightarrow> R s (t\<lparr>as_users := as_users s, as_rbac := as_rbac s, as_tokens := as_tokens s\<rparr>)"
    and revokes: "R s (s\<lparr>as_tokens := revoke_active (ae_now e) None P (as_tokens s)\<rparr>)"
    and issues: "R s (snd (issueSession e u None s))"
    and draws: "R s (s\<lparr>as_ids := Suc (as_ids s)\<rparr>)"
    and users: "R s (s\<lparr>as_users := us\<rparr>)"
    and audits: "R s (s\<lparr>as_audit := au\<rparr>)"
    and reads: "R s (s\<lparr>as_kv := snd (kv_get (ae_now e) k (as_kv s))\<rparr>)"
    and denies: "R s (s\<lparr>as_kv := kv_set (ae_now e) (jti_key j) AV_denied (Some (ttlMs e)) (as_kv s)\<rparr>)"
    and bumps: "R s (s\<lparr>as_kv := kv_set (ae_now e) (version_key i)
        (AV_version (version_of (kv_read (as_kv s) (ae_now e) (version_key i)) + 1)) (Some (ttlMs e))
        (snd (kv_get (ae_now e) (version_key i) (as_kv s)))\<rparr>)"
begin

lemma does_basic [auth_does]: "does R (aret x)" "does R (athrow err)" "does R (alift r)" "does R (agets f)"
  by (rule doesI; simp add: refl)+

lemma does_bind [auth_does]:
  assumes "does R m" and "\<And>x. does R (f x)"
  shows "does R (abind m f)"
proof (rule doesI)
  fix s
  obtain r s' where r: "m s = (r, s')" by (cases "m s")
  show "R s (snd (abind m f s))"
    by (cases r) (use doesD [OF assms(1) r] assms(2) r in \<open>auto simp: abind_def does_def intro: trans\<close>)
qed

lemma does_transaction [auth_does]:
  assumes "does R m"
  shows "does R (transaction m)"
proof (rule doesI)
  fix s
  obtain r s' where r: "m s = (r, s')" by (cases "m s")
  show "R s (snd (transaction m s))"
    by (cases r) (use doesD [OF assms r] r rolled_back in \<open>auto simp: transaction_def\<close>)
qed

lemma does_writes [auth_does]:
  "does R (revokeFamily e f)" "does R (revokeAllForUser e i)" "does R (issueSession e u None)" "does R (auuid e)"
  "does R (assignUser i r)" "does R (set_password i h)" "does R (aaudit a b c)" "does R (akv (kv_get (ae_now e) k))"
  "does R (denyAccessJti e j)"
  by (rule doesI; simp add: revokeFamily_def revokeAllForUser_def atokens_def revokes issues auuid_def draws assignUser_def users
    set_password_def aaudit_def audits akv_def reads denyAccessJti_def denies split: prod.split; metis reads snd_conv)+

lemma does_version [auth_does]: "does R (revokeUserAccess e i)"
proof (rule doesI)
  fix s
  show "R s (snd (revokeUserAccess e i s))"
    using bumps [of s i] by (cases "kv_get (ae_now e) (version_key i) (as_kv s)")
      (simp add: revokeUserAccess_def currentAccessVersion_def abind_def akv_def aret_def kv_read_def)
qed

lemma does_create [auth_does]: "does R (create_account e em h nm)"
proof -
  have "does R (\<lambda>s. (Inr u, s\<lparr>as_users := as_users s @ [u]\<rparr>))" for u by (rule doesI) (simp add: users)
  then have 1: "does R (users_create e em h nm)" unfolding users_create_def Let_def by (intro auth_does)
  have "snd (create_account e em h nm s) = snd (users_create e em h nm s)" for s
    by (simp add: create_account_def split: prod.splits sum.splits app_error.splits)
  then show ?thesis using 1 by (simp add: does_def)
qed

lemma does_requests [auth_does]:
  "does R (register e em pw nm)" "does R (login e em pw)" "does R (logout e rt acc)"
  "does R (getMe e i)" "does R (resetPassword e em pw)" "does R (createSessionForVerifiedEmail e em)"
  "does R (refresh_check e c h)" "does R (authenticate e hdr ck)"
  unfolding register_def register_account_def login_def logout_def denyAccessToken_def getMe_def resetPassword_def
    createSessionForVerifiedEmail_def refresh_check_def authenticate_def attachAuthenticatedUser_def assertAccessAllowed_def
    currentAccessVersion_def findByEmailForAuth_def findByIdWithRoles_def findByTokenHash_def roles_findByName_def
  by (intro auth_does)+

end

text \<open>What \<open>issueSession\<close> appends.\<close>

definition issued_row :: "auth_env \<Rightarrow> authenticated_user \<Rightarrow> string option \<Rightarrow> nat \<Rightarrow> refresh_row" where
  "issued_row e u family n = \<lparr>rt_id = ae_uuid e n, rt_userId = us_id u,
     rt_tokenHash = ae_hashToken e (sign e T_refresh (us_id u) (us_role u) (ae_uuid e n) 0),
     rt_familyId = (case family of Some f \<Rightarrow> f | None \<Rightarrow> ae_uuid e (Suc n)),
     rt_expiresAt = ae_now e + ts_refreshExpiresInSeconds (ae_tokens e) * 1000, rt_revokedAt = None, rt_replacedBy = None\<rparr>"

definition issue_ids :: "string option \<Rightarrow> nat \<Rightarrow> nat" where
  "issue_ids family n = (case family of Some _ \<Rightarrow> Suc (Suc n) | None \<Rightarrow> Suc (Suc (Suc n)))"

definition taken :: "refresh_row \<Rightarrow> refresh_row list \<Rightarrow> bool" where
  "taken r rows \<longleftrightarrow> list_ex (\<lambda>x. rt_id x = rt_id r \<or> rt_tokenHash x = rt_tokenHash r) rows"

definition issued_version :: "auth_env \<Rightarrow> authenticated_user \<Rightarrow> auth_state \<Rightarrow> int" where
  "issued_version e u s = (if ae_revocation e then version_of (kv_read (as_kv s) (ae_now e) (version_key (us_id u))) else 0)"

definition issued_session :: "auth_env \<Rightarrow> authenticated_user \<Rightarrow> string option \<Rightarrow> auth_state \<Rightarrow> auth_session" where
  "issued_session e u family s = \<lparr>ss_user = u, ss_tokens = \<lparr>
     tp_accessToken = sign e T_access (us_id u) (us_role u) (ae_uuid e (issue_ids family (as_ids s) - 1)) (issued_version e u s),
     tp_refreshToken = sign e T_refresh (us_id u) (us_role u) (ae_uuid e (as_ids s)) 0,
     tp_expiresIn = ts_accessExpiresInSeconds (ae_tokens e)\<rparr>\<rparr>"

definition probed :: "auth_env \<Rightarrow> authenticated_user \<Rightarrow> auth_state \<Rightarrow> auth_value kv" where
  "probed e u s = (if ae_revocation e then snd (kv_get (ae_now e) (version_key (us_id u)) (as_kv s)) else as_kv s)"

lemma issueSession_exact:
  "issueSession e u family s = (let n = as_ids s; r = issued_row e u family n;
       s' = s\<lparr>as_ids := issue_ids family n, as_kv := probed e u s\<rparr> in
     if taken r (as_tokens s) then (Inl (ConflictError ''A record with this value already exists''), s')
     else (Inr (issued_session e u family s, rt_id r), s'\<lparr>as_tokens := as_tokens s @ [r]\<rparr>))"
  by (cases family; cases "kv_get (ae_now e) (version_key (us_id u)) (as_kv s)")
     (simp_all add: issueSession_def abind_def auuid_def aret_def agets_def atokens_def athrow_def tokens_create_def
       currentAccessVersion_def akv_def issued_row_def issue_ids_def taken_def issued_session_def issued_version_def probed_def
       kv_read_def Let_def)

lemma issue_new_row:
  assumes "\<not> taken (issued_row e u family n) rows"
  shows "new_row (ae_uuid e) rows n (issue_ids family n) (issued_row e u family n)"
proof -
  have "rt_tokenHash (issued_row e u family n) \<notin> rt_tokenHash ` set rows" using assms by (force simp: taken_def list_ex_iff)
  moreover have "rt_id (issued_row e u family n) \<in> ae_uuid e ` {n..<issue_ids family n}"
    by (auto simp: issued_row_def issue_ids_def split: option.split)
  ultimately show ?thesis by (auto simp: new_row_def issue_ids_def split: option.split)
qed

text \<open>Every request only makes moves of the table.\<close>

definition table_moves :: "(nat \<Rightarrow> string) \<Rightarrow> auth_state \<Rightarrow> auth_state \<Rightarrow> bool" where
  "table_moves U s t \<longleftrightarrow> (tmove U)\<^sup>*\<^sup>* (tab s) (tab t)"

lemma table_movesI: "tmove U (tab s) (tab t) \<Longrightarrow> table_moves U s t"
  unfolding table_moves_def by (rule r_into_rtranclp)

lemma table_moves_quiet: "tab t = tab s \<Longrightarrow> table_moves U s t"
  by (simp add: table_moves_def)

lemma issue_table_moves: "table_moves (ae_uuid e) s (snd (issueSession e u None s))"
proof (rule table_movesI)
  have f: "rt_familyId (issued_row e u None (as_ids s)) \<in> ae_uuid e ` {as_ids s..<issue_ids None (as_ids s)}"
    by (auto simp: issued_row_def issue_ids_def)
  show "tmove (ae_uuid e) (tab s) (tab (snd (issueSession e u None s)))"
  proof (cases "taken (issued_row e u None (as_ids s)) (as_tokens s)")
    case True
    have "tmove (ae_uuid e) (as_tokens s, as_ids s) (as_tokens s, issue_ids None (as_ids s))" by (rule tm_ids) (simp add: issue_ids_def)
    then show ?thesis using True by (simp add: issueSession_exact Let_def tab_def)
  next
    case False
    show ?thesis using tm_issue [OF issue_new_row [OF False] f] False by (simp add: issueSession_exact Let_def tab_def)
  qed
qed

lemma rolled_back_moves:
  assumes "table_moves U s t"
  shows "table_moves U s (t\<lparr>as_users := us, as_rbac := db, as_tokens := as_tokens s\<rparr>)"
proof (rule table_movesI)
  have "as_ids s \<le> as_ids t" using tmoves_ids assms by (fastforce simp: tab_def table_moves_def)
  then show "tmove U (tab s) (tab (t\<lparr>as_users := us, as_rbac := db, as_tokens := as_tokens s\<rparr>))" by (simp add: tab_def tm_ids)
qed

interpretation moving: write_relation e "table_moves (ae_uuid e)" for e
proof
  show "table_moves (ae_uuid e) s (snd (issueSession e u None s))" for s u by (rule issue_table_moves)
  show "table_moves (ae_uuid e) s t \<Longrightarrow> table_moves (ae_uuid e) s (t\<lparr>as_users := as_users s, as_rbac := as_rbac s, as_tokens := as_tokens s\<rparr>)"
    for s t by (rule rolled_back_moves)
  show "table_moves (ae_uuid e) s (s\<lparr>as_tokens := revoke_active (ae_now e) None P (as_tokens s)\<rparr>)" for s P
    by (rule table_movesI) (simp add: tab_def tm_revoke)
  show "table_moves (ae_uuid e) s (s\<lparr>as_ids := Suc (as_ids s)\<rparr>)" for s by (rule table_movesI) (simp add: tab_def tm_ids)
  show "table_moves (ae_uuid e) s t \<Longrightarrow> table_moves (ae_uuid e) t u \<Longrightarrow> table_moves (ae_uuid e) s u" for s t u
    unfolding table_moves_def by (rule rtranclp_trans)
qed (rule table_moves_quiet; simp add: tab_def)+

section \<open>Rotation\<close>

definition void_row :: "int \<Rightarrow> refresh_row \<Rightarrow> refresh_row" where
  "void_row now r = r\<lparr>rt_revokedAt := Some now, rt_replacedBy := None\<rparr>"

lemma void_row_fields [simp]:
  "rt_id (void_row now r) = rt_id r" "rt_userId (void_row now r) = rt_userId r" "rt_familyId (void_row now r) = rt_familyId r"
  "rt_tokenHash (void_row now r) = rt_tokenHash r" "\<not> live (void_row now r)"
  by (simp_all add: void_row_def live_def)

lemma issued_row_fields [simp]:
  "rt_id (issued_row e u family n) = ae_uuid e n" "rt_userId (issued_row e u family n) = us_id u"
  "rt_familyId (issued_row e u (Some f) n) = f" "live (issued_row e u family n)"
  by (simp_all add: issued_row_def live_def)

lemma update_last: "(\<And>x. x \<in> set xs \<Longrightarrow> \<not> P x) \<Longrightarrow> P r \<Longrightarrow> update_first P f (xs @ [r]) = xs @ [f r]"
  by (induction xs) auto

lemma find_append_last: "find P (xs @ [r]) = None \<longleftrightarrow> find P xs = None \<and> \<not> P r"
  by (induction xs) auto

lemma revoke_active_append: "revoke_active now by' P (xs @ ys) = revoke_active now by' P xs @ revoke_active now by' P ys"
  by (simp add: revoke_active_def)

lemma revoke_active_other: "(\<And>x. x \<in> set xs \<Longrightarrow> P x \<Longrightarrow> \<not> live x) \<Longrightarrow> revoke_active now by' P xs = xs"
  unfolding revoke_active_def live_def by (rule map_idI) force

lemma live_rows:
  assumes "distinct (map rt_id rows)" and "x \<in> set rows"
  shows "filter (\<lambda>r. rt_id r = rt_id x \<and> rt_revokedAt r = None) rows = (if live x then [x] else [])"
  using assms
proof (induction rows)
  case (Cons r rows)
  show ?case
  proof (cases "r = x")
    case True
    then have "rt_id y \<noteq> rt_id x" if "y \<in> set rows" for y using Cons.prems(1) that by (auto simp: image_iff)
    then have "filter (\<lambda>r. rt_id r = rt_id x \<and> rt_revokedAt r = None) rows = []" by (auto simp: filter_empty_conv)
    then show ?thesis using True by (simp add: live_def)
  next
    case False
    then have x: "x \<in> set rows" using Cons.prems(2) by simp
    then have "rt_id r \<noteq> rt_id x" using Cons.prems(1) by (auto simp: image_iff)
    then show ?thesis using x Cons by simp
  qed
qed simp

text \<open>A rotation of a row the table knows: the new row takes the place of the old one if that is still live,
  and is revoked on the spot otherwise.\<close>

lemma refresh_rotate_exact:
  assumes inv: "table_inv (ae_uuid e) (tab s)" and x: "x \<in> set (as_tokens s)" "rt_id x = rt_id stored"
  shows "refresh_rotate e stored u s =
    (let f = rt_familyId stored; n = as_ids s; r = issued_row e u (Some f) n; rows = as_tokens s;
         s' = s\<lparr>as_ids := issue_ids (Some f) n, as_kv := probed e u s\<rparr> in
     if taken r rows then (Inl (ConflictError ''A record with this value already exists''), s')
     else if live x then (Inr (Some (issued_session e u (Some f) s)),
       s'\<lparr>as_tokens := revoke_active (ae_now e) (Some (ae_uuid e n)) (\<lambda>y. rt_id y = rt_id x) rows @ [r]\<rparr>)
     else (Inr None, s'\<lparr>as_tokens := rows @ [void_row (ae_now e) r]\<rparr>))"
proof -
  let ?n = "as_ids s" and ?rows = "as_tokens s" and ?f = "rt_familyId stored"
  let ?r = "issued_row e u (Some ?f) ?n"
  note inv' = inv [unfolded tab_def]
  have fresh: "rt_id y \<noteq> ae_uuid e ?n" if "y \<in> set ?rows" for y
    using supply_fresh [OF table_invD(1) [OF inv'] table_invD(4) [OF inv' that], of "ae_uuid e ?n" "Suc ?n"] by auto
  then have other: "ae_uuid e ?n \<noteq> rt_id x" using x(1) by metis
  note count = live_rows [OF table_invD(2) [OF inv'] x(1)]
  have dead: "revoke_active (ae_now e) b (\<lambda>r. rt_id r = rt_id x) ?rows = ?rows" if "\<not> live x" for b
    by (rule revoke_active_other) (use that table_same_id [OF inv' _ x(1)] in auto)
  have new: "revoke_active (ae_now e) b (\<lambda>r. rt_id r = rt_id x) [?r] = [?r]" for b
    by (rule revoke_active_other) (use other in auto)
  have upd: "update_first (\<lambda>y. rt_id y = ae_uuid e ?n) (\<lambda>y. y\<lparr>rt_revokedAt := Some (ae_now e), rt_replacedBy := None\<rparr>) (?rows @ [?r])
      = ?rows @ [void_row (ae_now e) ?r]"
    unfolding void_row_def by (rule update_last) (use fresh in auto)
  show ?thesis
    by (cases "taken ?r ?rows"; cases "live x")
       (simp_all add: refresh_rotate_def abind_def issueSession_exact Let_def claimForRotation_def agets_def atokens_def aret_def
         count revoke_active_append new dead upd x(2) [symmetric] tokens_revoke_def find_append_last other athrow_def)
qed

end
