(* ===== verification/Platform_Interleave.thy ===== *)
theory Platform_Interleave
  imports Platform_Sessions
begin

text \<open>
  The authentication service as a system: the state of the service, the clock, the refreshes between their
  two steps, and the refresh tokens that were exchanged for a session so far. Requests run one after the
  other, except that anything may happen between the two steps of a refresh; other parts of the
  platform may change users, roles and their own keys of the key-value store at any time. The properties
  are about sequences of such steps of any length.
\<close>

section \<open>A refresh in two steps\<close>

text \<open>
  \<open>refresh_begin\<close> and \<open>refresh_finish\<close> are no functions of the code: they are the body of \<open>refresh\<close> (\<open>auth.service.ts\<close>, lines
  144-197) cut at its awaits, the first up to the read of the user, the second the issue of the session and the claim
  of the presented row. The second is one atomic step, as the code runs it in a database transaction; a write of another
  transaction that falls between the statements of this one is not modelled. The lemma \<open>refresh_is_its_steps\<close> only
  checks that the cut loses nothing.
\<close>

definition refresh_begin :: "auth_env \<Rightarrow> string \<Rightarrow> refresh_outcome auth" where
  "refresh_begin e refreshToken =
     abind (alift (verify_token e T_refresh refreshToken)) (\<lambda>c. refresh_check e c (ae_hashToken e refreshToken))"

definition refresh_finish :: "auth_env \<Rightarrow> refresh_row \<Rightarrow> authenticated_user \<Rightarrow> auth_session option auth" where
  "refresh_finish e stored user = transaction (refresh_rotate e stored user)"

definition refresh_answer :: "(app_error + auth_session option) \<times> auth_state \<Rightarrow> (app_error + auth_session) \<times> auth_state" where
  "refresh_answer p = (case p of
     (Inl err, s) \<Rightarrow> (Inl err, s) | (Inr None, s) \<Rightarrow> (Inl malformed, s) | (Inr (Some session), s) \<Rightarrow> (Inr session, s))"

definition refresh_steps :: "auth_env \<Rightarrow> string \<Rightarrow> auth_session auth" where
  "refresh_steps e refreshToken s = (case refresh_begin e refreshToken s of
     (Inl err, s') \<Rightarrow> (Inl err, s')
   | (Inr (Ro_rotate stored user), s') \<Rightarrow> refresh_answer (refresh_finish e stored user s')
   | (Inr outcome, s') \<Rightarrow> (Inl (refresh_error outcome), s'))"

lemma refresh_check_rotate:
  assumes "refresh_check e c h s = (Inr (Ro_rotate stored user), s')"
  shows "s' = s" and "find (\<lambda>r. rt_tokenHash r = h) (as_tokens s) = Some stored" and "rt_id stored = cl_jti c"
    and "rt_userId stored = cl_sub c" and "live stored" and "us_id user = rt_userId stored"
    and "ae_now e < rt_expiresAt stored" and "us_status user = U_active"
proof -
  obtain r where r: "find (\<lambda>r. rt_tokenHash r = h) (as_tokens s) = Some r"
    using assms by (cases "find (\<lambda>r. rt_tokenHash r = h) (as_tokens s)")
      (auto simp: refresh_check_def abind_def findByTokenHash_def agets_def aret_def)
  obtain u where u: "find (\<lambda>u. au_id u = rt_userId r) (as_users s) = Some u"
    using assms r by (cases "find (\<lambda>u. au_id u = rt_userId r) (as_users s)")
      (auto simp: refresh_check_def abind_def findByTokenHash_def findByIdWithRoles_def agets_def aret_def revokeFamily_def atokens_def
        split: if_splits)
  have "au_id u = rt_userId r" using find_SomeD [OF u] by simp
  then show "s' = s" "find (\<lambda>r. rt_tokenHash r = h) (as_tokens s) = Some stored" "rt_id stored = cl_jti c"
    "rt_userId stored = cl_sub c" "live stored" "us_id user = rt_userId stored"
    "ae_now e < rt_expiresAt stored" "us_status user = U_active"
    using assms r u by (auto simp: refresh_check_def abind_def findByTokenHash_def findByIdWithRoles_def agets_def aret_def
      revokeFamily_def atokens_def live_def toAuthenticatedUser_def Let_def split: if_splits)
qed

lemma refresh_check_ok: "\<exists>x s'. refresh_check e c h s = (Inr x, s') \<and> as_users s' = as_users s \<and> as_rbac s' = as_rbac s"
  by (auto simp: refresh_check_def abind_def findByTokenHash_def findByIdWithRoles_def agets_def aret_def revokeFamily_def atokens_def
    split: option.split)

text \<open>The two steps are the code: a refresh gives the same answer and the same state as its reading step
  followed at once by its writing step.\<close>

lemma refresh_is_its_steps: "refresh e refreshToken = refresh_steps e refreshToken"
proof (rule ext)
  fix s
  show "refresh e refreshToken s = refresh_steps e refreshToken s"
  proof (cases "verify_token e T_refresh refreshToken")
    case (Inl err)
    then show ?thesis by (simp add: refresh_def refresh_steps_def refresh_begin_def abind_def alift_def)
  next
    case (Inr c)
    obtain x s' where check: "refresh_check e c (ae_hashToken e refreshToken) s = (Inr x, s')" using refresh_check_ok by blast
    show ?thesis
    proof (cases "\<exists>stored user. x = Ro_rotate stored user")
      case True
      then obtain stored user where x: "x = Ro_rotate stored user" by blast
      have s: "s' = s" using refresh_check_rotate(1) check unfolding x .
      obtain r t where rot: "refresh_rotate e stored user s = (r, t)" by (cases "refresh_rotate e stored user s")
      show ?thesis
      proof (cases r)
        case (Inl err)
        then show ?thesis using Inr check x s rot
          by (simp add: refresh_def refresh_steps_def refresh_begin_def refresh_finish_def refresh_answer_def abind_def alift_def aret_def
            transaction_def)
      next
        case answer: (Inr found)
        then show ?thesis using Inr check x s rot
          by (cases found) (simp_all add: refresh_def refresh_steps_def refresh_begin_def refresh_finish_def refresh_answer_def
            abind_def alift_def aret_def athrow_def transaction_def refresh_error_def)
      qed
    next
      case False
      then show ?thesis using Inr check
        by (cases x) (simp_all add: refresh_def refresh_steps_def refresh_begin_def abind_def alift_def aret_def athrow_def transaction_def)
    qed
  qed
qed

section \<open>The system\<close>

record auth_system =
  sy_state :: auth_state
  sy_now :: int
  sy_pending :: "(refresh_row \<times> authenticated_user) list"
  sy_exchanged :: "string list"

datatype auth_request =
    Rq_register string string string
  | Rq_login string string
  | Rq_refresh_begin string
  | Rq_refresh_finish nat
  | Rq_logout string "string option"
  | Rq_reset string string
  | Rq_session string
  | Rq_authenticate "string option" "string option"

definition at_time :: "auth_env \<Rightarrow> int \<Rightarrow> auth_env" where
  "at_time e t = e\<lparr>ae_now := t\<rparr>"

definition plain :: "'a auth \<Rightarrow> auth_system \<Rightarrow> auth_system" where
  "plain m y = y\<lparr>sy_state := snd (m (sy_state y))\<rparr>"

definition begin_step :: "auth_env \<Rightarrow> string \<Rightarrow> auth_system \<Rightarrow> auth_system" where
  "begin_step e refreshToken y = (case refresh_begin e refreshToken (sy_state y) of
     (Inr (Ro_rotate stored user), s) \<Rightarrow> y\<lparr>sy_state := s, sy_pending := sy_pending y @ [(stored, user)]\<rparr>
   | (_, s) \<Rightarrow> y\<lparr>sy_state := s\<rparr>)"

definition finish_step :: "auth_env \<Rightarrow> nat \<Rightarrow> auth_system \<Rightarrow> auth_system" where
  "finish_step e n y = (if n < length (sy_pending y)
     then case sy_pending y ! n of (stored, user) \<Rightarrow>
       (case refresh_finish e stored user (sy_state y) of (r, s) \<Rightarrow>
         y\<lparr>sy_state := s, sy_pending := take n (sy_pending y) @ drop (Suc n) (sy_pending y),
           sy_exchanged := sy_exchanged y @ (case r of Inr (Some _) \<Rightarrow> [rt_id stored] | _ \<Rightarrow> [])\<rparr>)
     else y)"

fun handle_auth :: "auth_env \<Rightarrow> auth_request \<Rightarrow> auth_system \<Rightarrow> auth_system" where
  "handle_auth e (Rq_register em pw nm) = plain (register e em pw nm)"
| "handle_auth e (Rq_login em pw) = plain (login e em pw)"
| "handle_auth e (Rq_refresh_begin tok) = begin_step e tok"
| "handle_auth e (Rq_refresh_finish n) = finish_step e n"
| "handle_auth e (Rq_logout rt acc) = plain (logout e rt acc)"
| "handle_auth e (Rq_reset em pw) = plain (resetPassword e em pw)"
| "handle_auth e (Rq_session em) = plain (createSessionForVerifiedEmail e em)"
| "handle_auth e (Rq_authenticate hdr ck) = plain (authenticate e hdr ck)"

text \<open>The entries of the revocation store, which no other part of the platform writes.\<close>

definition auth_entries_kept :: "auth_value kv \<Rightarrow> auth_value kv \<Rightarrow> bool" where
  "auth_entries_kept m m' \<longleftrightarrow> (\<forall>x. map_of m' (jti_key x) = map_of m (jti_key x) \<and> map_of m' (version_key x) = map_of m (version_key x))"

inductive auth_step :: "auth_env \<Rightarrow> auth_system \<Rightarrow> auth_system \<Rightarrow> bool" for e where
  as_request: "sy_now y \<le> t \<Longrightarrow> auth_step e y (handle_auth (at_time e t) q (y\<lparr>sy_now := t\<rparr>))"
| as_other: "as_tokens s = as_tokens (sy_state y) \<Longrightarrow> as_ids (sy_state y) \<le> as_ids s \<Longrightarrow> auth_entries_kept (as_kv (sy_state y)) (as_kv s)
    \<Longrightarrow> auth_step e y (y\<lparr>sy_state := s\<rparr>)"

abbreviation auth_run :: "auth_env \<Rightarrow> auth_system \<Rightarrow> auth_system \<Rightarrow> bool" where
  "auth_run e \<equiv> (auth_step e)\<^sup>*\<^sup>*"

definition auth_start :: "auth_system \<Rightarrow> bool" where
  "auth_start y \<longleftrightarrow> as_tokens (sy_state y) = [] \<and> sy_pending y = [] \<and> sy_exchanged y = []"

definition auth_reachable :: "auth_env \<Rightarrow> auth_system \<Rightarrow> bool" where
  "auth_reachable e y \<longleftrightarrow> inj (ae_uuid e) \<and> (\<exists>x. auth_start x \<and> auth_run e x y)"

section \<open>The revocation store over time\<close>

text \<open>Until \<open>T\<close>, the identifier of an access token is denied, or a user's access version is at least \<open>v\<close>.\<close>

definition denied_until :: "string \<Rightarrow> int \<Rightarrow> auth_state \<Rightarrow> bool" where
  "denied_until j T s \<longleftrightarrow> (\<exists>ent. map_of (as_kv s) (jti_key j) = Some ent \<and> (\<forall>x. kv_expiresAt ent = Some x \<longrightarrow> T \<le> x))"

definition version_until :: "string \<Rightarrow> int \<Rightarrow> int \<Rightarrow> auth_state \<Rightarrow> bool" where
  "version_until i v T s \<longleftrightarrow> (\<exists>ent w. map_of (as_kv s) (version_key i) = Some ent \<and> kv_value ent = AV_version w \<and> v \<le> w \<and>
     (\<forall>x. kv_expiresAt ent = Some x \<longrightarrow> T \<le> x))"

definition kv_holds :: "auth_env \<Rightarrow> auth_state \<Rightarrow> auth_state \<Rightarrow> bool" where
  "kv_holds e s t \<longleftrightarrow> (\<forall>T. ae_now e < T \<and> T \<le> ae_now e + ttlMs e \<longrightarrow>
     (\<forall>j. denied_until j T s \<longrightarrow> denied_until j T t) \<and> (\<forall>i v. version_until i v T s \<longrightarrow> version_until i v T t))"

lemma keys_differ [simp]:
  "jti_key j \<noteq> version_key i" "version_key i \<noteq> jti_key j" "jti_key j = jti_key j' \<longleftrightarrow> j = j'" "version_key i = version_key i' \<longleftrightarrow> i = i'"
  by (simp_all add: jti_key_def version_key_def)

lemma ttl_pos: "0 < ttlMs e"
  by (simp add: ttlMs_def)

lemma kv_get_keeps_live:
  assumes "map_of m k = Some ent" and "\<not> expired now ent"
  shows "map_of (snd (kv_get now k' m)) k = Some ent"
  using assms by (auto simp: kv_get_def map_of_kv_del split: option.split)

lemma live_until: "(\<forall>x. kv_expiresAt ent = Some x \<longrightarrow> T \<le> x) \<Longrightarrow> now < T \<Longrightarrow> \<not> expired now ent"
  by (auto simp: expired_def split: option.splits)

lemma kv_holds_quiet: "as_kv t = as_kv s \<Longrightarrow> kv_holds e s t"
  by (simp add: kv_holds_def denied_until_def version_until_def)

lemma until_get:
  assumes "as_kv t = snd (kv_get now k (as_kv s))" and "now < T"
  shows "denied_until j T s \<Longrightarrow> denied_until j T t" and "version_until i v T s \<Longrightarrow> version_until i v T t"
proof -
  have keep: "map_of (as_kv t) k' = Some ent" if "map_of (as_kv s) k' = Some ent" "\<forall>x. kv_expiresAt ent = Some x \<longrightarrow> T \<le> x" for k' ent
    unfolding assms(1) by (rule kv_get_keeps_live [OF that(1) live_until [OF that(2) assms(2)]])
  show "denied_until j T s \<Longrightarrow> denied_until j T t" unfolding denied_until_def using keep by blast
  show "version_until i v T s \<Longrightarrow> version_until i v T t" unfolding version_until_def using keep by blast
qed

lemma kv_holds_get: "as_kv t = snd (kv_get (ae_now e) k (as_kv s)) \<Longrightarrow> kv_holds e s t"
  unfolding kv_holds_def using until_get by blast

lemma kv_holds_deny:
  assumes "as_kv t = kv_set (ae_now e) (jti_key j) AV_denied (Some (ttlMs e)) (as_kv s)"
  shows "kv_holds e s t"
  using assms ttl_pos [of e]
  by (auto simp: kv_holds_def denied_until_def version_until_def kv_set_def map_of_upsert_pair kv_entry_for_def)

lemma version_of_ge: "w \<le> version_of (Some (AV_version w))"
  by (simp add: version_of_def)

lemma kv_read_entry: "map_of m k = Some ent \<Longrightarrow> \<not> expired now ent \<Longrightarrow> kv_read m now k = Some (kv_value ent)"
  by (simp add: kv_read_map)

lemma version_until_read:
  assumes "version_until i v T s" and "now < T"
  shows "v \<le> version_of (kv_read (as_kv s) now (version_key i))"
proof -
  obtain ent w where ent: "map_of (as_kv s) (version_key i) = Some ent" "kv_value ent = AV_version w" "v \<le> w"
      "\<forall>x. kv_expiresAt ent = Some x \<longrightarrow> T \<le> x"
    using assms(1) by (auto simp: version_until_def)
  then have "kv_read (as_kv s) now (version_key i) = Some (AV_version w)"
    using kv_read_entry [OF ent(1) live_until [OF ent(4) assms(2)]] by simp
  then show ?thesis using ent(3) version_of_ge [of w] by simp
qed

lemma kv_holds_bump:
  assumes "as_kv t = kv_set (ae_now e) (version_key i) (AV_version (version_of (kv_read (as_kv s) (ae_now e) (version_key i)) + 1))
    (Some (ttlMs e)) (snd (kv_get (ae_now e) (version_key i) (as_kv s)))"
  shows "kv_holds e s t"
  unfolding kv_holds_def
proof (intro allI impI conjI)
  fix T j
  assume T: "ae_now e < T \<and> T \<le> ae_now e + ttlMs e"
  assume "denied_until j T s"
  then have "denied_until j T (s\<lparr>as_kv := snd (kv_get (ae_now e) (version_key i) (as_kv s))\<rparr>)"
    by (rule until_get(1) [where now = "ae_now e", rotated 2]) (use T in auto)
  then show "denied_until j T t" by (simp add: denied_until_def assms kv_set_def map_of_upsert_pair)
next
  fix T i' v
  assume T: "ae_now e < T \<and> T \<le> ae_now e + ttlMs e"
  assume v: "version_until i' v T s"
  show "version_until i' v T t"
  proof (cases "i' = i")
    case True
    then have "v \<le> version_of (kv_read (as_kv s) (ae_now e) (version_key i)) + 1" using version_until_read [OF v] T by fastforce
    then show ?thesis using True T ttl_pos [of e]
      by (simp add: version_until_def assms kv_set_def map_of_upsert_pair kv_entry_for_def)
  next
    case False
    have "version_until i' v T (s\<lparr>as_kv := snd (kv_get (ae_now e) (version_key i) (as_kv s))\<rparr>)"
      by (rule until_get(2) [where now = "ae_now e", OF _ _ v]) (use T in auto)
    then show ?thesis using False by (simp add: version_until_def assms kv_set_def map_of_upsert_pair)
  qed
qed

lemma kv_holds_issue: "kv_holds e s (snd (issueSession e u family s))"
proof -
  have "as_kv (snd (issueSession e u family s)) = probed e u s" by (simp add: issueSession_exact Let_def)
  then show ?thesis by (cases "ae_revocation e") (auto simp: probed_def intro: kv_holds_quiet kv_holds_get)
qed

lemma kv_holds_trans: "kv_holds e s t \<Longrightarrow> kv_holds e t r \<Longrightarrow> kv_holds e s r"
  unfolding kv_holds_def by blast

interpretation holding: write_relation e "kv_holds e" for e
proof
  show "kv_holds e s t \<Longrightarrow> kv_holds e t r \<Longrightarrow> kv_holds e s r" for s t r by (rule kv_holds_trans)
  show "kv_holds e s t \<Longrightarrow> kv_holds e s (t\<lparr>as_users := as_users s, as_rbac := as_rbac s, as_tokens := as_tokens s\<rparr>)" for s t
    by (erule kv_holds_trans) (simp add: kv_holds_quiet)
  show "kv_holds e s (snd (issueSession e u None s))" for s u by (rule kv_holds_issue)
  show "kv_holds e s (s\<lparr>as_kv := snd (kv_get (ae_now e) k (as_kv s))\<rparr>)" for s k by (rule kv_holds_get) simp
  show "kv_holds e s (s\<lparr>as_kv := kv_set (ae_now e) (jti_key j) AV_denied (Some (ttlMs e)) (as_kv s)\<rparr>)" for s j
    by (rule kv_holds_deny) simp
  show "kv_holds e s (s\<lparr>as_kv := kv_set (ae_now e) (version_key i)
      (AV_version (version_of (kv_read (as_kv s) (ae_now e) (version_key i)) + 1)) (Some (ttlMs e))
      (snd (kv_get (ae_now e) (version_key i) (as_kv s)))\<rparr>)" for s i by (rule kv_holds_bump) simp
qed (rule kv_holds_quiet; simp)+

section \<open>The invariant of the system\<close>

definition known :: "auth_state \<Rightarrow> refresh_row \<Rightarrow> authenticated_user \<Rightarrow> bool" where
  "known s r u \<longleftrightarrow> us_id u = rt_userId r \<and>
     (\<exists>x\<in>set (as_tokens s). rt_id x = rt_id r \<and> rt_familyId x = rt_familyId r \<and> rt_userId x = rt_userId r)"

definition revoked_id :: "auth_state \<Rightarrow> string \<Rightarrow> bool" where
  "revoked_id s i \<longleftrightarrow> (\<exists>x\<in>set (as_tokens s). rt_id x = i \<and> \<not> live x)"

definition auth_inv :: "auth_env \<Rightarrow> auth_system \<Rightarrow> bool" where
  "auth_inv e y \<longleftrightarrow> table_inv (ae_uuid e) (tab (sy_state y)) \<and> (\<forall>p\<in>set (sy_pending y). known (sy_state y) (fst p) (snd p)) \<and>
     distinct (sy_exchanged y) \<and> (\<forall>i\<in>set (sy_exchanged y). revoked_id (sy_state y) i)"

definition auth_later :: "auth_env \<Rightarrow> auth_system \<Rightarrow> auth_system \<Rightarrow> bool" where
  "auth_later e y z \<longleftrightarrow> table_later (ae_uuid e) (tab (sy_state y)) (tab (sy_state z)) \<and> sy_now y \<le> sy_now z \<and>
     (\<exists>js. sy_exchanged z = sy_exchanged y @ js) \<and>
     (\<forall>T. sy_now z < T \<and> T \<le> sy_now y + ttlMs e \<longrightarrow>
        (\<forall>j. denied_until j T (sy_state y) \<longrightarrow> denied_until j T (sy_state z)) \<and>
        (\<forall>i v. version_until i v T (sy_state y) \<longrightarrow> version_until i v T (sy_state z)))"

lemma known_later: "table_later U (tab s) (tab t) \<Longrightarrow> known s r u \<Longrightarrow> known t r u"
  unfolding known_def table_later_def tab_def fst_conv later_row_def by metis

lemma revoked_later: "table_later U (tab s) (tab t) \<Longrightarrow> revoked_id s i \<Longrightarrow> revoked_id t i"
  unfolding revoked_id_def table_later_def tab_def fst_conv later_row_def by metis

lemma moves_later: "table_inv U (tab s) \<Longrightarrow> table_moves U s t \<Longrightarrow> table_inv U (tab t) \<and> table_later U (tab s) (tab t)"
  unfolding table_moves_def using table.run_inv table.run_rel by blast

text \<open>The writing step of a refresh.\<close>

lemma refresh_finish_spec:
  assumes inv: "table_inv (ae_uuid e) (tab s)" and k: "known s stored u"
    and run: "refresh_finish e stored u s = (r, t)"
  shows "table_moves (ae_uuid e) s t" and "kv_holds e s t"
    and "r = Inr (Some session) \<Longrightarrow> \<not> revoked_id s (rt_id stored) \<and> revoked_id t (rt_id stored)"
proof -
  let ?n = "as_ids s" and ?rows = "as_tokens s" and ?f = "rt_familyId stored"
  let ?r = "issued_row e u (Some ?f) ?n" and ?t = "s\<lparr>as_ids := issue_ids (Some ?f) ?n, as_kv := probed e u s\<rparr>"
  obtain x where x: "x \<in> set ?rows" "rt_id x = rt_id stored" "rt_familyId x = ?f" "rt_userId x = us_id u"
    using k by (auto simp: known_def)
  note inv' = inv [unfolded tab_def]
  have fin: "refresh_finish e stored u s = (if taken ?r ?rows then (Inl (ConflictError ''A record with this value already exists''), ?t)
     else if live x then (Inr (Some (issued_session e u (Some ?f) s)),
       ?t\<lparr>as_tokens := revoke_active (ae_now e) (Some (rt_id ?r)) (\<lambda>y. rt_id y = rt_id x) ?rows @ [?r]\<rparr>)
     else (Inr None, ?t\<lparr>as_tokens := ?rows @ [void_row (ae_now e) ?r]\<rparr>))"
    by (simp add: refresh_finish_def transaction_def refresh_rotate_exact [OF inv x(1,2)] Let_def)
  have "kv_holds e s t \<longleftrightarrow> kv_holds e s (s\<lparr>as_kv := as_kv t\<rparr>)" by (simp add: kv_holds_def denied_until_def version_until_def)
  moreover have "as_kv t = probed e u s" using run fin by (auto split: if_splits)
  ultimately show "kv_holds e s t"
    by (cases "ae_revocation e") (auto simp: probed_def intro: kv_holds_quiet kv_holds_get)
  show "table_moves (ae_uuid e) s t"
  proof (cases "taken ?r ?rows")
    case True
    have "as_ids s \<le> as_ids t" "as_tokens t = as_tokens s" using run fin True by (auto simp: issue_ids_def)
    then show ?thesis by (intro table_movesI) (simp add: tab_def tm_ids)
  next
    case False
    note new = issue_new_row [OF False]
    show ?thesis
    proof (cases "live x")
      case True
      show ?thesis using tm_rotate [OF new x(1) True, of "ae_now e"] False True run fin x(3,4)
        by (intro table_movesI) (auto simp: tab_def)
    next
      case dead: False
      have "new_row (ae_uuid e) ?rows ?n (issue_ids (Some ?f) ?n) (void_row (ae_now e) ?r)" using new by (simp add: new_row_def)
      then show ?thesis using tm_void [OF _ x(1), of "ae_uuid e" ?n _ "void_row (ae_now e) ?r"] False dead run fin x(3,4)
        by (intro table_movesI) (auto simp: tab_def)
    qed
  qed
  assume "r = Inr (Some session)"
  then have l: "live x" and rows: "as_tokens t = revoke_active (ae_now e) (Some (rt_id ?r)) (\<lambda>y. rt_id y = rt_id x) ?rows @ [?r]"
    using run fin by (auto split: if_splits)
  have "\<not> revoked_id s (rt_id stored)" using table_same_id [OF inv' _ x(1)] l x(2) by (auto simp: revoked_id_def)
  moreover obtain x' where "x' \<in> set (as_tokens t)" "later_row x x'" "\<not> live x'"
    using revoke_active_later [OF x(1), of "ae_now e" "Some (rt_id ?r)" "\<lambda>y. rt_id y = rt_id x"] unfolding rows by auto
  then have "revoked_id t (rt_id stored)" using x(2) by (auto simp: revoked_id_def later_row_def)
  ultimately show "\<not> revoked_id s (rt_id stored) \<and> revoked_id t (rt_id stored)" by simp
qed

lemma at_time_fields [simp]:
  "ae_uuid (at_time e t) = ae_uuid e" "ae_now (at_time e t) = t" "ttlMs (at_time e t) = ttlMs e"
  "ae_revocation (at_time e t) = ae_revocation e" "at_time (at_time e t) t' = at_time e t'"
  by (simp_all add: at_time_def ttlMs_def)

lemma system_step:
  assumes inv: "auth_inv e y" and t: "sy_now y \<le> t" and s: "table_moves (ae_uuid e) (sy_state y) s"
    and kv: "kv_holds (at_time e t) (sy_state y) s"
    and ps: "\<And>p. p \<in> set ps \<Longrightarrow> p \<in> set (sy_pending y) \<or> known s (fst p) (snd p)"
    and exch: "distinct (sy_exchanged y @ js)" "\<And>i. i \<in> set js \<Longrightarrow> revoked_id s i"
  shows "auth_inv e \<lparr>sy_state = s, sy_now = t, sy_pending = ps, sy_exchanged = sy_exchanged y @ js\<rparr> \<and>
    auth_later e y \<lparr>sy_state = s, sy_now = t, sy_pending = ps, sy_exchanged = sy_exchanged y @ js\<rparr>"
proof -
  have tab: "table_inv (ae_uuid e) (tab s)" and later: "table_later (ae_uuid e) (tab (sy_state y)) (tab s)"
    using moves_later [OF _ s] inv by (auto simp: auth_inv_def)
  have "known s (fst p) (snd p)" if "p \<in> set ps" for p
    using ps [OF that] known_later [OF later] inv by (auto simp: auth_inv_def)
  moreover have "revoked_id s i" if "i \<in> set (sy_exchanged y @ js)" for i
    using that exch(2) revoked_later [OF later] inv by (auto simp: auth_inv_def)
  ultimately have "auth_inv e \<lparr>sy_state = s, sy_now = t, sy_pending = ps, sy_exchanged = sy_exchanged y @ js\<rparr>"
    using tab exch(1) by (simp add: auth_inv_def)
  moreover have "auth_later e y \<lparr>sy_state = s, sy_now = t, sy_pending = ps, sy_exchanged = sy_exchanged y @ js\<rparr>"
    using later t kv unfolding auth_later_def kv_holds_def by auto
  ultimately show ?thesis ..
qed

lemma plain_step:
  assumes inv: "auth_inv e y" and t: "sy_now y \<le> t"
    and m: "does (table_moves (ae_uuid e)) m" "does (kv_holds (at_time e t)) m"
  shows "auth_inv e (plain m (y\<lparr>sy_now := t\<rparr>)) \<and> auth_later e y (plain m (y\<lparr>sy_now := t\<rparr>))"
proof -
  have "plain m (y\<lparr>sy_now := t\<rparr>) = \<lparr>sy_state = snd (m (sy_state y)), sy_now = t, sy_pending = sy_pending y, sy_exchanged = sy_exchanged y @ []\<rparr>"
    by (simp add: plain_def)
  then show ?thesis using system_step [OF inv t, of "snd (m (sy_state y))" "sy_pending y" "[]"] m inv
    by (simp add: does_def auth_inv_def)
qed

lemma begin_does: "does (table_moves (ae_uuid e)) (refresh_begin e tok)" "does (kv_holds e) (refresh_begin e tok)"
  unfolding refresh_begin_def by (intro auth_does)+

lemma refresh_begin_known:
  assumes "refresh_begin e tok s = (Inr (Ro_rotate stored user), t)"
  shows "t = s \<and> known s stored user"
proof -
  obtain c where c: "refresh_check e c (ae_hashToken e tok) s = (Inr (Ro_rotate stored user), t)"
    using assms by (cases "verify_token e T_refresh tok") (auto simp: refresh_begin_def abind_def alift_def)
  note r = refresh_check_rotate [OF c]
  show ?thesis using r(1,6) find_SomeD [OF r(2)] by (auto simp: known_def)
qed

lemma begin_step_ok:
  assumes inv: "auth_inv e y" and t: "sy_now y \<le> t"
  shows "auth_inv e (begin_step (at_time e t) tok (y\<lparr>sy_now := t\<rparr>)) \<and> auth_later e y (begin_step (at_time e t) tok (y\<lparr>sy_now := t\<rparr>))"
proof -
  let ?e = "at_time e t"
  obtain r s where r: "refresh_begin ?e tok (sy_state y) = (r, s)" by (cases "refresh_begin ?e tok (sy_state y)")
  have mv: "table_moves (ae_uuid e) (sy_state y) s" and kv: "kv_holds ?e (sy_state y) s"
    using doesD [OF begin_does(1) r] doesD [OF begin_does(2) r] by simp_all
  note step = system_step [OF inv t mv kv]
  have old: "distinct (sy_exchanged y)" using inv by (simp add: auth_inv_def)
  show ?thesis
  proof (cases "\<exists>stored user. r = Inr (Ro_rotate stored user)")
    case True
    then obtain stored user where u: "r = Inr (Ro_rotate stored user)" by blast
    then have "known s stored user" using refresh_begin_known r by blast
    moreover have "begin_step ?e tok (y\<lparr>sy_now := t\<rparr>) = \<lparr>sy_state = s, sy_now = t, sy_pending = sy_pending y @ [(stored, user)],
        sy_exchanged = sy_exchanged y @ []\<rparr>" using r u by (simp add: begin_step_def)
    moreover have "p \<in> set (sy_pending y) \<or> known s (fst p) (snd p)" if "p \<in> set (sy_pending y @ [(stored, user)])" for p
      using that \<open>known s stored user\<close> by auto
    ultimately show ?thesis using step [of "sy_pending y @ [(stored, user)]" "[]"] old by simp
  next
    case False
    then have "begin_step ?e tok (y\<lparr>sy_now := t\<rparr>) = \<lparr>sy_state = s, sy_now = t, sy_pending = sy_pending y, sy_exchanged = sy_exchanged y @ []\<rparr>"
      using r by (auto simp: begin_step_def split: sum.split refresh_outcome.split)
    then show ?thesis using step [of "sy_pending y" "[]"] old by simp
  qed
qed

lemma finish_step_ok:
  assumes inv: "auth_inv e y" and t: "sy_now y \<le> t"
  shows "auth_inv e (finish_step (at_time e t) n (y\<lparr>sy_now := t\<rparr>)) \<and> auth_later e y (finish_step (at_time e t) n (y\<lparr>sy_now := t\<rparr>))"
proof (cases "n < length (sy_pending y)")
  case False
  then have "finish_step (at_time e t) n (y\<lparr>sy_now := t\<rparr>) = plain (aret ()) (y\<lparr>sy_now := t\<rparr>)"
    by (simp add: finish_step_def plain_def)
  then show ?thesis using plain_step [OF inv t, of "aret ()"] by (simp add: moving.does_basic(1) holding.does_basic(1))
next
  case True
  obtain stored user where p: "sy_pending y ! n = (stored, user)" by (cases "sy_pending y ! n")
  then have k: "known (sy_state y) stored user" using inv nth_mem [OF True] by (fastforce simp: auth_inv_def)
  obtain r s where r: "refresh_finish (at_time e t) stored user (sy_state y) = (r, s)"
    by (cases "refresh_finish (at_time e t) stored user (sy_state y)")
  have "table_inv (ae_uuid (at_time e t)) (tab (sy_state y))" using inv by (simp add: auth_inv_def)
  note spec = refresh_finish_spec [OF this k r]
  let ?js = "case r of Inr (Some _) \<Rightarrow> [rt_id stored] | _ \<Rightarrow> []"
  have ex: "finish_step (at_time e t) n (y\<lparr>sy_now := t\<rparr>) = \<lparr>sy_state = s, sy_now = t,
      sy_pending = take n (sy_pending y) @ drop (Suc n) (sy_pending y), sy_exchanged = sy_exchanged y @ ?js\<rparr>"
    using True p r by (simp add: finish_step_def)
  have "distinct (sy_exchanged y @ ?js) \<and> (\<forall>i\<in>set ?js. revoked_id s i)"
    using spec(3) inv by (auto simp: auth_inv_def split: sum.split option.split)
  then show ?thesis unfolding ex
    by (intro system_step [OF inv t spec(1) [simplified] spec(2)]) (auto dest: in_set_takeD in_set_dropD)
qed

lemma auth_step_ok:
  assumes "auth_inv e y" and "auth_step e y z"
  shows "auth_inv e z \<and> auth_later e y z"
  using assms(2)
proof cases
  case (as_request t q)
  note does = moving.does_requests [of "at_time e t", unfolded at_time_fields] holding.does_requests [of "at_time e t"]
  note plain = plain_step [OF assms(1) as_request(2)]
  show ?thesis unfolding as_request(1)
    by (cases q) (simp_all add: plain does begin_step_ok [OF assms(1) as_request(2)] finish_step_ok [OF assms(1) as_request(2)])
next
  case (as_other s)
  have "table_moves (ae_uuid e) (sy_state y) s" using as_other(2,3) by (intro table_movesI) (simp add: tab_def tm_ids)
  moreover have "kv_holds (at_time e (sy_now y)) (sy_state y) s"
    using as_other(4) by (simp add: kv_holds_def denied_until_def version_until_def auth_entries_kept_def)
  moreover have "z = \<lparr>sy_state = s, sy_now = sy_now y, sy_pending = sy_pending y, sy_exchanged = sy_exchanged y @ []\<rparr>"
    using as_other(1) by simp
  ultimately show ?thesis
    using system_step [OF assms(1), of "sy_now y" s "sy_pending y" "[]"] assms(1) by (simp add: auth_inv_def)
qed

lemma auth_later_trans: "auth_later e x y \<Longrightarrow> auth_later e y z \<Longrightarrow> auth_later e x z"
  unfolding auth_later_def using table_later_trans by (smt (verit) append.assoc)

interpretation authsys: guarded_system "auth_step e" "auth_inv e" "auth_later e" for e
proof
  show "auth_inv e y \<Longrightarrow> auth_step e y z \<Longrightarrow> auth_inv e z" for y z using auth_step_ok by blast
  show "auth_inv e y \<Longrightarrow> auth_step e y z \<Longrightarrow> auth_later e y z" for y z using auth_step_ok by blast
  show "auth_later e y y" for y by (auto simp: auth_later_def table_later_def)
  show "auth_inv e x \<Longrightarrow> auth_later e x y \<Longrightarrow> auth_later e y z \<Longrightarrow> auth_later e x z" for x y z by (rule auth_later_trans)
qed

lemma reachable_auth_inv: "auth_reachable e y \<Longrightarrow> auth_inv e y"
proof -
  assume "auth_reachable e y"
  then obtain x where x: "inj (ae_uuid e)" "auth_start x" "auth_run e x y" by (auto simp: auth_reachable_def)
  then have "auth_inv e x" by (simp add: auth_inv_def auth_start_def table_inv_def tab_def)
  then show ?thesis using authsys.run_inv x(3) by blast
qed

end
