(* ===== verification/Platform_AuthSample.thy ===== *)
theory Platform_AuthSample
  imports Platform_Interleave
begin

text \<open>
  A concrete deployment of the authentication service and concrete runs, the inputs of the witnesses. Its
  tokens are the claims themselves, in fields between dots; its hash of a token is the token; there is one user,
  of one role with one permission.
\<close>

definition sample_sign :: "int \<Rightarrow> sign_input \<Rightarrow> string \<Rightarrow> string" where
  "sample_sign now i secret = hd (si_type i) # si_subject i @ ''.'' @ si_jwtid i @ ''.'' @ si_role i @ ''.'' @
     replicate (nat (case si_tvn i of None \<Rightarrow> 0 | Some v \<Rightarrow> v)) (CHR ''v'') @ ''.'' @ replicate (nat (now div 1000 + 10)) (CHR ''s'')"

definition sample_verify :: "int \<Rightarrow> string \<Rightarrow> string \<Rightarrow> string \<Rightarrow> string \<Rightarrow> jwt_error + jwt_decoded" where
  "sample_verify now tok secret iss aud = (case tok of
     [] \<Rightarrow> Inl J_invalid
   | ty # s \<Rightarrow> (case split_dots s of
       [sub, jti, role, vs, ss] \<Rightarrow>
         if now div 1000 < int (length ss)
         then Inr (J_payload \<lparr>jp_type = K_string (if ty = CHR ''a'' then ''access'' else ''refresh''), jp_sub = K_string sub,
           jp_jti = K_string jti, jp_role = K_string role, jp_iss = K_string iss, jp_aud = K_string aud, jp_iat = K_number 0,
           jp_exp = K_number (of_int (int (length ss))), jp_tvn = K_number (of_int (int (length vs)))\<rparr>)
         else Inl J_expired
     | _ \<Rightarrow> Inl J_invalid))"

definition sample_ids :: "nat \<Rightarrow> string" where
  "sample_ids n = replicate (Suc n) (CHR ''x'')"

lemma inj_sample_ids: "inj sample_ids"
  by (auto simp: inj_def sample_ids_def dest: arg_cong [where f = length])

definition sample_auth :: auth_env where
  "sample_auth = \<lparr>ae_now = 0, ae_uuid = sample_ids, ae_sign = sample_sign, ae_verify = sample_verify, ae_hashToken = (\<lambda>tok. tok),
     ae_bcryptHash = (\<lambda>pw cost. CHR ''h'' # pw), ae_bcryptCompare = (\<lambda>pw h. Some (h = CHR ''h'' # pw)), ae_localeCompare = (\<lambda>_ _. 0),
     ae_tokens = \<lparr>ts_options = \<lparr>to_accessSecret = ''k'', to_refreshSecret = ''l'', to_accessExpiresIn = ''10s'', to_refreshExpiresIn = ''10s'',
       to_issuer = ''i'', to_audience = ''d''\<rparr>, ts_accessExpiresInSeconds = 10, ts_refreshExpiresInSeconds = 10\<rparr>,
     ae_policy = \<lparr>pp_minLength = 1, pp_maxLength = 9, pp_requireUppercase = False, pp_requireLowercase = False, pp_requireNumber = False,
       pp_requireSpecial = False, pp_bcryptCost = 4\<rparr>,
     ae_defaultRole = ''user'', ae_revocation = True, ae_accessTtlMs = 10000\<rparr>"

definition sample_user :: auth_user where
  "sample_user = \<lparr>au_id = ''u'', au_email = ''a@b'', au_displayName = ''A'', au_status = U_active, au_passwordHash = ''hp'', au_roleIds = [''r'']\<rparr>"

definition sample_start :: auth_system where
  "sample_start = \<lparr>sy_state = \<lparr>as_users = [sample_user],
      as_rbac = \<lparr>rdb_roles = [\<lparr>row_id = ''r'', row_key = ''staff'', row_description = []\<rparr>],
        rdb_permissions = [\<lparr>row_id = ''q'', row_key = ''dealflow.quotes.read'', row_description = []\<rparr>],
        rdb_joins = [(''r'', ''q'')], rdb_ids = 0\<rparr>,
      as_tokens = [], as_kv = [], as_ids = 0, as_audit = []\<rparr>, sy_now = 0, sy_pending = [], sy_exchanged = []\<rparr>"

text \<open>Timed requests in order.\<close>

fun auth_requests :: "auth_env \<Rightarrow> (int \<times> auth_request) list \<Rightarrow> auth_system \<Rightarrow> auth_system" where
  "auth_requests e [] y = y"
| "auth_requests e ((t, q) # qs) y = auth_requests e qs (handle_auth (at_time e t) q (y\<lparr>sy_now := t\<rparr>))"

lemma handle_auth_now [simp]: "sy_now (handle_auth e q y) = sy_now y"
  by (cases q) (simp_all add: plain_def begin_step_def finish_step_def split: prod.split sum.split refresh_outcome.split)

lemma auth_requests_run: "sorted (sy_now y # map fst qs) \<Longrightarrow> auth_run e y (auth_requests e qs y)"
proof (induction qs arbitrary: y)
  case (Cons p qs)
  obtain t q where p: "p = (t, q)" by (cases p)
  have "auth_step e y (handle_auth (at_time e t) q (y\<lparr>sy_now := t\<rparr>))" using Cons.prems p by (intro as_request) simp
  then show ?case using Cons p by (auto intro: converse_rtranclp_into_rtranclp)
qed simp

lemma sample_auth_reachable:
  assumes "sorted (0 # map fst qs)"
  shows "auth_reachable sample_auth (auth_requests sample_auth qs sample_start)"
proof -
  have "auth_start sample_start" "sy_now sample_start = 0" "ae_uuid sample_auth = sample_ids"
    by (simp_all add: auth_start_def sample_start_def sample_auth_def)
  then show ?thesis using auth_requests_run [of sample_start qs sample_auth] assms inj_sample_ids by (auto simp: auth_reachable_def)
qed

text \<open>A login at 0; its refresh token and its access token.\<close>

definition sample_refresh_token :: string where
  "sample_refresh_token = ''ru.x.staff..ssssssssss''"

definition sample_access_token :: string where
  "sample_access_token = ''au.xxx.staff..ssssssssss''"

definition sample_logged_in :: auth_system where
  "sample_logged_in = auth_requests sample_auth [(0, Rq_login '' A@b'' ''p'')] sample_start"

lemma sample_logged_in_state: "sy_state sample_logged_in = \<lparr>as_users = [sample_user], as_rbac = as_rbac (sy_state sample_start),
   as_tokens = [\<lparr>rt_id = ''x'', rt_userId = ''u'', rt_tokenHash = sample_refresh_token, rt_familyId = ''xx'', rt_expiresAt = 10000,
     rt_revokedAt = None, rt_replacedBy = None\<rparr>], as_kv = [], as_ids = 3, as_audit = [(''user.login'', Some ''u'', ''succeeded'')]\<rparr>"
  by code_simp

end
