(* ===== verification/Platform_SessionSafety.thy ===== *)
theory Platform_SessionSafety
  imports Platform_AuthSample
begin

text \<open>
  What the authentication service promises over any sequence of requests: a refresh token is exchanged at
  most once, also when two refreshes with it overlap; a reused token and a logout end the whole session; a
  password reset ends every session of the user and refuses the access tokens of its version until the
  longest-lived of them has expired; a request gets through to a route only for an active user with the
  permission. The last part shows where the version of the access tokens restarts.
\<close>

section \<open>Exchanging a token\<close>

lemma at_most_one_live:
  assumes "table_inv U (rows, n)"
  shows "length (filter (\<lambda>r. rt_familyId r = f \<and> live r) rows) \<le> 1"
proof -
  let ?l = "filter (\<lambda>r. rt_familyId r = f \<and> live r) rows"
  have "distinct rows" using table_invD(2) [OF assms] by (simp add: distinct_map)
  then have d: "distinct ?l" by simp
  have "a = b" if "a \<in> set ?l" "b \<in> set ?l" for a b using table_invD(7) [OF assms, of a b] that by auto
  then have "set ?l \<subseteq> {hd ?l}" by (cases ?l) auto
  then have "card (set ?l) \<le> 1" using card_mono [of "{hd ?l}"] by force
  then show ?thesis using distinct_card [OF d] by simp
qed

text \<open>C24: A refresh token is exchanged at most once: whatever requests have run, and however the two steps of
  refreshes with the same token were interleaved with them, no token was exchanged for two sessions, an
  exchanged token is revoked, and every session (family of tokens) has at most one token that is still
  live.\<close>

theorem refresh_token_exchanged_once:
  assumes "auth_reachable e y"
  shows "distinct (sy_exchanged y) \<and> set (sy_exchanged y) \<inter> rt_id ` {r \<in> set (as_tokens (sy_state y)). live r} = {} \<and>
    (\<forall>f. length (filter (\<lambda>r. rt_familyId r = f \<and> live r) (as_tokens (sy_state y))) \<le> 1)"
proof -
  have inv: "auth_inv e y" by (rule reachable_auth_inv [OF assms])
  then have tab: "table_inv (ae_uuid e) (as_tokens (sy_state y), as_ids (sy_state y))" by (simp add: auth_inv_def tab_def)
  have "i \<notin> rt_id ` {r \<in> set (as_tokens (sy_state y)). live r}" if "i \<in> set (sy_exchanged y)" for i
  proof -
    have "revoked_id (sy_state y) i" using inv that by (simp add: auth_inv_def)
    then obtain x where x: "x \<in> set (as_tokens (sy_state y))" "rt_id x = i" "\<not> live x" by (auto simp: revoked_id_def)
    have "r = x" if "r \<in> set (as_tokens (sy_state y))" "rt_id r = i" for r
      by (rule table_same_id [OF tab that(1) x(1)]) (simp add: that(2) x(2))
    then show ?thesis using x(3) by blast
  qed
  then have "set (sy_exchanged y) \<inter> rt_id ` {r \<in> set (as_tokens (sy_state y)). live r} = {}" by blast
  then show ?thesis using inv at_most_one_live [OF tab] unfolding auth_inv_def by blast
qed

section \<open>Ending a session\<close>

lemma run_ended:
  assumes inv: "auth_inv e y" and run: "auth_run e y z" and f: "f \<in> ae_uuid e ` {..<as_ids (sy_state y)}"
    and ended: "ended f (as_tokens (sy_state y))"
  shows "ended f (as_tokens (sy_state z))"
  using authsys.run_rel [OF run inv] f ended by (auto simp: auth_later_def table_later_def tab_def)

lemma refresh_needs_live:
  assumes "refresh e tok s = (Inr session, t)"
  obtains c r where "verify_token e T_refresh tok = Inr c" "find (\<lambda>r. rt_tokenHash r = ae_hashToken e tok) (as_tokens s) = Some r"
    "live r" "rt_id r = cl_jti c" "rt_userId r = cl_sub c" "ae_now e < rt_expiresAt r"
proof -
  obtain c where c: "verify_token e T_refresh tok = Inr c"
    using assms by (cases "verify_token e T_refresh tok") (auto simp: refresh_def abind_def alift_def)
  obtain x s' where check: "refresh_check e c (ae_hashToken e tok) s = (Inr x, s')" using refresh_check_ok by blast
  obtain stored user where "x = Ro_rotate stored user"
    using assms c check unfolding refresh_is_its_steps
    by (cases x) (simp_all add: refresh_steps_def refresh_begin_def abind_def alift_def)
  then show ?thesis using refresh_check_rotate [of e c "ae_hashToken e tok" s stored user s'] check c that by metis
qed

text \<open>A token of an ended session is not exchanged.\<close>

definition refused :: "auth_env \<Rightarrow> string \<Rightarrow> auth_system \<Rightarrow> bool" where
  "refused e f z \<longleftrightarrow> (\<forall>t tok r. find (\<lambda>r. rt_tokenHash r = ae_hashToken e tok) (as_tokens (sy_state z)) = Some r \<and> rt_familyId r = f \<longrightarrow>
     (\<exists>err. fst (refresh (at_time e t) tok (sy_state z)) = Inl err))"

lemma at_time_hash [simp]: "ae_hashToken (at_time e t) = ae_hashToken e"
  by (simp add: at_time_def)

lemma ended_refused: "ended f (as_tokens (sy_state z)) \<Longrightarrow> refused e f z"
  unfolding refused_def
proof (intro allI impI)
  fix t tok r
  assume e: "ended f (as_tokens (sy_state z))"
    and r: "find (\<lambda>r. rt_tokenHash r = ae_hashToken e tok) (as_tokens (sy_state z)) = Some r \<and> rt_familyId r = f"
  have "\<not> live r" using e r find_SomeD by (fastforce simp: ended_def)
  moreover obtain a s' where a: "refresh (at_time e t) tok (sy_state z) = (a, s')" by (cases "refresh (at_time e t) tok (sy_state z)")
  moreover have "live r" if "a = Inr session" for session
    using refresh_needs_live [OF a [unfolded that]] r by auto
  ultimately show "\<exists>err. fst (refresh (at_time e t) tok (sy_state z)) = Inl err" by (cases a) auto
qed

lemma after_request:
  assumes inv: "auth_inv e y" and t: "sy_now y \<le> t"
    and m: "does (table_moves (ae_uuid e)) m" "does (kv_holds (at_time e t)) m" and run: "m (sy_state y) = (a, s)"
  shows "auth_inv e (y\<lparr>sy_state := s, sy_now := t\<rparr>)" and "auth_later e y (y\<lparr>sy_state := s, sy_now := t\<rparr>)"
proof -
  have "plain m (y\<lparr>sy_now := t\<rparr>) = y\<lparr>sy_state := s, sy_now := t\<rparr>" using run by (simp add: plain_def)
  then show "auth_inv e (y\<lparr>sy_state := s, sy_now := t\<rparr>)" "auth_later e y (y\<lparr>sy_state := s, sy_now := t\<rparr>)"
    using plain_step [OF inv t m] by simp_all
qed

lemma after_run_ended:
  assumes inv: "auth_inv e y" and t: "sy_now y \<le> t"
    and m: "does (table_moves (ae_uuid e)) m" "does (kv_holds (at_time e t)) m" and s: "m (sy_state y) = (a, s)"
    and r: "r \<in> set (as_tokens (sy_state y))" and ended: "ended (rt_familyId r) (as_tokens s)"
    and run: "auth_run e (y\<lparr>sy_state := s, sy_now := t\<rparr>) z"
  shows "ended (rt_familyId r) (as_tokens (sy_state z)) \<and> refused e (rt_familyId r) z"
proof -
  let ?y = "y\<lparr>sy_state := s, sy_now := t\<rparr>"
  have inv': "auth_inv e ?y" by (rule after_request(1) [OF inv t m s])
  have "rt_familyId r \<in> ae_uuid e ` {..<as_ids (sy_state y)}" using inv r by (simp add: auth_inv_def table_inv_def tab_def)
  moreover have "as_ids (sy_state y) \<le> as_ids s"
    using after_request(2) [OF inv t m s] by (simp add: auth_later_def table_later_def tab_def)
  ultimately have f: "rt_familyId r \<in> ae_uuid e ` {..<as_ids (sy_state ?y)}" using supply_mono(1) by simp
  have e': "ended (rt_familyId r) (as_tokens (sy_state ?y))" using ended by simp
  have "ended (rt_familyId r) (as_tokens (sy_state z))" by (rule run_ended [OF inv' run f e'])
  then show ?thesis using ended_refused by simp
qed

text \<open>C25: A reused refresh token ends its session: a refresh with a genuine token that was exchanged or revoked
  before is refused as revoked, and from then on, whatever happens, no token of its family is live and no
  refresh with one succeeds, not even one whose first step was taken before.\<close>

theorem reused_token_ends_the_session:
  assumes "auth_reachable e y" and "sy_now y \<le> t"
    and "verify_token (at_time e t) T_refresh tok = Inr c"
    and "find (\<lambda>r. rt_tokenHash r = ae_hashToken e tok) (as_tokens (sy_state y)) = Some r"
    and "rt_id r = cl_jti c" and "rt_userId r = cl_sub c" and "\<not> live r"
    and "refresh (at_time e t) tok (sy_state y) = (a, s)"
    and "auth_run e (y\<lparr>sy_state := s, sy_now := t\<rparr>) z"
  shows "a = Inl (AuthenticationError ''Refresh token has been revoked'') \<and> ended (rt_familyId r) (as_tokens (sy_state z)) \<and>
    refused e (rt_familyId r) z"
proof -
  let ?e = "at_time e t"
  have check: "refresh_check ?e c (ae_hashToken ?e tok) (sy_state y) =
      (Inr Ro_reuse, (sy_state y)\<lparr>as_tokens := revoke_active t None (\<lambda>x. rt_familyId x = rt_familyId r) (as_tokens (sy_state y))\<rparr>)"
    using assms(4-7) by (simp add: refresh_check_def abind_def findByTokenHash_def agets_def aret_def revokeFamily_def atokens_def live_def)
  then have beg: "refresh_begin ?e tok (sy_state y) = (Inr Ro_reuse, s)" and a: "a = Inl (refresh_error Ro_reuse)"
    and s: "as_tokens s = revoke_active t None (\<lambda>x. rt_familyId x = rt_familyId r) (as_tokens (sy_state y))"
    using assms(3,8) unfolding refresh_is_its_steps by (auto simp: refresh_steps_def refresh_begin_def abind_def alift_def)
  have "ended (rt_familyId r) (as_tokens s)" unfolding s by (rule revoke_active_ended(2))
  then show ?thesis
    using after_run_ended [OF reachable_auth_inv [OF assms(1)] assms(2) begin_does(1) [of ?e, simplified] begin_does(2) beg _ _ assms(9), of r]
      find_SomeD [OF assms(4)] a by (simp add: refresh_error_def)
qed

text \<open>A JSON web token whose check gives one payload, and only before its expiry.\<close>

definition expiring :: "auth_env \<Rightarrow> string \<Rightarrow> bool" where
  "expiring e tok \<longleftrightarrow> (let options = ts_options (ae_tokens e); v = (\<lambda>t. ae_verify e t tok (to_accessSecret options) (to_issuer options) (to_audience options)) in
     \<forall>t q. v t = Inr q \<longrightarrow> (\<forall>t' q'. v t' = Inr q' \<longrightarrow> q' = q) \<and>
       (\<forall>p x. q = J_payload p \<and> jp_exp p = K_number x \<longrightarrow> of_int (t div 1000) < x))"

lemma verify_payload_exp: "verify_payload ty p = Inr c \<Longrightarrow> jp_exp p = K_number (cl_exp c)"
  by (cases "readTokenVersion (jp_tvn p)")
     (auto simp: verify_payload_def Let_def split: if_splits option.splits claim.splits token_type.splits sum.splits)

lemma expiring_verify:
  assumes "expiring e tok" and "verify_token (at_time e t) T_access tok = Inr c" and "verify_token (at_time e t') T_access tok = Inr c'"
  shows "c' = c" and "of_int (t' div 1000) < cl_exp c"
proof -
  obtain q q' where q: "ae_verify e t tok (to_accessSecret (ts_options (ae_tokens e))) (to_issuer (ts_options (ae_tokens e))) (to_audience (ts_options (ae_tokens e))) = Inr (J_payload q)"
    "verify_payload T_access q = Inr c"
    and q': "ae_verify e t' tok (to_accessSecret (ts_options (ae_tokens e))) (to_issuer (ts_options (ae_tokens e))) (to_audience (ts_options (ae_tokens e))) = Inr (J_payload q')"
    "verify_payload T_access q' = Inr c'"
    using assms(2,3) by (auto simp: verify_token_def Let_def at_time_def secret_for_def split: sum.splits jwt_decoded.splits)
  have "J_payload q' = J_payload q" using assms(1) q(1) q'(1) unfolding expiring_def Let_def by metis
  then show c: "c' = c" using q(2) q'(2) by simp
  show "of_int (t' div 1000) < cl_exp c" using assms(1) q'(1) verify_payload_exp [OF q'(2)] c unfolding expiring_def Let_def by metis
qed

section \<open>Logout\<close>

lemma logout_spec:
  assumes "logout e rt acc s = (Inr (), t)"
  obtains c r where "verify_token e T_refresh rt = Inr c"
    and "find (\<lambda>r. rt_tokenHash r = ae_hashToken e rt) (as_tokens s) = Some r" and "rt_id r = cl_jti c" and "rt_userId r = cl_sub c"
    and "as_tokens t = (if live r then revoke_active (ae_now e) None (\<lambda>x. rt_familyId x = rt_familyId r) (as_tokens s) else as_tokens s)"
    and "\<forall>tok c'. acc = Some tok \<and> tok \<noteq> [] \<and> ae_revocation e \<and> verify_token e T_access tok = Inr c' \<longrightarrow>
      denied_until (cl_jti c') (ae_now e + ttlMs e) t"
proof -
  obtain c where c: "verify_token e T_refresh rt = Inr c"
    using assms by (cases "verify_token e T_refresh rt") (auto simp: logout_def abind_def alift_def)
  obtain r where r: "find (\<lambda>r. rt_tokenHash r = ae_hashToken e rt) (as_tokens s) = Some r"
    using assms c by (cases "find (\<lambda>r. rt_tokenHash r = ae_hashToken e rt) (as_tokens s)")
      (auto simp: logout_def abind_def alift_def findByTokenHash_def agets_def athrow_def)
  have ok: "rt_id r = cl_jti c \<and> rt_userId r = cl_sub c"
    using assms c r by (auto simp: logout_def abind_def alift_def findByTokenHash_def agets_def athrow_def split: if_splits)
  define m where "m = (if live r then s\<lparr>as_tokens := revoke_active (ae_now e) None (\<lambda>x. rt_familyId x = rt_familyId r) (as_tokens s)\<rparr> else s)"
  have d: "denyAccessToken e acc m = (Inr (), t)"
    using assms c r ok by (auto simp: logout_def abind_def alift_def findByTokenHash_def agets_def aret_def revokeFamily_def atokens_def
      m_def live_def split: if_splits)
  have 1: "as_tokens t = as_tokens m"
    using d by (auto simp: denyAccessToken_def aret_def denyAccessJti_def akv_def split: option.splits if_splits sum.splits)
  have 2: "denied_until (cl_jti c') (ae_now e + ttlMs e) t"
    if "acc = Some tok" "tok \<noteq> []" "ae_revocation e" "verify_token e T_access tok = Inr c'" for tok c'
    using d that ttl_pos [of e]
    by (auto simp: denyAccessToken_def denyAccessJti_def akv_def denied_until_def kv_set_def map_of_upsert_pair kv_entry_for_def)
  show ?thesis using that [OF c r] ok 1 2 by (simp add: m_def)
qed

text \<open>A logout ends the session: after a logout with the live token of a session no token of the session is
  live and no refresh with one succeeds, whatever happens in between, not even one whose first step was
  taken before the logout.\<close>

theorem logout_ends_the_session:
  assumes "auth_reachable e y" and "sy_now y \<le> t"
    and "find (\<lambda>r. rt_tokenHash r = ae_hashToken e rt) (as_tokens (sy_state y)) = Some r" and "live r"
    and "logout (at_time e t) rt acc (sy_state y) = (Inr (), s)"
    and "auth_run e (y\<lparr>sy_state := s, sy_now := t\<rparr>) z"
  shows "ended (rt_familyId r) (as_tokens (sy_state z)) \<and> refused e (rt_familyId r) z"
proof -
  have "as_tokens s = revoke_active t None (\<lambda>x. rt_familyId x = rt_familyId r) (as_tokens (sy_state y))"
    using logout_spec [OF assms(5)] assms(3,4) by (metis at_time_fields(2) at_time_hash option.inject)
  then have "ended (rt_familyId r) (as_tokens s)" by (simp add: revoke_active_ended(2))
  then show ?thesis
    using after_run_ended [OF reachable_auth_inv [OF assms(1)] assms(2) moving.does_requests(3) [of "at_time e t", simplified]
      holding.does_requests(3) assms(5) _ _ assms(6), of r] find_SomeD [OF assms(3)] by simp
qed

lemma assertAccess_denied:
  assumes "denied_until (cl_jti c) T s" and "ae_now e < T"
  shows "\<exists>err t. assertAccessAllowed e c s = (Inl err, t)"
proof -
  obtain ent where ent: "map_of (as_kv s) (jti_key (cl_jti c)) = Some ent" "\<forall>x. kv_expiresAt ent = Some x \<longrightarrow> T \<le> x"
    using assms(1) by (auto simp: denied_until_def)
  then have "kv_get (ae_now e) (jti_key (cl_jti c)) (as_kv s) = (Some (kv_value ent), as_kv s)"
    using live_until [OF ent(2) assms(2)] by (simp add: kv_get_def)
  then show ?thesis by (simp add: assertAccessAllowed_def abind_def akv_def athrow_def)
qed

lemma attach_refused:
  assumes "verify_token e T_access tok = Inr c" and "ae_revocation e" and "assertAccessAllowed e c s = (Inl err, t)"
  shows "fst (attachAuthenticatedUser e tok s) = Inl err"
  using assms by (simp add: attachAuthenticatedUser_def abind_def alift_def)

lemma div_1000_less:
  assumes "of_int (a div 1000) < (x :: rat)" and "x * 1000 \<le> of_int (b :: int)"
  shows "a - 1000 < b"
proof -
  have "of_int (a div 1000 * 1000) < (of_int b :: rat)" using assms by simp
  then have "a div 1000 * 1000 < b" by (simp only: of_int_less_iff)
  then show ?thesis by presburger
qed

text \<open>C26: The access token given to a logout is dead: for a token whose lifetime is within the configured one, and
  whose check depends on the clock only by its expiry, no later request with it gets through, at any time
  and whatever happens in between: the denial outlives the token.\<close>

theorem logged_out_access_token_is_dead:
  assumes "auth_reachable e y" and "sy_now y \<le> t" and "ae_revocation e" and "tok \<noteq> []"
    and "verify_token (at_time e t) T_access tok = Inr c" and "cl_exp c * 1000 \<le> of_int (t + ae_accessTtlMs e)" and "expiring e tok"
    and "logout (at_time e t) rt (Some tok) (sy_state y) = (Inr (), s)"
    and "auth_run e (y\<lparr>sy_state := s, sy_now := t\<rparr>) z" and "sy_now z \<le> t'"
  shows "\<exists>err. fst (attachAuthenticatedUser (at_time e t') tok (sy_state z)) = Inl err"
proof (cases "verify_token (at_time e t') T_access tok")
  case (Inl err)
  then show ?thesis by (simp add: attachAuthenticatedUser_def abind_def alift_def)
next
  case (Inr c')
  let ?T = "t + ttlMs e"
  have c: "c' = c" and x: "of_int (t' div 1000) < cl_exp c" using expiring_verify [OF assms(7,5) Inr] by simp_all
  have "ae_accessTtlMs e + 5000 \<le> ttlMs e" by (simp add: ttlMs_def)
  moreover have "t' - 1000 < t + ae_accessTtlMs e" using div_1000_less [OF x assms(6)] .
  ultimately have T: "t' < ?T" by simp
  have "denied_until (cl_jti c) ?T s" using logout_spec [OF assms(8)] assms(3-5) by (metis at_time_fields(2,3,4))
  moreover have "auth_inv e (y\<lparr>sy_state := s, sy_now := t\<rparr>)"
    by (rule after_request(1) [OF reachable_auth_inv [OF assms(1)] assms(2) moving.does_requests(3) [of "at_time e t", simplified]
      holding.does_requests(3) assms(8)])
  ultimately have d: "denied_until (cl_jti c') ?T (sy_state z)"
    using authsys.run_rel [OF assms(9)] T assms(10) c by (auto simp: auth_later_def)
  then obtain err s' where "assertAccessAllowed (at_time e t') c' (sy_state z) = (Inl err, s')"
    using assertAccess_denied [OF d, of "at_time e t'"] T by auto
  then show ?thesis using attach_refused [OF Inr] assms(3) by simp
qed

text \<open>A logout with a token that was rotated before answers that the session is revoked, but leaves the tables as
  they are: the newest token of the session goes on working.\<close>

theorem stale_logout_leaves_the_session:
  assumes "find (\<lambda>r. rt_tokenHash r = ae_hashToken e rt) (as_tokens s) = Some r" and "\<not> live r"
    and "logout e rt acc s = (Inr (), t)"
  shows "as_tokens t = as_tokens s"
  using logout_spec [OF assms(3)] assms(1,2) by (metis option.inject)

section \<open>Password reset\<close>

lemma resetPassword_spec:
  assumes "resetPassword e em pw s = (Inr (), t)"
  obtains u where "find (\<lambda>u. au_email u = normalizeEmail em) (as_users s) = Some u" and "au_status u = U_active"
    and "password_requirements (ae_policy e) pw = []"
    and "as_tokens t = revoke_active (ae_now e) None (\<lambda>r. rt_userId r = au_id u) (as_tokens s)"
    and "as_users t = update_first (\<lambda>v. au_id v = au_id u) (\<lambda>v. v\<lparr>au_passwordHash := ae_bcryptHash e pw (pp_bcryptCost (ae_policy e))\<rparr>) (as_users s)"
    and "ae_revocation e \<Longrightarrow> as_kv t = kv_set (ae_now e) (version_key (au_id u))
      (AV_version (version_of (kv_read (as_kv s) (ae_now e) (version_key (au_id u))) + 1)) (Some (ttlMs e))
      (snd (kv_get (ae_now e) (version_key (au_id u)) (as_kv s)))"
proof -
  have pol: "password_requirements (ae_policy e) pw = []"
    using assms by (auto simp: resetPassword_def abind_def alift_def password_hash_def password_validate_def split: if_splits)
  then have hash: "password_hash e pw = Inr (ae_bcryptHash e pw (pp_bcryptCost (ae_policy e)))"
    by (simp add: password_hash_def password_validate_def)
  obtain u where u: "find (\<lambda>u. au_email u = normalizeEmail em) (as_users s) = Some u"
    using assms hash by (cases "find (\<lambda>u. au_email u = normalizeEmail em) (as_users s)")
      (auto simp: resetPassword_def abind_def alift_def findByEmailForAuth_def agets_def athrow_def)
  have act: "au_status u = U_active"
    using assms hash u by (cases "au_status u")
      (auto simp: resetPassword_def abind_def alift_def findByEmailForAuth_def agets_def assertAccountActive_def)
  obtain v m where v: "kv_get (ae_now e) (version_key (au_id u)) (as_kv s) = (v, m)"
    by (cases "kv_get (ae_now e) (version_key (au_id u)) (as_kv s)")
  show ?thesis
    using assms hash v act
    by (intro that [OF u act pol]) (auto simp: resetPassword_def abind_def alift_def findByEmailForAuth_def agets_def assertAccountActive_def
        u set_password_def revokeAllForUser_def atokens_def revokeUserAccess_def currentAccessVersion_def akv_def aret_def aaudit_def
        kv_read_def split: if_splits)
qed

lemma assertAccess_outdated:
  assumes "version_until (cl_sub c) v T s" and "ae_now e < T" and "(case cl_tvn c of None \<Rightarrow> 0 | Some x \<Rightarrow> x) < v"
  shows "\<exists>err t. assertAccessAllowed e c s = (Inl err, t)"
proof -
  obtain d m where d: "kv_get (ae_now e) (jti_key (cl_jti c)) (as_kv s) = (d, m)"
    by (cases "kv_get (ae_now e) (jti_key (cl_jti c)) (as_kv s)")
  have "version_until (cl_sub c) v T (s\<lparr>as_kv := m\<rparr>)"
    by (rule until_get(2) [where now = "ae_now e" and k = "jti_key (cl_jti c)", OF _ assms(2,1)]) (simp add: d)
  then have "v \<le> version_of (kv_read m (ae_now e) (version_key (cl_sub c)))" using version_until_read assms(2) by fastforce
  then show ?thesis using d assms(3)
    by (cases "kv_get (ae_now e) (version_key (cl_sub c)) m") (auto simp: assertAccessAllowed_def abind_def akv_def athrow_def
        currentAccessVersion_def aret_def kv_read_def)
qed

text \<open>When all rows of a user are revoked in \<open>s\<close>, the families known in \<open>s\<close> stay without a live row of the user.\<close>

lemma user_families_ended:
  assumes inv: "auth_inv e y" and run: "auth_run e y z"
    and dead: "\<And>x. x \<in> set (as_tokens (sy_state y)) \<Longrightarrow> rt_userId x = i \<Longrightarrow> \<not> live x"
    and r: "r \<in> set (as_tokens (sy_state z))" "rt_userId r = i" "rt_familyId r \<in> ae_uuid e ` {..<as_ids (sy_state y)}"
  shows "\<not> live r"
proof -
  let ?s = "sy_state y"
  note later = authsys.run_rel [OF run inv]
  have ty: "table_inv (ae_uuid e) (as_tokens ?s, as_ids ?s)" using inv by (simp add: auth_inv_def tab_def)
  have tz: "table_inv (ae_uuid e) (as_tokens (sy_state z), as_ids (sy_state z))"
    using authsys.run_inv [OF run inv] by (simp add: auth_inv_def tab_def)
  have "ended (rt_familyId r) (as_tokens ?s)" unfolding ended_def
  proof (intro ballI impI)
    fix x
    assume x: "x \<in> set (as_tokens ?s)" "rt_familyId x = rt_familyId r"
    obtain x' where x': "x' \<in> set (as_tokens (sy_state z))" "later_row x x'"
      using later x(1) by (auto simp: auth_later_def table_later_def tab_def)
    then have "rt_familyId x' = rt_familyId r" "rt_userId x' = rt_userId x" using x(2) by (simp_all add: later_row_def)
    then show "\<not> live x" using table_invD(6) [OF tz x'(1) r(1)] r(2) dead [OF x(1)] by simp
  qed
  then have "ended (rt_familyId r) (as_tokens (sy_state z))" using later r(3) by (auto simp: auth_later_def table_later_def tab_def)
  then show ?thesis using r(1) by (simp add: ended_def)
qed

text \<open>C27: A password reset ends every session of the user: afterwards, whatever happens, a live refresh token of
  the user belongs to a session that was opened after the reset; and until the time to live of the
  revocation store has passed, every access token of the user that carries the access version of the time
  of the reset, or an older one, is refused.\<close>

theorem password_reset_ends_all_sessions:
  assumes "auth_reachable e y" and "sy_now y \<le> t" and "ae_revocation e"
    and "resetPassword (at_time e t) em pw (sy_state y) = (Inr (), s)"
    and "find (\<lambda>u. au_email u = normalizeEmail em) (as_users (sy_state y)) = Some u"
    and "auth_run e (y\<lparr>sy_state := s, sy_now := t\<rparr>) z"
  shows "rt_familyId ` {r \<in> set (as_tokens (sy_state z)). rt_userId r = au_id u \<and> live r} \<inter> ae_uuid e ` {..<as_ids s} = {} \<and>
    (\<forall>c t'. cl_sub c = au_id u \<and> sy_now z \<le> t' \<and> t' < t + ttlMs e \<and>
       (case cl_tvn c of None \<Rightarrow> 0 | Some v \<Rightarrow> v) \<le> version_of (kv_read (as_kv (sy_state y)) t (version_key (au_id u))) \<longrightarrow>
       (\<exists>err s'. assertAccessAllowed (at_time e t') c (sy_state z) = (Inl err, s')))"
proof -
  let ?y = "y\<lparr>sy_state := s, sy_now := t\<rparr>"
  let ?v = "version_of (kv_read (as_kv (sy_state y)) t (version_key (au_id u))) + 1" and ?T = "t + ttlMs e"
  obtain w where w: "find (\<lambda>u. au_email u = normalizeEmail em) (as_users (sy_state y)) = Some w"
    and rows: "as_tokens s = revoke_active t None (\<lambda>r. rt_userId r = au_id w) (as_tokens (sy_state y))"
    and kv: "as_kv s = kv_set t (version_key (au_id w))
      (AV_version (version_of (kv_read (as_kv (sy_state y)) t (version_key (au_id w))) + 1)) (Some (ttlMs e))
      (snd (kv_get t (version_key (au_id w)) (as_kv (sy_state y))))"
    by (rule resetPassword_spec [OF assms(4)]) (use that assms(3) in simp)
  have u: "w = u" using w assms(5) by simp
  have inv: "auth_inv e ?y"
    by (rule after_request(1) [OF reachable_auth_inv [OF assms(1)] assms(2) moving.does_requests(5) [of "at_time e t", simplified]
      holding.does_requests(5) assms(4)])
  have dead: "\<not> live x" if "x \<in> set (as_tokens (sy_state ?y))" "rt_userId x = au_id u" for x
  proof -
    have "x \<in> set (revoke_active t None (\<lambda>r. rt_userId r = au_id u) (as_tokens (sy_state y)))" using that(1) rows u by simp
    then show ?thesis by (rule revoke_active_cases) (use that(2) in auto)
  qed
  have families: "\<not> live r" if "r \<in> set (as_tokens (sy_state z))" "rt_userId r = au_id u" "rt_familyId r \<in> ae_uuid e ` {..<as_ids s}" for r
    by (rule user_families_ended [OF inv assms(6) dead that(1,2)]) (use that(3) in simp_all)
  have v: "version_until (au_id u) ?v ?T s"
    using kv ttl_pos [of e] unfolding u by (simp add: version_until_def kv_set_def map_of_upsert_pair kv_entry_for_def)
  have tokens: "\<exists>err s'. assertAccessAllowed (at_time e t') c (sy_state z) = (Inl err, s')"
    if "cl_sub c = au_id u" "sy_now z \<le> t'" "t' < ?T" "(case cl_tvn c of None \<Rightarrow> 0 | Some v \<Rightarrow> v) \<le> ?v - 1" for c t'
  proof -
    have "version_until (cl_sub c) ?v ?T (sy_state z)" using authsys.run_rel [OF assms(6) inv] v that(1-3) by (simp add: auth_later_def)
    then show ?thesis by (rule assertAccess_outdated) (use that in simp_all)
  qed
  show ?thesis
  proof (intro conjI allI impI)
    show "rt_familyId ` {r \<in> set (as_tokens (sy_state z)). rt_userId r = au_id u \<and> live r} \<inter> ae_uuid e ` {..<as_ids s} = {}"
      using families by blast
    show "\<exists>err s'. assertAccessAllowed (at_time e t') c (sy_state z) = (Inl err, s')"
      if "cl_sub c = au_id u \<and> sy_now z \<le> t' \<and> t' < ?T \<and>
        (case cl_tvn c of None \<Rightarrow> 0 | Some v \<Rightarrow> v) \<le> version_of (kv_read (as_kv (sy_state y)) t (version_key (au_id u)))" for c t'
      using tokens that by simp
  qed
qed

text \<open>C28: The access version restarts: a reset that finds no access version of the user, because none was set or
  because the entry has expired, sets it to 1; every access token that carries version 1 or more, such as one
  issued under an earlier reset shortly before its entry expired, is accepted after the reset.\<close>

theorem reset_after_expiry_spares_tokens:
  assumes "ae_revocation e" and "resetPassword e em pw s = (Inr (), t)"
    and "find (\<lambda>u. au_email u = normalizeEmail em) (as_users s) = Some u"
    and "kv_read (as_kv s) (ae_now e) (version_key (au_id u)) = None"
    and "cl_sub c = au_id u" and "cl_tvn c = Some v" and "1 \<le> v" and "map_of (as_kv s) (jti_key (cl_jti c)) = None"
  shows "fst (assertAccessAllowed e c t) = Inr ()"
proof -
  obtain w where w: "find (\<lambda>u. au_email u = normalizeEmail em) (as_users s) = Some w"
    and kv: "as_kv t = kv_set (ae_now e) (version_key (au_id w))
      (AV_version (version_of (kv_read (as_kv s) (ae_now e) (version_key (au_id w))) + 1)) (Some (ttlMs e))
      (snd (kv_get (ae_now e) (version_key (au_id w)) (as_kv s)))"
    by (rule resetPassword_spec [OF assms(2)]) (use that assms(1) in simp)
  have u: "w = u" using w assms(3) by simp
  have one: "map_of (as_kv t) (version_key (au_id u)) = Some (kv_entry_for (ae_now e) (AV_version 1) (Some (ttlMs e)))"
    using kv assms(4) unfolding u by (simp add: kv_set_def map_of_upsert_pair version_of_def)
  have "map_of (snd (kv_get (ae_now e) k (as_kv s))) (jti_key (cl_jti c)) = None" for k
    using assms(8) by (auto simp: kv_get_def map_of_kv_del split: option.split)
  then have "map_of (as_kv t) (jti_key (cl_jti c)) = None" using kv by (simp add: kv_set_def map_of_upsert_pair)
  then have j: "kv_get (ae_now e) (jti_key (cl_jti c)) (as_kv t) = (None, as_kv t)" by (simp add: kv_get_def)
  have "kv_get (ae_now e) (version_key (cl_sub c)) (as_kv t) = (Some (AV_version 1), as_kv t)"
    using one ttl_pos [of e] assms(5) by (simp add: kv_get_def kv_entry_for_def expired_def)
  then show ?thesis using j assms(6,7)
    by (simp add: assertAccessAllowed_def abind_def akv_def currentAccessVersion_def aret_def version_of_def)
qed

section \<open>Who gets in\<close>

text \<open>A login succeeds exactly for a known e-mail address (up to case and surrounding space) with the
  right password and an active account, unless the new token collides with a stored one; it then opens a new
  session, one live token in a family of its own, for the user with the roles of the database. A login that
  fails changes neither users nor tokens, and an unknown address gets the same answer as a wrong password.\<close>

theorem login_exact:
  assumes "distinct (map au_id (as_users s))" and "login e em pw s = (a, t)"
  shows "a = (case find (\<lambda>u. au_email u = normalizeEmail em) (as_users s) of
      None \<Rightarrow> Inl (AuthenticationError ''Invalid email or password'')
    | Some u \<Rightarrow> if \<not> password_verify e pw (au_passwordHash u) then Inl (AuthenticationError ''Invalid email or password'')
        else case au_status u of
          U_disabled \<Rightarrow> Inl (AuthorizationError ''Account is disabled'')
        | U_invited \<Rightarrow> Inl (AuthorizationError ''Account is not active'')
        | U_active \<Rightarrow> if taken (issued_row e (toAuthenticatedUser e (as_rbac s) u) None (as_ids s)) (as_tokens s)
            then Inl (ConflictError ''A record with this value already exists'')
            else Inr (issued_session e (toAuthenticatedUser e (as_rbac s) u) None s))
    \<and> as_users t = as_users s \<and> as_rbac t = as_rbac s
    \<and> as_tokens t = as_tokens s @ (case a of Inl _ \<Rightarrow> [] | Inr session \<Rightarrow> [issued_row e (ss_user session) None (as_ids s)])"
proof (cases "find (\<lambda>u. au_email u = normalizeEmail em) (as_users s)")
  case None
  then show ?thesis using assms(2) by (auto simp: login_def abind_def findByEmailForAuth_def agets_def aaudit_def athrow_def)
next
  case (Some u)
  then have "u \<in> set (as_users s)" using find_SomeD by fastforce
  then have i: "find (\<lambda>v. au_id v = au_id u) (as_users s) = Some u" by (rule find_unique [OF assms(1)]) simp
  note defs = login_def abind_def findByEmailForAuth_def agets_def aaudit_def athrow_def alift_def assertAccountActive_def
    findByIdWithRoles_def issueSession_exact Let_def aret_def
  show ?thesis
  proof (cases "password_verify e pw (au_passwordHash u)")
    case False
    then show ?thesis using assms(2) Some by (auto simp: defs)
  next
    case True
    show ?thesis
    proof (cases "taken (issued_row e (toAuthenticatedUser e (as_rbac s) u) None (as_ids s)) (as_tokens s)")
      case taken: True
      then show ?thesis using assms(2) Some True i by (cases "au_status u") (auto simp: defs)
    next
      case False
      then show ?thesis using assms(2) Some True i by (cases "au_status u") (auto simp: defs issued_session_def)
    qed
  qed
qed

text \<open>The guard of a route: a request passes authentication and a permission check only with an access token
  that verifies and is neither denied nor of an outdated version, for a user that is active now and one of
  whose roles grants the permission in the database now; what the token says about roles is ignored.\<close>

theorem guarded_request_has_permission:
  assumes "authenticate e header cookie s = (Inr u, t)" and "assertPermission (Some u) ps = Inr v" and "p \<in> set ps"
  shows "\<exists>tok c w i k. extractAccessToken header cookie = Inr tok \<and> verify_token e T_access tok = Inr c \<and>
    find (\<lambda>w. au_id w = cl_sub c) (as_users s) = Some w \<and> au_status w = U_active \<and> u = toAuthenticatedUser e (as_rbac s) w \<and>
    (ae_revocation e \<longrightarrow> kv_read (as_kv s) (ae_now e) (jti_key (cl_jti c)) = None \<and>
       version_of (kv_read (as_kv s) (ae_now e) (version_key (cl_sub c))) \<le> (case cl_tvn c of None \<Rightarrow> 0 | Some n \<Rightarrow> n)) \<and>
    i \<in> set (au_roleIds w) \<and> k \<in> set (role_grants (as_rbac s) i) \<and> normalizePermissionKey k = normalizePermissionKey p"
proof -
  obtain tok where tok: "extractAccessToken header cookie = Inr tok"
    using assms(1) by (cases "extractAccessToken header cookie") (auto simp: authenticate_def abind_def alift_def)
  obtain c where c: "verify_token e T_access tok = Inr c"
    using assms(1) tok by (cases "verify_token e T_access tok") (auto simp: authenticate_def attachAuthenticatedUser_def abind_def alift_def)
  obtain s' where allowed: "(if ae_revocation e then assertAccessAllowed e c else aret ()) s = (Inr (), s')"
    using assms(1) tok c by (cases "(if ae_revocation e then assertAccessAllowed e c else aret ()) s")
      (auto simp: authenticate_def attachAuthenticatedUser_def abind_def alift_def split: sum.splits)
  have s': "as_users s' = as_users s \<and> as_rbac s' = as_rbac s"
    using allowed by (auto simp: assertAccessAllowed_def abind_def akv_def athrow_def currentAccessVersion_def aret_def
      split: if_splits prod.splits)
  have rev: "kv_read (as_kv s) (ae_now e) (jti_key (cl_jti c)) = None \<and>
       version_of (kv_read (as_kv s) (ae_now e) (version_key (cl_sub c))) \<le> (case cl_tvn c of None \<Rightarrow> 0 | Some n \<Rightarrow> n)" if r: "ae_revocation e"
  proof (cases "kv_get (ae_now e) (jti_key (cl_jti c)) (as_kv s)")
    case (Pair d m)
    have "kv_read m (ae_now e) (version_key (cl_sub c)) = kv_read (as_kv s) (ae_now e) (version_key (cl_sub c))"
      using Pair by (auto simp: kv_read_map kv_get_def map_of_kv_del split: option.splits if_splits)
    then show ?thesis using allowed r Pair by (cases "kv_get (ae_now e) (version_key (cl_sub c)) m")
      (auto simp: assertAccessAllowed_def abind_def akv_def athrow_def currentAccessVersion_def aret_def kv_read_def split: if_splits)
  qed
  obtain w where w: "find (\<lambda>w. au_id w = cl_sub c) (as_users s) = Some w"
    using assms(1) tok c allowed s' by (cases "find (\<lambda>w. au_id w = cl_sub c) (as_users s)")
      (auto simp: authenticate_def attachAuthenticatedUser_def abind_def alift_def findByIdWithRoles_def agets_def athrow_def)
  have u: "au_status w = U_active \<and> u = toAuthenticatedUser e (as_rbac s) w"
    using assms(1) tok c allowed s' w by (cases "au_status w")
      (auto simp: authenticate_def attachAuthenticatedUser_def abind_def alift_def findByIdWithRoles_def agets_def athrow_def
        assertAccountActive_def toAuthenticatedUser_def Let_def aret_def)
  have "hasPermission u ps" using assms(2) by (auto simp: assertPermission_def assertAuthenticated_def split: if_splits)
  then obtain k where k: "k \<in> set (us_permissions u)" "normalizePermissionKey k = normalizePermissionKey p"
    using assms(3) by (auto simp: hasPermission_def list_all_iff)
  then obtain i where "i \<in> set (au_roleIds w)" "k \<in> set (role_grants (as_rbac s) i)"
    using u by (auto simp: toAuthenticatedUser_def Let_def user_permissions_def set_sorted_set)
  then show ?thesis using tok c w u rev k(2) by blast
qed

section \<open>Concrete runs\<close>

text \<open>Two overlapping refreshes with the same token: one of them gets the session.\<close>

definition sample_overlap :: auth_system where
  "sample_overlap = auth_requests sample_auth [(0, Rq_login ''a@b'' ''p''), (1, Rq_refresh_begin sample_refresh_token),
     (2, Rq_refresh_begin sample_refresh_token), (3, Rq_refresh_finish 1), (4, Rq_refresh_finish 0)] sample_start"

lemma sample_overlap_reachable: "auth_reachable sample_auth sample_overlap"
  unfolding sample_overlap_def by (rule sample_auth_reachable) simp

lemma sample_overlap_facts:
  "sy_exchanged sample_overlap = [''x'']" "sy_now sample_overlap = 4"
  "map live (as_tokens (sy_state sample_overlap)) = [False, True, False]"
  "map rt_familyId (as_tokens (sy_state sample_overlap)) = [''xx'', ''xx'', ''xx'']"
  by code_simp+

theorem refresh_token_exchanged_once_witness:
  "sy_exchanged sample_overlap = [''x''] \<and> distinct (sy_exchanged sample_overlap) \<and>
   length (filter (\<lambda>r. rt_familyId r = ''xx'' \<and> live r) (as_tokens (sy_state sample_overlap))) \<le> 1"
  using refresh_token_exchanged_once [OF sample_overlap_reachable] sample_overlap_facts(1) by blast

definition sample_refresh_claims :: token_claims where
  "sample_refresh_claims = \<lparr>cl_sub = ''u'', cl_type = T_refresh, cl_role = ''staff'', cl_jti = ''x'', cl_iss = ''i'', cl_aud = ''d'',
     cl_iat = 0, cl_exp = 10, cl_tvn = None\<rparr>"

definition sample_reused :: auth_system where
  "sample_reused = (case refresh (at_time sample_auth 5) sample_refresh_token (sy_state sample_overlap) of
     (_, s) \<Rightarrow> sample_overlap\<lparr>sy_state := s, sy_now := 5\<rparr>)"

theorem reused_token_ends_the_session_witness:
  "fst (refresh (at_time sample_auth 5) sample_refresh_token (sy_state sample_overlap)) = Inl (AuthenticationError ''Refresh token has been revoked'') \<and>
   ended ''xx'' (as_tokens (sy_state sample_reused))"
proof -
  let ?e = "at_time sample_auth 5" and ?y = "sy_state sample_overlap"
  obtain r where r: "find (\<lambda>r. rt_tokenHash r = ae_hashToken sample_auth sample_refresh_token) (as_tokens ?y) = Some r"
      "rt_id r = ''x''" "rt_userId r = ''u''" "\<not> live r" "rt_familyId r = ''xx''"
  proof -
    have "case find (\<lambda>r. rt_tokenHash r = ae_hashToken sample_auth sample_refresh_token) (as_tokens ?y) of None \<Rightarrow> False
      | Some r \<Rightarrow> rt_id r = ''x'' \<and> rt_userId r = ''u'' \<and> \<not> live r \<and> rt_familyId r = ''xx''" by code_simp
    then show ?thesis using that by (auto split: option.splits)
  qed
  obtain a s where run: "refresh ?e sample_refresh_token ?y = (a, s)" by (cases "refresh ?e sample_refresh_token ?y")
  have v: "verify_token ?e T_refresh sample_refresh_token = Inr sample_refresh_claims" by code_simp
  have "rt_id r = cl_jti sample_refresh_claims" "rt_userId r = cl_sub sample_refresh_claims"
    using r by (simp_all add: sample_refresh_claims_def)
  then show ?thesis
    using reused_token_ends_the_session [OF sample_overlap_reachable _ v r(1) _ _ r(4) run rtranclp.rtrancl_refl] run r(5) sample_overlap_facts(2)
    by (simp add: sample_reused_def)
qed

lemma sample_logged_in_reachable: "auth_reachable sample_auth sample_logged_in"
  unfolding sample_logged_in_def by (rule sample_auth_reachable) simp

lemma sample_logged_in_now: "sy_now sample_logged_in = 0"
  by code_simp

definition sample_row :: refresh_row where
  "sample_row = \<lparr>rt_id = ''x'', rt_userId = ''u'', rt_tokenHash = sample_refresh_token, rt_familyId = ''xx'', rt_expiresAt = 10000,
     rt_revokedAt = None, rt_replacedBy = None\<rparr>"

lemma sample_row_found:
  "find (\<lambda>r. rt_tokenHash r = ae_hashToken sample_auth sample_refresh_token) (as_tokens (sy_state sample_logged_in)) = Some sample_row"
  by code_simp

definition sample_logout :: "auth_state" where
  "sample_logout = snd (logout (at_time sample_auth 1) sample_refresh_token (Some sample_access_token) (sy_state sample_logged_in))"

lemma sample_logout_ok:
  "logout (at_time sample_auth 1) sample_refresh_token (Some sample_access_token) (sy_state sample_logged_in) = (Inr (), sample_logout)"
  by code_simp

theorem logout_ends_the_session_witness: "ended ''xx'' (as_tokens sample_logout) \<and> as_tokens sample_logout \<noteq> []"
proof -
  have "live sample_row" by (simp add: sample_row_def live_def)
  then have "ended (rt_familyId sample_row) (as_tokens sample_logout)"
    using logout_ends_the_session [OF sample_logged_in_reachable _ sample_row_found _ sample_logout_ok rtranclp.rtrancl_refl]
    by (simp add: sample_logged_in_now)
  moreover have "as_tokens sample_logout \<noteq> []" by code_simp
  ultimately show ?thesis by (simp add: sample_row_def)
qed

theorem stale_logout_leaves_the_session_witness:
  "as_tokens (snd (logout (at_time sample_auth 5) sample_refresh_token None (sy_state sample_overlap))) = as_tokens (sy_state sample_overlap)"
proof -
  obtain r where r: "find (\<lambda>r. rt_tokenHash r = ae_hashToken (at_time sample_auth 5) sample_refresh_token) (as_tokens (sy_state sample_overlap)) = Some r"
      "\<not> live r"
  proof -
    have "case find (\<lambda>r. rt_tokenHash r = ae_hashToken (at_time sample_auth 5) sample_refresh_token) (as_tokens (sy_state sample_overlap)) of None \<Rightarrow> False
      | Some r \<Rightarrow> \<not> live r" by code_simp
    then show ?thesis using that by (auto split: option.splits)
  qed
  have "fst (logout (at_time sample_auth 5) sample_refresh_token None (sy_state sample_overlap)) = Inr ()" by code_simp
  then show ?thesis using stale_logout_leaves_the_session [OF r] by (metis prod.collapse)
qed

definition sample_access_claims :: token_claims where
  "sample_access_claims = \<lparr>cl_sub = ''u'', cl_type = T_access, cl_role = ''staff'', cl_jti = ''xxx'', cl_iss = ''i'', cl_aud = ''d'',
     cl_iat = 0, cl_exp = 10, cl_tvn = Some 0\<rparr>"

lemma sample_access_verified: "verify_token (at_time sample_auth 1) T_access sample_access_token = Inr sample_access_claims"
  by code_simp

lemma sample_expiring: "expiring sample_auth sample_access_token"
proof -
  have s: "split_dots ''u.xxx.staff..ssssssssss'' = [''u'', ''xxx'', ''staff'', [], ''ssssssssss'']" by code_simp
  show ?thesis unfolding expiring_def Let_def
    by (auto simp: sample_auth_def sample_verify_def sample_access_token_def s split: if_splits)
qed

theorem logged_out_access_token_is_dead_witness:
  "\<exists>err. fst (attachAuthenticatedUser (at_time sample_auth 9000) sample_access_token sample_logout) = Inl err"
proof -
  have "ae_revocation sample_auth" "sample_access_token \<noteq> []"
      "cl_exp sample_access_claims * 1000 \<le> of_int (1 + ae_accessTtlMs sample_auth)"
    by (simp_all add: sample_auth_def sample_access_token_def sample_access_claims_def)
  then show ?thesis
    using logged_out_access_token_is_dead [OF sample_logged_in_reachable _ _ _ sample_access_verified _ sample_expiring
      sample_logout_ok rtranclp.rtrancl_refl, of 9000] by (simp add: sample_logged_in_now)
qed

definition sample_reset :: auth_state where
  "sample_reset = snd (resetPassword (at_time sample_auth 1) ''a@b'' ''q'' (sy_state sample_logged_in))"

lemma sample_reset_ok: "resetPassword (at_time sample_auth 1) ''a@b'' ''q'' (sy_state sample_logged_in) = (Inr (), sample_reset)"
  by code_simp

lemma sample_user_found: "find (\<lambda>u. au_email u = normalizeEmail ''a@b'') (as_users (sy_state sample_logged_in)) = Some sample_user"
  by code_simp

theorem password_reset_ends_all_sessions_witness:
  "rt_familyId ` {r \<in> set (as_tokens sample_reset). rt_userId r = ''u'' \<and> live r} \<inter> sample_ids ` {..<as_ids sample_reset} = {} \<and>
   (\<exists>err s'. assertAccessAllowed (at_time sample_auth 9000) sample_access_claims sample_reset = (Inl err, s'))"
proof -
  have u: "au_id sample_user = ''u''" "ae_uuid sample_auth = sample_ids" "ae_revocation sample_auth"
    by (simp_all add: sample_user_def sample_auth_def)
  have v: "version_of (kv_read (as_kv (sy_state sample_logged_in)) 1 (version_key ''u'')) = 0" by code_simp
  have c: "cl_sub sample_access_claims = ''u''" "cl_tvn sample_access_claims = Some 0" "9000 < 1 + ttlMs sample_auth"
    by (simp_all add: sample_access_claims_def ttlMs_def sample_auth_def)
  show ?thesis
    using password_reset_ends_all_sessions [OF sample_logged_in_reachable _ u(3) sample_reset_ok sample_user_found rtranclp.rtrancl_refl] c v
    by (simp add: u sample_logged_in_now)
qed

text \<open>A reset at 0, a login just before its version expires, a second reset just after.\<close>

definition sample_late :: auth_system where
  "sample_late = auth_requests sample_auth [(0, Rq_reset ''a@b'' ''q''), (14999, Rq_login ''a@b'' ''q'')] sample_start"

definition sample_late_claims :: token_claims where
  "sample_late_claims = \<lparr>cl_sub = ''u'', cl_type = T_access, cl_role = ''staff'', cl_jti = ''xxx'', cl_iss = ''i'', cl_aud = ''d'',
     cl_iat = 0, cl_exp = 24, cl_tvn = Some 1\<rparr>"

theorem reset_after_expiry_spares_tokens_witness:
  "verify_token (at_time sample_auth 15001) T_access ''au.xxx.staff.v.ssssssssssssssssssssssss'' = Inr sample_late_claims \<and>
   tp_accessToken (ss_tokens (case fst (login (at_time sample_auth 14999) ''a@b'' ''q''
      (sy_state (auth_requests sample_auth [(0, Rq_reset ''a@b'' ''q'')] sample_start))) of Inr ss \<Rightarrow> ss)) =
     ''au.xxx.staff.v.ssssssssssssssssssssssss'' \<and>
   fst (assertAccessAllowed (at_time sample_auth 15001) sample_late_claims
     (snd (resetPassword (at_time sample_auth 15001) ''a@b'' ''q'' (sy_state sample_late)))) = Inr ()"
proof -
  let ?e = "at_time sample_auth 15001" and ?s = "sy_state sample_late"
  have "fst (resetPassword ?e ''a@b'' ''q'' ?s) = Inr ()" by code_simp
  then have run: "resetPassword ?e ''a@b'' ''q'' ?s = (Inr (), snd (resetPassword ?e ''a@b'' ''q'' ?s))" by (metis prod.collapse)
  obtain u where u: "find (\<lambda>u. au_email u = normalizeEmail ''a@b'') (as_users ?s) = Some u" "au_id u = ''u''"
  proof -
    have "map_option au_id (find (\<lambda>u. au_email u = normalizeEmail ''a@b'') (as_users ?s)) = Some ''u''" by code_simp
    then show ?thesis using that by auto
  qed
  have "kv_read (as_kv ?s) 15001 (version_key ''u'') = None" by code_simp
  moreover have "map_of (as_kv ?s) (jti_key (cl_jti sample_late_claims)) = None" by code_simp
  ultimately have "fst (assertAccessAllowed ?e sample_late_claims (snd (resetPassword ?e ''a@b'' ''q'' ?s))) = Inr ()"
    by (intro reset_after_expiry_spares_tokens [OF _ run u(1), where v = 1])
       (simp_all add: u(2) sample_late_claims_def, simp add: sample_auth_def)
  moreover have "verify_token ?e T_access ''au.xxx.staff.v.ssssssssssssssssssssssss'' = Inr sample_late_claims" by code_simp
  moreover have "tp_accessToken (ss_tokens (case fst (login (at_time sample_auth 14999) ''a@b'' ''q''
      (sy_state (auth_requests sample_auth [(0, Rq_reset ''a@b'' ''q'')] sample_start))) of Inr ss \<Rightarrow> ss)) =
     ''au.xxx.staff.v.ssssssssssssssssssssssss''" by code_simp
  ultimately show ?thesis by simp
qed

theorem login_exact_witness:
  "map live (as_tokens (snd (login sample_auth '' A@B '' ''p'' (sy_state sample_start)))) = [True] \<and>
   as_users (snd (login sample_auth '' A@B '' ''p'' (sy_state sample_start))) = as_users (sy_state sample_start)"
proof -
  obtain a t where run: "login sample_auth '' A@B '' ''p'' (sy_state sample_start) = (a, t)" by (cases "login sample_auth '' A@B '' ''p'' (sy_state sample_start)")
  have d: "distinct (map au_id (as_users (sy_state sample_start)))" by (simp add: sample_start_def)
  have "as_tokens (sy_state sample_start) = []" by (simp add: sample_start_def)
  moreover have "case fst (login sample_auth '' A@B '' ''p'' (sy_state sample_start)) of Inl _ \<Rightarrow> False | Inr _ \<Rightarrow> True" by code_simp
  moreover have "as_users t = as_users (sy_state sample_start)"
      "as_tokens t = as_tokens (sy_state sample_start) @ (case a of Inl _ \<Rightarrow> [] | Inr session \<Rightarrow> [issued_row sample_auth (ss_user session) None (as_ids (sy_state sample_start))])"
    using login_exact [OF d run] by blast+
  ultimately show ?thesis using run by (cases a) simp_all
qed

theorem guarded_request_has_permission_witness:
  "\<exists>tok c. extractAccessToken (Some ''bearer  au.xxx.staff..ssssssssss '') None = Inr tok \<and>
     verify_token (at_time sample_auth 1) T_access tok = Inr c \<and> cl_sub c = ''u''"
proof -
  let ?e = "at_time sample_auth 1" and ?h = "Some ''bearer  au.xxx.staff..ssssssssss ''"
  obtain u t where run: "authenticate ?e ?h None (sy_state sample_logged_in) = (Inr u, t)" and p: "us_permissions u = [''dealflow.quotes.read'']"
  proof -
    have "case authenticate ?e ?h None (sy_state sample_logged_in) of (Inl _, _) \<Rightarrow> False
      | (Inr u, _) \<Rightarrow> us_permissions u = [''dealflow.quotes.read'']" by code_simp
    then show ?thesis using that by (auto split: prod.splits sum.splits)
  qed
  have "normalizePermissionKey ''dealflow.quotes.read'' = ''dealflow.quotes.read''" by code_simp
  then have "assertPermission (Some u) [''Dealflow.Quotes.Read''] = Inr u \<longleftrightarrow> normalizePermissionKey ''Dealflow.Quotes.Read'' = ''dealflow.quotes.read''"
    using p by (simp add: assertPermission_def assertAuthenticated_def hasPermission_def)
  moreover have "normalizePermissionKey ''Dealflow.Quotes.Read'' = ''dealflow.quotes.read''" by code_simp
  ultimately have a: "assertPermission (Some u) [''Dealflow.Quotes.Read''] = Inr u" by simp
  have "''Dealflow.Quotes.Read'' \<in> set [''Dealflow.Quotes.Read'']" by simp
  then obtain tok c w where t: "extractAccessToken ?h None = Inr tok" "verify_token ?e T_access tok = Inr c"
      and w: "find (\<lambda>w. au_id w = cl_sub c) (as_users (sy_state sample_logged_in)) = Some w"
    using guarded_request_has_permission [OF run a] by blast
  have "as_users (sy_state sample_logged_in) = [sample_user]" by (simp add: sample_logged_in_state)
  then have "cl_sub c = ''u''" using w by (simp add: sample_user_def split: if_splits)
  then show ?thesis using t by blast
qed

end
