(* ===== verification/Platform_KvSpec.thy ===== *)
theory Platform_KvSpec
  imports Platform_Kv
begin

text \<open>
  What the interface \<open>KvStore\<close> of \<open>backend/src/lib/kv.ts\<close> promises, and that \<open>MemoryKvStore\<close> keeps it. The specification
  has no entries, no deadlines and no removals: its state is a timeline, which says of every moment what a key would
  answer then if nothing else were written. The locale states the laws a store has to keep; the answers of such a store
  to every sequence of timed calls are those of the timeline. \<open>MemoryKvStore\<close>, which removes an expired entry when it is
  read and all of them when it is pruned, is an instance.
\<close>

section \<open>Calls, answers and the specification\<close>

datatype 'v kv_call = Kv_get string | Kv_set string 'v "int option" | Kv_del string | Kv_setNx string 'v "int option" | Kv_prune

datatype 'v kv_answer = Ka_value "'v option" | Ka_won bool | Ka_done

type_synonym 'v timeline = "int \<Rightarrow> string \<Rightarrow> 'v option"

text \<open>A write at \<open>now\<close> lasts for its time to live, or for ever when it has none that is positive.\<close>

definition lasts :: "int \<Rightarrow> int option \<Rightarrow> int \<Rightarrow> bool" where
  "lasts now ttl t = (case ttl of None \<Rightarrow> True | Some d \<Rightarrow> d \<le> 0 \<or> t < now + d)"

definition written :: "int \<Rightarrow> string \<Rightarrow> 'v \<Rightarrow> int option \<Rightarrow> 'v timeline \<Rightarrow> 'v timeline" where
  "written now k v ttl r = (\<lambda>t k'. if k' = k then if lasts now ttl t then Some v else None else r t k')"

fun spec_answer :: "(string \<Rightarrow> 'v option) \<Rightarrow> 'v kv_call \<Rightarrow> 'v kv_answer" where
  "spec_answer r (Kv_get k) = Ka_value (r k)"
| "spec_answer r (Kv_setNx k v ttl) = Ka_won (r k = None)"
| "spec_answer r c = Ka_done"

fun spec_effect :: "int \<Rightarrow> 'v kv_call \<Rightarrow> 'v timeline \<Rightarrow> 'v timeline" where
  "spec_effect now (Kv_set k v ttl) r = written now k v ttl r"
| "spec_effect now (Kv_setNx k v ttl) r = (if r now k = None then written now k v ttl r else r)"
| "spec_effect now (Kv_del k) r = (\<lambda>t k'. if k' = k then None else r t k')"
| "spec_effect now (Kv_get k) r = r"
| "spec_effect now Kv_prune r = r"

fun spec_answers :: "(int \<times> 'v kv_call) list \<Rightarrow> 'v timeline \<Rightarrow> 'v kv_answer list" where
  "spec_answers [] r = []"
| "spec_answers ((now, c) # cs) r = spec_answer (r now) c # spec_answers cs (spec_effect now c r)"

fun spec_final :: "(int \<times> 'v kv_call) list \<Rightarrow> 'v timeline \<Rightarrow> 'v timeline" where
  "spec_final [] r = r"
| "spec_final ((now, c) # cs) r = spec_final cs (spec_effect now c r)"

section \<open>The calls of \<open>MemoryKvStore\<close>\<close>

text \<open>One method call; the number \<open>pruneExpired\<close> answers is not part of the contract.\<close>

fun kv_step :: "int \<Rightarrow> 'v kv_call \<Rightarrow> 'v kv \<Rightarrow> 'v kv_answer \<times> 'v kv" where
  "kv_step now (Kv_get k) m = map_prod Ka_value id (kv_get now k m)"
| "kv_step now (Kv_set k v ttl) m = (Ka_done, kv_set now k v ttl m)"
| "kv_step now (Kv_del k) m = (Ka_done, kv_del k m)"
| "kv_step now (Kv_setNx k v ttl) m = map_prod Ka_won id (kv_setNx now k v ttl m)"
| "kv_step now Kv_prune m = (Ka_done, snd (kv_pruneExpired now m))"

text \<open>The answers of a store to a sequence of timed calls, and the store they leave.\<close>

fun answers_of :: "(int \<Rightarrow> 'v kv_call \<Rightarrow> 's \<Rightarrow> 'v kv_answer \<times> 's) \<Rightarrow> (int \<times> 'v kv_call) list \<Rightarrow> 's \<Rightarrow> 'v kv_answer list" where
  "answers_of step [] s = []"
| "answers_of step ((now, c) # cs) s = (case step now c s of (x, s') \<Rightarrow> x # answers_of step cs s')"

fun final_of :: "(int \<Rightarrow> 'v kv_call \<Rightarrow> 's \<Rightarrow> 'v kv_answer \<times> 's) \<Rightarrow> (int \<times> 'v kv_call) list \<Rightarrow> 's \<Rightarrow> 's" where
  "final_of step [] s = s"
| "final_of step ((now, c) # cs) s = final_of step cs (snd (step now c s))"

section \<open>The contract\<close>

text \<open>\<open>read s t k\<close> is what the state \<open>s\<close> answers for \<open>k\<close> at the time \<open>t\<close>. The effect of a call is promised for this time and later
  ones only.\<close>

locale timed_store =
  fixes step :: "int \<Rightarrow> 'v kv_call \<Rightarrow> 's \<Rightarrow> 'v kv_answer \<times> 's"
    and read :: "'s \<Rightarrow> 'v timeline"
    and ok :: "'s \<Rightarrow> bool"
  assumes step_ok: "ok s \<Longrightarrow> ok (snd (step now c s))"
    and step_answer: "ok s \<Longrightarrow> fst (step now c s) = spec_answer (read s now) c"
    and step_read: "ok s \<Longrightarrow> now \<le> t \<Longrightarrow> read (snd (step now c s)) t k = spec_effect now c (read s) t k"
begin

definition agrees :: "int \<Rightarrow> 's \<Rightarrow> 'v timeline \<Rightarrow> bool" where
  "agrees now s r \<longleftrightarrow> ok s \<and> (\<forall>t\<ge>now. \<forall>k. read s t k = r t k)"

lemma agrees_later: "agrees now s r \<Longrightarrow> now \<le> t \<Longrightarrow> agrees t s r"
  by (auto simp: agrees_def)

lemma effect_cong: "(\<And>t k. now \<le> t \<Longrightarrow> r t k = r' t k) \<Longrightarrow> now \<le> t \<Longrightarrow> spec_effect now c r t k = spec_effect now c r' t k"
  by (cases c) (auto simp: written_def)

lemma agrees_step:
  assumes "agrees now s r"
  shows "fst (step now c s) = spec_answer (r now) c" "agrees now (snd (step now c s)) (spec_effect now c r)"
proof -
  have s: "ok s" "now \<le> t \<Longrightarrow> read s t k = r t k" for t k using assms by (auto simp: agrees_def)
  have "read s now = r now" using s(2) by (intro ext) simp
  then show "fst (step now c s) = spec_answer (r now) c" using step_answer [OF s(1)] by simp
  show "agrees now (snd (step now c s)) (spec_effect now c r)"
    using step_ok [OF s(1)] step_read [OF s(1)] effect_cong [of now "read s" r, OF s(2)] by (simp add: agrees_def)
qed

lemma refines:
  assumes "agrees now s r" and "sorted (now # map fst cs)"
  shows "answers_of step cs s = spec_answers cs r \<and> agrees (last (now # map fst cs)) (final_of step cs s) (spec_final cs r)"
  using assms
proof (induction cs arbitrary: now s r)
  case (Cons x cs)
  obtain t c where x: "x = (t, c)" by (cases x)
  have t: "now \<le> t" "sorted (t # map fst cs)" using Cons.prems(2) by (simp_all add: x)
  note a = agrees_step [OF agrees_later [OF Cons.prems(1) t(1)], of c]
  show ?case using Cons.IH [OF a(2) t(2)] a(1) by (auto simp: x split_beta)
qed simp

end

section \<open>\<open>MemoryKvStore\<close> keeps the contract\<close>

lemma kv_read_written: "kv_read (kv_set now k v ttl m) = written now k v ttl (kv_read m)"
  by (intro ext) (auto simp: kv_read_set written_def lasts_def split: option.split)

interpretation memory_kv: timed_store kv_step kv_read kv_ok
proof
  fix m :: "'v kv" and now t k and c :: "'v kv_call"
  assume m: "kv_ok m"
  show "kv_ok (snd (kv_step now c m))" using m by (cases c) (simp_all del: One_nat_def)
  show "fst (kv_step now c m) = spec_answer (kv_read m now) c"
    by (cases c) (simp_all add: kv_read_def [symmetric] kv_setNx_exact)
  show "kv_read (snd (kv_step now c m)) t k = spec_effect now c (kv_read m) t k" if "now \<le> t"
    using that m by (cases c) (simp_all add: kv_get_frame kv_read_written kv_read_del kv_setNx_exact kv_prune_frame)
qed

lemma pruned_keys:
  assumes "kv_ok m"
  shows "fst ` set (snd (kv_pruneExpired t m)) = {k. kv_read m t k \<noteq> None}"
proof -
  have "(k, e) \<in> set m \<longleftrightarrow> map_of m k = Some e" for k e using assms by (simp add: kv_ok_def)
  then show ?thesis by (force simp: kv_pruneExpired_def kv_read_map image_iff split: option.splits)
qed

text \<open>C29: \<open>MemoryKvStore\<close> refines a store without removals: for every sequence of calls of \<open>get\<close>, \<open>set\<close>, \<open>del\<close>, \<open>setNx\<close> and
  \<open>pruneExpired\<close> in the order of time, beginning with the empty store, each call answers as the timeline specification
  does, in which a write lasts exactly for its time to live and nothing is ever removed for being read or pruned: that
  expired entries are deleted on access, or swept, is never visible. And sweeping at any time after the last call leaves
  exactly the keys that answer a value then, each once, so no expired entry stays in memory.\<close>

theorem memory_store_refines_timeline:
  fixes calls :: "(int \<times> 'v kv_call) list"
  assumes "sorted (map fst calls)" and "\<forall>now \<in> fst ` set calls. now \<le> t"
  shows "answers_of kv_step calls [] = spec_answers calls (\<lambda>_ _. None) \<and>
    fst ` set (snd (kv_pruneExpired t (final_of kv_step calls []))) = {k. spec_final calls (\<lambda>_ _. None) t k \<noteq> None} \<and>
    distinct (map fst (snd (kv_pruneExpired t (final_of kv_step calls []))))"
proof -
  define start where "start = (case calls of [] \<Rightarrow> t | (now, _) # _ \<Rightarrow> now)"
  have s: "sorted (start # map fst calls)" using assms(1) by (cases calls) (auto simp: start_def split: prod.split)
  have "memory_kv.agrees start ([] :: 'v kv) (\<lambda>_ _. None)"
    by (simp add: memory_kv.agrees_def kv_ok_def kv_read_map)
  note r = memory_kv.refines [OF this s]
  have "last (start # map fst calls) \<le> t"
    using assms(2) by (cases calls rule: rev_cases) (auto simp: start_def)
  then have a: "memory_kv.agrees t (final_of kv_step calls []) (spec_final calls (\<lambda>_ _. None))"
    using memory_kv.agrees_later r by blast
  then have ok: "kv_ok (final_of kv_step calls [])"
    and reads: "kv_read (final_of kv_step calls []) t k = spec_final calls (\<lambda>_ _. None) t k" for k
    by (simp_all add: memory_kv.agrees_def)
  show ?thesis using conjunct1 [OF r] kv_ok_preserved(5) [OF ok, of t] by (simp add: pruned_keys [OF ok] reads kv_ok_def)
qed

text \<open>A sample: a value that expires, is taken over by \<open>setNx\<close>, and is deleted; the key \<open>b\<close> stays.\<close>

definition sample_calls :: "(int \<times> nat kv_call) list" where
  "sample_calls = [(0, Kv_set ''a'' 1 (Some 10)), (1, Kv_setNx ''a'' 2 None), (9, Kv_get ''a''), (10, Kv_get ''a''), (10, Kv_setNx ''a'' 3 (Some 5)),
     (12, Kv_set ''b'' 4 None), (15, Kv_prune), (15, Kv_get ''a'')]"

theorem memory_store_refines_timeline_witness:
  "answers_of kv_step sample_calls [] =
     [Ka_done, Ka_won False, Ka_value (Some 1), Ka_value None, Ka_won True, Ka_done, Ka_done, Ka_value None] \<and>
   fst ` set (snd (kv_pruneExpired 20 (final_of kv_step sample_calls []))) = {''b''}"
proof -
  have c: "sorted (map fst sample_calls)" "\<forall>now \<in> fst ` set sample_calls. now \<le> 20" by (simp_all add: sample_calls_def)
  note r = memory_store_refines_timeline [OF c]
  have a: "spec_answers sample_calls (\<lambda>_ _. None) =
     [Ka_done, Ka_won False, Ka_value (Some 1), Ka_value None, Ka_won True, Ka_done, Ka_done, Ka_value None]"
    by (simp add: sample_calls_def written_def lasts_def)
  have "{k. spec_final sample_calls (\<lambda>_ _. None) 20 k \<noteq> None} = {''b''}"
    by (auto simp: sample_calls_def written_def lasts_def split: if_splits)
  then show ?thesis using r a by simp
qed

end
