(* ===== verification/Dealflow_Reads.thy ===== *)
theory Dealflow_Reads
  imports Dealflow_Liveness
begin

text \<open>
  The handlers of \<open>service.ts\<close> that only read: the catalogue, the quotations of a customer, the
  negotiations of a quotation, the anomalies and the PDF of a quotation. None of them writes the store
  (\<open>reads_write_nothing\<close>). \<open>listMyQuotes\<close> answers exactly the quotations of the customers that have the
  actor's e-mail address. The PDF renderer is the parameter \<open>e_renderPdf\<close>; it may reject.
\<close>

section \<open>Handlers\<close>

record catalog_view =
  cg_customers :: "customer list"
  cg_products :: "product list"
  cg_warehouses :: "warehouse list"
  cg_stock :: "stock_level list"
  cg_policies :: "discount_policy list"
  cg_chains :: "approval_chain list"
  cg_relations :: "product_relation list"
  cg_quantityBreaks :: "quantity_break list"
  cg_roleAuthorities :: "role_authority list"
  cg_governance :: governance_config

definition service_catalog :: "env \<Rightarrow> catalog_view action" where
  "service_catalog e = gets (\<lambda>w. \<lparr>cg_customers = w_customers w, cg_products = w_products w, cg_warehouses = w_warehouses w,
     cg_stock = w_stock w, cg_policies = w_policies w, cg_chains = w_chains w, cg_relations = w_relations w,
     cg_quantityBreaks = w_quantityBreaks w, cg_roleAuthorities = w_roleAuthorities w, cg_governance = governanceOf e w\<rparr>)"

text \<open>The view of a customer's own quotation has no commercials, loyalty or negotiations; the portal token is added.\<close>

definition my_quote_view :: "quote_aggregate \<Rightarrow> portal_view \<times> string" where
  "my_quote_view a =
     (portal_view_of (ag_quote a) None None None (cu_name (ag_customer a))
        (map (\<lambda>l. (l, find (\<lambda>p. pr_id p = ln_productId l) (ag_products a))) (ag_lines a)),
      qt_portalToken (ag_quote a))"

definition or_empty :: "string option \<Rightarrow> string" where
  "or_empty s = (case s of None \<Rightarrow> '''' | Some x \<Rightarrow> x)"

definition listMyQuotes :: "actor \<Rightarrow> (portal_view \<times> string) list action" where
  "listMyQuotes act =
     bnd (store_findCustomersByEmail (or_empty (act_email act))) (\<lambda>customers.
     if customers = [] then ret []
     else let ids = map cu_id customers in
       bnd store_listQuoteSummaries (\<lambda>quotes.
       ret (map my_quote_view
         (filter (\<lambda>a. qt_customerId (ag_quote a) \<in> set ids \<or> cu_id (ag_customer a) \<in> set ids) quotes))))"

definition is_user_role :: "actor option \<Rightarrow> bool" where
  "is_user_role act = (case act of None \<Rightarrow> False
     | Some x \<Rightarrow> act_role x = Some ''user'' \<or> (case act_roles x of None \<Rightarrow> False | Some rs \<Rightarrow> ''user'' \<in> set rs))"

definition listNegotiationRequests :: "string \<Rightarrow> actor option \<Rightarrow> negotiation_request list action" where
  "listNegotiationRequests quoteId act =
     bnd (load quoteId) (\<lambda>a.
     bnd (if is_user_role act
          then bnd (store_findCustomersByEmail (or_empty (Option.bind act act_email))) (\<lambda>mine.
               ensure (list_ex (\<lambda>c. cu_id c = cu_id (ag_customer a)) mine) (forbidden (Negotiation Not_own_quotation)))
          else ret ()) (\<lambda>_.
     store_listNegotiations quoteId))"

definition listAnomalies :: "dealflow_anomaly list action" where
  "listAnomalies = gets w_anomalies"

definition quote_pdf :: "env \<Rightarrow> quote_aggregate \<Rightarrow> (string + string) action" where
  "quote_pdf e a =
     bnd (refreshAssessment e a) (\<lambda>(_, a).
     gets (\<lambda>w. e_renderPdf e a (computeTaxTotal (ag_lines a) (ag_products a) (governanceOf e w))
       (if qt_financeLockedAt (ag_quote a) \<noteq> None then E_final_invoice else E_prelim_invoice)))"

definition customerQuotePdf :: "env \<Rightarrow> string \<Rightarrow> (string + string) action" where
  "customerQuotePdf e quoteId = bnd (load quoteId) (quote_pdf e)"

definition customerQuotePdfByToken :: "env \<Rightarrow> string \<Rightarrow> (string + string) action" where
  "customerQuotePdfByToken e token = bnd (load_by_token token) (quote_pdf e)"

section \<open>Read requests\<close>

datatype (plugins only: code) read_request =
    Q_catalog | Q_myQuotes actor | Q_negotiations string "actor option" | Q_anomalies | Q_pdf string | Q_pdfByToken string

datatype (plugins only: code) read_answer =
    Ans_catalog catalog_view | Ans_quotes "(portal_view \<times> string) list" | Ans_negotiations "negotiation_request list"
  | Ans_anomalies "dealflow_anomaly list" | Ans_pdf "string + string"

definition answer :: "('a \<Rightarrow> 'b) \<Rightarrow> 'a action \<Rightarrow> 'b action" where
  "answer c m = bnd m (\<lambda>x. ret (c x))"

primrec handle_read :: "env \<Rightarrow> read_request \<Rightarrow> read_answer action" where
  "handle_read e Q_catalog = answer Ans_catalog (service_catalog e)"
| "handle_read e (Q_myQuotes act) = answer Ans_quotes (listMyQuotes act)"
| "handle_read e (Q_negotiations i act) = answer Ans_negotiations (listNegotiationRequests i act)"
| "handle_read e Q_anomalies = answer Ans_anomalies listAnomalies"
| "handle_read e (Q_pdf i) = answer Ans_pdf (customerQuotePdf e i)"
| "handle_read e (Q_pdfByToken t) = answer Ans_pdf (customerQuotePdfByToken e t)"

section \<open>Reads write nothing\<close>

definition silent :: "'a action \<Rightarrow> bool" where
  "silent m \<longleftrightarrow> (\<forall>w. snd (m w) = w)"

named_theorems silent_intros \<open>actions that leave the store as it is\<close>

lemma silent_basic [silent_intros]: "silent (ret x)" "silent (throw err)" "silent (gets f)" "silent (ensure b err)" "silent (lift r)"
  by (simp_all add: silent_def ret_def throw_def gets_def ensure_def lift_def split: sum.split)

lemma silent_bnd [silent_intros]: "silent m \<Longrightarrow> (\<And>x. silent (f x)) \<Longrightarrow> silent (bnd m f)"
  unfolding silent_def bnd_def by (auto split: prod.split sum.split) (metis snd_conv)+

lemma silent_branches [silent_intros]:
  "silent m \<Longrightarrow> silent n \<Longrightarrow> silent (if b then m else n)"
  "silent m \<Longrightarrow> (\<And>y. silent (g y)) \<Longrightarrow> silent (case o' of None \<Rightarrow> m | Some y \<Rightarrow> g y)"
  "(\<And>y z. silent (p y z)) \<Longrightarrow> silent (case q of (y, z) \<Rightarrow> p y z)"
  by (simp_all split: option.split prod.split)

lemma silent_store [silent_intros]:
  "silent (store_getQuote i)" "silent (store_getQuoteByToken t)" "silent store_listQuoteSummaries"
  "silent (store_findCustomersByEmail s)" "silent (store_listNegotiations i)" "silent (refreshAssessment e a)"
  unfolding store_findCustomersByEmail_def store_listNegotiations_def
  by (simp_all add: silent_def gets_def store_getQuote_def store_getQuoteByToken_def store_listQuoteSummaries_def refreshAssessment_def)

lemma silent_loads [silent_intros]: "silent (load i)" "silent (load_by_token t)"
  unfolding load_def load_by_token_def by (intro silent_intros)+

lemma silent_answer [silent_intros]: "silent m \<Longrightarrow> silent (answer c m)"
  unfolding answer_def by (intro silent_intros)

lemma silent_reads [silent_intros]:
  "silent (service_catalog e)" "silent (listMyQuotes act)" "silent (listNegotiationRequests i oact)" "silent listAnomalies"
  "silent (customerQuotePdf e i)" "silent (customerQuotePdfByToken e t)"
  unfolding service_catalog_def listMyQuotes_def listNegotiationRequests_def listAnomalies_def customerQuotePdf_def
    customerQuotePdfByToken_def quote_pdf_def Let_def
  by (intro silent_intros)+

lemma silent_handle_read: "silent (handle_read e r)"
  by (cases r) (simp_all add: silent_answer silent_reads)

lemma reads_write_nothing: "snd (handle_read e r w) = w"
  using silent_handle_read by (simp add: silent_def)

section \<open>What a customer sees\<close>

text \<open>The rows of the quotation table that belong to a customer with the e-mail address.\<close>

definition owned_by :: "world \<Rightarrow> string \<Rightarrow> quote_aggregate \<Rightarrow> bool" where
  "owned_by w email a \<longleftrightarrow>
     (\<exists>c\<in>set (w_customers w). toLowerCase (cu_email c) = toLowerCase (js_trim email) \<and> cu_id c = qt_customerId (ag_quote a))"

lemma attach_customer: "attach w a = Inr b \<Longrightarrow> cu_id (ag_customer b) = qt_customerId (ag_quote b) \<and> ag_quote b = ag_quote a"
  by (auto simp: attach_def find_Some_iff split: option.splits)

lemma map_result_keys:
  assumes "map_result f xs = Inr ys" and "\<And>x y. x \<in> set xs \<Longrightarrow> f x = Inr y \<Longrightarrow> P y = Q x \<and> k y = j x"
  shows "map k (filter P ys) = map j (filter Q xs)"
  using assms
proof (induction xs arbitrary: ys)
  case (Cons x xs)
  then obtain y zs where y: "f x = Inr y" and zs: "map_result f xs = Inr zs" and ys: "ys = y # zs"
    by (auto simp: rbind_Inr_iff)
  have "map k (filter P zs) = map j (filter Q xs)" using Cons.IH [OF zs] Cons.prems(2) by simp
  then show ?case using Cons.prems(2) [of x y] y ys by simp
qed simp

lemma my_quotes_exact:
  assumes inv: "world_inv U w"
  shows "\<exists>vs. listMyQuotes act w = (Inr vs, w) \<and>
    map (\<lambda>v. vw_id (fst v)) vs = map fst (filter (\<lambda>p. owned_by w (or_empty (act_email act)) (snd p)) (w_quotes w))"
proof -
  let ?cs = "filter (email_is (toLowerCase (js_trim (or_empty (act_email act))))) (w_customers w)"
  have found: "qt_customerId (ag_quote a) \<in> cu_id ` set (w_customers w)" and key: "qt_id (ag_quote a) = i"
    if "(i, a) \<in> set (w_quotes w)" for i a
  proof -
    have "quote_lookup w i = Some a" using that inv by (simp add: world_inv_def quote_lookup_def)
    then show "qt_customerId (ag_quote a) \<in> cu_id ` set (w_customers w)" "qt_id (ag_quote a) = i"
      using inv by (auto simp: world_inv_def stored_ok_def)
  qed
  have "\<exists>b. attach w a = Inr b" if "a \<in> set (map snd (w_quotes w))" for a
    using that found attach_total by (metis (no_types, lifting) imageE prod.collapse set_map)
  then obtain bs where bs: "map_result (attach w) (map snd (w_quotes w)) = Inr bs" using map_result_total by blast
  have own: "owned_by w (or_empty (act_email act)) a \<longleftrightarrow> qt_customerId (ag_quote a) \<in> set (map cu_id ?cs)" for a
    by (simp add: owned_by_def email_is_def image_iff) metis
  let ?mine = "\<lambda>a. qt_customerId (ag_quote a) \<in> set (map cu_id ?cs) \<or> cu_id (ag_customer a) \<in> set (map cu_id ?cs)"
  have "map (\<lambda>v. vw_id (fst v)) (map my_quote_view (filter ?mine bs)) = map (\<lambda>b. qt_id (ag_quote b)) (filter ?mine bs)"
    by (simp add: my_quote_view_def portal_view_of_def)
  also have "\<dots> = map (\<lambda>a. qt_id (ag_quote a)) (filter (owned_by w (or_empty (act_email act))) (map snd (w_quotes w)))"
    by (rule map_result_keys [OF bs]) (use attach_customer own in metis)
  also have "\<dots> = map fst (filter (\<lambda>p. owned_by w (or_empty (act_email act)) (snd p)) (w_quotes w))"
    using key by (force simp: filter_map comp_def)
  finally have eq: "map (\<lambda>v. vw_id (fst v)) (map my_quote_view (filter ?mine bs)) =
    map fst (filter (\<lambda>p. owned_by w (or_empty (act_email act)) (snd p)) (w_quotes w))" .
  show ?thesis
  proof (cases "?cs = []")
    case True
    then have "\<not> owned_by w (or_empty (act_email act)) a" for a using own by simp
    then show ?thesis using True by (simp add: listMyQuotes_def bnd_def store_findCustomersByEmail_def gets_def ret_def)
  next
    case False
    then show ?thesis using eq bs
      by (simp add: listMyQuotes_def bnd_def store_findCustomersByEmail_def gets_def ret_def store_listQuoteSummaries_def Let_def)
  qed
qed

end
