(* ===== verification/Dealflow_Schemas.thy ===== *)
theory Dealflow_Schemas
  imports Dealflow_Strings
begin

text \<open>
  The request schemas of the module (\<open>schemas.ts\<close>). They are values of a validation library; \<open>schema\<close> has the
  constructors of that library the module uses, and each schema of the file is a constant of this type, built
  with \<open>extend\<close> and \<open>partial\<close> as in the file. The library itself is a parameter: its parser and its
  checks for identifiers and e-mail addresses are a record \<open>zod\<close>. What the code relies on is \<open>zod_sound\<close>: the value
  the parser returns for a schema satisfies the schema (\<open>accepts\<close>).
\<close>

section \<open>Values and schemas\<close>

datatype json = V_null | V_bool bool | V_num js_number | V_str string | V_arr "json list" | V_obj "(string \<times> json) list"

datatype string_check = Sc_uuid | Sc_email | Sc_trim | Sc_min nat | Sc_max nat

datatype number_check = Nc_int | Nc_positive | Nc_min js_number | Nc_max js_number

text \<open>The refinements the file attaches to objects.\<close>

datatype refinement = Rf_one_of "string list" | Rf_any_key | Rf_billing_frequency

datatype schema =
    Z_string "string_check list"
  | Z_number "number_check list"
  | Z_boolean
  | Z_enum "string list"
  | Z_array schema "nat option" "nat option"
  | Z_object bool "(string \<times> schema) list"
  | Z_optional schema
  | Z_nullable schema
  | Z_refine schema refinement

text \<open>A missing value is \<open>None\<close>.\<close>

record zod =
  zd_parse :: "schema \<Rightarrow> json option \<Rightarrow> json option"
  zd_uuid :: "string \<Rightarrow> bool"
  zd_email :: "string \<Rightarrow> bool"

fun string_ok :: "zod \<Rightarrow> string \<Rightarrow> string_check \<Rightarrow> bool" where
  "string_ok Z s Sc_uuid = zd_uuid Z s"
| "string_ok Z s Sc_email = zd_email Z s"
| "string_ok Z s Sc_trim = (js_trim s = s)"
| "string_ok Z s (Sc_min n) = (n \<le> length s)"
| "string_ok Z s (Sc_max n) = (length s \<le> n)"

fun number_ok :: "js_number \<Rightarrow> number_check \<Rightarrow> bool" where
  "number_ok x Nc_int = (x = of_int \<lfloor>x\<rfloor>)"
| "number_ok x Nc_positive = (0 < x)"
| "number_ok x (Nc_min a) = (a \<le> x)"
| "number_ok x (Nc_max a) = (x \<le> a)"

definition fld :: "json \<Rightarrow> string \<Rightarrow> json option" where
  "fld b k = (case b of V_obj kvs \<Rightarrow> map_of kvs k | _ \<Rightarrow> None)"

definition obj_keys :: "json \<Rightarrow> string list" where
  "obj_keys b = (case b of V_obj kvs \<Rightarrow> map fst kvs | _ \<Rightarrow> [])"

fun refine_ok :: "refinement \<Rightarrow> json \<Rightarrow> bool" where
  "refine_ok (Rf_one_of ks) b = list_ex (\<lambda>k. fld b k \<noteq> None) ks"
| "refine_ok Rf_any_key b = (obj_keys b \<noteq> [])"
| "refine_ok Rf_billing_frequency b =
     (fld b ''billingType'' = Some (V_str ''recurring'') \<longrightarrow> fld b ''billingFrequency'' \<noteq> None \<and> fld b ''billingFrequency'' \<noteq> Some V_null)"

text \<open>What the output of a schema looks like: an object has fields of the schema only, both when unknown fields are
  refused (\<open>strict\<close>) and when they are dropped.\<close>

fun accepts :: "zod \<Rightarrow> schema \<Rightarrow> json option \<Rightarrow> bool" where
  "accepts Z (Z_string cs) v = (case v of Some (V_str s) \<Rightarrow> list_all (string_ok Z s) cs | _ \<Rightarrow> False)"
| "accepts Z (Z_number cs) v = (case v of Some (V_num x) \<Rightarrow> list_all (number_ok x) cs | _ \<Rightarrow> False)"
| "accepts Z Z_boolean v = (case v of Some (V_bool _) \<Rightarrow> True | _ \<Rightarrow> False)"
| "accepts Z (Z_enum xs) v = (case v of Some (V_str s) \<Rightarrow> s \<in> set xs | _ \<Rightarrow> False)"
| "accepts Z (Z_array s mn mx) v = (case v of
     Some (V_arr vs) \<Rightarrow> list_all (\<lambda>x. accepts Z s (Some x)) vs \<and> (case mn of None \<Rightarrow> True | Some n \<Rightarrow> n \<le> length vs) \<and>
       (case mx of None \<Rightarrow> True | Some n \<Rightarrow> length vs \<le> n)
   | _ \<Rightarrow> False)"
| "accepts Z (Z_object strict fs) v = (case v of
     Some (V_obj kvs) \<Rightarrow> distinct (map fst kvs) \<and> set (map fst kvs) \<subseteq> set (map fst fs) \<and> list_all (\<lambda>(k, s). accepts Z s (map_of kvs k)) fs
   | _ \<Rightarrow> False)"
| "accepts Z (Z_optional s) v = (v = None \<or> accepts Z s v)"
| "accepts Z (Z_nullable s) v = (v = Some V_null \<or> accepts Z s v)"
| "accepts Z (Z_refine s r) v = (accepts Z s v \<and> (case v of Some b \<Rightarrow> refine_ok r b | None \<Rightarrow> True))"

definition zod_sound :: "zod \<Rightarrow> bool" where
  "zod_sound Z \<longleftrightarrow> (\<forall>s v b. zd_parse Z s v = Some b \<longrightarrow> accepts Z s (Some b))"

section \<open>Schemas from schemas\<close>

definition extend_fields :: "(string \<times> schema) list \<Rightarrow> (string \<times> schema) list \<Rightarrow> (string \<times> schema) list" where
  "extend_fields fs new = filter (\<lambda>p. fst p \<notin> set (map fst new)) fs @ new"

fun extend :: "schema \<Rightarrow> (string \<times> schema) list \<Rightarrow> schema" where
  "extend (Z_object strict fs) new = Z_object strict (extend_fields fs new)"
| "extend s new = s"

fun partial :: "schema \<Rightarrow> schema" where
  "partial (Z_object strict fs) = Z_object strict (map (\<lambda>(k, s). (k, Z_optional s)) fs)"
| "partial s = s"

section \<open>The schemas\<close>

definition z_uuid :: schema where "z_uuid = Z_string [Sc_uuid]"
definition z_version :: schema where "z_version = Z_number [Nc_int, Nc_positive]"
definition z_positive :: schema where "z_positive = Z_number [Nc_positive]"
definition z_percent :: schema where "z_percent = Z_number [Nc_min 0, Nc_max 100]"
definition z_nonneg :: schema where "z_nonneg = Z_number [Nc_min 0]"
definition z_text :: "nat \<Rightarrow> nat \<Rightarrow> schema" where "z_text mn mx = Z_string [Sc_trim, Sc_min mn, Sc_max mx]"
definition z_note :: "nat \<Rightarrow> schema" where "z_note mx = Z_string [Sc_trim, Sc_max mx]"

definition z_tier :: schema where
  "z_tier = Z_enum [''standard'', ''silver'', ''gold'', ''strategic'', ''platinum'']"

definition idParamSchema :: schema where
  "idParamSchema = Z_object False [(''id'', z_uuid)]"

definition approvalParamSchema :: schema where
  "approvalParamSchema = Z_object False [(''id'', z_uuid), (''approvalId'', z_uuid)]"

definition lineParamSchema :: schema where
  "lineParamSchema = Z_object False [(''id'', z_uuid), (''lineId'', z_uuid)]"

definition billingParamSchema :: schema where
  "billingParamSchema = Z_object False [(''id'', z_uuid), (''scheduleId'', z_uuid)]"

definition tokenParamSchema :: schema where
  "tokenParamSchema = Z_object False [(''token'', Z_string [Sc_min 16, Sc_max 128])]"

definition expectedVersionSchema :: schema where
  "expectedVersionSchema = Z_object False [(''expectedVersion'', z_version)]"

definition lineInputSchema :: schema where
  "lineInputSchema = Z_object True [(''productId'', z_uuid), (''quantity'', z_positive), (''discountPercent'', z_percent),
     (''expectedVersion'', Z_optional z_version)]"

definition addLineBodySchema :: schema where
  "addLineBodySchema = extend lineInputSchema [(''expectedVersion'', z_version)]"

definition createQuoteBodySchema :: schema where
  "createQuoteBodySchema = Z_object True [(''customerId'', z_uuid), (''lines'', Z_optional (Z_array lineInputSchema None None))]"

definition patchLineBodySchema :: schema where
  "patchLineBodySchema = Z_refine (Z_object True [(''productId'', Z_optional z_uuid), (''quantity'', Z_optional z_positive),
     (''discountPercent'', Z_optional z_percent), (''unitPrice'', Z_optional z_nonneg), (''expectedVersion'', z_version)])
     (Rf_one_of [''productId'', ''quantity'', ''discountPercent'', ''unitPrice''])"

definition decideBodySchema :: schema where
  "decideBodySchema = Z_object True [(''decision'', Z_enum [''approved'', ''rejected'']), (''reason'', z_text 1 500)]"

definition portalChangeBodySchema :: schema where
  "portalChangeBodySchema = Z_object True [(''expectedVersion'', z_version),
     (''lines'', Z_array (Z_object True [(''lineId'', z_uuid), (''quantity'', Z_optional z_positive),
       (''discountPercent'', Z_optional z_percent)]) (Some 1) None)]"

definition quantityBreakSchema :: schema where
  "quantityBreakSchema = Z_object True [(''id'', Z_optional z_uuid), (''name'', z_text 1 120), (''productId'', z_uuid),
     (''customerTier'', Z_optional (Z_nullable z_tier)), (''minQuantity'', z_positive), (''maxQuantity'', Z_optional (Z_nullable z_positive)),
     (''adjustmentKind'', Z_enum [''fixed'', ''percent'']), (''adjustmentValue'', Z_number []), (''active'', Z_optional Z_boolean)]"

definition roleAuthoritySchema :: schema where
  "roleAuthoritySchema = Z_object True [(''roleKey'', z_text 1 40), (''maxDiscountPercent'', z_percent), (''minMarginPercent'', z_percent),
     (''maxPriceOverridePercent'', z_percent), (''canNegotiate'', Z_boolean), (''exceedAction'', Z_enum [''allow'', ''approval'', ''block''])]"

definition replaceQuantityBreaksBodySchema :: schema where
  "replaceQuantityBreaksBodySchema = Z_object True [(''items'', Z_array quantityBreakSchema None (Some 100))]"

definition replaceRoleAuthoritiesBodySchema :: schema where
  "replaceRoleAuthoritiesBodySchema = Z_object True [(''items'', Z_array roleAuthoritySchema (Some 1) (Some 20))]"

definition patchGovernanceBodySchema :: schema where
  "patchGovernanceBodySchema = Z_refine (Z_object True [
     (''cumulativeWarningLimit'', Z_optional z_positive), (''materialDiscountDeltaPp'', Z_optional z_nonneg),
     (''materialTotalDeltaRatio'', Z_optional (Z_number [Nc_min 0, Nc_max 1])), (''highValueNetTotal'', Z_optional z_nonneg),
     (''maxApprovalLevels'', Z_optional (Z_number [Nc_int, Nc_min 1, Nc_max 3])), (''taxRatePercent'', Z_optional z_percent),
     (''staleQuoteDays'', Z_optional (Z_number [Nc_min 1])), (''unusualDiscountPercent'', Z_optional z_percent),
     (''largeDealNetTotal'', Z_optional z_nonneg), (''maxCommercialDiscountPercent'', Z_optional z_percent),
     (''allowLoyaltyStacking'', Z_optional Z_boolean)]) Rf_any_key"

definition vendorContactBodySchema :: schema where
  "vendorContactBodySchema = Z_object True [(''productId'', Z_optional z_uuid), (''message'', z_text 1 1000)]"

definition applyRecommendationBodySchema :: schema where
  "applyRecommendationBodySchema = Z_object True [(''relationId'', Z_string [Sc_min 1]), (''expectedVersion'', z_version)]"

definition portalDecisionBodySchema :: schema where
  "portalDecisionBodySchema = Z_object True [(''expectedVersion'', z_version), (''action'', Z_enum [''accepted'', ''declined'']),
     (''comment'', Z_optional (z_note 500))]"

definition anomalyParamSchema :: schema where
  "anomalyParamSchema = Z_object False [(''id'', z_uuid)]"

definition anomalyDispositionBodySchema :: schema where
  "anomalyDispositionBodySchema = Z_object True [(''status'', Z_enum [''open'', ''acknowledged'', ''resolved'', ''dismissed'']),
     (''resolution'', Z_optional (z_note 500))]"

definition fulfillmentPlanBodySchema :: schema where
  "fulfillmentPlanBodySchema = Z_object True [(''expectedVersion'', z_version),
     (''overrides'', Z_optional (Z_array (Z_object True [(''quoteLineId'', z_uuid), (''warehouseId'', z_uuid), (''quantity'', z_positive)]) None None))]"

definition negotiationParamSchema :: schema where
  "negotiationParamSchema = Z_object False [(''id'', z_uuid), (''nid'', z_uuid)]"

definition requestedLineSchema :: schema where
  "requestedLineSchema = Z_object True [(''productId'', Z_optional z_uuid), (''lineId'', Z_optional z_uuid), (''quantity'', Z_optional z_positive),
     (''discountPercent'', Z_optional z_percent), (''action'', Z_optional (Z_enum [''add'', ''remove'', ''update''])),
     (''requestType'', Z_optional (Z_enum [''question'', ''quantity_change'', ''product_change'', ''removal'', ''pricing'', ''discount'', ''general''])),
     (''comment'', Z_optional (z_note 1000)), (''originalQuantity'', Z_optional z_positive), (''originalDiscountPercent'', Z_optional z_percent)]"

definition respondNegotiationBodySchema :: schema where
  "respondNegotiationBodySchema = Z_object True [(''expectedVersion'', z_version), (''decision'', Z_enum [''accepted'', ''rejected'', ''in_review'']),
     (''responseNote'', z_text 1 2000)]"

definition negotiationBodySchema :: schema where
  "negotiationBodySchema = Z_object True [(''expectedVersion'', Z_optional z_version), (''note'', z_text 1 2000),
     (''requestedDiscountPercent'', Z_optional (Z_nullable z_percent)), (''requestedTargetAmount'', Z_optional (Z_nullable z_nonneg)),
     (''requestedLines'', Z_optional (Z_array requestedLineSchema None (Some 50)))]"

definition portalNegotiationBodySchema :: schema where
  "portalNegotiationBodySchema = extend negotiationBodySchema [(''expectedVersion'', z_version)]"

definition managerReviseBodySchema :: schema where
  "managerReviseBodySchema = Z_object True [(''expectedVersion'', z_version),
     (''lines'', Z_optional (Z_array (Z_object True [(''lineId'', z_uuid), (''quantity'', Z_optional z_positive),
       (''discountPercent'', Z_optional z_percent), (''productId'', Z_optional z_uuid)]) None None))]"

section \<open>Catalogue\<close>

definition productFieldsSchema :: schema where
  "productFieldsSchema = Z_object True [(''id'', Z_optional z_uuid), (''sku'', z_text 1 80), (''name'', z_text 1 160), (''category'', z_text 1 80),
     (''listPrice'', z_nonneg), (''cost'', z_nonneg), (''billingType'', Z_enum [''one_time'', ''recurring'']),
     (''billingFrequency'', Z_optional (Z_nullable (Z_enum [''monthly'', ''quarterly'', ''yearly'']))),
     (''description'', Z_optional (Z_nullable (z_note 2000))), (''taxCategory'', Z_optional (Z_nullable (z_note 80))),
     (''taxRatePercent'', Z_optional (Z_nullable z_percent)), (''active'', Z_optional Z_boolean), (''taxable'', Z_optional Z_boolean),
     (''stock'', Z_optional (Z_array (Z_object True [(''warehouseId'', z_uuid), (''quantityOnHand'', z_nonneg), (''incoming'', Z_optional z_nonneg)])
       None (Some 20))),
     (''quantityBreaks'', Z_optional (Z_array (Z_object True [(''id'', Z_optional z_uuid), (''name'', z_text 1 120),
       (''customerTier'', Z_optional (Z_nullable z_tier)), (''minQuantity'', z_positive), (''maxQuantity'', Z_optional (Z_nullable z_positive)),
       (''adjustmentKind'', Z_enum [''fixed'', ''percent'']), (''adjustmentValue'', Z_number []), (''active'', Z_optional Z_boolean)])
       None (Some 20)))]"

definition productBodySchema :: schema where
  "productBodySchema = Z_refine productFieldsSchema Rf_billing_frequency"

definition productPatchBodySchema :: schema where
  "productPatchBodySchema = Z_refine (extend (partial productFieldsSchema) [(''id'', z_uuid)]) Rf_billing_frequency"

definition stockBodySchema :: schema where
  "stockBodySchema = Z_object True [(''warehouseId'', z_uuid), (''productId'', z_uuid), (''quantityOnHand'', z_nonneg),
     (''reserved'', Z_optional z_nonneg), (''incoming'', Z_optional z_nonneg)]"

definition policyBodySchema :: schema where
  "policyBodySchema = Z_object True [(''id'', Z_optional z_uuid), (''name'', z_text 1 160), (''customerTier'', Z_optional (Z_nullable z_tier)),
     (''productCategory'', Z_optional (Z_nullable (z_note 80))), (''warningPercent'', z_percent), (''approvalPercent'', z_percent),
     (''rejectPercent'', z_percent), (''maxMarginImpactPercent'', z_percent), (''priority'', Z_number [Nc_int]),
     (''description'', Z_optional (Z_nullable (z_note 500))), (''active'', Z_optional Z_boolean)]"

definition policyPatchBodySchema :: schema where
  "policyPatchBodySchema = extend policyBodySchema [(''id'', z_uuid)]"

definition chainBodySchema :: schema where
  "chainBodySchema = Z_object True [(''id'', Z_optional z_uuid), (''name'', z_text 1 160), (''minRiskScore'', z_nonneg),
     (''minBlendedDiscountPercent'', z_nonneg), (''priority'', Z_number [Nc_int]), (''active'', Z_optional Z_boolean),
     (''steps'', Z_array (Z_object True [(''id'', Z_optional z_uuid), (''chainId'', Z_optional z_uuid), (''stepOrder'', Z_number [Nc_int, Nc_positive]),
       (''roleKey'', Z_enum [''manager'', ''finance'', ''final'']), (''label'', z_text 1 80)]) (Some 1) (Some 3))]"

definition chainPatchBodySchema :: schema where
  "chainPatchBodySchema = extend chainBodySchema [(''id'', z_uuid)]"

definition customerBodySchema :: schema where
  "customerBodySchema = Z_object True [(''id'', Z_optional z_uuid), (''name'', z_text 1 160), (''email'', Z_string [Sc_trim, Sc_email, Sc_max 200]),
     (''tier'', Z_optional z_tier)]"

definition customerPatchBodySchema :: schema where
  "customerPatchBodySchema = extend customerBodySchema [(''id'', z_uuid)]"

definition warehouseBodySchema :: schema where
  "warehouseBodySchema = Z_object True [(''id'', Z_optional z_uuid), (''name'', z_text 1 160), (''fulfillmentCostPerUnit'', z_nonneg)]"

definition warehousePatchBodySchema :: schema where
  "warehousePatchBodySchema = extend warehouseBodySchema [(''id'', z_uuid)]"

definition stockKeySchema :: schema where
  "stockKeySchema = Z_object False [(''warehouseId'', z_uuid), (''productId'', z_uuid)]"

definition relationBodySchema :: schema where
  "relationBodySchema = Z_object True [(''id'', Z_optional z_uuid), (''productId'', z_uuid), (''recommendedProductId'', z_uuid),
     (''kind'', Z_enum [''upsell'', ''cross_sell'']), (''reason'', z_text 1 500), (''promotion'', Z_optional (Z_nullable (z_note 200))),
     (''minQuantity'', Z_optional z_positive)]"

definition relationPatchBodySchema :: schema where
  "relationPatchBodySchema = extend relationBodySchema [(''id'', z_uuid)]"

end
