(* ===== verification/Dealflow_Decode.thy ===== *)
theory Dealflow_Decode
  imports Dealflow_Reads Dealflow_Schemas "HOL-Library.Monad_Syntax"
begin

text \<open>
  From a parsed request to the arguments of a service call. In the source this is the TypeScript type that a
  schema infers: a handler passes the parsed body on as an argument of the service. Here a decoder reads the
  fields of the body and may fail; \<open>decodes D s P\<close> states that \<open>D\<close> succeeds on every value the schema \<open>s\<close>
  accepts, with a result that satisfies \<open>P\<close>. There is one such fact per schema, derived field by field from the
  rules of \<open>decode_intros\<close>. A field that is \<open>undefined\<close> is a missing field of the object.
\<close>

section \<open>Decoders\<close>

fun d_str :: "json option \<Rightarrow> string option" where
  "d_str (Some (V_str s)) = Some s"
| "d_str _ = None"

fun d_num :: "json option \<Rightarrow> js_number option" where
  "d_num (Some (V_num x)) = Some x"
| "d_num _ = None"

fun d_int :: "json option \<Rightarrow> int option" where
  "d_int (Some (V_num x)) = (if x = of_int \<lfloor>x\<rfloor> then Some \<lfloor>x\<rfloor> else None)"
| "d_int _ = None"

fun d_bool :: "json option \<Rightarrow> bool option" where
  "d_bool (Some (V_bool b)) = Some b"
| "d_bool _ = None"

definition d_enum :: "(string \<times> 'a) list \<Rightarrow> json option \<Rightarrow> 'a option" where
  "d_enum table v = Option.bind (d_str v) (map_of table)"

text \<open>A field that may be missing; one that may be missing or \<open>null\<close>, which the callee treats alike; one where it
  tells them apart.\<close>

definition d_opt :: "(json option \<Rightarrow> 'a option) \<Rightarrow> json option \<Rightarrow> 'a option option" where
  "d_opt D v = (if v = None then Some None else map_option Some (D v))"

definition d_maybe :: "(json option \<Rightarrow> 'a option) \<Rightarrow> json option \<Rightarrow> 'a option option" where
  "d_maybe D v = (if v = None \<or> v = Some V_null then Some None else map_option Some (D v))"

definition d_tri :: "(json option \<Rightarrow> 'a option) \<Rightarrow> json option \<Rightarrow> 'a option option option" where
  "d_tri D v = (if v = None then Some None else if v = Some V_null then Some (Some None) else map_option (\<lambda>x. Some (Some x)) (D v))"

fun d_list :: "(json option \<Rightarrow> 'a option) \<Rightarrow> json option \<Rightarrow> 'a list option" where
  "d_list D (Some (V_arr xs)) = those (map (\<lambda>x. D (Some x)) xs)"
| "d_list D _ = None"

definition get :: "json option \<Rightarrow> string \<Rightarrow> json option" where
  "get b k = Option.bind b (\<lambda>x. fld x k)"

definition field :: "(json option \<Rightarrow> 'a option) \<Rightarrow> string \<Rightarrow> json option \<Rightarrow> 'a option" where
  "field D k b = D (get b k)"

section \<open>Decoding what a schema accepts\<close>

definition ok_with :: "'a option \<Rightarrow> ('a \<Rightarrow> bool) \<Rightarrow> bool" where
  "ok_with r P \<longleftrightarrow> (\<exists>x. r = Some x \<and> P x)"

definition decodes :: "zod \<Rightarrow> (json option \<Rightarrow> 'a option) \<Rightarrow> schema \<Rightarrow> ('a \<Rightarrow> bool) \<Rightarrow> bool" where
  "decodes Z D s P \<longleftrightarrow> (\<forall>v. accepts Z s v \<longrightarrow> ok_with (D v) P)"

named_theorems decode_intros \<open>decoders that succeed on what a schema accepts\<close>

lemma ok_with_Some: "P x \<Longrightarrow> ok_with (Some x) P"
  by (simp add: ok_with_def)

lemma ok_with_bind: "ok_with m P \<Longrightarrow> (\<And>x. P x \<Longrightarrow> ok_with (f x) Q) \<Longrightarrow> ok_with (Option.bind m f) Q"
  by (auto simp: ok_with_def)

lemma decodesD: "decodes Z D s P \<Longrightarrow> accepts Z s v \<Longrightarrow> ok_with (D v) P"
  by (simp add: decodes_def)

lemma decodes_mono: "decodes Z D s P \<Longrightarrow> (\<And>x. P x \<Longrightarrow> Q x) \<Longrightarrow> decodes Z D s Q"
  unfolding decodes_def ok_with_def by blast

lemma decodes_str [decode_intros]: "decodes Z d_str (Z_string cs) (\<lambda>s. list_all (string_ok Z s) cs)"
  by (auto simp: decodes_def ok_with_def split: option.splits json.splits)

lemma decodes_num [decode_intros]: "decodes Z d_num (Z_number cs) (\<lambda>x. list_all (number_ok x) cs)"
  by (auto simp: decodes_def ok_with_def split: option.splits json.splits)

lemma decodes_int [decode_intros]: "decodes Z d_int (Z_number (Nc_int # cs)) (\<lambda>i. list_all (number_ok (of_int i)) cs)"
  by (auto simp: decodes_def ok_with_def split: option.splits json.splits)

lemma decodes_bool [decode_intros]: "decodes Z d_bool Z_boolean (\<lambda>_. True)"
  by (auto simp: decodes_def ok_with_def split: option.splits json.splits)

lemma map_of_in: "k \<in> set (map fst table) \<Longrightarrow> \<exists>x. map_of table k = Some x \<and> x \<in> snd ` set table"
  by (induction table) auto

lemma decodes_enum [decode_intros]:
  assumes "xs = map fst table"
  shows "decodes Z (d_enum table) (Z_enum xs) (\<lambda>x. x \<in> snd ` set table)"
proof -
  have "ok_with (d_enum table v) (\<lambda>x. x \<in> snd ` set table)" if acc: "accepts Z (Z_enum xs) v" for v
  proof -
    obtain k where "v = Some (V_str k)" "k \<in> set (map fst table)" using acc assms by (auto split: option.splits json.splits)
    moreover obtain x where "map_of table k = Some x" "x \<in> snd ` set table" using map_of_in calculation(2) by metis
    ultimately show ?thesis by (auto simp: ok_with_def d_enum_def)
  qed
  then show ?thesis by (simp add: decodes_def)
qed

lemma decodes_opt [decode_intros]: "decodes Z D s P \<Longrightarrow> decodes Z (d_opt D) (Z_optional s) (pred_option P)"
  by (auto simp: decodes_def ok_with_def d_opt_def)

lemma decodes_maybe [decode_intros]:
  "decodes Z D s P \<Longrightarrow> decodes Z (d_maybe D) (Z_optional (Z_nullable s)) (pred_option P)"
  by (auto simp: decodes_def ok_with_def d_maybe_def)

lemma decodes_tri [decode_intros]:
  "decodes Z D s P \<Longrightarrow> decodes Z (d_tri D) (Z_optional (Z_nullable s)) (pred_option (pred_option P))"
  by (auto simp: decodes_def ok_with_def d_tri_def)

lemma those_total: "list_all (\<lambda>x. ok_with (f x) P) xs \<Longrightarrow> \<exists>ys. those (map f xs) = Some ys \<and> length ys = length xs \<and> list_all P ys"
  by (induction xs) (auto simp: ok_with_def)

lemma decodes_list [decode_intros]:
  assumes "decodes Z D s P"
  shows "decodes Z (d_list D) (Z_array s mn mx) (\<lambda>ys. list_all P ys \<and> pred_option (\<lambda>n. n \<le> length ys) mn)"
proof -
  have "ok_with (d_list D v) (\<lambda>ys. list_all P ys \<and> pred_option (\<lambda>n. n \<le> length ys) mn)" if acc: "accepts Z (Z_array s mn mx) v" for v
  proof -
    obtain vs where v: "v = Some (V_arr vs)" and vs: "list_all (\<lambda>x. accepts Z s (Some x)) vs" and n: "pred_option (\<lambda>n. n \<le> length vs) mn"
      using acc by (cases v) (auto split: json.splits option.splits)
    have "list_all (\<lambda>x. ok_with (D (Some x)) P) vs" using vs assms by (auto simp: decodes_def list_all_iff)
    then show ?thesis using those_total [of "\<lambda>x. D (Some x)" P vs] n v by (auto simp: ok_with_def)
  qed
  then show ?thesis by (simp add: decodes_def)
qed

text \<open>An object gives the facts of its fields.\<close>

lemma accepts_field: "accepts Z (Z_object strict fs) v \<Longrightarrow> (k, s) \<in> set fs \<Longrightarrow> accepts Z s (get v k)"
  by (auto simp: get_def fld_def list_all_iff split: option.splits json.splits)

lemma decodes_object:
  assumes "\<And>v. list_all (\<lambda>(k, s). accepts Z s (get v k)) fs \<Longrightarrow> ok_with (D v) P"
  shows "decodes Z D (Z_object strict fs) P"
proof -
  have "list_all (\<lambda>(k, s). accepts Z s (get v k)) fs" if "accepts Z (Z_object strict fs) v" for v
    using accepts_field [OF that] by (auto simp: list_all_iff)
  then show ?thesis using assms by (simp add: decodes_def)
qed

lemma ok_field:
  "accepts Z s (get v k) \<Longrightarrow> decodes Z D s P \<Longrightarrow> (\<And>x. P x \<Longrightarrow> ok_with (f x) Q) \<Longrightarrow> ok_with (Option.bind (D (get v k)) f) Q"
  by (rule ok_with_bind [OF decodesD])

lemma decodes_field: "(k, s) \<in> set fs \<Longrightarrow> decodes Z D s P \<Longrightarrow> decodes Z (field D k) (Z_object strict fs) P"
  unfolding decodes_def field_def by (blast intro: accepts_field)

lemma decodes_refine: "decodes Z D s P \<Longrightarrow> decodes Z D (Z_refine s r) P"
  by (simp add: decodes_def)

section \<open>Quotations\<close>

definition tier_names :: "(string \<times> customer_tier) list" where
  "tier_names = [(''standard'', T_standard), (''silver'', T_silver), (''gold'', T_gold), (''strategic'', T_strategic), (''platinum'', T_platinum)]"

definition d_version :: "json option \<Rightarrow> int option" where
  "d_version = field d_int ''expectedVersion''"

definition d_line_input :: "json option \<Rightarrow> line_input option" where
  "d_line_input b = do {
     p \<leftarrow> d_str (get b ''productId'');
     q \<leftarrow> d_num (get b ''quantity'');
     d \<leftarrow> d_num (get b ''discountPercent'');
     Some \<lparr>li_productId = p, li_quantity = q, li_discountPercent = d\<rparr> }"

definition d_create_input :: "json option \<Rightarrow> create_input option" where
  "d_create_input b = do {
     c \<leftarrow> d_str (get b ''customerId'');
     ls \<leftarrow> d_opt (d_list d_line_input) (get b ''lines'');
     Some \<lparr>cr_customerId = c, cr_ownerId = None, cr_lines = or_else ls []\<rparr> }"

definition d_line_patch :: "json option \<Rightarrow> line_patch option" where
  "d_line_patch b = do {
     p \<leftarrow> d_opt d_str (get b ''productId'');
     q \<leftarrow> d_opt d_num (get b ''quantity'');
     d \<leftarrow> d_opt d_num (get b ''discountPercent'');
     u \<leftarrow> d_opt d_num (get b ''unitPrice'');
     Some \<lparr>lp_productId = p, lp_quantity = q, lp_discountPercent = d, lp_unitPrice = u\<rparr> }"

definition d_decision :: "json option \<Rightarrow> approval_decision option" where
  "d_decision = field (d_enum [(''approved'', Approve), (''rejected'', Reject)]) ''decision''"

definition d_line_change :: "json option \<Rightarrow> line_change option" where
  "d_line_change b = do {
     l \<leftarrow> d_str (get b ''lineId'');
     q \<leftarrow> d_opt d_num (get b ''quantity'');
     d \<leftarrow> d_opt d_num (get b ''discountPercent'');
     p \<leftarrow> d_opt d_str (get b ''productId'');
     Some \<lparr>lc_lineId = l, lc_quantity = q, lc_discountPercent = d, lc_productId = p\<rparr> }"

text \<open>The lines of a portal change have no product.\<close>

definition d_portal_change :: "json option \<Rightarrow> line_change option" where
  "d_portal_change b = do {
     l \<leftarrow> d_str (get b ''lineId'');
     q \<leftarrow> d_opt d_num (get b ''quantity'');
     d \<leftarrow> d_opt d_num (get b ''discountPercent'');
     Some \<lparr>lc_lineId = l, lc_quantity = q, lc_discountPercent = d, lc_productId = None\<rparr> }"

definition d_requested_line :: "json option \<Rightarrow> negotiation_requested_line option" where
  "d_requested_line b = do {
     p \<leftarrow> d_opt d_str (get b ''productId'');
     l \<leftarrow> d_opt d_str (get b ''lineId'');
     q \<leftarrow> d_opt d_num (get b ''quantity'');
     d \<leftarrow> d_opt d_num (get b ''discountPercent'');
     a \<leftarrow> d_opt (d_enum [(''add'', LA_add), (''remove'', LA_remove), (''update'', LA_update)]) (get b ''action'');
     t \<leftarrow> d_opt (d_enum (map (\<lambda>s. (s, s)) [''question'', ''quantity_change'', ''product_change'', ''removal'', ''pricing'', ''discount'', ''general'']))
       (get b ''requestType'');
     c \<leftarrow> d_opt d_str (get b ''comment'');
     oq \<leftarrow> d_opt d_num (get b ''originalQuantity'');
     od \<leftarrow> d_opt d_num (get b ''originalDiscountPercent'');
     Some \<lparr>nl_productId = p, nl_lineId = l, nl_quantity = q, nl_discountPercent = d, nl_action = a, nl_requestType = t,
       nl_comment = c, nl_originalQuantity = oq, nl_originalDiscountPercent = od\<rparr> }"

definition d_negotiation :: "json option \<Rightarrow> negotiation_input option" where
  "d_negotiation b = do {
     v \<leftarrow> d_opt d_int (get b ''expectedVersion'');
     n \<leftarrow> d_str (get b ''note'');
     d \<leftarrow> d_maybe d_num (get b ''requestedDiscountPercent'');
     t \<leftarrow> d_maybe d_num (get b ''requestedTargetAmount'');
     ls \<leftarrow> d_opt (d_list d_requested_line) (get b ''requestedLines'');
     Some \<lparr>ni_expectedVersion = v, ni_note = n, ni_requestedDiscountPercent = d, ni_requestedTargetAmount = t,
       ni_requestedLines = or_else ls [], ni_actorId = None, ni_actorRole = None\<rparr> }"

definition d_response :: "json option \<Rightarrow> response option" where
  "d_response = field (d_enum [(''accepted'', Resp_accepted), (''rejected'', Resp_rejected), (''in_review'', Resp_in_review)]) ''decision''"

definition d_override :: "json option \<Rightarrow> plan_override option" where
  "d_override b = do {
     l \<leftarrow> d_str (get b ''quoteLineId'');
     w \<leftarrow> d_str (get b ''warehouseId'');
     q \<leftarrow> d_num (get b ''quantity'');
     Some \<lparr>ov_quoteLineId = l, ov_warehouseId = w, ov_quantity = q\<rparr> }"

definition d_customer_decision :: "json option \<Rightarrow> customer_decision option" where
  "d_customer_decision = field (d_enum [(''accepted'', C_accepted), (''declined'', C_declined)]) ''action''"

definition d_anomaly_status :: "json option \<Rightarrow> anomaly_status option" where
  "d_anomaly_status =
     field (d_enum [(''open'', AN_open), (''acknowledged'', AN_acknowledged), (''resolved'', AN_resolved), (''dismissed'', AN_dismissed)]) ''status''"

subsection \<open>What the schemas guarantee\<close>

definition percent :: "js_number \<Rightarrow> bool" where
  "percent x \<longleftrightarrow> 0 \<le> x \<and> x \<le> 100"

definition line_input_ok :: "line_input \<Rightarrow> bool" where
  "line_input_ok x \<longleftrightarrow> 0 < li_quantity x \<and> percent (li_discountPercent x)"

definition line_patch_ok :: "line_patch \<Rightarrow> bool" where
  "line_patch_ok x \<longleftrightarrow> pred_option (\<lambda>q. 0 < q) (lp_quantity x) \<and> pred_option percent (lp_discountPercent x) \<and>
     pred_option (\<lambda>u. 0 \<le> u) (lp_unitPrice x)"

definition line_change_ok :: "line_change \<Rightarrow> bool" where
  "line_change_ok x \<longleftrightarrow> pred_option (\<lambda>q. 0 < q) (lc_quantity x) \<and> pred_option percent (lc_discountPercent x)"

definition requested_line_ok :: "negotiation_requested_line \<Rightarrow> bool" where
  "requested_line_ok x \<longleftrightarrow> pred_option (\<lambda>q. 0 < q) (nl_quantity x) \<and> pred_option percent (nl_discountPercent x)"

definition negotiation_ok :: "negotiation_input \<Rightarrow> bool" where
  "negotiation_ok x \<longleftrightarrow> pred_option (\<lambda>v. 0 < v) (ni_expectedVersion x) \<and> ni_note x \<noteq> [] \<and> js_trim (ni_note x) = ni_note x \<and>
     pred_option percent (ni_requestedDiscountPercent x) \<and> pred_option (\<lambda>t. 0 \<le> t) (ni_requestedTargetAmount x) \<and>
     list_all requested_line_ok (ni_requestedLines x)"

lemmas scalar_schemas = z_uuid_def z_version_def z_positive_def z_percent_def z_nonneg_def z_text_def z_note_def z_tier_def

lemma decodes_version [decode_intros]: "decodes Z d_int z_version (\<lambda>v. 0 < v)"
  unfolding z_version_def by (rule decodes_mono [OF decodes_int]) simp

lemma decodes_scalar [decode_intros]:
  "decodes Z d_str z_uuid (zd_uuid Z)" "decodes Z d_num z_positive (\<lambda>x. 0 < x)" "decodes Z d_num z_percent percent"
  "decodes Z d_num z_nonneg (\<lambda>x. 0 \<le> x)" "decodes Z d_str (z_text mn mx) (\<lambda>s. js_trim s = s \<and> mn \<le> length s \<and> length s \<le> mx)"
  "decodes Z d_str (z_note mx) (\<lambda>s. js_trim s = s \<and> length s \<le> mx)"
  unfolding scalar_schemas by (rule decodes_mono [OF decodes_str] decodes_mono [OF decodes_num], simp add: percent_def)+

lemma decodes_tier [decode_intros]: "decodes Z (d_enum tier_names) z_tier (\<lambda>_. True)"
  unfolding z_tier_def by (rule decodes_mono [OF decodes_enum]) (simp_all add: tier_names_def)

text \<open>One fact per schema.\<close>

lemmas object_facts = list.pred_inject prod.case
lemmas table_facts = list.map fst_conv

lemmas line_decoders = d_line_input_def d_line_patch_def d_line_change_def d_portal_change_def d_requested_line_def d_override_def
lemmas quote_decoders = d_create_input_def d_negotiation_def

lemmas quote_inputs_ok = line_input_ok_def line_patch_ok_def line_change_ok_def requested_line_ok_def negotiation_ok_def

lemma extended_schemas:
  "addLineBodySchema = Z_object True [(''productId'', z_uuid), (''quantity'', z_positive), (''discountPercent'', z_percent), (''expectedVersion'', z_version)]"
  "portalNegotiationBodySchema = Z_object True [(''note'', z_text 1 2000),
     (''requestedDiscountPercent'', Z_optional (Z_nullable z_percent)), (''requestedTargetAmount'', Z_optional (Z_nullable z_nonneg)),
     (''requestedLines'', Z_optional (Z_array requestedLineSchema None (Some 50))), (''expectedVersion'', z_version)]"
  by (simp_all add: addLineBodySchema_def lineInputSchema_def portalNegotiationBodySchema_def negotiationBodySchema_def extend_fields_def)

lemma decodes_line_bodies [decode_intros]:
  "decodes Z d_line_input lineInputSchema line_input_ok"
  "decodes Z d_line_input addLineBodySchema line_input_ok"
  "decodes Z d_line_patch patchLineBodySchema line_patch_ok"
  "decodes Z d_requested_line requestedLineSchema requested_line_ok"
  unfolding lineInputSchema_def extended_schemas patchLineBodySchema_def requestedLineSchema_def
  by ((rule decodes_refine)?, rule decodes_object, unfold line_decoders object_facts, elim conjE,
      (rule ok_field, assumption, (rule decode_intros | (simp only: table_facts; fail))+)+,
      rule ok_with_Some, simp add: quote_inputs_ok)+

lemma decodes_required [decode_intros]: "decodes Z (d_opt d_int) z_version (\<lambda>v. v \<noteq> None \<and> pred_option (\<lambda>v. 0 < v) v)"
proof -
  have "ok_with (d_opt d_int v) (\<lambda>v. v \<noteq> None \<and> pred_option (\<lambda>v. 0 < v) v)" if a: "accepts Z z_version v" for v
    using decodesD [OF decodes_version a] a by (auto simp: ok_with_def d_opt_def z_version_def split: option.splits)
  then show ?thesis by (simp add: decodes_def)
qed

lemma decodes_quote_bodies [decode_intros]:
  "decodes Z d_create_input createQuoteBodySchema (\<lambda>x. list_all line_input_ok (cr_lines x))"
  "decodes Z d_negotiation negotiationBodySchema negotiation_ok"
  "decodes Z d_negotiation portalNegotiationBodySchema (\<lambda>x. negotiation_ok x \<and> ni_expectedVersion x \<noteq> None)"
  unfolding createQuoteBodySchema_def negotiationBodySchema_def extended_schemas(2)
  by (rule decodes_object, unfold quote_decoders object_facts, elim conjE,
      (rule ok_field, assumption, (rule decode_intros | (simp only: table_facts; fail))+)+,
      rule ok_with_Some, auto simp: quote_inputs_ok or_else_def split: option.split)+

text \<open>The other fields the handlers read.\<close>

lemma decodes_fields [decode_intros]:
  "decodes Z d_version expectedVersionSchema (\<lambda>v. 0 < v)" "decodes Z d_version addLineBodySchema (\<lambda>v. 0 < v)"
  "decodes Z d_version patchLineBodySchema (\<lambda>v. 0 < v)" "decodes Z d_version respondNegotiationBodySchema (\<lambda>v. 0 < v)"
  "decodes Z d_version managerReviseBodySchema (\<lambda>v. 0 < v)" "decodes Z d_version portalChangeBodySchema (\<lambda>v. 0 < v)"
  "decodes Z d_version applyRecommendationBodySchema (\<lambda>v. 0 < v)" "decodes Z d_version portalDecisionBodySchema (\<lambda>v. 0 < v)"
  "decodes Z d_version fulfillmentPlanBodySchema (\<lambda>v. 0 < v)"
  unfolding expectedVersionSchema_def extended_schemas patchLineBodySchema_def respondNegotiationBodySchema_def
    managerReviseBodySchema_def portalChangeBodySchema_def applyRecommendationBodySchema_def portalDecisionBodySchema_def
    fulfillmentPlanBodySchema_def d_version_def
  by ((rule decodes_refine)?, rule decodes_field [OF _ decodes_version], simp)+

lemma decodes_choices [decode_intros]:
  "decodes Z d_decision decideBodySchema (\<lambda>_. True)" "decodes Z d_response respondNegotiationBodySchema (\<lambda>_. True)"
  "decodes Z d_customer_decision portalDecisionBodySchema (\<lambda>d. d \<noteq> C_none)" "decodes Z d_anomaly_status anomalyDispositionBodySchema (\<lambda>_. True)"
  unfolding decideBodySchema_def respondNegotiationBodySchema_def portalDecisionBodySchema_def anomalyDispositionBodySchema_def
    d_decision_def d_response_def d_customer_decision_def d_anomaly_status_def
  by (rule decodes_field, simp, rule decodes_mono [OF decodes_enum], simp, auto)+

lemma decodes_lines [decode_intros]:
  "decodes Z d_line_change (Z_object True [(''lineId'', z_uuid), (''quantity'', Z_optional z_positive),
     (''discountPercent'', Z_optional z_percent), (''productId'', Z_optional z_uuid)]) line_change_ok"
  "decodes Z d_portal_change (Z_object True [(''lineId'', z_uuid), (''quantity'', Z_optional z_positive),
     (''discountPercent'', Z_optional z_percent)]) line_change_ok"
  "decodes Z d_override (Z_object True [(''quoteLineId'', z_uuid), (''warehouseId'', z_uuid), (''quantity'', z_positive)])
     (\<lambda>x. 0 < ov_quantity x)"
  by (rule decodes_object, unfold line_decoders object_facts, elim conjE,
      (rule ok_field, assumption, (rule decode_intros | (simp only: table_facts; fail))+)+,
      rule ok_with_Some, simp add: quote_inputs_ok)+

lemma decodes_texts [decode_intros]:
  "decodes Z (field d_str ''reason'') decideBodySchema (\<lambda>s. js_trim s = s \<and> 1 \<le> length s \<and> length s \<le> 500)"
  "decodes Z (field d_str ''responseNote'') respondNegotiationBodySchema (\<lambda>s. js_trim s = s \<and> 1 \<le> length s \<and> length s \<le> 2000)"
  "decodes Z (field (d_list d_portal_change) ''lines'') portalChangeBodySchema
     (\<lambda>ys. list_all line_change_ok ys \<and> pred_option (\<lambda>n. n \<le> length ys) (Some 1))"
  "decodes Z (field (d_opt (d_list d_line_change)) ''lines'') managerReviseBodySchema
     (pred_option (\<lambda>ys. list_all line_change_ok ys \<and> pred_option (\<lambda>n. n \<le> length ys) None))"
  "decodes Z (field (d_opt (d_list d_override)) ''overrides'') fulfillmentPlanBodySchema
     (pred_option (\<lambda>ys. list_all (\<lambda>x. 0 < ov_quantity x) ys \<and> pred_option (\<lambda>n. n \<le> length ys) None))"
  "decodes Z (field (d_opt d_str) ''comment'') portalDecisionBodySchema (pred_option (\<lambda>s. js_trim s = s \<and> length s \<le> 500))"
  "decodes Z (field (d_opt d_str) ''resolution'') anomalyDispositionBodySchema (pred_option (\<lambda>s. js_trim s = s \<and> length s \<le> 500))"
  unfolding decideBodySchema_def respondNegotiationBodySchema_def portalChangeBodySchema_def managerReviseBodySchema_def
    fulfillmentPlanBodySchema_def portalDecisionBodySchema_def anomalyDispositionBodySchema_def
  by (rule decodes_field, (rule list.set_intros)+, (rule decode_intros)+)+

lemma decodes_relation_id [decode_intros]: "decodes Z (field d_str ''relationId'') applyRecommendationBodySchema (\<lambda>s. s \<noteq> [])"
  unfolding applyRecommendationBodySchema_def by (rule decodes_field [OF _ decodes_mono [OF decodes_str]]) auto

section \<open>The catalogue\<close>

lemma decodes_opt_weak: "decodes Z D s P \<Longrightarrow> decodes Z (d_opt D) s (pred_option P)"
  by (auto simp: decodes_def ok_with_def d_opt_def)

lemma decodes_partial:
  "decodes Z (d_opt D) s (pred_option P) \<Longrightarrow> decodes Z (d_opt D) (Z_optional s) (pred_option P)"
  "decodes Z (d_maybe D) s (pred_option P) \<Longrightarrow> decodes Z (d_maybe D) (Z_optional s) (pred_option P)"
  "decodes Z (d_tri D) s (pred_option Q) \<Longrightarrow> decodes Z (d_tri D) (Z_optional s) (pred_option Q)"
  by (auto simp: decodes_def ok_with_def d_opt_def d_maybe_def d_tri_def)

definition kind_names :: "(string \<times> quantity_adjustment_kind) list" where
  "kind_names = [(''fixed'', AK_fixed), (''percent'', AK_percent)]"

lemma decodes_kind [decode_intros]: "decodes Z (d_enum kind_names) (Z_enum [''fixed'', ''percent'']) (\<lambda>_. True)"
  by (rule decodes_mono [OF decodes_enum]) (simp_all add: kind_names_def)

text \<open>An item whose identifier may be missing is decoded with an empty one; the handler draws it.\<close>

definition d_quantity_break :: "json option \<Rightarrow> (string option \<times> quantity_break) option" where
  "d_quantity_break b = do {
     i \<leftarrow> d_opt d_str (get b ''id'');
     n \<leftarrow> d_str (get b ''name'');
     p \<leftarrow> d_str (get b ''productId'');
     t \<leftarrow> d_maybe (d_enum tier_names) (get b ''customerTier'');
     mn \<leftarrow> d_num (get b ''minQuantity'');
     mx \<leftarrow> d_maybe d_num (get b ''maxQuantity'');
     k \<leftarrow> d_enum kind_names (get b ''adjustmentKind'');
     v \<leftarrow> d_num (get b ''adjustmentValue'');
     a \<leftarrow> d_opt d_bool (get b ''active'');
     Some (i, \<lparr>qb_id = '''', qb_name = n, qb_productId = p, qb_customerTier = t, qb_minQuantity = mn, qb_maxQuantity = mx,
       qb_adjustmentKind = k, qb_adjustmentValue = v, qb_active = a\<rparr>) }"

definition d_role_authority :: "json option \<Rightarrow> role_authority option" where
  "d_role_authority b = do {
     k \<leftarrow> d_str (get b ''roleKey'');
     d \<leftarrow> d_num (get b ''maxDiscountPercent'');
     m \<leftarrow> d_num (get b ''minMarginPercent'');
     o' \<leftarrow> d_num (get b ''maxPriceOverridePercent'');
     n \<leftarrow> d_bool (get b ''canNegotiate'');
     x \<leftarrow> d_enum [(''allow'', X_allow), (''approval'', X_approval), (''block'', X_block)] (get b ''exceedAction'');
     Some \<lparr>ra_roleKey = k, ra_maxDiscountPercent = d, ra_minMarginPercent = m, ra_maxPriceOverridePercent = o',
       ra_canNegotiate = n, ra_exceedAction = x\<rparr> }"

definition set_num :: "string \<Rightarrow> ((js_number \<Rightarrow> js_number) \<Rightarrow> governance_config \<Rightarrow> governance_config) \<Rightarrow> json option \<Rightarrow>
    (governance_config \<Rightarrow> governance_config) option" where
  "set_num k upd b = map_option (\<lambda>v. case v of None \<Rightarrow> id | Some x \<Rightarrow> upd (\<lambda>_. x)) (d_opt d_num (get b k))"

definition governance_numbers :: "(string \<times> ((js_number \<Rightarrow> js_number) \<Rightarrow> governance_config \<Rightarrow> governance_config)) list" where
  "governance_numbers = [
     (''cumulativeWarningLimit'', gc_cumulativeWarningLimit_update), (''materialDiscountDeltaPp'', gc_materialDiscountDeltaPp_update),
     (''materialTotalDeltaRatio'', gc_materialTotalDeltaRatio_update), (''highValueNetTotal'', gc_highValueNetTotal_update),
     (''maxApprovalLevels'', gc_maxApprovalLevels_update), (''taxRatePercent'', gc_taxRatePercent_update),
     (''staleQuoteDays'', gc_staleQuoteDays_update), (''unusualDiscountPercent'', gc_unusualDiscountPercent_update),
     (''largeDealNetTotal'', gc_largeDealNetTotal_update), (''maxCommercialDiscountPercent'', gc_maxCommercialDiscountPercent_update)]"

text \<open>\<open>{ ...previous, ...input }\<close>: the given fields replace the previous ones.\<close>

definition d_governance :: "json option \<Rightarrow> (governance_config \<Rightarrow> governance_config) option" where
  "d_governance b = do {
     fs \<leftarrow> those (map (\<lambda>(k, upd). set_num k upd b) governance_numbers);
     a \<leftarrow> d_opt d_bool (get b ''allowLoyaltyStacking'');
     Some ((case a of None \<Rightarrow> id | Some x \<Rightarrow> gc_allowLoyaltyStacking_update (\<lambda>_. x)) \<circ> foldr (\<circ>) fs id) }"

definition d_stock_input :: "json option \<Rightarrow> stock_input option" where
  "d_stock_input b = do {
     w \<leftarrow> d_str (get b ''warehouseId'');
     q \<leftarrow> d_num (get b ''quantityOnHand'');
     i \<leftarrow> d_opt d_num (get b ''incoming'');
     Some \<lparr>si_warehouseId = w, si_quantityOnHand = q, si_incoming = i\<rparr> }"

definition d_break_input :: "json option \<Rightarrow> break_input option" where
  "d_break_input b = do {
     i \<leftarrow> d_opt d_str (get b ''id'');
     n \<leftarrow> d_str (get b ''name'');
     t \<leftarrow> d_maybe (d_enum tier_names) (get b ''customerTier'');
     mn \<leftarrow> d_num (get b ''minQuantity'');
     mx \<leftarrow> d_maybe d_num (get b ''maxQuantity'');
     k \<leftarrow> d_enum kind_names (get b ''adjustmentKind'');
     v \<leftarrow> d_num (get b ''adjustmentValue'');
     a \<leftarrow> d_opt d_bool (get b ''active'');
     Some \<lparr>bi_id = i, bi_name = n, bi_customerTier = t, bi_minQuantity = mn, bi_maxQuantity = mx, bi_adjustmentKind = k,
       bi_adjustmentValue = v, bi_active = a\<rparr> }"

definition d_product :: "json option \<Rightarrow> product_input option" where
  "d_product b = do {
     i \<leftarrow> d_opt d_str (get b ''id'');
     s \<leftarrow> d_opt d_str (get b ''sku'');
     n \<leftarrow> d_opt d_str (get b ''name'');
     c \<leftarrow> d_opt d_str (get b ''category'');
     l \<leftarrow> d_opt d_num (get b ''listPrice'');
     co \<leftarrow> d_opt d_num (get b ''cost'');
     bt \<leftarrow> d_opt (d_enum [(''one_time'', One_time), (''recurring'', Recurring)]) (get b ''billingType'');
     bf \<leftarrow> d_maybe (d_enum [(''monthly'', Monthly), (''quarterly'', Quarterly), (''yearly'', Yearly)]) (get b ''billingFrequency'');
     de \<leftarrow> d_tri d_str (get b ''description'');
     tc \<leftarrow> d_tri d_str (get b ''taxCategory'');
     tr \<leftarrow> d_tri d_num (get b ''taxRatePercent'');
     a \<leftarrow> d_opt d_bool (get b ''active'');
     tx \<leftarrow> d_opt d_bool (get b ''taxable'');
     st \<leftarrow> d_opt (d_list d_stock_input) (get b ''stock'');
     qb \<leftarrow> d_opt (d_list d_break_input) (get b ''quantityBreaks'');
     Some \<lparr>in_id = i, in_sku = s, in_name = n, in_category = c, in_listPrice = l, in_cost = co, in_billingType = bt,
       in_billingFrequency = bf, in_description = de, in_taxCategory = tc, in_taxRatePercent = tr, in_active = a, in_taxable = tx,
       in_stock = st, in_quantityBreaks = qb\<rparr> }"

definition d_stock_level :: "json option \<Rightarrow> stock_level option" where
  "d_stock_level b = do {
     w \<leftarrow> d_str (get b ''warehouseId'');
     p \<leftarrow> d_str (get b ''productId'');
     q \<leftarrow> d_num (get b ''quantityOnHand'');
     r \<leftarrow> d_opt d_num (get b ''reserved'');
     i \<leftarrow> d_opt d_num (get b ''incoming'');
     Some \<lparr>st_warehouseId = w, st_productId = p, st_quantityOnHand = q, st_reserved = or_else r 0, st_incoming = Some (or_else i 0)\<rparr> }"

definition d_policy :: "json option \<Rightarrow> (string option \<times> discount_policy) option" where
  "d_policy b = do {
     i \<leftarrow> d_opt d_str (get b ''id'');
     n \<leftarrow> d_str (get b ''name'');
     t \<leftarrow> d_maybe (d_enum tier_names) (get b ''customerTier'');
     c \<leftarrow> d_maybe d_str (get b ''productCategory'');
     w \<leftarrow> d_num (get b ''warningPercent'');
     a \<leftarrow> d_num (get b ''approvalPercent'');
     r \<leftarrow> d_num (get b ''rejectPercent'');
     m \<leftarrow> d_num (get b ''maxMarginImpactPercent'');
     pr \<leftarrow> d_num (get b ''priority'');
     de \<leftarrow> d_maybe d_str (get b ''description'');
     ac \<leftarrow> d_opt d_bool (get b ''active'');
     Some (i, \<lparr>po_id = '''', po_name = n, po_customerTier = t, po_productCategory = c, po_warningPercent = w, po_approvalPercent = a,
       po_rejectPercent = r, po_maxMarginImpactPercent = m, po_priority = pr, po_description = de, po_active = ac\<rparr>) }"

definition d_chain_step :: "json option \<Rightarrow> (string option \<times> string option \<times> approval_chain_step) option" where
  "d_chain_step b = do {
     i \<leftarrow> d_opt d_str (get b ''id'');
     c \<leftarrow> d_opt d_str (get b ''chainId'');
     o' \<leftarrow> d_int (get b ''stepOrder'');
     k \<leftarrow> d_enum [(''manager'', R_manager), (''finance'', R_finance), (''final'', R_final)] (get b ''roleKey'');
     l \<leftarrow> d_str (get b ''label'');
     Some (i, c, \<lparr>cs_id = '''', cs_chainId = '''', cs_stepOrder = o', cs_roleKey = k, cs_label = l\<rparr>) }"

definition d_chain :: "json option \<Rightarrow> (string option \<times> approval_chain \<times> (string option \<times> string option \<times> approval_chain_step) list) option" where
  "d_chain b = do {
     i \<leftarrow> d_opt d_str (get b ''id'');
     n \<leftarrow> d_str (get b ''name'');
     r \<leftarrow> d_num (get b ''minRiskScore'');
     d \<leftarrow> d_num (get b ''minBlendedDiscountPercent'');
     p \<leftarrow> d_num (get b ''priority'');
     a \<leftarrow> d_opt d_bool (get b ''active'');
     ss \<leftarrow> d_list d_chain_step (get b ''steps'');
     Some (i, \<lparr>ch_id = '''', ch_name = n, ch_minRiskScore = r, ch_minBlendedDiscountPercent = d, ch_priority = p, ch_active = a,
       ch_steps = []\<rparr>, ss) }"

definition d_customer :: "json option \<Rightarrow> customer_input option" where
  "d_customer b = do {
     i \<leftarrow> d_opt d_str (get b ''id'');
     n \<leftarrow> d_str (get b ''name'');
     e \<leftarrow> d_str (get b ''email'');
     t \<leftarrow> d_opt (d_enum tier_names) (get b ''tier'');
     Some \<lparr>ci_id = i, ci_name = n, ci_email = e, ci_tier = t\<rparr> }"

definition d_warehouse :: "json option \<Rightarrow> (string option \<times> string \<times> js_number) option" where
  "d_warehouse b = do {
     i \<leftarrow> d_opt d_str (get b ''id'');
     n \<leftarrow> d_str (get b ''name'');
     c \<leftarrow> d_num (get b ''fulfillmentCostPerUnit'');
     Some (i, n, c) }"

definition d_relation :: "json option \<Rightarrow> (string option \<times> product_relation) option" where
  "d_relation b = do {
     i \<leftarrow> d_opt d_str (get b ''id'');
     p \<leftarrow> d_str (get b ''productId'');
     r \<leftarrow> d_str (get b ''recommendedProductId'');
     k \<leftarrow> d_enum [(''upsell'', Upsell), (''cross_sell'', Cross_sell)] (get b ''kind'');
     re \<leftarrow> d_str (get b ''reason'');
     pm \<leftarrow> d_maybe d_str (get b ''promotion'');
     q \<leftarrow> d_opt d_num (get b ''minQuantity'');
     Some (i, \<lparr>rel_id = '''', rel_productId = p, rel_recommendedProductId = r, rel_kind = k, rel_reason = re, rel_promotion = pm,
       rel_minQuantity = or_else q 1\<rparr>) }"

lemmas item_decoders = d_quantity_break_def d_role_authority_def d_stock_input_def d_break_input_def d_stock_level_def d_chain_step_def
  d_customer_def d_warehouse_def d_relation_def

definition break_input_ok :: "break_input \<Rightarrow> bool" where
  "break_input_ok x \<longleftrightarrow> 0 < bi_minQuantity x \<and> pred_option (\<lambda>m. 0 < m) (bi_maxQuantity x)"

definition product_input_ok :: "product_input \<Rightarrow> bool" where
  "product_input_ok x \<longleftrightarrow> pred_option (\<lambda>p. 0 \<le> p) (in_listPrice x) \<and> pred_option (\<lambda>c. 0 \<le> c) (in_cost x) \<and>
     pred_option (pred_option percent) (in_taxRatePercent x) \<and>
     pred_option (list_all (\<lambda>s. 0 \<le> si_quantityOnHand s \<and> pred_option (\<lambda>i. 0 \<le> i) (si_incoming s))) (in_stock x) \<and>
     pred_option (list_all break_input_ok) (in_quantityBreaks x)"

definition policy_ok :: "discount_policy \<Rightarrow> bool" where
  "policy_ok x \<longleftrightarrow> percent (po_warningPercent x) \<and> percent (po_approvalPercent x) \<and> percent (po_rejectPercent x) \<and>
     percent (po_maxMarginImpactPercent x)"

definition authority_ok :: "role_authority \<Rightarrow> bool" where
  "authority_ok x \<longleftrightarrow> percent (ra_maxDiscountPercent x) \<and> percent (ra_minMarginPercent x) \<and> percent (ra_maxPriceOverridePercent x)"

definition stock_level_ok :: "stock_level \<Rightarrow> bool" where
  "stock_level_ok x \<longleftrightarrow> 0 \<le> st_quantityOnHand x \<and> 0 \<le> st_reserved x \<and> pred_option (\<lambda>i. 0 \<le> i) (st_incoming x)"

lemma extended_catalog_schemas:
  "policyPatchBodySchema = Z_object True [(''name'', z_text 1 160), (''customerTier'', Z_optional (Z_nullable z_tier)),
     (''productCategory'', Z_optional (Z_nullable (z_note 80))), (''warningPercent'', z_percent), (''approvalPercent'', z_percent),
     (''rejectPercent'', z_percent), (''maxMarginImpactPercent'', z_percent), (''priority'', Z_number [Nc_int]),
     (''description'', Z_optional (Z_nullable (z_note 500))), (''active'', Z_optional Z_boolean), (''id'', z_uuid)]"
  "chainPatchBodySchema = Z_object True [(''name'', z_text 1 160), (''minRiskScore'', z_nonneg),
     (''minBlendedDiscountPercent'', z_nonneg), (''priority'', Z_number [Nc_int]), (''active'', Z_optional Z_boolean),
     (''steps'', Z_array (Z_object True [(''id'', Z_optional z_uuid), (''chainId'', Z_optional z_uuid), (''stepOrder'', Z_number [Nc_int, Nc_positive]),
       (''roleKey'', Z_enum [''manager'', ''finance'', ''final'']), (''label'', z_text 1 80)]) (Some 1) (Some 3)), (''id'', z_uuid)]"
  "customerPatchBodySchema = Z_object True [(''name'', z_text 1 160), (''email'', Z_string [Sc_trim, Sc_email, Sc_max 200]),
     (''tier'', Z_optional z_tier), (''id'', z_uuid)]"
  "warehousePatchBodySchema = Z_object True [(''name'', z_text 1 160), (''fulfillmentCostPerUnit'', z_nonneg), (''id'', z_uuid)]"
  "relationPatchBodySchema = Z_object True [(''productId'', z_uuid), (''recommendedProductId'', z_uuid),
     (''kind'', Z_enum [''upsell'', ''cross_sell'']), (''reason'', z_text 1 500), (''promotion'', Z_optional (Z_nullable (z_note 200))),
     (''minQuantity'', Z_optional z_positive), (''id'', z_uuid)]"
  by (simp_all add: policyPatchBodySchema_def policyBodySchema_def chainPatchBodySchema_def chainBodySchema_def
    customerPatchBodySchema_def customerBodySchema_def warehousePatchBodySchema_def warehouseBodySchema_def
    relationPatchBodySchema_def relationBodySchema_def extend_fields_def)

lemma decodes_items [decode_intros]:
  "decodes Z d_quantity_break quantityBreakSchema (\<lambda>x. 0 < qb_minQuantity (snd x))"
  "decodes Z d_role_authority roleAuthoritySchema authority_ok"
  "decodes Z d_stock_input (Z_object True [(''warehouseId'', z_uuid), (''quantityOnHand'', z_nonneg), (''incoming'', Z_optional z_nonneg)])
     (\<lambda>s. 0 \<le> si_quantityOnHand s \<and> pred_option (\<lambda>i. 0 \<le> i) (si_incoming s))"
  "decodes Z d_break_input (Z_object True [(''id'', Z_optional z_uuid), (''name'', z_text 1 120),
       (''customerTier'', Z_optional (Z_nullable z_tier)), (''minQuantity'', z_positive), (''maxQuantity'', Z_optional (Z_nullable z_positive)),
       (''adjustmentKind'', Z_enum [''fixed'', ''percent'']), (''adjustmentValue'', Z_number []), (''active'', Z_optional Z_boolean)]) break_input_ok"
  "decodes Z d_stock_level stockBodySchema stock_level_ok"
  "decodes Z d_customer customerBodySchema (\<lambda>_. True)"
  "decodes Z d_customer customerPatchBodySchema (\<lambda>_. True)"
  "decodes Z d_warehouse warehouseBodySchema (\<lambda>x. 0 \<le> snd (snd x))"
  "decodes Z d_warehouse warehousePatchBodySchema (\<lambda>x. 0 \<le> snd (snd x))"
  "decodes Z d_relation relationBodySchema (\<lambda>x. 0 < rel_minQuantity (snd x))"
  "decodes Z d_relation relationPatchBodySchema (\<lambda>x. 0 < rel_minQuantity (snd x))"
  unfolding quantityBreakSchema_def roleAuthoritySchema_def stockBodySchema_def customerBodySchema_def warehouseBodySchema_def
    relationBodySchema_def extended_catalog_schemas
  by (rule decodes_object, unfold item_decoders object_facts, elim conjE,
      (rule ok_field, assumption, (rule decode_intros | rule decodes_opt_weak | (simp only: table_facts; fail))+)+,
      rule ok_with_Some,
      auto simp: authority_ok_def break_input_ok_def stock_level_ok_def or_else_def split: option.split)+

lemmas catalog_decoders = d_product_def d_policy_def d_chain_def

lemma decodes_chain_step [decode_intros]:
  "decodes Z d_chain_step (Z_object True [(''id'', Z_optional z_uuid), (''chainId'', Z_optional z_uuid), (''stepOrder'', Z_number [Nc_int, Nc_positive]),
     (''roleKey'', Z_enum [''manager'', ''finance'', ''final'']), (''label'', z_text 1 80)]) (\<lambda>x. 0 < cs_stepOrder (snd (snd x)))"
  by (rule decodes_object, unfold item_decoders object_facts, elim conjE,
      (rule ok_field, assumption, (rule decode_intros | (simp only: table_facts; fail))+)+, rule ok_with_Some, simp)

lemma decodes_catalog_bodies [decode_intros]:
  "decodes Z d_policy policyBodySchema (\<lambda>x. policy_ok (snd x))"
  "decodes Z d_policy policyPatchBodySchema (\<lambda>x. policy_ok (snd x))"
  "decodes Z d_chain chainBodySchema (\<lambda>x. snd (snd x) \<noteq> [])"
  "decodes Z d_chain chainPatchBodySchema (\<lambda>x. snd (snd x) \<noteq> [])"
  unfolding policyBodySchema_def chainBodySchema_def extended_catalog_schemas
  by (rule decodes_object, unfold catalog_decoders object_facts, elim conjE,
      (rule ok_field, assumption, (rule decode_intros | rule decodes_opt_weak | (simp only: table_facts; fail))+)+,
      rule ok_with_Some, force simp: policy_ok_def)+

lemma decodes_product [decode_intros]: "decodes Z d_product productBodySchema product_input_ok"
  unfolding productBodySchema_def productFieldsSchema_def
  by (rule decodes_refine, rule decodes_object, unfold catalog_decoders object_facts, elim conjE,
      (rule ok_field, assumption, (rule decode_intros | rule decodes_opt_weak | (simp only: table_facts; fail))+)+,
      rule ok_with_Some, auto simp: product_input_ok_def pred_option_def list_all_iff)

lemma product_patch_schema:
  "productPatchBodySchema = Z_refine (Z_object True (filter (\<lambda>p. fst p \<noteq> ''id'')
     (map (\<lambda>(k, s). (k, Z_optional s)) (case productFieldsSchema of Z_object _ fs \<Rightarrow> fs | _ \<Rightarrow> [])) @ [(''id'', z_uuid)])) Rf_billing_frequency"
  by (simp add: productPatchBodySchema_def productFieldsSchema_def extend_fields_def)

lemma decodes_product_patch [decode_intros]: "decodes Z d_product productPatchBodySchema product_input_ok"
  unfolding product_patch_schema productFieldsSchema_def
  by (simp del: One_nat_def, rule decodes_refine, rule decodes_object, unfold catalog_decoders object_facts, elim conjE,
      (rule ok_field, assumption, (rule decodes_partial)?, (rule decode_intros | rule decodes_opt_weak | (simp only: table_facts; fail))+)+,
      rule ok_with_Some, auto simp: product_input_ok_def pred_option_def list_all_iff)

lemma decodes_governance_lists [decode_intros]:
  "decodes Z (field (d_list d_quantity_break) ''items'') replaceQuantityBreaksBodySchema
     (\<lambda>ys. list_all (\<lambda>x. 0 < qb_minQuantity (snd x)) ys \<and> pred_option (\<lambda>n. n \<le> length ys) None)"
  "decodes Z (field (d_list d_role_authority) ''items'') replaceRoleAuthoritiesBodySchema
     (\<lambda>ys. list_all authority_ok ys \<and> pred_option (\<lambda>n. n \<le> length ys) (Some 1))"
  unfolding replaceQuantityBreaksBodySchema_def replaceRoleAuthoritiesBodySchema_def
  by (rule decodes_field, (rule list.set_intros)+, (rule decode_intros)+)+

lemma set_num_total: "accepts Z (Z_optional (Z_number cs)) (get b k) \<Longrightarrow> ok_with (set_num k upd b) (\<lambda>_. True)"
  using decodes_opt [OF decodes_num] by (fastforce simp: decodes_def ok_with_def set_num_def)

definition governance_fields :: "(string \<times> schema) list" where
  "governance_fields = (case patchGovernanceBodySchema of Z_refine (Z_object _ fs) _ \<Rightarrow> fs | _ \<Rightarrow> [])"

lemma governance_schema: "patchGovernanceBodySchema = Z_refine (Z_object True governance_fields) Rf_any_key"
  by (simp add: patchGovernanceBodySchema_def governance_fields_def)

lemma governance_field_schemas:
  "\<forall>p\<in>set governance_numbers. \<exists>cs. (fst p, Z_optional (Z_number cs)) \<in> set governance_fields"
  "(''allowLoyaltyStacking'', Z_optional Z_boolean) \<in> set governance_fields"
  unfolding governance_numbers_def governance_fields_def patchGovernanceBodySchema_def scalar_schemas by simp_all

lemma decodes_governance [decode_intros]: "decodes Z d_governance patchGovernanceBodySchema (\<lambda>_. True)"
  unfolding governance_schema
proof (rule decodes_refine, rule decodes_object)
  fix v assume "list_all (\<lambda>(k, s). accepts Z s (get v k)) governance_fields"
  then have f: "accepts Z s (get v k)" if "(k, s) \<in> set governance_fields" for k s using that by (auto simp: list_all_iff)
  have "list_all (\<lambda>p. ok_with (case p of (k, upd) \<Rightarrow> set_num k upd v) (\<lambda>_. True)) governance_numbers"
    using governance_field_schemas(1) f set_num_total by (fastforce simp: list_all_iff)
  from those_total [OF this] have "ok_with (those (map (\<lambda>(k, upd). set_num k upd v) governance_numbers)) (\<lambda>_. True)"
    by (auto simp: ok_with_def)
  moreover have "ok_with (d_opt d_bool (get v ''allowLoyaltyStacking'')) (pred_option (\<lambda>_. True))"
    by (rule decodesD [OF decodes_opt [OF decodes_bool] f [OF governance_field_schemas(2)]])
  ultimately show "ok_with (d_governance v) (\<lambda>_. True)"
    unfolding d_governance_def by (auto simp: ok_with_def)
qed

end
