(* ===== verification/Platform_Http.thy ===== *)
theory Platform_Http
  imports Platform_RateLimit Platform_Auth
begin

text \<open>
  What a request passes before its handler runs: the cookie parser (\<open>auth/session-cookies.ts\<close>), the protection of
  cookie sessions against requests of other sites (\<open>security/csrf.ts\<close>), the rate limits per category
  (\<open>security/rate-limit/categories.ts\<close>, \<open>security/client-ip.ts\<close>), authentication and the permission check. A chain of
  middlewares is a list of \<open>guard\<close>s, run in order until one refuses. The parser of URLs and \<open>decodeURIComponent\<close> are
  parameters; the first is \<open>None\<close> on a string that is no URL, the second on a malformed escape.
\<close>

section \<open>Requests\<close>

datatype http_method = M_GET | M_HEAD | M_OPTIONS | M_POST | M_PUT | M_PATCH | M_DELETE

record http_request =
  rq_method :: http_method
  rq_authorization :: "string option"
  rq_cookie :: "string option"
  rq_origin :: "string option"
  rq_referer :: "string option"
  rq_ip :: "string option"
  rq_remoteAddress :: "string option"

record parsed_url =
  url_protocol :: string
  url_hostname :: string
  url_port :: string
  url_origin :: string

record rate_policy =
  pc_max :: nat
  pc_windowMs :: int

record http_config =
  hf_isProduction :: bool
  hf_corsOrigins :: "string list"
  hf_appUrl :: string
  hf_frontendUrl :: string
  hf_rateLimitEnabled :: bool
  hf_failClosed :: bool
  hf_publicApi :: rate_policy
  hf_authentication :: rate_policy
  hf_authenticatedApi :: rate_policy
  hf_adminApi :: rate_policy
  hf_ai :: rate_policy
  hf_fileUpload :: rate_policy

record http_env =
  hv_auth :: auth_env
  hv_config :: http_config
  hv_parseUrl :: "string \<Rightarrow> parsed_url option"
  hv_decodeURIComponent :: "string \<Rightarrow> string option"

section \<open>Cookies\<close>

definition ACCESS_COOKIE_NAME :: string where "ACCESS_COOKIE_NAME = ''hsk_access''"
definition REFRESH_COOKIE_NAME :: string where "REFRESH_COOKIE_NAME = ''hsk_refresh''"

fun split_at :: "char \<Rightarrow> string \<Rightarrow> string list" where
  "split_at d [] = [[]]"
| "split_at d (c # s) = (if c = d then [] # split_at d s
     else case split_at d s of [] \<Rightarrow> [[c]] | seg # segs \<Rightarrow> (c # seg) # segs)"

text \<open>A part without \<open>=\<close>, or with nothing before it, is skipped.\<close>

definition cookie_part :: "http_env \<Rightarrow> string \<Rightarrow> (string \<times> string) option" where
  "cookie_part v part =
     (let before = takeWhile (\<lambda>c. c \<noteq> CHR ''='') part; rest = dropWhile (\<lambda>c. c \<noteq> CHR ''='') part;
          name = js_trim before; value = js_trim (drop 1 rest) in
      if before = [] \<or> rest = [] \<or> name = [] then None
      else Some (name, case hv_decodeURIComponent v value of Some x \<Rightarrow> x | None \<Rightarrow> value))"

text \<open>Later parts overwrite earlier ones of the same name.\<close>

definition parseCookieHeader :: "http_env \<Rightarrow> string option \<Rightarrow> string \<Rightarrow> string option" where
  "parseCookieHeader v header = (case header of None \<Rightarrow> Map.empty
     | Some h \<Rightarrow> map_of (rev (List.map_filter (cookie_part v) (split_at (CHR '';'') h))))"

definition readCookie :: "http_env \<Rightarrow> http_request \<Rightarrow> string \<Rightarrow> string option" where
  "readCookie v rq name = (case parseCookieHeader v (rq_cookie rq) name of None \<Rightarrow> None
     | Some x \<Rightarrow> if js_trim x = [] then None else Some (js_trim x))"

definition readAccessCookie :: "http_env \<Rightarrow> http_request \<Rightarrow> string option" where
  "readAccessCookie v rq = readCookie v rq ACCESS_COOKIE_NAME"

section \<open>Requests of other sites\<close>

definition SAFE_METHODS :: "http_method list" where
  "SAFE_METHODS = [M_GET, M_HEAD, M_OPTIONS]"

definition originFromReferer :: "http_env \<Rightarrow> string option \<Rightarrow> string option" where
  "originFromReferer v referer = (case referer of None \<Rightarrow> None
     | Some r \<Rightarrow> if r = [] then None else map_option url_origin (hv_parseUrl v r))"

definition loopback_twin :: "http_env \<Rightarrow> string \<Rightarrow> string list" where
  "loopback_twin v origin = (case hv_parseUrl v origin of None \<Rightarrow> []
     | Some u \<Rightarrow>
         let port = (if url_port u = [] then [] else '':'' @ url_port u) in
         if url_hostname u = ''localhost'' then [url_protocol u @ ''//127.0.0.1'' @ port]
         else if url_hostname u = ''127.0.0.1'' then [url_protocol u @ ''//localhost'' @ port]
         else [])"

definition expandLoopbackOrigins :: "http_env \<Rightarrow> string list \<Rightarrow> string list" where
  "expandLoopbackOrigins v origins = origins @ concat (map (loopback_twin v) origins)"

definition isLoopbackOrigin :: "http_env \<Rightarrow> string \<Rightarrow> bool" where
  "isLoopbackOrigin v origin = (case hv_parseUrl v origin of None \<Rightarrow> False
     | Some u \<Rightarrow> url_protocol u = ''http:'' \<and> (url_hostname u = ''localhost'' \<or> url_hostname u = ''127.0.0.1''))"

definition trusted_origins :: "http_env \<Rightarrow> string list" where
  "trusted_origins v = expandLoopbackOrigins v
     (hf_corsOrigins (hv_config v) @ [hf_appUrl (hv_config v), hf_frontendUrl (hv_config v)])"

definition isTrustedOrigin :: "http_env \<Rightarrow> string option \<Rightarrow> bool" where
  "isTrustedOrigin v origin = (case origin of None \<Rightarrow> False
     | Some x \<Rightarrow>
         if x = [] then False
         else if \<not> hf_isProduction (hv_config v) \<and> isLoopbackOrigin v x then True
         else if x \<in> set (trusted_origins v) then True
         else case hv_parseUrl v x of None \<Rightarrow> False | Some u \<Rightarrow> url_origin u \<in> set (trusted_origins v))"

definition request_origin :: "http_env \<Rightarrow> http_request \<Rightarrow> string option" where
  "request_origin v rq = (case rq_origin rq of Some x \<Rightarrow> Some x | None \<Rightarrow> originFromReferer v (rq_referer rq))"

definition cookieCsrfProtection :: "http_env \<Rightarrow> http_request \<Rightarrow> app_error + unit" where
  "cookieCsrfProtection v rq =
     (if rq_method rq \<in> set SAFE_METHODS then Inr ()
      else if tryExtractBearerToken (rq_authorization rq) \<noteq> None then Inr ()
      else if readCookie v rq ACCESS_COOKIE_NAME = None \<and> readCookie v rq REFRESH_COOKIE_NAME = None then Inr ()
      else if \<not> isTrustedOrigin v (request_origin v rq) then Inl (AuthorizationError ''Cross-origin request is not allowed'')
      else Inr ())"

section \<open>Rate limits\<close>

definition nonempty :: "string option \<Rightarrow> string option" where
  "nonempty s = (case s of Some x \<Rightarrow> if x = [] then None else Some x | None \<Rightarrow> None)"

definition clientIp :: "http_request \<Rightarrow> string" where
  "clientIp rq = (case nonempty (rq_ip rq) of Some x \<Rightarrow> x
     | None \<Rightarrow> (case nonempty (rq_remoteAddress rq) of Some x \<Rightarrow> x | None \<Rightarrow> ''unknown''))"

definition userOrIp :: "http_request \<Rightarrow> authenticated_user option \<Rightarrow> string" where
  "userOrIp rq user = (case user of
     Some u \<Rightarrow> if us_id u = [] then ''ip:'' @ clientIp rq else ''user:'' @ us_id u
   | None \<Rightarrow> ''ip:'' @ clientIp rq)"

datatype rate_category = Rc_publicApi | Rc_authentication | Rc_authenticated | Rc_admin | Rc_ai | Rc_fileUpload

primrec category_policy :: "http_config \<Rightarrow> rate_category \<Rightarrow> rate_policy" where
  "category_policy c Rc_publicApi = hf_publicApi c"
| "category_policy c Rc_authentication = hf_authentication c"
| "category_policy c Rc_authenticated = hf_authenticatedApi c"
| "category_policy c Rc_admin = hf_adminApi c"
| "category_policy c Rc_ai = hf_ai c"
| "category_policy c Rc_fileUpload = hf_fileUpload c"

primrec category_prefix :: "rate_category \<Rightarrow> string" where
  "category_prefix Rc_publicApi = ''rl:public''"
| "category_prefix Rc_authentication = ''rl:auth''"
| "category_prefix Rc_authenticated = ''rl:authenticated''"
| "category_prefix Rc_admin = ''rl:admin''"
| "category_prefix Rc_ai = ''rl:ai''"
| "category_prefix Rc_fileUpload = ''rl:upload''"

primrec category_message :: "rate_category \<Rightarrow> string" where
  "category_message Rc_publicApi = ''Too many requests. Try again later.''"
| "category_message Rc_authentication = ''Too many authentication requests. Try again later.''"
| "category_message Rc_authenticated = ''Too many requests. Try again later.''"
| "category_message Rc_admin = ''Too many admin requests. Try again later.''"
| "category_message Rc_ai = ''Too many AI requests. Try again later.''"
| "category_message Rc_fileUpload = ''Too many file uploads. Try again later.''"

definition category_key :: "rate_category \<Rightarrow> http_request \<Rightarrow> authenticated_user option \<Rightarrow> string" where
  "category_key c rq user = (if c = Rc_publicApi \<or> c = Rc_authentication then clientIp rq else userOrIp rq user)"

definition category_limit :: "http_config \<Rightarrow> rate_category \<Rightarrow> rl_options" where
  "category_limit f c = \<lparr>ro_windowMs = pc_windowMs (category_policy f c), ro_max = pc_max (category_policy f c),
     ro_prefix = category_prefix c, ro_enabled = hf_rateLimitEnabled f\<rparr>"

section \<open>Middlewares\<close>

datatype guard = G_rateLimit rate_category | G_authenticate | G_requirePermission "string list"

record http_state =
  hs_auth :: auth_state
  hs_limits :: rl_store

text \<open>The memory store of the limiter never fails.\<close>

definition run_limit :: "http_env \<Rightarrow> http_request \<Rightarrow> rate_category \<Rightarrow> authenticated_user option \<Rightarrow> http_state \<Rightarrow>
    (app_error + authenticated_user option) \<times> http_state" where
  "run_limit v rq c user s =
     (let opts = category_limit (hv_config v) c; now = ae_now (hv_auth v) in
      if \<not> ro_enabled opts then (Inr user, s)
      else case rl_consume opts now (category_key c rq user) (hs_limits s) of (d, m) \<Rightarrow>
        (case rateLimit opts (hf_failClosed (hv_config v)) now (Some d) of
           Rl_next \<Rightarrow> Inr user | Rl_refuse _ \<Rightarrow> Inl (RateLimitError (category_message c)),
         s\<lparr>hs_limits := m\<rparr>))"

primrec run_guard :: "http_env \<Rightarrow> http_request \<Rightarrow> guard \<Rightarrow> authenticated_user option \<Rightarrow> http_state \<Rightarrow>
    (app_error + authenticated_user option) \<times> http_state" where
  "run_guard v rq (G_rateLimit c) user s = run_limit v rq c user s"
| "run_guard v rq G_authenticate user s =
     (case authenticate (hv_auth v) (rq_authorization rq) (readAccessCookie v rq) (hs_auth s) of
        (r, t) \<Rightarrow> (map_sum id Some r, s\<lparr>hs_auth := t\<rparr>))"
| "run_guard v rq (G_requirePermission ps) user s = (map_sum id Some (assertPermission user ps), s)"

fun run_guards :: "http_env \<Rightarrow> http_request \<Rightarrow> guard list \<Rightarrow> authenticated_user option \<Rightarrow> http_state \<Rightarrow>
    (app_error + authenticated_user option) \<times> http_state" where
  "run_guards v rq [] user s = (Inr user, s)"
| "run_guards v rq (g # gs) user s = (case run_guard v rq g user s of
     (Inl err, t) \<Rightarrow> (Inl err, t) | (Inr u, t) \<Rightarrow> run_guards v rq gs u t)"

text \<open>The \<open>authenticate\<close> that \<open>app.ts\<close> hands to the module: \<open>composeHandlers(authenticate, rateLimits.authenticated)\<close>. The limiter in
  it runs after the user is known, so it counts by user.\<close>

definition authenticateUser :: "guard list" where
  "authenticateUser = [G_authenticate, G_rateLimit Rc_authenticated]"

section \<open>What a chain of guards lets through\<close>

definition logged_in :: "http_env \<Rightarrow> http_request \<Rightarrow> auth_state \<Rightarrow> authenticated_user \<Rightarrow> bool" where
  "logged_in v rq s u \<longleftrightarrow> (\<exists>t. authenticate (hv_auth v) (rq_authorization rq) (readAccessCookie v rq) s = (Inr u, t))"

lemma run_limit_user: "run_limit v rq c user s = (Inr u, t) \<Longrightarrow> u = user \<and> hs_auth t = hs_auth s"
  by (auto simp: run_limit_def Let_def split: if_splits prod.splits rl_answer.splits)

lemma assertPermission_same: "assertPermission user ps = Inr u \<Longrightarrow> user = Some u"
  by (auto simp: assertPermission_def assertAuthenticated_def split: option.splits if_splits)

lemma permission_guards:
  assumes "run_guards v rq (map G_requirePermission pss) user s = (Inr u, t)"
  shows "u = user \<and> t = s \<and> (\<forall>ps\<in>set pss. assertPermission user ps = Inr (the user))"
  using assms
proof (induction pss)
  case (Cons ps pss)
  then obtain x where x: "assertPermission user ps = Inr x" by (cases "assertPermission user ps") auto
  then have "user = Some x" by (rule assertPermission_same)
  then show ?case using Cons x by simp
qed simp

lemma guarded_user:
  assumes "run_guards v rq (G_rateLimit c # authenticateUser @ map G_requirePermission pss) None s = (Inr user, t)"
  obtains u where "user = Some u" and "logged_in v rq (hs_auth s) u" and "\<And>ps. ps \<in> set pss \<Longrightarrow> assertPermission (Some u) ps = Inr u"
proof -
  obtain s1 where l: "run_limit v rq c None s = (Inr None, s1)" and s1: "hs_auth s1 = hs_auth s"
    using assms run_limit_user by (cases "run_limit v rq c None s") (fastforce simp: authenticateUser_def split: sum.splits)
  obtain r t1 where a: "authenticate (hv_auth v) (rq_authorization rq) (readAccessCookie v rq) (hs_auth s) = (r, t1)" by fastforce
  then obtain u where u: "r = Inr u" using assms l s1 by (cases r) (auto simp: authenticateUser_def)
  let ?s2 = "s1\<lparr>hs_auth := t1\<rparr>"
  obtain s3 where "run_limit v rq Rc_authenticated (Some u) ?s2 = (Inr (Some u), s3)"
    using assms l s1 a u run_limit_user
    by (cases "run_limit v rq Rc_authenticated (Some u) ?s2") (fastforce simp: authenticateUser_def split: sum.splits)
  then have "run_guards v rq (map G_requirePermission pss) (Some u) s3 = (Inr user, t)" using assms l s1 a u by (simp add: authenticateUser_def)
  note p = permission_guards [OF this]
  show ?thesis using that [of u] p a u by (auto simp: logged_in_def)
qed

lemma bearer_or_cookie:
  assumes "logged_in v rq s u"
  shows "tryExtractBearerToken (rq_authorization rq) \<noteq> None \<or> readAccessCookie v rq \<noteq> None"
  using assms by (auto simp: logged_in_def authenticate_def abind_def alift_def extractAccessToken_def split: option.splits)

lemma csrf_guard:
  assumes "cookieCsrfProtection v rq = Inr ()" and "logged_in v rq s u" and "rq_method rq \<notin> set SAFE_METHODS"
    and "tryExtractBearerToken (rq_authorization rq) = None"
  shows "isTrustedOrigin v (request_origin v rq)"
  using assms bearer_or_cookie [OF assms(2)] by (auto simp: cookieCsrfProtection_def readAccessCookie_def split: if_splits)

end
