(* ===== verification/Dealflow_Routes.thy ===== *)
theory Dealflow_Routes
  imports Dealflow_Decode Platform_Http
begin

text \<open>
  The router of the module (\<open>routes.ts\<close>): each route with its method, path, middlewares, schemas, status and the
  service call its handler makes, in the order of registration; and what the schemas promise of the call a request
  asks for. The matching of a path against a pattern binds the named segments; \<open>ids\<close> gives the identifiers a handler
  draws itself.
\<close>

section \<open>Routes\<close>

datatype call = C_info | C_read read_request | C_do request | C_agree string int

record route =
  rt_method :: http_method
  rt_path :: string
  rt_guards :: "guard list"
  rt_params :: "schema option"
  rt_body :: "(bool \<times> schema) option"
  rt_status :: nat
  rt_call :: "(nat \<Rightarrow> string) \<Rightarrow> actor \<Rightarrow> json option \<Rightarrow> json option \<Rightarrow> call option"

definition public :: "guard list" where "public = [G_rateLimit Rc_publicApi]"
definition signed_in :: "guard list" where "signed_in = G_rateLimit Rc_authenticated # authenticateUser"

definition permitted :: "string \<Rightarrow> guard list" where
  "permitted p = G_rateLimit Rc_authenticated # authenticateUser @ [G_requirePermission [p]]"

definition g_read :: "guard list" where "g_read = permitted ''dealflow.quotes.read''"
definition g_write :: "guard list" where "g_write = permitted ''dealflow.quotes.write''"
definition g_approve :: "guard list" where "g_approve = permitted ''dealflow.quotes.approve''"
definition g_fulfill :: "guard list" where "g_fulfill = permitted ''dealflow.fulfillment.write''"
definition g_bill :: "guard list" where "g_bill = permitted ''dealflow.billing.write''"
definition g_catalog :: "guard list" where "g_catalog = permitted ''dealflow.catalog.read''"
definition g_catalogWrite :: "guard list" where "g_catalogWrite = permitted ''dealflow.catalog.write''"
definition g_catalogProductWrite :: "guard list" where "g_catalogProductWrite = permitted ''dealflow.catalog.products.write''"
definition g_lock :: "guard list" where "g_lock = permitted ''dealflow.quotes.lock''"

definition actorFrom :: "authenticated_user option \<Rightarrow> actor" where
  "actorFrom user = (case user of
     Some u \<Rightarrow> if us_id u = [] then \<lparr>act_id = ''anonymous'', act_email = None, act_role = Some ''user'', act_roles = None, act_permissions = Some []\<rparr>
       else \<lparr>act_id = us_id u, act_email = Some (us_email u), act_role = Some (us_role u), act_roles = Some (us_roles u),
              act_permissions = Some (us_permissions u)\<rparr>
   | None \<Rightarrow> \<lparr>act_id = ''anonymous'', act_email = None, act_role = Some ''user'', act_roles = None, act_permissions = Some []\<rparr>)"

definition on_quotes :: "quote_request \<Rightarrow> call option" where "on_quotes r = Some (C_do (On_quotes r))"
definition on_catalog :: "catalog_request \<Rightarrow> call option" where "on_catalog r = Some (C_do (On_catalog r))"
definition reading :: "read_request \<Rightarrow> call option" where "reading r = Some (C_read r)"

definition p_id :: "json option \<Rightarrow> string option" where "p_id = field d_str ''id''"

text \<open>Items without an identifier get the next one of the supply.\<close>

fun fill_ids :: "(nat \<Rightarrow> string) \<Rightarrow> nat \<Rightarrow> string option list \<Rightarrow> string list" where
  "fill_ids ids n [] = []"
| "fill_ids ids n (Some i # xs) = i # fill_ids ids n xs"
| "fill_ids ids n (None # xs) = ids n # fill_ids ids (Suc n) xs"

definition with_break_ids :: "(nat \<Rightarrow> string) \<Rightarrow> (string option \<times> quantity_break) list \<Rightarrow> quantity_break list" where
  "with_break_ids ids items = map2 (\<lambda>i x. (snd x)\<lparr>qb_id := i\<rparr>) (fill_ids ids 0 (map fst items)) items"

definition with_step_ids ::
  "(nat \<Rightarrow> string) \<Rightarrow> (string option \<Rightarrow> string) \<Rightarrow> (string option \<times> string option \<times> approval_chain_step) list \<Rightarrow> approval_chain_step list" where
  "with_step_ids ids chainId steps =
     map2 (\<lambda>i (_, c, s). s\<lparr>cs_id := i, cs_chainId := chainId c\<rparr>) (fill_ids ids 0 (map fst steps)) steps"

section \<open>The catalogue\<close>

definition info_route :: route where
  "info_route = \<lparr>rt_method = M_GET, rt_path = ''/'', rt_guards = public, rt_params = None, rt_body = None, rt_status = 200,
     rt_call = (\<lambda>_ _ _ _. Some C_info)\<rparr>"

definition catalog_get :: route where
  "catalog_get = \<lparr>rt_method = M_GET, rt_path = ''/catalog'', rt_guards = g_catalog, rt_params = None, rt_body = None, rt_status = 200,
     rt_call = (\<lambda>_ _ _ _. reading Q_catalog)\<rparr>"

definition governance_routes :: "route list" where
  "governance_routes = [
     \<lparr>rt_method = M_PUT, rt_path = ''/catalog/quantity-breaks'', rt_guards = g_catalogWrite, rt_params = None,
      rt_body = Some (False, replaceQuantityBreaksBodySchema), rt_status = 200,
      rt_call = (\<lambda>ids act p b. do { items \<leftarrow> field (d_list d_quantity_break) ''items'' b;
        on_catalog (R_quantityBreaks (with_break_ids ids items) act) })\<rparr>,
     \<lparr>rt_method = M_PUT, rt_path = ''/catalog/role-authorities'', rt_guards = g_catalogWrite, rt_params = None,
      rt_body = Some (False, replaceRoleAuthoritiesBodySchema), rt_status = 200,
      rt_call = (\<lambda>ids act p b. do { items \<leftarrow> field (d_list d_role_authority) ''items'' b; on_catalog (R_roleAuthorities items act) })\<rparr>,
     \<lparr>rt_method = M_PATCH, rt_path = ''/catalog/governance'', rt_guards = g_catalogWrite, rt_params = None,
      rt_body = Some (False, patchGovernanceBodySchema), rt_status = 200,
      rt_call = (\<lambda>ids act p b. do { g \<leftarrow> d_governance b; on_catalog (R_governance g act) })\<rparr>]"

definition save_product :: "(nat \<Rightarrow> string) \<Rightarrow> actor \<Rightarrow> json option \<Rightarrow> json option \<Rightarrow> call option" where
  "save_product ids act p b = do { x \<leftarrow> d_product b; on_catalog (R_upsertProduct x act) }"

definition save_customer :: "(nat \<Rightarrow> string) \<Rightarrow> actor \<Rightarrow> json option \<Rightarrow> json option \<Rightarrow> call option" where
  "save_customer ids act p b = do { x \<leftarrow> d_customer b; on_catalog (R_upsertCustomer x act) }"

definition save_warehouse :: "(nat \<Rightarrow> string) \<Rightarrow> actor \<Rightarrow> json option \<Rightarrow> json option \<Rightarrow> call option" where
  "save_warehouse ids act p b = do { x \<leftarrow> d_warehouse b; on_catalog (R_upsertWarehouse (fst x) (fst (snd x)) (snd (snd x)) act) }"

definition save_relation :: "(nat \<Rightarrow> string) \<Rightarrow> actor \<Rightarrow> json option \<Rightarrow> json option \<Rightarrow> call option" where
  "save_relation ids act p b = do { x \<leftarrow> d_relation b; on_catalog (R_upsertRelation (snd x) (fst x) act) }"

definition save_policy :: "(nat \<Rightarrow> string) \<Rightarrow> actor \<Rightarrow> json option \<Rightarrow> json option \<Rightarrow> call option" where
  "save_policy ids act p b = do { x \<leftarrow> d_policy b; on_catalog (R_upsertPolicy (snd x) (fst x) act) }"

definition delete_by_id :: "(string \<Rightarrow> actor \<Rightarrow> catalog_request) \<Rightarrow> (nat \<Rightarrow> string) \<Rightarrow> actor \<Rightarrow> json option \<Rightarrow> json option \<Rightarrow> call option" where
  "delete_by_id R ids act p b = do { i \<leftarrow> p_id p; on_catalog (R i act) }"

definition catalog_write :: "http_method \<Rightarrow> string \<Rightarrow> guard list \<Rightarrow> schema \<Rightarrow> nat \<Rightarrow>
    ((nat \<Rightarrow> string) \<Rightarrow> actor \<Rightarrow> json option \<Rightarrow> json option \<Rightarrow> call option) \<Rightarrow> route" where
  "catalog_write m path gs body status c = \<lparr>rt_method = m, rt_path = path, rt_guards = gs, rt_params = None,
     rt_body = Some (False, body), rt_status = status, rt_call = c\<rparr>"

definition catalog_delete :: "string \<Rightarrow> guard list \<Rightarrow> (string \<Rightarrow> actor \<Rightarrow> catalog_request) \<Rightarrow> route" where
  "catalog_delete path gs R = \<lparr>rt_method = M_DELETE, rt_path = path, rt_guards = gs, rt_params = Some idParamSchema,
     rt_body = None, rt_status = 200, rt_call = delete_by_id R\<rparr>"

definition record_routes :: "route list" where
  "record_routes = [
     catalog_write M_POST ''/catalog/products'' g_catalogProductWrite productBodySchema 201 save_product,
     catalog_write M_PATCH ''/catalog/products'' g_catalogProductWrite productPatchBodySchema 200 save_product,
     catalog_delete ''/catalog/products/:id'' g_catalogProductWrite R_deleteProduct,
     catalog_write M_POST ''/catalog/customers'' g_write customerBodySchema 201 save_customer,
     catalog_write M_PATCH ''/catalog/customers'' g_write customerPatchBodySchema 200 save_customer,
     catalog_delete ''/catalog/customers/:id'' g_write R_deleteCustomer,
     catalog_write M_POST ''/catalog/warehouses'' g_catalogWrite warehouseBodySchema 201 save_warehouse,
     catalog_write M_PATCH ''/catalog/warehouses'' g_catalogWrite warehousePatchBodySchema 200 save_warehouse,
     catalog_write M_POST ''/catalog/relations'' g_catalogWrite relationBodySchema 201 save_relation,
     catalog_write M_PATCH ''/catalog/relations'' g_catalogWrite relationPatchBodySchema 200 save_relation,
     catalog_delete ''/catalog/relations/:id'' g_catalogWrite R_deleteRelation]"

definition stock_routes :: "route list" where
  "stock_routes = [
     catalog_write M_PUT ''/catalog/stock'' g_catalogProductWrite stockBodySchema 200
       (\<lambda>ids act p b. do { x \<leftarrow> d_stock_level b; on_catalog (R_upsertStock x act) }),
     \<lparr>rt_method = M_DELETE, rt_path = ''/catalog/stock/:warehouseId/:productId'', rt_guards = g_catalogProductWrite,
      rt_params = Some stockKeySchema, rt_body = None, rt_status = 200,
      rt_call = (\<lambda>ids act p b. do { w \<leftarrow> field d_str ''warehouseId'' p; i \<leftarrow> field d_str ''productId'' p; on_catalog (R_deleteStock w i act) })\<rparr>]"

text \<open>A created chain takes the chain identifier of a step from the step or the body, a changed one from the body.\<close>

definition policy_routes :: "route list" where
  "policy_routes = [
     catalog_write M_POST ''/catalog/policies'' g_catalogWrite policyBodySchema 201 save_policy,
     catalog_write M_PATCH ''/catalog/policies'' g_catalogWrite policyPatchBodySchema 200 save_policy,
     catalog_delete ''/catalog/policies/:id'' g_catalogWrite R_deletePolicy,
     catalog_write M_POST ''/catalog/chains'' g_catalogWrite chainBodySchema 201
       (\<lambda>ids act p b. do { x \<leftarrow> d_chain b;
          on_catalog (R_upsertChain ((fst (snd x))\<lparr>ch_steps := with_step_ids ids (\<lambda>c. or_else c (or_else (fst x) '''')) (snd (snd x))\<rparr>) (fst x) act) }),
     catalog_write M_PATCH ''/catalog/chains'' g_catalogWrite chainPatchBodySchema 200
       (\<lambda>ids act p b. do { x \<leftarrow> d_chain b;
          on_catalog (R_upsertChain ((fst (snd x))\<lparr>ch_steps := with_step_ids ids (\<lambda>_. or_else (fst x) '''') (snd (snd x))\<rparr>) (fst x) act) }),
     catalog_delete ''/catalog/chains/:id'' g_catalogWrite R_deleteChain,
     catalog_delete ''/catalog/warehouses/:id'' g_catalogWrite R_deleteWarehouse]"

section \<open>Quotations\<close>

definition versioned :: "http_method \<Rightarrow> string \<Rightarrow> guard list \<Rightarrow> (string \<Rightarrow> actor \<Rightarrow> int \<Rightarrow> quote_request) \<Rightarrow> route" where
  "versioned m path gs R = \<lparr>rt_method = m, rt_path = path, rt_guards = gs, rt_params = Some idParamSchema,
     rt_body = Some (True, expectedVersionSchema), rt_status = 200,
     rt_call = (\<lambda>ids act p b. do { i \<leftarrow> p_id p; v \<leftarrow> d_version b; on_quotes (R i act v) })\<rparr>"

definition negotiated :: "string \<Rightarrow> (string \<Rightarrow> string option \<Rightarrow> actor \<Rightarrow> int \<Rightarrow> quote_request) \<Rightarrow> route" where
  "negotiated path R = \<lparr>rt_method = M_POST, rt_path = path, rt_guards = g_write, rt_params = Some negotiationParamSchema,
     rt_body = Some (True, expectedVersionSchema), rt_status = 200,
     rt_call = (\<lambda>ids act p b. do { i \<leftarrow> p_id p; n \<leftarrow> field d_str ''nid'' p; v \<leftarrow> d_version b; on_quotes (R i (Some n) act v) })\<rparr>"

definition by_id :: "http_method \<Rightarrow> string \<Rightarrow> guard list \<Rightarrow> (string \<Rightarrow> actor \<Rightarrow> call) \<Rightarrow> route" where
  "by_id m path gs C = \<lparr>rt_method = m, rt_path = path, rt_guards = gs, rt_params = Some idParamSchema, rt_body = None,
     rt_status = 200, rt_call = (\<lambda>ids act p b. do { i \<leftarrow> p_id p; Some (C i act) })\<rparr>"

definition with_body :: "http_method \<Rightarrow> string \<Rightarrow> guard list \<Rightarrow> schema \<Rightarrow> bool \<Rightarrow> schema \<Rightarrow> nat \<Rightarrow>
    ((nat \<Rightarrow> string) \<Rightarrow> actor \<Rightarrow> json option \<Rightarrow> json option \<Rightarrow> call option) \<Rightarrow> route" where
  "with_body m path gs params d body status c = \<lparr>rt_method = m, rt_path = path, rt_guards = gs, rt_params = Some params,
     rt_body = Some (d, body), rt_status = status, rt_call = c\<rparr>"

definition draft_routes :: "route list" where
  "draft_routes = [
     \<lparr>rt_method = M_GET, rt_path = ''/me/quotes'', rt_guards = signed_in, rt_params = None, rt_body = None, rt_status = 200,
      rt_call = (\<lambda>ids act p b. reading (Q_myQuotes act))\<rparr>,
     \<lparr>rt_method = M_GET, rt_path = ''/quotes'', rt_guards = g_read, rt_params = None, rt_body = None, rt_status = 200,
      rt_call = (\<lambda>ids act p b. on_quotes R_listQuotes)\<rparr>,
     \<lparr>rt_method = M_POST, rt_path = ''/quotes'', rt_guards = g_write, rt_params = None,
      rt_body = Some (False, createQuoteBodySchema), rt_status = 201,
      rt_call = (\<lambda>ids act p b. do { x \<leftarrow> d_create_input b; on_quotes (R_createQuote x act) })\<rparr>,
     versioned M_DELETE ''/quotes/:id'' g_write R_deleteQuote,
     versioned M_POST ''/quotes/:id/void'' g_write R_voidQuote,
     by_id M_GET ''/quotes/:id'' g_read (\<lambda>i act. C_do (On_quotes (R_getQuote i (Some act)))),
     with_body M_POST ''/quotes/:id/lines'' g_write idParamSchema False addLineBodySchema 200
       (\<lambda>ids act p b. do { i \<leftarrow> p_id p; x \<leftarrow> d_line_input b; v \<leftarrow> d_version b; on_quotes (R_addLine i x v act) }),
     with_body M_PATCH ''/quotes/:id/lines/:lineId'' g_write lineParamSchema False patchLineBodySchema 200
       (\<lambda>ids act p b. do { i \<leftarrow> p_id p; l \<leftarrow> field d_str ''lineId'' p; x \<leftarrow> d_line_patch b; v \<leftarrow> d_version b;
          on_quotes (R_updateLine i l x v act) }),
     with_body M_DELETE ''/quotes/:id/lines/:lineId'' g_write lineParamSchema True expectedVersionSchema 200
       (\<lambda>ids act p b. do { i \<leftarrow> p_id p; l \<leftarrow> field d_str ''lineId'' p; v \<leftarrow> d_version b; on_quotes (R_removeLine i l v act) }),
     by_id M_POST ''/quotes/:id/assess'' g_write (\<lambda>i act. C_do (On_quotes (R_assess i (Some act)))),
     by_id M_POST ''/quotes/:id/submit'' g_write (\<lambda>i act. C_do (On_quotes (R_submit i act))),
     with_body M_POST ''/quotes/:id/approvals/:approvalId/decide'' g_approve approvalParamSchema False decideBodySchema 200
       (\<lambda>ids act p b. do { i \<leftarrow> p_id p; ap \<leftarrow> field d_str ''approvalId'' p; d \<leftarrow> d_decision b; r \<leftarrow> field d_str ''reason'' b;
          on_quotes (R_decide i ap d r act) })]"

definition negotiation_routes :: "route list" where
  "negotiation_routes = [
     by_id M_POST ''/quotes/:id/negotiate'' g_write (\<lambda>i act. C_do (On_quotes (R_startNegotiation i act))),
     by_id M_GET ''/quotes/:id/negotiations'' g_read (\<lambda>i act. C_read (Q_negotiations i (Some act))),
     with_body M_POST ''/quotes/:id/negotiations'' signed_in idParamSchema False negotiationBodySchema 201
       (\<lambda>ids act p b. do { i \<leftarrow> p_id p; x \<leftarrow> d_negotiation b; on_quotes (R_createNegotiation i x (Some act)) }),
     with_body M_POST ''/quotes/:id/negotiations/:nid/respond'' g_write negotiationParamSchema False respondNegotiationBodySchema 200
       (\<lambda>ids act p b. do { i \<leftarrow> p_id p; n \<leftarrow> field d_str ''nid'' p; d \<leftarrow> d_response b; t \<leftarrow> field d_str ''responseNote'' b; v \<leftarrow> d_version b;
          on_quotes (R_respond i n d t v act) }),
     negotiated ''/quotes/:id/negotiations/:nid/send-to-manager'' R_sendToManager,
     versioned M_POST ''/quotes/:id/send-to-manager'' g_write (\<lambda>i. R_sendToManager i None),
     with_body M_POST ''/quotes/:id/revise'' g_write idParamSchema False managerReviseBodySchema 200
       (\<lambda>ids act p b. do { i \<leftarrow> p_id p; ls \<leftarrow> field (d_opt (d_list d_line_change)) ''lines'' b; v \<leftarrow> d_version b;
          on_quotes (R_revise i (or_else ls []) v act) }),
     versioned M_POST ''/quotes/:id/return'' g_write (\<lambda>i. R_return i None),
     negotiated ''/quotes/:id/negotiations/:nid/return'' R_return,
     versioned M_POST ''/quotes/:id/agree'' signed_in (\<lambda>i act v. R_agree i v (Some act)),
     versioned M_POST ''/quotes/:id/finalize'' g_write R_finalize,
     versioned M_POST ''/quotes/:id/lock'' g_lock R_lock]"

text \<open>\<open>/confirm\<close> calls \<open>lockDeal\<close> as \<open>/lock\<close> does; no route calls the service's \<open>confirm\<close>.\<close>

definition order_routes :: "route list" where
  "order_routes = [
     by_id M_GET ''/quotes/:id/recommendations'' g_read (\<lambda>i act. C_do (On_quotes (R_recommendations i))),
     with_body M_POST ''/quotes/:id/recommendations'' g_write idParamSchema False applyRecommendationBodySchema 200
       (\<lambda>ids act p b. do { i \<leftarrow> p_id p; r \<leftarrow> field d_str ''relationId'' b; v \<leftarrow> d_version b; on_quotes (R_applyRecommendation i r act v) }),
     with_body M_POST ''/quotes/:id/fulfillment/plan'' g_fulfill idParamSchema True fulfillmentPlanBodySchema 200
       (\<lambda>ids act p b. do { i \<leftarrow> p_id p; os \<leftarrow> field (d_opt (d_list d_override)) ''overrides'' b; v \<leftarrow> d_version b;
          on_quotes (R_plan i (or_else os []) act v) }),
     versioned M_POST ''/quotes/:id/billing/generate'' g_bill R_billing,
     with_body M_POST ''/quotes/:id/billing/:scheduleId/cancel'' g_bill billingParamSchema True expectedVersionSchema 200
       (\<lambda>ids act p b. do { i \<leftarrow> p_id p; s \<leftarrow> field d_str ''scheduleId'' p; v \<leftarrow> d_version b; on_quotes (R_cancelBilling i s act v) }),
     versioned M_POST ''/quotes/:id/confirm'' g_lock R_lock,
     with_body M_POST ''/quotes/:id/vendor-contact'' g_write idParamSchema False vendorContactBodySchema 200
       (\<lambda>ids act p b. do { i \<leftarrow> p_id p; on_quotes (R_contactVendor i act) }),
     versioned M_POST ''/quotes/:id/complete'' g_write R_complete,
     by_id M_GET ''/quotes/:id/pdf'' g_read (\<lambda>i act. C_read (Q_pdf i)),
     \<lparr>rt_method = M_GET, rt_path = ''/anomalies'', rt_guards = g_read, rt_params = None, rt_body = None, rt_status = 200,
      rt_call = (\<lambda>ids act p b. reading Q_anomalies)\<rparr>,
     with_body M_POST ''/anomalies/:id/disposition'' g_read anomalyParamSchema False anomalyDispositionBodySchema 200
       (\<lambda>ids act p b. do { i \<leftarrow> p_id p; s \<leftarrow> d_anomaly_status b; r \<leftarrow> field (d_opt d_str) ''resolution'' b;
          on_quotes (R_disposeAnomaly i s r act) })]"

section \<open>The portal\<close>

definition p_token :: "json option \<Rightarrow> string option" where "p_token = field d_str ''token''"

definition portal_get :: "string \<Rightarrow> (string \<Rightarrow> call) \<Rightarrow> route" where
  "portal_get path C = \<lparr>rt_method = M_GET, rt_path = path, rt_guards = public, rt_params = Some tokenParamSchema, rt_body = None,
     rt_status = 200, rt_call = (\<lambda>ids act p b. do { t \<leftarrow> p_token p; Some (C t) })\<rparr>"

definition portal_routes :: "route list" where
  "portal_routes = [
     portal_get ''/portal/:token'' (\<lambda>t. C_do (On_quotes (R_getQuoteByToken t))),
     with_body M_PATCH ''/portal/:token'' public tokenParamSchema False portalChangeBodySchema 200
       (\<lambda>ids act p b. do { t \<leftarrow> p_token p; cs \<leftarrow> field (d_list d_portal_change) ''lines'' b; v \<leftarrow> d_version b;
          on_quotes (R_portalChange t cs v) }),
     with_body M_POST ''/portal/:token/negotiations'' public tokenParamSchema False portalNegotiationBodySchema 201
       (\<lambda>ids act p b. do { t \<leftarrow> p_token p; x \<leftarrow> d_negotiation b; on_quotes (R_portalNegotiation t x) }),
     with_body M_POST ''/portal/:token/agree'' public tokenParamSchema True expectedVersionSchema 200
       (\<lambda>ids act p b. do { t \<leftarrow> p_token p; v \<leftarrow> d_version b; Some (C_agree t v) }),
     with_body M_POST ''/portal/:token/decision'' public tokenParamSchema False portalDecisionBodySchema 200
       (\<lambda>ids act p b. do { t \<leftarrow> p_token p; d \<leftarrow> d_customer_decision b; c \<leftarrow> field (d_opt d_str) ''comment'' b; v \<leftarrow> d_version b;
          on_quotes (R_portalDecision t d c v) }),
     portal_get ''/portal/:token/pdf'' (\<lambda>t. C_read (Q_pdfByToken t))]"

definition dealflow_routes :: "route list" where
  "dealflow_routes = info_route # catalog_get # governance_routes @ record_routes @ stock_routes @ policy_routes @
     draft_routes @ negotiation_routes @ order_routes @ portal_routes"

section \<open>What a parsed request asks for\<close>

text \<open>The bounds the schemas put on the arguments of the service.\<close>

definition quote_request_ok :: "quote_request \<Rightarrow> bool" where
  "quote_request_ok r = (case r of
     R_createQuote x act \<Rightarrow> list_all line_input_ok (cr_lines x)
   | R_deleteQuote i act v \<Rightarrow> 0 < v | R_voidQuote i act v \<Rightarrow> 0 < v
   | R_addLine i x v act \<Rightarrow> line_input_ok x \<and> 0 < v
   | R_updateLine i l x v act \<Rightarrow> line_patch_ok x \<and> 0 < v
   | R_removeLine i l v act \<Rightarrow> 0 < v
   | R_decide i ap d reason act \<Rightarrow> reason \<noteq> [] \<and> js_trim reason = reason
   | R_createNegotiation i x act \<Rightarrow> negotiation_ok x
   | R_respond i n d note v act \<Rightarrow> note \<noteq> [] \<and> js_trim note = note \<and> 0 < v
   | R_sendToManager i n act v \<Rightarrow> 0 < v | R_return i n act v \<Rightarrow> 0 < v
   | R_revise i cs v act \<Rightarrow> list_all line_change_ok cs \<and> 0 < v
   | R_agree i v act \<Rightarrow> 0 < v | R_finalize i act v \<Rightarrow> 0 < v
   | R_portalNegotiation t x \<Rightarrow> negotiation_ok x \<and> ni_expectedVersion x \<noteq> None
   | R_portalChange t cs v \<Rightarrow> cs \<noteq> [] \<and> list_all line_change_ok cs \<and> 0 < v
   | R_portalDecision t d c v \<Rightarrow> d \<noteq> C_none \<and> 0 < v
   | R_applyRecommendation i rl act v \<Rightarrow> rl \<noteq> [] \<and> 0 < v
   | R_plan i os act v \<Rightarrow> list_all (\<lambda>x. 0 < ov_quantity x) os \<and> 0 < v
   | R_billing i act v \<Rightarrow> 0 < v | R_cancelBilling i s act v \<Rightarrow> 0 < v
   | R_lock i act v \<Rightarrow> 0 < v | R_complete i act v \<Rightarrow> 0 < v
   | _ \<Rightarrow> True)"

definition catalog_request_ok :: "catalog_request \<Rightarrow> bool" where
  "catalog_request_ok r = (case r of
     R_quantityBreaks bs act \<Rightarrow> list_all (\<lambda>b. 0 < qb_minQuantity b) bs
   | R_roleAuthorities ras act \<Rightarrow> list_all authority_ok ras \<and> ras \<noteq> []
   | R_upsertStock x act \<Rightarrow> stock_level_ok x
   | R_upsertProduct x act \<Rightarrow> product_input_ok x
   | R_upsertPolicy x i act \<Rightarrow> policy_ok x
   | R_upsertChain x i act \<Rightarrow> ch_steps x \<noteq> []
   | R_upsertWarehouse i n c act \<Rightarrow> 0 \<le> c
   | R_upsertRelation x i act \<Rightarrow> 0 < rel_minQuantity x
   | _ \<Rightarrow> True)"

definition call_ok :: "call \<Rightarrow> bool" where
  "call_ok c = (case c of
     C_do (On_quotes r) \<Rightarrow> quote_request_ok r | C_do (On_catalog r) \<Rightarrow> catalog_request_ok r | C_agree t v \<Rightarrow> 0 < v | _ \<Rightarrow> True)"

text \<open>\<open>parseParams\<close> and \<open>parseBody\<close>; a handler that allows a missing body parses \<open>req.body ?? {}\<close>.\<close>

definition parse_params :: "zod \<Rightarrow> route \<Rightarrow> json \<Rightarrow> app_error + json option" where
  "parse_params Z r params = (case rt_params r of None \<Rightarrow> Inr None
     | Some s \<Rightarrow> (case zd_parse Z s (Some params) of Some p \<Rightarrow> Inr (Some p) | None \<Rightarrow> Inl (ValidationError ''Invalid request'')))"

definition body_given :: "bool \<Rightarrow> json option \<Rightarrow> json option" where
  "body_given may_miss body = (if may_miss \<and> (body = None \<or> body = Some V_null) then Some (V_obj []) else body)"

definition parse_body :: "zod \<Rightarrow> route \<Rightarrow> json option \<Rightarrow> app_error + json option" where
  "parse_body Z r body = (case rt_body r of None \<Rightarrow> Inr None
     | Some (d, s) \<Rightarrow> (case zd_parse Z s (body_given d body) of Some b \<Rightarrow> Inr (Some b) | None \<Rightarrow> Inl (ValidationError ''Invalid request'')))"

definition typed_route :: "zod \<Rightarrow> route \<Rightarrow> bool" where
  "typed_route Z r \<longleftrightarrow> (\<forall>ids act p b. (case rt_params r of None \<Rightarrow> True | Some s \<Rightarrow> accepts Z s p) \<longrightarrow>
     (case rt_body r of None \<Rightarrow> True | Some (d, s) \<Rightarrow> accepts Z s b) \<longrightarrow> ok_with (rt_call r ids act p b) call_ok)"

lemma typed_routeI:
  "(\<And>ids act p b. ok_with (c ids act p b) call_ok) \<Longrightarrow>
     typed_route Z \<lparr>rt_method = m, rt_path = q, rt_guards = g, rt_params = None, rt_body = None, rt_status = n, rt_call = c\<rparr>"
  "(\<And>ids act p b. accepts Z s p \<Longrightarrow> ok_with (c ids act p b) call_ok) \<Longrightarrow>
     typed_route Z \<lparr>rt_method = m, rt_path = q, rt_guards = g, rt_params = Some s, rt_body = None, rt_status = n, rt_call = c\<rparr>"
  "(\<And>ids act p b. accepts Z t b \<Longrightarrow> ok_with (c ids act p b) call_ok) \<Longrightarrow>
     typed_route Z \<lparr>rt_method = m, rt_path = q, rt_guards = g, rt_params = None, rt_body = Some (d, t), rt_status = n, rt_call = c\<rparr>"
  "(\<And>ids act p b. accepts Z s p \<Longrightarrow> accepts Z t b \<Longrightarrow> ok_with (c ids act p b) call_ok) \<Longrightarrow>
     typed_route Z \<lparr>rt_method = m, rt_path = q, rt_guards = g, rt_params = Some s, rt_body = Some (d, t), rt_status = n, rt_call = c\<rparr>"
  by (simp_all add: typed_route_def)

lemma ok_read: "accepts Z s v \<Longrightarrow> decodes Z D s P \<Longrightarrow> (\<And>x. P x \<Longrightarrow> ok_with (f x) Q) \<Longrightarrow> ok_with (Option.bind (D v) f) Q"
  by (rule ok_with_bind [OF decodesD])

lemma decodes_params [decode_intros]:
  "decodes Z p_id idParamSchema (zd_uuid Z)" "decodes Z p_id lineParamSchema (zd_uuid Z)"
  "decodes Z p_id approvalParamSchema (zd_uuid Z)" "decodes Z p_id negotiationParamSchema (zd_uuid Z)"
  "decodes Z p_id billingParamSchema (zd_uuid Z)" "decodes Z p_id anomalyParamSchema (zd_uuid Z)"
  "decodes Z (field d_str ''lineId'') lineParamSchema (zd_uuid Z)"
  "decodes Z (field d_str ''approvalId'') approvalParamSchema (zd_uuid Z)"
  "decodes Z (field d_str ''nid'') negotiationParamSchema (zd_uuid Z)"
  "decodes Z (field d_str ''scheduleId'') billingParamSchema (zd_uuid Z)"
  "decodes Z (field d_str ''warehouseId'') stockKeySchema (zd_uuid Z)"
  "decodes Z (field d_str ''productId'') stockKeySchema (zd_uuid Z)"
  unfolding idParamSchema_def lineParamSchema_def approvalParamSchema_def negotiationParamSchema_def billingParamSchema_def
    anomalyParamSchema_def stockKeySchema_def p_id_def
  by (rule decodes_field, (rule list.set_intros)+, rule decodes_scalar)+

lemma decodes_token [decode_intros]: "decodes Z p_token tokenParamSchema (\<lambda>t. 16 \<le> length t)"
  unfolding tokenParamSchema_def p_token_def by (rule decodes_field [OF _ decodes_mono [OF decodes_str]]) auto

lemma length_fill_ids [simp]: "length (fill_ids ids n xs) = length xs"
  by (induction ids n xs rule: fill_ids.induct) auto

lemma with_break_ids_ok: "list_all (\<lambda>x. P (snd x)) items \<Longrightarrow> (\<And>b i. P b \<Longrightarrow> P (b\<lparr>qb_id := i\<rparr>)) \<Longrightarrow> list_all P (with_break_ids ids items)"
  by (auto simp: with_break_ids_def list_all_iff dest!: set_zip_rightD) 

lemma with_step_ids_Nil: "with_step_ids ids f steps = [] \<longleftrightarrow> steps = []"
  by (auto simp: with_step_ids_def) (metis length_fill_ids length_0_conv length_map zip_eq_Nil_iff)

lemmas request_oks = on_quotes_def on_catalog_def reading_def call_ok_def quote_request_ok_def catalog_request_ok_def

lemma typed_governance: "list_all (typed_route Z) governance_routes"
  unfolding governance_routes_def list.pred_inject
  by (intro conjI list.pred_inject(1), (rule typed_routeI,
      (rule ok_read, assumption, (rule decode_intros)+)+,
      unfold request_oks, rule ok_with_Some, auto intro!: with_break_ids_ok)+) 

lemmas route_shapes = catalog_write_def catalog_delete_def versioned_def negotiated_def by_id_def with_body_def portal_get_def
  save_product_def save_customer_def save_warehouse_def save_relation_def save_policy_def delete_by_id_def

lemma typed_catalog:
  "list_all (typed_route Z) record_routes" "list_all (typed_route Z) stock_routes" "list_all (typed_route Z) policy_routes"
  unfolding record_routes_def stock_routes_def policy_routes_def route_shapes list.pred_inject
  by (intro conjI list.pred_inject(1), (rule typed_routeI,
      (rule ok_read, assumption, (rule decode_intros)+)+,
      unfold request_oks, rule ok_with_Some, simp add: with_step_ids_Nil)+)+

lemma typed_quotes:
  "list_all (typed_route Z) draft_routes" "list_all (typed_route Z) negotiation_routes" "list_all (typed_route Z) order_routes"
  "list_all (typed_route Z) portal_routes"
  unfolding draft_routes_def negotiation_routes_def order_routes_def portal_routes_def route_shapes list.pred_inject
  by (intro conjI list.pred_inject(1), (rule typed_routeI,
      ((rule ok_read, assumption, (rule decode_intros)+)+)?,
      unfold request_oks, rule ok_with_Some, auto simp: or_else_def split: option.split)+)+

lemma typed_reads: "typed_route Z info_route" "typed_route Z catalog_get"
  unfolding info_route_def catalog_get_def by (rule typed_routeI, unfold request_oks, rule ok_with_Some, simp)+

lemma routes_typed: "r \<in> set dealflow_routes \<Longrightarrow> typed_route Z r"
  using typed_reads typed_governance typed_catalog typed_quotes by (auto simp: dealflow_routes_def list_all_iff)

end
