(* ===== verification/Dealflow_Locking.thy ===== *)
theory Dealflow_Locking
  imports Dealflow_Frozen
begin

text \<open>
  A third relation for the locale \<open>open_edits\<close>: an edit that is not the finance lock makes no order. With the edit of
  \<open>respondToNegotiation\<close>, which respects it too, every request other than the two that lock leaves a quotation that is
  not an order in a status that is none.
\<close>

definition no_order :: "quote_aggregate \<Rightarrow> quote_aggregate \<Rightarrow> bool" where
  "no_order a b \<longleftrightarrow> (committed (status_of b) \<longrightarrow> committed (status_of a))"

lemma no_orderI: "\<not> committed (status_of b) \<Longrightarrow> no_order a b" "status_of b = status_of a \<Longrightarrow> no_order a b" "committed (status_of a) \<Longrightarrow> no_order a b"
  by (simp_all add: no_order_def)

lemma no_order_core: "core a = core a' \<Longrightarrow> core b = core b' \<Longrightarrow> no_order a b = no_order a' b'"
  unfolding no_order_def using core_readsD(1) by metis

lemma settle_no_order:
  assumes "canMutateCommercials (status_of b)"
  shows "wp (settle_mutation e b t act) (\<lambda>c _. no_order a c) (\<lambda>_. True) w"
proof (rule wp_mono [OF settle_wp [OF same_core_refl]])
  show "status_of b \<noteq> Q_approved" using assms by (auto simp: canMutateCommercials_def)
next
  fix c w' assume "same_core w w' \<and> (\<exists>new. core c = core (bumpVersion (b\<lparr>ag_revisions := ag_revisions b @ new\<rparr>)))"
  then obtain new where "core c = core (bumpVersion (b\<lparr>ag_revisions := ag_revisions b @ new\<rparr>))" by blast
  from core_readsD(1) [OF this] have "status_of c = status_of b" by simp
  then show "no_order a c" using assms by (auto simp: no_order_def committed_def canMutateCommercials_def)
qed simp

lemma line_edits_no_order:
  "edit_obeys no_order id (addLine_edit e input v act a) a" "edit_obeys no_order id (removeLine_edit e l v act a) a"
  "edit_obeys no_order id (applyRecommendation_edit e r act v a) a" "edit_obeys no_order id (updateLine_edit e l patch v act a) a"
  unfolding edit_obeys_def addLine_edit_def removeLine_edit_def applyRecommendation_edit_def updateLine_edit_def
    assertExpectedVersion_def Let_def id_apply
  by (intro allI forget_rules settle_no_order; simp add: set_line_def)+

lemma approval_edits_no_order:
  "edit_obeys no_order id (startNegotiation_edit e act a) a" "edit_obeys no_order id (void_edit act v a) a"
  "edit_obeys no_order id (decide_edit e i d r act a) a" "edit_obeys no_order fst (submit_edit e act a) a"
  by (auto simp: edit_obeys_def startNegotiation_edit_def void_edit_def decide_edit_def submit_edit_def wp_simps no_order_def
    committed_def Let_def wp_audit split: option.split sum.split)

lemma order_edits_no_order:
  "edit_obeys no_order id (plan_edit e os v a) a" "edit_obeys no_order id (billing_edit e v a) a"
  "edit_obeys no_order id (cancelBilling_edit e s v a) a" "edit_obeys no_order id (complete_edit v a) a"
proof -
  show "edit_obeys no_order id (plan_edit e os v a) a"
    unfolding edit_obeys_def plan_edit_def assertExpectedVersion_def Let_def
    by (intro allI keep_ensure) (rule wp_trivial, auto simp: no_order_def isOpenForPlanning_def committed_def)
  show "edit_obeys no_order id (billing_edit e v a) a"
    by (auto simp: edit_obeys_def billing_edit_def wp_simps no_order_def committed_def Let_def isOpenForBilling_def isOpenForPlanning_def split: sum.split)
  show "edit_obeys no_order id (cancelBilling_edit e s v a) a"
    by (auto simp: edit_obeys_def cancelBilling_edit_def wp_simps no_order_def Let_def split: sum.split option.split)
  show "edit_obeys no_order id (complete_edit v a) a"
    by (auto simp: edit_obeys_def complete_edit_def wp_simps no_order_def committed_def Let_def split: sum.split)
qed

lemma negotiation_edits_no_order:
  "edit_obeys no_order id (agree_edit e v a) a" "edit_obeys no_order id (createNegotiation_edit e input oact a) a"
  "edit_obeys no_order id (sendToManager_edit e n v a) a" "edit_obeys no_order id (return_edit e n v a) a"
  "edit_obeys no_order id (finalize_edit e v act a) a"
  by (auto simp: edit_obeys_def agree_edit_def createNegotiation_edit_def sendToManager_edit_def return_edit_def finalize_edit_def
    assertExpectedVersion_def own_negotiation_def store_getNegotiation_def store_saveNegotiation_def store_listNegotiations_def
    wp_simps no_order_def committed_def Let_def record_decision_def set_activeNegotiation_def freeze_def
    appendRevision_def split: sum.split option.split)

lemma branch_pair: "(\<And>x y. wp (f x y) Q E w) \<Longrightarrow> wp (case p of (x, y) \<Rightarrow> f x y) Q E w"
  by (cases p) simp

lemma revise_no_order: "edit_obeys no_order id (revise_edit e cs v act a) a"
  unfolding edit_obeys_def revise_edit_def assertExpectedVersion_def Let_def id_apply
  by (intro allI forget_rules branch_pair settle_no_order) (simp add: canMutateCommercials_def)

text \<open>A change through the portal opens the negotiation of a draft; a request it files names itself on the quotation.\<close>

lemma portal_no_order:
  "edit_obeys no_order id (portalChange_edit e cs v a) a" "edit_obeys no_order (case_option a id) (portalDecision_edit e d c v a) a"
proof -
  have open': "canMutateCommercials Q_draft" "canMutateCommercials Q_customer_negotiation" by (simp_all add: canMutateCommercials_def)
  show "edit_obeys no_order id (portalChange_edit e cs v a) a"
    by (auto simp: edit_obeys_def portalChange_edit_def assertExpectedVersion_def store_saveNegotiation_def set_activeNegotiation_def
      wp_simps Let_def open' intro!: settle_no_order split: sum.split)
  show "edit_obeys no_order (case_option a id) (portalDecision_edit e d c v a) a"
    by (auto simp: edit_obeys_def portalDecision_edit_def assertExpectedVersion_def wp_simps Let_def no_order_def committed_def record_decision_def)
qed

lemma accept_lines_status: "wp (accept_lines e act a rs) (\<lambda>b _. status_of b = status_of a) (\<lambda>_. True) w"
proof (induction rs arbitrary: a w)
  case (Cons r rs)
  have "wp (accept_line e act a r) (\<lambda>b _. status_of b = status_of a) (\<lambda>_. True) w" for w
    by (simp add: accept_line_def wp_simps Let_def split: option.split sum.split)
  then show ?case unfolding accept_lines.simps wp_bnd by (rule wp_mono) (use Cons.IH in metis, simp)
qed (simp add: wp_simps)

lemma respond_no_order: "edit_obeys no_order id (respond_edit e n d note v act a) a"
  unfolding edit_obeys_def
proof
  fix w
  have own: "wp (own_negotiation q i) (\<lambda>r w. P r w) (\<lambda>_. True) w" if "\<And>r. P r w" for q i P
    using that by (simp add: own_negotiation_def store_getNegotiation_def wp_simps split: option.split)
  have fin: "no_order a (bumpVersion (set_activeNegotiation i b))" if "status_of b = status_of a" for i b
    using that by (simp add: no_order_def set_activeNegotiation_def)
  have acc: "wp (accept_lines e act a rs) (\<lambda>b w'. \<forall>i. no_order a (bumpVersion (set_activeNegotiation i b))) (\<lambda>_. True) w" for rs
    by (rule wp_mono [OF accept_lines_status]) (simp_all add: fin)
  show "wp (respond_edit e n d note v act a) (\<lambda>b _. no_order a (id b)) (\<lambda>_. True) w"
    by (auto simp: respond_edit_def assertExpectedVersion_def store_saveNegotiation_def wp_simps fin intro!: own wp_mono [OF acc])
qed

section \<open>Interpretation\<close>

interpretation unlocked: open_edits "\<lambda>w _ w'. related no_order w w'" no_order
  by (intro open_edits.intro related_outcome no_order_core open_edits_axioms.intro
      line_edits_no_order approval_edits_no_order negotiation_edits_no_order revise_no_order portal_no_order order_edits_no_order)
    (simp_all add: no_order_def)

lemma only_locking_makes_orders:
  assumes "inj U" "e_uuid e = U" "world_inv U w" "handle e r w = (out, w')" "\<not> locks r"
    and "quote_lookup w i = Some a" "quote_lookup w' i = Some b" "committed (status_of b)"
  shows "committed (status_of a)"
proof -
  have "related no_order w w'"
    using unlocked.open_requests [OF assms(1-3) _ assms(5,4)] unlocked.respond_request [OF respond_no_order assms(3) _ assms(4)]
    by (cases "responds r") auto
  then show ?thesis using assms(6-8) by (simp add: related_def no_order_def)
qed

end
