(* ===== verification/Dealflow_Server.thy ===== *)
theory Dealflow_Server
  imports Dealflow_Routes Dealflow_Locking
begin

text \<open>
  One request to the module from the socket to the answer: the protection against requests of other sites, the first
  route that matches, its middlewares, the parsing of parameters and body, the service call, and the status of the
  error handler (\<open>middleware/error-handler.ts\<close>, \<open>errors/normalize.ts\<close>). The state is that of the platform and of the
  module. A request that no route of the module matches is left to the rest of the application.
\<close>

section \<open>Answers\<close>

datatype http_failure = F_app app_error | F_domain domain_error

datatype response = Sent nat | Sent_read nat read_answer | Refused http_failure | Not_routed

text \<open>An error that is neither one of the platform nor an operational one with a status is answered with 500.\<close>

definition failure_status :: "http_failure \<Rightarrow> nat" where
  "failure_status f = (case (case f of F_app e \<Rightarrow> app_statusCode e | F_domain e \<Rightarrow> statusCode e) of Some n \<Rightarrow> n | None \<Rightarrow> 500)"

primrec response_status :: "response \<Rightarrow> nat" where
  "response_status (Sent n) = n"
| "response_status (Sent_read n a) = n"
| "response_status (Refused f) = failure_status f"
| "response_status Not_routed = 404"

section \<open>The handler of a route\<close>

definition answer_request :: "nat \<Rightarrow> domain_error option \<times> world \<Rightarrow> response \<times> world" where
  "answer_request n x = (case x of (None, w) \<Rightarrow> (Sent n, w) | (Some e, w) \<Rightarrow> (Refused (F_domain e), w))"

text \<open>The portal's agreement looks the quotation up by its token first. A PDF the renderer refuses rejects the handler.\<close>

fun exec_call :: "env \<Rightarrow> nat \<Rightarrow> call \<Rightarrow> world \<Rightarrow> response \<times> world" where
  "exec_call e n C_info w = (Sent n, w)"
| "exec_call e n (C_read r) w = (case handle_read e r w of
     (Inl err, w') \<Rightarrow> (Refused (F_domain err), w')
   | (Inr (Ans_pdf (Inl msg)), w') \<Rightarrow> (Refused (F_app (Js_error msg)), w')
   | (Inr a, w') \<Rightarrow> (Sent_read n a, w'))"
| "exec_call e n (C_do r) w = answer_request n (handle e r w)"
| "exec_call e n (C_agree t v) w = (case getQuoteByToken e t w of
     (Inl err, w') \<Rightarrow> (Refused (F_domain err), w')
   | (Inr q, w') \<Rightarrow> answer_request n (handle e (On_quotes (R_agree (vw_id q) v (Some portal_actor))) w'))"

section \<open>Serving a request\<close>

record server =
  sv_http :: http_env
  sv_service :: env
  sv_zod :: zod
  sv_match :: "string \<Rightarrow> string \<Rightarrow> json option"
  sv_ids :: "nat \<Rightarrow> string"

record api_request =
  ar_http :: http_request
  ar_path :: string
  ar_body :: "json option"

text \<open>A route for \<open>GET\<close> answers \<open>HEAD\<close> too.\<close>

definition method_matches :: "http_method \<Rightarrow> http_method \<Rightarrow> bool" where
  "method_matches registered m \<longleftrightarrow> m = registered \<or> (m = M_HEAD \<and> registered = M_GET)"

definition find_route :: "server \<Rightarrow> api_request \<Rightarrow> route option" where
  "find_route sv rq = find (\<lambda>r. method_matches (rt_method r) (rq_method (ar_http rq)) \<and> sv_match sv (rt_path r) (ar_path rq) \<noteq> None) dealflow_routes"

definition handler :: "server \<Rightarrow> api_request \<Rightarrow> route \<Rightarrow> authenticated_user option \<Rightarrow> world \<Rightarrow> response \<times> world" where
  "handler sv rq r user w =
     (case parse_params (sv_zod sv) r (the (sv_match sv (rt_path r) (ar_path rq))) of
        Inl err \<Rightarrow> (Refused (F_app err), w)
      | Inr p \<Rightarrow> (case parse_body (sv_zod sv) r (ar_body rq) of
          Inl err \<Rightarrow> (Refused (F_app err), w)
        | Inr b \<Rightarrow> (case rt_call r (sv_ids sv) (actorFrom user) p b of
            None \<Rightarrow> (Refused (F_app (Js_error ''the body has another shape than its schema'')), w)
          | Some c \<Rightarrow> exec_call (sv_service sv) (rt_status r) c w)))"

definition serve :: "server \<Rightarrow> api_request \<Rightarrow> http_state \<times> world \<Rightarrow> response \<times> http_state \<times> world" where
  "serve sv rq st = (case st of (s, w) \<Rightarrow>
     (case cookieCsrfProtection (sv_http sv) (ar_http rq) of
        Inl err \<Rightarrow> (Refused (F_app err), s, w)
      | Inr _ \<Rightarrow> (case find_route sv rq of
          None \<Rightarrow> (Not_routed, s, w)
        | Some r \<Rightarrow> (case run_guards (sv_http sv) (ar_http rq) (rt_guards r) None s of
            (Inl err, s') \<Rightarrow> (Refused (F_app err), s', w)
          | (Inr user, s') \<Rightarrow> (case handler sv rq r user w of (resp, w') \<Rightarrow> (resp, s', w'))))))"

section \<open>A served request is a run of the service\<close>

lemma answer_request_run: "snd (answer_request n x) = snd x"
  by (cases x) (auto simp: answer_request_def split: option.split)

lemma handle_run: "e_uuid e = U \<Longrightarrow> (Dealflow_System.step U)\<^sup>*\<^sup>* w (snd (handle e r w))"
  by (rule r_into_rtranclp, rule Dealflow_System.step.request [of e U r w "fst (handle e r w)"]) simp_all

lemma exec_call_run:
  assumes "e_uuid e = U"
  shows "(Dealflow_System.step U)\<^sup>*\<^sup>* w (snd (exec_call e n c w))"
proof (cases c)
  case (C_read r)
  have "snd (exec_call e n c w) = snd (handle_read e r w)"
    unfolding C_read by (auto split: prod.splits sum.splits read_answer.splits)
  then show ?thesis by (simp add: reads_write_nothing)
next
  case (C_agree t v)
  have run: "handle e (On_quotes (R_getQuoteByToken t)) w = run (getQuoteByToken e t) w" by simp
  obtain x w1 where g: "getQuoteByToken e t w = (x, w1)" by fastforce
  then have "snd (handle e (On_quotes (R_getQuoteByToken t)) w) = w1" unfolding run by simp
  then have one: "(Dealflow_System.step U)\<^sup>*\<^sup>* w w1" using handle_run [OF assms, of w "On_quotes (R_getQuoteByToken t)"] by (simp only:)
  show ?thesis
  proof (cases x)
    case (Inr q)
    have "(Dealflow_System.step U)\<^sup>*\<^sup>* w1 (snd (handle e (On_quotes (R_agree (vw_id q) v (Some portal_actor))) w1))"
      using handle_run [OF assms] .
    then show ?thesis using one g Inr C_agree by (simp add: answer_request_run del: handle.simps handle_quote.simps)
  qed (use one g C_agree in simp)
qed (use handle_run [OF assms] in \<open>simp_all add: answer_request_run del: handle.simps\<close>)

lemma handler_run: "e_uuid (sv_service sv) = U \<Longrightarrow> (Dealflow_System.step U)\<^sup>*\<^sup>* w (snd (handler sv rq r user w))"
  by (auto simp: handler_def exec_call_run split: sum.split option.split)

text \<open>How a request that is not refused before its handler got there.\<close>

lemma serve_cases:
  assumes "serve sv rq (s, w) = (resp, s', w')"
  obtains (stopped) "w' = w"
  | (routed) r user where "cookieCsrfProtection (sv_http sv) (ar_http rq) = Inr ()" and "find_route sv rq = Some r"
      and "run_guards (sv_http sv) (ar_http rq) (rt_guards r) None s = (Inr user, s')" and "handler sv rq r user w = (resp, w')"
  using assms by (auto simp: serve_def split: sum.splits option.splits prod.splits)

lemma serve_run:
  assumes "e_uuid (sv_service sv) = U" and "serve sv rq (s, w) = (resp, s', w')"
  shows "(Dealflow_System.step U)\<^sup>*\<^sup>* w w'"
  using assms(2)
proof (cases rule: serve_cases)
  case (routed r user)
  then show ?thesis using handler_run [OF assms(1), of w rq r user] by simp
qed simp

section \<open>The middlewares of the routes\<close>

text \<open>
  Every route that is neither the description of the module nor one of the portal asks for a permission, except three
  that ask for a session only.
\<close>

definition session_paths :: "string list" where
  "session_paths = [''/me/quotes'', ''/quotes/:id/negotiations'', ''/quotes/:id/agree'']"

definition guarded_route :: "route \<Rightarrow> bool" where
  "guarded_route r \<longleftrightarrow> rt_guards r = signed_in \<and> rt_path r \<in> set session_paths \<or> (\<exists>p. rt_guards r = permitted p)"

lemma guarded_routeI: "rt_guards r = permitted p \<Longrightarrow> guarded_route r" "rt_guards r = signed_in \<Longrightarrow> rt_path r \<in> set session_paths \<Longrightarrow> guarded_route r"
  by (auto simp: guarded_route_def)

lemmas guard_lists = g_read_def g_write_def g_approve_def g_fulfill_def g_bill_def g_catalog_def g_catalogWrite_def
  g_catalogProductWrite_def g_lock_def

lemma guarded_catalog: "guarded_route catalog_get"
  unfolding catalog_get_def guard_lists by (rule guarded_routeI(1)) simp

lemma guarded_groups:
  "list_all guarded_route governance_routes" "list_all guarded_route record_routes"
  "list_all guarded_route stock_routes" "list_all guarded_route policy_routes" "list_all guarded_route draft_routes"
  "list_all guarded_route negotiation_routes" "list_all guarded_route order_routes"
  unfolding governance_routes_def record_routes_def stock_routes_def policy_routes_def draft_routes_def
    negotiation_routes_def order_routes_def route_shapes guard_lists list.pred_inject
  by (intro conjI list.pred_inject(1); (rule guarded_routeI(1), rule route.select_convs
      | rule guarded_routeI(2), rule route.select_convs, simp add: session_paths_def))+

lemma route_kinds: "r \<in> set dealflow_routes \<Longrightarrow> r = info_route \<or> r \<in> set portal_routes \<or> guarded_route r"
  using guarded_catalog guarded_groups by (auto simp: dealflow_routes_def list_all_iff)

text \<open>The calls that lock a deal come from the routes with the permission to lock.\<close>

primrec locking :: "call \<Rightarrow> bool" where
  "locking C_info = False" | "locking (C_read r) = False" | "locking (C_agree t v) = False" | "locking (C_do r) = locks r"

definition unlocked_call :: "call option \<Rightarrow> bool" where
  "unlocked_call m \<longleftrightarrow> (\<forall>c. m = Some c \<longrightarrow> \<not> locking c)"

lemma unlocked_callI: "\<not> locking c \<Longrightarrow> unlocked_call (Some c)" "(\<And>x. unlocked_call (f x)) \<Longrightarrow> unlocked_call (Option.bind m f)"
  by (auto simp: unlocked_call_def bind_eq_Some_conv)

definition lock_guarded :: "route \<Rightarrow> bool" where
  "lock_guarded r \<longleftrightarrow> rt_guards r = g_lock \<or> (\<forall>ids act p b. unlocked_call (rt_call r ids act p b))"

lemma lock_guardedI:
  "rt_guards r = g_lock \<Longrightarrow> lock_guarded r" "(\<And>ids act p b. unlocked_call (rt_call r ids act p b)) \<Longrightarrow> lock_guarded r"
  by (simp_all add: lock_guarded_def)

lemma lock_singles: "lock_guarded info_route" "lock_guarded catalog_get"
  by (rule lock_guardedI(2), simp add: info_route_def catalog_get_def reading_def unlocked_call_def)+

lemma lock_groups:
  "list_all lock_guarded governance_routes" "list_all lock_guarded record_routes"
  "list_all lock_guarded stock_routes" "list_all lock_guarded policy_routes" "list_all lock_guarded draft_routes"
  "list_all lock_guarded negotiation_routes" "list_all lock_guarded order_routes" "list_all lock_guarded portal_routes"
  unfolding governance_routes_def record_routes_def stock_routes_def policy_routes_def draft_routes_def
    negotiation_routes_def order_routes_def portal_routes_def route_shapes list.pred_inject
  by (intro conjI list.pred_inject(1); (rule lock_guardedI(1), rule route.select_convs
      | rule lock_guardedI(2), simp only: route.select_convs route_shapes on_quotes_def on_catalog_def reading_def,
        ((rule unlocked_callI(2))+)?, rule unlocked_callI(1), simp))+

lemma lock_routes: "r \<in> set dealflow_routes \<Longrightarrow> lock_guarded r"
  using lock_singles lock_groups by (auto simp: dealflow_routes_def list_all_iff)

end
