(* ===== verification/Dealflow_HttpSample.thy ===== *)
theory Dealflow_HttpSample
  imports Dealflow_Server Dealflow_Run Platform_AuthSample
begin

text \<open>
  Concrete requests for the witnesses of the boundary: a parser that checks a value against its schema, a matcher that
  compares paths, and a session whose role has the permission to lock. The theory models no code.
\<close>

text \<open>A sound instance of the library: the parser that returns its input when the schema accepts it.\<close>

definition checking_zod :: "(string \<Rightarrow> bool) \<Rightarrow> (string \<Rightarrow> bool) \<Rightarrow> zod" where
  "checking_zod u m = \<lparr>zd_parse = (\<lambda>s v. if accepts \<lparr>zd_parse = (\<lambda>_ _. None), zd_uuid = u, zd_email = m\<rparr> s v then v else None),
     zd_uuid = u, zd_email = m\<rparr>"

lemma string_ok_cong: "zd_uuid Z = zd_uuid Y \<Longrightarrow> zd_email Z = zd_email Y \<Longrightarrow> string_ok Z s c = string_ok Y s c"
  by (cases c) auto

lemma accepts_cong: "zd_uuid Z = zd_uuid Y \<Longrightarrow> zd_email Z = zd_email Y \<Longrightarrow> accepts Z s v = accepts Y s v"
proof (induction Z s v rule: accepts.induct)
  case (1 Z cs v)
  then have "string_ok Z = string_ok Y" using string_ok_cong by blast
  then show ?case by (simp split: option.split json.split)
next
  case (5 Z s mn mx v)
  show ?case
  proof (cases "\<exists>vs. v = Some (V_arr vs)")
    case True
    then obtain vs where v: "v = Some (V_arr vs)" by blast
    have "list_all (\<lambda>x. accepts Z s (Some x)) vs = list_all (\<lambda>x. accepts Y s (Some x)) vs"
      using 5 v by (intro list.pred_cong) auto
    then show ?thesis by (simp add: v)
  qed (simp split: option.split json.split)
next
  case (6 Z strict fs v)
  show ?case
  proof (cases "\<exists>kvs. v = Some (V_obj kvs)")
    case True
    then obtain kvs where v: "v = Some (V_obj kvs)" by blast
    have "list_all (\<lambda>(k, s). accepts Z s (map_of kvs k)) fs = list_all (\<lambda>(k, s). accepts Y s (map_of kvs k)) fs"
      using 6 v by (intro list.pred_cong) auto
    then show ?thesis by (simp add: v)
  qed (simp split: option.split json.split)
qed simp_all

lemma checking_zod_sound: "zod_sound (checking_zod u m)"
  unfolding zod_sound_def
proof (intro allI impI)
  fix s v b assume p: "zd_parse (checking_zod u m) s v = Some b"
  have "accepts (checking_zod u m) s v = accepts \<lparr>zd_parse = (\<lambda>_ _. None), zd_uuid = u, zd_email = m\<rparr> s v"
    by (rule accepts_cong) (simp_all add: checking_zod_def)
  then show "accepts (checking_zod u m) s (Some b)" using p by (auto simp: checking_zod_def split: if_splits)
qed

section \<open>A session\<close>

definition lock_permission :: string where "lock_permission = ''dealflow.quotes.lock''"

definition session_state :: http_state where
  "session_state = \<lparr>hs_auth = (sy_state sample_start)\<lparr>as_rbac := \<lparr>rdb_roles = [\<lparr>row_id = ''r'', row_key = ''staff'', row_description = []\<rparr>],
     rdb_permissions = [\<lparr>row_id = ''q'', row_key = lock_permission, row_description = []\<rparr>],
     rdb_joins = [(''r'', ''q'')], rdb_ids = 0\<rparr>\<rparr>, hs_limits = []\<rparr>"

definition no_policy :: rate_policy where "no_policy = \<lparr>pc_max = 1, pc_windowMs = 1\<rparr>"

definition session_http :: http_env where
  "session_http = \<lparr>hv_auth = sample_auth, hv_config = \<lparr>hf_isProduction = True, hf_corsOrigins = [], hf_appUrl = ''a'', hf_frontendUrl = ''b'',
     hf_rateLimitEnabled = False, hf_failClosed = True, hf_publicApi = no_policy, hf_authentication = no_policy,
     hf_authenticatedApi = no_policy, hf_adminApi = no_policy, hf_ai = no_policy,
     hf_fileUpload = no_policy\<rparr>, hv_parseUrl = (\<lambda>_. None), hv_decodeURIComponent = Some\<rparr>"

definition session_request :: http_request where
  "session_request = \<lparr>rq_method = M_POST, rq_authorization = Some (''Bearer '' @ sample_access_token), rq_cookie = None, rq_origin = None,
     rq_referer = None, rq_ip = None, rq_remoteAddress = None\<rparr>"

definition session_user :: authenticated_user where
  "session_user = \<lparr>us_id = ''u'', us_email = ''a@b'', us_displayName = ''A'', us_status = U_active, us_role = ''staff'', us_roles = [''staff''], us_permissions = [lock_permission]\<rparr>"

lemma session_guards: "run_guards session_http session_request g_lock None session_state = (Inr (Some session_user), session_state)"
  by code_simp

section \<open>A served lock\<close>

definition session_server :: "string \<Rightarrow> server" where
  "session_server i = \<lparr>sv_http = session_http, sv_service = sample_env, sv_zod = checking_zod (\<lambda>_. True) (\<lambda>_. True),
     sv_match = (\<lambda>pattern path. if pattern = path then Some (V_obj [(''id'', V_str i)]) else None), sv_ids = sample_supply\<rparr>"

definition lock_request :: "int \<Rightarrow> api_request" where
  "lock_request v = \<lparr>ar_http = session_request, ar_path = ''/quotes/:id/lock'',
     ar_body = Some (V_obj [(''expectedVersion'', V_num (of_int v))])\<rparr>"

definition lock_route :: route where "lock_route = versioned M_POST ''/quotes/:id/lock'' g_lock R_lock"

lemma lock_found: "find_route (session_server i) (lock_request v) = Some lock_route"
  by (simp add: find_route_def session_server_def lock_request_def session_request_def method_matches_def lock_route_def
      dealflow_routes_def info_route_def catalog_get_def governance_routes_def record_routes_def stock_routes_def policy_routes_def
      draft_routes_def negotiation_routes_def route_shapes)

lemma lock_parsed:
  assumes "0 < v"
  shows "parse_params (sv_zod (session_server i)) lock_route (V_obj [(''id'', V_str i)]) = Inr (Some (V_obj [(''id'', V_str i)]))"
    and "parse_body (sv_zod (session_server i)) lock_route (ar_body (lock_request v)) = Inr (ar_body (lock_request v))"
  using assms by (simp_all add: parse_params_def parse_body_def body_given_def lock_route_def versioned_def session_server_def checking_zod_def
      lock_request_def idParamSchema_def expectedVersionSchema_def z_uuid_def z_version_def)

lemma lock_called:
  "rt_call lock_route ids act (Some (V_obj [(''id'', V_str i)])) (ar_body (lock_request v)) = Some (C_do (On_quotes (R_lock i act v)))"
  by (simp add: lock_route_def versioned_def lock_request_def p_id_def field_def get_def fld_def d_version_def on_quotes_def)

lemma lock_served:
  assumes "0 < v" and "handle sample_env (On_quotes (R_lock i (actorFrom (Some session_user)) v)) w = (None, w')"
  shows "serve (session_server i) (lock_request v) (session_state, w) = (Sent 200, session_state, w')"
proof -
  have csrf: "cookieCsrfProtection session_http session_request = Inr ()" by code_simp
  show ?thesis unfolding serve_def prod.case handler_def
    using assms(2) csrf session_guards lock_found [of i v] lock_parsed [OF assms(1), of i]
      lock_called [of sample_supply "actorFrom (Some session_user)" i v]
    by (simp add: answer_request_def session_server_def lock_request_def lock_route_def versioned_def del: handle.simps)
qed

lemma sample_locked:
  "\<exists>w w' i a b. sample_at Q_approved w i a \<and> sample_at Q_confirmed w' i b \<and>
     serve (session_server i) (lock_request (qt_version (ag_quote a))) (session_state, w) = (Sent 200, session_state, w')"
proof -
  obtain w i a where s: "sample_at Q_approved w i a" using sample_approved by blast
  note d = sample_atD [OF s] and inv = sample_at_inv [OF s]
  let ?act = "actorFrom (Some session_user)" and ?v = "qt_version (ag_quote a)"
  obtain x where x: "current_assessment sample_env w a = Some x" "qa_decision x = D_allowed"
    using sample_current [OF inv d(1,5,4)] by blast
  have may: "actorHas (Some ?act) ''dealflow.quotes.lock''" by (simp add: actorHas_def actorFrom_def session_user_def lock_permission_def)
  have "succeeds (lockDeal sample_env i ?act ?v) w i (reaches Q_confirmed a)"
    using confirm_succeeds [OF inv d(1,2) x(1) _ may] x(2) unfolding succeeds_def holds_def lockDeal_def by fastforce
  then obtain w' b where w': "sample_at Q_confirmed w' i b" "handle sample_env (On_quotes (R_lock i ?act ?v)) w = (None, w')"
    using sample_next [OF s, where r = "R_lock i ?act ?v"] by (metis handle_quote.simps(30))
  have "quote_inv a" using inv d(1) by (simp add: world_inv_def stored_ok_def)
  then have "0 < ?v" by (simp add: quote_inv_def)
  then show ?thesis using lock_served [OF _ w'(2)] s w'(1) by blast
qed

end
