(* ===== verification/Dealflow_Boundary.thy ===== *)
theory Dealflow_Boundary
  imports Dealflow_HttpSample
begin

text \<open>
  What the path of a request guarantees: every call the handlers make has arguments in the range of the schemas, every
  change of the module's state by a request has an authorised origin, and only a session with the permission to lock
  makes an order. The last section looks at the one route through which any session records the customer's agreement.
\<close>

section \<open>Parsed requests\<close>

lemma parse_params_sound:
  "zod_sound Z \<Longrightarrow> parse_params Z r v = Inr p \<Longrightarrow> rt_params r = Some s \<Longrightarrow> accepts Z s p"
  by (auto simp: parse_params_def zod_sound_def split: option.splits dest: sym)

lemma parse_body_sound:
  "zod_sound Z \<Longrightarrow> parse_body Z r v = Inr b \<Longrightarrow> rt_body r = Some (d, s) \<Longrightarrow> accepts Z s b"
  by (auto simp: parse_body_def zod_sound_def split: option.splits dest: sym)

lemma parsed_call:
  assumes "zod_sound Z" "r \<in> set dealflow_routes" "parse_params Z r v = Inr p" "parse_body Z r x = Inr b"
  obtains c where "rt_call r ids act p b = Some c" and "call_ok c"
proof -
  note sound = parse_params_sound [OF assms(1,3)] parse_body_sound [OF assms(1,4)]
  have "ok_with (rt_call r ids act p b) call_ok"
    using routes_typed [OF assms(2), of Z] sound unfolding typed_route_def by (auto split: option.splits)
  then show thesis using that by (auto simp: ok_with_def)
qed

lemma found_route: "find_route sv rq = Some r \<Longrightarrow> r \<in> set dealflow_routes"
  by (auto simp: find_route_def find_Some_iff)

text \<open>C14: Whatever a request carries, once its parameters and body have parsed, the handler of every route finds the fields it
  reads and makes its service call with arguments in the range the schemas promise (\<open>call_ok\<close>): quantities and versions
  positive, percentages between 0 and 100, required texts not empty, lists that must have an element not empty. The
  parser is assumed to return a value its schema accepts.
\<close>

theorem parsed_requests_are_in_range:
  assumes "zod_sound (sv_zod sv)" "find_route sv rq = Some r"
    and "parse_params (sv_zod sv) r v = Inr p" "parse_body (sv_zod sv) r (ar_body rq) = Inr b"
  shows "\<exists>c. rt_call r (sv_ids sv) (actorFrom user) p b = Some c \<and> call_ok c"
  using parsed_call [OF assms(1) found_route [OF assms(2)] assms(3,4)] by metis

theorem parsed_requests_are_in_range_witness:
  "zod_sound (sv_zod (session_server ''q'')) \<and> (\<exists>c. rt_call lock_route sample_supply (actorFrom None) (Some (V_obj [(''id'', V_str ''q'')]))
     (ar_body (lock_request 1)) = Some c \<and> call_ok c)"
proof -
  have z: "zod_sound (sv_zod (session_server ''q''))" "sv_ids (session_server ''q'') = sample_supply"
    by (simp_all add: session_server_def checking_zod_sound)
  note l = lock_parsed [of 1 "''q''", simplified]
  show ?thesis using parsed_requests_are_in_range [OF z(1) lock_found l(1) l(2), of None] z by simp
qed

section \<open>Authorised changes\<close>

text \<open>The user a guarded route lets through, and where the request comes from.\<close>

definition authorised :: "server \<Rightarrow> api_request \<Rightarrow> http_state \<Rightarrow> route \<Rightarrow> authenticated_user \<Rightarrow> bool" where
  "authorised sv rq s r u \<longleftrightarrow> logged_in (sv_http sv) (ar_http rq) (hs_auth s) u \<and>
     (rt_guards r = signed_in \<and> rt_path r \<in> set session_paths \<or> (\<exists>p. rt_guards r = permitted p \<and> hasPermission u [p])) \<and>
     (rq_method (ar_http rq) \<in> set SAFE_METHODS \<or> tryExtractBearerToken (rq_authorization (ar_http rq)) \<noteq> None \<or>
      isTrustedOrigin (sv_http sv) (request_origin (sv_http sv) (ar_http rq)))"

lemma assertPermission_has: "assertPermission (Some u) ps = Inr u \<Longrightarrow> hasPermission u ps"
  by (auto simp: assertPermission_def assertAuthenticated_def split: if_splits)

lemma guarded_authorised:
  assumes "cookieCsrfProtection (sv_http sv) (ar_http rq) = Inr ()" and "guarded_route r"
    and "run_guards (sv_http sv) (ar_http rq) (rt_guards r) None s = (Inr user, s')"
  obtains u where "user = Some u" and "authorised sv rq s r u"
proof -
  have "(rt_guards r = signed_in \<and> rt_path r \<in> set session_paths) \<or> (\<exists>p. rt_guards r = permitted p)"
    using assms(2) by (simp add: guarded_route_def)
  then obtain pss where g: "rt_guards r = G_rateLimit Rc_authenticated # authenticateUser @ map G_requirePermission pss"
      and k: "pss = [] \<and> rt_guards r = signed_in \<and> rt_path r \<in> set session_paths \<or> (\<exists>p. pss = [[p]] \<and> rt_guards r = permitted p)"
    unfolding signed_in_def permitted_def by (metis list.map append_Nil2)
  obtain u where u: "user = Some u" "logged_in (sv_http sv) (ar_http rq) (hs_auth s) u"
      "\<And>ps. ps \<in> set pss \<Longrightarrow> assertPermission (Some u) ps = Inr u"
    using guarded_user [OF assms(3) [unfolded g]] by blast
  have "authorised sv rq s r u"
    using csrf_guard [OF assms(1) u(2)] u(2) k u(3) assertPermission_has unfolding authorised_def by fastforce
  then show thesis using that u(1) by blast
qed

lemma info_quiet: "handler sv rq info_route user w = (resp, w') \<Longrightarrow> w' = w"
  by (auto simp: handler_def info_route_def parse_params_def parse_body_def)

lemma served_change:
  assumes "serve sv rq (s, w) = (resp, s', w')" and "w' \<noteq> w"
  obtains (portal) r where "find_route sv rq = Some r" "r \<in> set portal_routes"
  | (session) r u where "find_route sv rq = Some r" "authorised sv rq s r u"
  using assms(1)
proof (cases rule: serve_cases)
  case (routed r user)
  consider "r = info_route" | "r \<in> set portal_routes" | "guarded_route r" using route_kinds [OF found_route [OF routed(2)]] by blast
  then show thesis
  proof cases
    case 1
    then show thesis using info_quiet routed(4) assms(2) by blast
  next
    case 3
    then show thesis using guarded_authorised [OF routed(1) 3 routed(3)] session [OF routed(2)] by blast
  qed (use portal [OF routed(2)] in blast)
qed (use assms(2) in blast)

text \<open>C2: A request that changes the module's state has an authorised origin. Either its route is one of the customer portal,
  where the token in the path is the authority; or the request carries a valid session of a user, the route's middlewares
  ask for a permission the user has (or the route is one of the three that ask for a session only), and, when the method
  is not a safe one and no bearer token is presented, the request comes from a trusted origin.
\<close>

theorem served_change_is_authorised:
  assumes "serve sv rq (s, w) = (resp, s', w')" and "w' \<noteq> w"
  shows "\<exists>r. find_route sv rq = Some r \<and> (r \<in> set portal_routes \<or> (\<exists>u. logged_in (sv_http sv) (ar_http rq) (hs_auth s) u \<and>
     (rt_guards r = signed_in \<and> rt_path r \<in> set session_paths \<or> (\<exists>p. rt_guards r = permitted p \<and> hasPermission u [p])) \<and>
     (rq_method (ar_http rq) \<in> set SAFE_METHODS \<or> tryExtractBearerToken (rq_authorization (ar_http rq)) \<noteq> None \<or>
      isTrustedOrigin (sv_http sv) (request_origin (sv_http sv) (ar_http rq)))))"
  using assms by (cases rule: served_change) (auto simp: authorised_def)

lemma sample_change: "sample_at s w i a \<Longrightarrow> sample_at s' w' i b \<Longrightarrow> s' \<noteq> s \<Longrightarrow> w' \<noteq> w"
  by (auto simp: sample_at_def)

theorem served_change_is_authorised_witness:
  "\<exists>w w' i v. serve (session_server i) (lock_request v) (session_state, w) = (Sent 200, session_state, w') \<and> w' \<noteq> w \<and>
     (\<exists>r. find_route (session_server i) (lock_request v) = Some r \<and> (r \<in> set portal_routes \<or> (\<exists>u. logged_in session_http session_request (hs_auth session_state) u)))"
proof -
  obtain w w' i a b where s: "sample_at Q_approved w i a" "sample_at Q_confirmed w' i b"
      "serve (session_server i) (lock_request (qt_version (ag_quote a))) (session_state, w) = (Sent 200, session_state, w')"
    using sample_locked by blast
  have "w' \<noteq> w" using sample_change [OF s(1,2)] by simp
  then show ?thesis using served_change_is_authorised [OF s(3)] s(3) unfolding session_server_def lock_request_def
    by (fastforce simp: session_server_def lock_request_def)
qed

section \<open>Orders\<close>

lemma getQuoteByToken_quiet: "quiet (getQuoteByToken e t)"
  unfolding getQuoteByToken_def load_by_token_def attach_opt_def by (intro quiet_intros)

lemma exec_unlocked:
  assumes "reachable U w" "e_uuid e = U" "\<not> locking c" "exec_call e n c w = (resp, w')"
    and "quote_lookup w i = Some a" "quote_lookup w' i = Some b" "committed (status_of b)"
  shows "committed (status_of a)"
proof -
  note inv = reachable_inv [OF assms(1)]
  show ?thesis
  proof (cases c)
    case (C_do r)
    then have "handle e r w = (fst (handle e r w), w')" using assms(4) answer_request_run [of n "handle e r w"] by (metis exec_call.simps(3) prod.collapse snd_conv)
    then show ?thesis using only_locking_makes_orders [OF inv(1) assms(2) inv(2) _ _ assms(5-7)] assms(3) C_do by simp
  next
    case (C_read r)
    have "w' = w" using assms(4) reads_write_nothing [of e r w] unfolding C_read by (auto split: prod.splits sum.splits read_answer.splits)
    then show ?thesis using assms(5-7) by simp
  next
    case (C_agree t v)
    obtain x w1 where g: "getQuoteByToken e t w = (x, w1)" by fastforce
    then have q: "w_quotes w1 = w_quotes w" using getQuoteByToken_quiet by (metis quiet_def same_core_def snd_conv)
    have "handle e (On_quotes (R_getQuoteByToken t)) w = run (getQuoteByToken e t) w" by simp
    then have "snd (handle e (On_quotes (R_getQuoteByToken t)) w) = w1" using g by simp
    then have inv1: "world_inv U w1" using reachable_inv(2) reachable_run [OF assms(1) handle_run [OF assms(2)]] by metis
    have lk: "quote_lookup w1 i = Some a" using assms(5) lookup_quotes [OF q] by simp
    show ?thesis
    proof (cases x)
      case (Inr y)
      let ?r = "On_quotes (R_agree (vw_id y) v (Some portal_actor))"
      have "handle e ?r w1 = (fst (handle e ?r w1), w')"
        using assms(4) g Inr C_agree answer_request_run [of n "handle e ?r w1"] by (simp add: prod_eq_iff del: handle.simps)
      from only_locking_makes_orders [OF inv(1) assms(2) inv1 this _ lk assms(6,7)] show ?thesis by simp
    qed (use assms(4-7) g C_agree lookup_quotes [OF q] in auto)
  qed (use assms(4-7) in simp)
qed

text \<open>C1: Only a request with a session of a user who has the permission \<open>dealflow.quotes.lock\<close> makes an order: when a
  served request takes a quotation from a status that is none of an order to one that is, the request carries a valid
  session of a user with that permission.
\<close>

theorem orders_need_the_lock_permission:
  assumes "reachable U w" "e_uuid (sv_service sv) = U" "serve sv rq (s, w) = (resp, s', w')"
    and "quote_lookup w i = Some a" "quote_lookup w' i = Some b" "committed (status_of b)" "\<not> committed (status_of a)"
  shows "\<exists>u. logged_in (sv_http sv) (ar_http rq) (hs_auth s) u \<and> hasPermission u [''dealflow.quotes.lock'']"
  using assms(3)
proof (cases rule: serve_cases)
  case (routed r user)
  have "rt_guards r = g_lock"
  proof (rule ccontr)
    assume "rt_guards r \<noteq> g_lock"
    then have free: "\<And>ids act p b c. rt_call r ids act p b = Some c \<Longrightarrow> \<not> locking c"
      using lock_routes [OF found_route [OF routed(2)]] by (auto simp: lock_guarded_def unlocked_call_def)
    have "w' = w \<or> (\<exists>c n. \<not> locking c \<and> exec_call (sv_service sv) n c w = (resp, w'))"
      using routed(4) free unfolding handler_def by (fastforce split: sum.splits option.splits)
    then show False using exec_unlocked [OF assms(1,2) _ _ assms(4-6)] assms(4-7) by auto
  qed
  then have g: "rt_guards r = permitted ''dealflow.quotes.lock''" by (simp add: g_lock_def)
  then have "guarded_route r" by (rule guarded_routeI(1))
  from guarded_authorised [OF routed(1) this routed(3)] obtain u where u: "authorised sv rq s r u" by blast
  have "hasPermission u [''dealflow.quotes.lock'']" using u g by (auto simp: authorised_def permitted_def signed_in_def)
  then show ?thesis using u by (auto simp: authorised_def)
qed (use assms(4-7) in simp)

theorem orders_need_the_lock_permission_witness:
  "\<exists>w w' i v a b. reachable sample_supply w \<and> serve (session_server i) (lock_request v) (session_state, w) = (Sent 200, session_state, w') \<and>
     quote_lookup w i = Some a \<and> quote_lookup w' i = Some b \<and> committed (status_of b) \<and> \<not> committed (status_of a) \<and>
     (\<exists>u. logged_in session_http session_request (hs_auth session_state) u \<and> hasPermission u [''dealflow.quotes.lock''])"
proof -
  obtain w w' i a b where s: "sample_at Q_approved w i a" "sample_at Q_confirmed w' i b"
      "serve (session_server i) (lock_request (qt_version (ag_quote a))) (session_state, w) = (Sent 200, session_state, w')"
    using sample_locked by blast
  note d = sample_atD(1,2) [OF s(1)] sample_atD(1,2) [OF s(2)]
  have c: "committed (status_of b)" "\<not> committed (status_of a)" using d by (simp_all add: committed_def)
  have "e_uuid (sv_service (session_server i)) = sample_supply" by (simp add: session_server_def)
  from orders_need_the_lock_permission [OF sample_reachable [OF s(1)] this s(3) d(1,3) c]
  have "\<exists>u. logged_in session_http session_request (hs_auth session_state) u \<and> hasPermission u [''dealflow.quotes.lock'']"
    by (simp add: session_server_def lock_request_def)
  then show ?thesis using sample_reachable [OF s(1)] s(3) d c by blast
qed

section \<open>The customer's agreement\<close>

lemma agree_succeeds:
  assumes "world_inv U w" "quote_lookup w i = Some a"
    and st: "status_of a \<in> {Q_draft, Q_customer_negotiation, Q_manager_review, Q_finalized}"
    and none: "filter (\<lambda>n. ng_quoteId n = i) (w_negotiations w) = []"
  shows "succeeds (agreeToFinal e i (qt_version (ag_quote a)) act) w i
    (\<lambda>c. status_of c = status_of a \<and> qt_customerDecision (ag_quote c) = C_accepted)"
  unfolding agreeToFinal_def
proof (rule plain_handler_returns [OF assms(1,2) agree_edit_ok])
  fix b assume c: "core b = core a"
  note r = core_readsD [OF c]
  have "quote_lookup w i = Some a \<Longrightarrow> qt_id (ag_quote a) = i" using assms(1) by (auto simp: world_inv_def stored_ok_def)
  then have "qt_id (ag_quote b) = i" using assms(2) core_eqD(5) [OF c] by simp
  then show "wp (agree_edit e (qt_version (ag_quote a)) b)
      (\<lambda>c _. status_of c = status_of a \<and> qt_customerDecision (ag_quote c) = C_accepted) (\<lambda>_. False) w"
    using st none by (auto simp: agree_edit_def assertExpectedVersion_def store_listNegotiations_def latest_negotiation_def
      first_def record_decision_def wp_simps r Let_def)
qed (intro quiet_intros returns_intros)+

text \<open>C16: The customer's agreement is not tied to the customer: whoever the user of a session is, the call the route
  \<open>POST /quotes/:id/agree\<close> makes for them (its middlewares ask for a session, for no permission) succeeds on a
  quotation that is open to agreement and has no negotiation, and records the customer's decision as accepted.
\<close>

theorem any_session_records_agreement:
  assumes "world_inv U w" "quote_lookup w i = Some a" "filter (\<lambda>n. ng_quoteId n = i) (w_negotiations w) = []"
    and "status_of a \<in> {Q_draft, Q_customer_negotiation, Q_manager_review, Q_finalized}"
  shows "\<exists>r\<in>set dealflow_routes. rt_path r = ''/quotes/:id/agree'' \<and> rt_guards r = signed_in \<and> rt_status r = 200 \<and>
     (\<forall>ids user. rt_call r ids (actorFrom user) (Some (V_obj [(''id'', V_str i)]))
        (Some (V_obj [(''expectedVersion'', V_num (of_int (qt_version (ag_quote a))))])) =
        Some (C_do (On_quotes (R_agree i (qt_version (ag_quote a)) (Some (actorFrom user)))))) \<and>
     (\<forall>user. \<exists>w' b. exec_call e 200 (C_do (On_quotes (R_agree i (qt_version (ag_quote a)) (Some (actorFrom user))))) w =
        (Sent 200, w') \<and> quote_lookup w' i = Some b \<and> qt_customerDecision (ag_quote b) = C_accepted)"
proof -
  let ?r = "versioned M_POST ''/quotes/:id/agree'' signed_in (\<lambda>i act v. R_agree i v (Some act))" and ?v = "qt_version (ag_quote a)"
  have "?r \<in> set negotiation_routes" unfolding negotiation_routes_def by (intro list.set_intros)
  then have r: "?r \<in> set dealflow_routes" by (simp add: dealflow_routes_def)
  have ok: "\<exists>w' b. exec_call e 200 (C_do (On_quotes (R_agree i ?v (Some act)))) w = (Sent 200, w') \<and>
      quote_lookup w' i = Some b \<and> qt_customerDecision (ag_quote b) = C_accepted" for act
  proof -
    obtain w' where w': "run (agreeToFinal e i ?v (Some act)) w = (None, w')"
        "holds w' i (\<lambda>c. status_of c = status_of a \<and> qt_customerDecision (ag_quote c) = C_accepted)"
      using succeeds_run [OF agree_succeeds [OF assms(1,2,4,3)]] by blast
    obtain b c where b: "quote_lookup w' i = Some b" "core b = core c" "qt_customerDecision (ag_quote c) = C_accepted"
      using w'(2) by (auto simp: holds_def)
    have "qt_customerDecision (ag_quote b) = C_accepted" using b(2,3) by (simp add: core_def Let_def)
    then show ?thesis using w'(1) b(1) by (simp add: answer_request_def)
  qed
  show ?thesis
    by (rule bexI [OF _ r]) (use ok in \<open>simp add: versioned_def p_id_def field_def get_def fld_def d_version_def on_quotes_def del: exec_call.simps\<close>)
qed

theorem any_session_records_agreement_witness:
  "\<exists>w i a. world_inv sample_supply w \<and> quote_lookup w i = Some a \<and> status_of a = Q_draft \<and> (\<forall>user. \<exists>w' b.
     exec_call sample_env 200 (C_do (On_quotes (R_agree i (qt_version (ag_quote a)) (Some (actorFrom user))))) w = (Sent 200, w') \<and>
     quote_lookup w' i = Some b \<and> qt_customerDecision (ag_quote b) = C_accepted)"
proof -
  obtain w i a where s: "sample_at Q_draft w i a" using sample_draft by blast
  let ?w = "w\<lparr>w_negotiations := []\<rparr>"
  have same: "quote_lookup ?w = quote_lookup w" by (rule lookup_quotes) simp
  have "world_inv sample_supply ?w"
    using sample_at_inv [OF s] unfolding world_inv_def same stored_ok_def by (simp add: line_refs_def)
  moreover have "quote_lookup ?w i = Some a" using sample_atD(1) [OF s] same by simp
  moreover have d: "status_of a = Q_draft" by (rule sample_atD(2) [OF s])
  moreover have "filter (\<lambda>n. ng_quoteId n = i) (w_negotiations ?w) = []" by simp
  ultimately show ?thesis using any_session_records_agreement [of sample_supply ?w i a sample_env] by (metis insertI1)
qed

end
