(* ===== verification/Platform_Capabilities.thy ===== *)
theory Platform_Capabilities
  imports Platform_Rbac
begin

text \<open>
  The capability platform: the graph of the declared capabilities (\<open>capabilities/graph.ts\<close>) and the validation of an
  explicit selection (\<open>capabilities/resolve.ts\<close>). Adjacency is a map from names to lists of names. The two loops that
  follow names without a bound in sight, the closure and the way back along a cycle, are partial functions into
  \<open>option\<close>; the depth-first search carries a depth. The catalogue of the platform is an argument. Names are those of
  capabilities, not of properties every JavaScript object has, and of characters below the arrow that joins a cycle for
  comparison and display, which is \<open>ARROW\<close>.
\<close>

section \<open>Capabilities and their graph\<close>

datatype capability_kind = Ck_application | Ck_infrastructure | Ck_adapter | Ck_architecture_mode | Ck_deployment_mode

record capability_definition =
  cd_name :: string
  cd_kind :: capability_kind
  cd_category :: string
  cd_maturity :: string
  cd_dependencies :: "string list"
  cd_optionalDependencies :: "string list"
  cd_conflicts :: "string list"
  cd_environmentRequirements :: "string list"
  cd_infrastructureRequirements :: "string list"
  cd_providerRequirements :: "string list"
  cd_architectureCompatibility :: "string list"
  cd_deploymentCompatibility :: "string list"

record graph_node =
  gn_name :: string
  gn_kind :: capability_kind
  gn_category :: string
  gn_maturity :: string
  gn_dependencies :: "string list"
  gn_optionalDependencies :: "string list"
  gn_conflicts :: "string list"
  gn_environmentRequirements :: "string list"
  gn_infrastructureRequirements :: "string list"
  gn_providerRequirements :: "string list"
  gn_architectureCompatibility :: "string list"
  gn_deploymentCompatibility :: "string list"

datatype edge_kind = Ed_dependency | Ed_optional_dependency | Ed_conflict

record graph_edge =
  ge_from :: string
  ge_to :: string
  ge_kind :: edge_kind

record capability_graph =
  gr_nodes :: "graph_node list"
  gr_edges :: "graph_edge list"
  gr_adjacency :: "string \<rightharpoonup> string list"
  gr_optionalAdjacency :: "string \<rightharpoonup> string list"
  gr_conflictAdjacency :: "string \<rightharpoonup> string list"

primrec EDGE_KIND_ORDER :: "edge_kind \<Rightarrow> rat" where
  "EDGE_KIND_ORDER Ed_dependency = 0"
| "EDGE_KIND_ORDER Ed_optional_dependency = 1"
| "EDGE_KIND_ORDER Ed_conflict = 2"

definition compareCapabilityNames :: "string \<Rightarrow> string \<Rightarrow> rat" where
  "compareCapabilityNames left right = (if str_less left right then - 1 else if str_less right left then 1 else 0)"

text \<open>\<open>new Set(names)\<close> keeps the first of equal names.\<close>

definition uniqueSortedNames :: "string list \<Rightarrow> string list" where
  "uniqueSortedNames names = js_sort compareCapabilityNames (rev (remdups (rev names)))"

definition compareEdges :: "graph_edge \<Rightarrow> graph_edge \<Rightarrow> rat" where
  "compareEdges l r =
     (if compareCapabilityNames (ge_from l) (ge_from r) \<noteq> 0 then compareCapabilityNames (ge_from l) (ge_from r)
      else if EDGE_KIND_ORDER (ge_kind l) - EDGE_KIND_ORDER (ge_kind r) \<noteq> 0 then EDGE_KIND_ORDER (ge_kind l) - EDGE_KIND_ORDER (ge_kind r)
      else compareCapabilityNames (ge_to l) (ge_to r))"

definition node_of :: "capability_definition \<Rightarrow> graph_node" where
  "node_of c = (let dependencies = uniqueSortedNames (cd_dependencies c) in
     \<lparr>gn_name = cd_name c, gn_kind = cd_kind c, gn_category = cd_category c, gn_maturity = cd_maturity c,
      gn_dependencies = dependencies,
      gn_optionalDependencies = filter (\<lambda>n. n \<notin> set dependencies) (uniqueSortedNames (cd_optionalDependencies c)),
      gn_conflicts = uniqueSortedNames (cd_conflicts c),
      gn_environmentRequirements = uniqueSortedNames (cd_environmentRequirements c),
      gn_infrastructureRequirements = uniqueSortedNames (cd_infrastructureRequirements c),
      gn_providerRequirements = uniqueSortedNames (cd_providerRequirements c),
      gn_architectureCompatibility = uniqueSortedNames (cd_architectureCompatibility c),
      gn_deploymentCompatibility = uniqueSortedNames (cd_deploymentCompatibility c)\<rparr>)"

definition node_edges :: "graph_node \<Rightarrow> graph_edge list" where
  "node_edges n = map (\<lambda>d. \<lparr>ge_from = gn_name n, ge_to = d, ge_kind = Ed_dependency\<rparr>) (gn_dependencies n) @
     map (\<lambda>d. \<lparr>ge_from = gn_name n, ge_to = d, ge_kind = Ed_optional_dependency\<rparr>) (gn_optionalDependencies n) @
     map (\<lambda>d. \<lparr>ge_from = gn_name n, ge_to = d, ge_kind = Ed_conflict\<rparr>) (gn_conflicts n)"

text \<open>Of two capabilities with one name the later one of the sorted list stays in the adjacency, both stay nodes.\<close>

definition adjacency_by :: "(graph_node \<Rightarrow> string list) \<Rightarrow> graph_node list \<Rightarrow> string \<rightharpoonup> string list" where
  "adjacency_by f nodes = fold (\<lambda>n m. m(gn_name n \<mapsto> f n)) nodes Map.empty"

definition buildCapabilityGraph :: "capability_definition list \<Rightarrow> capability_graph" where
  "buildCapabilityGraph capabilities =
     (let nodes = map node_of (js_sort (\<lambda>l r. compareCapabilityNames (cd_name l) (cd_name r)) capabilities) in
      \<lparr>gr_nodes = nodes, gr_edges = js_sort compareEdges (concat (map node_edges nodes)),
       gr_adjacency = adjacency_by gn_dependencies nodes,
       gr_optionalAdjacency = adjacency_by gn_optionalDependencies nodes,
       gr_conflictAdjacency = adjacency_by gn_conflicts nodes\<rparr>)"

definition nodeNames :: "capability_graph \<Rightarrow> string list" where
  "nodeNames g = map gn_name (gr_nodes g)"

text \<open>\<open>graph.adjacency[name] ?? []\<close>\<close>

definition entries :: "(string \<rightharpoonup> string list) \<Rightarrow> string \<Rightarrow> string list" where
  "entries m n = (case m n of None \<Rightarrow> [] | Some xs \<Rightarrow> xs)"

section \<open>The closure of required dependencies\<close>

text \<open>The stack is a list whose head is the top: what is pushed last is taken first.\<close>

partial_function (option) closure_loop ::
  "(string \<Rightarrow> string list) \<Rightarrow> string list \<Rightarrow> string list \<Rightarrow> string list \<Rightarrow> string list option" where
  "closure_loop deps known seen stack =
     (if stack = [] then Some seen
      else if hd stack = [] \<or> hd stack \<in> set seen then closure_loop deps known seen (tl stack)
      else let seen' = seen @ [hd stack] in
        closure_loop deps known seen' (rev (filter (\<lambda>d. d \<notin> set seen' \<and> d \<in> set known) (deps (hd stack))) @ tl stack))"

definition requiredClosure :: "capability_graph \<Rightarrow> string list \<Rightarrow> string list option" where
  "requiredClosure g names =
     map_option (js_sort compareCapabilityNames)
       (closure_loop (entries (gr_adjacency g)) (nodeNames g) []
          (rev (filter (\<lambda>n. n \<in> set (nodeNames g)) (uniqueSortedNames names))))"

section \<open>The topological order\<close>

fun insertSorted :: "string list \<Rightarrow> string \<Rightarrow> string list" where
  "insertSorted [] name = [name]"
| "insertSorted (x # xs) name = (if compareCapabilityNames x name < 0 then x # insertSorted xs name else name # x # xs)"

definition in_graph :: "capability_graph \<Rightarrow> string list \<Rightarrow> string list" where
  "in_graph g names = filter (\<lambda>n. gr_adjacency g n \<noteq> None) (uniqueSortedNames names)"

definition indegree_of :: "(string \<Rightarrow> string list) \<Rightarrow> string list \<Rightarrow> string \<Rightarrow> int" where
  "indegree_of deps selected n = (if n \<in> set selected then int (length (filter (\<lambda>d. d \<in> set selected) (deps n))) else 0)"

definition dependents_of :: "(string \<Rightarrow> string list) \<Rightarrow> string list \<Rightarrow> string \<Rightarrow> string list" where
  "dependents_of deps selected d =
     (if d \<in> set selected then uniqueSortedNames (concat (map (\<lambda>n. map (\<lambda>_. n) (filter (\<lambda>x. x = d) (deps n))) selected)) else [])"

text \<open>One step of the loop over the dependents of a name that has been emitted.\<close>

fun relax :: "string list \<Rightarrow> (string \<Rightarrow> int) \<Rightarrow> string list \<Rightarrow> (string \<Rightarrow> int) \<times> string list" where
  "relax [] indegree ready = (indegree, ready)"
| "relax (d # ds) indegree ready =
     (let next' = indegree d - 1 in relax ds (indegree(d := next')) (if next' = 0 then insertSorted ready d else ready))"

lemma set_uniqueSortedNames [simp]: "set (uniqueSortedNames xs) = set xs"
  by (simp add: uniqueSortedNames_def)

lemma distinct_uniqueSortedNames [simp]: "distinct (uniqueSortedNames xs)"
  using js_sort_distinct_map [of id compareCapabilityNames "rev (remdups (rev xs))"] by (simp add: uniqueSortedNames_def)

lemma set_insertSorted [simp]: "set (insertSorted xs x) = insert x (set xs)"
  by (induction xs) auto

lemma length_insertSorted [simp]: "length (insertSorted xs x) = Suc (length xs)"
  by (induction xs) auto

lemma dependents_selected: "set (dependents_of deps selected d) \<subseteq> set selected"
  by (auto simp: dependents_of_def)

definition waiting :: "(string \<Rightarrow> int) \<Rightarrow> string list \<Rightarrow> string set" where
  "waiting indegree selected = {n \<in> set selected. 0 < indegree n}"

text \<open>A name that becomes ready stops waiting.\<close>

lemma relax_measure:
  assumes "relax ds i r = (i', r')" and "set ds \<subseteq> set selected"
  shows "length r' + card (waiting i' selected) \<le> length r + card (waiting i selected)"
  using assms
proof (induction ds i r rule: relax.induct)
  case (2 d ds i r)
  have fin: "finite (waiting j selected)" for j by (simp add: waiting_def)
  let ?i = "i(d := i d - 1)" and ?r = "if i d - 1 = 0 then insertSorted r d else r"
  have "length ?r + card (waiting ?i selected) \<le> length r + card (waiting i selected)"
  proof (cases "i d = 1")
    case True
    then have "d \<in> waiting i selected" "waiting ?i selected = waiting i selected - {d}" using 2(3) by (auto simp: waiting_def)
    then show ?thesis using True card.remove [OF fin] by simp
  next
    case False
    have "waiting ?i selected \<subseteq> waiting i selected" by (auto simp: waiting_def)
    then show ?thesis using False card_mono [OF fin] by simp
  qed
  moreover have "length r' + card (waiting i' selected) \<le> length ?r + card (waiting ?i selected)"
    using 2(1) [OF refl] 2(2,3) unfolding relax.simps Let_def fun_upd_def by simp
  ultimately show ?case by linarith
qed simp

text \<open>The loop of Kahn's algorithm. It stops at an empty name, as the code does.\<close>

function kahn :: "string list \<Rightarrow> (string \<Rightarrow> string list) \<Rightarrow> (string \<Rightarrow> int) \<Rightarrow> string list \<Rightarrow> string list \<Rightarrow> string list" where
  "kahn selected deps indegree [] ordered = ordered"
| "kahn selected deps indegree (current # ready) ordered =
     (if current = [] then ordered
      else case relax (dependents_of deps selected current) indegree ready of
        (indegree', ready') \<Rightarrow> kahn selected deps indegree' ready' (ordered @ [current]))"
  by pat_completeness auto
termination
proof (relation "measure (\<lambda>(selected, deps, indegree, ready, ordered). length ready + card (waiting indegree selected))")
qed (use relax_measure [OF sym dependents_selected] in \<open>simp_all add: less_Suc_eq_le\<close>)

definition topologicalOrder :: "capability_graph \<Rightarrow> string list \<Rightarrow> string list" where
  "topologicalOrder g names =
     (let selected = in_graph g names; deps = entries (gr_adjacency g); indegree = indegree_of deps selected in
      kahn selected deps indegree (filter (\<lambda>n. indegree n = 0) selected) [])"

section \<open>Circular dependencies\<close>

text \<open>From the node that closes a cycle back along the parents; a missing or empty parent ends the walk.\<close>

partial_function (option) walk_up :: "(string \<rightharpoonup> string) \<Rightarrow> string \<Rightarrow> string \<Rightarrow> string list \<Rightarrow> string list option" where
  "walk_up parent cursor backTo cycle =
     (if cursor = backTo then Some cycle
      else if parent cursor = None \<or> parent cursor = Some [] then Some (cycle @ [cursor])
      else walk_up parent (the (parent cursor)) backTo (cycle @ [cursor]))"

definition walkCycle :: "(string \<rightharpoonup> string) \<Rightarrow> string \<Rightarrow> string \<Rightarrow> string list option" where
  "walkCycle parent from backTo = map_option (\<lambda>cycle. rev (cycle @ [backTo])) (walk_up parent from backTo [backTo])"

definition min_index :: "string list \<Rightarrow> nat" where
  "min_index body = foldl (\<lambda>m i. if compareCapabilityNames (body ! i) (body ! m) < 0 then i else m) 0 [1..<length body]"

definition canonicalizeCycle :: "string list \<Rightarrow> string list" where
  "canonicalizeCycle cycle =
     (if length cycle < 2 then cycle
      else let body = butlast cycle; m = min_index body in drop m body @ take m body @ [body ! m])"

fun joined :: "string \<Rightarrow> string list \<Rightarrow> string" where
  "joined sep [] = []"
| "joined sep [x] = x"
| "joined sep (x # y # ys) = x @ sep @ joined sep (y # ys)"

record search =
  sr_white :: "string set"
  sr_gray :: "string set"
  sr_black :: "string set"
  sr_parent :: "string \<rightharpoonup> string"
  sr_cycles :: "string list list"
  sr_seen :: "string set"

definition report_cycle :: "string \<Rightarrow> string \<Rightarrow> search \<Rightarrow> search option" where
  "report_cycle node dependency s = map_option (\<lambda>cycle.
     let canonical = canonicalizeCycle cycle; key = joined [CHR 0x00] canonical in
     if key \<in> sr_seen s then s else s\<lparr>sr_seen := insert key (sr_seen s), sr_cycles := sr_cycles s @ [canonical]\<rparr>)
     (walkCycle (sr_parent s) node dependency)"

definition enter :: "string \<Rightarrow> search \<Rightarrow> search" where
  "enter node s = s\<lparr>sr_white := sr_white s - {node}, sr_gray := insert node (sr_gray s)\<rparr>"

definition leave :: "string \<Rightarrow> search \<Rightarrow> search" where
  "leave node s = s\<lparr>sr_gray := sr_gray s - {node}, sr_black := insert node (sr_black s)\<rparr>"

primrec each_option :: "('a \<Rightarrow> 's \<Rightarrow> 's option) \<Rightarrow> 'a list \<Rightarrow> 's \<Rightarrow> 's option" where
  "each_option f [] s = Some s"
| "each_option f (x # xs) s = Option.bind (f x s) (each_option f xs)"

definition visit_dependency :: "(string \<Rightarrow> search \<Rightarrow> search option) \<Rightarrow> string list \<Rightarrow> string \<Rightarrow> string \<Rightarrow> search \<Rightarrow> search option" where
  "visit_dependency visit scope node dependency s =
     (if dependency \<notin> set scope then Some s
      else if dependency \<in> sr_black s then Some s
      else if dependency \<in> sr_gray s then report_cycle node dependency s
      else visit dependency (s\<lparr>sr_parent := (sr_parent s)(dependency \<mapsto> node)\<rparr>))"

text \<open>The recursion carries the depth left; at depth 0 there is no result.\<close>

primrec visit_node :: "nat \<Rightarrow> (string \<Rightarrow> string list) \<Rightarrow> string list \<Rightarrow> string \<Rightarrow> search \<Rightarrow> search option" where
  "visit_node 0 deps scope node s = None"
| "visit_node (Suc k) deps scope node s =
     map_option (leave node) (each_option (visit_dependency (visit_node k deps scope) scope node) (deps node) (enter node s))"

text \<open>The arrow is greater than every character of a name.\<close>

definition ARROW :: string where "ARROW = [CHR 0xFF]"

definition compare_cycles :: "string list \<Rightarrow> string list \<Rightarrow> rat" where
  "compare_cycles l r =
     (if length l \<noteq> length r then of_nat (length l) - of_nat (length r)
      else compareCapabilityNames (joined ARROW l) (joined ARROW r))"

definition search_start :: "string list \<Rightarrow> search" where
  "search_start scope = \<lparr>sr_white = set scope, sr_gray = {}, sr_black = {}, sr_parent = Map.empty, sr_cycles = [], sr_seen = {}\<rparr>"

definition search_scope :: "(string \<Rightarrow> string list) \<Rightarrow> string list \<Rightarrow> search option" where
  "search_scope deps scope =
     each_option (\<lambda>n s. if n \<in> sr_white s then visit_node (Suc (length scope)) deps scope n s else Some s) scope (search_start scope)"

definition findCircularDependencies :: "capability_graph \<Rightarrow> string list \<Rightarrow> string list list option" where
  "findCircularDependencies g names =
     map_option (\<lambda>s. js_sort compare_cycles (sr_cycles s)) (search_scope (entries (gr_adjacency g)) (in_graph g names))"

end
