(* ===== verification/Platform_Graph.thy ===== *)
theory Platform_Graph
  imports Platform_Capabilities
begin

text \<open>
  What the searches of the capability graph compute. The closure returns the names an inductive predicate generates; Kahn's
  loop emits the well-founded part of the dependency relation on the selection; the depth-first search returns at the
  depth it is given, reports only cycles, and reports nothing exactly when the relation is well-founded. The proofs are
  over arbitrary dependency functions; the last section reads them for a graph that was built.
\<close>

section \<open>Sorted names\<close>

lemma str_less_irrefl [simp]: "\<not> str_less s s"
  by (induction s) auto

lemma str_less_Nil [simp]: "\<not> str_less s []"
  by (cases s) auto

lemma str_less_total: "str_less s t \<or> s = t \<or> str_less t s"
proof (induction s arbitrary: t)
  case Nil
  then show ?case by (cases t) auto
next
  case (Cons c s)
  show ?case
  proof (cases t)
    case (Cons d u)
    have "(of_char c :: nat) < of_char d \<or> c = d \<or> (of_char d :: nat) < of_char c" by (metis nat_neq_iff of_char_eq_iff)
    then show ?thesis using Cons Cons.IH [of u] by auto
  qed simp
qed

lemma str_less_trans: "str_less s t \<Longrightarrow> str_less t u \<Longrightarrow> str_less s u"
proof (induction s t arbitrary: u rule: str_less.induct)
  case (1 t)
  then show ?case by (cases u) auto
next
  case (3 c s d t)
  then show ?case by (cases u) auto
qed simp

lemma str_less_asym: "str_less s t \<Longrightarrow> \<not> str_less t s"
  using str_less_trans str_less_irrefl by blast

lemma compare_names_le: "compareCapabilityNames a b \<le> 0 \<longleftrightarrow> \<not> str_less b a"
  using str_less_asym by (auto simp: compareCapabilityNames_def)

interpretation name_order: comparator compareCapabilityNames
proof
  show "compareCapabilityNames x y \<le> 0 \<or> compareCapabilityNames y x \<le> 0" for x y
    using str_less_asym by (auto simp: compare_names_le)
  show "compareCapabilityNames x z \<le> 0" if "compareCapabilityNames x y \<le> 0" "compareCapabilityNames y z \<le> 0" for x y z
    using that str_less_total str_less_trans unfolding compare_names_le by metis
qed

lemma strict_names:
  assumes "sorted_wrt (\<lambda>a b. compareCapabilityNames a b \<le> 0) xs" and "distinct xs"
  shows "sorted_wrt str_less xs"
  using assms
proof (induction xs)
  case (Cons x xs)
  then show ?case using str_less_total unfolding compare_names_le by (metis distinct.simps(2) sorted_wrt.simps(2))
qed simp

lemma sorted_uniqueSortedNames [simp]: "sorted_wrt str_less (uniqueSortedNames xs)"
  by (rule strict_names [OF _ distinct_uniqueSortedNames]) (simp add: name_order.sorted_js_sort uniqueSortedNames_def)

text \<open>The sorted list of a set of names is unique.\<close>

lemma sorted_names_unique: "sorted_wrt str_less xs \<Longrightarrow> sorted_wrt str_less ys \<Longrightarrow> set xs = set ys \<Longrightarrow> xs = ys"
proof (induction xs arbitrary: ys)
  case (Cons x xs)
  then obtain y zs where ys: "ys = y # zs" by (cases ys) auto
  have "x = y" using Cons.prems ys str_less_asym by (metis insertE list.set(2) sorted_wrt.simps(2) list.set_intros(1))
  moreover have "x \<notin> set xs" "y \<notin> set zs" using Cons.prems ys by auto
  ultimately show ?case using Cons ys by (metis insert_ident list.set(2) sorted_wrt.simps(2))
qed simp

lemma uniqueSortedNames_id: "sorted_wrt str_less xs \<Longrightarrow> uniqueSortedNames xs = xs"
  by (rule sorted_names_unique) simp_all

lemma sorted_filter_names: "sorted_wrt str_less xs \<Longrightarrow> sorted_wrt str_less (filter P xs)"
  by (induction xs) auto

section \<open>The closure\<close>

text \<open>The names a selection requires: those of the selection that are in the graph, and from them along the required
  dependencies in the graph; the code skips an empty name.\<close>

inductive needed :: "(string \<Rightarrow> string list) \<Rightarrow> string list \<Rightarrow> string list \<Rightarrow> string \<Rightarrow> bool"
  for deps known names where
  start: "n \<in> set names \<Longrightarrow> n \<in> set known \<Longrightarrow> n \<noteq> [] \<Longrightarrow> needed deps known names n"
| follow: "needed deps known names m \<Longrightarrow> n \<in> set (deps m) \<Longrightarrow> n \<in> set known \<Longrightarrow> n \<noteq> [] \<Longrightarrow> needed deps known names n"

definition closed_names :: "(string \<Rightarrow> string list) \<Rightarrow> string list \<Rightarrow> string set \<Rightarrow> string set \<Rightarrow> bool" where
  "closed_names deps known A B \<longleftrightarrow> (\<forall>m\<in>A. \<forall>n\<in>set (deps m). n \<in> set known \<longrightarrow> n \<noteq> [] \<longrightarrow> n \<in> B)"

lemma closure_loop_returns:
  assumes "set stack \<subseteq> set known" "distinct seen" "[] \<notin> set seen"
    and "\<forall>n\<in>set seen \<union> set stack - {[]}. needed deps known names n"
    and "closed_names deps known (set seen) (set seen \<union> set stack)"
  shows "\<exists>zs. closure_loop deps known seen stack = Some zs \<and> distinct zs \<and> [] \<notin> set zs \<and> set seen \<union> set stack - {[]} \<subseteq> set zs \<and>
    (\<forall>n\<in>set zs. needed deps known names n) \<and> closed_names deps known (set zs) (set zs)"
  using assms
proof (induction "(seen, stack)" arbitrary: seen stack
    rule: wf_induct_rule [OF wf_measures [where fs = "[\<lambda>p. card (set known - set (fst p)), \<lambda>p. length (snd p)]"]])
  case (1 seen stack)
  note less = 1(1) and stack = 1(2) and dist = 1(3) and ne = 1(4) and need = 1(5) and closed = 1(6)
  show ?case
  proof (cases stack)
    case Nil
    then show ?thesis using dist ne need closed by (subst closure_loop.simps) auto
  next
    case (Cons c rest)
    show ?thesis
    proof (cases "c = [] \<or> c \<in> set seen")
      case True
      have "\<exists>zs. closure_loop deps known seen rest = Some zs \<and> distinct zs \<and> [] \<notin> set zs \<and> set seen \<union> set rest - {[]} \<subseteq> set zs \<and>
          (\<forall>n\<in>set zs. needed deps known names n) \<and> closed_names deps known (set zs) (set zs)"
        by (rule less) (use stack dist ne need closed Cons True in \<open>auto simp: closed_names_def\<close>)
      then show ?thesis using True Cons by (subst closure_loop.simps) auto
    next
      case False
      let ?seen = "seen @ [c]" and ?stack = "rev (filter (\<lambda>d. d \<notin> set (seen @ [c]) \<and> d \<in> set known) (deps c)) @ rest"
      have c: "needed deps known names c" using need Cons False by auto
      have "set known - set ?seen \<subset> set known - set seen" using stack Cons False by auto
      then have smaller: "card (set known - set ?seen) < card (set known - set seen)" by (intro psubset_card_mono) auto
      have new: "needed deps known names n" if "n \<in> set (deps c)" "n \<in> set known" "n \<noteq> []" for n
        using follow [OF c that] .
      have "\<exists>zs. closure_loop deps known ?seen ?stack = Some zs \<and> distinct zs \<and> [] \<notin> set zs \<and> set ?seen \<union> set ?stack - {[]} \<subseteq> set zs \<and>
          (\<forall>n\<in>set zs. needed deps known names n) \<and> closed_names deps known (set zs) (set zs)"
        by (rule less) (use stack dist ne need closed Cons False smaller new c in \<open>auto simp: closed_names_def\<close>)
      then obtain zs where "closure_loop deps known ?seen ?stack = Some zs" "distinct zs" "[] \<notin> set zs" "set ?seen \<union> set ?stack - {[]} \<subseteq> set zs"
          "\<forall>n\<in>set zs. needed deps known names n" "closed_names deps known (set zs) (set zs)" by blast
      then show ?thesis using False Cons by (subst closure_loop.simps) (auto simp: Let_def)
    qed
  qed
qed

lemma closure_exact:
  "\<exists>zs. requiredClosure g names = Some zs \<and> sorted_wrt str_less zs \<and>
     (\<forall>n. n \<in> set zs \<longleftrightarrow> needed (entries (gr_adjacency g)) (nodeNames g) names n)"
proof -
  let ?deps = "entries (gr_adjacency g)" and ?known = "nodeNames g"
  let ?stack = "rev (filter (\<lambda>n. n \<in> set ?known) (uniqueSortedNames names))"
  obtain zs where zs: "closure_loop ?deps ?known [] ?stack = Some zs" "distinct zs" "[] \<notin> set zs" "set ?stack - {[]} \<subseteq> set zs"
      "\<forall>n\<in>set zs. needed ?deps ?known names n" "closed_names ?deps ?known (set zs) (set zs)"
  proof -
    have "\<forall>n\<in>set [] \<union> set ?stack - {[]}. needed ?deps ?known names n" by (auto intro: needed.start)
    moreover have "closed_names ?deps ?known (set []) (set [] \<union> set ?stack)" by (simp add: closed_names_def)
    ultimately show thesis using that closure_loop_returns [of ?stack ?known "[]" ?deps names] by fastforce
  qed
  have "n \<in> set zs" if "needed ?deps ?known names n" for n
    using that
  proof induction
    case (start n)
    then show ?case using zs(4) by auto
  next
    case (follow m n)
    then show ?case using zs(6) by (auto simp: closed_names_def)
  qed
  moreover have "sorted_wrt str_less (js_sort compareCapabilityNames zs)"
    using zs(2) js_sort_distinct_map [of id compareCapabilityNames zs] by (intro strict_names name_order.sorted_js_sort) simp
  ultimately show ?thesis using zs(1,5) by (auto simp: requiredClosure_def)
qed

section \<open>Kahn's loop\<close>

text \<open>The dependencies of a name within the selection, and the relation they make.\<close>

definition own_deps :: "(string \<Rightarrow> string list) \<Rightarrow> string list \<Rightarrow> string \<Rightarrow> string set" where
  "own_deps deps selected n = set (deps n) \<inter> set selected"

definition depends :: "(string \<Rightarrow> string list) \<Rightarrow> string list \<Rightarrow> (string \<times> string) set" where
  "depends deps selected = {(d, n). n \<in> set selected \<and> d \<in> own_deps deps selected n}"

definition in_order :: "(string \<Rightarrow> string set) \<Rightarrow> string list \<Rightarrow> bool" where
  "in_order D xs \<longleftrightarrow> (\<forall>i<length xs. D (xs ! i) \<subseteq> set (take i xs))"

lemma relax_result:
  assumes "relax ds i r = (i', r')" and "distinct ds" and "distinct r" and "\<forall>d\<in>set ds. i d = 1 \<longrightarrow> d \<notin> set r"
  shows "(\<forall>n. i' n = (if n \<in> set ds then i n - 1 else i n)) \<and> set r' = set r \<union> {d \<in> set ds. i d = 1} \<and> distinct r'"
  using assms
proof (induction ds i r rule: relax.induct)
  case (2 d ds i r)
  have dist: "distinct (insertSorted xs x)" if "distinct xs" "x \<notin> set xs" for xs x using that by (induction xs) auto
  let ?i = "i(d := i d - 1)" and ?r = "if i d - 1 = 0 then insertSorted r d else r"
  have "relax ds ?i ?r = (i', r')" using 2(2) by (simp only: relax.simps Let_def)
  moreover have "distinct ?r" using 2(4,5) dist by auto
  moreover have "\<forall>x\<in>set ds. ?i x = 1 \<longrightarrow> x \<notin> set ?r" using 2(3,5) by auto
  ultimately have "(\<forall>n. i' n = (if n \<in> set ds then ?i n - 1 else ?i n)) \<and> set r' = set ?r \<union> {x \<in> set ds. ?i x = 1} \<and> distinct r'"
    using 2(1) [OF refl] 2(3) unfolding fun_upd_def by simp
  then show ?case using 2(3) by (auto split: if_splits)
qed auto

definition kahn_inv :: "string list \<Rightarrow> (string \<Rightarrow> string list) \<Rightarrow> (string \<Rightarrow> int) \<Rightarrow> string list \<Rightarrow> string list \<Rightarrow> bool" where
  "kahn_inv selected deps i ready ordered \<longleftrightarrow> distinct (ordered @ ready) \<and>
     set (ordered @ ready) = {n \<in> set selected. own_deps deps selected n \<subseteq> set ordered} \<and>
     (\<forall>n\<in>set selected. i n = int (card (own_deps deps selected n - set ordered))) \<and> in_order (own_deps deps selected) ordered"

lemma card_one_member: "c \<in> A \<Longrightarrow> card A = Suc 0 \<longleftrightarrow> A = {c}"
  using card_1_singletonE [of A] by (metis One_nat_def card.empty card_insert_disjoint empty_iff finite.emptyI singletonD)

lemma kahn_step:
  assumes inv: "kahn_inv selected deps i (c # rest) ordered"
    and step: "relax (dependents_of deps selected c) i rest = (i', r')"
  shows "kahn_inv selected deps i' r' (ordered @ [c])"
proof -
  let ?D = "own_deps deps selected" and ?ds = "dependents_of deps selected c"
  have k: "distinct (ordered @ c # rest)" "set (ordered @ c # rest) = {n \<in> set selected. ?D n \<subseteq> set ordered}"
      "\<forall>n\<in>set selected. i n = int (card (?D n - set ordered))" "in_order ?D ordered"
    using inv unfolding kahn_inv_def by blast+
  have "c \<in> set (ordered @ c # rest)" by simp
  then have c: "c \<in> set selected" "?D c \<subseteq> set ordered" using k(2) by blast+
  have c3: "c \<notin> set ordered" using k(1) by simp
  have ds: "set ?ds = {n \<in> set selected. c \<in> ?D n}" "distinct ?ds" using c(1) by (auto simp: dependents_of_def own_deps_def)
  have fin: "finite (?D n)" for n by (simp add: own_deps_def)
  have one: "i n = 1 \<longleftrightarrow> ?D n - set ordered = {c}" if "n \<in> set ?ds" for n
  proof -
    have "c \<in> ?D n - set ordered" "n \<in> set selected" using that ds(1) c3 by auto
    then have "i n = int (card (?D n - set ordered))" using k(3) by blast
    then have "i n = 1 \<longleftrightarrow> card (?D n - set ordered) = Suc 0" by linarith
    also have "\<dots> \<longleftrightarrow> ?D n - set ordered = {c}" by (rule card_one_member) fact
    finally show ?thesis .
  qed
  have fresh: "\<forall>d\<in>set ?ds. i d = 1 \<longrightarrow> d \<notin> set rest"
  proof (intro ballI impI notI)
    fix d assume d: "d \<in> set ?ds" "i d = 1" "d \<in> set rest"
    then have "d \<in> set (ordered @ c # rest)" by simp
    then have "?D d \<subseteq> set ordered" using k(2) by blast
    then show False using one [OF d(1)] d(2) by blast
  qed
  have "distinct rest" using k(1) by simp
  note r = relax_result [OF step ds(2) this fresh]
  have r: "\<And>n. i' n = (if n \<in> set ?ds then i n - 1 else i n)" "set r' = set rest \<union> {d \<in> set ?ds. i d = 1}" "distinct r'"
    using r by blast+
  have "i' n = int (card (?D n - set (ordered @ [c])))" if n: "n \<in> set selected" for n
  proof -
    have less: "?D n - set (ordered @ [c]) = (?D n - set ordered) - {c}" by auto
    have i: "i n = int (card (?D n - set ordered))" using k(3) n by blast
    show ?thesis
    proof (cases "c \<in> ?D n")
      case True
      then have "c \<in> ?D n - set ordered" using c3 by simp
      then have "card (?D n - set ordered) = Suc (card (?D n - set ordered - {c}))" using fin by (intro card.remove) auto
      then show ?thesis using True r(1) ds(1) n i less by auto
    next
      case False
      then show ?thesis using r(1) ds(1) n i less by auto
    qed
  qed
  moreover have "set (ordered @ [c]) \<union> set r' = {n \<in> set selected. ?D n \<subseteq> set (ordered @ [c])}"
  proof -
    have old: "set ordered \<union> insert c (set rest) = {n \<in> set selected. ?D n \<subseteq> set ordered}" using k(2) by simp
    have "{d \<in> set ?ds. i d = 1} = {n \<in> set selected. ?D n \<subseteq> insert c (set ordered) \<and> \<not> ?D n \<subseteq> set ordered}"
      using one ds(1) c3 by auto
    then have "set (ordered @ [c]) \<union> set r' = (set ordered \<union> insert c (set rest)) \<union>
        {n \<in> set selected. ?D n \<subseteq> insert c (set ordered) \<and> \<not> ?D n \<subseteq> set ordered}" using r(2) by auto
    also have "\<dots> = {n \<in> set selected. ?D n \<subseteq> set (ordered @ [c])}" unfolding old by auto
    finally show ?thesis .
  qed
  moreover have "distinct ((ordered @ [c]) @ r')"
  proof -
    have "d \<notin> set ordered \<and> d \<noteq> c" if "d \<in> set ?ds" "i d = 1" for d
    proof -
      have "\<not> ?D d \<subseteq> set ordered" using one [OF that(1)] that(2) by blast
      then have "d \<notin> set (ordered @ c # rest)" using k(2) by blast
      then show ?thesis by simp
    qed
    then show ?thesis using k(1) r(2,3) by auto
  qed
  moreover have "in_order ?D (ordered @ [c])"
    using k(4) c(2) by (auto simp: in_order_def nth_append less_Suc_eq)
  ultimately show ?thesis unfolding kahn_inv_def by simp
qed

lemma kahn_result:
  "kahn_inv selected deps i ready ordered \<Longrightarrow> [] \<notin> set selected \<Longrightarrow> \<exists>j. kahn_inv selected deps j [] (kahn selected deps i ready ordered)"
proof (induction selected deps i ready ordered rule: kahn.induct)
  case (2 selected deps i c rest ordered)
  have "c \<in> set selected" using 2(2) unfolding kahn_inv_def by auto
  then have c: "c \<noteq> []" using 2(3) by auto
  obtain i' r' where step: "relax (dependents_of deps selected c) i rest = (i', r')" by fastforce
  show ?case using 2(1) [OF c step [symmetric] kahn_step [OF 2(2) step] 2(3)] c step by simp
qed auto

lemma in_order_acc:
  assumes "in_order (own_deps deps selected) xs" "set xs \<subseteq> set selected" "n \<in> set xs"
  shows "n \<in> Wellfounded.acc (depends deps selected)"
proof -
  have "\<forall>i<length xs. xs ! i \<in> Wellfounded.acc (depends deps selected)"
  proof (intro allI impI)
    fix i assume "i < length xs"
    then show "xs ! i \<in> Wellfounded.acc (depends deps selected)"
    proof (induction i rule: less_induct)
      case (less i)
      show ?case
      proof (rule acc.accI)
        fix d assume "(d, xs ! i) \<in> depends deps selected"
        then have "d \<in> set (take i xs)" using assms(1) less.prems by (auto simp: in_order_def depends_def)
        then obtain j where "j < i" "d = xs ! j" using less.prems by (auto simp: in_set_conv_nth)
        then show "d \<in> Wellfounded.acc (depends deps selected)" using less by simp
      qed
    qed
  qed
  then show ?thesis using assms(3) by (auto simp: in_set_conv_nth)
qed

lemma kahn_exact:
  assumes "[] \<notin> set selected" "distinct selected" "\<And>n. distinct (deps n)"
  defines "zs \<equiv> kahn selected deps (indegree_of deps selected) (filter (\<lambda>n. indegree_of deps selected n = 0) selected) []"
  shows "distinct zs" and "in_order (own_deps deps selected) zs"
    and "set zs = set selected \<inter> Wellfounded.acc (depends deps selected)"
proof -
  let ?D = "own_deps deps selected"
  have i: "indegree_of deps selected n = int (card (?D n))" if "n \<in> set selected" for n
  proof -
    have "card (?D n) = length (filter (\<lambda>d. d \<in> set selected) (deps n))"
      using assms(3) [of n] distinct_card [of "filter (\<lambda>d. d \<in> set selected) (deps n)"] by (simp add: own_deps_def Int_def)
    then show ?thesis using that by (simp add: indegree_of_def)
  qed
  have fin: "finite (?D n)" for n by (simp add: own_deps_def)
  have "kahn_inv selected deps (indegree_of deps selected) (filter (\<lambda>n. indegree_of deps selected n = 0) selected) []"
    using assms(2) i fin by (auto simp: kahn_inv_def in_order_def)
  then obtain j where inv: "kahn_inv selected deps j [] zs" using kahn_result assms(1) unfolding zs_def by blast
  then show "distinct zs" "in_order ?D zs" by (simp_all add: kahn_inv_def)
  have fix': "set zs = {n \<in> set selected. ?D n \<subseteq> set zs}" using inv by (simp add: kahn_inv_def)
  have "n \<in> set zs" if "n \<in> Wellfounded.acc (depends deps selected)" "n \<in> set selected" for n
    using that
  proof (induction rule: acc_induct_rule)
    case (1 n)
    then have "?D n \<subseteq> set zs" by (auto simp: depends_def own_deps_def)
    then show ?case using fix' 1(3) by blast
  qed
  moreover have "set zs \<subseteq> set selected" using fix' by blast
  ultimately show "set zs = set selected \<inter> Wellfounded.acc (depends deps selected)"
    using in_order_acc [OF \<open>in_order ?D zs\<close>] by blast
qed

section \<open>Cycles\<close>

text \<open>A closed walk, without its repeated end; each name depends on the next, the last on the first.\<close>

definition closed_walk :: "(string \<Rightarrow> string list) \<Rightarrow> string list \<Rightarrow> string list \<Rightarrow> bool" where
  "closed_walk deps selected b \<longleftrightarrow> b \<noteq> [] \<and> set b \<subseteq> set selected \<and> (\<forall>i<length b. b ! (Suc i mod length b) \<in> set (deps (b ! i)))"

definition a_cycle :: "(string \<Rightarrow> string list) \<Rightarrow> string list \<Rightarrow> string list \<Rightarrow> bool" where
  "a_cycle deps selected c \<longleftrightarrow> (\<exists>b. closed_walk deps selected b \<and> c = b @ [hd b] \<and> (\<forall>x\<in>set b. \<not> str_less x (hd b)))"

lemma closed_walk_not_acc:
  assumes "closed_walk deps selected b" "n \<in> Wellfounded.acc (depends deps selected)"
  shows "n \<notin> set b"
  using assms(2)
proof (induction rule: acc_induct_rule)
  case (1 n)
  show ?case
  proof
    assume "n \<in> set b"
    then obtain i where i: "i < length b" "n = b ! i" by (auto simp: in_set_conv_nth)
    let ?d = "b ! (Suc i mod length b)"
    have "Suc i mod length b < length b" using i(1) by (intro mod_less_divisor) linarith
    then have d: "?d \<in> set b" by simp
    then have "(?d, n) \<in> depends deps selected" using assms(1) i by (auto simp: depends_def own_deps_def closed_walk_def)
    then show False using 1 d by blast
  qed
qed

lemma closed_walk_rotate: "closed_walk deps selected b \<Longrightarrow> closed_walk deps selected (rotate m b)"
proof -
  assume b: "closed_walk deps selected b"
  then have ne: "b \<noteq> []" by (simp add: closed_walk_def)
  have "rotate m b ! (Suc i mod length b) \<in> set (deps (rotate m b ! i))" if i: "i < length b" for i
  proof -
    have lt: "(m + i) mod length b < length b" "Suc i mod length b < length b" using ne by simp_all
    have "rotate m b ! (Suc i mod length b) = b ! ((m + Suc i mod length b) mod length b)" by (rule nth_rotate [OF lt(2)])
    also have "(m + Suc i mod length b) mod length b = Suc ((m + i) mod length b) mod length b" by (simp add: mod_simps)
    finally show ?thesis using b lt(1) nth_rotate [OF i, of m] by (simp add: closed_walk_def)
  qed
  then show ?thesis using b by (simp add: closed_walk_def)
qed

lemma min_index_least:
  assumes "b \<noteq> []"
  shows "min_index b < length b \<and> (\<forall>i<length b. \<not> str_less (b ! i) (b ! min_index b))"
proof -
  let ?f = "\<lambda>m i. if compareCapabilityNames (b ! i) (b ! m) < 0 then i else m"
  have lt: "compareCapabilityNames x y < 0 \<longleftrightarrow> str_less x y" for x y
    using compare_names_le [of x y] compare_names_le [of y x] str_less_asym by (auto simp: compareCapabilityNames_def)
  have "n < length b \<Longrightarrow> foldl ?f 0 [1..<Suc n] < length b \<and> (\<forall>i\<le>n. \<not> str_less (b ! i) (b ! foldl ?f 0 [1..<Suc n]))" for n
  proof (induction n)
    case (Suc n)
    let ?m = "foldl ?f 0 [1..<Suc n]"
    have s: "foldl ?f 0 [1..<Suc (Suc n)] = (if str_less (b ! Suc n) (b ! ?m) then Suc n else ?m)" by (simp add: lt)
    show ?case
    proof (cases "str_less (b ! Suc n) (b ! ?m)")
      case True
      have "\<not> str_less (b ! i) (b ! Suc n)" if "i \<le> Suc n" for i
      proof (cases "i = Suc n")
        case False
        then have "i \<le> n" "n < length b" using that Suc.prems by simp_all
        then have "\<not> str_less (b ! i) (b ! ?m)" using Suc.IH by blast
        then show ?thesis using str_less_trans [OF _ True] by blast
      qed simp
      then show ?thesis using s True Suc.prems by simp
    next
      case False
      then show ?thesis using s Suc by (simp add: le_Suc_eq)
    qed
  qed simp
  note all = this
  have n: "Suc (length b - 1) = length b" using assms by (cases b) auto
  have "length b - 1 < length b" using n by linarith
  note all = all [OF this, unfolded n, folded min_index_def]
  have "\<not> str_less (b ! i) (b ! min_index b)" if "i < length b" for i
  proof -
    have "i \<le> length b - 1" using that n by linarith
    then show ?thesis using all by blast
  qed
  then show ?thesis using all by blast
qed

lemma canonical_cycle:
  assumes "closed_walk deps selected b"
  shows "a_cycle deps selected (canonicalizeCycle (b @ [hd b]))"
proof -
  have ne: "b \<noteq> []" using assms by (simp add: closed_walk_def)
  let ?m = "min_index b"
  note m = min_index_least [OF ne]
  have r: "drop ?m b @ take ?m b = rotate ?m b" using m by (simp add: rotate_drop_take)
  have h: "hd (rotate ?m b) = b ! ?m" using m ne by (simp add: hd_rotate_conv_nth)
  have "canonicalizeCycle (b @ [hd b]) = rotate ?m b @ [hd (rotate ?m b)]"
    using ne r h by (cases b) (simp_all add: canonicalizeCycle_def Let_def flip: append_assoc)
  moreover have "\<forall>x\<in>set (rotate ?m b). \<not> str_less x (hd (rotate ?m b))" using m h by (auto simp: in_set_conv_nth [of _ b])
  ultimately show ?thesis unfolding a_cycle_def using closed_walk_rotate [OF assms] by blast
qed

text \<open>The names in progress, the latest first: each was entered from the next.\<close>

definition chain :: "(string \<Rightarrow> string list) \<Rightarrow> (string \<rightharpoonup> string) \<Rightarrow> string list \<Rightarrow> bool" where
  "chain deps parent p \<longleftrightarrow> (\<forall>i. Suc i < length p \<longrightarrow> parent (p ! i) = Some (p ! Suc i) \<and> p ! i \<in> set (deps (p ! Suc i)))"

lemma chain_Cons: "chain deps parent (x # p) \<longleftrightarrow> (p \<noteq> [] \<longrightarrow> parent x = Some (hd p) \<and> x \<in> set (deps (hd p))) \<and> chain deps parent p"
  by (cases p) (auto simp: chain_def nth_Cons split: nat.splits)

lemma walk_up_chain:
  assumes "chain deps parent p" "[] \<notin> set p" "d \<in> set p" "distinct p"
  shows "walk_up parent (hd p) d acc = Some (acc @ takeWhile (\<lambda>x. x \<noteq> d) p)"
  using assms
proof (induction p arbitrary: acc)
  case (Cons x p)
  show ?case
  proof (cases "x = d")
    case False
    then have "p \<noteq> []" "d \<in> set p" using Cons.prems by auto
    moreover have "hd p \<noteq> []" using calculation(1) Cons.prems(2) by (metis list.set_intros(2) list.set_sel(1))
    ultimately show ?thesis using False Cons by (subst walk_up.simps) (simp add: chain_Cons)
  qed (simp add: walk_up.simps)
qed simp

lemma chain_walk:
  assumes "chain deps parent p" "d \<in> set p" "set p \<subseteq> set selected" "d \<in> set (deps (hd p))"
  shows "closed_walk deps selected (d # rev (takeWhile (\<lambda>x. x \<noteq> d) p))"
proof -
  let ?q = "takeWhile (\<lambda>x. x \<noteq> d) p" and ?k = "length (takeWhile (\<lambda>x. x \<noteq> d) p)"
  have k1: "?k < length p" using assms(2) by (induction p) auto
  then have k: "?k < length p" "p ! ?k = d" using nth_length_takeWhile [of "\<lambda>x. x \<noteq> d" p] by auto
  have b: "d # rev ?q = rev (take (Suc ?k) p)" using k by (simp add: take_Suc_conv_app_nth takeWhile_eq_take [symmetric])
  have len: "length (rev (take (Suc ?k) p)) = Suc ?k" using k(1) by simp
  have at: "rev (take (Suc ?k) p) ! i = p ! (?k - i)" if "i \<le> ?k" for i using that k(1) by (simp add: rev_nth)
  have "rev (take (Suc ?k) p) ! (Suc i mod Suc ?k) \<in> set (deps (rev (take (Suc ?k) p) ! i))" if "i \<le> ?k" for i
  proof (cases "i = ?k")
    case True
    then show ?thesis using at [of 0] at [of ?k] k assms(4) by (cases p) auto
  next
    case False
    then have "Suc i mod Suc ?k = Suc i" "Suc (?k - Suc i) = ?k - i" "Suc (?k - Suc i) < length p" using that k(1) by auto
    moreover have "rev (take (Suc ?k) p) ! Suc i = p ! (?k - Suc i)" using False that by (intro at) simp
    moreover have "p ! (?k - Suc i) \<in> set (deps (p ! Suc (?k - Suc i)))" using assms(1) calculation(3) by (simp add: chain_def)
    ultimately show ?thesis using at [OF that] by metis
  qed
  moreover have "set (rev (take (Suc ?k) p)) \<subseteq> set selected" using assms(3) set_take_subset by fastforce
  ultimately show ?thesis unfolding b closed_walk_def len using k(1) by (auto simp: less_Suc_eq_le)
qed

section \<open>The depth-first search\<close>

definition search_inv :: "(string \<Rightarrow> string list) \<Rightarrow> string list \<Rightarrow> string list \<Rightarrow> search \<Rightarrow> bool" where
  "search_inv deps scope p s \<longleftrightarrow> sr_gray s = set p \<and> distinct p \<and> set p \<subseteq> set scope \<and> sr_black s \<subseteq> set scope \<and> sr_gray s \<inter> sr_black s = {} \<and>
     sr_white s = set scope - sr_gray s - sr_black s \<and> chain deps (sr_parent s) p \<and> (\<forall>c\<in>set (sr_cycles s). a_cycle deps scope c) \<and>
     (sr_cycles s = [] \<longrightarrow> sr_black s \<subseteq> Wellfounded.acc (depends deps scope) \<and> sr_seen s = {})"

text \<open>What a part of the search leaves behind: more finished names, and no cycle found only if there was none before.\<close>

definition search_on :: "(string \<Rightarrow> string list) \<Rightarrow> string list \<Rightarrow> string list \<Rightarrow> search \<Rightarrow> string set \<Rightarrow> search option \<Rightarrow> bool" where
  "search_on deps scope p s N r \<longleftrightarrow> (\<exists>t. r = Some t \<and> search_inv deps scope p t \<and> sr_black s \<subseteq> sr_black t \<and>
     (sr_cycles t = [] \<longrightarrow> sr_cycles s = [] \<and> N \<subseteq> sr_black t))"

lemma chain_update: "x \<notin> set p \<Longrightarrow> chain deps (f(x := y)) p \<longleftrightarrow> chain deps f p"
  unfolding chain_def by (metis Suc_lessD fun_upd_other nth_mem)

lemma search_inv_parent:
  assumes "search_inv deps scope p s" and "chain deps (sr_parent (s\<lparr>sr_parent := f\<rparr>)) p"
  shows "search_inv deps scope p (s\<lparr>sr_parent := f\<rparr>)"
proof -
  have f: "sr_gray (s\<lparr>sr_parent := f\<rparr>) = sr_gray s" "sr_black (s\<lparr>sr_parent := f\<rparr>) = sr_black s" "sr_white (s\<lparr>sr_parent := f\<rparr>) = sr_white s"
      "sr_cycles (s\<lparr>sr_parent := f\<rparr>) = sr_cycles s" "sr_seen (s\<lparr>sr_parent := f\<rparr>) = sr_seen s"
    by simp_all
  show ?thesis using assms unfolding search_inv_def f by blast
qed

lemma search_inv_enter:
  assumes "search_inv deps scope p s" "n \<in> set scope - sr_gray s - sr_black s" "chain deps (sr_parent s) (n # p)"
  shows "search_inv deps scope (n # p) (enter n s)"
proof -
  have f: "sr_gray (enter n s) = insert n (sr_gray s)" "sr_black (enter n s) = sr_black s" "sr_white (enter n s) = sr_white s - {n}"
      "sr_parent (enter n s) = sr_parent s" "sr_cycles (enter n s) = sr_cycles s" "sr_seen (enter n s) = sr_seen s"
    by (simp_all add: enter_def)
  show ?thesis unfolding search_inv_def f by (intro conjI; use assms in \<open>simp add: search_inv_def\<close>; blast?)
qed

lemma search_inv_leave:
  assumes "search_inv deps scope (n # p) s" "sr_cycles s = [] \<longrightarrow> n \<in> Wellfounded.acc (depends deps scope)"
  shows "search_inv deps scope p (leave n s)"
proof -
  have f: "sr_gray (leave n s) = sr_gray s - {n}" "sr_black (leave n s) = insert n (sr_black s)" "sr_white (leave n s) = sr_white s"
      "sr_parent (leave n s) = sr_parent s" "sr_cycles (leave n s) = sr_cycles s" "sr_seen (leave n s) = sr_seen s"
    by (simp_all add: leave_def)
  show ?thesis unfolding search_inv_def f by (intro conjI; use assms in \<open>simp add: search_inv_def chain_Cons\<close>; blast?)
qed

lemma report_on:
  assumes inv: "search_inv deps scope (node # p) s" and "d \<in> sr_gray s" "d \<in> set (deps node)" "[] \<notin> set scope"
  shows "search_on deps scope (node # p) s {d} (report_cycle node d s)"
proof -
  let ?q = "takeWhile (\<lambda>x. x \<noteq> d) (node # p)"
  have p: "chain deps (sr_parent s) (node # p)" "d \<in> set (node # p)" "distinct (node # p)" "set (node # p) \<subseteq> set scope"
    using inv assms(2) by (simp_all add: search_inv_def)
  have "walk_up (sr_parent s) (hd (node # p)) d [d] = Some ([d] @ ?q)"
    using p assms(4) by (intro walk_up_chain) auto
  then have w: "walkCycle (sr_parent s) node d = Some ((d # rev ?q) @ [hd (d # rev ?q)])" by (simp add: walkCycle_def)
  have "closed_walk deps scope (d # rev ?q)" using p assms(3) by (intro chain_walk) auto
  then have c: "a_cycle deps scope (canonicalizeCycle ((d # rev ?q) @ [hd (d # rev ?q)]))" by (rule canonical_cycle)
  define z where "z = canonicalizeCycle ((d # rev ?q) @ [hd (d # rev ?q)])"
  define t where "t = (if joined [CHR 0x00] z \<in> sr_seen s then s else s\<lparr>sr_seen := insert (joined [CHR 0x00] z) (sr_seen s), sr_cycles := sr_cycles s @ [z]\<rparr>)"
  have r: "report_cycle node d s = Some t" by (simp add: report_cycle_def w Let_def z_def t_def)
  have "sr_cycles t \<noteq> []" using inv by (auto simp: t_def search_inv_def)
  moreover have "search_inv deps scope (node # p) t"
  proof -
    have "sr_gray t = sr_gray s \<and> sr_black t = sr_black s \<and> sr_white t = sr_white s \<and> sr_parent t = sr_parent s" by (simp add: t_def)
    moreover have "\<forall>x\<in>set (sr_cycles t). a_cycle deps scope x" using inv c by (auto simp: t_def search_inv_def z_def)
    ultimately show ?thesis using inv \<open>sr_cycles t \<noteq> []\<close> unfolding search_inv_def by metis
  qed
  moreover have "sr_black t = sr_black s" by (simp add: t_def)
  ultimately show ?thesis using r by (simp add: search_on_def)
qed

text \<open>The loop over the dependencies of a name, given the search of a name that has not been entered.\<close>

definition visits :: "(string \<Rightarrow> string list) \<Rightarrow> string list \<Rightarrow> nat \<Rightarrow> (string \<Rightarrow> search \<Rightarrow> search option) \<Rightarrow> bool" where
  "visits deps scope k f \<longleftrightarrow> (\<forall>p s n. search_inv deps scope p s \<longrightarrow> n \<in> set scope - sr_gray s - sr_black s \<longrightarrow>
     (p \<noteq> [] \<longrightarrow> sr_parent s n = Some (hd p) \<and> n \<in> set (deps (hd p))) \<longrightarrow> card (set scope - sr_gray s - sr_black s) \<le> k \<longrightarrow>
     search_on deps scope p s {n} (f n s))"

lemma visit_dependency_on:
  assumes f: "visits deps scope k f" and ne: "[] \<notin> set scope" and inv: "search_inv deps scope (node # p) s" and d: "d \<in> set (deps node)"
    and k: "card (set scope - sr_gray s - sr_black s) \<le> k"
  shows "search_on deps scope (node # p) s ({d} \<inter> set scope) (visit_dependency f scope node d s)"
proof -
  consider "d \<notin> set scope" | "d \<in> set scope" "d \<in> sr_black s" | "d \<in> set scope" "d \<notin> sr_black s" "d \<in> sr_gray s"
    | "d \<in> set scope - sr_gray s - sr_black s" by blast
  then show ?thesis
  proof cases
    case 3
    then show ?thesis using report_on [OF inv 3(3) d ne] by (simp add: visit_dependency_def search_on_def)
  next
    case 4
    let ?s = "s\<lparr>sr_parent := (sr_parent s)(d \<mapsto> node)\<rparr>"
    have "d \<notin> set (node # p)" using 4 inv by (simp add: search_inv_def)
    then have "chain deps (sr_parent ?s) (node # p)" using inv chain_update by (simp add: search_inv_def)
    then have "search_inv deps scope (node # p) ?s" by (rule search_inv_parent [OF inv])
    then have "search_on deps scope (node # p) ?s {d} (f d ?s)" using f 4 k d unfolding visits_def by simp
    then show ?thesis using 4 by (simp add: visit_dependency_def search_on_def)
  qed (use inv in \<open>auto simp: visit_dependency_def search_on_def\<close>)
qed

lemma each_dependency_on:
  assumes f: "visits deps scope k f" and ne: "[] \<notin> set scope"
  shows "search_inv deps scope (node # p) s \<Longrightarrow> set ds \<subseteq> set (deps node) \<Longrightarrow> card (set scope - sr_gray s - sr_black s) \<le> k \<Longrightarrow>
    search_on deps scope (node # p) s (set ds \<inter> set scope) (each_option (visit_dependency f scope node) ds s)"
proof (induction ds arbitrary: s)
  case (Cons d ds)
  have "search_on deps scope (node # p) s ({d} \<inter> set scope) (visit_dependency f scope node d s)"
    using Cons.prems by (intro visit_dependency_on [OF f ne]) auto
  then obtain t where t: "visit_dependency f scope node d s = Some t" "search_inv deps scope (node # p) t" "sr_black s \<subseteq> sr_black t"
      "sr_cycles t = [] \<longrightarrow> sr_cycles s = [] \<and> {d} \<inter> set scope \<subseteq> sr_black t" by (auto simp: search_on_def)
  have gray: "sr_gray t = sr_gray s" using t(2) Cons.prems(1) by (simp add: search_inv_def)
  have "card (set scope - sr_gray t - sr_black t) \<le> card (set scope - sr_gray s - sr_black s)" using t(3) gray by (intro card_mono) auto
  then have "card (set scope - sr_gray t - sr_black t) \<le> k" using Cons.prems(3) by simp
  then have "search_on deps scope (node # p) t (set ds \<inter> set scope) (each_option (visit_dependency f scope node) ds t)"
    using Cons.prems(2) by (intro Cons.IH [OF t(2)]) auto
  then obtain u where u: "each_option (visit_dependency f scope node) ds t = Some u" "search_inv deps scope (node # p) u" "sr_black t \<subseteq> sr_black u"
      "sr_cycles u = [] \<longrightarrow> sr_cycles t = [] \<and> set ds \<inter> set scope \<subseteq> sr_black u" by (auto simp: search_on_def)
  show ?case unfolding search_on_def using t u by auto
qed (simp add: search_on_def)

lemma visit_on:
  assumes ne: "[] \<notin> set scope"
  shows "visits deps scope k (visit_node k deps scope)"
proof (induction k)
  case 0
  have "card (set scope - sr_gray s - sr_black s) = 0 \<Longrightarrow> n \<notin> set scope - sr_gray s - sr_black s" for s n by (auto simp: card_eq_0_iff)
  then show ?case unfolding visits_def le_0_eq by blast
next
  case (Suc k)
  show ?case unfolding visits_def
  proof (intro allI impI)
    fix p s n assume inv: "search_inv deps scope p s" and n: "n \<in> set scope - sr_gray s - sr_black s"
      and par: "p \<noteq> [] \<longrightarrow> sr_parent s n = Some (hd p) \<and> n \<in> set (deps (hd p))" and k: "card (set scope - sr_gray s - sr_black s) \<le> Suc k"
    have "chain deps (sr_parent s) (n # p)" using inv par unfolding chain_Cons search_inv_def by blast
    note e = search_inv_enter [OF inv n this]
    have "set scope - sr_gray (enter n s) - sr_black (enter n s) = (set scope - sr_gray s - sr_black s) - {n}" by (auto simp: enter_def)
    then have "card (set scope - sr_gray (enter n s) - sr_black (enter n s)) \<le> k" using k n by (simp add: card_Diff_singleton)
    from each_dependency_on [OF Suc ne e subset_refl this]
    obtain t where t: "each_option (visit_dependency (visit_node k deps scope) scope n) (deps n) (enter n s) = Some t"
        "search_inv deps scope (n # p) t" "sr_black (enter n s) \<subseteq> sr_black t"
        "sr_cycles t = [] \<longrightarrow> sr_cycles (enter n s) = [] \<and> set (deps n) \<inter> set scope \<subseteq> sr_black t" by (auto simp: search_on_def)
    have acc: "n \<in> Wellfounded.acc (depends deps scope)" if "sr_cycles t = []"
    proof (rule acc.accI)
      fix d assume "(d, n) \<in> depends deps scope"
      then have "d \<in> set (deps n) \<inter> set scope" by (simp add: depends_def own_deps_def)
      then show "d \<in> Wellfounded.acc (depends deps scope)" using t(2,4) that unfolding search_inv_def by blast
    qed
    have "search_inv deps scope p (leave n t)" using search_inv_leave [OF t(2)] acc by blast
    moreover have "sr_black s \<subseteq> sr_black (leave n t)" using t(3) by (auto simp: leave_def enter_def)
    moreover have "sr_cycles (leave n t) = [] \<longrightarrow> sr_cycles s = [] \<and> {n} \<subseteq> sr_black (leave n t)" using t(4) by (simp add: leave_def enter_def)
    ultimately show "search_on deps scope p s {n} (visit_node (Suc k) deps scope n s)" using t(1) by (simp add: search_on_def)
  qed
qed

lemma search_scope_on:
  assumes ne: "[] \<notin> set scope"
  shows "\<exists>t. search_scope deps scope = Some t \<and> search_inv deps scope [] t \<and> (sr_cycles t = [] \<longrightarrow> set scope \<subseteq> sr_black t)"
proof -
  let ?f = "\<lambda>n s. if n \<in> sr_white s then visit_node (Suc (length scope)) deps scope n s else Some s"
  have one: "search_on deps scope [] s {n} (?f n s)" if "search_inv deps scope [] s" "n \<in> set scope" for n s
  proof (cases "n \<in> sr_white s")
    case True
    then have n: "n \<in> set scope - sr_gray s - sr_black s" using that unfolding search_inv_def by blast
    have "card (set scope - sr_gray s - sr_black s) \<le> card (set scope)" by (intro card_mono) auto
    then have "card (set scope - sr_gray s - sr_black s) \<le> Suc (length scope)" using card_length [of scope] by linarith
    then show ?thesis using visit_on [OF ne, of deps "Suc (length scope)"] that n True unfolding visits_def by simp
  next
    case False
    then have "n \<in> sr_black s" using that unfolding search_inv_def by auto
    then show ?thesis using that False by (simp add: search_on_def)
  qed
  have "search_inv deps scope [] s \<Longrightarrow> set ns \<subseteq> set scope \<Longrightarrow> search_on deps scope [] s (set ns) (each_option ?f ns s)" for ns s
  proof (induction ns arbitrary: s)
    case (Cons n ns)
    have n: "n \<in> set scope" and ns: "set ns \<subseteq> set scope" using Cons.prems(2) by auto
    obtain t where t: "?f n s = Some t" "search_inv deps scope [] t" "sr_black s \<subseteq> sr_black t" "sr_cycles t = [] \<longrightarrow> sr_cycles s = [] \<and> {n} \<subseteq> sr_black t"
      using one [OF Cons.prems(1) n] unfolding search_on_def by blast
    obtain u where u: "each_option ?f ns t = Some u" "search_inv deps scope [] u" "sr_black t \<subseteq> sr_black u" "sr_cycles u = [] \<longrightarrow> sr_cycles t = [] \<and> set ns \<subseteq> sr_black u"
      using Cons.IH [OF t(2) ns] unfolding search_on_def by blast
    have "each_option ?f (n # ns) s = Some u" using t(1) u(1) by simp
    then show ?case unfolding search_on_def using t u by auto
  qed (simp add: search_on_def)
  moreover have "search_inv deps scope [] (search_start scope)" by (simp add: search_inv_def search_start_def chain_def)
  ultimately have "search_on deps scope [] (search_start scope) (set scope) (search_scope deps scope)" unfolding search_scope_def by blast
  then show ?thesis unfolding search_on_def by blast
qed

text \<open>The search returns, what it reports are cycles, and it reports none exactly when the relation is well-founded.\<close>

lemma cycles_exact:
  assumes "[] \<notin> set scope"
  obtains t where "search_scope deps scope = Some t" and "\<And>c. c \<in> set (sr_cycles t) \<Longrightarrow> a_cycle deps scope c"
    and "sr_cycles t = [] \<longleftrightarrow> set scope \<subseteq> Wellfounded.acc (depends deps scope)"
proof -
  obtain t where t: "search_scope deps scope = Some t" "search_inv deps scope [] t" "sr_cycles t = [] \<longrightarrow> set scope \<subseteq> sr_black t"
    using search_scope_on [OF assms] by blast
  have c: "a_cycle deps scope c" if "c \<in> set (sr_cycles t)" for c using t(2) that unfolding search_inv_def by blast
  have "sr_cycles t = []" if all: "set scope \<subseteq> Wellfounded.acc (depends deps scope)"
  proof (rule ccontr)
    assume "sr_cycles t \<noteq> []"
    then obtain b where "closed_walk deps scope b" using c by (cases "sr_cycles t") (auto simp: a_cycle_def)
    then show False using closed_walk_not_acc all unfolding closed_walk_def by (metis hd_in_set subsetD)
  qed
  moreover have "set scope \<subseteq> Wellfounded.acc (depends deps scope)" if "sr_cycles t = []"
    using that t(2,3) unfolding search_inv_def by blast
  ultimately show thesis using that t(1) c by blast
qed

section \<open>Graphs that were built\<close>

lemma adjacency_find: "adjacency_by f nodes n = map_option f (find (\<lambda>x. gn_name x = n) (rev nodes))"
  by (induction nodes rule: rev_induct) (auto simp: adjacency_by_def)

lemma built_known: "gr_adjacency (buildCapabilityGraph cs) n \<noteq> None \<longleftrightarrow> n \<in> set (nodeNames (buildCapabilityGraph cs))"
proof -
  have "find P xs = None \<longleftrightarrow> (\<forall>x\<in>set xs. \<not> P x)" for P :: "graph_node \<Rightarrow> bool" and xs by (auto simp: find_None_iff)
  then show ?thesis by (auto simp: buildCapabilityGraph_def nodeNames_def adjacency_find Let_def image_iff)
qed

lemma built_distinct: "distinct (entries (gr_adjacency (buildCapabilityGraph cs)) n)"
proof -
  let ?nodes = "gr_nodes (buildCapabilityGraph cs)"
  have d: "distinct (gn_dependencies x)" if "x \<in> set ?nodes" for x
    using that by (auto simp: buildCapabilityGraph_def node_of_def Let_def)
  have "gr_adjacency (buildCapabilityGraph cs) n = map_option gn_dependencies (find (\<lambda>x. gn_name x = n) (rev ?nodes))"
    by (simp add: buildCapabilityGraph_def adjacency_find Let_def)
  moreover have "x \<in> set ?nodes" if "find P (rev ?nodes) = Some x" for P x using that by (auto simp: find_Some_iff) (metis length_rev nth_mem set_rev)
  ultimately show ?thesis using d by (cases "find (\<lambda>x. gn_name x = n) (rev ?nodes)") (simp_all add: entries_def)
qed

lemma built_scope:
  "set (in_graph (buildCapabilityGraph cs) names) = set names \<inter> set (nodeNames (buildCapabilityGraph cs))"
  "distinct (in_graph g names)" "sorted_wrt str_less (in_graph g names)"
proof -
  show "set (in_graph (buildCapabilityGraph cs) names) = set names \<inter> set (nodeNames (buildCapabilityGraph cs))"
    unfolding in_graph_def set_filter built_known by auto
qed (simp_all add: in_graph_def sorted_filter_names)

text \<open>Dependency among the names of a selection that are in the graph.\<close>

definition depends_in :: "capability_graph \<Rightarrow> string list \<Rightarrow> (string \<times> string) set" where
  "depends_in g names = {(d, n). d \<in> set names \<and> n \<in> set names \<and> d \<in> set (nodeNames g) \<and> n \<in> set (nodeNames g) \<and> d \<in> set (entries (gr_adjacency g) n)}"

lemma depends_built: "depends (entries (gr_adjacency g)) (in_graph g names) = depends_in g names" if "g = buildCapabilityGraph cs"
  using that built_scope(1) [of cs names] by (auto simp: depends_def own_deps_def depends_in_def)

text \<open>In a finite relation a name is outside the well-founded part exactly when it comes after a cycle.\<close>

lemma finite_acc:
  assumes "finite r"
  shows "n \<in> Wellfounded.acc r \<longleftrightarrow> \<not> (\<exists>m. (m, m) \<in> r\<^sup>+ \<and> (m, n) \<in> r\<^sup>*)"
proof
  assume n: "n \<in> Wellfounded.acc r"
  show "\<not> (\<exists>m. (m, m) \<in> r\<^sup>+ \<and> (m, n) \<in> r\<^sup>*)"
  proof
    assume "\<exists>m. (m, m) \<in> r\<^sup>+ \<and> (m, n) \<in> r\<^sup>*"
    then obtain m where m: "(m, m) \<in> r\<^sup>+" "(m, n) \<in> r\<^sup>*" by blast
    have "m \<in> Wellfounded.acc r" using acc_downwards [OF n m(2)] .
    then show False using m(1)
    proof (induction rule: acc_induct_rule)
      case (1 m)
      then obtain x where x: "(m, x) \<in> r\<^sup>*" "(x, m) \<in> r" by (meson tranclD2)
      then have "(x, x) \<in> r\<^sup>+" by (meson rtrancl_into_trancl2)
      then show False using 1 x(2) by blast
    qed
  qed
next
  assume no: "\<not> (\<exists>m. (m, m) \<in> r\<^sup>+ \<and> (m, n) \<in> r\<^sup>*)"
  define q where "q = {(x, y) \<in> r. (y, n) \<in> r\<^sup>*}"
  have sub: "q \<subseteq> r" by (auto simp: q_def)
  have "acyclic q"
  proof (rule acyclicI, rule allI, rule notI)
    fix x assume x: "(x, x) \<in> q\<^sup>+"
    then obtain y where "(y, x) \<in> q" by (meson tranclD2)
    then have "(x, n) \<in> r\<^sup>*" by (simp add: q_def)
    moreover have "(x, x) \<in> r\<^sup>+" using x trancl_mono sub by metis
    ultimately show False using no by blast
  qed
  then have wf: "wf q" using finite_acyclic_wf finite_subset [OF sub assms] by blast
  have "(m, n) \<in> r\<^sup>* \<longrightarrow> m \<in> Wellfounded.acc r" for m
    using wf
  proof (induction m rule: wf_induct_rule)
    case (less m)
    show ?case
    proof
      assume m: "(m, n) \<in> r\<^sup>*"
      show "m \<in> Wellfounded.acc r"
      proof (rule acc.accI)
        fix d assume d: "(d, m) \<in> r"
        then have "(d, m) \<in> q" "(d, n) \<in> r\<^sup>*" using m by (auto simp: q_def intro: converse_rtrancl_into_rtrancl)
        then show "d \<in> Wellfounded.acc r" using less by blast
      qed
    qed
  qed
  then show "n \<in> Wellfounded.acc r" by blast
qed

lemma finite_depends_in: "finite (depends_in g names)"
  by (rule finite_subset [of _ "set names \<times> set names"]) (auto simp: depends_in_def)

text \<open>The closure of required dependencies is computed for every graph and selection, and it is exactly the sorted
  list of the names the selection requires.\<close>

theorem required_closure_returns_what_is_needed:
  "\<exists>zs. requiredClosure g names = Some zs \<and> sorted_wrt str_less zs \<and>
     (\<forall>n. n \<in> set zs \<longleftrightarrow> needed (entries (gr_adjacency g)) (nodeNames g) names n)"
  by (rule closure_exact)

lemma topological_order_facts:
  assumes "g = buildCapabilityGraph cs" and "[] \<notin> set names"
  shows "distinct (topologicalOrder g names)"
    and "(\<forall>i<length (topologicalOrder g names). \<forall>d. (d, topologicalOrder g names ! i) \<in> depends_in g names \<longrightarrow> d \<in> set (take i (topologicalOrder g names)))"
    and "set (topologicalOrder g names) = {n \<in> set names \<inter> set (nodeNames g). \<not> (\<exists>m. (m, m) \<in> (depends_in g names)\<^sup>+ \<and> (m, n) \<in> (depends_in g names)\<^sup>*)}"
proof -
  let ?deps = "entries (gr_adjacency g)" and ?scope = "in_graph g names"
  have ne: "[] \<notin> set ?scope" using assms built_scope(1) by auto
  have d: "distinct (?deps n)" for n using assms(1) built_distinct by simp
  note k = kahn_exact [where deps = ?deps, OF ne built_scope(2) d]
  have t: "topologicalOrder g names = kahn ?scope ?deps (indegree_of ?deps ?scope) (filter (\<lambda>n. indegree_of ?deps ?scope n = 0) ?scope) []"
    by (simp add: topologicalOrder_def Let_def)
  have s: "set (topologicalOrder g names) = (set names \<inter> set (nodeNames g)) \<inter> Wellfounded.acc (depends_in g names)"
    using k(3) t depends_built [OF assms(1)] built_scope(1) [of cs names] assms(1) by simp
  have "d \<in> set (take i (topologicalOrder g names))"
    if i: "i < length (topologicalOrder g names)" and "(d, topologicalOrder g names ! i) \<in> depends_in g names" for i d
  proof -
    have "(d, topologicalOrder g names ! i) \<in> depends ?deps ?scope" using that(2) depends_built [OF assms(1)] by simp
    then have "d \<in> own_deps ?deps ?scope (topologicalOrder g names ! i)" by (simp add: depends_def)
    then show ?thesis using k(2) i unfolding t in_order_def by blast
  qed
  then show "(\<forall>i<length (topologicalOrder g names). \<forall>d. (d, topologicalOrder g names ! i) \<in> depends_in g names \<longrightarrow> d \<in> set (take i (topologicalOrder g names)))"
    by blast
  show "distinct (topologicalOrder g names)" using k(1) t by simp
  show "set (topologicalOrder g names) = {n \<in> set names \<inter> set (nodeNames g). \<not> (\<exists>m. (m, m) \<in> (depends_in g names)\<^sup>+ \<and> (m, n) \<in> (depends_in g names)\<^sup>*)}"
    using s finite_acc [OF finite_depends_in] by blast
qed

text \<open>C30: The topological order of a selection lists no name twice, lists every name after the names of the selection it
  depends on, and leaves out exactly the names that depend on a cycle of the selection, directly or through others, not
  only the names on a cycle.\<close>

theorem topological_order_is_exact:
  assumes "g = buildCapabilityGraph cs" and "[] \<notin> set names"
  shows "distinct (topologicalOrder g names) \<and>
    (\<forall>i<length (topologicalOrder g names). \<forall>d. (d, topologicalOrder g names ! i) \<in> depends_in g names \<longrightarrow> d \<in> set (take i (topologicalOrder g names))) \<and>
    set (topologicalOrder g names) = {n \<in> set names \<inter> set (nodeNames g). \<not> (\<exists>m. (m, m) \<in> (depends_in g names)\<^sup>+ \<and> (m, n) \<in> (depends_in g names)\<^sup>*)}"
  using topological_order_facts [OF assms] by blast

text \<open>A sample: \<open>a\<close> on \<open>b\<close> on \<open>c\<close>, a cycle of \<open>d\<close> and \<open>e\<close>, and \<open>f\<close> on \<open>d\<close>.\<close>

definition sample_capability :: "string \<Rightarrow> string list \<Rightarrow> capability_definition" where
  "sample_capability n ds = \<lparr>cd_name = n, cd_kind = Ck_application, cd_category = ''core'', cd_maturity = ''stable'', cd_dependencies = ds,
     cd_optionalDependencies = [], cd_conflicts = [], cd_environmentRequirements = [], cd_infrastructureRequirements = [],
     cd_providerRequirements = [], cd_architectureCompatibility = [''architecture.modular-monolith''],
     cd_deploymentCompatibility = [''deployment.local-hybrid'']\<rparr>"

definition sample_capabilities :: "capability_definition list" where
  "sample_capabilities = [sample_capability ''a'' [''b''], sample_capability ''b'' [''c''], sample_capability ''c'' [],
     sample_capability ''d'' [''e''], sample_capability ''e'' [''d''], sample_capability ''f'' [''d'']]"

theorem topological_order_is_exact_witness:
  "distinct (topologicalOrder (buildCapabilityGraph sample_capabilities) [''a'', ''b'', ''c'', ''f'']) \<and>
   topologicalOrder (buildCapabilityGraph sample_capabilities) [''a'', ''b'', ''d'', ''e'', ''f'', ''c''] = [''c'', ''b'', ''a'']"
proof -
  have "topologicalOrder (buildCapabilityGraph sample_capabilities) [''a'', ''b'', ''d'', ''e'', ''f'', ''c''] = [''c'', ''b'', ''a'']"
    by code_simp
  then show ?thesis
    using topological_order_is_exact [of "buildCapabilityGraph sample_capabilities" sample_capabilities "[''a'', ''b'', ''c'', ''f'']", OF refl] by simp
qed

lemma cycles_and_order:
  assumes "g = buildCapabilityGraph cs" and "[] \<notin> set names"
  shows "\<exists>zs. findCircularDependencies g names = Some zs \<and>
    (\<forall>c\<in>set zs. \<exists>b. b \<noteq> [] \<and> c = b @ [hd b] \<and> (\<forall>x\<in>set b. \<not> str_less x (hd b)) \<and>
       (\<forall>i<length b. (b ! (Suc i mod length b), b ! i) \<in> depends_in g names)) \<and>
    (zs = [] \<longleftrightarrow> set (topologicalOrder g names) = set names \<inter> set (nodeNames g))"
proof -
  let ?deps = "entries (gr_adjacency g)" and ?scope = "in_graph g names"
  have ne: "[] \<notin> set ?scope" using assms built_scope(1) by auto
  obtain t where t: "search_scope ?deps ?scope = Some t" "\<And>c. c \<in> set (sr_cycles t) \<Longrightarrow> a_cycle ?deps ?scope c"
      "sr_cycles t = [] \<longleftrightarrow> set ?scope \<subseteq> Wellfounded.acc (depends ?deps ?scope)" using cycles_exact [OF ne] by metis
  have scope: "set ?scope = set names \<inter> set (nodeNames g)" using built_scope(1) assms(1) by simp
  have "\<exists>b. b \<noteq> [] \<and> c = b @ [hd b] \<and> (\<forall>x\<in>set b. \<not> str_less x (hd b)) \<and> (\<forall>i<length b. (b ! (Suc i mod length b), b ! i) \<in> depends_in g names)"
    if c: "c \<in> set (sr_cycles t)" for c
  proof -
    obtain b where b: "closed_walk ?deps ?scope b" "c = b @ [hd b]" "\<forall>x\<in>set b. \<not> str_less x (hd b)" using t(2) [OF c] by (auto simp: a_cycle_def)
    have "(b ! (Suc i mod length b), b ! i) \<in> depends_in g names" if i: "i < length b" for i
    proof -
      have "Suc i mod length b < length b" using i by (intro mod_less_divisor) linarith
      then have "b ! (Suc i mod length b) \<in> set ?scope" "b ! i \<in> set ?scope" using b(1) i unfolding closed_walk_def by (meson nth_mem subsetD)+
      then show ?thesis using b(1) i scope by (simp add: closed_walk_def depends_in_def)
    qed
    then show ?thesis using b by (intro exI [of _ b]) (simp add: closed_walk_def)
  qed
  moreover have "findCircularDependencies g names = Some (js_sort compare_cycles (sr_cycles t))" by (simp add: findCircularDependencies_def t(1))
  moreover have "sr_cycles t = [] \<longleftrightarrow> set (topologicalOrder g names) = set names \<inter> set (nodeNames g)"
    using t(3) scope kahn_exact(3) [where deps = ?deps, OF ne built_scope(2)] built_distinct assms(1)
    by (auto simp: topologicalOrder_def Let_def)
  ultimately show ?thesis by (intro exI [of _ "js_sort compare_cycles (sr_cycles t)"]) simp
qed

text \<open>C31: The depth-first search and Kahn's algorithm agree. The search for circular dependencies returns for every graph
  that was built and every selection; what it reports are cycles of the dependency relation, each from its least name
  back to it; and it reports none exactly when the topological order holds all names of the selection that are in the
  graph.\<close>

theorem circular_dependencies_agree_with_order:
  assumes "g = buildCapabilityGraph cs" and "[] \<notin> set names"
  shows "\<exists>zs. findCircularDependencies g names = Some zs \<and>
    (\<forall>c\<in>set zs. \<exists>b. b \<noteq> [] \<and> c = b @ [hd b] \<and> (\<forall>x\<in>set b. \<not> str_less x (hd b)) \<and>
       (\<forall>i<length b. (b ! (Suc i mod length b), b ! i) \<in> depends_in g names)) \<and>
    (zs = [] \<longleftrightarrow> set (topologicalOrder g names) = set names \<inter> set (nodeNames g))"
  by (rule cycles_and_order [OF assms])

theorem circular_dependencies_agree_with_order_witness:
  "\<exists>zs. findCircularDependencies (buildCapabilityGraph sample_capabilities) [''a'', ''f'', ''d'', ''e''] = Some zs \<and>
     (zs = [] \<longleftrightarrow> set (topologicalOrder (buildCapabilityGraph sample_capabilities) [''a'', ''f'', ''d'', ''e'']) =
        set [''a'', ''f'', ''d'', ''e''] \<inter> set (nodeNames (buildCapabilityGraph sample_capabilities)))"
  using circular_dependencies_agree_with_order [of "buildCapabilityGraph sample_capabilities" sample_capabilities "[''a'', ''f'', ''d'', ''e'']", OF refl]
  by auto

end
