(* ===== verification/Platform_Resolve.thy ===== *)
theory Platform_Resolve
  imports Platform_Graph Dealflow_Strings
begin

text \<open>
  The validation of an explicit selection of capabilities (\<open>capabilities/resolve.ts\<close>): the issues of a selection in the
  order the function finds them, sorted, with the closure and the order of the selected names. The function returns
  nothing only where one of the searches it calls does.
\<close>

section \<open>Requests and issues\<close>

datatype issue_code = Is_unknown_capability | Is_missing_dependency | Is_circular_dependency | Is_conflict
  | Is_unsupported_architecture_mode | Is_unsupported_deployment_mode | Is_missing_environment_variable
  | Is_missing_infrastructure | Is_unavailable_provider

primrec issue_code_name :: "issue_code \<Rightarrow> string" where
  "issue_code_name Is_unknown_capability = ''unknown-capability''"
| "issue_code_name Is_missing_dependency = ''missing-dependency''"
| "issue_code_name Is_circular_dependency = ''circular-dependency''"
| "issue_code_name Is_conflict = ''conflict''"
| "issue_code_name Is_unsupported_architecture_mode = ''unsupported-architecture-mode''"
| "issue_code_name Is_unsupported_deployment_mode = ''unsupported-deployment-mode''"
| "issue_code_name Is_missing_environment_variable = ''missing-environment-variable''"
| "issue_code_name Is_missing_infrastructure = ''missing-infrastructure''"
| "issue_code_name Is_unavailable_provider = ''unavailable-provider''"

datatype issue_severity = Sev_error | Sev_warning

datatype issue_details = No_details | Cycle_details "string list" | Provider_details "string list" "string list"

record capability_issue =
  ci_code :: issue_code
  ci_severity :: issue_severity
  ci_capability :: string
  ci_message :: string
  ci_related :: "string option"
  ci_details :: issue_details

datatype env_value = Env_string string | Env_number js_number | Env_boolean bool | Env_undefined | Env_null

record resolve_input =
  ri_selected :: "string list"
  ri_architectureMode :: "string option"
  ri_deploymentMode :: "string option"
  ri_environment :: "(string \<rightharpoonup> env_value) option"
  ri_infrastructure :: "string list option"
  ri_providers :: "string list option"

record capability_resolution =
  cr_valid :: bool
  cr_architectureMode :: string
  cr_deploymentMode :: string
  cr_selected :: "string list"
  cr_ordered :: "string list"
  cr_required :: "string list"
  cr_missing :: "string list"
  cr_optionalMissing :: "string list"
  cr_graph :: capability_graph
  cr_issues :: "capability_issue list"

definition DEFAULT_ARCHITECTURE_MODE :: string where "DEFAULT_ARCHITECTURE_MODE = ''architecture.modular-monolith''"
definition DEFAULT_DEPLOYMENT_MODE :: string where "DEFAULT_DEPLOYMENT_MODE = ''deployment.local-hybrid''"

text \<open>\<open>mode?.trim() || fallback\<close>\<close>

definition mode_or :: "string \<Rightarrow> string option \<Rightarrow> string" where
  "mode_or fallback mode = (case mode of None \<Rightarrow> fallback | Some m \<Rightarrow> if js_trim m = [] then fallback else js_trim m)"

definition hasEnvValue :: "(string \<rightharpoonup> env_value) \<Rightarrow> string \<Rightarrow> bool" where
  "hasEnvValue environment name = (case environment name of
     None \<Rightarrow> False | Some Env_undefined \<Rightarrow> False | Some Env_null \<Rightarrow> False | Some (Env_string s) \<Rightarrow> js_trim s \<noteq> [] | Some _ \<Rightarrow> True)"

definition compareIssues :: "capability_issue \<Rightarrow> capability_issue \<Rightarrow> rat" where
  "compareIssues l r =
     (let code = compareCapabilityNames (issue_code_name (ci_code l)) (issue_code_name (ci_code r));
          capability = compareCapabilityNames (ci_capability l) (ci_capability r);
          related = compareCapabilityNames (case_option '''' id (ci_related l)) (case_option '''' id (ci_related r)) in
      if code \<noteq> 0 then code else if capability \<noteq> 0 then capability else if related \<noteq> 0 then related
      else compareCapabilityNames (ci_message l) (ci_message r))"

definition quoted :: "string \<Rightarrow> string" where "quoted s = CHR 0x22 # s @ [CHR 0x22]"

definition issue :: "issue_code \<Rightarrow> issue_severity \<Rightarrow> string \<Rightarrow> string option \<Rightarrow> string \<Rightarrow> capability_issue" where
  "issue code severity capability related message = \<lparr>ci_code = code, ci_severity = severity, ci_capability = capability,
     ci_message = message, ci_related = related, ci_details = No_details\<rparr>"

section \<open>The issues of a selection\<close>

definition unknown_issues :: "string list \<Rightarrow> string list \<Rightarrow> capability_issue list" where
  "unknown_issues known selected = map (\<lambda>n. issue Is_unknown_capability Sev_error n None
     (''Capability '' @ quoted n @ '' is not registered'')) (filter (\<lambda>n. n \<notin> set known) selected)"

definition dependency_issue :: "string list \<Rightarrow> string \<Rightarrow> string \<Rightarrow> capability_issue" where
  "dependency_issue known name dependency =
     (if dependency \<notin> set known
      then issue Is_unknown_capability Sev_error name (Some dependency)
        (''Capability '' @ quoted name @ '' depends on unknown capability '' @ quoted dependency)
      else issue Is_missing_dependency Sev_error name (Some dependency)
        (''Capability '' @ quoted name @ '' requires '' @ quoted dependency @ '', which is not selected''))"

definition dependency_issues :: "capability_graph \<Rightarrow> string list \<Rightarrow> string list \<Rightarrow> string list \<Rightarrow> capability_issue list" where
  "dependency_issues g known selected knownSelected = concat (map (\<lambda>n. map (dependency_issue known n)
     (filter (\<lambda>d. d \<notin> set selected) (entries (gr_adjacency g) n))) knownSelected)"

definition optional_issues :: "capability_graph \<Rightarrow> string list \<Rightarrow> string list \<Rightarrow> string list \<Rightarrow> capability_issue list" where
  "optional_issues g known selected knownSelected = concat (map (\<lambda>n. map (\<lambda>d. issue Is_unknown_capability Sev_warning n (Some d)
        (''Capability '' @ quoted n @ '' lists unknown optional dependency '' @ quoted d))
     (filter (\<lambda>d. d \<notin> set selected \<and> d \<notin> set known) (entries (gr_optionalAdjacency g) n))) knownSelected)"

text \<open>The pair of a capability in conflict with itself has one name; the second is \<open>undefined\<close>.\<close>

definition conflict_pair :: "string \<Rightarrow> string \<Rightarrow> string \<times> string option" where
  "conflict_pair name conflict = (case uniqueSortedNames [name, conflict] of
     [x] \<Rightarrow> (x, None) | x # y # _ \<Rightarrow> (x, Some y) | [] \<Rightarrow> (name, None))"

definition conflict_key :: "string \<times> string option \<Rightarrow> string" where
  "conflict_key p = fst p @ CHR 0x00 # (case snd p of None \<Rightarrow> ''undefined'' | Some y \<Rightarrow> y)"

definition conflict_issue :: "string \<times> string option \<Rightarrow> capability_issue" where
  "conflict_issue p = issue Is_conflict Sev_error (fst p) (snd p)
     (''Capabilities '' @ quoted (fst p) @ '' and '' @ quoted (case snd p of None \<Rightarrow> ''undefined'' | Some y \<Rightarrow> y) @ '' conflict'')"

fun conflicts_once :: "string list \<Rightarrow> (string \<times> string option) list \<Rightarrow> (string \<times> string option) list" where
  "conflicts_once keys [] = []"
| "conflicts_once keys (p # ps) =
     (if conflict_key p \<in> set keys then conflicts_once keys ps else p # conflicts_once (conflict_key p # keys) ps)"

definition conflict_issues :: "capability_graph \<Rightarrow> string list \<Rightarrow> string list \<Rightarrow> capability_issue list" where
  "conflict_issues g selected knownSelected = map conflict_issue (conflicts_once [] (concat (map (\<lambda>n. map (conflict_pair n)
     (filter (\<lambda>c. c \<in> set selected) (entries (gr_conflictAdjacency g) n))) knownSelected)))"

definition cycle_issue :: "string list \<Rightarrow> capability_issue" where
  "cycle_issue cycle = (issue Is_circular_dependency Sev_error (case cycle of [] \<Rightarrow> ''unknown'' | x # _ \<Rightarrow> x) (first (tl (butlast cycle)))
     (''Circular dependency: '' @ joined ('' '' @ ARROW @ '' '') cycle))\<lparr>ci_details := Cycle_details cycle\<rparr>"

definition modes_of :: "capability_graph \<Rightarrow> capability_kind \<Rightarrow> string list" where
  "modes_of g k = map gn_name (filter (\<lambda>n. gn_kind n = k) (gr_nodes g))"

definition mode_known :: "string list \<Rightarrow> string \<Rightarrow> bool" where
  "mode_known modes mode \<longleftrightarrow> modes = [] \<or> mode \<in> set modes"

definition mode_issues :: "capability_graph \<Rightarrow> string \<Rightarrow> string \<Rightarrow> capability_issue list" where
  "mode_issues g am dm =
     (if mode_known (modes_of g Ck_architecture_mode) am then []
      else [issue Is_unsupported_architecture_mode Sev_error am None (''Architecture mode '' @ quoted am @ '' is not registered'')]) @
     (if mode_known (modes_of g Ck_deployment_mode) dm then []
      else [issue Is_unsupported_deployment_mode Sev_error dm None (''Deployment mode '' @ quoted dm @ '' is not registered'')])"

text \<open>\<open>new Map(nodes)\<close>: of two nodes with one name the later.\<close>

definition node_by_name :: "capability_graph \<Rightarrow> string \<Rightarrow> graph_node option" where
  "node_by_name g name = find (\<lambda>n. gn_name n = name) (rev (gr_nodes g))"

definition per_node :: "capability_graph \<Rightarrow> (graph_node \<Rightarrow> string \<Rightarrow> capability_issue list) \<Rightarrow> string list \<Rightarrow> capability_issue list" where
  "per_node g f names = concat (map (\<lambda>n. case node_by_name g n of None \<Rightarrow> [] | Some node \<Rightarrow> f node n) names)"

definition compatibility_issues :: "capability_graph \<Rightarrow> string \<Rightarrow> string \<Rightarrow> graph_node \<Rightarrow> string \<Rightarrow> capability_issue list" where
  "compatibility_issues g am dm node name =
     (if mode_known (modes_of g Ck_architecture_mode) am \<and> am \<notin> set (gn_architectureCompatibility node)
      then [issue Is_unsupported_architecture_mode Sev_error name (Some am)
        (''Capability '' @ quoted name @ '' does not support architecture mode '' @ quoted am)] else []) @
     (if mode_known (modes_of g Ck_deployment_mode) dm \<and> dm \<notin> set (gn_deploymentCompatibility node)
      then [issue Is_unsupported_deployment_mode Sev_error name (Some dm)
        (''Capability '' @ quoted name @ '' does not support deployment mode '' @ quoted dm)] else [])"

definition environment_issues :: "(string \<rightharpoonup> env_value) \<Rightarrow> graph_node \<Rightarrow> string \<Rightarrow> capability_issue list" where
  "environment_issues environment node name = map (\<lambda>v. issue Is_missing_environment_variable Sev_error name (Some v)
        (''Capability '' @ quoted name @ '' requires environment variable '' @ v))
     (filter (\<lambda>v. \<not> hasEnvValue environment v) (gn_environmentRequirements node))"

definition infrastructure_issues :: "string list \<Rightarrow> graph_node \<Rightarrow> string \<Rightarrow> capability_issue list" where
  "infrastructure_issues available node name = map (\<lambda>r. issue Is_missing_infrastructure Sev_error name (Some r)
        (''Capability '' @ quoted name @ '' requires infrastructure '' @ quoted r @ '', which is not available''))
     (filter (\<lambda>r. r \<notin> set available) (gn_infrastructureRequirements node))"

definition provider_issues :: "string list \<Rightarrow> graph_node \<Rightarrow> string \<Rightarrow> capability_issue list" where
  "provider_issues providers node name =
     (if gn_providerRequirements node = [] \<or> list_ex (\<lambda>p. p \<in> set providers) (gn_providerRequirements node) then []
      else [(issue Is_unavailable_provider Sev_error name None
          (''Capability '' @ quoted name @ '' requires one of: '' @ joined '', '' (gn_providerRequirements node)))
        \<lparr>ci_details := Provider_details (gn_providerRequirements node) (uniqueSortedNames providers)\<rparr>])"

section \<open>The resolution\<close>

definition selected_names :: "resolve_input \<Rightarrow> string list" where
  "selected_names input = uniqueSortedNames (filter (\<lambda>n. n \<noteq> []) (map js_trim (ri_selected input)))"

definition known_names :: "capability_graph \<Rightarrow> string list \<Rightarrow> string list" where
  "known_names g selected = filter (\<lambda>n. n \<in> set (nodeNames g)) selected"

definition static_issues :: "capability_graph \<Rightarrow> resolve_input \<Rightarrow> string list \<Rightarrow> string list \<Rightarrow> capability_issue list" where
  "static_issues g input selected knownSelected =
     unknown_issues (nodeNames g) selected @ dependency_issues g (nodeNames g) selected knownSelected @
     optional_issues g (nodeNames g) selected knownSelected @ conflict_issues g selected knownSelected"

definition requirement_issues :: "capability_graph \<Rightarrow> resolve_input \<Rightarrow> string \<Rightarrow> string \<Rightarrow> string list \<Rightarrow> capability_issue list" where
  "requirement_issues g input am dm knownSelected =
     mode_issues g am dm @ per_node g (compatibility_issues g am dm) knownSelected @
     (case ri_environment input of None \<Rightarrow> [] | Some m \<Rightarrow> per_node g (environment_issues m) knownSelected) @
     (case ri_infrastructure input of None \<Rightarrow> [] | Some xs \<Rightarrow> per_node g (infrastructure_issues xs) knownSelected) @
     (case ri_providers input of None \<Rightarrow> [] | Some xs \<Rightarrow> per_node g (provider_issues xs) knownSelected)"

definition resolveCapabilities :: "capability_definition list \<Rightarrow> resolve_input \<Rightarrow> capability_resolution option" where
  "resolveCapabilities capabilities input =
     (let g = buildCapabilityGraph capabilities; selected = selected_names input; knownSelected = known_names g selected;
          am = mode_or DEFAULT_ARCHITECTURE_MODE (ri_architectureMode input);
          dm = mode_or DEFAULT_DEPLOYMENT_MODE (ri_deploymentMode input) in
      Option.bind (requiredClosure g knownSelected) (\<lambda>required.
      Option.bind (findCircularDependencies g (uniqueSortedNames (knownSelected @ required))) (\<lambda>cycles.
      let issues = js_sort compareIssues (static_issues g input selected knownSelected @ map cycle_issue cycles @
            requirement_issues g input am dm knownSelected) in
      Some \<lparr>cr_valid = list_all (\<lambda>i. ci_severity i \<noteq> Sev_error) issues, cr_architectureMode = am, cr_deploymentMode = dm,
        cr_selected = selected, cr_ordered = topologicalOrder g knownSelected, cr_required = required,
        cr_missing = filter (\<lambda>n. n \<notin> set selected) required,
        cr_optionalMissing = filter (\<lambda>n. n \<notin> set selected)
          (uniqueSortedNames (concat (map (entries (gr_optionalAdjacency g)) knownSelected))),
        cr_graph = g, cr_issues = issues\<rparr>)))"

definition assertCapabilityResolution :: "capability_resolution \<Rightarrow> app_error + capability_resolution" where
  "assertCapabilityResolution r = (if cr_valid r then Inr r else Inl (ValidationError ''Capability selection is invalid''))"

section \<open>What the function returns\<close>

lemma selected_not_empty: "[] \<notin> set (selected_names input)"
  by (simp add: selected_names_def)

lemma resolution_scope:
  assumes "g = buildCapabilityGraph cs" "ks = known_names g (selected_names input)"
  obtains required cycles where "requiredClosure g ks = Some required" and "findCircularDependencies g (uniqueSortedNames (ks @ required)) = Some cycles"
    and "\<And>n. n \<in> set required \<longleftrightarrow> needed (entries (gr_adjacency g)) (nodeNames g) ks n" and "sorted_wrt str_less required"
    and "cycles = [] \<longleftrightarrow> set (topologicalOrder g (uniqueSortedNames (ks @ required))) = set (uniqueSortedNames (ks @ required)) \<inter> set (nodeNames g)"
proof -
  obtain required where r: "requiredClosure g ks = Some required" "sorted_wrt str_less required"
      "\<And>n. n \<in> set required \<longleftrightarrow> needed (entries (gr_adjacency g)) (nodeNames g) ks n" using closure_exact by blast
  have "n \<noteq> []" if "needed (entries (gr_adjacency g)) (nodeNames g) ks n" for n using that by cases
  then have "[] \<notin> set (uniqueSortedNames (ks @ required))" using r(3) selected_not_empty assms(2) by (auto simp: known_names_def)
  from cycles_and_order [OF assms(1) this] show thesis using that r by metis
qed

text \<open>The validation of a selection returns a resolution for every catalogue of capabilities and every request: none of
  its searches runs forever.\<close>

theorem resolution_returns: "\<exists>r. resolveCapabilities cs input = Some r"
proof -
  obtain required cycles where "requiredClosure (buildCapabilityGraph cs) (known_names (buildCapabilityGraph cs) (selected_names input)) = Some required"
      "findCircularDependencies (buildCapabilityGraph cs) (uniqueSortedNames (known_names (buildCapabilityGraph cs) (selected_names input) @ required)) = Some cycles"
    using resolution_scope [OF refl refl] by metis
  then show ?thesis by (simp add: resolveCapabilities_def Let_def)
qed

section \<open>Valid selections\<close>

definition quiet_issues :: "capability_issue list \<Rightarrow> bool" where
  "quiet_issues xs \<longleftrightarrow> list_all (\<lambda>i. ci_severity i \<noteq> Sev_error) xs"

lemma quiet_append [simp]: "quiet_issues (xs @ ys) \<longleftrightarrow> quiet_issues xs \<and> quiet_issues ys"
  by (simp add: quiet_issues_def)

lemma quiet_sort [simp]: "quiet_issues (js_sort cmp xs) \<longleftrightarrow> quiet_issues xs"
  by (simp add: quiet_issues_def list_all_iff)

lemma quiet_errors: "(\<And>i. i \<in> set xs \<Longrightarrow> ci_severity i = Sev_error) \<Longrightarrow> quiet_issues xs \<longleftrightarrow> xs = []"
  by (cases xs) (auto simp: quiet_issues_def)

lemma severity_issue [simp]: "ci_severity (issue c s n r m) = s" "ci_severity (issue c s n r m\<lparr>ci_details := d\<rparr>) = s"
  by (simp_all add: issue_def)

lemma quiet_per_node:
  assumes "\<And>node n i. i \<in> set (f node n) \<Longrightarrow> ci_severity i = Sev_error"
  shows "quiet_issues (per_node g f names) \<longleftrightarrow> (\<forall>n\<in>set names. \<forall>node. node_by_name g n = Some node \<longrightarrow> f node n = [])"
proof -
  have "quiet_issues (per_node g f names) \<longleftrightarrow> per_node g f names = []"
    by (rule quiet_errors) (auto simp: per_node_def assms split: option.splits)
  then show ?thesis by (auto simp: per_node_def split: option.splits)
qed

lemma conflicts_once_Nil: "conflicts_once [] ps = [] \<longleftrightarrow> ps = []"
  by (cases ps) auto

lemma quiet_unknown: "quiet_issues (unknown_issues known selected) \<longleftrightarrow> set selected \<subseteq> set known"
proof -
  have "quiet_issues (unknown_issues known selected) \<longleftrightarrow> unknown_issues known selected = []"
    by (rule quiet_errors) (auto simp: unknown_issues_def)
  then show ?thesis by (auto simp: unknown_issues_def filter_empty_conv)
qed

lemma quiet_dependencies:
  "quiet_issues (dependency_issues g known selected ks) \<longleftrightarrow> (\<forall>n\<in>set ks. set (entries (gr_adjacency g) n) \<subseteq> set selected)"
proof -
  have "quiet_issues (dependency_issues g known selected ks) \<longleftrightarrow> dependency_issues g known selected ks = []"
    by (rule quiet_errors) (auto simp: dependency_issues_def dependency_issue_def)
  then show ?thesis by (auto simp: dependency_issues_def filter_empty_conv)
qed

lemma quiet_conflicts:
  "quiet_issues (conflict_issues g selected ks) \<longleftrightarrow> (\<forall>n\<in>set ks. set (entries (gr_conflictAdjacency g) n) \<inter> set selected = {})"
proof -
  have "quiet_issues (conflict_issues g selected ks) \<longleftrightarrow> conflict_issues g selected ks = []"
    by (rule quiet_errors) (auto simp: conflict_issues_def conflict_issue_def)
  then show ?thesis by (auto simp: conflict_issues_def conflicts_once_Nil filter_empty_conv)
qed

lemma quiet_cycles: "quiet_issues (map cycle_issue cycles) \<longleftrightarrow> cycles = []"
  by (subst quiet_errors) (auto simp: cycle_issue_def)

lemma quiet_static:
  assumes "quiet_issues (static_issues g input selected ks)" and "ks = known_names g selected"
  shows "set selected \<subseteq> set (nodeNames g)" and "ks = selected"
    and "\<forall>n\<in>set selected. set (entries (gr_adjacency g) n) \<subseteq> set selected"
    and "\<forall>n\<in>set selected. set (entries (gr_conflictAdjacency g) n) \<inter> set selected = {}"
proof -
  show known: "set selected \<subseteq> set (nodeNames g)" using assms(1) by (simp add: static_issues_def quiet_unknown)
  then show ks: "ks = selected" using assms(2) by (auto simp: known_names_def intro: filter_True)
  show "\<forall>n\<in>set selected. set (entries (gr_adjacency g) n) \<subseteq> set selected"
    using assms(1) ks by (simp add: static_issues_def quiet_dependencies)
  show "\<forall>n\<in>set selected. set (entries (gr_conflictAdjacency g) n) \<inter> set selected = {}"
    using assms(1) ks by (simp add: static_issues_def quiet_conflicts)
qed

text \<open>What a capability asks of its surroundings, when the request describes them.\<close>

definition served_by :: "resolve_input \<Rightarrow> string \<Rightarrow> string \<Rightarrow> graph_node \<Rightarrow> bool" where
  "served_by input am dm node \<longleftrightarrow> am \<in> set (gn_architectureCompatibility node) \<and> dm \<in> set (gn_deploymentCompatibility node) \<and>
     (\<forall>m. ri_environment input = Some m \<longrightarrow> (\<forall>v\<in>set (gn_environmentRequirements node). hasEnvValue m v)) \<and>
     (\<forall>xs. ri_infrastructure input = Some xs \<longrightarrow> set (gn_infrastructureRequirements node) \<subseteq> set xs) \<and>
     (\<forall>xs. ri_providers input = Some xs \<longrightarrow> gn_providerRequirements node = [] \<or> set (gn_providerRequirements node) \<inter> set xs \<noteq> {})"

lemma quiet_modes: "quiet_issues (mode_issues g am dm) \<longleftrightarrow>
    mode_known (modes_of g Ck_architecture_mode) am \<and> mode_known (modes_of g Ck_deployment_mode) dm"
  by (simp add: mode_issues_def quiet_issues_def)

lemma quiet_compatibility:
  assumes "mode_known (modes_of g Ck_architecture_mode) am" "mode_known (modes_of g Ck_deployment_mode) dm"
  shows "quiet_issues (per_node g (compatibility_issues g am dm) ks) \<longleftrightarrow> (\<forall>n\<in>set ks. \<forall>node. node_by_name g n = Some node \<longrightarrow>
    am \<in> set (gn_architectureCompatibility node) \<and> dm \<in> set (gn_deploymentCompatibility node))"
  by (subst quiet_per_node) (auto simp: compatibility_issues_def assms split: if_splits)

lemma quiet_environment:
  "quiet_issues (per_node g (environment_issues m) ks) \<longleftrightarrow> (\<forall>n\<in>set ks. \<forall>node. node_by_name g n = Some node \<longrightarrow>
    (\<forall>v\<in>set (gn_environmentRequirements node). hasEnvValue m v))"
  by (subst quiet_per_node) (auto simp: environment_issues_def filter_empty_conv)

lemma quiet_infrastructure:
  "quiet_issues (per_node g (infrastructure_issues xs) ks) \<longleftrightarrow> (\<forall>n\<in>set ks. \<forall>node. node_by_name g n = Some node \<longrightarrow>
    set (gn_infrastructureRequirements node) \<subseteq> set xs)"
  by (subst quiet_per_node) (auto simp: infrastructure_issues_def filter_empty_conv)

lemma quiet_providers:
  "quiet_issues (per_node g (provider_issues xs) ks) \<longleftrightarrow> (\<forall>n\<in>set ks. \<forall>node. node_by_name g n = Some node \<longrightarrow>
    gn_providerRequirements node = [] \<or> set (gn_providerRequirements node) \<inter> set xs \<noteq> {})"
  by (subst quiet_per_node) (auto simp: provider_issues_def list_ex_iff split: if_splits)

lemma quiet_requirements:
  assumes "quiet_issues (requirement_issues g input am dm ks)" "n \<in> set ks" "node_by_name g n = Some node"
  shows "served_by input am dm node"
proof -
  note q = assms(1) [unfolded requirement_issues_def quiet_append quiet_modes]
  have compat: "am \<in> set (gn_architectureCompatibility node) \<and> dm \<in> set (gn_deploymentCompatibility node)"
    using q quiet_compatibility [of g am dm ks] assms(2,3) by blast
  have env: "\<forall>v\<in>set (gn_environmentRequirements node). hasEnvValue m v" if "ri_environment input = Some m" for m
    using q that quiet_environment [of g m ks] assms(2,3) by simp
  have infra: "set (gn_infrastructureRequirements node) \<subseteq> set xs" if "ri_infrastructure input = Some xs" for xs
  proof -
    have "quiet_issues (per_node g (infrastructure_issues xs) ks)" using q that by simp
    then show ?thesis using assms(2,3) unfolding quiet_infrastructure by blast
  qed
  have "gn_providerRequirements node = [] \<or> set (gn_providerRequirements node) \<inter> set xs \<noteq> {}" if "ri_providers input = Some xs" for xs
  proof -
    have "quiet_issues (per_node g (provider_issues xs) ks)" using q that by simp
    then show ?thesis using assms(2,3) unfolding quiet_providers by blast
  qed
  then show ?thesis using compat env infra unfolding served_by_def by blast
qed

text \<open>The parts of a resolution, and when it is valid.\<close>

lemma resolution_parts:
  assumes "resolveCapabilities cs input = Some r"
    and g_def: "g = buildCapabilityGraph cs" and sel_def: "sel = selected_names input" and ks_def: "ks = known_names g sel"
    and am_def: "am = mode_or DEFAULT_ARCHITECTURE_MODE (ri_architectureMode input)"
    and dm_def: "dm = mode_or DEFAULT_DEPLOYMENT_MODE (ri_deploymentMode input)"
  obtains required cycles where "requiredClosure g ks = Some required"
    and "findCircularDependencies g (uniqueSortedNames (ks @ required)) = Some cycles"
    and "\<And>n. n \<in> set required \<longleftrightarrow> needed (entries (gr_adjacency g)) (nodeNames g) ks n" and "sorted_wrt str_less required"
    and "cycles = [] \<longleftrightarrow> set (topologicalOrder g (uniqueSortedNames (ks @ required))) = set (uniqueSortedNames (ks @ required)) \<inter> set (nodeNames g)"
    and "cr_valid r \<longleftrightarrow> quiet_issues (static_issues g input sel ks) \<and> cycles = [] \<and> quiet_issues (requirement_issues g input am dm ks)"
    and "cr_selected r = sel" "cr_ordered r = topologicalOrder g ks" "cr_required r = required"
    "cr_missing r = filter (\<lambda>n. n \<notin> set sel) required" "cr_graph r = g" "cr_architectureMode r = am" "cr_deploymentMode r = dm"
proof -
  obtain required cycles where s: "requiredClosure g ks = Some required" "findCircularDependencies g (uniqueSortedNames (ks @ required)) = Some cycles"
      "\<And>n. n \<in> set required \<longleftrightarrow> needed (entries (gr_adjacency g)) (nodeNames g) ks n" "sorted_wrt str_less required"
      "cycles = [] \<longleftrightarrow> set (topologicalOrder g (uniqueSortedNames (ks @ required))) = set (uniqueSortedNames (ks @ required)) \<inter> set (nodeNames g)"
    using resolution_scope [OF g_def ks_def [unfolded sel_def]] by metis
  let ?issues = "static_issues g input sel ks @ map cycle_issue cycles @ requirement_issues g input am dm ks"
  have r: "cr_valid r \<longleftrightarrow> quiet_issues ?issues" "cr_selected r = sel" "cr_ordered r = topologicalOrder g ks" "cr_required r = required"
      "cr_missing r = filter (\<lambda>n. n \<notin> set sel) required" "cr_graph r = g" "cr_architectureMode r = am" "cr_deploymentMode r = dm"
    using assms(1) s(1,2) quiet_sort [of compareIssues ?issues]
    by (auto simp: resolveCapabilities_def Let_def quiet_issues_def simp flip: g_def sel_def ks_def am_def dm_def)
  have "cr_valid r \<longleftrightarrow> quiet_issues (static_issues g input sel ks) \<and> cycles = [] \<and> quiet_issues (requirement_issues g input am dm ks)"
    using r(1) quiet_cycles by simp
  then show thesis by (rule that [OF s _ r(2-)])
qed

text \<open>C32: A selection that is found valid can be assembled as it stands: every selected name is a capability of the catalogue,
  everything a selected capability requires is selected and no two selected capabilities conflict, so that the closure is
  the selection and nothing is missing; the order lists every selected name once and after the names it depends on, there
  being no cycle; and every selected capability supports the modes and finds the variables, infrastructure and providers
  the request describes.\<close>

theorem valid_selection_is_complete:
  assumes "resolveCapabilities cs input = Some r" and "cr_valid r"
  shows "(\<forall>n\<in>set (cr_selected r). n \<in> set (nodeNames (cr_graph r)) \<and> set (entries (gr_adjacency (cr_graph r)) n) \<subseteq> set (cr_selected r) \<and>
       set (entries (gr_conflictAdjacency (cr_graph r)) n) \<inter> set (cr_selected r) = {}) \<and>
    cr_required r = cr_selected r \<and> cr_missing r = [] \<and>
    set (cr_ordered r) = set (cr_selected r) \<and> distinct (cr_ordered r) \<and>
    (\<forall>i<length (cr_ordered r). set (entries (gr_adjacency (cr_graph r)) (cr_ordered r ! i)) \<subseteq> set (take i (cr_ordered r))) \<and>
    (\<forall>n\<in>set (cr_selected r). \<forall>node. node_by_name (cr_graph r) n = Some node \<longrightarrow>
       served_by input (cr_architectureMode r) (cr_deploymentMode r) node)"
proof -
  define g where "g = buildCapabilityGraph cs"
  define sel where "sel = selected_names input"
  define ks where "ks = known_names g sel"
  define am where "am = mode_or DEFAULT_ARCHITECTURE_MODE (ri_architectureMode input)"
  define dm where "dm = mode_or DEFAULT_DEPLOYMENT_MODE (ri_deploymentMode input)"
  obtain required cycles where s: "requiredClosure g ks = Some required" "findCircularDependencies g (uniqueSortedNames (ks @ required)) = Some cycles"
      "\<And>n. n \<in> set required \<longleftrightarrow> needed (entries (gr_adjacency g)) (nodeNames g) ks n" "sorted_wrt str_less required"
      "cycles = [] \<longleftrightarrow> set (topologicalOrder g (uniqueSortedNames (ks @ required))) = set (uniqueSortedNames (ks @ required)) \<inter> set (nodeNames g)"
    and r: "cr_valid r \<longleftrightarrow> quiet_issues (static_issues g input sel ks) \<and> cycles = [] \<and> quiet_issues (requirement_issues g input am dm ks)"
      "cr_selected r = sel" "cr_ordered r = topologicalOrder g ks" "cr_required r = required"
      "cr_missing r = filter (\<lambda>n. n \<notin> set sel) required" "cr_graph r = g" "cr_architectureMode r = am" "cr_deploymentMode r = dm"
    by (rule resolution_parts [OF assms(1) g_def sel_def ks_def am_def dm_def]) (rule that)
  have q: "quiet_issues (static_issues g input sel ks)" "cycles = []" "quiet_issues (requirement_issues g input am dm ks)"
    using r(1) assms(2) by simp_all
  note st = quiet_static [OF q(1) ks_def]
  have ne: "[] \<notin> set ks" using selected_not_empty st(2) by (simp add: sel_def)
  have sorted: "sorted_wrt str_less ks" by (simp add: ks_def known_names_def sel_def selected_names_def sorted_filter_names)
  have "n \<in> set ks" if "needed (entries (gr_adjacency g)) (nodeNames g) ks n" for n
    using that by induction (use st in auto)
  moreover have "needed (entries (gr_adjacency g)) (nodeNames g) ks n" if "n \<in> set ks" for n
    using that st(1,2) ne by (intro needed.start) auto
  ultimately have req: "required = ks" using s(3,4) sorted by (intro sorted_names_unique) auto
  have "uniqueSortedNames (ks @ required) = ks" unfolding req by (rule sorted_names_unique) (simp_all add: sorted)
  then have all: "set (topologicalOrder g ks) = set ks" using s(5) st(1,2) q(2) by auto
  note t = topological_order_facts [OF g_def ne]
  have "set (entries (gr_adjacency g) (topologicalOrder g ks ! i)) \<subseteq> set (take i (topologicalOrder g ks))" if i: "i < length (topologicalOrder g ks)" for i
  proof
    fix d assume d: "d \<in> set (entries (gr_adjacency g) (topologicalOrder g ks ! i))"
    have n: "topologicalOrder g ks ! i \<in> set ks" using i all nth_mem by blast
    then have "(d, topologicalOrder g ks ! i) \<in> depends_in g ks" using st d by (auto simp: depends_in_def)
    then show "d \<in> set (take i (topologicalOrder g ks))" using t(2) i by blast
  qed
  moreover have "\<forall>n\<in>set sel. n \<in> set (nodeNames g) \<and> set (entries (gr_adjacency g) n) \<subseteq> set sel \<and>
      set (entries (gr_conflictAdjacency g) n) \<inter> set sel = {}" using st by blast
  ultimately show ?thesis using r st(2) req all t(1) quiet_requirements [OF q(3)] by simp
qed

text \<open>A selection of the sample capabilities that is valid.\<close>

definition sample_selection :: resolve_input where
  "sample_selection = \<lparr>ri_selected = ['' a '', ''c'', ''b''], ri_architectureMode = None, ri_deploymentMode = None,
     ri_environment = None, ri_infrastructure = Some [], ri_providers = None\<rparr>"

lemma closure_loop_steps:
  "closure_loop deps known seen [] = Some seen"
  "closure_loop deps known seen (c # rest) = (if c = [] \<or> c \<in> set seen then closure_loop deps known seen rest
     else closure_loop deps known (seen @ [c]) (rev (filter (\<lambda>d. d \<notin> set (seen @ [c]) \<and> d \<in> set known) (deps c)) @ rest))"
  by (subst closure_loop.simps, simp, subst closure_loop.simps, simp add: Let_def)

theorem valid_selection_is_complete_witness:
  "\<exists>r. resolveCapabilities sample_capabilities sample_selection = Some r \<and> cr_valid r \<and> cr_selected r = [''a'', ''b'', ''c''] \<and>
     cr_required r = cr_selected r \<and> set (cr_ordered r) = set (cr_selected r)"
proof -
  obtain r where r: "resolveCapabilities sample_capabilities sample_selection = Some r" using resolution_returns by blast
  let ?g = "buildCapabilityGraph sample_capabilities" and ?abc = "[''a'', ''b'', ''c'']"
  have sel: "selected_names sample_selection = ?abc" "known_names ?g ?abc = ?abc" by code_simp+
  have clo: "requiredClosure ?g ?abc = Some ?abc"
  proof -
    have st: "rev (filter (\<lambda>n. n \<in> set (nodeNames ?g)) (uniqueSortedNames ?abc)) = [''c'', ''b'', ''a'']" by code_simp
    have es: "entries (gr_adjacency ?g) ''a'' = [''b'']" "entries (gr_adjacency ?g) ''b'' = [''c'']" "entries (gr_adjacency ?g) ''c'' = []" by code_simp+
    have "js_sort compareCapabilityNames [''c'', ''b'', ''a''] = ?abc" by code_simp
    then show ?thesis unfolding requiredClosure_def st by (simp add: closure_loop_steps es)
  qed
  have top: "topologicalOrder ?g ?abc = [''c'', ''b'', ''a'']" "uniqueSortedNames (?abc @ ?abc) = ?abc"
      "set ?abc \<subseteq> set (nodeNames ?g)" by code_simp+
  have q: "quiet_issues (static_issues ?g sample_selection ?abc ?abc)"
      "quiet_issues (requirement_issues ?g sample_selection (mode_or DEFAULT_ARCHITECTURE_MODE (ri_architectureMode sample_selection))
        (mode_or DEFAULT_DEPLOYMENT_MODE (ri_deploymentMode sample_selection)) ?abc)" by code_simp+
  have "cr_valid r \<and> cr_selected r = ?abc"
  proof (rule resolution_parts [OF r refl refl refl refl refl], unfold sel)
    fix required cycles
    assume "requiredClosure ?g ?abc = Some required" and sel': "cr_selected r = ?abc"
      and c: "cycles = [] \<longleftrightarrow> set (topologicalOrder ?g (uniqueSortedNames (?abc @ required))) =
        set (uniqueSortedNames (?abc @ required)) \<inter> set (nodeNames ?g)"
      and v: "cr_valid r \<longleftrightarrow> quiet_issues (static_issues ?g sample_selection ?abc ?abc) \<and> cycles = [] \<and>
        quiet_issues (requirement_issues ?g sample_selection (mode_or DEFAULT_ARCHITECTURE_MODE (ri_architectureMode sample_selection))
          (mode_or DEFAULT_DEPLOYMENT_MODE (ri_deploymentMode sample_selection)) ?abc)"
    then have req: "required = ?abc" using clo by simp
    have "set ?abc \<inter> set (nodeNames ?g) = set [''c'', ''b'', ''a'']" using top(3) by auto
    then have "cycles = []" using c unfolding req top(1,2) by metis
    then show "cr_valid r \<and> cr_selected r = ?abc" using v q sel' by blast
  qed
  then have v: "cr_valid r" "cr_selected r = ?abc" by blast+
  show ?thesis using valid_selection_is_complete [OF r v(1)] r v by blast
qed

end
