(* ===== verification/Platform_Ssrf.thy ===== *)
theory Platform_Ssrf
  imports Platform_Rbac "HOL-Library.Word"
begin

unbundle bit_operations_syntax

text \<open>
  Requests to addresses a user names (\<open>security/ssrf.ts\<close>): the test for private hosts, the checks of a URL, the
  resolution of its host and the request to the resolved address. The URL parser, the resolver and the connection are
  parameters; a parsed URL is a record of the fields the code reads. Shifts and masks are those of 32-bit words.
\<close>

section \<open>Hosts\<close>

definition BLOCKED_HOST_SUFFIXES :: "string list" where
  "BLOCKED_HOST_SUFFIXES = [''.local'', ''.internal'', ''.localhost'', ''.lan'', ''.home'', ''.corp'']"

definition BLOCKED_HOSTNAMES :: "string list" where
  "BLOCKED_HOSTNAMES = [''localhost'', ''metadata.google.internal'', ''metadata.goog'', ''kubernetes'', ''kubernetes.default'',
     ''kubernetes.default.svc'']"

definition ends_with :: "string \<Rightarrow> string \<Rightarrow> bool" where
  "ends_with s suffix = starts_with (rev s) (rev suffix)"

text \<open>\<open>replace(/^\[|\]$/g, '')\<close>\<close>

definition strip_brackets :: "string \<Rightarrow> string" where
  "strip_brackets s =
     (let t = (case s of c # r \<Rightarrow> if c = CHR ''['' then r else s | [] \<Rightarrow> []) in
      if t \<noteq> [] \<and> last t = CHR '']'' then butlast t else t)"

definition ip_part :: "string \<Rightarrow> bool" where
  "ip_part s \<longleftrightarrow> 1 \<le> length s \<and> length s \<le> 3 \<and> list_all is_digit s"

definition isIpv4 :: "string \<Rightarrow> bool" where
  "isIpv4 host \<longleftrightarrow> length (split_dots host) = 4 \<and> list_all ip_part (split_dots host)"

text \<open>\<open>Number\<close> on a part of an address; \<open>None\<close> is \<open>NaN\<close>. The callers pass parts that are digits.\<close>

definition part_number :: "string \<Rightarrow> nat option" where
  "part_number s = (if list_all is_digit s then Some (value_of s) else None)"

definition isPrivateIpv4 :: "string \<Rightarrow> bool" where
  "isPrivateIpv4 host = (case map part_number (split_dots host) of
     [Some a, Some b, Some c, Some d] \<Rightarrow>
       if 255 < a \<or> 255 < b \<or> 255 < c \<or> 255 < d then True
       else if a = 10 \<or> a = 127 \<or> a = 0 then True
       else if a = 169 \<and> b = 254 then True
       else if a = 192 \<and> b = 168 then True
       else if a = 172 \<and> 16 \<le> b \<and> b \<le> 31 then True
       else if a = 100 \<and> 64 \<le> b \<and> b \<le> 127 then True
       else False
   | _ \<Rightarrow> True)"

definition is_hex :: "char \<Rightarrow> bool" where
  "is_hex c \<longleftrightarrow> is_digit c \<or> 97 \<le> (of_char c :: nat) \<and> (of_char c :: nat) \<le> 102 \<or> 65 \<le> (of_char c :: nat) \<and> (of_char c :: nat) \<le> 70"

definition hex_value :: "char \<Rightarrow> nat" where
  "hex_value c = (if is_digit c then of_char c - 48 else if 97 \<le> (of_char c :: nat) then of_char c - 87 else of_char c - 55)"

definition parse_hex :: "string \<Rightarrow> nat" where
  "parse_hex s = foldl (\<lambda>n c. n * 16 + hex_value c) 0 s"

definition hex_group :: "string \<Rightarrow> bool" where
  "hex_group s \<longleftrightarrow> 1 \<le> length s \<and> length s \<le> 4 \<and> list_all is_hex s"

definition dotted :: "nat list \<Rightarrow> string" where
  "dotted xs = (case xs of [a, b, c, d] \<Rightarrow> digits a @ CHR ''.'' # digits b @ CHR ''.'' # digits c @ CHR ''.'' # digits d | _ \<Rightarrow> [])"

definition high_low :: "32 word \<Rightarrow> 32 word \<Rightarrow> string" where
  "high_low high low = dotted [unat (drop_bit 8 high AND 255), unat (high AND 255), unat (drop_bit 8 low AND 255), unat (low AND 255)]"

definition ipv4MappedFromIpv6 :: "string \<Rightarrow> string option" where
  "ipv4MappedFromIpv6 host =
     (if toLowerCase (take 7 host) \<noteq> ''::ffff:'' then None
      else let rest = drop 7 host; high = takeWhile (\<lambda>c. c \<noteq> CHR '':'') rest; tail' = drop (length high) rest in
        if isIpv4 rest then Some rest
        else if tail' \<noteq> [] \<and> hex_group high \<and> hex_group (tl tail')
        then Some (high_low (word_of_nat (parse_hex high)) (word_of_nat (parse_hex (tl tail')))) else None)"

definition isBlockedHost :: "string \<Rightarrow> bool" where
  "isBlockedHost host =
     (let normalized = strip_brackets (toLowerCase host) in
      if normalized \<in> set BLOCKED_HOSTNAMES \<or> normalized = ''0.0.0.0'' \<or> normalized = ''::'' \<or> normalized = ''::1'' then True
      else if list_ex (ends_with normalized) BLOCKED_HOST_SUFFIXES then True
      else if normalized \<noteq> [] \<and> list_all is_digit normalized then True
      else case ipv4MappedFromIpv6 normalized of
        Some ip \<Rightarrow> isPrivateIpv4 ip
      | None \<Rightarrow> if isIpv4 normalized then isPrivateIpv4 normalized
          else starts_with normalized ''fe80:'' \<or> starts_with normalized ''fc'' \<or> starts_with normalized ''fd'' \<or> starts_with normalized ''ff'')"

definition isLiteralIpHost :: "string \<Rightarrow> bool" where
  "isLiteralIpHost host \<longleftrightarrow> isIpv4 host \<or> js_includes host '':''"

section \<open>URLs\<close>

record external_url =
  xu_protocol :: string
  xu_username :: string
  xu_password :: string
  xu_hostname :: string
  xu_port :: string

record safe_url_options =
  xo_allowHttp :: "bool option"
  xo_allowNonDefaultPorts :: "bool option"

definition assertHttpUrl :: "(string \<Rightarrow> external_url option) \<Rightarrow> string \<Rightarrow> app_error + external_url" where
  "assertHttpUrl parse value = (case parse value of
     None \<Rightarrow> Inl (ValidationError ''URL is invalid'')
   | Some u \<Rightarrow>
       if xu_protocol u \<notin> {''http:'', ''https:''} then Inl (ValidationError ''URL protocol is not allowed'')
       else if xu_username u \<noteq> [] \<or> xu_password u \<noteq> [] then Inl (ValidationError ''URL credentials are not allowed'')
       else Inr u)"

definition url_host :: "external_url \<Rightarrow> string" where
  "url_host u = strip_brackets (toLowerCase (xu_hostname u))"

definition effective_port :: "external_url \<Rightarrow> nat" where
  "effective_port u = (if xu_port u \<noteq> [] then value_of (xu_port u) else if xu_protocol u = ''https:'' then 443 else 80)"

definition assertSafeExternalUrl :: "(string \<Rightarrow> external_url option) \<Rightarrow> safe_url_options \<Rightarrow> string \<Rightarrow> app_error + external_url" where
  "assertSafeExternalUrl parse options value = (case assertHttpUrl parse value of Inl e \<Rightarrow> Inl e
     | Inr u \<Rightarrow>
         if xu_protocol u = ''http:'' \<and> xo_allowHttp options = Some False then Inl (ValidationError ''URL protocol is not allowed'')
         else if xo_allowNonDefaultPorts options \<noteq> Some True \<and> effective_port u \<notin> {80, 443} then Inl (ValidationError ''URL port is not allowed'')
         else if isBlockedHost (url_host u) then Inl (ValidationError ''URL host is not allowed'')
         else Inr u)"

text \<open>A resolver may answer each lookup of a name differently: \<open>lookup n\<close> is what it does when \<open>n\<close> lookups were made before.
  The functions take the number of lookups made and return the new one. A failed lookup is an external failure unless it
  is a validation error.\<close>

type_synonym dns_lookup = "nat \<Rightarrow> string \<Rightarrow> app_error + string list"

definition resolveSafeExternalUrl ::
  "(string \<Rightarrow> external_url option) \<Rightarrow> dns_lookup \<Rightarrow> safe_url_options \<Rightarrow> string \<Rightarrow> nat \<Rightarrow> (app_error + external_url \<times> string list) \<times> nat" where
  "resolveSafeExternalUrl parse lookup options value n = (case assertSafeExternalUrl parse options value of Inl e \<Rightarrow> (Inl e, n)
     | Inr u \<Rightarrow>
         if isLiteralIpHost (url_host u) then (Inr (u, [url_host u]), n)
         else (case lookup n (url_host u) of
           Inl (ValidationError m) \<Rightarrow> Inl (ValidationError m)
         | Inl _ \<Rightarrow> Inl (ExternalServiceError ''External request failed'')
         | Inr addresses \<Rightarrow>
             if addresses = [] \<or> list_ex isBlockedHost addresses then Inl (ValidationError ''URL host is not allowed'')
             else Inr (u, addresses), n + 1))"

section \<open>Requests\<close>

text \<open>The lookup of the connection answers with the pinned address, whatever the host name.\<close>

definition createPinnedLookup :: "string \<Rightarrow> string \<Rightarrow> string \<times> nat" where
  "createPinnedLookup address hostname = (address, if js_includes address '':'' then 6 else 4)"

datatype redirect_mode = Rd_error | Rd_follow | Rd_manual

text \<open>\<open>connect\<close> opens the connection to an address and answers with a status and a body, or fails.\<close>

definition pinnedNodeFetch ::
  "(string \<Rightarrow> external_url \<Rightarrow> app_error + nat \<times> string) \<Rightarrow> redirect_mode option \<Rightarrow> external_url \<Rightarrow> string \<Rightarrow> app_error + nat \<times> string" where
  "pinnedNodeFetch connect redirect u address = (case connect (fst (createPinnedLookup address (xu_hostname u))) u of
     Inl e \<Rightarrow> Inl e
   | Inr (status, body) \<Rightarrow>
       if (redirect = None \<or> redirect = Some Rd_error) \<and> 300 \<le> status \<and> status < 400
       then Inl (ExternalServiceError ''External request failed'') else Inr (status, body))"

definition fetchExternal ::
  "(string \<Rightarrow> external_url option) \<Rightarrow> dns_lookup \<Rightarrow> (string \<Rightarrow> external_url \<Rightarrow> app_error + nat \<times> string) \<Rightarrow>
     (external_url \<Rightarrow> string \<Rightarrow> app_error + nat \<times> string) option \<Rightarrow> safe_url_options \<Rightarrow> redirect_mode option \<Rightarrow> string \<Rightarrow> nat \<Rightarrow>
     (app_error + nat \<times> string) \<times> nat" where
  "fetchExternal parse lookup connect fetchImpl options redirect value n = (case resolveSafeExternalUrl parse lookup options value n of
       (Inl e, n') \<Rightarrow> (Inl e, n')
     | (Inr (u, addresses), n') \<Rightarrow>
         (case (case fetchImpl of Some f \<Rightarrow> f u (hd addresses)
                | None \<Rightarrow> pinnedNodeFetch connect (Some (case redirect of None \<Rightarrow> Rd_error | Some r \<Rightarrow> r)) u (hd addresses)) of
            Inr answer \<Rightarrow> Inr answer
          | Inl (ValidationError m) \<Rightarrow> Inl (ValidationError m)
          | Inl (ExternalServiceError m) \<Rightarrow> Inl (ExternalServiceError m)
          | Inl _ \<Rightarrow> Inl (ExternalServiceError ''External request failed''), n'))"

section \<open>No request reaches a private address\<close>

lemma assertSafe_cases:
  assumes "assertSafeExternalUrl parse options value = Inr u"
  shows "xu_protocol u \<in> {''http:'', ''https:''}" "xu_username u = []" "xu_password u = []"
    "xu_protocol u = ''http:'' \<Longrightarrow> xo_allowHttp options \<noteq> Some False"
    "xo_allowNonDefaultPorts options \<noteq> Some True \<Longrightarrow> effective_port u \<in> {80, 443}"
    "\<not> isBlockedHost (url_host u)" "parse value = Some u"
  using assms
  by (auto simp: assertSafeExternalUrl_def assertHttpUrl_def split: option.splits sum.splits if_splits)

lemma resolveSafe_cases:
  assumes "resolveSafeExternalUrl parse lookup options value n = (Inr (u, addresses), n')"
  shows "assertSafeExternalUrl parse options value = Inr u" "addresses \<noteq> []" "list_all (\<lambda>a. \<not> isBlockedHost a) addresses"
    "if isLiteralIpHost (url_host u) then addresses = [url_host u] else lookup n (url_host u) = Inr addresses"
proof -
  show s: "assertSafeExternalUrl parse options value = Inr u"
    using assms by (auto simp: resolveSafeExternalUrl_def split: sum.splits app_error.splits if_splits)
  show "addresses \<noteq> []"
    using assms by (auto simp: resolveSafeExternalUrl_def split: sum.splits app_error.splits if_splits)
  show "list_all (\<lambda>a. \<not> isBlockedHost a) addresses"
    using assms assertSafe_cases(6) [OF s]
    by (auto simp: resolveSafeExternalUrl_def list_all_iff list_ex_iff split: sum.splits app_error.splits if_splits)
  show "if isLiteralIpHost (url_host u) then addresses = [url_host u] else lookup n (url_host u) = Inr addresses"
    using assms s by (auto simp: resolveSafeExternalUrl_def split: sum.splits app_error.splits if_splits)
qed

text \<open>Only the first lookup is made, and only its answer is used.\<close>

lemma resolveSafe_one_lookup:
  assumes "lookup' n = lookup n"
  shows "resolveSafeExternalUrl parse lookup' options value n = resolveSafeExternalUrl parse lookup options value n"
  by (simp add: resolveSafeExternalUrl_def assms split: sum.split)

lemma resolveSafe_count: "snd (resolveSafeExternalUrl parse lookup options value n) \<le> n + 1"
  by (simp add: resolveSafeExternalUrl_def split: sum.split)

text \<open>A request the rules allow: the URL is HTTP or HTTPS (and not HTTP when that is off), carries neither user name nor
  password, names the port 80 or 443 unless others are allowed, neither its host nor the address is blocked, and the
  address is the host itself, written as an address, or the first answer of the lookup made for this request.\<close>

definition allowed_request :: "dns_lookup \<Rightarrow> nat \<Rightarrow> safe_url_options \<Rightarrow> string \<Rightarrow> external_url \<Rightarrow> bool" where
  "allowed_request lookup n options a u \<longleftrightarrow>
     (xu_protocol u = ''https:'' \<or> xu_protocol u = ''http:'' \<and> xo_allowHttp options \<noteq> Some False) \<and>
     xu_username u = [] \<and> xu_password u = [] \<and>
     (xo_allowNonDefaultPorts options = Some True \<or> effective_port u = 80 \<or> effective_port u = 443) \<and>
     \<not> isBlockedHost (url_host u) \<and> \<not> isBlockedHost a \<and>
     (if isLiteralIpHost (url_host u) then a = url_host u
      else case lookup n (url_host u) of Inl _ \<Rightarrow> False | Inr addresses \<Rightarrow> addresses \<noteq> [] \<and> a = hd addresses)"

lemma resolved_is_allowed:
  assumes "resolveSafeExternalUrl parse lookup options value n = (Inr (u, addresses), n')"
  shows "allowed_request lookup n options (hd addresses) u"
proof -
  note s = resolveSafe_cases [OF assms]
  note c = assertSafe_cases [OF s(1)]
  have "\<not> isBlockedHost (hd addresses)" using s(2, 3) by (cases addresses) simp_all
  then show ?thesis using c(1-6) s(2, 4) by (auto simp: allowed_request_def split: if_splits)
qed

text \<open>C33: A request to an address a user names is made to an allowed address, over the connection and over a replacement
  \<open>fetchImpl\<close> alike: replace what either does on a request that is not allowed (another protocol, HTTP when it is off, a user
  name, a password, another port, a blocked host, a blocked address, an address other than the first one that the lookup
  of this request answered and the check passed) by anything, and the result is the same. It is also the same whatever
  the resolver would answer to any other lookup: at most one is made, so a name that answers a second lookup with a
  private address gains nothing.\<close>

theorem requests_reach_allowed_addresses:
  "fetchExternal parse lookup connect fetchImpl options redirect url n =
   fetchExternal parse (\<lambda>k. if k = n then lookup n else other_lookup k)
     (\<lambda>a u. if allowed_request lookup n options a u then connect a u else other a u)
     (map_option (\<lambda>f u a. if allowed_request lookup n options a u then f u a else other a u) fetchImpl)
     options redirect url n
   \<and> snd (fetchExternal parse lookup connect fetchImpl options redirect url n) \<le> n + 1"
proof -
  note one = resolveSafe_one_lookup [of "\<lambda>k. if k = n then lookup n else other_lookup k" n lookup]
  show ?thesis
  proof (cases "resolveSafeExternalUrl parse lookup options url n")
    case (Pair r n')
    have n': "n' \<le> n + 1" using resolveSafe_count [of parse lookup options url n] Pair by simp
    show ?thesis
    proof (cases r)
      case (Inl e)
      show ?thesis using n' by (simp add: fetchExternal_def one Pair Inl)
    next
      case (Inr ua)
      then obtain u addresses where r: "resolveSafeExternalUrl parse lookup options url n = (Inr (u, addresses), n')"
        using Pair by (cases ua) simp
      show ?thesis using resolved_is_allowed [OF r] n'
        by (cases fetchImpl) (simp_all add: fetchExternal_def one r pinnedNodeFetch_def createPinnedLookup_def)
    qed
  qed
qed

text \<open>A sample: a name that answers the first lookup with a public address and every later one with a private address.\<close>

definition sample_external_url :: external_url where
  "sample_external_url = \<lparr>xu_protocol = ''https:'', xu_username = [], xu_password = [], xu_hostname = ''Example.com'', xu_port = []\<rparr>"

definition rebinding_lookup :: dns_lookup where
  "rebinding_lookup n host = Inr [if n = 0 then ''93.184.216.34'' else ''169.254.169.254'']"

theorem requests_reach_allowed_addresses_witness:
  "fetchExternal (\<lambda>_. Some sample_external_url) rebinding_lookup (\<lambda>a u. if isBlockedHost a then Inr (200, ''secret'') else Inr (204, a)) None
     \<lparr>xo_allowHttp = None, xo_allowNonDefaultPorts = None\<rparr> None ''https://Example.com/'' 0 = (Inr (204, ''93.184.216.34''), 1)"
proof -
  have b: "\<not> isBlockedHost ''93.184.216.34''" "\<not> isBlockedHost ''example.com''" by code_simp+
  have u: "url_host sample_external_url = ''example.com''" "effective_port sample_external_url = 443" by code_simp+
  have l: "\<not> isLiteralIpHost ''example.com''" by code_simp
  have a: "allowed_request rebinding_lookup 0 \<lparr>xo_allowHttp = None, xo_allowNonDefaultPorts = None\<rparr> ''93.184.216.34'' sample_external_url"
    using b l by (simp add: allowed_request_def u rebinding_lookup_def) (simp add: sample_external_url_def)
  have r: "resolveSafeExternalUrl (\<lambda>_. Some sample_external_url) (\<lambda>k. if k = 0 then rebinding_lookup 0 else (\<lambda>_. Inr [''10.0.0.1'']))
     \<lparr>xo_allowHttp = None, xo_allowNonDefaultPorts = None\<rparr> ''https://Example.com/'' 0 = (Inr (sample_external_url, [''93.184.216.34'']), 1)"
    using b l by (simp add: resolveSafeExternalUrl_def assertSafeExternalUrl_def assertHttpUrl_def u rebinding_lookup_def) (simp add: sample_external_url_def)
  note swap = conjunct1 [OF requests_reach_allowed_addresses [where parse = "\<lambda>_. Some sample_external_url" and lookup = rebinding_lookup
      and connect = "\<lambda>a u. if isBlockedHost a then Inr (200, ''secret'') else Inr (204, a)" and fetchImpl = None
      and options = "\<lparr>xo_allowHttp = None, xo_allowNonDefaultPorts = None\<rparr>" and redirect = None and url = "''https://Example.com/''" and n = 0
      and other = "\<lambda>a u. Inl (ExternalServiceError [])" and other_lookup = "\<lambda>_ _. Inr [''10.0.0.1'']"]]
  show ?thesis
    by (subst swap) (simp add: fetchExternal_def r pinnedNodeFetch_def createPinnedLookup_def a b)
qed

section \<open>The blocked IPv4 addresses are the reserved blocks\<close>

text \<open>An IPv4 address as a 32-bit word, and the blocks of private, loopback, link-local and shared addresses.\<close>

definition ip_word :: "nat \<Rightarrow> nat \<Rightarrow> nat \<Rightarrow> nat \<Rightarrow> 32 word" where
  "ip_word a b c d = word_of_nat (((a * 256 + b) * 256 + c) * 256 + d)"

definition RESERVED_BLOCKS :: "(32 word \<times> nat) list" where
  "RESERVED_BLOCKS = [(ip_word 0 0 0 0, 8), (ip_word 10 0 0 0, 8), (ip_word 100 64 0 0, 10), (ip_word 127 0 0 0, 8),
     (ip_word 169 254 0 0, 16), (ip_word 172 16 0 0, 12), (ip_word 192 168 0 0, 16)]"

definition in_block :: "32 word \<Rightarrow> 32 word \<times> nat \<Rightarrow> bool" where
  "in_block w b = (drop_bit (32 - snd b) w = drop_bit (32 - snd b) (fst b))"

lemma unat_ip_word:
  assumes "a < 256" "b < 256" "c < 256" "d < 256"
  shows "unat (ip_word a b c d) = ((a * 256 + b) * 256 + c) * 256 + d"
  unfolding ip_word_def unat_of_nat using assms by (intro mod_less) simp

lemma in_block_div:
  "in_block w (v, n) \<longleftrightarrow> unat w div 2 ^ (32 - n) = unat v div 2 ^ (32 - n)"
  unfolding in_block_def word_unat_eq_iff [of "drop_bit _ _"] unat_drop_bit_eq by (simp add: drop_bit_eq_div)

lemma in_blocks_div:
  "list_ex (in_block v) RESERVED_BLOCKS \<longleftrightarrow> unat v div 16777216 = 0 \<or> unat v div 16777216 = 10 \<or> unat v div 4194304 = 401
     \<or> unat v div 16777216 = 127 \<or> unat v div 65536 = 43518 \<or> unat v div 1048576 = 2753 \<or> unat v div 65536 = 49320"
  by (simp add: RESERVED_BLOCKS_def in_block_div unat_ip_word)

lemma two_digits: "(q::nat) < m \<Longrightarrow> x * m + q = k \<longleftrightarrow> x = k div m \<and> q = k mod m"
  by auto

lemma in_reserved_block:
  assumes "a < 256" "b < 256" "c < 256" "d < 256"
  shows "list_ex (in_block (ip_word a b c d)) RESERVED_BLOCKS \<longleftrightarrow>
    a = 0 \<or> a = 10 \<or> a = 127 \<or> a = 169 \<and> b = 254 \<or> a = 192 \<and> b = 168 \<or> a = 172 \<and> 16 \<le> b \<and> b \<le> 31 \<or> a = 100 \<and> 64 \<le> b \<and> b \<le> 127"
proof -
  define w where "w = ((a * 256 + b) * 256 + c) * 256 + d"
  have d24: "w div 16777216 = a" using assms unfolding w_def by auto
  have d16: "w div 65536 = a * 256 + b" using assms unfolding w_def by auto
  then have d22: "w div 4194304 = a * 4 + b div 64" using div_mult2_eq [of w 65536 64] by simp
  have d20: "w div 1048576 = a * 16 + b div 16" using d16 div_mult2_eq [of w 65536 16] by simp
  have b64: "b div 64 < 4" "b div 16 < 16" using assms by auto
  have e: "list_ex (in_block (ip_word a b c d)) RESERVED_BLOCKS \<longleftrightarrow> a = 0 \<or> a = 10 \<or> a * 4 + b div 64 = 401 \<or> a = 127
    \<or> a * 256 + b = 43518 \<or> a * 16 + b div 16 = 2753 \<or> a * 256 + b = 49320"
    unfolding in_blocks_div unat_ip_word [OF assms] w_def [symmetric] d24 d22 d20 d16 by blast
  have "a * 4 + b div 64 = 401 \<longleftrightarrow> a = 100 \<and> 64 \<le> b \<and> b \<le> 127"
    unfolding two_digits [OF b64(1)] by auto
  moreover have "a * 16 + b div 16 = 2753 \<longleftrightarrow> a = 172 \<and> 16 \<le> b \<and> b \<le> 31"
    unfolding two_digits [OF b64(2)] by auto
  moreover have "a * 256 + b = 43518 \<longleftrightarrow> a = 169 \<and> b = 254" by (simp add: two_digits [OF assms(2)])
  moreover have "a * 256 + b = 49320 \<longleftrightarrow> a = 192 \<and> b = 168" by (simp add: two_digits [OF assms(2)])
  ultimately show ?thesis unfolding e by blast
qed

lemma digit_char_is_digit: "(d::nat) < 10 \<Longrightarrow> is_digit (char_of (48 + d))"
  by (simp add: is_digit_def)

lemma digits_are_digits: "list_all is_digit (digits n) \<and> digits n \<noteq> []"
proof (induction n rule: digits.induct)
  case (1 n)
  show ?case
  proof (cases "n < 10")
    case True
    then show ?thesis by (subst (1 2) digits.simps) (simp add: digit_char_is_digit)
  next
    case False
    then show ?thesis using 1 by (subst (1 2) digits.simps) (simp add: digit_char_is_digit)
  qed
qed

lemma length_digits: "n < 10 ^ Suc k \<Longrightarrow> length (digits n) \<le> Suc k"
proof (induction k arbitrary: n)
  case 0
  then show ?case by (subst digits.simps) simp
next
  case (Suc k)
  then have "length (digits (n div 10)) \<le> Suc k" by simp
  then show ?case by (subst digits.simps) simp
qed

lemma ip_part_digits: "n < 256 \<Longrightarrow> ip_part (digits n)"
  unfolding ip_part_def using digits_are_digits [of n] length_digits [of n 2] by (cases "digits n") simp_all

lemma split_dots_no_dot: "CHR ''.'' \<notin> set s \<Longrightarrow> split_dots s = [s]"
  by (induction s) auto

lemma split_dots_append: "CHR ''.'' \<notin> set s \<Longrightarrow> split_dots (s @ CHR ''.'' # t) = s # split_dots t"
  by (induction s) auto

lemma no_dot_digits: "CHR ''.'' \<notin> set (digits n)"
  using digits_are_digits [of n] by (auto simp: list_all_iff is_digit_def)

lemma split_dots_dotted: "split_dots (dotted [a, b, c, d]) = [digits a, digits b, digits c, digits d]"
  by (simp add: dotted_def split_dots_append split_dots_no_dot no_dot_digits)

lemma isIpv4_dotted: "a < 256 \<Longrightarrow> b < 256 \<Longrightarrow> c < 256 \<Longrightarrow> d < 256 \<Longrightarrow> isIpv4 (dotted [a, b, c, d])"
  by (simp add: isIpv4_def split_dots_dotted ip_part_digits)

lemma private_dotted:
  assumes "a < 256" "b < 256" "c < 256" "d < 256"
  shows "isPrivateIpv4 (dotted [a, b, c, d]) \<longleftrightarrow> list_ex (in_block (ip_word a b c d)) RESERVED_BLOCKS"
  unfolding in_reserved_block [OF assms] using assms digits_are_digits
  by (simp add: isPrivateIpv4_def split_dots_dotted part_number_def value_of_digits del: value_of.simps)

text \<open>An address of digits, dots, colons and small letters is its own normal form.\<close>

definition plain :: "string \<Rightarrow> bool" where
  "plain s = list_all (\<lambda>c. is_digit c \<or> c = CHR ''.'' \<or> c = CHR '':'' \<or> is_lower c) s"

lemma lower_plain: "plain s \<Longrightarrow> toLowerCase s = s"
  unfolding plain_def toLowerCase_def
  by (induction s) (auto simp: lower_char_def is_digit_def is_lower_def)

lemma plain_char: "plain s \<Longrightarrow> c \<in> set s \<Longrightarrow> c \<noteq> CHR ''['' \<and> c \<noteq> CHR '']''"
  by (auto simp: plain_def list_all_iff is_digit_def is_lower_def)

lemma strip_plain: "plain s \<Longrightarrow> strip_brackets s = s"
  unfolding strip_brackets_def using plain_char [of s "hd s"] plain_char [of s "last s"] by (cases s) (auto simp: Let_def)

lemma plain_append [simp]: "plain (s @ t) \<longleftrightarrow> plain s \<and> plain t"
  by (simp add: plain_def)

lemma plain_take: "plain s \<Longrightarrow> plain (take n s)"
  unfolding plain_def list_all_iff by (meson in_set_takeD)

lemma plain_digits: "plain (digits n)"
  using digits_are_digits [of n] by (auto simp: plain_def list_all_iff)

lemma plain_dotted: "plain (dotted [a, b, c, d])"
  using plain_digits by (simp add: dotted_def) (simp add: plain_def)

lemma ends_with_set: "ends_with s t \<Longrightarrow> set t \<subseteq> set s"
  unfolding ends_with_def starts_with_iff by (metis set_append set_rev sup_ge1)

text \<open>A host of digits, dots and colons that is not a run of digits is blocked exactly by the tests of addresses.\<close>

definition numeric_host :: "string \<Rightarrow> bool" where
  "numeric_host s \<longleftrightarrow> (list_all (\<lambda>c. is_digit c \<or> c = CHR ''.'') s \<and> CHR ''.'' \<in> set s)"

lemma numeric_blocked:
  assumes n: "numeric_host s" and i: "isIpv4 s"
  shows "isBlockedHost s \<longleftrightarrow> s = ''0.0.0.0'' \<or> isPrivateIpv4 s"
proof -
  have c: "is_digit x \<or> x = CHR ''.''" if "x \<in> set s" for x using n that by (auto simp: numeric_host_def list_all_iff)
  have p: "plain s" using c by (auto simp: plain_def list_all_iff)
  have no: "CHR ''l'' \<notin> set s" "CHR ''o'' \<notin> set s" "CHR ''c'' \<notin> set s" "CHR ''k'' \<notin> set s" "CHR ''n'' \<notin> set s" "CHR '':'' \<notin> set s"
    "CHR ''f'' \<notin> set s" "CHR ''h'' \<notin> set s"
    using c [of "CHR ''l''"] c [of "CHR ''o''"] c [of "CHR ''c''"] c [of "CHR ''k''"] c [of "CHR ''n''"] c [of "CHR '':''"]
      c [of "CHR ''f''"] c [of "CHR ''h''"] by (auto simp: is_digit_def)
  have s: "\<not> list_ex (ends_with s) BLOCKED_HOST_SUFFIXES"
    using ends_with_set [of s] no by (fastforce simp: BLOCKED_HOST_SUFFIXES_def)
  have h: "s \<notin> set BLOCKED_HOSTNAMES" "s \<noteq> ''::''" "s \<noteq> ''::1''" using no by (auto simp: BLOCKED_HOSTNAMES_def)
  have "\<not> is_digit (CHR ''.'')" by (simp add: is_digit_def)
  then have d: "\<not> list_all is_digit s" using n unfolding numeric_host_def list_all_iff by blast
  have "CHR '':'' \<notin> set (toLowerCase (take 7 s))"
    using lower_plain [of "take 7 s"] plain_take [OF p] no(6) by (metis in_set_takeD)
  then have "ipv4MappedFromIpv6 s = None" by (auto simp: ipv4MappedFromIpv6_def)
  then show ?thesis using s h d i by (simp add: isBlockedHost_def lower_plain strip_plain p)
qed

lemma numeric_dotted: "numeric_host (dotted [a, b, c, d])"
  using digits_are_digits by (auto simp: numeric_host_def dotted_def list_all_iff)

lemma zero_private: "isPrivateIpv4 ''0.0.0.0''"
  by code_simp

lemma blocked_dotted:
  assumes "a < 256" "b < 256" "c < 256" "d < 256"
  shows "isBlockedHost (dotted [a, b, c, d]) \<longleftrightarrow> list_ex (in_block (ip_word a b c d)) RESERVED_BLOCKS"
  unfolding numeric_blocked [OF numeric_dotted isIpv4_dotted [OF assms]] private_dotted [OF assms, symmetric]
  using zero_private by auto

section \<open>Mapped IPv6 forms\<close>

lemma lower_char_hex: "is_hex c \<Longrightarrow> is_hex (lower_char c) \<and> hex_value (lower_char c) = hex_value c \<and> plain [lower_char c]"
  by (auto simp: is_hex_def is_digit_def hex_value_def lower_char_def plain_def is_lower_def)

lemma lower_hex_group:
  assumes "hex_group h"
  shows "hex_group (toLowerCase h)" "parse_hex (toLowerCase h) = parse_hex h" "plain (toLowerCase h)"
proof -
  have h: "is_hex c" if "c \<in> set h" for c using assms that by (auto simp: hex_group_def list_all_iff)
  show "hex_group (toLowerCase h)"
    using assms h lower_char_hex by (auto simp: hex_group_def toLowerCase_def list_all_iff)
  have "foldl (\<lambda>n c. n * 16 + hex_value c) k (map lower_char s) = foldl (\<lambda>n c. n * 16 + hex_value c) k s"
    if "\<forall>c \<in> set s. is_hex c" for k s
    using that lower_char_hex by (induction s arbitrary: k) auto
  then show "parse_hex (toLowerCase h) = parse_hex h" using h by (simp add: parse_hex_def toLowerCase_def)
  show "plain (toLowerCase h)" using h lower_char_hex by (auto simp: plain_def toLowerCase_def list_all_iff)
qed

lemma mask_255: "unat ((w::32 word) AND 255) = unat w mod 256"
proof -
  have "(255::32 word) = mask 8" by (simp add: mask_eq_exp_minus_1)
  then have "w AND 255 = take_bit 8 w" by (simp only: take_bit_eq_mask)
  moreover have "unat (take_bit 8 w) = unat w mod 256"
    unfolding unsigned_take_bit_eq by (simp add: take_bit_eq_mod)
  ultimately show ?thesis by (simp only:)
qed

lemma high_low_dotted:
  assumes "a < 256" "b < 256" "c < 256" "d < 256"
  shows "high_low (word_of_nat (a * 256 + b)) (word_of_nat (c * 256 + d)) = dotted [a, b, c, d]"
proof -
  have u: "unat (word_of_nat (x * 256 + y) :: 32 word) = x * 256 + y" if "x < 256" "y < 256" for x y :: nat
    unfolding unat_of_nat using that by (intro mod_less) simp
  have "unat (drop_bit 8 (word_of_nat (x * 256 + y) :: 32 word) AND 255) = x" if "x < 256" "y < 256" for x y :: nat
    unfolding mask_255 unat_drop_bit_eq u [OF that] using that by (simp add: drop_bit_eq_div)
  moreover have "unat ((word_of_nat (x * 256 + y) :: 32 word) AND 255) = y" if "x < 256" "y < 256" for x y :: nat
    unfolding mask_255 u [OF that] using that by simp
  ultimately show ?thesis using assms unfolding high_low_def by (simp only:)
qed

lemma no_colon_hex: "hex_group h \<Longrightarrow> CHR '':'' \<notin> set h \<and> CHR ''.'' \<notin> set h"
  by (auto simp: hex_group_def list_all_iff is_hex_def is_digit_def)

lemma takeWhile_colon: "CHR '':'' \<notin> set h \<Longrightarrow> takeWhile (\<lambda>c. c \<noteq> CHR '':'') (h @ CHR '':'' # l) = h"
  by (induction h) auto

lemma mapped_hex:
  assumes "hex_group h" "hex_group l"
  shows "ipv4MappedFromIpv6 (''::ffff:'' @ h @ CHR '':'' # l) =
    Some (high_low (word_of_nat (parse_hex h)) (word_of_nat (parse_hex l)))"
proof -
  have "CHR ''.'' \<notin> set (h @ CHR '':'' # l)" using no_colon_hex assms by auto
  then have "\<not> isIpv4 (h @ CHR '':'' # l)" by (simp add: isIpv4_def split_dots_no_dot)
  moreover have "toLowerCase ''::ffff:'' = ''::ffff:''" by code_simp
  ultimately show ?thesis
    using assms no_colon_hex [OF assms(1)]
    by (simp add: ipv4MappedFromIpv6_def Let_def takeWhile_colon)
qed

lemma mapped_dotted:
  assumes "a < 256" "b < 256" "c < 256" "d < 256"
  shows "ipv4MappedFromIpv6 (''::ffff:'' @ dotted [a, b, c, d]) = Some (dotted [a, b, c, d])"
proof -
  have "toLowerCase ''::ffff:'' = ''::ffff:''" by code_simp
  then show ?thesis using isIpv4_dotted [OF assms] by (simp add: ipv4MappedFromIpv6_def Let_def)
qed

text \<open>A mapped form of hexadecimal digits, colons and dots is blocked by the mapped address.\<close>

lemma mapped_blocked:
  assumes m: "ipv4MappedFromIpv6 s = Some ip" and p: "plain s" and s: "starts_with s ''::ffff:''" 
    and l: "\<forall>c \<in> set s. is_hex c \<or> c = CHR '':'' \<or> c = CHR ''.''"
  shows "isBlockedHost s \<longleftrightarrow> isPrivateIpv4 ip"
proof -
  obtain t where t: "s = ''::ffff:'' @ t" using s by (auto simp: starts_with_iff)
  have "s \<notin> set BLOCKED_HOSTNAMES" "s \<noteq> ''0.0.0.0''" "s \<noteq> ''::''" "s \<noteq> ''::1''" "\<not> list_all is_digit s"
    by (auto simp: t BLOCKED_HOSTNAMES_def is_digit_def)
  moreover have "\<not> ends_with s f" if "f \<in> set BLOCKED_HOST_SUFFIXES" for f
  proof
    assume "ends_with s f"
    then have "\<forall>c \<in> set f. is_hex c \<or> c = CHR '':'' \<or> c = CHR ''.''" using l ends_with_set by blast
    then show False using that by (auto simp: BLOCKED_HOST_SUFFIXES_def is_hex_def is_digit_def)
  qed
  ultimately show ?thesis using m by (auto simp: isBlockedHost_def lower_plain strip_plain p list_ex_iff)
qed

text \<open>Letter case does not matter.\<close>

lemma blocked_lower: "plain (toLowerCase s) \<Longrightarrow> isBlockedHost s = isBlockedHost (toLowerCase s)"
  by (simp add: isBlockedHost_def lower_plain)

lemma lower_append: "toLowerCase (s @ t) = toLowerCase s @ toLowerCase t"
  by (simp add: toLowerCase_def)

text \<open>C34: An IPv4 address a.b.c.d is blocked exactly when it lies in one of the reserved blocks: 0.0.0.0/8, 10.0.0.0/8,
  100.64.0.0/10, 127.0.0.0/8, 169.254.0.0/16, 172.16.0.0/12 or 192.168.0.0/16. The same holds of its two IPv4-mapped IPv6 forms,
  \<open>::ffff:a.b.c.d\<close> and \<open>::ffff:h:l\<close> with two hexadecimal groups, with the prefix and the groups in small or capital
  letters. It says nothing of other IPv6 forms that carry an IPv4 address: those of ::/96 and 64:ff9b::/96 are not tested
  (lemma \<open>names_taken_for_addresses\<close>).\<close>

theorem blocked_addresses_are_reserved:
  assumes "a < 256" "b < 256" "c < 256" "d < 256"
    and "hex_group h" "hex_group l" "parse_hex h = a * 256 + b" "parse_hex l = c * 256 + d"
    and "toLowerCase mapped = ''::ffff:''"
  shows "isBlockedHost (dotted [a, b, c, d]) = list_ex (in_block (ip_word a b c d)) RESERVED_BLOCKS
    \<and> isBlockedHost (mapped @ dotted [a, b, c, d]) = list_ex (in_block (ip_word a b c d)) RESERVED_BLOCKS
    \<and> isBlockedHost (mapped @ h @ CHR '':'' # l) = list_ex (in_block (ip_word a b c d)) RESERVED_BLOCKS"
proof (intro conjI)
  note abcd = assms(1-4)
  let ?d = "dotted [a, b, c, d]"
  show "isBlockedHost ?d = list_ex (in_block (ip_word a b c d)) RESERVED_BLOCKS"
    by (rule blocked_dotted [OF abcd])
  have p: "plain ''::ffff:''" "plain (CHR '':'' # s) \<longleftrightarrow> plain s" for s by (auto simp: plain_def is_digit_def is_lower_def)
  have w: "starts_with (''::ffff:'' @ s) ''::ffff:''" for s by (simp add: starts_with_iff)
  have x: "\<forall>c \<in> set ''::ffff:''. is_hex c \<or> c = CHR '':'' \<or> c = CHR ''.''" by code_simp
  have "\<forall>c \<in> set ?d. is_hex c \<or> c = CHR '':'' \<or> c = CHR ''.''"
    using numeric_dotted [of a b c d] by (auto simp: numeric_host_def list_all_iff is_hex_def)
  then have "\<forall>c \<in> set (''::ffff:'' @ ?d). is_hex c \<or> c = CHR '':'' \<or> c = CHR ''.''"
    unfolding set_append ball_Un by (rule conjI [OF x])
  moreover have pd: "plain (''::ffff:'' @ ?d)" unfolding plain_append by (rule conjI [OF p(1) plain_dotted])
  moreover have ld: "toLowerCase (mapped @ ?d) = ''::ffff:'' @ ?d" unfolding lower_append assms(9) lower_plain [OF plain_dotted] ..
  ultimately show "isBlockedHost (mapped @ ?d) = list_ex (in_block (ip_word a b c d)) RESERVED_BLOCKS"
    unfolding blocked_lower [OF pd [folded ld]] ld private_dotted [OF abcd, symmetric]
    by (intro mapped_blocked [OF mapped_dotted [OF abcd] _ w])
  let ?h = "toLowerCase h" and ?l = "toLowerCase l"
  note gh = lower_hex_group [OF assms(5)] and gl = lower_hex_group [OF assms(6)]
  have "toLowerCase (h @ CHR '':'' # l) = ?h @ CHR '':'' # ?l" by (simp add: toLowerCase_def lower_char_def)
  then have low: "toLowerCase (mapped @ h @ CHR '':'' # l) = ''::ffff:'' @ ?h @ CHR '':'' # ?l"
    unfolding lower_append assms(9) by (rule arg_cong)
  have pl: "plain (''::ffff:'' @ ?h @ CHR '':'' # ?l)" using p gh(3) gl(3) by (simp del: append.simps)
  have "\<forall>c \<in> set (?h @ CHR '':'' # ?l). is_hex c \<or> c = CHR '':'' \<or> c = CHR ''.''"
    using gh(1) gl(1) by (auto simp: hex_group_def list_all_iff)
  then have "\<forall>c \<in> set (''::ffff:'' @ ?h @ CHR '':'' # ?l). is_hex c \<or> c = CHR '':'' \<or> c = CHR ''.''"
    unfolding set_append [of "''::ffff:''"] ball_Un by (rule conjI [OF x])
  moreover have "ipv4MappedFromIpv6 (''::ffff:'' @ ?h @ CHR '':'' # ?l) = Some ?d"
    unfolding mapped_hex [OF gh(1) gl(1)] gh(2) gl(2) assms(7, 8) high_low_dotted [OF abcd] ..
  ultimately show "isBlockedHost (mapped @ h @ CHR '':'' # l) = list_ex (in_block (ip_word a b c d)) RESERVED_BLOCKS"
    unfolding blocked_lower [OF pl [folded low]] low private_dotted [OF abcd, symmetric]
    by (intro mapped_blocked [OF _ pl w])
qed

theorem blocked_addresses_are_reserved_witness:
  "isBlockedHost ''172.31.4.5'' \<and> isBlockedHost ''::FFff:172.31.4.5'' \<and> isBlockedHost ''::FFff:AC1f:405'' \<and> \<not> isBlockedHost ''172.32.4.5''"
proof -
  have d: "dotted [172, 31, 4, 5] = ''172.31.4.5''" "dotted [172, 32, 4, 5] = ''172.32.4.5''" "toLowerCase ''::FFff:'' = ''::ffff:''"
    by code_simp+
  have h: "hex_group ''AC1f''" "hex_group ''AC20''" "hex_group ''405''" "parse_hex ''AC1f'' = 172 * 256 + 31"
    "parse_hex ''AC20'' = 172 * 256 + 32" "parse_hex ''405'' = 4 * 256 + 5"
    by (simp_all add: hex_group_def parse_hex_def is_hex_def is_digit_def hex_value_def)
  note a = blocked_addresses_are_reserved [of 172 31 4 5, OF _ _ _ _ h(1, 3, 4, 6) d(3)]
    and b = blocked_addresses_are_reserved [of 172 32 4 5, OF _ _ _ _ h(2, 3, 5, 6) d(3)]
  show ?thesis using a b by (simp add: d in_reserved_block)
qed

text \<open>The test by prefixes takes names for addresses, and misses the rest of the link-local block and other forms.\<close>

lemma names_taken_for_addresses:
  "isBlockedHost ''fda.gov'' \<and> isBlockedHost ''fcbarcelona.com'' \<and> isBlockedHost ''ffmpeg.org''
   \<and> \<not> isBlockedHost ''fe90::1'' \<and> \<not> isBlockedHost ''64:ff9b::7f00:1'' \<and> \<not> isBlockedHost ''::7f00:1''"
  by code_simp

end
