(* ===== verification/Platform_Otp.thy ===== *)
theory Platform_Otp
  imports Platform_Kv
begin

text \<open>
  One-time codes (\<open>backend/src/otp\<close>): the repository of challenges over the key-value store, the evaluation of a code
  and the service. The store keeps records where the code keeps their JSON text. A handler is split at its \<open>await\<close>s into
  steps that other requests may come between: a task in \<open>os_pending\<close> is what a handler carries over an \<open>await\<close>. Hashing,
  identifiers, the generator and the check of an e-mail address are fields of the configuration; the provider's answer
  is an argument of the step that waits for it. Within a step the clock stands still.
\<close>

section \<open>Challenges\<close>

datatype otp_purpose = Otp_login | Otp_verification | Otp_password_reset | Otp_generic

primrec purpose_name :: "otp_purpose \<Rightarrow> string" where
  "purpose_name Otp_login = ''login''"
| "purpose_name Otp_verification = ''verification''"
| "purpose_name Otp_password_reset = ''password-reset''"
| "purpose_name Otp_generic = ''generic''"

datatype otp_channel = Ch_email | Ch_sms

datatype otp_provider = Pr_email | Pr_sms | Pr_mock

record otp_record =
  or_id :: string
  or_purpose :: otp_purpose
  or_destination :: string
  or_channel :: otp_channel
  or_codeHash :: string
  or_digits :: nat
  or_attempts :: int
  or_maxAttempts :: int
  or_expiresAt :: int
  or_consumedAt :: "int option"
  or_createdAt :: int
  or_lastSentAt :: int

record otp_config =
  oc_hmac :: "string \<Rightarrow> string \<Rightarrow> string"
  oc_hashSecret :: string
  oc_digits :: nat
  oc_ttlMs :: int
  oc_maxAttempts :: int
  oc_resendCooldownMs :: int
  oc_forceMock :: bool
  oc_generate :: "nat \<Rightarrow> nat \<Rightarrow> string"
  oc_uuid :: "nat \<Rightarrow> string"
  oc_emailOk :: "string \<Rightarrow> bool"

definition normalizeDestination :: "string \<Rightarrow> string" where
  "normalizeDestination d = toLowerCase (js_trim d)"

definition hashOtp :: "otp_config \<Rightarrow> otp_purpose \<Rightarrow> string \<Rightarrow> string \<Rightarrow> string" where
  "hashOtp c p d code = oc_hmac c (oc_hashSecret c) (purpose_name p @ CHR '':'' # normalizeDestination d @ CHR '':'' # code)"

definition otpHashesEqual :: "string \<Rightarrow> string \<Rightarrow> bool" where
  "otpHashesEqual l r \<longleftrightarrow> length l = length r \<and> l = r"

text \<open>\<open>CryptoOtpGenerator\<close>: \<open>random m k\<close> is the \<open>k\<close>-th draw below \<open>m\<close>.\<close>

definition crypto_generate :: "(nat \<Rightarrow> nat \<Rightarrow> nat) \<Rightarrow> nat \<Rightarrow> nat \<Rightarrow> string" where
  "crypto_generate random k n = (let s = digits (random (10 ^ n) k) in replicate (n - length s) (CHR ''0'') @ s)"

section \<open>Requests\<close>

record otp_request_input =
  qi_destination :: string
  qi_channel :: "otp_channel option"
  qi_purpose :: "otp_purpose option"

record otp_verify_input =
  vi_destination :: string
  vi_purpose :: "otp_purpose option"
  vi_code :: string

definition bounded_text :: "string \<Rightarrow> bool" where
  "bounded_text s \<longleftrightarrow> 1 \<le> length s \<and> length s \<le> 254"

text \<open>\<open>e164PhoneSchema\<close>\<close>

definition e164_phone :: "string \<Rightarrow> bool" where
  "e164_phone s = (case js_trim s of c # d # r \<Rightarrow> c = CHR ''+'' \<and> is_digit d \<and> d \<noteq> CHR ''0'' \<and> 7 \<le> length r \<and> length r \<le> 14 \<and> list_all is_digit r
     | _ \<Rightarrow> False)"

definition parse_otp_request :: "otp_config \<Rightarrow> otp_request_input \<Rightarrow> app_error + string \<times> otp_channel \<times> otp_purpose" where
  "parse_otp_request c i =
     (let d = js_trim (qi_destination i); ch = (case qi_channel i of None \<Rightarrow> Ch_email | Some x \<Rightarrow> x);
          p = (case qi_purpose i of None \<Rightarrow> Otp_login | Some x \<Rightarrow> x) in
      if bounded_text d \<and> (if ch = Ch_email then oc_emailOk c d else e164_phone d) then Inr (d, ch, p)
      else Inl (ValidationError ''Invalid OTP request''))"

definition otp_code :: "string \<Rightarrow> bool" where
  "otp_code s \<longleftrightarrow> 4 \<le> length s \<and> length s \<le> 8 \<and> list_all is_digit s"

definition parse_otp_verify :: "otp_verify_input \<Rightarrow> app_error + string \<times> otp_purpose \<times> string" where
  "parse_otp_verify i =
     (let d = js_trim (vi_destination i); code = js_trim (vi_code i); p = (case vi_purpose i of None \<Rightarrow> Otp_login | Some x \<Rightarrow> x) in
      if bounded_text d \<and> otp_code code then Inr (d, p, code) else Inl (ValidationError ''Invalid OTP verification''))"

section \<open>The repository\<close>

datatype otp_value = Ov_record otp_record | Ov_used

definition otp_key :: "otp_purpose \<Rightarrow> string \<Rightarrow> string" where
  "otp_key p d = ''otp:challenge:'' @ purpose_name p @ CHR '':'' # normalizeDestination d"

definition otp_consumeKey :: "string \<Rightarrow> string" where
  "otp_consumeKey i = ''otp:challenge:used:'' @ i"

definition otp_get :: "int \<Rightarrow> otp_purpose \<Rightarrow> string \<Rightarrow> otp_value kv \<Rightarrow> otp_record option \<times> otp_value kv" where
  "otp_get now p d m = (case kv_get now (otp_key p d) m of (v, m') \<Rightarrow>
     (case v of Some (Ov_record r) \<Rightarrow> Some r | _ \<Rightarrow> None, m'))"

definition otp_save :: "int \<Rightarrow> otp_record \<Rightarrow> otp_value kv \<Rightarrow> otp_value kv" where
  "otp_save now r m = kv_set now (otp_key (or_purpose r) (or_destination r)) (Ov_record r) (Some (max 1 (or_expiresAt r - now))) m"

definition otp_create ::
  "int \<Rightarrow> string \<Rightarrow> otp_purpose \<Rightarrow> string \<Rightarrow> otp_channel \<Rightarrow> string \<Rightarrow> nat \<Rightarrow> int \<Rightarrow> int \<Rightarrow> int \<Rightarrow> otp_value kv \<Rightarrow> otp_record \<times> otp_value kv" where
  "otp_create now i p d ch h n maxAttempts expiresAt lastSentAt m =
     (let r = \<lparr>or_id = i, or_purpose = p, or_destination = normalizeDestination d, or_channel = ch, or_codeHash = h, or_digits = n,
        or_attempts = 0, or_maxAttempts = maxAttempts, or_expiresAt = expiresAt, or_consumedAt = None, or_createdAt = now,
        or_lastSentAt = lastSentAt\<rparr> in (r, otp_save now r m))"

text \<open>\<open>consume\<close> in two parts: the claim, and the record saved after it.\<close>

definition otp_claim :: "int \<Rightarrow> otp_record \<Rightarrow> otp_value kv \<Rightarrow> bool \<times> otp_value kv" where
  "otp_claim now r m = kv_setNx now (otp_consumeKey (or_id r)) Ov_used (Some (max 1 (or_expiresAt r - now))) m"

definition otp_save_consumed :: "int \<Rightarrow> otp_record \<Rightarrow> otp_value kv \<Rightarrow> otp_value kv" where
  "otp_save_consumed now r m = otp_save now (r\<lparr>or_consumedAt := Some now\<rparr>) m"

definition otp_incrementAttempts :: "int \<Rightarrow> otp_record \<Rightarrow> otp_value kv \<Rightarrow> otp_value kv" where
  "otp_incrementAttempts now r m = otp_save now (r\<lparr>or_attempts := or_attempts r + 1\<rparr>) m"

definition otp_delete :: "otp_purpose \<Rightarrow> string \<Rightarrow> otp_value kv \<Rightarrow> otp_value kv" where
  "otp_delete p d m = kv_del (otp_key p d) m"

section \<open>Evaluation\<close>

datatype otp_reason = Or_not_found | Or_expired | Or_consumed | Or_max_attempts | Or_mismatch

text \<open>A time of consumption is read as a truth value: at time 0 it counts as none.\<close>

definition consumed :: "otp_record \<Rightarrow> bool" where
  "consumed r = (case or_consumedAt r of None \<Rightarrow> False | Some t \<Rightarrow> t \<noteq> 0)"

definition evaluateOtpRecord :: "otp_record option \<Rightarrow> string \<Rightarrow> int \<Rightarrow> (otp_reason \<times> otp_record option) + otp_record" where
  "evaluateOtpRecord record candidateHash now = (case record of
     None \<Rightarrow> Inl (Or_not_found, None)
   | Some r \<Rightarrow>
       if consumed r then Inl (Or_consumed, Some r)
       else if or_expiresAt r \<le> now then Inl (Or_expired, Some r)
       else if or_maxAttempts r \<le> or_attempts r then Inl (Or_max_attempts, Some r)
       else if \<not> otpHashesEqual (or_codeHash r) candidateHash then Inl (Or_mismatch, Some r)
       else Inr r)"

primrec verifyError :: "otp_reason \<Rightarrow> app_error" where
  "verifyError Or_expired = AuthenticationError ''OTP has expired''"
| "verifyError Or_consumed = AuthenticationError ''OTP has already been used''"
| "verifyError Or_max_attempts = AuthenticationError ''Too many incorrect OTP attempts''"
| "verifyError Or_not_found = AuthenticationError ''Invalid or expired OTP''"
| "verifyError Or_mismatch = AuthenticationError ''Invalid or expired OTP''"

section \<open>The service\<close>

record otp_result =
  ot_destination :: string
  ot_channel :: otp_channel
  ot_purpose :: otp_purpose
  ot_expiresInSeconds :: int
  ot_resendAvailableInSeconds :: int
  ot_digits :: nat

definition ceil_seconds :: "int \<Rightarrow> int" where
  "ceil_seconds ms = - ((- ms) div 1000)"

definition toRequestResult :: "otp_config \<Rightarrow> otp_purpose \<Rightarrow> otp_channel \<Rightarrow> string \<Rightarrow> otp_result" where
  "toRequestResult c p ch d = \<lparr>ot_destination = d, ot_channel = ch, ot_purpose = p, ot_expiresInSeconds = ceil_seconds (oc_ttlMs c),
     ot_resendAvailableInSeconds = ceil_seconds (oc_resendCooldownMs c), ot_digits = oc_digits c\<rparr>"

definition describeRequest :: "otp_config \<Rightarrow> otp_request_input \<Rightarrow> app_error + otp_result" where
  "describeRequest c i = (case parse_otp_request c i of Inl e \<Rightarrow> Inl e
     | Inr (d, ch, p) \<Rightarrow> Inr (toRequestResult c p ch (normalizeDestination d)))"

definition providerFor :: "otp_config \<Rightarrow> otp_channel \<Rightarrow> otp_provider" where
  "providerFor c ch = (if oc_forceMock c then Pr_mock else if ch = Ch_sms then Pr_sms else Pr_email)"

datatype otp_answer = Oa_requested otp_result | Oa_verified otp_purpose string | Oa_error app_error

text \<open>What a handler carries over an \<open>await\<close>: a challenge that was read, a delivery under way, a claimed challenge.\<close>

datatype otp_task =
    Ta_request otp_purpose otp_channel string "otp_record option"
  | Ta_deliver otp_purpose otp_channel string string otp_record otp_provider
  | Ta_verify otp_purpose string string "otp_record option"
  | Ta_claimed otp_purpose string string otp_record

record otp_system =
  os_kv :: "otp_value kv"
  os_now :: int
  os_drawn :: nat
  os_pending :: "otp_task list"
  os_issued :: "(otp_record \<times> string) list"
  os_verified :: "(string \<times> otp_purpose \<times> string \<times> string) list"

text \<open>\<open>os_issued\<close> and \<open>os_verified\<close> record, for the statements, the challenges created, with their codes, and the codes
  accepted, with the identifier of the challenge, purpose and destination.\<close>

type_synonym otp_outcome = "(otp_answer + otp_task) \<times> otp_system"

definition request_read :: "otp_config \<Rightarrow> otp_request_input \<Rightarrow> otp_system \<Rightarrow> otp_outcome" where
  "request_read c i s = (case parse_otp_request c i of
     Inl e \<Rightarrow> (Inl (Oa_error e), s)
   | Inr (d, ch, p) \<Rightarrow> (case otp_get (os_now s) p (normalizeDestination d) (os_kv s) of (existing, m) \<Rightarrow>
       (Inr (Ta_request p ch (normalizeDestination d) existing), s\<lparr>os_kv := m\<rparr>)))"

definition cooling :: "otp_config \<Rightarrow> int \<Rightarrow> otp_record option \<Rightarrow> bool" where
  "cooling c now existing = (case existing of None \<Rightarrow> False
     | Some r \<Rightarrow> \<not> consumed r \<and> 0 < or_lastSentAt r + oc_resendCooldownMs c - now)"

definition request_create :: "otp_config \<Rightarrow> otp_purpose \<Rightarrow> otp_channel \<Rightarrow> string \<Rightarrow> otp_record option \<Rightarrow> otp_system \<Rightarrow> otp_outcome" where
  "request_create c p ch d existing s =
     (let code = oc_generate c (os_drawn s) (oc_digits c) in
      if cooling c (os_now s) existing then (Inl (Oa_error (RateLimitError ''Wait before requesting another code'')), s)
      else if \<not> (length code = oc_digits c \<and> list_all is_digit code)
      then (Inl (Oa_error (ValidationError ''OTP generator produced an invalid code'')), s)
      else case otp_create (os_now s) (oc_uuid c (os_drawn s)) p d ch (hashOtp c p d code) (oc_digits c) (oc_maxAttempts c)
          (os_now s + oc_ttlMs c) (os_now s) (os_kv s) of
        (r, m) \<Rightarrow> (Inr (Ta_deliver p ch d code r (providerFor c ch)),
          s\<lparr>os_kv := m, os_drawn := Suc (os_drawn s), os_issued := (r, code) # os_issued s\<rparr>))"

definition request_delivered :: "otp_config \<Rightarrow> otp_purpose \<Rightarrow> otp_channel \<Rightarrow> string \<Rightarrow> app_error option \<Rightarrow> otp_system \<Rightarrow> otp_outcome" where
  "request_delivered c p ch d failure s = (case failure of
     None \<Rightarrow> (Inl (Oa_requested (toRequestResult c p ch d)), s)
   | Some e \<Rightarrow> (Inl (Oa_error (case e of ExternalServiceError m \<Rightarrow> e | _ \<Rightarrow> ExternalServiceError ''Failed to deliver OTP'')),
       s\<lparr>os_kv := otp_delete p d (os_kv s)\<rparr>))"

definition verify_read :: "otp_verify_input \<Rightarrow> otp_system \<Rightarrow> otp_outcome" where
  "verify_read i s = (case parse_otp_verify i of
     Inl e \<Rightarrow> (Inl (Oa_error e), s)
   | Inr (d, p, code) \<Rightarrow> (case otp_get (os_now s) p (normalizeDestination d) (os_kv s) of (record, m) \<Rightarrow>
       (Inr (Ta_verify p (normalizeDestination d) code record), s\<lparr>os_kv := m\<rparr>)))"

definition verify_decide :: "otp_config \<Rightarrow> otp_purpose \<Rightarrow> string \<Rightarrow> string \<Rightarrow> otp_record option \<Rightarrow> otp_system \<Rightarrow> otp_outcome" where
  "verify_decide c p d code record s = (case evaluateOtpRecord record (hashOtp c p d code) (os_now s) of
     Inl (Or_mismatch, Some r) \<Rightarrow> (Inl (Oa_error (verifyError Or_mismatch)), s\<lparr>os_kv := otp_incrementAttempts (os_now s) r (os_kv s)\<rparr>)
   | Inl (reason, _) \<Rightarrow> (Inl (Oa_error (verifyError reason)), s)
   | Inr r \<Rightarrow> (case otp_claim (os_now s) r (os_kv s) of (claimed, m) \<Rightarrow>
       if claimed then (Inr (Ta_claimed p d code r), s\<lparr>os_kv := m\<rparr>)
       else (Inl (Oa_error (verifyError Or_consumed)), s\<lparr>os_kv := m\<rparr>)))"

definition verify_finish :: "otp_purpose \<Rightarrow> string \<Rightarrow> string \<Rightarrow> otp_record \<Rightarrow> otp_system \<Rightarrow> otp_outcome" where
  "verify_finish p d code r s = (Inl (Oa_verified p d),
     s\<lparr>os_kv := otp_save_consumed (os_now s) r (os_kv s), os_verified := (or_id r, p, d, code) # os_verified s\<rparr>)"

text \<open>The next step of a task; the failure is the answer of the delivery provider, if the task waits for one.\<close>

fun otp_continue :: "otp_config \<Rightarrow> app_error option \<Rightarrow> otp_task \<Rightarrow> otp_system \<Rightarrow> otp_outcome" where
  "otp_continue c failure (Ta_request p ch d existing) s = request_create c p ch d existing s"
| "otp_continue c failure (Ta_deliver p ch d code r provider) s = request_delivered c p ch d failure s"
| "otp_continue c failure (Ta_verify p d code record) s = verify_decide c p d code record s"
| "otp_continue c failure (Ta_claimed p d code r) s = verify_finish p d code r s"

primrec task_stage :: "otp_task \<Rightarrow> nat" where
  "task_stage (Ta_request p ch d existing) = 2"
| "task_stage (Ta_deliver p ch d code r provider) = 1"
| "task_stage (Ta_verify p d code record) = 2"
| "task_stage (Ta_claimed p d code r) = 1"

definition outcome_stage :: "otp_answer + otp_task \<Rightarrow> nat" where
  "outcome_stage x = (case x of Inl _ \<Rightarrow> 0 | Inr t \<Rightarrow> task_stage t)"

lemma continue_stage: "outcome_stage (fst (otp_continue c failure t s)) < task_stage t"
  by (cases t) (auto simp: outcome_stage_def request_create_def request_delivered_def verify_decide_def verify_finish_def Let_def
    split: option.split sum.split prod.split otp_reason.split)

text \<open>A handler run to its answer without a break.\<close>

function otp_complete :: "otp_config \<Rightarrow> app_error option \<Rightarrow> otp_outcome \<Rightarrow> otp_answer \<times> otp_system" where
  "otp_complete c failure (Inl a, s) = (a, s)"
| "otp_complete c failure (Inr t, s) = otp_complete c failure (otp_continue c failure t s)"
  by pat_completeness auto
termination
  by (relation "measure (\<lambda>(c, failure, x). outcome_stage (fst x))") (use continue_stage in \<open>auto simp: outcome_stage_def\<close>)

definition otp_request :: "otp_config \<Rightarrow> app_error option \<Rightarrow> otp_request_input \<Rightarrow> otp_system \<Rightarrow> otp_answer \<times> otp_system" where
  "otp_request c failure i s = otp_complete c failure (request_read c i s)"

definition otp_verify :: "otp_config \<Rightarrow> otp_verify_input \<Rightarrow> otp_system \<Rightarrow> otp_answer \<times> otp_system" where
  "otp_verify c i s = otp_complete c None (verify_read i s)"

section \<open>The controller\<close>

text \<open>\<open>requestOtp\<close>: for an address without an account the answer describes a request that is not made.\<close>

definition controller_requestOtp ::
  "otp_config \<Rightarrow> (string \<Rightarrow> bool) option \<Rightarrow> app_error option \<Rightarrow> otp_request_input \<Rightarrow> otp_system \<Rightarrow> otp_answer \<times> otp_system" where
  "controller_requestOtp c hasAccount failure i s = (case parse_otp_request c i of
     Inl _ \<Rightarrow> (Oa_error (ValidationError ''Invalid request''), s)
   | Inr (d, ch, p) \<Rightarrow>
       if (case hasAccount of None \<Rightarrow> False | Some has \<Rightarrow> ch = Ch_email \<and> (p = Otp_login \<or> p = Otp_password_reset) \<and> \<not> has d)
       then (case describeRequest c i of Inl e \<Rightarrow> (Oa_error e, s) | Inr r \<Rightarrow> (Oa_requested r, s))
       else otp_request c failure i s)"

section \<open>Requests that overlap\<close>

datatype otp_op = Op_request otp_request_input | Op_verify otp_verify_input | Op_continue nat "app_error option" | Op_prune

definition settle :: "otp_outcome \<Rightarrow> otp_answer option \<times> otp_system" where
  "settle x = (case x of (Inl a, s) \<Rightarrow> (Some a, s) | (Inr t, s) \<Rightarrow> (None, s\<lparr>os_pending := os_pending s @ [t]\<rparr>))"

primrec otp_do :: "otp_config \<Rightarrow> otp_op \<Rightarrow> otp_system \<Rightarrow> otp_answer option \<times> otp_system" where
  "otp_do c (Op_request i) s = settle (request_read c i s)"
| "otp_do c (Op_verify i) s = settle (verify_read i s)"
| "otp_do c (Op_continue k failure) s =
     (if k < length (os_pending s)
      then settle (otp_continue c failure (os_pending s ! k) (s\<lparr>os_pending := take k (os_pending s) @ drop (Suc k) (os_pending s)\<rparr>))
      else (None, s))"
| "otp_do c Op_prune s = (None, s\<lparr>os_kv := snd (kv_pruneExpired (os_now s) (os_kv s))\<rparr>)"

inductive otp_step :: "otp_config \<Rightarrow> otp_system \<Rightarrow> otp_system \<Rightarrow> bool" for c where
  otp_at: "os_now s \<le> t \<Longrightarrow> otp_step c s (snd (otp_do c op (s\<lparr>os_now := t\<rparr>)))"

definition otp_start :: "otp_system \<Rightarrow> bool" where
  "otp_start s \<longleftrightarrow> os_kv s = [] \<and> os_pending s = [] \<and> os_issued s = [] \<and> os_verified s = []"

definition otp_reachable :: "otp_config \<Rightarrow> otp_system \<Rightarrow> bool" where
  "otp_reachable c s \<longleftrightarrow> inj (oc_uuid c) \<and> (\<exists>x. otp_start x \<and> (otp_step c)\<^sup>*\<^sup>* x s)"

section \<open>Keys\<close>

lemma js_space_lower [simp]: "js_space (lower_char ch) = js_space ch"
  by (auto simp: js_space_def lower_char_def)

lemma js_trim_lower: "js_trim (toLowerCase s) = toLowerCase (js_trim s)"
  by (simp add: js_trim_def toLowerCase_def dropWhile_map rev_map comp_def)

lemma lower_idem [simp]: "toLowerCase (toLowerCase s) = toLowerCase s"
proof -
  have "lower_char (lower_char ch) = lower_char ch" for ch by (auto simp: lower_char_def)
  then show ?thesis by (simp add: toLowerCase_def)
qed

lemma normalize_idem [simp]: "normalizeDestination (normalizeDestination d) = normalizeDestination d"
  by (simp add: normalizeDestination_def js_trim_lower)

lemma purpose_names: "purpose_name p @ CHR '':'' # s = purpose_name q @ CHR '':'' # t \<longleftrightarrow> p = q \<and> s = t"
  by (cases p; cases q) auto

lemma otp_key_inj: "otp_key p d = otp_key q e \<longleftrightarrow> p = q \<and> normalizeDestination d = normalizeDestination e"
  using purpose_names by (simp add: otp_key_def)

lemma keys_apart [simp]: "otp_key p d \<noteq> otp_consumeKey i" "otp_consumeKey i \<noteq> otp_key p d"
  by (cases p; simp add: otp_key_def otp_consumeKey_def)+

lemma consumeKey_inj [simp]: "otp_consumeKey i = otp_consumeKey j \<longleftrightarrow> i = j"
  by (simp add: otp_consumeKey_def)

section \<open>The invariant\<close>

text \<open>A stored or carried record is one of the issued challenges with other attempts or another time of consumption.\<close>

definition same_challenge :: "otp_record \<Rightarrow> otp_record \<Rightarrow> bool" where
  "same_challenge r q \<longleftrightarrow> or_id r = or_id q \<and> or_purpose r = or_purpose q \<and> or_destination r = or_destination q \<and>
     or_codeHash r = or_codeHash q \<and> or_expiresAt r = or_expiresAt q \<and> or_maxAttempts r = or_maxAttempts q"

definition from_issue :: "(otp_record \<times> string) list \<Rightarrow> otp_record \<Rightarrow> bool" where
  "from_issue xs r \<longleftrightarrow> (\<exists>x\<in>set xs. same_challenge r (fst x))"

definition issue_ok :: "otp_config \<Rightarrow> nat \<Rightarrow> otp_record \<times> string \<Rightarrow> bool" where
  "issue_ok c n x \<longleftrightarrow> or_codeHash (fst x) = hashOtp c (or_purpose (fst x)) (or_destination (fst x)) (snd x) \<and>
     normalizeDestination (or_destination (fst x)) = or_destination (fst x) \<and> (\<exists>k<n. or_id (fst x) = oc_uuid c k)"

primrec task_ok :: "otp_config \<Rightarrow> (otp_record \<times> string) list \<Rightarrow> otp_task \<Rightarrow> bool" where
  "task_ok c xs (Ta_request p ch d existing) = (normalizeDestination d = d)"
| "task_ok c xs (Ta_deliver p ch d code r provider) = True"
| "task_ok c xs (Ta_verify p d code record) = (\<forall>r. record = Some r \<longrightarrow> from_issue xs r \<and> or_purpose r = p \<and> or_destination r = d)"
| "task_ok c xs (Ta_claimed p d code r) =
     (from_issue xs r \<and> or_purpose r = p \<and> or_destination r = d \<and> or_codeHash r = hashOtp c p d code)"

definition claims_of :: "otp_task \<Rightarrow> string list" where
  "claims_of t = (case t of Ta_claimed p d code r \<Rightarrow> [or_id r] | _ \<Rightarrow> [])"

definition claimed_ids :: "otp_system \<Rightarrow> string list" where
  "claimed_ids s = map fst (os_verified s) @ concat (map claims_of (os_pending s))"

definition claim_held :: "otp_value kv \<Rightarrow> int \<Rightarrow> (otp_record \<times> string) list \<Rightarrow> string \<Rightarrow> bool" where
  "claim_held m now xs i \<longleftrightarrow> (\<exists>x\<in>set xs. or_id (fst x) = i) \<and>
     (\<forall>x\<in>set xs. or_id (fst x) = i \<longrightarrow> (\<forall>t. now \<le> t \<longrightarrow> t < or_expiresAt (fst x) \<longrightarrow> kv_read m t (otp_consumeKey i) = Some Ov_used))"

definition kv_sound :: "otp_value kv \<Rightarrow> (otp_record \<times> string) list \<Rightarrow> bool" where
  "kv_sound m xs \<longleftrightarrow> kv_ok m \<and> (\<forall>k e r. (k, e) \<in> set m \<longrightarrow> kv_value e = Ov_record r \<longrightarrow>
     from_issue xs r \<and> k = otp_key (or_purpose r) (or_destination r))"

definition accepted_ok :: "otp_config \<Rightarrow> (otp_record \<times> string) list \<Rightarrow> string \<times> otp_purpose \<times> string \<times> string \<Rightarrow> bool" where
  "accepted_ok c xs v = (case v of (i, p, d, code) \<Rightarrow>
     \<exists>x\<in>set xs. or_id (fst x) = i \<and> or_purpose (fst x) = p \<and> or_destination (fst x) = d \<and> hashOtp c p d code = hashOtp c p d (snd x))"

definition otp_inv :: "otp_config \<Rightarrow> otp_system \<Rightarrow> bool" where
  "otp_inv c s \<longleftrightarrow> distinct (map (or_id \<circ> fst) (os_issued s)) \<and> (\<forall>x\<in>set (os_issued s). issue_ok c (os_drawn s) x) \<and>
     kv_sound (os_kv s) (os_issued s) \<and> (\<forall>t\<in>set (os_pending s). task_ok c (os_issued s) t) \<and> distinct (claimed_ids s) \<and>
     (\<forall>i\<in>set (claimed_ids s). claim_held (os_kv s) (os_now s) (os_issued s) i) \<and> (\<forall>v\<in>set (os_verified s). accepted_ok c (os_issued s) v)"

lemma from_issue_mono: "from_issue xs r \<Longrightarrow> set xs \<subseteq> set ys \<Longrightarrow> from_issue ys r"
  by (auto simp: from_issue_def)

lemma task_ok_mono: "task_ok c xs t \<Longrightarrow> set xs \<subseteq> set ys \<Longrightarrow> task_ok c ys t"
  by (cases t) (auto intro: from_issue_mono)

lemma accepted_ok_mono: "accepted_ok c xs v \<Longrightarrow> set xs \<subseteq> set ys \<Longrightarrow> accepted_ok c ys v"
  by (fastforce simp: accepted_ok_def split: prod.splits)

lemma same_challenge_update [simp]:
  "same_challenge (r\<lparr>or_attempts := a\<rparr>) q = same_challenge r q" "same_challenge (r\<lparr>or_consumedAt := t\<rparr>) q = same_challenge r q"
  by (simp_all add: same_challenge_def)

lemma from_issue_update [simp]:
  "from_issue xs (r\<lparr>or_attempts := a\<rparr>) = from_issue xs r" "from_issue xs (r\<lparr>or_consumedAt := t\<rparr>) = from_issue xs r"
  by (simp_all add: from_issue_def)

text \<open>What each operation of the repository does to a sound store and to the claims held in it.\<close>

lemma sound_set:
  assumes "kv_sound m xs" and "\<And>r. v = Ov_record r \<Longrightarrow> from_issue xs r \<and> k = otp_key (or_purpose r) (or_destination r)"
  shows "kv_sound (kv_set now k v ttl m) xs"
proof -
  have "(k', e) = (k, kv_entry_for now v ttl) \<or> (k', e) \<in> set m" if "(k', e) \<in> set (kv_set now k v ttl m)" for k' e
    using that set_upsert_by [of "\<lambda>p. fst p = k" "(k, kv_entry_for now v ttl)" m] by (auto simp: kv_set_def)
  then show ?thesis using assms unfolding kv_sound_def by (fastforce simp: kv_entry_for_def)
qed

lemma sound_filter: "kv_sound m xs \<Longrightarrow> kv_sound (filter P m) xs"
  by (auto simp: kv_sound_def kv_ok_def distinct_map_filter)

lemma sound_get: "kv_sound m xs \<Longrightarrow> kv_sound (snd (kv_get now k m)) xs"
  by (auto simp: kv_get_def kv_del_def sound_filter split: option.split)

lemma sound_mono: "kv_sound m xs \<Longrightarrow> set xs \<subseteq> set ys \<Longrightarrow> kv_sound m ys"
  unfolding kv_sound_def using from_issue_mono by blast

lemma sound_save: "kv_sound m xs \<Longrightarrow> from_issue xs r \<Longrightarrow> kv_sound (otp_save now r m) xs"
  unfolding otp_save_def by (rule sound_set) auto

lemma sound_read:
  assumes "kv_sound m xs" and "otp_get now p d m = (Some r, m')"
  shows "from_issue xs r \<and> otp_key p d = otp_key (or_purpose r) (or_destination r)"
proof -
  have "kv_read m now (otp_key p d) = Some (Ov_record r)"
    using assms(2) by (auto simp: otp_get_def kv_read_def split: prod.splits option.splits otp_value.splits)
  then obtain e where "map_of m (otp_key p d) = Some e" "kv_value e = Ov_record r"
    by (auto simp: kv_read_map split: option.splits if_splits)
  then show ?thesis using assms(1) map_of_SomeD unfolding kv_sound_def by metis
qed

lemma held_later: "claim_held m now xs i \<Longrightarrow> now \<le> t \<Longrightarrow> claim_held m t xs i"
  unfolding claim_held_def by fastforce

lemma held_reads:
  assumes "claim_held m now xs i" and "\<And>t. now \<le> t \<Longrightarrow> kv_read m' t (otp_consumeKey i) = kv_read m t (otp_consumeKey i)"
  shows "claim_held m' now xs i"
  using assms unfolding claim_held_def by metis

lemma held_save: "claim_held m now xs i \<Longrightarrow> claim_held (otp_save now r m) now xs i"
  by (erule held_reads) (simp add: otp_save_def kv_read_set)

lemma held_get: "claim_held m now xs i \<Longrightarrow> claim_held (snd (kv_get now k m)) now xs i"
  by (erule held_reads) (rule kv_get_frame)

lemma held_delete: "claim_held m now xs i \<Longrightarrow> claim_held (otp_delete p d m) now xs i"
  by (erule held_reads) (simp add: otp_delete_def kv_read_del)

lemma held_claim:
  assumes "claim_held m now xs i"
  shows "claim_held (snd (otp_claim now r m)) now xs i"
proof (cases "or_id r = i \<and> kv_read m now (otp_consumeKey i) = None")
  case True
  have "\<not> now < or_expiresAt (fst x)" if "x \<in> set xs" "or_id (fst x) = i" for x
    using assms True that unfolding claim_held_def by fastforce
  then show ?thesis using assms unfolding claim_held_def by fastforce
next
  case False
  have "kv_read (snd (otp_claim now r m)) t (otp_consumeKey i) = kv_read m t (otp_consumeKey i)" for t
    using False by (auto simp: otp_claim_def kv_setNx_exact kv_read_set)
  then show ?thesis using held_reads [OF assms] by blast
qed

lemma held_prune:
  assumes "claim_held m now xs i" and "kv_ok m"
  shows "claim_held (snd (kv_pruneExpired now m)) now xs i"
  by (rule held_reads [OF assms(1)]) (rule kv_prune_frame [OF assms(2)])

lemma sound_claim: "kv_sound m xs \<Longrightarrow> kv_sound (snd (otp_claim now r m)) xs"
  by (auto simp: otp_claim_def kv_setNx_exact intro: sound_set)

section \<open>Every step keeps the invariant\<close>

lemma claimed_ids_fields [simp]:
  "claimed_ids (s\<lparr>os_kv := m\<rparr>) = claimed_ids s" "claimed_ids (s\<lparr>os_now := t\<rparr>) = claimed_ids s"
  "claimed_ids (s\<lparr>os_drawn := n\<rparr>) = claimed_ids s" "claimed_ids (s\<lparr>os_issued := xs\<rparr>) = claimed_ids s"
  by (simp_all add: claimed_ids_def)

lemma inv_kv:
  assumes "otp_inv c s" and "kv_sound m (os_issued s)" and "\<And>i. claim_held (os_kv s) (os_now s) (os_issued s) i \<Longrightarrow> claim_held m (os_now s) (os_issued s) i"
  shows "otp_inv c (s\<lparr>os_kv := m\<rparr>)"
  using assms by (simp add: otp_inv_def claimed_ids_def)

lemma inv_pending:
  assumes "otp_inv c s" and "task_ok c (os_issued s) t" and "claims_of t = []"
  shows "otp_inv c (s\<lparr>os_pending := os_pending s @ [t]\<rparr>)"
  using assms by (simp add: otp_inv_def claimed_ids_def)

lemma inv_time: "otp_inv c s \<Longrightarrow> os_now s \<le> t \<Longrightarrow> otp_inv c (s\<lparr>os_now := t\<rparr>)"
  unfolding otp_inv_def by (simp, blast intro: held_later)

lemma inv_remove:
  assumes "otp_inv c s" and "k < length (os_pending s)"
  defines "s' \<equiv> s\<lparr>os_pending := take k (os_pending s) @ drop (Suc k) (os_pending s)\<rparr>" and "t \<equiv> os_pending s ! k"
  shows "otp_inv c s'" and "task_ok c (os_issued s') t"
    and "\<And>i. i \<in> set (claims_of t) \<Longrightarrow> i \<notin> set (claimed_ids s') \<and> claim_held (os_kv s') (os_now s') (os_issued s') i"
proof -
  have p: "os_pending s = take k (os_pending s) @ t # drop (Suc k) (os_pending s)"
    using assms(2) unfolding t_def by (simp add: id_take_nth_drop)
  have ids: "set (claimed_ids s) = set (claimed_ids s') \<union> set (claims_of t)"
    unfolding claimed_ids_def s'_def by (subst p) auto
  have d: "distinct (claimed_ids s)" using assms(1) by (simp add: otp_inv_def)
  have apart: "distinct (claimed_ids s') \<and> set (claims_of t) \<inter> set (claimed_ids s') = {}"
    using d unfolding claimed_ids_def s'_def by (subst (asm) p) auto
  have sub: "set (os_pending s') \<subseteq> set (os_pending s)" using set_take_subset set_drop_subset by (fastforce simp: s'_def)
  have held: "claim_held (os_kv s) (os_now s) (os_issued s) i" if "i \<in> set (claimed_ids s)" for i
    using assms(1) that by (simp add: otp_inv_def)
  show "otp_inv c s'"
    using assms(1) apart sub held ids by (auto simp: otp_inv_def s'_def)
  show "task_ok c (os_issued s') t" using assms(1,2) by (auto simp: otp_inv_def s'_def t_def)
  show "i \<notin> set (claimed_ids s') \<and> claim_held (os_kv s') (os_now s') (os_issued s') i" if "i \<in> set (claims_of t)" for i
    using apart held ids that by (auto simp: s'_def)
qed

lemma inv_sound: "otp_inv c s \<Longrightarrow> kv_sound (os_kv s) (os_issued s)"
  by (simp add: otp_inv_def)

lemma inv_issue: "otp_inv c s \<Longrightarrow> x \<in> set (os_issued s) \<Longrightarrow> issue_ok c (os_drawn s) x"
  by (simp add: otp_inv_def)

lemma inv_get:
  assumes "otp_inv c s" and "otp_get (os_now s) p d (os_kv s) = (record, m)"
  shows "otp_inv c (s\<lparr>os_kv := m\<rparr>)"
proof -
  have m: "m = snd (kv_get (os_now s) (otp_key p d) (os_kv s))" using assms(2) by (auto simp: otp_get_def split: prod.splits)
  show ?thesis unfolding m using sound_get [OF inv_sound [OF assms(1)]] held_get by (intro inv_kv [OF assms(1)]) blast+
qed

lemma request_read_inv:
  assumes "otp_inv c s"
  shows "otp_inv c (snd (settle (request_read c i s)))"
  using assms inv_get [OF assms] inv_pending
  by (fastforce simp: request_read_def settle_def claims_of_def split: sum.split prod.split)

lemma request_create_inv:
  assumes inv: "otp_inv c s" and "inj (oc_uuid c)" and d: "normalizeDestination d = d"
  shows "otp_inv c (snd (settle (request_create c p ch d existing s)))"
proof (cases "cooling c (os_now s) existing \<or> \<not> (length (oc_generate c (os_drawn s) (oc_digits c)) = oc_digits c
    \<and> list_all is_digit (oc_generate c (os_drawn s) (oc_digits c)))")
  case True
  then show ?thesis using inv by (auto simp: request_create_def settle_def Let_def)
next
  case False
  define code where "code = oc_generate c (os_drawn s) (oc_digits c)"
  obtain r m where cr: "otp_create (os_now s) (oc_uuid c (os_drawn s)) p d ch (hashOtp c p d code) (oc_digits c) (oc_maxAttempts c)
      (os_now s + oc_ttlMs c) (os_now s) (os_kv s) = (r, m)" by fastforce
  have r: "or_id r = oc_uuid c (os_drawn s)" "or_purpose r = p" "or_destination r = d" "or_codeHash r = hashOtp c p d code"
      and m: "m = otp_save (os_now s) r (os_kv s)"
    using cr d by (auto simp: otp_create_def Let_def)
  let ?xs = "(r, code) # os_issued s" and ?t = "Ta_deliver p ch d code r (providerFor c ch)"
  let ?s = "s\<lparr>os_kv := m, os_drawn := Suc (os_drawn s), os_issued := ?xs\<rparr>"
  have e: "snd (settle (request_create c p ch d existing s)) = ?s\<lparr>os_pending := os_pending ?s @ [?t]\<rparr>"
    using False cr by (simp add: request_create_def settle_def Let_def code_def)
  have fresh: "or_id (fst x) \<noteq> or_id r" if x: "x \<in> set (os_issued s)" for x
  proof -
    obtain k where "k < os_drawn s" "or_id (fst x) = oc_uuid c k" using inv_issue [OF inv x] unfolding issue_ok_def by blast
    then show ?thesis using r(1) injD [OF assms(2), of k "os_drawn s"] by auto
  qed
  have "distinct (map (or_id \<circ> fst) (os_issued s))" using inv by (simp add: otp_inv_def)
  moreover have "or_id r \<notin> (or_id \<circ> fst) ` set (os_issued s)" using fresh by (metis comp_apply imageE)
  ultimately have "distinct (map (or_id \<circ> fst) ?xs)" by simp
  moreover have "issue_ok c (Suc (os_drawn s)) x" if "x \<in> set ?xs" for x
    using that inv r d less_Suc_eq unfolding otp_inv_def issue_ok_def by auto
  moreover have "kv_sound m ?xs"
    unfolding m by (intro sound_save sound_mono [OF inv_sound [OF inv]]) (auto simp: from_issue_def same_challenge_def)
  moreover have "task_ok c ?xs t" if "t \<in> set (os_pending s)" for t
    using that inv task_ok_mono [of c "os_issued s" t ?xs] by (auto simp: otp_inv_def)
  moreover have "claim_held m (os_now s) ?xs i" if "i \<in> set (claimed_ids s)" for i
  proof -
    have h: "claim_held (os_kv s) (os_now s) (os_issued s) i" using that inv by (simp add: otp_inv_def)
    then have "or_id r \<noteq> i" using fresh unfolding claim_held_def by blast
    then show ?thesis using held_save [OF h, of r] unfolding m claim_held_def by auto
  qed
  moreover have "accepted_ok c ?xs v" if "v \<in> set (os_verified s)" for v
    using that inv accepted_ok_mono [of c "os_issued s" v ?xs] by (auto simp: otp_inv_def)
  moreover have "distinct (claimed_ids s)" using inv by (simp add: otp_inv_def)
  ultimately have "otp_inv c ?s" unfolding otp_inv_def by simp
  then show ?thesis unfolding e by (rule inv_pending) (simp_all add: claims_of_def)
qed

lemma request_delivered_inv:
  assumes "otp_inv c s"
  shows "otp_inv c (snd (settle (request_delivered c p ch d failure s)))"
proof -
  have "otp_inv c (s\<lparr>os_kv := otp_delete p d (os_kv s)\<rparr>)"
    using sound_filter [OF inv_sound [OF assms]] held_delete by (intro inv_kv [OF assms]) (auto simp: otp_delete_def kv_del_def)
  then show ?thesis using assms by (simp add: request_delivered_def settle_def split: option.split)
qed

lemma verify_read_inv:
  assumes "otp_inv c s"
  shows "otp_inv c (snd (settle (verify_read i s)))"
proof (cases "parse_otp_verify i")
  case (Inr y)
  then obtain d p code where i: "parse_otp_verify i = Inr (d, p, code)" by (cases y) auto
  let ?d = "normalizeDestination d"
  obtain x m where g: "otp_get (os_now s) p ?d (os_kv s) = (x, m)" by fastforce
  have "from_issue (os_issued s) r \<and> or_purpose r = p \<and> or_destination r = ?d" if "x = Some r" for r
  proof -
    have f: "from_issue (os_issued s) r \<and> otp_key p ?d = otp_key (or_purpose r) (or_destination r)"
      using sound_read [OF inv_sound [OF assms]] g that by blast
    then obtain y where "y \<in> set (os_issued s)" "same_challenge r (fst y)" unfolding from_issue_def by blast
    then have "normalizeDestination (or_destination r) = or_destination r"
      using assms unfolding otp_inv_def issue_ok_def same_challenge_def by metis
    then show ?thesis using f by (simp add: otp_key_inj)
  qed
  then have "otp_inv c ((s\<lparr>os_kv := m\<rparr>)\<lparr>os_pending := os_pending (s\<lparr>os_kv := m\<rparr>) @ [Ta_verify p ?d code x]\<rparr>)"
    by (intro inv_pending inv_get [OF assms g]) (auto simp: claims_of_def)
  then show ?thesis by (simp add: verify_read_def settle_def i g)
qed (use assms in \<open>simp add: verify_read_def settle_def\<close>)

lemma same_issue:
  assumes "distinct (map (or_id \<circ> fst) xs)" and "x \<in> set xs" "y \<in> set xs" "or_id (fst x) = or_id (fst y)"
  shows "x = y"
proof -
  have "inj_on (or_id \<circ> fst) (set xs)" using assms(1) by (simp add: distinct_map)
  then show ?thesis using assms(2-4) by (metis comp_apply inj_onD)
qed

lemma evaluate_ok:
  assumes "evaluateOtpRecord record h now = Inr r"
  shows "record = Some r" "\<not> consumed r" "now < or_expiresAt r" "or_attempts r < or_maxAttempts r" "or_codeHash r = h"
  using assms by (auto simp: evaluateOtpRecord_def otpHashesEqual_def split: option.splits if_splits)

lemma claim_inv:
  assumes inv: "otp_inv c s" and r: "from_issue (os_issued s) r" "os_now s < or_expiresAt r"
    and claim: "otp_claim (os_now s) r (os_kv s) = (True, m)"
    and t: "task_ok c (os_issued s) (Ta_claimed p d code r)"
  shows "otp_inv c (s\<lparr>os_kv := m, os_pending := os_pending s @ [Ta_claimed p d code r]\<rparr>)"
proof -
  let ?now = "os_now s" and ?xs = "os_issued s" and ?k = "otp_consumeKey (or_id r)"
  have dist: "distinct (map (or_id \<circ> fst) ?xs)" using inv by (simp add: otp_inv_def)
  have none: "kv_read (os_kv s) ?now ?k = None" and m: "m = kv_set ?now ?k Ov_used (Some (max 1 (or_expiresAt r - ?now))) (os_kv s)"
    using claim by (auto simp: otp_claim_def kv_setNx_exact split: if_splits)
  obtain x where x: "x \<in> set ?xs" "same_challenge r (fst x)" using r(1) by (auto simp: from_issue_def)
  have other: "y = x" if "y \<in> set ?xs" "or_id (fst y) = or_id r" for y
    using same_issue [OF dist that(1) x(1)] that(2) x(2) by (simp add: same_challenge_def)
  have new: "or_id r \<notin> set (claimed_ids s)"
  proof
    assume "or_id r \<in> set (claimed_ids s)"
    then have "claim_held (os_kv s) ?now ?xs (or_id r)" using inv by (simp add: otp_inv_def)
    then have "?now < or_expiresAt (fst x) \<longrightarrow> kv_read (os_kv s) ?now ?k = Some Ov_used"
      using x unfolding claim_held_def same_challenge_def by auto
    then show False using none r(2) x(2) by (simp add: same_challenge_def)
  qed
  have e: "or_id (fst x) = or_id r" "or_expiresAt (fst x) = or_expiresAt r" using x(2) by (simp_all add: same_challenge_def)
  have read: "kv_read m t ?k = Some Ov_used" if "t < or_expiresAt r" for t
    using that r(2) by (simp add: m kv_read_set)
  have held: "claim_held m ?now ?xs (or_id r)"
    unfolding claim_held_def using other x(1) e read by metis
  have "otp_inv c (s\<lparr>os_kv := m\<rparr>)"
    using sound_claim [OF inv_sound [OF inv], of ?now r] held_claim [of "os_kv s" ?now ?xs _ r] claim by (intro inv_kv [OF inv]) auto
  moreover have "set (claimed_ids (s\<lparr>os_kv := m, os_pending := os_pending s @ [Ta_claimed p d code r]\<rparr>)) = insert (or_id r) (set (claimed_ids s))"
    by (auto simp: claimed_ids_def claims_of_def)
  moreover have "distinct (claimed_ids (s\<lparr>os_kv := m, os_pending := os_pending s @ [Ta_claimed p d code r]\<rparr>))"
    using inv new by (auto simp: otp_inv_def claimed_ids_def claims_of_def)
  ultimately show ?thesis using t held unfolding otp_inv_def by simp
qed

lemma verify_decide_inv:
  assumes inv: "otp_inv c s" and t: "task_ok c (os_issued s) (Ta_verify p d code record)"
  shows "otp_inv c (snd (settle (verify_decide c p d code record s)))"
proof (cases "evaluateOtpRecord record (hashOtp c p d code) (os_now s)")
  case (Inl x)
  obtain reason q where x: "x = (reason, q)" by (cases x)
  have "otp_inv c (s\<lparr>os_kv := otp_incrementAttempts (os_now s) r (os_kv s)\<rparr>)" if "q = Some r" for r
  proof -
    have "record = Some r" using Inl that x by (auto simp: evaluateOtpRecord_def split: option.splits if_splits)
    then have "from_issue (os_issued s) r" using t by simp
    then show ?thesis
      using sound_save [OF inv_sound [OF inv]] held_save by (intro inv_kv [OF inv]) (simp_all add: otp_incrementAttempts_def)
  qed
  then show ?thesis using inv Inl x
    by (cases q; cases reason) (simp_all add: verify_decide_def settle_def)
next
  case (Inr r)
  note e = evaluate_ok [OF Inr]
  have r: "from_issue (os_issued s) r" "or_purpose r = p" "or_destination r = d" using t e(1) by auto
  obtain claimed m where cl: "otp_claim (os_now s) r (os_kv s) = (claimed, m)" by fastforce
  show ?thesis
  proof (cases claimed)
    case True
    then show ?thesis using claim_inv [OF inv r(1) e(3), of m p d code] cl r e(5) Inr by (simp add: verify_decide_def settle_def)
  next
    case False
    then have "m = os_kv s" using cl by (auto simp: otp_claim_def kv_setNx_exact split: if_splits)
    then show ?thesis using False cl inv Inr by (simp add: verify_decide_def settle_def)
  qed
qed

lemma verify_finish_inv:
  assumes inv: "otp_inv c s" and t: "task_ok c (os_issued s) (Ta_claimed p d code r)"
    and held: "or_id r \<notin> set (claimed_ids s)" "claim_held (os_kv s) (os_now s) (os_issued s) (or_id r)"
  shows "otp_inv c (snd (settle (verify_finish p d code r s)))"
proof -
  let ?m = "otp_save_consumed (os_now s) r (os_kv s)" and ?v = "(or_id r, p, d, code)"
  have r: "from_issue (os_issued s) r" "or_purpose r = p" "or_destination r = d" "or_codeHash r = hashOtp c p d code" using t by auto
  have k: "otp_inv c (s\<lparr>os_kv := ?m\<rparr>)"
    using sound_save [OF inv_sound [OF inv]] held_save r(1) by (intro inv_kv [OF inv]) (simp_all add: otp_save_consumed_def)
  obtain x where x: "x \<in> set (os_issued s)" "same_challenge r (fst x)" using r(1) by (auto simp: from_issue_def)
  have "hashOtp c p d code = hashOtp c p d (snd x)"
    using inv_issue [OF inv x(1)] x(2) r(2-4) unfolding issue_ok_def same_challenge_def by metis
  then have a: "accepted_ok c (os_issued s) ?v" using x r(2,3) unfolding accepted_ok_def same_challenge_def by auto
  have h: "claim_held ?m (os_now s) (os_issued s) (or_id r)" unfolding otp_save_consumed_def by (rule held_save [OF held(2)])
  have "claimed_ids (s\<lparr>os_kv := ?m, os_verified := ?v # os_verified s\<rparr>) = or_id r # claimed_ids s" by (simp add: claimed_ids_def)
  then have "otp_inv c (s\<lparr>os_kv := ?m, os_verified := ?v # os_verified s\<rparr>)"
    using k a h held(1) unfolding otp_inv_def by simp
  then show ?thesis by (simp add: verify_finish_def settle_def)
qed

lemma otp_do_inv:
  assumes "otp_inv c s" and "inj (oc_uuid c)"
  shows "otp_inv c (snd (otp_do c op s))"
proof (cases op)
  case (Op_continue k failure)
  show ?thesis
  proof (cases "k < length (os_pending s)")
    case True
    note rm = inv_remove [OF assms(1) True]
    have "otp_inv c (snd (settle (otp_continue c failure (os_pending s ! k)
        (s\<lparr>os_pending := take k (os_pending s) @ drop (Suc k) (os_pending s)\<rparr>))))"
    proof (cases "os_pending s ! k")
      case (Ta_request p ch d x)
      then show ?thesis using request_create_inv [OF rm(1) assms(2)] rm(2) by simp
    next
      case (Ta_deliver p ch d code r provider)
      then show ?thesis using request_delivered_inv [OF rm(1)] by simp
    next
      case (Ta_verify p d code x)
      then show ?thesis using verify_decide_inv [OF rm(1)] rm(2) by simp
    next
      case (Ta_claimed p d code r)
      have "or_id r \<in> set (claims_of (os_pending s ! k))" by (simp add: Ta_claimed claims_of_def)
      note h = rm(3) [OF this]
      show ?thesis using verify_finish_inv [OF rm(1) rm(2) [unfolded Ta_claimed] conjunct1 [OF h] conjunct2 [OF h]] Ta_claimed by simp
    qed
    then show ?thesis using True Op_continue by simp
  qed (use assms(1) Op_continue in simp)
next
  case Op_prune
  have "kv_sound (snd (kv_pruneExpired (os_now s) (os_kv s))) (os_issued s)"
    unfolding kv_pruneExpired_def using sound_filter [OF inv_sound [OF assms(1)]] by simp
  moreover have "kv_ok (os_kv s)" using inv_sound [OF assms(1)] by (simp add: kv_sound_def)
  ultimately have "otp_inv c (s\<lparr>os_kv := snd (kv_pruneExpired (os_now s) (os_kv s))\<rparr>)"
    using held_prune by (intro inv_kv [OF assms(1)]) blast+
  then show ?thesis using Op_prune by simp
qed (use assms(1) request_read_inv verify_read_inv in simp_all)

lemma settle_now [simp]: "os_now (snd (settle x)) = os_now (snd x)"
  by (simp add: settle_def split: sum.split prod.split)

lemma step_now [simp]:
  "os_now (snd (otp_continue c failure t x)) = os_now x" "os_now (snd (request_read c i x)) = os_now x" "os_now (snd (verify_read j x)) = os_now x"
  by (cases t) (auto simp: request_create_def request_delivered_def verify_decide_def verify_finish_def Let_def request_read_def verify_read_def
    split: option.split sum.split prod.split otp_reason.split)

lemma otp_do_now: "os_now (snd (otp_do c op x)) = os_now x"
  by (cases op) simp_all

interpretation codes: guarded_system "otp_step c" "\<lambda>s. otp_inv c s \<and> inj (oc_uuid c)" "\<lambda>s t. os_now s \<le> os_now t" for c
proof
  fix s t assume inv: "otp_inv c s \<and> inj (oc_uuid c)" and st: "otp_step c s t"
  from st obtain u op where u: "os_now s \<le> u" "t = snd (otp_do c op (s\<lparr>os_now := u\<rparr>))" by cases auto
  show "otp_inv c t \<and> inj (oc_uuid c)" unfolding u(2) using inv otp_do_inv [OF inv_time [OF _ u(1)]] by blast
  show "os_now s \<le> os_now t" using u otp_do_now by simp
qed auto

lemma otp_reachable_inv: "otp_reachable c s \<Longrightarrow> otp_inv c s"
proof -
  assume "otp_reachable c s"
  then obtain x where x: "inj (oc_uuid c)" "otp_start x" "(otp_step c)\<^sup>*\<^sup>* x s" by (auto simp: otp_reachable_def)
  have "otp_inv c x" using x(2) by (simp add: otp_start_def otp_inv_def kv_sound_def kv_ok_def claimed_ids_def)
  then show ?thesis using codes.run_inv [OF x(3)] x(1) by blast
qed

text \<open>C35: A one-time code is accepted at most once, however the handlers overlap, and what is accepted is the code of a challenge
  created for that purpose and destination: its hash is the hash of the code sent. Two verifications that both read the
  challenge before either uses it do not both succeed.\<close>

theorem codes_are_accepted_once:
  assumes "otp_reachable c s"
  shows "distinct (map fst (os_verified s)) \<and>
    (\<forall>(i, p, d, code) \<in> set (os_verified s). \<exists>(r, sent) \<in> set (os_issued s). or_id r = i \<and> or_purpose r = p \<and> or_destination r = d \<and>
       hashOtp c p d code = hashOtp c p d sent)"
  using otp_reachable_inv [OF assms] by (fastforce simp: otp_inv_def claimed_ids_def accepted_ok_def)

section \<open>Wrong codes\<close>

text \<open>A challenge is stored when the store answers with it until it expires.\<close>

definition stored :: "otp_value kv \<Rightarrow> int \<Rightarrow> otp_record \<Rightarrow> bool" where
  "stored m now r \<longleftrightarrow> normalizeDestination (or_destination r) = or_destination r \<and>
     (\<forall>t. now \<le> t \<longrightarrow> t < or_expiresAt r \<longrightarrow> kv_read m t (otp_key (or_purpose r) (or_destination r)) = Some (Ov_record r))"

definition wrong_guess :: "otp_config \<Rightarrow> otp_record \<Rightarrow> otp_verify_input \<Rightarrow> bool" where
  "wrong_guess c r g \<longleftrightarrow> (\<exists>d code. parse_otp_verify g = Inr (d, or_purpose r, code) \<and> normalizeDestination d = or_destination r \<and>
     hashOtp c (or_purpose r) d code \<noteq> or_codeHash r)"

fun guesses :: "otp_config \<Rightarrow> (int \<times> otp_verify_input) list \<Rightarrow> otp_system \<Rightarrow> otp_system" where
  "guesses c [] s = s"
| "guesses c ((t, g) # gs) s = guesses c gs (snd (otp_verify c g (s\<lparr>os_now := t\<rparr>)))"

lemma hash_normalize [simp]: "hashOtp c p (normalizeDestination d) code = hashOtp c p d code"
  by (simp add: hashOtp_def)

lemma stored_later: "stored m now r \<Longrightarrow> now \<le> t \<Longrightarrow> stored m t r"
  by (auto simp: stored_def)

lemma stored_save: "normalizeDestination (or_destination r) = or_destination r \<Longrightarrow> stored (otp_save now r m) now r"
  by (auto simp: stored_def otp_save_def kv_read_set)

lemma stored_get:
  assumes "stored m now r" and "now < or_expiresAt r"
  shows "fst (otp_get now (or_purpose r) (or_destination r) m) = Some r" and "stored (snd (otp_get now p d m)) now r"
proof -
  have "fst (kv_get now (otp_key (or_purpose r) (or_destination r)) m) = Some (Ov_record r)"
    using assms by (simp add: stored_def kv_read_def)
  then show "fst (otp_get now (or_purpose r) (or_destination r) m) = Some r"
    by (cases "kv_get now (otp_key (or_purpose r) (or_destination r)) m") (simp add: otp_get_def)
  have "snd (otp_get now p d m) = snd (kv_get now (otp_key p d) m)" by (simp add: otp_get_def split: prod.split)
  then show "stored (snd (otp_get now p d m)) now r"
    using assms(1) kv_get_frame [of now _ "otp_key p d" m] by (simp add: stored_def)
qed

lemma read_stored:
  assumes "stored (os_kv s) (os_now s) r" and "os_now s < or_expiresAt r"
    and "parse_otp_verify g = Inr (d, or_purpose r, code)" "normalizeDestination d = or_destination r"
  obtains m where "verify_read g s = (Inr (Ta_verify (or_purpose r) (or_destination r) code (Some r)), s\<lparr>os_kv := m\<rparr>)"
    and "stored m (os_now s) r"
proof (rule that)
  let ?m = "snd (otp_get (os_now s) (or_purpose r) (or_destination r) (os_kv s))"
  show "verify_read g s = (Inr (Ta_verify (or_purpose r) (or_destination r) code (Some r)), s\<lparr>os_kv := ?m\<rparr>)"
    using stored_get(1) [OF assms(1,2)] assms(3,4) by (auto simp: verify_read_def split: prod.split)
  show "stored ?m (os_now s) r" by (rule stored_get(2) [OF assms(1,2)])
qed

text \<open>The decision on a wrong code.\<close>

lemma decide_wrong:
  assumes "\<not> consumed r" "os_now s < or_expiresAt r" and "hashOtp c p d code \<noteq> or_codeHash r"
  shows "verify_decide c p d code (Some r) s =
    (if or_attempts r < or_maxAttempts r
     then (Inl (Oa_error (verifyError Or_mismatch)), s\<lparr>os_kv := otp_incrementAttempts (os_now s) r (os_kv s)\<rparr>)
     else (Inl (Oa_error (verifyError Or_max_attempts)), s))"
  using assms by (auto simp: verify_decide_def evaluateOtpRecord_def otpHashesEqual_def)

lemma decide_locked:
  assumes "\<not> consumed r" "os_now s < or_expiresAt r" "or_maxAttempts r \<le> or_attempts r"
  shows "verify_decide c p d code (Some r) s = (Inl (Oa_error (verifyError Or_max_attempts)), s)"
  using assms by (simp add: verify_decide_def evaluateOtpRecord_def)

lemma wrong_guess_counts:
  assumes "stored (os_kv s) (os_now s) r" "os_now s < or_expiresAt r" "\<not> consumed r" "wrong_guess c r g"
  defines "n \<equiv> (if or_attempts r < or_maxAttempts r then or_attempts r + 1 else or_attempts r)"
  shows "stored (os_kv (snd (otp_verify c g s))) (os_now s) (r\<lparr>or_attempts := n\<rparr>)" and "os_now (snd (otp_verify c g s)) = os_now s"
proof -
  obtain d code where g: "parse_otp_verify g = Inr (d, or_purpose r, code)" "normalizeDestination d = or_destination r"
      "hashOtp c (or_purpose r) d code \<noteq> or_codeHash r" using assms(4) unfolding wrong_guess_def by blast
  obtain m where m: "verify_read g s = (Inr (Ta_verify (or_purpose r) (or_destination r) code (Some r)), s\<lparr>os_kv := m\<rparr>)" "stored m (os_now s) r"
    using read_stored [OF assms(1,2) g(1,2)] .
  have "hashOtp c (or_purpose r) (or_destination r) code \<noteq> or_codeHash r" using g(2,3) by (metis hash_normalize)
  note w = decide_wrong [OF assms(3) _ this, of "s\<lparr>os_kv := m\<rparr>", simplified, OF assms(2)]
  have norm: "normalizeDestination (or_destination r) = or_destination r" using assms(1) by (simp add: stored_def)
  show "stored (os_kv (snd (otp_verify c g s))) (os_now s) (r\<lparr>or_attempts := n\<rparr>)"
    using m norm by (simp add: otp_verify_def w n_def otp_incrementAttempts_def stored_save)
  show "os_now (snd (otp_verify c g s)) = os_now s" by (simp add: otp_verify_def m(1) w)
qed

lemma wrong_guesses_count:
  assumes "stored (os_kv s) (os_now s) r" "\<not> consumed r" and "sorted (os_now s # map fst gs)"
    and "\<forall>(t, g)\<in>set gs. t < or_expiresAt r \<and> wrong_guess c r g"
  shows "\<exists>n. stored (os_kv (guesses c gs s)) (last (os_now s # map fst gs)) (r\<lparr>or_attempts := n\<rparr>) \<and>
    (or_attempts r + int (length gs) \<le> n \<or> or_maxAttempts r \<le> n)"
  using assms
proof (induction gs arbitrary: s r)
  case Nil
  then show ?case by (intro exI [of _ "or_attempts r"]) simp
next
  case (Cons x gs)
  obtain t g where x: "x = (t, g)" by (cases x)
  let ?s = "s\<lparr>os_now := t\<rparr>" and ?s' = "snd (otp_verify c g (s\<lparr>os_now := t\<rparr>))"
  define n where "n = (if or_attempts r < or_maxAttempts r then or_attempts r + 1 else or_attempts r)"
  have st: "stored (os_kv ?s) (os_now ?s) r" using stored_later [OF Cons.prems(1), of t] Cons.prems(3) x by simp
  note w = wrong_guess_counts [OF st _ Cons.prems(2), of c g, folded n_def]
  have tg: "t < or_expiresAt r" "wrong_guess c r g" using Cons.prems(4) x by auto
  have "\<exists>k. stored (os_kv (guesses c gs ?s')) (last (os_now ?s' # map fst gs)) ((r\<lparr>or_attempts := n\<rparr>)\<lparr>or_attempts := k\<rparr>) \<and>
    (or_attempts (r\<lparr>or_attempts := n\<rparr>) + int (length gs) \<le> k \<or> or_maxAttempts (r\<lparr>or_attempts := n\<rparr>) \<le> k)"
  proof (rule Cons.IH)
    show "stored (os_kv ?s') (os_now ?s') (r\<lparr>or_attempts := n\<rparr>)" using w tg by simp
    show "\<not> consumed (r\<lparr>or_attempts := n\<rparr>)" using Cons.prems(2) by (simp add: consumed_def)
    show "sorted (os_now ?s' # map fst gs)" using w(2) tg Cons.prems(3) x by simp
    show "\<forall>(u, h)\<in>set gs. u < or_expiresAt (r\<lparr>or_attempts := n\<rparr>) \<and> wrong_guess c (r\<lparr>or_attempts := n\<rparr>) h"
      using Cons.prems(4) by (auto simp: wrong_guess_def)
  qed
  moreover have "os_now ?s' = t" using w(2) tg by simp
  ultimately obtain k where "stored (os_kv (guesses c gs ?s')) (last (t # map fst gs)) (r\<lparr>or_attempts := k\<rparr>)"
      "n + int (length gs) \<le> k \<or> or_maxAttempts r \<le> k" by auto
  then show ?case using x by (intro exI [of _ k]) (auto simp: n_def split: if_splits)
qed

text \<open>A request that is answered leaves its challenge stored, with no attempts.\<close>

lemma requested:
  assumes "otp_request c None i s = (Oa_requested res, s1)" and "parse_otp_request c i = Inr (d, ch, p)"
    and "os_issued s1 = (r, sent) # xs"
  shows "stored (os_kv s1) (os_now s1) r" "\<not> consumed r" "or_attempts r = 0" "or_maxAttempts r = oc_maxAttempts c"
    "or_expiresAt r = os_now s + oc_ttlMs c" "or_purpose r = p" "or_destination r = normalizeDestination d"
    "or_codeHash r = hashOtp c p d sent" "os_now s1 = os_now s" "os_pending s1 = os_pending s"
proof -
  obtain x m where g: "otp_get (os_now s) p (normalizeDestination d) (os_kv s) = (x, m)" by fastforce
  define d' where "d' = normalizeDestination d"
  let ?s = "s\<lparr>os_kv := m\<rparr>" and ?code = "oc_generate c (os_drawn s) (oc_digits c)"
  have one: "otp_request c None i s = otp_complete c None (request_create c p ch d' x ?s)"
    using assms(2) g by (simp add: otp_request_def request_read_def d'_def)
  obtain q m' where cr: "otp_create (os_now s) (oc_uuid c (os_drawn s)) p d' ch (hashOtp c p d' ?code) (oc_digits c) (oc_maxAttempts c)
      (os_now s + oc_ttlMs c) (os_now s) m = (q, m')" by fastforce
  have q: "or_attempts q = 0" "or_maxAttempts q = oc_maxAttempts c" "or_expiresAt q = os_now s + oc_ttlMs c" "or_purpose q = p"
      "or_destination q = d'" "or_codeHash q = hashOtp c p d ?code" "or_consumedAt q = None" "m' = otp_save (os_now s) q m"
    using cr by (auto simp: otp_create_def Let_def d'_def)
  have s1: "s1 = ?s\<lparr>os_kv := m', os_drawn := Suc (os_drawn s), os_issued := (q, ?code) # os_issued s\<rparr>"
    using assms(1) cr unfolding one by (auto simp: request_create_def request_delivered_def Let_def split: if_splits)
  then have "r = q" "sent = ?code" using assms(3) by auto
  moreover have "stored m' (os_now s) q" using q(5) unfolding q(8) by (intro stored_save) (simp add: d'_def)
  ultimately show "stored (os_kv s1) (os_now s1) r" "\<not> consumed r" "or_attempts r = 0" "or_maxAttempts r = oc_maxAttempts c"
    "or_expiresAt r = os_now s + oc_ttlMs c" "or_purpose r = p" "or_destination r = normalizeDestination d"
    "or_codeHash r = hashOtp c p d sent" "os_now s1 = os_now s" "os_pending s1 = os_pending s"
    using q s1 by (simp_all add: consumed_def d'_def)
qed

text \<open>C36: Wrong codes lock a challenge: after as many wrong codes as attempts are allowed, each verified before the next, every
  code is refused until the challenge expires, the right one included.\<close>

theorem wrong_codes_lock_the_challenge:
  assumes "otp_request c None i s = (Oa_requested res, s1)" and "parse_otp_request c i = Inr (d, ch, p)"
    and "os_issued s1 = (r, sent) # xs"
    and "sorted (os_now s # map fst gs)" and "\<forall>(t, g)\<in>set gs. t < os_now s + oc_ttlMs c \<and> wrong_guess c r g"
    and "oc_maxAttempts c \<le> int (length gs)"
    and "last (os_now s # map fst gs) \<le> t" "t < os_now s + oc_ttlMs c"
    and "parse_otp_verify v = Inr (d', p, code)" "normalizeDestination d' = normalizeDestination d"
  shows "fst (otp_verify c v ((guesses c gs s1)\<lparr>os_now := t\<rparr>)) = Oa_error (AuthenticationError ''Too many incorrect OTP attempts'')"
proof -
  note q = requested [OF assms(1-3)]
  obtain n where n: "stored (os_kv (guesses c gs s1)) (last (os_now s # map fst gs)) (r\<lparr>or_attempts := n\<rparr>)" "oc_maxAttempts c \<le> n"
    using wrong_guesses_count [OF q(1,2), of gs c] assms(4-6) q(3,4,5,9) by auto
  let ?s = "(guesses c gs s1)\<lparr>os_now := t\<rparr>" and ?r = "r\<lparr>or_attempts := n\<rparr>"
  have "stored (os_kv ?s) (os_now ?s) ?r" using stored_later [OF n(1) assms(7)] by simp
  then obtain m where m: "verify_read v ?s = (Inr (Ta_verify (or_purpose ?r) (or_destination ?r) code (Some ?r)), ?s\<lparr>os_kv := m\<rparr>)"
    using read_stored [of ?s ?r v d' code] assms(8-10) q(5-7) by auto
  have "\<not> consumed ?r" using q(2) by (simp add: consumed_def)
  from decide_locked [OF this, of "?s\<lparr>os_kv := m\<rparr>"] have "verify_decide c (or_purpose ?r) (or_destination ?r) code (Some ?r) (?s\<lparr>os_kv := m\<rparr>) =
      (Inl (Oa_error (verifyError Or_max_attempts)), ?s\<lparr>os_kv := m\<rparr>)"
    using n(2) q(4,5) assms(8) by simp
  then show ?thesis by (simp add: otp_verify_def m)
qed

fun otp_ops :: "otp_config \<Rightarrow> otp_op list \<Rightarrow> otp_system \<Rightarrow> otp_system" where
  "otp_ops c [] s = s"
| "otp_ops c (op # ops) s = otp_ops c ops (snd (otp_do c op s))"

lemma otp_ops_append: "otp_ops c (xs @ ys) s = otp_ops c ys (otp_ops c xs s)"
  by (induction xs arbitrary: s) auto

definition wrong_task :: "otp_config \<Rightarrow> otp_record \<Rightarrow> otp_task \<Rightarrow> bool" where
  "wrong_task c r t \<longleftrightarrow> (\<exists>code. t = Ta_verify (or_purpose r) (or_destination r) code (Some r) \<and>
     hashOtp c (or_purpose r) (or_destination r) code \<noteq> or_codeHash r)"

lemma overlapping_reads:
  assumes "stored (os_kv s) (os_now s) r" "os_now s < or_expiresAt r" and "\<forall>g\<in>set gs. wrong_guess c r g"
    and "\<forall>t\<in>set (os_pending s). wrong_task c r t"
  shows "stored (os_kv (otp_ops c (map Op_verify gs) s)) (os_now s) r \<and> os_now (otp_ops c (map Op_verify gs) s) = os_now s \<and>
    (\<forall>t\<in>set (os_pending (otp_ops c (map Op_verify gs) s)). wrong_task c r t) \<and>
    length (os_pending (otp_ops c (map Op_verify gs) s)) = length (os_pending s) + length gs"
  using assms
proof (induction gs arbitrary: s)
  case (Cons g gs)
  have "wrong_guess c r g" using Cons.prems(3) by simp
  then obtain d code where g: "parse_otp_verify g = Inr (d, or_purpose r, code)" "normalizeDestination d = or_destination r"
      "hashOtp c (or_purpose r) d code \<noteq> or_codeHash r" unfolding wrong_guess_def by blast
  obtain m where m: "verify_read g s = (Inr (Ta_verify (or_purpose r) (or_destination r) code (Some r)), s\<lparr>os_kv := m\<rparr>)" "stored m (os_now s) r"
    using read_stored [OF Cons.prems(1,2) g(1,2)] .
  have "hashOtp c (or_purpose r) (or_destination r) code \<noteq> or_codeHash r" using g(2,3) by (metis hash_normalize)
  then have t: "wrong_task c r (Ta_verify (or_purpose r) (or_destination r) code (Some r))" by (simp add: wrong_task_def)
  define z where "z = s\<lparr>os_kv := m, os_pending := os_pending s @ [Ta_verify (or_purpose r) (or_destination r) code (Some r)]\<rparr>"
  have ops: "otp_ops c (map Op_verify (g # gs)) s = otp_ops c (map Op_verify gs) z" using m(1) by (simp add: settle_def z_def)
  have z: "stored (os_kv z) (os_now z) r" "os_now z < or_expiresAt r" "\<forall>g\<in>set gs. wrong_guess c r g" "\<forall>t\<in>set (os_pending z). wrong_task c r t"
      "os_now z = os_now s" "length (os_pending z) = Suc (length (os_pending s))"
    using m(2) Cons.prems(2-4) t by (auto simp: z_def)
  show ?case using Cons.IH [OF z(1-4)] unfolding ops z(5,6) by simp
qed simp

lemma overlapping_decisions:
  assumes "\<forall>t\<in>set (os_pending s). wrong_task c r t" "k = length (os_pending s)" "0 < k"
    and "os_now s < or_expiresAt r" "\<not> consumed r" "or_attempts r < or_maxAttempts r" "normalizeDestination (or_destination r) = or_destination r"
  shows "stored (os_kv (otp_ops c (replicate k (Op_continue 0 None)) s)) (os_now s) (r\<lparr>or_attempts := or_attempts r + 1\<rparr>)"
  using assms
proof (induction k arbitrary: s)
  case (Suc k)
  obtain t ts where p: "os_pending s = t # ts" using Suc.prems(2) by (cases "os_pending s") auto
  obtain code where t: "t = Ta_verify (or_purpose r) (or_destination r) code (Some r)"
      "hashOtp c (or_purpose r) (or_destination r) code \<noteq> or_codeHash r"
    using Suc.prems(1) p by (auto simp: wrong_task_def)
  note w = decide_wrong [OF Suc.prems(5) _ t(2), of "s\<lparr>os_pending := ts\<rparr>", simplified, OF Suc.prems(4)]
  have e: "snd (otp_do c (Op_continue 0 None) s) = s\<lparr>os_pending := ts, os_kv := otp_incrementAttempts (os_now s) r (os_kv s)\<rparr>"
    using w Suc.prems(6) by (simp add: p t(1) settle_def)
  let ?s = "s\<lparr>os_pending := ts, os_kv := otp_incrementAttempts (os_now s) r (os_kv s)\<rparr>"
  have ops: "otp_ops c (replicate (Suc k) (Op_continue 0 None)) s = otp_ops c (replicate k (Op_continue 0 None)) ?s"
    using e by (simp del: otp_do.simps)
  show ?case
  proof (cases "k = 0")
    case True
    have "stored (otp_incrementAttempts (os_now s) r (os_kv s)) (os_now s) (r\<lparr>or_attempts := or_attempts r + 1\<rparr>)"
      unfolding otp_incrementAttempts_def by (rule stored_save) (simp add: Suc.prems(7))
    then show ?thesis using True unfolding ops by simp
  next
    case False
    then show ?thesis using Suc.IH [of ?s] Suc.prems p unfolding ops by simp
  qed
qed simp

text \<open>C37: Wrong codes that are verified at once count as one: when any number of handlers read a new challenge before the first
  of them stores its attempt, each of their codes is compared with the right one, and the challenge ends with one attempt. The
  bound on attempts does not bound the codes tried.\<close>

theorem overlapping_guesses_count_once:
  assumes "otp_request c None i s = (Oa_requested res, s1)" and "parse_otp_request c i = Inr (d, ch, p)"
    and "os_issued s1 = (r, sent) # xs" and "os_pending s = []" "0 < oc_ttlMs c" "0 < oc_maxAttempts c"
    and "gs \<noteq> []" "\<forall>g\<in>set gs. wrong_guess c r g"
  defines "s2 \<equiv> otp_ops c (map Op_verify gs @ replicate (length gs) (Op_continue 0 None)) s1"
  shows "kv_read (os_kv s2) (os_now s) (otp_key p d) = Some (Ov_record (r\<lparr>or_attempts := 1\<rparr>))"
proof -
  note q = requested [OF assms(1-3)]
  have now: "os_now s1 < or_expiresAt r" using q(5,9) assms(5) by simp
  note rd = overlapping_reads [OF q(1) now assms(8)]
  have "stored (os_kv s2) (os_now s1) (r\<lparr>or_attempts := 1\<rparr>)"
    unfolding s2_def otp_ops_append
    using overlapping_decisions [of "otp_ops c (map Op_verify gs) s1" c r "length gs"] rd q assms(4,6,7) now by simp
  then show ?thesis using now q(5-7,9) by (simp add: stored_def otp_key_def)
qed

section \<open>A sample\<close>

definition sample_otp :: otp_config where
  "sample_otp = \<lparr>oc_hmac = (\<lambda>s t. t), oc_hashSecret = [], oc_digits = 4, oc_ttlMs = 60000, oc_maxAttempts = 2, oc_resendCooldownMs = 1000,
     oc_forceMock = True, oc_generate = (\<lambda>k n. ''4711''), oc_uuid = (\<lambda>k. replicate k (CHR ''x'')), oc_emailOk = (\<lambda>_. True)\<rparr>"

definition otp_empty :: otp_system where
  "otp_empty = \<lparr>os_kv = [], os_now = 0, os_drawn = 0, os_pending = [], os_issued = [], os_verified = []\<rparr>"

definition sample_ask :: otp_request_input where
  "sample_ask = \<lparr>qi_destination = ''A@b'', qi_channel = None, qi_purpose = None\<rparr>"

definition sample_guess :: "string \<Rightarrow> otp_verify_input" where
  "sample_guess code = \<lparr>vi_destination = ''a@b'', vi_purpose = None, vi_code = code\<rparr>"

definition sample_challenge :: otp_record where
  "sample_challenge = \<lparr>or_id = [], or_purpose = Otp_login, or_destination = ''a@b'', or_channel = Ch_email, or_codeHash = ''login:a@b:4711'',
     or_digits = 4, or_attempts = 0, or_maxAttempts = 2, or_expiresAt = 60000, or_consumedAt = None, or_createdAt = 0, or_lastSentAt = 0\<rparr>"

lemma sample_requested:
  "\<exists>res s1. otp_request sample_otp None sample_ask otp_empty = (Oa_requested res, s1) \<and> os_issued s1 = [(sample_challenge, ''4711'')]"
proof -
  let ?x = "otp_request sample_otp None sample_ask otp_empty"
  have "os_issued (snd ?x) = [(sample_challenge, ''4711'')] \<and> (case fst ?x of Oa_requested _ \<Rightarrow> True | _ \<Rightarrow> False)" by code_simp
  then show ?thesis by (cases ?x; cases "fst ?x") auto
qed

lemma sample_parsed: "parse_otp_request sample_otp sample_ask = Inr (''A@b'', Ch_email, Otp_login)"
  by code_simp

lemma sample_wrong: "wrong_guess sample_otp sample_challenge (sample_guess ''0000'') \<and> wrong_guess sample_otp sample_challenge (sample_guess ''0001'')"
proof -
  have "parse_otp_verify (sample_guess ''0000'') = Inr (''a@b'', Otp_login, ''0000'')" "parse_otp_verify (sample_guess ''0001'') = Inr (''a@b'', Otp_login, ''0001'')"
    by code_simp+
  moreover have "hashOtp sample_otp Otp_login ''a@b'' ''0000'' = ''login:a@b:0000''" "hashOtp sample_otp Otp_login ''a@b'' ''0001'' = ''login:a@b:0001''"
    "normalizeDestination ''a@b'' = ''a@b''"
    by code_simp+
  ultimately show ?thesis by (simp add: wrong_guess_def sample_challenge_def)
qed

theorem wrong_codes_lock_the_challenge_witness:
  "\<exists>res s1. otp_request sample_otp None sample_ask otp_empty = (Oa_requested res, s1) \<and>
     fst (otp_verify sample_otp (sample_guess ''4711'')
       ((guesses sample_otp [(1, sample_guess ''0000''), (2, sample_guess ''0001'')] s1)\<lparr>os_now := 3\<rparr>)) =
     Oa_error (AuthenticationError ''Too many incorrect OTP attempts'')"
proof -
  obtain res s1 where s: "otp_request sample_otp None sample_ask otp_empty = (Oa_requested res, s1)" "os_issued s1 = [(sample_challenge, ''4711'')]"
    using sample_requested by blast
  have "parse_otp_verify (sample_guess ''4711'') = Inr (''a@b'', Otp_login, ''4711'')" "normalizeDestination ''a@b'' = normalizeDestination ''A@b''"
    by code_simp+
  moreover have "os_now otp_empty = 0" "oc_ttlMs sample_otp = 60000" "oc_maxAttempts sample_otp = 2" by (simp_all add: otp_empty_def sample_otp_def)
  ultimately have "fst (otp_verify sample_otp (sample_guess ''4711'')
       ((guesses sample_otp [(1, sample_guess ''0000''), (2, sample_guess ''0001'')] s1)\<lparr>os_now := 3\<rparr>)) =
     Oa_error (AuthenticationError ''Too many incorrect OTP attempts'')"
    using sample_wrong by (intro wrong_codes_lock_the_challenge [OF s(1) sample_parsed s(2), where d' = "''a@b''" and code = "''4711''"]) simp_all
  then show ?thesis using s(1) by blast
qed

theorem overlapping_guesses_count_once_witness:
  "\<exists>res s1. otp_request sample_otp None sample_ask otp_empty = (Oa_requested res, s1) \<and>
     kv_read (os_kv (otp_ops sample_otp (map Op_verify (map sample_guess [''0000'', ''0001'', ''0000'']) @ replicate 3 (Op_continue 0 None)) s1)) 0
       (otp_key Otp_login ''A@b'') = Some (Ov_record (sample_challenge\<lparr>or_attempts := 1\<rparr>))"
proof -
  obtain res s1 where s: "otp_request sample_otp None sample_ask otp_empty = (Oa_requested res, s1)" "os_issued s1 = [(sample_challenge, ''4711'')]"
    using sample_requested by blast
  have f: "os_now otp_empty = 0" "os_pending otp_empty = []" "oc_ttlMs sample_otp = 60000" "oc_maxAttempts sample_otp = 2"
    by (simp_all add: otp_empty_def sample_otp_def)
  have "kv_read (os_kv (otp_ops sample_otp (map Op_verify (map sample_guess [''0000'', ''0001'', ''0000'']) @
      replicate (length (map sample_guess [''0000'', ''0001'', ''0000''])) (Op_continue 0 None)) s1)) (os_now otp_empty)
       (otp_key Otp_login ''A@b'') = Some (Ov_record (sample_challenge\<lparr>or_attempts := 1\<rparr>))"
    using sample_wrong f by (intro overlapping_guesses_count_once [OF s(1) sample_parsed s(2)]) simp_all
  then show ?thesis using s(1) f(1) by (simp add: numeral_3_eq_3)
qed

lemma otp_ops_steps: "(otp_step c)\<^sup>*\<^sup>* s (otp_ops c ops s)"
proof (induction ops arbitrary: s)
  case (Cons op ops)
  have "otp_step c s (snd (otp_do c op s))" using otp_step.intros [of s "os_now s" c op] by simp
  then show ?case using Cons [of "snd (otp_do c op s)"] by (simp add: converse_rtranclp_into_rtranclp)
qed simp

text \<open>Two verifications with the right code that both read the challenge: one is accepted.\<close>

theorem codes_are_accepted_once_witness:
  "\<exists>s. otp_reachable sample_otp s \<and> distinct (map fst (os_verified s)) \<and> length (os_verified s) = 1 \<and> length (os_pending s) = 0"
proof -
  let ?s = "otp_ops sample_otp ([Op_request sample_ask, Op_continue 0 None, Op_continue 0 None, Op_verify (sample_guess ''4711''),
      Op_verify (sample_guess '' 4711 '')] @ replicate 3 (Op_continue 0 None)) otp_empty"
  have "inj (oc_uuid sample_otp)" by (auto simp: sample_otp_def inj_def replicate_eq_replicate)
  moreover have "otp_start otp_empty" by (simp add: otp_start_def otp_empty_def)
  ultimately have r: "otp_reachable sample_otp ?s" using otp_ops_steps unfolding otp_reachable_def by blast
  have "length (os_verified ?s) = 1 \<and> length (os_pending ?s) = 0" by code_simp
  then show ?thesis using codes_are_accepted_once [OF r] r by blast
qed

section \<open>What the controller gives away\<close>

text \<open>For an address without an account the answer never changes; for one with an account a second request within the cooldown is
  refused. The two answers tell which addresses have accounts.\<close>

lemma cooldown_reveals_accounts:
  assumes "parse_otp_request c i = Inr (d, Ch_email, Otp_login)"
    and "fst (otp_get (os_now s) Otp_login (normalizeDestination d) (os_kv s)) = Some r" and "cooling c (os_now s) (Some r)"
  shows "has d \<Longrightarrow> fst (controller_requestOtp c (Some has) None i s) = Oa_error (RateLimitError ''Wait before requesting another code'')"
    and "\<not> has d \<Longrightarrow> fst (controller_requestOtp c (Some has) None i s) = Oa_requested (toRequestResult c Otp_login Ch_email (normalizeDestination d))"
proof -
  obtain m where g: "otp_get (os_now s) Otp_login (normalizeDestination d) (os_kv s) = (Some r, m)" using assms(2) by (metis prod.collapse)
  show "has d \<Longrightarrow> fst (controller_requestOtp c (Some has) None i s) = Oa_error (RateLimitError ''Wait before requesting another code'')"
    using assms g by (simp add: controller_requestOtp_def otp_request_def request_read_def request_create_def)
  show "\<not> has d \<Longrightarrow> fst (controller_requestOtp c (Some has) None i s) = Oa_requested (toRequestResult c Otp_login Ch_email (normalizeDestination d))"
    using assms(1) by (simp add: controller_requestOtp_def describeRequest_def)
qed

text \<open>A wrong code that was read before a new challenge and is stored after it brings the old challenge back: the new code is
  refused, the old one accepted.\<close>

definition sample_otp2 :: otp_config where
  "sample_otp2 = sample_otp\<lparr>oc_generate := (\<lambda>k n. if k = 0 then ''4711'' else ''0815'')\<rparr>"

definition sample_restored :: otp_system where
  "sample_restored = otp_ops sample_otp2 [Op_continue 1 None, Op_continue 0 None, Op_continue 0 None]
     (otp_ops sample_otp2 [Op_request sample_ask]
       ((otp_ops sample_otp2 [Op_request sample_ask, Op_continue 0 None, Op_continue 0 None, Op_verify (sample_guess ''0000'')] otp_empty)\<lparr>os_now := 2000\<rparr>))"

lemma stale_guess_restores_the_old_challenge:
  "map snd (os_issued sample_restored) = [''0815'', ''4711''] \<and>
   fst (otp_verify sample_otp2 (sample_guess ''0815'') sample_restored) = Oa_error (AuthenticationError ''Invalid or expired OTP'') \<and>
   fst (otp_verify sample_otp2 (sample_guess ''4711'') sample_restored) = Oa_verified Otp_login ''a@b''"
  by code_simp

end
