(* ===== verification/Platform_Jobs.thy ===== *)
theory Platform_Jobs
  imports Platform_Rbac
begin

text \<open>
  The in-memory job queue (\<open>InMemoryJobQueue\<close> of \<open>backend/src/jobs/queue.ts\<close>) with the statuses of its jobs, the
  decision to retry and the reading of a status. What a handler does with a job is the argument of the step that ends
  it: nothing, or the error it threw, a time-out included. The worker is idle, waits for a handler or waits before a retry; a
  step runs up to the next such wait. An enqueue is one step, and also, for overlapping calls, two: the test of the
  identifier and the rest. Times are milliseconds, read once per step.
\<close>

section \<open>Jobs and their statuses\<close>

datatype job_state = Js_queued | Js_processing | Js_completed | Js_failed | Js_retrying

record job =
  jb_id :: string
  jb_name :: string
  jb_attempts :: int
  jb_maxAttempts :: int
  jb_backoffMs :: int
  jb_timeoutMs :: int
  jb_retryable :: bool
  jb_createdAt :: int

record job_status =
  js_jobId :: string
  js_type :: string
  js_status :: job_state
  js_attempts :: int
  js_createdAt :: int
  js_startedAt :: "int option"
  js_completedAt :: "int option"
  js_error :: "string option"
  js_progress :: js_number
  js_createdBy :: "string option"

record job_options =
  jo_attempts :: "int option"
  jo_backoffMs :: "int option"
  jo_jobId :: "string option"
  jo_timeoutMs :: "int option"
  jo_retryable :: "bool option"
  jo_createdBy :: "string option"

definition createJobStatus :: "string \<Rightarrow> string \<Rightarrow> int \<Rightarrow> string option \<Rightarrow> job_status" where
  "createJobStatus i type createdAt createdBy = \<lparr>js_jobId = i, js_type = type, js_status = Js_queued, js_attempts = 0, js_createdAt = createdAt,
     js_startedAt = None, js_completedAt = None, js_error = None, js_progress = 0, js_createdBy = createdBy\<rparr>"

text \<open>The argument is \<open>None\<close> for a progress that is not finite.\<close>

definition clampProgress :: "js_number option \<Rightarrow> js_number" where
  "clampProgress p = (case p of None \<Rightarrow> 0 | Some x \<Rightarrow> max 0 (min 100 (math_round x)))"

definition resolveJobCreatedBy :: "string option \<Rightarrow> job_options \<Rightarrow> string option" where
  "resolveJobCreatedBy userId options =
     (let named = (\<lambda>v. case v of None \<Rightarrow> None | Some s \<Rightarrow> if js_trim s = [] then None else Some (js_trim s)) in
      case named (jo_createdBy options) of Some s \<Rightarrow> Some s | None \<Rightarrow> named userId)"

type_synonym job_table = "(string \<times> job_status) list"

definition status_put :: "job_status \<Rightarrow> job_table \<Rightarrow> job_table" where
  "status_put r m = upsert_by (\<lambda>p. fst p = js_jobId r) (js_jobId r, r) m"

definition status_patch :: "string \<Rightarrow> (job_status \<Rightarrow> job_status) \<Rightarrow> job_table \<Rightarrow> job_status option \<times> job_table" where
  "status_patch i f m = (case map_of m i of None \<Rightarrow> (None, m)
     | Some r \<Rightarrow> (Some (f r), status_put (f r) m))"

definition terminal :: "job_state \<Rightarrow> bool" where
  "terminal x \<longleftrightarrow> x = Js_completed \<or> x = Js_failed"

definition prunable :: "int \<Rightarrow> job_status \<Rightarrow> bool" where
  "prunable cutoff r \<longleftrightarrow> terminal (js_status r) \<and> (case js_completedAt r of None \<Rightarrow> js_createdAt r | Some t \<Rightarrow> t) \<le> cutoff"

definition status_prune :: "int \<Rightarrow> int \<Rightarrow> job_table \<Rightarrow> nat \<times> job_table" where
  "status_prune now maxAgeMs m =
     (length (filter (\<lambda>p. prunable (now - maxAgeMs) (snd p)) m), filter (\<lambda>p. \<not> prunable (now - maxAgeMs) (snd p)) m)"

section \<open>Errors and retries\<close>

text \<open>What a handler throws: an error of the platform, an \<open>UnretryableError\<close>, an object that says \<open>retryable: false\<close>, or a
  value that is no object.\<close>

datatype job_error = Je_app app_error | Je_unretryable string | Je_marked string | Je_value

definition isRetryableJobError :: "job_error \<Rightarrow> bool" where
  "isRetryableJobError e = (case e of
     Je_value \<Rightarrow> True | Je_unretryable _ \<Rightarrow> False | Je_marked _ \<Rightarrow> False
   | Je_app (ValidationError _) \<Rightarrow> False | Je_app (AuthenticationError _) \<Rightarrow> False | Je_app (AuthorizationError _) \<Rightarrow> False
   | Je_app (NotFoundError _) \<Rightarrow> False | Je_app (ConflictError _) \<Rightarrow> False | Je_app _ \<Rightarrow> True)"

definition shouldRetry :: "job \<Rightarrow> job_error \<Rightarrow> bool" where
  "shouldRetry j e = (if \<not> jb_retryable j \<or> jb_maxAttempts j \<le> jb_attempts j then False else isRetryableJobError e)"

definition backoffDelay :: "int \<Rightarrow> int \<Rightarrow> int" where
  "backoffDelay backoffMs attempt = (if backoffMs \<le> 0 \<or> attempt \<le> 0 then 0 else backoffMs * 2 ^ nat (attempt - 1))"

primrec app_message :: "app_error \<Rightarrow> string" where
  "app_message (ValidationError m) = m"
| "app_message (AuthenticationError m) = m"
| "app_message (AuthorizationError m) = m"
| "app_message (NotFoundError m) = m"
| "app_message (ConflictError m) = m"
| "app_message (RateLimitError m) = m"
| "app_message (ExternalServiceError m) = m"
| "app_message (DatabaseError m) = m"
| "app_message (TimeoutError m) = m"
| "app_message (InternalError m) = m"
| "app_message (Js_error m) = m"

record jobq_config =
  qc_attempts :: int
  qc_backoffMs :: int
  qc_timeoutMs :: int
  qc_uuid :: "nat \<Rightarrow> string"
  qc_sanitize :: "string \<Rightarrow> string"

definition publicJobError :: "jobq_config \<Rightarrow> job_error \<Rightarrow> string" where
  "publicJobError c e = qc_sanitize c (case e of Je_app a \<Rightarrow> app_message a | Je_unretryable m \<Rightarrow> m | Je_marked m \<Rightarrow> m | Je_value \<Rightarrow> ''Job failed'')"

section \<open>The queue\<close>

datatype worker = W_idle | W_running job | W_sleeping job

text \<open>\<open>jq_waiting\<close> counts the callers that wait for an idle queue, \<open>jq_released\<close> those whose wait has ended;
  \<open>jq_emitted\<close> is what the status listener was told.\<close>

record jobq =
  jq_handlers :: "string set"
  jq_pending :: "job list"
  jq_statuses :: job_table
  jq_worker :: worker
  jq_closed :: bool
  jq_waiting :: nat
  jq_released :: nat
  jq_drawn :: nat
  jq_emitted :: "job_status list"

definition jq_start :: jobq where
  "jq_start = \<lparr>jq_handlers = {}, jq_pending = [], jq_statuses = [], jq_worker = W_idle, jq_closed = False, jq_waiting = 0, jq_released = 0,
     jq_drawn = 0, jq_emitted = []\<rparr>"

definition patch_job :: "string \<Rightarrow> (job_status \<Rightarrow> job_status) \<Rightarrow> jobq \<Rightarrow> jobq" where
  "patch_job i f q = (case status_patch i f (jq_statuses q) of (r, m) \<Rightarrow>
     q\<lparr>jq_statuses := m, jq_emitted := jq_emitted q @ (case r of None \<Rightarrow> [] | Some x \<Rightarrow> [x])\<rparr>)"

definition run_job :: "int \<Rightarrow> job \<Rightarrow> jobq \<Rightarrow> jobq" where
  "run_job now j q = (let j' = j\<lparr>jb_attempts := jb_attempts j + 1\<rparr> in
     (patch_job (jb_id j') (\<lambda>r. r\<lparr>js_status := Js_processing, js_attempts := jb_attempts j', js_startedAt := Some now, js_progress := 0\<rparr>) q)
       \<lparr>jq_worker := W_running j'\<rparr>)"

text \<open>The loop of \<open>drain\<close> from its head: it stops at an empty list, which ends the waits, and at a job without a handler, which
  stays in front; otherwise it runs the first job.\<close>

definition drain_next :: "int \<Rightarrow> jobq \<Rightarrow> jobq" where
  "drain_next now q = (case jq_pending q of
     [] \<Rightarrow> q\<lparr>jq_worker := W_idle, jq_released := jq_released q + jq_waiting q, jq_waiting := 0\<rparr>
   | j # js \<Rightarrow> if jb_name j \<in> jq_handlers q then run_job now j (q\<lparr>jq_pending := js\<rparr>) else q\<lparr>jq_worker := W_idle\<rparr>)"

definition drain :: "int \<Rightarrow> jobq \<Rightarrow> jobq" where
  "drain now q = (if jq_worker q = W_idle then drain_next now q else q)"

text \<open>The end of a run: completed, or failed for good, or to be tried again after a wait.\<close>

definition finish_job :: "jobq_config \<Rightarrow> int \<Rightarrow> job_error option \<Rightarrow> job \<Rightarrow> jobq \<Rightarrow> jobq" where
  "finish_job c now failure j q = (case failure of
     None \<Rightarrow> drain_next now (patch_job (jb_id j)
       (\<lambda>r. r\<lparr>js_status := Js_completed, js_completedAt := Some now, js_progress := 100, js_error := None\<rparr>) q)
   | Some e \<Rightarrow>
       if shouldRetry j e
       then (patch_job (jb_id j) (\<lambda>r. r\<lparr>js_status := Js_retrying, js_error := Some (publicJobError c e)\<rparr>) q)\<lparr>jq_worker := W_sleeping j\<rparr>
       else drain_next now (patch_job (jb_id j)
         (\<lambda>r. r\<lparr>js_status := Js_failed, js_completedAt := Some now, js_error := Some (publicJobError c e)\<rparr>) q))"

definition wake_job :: "int \<Rightarrow> job \<Rightarrow> jobq \<Rightarrow> jobq" where
  "wake_job now j q = drain_next now (q\<lparr>jq_pending := jq_pending q @ [j]\<rparr>)"

datatype jq_answer = Ja_id string | Ja_error app_error | Ja_count nat | Ja_none

text \<open>The test of \<open>enqueue\<close>: an answer, or the job goes on.\<close>

definition enqueue_check :: "job_options \<Rightarrow> jobq \<Rightarrow> jq_answer option" where
  "enqueue_check options q =
     (if jq_closed q then Some (Ja_error (ExternalServiceError ''Job queue is closed''))
      else case jo_jobId options of None \<Rightarrow> None
        | Some i \<Rightarrow> if i = [] then None else case map_of (jq_statuses q) i of None \<Rightarrow> None
            | Some r \<Rightarrow> if js_status r \<noteq> Js_failed then Some (Ja_id i) else None)"

definition new_job :: "jobq_config \<Rightarrow> int \<Rightarrow> string \<Rightarrow> job_options \<Rightarrow> string \<Rightarrow> job" where
  "new_job c now name options i = (let retryable = (jo_retryable options \<noteq> Some False) in
     \<lparr>jb_id = i, jb_name = name, jb_attempts = 0,
      jb_maxAttempts = (if retryable then (case jo_attempts options of None \<Rightarrow> qc_attempts c | Some n \<Rightarrow> n) else 1),
      jb_backoffMs = (case jo_backoffMs options of None \<Rightarrow> qc_backoffMs c | Some n \<Rightarrow> n),
      jb_timeoutMs = (case jo_timeoutMs options of None \<Rightarrow> qc_timeoutMs c | Some n \<Rightarrow> n),
      jb_retryable = retryable, jb_createdAt = now\<rparr>)"

definition enqueue_put :: "jobq_config \<Rightarrow> int \<Rightarrow> string \<Rightarrow> string option \<Rightarrow> job_options \<Rightarrow> jobq \<Rightarrow> jq_answer \<times> jobq" where
  "enqueue_put c now name userId options q =
     (let i = (case jo_jobId options of Some i \<Rightarrow> i | None \<Rightarrow> qc_uuid c (jq_drawn q));
          n = (case jo_jobId options of Some _ \<Rightarrow> jq_drawn q | None \<Rightarrow> Suc (jq_drawn q));
          queued = createJobStatus i name now (resolveJobCreatedBy userId options) in
      (Ja_id i, drain now (q\<lparr>jq_drawn := n, jq_statuses := status_put queued (jq_statuses q), jq_emitted := jq_emitted q @ [queued],
         jq_pending := jq_pending q @ [new_job c now name options i]\<rparr>)))"

definition enqueue :: "jobq_config \<Rightarrow> int \<Rightarrow> string \<Rightarrow> string option \<Rightarrow> job_options \<Rightarrow> jobq \<Rightarrow> jq_answer \<times> jobq" where
  "enqueue c now name userId options q = (case enqueue_check options q of Some a \<Rightarrow> (a, q)
     | None \<Rightarrow> enqueue_put c now name userId options q)"

definition process_jobs :: "int \<Rightarrow> string \<Rightarrow> jobq \<Rightarrow> jobq" where
  "process_jobs now name q = drain now (q\<lparr>jq_handlers := insert name (jq_handlers q)\<rparr>)"

definition waitForIdle :: "jobq \<Rightarrow> jobq" where
  "waitForIdle q = (if jq_worker q = W_idle \<and> jq_pending q = [] then q\<lparr>jq_released := jq_released q + 1\<rparr>
     else q\<lparr>jq_waiting := jq_waiting q + 1\<rparr>)"

definition close_queue :: "jobq \<Rightarrow> jobq" where
  "close_queue q = waitForIdle (q\<lparr>jq_closed := True\<rparr>)"

definition updateProgress :: "string \<Rightarrow> js_number option \<Rightarrow> jobq \<Rightarrow> jobq" where
  "updateProgress i p q = patch_job i (\<lambda>r. r\<lparr>js_progress := clampProgress p\<rparr>) q"

section \<open>Steps\<close>

datatype jq_op =
    Jq_enqueue string "string option" job_options
  | Jq_process string
  | Jq_finish "job_error option"
  | Jq_wake
  | Jq_progress string "js_number option"
  | Jq_prune int
  | Jq_wait
  | Jq_close

fun jq_do :: "jobq_config \<Rightarrow> int \<Rightarrow> jq_op \<Rightarrow> jobq \<Rightarrow> jq_answer \<times> jobq" where
  "jq_do c now (Jq_enqueue name userId options) q = enqueue c now name userId options q"
| "jq_do c now (Jq_process name) q = (Ja_none, process_jobs now name q)"
| "jq_do c now (Jq_finish failure) q = (Ja_none, case jq_worker q of W_running j \<Rightarrow> finish_job c now failure j q | _ \<Rightarrow> q)"
| "jq_do c now Jq_wake q = (Ja_none, case jq_worker q of W_sleeping j \<Rightarrow> wake_job now j q | _ \<Rightarrow> q)"
| "jq_do c now (Jq_progress i p) q = (Ja_none, updateProgress i p q)"
| "jq_do c now (Jq_prune maxAgeMs) q = (case status_prune now maxAgeMs (jq_statuses q) of (n, m) \<Rightarrow> (Ja_count n, q\<lparr>jq_statuses := m\<rparr>))"
| "jq_do c now Jq_wait q = (Ja_none, waitForIdle q)"
| "jq_do c now Jq_close q = (Ja_none, close_queue q)"

text \<open>A given identifier is not empty and none of the random ones.\<close>

definition jq_op_ok :: "jobq_config \<Rightarrow> jq_op \<Rightarrow> bool" where
  "jq_op_ok c op = (case op of Jq_enqueue name userId options \<Rightarrow>
     (case jo_jobId options of None \<Rightarrow> True | Some i \<Rightarrow> i \<noteq> [] \<and> i \<notin> range (qc_uuid c)) | _ \<Rightarrow> True)"

inductive jq_step :: "jobq_config \<Rightarrow> jobq \<Rightarrow> jobq \<Rightarrow> bool" for c where
  jq_stepI: "jq_op_ok c op \<Longrightarrow> jq_step c q (snd (jq_do c now op q))"

definition jq_reachable :: "jobq_config \<Rightarrow> jobq \<Rightarrow> bool" where
  "jq_reachable c q \<longleftrightarrow> inj (qc_uuid c) \<and> (jq_step c)\<^sup>*\<^sup>* jq_start q"

section \<open>Reading a status\<close>

definition canReadJobStatus :: "job_status \<Rightarrow> string \<Rightarrow> string list \<Rightarrow> bool" where
  "canReadJobStatus r actor roles = (case js_createdBy r of None \<Rightarrow> True
     | Some i \<Rightarrow> i = [] \<or> i = actor \<or> ''admin'' \<in> set roles)"

record public_job_status =
  pj_jobId :: string
  pj_type :: string
  pj_status :: job_state
  pj_attempts :: int
  pj_createdAt :: int
  pj_startedAt :: "int option"
  pj_completedAt :: "int option"
  pj_error :: "string option"
  pj_progress :: js_number

definition toPublicJobStatus :: "jobq_config \<Rightarrow> job_status \<Rightarrow> public_job_status" where
  "toPublicJobStatus c r = \<lparr>pj_jobId = js_jobId r, pj_type = js_type r, pj_status = js_status r, pj_attempts = js_attempts r,
     pj_createdAt = js_createdAt r, pj_startedAt = js_startedAt r, pj_completedAt = js_completedAt r,
     pj_error = (case js_error r of None \<Rightarrow> None | Some e \<Rightarrow> if e = [] then None else Some (qc_sanitize c e)), pj_progress = js_progress r\<rparr>"

definition upper_letter :: "char \<Rightarrow> bool" where
  "upper_letter ch \<longleftrightarrow> 65 \<le> (of_char ch :: nat) \<and> (of_char ch :: nat) \<le> 90"

text \<open>\<open>jobIdSchema\<close>, on the trimmed text\<close>

definition job_id_ok :: "string \<Rightarrow> bool" where
  "job_id_ok s \<longleftrightarrow> 1 \<le> length s \<and> length s \<le> 128 \<and>
     list_all (\<lambda>ch. is_lower ch \<or> upper_letter ch \<or> is_digit ch \<or> ch \<in> set ''._:-'') s"

definition job_getById :: "jobq_config \<Rightarrow> string \<Rightarrow> string \<Rightarrow> string list \<Rightarrow> jobq \<Rightarrow> app_error + public_job_status" where
  "job_getById c i actor roles q =
     (if \<not> job_id_ok (js_trim i) then Inl (ValidationError ''Invalid request'')
      else case map_of (jq_statuses q) (js_trim i) of
        None \<Rightarrow> Inl (NotFoundError ''Job not found'')
      | Some r \<Rightarrow> if canReadJobStatus r actor roles then Inr (toPublicJobStatus c r) else Inl (NotFoundError ''Job not found''))"

section \<open>The invariant\<close>

definition current_jobs :: "jobq \<Rightarrow> job list" where
  "current_jobs q = (case jq_worker q of W_idle \<Rightarrow> [] | W_running j \<Rightarrow> [j] | W_sleeping j \<Rightarrow> [j]) @ jq_pending q"

definition status_is :: "job_table \<Rightarrow> job_state set \<Rightarrow> job \<Rightarrow> bool" where
  "status_is m S j \<longleftrightarrow> (\<exists>r. map_of m (jb_id j) = Some r \<and> js_status r \<in> S \<and> js_attempts r = jb_attempts j)"

text \<open>A waiting job was never tried or has a try left; a running one is within its tries.\<close>

definition waiting_ok :: "job_table \<Rightarrow> job \<Rightarrow> bool" where
  "waiting_ok m j \<longleftrightarrow> (if jb_attempts j = 0 then status_is m {Js_queued} j
     else 0 < jb_attempts j \<and> jb_attempts j < jb_maxAttempts j \<and> status_is m {Js_retrying} j)"

definition worker_ok :: "jobq \<Rightarrow> bool" where
  "worker_ok q \<longleftrightarrow> (case jq_worker q of
     W_idle \<Rightarrow> (case jq_pending q of [] \<Rightarrow> jq_waiting q = 0 | j # js \<Rightarrow> jb_name j \<notin> jq_handlers q)
   | W_running j \<Rightarrow> 0 < jb_attempts j \<and> jb_attempts j \<le> max 1 (jb_maxAttempts j) \<and> status_is (jq_statuses q) {Js_processing} j
   | W_sleeping j \<Rightarrow> 0 < jb_attempts j \<and> jb_attempts j < jb_maxAttempts j \<and> status_is (jq_statuses q) {Js_retrying} j)"

definition table_ok :: "job_table \<Rightarrow> bool" where
  "table_ok m \<longleftrightarrow> distinct (map fst m) \<and> (\<forall>(i, r)\<in>set m. js_jobId r = i)"

definition jq_ids :: "jobq_config \<Rightarrow> jobq \<Rightarrow> bool" where
  "jq_ids c q \<longleftrightarrow> (\<forall>i\<in>dom (map_of (jq_statuses q)). i \<notin> range (qc_uuid c) \<or> (\<exists>k<jq_drawn q. i = qc_uuid c k))"

definition jq_inv :: "jobq_config \<Rightarrow> jobq \<Rightarrow> bool" where
  "jq_inv c q \<longleftrightarrow> table_ok (jq_statuses q) \<and> distinct (map jb_id (current_jobs q)) \<and> (\<forall>j\<in>set (jq_pending q). waiting_ok (jq_statuses q) j) \<and>
     worker_ok q \<and> jq_ids c q \<and>
     (\<forall>i r. map_of (jq_statuses q) i = Some r \<longrightarrow> terminal (js_status r) \<or> i \<in> jb_id ` set (current_jobs q))"

text \<open>The transitions of a status.\<close>

definition JOB_TRANSITIONS :: "(job_state \<times> job_state) set" where
  "JOB_TRANSITIONS = {(Js_queued, Js_processing), (Js_processing, Js_completed), (Js_processing, Js_failed), (Js_processing, Js_retrying),
     (Js_retrying, Js_processing), (Js_failed, Js_queued)}"

definition status_move :: "job_status \<Rightarrow> job_status \<Rightarrow> bool" where
  "status_move r r' \<longleftrightarrow> (js_status r, js_status r') \<in> JOB_TRANSITIONS\<^sup>* \<and> (js_status r \<noteq> Js_failed \<longrightarrow> js_attempts r \<le> js_attempts r')"

definition status_moves :: "jobq \<Rightarrow> jobq \<Rightarrow> bool" where
  "status_moves q q' \<longleftrightarrow> (\<forall>i r r'. map_of (jq_statuses q) i = Some r \<longrightarrow> map_of (jq_statuses q') i = Some r' \<longrightarrow> status_move r r')"

lemma status_move_refl [simp]: "status_move r r"
  by (simp add: status_move_def)

lemma transitionI: "(a, b) \<in> JOB_TRANSITIONS \<Longrightarrow> (a, b) \<in> JOB_TRANSITIONS\<^sup>*"
  by simp

lemma transition_facts:
  "(Js_queued, Js_processing) \<in> JOB_TRANSITIONS\<^sup>*" "(Js_retrying, Js_processing) \<in> JOB_TRANSITIONS\<^sup>*"
  "(Js_processing, Js_completed) \<in> JOB_TRANSITIONS\<^sup>*" "(Js_processing, Js_failed) \<in> JOB_TRANSITIONS\<^sup>*"
  "(Js_processing, Js_retrying) \<in> JOB_TRANSITIONS\<^sup>*" "(Js_failed, Js_queued) \<in> JOB_TRANSITIONS\<^sup>*" "(Js_failed, Js_processing) \<in> JOB_TRANSITIONS\<^sup>*"
proof -
  have t: "(Js_failed, Js_queued) \<in> JOB_TRANSITIONS" "(Js_queued, Js_processing) \<in> JOB_TRANSITIONS" by (simp_all add: JOB_TRANSITIONS_def)
  show "(Js_failed, Js_processing) \<in> JOB_TRANSITIONS\<^sup>*" using rtrancl_into_rtrancl [OF transitionI [OF t(1)] t(2)] .
qed (rule transitionI, simp add: JOB_TRANSITIONS_def)+

lemma completed_is_final: "(Js_completed, x) \<in> JOB_TRANSITIONS\<^sup>* \<longleftrightarrow> x = Js_completed"
proof
  show "(Js_completed, x) \<in> JOB_TRANSITIONS\<^sup>* \<Longrightarrow> x = Js_completed"
    by (induction rule: rtrancl_induct) (auto simp: JOB_TRANSITIONS_def)
qed simp

section \<open>The table of statuses\<close>

lemma map_of_upsert_id: "map_of (upsert_by (\<lambda>p. fst p = k) (k, v) m) = (map_of m)(k \<mapsto> v)"
  by (induction m) auto

lemma put_lookup: "map_of (status_put r m) = (map_of m)(js_jobId r \<mapsto> r)"
  by (simp add: status_put_def map_of_upsert_id)

lemma put_ok: "table_ok m \<Longrightarrow> table_ok (status_put r m)"
  using distinct_upsert_key [of fst m "(js_jobId r, r)"] set_upsert_by [of "\<lambda>p. fst p = js_jobId r" "(js_jobId r, r)" m]
  by (auto simp: table_ok_def status_put_def)

lemma table_id: "table_ok m \<Longrightarrow> map_of m i = Some r \<Longrightarrow> js_jobId r = i"
  by (auto simp: table_ok_def dest: map_of_SomeD)

lemma patch_fields [simp]:
  "jq_handlers (patch_job i f q) = jq_handlers q" "jq_pending (patch_job i f q) = jq_pending q" "jq_worker (patch_job i f q) = jq_worker q"
  "jq_closed (patch_job i f q) = jq_closed q" "jq_waiting (patch_job i f q) = jq_waiting q" "jq_released (patch_job i f q) = jq_released q"
  "jq_drawn (patch_job i f q) = jq_drawn q"
  by (simp_all add: patch_job_def split: prod.split)

lemma patch_lookup:
  assumes "table_ok (jq_statuses q)" and "\<And>r. js_jobId (f r) = js_jobId r"
  shows "map_of (jq_statuses (patch_job i f q)) = (case map_of (jq_statuses q) i of None \<Rightarrow> map_of (jq_statuses q)
      | Some r \<Rightarrow> (map_of (jq_statuses q))(i \<mapsto> f r))"
    and "table_ok (jq_statuses (patch_job i f q))"
proof -
  have t: "jq_statuses (patch_job i f q) = (case map_of (jq_statuses q) i of None \<Rightarrow> jq_statuses q | Some r \<Rightarrow> status_put (f r) (jq_statuses q))"
    by (simp add: patch_job_def status_patch_def split: option.split)
  show "map_of (jq_statuses (patch_job i f q)) = (case map_of (jq_statuses q) i of None \<Rightarrow> map_of (jq_statuses q)
      | Some r \<Rightarrow> (map_of (jq_statuses q))(i \<mapsto> f r))"
    using table_id [OF assms(1)] assms(2) by (cases "map_of (jq_statuses q) i") (simp_all add: t put_lookup)
  show "table_ok (jq_statuses (patch_job i f q))"
    using assms(1) put_ok by (cases "map_of (jq_statuses q) i") (simp_all add: t)
qed

lemma status_is_frame: "map_of m' (jb_id j) = map_of m (jb_id j) \<Longrightarrow> status_is m' S j = status_is m S j"
  by (simp add: status_is_def)

lemma waiting_ok_frame:
  assumes "map_of m' (jb_id j) = map_of m (jb_id j)"
  shows "waiting_ok m' j = waiting_ok m j"
  unfolding waiting_ok_def status_is_frame [OF assms] ..

lemma status_is_mono: "status_is m S j \<Longrightarrow> S \<subseteq> T \<Longrightarrow> status_is m T j"
  unfolding status_is_def by blast

lemma waiting_status: "waiting_ok m j \<Longrightarrow> status_is m {Js_queued, Js_retrying} j"
  unfolding waiting_ok_def by (rule status_is_mono [of m "if jb_attempts j = 0 then {Js_queued} else {Js_retrying}"]) (simp_all split: if_splits)

text \<open>The invariant without the worker: every job that is not pending has ended.\<close>

definition pending_inv :: "jobq_config \<Rightarrow> jobq \<Rightarrow> bool" where
  "pending_inv c q \<longleftrightarrow> table_ok (jq_statuses q) \<and> distinct (map jb_id (jq_pending q)) \<and> (\<forall>j\<in>set (jq_pending q). waiting_ok (jq_statuses q) j) \<and>
     jq_ids c q \<and> (\<forall>i r. map_of (jq_statuses q) i = Some r \<longrightarrow> terminal (js_status r) \<or> i \<in> jb_id ` set (jq_pending q))"

definition starts_one :: "jobq \<Rightarrow> jobq \<Rightarrow> bool" where
  "starts_one q q' \<longleftrightarrow> (\<forall>i r r'. map_of (jq_statuses q) i = Some r \<longrightarrow> map_of (jq_statuses q') i = Some r' \<longrightarrow>
     r' = r \<or> i \<in> jb_id ` set (jq_pending q) \<and> (js_status r = Js_queued \<or> js_status r = Js_retrying) \<and> js_status r' = Js_processing \<and>
       js_attempts r' = js_attempts r + 1)"

lemma run_job_inv:
  assumes inv: "pending_inv c q" and p: "jq_pending q = j # js"
  shows "jq_inv c (run_job now j (q\<lparr>jq_pending := js\<rparr>)) \<and> starts_one q (run_job now j (q\<lparr>jq_pending := js\<rparr>))"
proof -
  let ?m = "jq_statuses q"
  have tab: "table_ok ?m" using inv by (simp add: pending_inv_def)
  have w: "waiting_ok ?m j" using inv p by (simp add: pending_inv_def)
  then obtain r where r: "map_of ?m (jb_id j) = Some r" "js_status r \<in> {Js_queued, Js_retrying}" "js_attempts r = jb_attempts j"
    using waiting_status unfolding status_is_def by blast
  have att: "0 \<le> jb_attempts j" "jb_attempts j = 0 \<or> jb_attempts j < jb_maxAttempts j" using w by (auto simp: waiting_ok_def split: if_splits)
  let ?j = "j\<lparr>jb_attempts := jb_attempts j + 1\<rparr>"
  let ?f = "\<lambda>r. r\<lparr>js_status := Js_processing, js_attempts := jb_attempts ?j, js_startedAt := Some now, js_progress := 0\<rparr>"
  define q' where "q' = run_job now j (q\<lparr>jq_pending := js\<rparr>)"
  have q': "jq_pending q' = js" "jq_worker q' = W_running ?j" "jq_drawn q' = jq_drawn q"
    by (simp_all add: q'_def run_job_def Let_def)
  have e: "jq_statuses q' = jq_statuses (patch_job (jb_id j) ?f (q\<lparr>jq_pending := js\<rparr>))" by (simp add: q'_def run_job_def Let_def)
  have l: "map_of (jq_statuses q') = (map_of ?m)(jb_id j \<mapsto> ?f r)" "table_ok (jq_statuses q')"
    using patch_lookup [of "q\<lparr>jq_pending := js\<rparr>" ?f "jb_id j"] tab r(1) unfolding e by simp_all
  have dist: "distinct (map jb_id (j # js))" using inv p by (simp add: pending_inv_def)
  have "\<forall>k\<in>set js. waiting_ok (jq_statuses q') k"
  proof
    fix k assume k: "k \<in> set js"
    moreover have "jb_id j \<notin> jb_id ` set js" using dist by simp
    ultimately have "jb_id k \<noteq> jb_id j" by (metis image_eqI)
    then have eq: "map_of (jq_statuses q') (jb_id k) = map_of ?m (jb_id k)" by (simp add: l(1))
    show "waiting_ok (jq_statuses q') k" unfolding waiting_ok_frame [OF eq] using inv p k by (simp add: pending_inv_def)
  qed
  moreover have "jb_attempts j + 1 \<le> max 1 (jb_maxAttempts j)" using att by (auto simp: max_def)
  then have "worker_ok q'" using att l(1) by (simp add: worker_ok_def q' status_is_def)
  moreover have "jq_ids c q'"
    using inv r(1) by (auto simp: jq_ids_def pending_inv_def l(1) q'(3))
  moreover have "\<forall>i s. map_of (jq_statuses q') i = Some s \<longrightarrow> terminal (js_status s) \<or> i \<in> jb_id ` set (current_jobs q')"
    using inv p unfolding pending_inv_def by (auto simp: l(1) current_jobs_def q')
  ultimately have "jq_inv c q'" using l(2) dist unfolding jq_inv_def by (simp add: current_jobs_def q')
  moreover have "starts_one q q'"
    using r p by (auto simp: starts_one_def l(1))
  ultimately show ?thesis by (simp add: q'_def)
qed

lemma drain_next_inv:
  assumes "pending_inv c q"
  shows "jq_inv c (drain_next now q) \<and> starts_one q (drain_next now q)"
proof (cases "jq_pending q")
  case Nil
  then show ?thesis
    using assms by (simp add: drain_next_def jq_inv_def pending_inv_def current_jobs_def worker_ok_def starts_one_def jq_ids_def)
next
  case (Cons j js)
  then show ?thesis
    using assms run_job_inv [OF assms Cons]
    by (simp add: drain_next_def jq_inv_def pending_inv_def current_jobs_def worker_ok_def starts_one_def jq_ids_def)
qed

section \<open>Every step keeps the invariant\<close>

lemma starts_moves: "starts_one q q' \<Longrightarrow> status_moves q q'"
proof -
  assume s: "starts_one q q'"
  have "status_move r r'" if "map_of (jq_statuses q) i = Some r" "map_of (jq_statuses q') i = Some r'" for i r r'
  proof -
    have "r' = r \<or> (js_status r = Js_queued \<or> js_status r = Js_retrying) \<and> js_status r' = Js_processing \<and> js_attempts r' = js_attempts r + 1"
      using s that unfolding starts_one_def by blast
    then show ?thesis using transition_facts(1,2) by (auto simp: status_move_def)
  qed
  then show ?thesis unfolding status_moves_def by blast
qed

lemma idle_pending: "jq_inv c q \<Longrightarrow> jq_worker q = W_idle \<Longrightarrow> pending_inv c q"
  by (simp add: jq_inv_def pending_inv_def current_jobs_def)

lemma pending_fields:
  assumes "pending_inv c q" and "jq_statuses q' = jq_statuses q" "jq_pending q' = jq_pending q" "jq_drawn q' = jq_drawn q"
  shows "pending_inv c q'"
  using assms by (simp add: pending_inv_def jq_ids_def)

lemma ids_sub: "jq_ids c q \<Longrightarrow> dom (map_of (jq_statuses q')) \<subseteq> dom (map_of (jq_statuses q)) \<Longrightarrow> jq_drawn q' = jq_drawn q \<Longrightarrow> jq_ids c q'"
  unfolding jq_ids_def by (metis subsetD)

lemma ids_patch:
  assumes "jq_ids c q" and "table_ok (jq_statuses q)" and "\<And>r. js_jobId (f r) = js_jobId r"
  shows "jq_ids c (patch_job i f q)"
proof -
  have "dom (map_of (jq_statuses (patch_job i f q))) = dom (map_of (jq_statuses q))"
    using patch_lookup(1) [OF assms(2,3)] by (auto split: option.splits)
  then show ?thesis using assms(1) by (simp add: jq_ids_def)
qed

text \<open>A patch of the job in work, which is not pending, leaves the pending jobs alone.\<close>

lemma patch_current:
  assumes inv: "jq_inv c q" and w: "jq_worker q = W_running j \<or> jq_worker q = W_sleeping j" and f: "\<And>r. js_jobId (f r) = js_jobId r"
  obtains r where "map_of (jq_statuses q) (jb_id j) = Some r" and "js_attempts r = jb_attempts j"
    and "map_of (jq_statuses (patch_job (jb_id j) f q)) = (map_of (jq_statuses q))(jb_id j \<mapsto> f r)"
    and "table_ok (jq_statuses (patch_job (jb_id j) f q))" and "jq_ids c (patch_job (jb_id j) f q)"
    and "\<forall>k\<in>set (jq_pending q). jb_id k \<noteq> jb_id j \<and> waiting_ok (jq_statuses (patch_job (jb_id j) f q)) k"
    and "distinct (map jb_id (jq_pending q))"
    and "\<And>i s. map_of (jq_statuses q) i = Some s \<Longrightarrow> i \<noteq> jb_id j \<Longrightarrow> terminal (js_status s) \<or> i \<in> jb_id ` set (jq_pending q)"
proof -
  let ?m = "jq_statuses q"
  have cj: "current_jobs q = j # jq_pending q" using w by (auto simp: current_jobs_def)
  have tab: "table_ok ?m" and ids: "jq_ids c q" and dist: "distinct (jb_id j # map jb_id (jq_pending q))" and wk: "worker_ok q"
    and pend: "\<forall>k\<in>set (jq_pending q). waiting_ok ?m k"
    and rest: "\<forall>i r. map_of ?m i = Some r \<longrightarrow> terminal (js_status r) \<or> i \<in> insert (jb_id j) (jb_id ` set (jq_pending q))"
    using inv unfolding jq_inv_def cj by simp_all
  obtain r where r: "map_of ?m (jb_id j) = Some r" "js_attempts r = jb_attempts j"
    using wk w by (auto simp: worker_ok_def status_is_def)
  have l: "map_of (jq_statuses (patch_job (jb_id j) f q)) = (map_of ?m)(jb_id j \<mapsto> f r)" "table_ok (jq_statuses (patch_job (jb_id j) f q))"
    using patch_lookup [OF tab f, of "jb_id j"] r(1) by simp_all
  have "jb_id k \<noteq> jb_id j \<and> waiting_ok (jq_statuses (patch_job (jb_id j) f q)) k" if k: "k \<in> set (jq_pending q)" for k
  proof -
    have "jb_id j \<notin> jb_id ` set (jq_pending q)" using dist by simp
    then have n: "jb_id k \<noteq> jb_id j" using k by (metis image_eqI)
    then have eq: "map_of (jq_statuses (patch_job (jb_id j) f q)) (jb_id k) = map_of ?m (jb_id k)" by (simp add: l(1))
    show ?thesis unfolding waiting_ok_frame [OF eq] using n pend k by simp
  qed
  then show thesis using that [OF r l ids_patch [OF ids tab f]] dist rest by auto
qed

lemma finish_pending:
  assumes inv: "jq_inv c q" and w: "jq_worker q = W_running j" and f: "\<And>r. js_jobId (f r) = js_jobId r" "\<And>r. terminal (js_status (f r))"
  shows "pending_inv c (patch_job (jb_id j) f q)"
proof -
  obtain r where r: "map_of (jq_statuses q) (jb_id j) = Some r" "js_attempts r = jb_attempts j"
    "map_of (jq_statuses (patch_job (jb_id j) f q)) = (map_of (jq_statuses q))(jb_id j \<mapsto> f r)"
    "table_ok (jq_statuses (patch_job (jb_id j) f q))" "jq_ids c (patch_job (jb_id j) f q)"
    "\<forall>k\<in>set (jq_pending q). jb_id k \<noteq> jb_id j \<and> waiting_ok (jq_statuses (patch_job (jb_id j) f q)) k"
    "distinct (map jb_id (jq_pending q))"
    "\<And>i s. map_of (jq_statuses q) i = Some s \<Longrightarrow> i \<noteq> jb_id j \<Longrightarrow> terminal (js_status s) \<or> i \<in> jb_id ` set (jq_pending q)"
    using patch_current [OF inv disjI1 [OF w] f(1)] by blast
  then show ?thesis using f(2) by (auto simp: pending_inv_def r(3) split: if_splits)
qed

lemma finish_inv:
  assumes inv: "jq_inv c q" and w: "jq_worker q = W_running j"
  shows "jq_inv c (finish_job c now failure j q) \<and> status_moves q (finish_job c now failure j q)"
proof -
  have proc: "status_is (jq_statuses q) {Js_processing} j" and att: "0 < jb_attempts j"
    using inv w by (simp_all add: jq_inv_def worker_ok_def)
  have ends: "jq_inv c (drain_next now (patch_job (jb_id j) f q)) \<and> status_moves q (drain_next now (patch_job (jb_id j) f q))"
    if f: "\<And>r. js_jobId (f r) = js_jobId r" "\<And>r. terminal (js_status (f r))" "\<And>r. js_attempts (f r) = js_attempts r" for f
  proof -
    obtain r where r: "map_of (jq_statuses q) (jb_id j) = Some r" "js_attempts r = jb_attempts j"
      "map_of (jq_statuses (patch_job (jb_id j) f q)) = (map_of (jq_statuses q))(jb_id j \<mapsto> f r)"
      "table_ok (jq_statuses (patch_job (jb_id j) f q))" "jq_ids c (patch_job (jb_id j) f q)"
      "\<forall>k\<in>set (jq_pending q). jb_id k \<noteq> jb_id j \<and> waiting_ok (jq_statuses (patch_job (jb_id j) f q)) k"
      "distinct (map jb_id (jq_pending q))"
      "\<And>i s. map_of (jq_statuses q) i = Some s \<Longrightarrow> i \<noteq> jb_id j \<Longrightarrow> terminal (js_status s) \<or> i \<in> jb_id ` set (jq_pending q)"
      using patch_current [OF inv disjI1 [OF w] f(1)] by blast
    note d = drain_next_inv [OF finish_pending [OF inv w f(1,2)], of now]
    have "status_move s s'" if s: "map_of (jq_statuses q) i = Some s" and s': "map_of (jq_statuses (drain_next now (patch_job (jb_id j) f q))) i = Some s'" for i s s'
    proof (cases "i = jb_id j")
      case True
      have "map_of (jq_statuses (patch_job (jb_id j) f q)) i = Some (f r)" by (simp add: r(3) True)
      moreover have "i \<notin> jb_id ` set (jq_pending q)" using r(6) True by auto
      ultimately have "s' = f r" using d s' unfolding starts_one_def by force
      moreover have "s = r" "js_status r = Js_processing" using s r(1) True proc by (auto simp: status_is_def)
      ultimately show ?thesis using f(2) [of r] f(3) transition_facts(3,4) by (auto simp: status_move_def terminal_def)
    next
      case False
      then have "map_of (jq_statuses (patch_job (jb_id j) f q)) i = Some s" using s by (simp add: r(3))
      then show ?thesis using starts_moves [OF conjunct2 [OF d]] s' unfolding status_moves_def by blast
    qed
    then show ?thesis using d unfolding status_moves_def by blast
  qed
  have retries: "jq_inv c ((patch_job (jb_id j) f q)\<lparr>jq_worker := W_sleeping j\<rparr>) \<and> status_moves q ((patch_job (jb_id j) f q)\<lparr>jq_worker := W_sleeping j\<rparr>)"
    if f: "\<And>r. js_jobId (f r) = js_jobId r" "\<And>r. js_status (f r) = Js_retrying" "\<And>r. js_attempts (f r) = js_attempts r"
      and a: "jb_attempts j < jb_maxAttempts j" for f
  proof -
    obtain r where r: "map_of (jq_statuses q) (jb_id j) = Some r" "js_attempts r = jb_attempts j"
      "map_of (jq_statuses (patch_job (jb_id j) f q)) = (map_of (jq_statuses q))(jb_id j \<mapsto> f r)"
      "table_ok (jq_statuses (patch_job (jb_id j) f q))" "jq_ids c (patch_job (jb_id j) f q)"
      "\<forall>k\<in>set (jq_pending q). jb_id k \<noteq> jb_id j \<and> waiting_ok (jq_statuses (patch_job (jb_id j) f q)) k"
      "distinct (map jb_id (jq_pending q))"
      "\<And>i s. map_of (jq_statuses q) i = Some s \<Longrightarrow> i \<noteq> jb_id j \<Longrightarrow> terminal (js_status s) \<or> i \<in> jb_id ` set (jq_pending q)"
      using patch_current [OF inv disjI1 [OF w] f(1)] by blast
    let ?q = "(patch_job (jb_id j) f q)\<lparr>jq_worker := W_sleeping j\<rparr>"
    have "worker_ok ?q" using a att f r(2) by (simp add: worker_ok_def status_is_def r(3))
    moreover have "jq_ids c ?q" using r(5) by (simp add: jq_ids_def)
    moreover have "jb_id j \<notin> jb_id ` set (jq_pending q)" using r(6) by auto
    ultimately have "jq_inv c ?q" using r(4,6-8) by (auto simp: jq_inv_def current_jobs_def r(3) split: if_splits)
    moreover have "status_moves q ?q"
      using r(1) proc f transition_facts(5) by (auto simp: status_moves_def r(3) status_move_def status_is_def)
    ultimately show ?thesis ..
  qed
  show ?thesis
  proof (cases failure)
    case None
    then show ?thesis using ends by (simp add: finish_job_def terminal_def)
  next
    case (Some e)
    then show ?thesis using ends retries by (simp add: finish_job_def terminal_def shouldRetry_def split: if_splits)
  qed
qed

lemma wake_inv:
  assumes inv: "jq_inv c q" and w: "jq_worker q = W_sleeping j"
  shows "jq_inv c (wake_job now j q) \<and> status_moves q (wake_job now j q)"
proof -
  let ?q = "q\<lparr>jq_pending := jq_pending q @ [j]\<rparr>"
  have cj: "current_jobs q = j # jq_pending q" using w by (simp add: current_jobs_def)
  have "waiting_ok (jq_statuses q) j" using inv w by (auto simp: jq_inv_def worker_ok_def waiting_ok_def)
  then have "pending_inv c ?q" using inv unfolding jq_inv_def cj by (simp add: pending_inv_def jq_ids_def)
  note d = drain_next_inv [OF this, of now]
  have "status_moves ?q (drain_next now ?q)" using d starts_moves by blast
  then show ?thesis using d by (simp add: wake_job_def status_moves_def)
qed

lemma drain_inv:
  assumes "if jq_worker q = W_idle then pending_inv c q else jq_inv c q"
  shows "jq_inv c (drain now q) \<and> status_moves q (drain now q)"
  using assms drain_next_inv [of c q now] starts_moves by (auto simp: drain_def status_moves_def split: if_splits)

text \<open>The handlers and the waits concern the idle worker only.\<close>

lemma process_inv:
  assumes "jq_inv c q"
  shows "jq_inv c (process_jobs now name q) \<and> status_moves q (process_jobs now name q)"
proof -
  let ?q = "q\<lparr>jq_handlers := insert name (jq_handlers q)\<rparr>"
  have "if jq_worker ?q = W_idle then pending_inv c ?q else jq_inv c ?q"
    using idle_pending [OF assms] assms pending_fields [of c q ?q]
    by (auto simp: jq_inv_def current_jobs_def worker_ok_def jq_ids_def split: worker.splits)
  from drain_inv [OF this] show ?thesis by (simp add: process_jobs_def status_moves_def)
qed

lemma wait_inv:
  assumes "jq_inv c q"
  shows "jq_inv c (waitForIdle (q\<lparr>jq_closed := b\<rparr>))"
  using assms by (auto simp: waitForIdle_def jq_inv_def current_jobs_def worker_ok_def jq_ids_def split: worker.splits list.splits)

lemma current_open:
  assumes "jq_inv c q" and "i \<in> jb_id ` set (current_jobs q)"
  obtains r where "map_of (jq_statuses q) i = Some r" "\<not> terminal (js_status r)"
proof -
  have "\<exists>S. S \<subseteq> {Js_queued, Js_processing, Js_retrying} \<and> status_is (jq_statuses q) S k" if k: "k \<in> set (current_jobs q)" for k
  proof (cases "k \<in> set (jq_pending q)")
    case True
    then have "waiting_ok (jq_statuses q) k" using assms(1) by (simp add: jq_inv_def)
    note waiting_status [OF this]
    then show ?thesis by (intro exI [of _ "{Js_queued, Js_retrying}"]) simp
  next
    case False
    then have "jq_worker q = W_running k \<or> jq_worker q = W_sleeping k" using k by (auto simp: current_jobs_def split: worker.splits)
    then show ?thesis using assms(1) by (auto simp: jq_inv_def worker_ok_def)
  qed
  then show thesis using that assms(2) unfolding status_is_def terminal_def by fastforce
qed

lemma current_status:
  assumes "jq_inv c q" and "k \<in> set (current_jobs q)"
  obtains r where "map_of (jq_statuses q) (jb_id k) = Some r" "\<not> terminal (js_status r)"
  using current_open [OF assms(1), of "jb_id k"] assms(2) by blast

text \<open>An identifier that passed the test is not that of a job in the queue.\<close>

lemma enqueue_inv:
  assumes inv: "jq_inv c q" and uuid: "inj (qc_uuid c)" and ok: "jq_op_ok c (Jq_enqueue name userId options)"
  shows "jq_inv c (snd (enqueue c now name userId options q)) \<and> status_moves q (snd (enqueue c now name userId options q))"
proof (cases "enqueue_check options q")
  case None
  define i where "i = (case jo_jobId options of Some i \<Rightarrow> i | None \<Rightarrow> qc_uuid c (jq_drawn q))"
  define n where "n = (case jo_jobId options of Some _ \<Rightarrow> jq_drawn q | None \<Rightarrow> Suc (jq_drawn q))"
  define queued where "queued = createJobStatus i name now (resolveJobCreatedBy userId options)"
  define q1 where "q1 = q\<lparr>jq_drawn := n, jq_statuses := status_put queued (jq_statuses q), jq_emitted := jq_emitted q @ [queued],
      jq_pending := jq_pending q @ [new_job c now name options i]\<rparr>"
  have e: "snd (enqueue c now name userId options q) = drain now q1"
    using None by (simp add: enqueue_def enqueue_put_def Let_def i_def n_def queued_def q1_def)
  have ids: "jq_ids c q" using inv by (simp add: jq_inv_def)
  have old: "js_status r = Js_failed" if "map_of (jq_statuses q) i = Some r" for r
  proof (cases "jo_jobId options")
    case None
    then have "i = qc_uuid c (jq_drawn q)" by (simp add: i_def)
    moreover have "i \<in> dom (map_of (jq_statuses q))" "i \<in> range (qc_uuid c)" using that calculation by auto
    then obtain k where "k < jq_drawn q" "i = qc_uuid c k" using ids unfolding jq_ids_def by metis
    ultimately show ?thesis using injD [OF uuid, of k "jq_drawn q"] by simp
  next
    case (Some x)
    then have "i = x" "x \<noteq> []" using ok by (simp_all add: i_def jq_op_ok_def)
    then show ?thesis using None Some that by (simp add: enqueue_check_def split: if_splits)
  qed
  have new: "i \<notin> jb_id ` set (current_jobs q)"
  proof
    assume "i \<in> jb_id ` set (current_jobs q)"
    then obtain r where "map_of (jq_statuses q) i = Some r" "\<not> terminal (js_status r)" using current_open [OF inv] by blast
    then show False using old by (simp add: terminal_def)
  qed
  have l: "map_of (jq_statuses q1) = (map_of (jq_statuses q))(i \<mapsto> queued)" "table_ok (jq_statuses q1)"
    using inv put_lookup put_ok by (simp_all add: q1_def queued_def createJobStatus_def jq_inv_def)
  let ?j = "new_job c now name options i"
  have jid: "jb_id ?j = i" "jb_attempts ?j = 0" by (simp_all add: new_job_def Let_def)
  have frame: "map_of (jq_statuses q1) (jb_id k) = map_of (jq_statuses q) (jb_id k)" if "k \<in> set (current_jobs q)" for k
  proof -
    have "jb_id k \<noteq> i" using new that by (metis image_eqI)
    then show ?thesis by (simp add: l(1))
  qed
  have pend: "set (jq_pending q) \<subseteq> set (current_jobs q)" by (simp add: current_jobs_def)
  have waits: "waiting_ok (jq_statuses q1) k" if "k \<in> set (jq_pending q1)" for k
  proof (cases "k \<in> set (jq_pending q)")
    case True
    then have "map_of (jq_statuses q1) (jb_id k) = map_of (jq_statuses q) (jb_id k)" using frame pend by blast
    note waiting_ok_frame [OF this]
    then show ?thesis using inv True by (simp add: jq_inv_def)
  next
    case False
    then have "k = ?j" using that by (simp add: q1_def)
    then show ?thesis using jid by (simp add: waiting_ok_def status_is_def l(1) queued_def createJobStatus_def)
  qed
  have ids1: "jq_ids c q1"
  proof -
    have "i \<notin> range (qc_uuid c) \<or> (\<exists>k<n. i = qc_uuid c k)" using ok by (auto simp: i_def n_def jq_op_ok_def split: option.splits)
    moreover have "jq_drawn q \<le> n" by (simp add: n_def split: option.split)
    moreover have "x \<in> dom (map_of (jq_statuses q))" if "x \<in> dom (map_of (jq_statuses q1))" "x \<noteq> i" for x
      using that by (simp add: l(1))
    moreover have "jq_drawn q1 = n" by (simp add: q1_def)
    ultimately show ?thesis using ids unfolding jq_ids_def by (metis less_le_trans)
  qed
  have cur: "current_jobs q1 = current_jobs q @ [?j]" by (simp add: current_jobs_def q1_def)
  have dist: "distinct (map jb_id (current_jobs q1))" using inv new jid by (simp add: cur jq_inv_def)
  have rest: "terminal (js_status r) \<or> x \<in> jb_id ` set (current_jobs q1)" if "map_of (jq_statuses q1) x = Some r" for x r
    using inv that jid by (auto simp: cur jq_inv_def l(1) split: if_splits)
  have "if jq_worker q1 = W_idle then pending_inv c q1 else jq_inv c q1"
  proof (cases "jq_worker q1 = W_idle")
    case True
    then have "current_jobs q1 = jq_pending q1" by (simp add: current_jobs_def)
    then show ?thesis using True l(2) dist waits ids1 rest by (simp add: pending_inv_def)
  next
    case False
    have "status_is (jq_statuses q1) S k = status_is (jq_statuses q) S k" if "k \<in> set (current_jobs q)" for S k
      by (rule status_is_frame [OF frame [OF that]])
    note same = this
    have wk: "worker_ok q" and wq: "jq_worker q1 = jq_worker q" using inv by (simp_all add: jq_inv_def q1_def)
    have "worker_ok q1"
    proof (cases "jq_worker q")
      case (W_running k)
      then have "k \<in> set (current_jobs q)" by (simp add: current_jobs_def)
      note same [OF this]
      then show ?thesis using wk W_running wq by (simp add: worker_ok_def)
    next
      case (W_sleeping k)
      then have "k \<in> set (current_jobs q)" by (simp add: current_jobs_def)
      note same [OF this]
      then show ?thesis using wk W_sleeping wq by (simp add: worker_ok_def)
    qed (use False wq in simp)
    then show ?thesis using False l(2) dist waits ids1 rest by (simp add: jq_inv_def)
  qed
  note d = drain_inv [OF this, of now]
  have "status_move s s'" if s: "map_of (jq_statuses q) x = Some s" and s': "map_of (jq_statuses (drain now q1)) x = Some s'" for x s s'
  proof (cases "x = i")
    case True
    then have "js_status s = Js_failed" using s old by simp
    moreover have "map_of (jq_statuses q1) i = Some queued" by (simp add: l(1))
    then have "status_move queued s'" using d s' True unfolding status_moves_def by blast
    moreover have "js_status queued = Js_queued" by (simp add: queued_def createJobStatus_def)
    ultimately show ?thesis using transition_facts(6) unfolding status_move_def by (metis rtrancl_trans)
  next
    case False
    then have "map_of (jq_statuses q1) x = Some s" using s by (simp add: l(1))
    then show ?thesis using d s' unfolding status_moves_def by blast
  qed
  then show ?thesis using d unfolding e status_moves_def by blast
qed (use inv in \<open>simp add: enqueue_def status_moves_def\<close>)

lemma progress_inv:
  assumes inv: "jq_inv c q"
  shows "jq_inv c (updateProgress i p q) \<and> status_moves q (updateProgress i p q)"
proof -
  let ?f = "\<lambda>r. r\<lparr>js_progress := clampProgress p\<rparr>" and ?q = "updateProgress i p q"
  have tab: "table_ok (jq_statuses q)" and ids: "jq_ids c q" using inv by (simp_all add: jq_inv_def)
  note l = patch_lookup [OF tab, of ?f i]
  have look: "map_of (jq_statuses ?q) x = (if x = i then map_option ?f (map_of (jq_statuses q) x) else map_of (jq_statuses q) x)" for x
    using l(1) by (auto simp: updateProgress_def split: option.splits)
  have st: "status_is (jq_statuses ?q) S j = status_is (jq_statuses q) S j" for S j
    by (auto simp: status_is_def look)
  have "waiting_ok (jq_statuses ?q) j = waiting_ok (jq_statuses q) j" for j unfolding waiting_ok_def st ..
  moreover have "worker_ok ?q = worker_ok q" unfolding worker_ok_def st by (simp add: updateProgress_def split: worker.split list.split)
  moreover have "jq_ids c ?q" unfolding updateProgress_def by (rule ids_patch [OF ids tab]) simp
  moreover have "table_ok (jq_statuses ?q)" using l(2) by (simp add: updateProgress_def)
  moreover have "current_jobs ?q = current_jobs q" "jq_pending ?q = jq_pending q" by (simp_all add: current_jobs_def updateProgress_def)
  moreover have "terminal (js_status r) \<or> x \<in> jb_id ` set (current_jobs q)" if u: "map_of (jq_statuses ?q) x = Some r" for x r
  proof -
    obtain r0 where "map_of (jq_statuses q) x = Some r0" "js_status r = js_status r0" using u unfolding look by (cases "x = i"; cases "map_of (jq_statuses q) x") auto
    then show ?thesis using inv by (simp add: jq_inv_def)
  qed
  ultimately have "jq_inv c ?q" using inv by (simp add: jq_inv_def)
  moreover have "status_moves q ?q" by (auto simp: status_moves_def look status_move_def split: if_splits)
  ultimately show ?thesis ..
qed

lemma map_of_filter_snd:
  "distinct (map fst m) \<Longrightarrow> map_of (filter (\<lambda>p. P (snd p)) m) i = (case map_of m i of None \<Rightarrow> None | Some r \<Rightarrow> if P r then Some r else None)"
  by (induction m) (auto simp: map_of_eq_None_iff [symmetric] split: option.splits)

lemma prune_inv:
  assumes inv: "jq_inv c q"
  shows "jq_inv c (q\<lparr>jq_statuses := snd (status_prune now age (jq_statuses q))\<rparr>) \<and>
    status_moves q (q\<lparr>jq_statuses := snd (status_prune now age (jq_statuses q))\<rparr>)"
proof -
  let ?m = "jq_statuses q" and ?m' = "snd (status_prune now age (jq_statuses q))"
  have d: "distinct (map fst ?m)" using inv by (simp add: jq_inv_def table_ok_def)
  have look: "map_of ?m' i = (case map_of ?m i of None \<Rightarrow> None | Some r \<Rightarrow> if prunable (now - age) r then None else Some r)" for i
    using map_of_filter_snd [OF d, of "\<lambda>r. \<not> prunable (now - age) r" i] by (simp add: status_prune_def split: option.splits)
  have keep: "map_of ?m' (jb_id k) = map_of ?m (jb_id k)" if k: "k \<in> set (current_jobs q)" for k
  proof -
    obtain r where "map_of ?m (jb_id k) = Some r" "\<not> terminal (js_status r)" by (rule current_status [OF inv k])
    then show ?thesis by (simp add: look prunable_def)
  qed
  let ?q = "q\<lparr>jq_statuses := ?m'\<rparr>"
  have cur: "current_jobs ?q = current_jobs q" by (simp add: current_jobs_def)
  have "table_ok ?m'" using inv by (auto simp: jq_inv_def table_ok_def status_prune_def distinct_map_filter)
  moreover have "waiting_ok ?m' k" if "k \<in> set (jq_pending q)" for k
  proof -
    have "k \<in> set (current_jobs q)" using that by (simp add: current_jobs_def)
    note waiting_ok_frame [OF keep [OF this]]
    then show ?thesis using inv that by (simp add: jq_inv_def)
  qed
  moreover have "worker_ok ?q"
  proof (cases "jq_worker q")
    case (W_running k)
    then have "k \<in> set (current_jobs q)" by (simp add: current_jobs_def)
    note status_is_frame [OF keep [OF this]]
    then show ?thesis using inv W_running by (simp add: worker_ok_def jq_inv_def)
  next
    case (W_sleeping k)
    then have "k \<in> set (current_jobs q)" by (simp add: current_jobs_def)
    note status_is_frame [OF keep [OF this]]
    then show ?thesis using inv W_sleeping by (simp add: worker_ok_def jq_inv_def)
  qed (use inv in \<open>simp add: worker_ok_def jq_inv_def split: list.splits\<close>)
  moreover have "dom (map_of ?m') \<subseteq> dom (map_of ?m)" by (auto simp: look split: option.splits if_splits)
  then have "jq_ids c ?q" using inv ids_sub [of c q ?q] by (simp add: jq_inv_def)
  moreover have "terminal (js_status r) \<or> i \<in> jb_id ` set (current_jobs q)" if "map_of ?m' i = Some r" for i r
    using that inv unfolding look jq_inv_def by (auto split: option.splits if_splits)
  ultimately have "jq_inv c ?q" using inv unfolding jq_inv_def cur by simp
  moreover have "status_moves q ?q" by (auto simp: status_moves_def look split: if_splits)
  ultimately show ?thesis ..
qed

lemma jq_do_inv:
  assumes inv: "jq_inv c q" and uuid: "inj (qc_uuid c)" and ok: "jq_op_ok c op"
  shows "jq_inv c (snd (jq_do c now op q)) \<and> status_moves q (snd (jq_do c now op q))"
proof (cases op)
  case (Jq_enqueue name userId options)
  then show ?thesis using enqueue_inv [OF inv uuid] ok by simp
next
  case (Jq_process name)
  then show ?thesis using process_inv [OF inv] by simp
next
  case (Jq_finish failure)
  then show ?thesis using finish_inv [OF inv] inv by (simp add: status_moves_def split: worker.split)
next
  case Jq_wake
  then show ?thesis using wake_inv [OF inv] inv by (simp add: status_moves_def split: worker.split)
next
  case (Jq_progress i p)
  then show ?thesis using progress_inv [OF inv] by simp
next
  case (Jq_prune age)
  then show ?thesis using prune_inv [OF inv] by (simp add: split_beta)
next
  case Jq_wait
  then show ?thesis using wait_inv [OF inv, of "jq_closed q"] by (simp add: waitForIdle_def status_moves_def)
next
  case Jq_close
  then show ?thesis using wait_inv [OF inv, of True] by (simp add: close_queue_def waitForIdle_def status_moves_def)
qed

interpretation queue: guarded_system "jq_step c" "\<lambda>q. jq_inv c q \<and> inj (qc_uuid c)" "\<lambda>_ _. True" for c
  by standard (auto elim!: jq_step.cases dest: jq_do_inv)

lemma jq_reachable_inv: "jq_reachable c q \<Longrightarrow> jq_inv c q"
proof -
  assume "jq_reachable c q"
  then have r: "inj (qc_uuid c)" "(jq_step c)\<^sup>*\<^sup>* jq_start q" by (simp_all add: jq_reachable_def)
  have "jq_inv c jq_start" by (simp add: jq_inv_def jq_start_def table_ok_def current_jobs_def worker_ok_def jq_ids_def)
  then show ?thesis using queue.run_inv [OF r(2)] r(1) by blast
qed

text \<open>C38: The statuses of jobs follow their life cycle: a status moves from queued or retrying to processing and from there to
  completed, failed or retrying, a failed job may be queued again, and a completed one stays completed. The attempts of a job
  that has not failed never decrease, a job is run at most as often as its attempts allow (once if they allow none), and a
  status that has not ended belongs to exactly one job in the queue.\<close>

theorem job_statuses_follow_the_lifecycle:
  assumes "jq_reachable c q" and "jq_step c q q'" and "map_of (jq_statuses q) i = Some r" and "map_of (jq_statuses q') i = Some r'"
  shows "(js_status r, js_status r') \<in> JOB_TRANSITIONS\<^sup>* \<and> (js_status r = Js_completed \<longrightarrow> js_status r' = Js_completed) \<and>
    (js_status r \<noteq> Js_failed \<longrightarrow> js_attempts r \<le> js_attempts r') \<and>
    (\<not> terminal (js_status r) \<longrightarrow> (\<exists>!j. j \<in> set (current_jobs q) \<and> jb_id j = i)) \<and>
    (\<forall>j\<in>set (current_jobs q). jb_attempts j \<le> max 1 (jb_maxAttempts j))"
proof -
  note inv = jq_reachable_inv [OF assms(1)]
  have "inj (qc_uuid c)" using assms(1) by (simp add: jq_reachable_def)
  then have "status_moves q q'" using jq_do_inv [OF inv] assms(2) by (auto elim: jq_step.cases)
  then have m: "status_move r r'" using assms(3,4) unfolding status_moves_def by blast
  have dist: "distinct (map jb_id (current_jobs q))" using inv by (simp add: jq_inv_def)
  have one: "\<exists>!j. j \<in> set (current_jobs q) \<and> jb_id j = i" if "\<not> terminal (js_status r)"
  proof -
    have "i \<in> jb_id ` set (current_jobs q)" using inv that assms(3) unfolding jq_inv_def by blast
    moreover have "inj_on jb_id (set (current_jobs q))" using dist by (simp add: distinct_map)
    ultimately show ?thesis by (metis (no_types) image_iff inj_onD)
  qed
  have tries: "jb_attempts j \<le> max 1 (jb_maxAttempts j)" if j: "j \<in> set (current_jobs q)" for j
  proof (cases "j \<in> set (jq_pending q)")
    case True
    then have "waiting_ok (jq_statuses q) j" using inv by (simp add: jq_inv_def)
    then show ?thesis by (auto simp: waiting_ok_def split: if_splits)
  next
    case False
    then have "jq_worker q = W_running j \<or> jq_worker q = W_sleeping j" using j by (auto simp: current_jobs_def split: worker.splits)
    then show ?thesis using inv by (auto simp: jq_inv_def worker_ok_def)
  qed
  have fin: "js_status r' = Js_completed" if "js_status r = Js_completed" using m completed_is_final that by (simp add: status_move_def)
  show ?thesis
    using m unfolding status_move_def by (elim conjE, intro conjI impI ballI) (assumption | rule one tries fin | rule mp)+
qed

section \<open>The queue settles\<close>

text \<open>What the worker does on its own, given how handlers end.\<close>

definition work :: "jobq_config \<Rightarrow> int \<Rightarrow> job_error option \<Rightarrow> jobq \<Rightarrow> jobq" where
  "work c now failure q = (case jq_worker q of W_idle \<Rightarrow> q | W_running j \<Rightarrow> finish_job c now failure j q | W_sleeping j \<Rightarrow> wake_job now j q)"

primrec work_on :: "jobq_config \<Rightarrow> (nat \<Rightarrow> int) \<Rightarrow> (nat \<Rightarrow> job_error option) \<Rightarrow> nat \<Rightarrow> jobq \<Rightarrow> jobq" where
  "work_on c clock ends 0 q = q"
| "work_on c clock ends (Suc n) q = work c (clock n) (ends n) (work_on c clock ends n q)"

definition tries_left :: "job \<Rightarrow> nat" where
  "tries_left j = nat (max 1 (jb_maxAttempts j) - jb_attempts j)"

definition work_left :: "jobq \<Rightarrow> nat" where
  "work_left q = (case jq_worker q of W_idle \<Rightarrow> 0 | W_running j \<Rightarrow> 3 * tries_left j + 2 | W_sleeping j \<Rightarrow> 3 * tries_left j + 1) +
     sum_list (map (\<lambda>j. 3 * tries_left j) (jq_pending q))"

lemma one_less: "(a::int) < m \<Longrightarrow> nat (m - a) = Suc (nat (m - (a + 1)))"
  by linarith

lemma drain_next_work:
  assumes "pending_inv c q"
  shows "work_left (drain_next now q) \<le> sum_list (map (\<lambda>j. 3 * tries_left j) (jq_pending q))"
proof (cases "jq_pending q")
  case (Cons j js)
  have "waiting_ok (jq_statuses q) j" using assms Cons by (simp add: pending_inv_def)
  then have "jb_attempts j < max 1 (jb_maxAttempts j)" by (auto simp: waiting_ok_def split: if_splits)
  then have "tries_left j = Suc (tries_left (j\<lparr>jb_attempts := jb_attempts j + 1\<rparr>))"
    using one_less [of "jb_attempts j" "max 1 (jb_maxAttempts j)"] by (simp add: tries_left_def)
  then show ?thesis using Cons by (simp add: drain_next_def work_left_def run_job_def Let_def)
qed (simp add: drain_next_def work_left_def)

lemma work_less:
  assumes inv: "jq_inv c q" and busy: "jq_worker q \<noteq> W_idle"
  shows "work_left (work c now failure q) < work_left q"
proof (cases "jq_worker q")
  case (W_running j)
  show ?thesis
  proof (cases "\<exists>e. failure = Some e \<and> shouldRetry j e")
    case True
    then show ?thesis using W_running by (auto simp: work_def finish_job_def work_left_def)
  next
    case False
    then obtain f where f: "finish_job c now failure j q = drain_next now (patch_job (jb_id j) f q)"
      "\<And>r. js_jobId (f r) = js_jobId r" "\<And>r. terminal (js_status (f r))"
      by (cases failure) (auto simp: finish_job_def terminal_def)
    then show ?thesis using drain_next_work [OF finish_pending [OF inv W_running f(2,3)], of now] W_running
      by (simp add: work_def work_left_def)
  qed
next
  case (W_sleeping j)
  let ?q = "q\<lparr>jq_pending := jq_pending q @ [j]\<rparr>"
  have cj: "current_jobs q = j # jq_pending q" using W_sleeping by (simp add: current_jobs_def)
  have "waiting_ok (jq_statuses q) j" using inv W_sleeping by (auto simp: jq_inv_def worker_ok_def waiting_ok_def)
  then have "pending_inv c ?q" using inv unfolding jq_inv_def cj by (simp add: pending_inv_def jq_ids_def)
  from drain_next_work [OF this, of now] show ?thesis using W_sleeping by (simp add: work_def wake_job_def work_left_def)
qed (use busy in simp)

lemma work_inv: "jq_inv c q \<Longrightarrow> jq_inv c (work c now failure q)"
  using finish_inv wake_inv by (simp add: work_def split: worker.split)

lemma work_on_left:
  "jq_inv c q \<Longrightarrow> jq_inv c (work_on c clock ends n q) \<and>
     (jq_worker (work_on c clock ends n q) = W_idle \<or> work_left (work_on c clock ends n q) + n \<le> work_left q)"
proof (induction n)
  case (Suc n)
  let ?q = "work_on c clock ends n q"
  have inv: "jq_inv c ?q" and or: "jq_worker ?q = W_idle \<or> work_left ?q + n \<le> work_left q" using Suc by auto
  show ?case
  proof (cases "jq_worker ?q = W_idle")
    case True
    then show ?thesis using inv by (simp add: work_def)
  next
    case False
    then show ?thesis using work_less [OF inv False, of "clock n" "ends n"] work_inv [OF inv] or by simp
  qed
qed simp

lemma work_handlers: "jq_handlers (work c now failure q) = jq_handlers q"
  by (simp add: work_def finish_job_def wake_job_def drain_next_def run_job_def Let_def split: worker.split option.split list.split)

lemma work_on_handlers: "jq_handlers (work_on c clock ends n q) = jq_handlers q"
  by (induction n) (simp_all add: work_handlers)

text \<open>C39: The queue settles: left alone, however its handlers end and whatever the clock shows, the worker is idle after a number of
  steps that the attempts left bound. Then either nothing is pending, no caller waits, and every job has completed or failed,
  or the job in front has no handler.\<close>

theorem job_queue_settles:
  assumes "jq_reachable c q" and "work_left q < n"
  shows "jq_worker (work_on c clock ends n q) = W_idle \<and>
    (jq_pending (work_on c clock ends n q) = [] \<and> jq_waiting (work_on c clock ends n q) = 0 \<and>
       (\<forall>i r. map_of (jq_statuses (work_on c clock ends n q)) i = Some r \<longrightarrow> js_status r = Js_completed \<or> js_status r = Js_failed)
     \<or> (\<exists>j js. jq_pending (work_on c clock ends n q) = j # js \<and> jb_name j \<notin> jq_handlers q))"
proof -
  let ?q = "work_on c clock ends n q"
  have w: "jq_inv c ?q \<and> jq_worker ?q = W_idle" using work_on_left [OF jq_reachable_inv [OF assms(1)], of clock ends n] assms(2) by auto
  then have k: "worker_ok ?q" by (simp add: jq_inv_def)
  show ?thesis
  proof (cases "jq_pending ?q")
    case Nil
    then have "current_jobs ?q = []" using w by (simp add: current_jobs_def)
    then show ?thesis using w k Nil unfolding jq_inv_def terminal_def by (simp add: worker_ok_def)
  next
    case (Cons j js)
    then show ?thesis using w k by (simp add: worker_ok_def work_on_handlers)
  qed
qed

section \<open>A job without a handler\<close>

fun jq_run :: "jobq_config \<Rightarrow> (int \<times> jq_op) list \<Rightarrow> jobq \<Rightarrow> jobq" where
  "jq_run c [] q = q"
| "jq_run c ((t, op) # ops) q = jq_run c ops (snd (jq_do c t op q))"

definition blocked_by :: "job \<Rightarrow> jobq \<Rightarrow> bool" where
  "blocked_by j q \<longleftrightarrow> jq_worker q = W_idle \<and> (\<exists>js. jq_pending q = j # js) \<and> jb_name j \<notin> jq_handlers q"

lemma blocked_step:
  assumes "blocked_by j q" and "op \<noteq> Jq_process (jb_name j)"
  shows "blocked_by j (snd (jq_do c t op q)) \<and> (\<exists>ks. jq_pending (snd (jq_do c t op q)) = jq_pending q @ ks) \<and>
    jq_released (snd (jq_do c t op q)) = jq_released q"
  using assms
  by (cases op)
    (auto simp: blocked_by_def enqueue_def enqueue_put_def Let_def drain_def drain_next_def process_jobs_def updateProgress_def
      waitForIdle_def close_queue_def split: option.split prod.split)

text \<open>C40: A job without a handler blocks the queue: once such a job is in front, no request other than the registration of its
  handler lets any job behind it start, whatever handlers those have, and no wait ever ends, so closing the queue does not
  return.\<close>

theorem job_without_handler_blocks_the_queue:
  assumes "blocked_by j q" and "Jq_process (jb_name j) \<notin> snd ` set ops"
  shows "jq_worker (jq_run c ops q) = W_idle \<and> (\<exists>ks. jq_pending (jq_run c ops q) = jq_pending q @ ks) \<and>
    jq_released (jq_run c ops q) = jq_released q"
proof -
  have "blocked_by j (jq_run c ops q) \<and> (\<exists>ks. jq_pending (jq_run c ops q) = jq_pending q @ ks) \<and> jq_released (jq_run c ops q) = jq_released q"
    using assms
  proof (induction ops arbitrary: q)
    case (Cons x ops)
    obtain t op where x: "x = (t, op)" by (cases x)
    have "op \<noteq> Jq_process (jb_name j)" using Cons.prems(2) x by auto
    note s = blocked_step [OF Cons.prems(1) this, of c t]
    then show ?case using Cons.IH [of "snd (jq_do c t op q)"] Cons.prems(2) x by fastforce
  qed (simp add: blocked_by_def)
  then show ?thesis by (simp add: blocked_by_def)
qed

section \<open>A sample\<close>

definition sample_jobs :: jobq_config where
  "sample_jobs = \<lparr>qc_attempts = 2, qc_backoffMs = 0, qc_timeoutMs = 0, qc_uuid = (\<lambda>k. replicate k (CHR ''u'')), qc_sanitize = id\<rparr>"

definition plain_options :: "string option \<Rightarrow> job_options" where
  "plain_options i = \<lparr>jo_attempts = None, jo_backoffMs = None, jo_jobId = i, jo_timeoutMs = None, jo_retryable = None, jo_createdBy = None\<rparr>"

lemma jq_run_steps: "list_all (\<lambda>x. jq_op_ok c (snd x)) ops \<Longrightarrow> (jq_step c)\<^sup>*\<^sup>* q (jq_run c ops q)"
proof (induction ops arbitrary: q)
  case (Cons x ops)
  obtain t op where x: "x = (t, op)" by (cases x)
  have "jq_step c q (snd (jq_do c t op q))" using Cons.prems x by (auto intro: jq_stepI)
  then show ?case using Cons x by (simp add: converse_rtranclp_into_rtranclp)
qed simp

lemma sample_jobs_reachable:
  assumes "list_all (\<lambda>x. case snd x of Jq_enqueue n u o' \<Rightarrow> jo_jobId o' = None | _ \<Rightarrow> True) ops"
  shows "jq_reachable sample_jobs (jq_run sample_jobs ops jq_start)"
proof -
  have "list_all (\<lambda>x. jq_op_ok sample_jobs (snd x)) ops"
    using assms by (auto simp: list_all_iff jq_op_ok_def split: jq_op.splits option.splits)
  moreover have "inj (qc_uuid sample_jobs)" by (auto simp: sample_jobs_def inj_def replicate_eq_replicate)
  ultimately show ?thesis using jq_run_steps by (simp add: jq_reachable_def)
qed

theorem job_statuses_follow_the_lifecycle_witness:
  "\<exists>q q' r r'. jq_reachable sample_jobs q \<and> jq_step sample_jobs q q' \<and> map_of (jq_statuses q) [] = Some r \<and> map_of (jq_statuses q') [] = Some r' \<and>
     js_status r = Js_processing \<and> js_status r' = Js_retrying \<and> (js_status r, js_status r') \<in> JOB_TRANSITIONS\<^sup>*"
proof -
  let ?ops = "[(0, Jq_process ''mail''), (1, Jq_enqueue ''mail'' None (plain_options None))]"
  let ?q = "jq_run sample_jobs ?ops jq_start" and ?op = "Jq_finish (Some Je_value)"
  let ?q' = "snd (jq_do sample_jobs 2 ?op ?q)"
  have r: "jq_reachable sample_jobs ?q" by (rule sample_jobs_reachable) (simp add: plain_options_def)
  have s: "jq_step sample_jobs ?q ?q'" by (rule jq_stepI) (simp add: jq_op_ok_def)
  have m: "map_option js_status (map_of (jq_statuses ?q) []) = Some Js_processing" "map_option js_status (map_of (jq_statuses ?q') []) = Some Js_retrying"
    by code_simp+
  then obtain a b where "map_of (jq_statuses ?q) [] = Some a" "js_status a = Js_processing" "map_of (jq_statuses ?q') [] = Some b"
      "js_status b = Js_retrying" by (auto simp del: jq_run.simps)
  then show ?thesis using job_statuses_follow_the_lifecycle [OF r s] r s by blast
qed

theorem job_queue_settles_witness:
  "jq_pending (work_on sample_jobs int (\<lambda>n. if n = 0 then Some Je_value else None) 9 (jq_run sample_jobs
     [(0, Jq_process ''mail''), (1, Jq_enqueue ''mail'' None (plain_options None)), (1, Jq_wait)] jq_start)) = []"
proof -
  let ?ops = "[(0, Jq_process ''mail''), (1, Jq_enqueue ''mail'' None (plain_options None)), (1, Jq_wait)]"
  let ?q = "jq_run sample_jobs ?ops jq_start"
  have r: "jq_reachable sample_jobs ?q" by (rule sample_jobs_reachable) (simp add: plain_options_def)
  have "work_left ?q < 9" by code_simp
  note w = job_queue_settles [OF r this, of int "\<lambda>n. if n = 0 then Some Je_value else None"]
  have "work_left ?q < 9" by code_simp
  have "list_all (\<lambda>j. jb_name j = ''mail'') (jq_pending (work_on sample_jobs int (\<lambda>n. if n = 0 then Some Je_value else None) 9 ?q)) \<and> ''mail'' \<in> jq_handlers ?q"
    by code_simp
  then show ?thesis using w by auto
qed

theorem job_without_handler_blocks_the_queue_witness:
  "jq_worker (jq_run sample_jobs [(3, Jq_process ''mail''), (4, Jq_close)] (jq_run sample_jobs
     [(0, Jq_enqueue ''report'' None (plain_options None)), (1, Jq_enqueue ''mail'' None (plain_options None))] jq_start)) = W_idle"
proof -
  let ?q = "jq_run sample_jobs [(0, Jq_enqueue ''report'' None (plain_options None)), (1, Jq_enqueue ''mail'' None (plain_options None))] jq_start"
  have "jq_worker ?q = W_idle \<and> map jb_name (jq_pending ?q) = [''report'', ''mail''] \<and> jq_handlers ?q = {}" by code_simp
  then obtain j js where j: "jq_pending ?q = j # js" "jb_name j = ''report''" "jq_worker ?q = W_idle" "jq_handlers ?q = {}" by (auto simp del: jq_run.simps)
  then have "blocked_by j ?q" by (simp add: blocked_by_def del: jq_run.simps)
  from job_without_handler_blocks_the_queue [OF this, of "[(3, Jq_process ''mail''), (4, Jq_close)]" sample_jobs]
  show ?thesis using j(2) by (auto simp del: jq_run.simps)
qed

text \<open>Two calls with one identifier that both pass the test before either stores its status put two jobs in the queue.\<close>

lemma overlapping_enqueues_add_two_jobs:
  "enqueue_check (plain_options (Some ''once'')) jq_start = None \<and>
   map jb_id (jq_pending (snd (enqueue_put sample_jobs 1 ''mail'' None (plain_options (Some ''once''))
     (snd (enqueue_put sample_jobs 0 ''mail'' None (plain_options (Some ''once'')) jq_start))))) = [''once'', ''once'']"
  by code_simp

end
