(* ===== verification/Spec2Isabelle.thy ===== *)
theory Spec2Isabelle
  imports Dealflow_Recommendation Dealflow_Email Dealflow_Frozen Dealflow_Versions Dealflow_StockFrame Dealflow_Run
    Platform_RateLimit Platform_SessionSafety Platform_KvSpec Dealflow_Boundary Platform_Resolve Platform_Ssrf
    Platform_Otp Platform_Jobs
begin

text \<open>
  DealFlow360, the quote-to-cash module under \<open>src/modules/problem/src/dealflow\<close>. A salesperson drafts a
  quotation, negotiates it with the customer, has it approved, locks it as an order, plans its
  fulfilment, bills it and completes it. The service \<open>service.ts\<close> is a record of request handlers over
  a store (\<open>store.ts\<close>); each handler loads a quotation aggregate, calls the engines, bumps the version,
  saves the aggregate with a fresh assessment and reports to the audit trail, the notification inbox
  and the event channel. The engines are pure functions; the store is the only state.

  \<^bold>\<open>Numbers, times, texts.\<close> A JavaScript number is an exact rational (\<open>js_number\<close>); \<open>round_digits\<close> is
  the decimal rounding of the code, and rounding errors of binary floating point are not modelled.
  Versions and milliseconds are integers. Messages of errors and reports are constructors that keep
  their data. Identifiers, tokens and the clock come from the environment record \<open>env\<close>, together with
  what lies outside \<open>src\<close>: \<open>localeCompare\<close>, the PDF renderer, the mail sender and the client of the ERP.

  \<^bold>\<open>Theories and code.\<close>
  \<^item> \<open>Dealflow_Prelude\<close>: results, JavaScript arithmetic, stable sorting, list updates. \<open>Dealflow_Types\<close>:
    \<open>types.ts\<close>, \<open>errors.ts\<close>. \<open>Dealflow_Strings\<close>: trimming and case of strings.
  \<^item> the engines: \<open>Dealflow_Lifecycle\<close> (\<open>lifecycle.ts\<close>), \<open>Dealflow_Loyalty\<close> (\<open>loyalty.ts\<close>), \<open>Dealflow_Pricing\<close>
    (\<open>pricing-engine.ts\<close>), \<open>Dealflow_Discount\<close> (\<open>discount-engine.ts\<close>), \<open>Dealflow_Approval\<close>
    (\<open>approval-engine.ts\<close>), \<open>Dealflow_Fulfillment\<close> (\<open>fulfillment-engine.ts\<close>), \<open>Dealflow_Billing\<close>
    (\<open>billing-engine.ts\<close>, \<open>tax-engine.ts\<close>), \<open>Dealflow_Governance\<close> (\<open>governance-config.ts\<close>), \<open>Dealflow_Health\<close>
    (\<open>health-engine.ts\<close>, \<open>anomaly-engine.ts\<close>), \<open>Dealflow_Recommendation\<close> (\<open>recommendation-engine.ts\<close>),
    \<open>Dealflow_Email\<close> (\<open>customer-email.ts\<close>, \<open>portal-view.ts\<close>). Each proves what its functions compute on
    every branch, bounds, monotonicity and round trips.
  \<^item> the service: \<open>Dealflow_Store\<close> (the memory store of \<open>store.ts\<close>; the record \<open>world\<close> is its tables, the
    state-and-error monad \<open>'a action\<close> its programs), \<open>Dealflow_Service\<close> (the inner functions of
    \<open>createDealflowService\<close>), \<open>Dealflow_Quotes\<close>, \<open>Dealflow_Negotiation\<close>, \<open>Dealflow_Orders\<close>,
    \<open>Dealflow_Catalog\<close> (the handlers). A handler \<open>h\<close> that edits a quotation is split into its edit
    (\<open>h_edit\<close>, from the load to the save) and the handler itself (load, edit, save, report).
  \<^item> the system: \<open>Dealflow_Logic\<close> (weakest preconditions, the frame of actions that write no quotation),
    \<open>Dealflow_Invariants\<close> (the invariant \<open>quote_inv\<close> of one quotation and its evolution \<open>evolves\<close>),
    \<open>Dealflow_Edits\<close> (every edit keeps both), \<open>Dealflow_Handlers\<close> and \<open>Dealflow_System\<close> (the invariant
    \<open>world_inv\<close> of the store, the requests \<open>request\<close>, the step relation \<open>step\<close> and \<open>reachable\<close> stores).
    \<open>reachable U w\<close> says that a sequence of requests leads from a store without quotations to \<open>w\<close>,
    with identifiers drawn from an injective supply \<open>U\<close>; requests may use different clocks, mail
    senders and actors. The invariant is an interpretation of the locale of state machines with a
    progress relation.
  \<^item> what requests may do: \<open>Dealflow_Outcome\<close> (the locale of handlers whose edits satisfy a relation),
    interpreted in \<open>Dealflow_Frozen\<close> for line changes and atomicity; \<open>Dealflow_Versions\<close> (stale versions),
    \<open>Dealflow_StockFrame\<close> (which requests write stock, and that none takes any from a warehouse), \<open>Dealflow_Liveness\<close> (which requests succeed).
    \<open>Dealflow_Samples\<close> and \<open>Dealflow_Run\<close> are concrete inputs and a concrete run, for the witnesses.

  \<^item> the platform under \<open>src/backend/src\<close> that every module shares: \<open>Platform_Rbac\<close> (errors, roles and
    permissions: the merge of the catalogs, their two ways into the database, the permissions of a user
    and the checks of a route), \<open>Platform_Kv\<close> (the key-value store with expiry, durations, idempotency
    keys), \<open>Platform_KvSpec\<close> (the contract of a key-value store as a locale, with the memory store as its
    instance), \<open>Platform_RateLimit\<close> (the fixed-window limiter), \<open>Platform_Auth\<close> (tokens, their revocation,
    passwords, the repositories of users and refresh tokens, the authentication service and
    middleware). A database table is the list of its rows, each query is one step on it, and a
    transaction that throws restores the tables. Signing and hashing are fields of an environment.
    \<open>Platform_Sessions\<close> describes each operation by the moves it makes in the table of refresh tokens and
    the versions of users (the locale of operations that respect a relation of tables),
    \<open>Platform_Interleave\<close> splits the refresh into the two steps between which other requests run and states
    the invariant of every run (the cut is the model's, the second step is one database transaction and
    atomic), \<open>Platform_SessionSafety\<close> shows what holds of sessions in such runs, with the
    concrete runs of \<open>Platform_AuthSample\<close> as witnesses.
  \<^item> requests of the browser: \<open>Dealflow_Schemas\<close> (the Zod schemas of \<open>routes.ts\<close> as data and what they accept),
    \<open>Dealflow_Decode\<close> (the values a schema produces), \<open>Dealflow_Reads\<close> (the handlers that answer with data),
    \<open>Platform_Http\<close> (cookies, the protection against requests of other sites, rate limit categories and the
    chain of middlewares), \<open>Dealflow_Routes\<close> (every route with its middlewares, schemas and service call),
    \<open>Dealflow_Server\<close> (a request from the socket to the answer), \<open>Dealflow_Locking\<close> (which service calls make an
    order) and \<open>Dealflow_Boundary\<close> (what an answered request proves of its sender and of the store).
    \<open>Dealflow_HttpSample\<close> is a concrete request.
  \<^item> further platform services: \<open>Platform_Capabilities\<close> and \<open>Platform_Graph\<close> (\<open>capabilities/graph.ts\<close> and its
    theorems: closure, topological order, circular dependencies), \<open>Platform_Resolve\<close>
    (\<open>capabilities/resolve.ts\<close>), \<open>Platform_Ssrf\<close> (\<open>security/ssrf.ts\<close>, over a
    resolver that may answer each lookup differently), \<open>Platform_Otp\<close> (\<open>otp\<close>: one-time codes, with
    handlers that overlap at their \<open>await\<close>s), \<open>Platform_Jobs\<close> (\<open>jobs\<close>: the in-memory queue as a step relation).

  \<^bold>\<open>What this theory shows.\<close> The properties below speak of the whole service: what holds of every stored
  quotation, of any two stores of a run, of one request, and which requests are bound to succeed.

  \<^bold>\<open>Sizes.\<close> Nothing is bounded. Recursion is structural or on a measure with three exceptions: the loops of
  the closure and of the way back along a cycle are partial functions into \<open>option\<close>, and the depth-first
  search for cycles carries a depth, one more than the number of names; that all three return is proved in
  \<open>Platform_Graph\<close> (\<open>search_scope_on\<close>, \<open>cycles_and_order\<close>).

  \<^bold>\<open>Not modelled.\<close> The handlers of the module run one at a time: the interleaving of two handlers at their
  \<open>await\<close> points, which the version check at load time does not exclude, is outside the model; only the
  refresh of a session and the one-time codes are split into their steps. The database store (\<open>prisma-store.ts\<close>, queries of a
  third-party client), the PDF layout, the demo data, the browser pages, and of the platform the
  generators, integrations and the wiring of the application are not modelled.
\<close>

section \<open>What holds of every stored quotation\<close>

text \<open>C3: No order without its approvals: in every store the service can reach, a quotation that is
  approved, confirmed, in fulfilment, in billing or completed has every required approval step
  approved.\<close>

theorem approved_order_has_approvals:
  assumes "reachable U w" and "quote_lookup w i = Some a"
    and "status_of a \<in> {Q_approved, Q_confirmed, Q_fulfillment, Q_billing, Q_completed}"
  shows "allRequiredApproved (ag_approvals a)"
  using quote_invD(2) [OF reachable_quote(2) [OF assms(1,2)]] assms(3) by (auto simp: approved_or_later_def committed_def)

theorem approved_order_has_approvals_witness:
  "\<exists>w i a. reachable sample_supply w \<and> quote_lookup w i = Some a \<and> status_of a = Q_confirmed \<and> allRequiredApproved (ag_approvals a)"
proof -
  obtain w i a where s: "sample_at Q_confirmed w i a" using sample_confirmed by blast
  note d = sample_atD(1,2) [OF s]
  show ?thesis using approved_order_has_approvals [OF sample_reachable [OF s] d(1)] sample_reachable [OF s] d by auto
qed

text \<open>C9: The finance lock marks exactly the orders: a stored quotation carries a lock time if and only
  if it is confirmed or later; warehouse allocations and backorders exist only from fulfilment on,
  billing schedules only from billing on.\<close>

theorem finance_lock_marks_orders:
  assumes "reachable U w" and "quote_lookup w i = Some a"
  shows "(qt_financeLockedAt (ag_quote a) \<noteq> None \<longleftrightarrow> status_of a \<in> {Q_confirmed, Q_fulfillment, Q_billing, Q_completed}) \<and>
    (ag_allocations a \<noteq> [] \<or> ag_backorders a \<noteq> [] \<longrightarrow> status_of a \<in> {Q_fulfillment, Q_billing, Q_completed}) \<and>
    (ag_schedules a \<noteq> [] \<longrightarrow> status_of a \<in> {Q_billing, Q_completed})"
  using quote_invD(3-5) [OF reachable_quote(2) [OF assms]] by (auto simp: committed_def)

theorem finance_lock_marks_orders_witness:
  "\<exists>w i a. reachable sample_supply w \<and> quote_lookup w i = Some a \<and> qt_financeLockedAt (ag_quote a) \<noteq> None"
proof -
  obtain w i a where s: "sample_at Q_confirmed w i a" using sample_confirmed by blast
  note d = sample_atD(1,2) [OF s]
  show ?thesis using finance_lock_marks_orders [OF sample_reachable [OF s] d(1)] sample_reachable [OF s] d by auto
qed



text \<open>C13: The customer can always decide on an open quotation: with the token and the current version of a draft,
  negotiated or reviewed quotation, accepting or declining succeeds and is recorded for that
  version. The test of \<open>applyPortalDecision\<close> for a decision already recorded on the current version
  never applies, because recording a decision moves the quotation to the next version.\<close>

theorem customer_decision_is_recorded:
  assumes "reachable U w" and "load_by_token t w = (Inr a, w)" and "status_of a \<in> {Q_draft, Q_customer_negotiation, Q_manager_review}"
    and "d = C_accepted \<or> d = C_declined"
  shows "(\<forall>v. qt_customerDecisionVersion (ag_quote a) = Some v \<longrightarrow> v < qt_version (ag_quote a)) \<and>
    (\<exists>w' b. handle e (On_quotes (R_portalDecision t d n (qt_version (ag_quote a)))) w = (None, w') \<and>
       quote_lookup w' (qt_id (ag_quote a)) = Some b \<and> qt_customerDecision (ag_quote b) = d \<and>
       qt_customerDecisionVersion (ag_quote b) = Some (qt_version (ag_quote a)) \<and> qt_version (ag_quote b) = qt_version (ag_quote a) + 1 \<and>
       status_of b = status_of a \<and> ag_lines b = ag_lines a)"
proof -
  note inv = reachable_inv(2) [OF assms(1)]
  have l: "loaded w a" by (rule token_loaded(2) [OF inv assms(2) HOL.refl])
  have earlier: "\<forall>v. qt_customerDecisionVersion (ag_quote a) = Some v \<longrightarrow> v < qt_version (ag_quote a)"
    using quote_invD(6) [OF loaded_facts(1) [OF inv l]] by simp
  show ?thesis using earlier succeeds_run [OF portal_decision_succeeds [OF inv assms(2-4), of e n]]
    by (auto simp: holds_def core_def Let_def)
qed

theorem customer_decision_is_recorded_witness:
  "\<exists>w t a w' i b. reachable sample_supply w \<and> load_by_token t w = (Inr a, w) \<and>
     handle sample_env (On_quotes (R_portalDecision t C_accepted None (qt_version (ag_quote a)))) w = (None, w') \<and>
     quote_lookup w' i = Some b \<and> qt_customerDecision (ag_quote b) = C_accepted"
proof -
  obtain w i a where s: "sample_at Q_draft w i a" "w_quotes w = [(i, a)]" using sample_fresh by blast
  obtain j b c where c: "load_by_token (qt_portalToken (ag_quote a)) w = (Inr c, w)" "quote_lookup w j = Some b" "core c = core b"
    using token_total [OF sample_at_inv [OF s(1)] sample_atD(1) [OF s(1)]] .
  have "b = a" using c(2) s(2) by (simp add: quote_lookup_def split: if_splits)
  then have st: "status_of c \<in> {Q_draft, Q_customer_negotiation, Q_manager_review}"
    using core_readsD(1) [OF c(3)] sample_atD(2) [OF s(1)] by simp
  show ?thesis using customer_decision_is_recorded [OF sample_reachable [OF s(1)] c(1) st, of C_accepted sample_env None] sample_reachable [OF s(1)] c(1)
    by blast
qed

section \<open>What holds from one store to a later one\<close>

text \<open>C7: The history of a quotation. From any reachable store to any later one, a quotation present in both
  keeps its number, customer and portal token; its version never decreases, and while it stays the
  same the status, lines, approvals, allocations, backorders, schedules and revisions stay the same;
  the status moves along the transition table; revisions are only appended; a lock time never
  changes.\<close>

theorem quotation_history:
  assumes "reachable U w" and "(step U)\<^sup>*\<^sup>* w w'" and "quote_lookup w i = Some a" and "quote_lookup w' i = Some b"
  shows "qt_number (ag_quote b) = qt_number (ag_quote a) \<and> qt_customerId (ag_quote b) = qt_customerId (ag_quote a) \<and>
    qt_portalToken (ag_quote b) = qt_portalToken (ag_quote a) \<and> qt_version (ag_quote a) \<le> qt_version (ag_quote b) \<and>
    (qt_version (ag_quote a) = qt_version (ag_quote b) \<longrightarrow> status_of b = status_of a \<and> ag_lines b = ag_lines a \<and>
       ag_approvals b = ag_approvals a \<and> ag_allocations b = ag_allocations a \<and> ag_backorders b = ag_backorders a \<and>
       ag_schedules b = ag_schedules a \<and> ag_revisions b = ag_revisions a) \<and>
    moves\<^sup>*\<^sup>* (status_of a) (status_of b) \<and> (\<exists>new. ag_revisions b = ag_revisions a @ new) \<and>
    (qt_financeLockedAt (ag_quote a) \<noteq> None \<longrightarrow> qt_financeLockedAt (ag_quote b) = qt_financeLockedAt (ag_quote a))"
proof -
  have "evolves a b" using reachable_progress [OF assms(1,2)] assms(3,4) unfolding progress_def by blast
  then show ?thesis by (auto simp: evolves_def simp del: moves_simps)
qed

theorem quotation_history_witness:
  "\<exists>w w' i a b. reachable sample_supply w \<and> (step sample_supply)\<^sup>*\<^sup>* w w' \<and> quote_lookup w i = Some a \<and> quote_lookup w' i = Some b \<and>
     status_of a \<noteq> status_of b \<and> qt_number (ag_quote b) = qt_number (ag_quote a)"
proof -
  obtain w i a w' b where s: "sample_at Q_confirmed w i a" "sample_at Q_completed w' i b" "(step sample_supply)\<^sup>*\<^sup>* w w'"
    using sample_completed by blast
  note a = sample_atD(1,2) [OF s(1)] and b = sample_atD(1,2) [OF s(2)]
  have "status_of a \<noteq> status_of b" using a(2) b(2) by simp
  moreover have "qt_number (ag_quote b) = qt_number (ag_quote a)"
    using quotation_history [OF sample_reachable [OF s(1)] s(3) a(1) b(1)] by (rule conjunct1)
  ultimately show ?thesis using sample_reachable [OF s(1)] s(3) a(1) b(1) by (intro exI conjI)
qed

text \<open>C8: Orders survive: once confirmed, a quotation stays in the store through any further requests, stays
  an order, and only moves forward along confirmed, fulfilment, billing, completed.\<close>

theorem orders_survive:
  assumes "reachable U w" and "(step U)\<^sup>*\<^sup>* w w'" and "quote_lookup w i = Some a"
    and "status_of a \<in> {Q_confirmed, Q_fulfillment, Q_billing, Q_completed}"
  shows "\<exists>b. quote_lookup w' i = Some b \<and> status_of b \<in> {Q_confirmed, Q_fulfillment, Q_billing, Q_completed} \<and>
    tail_rank (status_of b) \<le> tail_rank (status_of a)"
proof -
  have p: "progress U w w'" by (rule reachable_progress [OF assms(1,2)])
  have c: "committed (status_of a)" using assms(4) by (simp add: committed_def)
  then obtain b where b: "quote_lookup w' i = Some b" using p assms(3) unfolding progress_def by blast
  then have "evolves a b" using p assms(3) unfolding progress_def by blast
  then have m: "moves\<^sup>*\<^sup>* (status_of a) (status_of b)" unfolding evolves_def by (elim conjE)
  then have "committed (status_of b)" "tail_rank (status_of b) \<le> tail_rank (status_of a)" using tail.run_inv [OF m c] tail.run_rel [OF m c] by simp_all
  then show ?thesis using b by (simp add: committed_def)
qed

theorem orders_survive_witness:
  "\<exists>w w' i b. reachable sample_supply w \<and> (step sample_supply)\<^sup>*\<^sup>* w w' \<and> w \<noteq> w' \<and> quote_lookup w' i = Some b \<and> tail_rank (status_of b) \<le> 3"
proof -
  obtain w i a w' b where s: "sample_at Q_confirmed w i a" "sample_at Q_completed w' i b" "(step sample_supply)\<^sup>*\<^sup>* w w'"
    using sample_completed by blast
  note a = sample_atD(1,2) [OF s(1)] and b = sample_atD(1,2) [OF s(2)]
  have "tail_rank (status_of a) \<le> 3" "w \<noteq> w'" using a b by auto
  moreover obtain c where c: "quote_lookup w' i = Some c" "tail_rank (status_of c) \<le> tail_rank (status_of a)"
    using orders_survive [OF sample_reachable [OF s(1)] s(3) a(1)] a(2) by auto
  ultimately have "tail_rank (status_of c) \<le> 3" by linarith
  then show ?thesis using sample_reachable [OF s(1)] s(3) \<open>w \<noteq> w'\<close> c(1) by blast
qed

section \<open>What one request may do\<close>

text \<open>C4: Prices are frozen outside the open statuses, and a rejected quotation stays rejected: no request
  other than an answer to a negotiation (\<open>respondToNegotiation\<close>) changes a line of a quotation that is
  finalized, waiting for approval, approved or an order, and none revives a rejected one, although the
  transition table would allow it.\<close>

theorem lines_frozen_outside_open_statuses:
  assumes "reachable U w" and "e_uuid e = U" and "handle e r w = (out, w')" and "\<not> responds r"
    and "quote_lookup w i = Some a" and "quote_lookup w' i = Some b"
  shows "(\<not> canMutateCommercials (status_of a) \<longrightarrow> ag_lines b = ag_lines a) \<and> (status_of a = Q_rejected \<longrightarrow> status_of b = Q_rejected)"
  using freeze.requests [OF reachable_inv(1) [OF assms(1)] assms(2) reachable_inv(2) [OF assms(1)] assms(3,4)] assms(5,6)
  by (simp add: related_def frozen_def)

theorem lines_frozen_outside_open_statuses_witness:
  "\<exists>w w' i v a b. reachable sample_supply w \<and> handle sample_env (On_quotes (R_complete i sample_admin v)) w = (None, w') \<and>
     quote_lookup w i = Some a \<and> quote_lookup w' i = Some b \<and> status_of b \<noteq> status_of a \<and> ag_lines b = ag_lines a"
proof -
  obtain w i a v w' b where s: "sample_at Q_confirmed w i a" "sample_at Q_completed w' i b"
    and h: "handle sample_env (On_quotes (R_complete i sample_admin v)) w = (None, w')" using sample_completed by blast
  note a = sample_atD(1,2) [OF s(1)] and b = sample_atD(1,2) [OF s(2)]
  have "ag_lines b = ag_lines a"
    using lines_frozen_outside_open_statuses [OF sample_reachable [OF s(1)] _ h _ a(1) b(1)] a(2) by (simp add: canMutateCommercials_def)
  moreover have "status_of b \<noteq> status_of a" using a(2) b(2) by simp
  ultimately show ?thesis using sample_reachable [OF s(1)] h a(1) b(1) by blast
qed

text \<open>C5: A failed request writes no quotation: whenever a request answers with an error, the quote table is
  exactly the one before.\<close>

theorem failed_request_writes_no_quotation:
  assumes "reachable U w" and "e_uuid e = U" and "handle e r w = (Some err, w')"
  shows "w_quotes w' = w_quotes w"
proof (cases "responds r")
  case True
  have "edit_obeys (\<lambda>_ _. True) id (respond_edit e n d msg v act a) a" for e n d msg v act a by (simp add: edit_obeys_def wp_trivial)
  then show ?thesis using atomic.respond_request [OF _ reachable_inv(2) [OF assms(1)] True assms(3)] by simp
next
  case False
  show ?thesis using atomic.requests [OF reachable_inv(1) [OF assms(1)] assms(2) reachable_inv(2) [OF assms(1)] assms(3) False] by simp
qed

theorem failed_request_writes_no_quotation_witness:
  "\<exists>w i a err w'. reachable sample_supply w \<and> quote_lookup w i = Some a \<and>
     handle sample_env (On_quotes (R_complete i sample_admin 0)) w = (Some err, w') \<and> w_quotes w' = w_quotes w"
proof -
  obtain w i a where s: "sample_at Q_confirmed w i a" using sample_confirmed by blast
  have "qt_version (ag_quote b) \<noteq> 0" if "quote_lookup w i = Some b" for b
    using quote_invD(1) [OF reachable_quote(2) [OF sample_reachable [OF s] that]] by simp
  then obtain err where "handle_quote sample_env (R_complete i sample_admin 0) w = (Some err, w)"
    using stale_requests [of "R_complete i sample_admin 0" i 0 w sample_env] by (auto simp: expected_def)
  then have h: "handle sample_env (On_quotes (R_complete i sample_admin 0)) w = (Some err, w)" by simp
  show ?thesis using failed_request_writes_no_quotation [OF sample_reachable [OF s] _ h] sample_reachable [OF s] sample_atD(1) [OF s] h by auto
qed



text \<open>C15: The finance lock takes no stock, although the README says that it decrements the quantity on hand and the
  reserved quantity of the allocated rows ("Finance lock consumes allocated stock"). No quotation request, whatever it is,
  changes the quantity on hand of a row; none but \<open>planFulfillment\<close> changes the stock table at all. The code that
  would consume the stock, in \<open>confirm\<close>, is never given anything to consume: a quotation that can be locked is
  approved, and an approved quotation has no allocations, since planning begins only after the lock.\<close>

theorem finance_lock_takes_no_stock:
  assumes "reachable U w" and "handle e (On_quotes r) w = (out, w')"
  shows "on_hand (w_stock w') = on_hand (w_stock w) \<and> (\<not> plans r \<longrightarrow> w_stock w' = w_stock w) \<and>
    (\<forall>i a. quote_lookup w i = Some a \<longrightarrow> status_of a = Q_approved \<longrightarrow> ag_allocations a = [])"
proof (intro conjI allI impI)
  note inv = reachable_inv(2) [OF assms(1)]
  show "on_hand (w_stock w') = on_hand (w_stock w)" using on_hand_quote_requests [OF inv, of e r] assms(2) by simp
  show "w_stock w' = w_stock w" if "\<not> plans r" using stock_quote_requests [OF inv that, of e] assms(2) by simp
  show "ag_allocations a = []" if "quote_lookup w i = Some a" "status_of a = Q_approved" for i a
    using quote_invD(4) [OF reachable_quote(2) [OF assms(1) that(1)]] that(2) by auto
qed

theorem finance_lock_takes_no_stock_witness:
  "\<exists>w i a w'. reachable sample_supply w \<and> quote_lookup w i = Some a \<and> status_of a = Q_approved \<and>
     handle sample_env (On_quotes (R_lock i sample_admin (qt_version (ag_quote a)))) w = (None, w') \<and>
     ag_allocations a = [] \<and> w_stock w' = w_stock w"
proof -
  obtain w i a where s: "sample_at Q_approved w i a" using sample_approved by blast
  note d = sample_atD [OF s] and inv = sample_at_inv [OF s]
  let ?v = "qt_version (ag_quote a)"
  obtain x where x: "current_assessment sample_env w a = Some x" "qa_decision x = D_allowed"
    using sample_current [OF inv d(1,5,4)] by blast
  have may: "actorHas (Some sample_admin) ''dealflow.quotes.lock''" by (simp add: actorHas_def actorDiscountRoles_def sample_admin_def)
  obtain w' where h: "handle sample_env (On_quotes (R_lock i sample_admin ?v)) w = (None, w')"
    using succeeds_run [OF confirm_succeeds [OF inv d(1,2) x(1) _ may]] x(2) by (auto simp: lockDeal_def)
  have "ag_allocations a = []" "w_stock w' = w_stock w"
    using finance_lock_takes_no_stock [OF sample_reachable [OF s] h] d(1,2) by auto
  then show ?thesis using sample_reachable [OF s] d(1,2) h by blast
qed

section \<open>What is bound to succeed\<close>

text \<open>Every stored quotation can be read and priced: in a reachable store \<open>getQuote\<close> and \<open>assess\<close> succeed on
  every stored quotation, since its customer and the products of its lines are never deleted.\<close>

theorem stored_quotations_load_and_price:
  assumes "reachable U w" and "quote_lookup w i = Some a"
  shows "(\<exists>v w'. getQuote e i act w = (Inr v, w')) \<and> (\<exists>v w'. assess e i act w = (Inr v, w'))"
proof -
  note inv = reachable_inv(2) [OF assms(1)]
  obtain b where b: "load i w = (Inr b, w)" "core b = core a" using load_total [OF inv assms(2)] by metis
  have l: "loaded w b" by (rule load_loaded(2) [OF inv b(1) HOL.refl])
  obtain x d where xd: "assess_in e w b = Inr (x, d)" using assess_total [OF loaded_facts(2) [OF inv l]] .
  have "qt_customerId (ag_quote d) \<in> cu_id ` set (w_customers (put_quote d w))"
    using loaded_facts(3) [OF inv l] core_eqD(6) [OF core_assess_in [OF xd]] by simp
  then obtain saved where sv: "attach (put_quote d w) d = Inr saved" using attach_total by blast
  have dec: "\<exists>v w'. decorate e c y u f w1 = (Inr v, w')" for c y u f w1 using returnsD [OF returns_decorate] .
  show ?thesis
    using dec [of d "Some x" act True w] dec [of d "Some x" act True "put_quote d w"] sv xd b(1)
    by (simp add: getQuote_def assess_def bnd_def refreshAssessment_def store_saveQuote_def)
qed

theorem stored_quotations_load_and_price_witness:
  "\<exists>w i a v w'. reachable sample_supply w \<and> quote_lookup w i = Some a \<and> getQuote sample_env i None w = (Inr v, w')"
proof -
  obtain w i a where s: "sample_at Q_draft w i a" using sample_draft by blast
  show ?thesis using stored_quotations_load_and_price [OF sample_reachable [OF s] sample_atD(1) [OF s]] sample_reachable [OF s] sample_atD(1) [OF s]
    by blast
qed

text \<open>C10: How a stored quotation is closed, status by status. With the current version an administrator completes an
  order that is confirmed, in fulfilment or in billing; voids a quotation in negotiation, review, approval required,
  approved or finalized, which makes it rejected; and deletes a draft or a rejected one. In every other status the
  request is refused, whoever sends it and whatever version it names, and the store is unchanged: an order is never
  voided or deleted, and a completed one is never completed again. Since the three groups contain every status but
  completed, no quotation is stuck before it is completed.\<close>

theorem every_quotation_can_be_closed:
  assumes "reachable U w" and "quote_lookup w i = Some a"
  shows "(if status_of a \<in> {Q_confirmed, Q_fulfillment, Q_billing}
     then act_role act = Some ''admin'' \<longrightarrow> (\<exists>w' b. handle e (On_quotes (R_complete i act (qt_version (ag_quote a)))) w = (None, w') \<and>
       quote_lookup w' i = Some b \<and> status_of b = Q_completed)
     else \<forall>v. \<exists>err. handle e (On_quotes (R_complete i act v)) w = (Some err, w)) \<and>
    (if status_of a \<in> {Q_customer_negotiation, Q_manager_review, Q_approval_required, Q_approved, Q_finalized}
     then act_role act = Some ''admin'' \<longrightarrow> (\<exists>w' b. handle e (On_quotes (R_voidQuote i act (qt_version (ag_quote a)))) w = (None, w') \<and>
       quote_lookup w' i = Some b \<and> status_of b = Q_rejected)
     else \<forall>v. \<exists>err. handle e (On_quotes (R_voidQuote i act v)) w = (Some err, w)) \<and>
    (if status_of a \<in> {Q_draft, Q_rejected}
     then act_role act = Some ''admin'' \<longrightarrow> (\<exists>w'. handle e (On_quotes (R_deleteQuote i act (qt_version (ag_quote a)))) w = (None, w') \<and>
       quote_lookup w' i = None)
     else \<forall>v. \<exists>err. handle e (On_quotes (R_deleteQuote i act v)) w = (Some err, w))"
proof (intro conjI)
  note inv = reachable_inv(2) [OF assms(1)]
  note refuses = closing_refuses [OF inv assms(2), where e = e and act = act]
  have admin: "actorHas (Some act) p" if "act_role act = Some ''admin''" for p
    using that by (simp add: actorHas_def actorDiscountRoles_def)
  have st: "canVoidQuote (status_of a) \<longleftrightarrow> status_of a \<in> {Q_customer_negotiation, Q_manager_review, Q_approval_required, Q_approved, Q_finalized}"
    "canDeleteQuote (status_of a) \<longleftrightarrow> status_of a \<in> {Q_draft, Q_rejected}"
    by (simp_all add: canVoidQuote_def canDeleteQuote_def)
  show "if status_of a \<in> {Q_confirmed, Q_fulfillment, Q_billing}
     then act_role act = Some ''admin'' \<longrightarrow> (\<exists>w' b. handle e (On_quotes (R_complete i act (qt_version (ag_quote a)))) w = (None, w') \<and>
       quote_lookup w' i = Some b \<and> status_of b = Q_completed)
     else \<forall>v. \<exists>err. handle e (On_quotes (R_complete i act v)) w = (Some err, w)"
    using succeeds_reaches [OF complete_succeeds [OF inv assms(2), of e act]] refuses(1)
    by (auto simp: reaches_def simp del: insert_iff)
  show "if status_of a \<in> {Q_customer_negotiation, Q_manager_review, Q_approval_required, Q_approved, Q_finalized}
     then act_role act = Some ''admin'' \<longrightarrow> (\<exists>w' b. handle e (On_quotes (R_voidQuote i act (qt_version (ag_quote a)))) w = (None, w') \<and>
       quote_lookup w' i = Some b \<and> status_of b = Q_rejected)
     else \<forall>v. \<exists>err. handle e (On_quotes (R_voidQuote i act v)) w = (Some err, w)"
    using succeeds_reaches [OF void_succeeds [OF inv assms(2) _ admin admin, of e]] refuses(2) unfolding st(1) [symmetric]
    by (auto simp: reaches_def)
  show "if status_of a \<in> {Q_draft, Q_rejected}
     then act_role act = Some ''admin'' \<longrightarrow> (\<exists>w'. handle e (On_quotes (R_deleteQuote i act (qt_version (ag_quote a)))) w = (None, w') \<and>
       quote_lookup w' i = None)
     else \<forall>v. \<exists>err. handle e (On_quotes (R_deleteQuote i act v)) w = (Some err, w)"
    using delete_succeeds [OF inv assms(2) _ admin, of e] refuses(3) unfolding st(2) [symmetric]
    by (fastforce simp: run_def)
qed

theorem every_quotation_can_be_closed_witness:
  "\<exists>w i a. reachable sample_supply w \<and> quote_lookup w i = Some a \<and> status_of a = Q_approved \<and>
    (\<exists>w' b. handle sample_env (On_quotes (R_voidQuote i sample_admin (qt_version (ag_quote a)))) w = (None, w') \<and> quote_lookup w' i = Some b \<and>
       status_of b = Q_rejected) \<and>
    (\<exists>err. handle sample_env (On_quotes (R_deleteQuote i sample_admin (qt_version (ag_quote a)))) w = (Some err, w))"
proof -
  obtain w i a where s: "sample_at Q_approved w i a" using sample_approved by blast
  note d = sample_atD(1,2) [OF s]
  have admin: "act_role sample_admin = Some ''admin''" by (simp add: sample_admin_def)
  show ?thesis using every_quotation_can_be_closed [OF sample_reachable [OF s] d(1), of sample_admin sample_env] sample_reachable [OF s] d admin
    by (simp del: handle.simps) blast
qed

text \<open>C11: What \<open>submit\<close> does with a finalized quotation that has lines, on every branch: a rejected assessment and
  an approval without a configured chain are refused with a conflict and change nothing; an allowed
  one (with or without warnings) becomes approved at once; otherwise the quotation waits for the steps
  of the chain its assessment selects.\<close>

theorem submit_follows_the_assessment:
  assumes "reachable U w" and "quote_lookup w i = Some a" and "status_of a = Q_finalized" and "ag_lines a \<noteq> []"
  shows "\<exists>x. current_assessment e w a = Some x \<and>
    (case qa_decision x of
       D_rejected \<Rightarrow> handle e (On_quotes (R_submit i act)) w = (Some (conflict (Workflow Exceeds_reject_ceilings)), w)
     | D_approval_required \<Rightarrow> (case chain_of w x of
          None \<Rightarrow> handle e (On_quotes (R_submit i act)) w = (Some (conflict (Approval Chain_required_not_configured)), w)
        | Some ch \<Rightarrow> \<exists>w' b f. handle e (On_quotes (R_submit i act)) w = (None, w') \<and> quote_lookup w' i = Some b \<and> status_of b = Q_approval_required \<and>
            ag_approvals b = buildApprovalSteps f (qt_id (ag_quote a)) ch (gc_maxApprovalLevels (governanceOf e w)))
     | _ \<Rightarrow> \<exists>w' b. handle e (On_quotes (R_submit i act)) w = (None, w') \<and> quote_lookup w' i = Some b \<and> status_of b = Q_approved)"
proof -
  note inv = reachable_inv(2) [OF assms(1)]
  obtain b where b: "load i w = (Inr b, w)" "attach w a = Inr b" using load_total [OF inv assms(2)] by metis
  have l: "loaded w b" by (rule load_loaded(2) [OF inv b(1) HOL.refl])
  obtain x d where xd: "assess_in e w b = Inr (x, d)" using assess_total [OF loaded_facts(2) [OF inv l]] .
  have x: "current_assessment e w a = Some x" by (simp add: current_assessment_def b(2) xd)
  have approve: "\<exists>w' b. handle e (On_quotes (R_submit i act)) w = (None, w') \<and> quote_lookup w' i = Some b \<and> status_of b = Q_approved"
    if "qa_decision x = D_allowed \<or> qa_decision x = D_warning"
    using succeeds_reaches [OF submit_approves [OF inv assms(2-4) x that, of act]] by (auto simp: reaches_def)
  have ask: "\<exists>w' b f. handle e (On_quotes (R_submit i act)) w = (None, w') \<and> quote_lookup w' i = Some b \<and> status_of b = Q_approval_required \<and>
      ag_approvals b = buildApprovalSteps f (qt_id (ag_quote a)) ch (gc_maxApprovalLevels (governanceOf e w))"
    if dec: "qa_decision x = D_approval_required" "chain_of w x = Some ch" for ch
  proof -
    obtain w' s c f where h: "run (submit e i act) w = (None, w')" "quote_lookup w' i = Some s" "core s = core c" "status_of c = Q_approval_required"
        "ag_approvals c = buildApprovalSteps f (qt_id (ag_quote a)) ch (gc_maxApprovalLevels (governanceOf e w))"
      using succeeds_run [OF submit_asks [OF inv assms(2-4) x dec, of act]] by (auto simp: holds_def reaches_def)
    then show ?thesis using core_readsD(1,4) [OF h(3)] by auto
  qed
  have refuse: "run (submit e i act) w = (Some err, w)" if "submit e i act w = (Inl err, w)" for err using that by (simp add: run_def)
  show ?thesis
  proof (intro exI [of _ x] conjI x)
    show "case qa_decision x of
       D_rejected \<Rightarrow> handle e (On_quotes (R_submit i act)) w = (Some (conflict (Workflow Exceeds_reject_ceilings)), w)
     | D_approval_required \<Rightarrow> (case chain_of w x of
          None \<Rightarrow> handle e (On_quotes (R_submit i act)) w = (Some (conflict (Approval Chain_required_not_configured)), w)
        | Some ch \<Rightarrow> \<exists>w' b f. handle e (On_quotes (R_submit i act)) w = (None, w') \<and> quote_lookup w' i = Some b \<and> status_of b = Q_approval_required \<and>
            ag_approvals b = buildApprovalSteps f (qt_id (ag_quote a)) ch (gc_maxApprovalLevels (governanceOf e w)))
     | _ \<Rightarrow> \<exists>w' b. handle e (On_quotes (R_submit i act)) w = (None, w') \<and> quote_lookup w' i = Some b \<and> status_of b = Q_approved"
      using approve ask refuse [OF submit_refuses(1) [OF inv assms(2-4) x]] refuse [OF submit_refuses(2) [OF inv assms(2-4) x]]
      by (cases "qa_decision x"; cases "chain_of w x") simp_all
  qed
qed

theorem submit_follows_the_assessment_witness:
  "\<exists>w i a w' b. reachable sample_supply w \<and> quote_lookup w i = Some a \<and> status_of a = Q_finalized \<and>
     handle sample_env (On_quotes (R_submit i sample_admin)) w = (None, w') \<and> quote_lookup w' i = Some b \<and> status_of b = Q_approved"
proof -
  obtain w i a where s: "sample_at Q_finalized w i a" using sample_finalized by blast
  note d = sample_atD(1-3) [OF s]
  obtain y where y: "current_assessment sample_env w a = Some y" "qa_decision y = D_allowed"
    using sample_current [OF sample_at_inv [OF s] d(1) sample_atD(5,4) [OF s]] by blast
  obtain x where x: "current_assessment sample_env w a = Some x"
      "qa_decision x = D_allowed \<longrightarrow> (\<exists>w' b. handle sample_env (On_quotes (R_submit i sample_admin)) w = (None, w') \<and> quote_lookup w' i = Some b \<and> status_of b = Q_approved)"
    using submit_follows_the_assessment [OF sample_reachable [OF s] d, of sample_env sample_admin] by force
  then obtain w' b where "handle sample_env (On_quotes (R_submit i sample_admin)) w = (None, w')" "quote_lookup w' i = Some b" "status_of b = Q_approved"
    using y by (simp del: handle.simps) blast
  then show ?thesis using sample_reachable [OF s] d(1,2) by blast
qed

text \<open>Locking an approved quotation: with the current version, an actor who may lock and an assessment that
  is not rejected, \<open>confirm\<close> succeeds, the quotation becomes a confirmed order with the same lines, one
  version later, locked at the time of the request.\<close>

theorem confirm_locks_the_order:
  assumes "reachable U w" and "quote_lookup w i = Some a" and "status_of a = Q_approved"
    and "current_assessment e w a = Some x" and "qa_decision x \<noteq> D_rejected" and "actorHas (Some act) ''dealflow.quotes.lock''"
  shows "\<exists>w' b. handle e (On_quotes (R_confirm i act (qt_version (ag_quote a)))) w = (None, w') \<and> quote_lookup w' i = Some b \<and>
    status_of b = Q_confirmed \<and> qt_version (ag_quote b) = qt_version (ag_quote a) + 1 \<and> ag_lines b = ag_lines a \<and>
    qt_financeLockedAt (ag_quote b) = Some (e_now e)"
proof -
  obtain w' s c where h: "run (service_confirm e i act (qt_version (ag_quote a))) w = (None, w')" "quote_lookup w' i = Some s" "core s = core c"
      "reaches Q_confirmed a c" "qt_financeLockedAt (ag_quote c) = Some (e_now e)"
    using succeeds_run [OF confirm_succeeds [OF reachable_inv(2) [OF assms(1)] assms(2-6)]] by (auto simp: holds_def)
  then show ?thesis using core_readsD(1-3,5) [OF h(3)] by (auto simp: reaches_def)
qed

theorem confirm_locks_the_order_witness:
  "\<exists>w i v w' b. reachable sample_supply w \<and> handle sample_env (On_quotes (R_confirm i sample_admin v)) w = (None, w') \<and>
     quote_lookup w' i = Some b \<and> status_of b = Q_confirmed \<and> qt_financeLockedAt (ag_quote b) = Some 0"
proof -
  obtain w i a where s: "sample_at Q_approved w i a" using sample_approved by blast
  note d = sample_atD(1,2) [OF s]
  obtain x where x: "current_assessment sample_env w a = Some x" "qa_decision x = D_allowed"
    using sample_current [OF sample_at_inv [OF s] d(1) sample_atD(5,4) [OF s]] by blast
  have ok: "qa_decision x \<noteq> D_rejected" using x(2) by simp
  obtain w' b where "handle sample_env (On_quotes (R_confirm i sample_admin (qt_version (ag_quote a)))) w = (None, w')" "quote_lookup w' i = Some b"
      "status_of b = Q_confirmed" "qt_financeLockedAt (ag_quote b) = Some (e_now sample_env)"
    using confirm_locks_the_order [OF sample_reachable [OF s] d x(1) ok sample_admin_facts(2)] by blast
  moreover have "e_now sample_env = 0" by (simp add: sample_env_def)
  ultimately show ?thesis using sample_reachable [OF s] by metis
qed

end
